(* ===== verification/Prelude.thy ===== *)
theory Prelude
  imports Main "HOL-Library.Word" "HOL-Library.Monad_Syntax" "HOL-Library.Multiset"
    "HOL-Library.Sublist"
begin

text \<open>
  Shared ground of the development: the machine types of the Go sources, the two ways a Go
  function can fail (a returned error, a run-time panic), indexing and slicing with their bounds
  checks, the \<^verbatim>\<open>encoding/binary\<close> little-endian accessors, \<^verbatim>\<open>bytes.Split\<close> and the list lemmas the
  components use.

  Conventions.  A Go value of type \<^verbatim>\<open>byte\<close>, \<^verbatim>\<open>uint16\<close>, \<^verbatim>\<open>uint32\<close> is a word of that width; \<^verbatim>\<open>int\<close>
  (64 bits on the target) is \<open>int\<close>, and a quantity that is a length or a count is \<open>nat\<close>.  A returned
  error is \<open>Inl\<close> of a sum type.  A function whose body indexes or slices returns an \<open>option\<close>, where
  \<open>None\<close> is the run-time panic; the theorems that such a function never panics say so by name.
\<close>

unbundle bit_operations_syntax

type_synonym byte = "8 word"
type_synonym u16 = "16 word"
type_synonym u32 = "32 word"
type_synonym u64 = "64 word"

named_theorems go_simps \<open>unfolding the Go primitives on in-range arguments\<close>
named_theorems eval_simps \<open>equations that let the simplifier evaluate closed terms\<close>

section \<open>Indexing and slicing\<close>

definition idx :: "'a list \<Rightarrow> int \<Rightarrow> 'a option" where
  "idx xs i = (if 0 \<le> i \<and> i < int (length xs) then Some (xs ! nat i) else None)"

definition slice :: "'a list \<Rightarrow> int \<Rightarrow> int \<Rightarrow> 'a list option" where
  "slice xs i j =
     (if 0 \<le> i \<and> i \<le> j \<and> j \<le> int (length xs) then Some (take (nat j - nat i) (drop (nat i) xs))
      else None)"

lemma idx_Some [go_simps]: "0 \<le> i \<Longrightarrow> i < int (length xs) \<Longrightarrow> idx xs i = Some (xs ! nat i)"
  by (simp add: idx_def)

lemma idx_None_iff: "idx xs i = None \<longleftrightarrow> i < 0 \<or> int (length xs) \<le> i"
  by (auto simp: idx_def)

lemma slice_Some [go_simps]:
  "0 \<le> i \<Longrightarrow> i \<le> j \<Longrightarrow> j \<le> int (length xs) \<Longrightarrow>
   slice xs i j = Some (take (nat j - nat i) (drop (nat i) xs))"
  by (simp add: slice_def)

lemma slice_None_iff: "slice xs i j = None \<longleftrightarrow> \<not> (0 \<le> i \<and> i \<le> j \<and> j \<le> int (length xs))"
  by (auto simp: slice_def)

lemma nat_int_diff_numeral [simp]: "nat (int n - numeral k) = n - numeral k"
  by (metis nat_int of_nat_numeral nat_minus_as_int)

lemma idx_0: "xs \<noteq> [] \<Longrightarrow> idx xs 0 = Some (hd xs)"
  by (cases xs) (simp_all add: idx_def)

lemma slice_drop_last:
  "n \<le> length xs \<Longrightarrow> slice xs 0 (int (length xs) - int n) = Some (take (length xs - n) xs)"
  by (auto simp: slice_def nat_diff_distrib')

lemma slice_last:
  "n \<le> length xs \<Longrightarrow>
   slice xs (int (length xs) - int n) (int (length xs)) = Some (drop (length xs - n) xs)"
  by (auto simp: slice_def nat_diff_distrib')

section \<open>Little-endian accessors\<close>

definition le16 :: "byte \<Rightarrow> byte \<Rightarrow> u16" where
  "le16 a b = ucast a OR push_bit 8 (ucast b)"

definition le32 :: "byte \<Rightarrow> byte \<Rightarrow> byte \<Rightarrow> byte \<Rightarrow> u32" where
  "le32 a b c d =
     ucast a OR push_bit 8 (ucast b) OR push_bit 16 (ucast c) OR push_bit 24 (ucast d)"

text \<open>\<^verbatim>\<open>binary.LittleEndian.Uint16\<close> and \<^verbatim>\<open>Uint32\<close> read the first bytes of the slice and panic on a
  shorter one; \<^verbatim>\<open>PutUint16\<close> and \<^verbatim>\<open>PutUint32\<close> write them.\<close>

definition uint16le :: "byte list \<Rightarrow> u16 option" where
  "uint16le xs = (case xs of a # b # _ \<Rightarrow> Some (le16 a b) | _ \<Rightarrow> None)"

definition uint32le :: "byte list \<Rightarrow> u32 option" where
  "uint32le xs = (case xs of a # b # c # d # _ \<Rightarrow> Some (le32 a b c d) | _ \<Rightarrow> None)"

definition put16 :: "u16 \<Rightarrow> byte list" where
  "put16 w = [ucast w, ucast (drop_bit 8 w)]"

definition put32 :: "u32 \<Rightarrow> byte list" where
  "put32 w = [ucast w, ucast (drop_bit 8 w), ucast (drop_bit 16 w), ucast (drop_bit 24 w)]"

text \<open>The word tables of the DIAG formats: \<^verbatim>\<open>for index := range words { words[index] =
  binary.LittleEndian.Uint32(payload[offset+index*4:]) }\<close>.\<close>

fun read_words :: "byte list \<Rightarrow> nat \<Rightarrow> nat \<Rightarrow> u32 list option" where
  "read_words payload offset 0 = Some []"
| "read_words payload offset (Suc n) = do {
     s \<leftarrow> slice payload (int offset) (int (length payload));
     w \<leftarrow> uint32le s;
     ws \<leftarrow> read_words payload (offset + 4) n;
     Some (w # ws) }"

lemma length_put16 [simp]: "length (put16 w) = 2"
  by (simp add: put16_def)

lemma put16_not_Nil [simp]: "put16 w \<noteq> []"
  by (simp add: put16_def)

lemma length_put32 [simp]: "length (put32 w) = 4"
  by (simp add: put32_def)

lemma byte_bit_out_of_range [simp]: "bit (x :: byte) (8 + n) = False"
  using bit_imp_le_length [of x "8 + n"] by auto

lemma le16_put: "le16 (ucast w) (ucast (drop_bit 8 w)) = w"
  by (rule bit_word_eqI) (auto simp: le16_def bit_simps)

lemma le32_put:
  "le32 (ucast w) (ucast (drop_bit 8 w)) (ucast (drop_bit 16 w)) (ucast (drop_bit 24 w)) = w"
proof (rule bit_word_eqI)
  fix n assume "n < LENGTH(32)"
  then consider "n < 8" | "8 \<le> n" "n < 16" | "16 \<le> n" "n < 24" | "24 \<le> n" "n < 32"
    by force
  then show "bit (le32 (ucast w) (ucast (drop_bit 8 w)) (ucast (drop_bit 16 w))
      (ucast (drop_bit 24 w))) n = bit w n"
    by cases (auto simp: le32_def bit_simps)
qed

lemma put16_le16: "put16 (le16 a b) = [a, b]"
  by (auto intro!: bit_word_eqI simp: le16_def put16_def bit_simps)

lemma put32_le32: "put32 (le32 a b c d) = [a, b, c, d]"
proof -
  have "bit x (16 + n) = False" "bit x (24 + n) = False" for x :: byte and n
    using bit_imp_le_length [of x "16 + n"] bit_imp_le_length [of x "24 + n"] by auto
  then show ?thesis
    by (auto intro!: bit_word_eqI simp: le32_def put32_def bit_simps)
qed

lemma uint16le_put16 [simp]: "uint16le (put16 w @ xs) = Some w"
  by (simp add: uint16le_def put16_def le16_put)

lemma uint32le_put32 [simp]: "uint32le (put32 w @ xs) = Some w"
  by (simp add: uint32le_def put32_def le32_put)

lemma uint16le_put16_alone [simp]: "uint16le (put16 w) = Some w"
  using uint16le_put16 [of w "[]"] by simp

lemma uint32le_put32_alone [simp]: "uint32le (put32 w) = Some w"
  using uint32le_put32 [of w "[]"] by simp

lemma uint16le_defined [go_simps]: "2 \<le> length xs \<Longrightarrow> \<exists>w. uint16le xs = Some w"
  by (auto simp: uint16le_def neq_Nil_conv Suc_le_length_iff numeral_2_eq_2 split: list.splits)

lemma uint16le_None_iff: "uint16le xs = None \<longleftrightarrow> length xs < 2"
  by (auto simp: uint16le_def split: list.splits)

lemma uint32le_None_iff: "uint32le xs = None \<longleftrightarrow> length xs < 4"
  by (auto simp: uint32le_def split: list.splits)

lemma uint16le_exact: "length xs = 2 \<Longrightarrow> uint16le xs = Some w \<Longrightarrow> xs = put16 w"
  by (auto simp: uint16le_def put16_le16 split: list.splits)

lemma read_words_total: "offset + 4 * n \<le> length p \<Longrightarrow> \<exists>ws. read_words p offset n = Some ws \<and> length ws = n"
proof (induction n arbitrary: offset)
  case (Suc n)
  then have "offset + 4 + 4 * n \<le> length p" by simp
  from Suc.IH [OF this] obtain ws where "read_words p (offset + 4) n = Some ws" "length ws = n"
    by blast
  moreover obtain s where s: "slice p (int offset) (int (length p)) = Some s" "s = drop offset p"
    using Suc.prems by (auto simp: slice_def)
  moreover obtain w where "uint32le s = Some w"
    using s Suc.prems by (cases "uint32le s") (auto simp: uint32le_None_iff)
  ultimately show ?case by simp
qed simp

lemma read_words_put32:
  "read_words (pre @ concat (map put32 ws) @ post) (length pre) (length ws) = Some ws"
proof (induction ws arbitrary: pre)
  case (Cons w ws)
  have "read_words ((pre @ put32 w) @ concat (map put32 ws) @ post) (length (pre @ put32 w)) (length ws) = Some ws"
    by (rule Cons.IH)
  then show ?case by (simp add: slice_def)
qed simp

lemma uint16le_prefix: "uint16le xs = Some w \<Longrightarrow> take 2 xs = put16 w"
  by (auto simp: uint16le_def put16_le16 split: list.splits)

lemma uint32le_prefix: "uint32le xs = Some w \<Longrightarrow> take 4 xs = put32 w"
  by (auto simp: uint32le_def put32_le32 split: list.splits)

lemma read_words_inv:
  "read_words p offset n = Some ws \<Longrightarrow> offset + 4 * n \<le> length p \<Longrightarrow>
   take (4 * n) (drop offset p) = concat (map put32 ws)"
proof (induction n arbitrary: offset ws)
  case (Suc n)
  then obtain s w ws' where s: "slice p (int offset) (int (length p)) = Some s" "uint32le s = Some w"
      and ws': "read_words p (offset + 4) n = Some ws'" and ws: "ws = w # ws'"
    by (auto split: Option.bind_splits)
  have 1: "take 4 (drop offset p) = put32 w"
    using s uint32le_prefix [of s w] by (auto simp: slice_def split: if_splits)
  have "offset + 4 + 4 * n \<le> length p" using Suc.prems by simp
  from Suc.IH [OF ws' this] have 2: "take (4 * n) (drop (4 + offset) p) = concat (map put32 ws')"
    by (simp add: add.commute)
  have "take (4 * Suc n) (drop offset p) = take 4 (drop offset p) @ take (4 * n) (drop 4 (drop offset p))"
    by (simp only: mult_Suc_right take_add)
  with 1 2 ws show ?case by (simp only: drop_drop list.map concat.simps)
qed simp

lemma length_read_words: "read_words p k n = Some ws \<Longrightarrow> length ws = n"
  by (induction p k n arbitrary: ws rule: read_words.induct) (auto split: Option.bind_splits)

lemma slice_uint16le: "0 \<le> i \<Longrightarrow> j = i + 2 \<Longrightarrow> j \<le> int (length xs) \<Longrightarrow> \<exists>w. slice xs i j \<bind> uint16le = Some w"
  by (cases "uint16le (take 2 (drop (nat i) xs))")
    (auto simp: slice_def uint16le_None_iff nat_add_distrib)

lemma slice_uint32le: "0 \<le> i \<Longrightarrow> j = i + 4 \<Longrightarrow> j \<le> int (length xs) \<Longrightarrow> \<exists>w. slice xs i j \<bind> uint32le = Some w"
  by (cases "uint32le (take 4 (drop (nat i) xs))")
    (auto simp: slice_def uint32le_None_iff nat_add_distrib)

lemma two_elements: "length xs = 2 \<Longrightarrow> \<exists>a b. xs = [a, b]"
  by (auto simp: length_Suc_conv numeral_2_eq_2)

lemma read_words_0 [eval_simps]: "read_words p k 0 = Some []"
  by simp

lemma read_words_numeral [eval_simps]:
  "read_words p k (numeral n) = do {
     s \<leftarrow> slice p (int k) (int (length p));
     w \<leftarrow> uint32le s;
     ws \<leftarrow> read_words p (k + 4) (pred_numeral n);
     Some (w # ws) }"
  by (simp add: numeral_eq_Suc)

lemma read_words_1 [eval_simps]:
  "read_words p k (Suc 0) = do { s \<leftarrow> slice p (int k) (int (length p)); w \<leftarrow> uint32le s; Some [w] }"
  by simp

declare read_words.simps [simp del]

lemma ex_map_Inr_Cons:
  "(\<exists>ds. map h (x # xs) = map Inr ds \<and> P ds) \<longleftrightarrow>
   (\<exists>d ds. h x = Inr d \<and> map h xs = map Inr ds \<and> P (d # ds))"
  by (auto simp: Cons_eq_map_conv)

section \<open>Word facts\<close>

lemma xor_twice [simp]: "(a XOR c) XOR c = a" for a c :: "'a::len word"
  by (simp add: xor.assoc)

lemma xor_right_cancel [simp]: "(a XOR c = b XOR c) = (a = b)" for a b c :: "'a::len word"
  by (metis xor_twice)

lemma xor_left_cancel [simp]: "(c XOR a = c XOR b) = (a = b)" for a b c :: "'a::len word"
  by (metis xor.commute xor_twice)

lemma ucast_byte_inj: "(ucast a :: u16) = ucast b \<Longrightarrow> a = b" for a b :: byte
proof -
  assume e: "(ucast a :: u16) = ucast b"
  have "bit (ucast a :: u16) n = bit (ucast b :: u16) n" for n
    using e by simp
  then show ?thesis
    by (intro bit_word_eqI) (fastforce simp: bit_simps)
qed

section \<open>Splitting on a separator\<close>

text \<open>\<^verbatim>\<open>bytes.Split(data, []byte{sep})\<close> and \<^verbatim>\<open>strings.Split\<close> with a one-byte separator: one segment
  more than there are separators, empty ones included.\<close>

fun split_on :: "'a \<Rightarrow> 'a list \<Rightarrow> 'a list list" where
  "split_on s [] = [[]]"
| "split_on s (x # xs) =
     (if x = s then [] # split_on s xs
      else (case split_on s xs of [] \<Rightarrow> [[x]] | y # ys \<Rightarrow> (x # y) # ys))"

lemma split_on_nonempty [simp]: "split_on s xs \<noteq> []"
  by (induction xs) (auto split: list.splits)

lemma length_split_on: "length (split_on s xs) = Suc (count_list xs s)"
  by (induction xs) (auto split: list.splits)

lemma split_on_no_sep: "s \<notin> set xs \<Longrightarrow> split_on s xs = [xs]"
  by (induction xs) auto

lemma split_on_append: "s \<notin> set xs \<Longrightarrow> split_on s (xs @ s # ys) = xs # split_on s ys"
  by (induction xs) auto

lemma split_on_segment: "seg \<in> set (split_on s xs) \<Longrightarrow> s \<notin> set seg"
proof (induction xs arbitrary: seg)
  case (Cons x xs)
  then show ?case by (fastforce split: if_splits list.splits)
qed simp

lemma split_on_partial:
  "s \<notin> set rest \<Longrightarrow> butlast (split_on s (xs @ s # rest)) = butlast (split_on s (xs @ [s]))"
proof (induction xs)
  case Nil
  then show ?case by (simp add: split_on_no_sep)
next
  case (Cons x xs)
  have "split_on s (xs @ [s]) \<noteq> []" "split_on s (xs @ s # rest) \<noteq> []" by simp_all
  moreover have "length (split_on s (xs @ [s])) = length (split_on s (xs @ s # rest))"
    using Cons.prems by (simp add: length_split_on count_list_0_iff)
  moreover have "2 \<le> length (split_on s (xs @ [s]))" by (simp add: length_split_on)
  ultimately show ?case using Cons by (auto split: list.splits)
qed

section \<open>Monadic folds\<close>

text \<open>A \<^verbatim>\<open>for range\<close> loop whose body can panic.\<close>

fun ofold :: "('s \<Rightarrow> 'a \<Rightarrow> 's option) \<Rightarrow> 's \<Rightarrow> 'a list \<Rightarrow> 's option" where
  "ofold f s [] = Some s"
| "ofold f s (x # xs) = do { s' \<leftarrow> f s x; ofold f s' xs }"

lemma ofold_total:
  assumes "\<And>s x. I s \<Longrightarrow> x \<in> set xs \<Longrightarrow> \<exists>s'. f s x = Some s' \<and> I s'" and "I s"
  shows "\<exists>s'. ofold f s xs = Some s' \<and> I s'"
  using assms
proof (induction xs arbitrary: s)
  case (Cons x xs)
  from Cons.prems obtain s' where "f s x = Some s'" "I s'" by (metis list.set_intros(1))
  moreover from Cons.IH [of s'] Cons.prems this have "\<exists>t. ofold f s' xs = Some t \<and> I t" by auto
  ultimately show ?case by simp
qed auto

lemma ofold_append: "ofold f s (xs @ ys) = do { s' \<leftarrow> ofold f s xs; ofold f s' ys }"
  by (induction xs arbitrary: s) (auto split: Option.bind_splits)

section \<open>Lists\<close>

lemma nth_mem_slice: "i < length xs \<Longrightarrow> take 1 (drop i xs) = [xs ! i]"
  by (metis One_nat_def drop_eq_Nil hd_drop_conv_nth leD take0 take_Suc)

lemma take_split_at:
  "i < n \<Longrightarrow> n \<le> length d \<Longrightarrow> take n d = take i d @ d ! i # drop (Suc i) (take n d)"
  using id_take_nth_drop [of i "take n d"] by (simp add: min_def)

lemma take_update_split:
  "i < n \<Longrightarrow> n \<le> length d \<Longrightarrow> take n (d[i := b]) = take i d @ b # drop (Suc i) (take n d)"
  using upd_conv_take_nth_drop [of i "take n d" b] by (simp add: take_update_swap min_def)

lemma concat_replicate_length:
  "(\<And>x. x \<in> set xs \<Longrightarrow> length (f x) = k) \<Longrightarrow> length (concat (map f xs)) = k * length xs"
  by (induction xs) auto

lemma drop_concat_fixed:
  assumes "\<And>x. length (f x) = k" and "i \<le> length xs"
  shows "drop (k * i) (concat (map f xs)) = concat (map f (drop i xs))"
  using assms(2)
proof (induction xs arbitrary: i)
  case (Cons x xs)
  then show ?case by (cases i) (auto simp: assms(1))
qed simp

end
