(* ===== verification/Float64.thy ===== *)
theory Float64
  imports Complex_Main
begin

text \<open>
  IEEE 754 binary64 arithmetic as the Go sources use it: a finite \<^verbatim>\<open>float64\<close> is the rational number
  it denotes, and every operation is the exact one followed by \<open>fl\<close>, rounding to nearest, ties to
  even, at 53 bits of significand.  The signal values of the program have magnitudes between
  \<open>2 powr -60\<close> and \<open>2 powr 60\<close> (or are zero), so the bounded exponent, infinities, NaN and the sign
  of zero play no role.  The lemmas: rounding respects every grid of representable numbers, is exact
  on it, and has relative error at most \<open>2 powr -53\<close>.
\<close>

section \<open>Definitions\<close>

definition exp2 :: "int \<Rightarrow> rat" where
  "exp2 e = (if 0 \<le> e then 2 ^ nat e else 1 / 2 ^ nat (- e))"

fun log2_floor :: "nat \<Rightarrow> nat" where
  "log2_floor n = (if n < 2 then 0 else Suc (log2_floor (n div 2)))"

declare log2_floor.simps [simp del]

text \<open>The binary exponent of a positive rational.\<close>

definition ilog2 :: "rat \<Rightarrow> int" where
  "ilog2 x =
     (case quotient_of x of (p, q) \<Rightarrow>
        let e = int (log2_floor (nat p)) - int (log2_floor (nat q))
        in if exp2 e \<le> x then e else e - 1)"

definition round_half_even :: "rat \<Rightarrow> int" where
  "round_half_even x =
     (let f = \<lfloor>x\<rfloor>; d = x - of_int f
      in if d < 1 / 2 then f else if 1 / 2 < d then f + 1 else if even f then f else f + 1)"

definition fl :: "rat \<Rightarrow> rat" where
  "fl x = (if x = 0 then 0
           else let u = exp2 (ilog2 \<bar>x\<bar> - 52) in of_int (round_half_even (x / u)) * u)"

definition f64_add :: "rat \<Rightarrow> rat \<Rightarrow> rat" where "f64_add a b = fl (a + b)"
definition f64_sub :: "rat \<Rightarrow> rat \<Rightarrow> rat" where "f64_sub a b = fl (a - b)"
definition f64_mul :: "rat \<Rightarrow> rat \<Rightarrow> rat" where "f64_mul a b = fl (a * b)"
definition f64_div :: "rat \<Rightarrow> rat \<Rightarrow> rat" where "f64_div a b = fl (a / b)"

lemmas f64_defs = f64_add_def f64_sub_def f64_mul_def f64_div_def

section \<open>Powers of two and the exponent\<close>

lemma exp2_pos [simp]: "0 < exp2 e"
  by (simp add: exp2_def)

lemma exp2_nonzero [simp]: "exp2 e \<noteq> 0"
  using exp2_pos [of e] by linarith

lemma abs_exp2 [simp]: "\<bar>exp2 e\<bar> = exp2 e"
  using exp2_pos [of e] by linarith

lemma exp2_powi: "exp2 e = 2 powi e"
  by (simp add: exp2_def power_int_def inverse_eq_divide power_one_over)

lemma exp2_add: "exp2 (a + b) = exp2 a * exp2 b"
  by (simp add: exp2_powi power_int_add)

lemma exp2_mono: "a \<le> b \<Longrightarrow> exp2 a \<le> exp2 b"
  by (simp add: exp2_powi power_int_increasing)

lemma exp2_less_iff: "exp2 a < exp2 b \<longleftrightarrow> a < b"
proof
  show "exp2 a < exp2 b \<Longrightarrow> a < b" using exp2_mono [of b a] by linarith
  show "a < b \<Longrightarrow> exp2 a < exp2 b" by (simp add: exp2_powi power_int_strict_increasing)
qed

lemma exp2_int: "0 \<le> e \<Longrightarrow> exp2 e = of_int (2 ^ nat e)"
  by (simp add: exp2_def)

lemma log2_floor_bounds:
  assumes "0 < n"
  shows "2 ^ log2_floor n \<le> n" and "n < 2 ^ (log2_floor n + 1)"
  using assms
proof (induction n rule: log2_floor.induct)
  case (1 n)
  {
    case 1
    show ?case
    proof (cases "n < 2")
      case False
      with "1.IH"(1) have "2 ^ log2_floor (n div 2) \<le> n div 2" by auto
      with False show ?thesis by (subst log2_floor.simps) simp
    qed (use 1 in \<open>simp add: log2_floor.simps\<close>)
  next
    case 2
    show ?case
    proof (cases "n < 2")
      case False
      with "1.IH"(2) have "n div 2 < 2 ^ (log2_floor (n div 2) + 1)" by auto
      with False show ?thesis by (subst log2_floor.simps) simp
    qed (use 2 in \<open>simp add: log2_floor.simps\<close>)
  }
qed

lemma ilog2_bounds:
  assumes "0 < x"
  shows "exp2 (ilog2 x) \<le> x" and "x < exp2 (ilog2 x + 1)"
proof -
  obtain p q where pq: "quotient_of x = (p, q)" by fastforce
  have q: "0 < q" using pq by (rule quotient_of_denom_pos)
  have x: "x = of_int p / of_int q" using pq by (rule quotient_of_div)
  with assms q have p: "0 < p" by (simp add: zero_less_divide_iff)
  let ?a = "log2_floor (nat p)" and ?b = "log2_floor (nat q)"
  have "2 ^ ?a \<le> nat p" "nat p < 2 ^ (?a + 1)" "2 ^ ?b \<le> nat q" "nat q < 2 ^ (?b + 1)"
    using p q by (simp_all only: log2_floor_bounds zero_less_nat_eq)
  then have "int (2 ^ ?a) \<le> p" "p < int (2 ^ (?a + 1))" "int (2 ^ ?b) \<le> q" "q < int (2 ^ (?b + 1))"
    using p q by linarith+
  then have ints: "2 ^ ?a \<le> p" "p < 2 ^ (?a + 1)" "2 ^ ?b \<le> q" "q < 2 ^ (?b + 1)"
    by simp_all
  have "(of_int (2 ^ ?a) :: rat) \<le> of_int p" "of_int p < (of_int (2 ^ (?a + 1)) :: rat)"
    "(of_int (2 ^ ?b) :: rat) \<le> of_int q" "of_int q < (of_int (2 ^ (?b + 1)) :: rat)"
    using ints by (simp_all only: of_int_le_iff of_int_less_iff)
  then have r: "(2 ^ ?a :: rat) \<le> of_int p" "of_int p < (2 ^ (?a + 1) :: rat)"
    "(2 ^ ?b :: rat) \<le> of_int q" "of_int q < (2 ^ (?b + 1) :: rat)"
    by simp_all
  let ?e = "int ?a - int ?b"
  have e: "exp2 ?e = 2 ^ ?a / 2 ^ ?b" by (simp add: exp2_powi power_int_diff)
  have up: "x < exp2 (?e + 1)"
  proof -
    have "x < 2 ^ (?a + 1) / of_int q" using r q by (simp add: x divide_strict_right_mono)
    also have "\<dots> \<le> 2 ^ (?a + 1) / 2 ^ ?b" using r(3) by (intro divide_left_mono) (auto simp: q)
    also have "\<dots> = exp2 (?e + 1)"
      using e by (simp only: exp2_add) (simp add: exp2_def)
    finally show ?thesis .
  qed
  have low: "exp2 (?e - 1) < x"
  proof -
    have "exp2 (?e - 1) = 2 ^ ?a / 2 ^ (?b + 1)"
      using exp2_add [of "?e - 1" 1] e by (simp add: exp2_def field_simps)
    also have "\<dots> < 2 ^ ?a / of_int q" using r(4) q by (intro divide_strict_left_mono) auto
    also have "\<dots> \<le> x" using r(1) q by (simp add: x divide_right_mono)
    finally show ?thesis .
  qed
  have "ilog2 x = (if exp2 ?e \<le> x then ?e else ?e - 1)" by (simp add: ilog2_def pq Let_def)
  then show "exp2 (ilog2 x) \<le> x" and "x < exp2 (ilog2 x + 1)" using up low by (auto split: if_splits)
qed

section \<open>Rounding to an integer\<close>

lemma round_half_even_mono_int: "of_int k \<le> x \<Longrightarrow> k \<le> round_half_even x"
  unfolding round_half_even_def Let_def by (auto simp: le_floor_iff[symmetric])

lemma round_half_even_upper_int: "x \<le> of_int k \<Longrightarrow> round_half_even x \<le> k"
proof -
  assume x: "x \<le> of_int k"
  have f: "\<lfloor>x\<rfloor> \<le> k" using x by linarith
  show ?thesis
  proof (cases "\<lfloor>x\<rfloor> = k")
    case True
    then have "x = of_int k" using x by linarith
    then show ?thesis by (simp add: round_half_even_def)
  next
    case False
    with f have "\<lfloor>x\<rfloor> + 1 \<le> k" by linarith
    then show ?thesis unfolding round_half_even_def Let_def by auto
  qed
qed

lemma round_half_even_int [simp]: "round_half_even (of_int k) = k"
  by (simp add: round_half_even_def)

lemma round_half_even_error: "\<bar>of_int (round_half_even x) - x\<bar> \<le> 1 / 2"
proof -
  have "of_int \<lfloor>x\<rfloor> \<le> x" "x < of_int \<lfloor>x\<rfloor> + 1" by linarith+
  then show ?thesis unfolding round_half_even_def Let_def abs_le_iff
    by (simp split: if_splits) linarith
qed

section \<open>Rounding to a double\<close>

lemma fl_0 [simp]: "fl 0 = 0"
  by (simp add: fl_def)

text \<open>Every multiple of \<open>exp2 (- j)\<close> below \<open>exp2 (53 - j)\<close> in magnitude is a double, and rounding does not
  cross it.\<close>

lemma grid_multiple:
  assumes "x \<noteq> 0" and "\<bar>x\<bar> < exp2 (53 - j)"
  obtains m :: int where "exp2 (- j) = of_int m * exp2 (ilog2 \<bar>x\<bar> - 52)"
proof
  have "exp2 (ilog2 \<bar>x\<bar>) < exp2 (53 - j)"
    using assms ilog2_bounds(1) [of "\<bar>x\<bar>"] by linarith
  then have e: "0 \<le> - j - (ilog2 \<bar>x\<bar> - 52)" by (simp add: exp2_less_iff)
  then show "exp2 (- j) = of_int (2 ^ nat (- j - (ilog2 \<bar>x\<bar> - 52))) * exp2 (ilog2 \<bar>x\<bar> - 52)"
    using exp2_add [of "- j - (ilog2 \<bar>x\<bar> - 52)" "ilog2 \<bar>x\<bar> - 52"] exp2_int [OF e] by simp
qed

lemma fl_ge_grid:
  assumes "\<bar>x\<bar> < exp2 (53 - j)" and "of_int k * exp2 (- j) \<le> x"
  shows "of_int k * exp2 (- j) \<le> fl x"
proof (cases "x = 0")
  case False
  let ?u = "exp2 (ilog2 \<bar>x\<bar> - 52)"
  obtain m :: int where m: "exp2 (- j) = of_int m * ?u" using grid_multiple [OF False assms(1)] .
  have "of_int (k * m) \<le> x / ?u" using assms(2) by (simp add: m pos_le_divide_eq mult.assoc)
  then have "k * m \<le> round_half_even (x / ?u)" by (rule round_half_even_mono_int)
  then have "of_int (k * m) * ?u \<le> of_int (round_half_even (x / ?u)) * ?u"
    by (intro mult_right_mono) (auto simp only: of_int_le_iff exp2_pos less_imp_le)
  then show ?thesis using False by (simp add: fl_def Let_def m mult.assoc)
qed (use assms in simp)

lemma fl_le_grid:
  assumes "\<bar>x\<bar> < exp2 (53 - j)" and "x \<le> of_int k * exp2 (- j)"
  shows "fl x \<le> of_int k * exp2 (- j)"
proof (cases "x = 0")
  case False
  let ?u = "exp2 (ilog2 \<bar>x\<bar> - 52)"
  obtain m :: int where m: "exp2 (- j) = of_int m * ?u" using grid_multiple [OF False assms(1)] .
  have "x / ?u \<le> of_int (k * m)" using assms(2) by (simp add: m pos_divide_le_eq mult.assoc)
  then have "round_half_even (x / ?u) \<le> k * m" by (rule round_half_even_upper_int)
  then have "of_int (round_half_even (x / ?u)) * ?u \<le> of_int (k * m) * ?u"
    by (intro mult_right_mono) (auto simp only: of_int_le_iff exp2_pos less_imp_le)
  then show ?thesis using False by (simp add: fl_def Let_def m mult.assoc)
qed (use assms in simp)

lemma fl_exact:
  assumes "\<bar>x\<bar> < exp2 (53 - j)" and "x = of_int k * exp2 (- j)"
  shows "fl x = x"
  using fl_ge_grid [OF assms(1), of k] fl_le_grid [OF assms(1), of k] assms(2) by simp

lemma fl_of_int: "\<bar>k\<bar> < 2 ^ 53 \<Longrightarrow> fl (of_int k) = of_int k"
proof (rule fl_exact [of _ 0 k])
  assume "\<bar>k\<bar> < 2 ^ 53"
  then have "(of_int \<bar>k\<bar> :: rat) < of_int (2 ^ 53)" by (simp only: of_int_less_iff)
  then show "\<bar>of_int k :: rat\<bar> < exp2 (53 - 0)" by (simp add: exp2_def)
qed (simp add: exp2_def)

lemma fl_int_bounds:
  assumes "\<bar>x\<bar> < 2 ^ 53"
  shows "of_int k \<le> x \<Longrightarrow> of_int k \<le> fl x" and "x \<le> of_int k \<Longrightarrow> fl x \<le> of_int k"
  using fl_ge_grid [of x 0 k] fl_le_grid [of x 0 k] assms by (auto simp: exp2_def)

lemma fl_error: "\<bar>fl x - x\<bar> \<le> \<bar>x\<bar> / 2 ^ 53"
proof (cases "x = 0")
  case False
  let ?u = "exp2 (ilog2 \<bar>x\<bar> - 52)"
  have "fl x - x = (of_int (round_half_even (x / ?u)) - x / ?u) * ?u"
    using False by (simp add: fl_def Let_def left_diff_distrib)
  then have "\<bar>fl x - x\<bar> = \<bar>of_int (round_half_even (x / ?u)) - x / ?u\<bar> * ?u"
    by (simp add: abs_mult)
  also have "\<dots> \<le> 1 / 2 * ?u"
    by (intro mult_right_mono round_half_even_error) (simp add: less_imp_le)
  also have "\<dots> = exp2 (ilog2 \<bar>x\<bar>) / 2 ^ 53"
    using exp2_add [of "ilog2 \<bar>x\<bar> - 52" 52] by (simp add: exp2_def)
  also have "\<dots> \<le> \<bar>x\<bar> / 2 ^ 53"
    using ilog2_bounds(1) [of "\<bar>x\<bar>"] False by (intro divide_right_mono) auto
  finally show ?thesis .
qed simp

end
