(* ===== verification/Qsh_Decode.thy ===== *)
theory Qsh_Decode
  imports Go_Strings Float64
begin

text \<open>
  The record decoders of the reducer's QMDL analyser, \<^verbatim>\<open>u60-qtrace-reducer/qmdl.go\<close>: the targets, the
  data types, and the tables that turn the argument words of one QShrink (QSH) trace record into an
  LTE measurement report, an NR candidate or the layout of an NR report.

  The lemmas: no decoder reads a word out of range; what a decoder accepts has a plausible identity
  and signal; the fixed-point signal checks are exact although the code does them in
  \<^verbatim>\<open>float64\<close>; rounding to hundredths stays within half a hundredth (up to the rounding of the double)
  and does not leave the plausible range.
\<close>

section \<open>Targets\<close>

type_synonym targetKind = string

definition targetNR :: targetKind where "targetNR = ''nr''"
definition targetLTE :: targetKind where "targetLTE = ''lte''"
definition targetCombined :: targetKind where "targetCombined = ''combined''"

definition parseTarget :: "string \<Rightarrow> string + targetKind" where
  "parseTarget value' =
     (let t = ToLower (TrimSpace value') in
      if t = targetNR then Inr targetNR
      else if t = targetLTE then Inr targetLTE
      else if t = targetCombined \<or> t = ''nr+lte'' \<or> t = ''lte+nr'' then Inr targetCombined
      else Inl value')"

section \<open>Data\<close>

record servingIdentity =
  si_RAT :: string
  si_PCI :: u32
  si_ARFCN :: u32

record parsedCell =
  pc_RAT :: string
  pc_PCI :: u32
  pc_ARFCN :: u32
  pc_Band :: u32
  pc_RSRP :: rat
  pc_Samples :: nat

record captureMetrics =
  CapturedBytes :: int
  FrameCount :: int
  MalformedFrames :: int
  QSHFrameCount :: int
  QSHTotalBytes :: int
  TargetHashCount :: int
  ParseSuccessCount :: int
  ParseErrorCount :: int
  NRCellCount :: int
  LTECellCount :: int
  NRHashCount :: int
  LTEHashCount :: int
  Cells :: "parsedCell list"

definition empty_metrics :: captureMetrics where
  "empty_metrics = \<lparr>CapturedBytes = 0, FrameCount = 0, MalformedFrames = 0, QSHFrameCount = 0,
     QSHTotalBytes = 0, TargetHashCount = 0, ParseSuccessCount = 0, ParseErrorCount = 0,
     NRCellCount = 0, LTECellCount = 0, NRHashCount = 0, LTEHashCount = 0, Cells = []\<rparr>"

definition matches :: "captureMetrics \<Rightarrow> targetKind \<Rightarrow> bool" where
  "matches metrics target =
     (if target = targetNR then NRCellCount metrics > 0
      else if target = targetLTE then LTECellCount metrics > 0
      else if target = targetCombined then NRCellCount metrics > 0 \<and> LTECellCount metrics > 0
      else False)"

record qshCandidate =
  qc_seq :: u32
  qc_file :: u32
  qc_pci :: u32
  qc_arfcn :: u32
  qc_band :: u32

record qshReport =
  qr_seq :: u32
  qr_file :: u32
  qr_rat :: u32
  qr_pci :: u32
  qr_arfcn :: u32
  qr_band :: u32
  qr_rsrp :: rat
  qr_direct :: bool
  qr_requiresARFCN :: bool

definition zero_candidate :: qshCandidate where
  "zero_candidate = \<lparr>qc_seq = 0, qc_file = 0, qc_pci = 0, qc_arfcn = 0, qc_band = 0\<rparr>"

definition zero_report :: qshReport where
  "zero_report = \<lparr>qr_seq = 0, qr_file = 0, qr_rat = 0, qr_pci = 0, qr_arfcn = 0, qr_band = 0,
     qr_rsrp = 0, qr_direct = False, qr_requiresARFCN = False\<rparr>"

section \<open>Signal values\<close>

text \<open>An \<^verbatim>\<open>int32(word)\<close> conversion is \<open>sint\<close>; the conversion of such a value to \<^verbatim>\<open>float64\<close> is exact.\<close>

definition roundQSH :: "rat \<Rightarrow> rat" where
  "roundQSH v = f64_div (of_int \<lfloor>f64_add (f64_mul v 100) (1 / 2)\<rfloor>) 100"

definition validQ7Signal :: "int \<Rightarrow> bool" where
  "validQ7Signal raw = (let v = f64_div (of_int raw) 128 in v \<ge> -160 \<and> v \<le> -20)"

definition decodeLTERSRP :: "int \<Rightarrow> rat \<times> bool" where
  "decodeLTERSRP raw =
     (if raw \<ge> -140 \<and> raw \<le> -30 then (of_int raw, True)
      else if raw \<ge> -1400 \<and> raw \<le> -300 then (roundQSH (f64_div (of_int raw) 10), True)
      else (0, False))"

definition decodeLTEFractionalRSRP :: "int \<Rightarrow> u32 \<Rightarrow> rat \<times> bool" where
  "decodeLTEFractionalRSRP integer fraction =
     (if integer < -140 \<or> integer > -30 \<or> fraction > 9999 then (0, False)
      else (roundQSH (f64_sub (of_int integer) (f64_div (of_nat (unat fraction)) 10000)), True))"

definition validLTERSRQRaw :: "int \<Rightarrow> bool" where
  "validLTERSRQRaw raw \<longleftrightarrow> raw \<ge> -400 \<and> raw < 0"

definition unsignedDistance :: "u32 \<Rightarrow> u32 \<Rightarrow> u32" where
  "unsignedDistance left right = (if left \<ge> right then left - right else right - left)"

section \<open>NR report layouts\<close>

text \<open>The result is \<^verbatim>\<open>(strict, minimum, ok)\<close>.\<close>

definition nrReportSpec :: "u32 \<Rightarrow> bool \<times> nat \<times> bool" where
  "nrReportSpec h =
     (if h = 0xda01a364 \<or> h = 0xda016098 \<or> h = 0xf9486c3c then (False, 12, True)
      else if h = 0xda0539fc then (True, 12, True)
      else if h = 0xda054a0c then (True, 11, True)
      else if h = 0xda01af24 then (True, 11, True)
      else if h = 0xda019f14 then (False, 12, True)
      else if h = 0xda06ba1c then (True, 11, True)
      else if h = 0xda06aa0c then (False, 12, True)
      else (False, 0, False))"

section \<open>LTE reports\<close>

text \<open>What the \<^verbatim>\<open>switch\<close> of \<^verbatim>\<open>decodeQSHLTEReport\<close> establishes: the hash is not an LTE hash, the record has too
  few words for its layout, or the local variables \<^verbatim>\<open>arfcn\<close>, \<^verbatim>\<open>pci\<close>, \<^verbatim>\<open>rsrpIndex\<close>, \<^verbatim>\<open>rsrpFractionIndex\<close>,
  \<^verbatim>\<open>rsrqIndex\<close> and \<^verbatim>\<open>requireValid\<close>.\<close>

datatype lte_layout =
    LteUnknown
  | LteShort
  | LteLayout (ll_arfcn: u32) (ll_pci: u32) (ll_rsrp: int) (ll_fraction: int) (ll_rsrq: int)
      (ll_require: bool)

definition lte_switch :: "u32 \<Rightarrow> u32 list \<Rightarrow> lte_layout option" where
  "lte_switch h words =
     (if h = 0xd936846c then
        (if length words < 2 then Some LteShort
         else do { a \<leftarrow> idx words 0; p \<leftarrow> idx words 1; Some (LteLayout a p (-1) (-1) (-1) False) })
      else if h = 0xd8fe54a0 then
        (if length words < 4 then Some LteShort
         else do { a \<leftarrow> idx words 0; p \<leftarrow> idx words 1; Some (LteLayout a p 2 (-1) 3 False) })
      else if h = 0xd8fea29c then
        (if length words < 6 then Some LteShort
         else do { a \<leftarrow> idx words 1; p \<leftarrow> idx words 2; Some (LteLayout a p 3 (-1) 4 False) })
      else if h = 0xd8f02d94 \<or> h = 0xd8fea210 then
        (if length words < 6 then Some LteShort
         else do { a \<leftarrow> idx words 2; p \<leftarrow> idx words 3; Some (LteLayout a p 4 (-1) 5 True) })
      else if h = 0xd939607c then
        (if length words < 2 then Some LteShort
         else do { a \<leftarrow> idx words 0; p \<leftarrow> idx words 1; Some (LteLayout a p (-1) (-1) (-1) False) })
      else if h = 0xd93960a0 \<or> h = 0xd8fea258 then
        (if length words < 5 then Some LteShort
         else do { a \<leftarrow> idx words 0; p \<leftarrow> idx words 1; Some (LteLayout a p 2 (-1) 3 False) })
      else if h = 0xd94f5690 then
        (if length words < 6 then Some LteShort
         else do { a \<leftarrow> idx words 0; p \<leftarrow> idx words 1; Some (LteLayout a p 2 3 (-1) False) })
      else Some LteUnknown)"

text \<open>The signal words of a layout: \<^verbatim>\<open>report.rsrp, report.direct\<close>.\<close>

definition lte_signal :: "lte_layout \<Rightarrow> u32 list \<Rightarrow> (rat \<times> bool) option" where
  "lte_signal l words =
     (if ll_fraction l \<ge> 0 then do {
        i \<leftarrow> idx words (ll_rsrp l); f \<leftarrow> idx words (ll_fraction l);
        Some (decodeLTEFractionalRSRP (sint i) f) }
      else do { i \<leftarrow> idx words (ll_rsrp l); Some (decodeLTERSRP (sint i)) })"

text \<open>The result is \<^verbatim>\<open>(report, recognized, valid)\<close>.\<close>

definition decodeQSHLTEReport :: "u32 \<Rightarrow> u32 list \<Rightarrow> (qshReport \<times> bool \<times> bool) option" where
  "decodeQSHLTEReport h words = do {
     l \<leftarrow> lte_switch h words;
     case l of
       LteUnknown \<Rightarrow> Some (zero_report, False, False)
     | LteShort \<Rightarrow> Some (zero_report, True, False)
     | LteLayout arfcn pci rsrpIndex rsrpFractionIndex rsrqIndex requireValid \<Rightarrow> do {
         invalid \<leftarrow> (if requireValid then do { w \<leftarrow> idx words 1; Some (w = 0) } else Some False);
         if invalid then Some (zero_report, True, False)
         else if arfcn = 0 \<or> arfcn > 262143 \<or> pci > 503 then Some (zero_report, True, False)
         else do {
           let report = zero_report\<lparr>qr_rat := 1, qr_pci := pci, qr_arfcn := arfcn\<rparr>;
           if rsrpIndex < 0 then Some (report, True, True)
           else do {
             (rsrp, direct) \<leftarrow> lte_signal l words;
             let report = report\<lparr>qr_rsrp := rsrp, qr_direct := direct\<rparr>;
             badq \<leftarrow> (if rsrqIndex \<ge> 0 then do { q \<leftarrow> idx words rsrqIndex; Some (\<not> validLTERSRQRaw (sint q)) }
                     else Some False);
             if badq then Some (report, True, False) else Some (report, True, direct) } } } }"

section \<open>NR candidates\<close>

text \<open>The fields a layout assigns: \<^verbatim>\<open>if len(words) >= minimum { candidate.pci, candidate.arfcn = words[i],
  words[j] }\<close>, and the variant with a band.\<close>

definition take_cell :: "u32 list \<Rightarrow> nat \<Rightarrow> int \<Rightarrow> int \<Rightarrow> qshCandidate option" where
  "take_cell words minimum pciIndex arfcnIndex =
     (if length words \<ge> minimum then do {
        p \<leftarrow> idx words pciIndex; a \<leftarrow> idx words arfcnIndex;
        Some (zero_candidate\<lparr>qc_pci := p, qc_arfcn := a\<rparr>) }
      else Some zero_candidate)"

definition take_banded :: "u32 list \<Rightarrow> nat \<Rightarrow> qshCandidate option" where
  "take_banded words minimum =
     (if length words \<ge> minimum then do {
        b \<leftarrow> idx words 0; a \<leftarrow> idx words 1; p \<leftarrow> idx words 2;
        Some (zero_candidate\<lparr>qc_band := b, qc_arfcn := a, qc_pci := p\<rparr>) }
      else Some zero_candidate)"

definition candidate_switch :: "u32 \<Rightarrow> u32 list \<Rightarrow> (qshCandidate \<times> nat) option option" where
  "candidate_switch h words =
     (if h \<in> {0xd8fc0f04, 0xd8facf74, 0xd8f773e8, 0xd8fc5cc0, 0xd8fb8ad0, 0xd8f82d98, 0xd8f84514}
      then do { c \<leftarrow> take_banded words 4; Some (Some (c, 4)) }
      else if h = 0xda014184 then do { c \<leftarrow> take_cell words 6 2 4; Some (Some (c, 6)) }
      else if h = 0xd9fca428 \<or> h = 0xf93fc16a then do { c \<leftarrow> take_cell words 7 2 4; Some (Some (c, 7)) }
      else if h = 0xd9fc7a44 \<or> h = 0xf93fc624 then do { c \<leftarrow> take_cell words 6 1 3; Some (Some (c, 6)) }
      else if h = 0xf9ad1341 \<or> h = 0xbcbafaec then do {
        let minimum = (if h = 0xf9ad1341 then 5 else 3);
        c \<leftarrow> take_cell words minimum 1 0; Some (Some (c, minimum)) }
      else if h = 0xd8f72994 \<or> h = 0xd9877e9c then do { c \<leftarrow> take_cell words 5 0 1; Some (Some (c, 5)) }
      else if h = 0xd8f7e394 then do { c \<leftarrow> take_cell words 4 0 1; Some (Some (c, 4)) }
      else Some None)"

definition decodeQSHCandidate :: "u32 \<Rightarrow> u32 list \<Rightarrow> (qshCandidate \<times> bool) option" where
  "decodeQSHCandidate h words = do {
     r \<leftarrow> candidate_switch h words;
     case r of
       None \<Rightarrow> Some (zero_candidate, False)
     | Some (c, minimum) \<Rightarrow>
         if length words < minimum \<or> qc_pci c > 1007 \<or> qc_arfcn c = 0 \<or> qc_arfcn c > 3279165 \<or>
            qc_band c > 1024
         then Some (zero_candidate, False)
         else Some (c, True) }"

section \<open>The signal arithmetic is exact where it has to be\<close>

lemma sint_u32_bounds: "- (2 ^ 31) \<le> sint (w :: u32)" "sint (w :: u32) < 2 ^ 31"
  using sint_ge [of w] sint_lt [of w] by simp_all

lemma f64_div_128: "\<bar>raw\<bar> < 2 ^ 46 \<Longrightarrow> f64_div (of_int raw) 128 = of_int raw / 128"
  unfolding f64_div_def
proof (rule fl_exact [of _ 7 raw])
  assume "\<bar>raw\<bar> < 2 ^ 46"
  then have "(of_int \<bar>raw\<bar> :: rat) < of_int (2 ^ 46)" by (simp only: of_int_less_iff)
  then show "\<bar>of_int raw / 128 :: rat\<bar> < exp2 (53 - 7)" by (simp add: exp2_def abs_divide)
qed (simp add: exp2_def)

lemma validQ7Signal_iff:
  assumes "\<bar>raw\<bar> < 2 ^ 46"
  shows "validQ7Signal raw \<longleftrightarrow> -20480 \<le> raw \<and> raw \<le> -2560"
proof -
  have "(of_int raw / 128 :: rat) \<ge> -160 \<longleftrightarrow> (of_int (-20480) :: rat) \<le> of_int raw"
    "(of_int raw / 128 :: rat) \<le> -20 \<longleftrightarrow> (of_int raw :: rat) \<le> of_int (-2560)"
    by (auto simp: field_simps)
  then show ?thesis using assms by (simp only: validQ7Signal_def f64_div_128 Let_def of_int_le_iff)
qed

lemma floor_half_bounds:
  assumes "\<bar>y\<bar> < 2 ^ 50" and "of_int a \<le> y" and "y \<le> of_int b"
  shows "a \<le> \<lfloor>fl (y + 1 / 2)\<rfloor>" and "\<lfloor>fl (y + 1 / 2)\<rfloor> \<le> b"
proof -
  have small: "\<bar>y + 1 / 2\<bar> < exp2 (53 - 1)" using assms(1) by (simp add: exp2_def abs_if split: if_splits)
  have "of_int (2 * a + 1) * exp2 (- 1) \<le> fl (y + 1 / 2)"
    using assms(2) by (intro fl_ge_grid [OF small]) (simp add: exp2_def)
  then have "of_int a + 1 / 2 \<le> fl (y + 1 / 2)" by (simp add: exp2_def add_divide_distrib)
  then show "a \<le> \<lfloor>fl (y + 1 / 2)\<rfloor>" by (simp add: le_floor_iff)
  have "fl (y + 1 / 2) \<le> of_int (2 * b + 1) * exp2 (- 1)"
    using assms(3) by (intro fl_le_grid [OF small]) (simp add: exp2_def)
  then have "fl (y + 1 / 2) < of_int b + 1" by (simp add: exp2_def add_divide_distrib)
  then show "\<lfloor>fl (y + 1 / 2)\<rfloor> \<le> b" by linarith
qed

lemma roundQSH_range:
  assumes "- (2 ^ 40) \<le> p" "q \<le> 2 ^ 40" and "of_int p \<le> v" and "v \<le> of_int q"
  shows "of_int p \<le> roundQSH v" and "roundQSH v \<le> of_int q"
proof -
  have pq: "(of_int (- (2 ^ 40)) :: rat) \<le> of_int p" "(of_int q :: rat) \<le> of_int (2 ^ 40)"
    using assms(1,2) by (simp_all only: of_int_le_iff)
  have v: "\<bar>v * 100\<bar> < 2 ^ 47" using pq assms(3,4) by (simp add: abs_if)
  let ?y = "fl (v * 100)"
  have lo: "of_int (100 * p) \<le> ?y" and hi: "?y \<le> of_int (100 * q)"
    using v assms(3,4) fl_int_bounds [of "v * 100" "100 * p"] fl_int_bounds [of "v * 100" "100 * q"]
    by simp_all
  have y: "\<bar>?y\<bar> < 2 ^ 50" using lo hi pq by (simp add: abs_if)
  let ?f = "\<lfloor>fl (?y + 1 / 2)\<rfloor>"
  have f: "100 * p \<le> ?f" "?f \<le> 100 * q" using floor_half_bounds [OF y lo hi] by simp_all
  then have "(of_int (100 * p) :: rat) \<le> of_int ?f" "(of_int ?f :: rat) \<le> of_int (100 * q)"
    by (simp_all only: of_int_le_iff)
  then have d: "of_int p \<le> (of_int ?f / 100 :: rat)" "(of_int ?f / 100 :: rat) \<le> of_int q"
    by (simp_all add: field_simps)
  moreover have "- 1099511627776 \<le> (of_int p :: rat)" "of_int q \<le> (1099511627776 :: rat)" using pq by simp_all
  ultimately have "\<bar>of_int ?f / 100 :: rat\<bar> < 9007199254740992" unfolding abs_less_iff by linarith
  then have "\<bar>of_int ?f / 100 :: rat\<bar> < 2 ^ 53" by simp
  from fl_int_bounds(1) [OF this d(1)] fl_int_bounds(2) [OF this d(2)]
  show "of_int p \<le> roundQSH v" "roundQSH v \<le> of_int q"
    by (simp_all add: roundQSH_def f64_defs)
qed

lemma fl_div10_range:
  assumes "- 1400 \<le> raw" "raw \<le> - 300"
  shows "- 140 \<le> f64_div (of_int raw) 10" and "f64_div (of_int raw) 10 \<le> - 30"
proof -
  have "(of_int (- 1400) :: rat) \<le> of_int raw" "(of_int raw :: rat) \<le> of_int (- 300)"
    using assms by (simp_all only: of_int_le_iff)
  then have r: "of_int (- 140) \<le> (of_int raw / 10 :: rat)" "(of_int raw / 10 :: rat) \<le> of_int (- 30)" by simp_all
  then have "\<bar>of_int raw / 10 :: rat\<bar> < 2 ^ 53" by (simp add: abs_if)
  from fl_int_bounds(1) [OF this r(1)] fl_int_bounds(2) [OF this r(2)]
  show "- 140 \<le> f64_div (of_int raw) 10" and "f64_div (of_int raw) 10 \<le> - 30" by (simp_all add: f64_div_def)
qed

lemma decodeLTERSRP_range:
  assumes "decodeLTERSRP raw = (v, True)"
  shows "- 140 \<le> v" and "v \<le> - 30"
proof -
  from assms consider (whole) "- 140 \<le> raw" "raw \<le> - 30" "v = of_int raw"
    | (tenths) "- 1400 \<le> raw" "raw \<le> - 300" "v = roundQSH (f64_div (of_int raw) 10)"
    by (auto simp: decodeLTERSRP_def split: if_splits)
  then have "- 140 \<le> v \<and> v \<le> - 30"
  proof cases
    case whole
    then have "(of_int (- 140) :: rat) \<le> of_int raw" "(of_int raw :: rat) \<le> of_int (- 30)"
      by (simp_all only: of_int_le_iff)
    with whole show ?thesis by simp
  next
    case tenths
    with fl_div10_range [of raw] roundQSH_range [of "- 140" "- 30" "f64_div (of_int raw) 10"]
    show ?thesis by simp
  qed
  then show "- 140 \<le> v" and "v \<le> - 30" by simp_all
qed

lemma decodeLTEFractionalRSRP_range:
  assumes "decodeLTEFractionalRSRP i f = (v, True)"
  shows "- 141 \<le> v" and "v \<le> - 30"
proof -
  from assms have i: "- 140 \<le> i" "i \<le> - 30" and f: "f \<le> 9999"
    and v: "v = roundQSH (f64_sub (of_int i) (f64_div (of_nat (unat f)) 10000))"
    by (auto simp: decodeLTEFractionalRSRP_def not_less split: if_splits)
  have "unat f \<le> 9999" using f by (simp add: word_le_nat_alt)
  then have "(of_nat (unat f) :: rat) \<le> of_nat 9999" by (simp only: of_nat_le_iff)
  then have q: "of_int 0 \<le> (of_nat (unat f) / 10000 :: rat)" "(of_nat (unat f) / 10000 :: rat) \<le> of_int 1"
    using of_nat_0_le_iff [of "unat f", where 'a = rat] by simp_all
  then have "\<bar>of_nat (unat f) / 10000 :: rat\<bar> < 2 ^ 53" by (simp add: abs_if)
  from fl_int_bounds(1) [OF this q(1)] fl_int_bounds(2) [OF this q(2)]
  have d: "0 \<le> f64_div (of_nat (unat f)) 10000" "f64_div (of_nat (unat f)) 10000 \<le> 1"
    by (simp_all add: f64_div_def)
  have "(of_int (- 140) :: rat) \<le> of_int i" "(of_int i :: rat) \<le> of_int (- 30)"
    using i by (simp_all only: of_int_le_iff)
  with d have s: "of_int (- 141) \<le> of_int i - f64_div (of_nat (unat f)) 10000"
    "of_int i - f64_div (of_nat (unat f)) 10000 \<le> of_int (- 30)"
    by simp_all
  then have "\<bar>of_int i - f64_div (of_nat (unat f)) 10000\<bar> < 2 ^ 53" by (simp add: abs_if)
  from fl_int_bounds(1) [OF this s(1)] fl_int_bounds(2) [OF this s(2)]
  show "- 141 \<le> v" and "v \<le> - 30"
    using roundQSH_range [of "- 141" "- 30" "f64_sub (of_int i) (f64_div (of_nat (unat f)) 10000)"]
    by (simp_all add: v f64_sub_def)
qed

lemma fl_close: "\<bar>x\<bar> \<le> b \<Longrightarrow> \<bar>fl x - x\<bar> \<le> b / 2 ^ 53"
  by (rule order_trans [OF fl_error]) (rule divide_right_mono, simp_all)

lemma roundQSH_accurate:
  assumes "\<bar>v\<bar> \<le> 1000"
  shows "\<bar>roundQSH v - v\<bar> \<le> 1 / 200 + 1 / 10 ^ 12"
proof -
  define y where "y = fl (v * 100)"
  define z where "z = fl (y + 1 / 2)"
  define w where "w = (of_int \<lfloor>z\<rfloor> / 100 :: rat)"
  have "\<bar>v * 100\<bar> \<le> 100000" using assms by (simp add: abs_if split: if_splits)
  from fl_close [OF this] have y: "\<bar>y - v * 100\<bar> \<le> 100000 / 9007199254740992" by (simp add: y_def)
  have "\<bar>y + 1 / 2\<bar> \<le> 100002" using y assms by (simp add: abs_le_iff abs_if split: if_splits)
  from fl_close [OF this] have z: "\<bar>z - (y + 1 / 2)\<bar> \<le> 100002 / 9007199254740992" by (simp add: z_def)
  have f: "of_int \<lfloor>z\<rfloor> \<le> z" "z < of_int \<lfloor>z\<rfloor> + 1" by linarith+
  have w: "\<bar>w - v\<bar> \<le> 1 / 200 + 2001 / 9007199254740992"
    using y z f unfolding w_def abs_le_iff by linarith
  then have "\<bar>w\<bar> \<le> 1001" using assms by (simp add: abs_le_iff abs_if split: if_splits)
  from fl_close [OF this] have "\<bar>fl w - w\<bar> \<le> 1001 / 9007199254740992" by simp
  then have "\<bar>fl w - v\<bar> \<le> 1 / 200 + 1 / 1000000000000"
    using w unfolding abs_le_iff by (simp add: field_simps)
  then show ?thesis by (simp add: roundQSH_def f64_defs y_def [symmetric] z_def [symmetric] w_def [symmetric])
qed

section \<open>The decoders never index out of range, and accept plausible cells only\<close>

definition layout_fits :: "u32 list \<Rightarrow> lte_layout \<Rightarrow> bool" where
  "layout_fits words l \<longleftrightarrow>
     (case l of LteLayout a p r f q v \<Rightarrow>
        r < int (length words) \<and> f < int (length words) \<and> q < int (length words) \<and>
        (v \<longrightarrow> 1 < int (length words)) \<and> (0 \<le> f \<longrightarrow> 0 \<le> r)
      | _ \<Rightarrow> True)"

lemma lte_switch_total: "\<exists>l. lte_switch h words = Some l \<and> layout_fits words l"
  unfolding lte_switch_def layout_fits_def by (simp add: idx_def)

lemma lte_signal_total: "layout_fits words (LteLayout a p r f q v) \<Longrightarrow> 0 \<le> r \<Longrightarrow>
   \<exists>s. lte_signal (LteLayout a p r f q v) words = Some s"
  by (auto simp: layout_fits_def lte_signal_def idx_def)

lemma decodeQSHLTEReport_no_panic: "decodeQSHLTEReport h words \<noteq> None"
proof -
  obtain l where l: "lte_switch h words = Some l" and fits: "layout_fits words l"
    using lte_switch_total by blast
  show ?thesis
  proof (cases l)
    case (LteLayout a p r f q v)
    obtain x d where sig: "r < 0 \<or> lte_signal l words = Some (x, d)"
      using lte_signal_total [of words a p r f q v] fits LteLayout by (metis not_less surj_pair)
    have "\<not> v \<or> idx words 1 = Some (words ! 1)" "q < 0 \<or> idx words q = Some (words ! nat q)"
      using fits by (auto simp: LteLayout layout_fits_def idx_def)
    with sig show ?thesis
      by (cases v; cases "r < 0"; cases "q < 0") (simp_all add: decodeQSHLTEReport_def l LteLayout Let_def not_less del: not_None_eq)
  qed (simp_all add: decodeQSHLTEReport_def l del: not_None_eq)
qed

lemma decodeQSHLTEReport_total: "\<exists>r. decodeQSHLTEReport h words = Some r"
  using decodeQSHLTEReport_no_panic by blast

definition plausible_lte :: "qshReport \<Rightarrow> bool" where
  "plausible_lte r \<longleftrightarrow> qr_rat r = 1 \<and> qr_pci r \<le> 503 \<and> qr_arfcn r \<noteq> 0 \<and> qr_arfcn r \<le> 262143 \<and>
     (qr_direct r \<longrightarrow> - 141 \<le> qr_rsrp r \<and> qr_rsrp r \<le> - 30)"

lemma lte_signal_range:
  assumes "lte_signal l words = Some (v, True)"
  shows "- 141 \<le> v \<and> v \<le> - 30"
proof -
  from assms consider i where "decodeLTERSRP (sint (i :: u32)) = (v, True)"
    | i f where "decodeLTEFractionalRSRP (sint (i :: u32)) f = (v, True)"
    by (auto simp: lte_signal_def split: if_splits Option.bind_splits)
  then show ?thesis
    by cases (use decodeLTERSRP_range decodeLTEFractionalRSRP_range in force)+
qed

lemma decodeQSHLTEReport_plausible:
  assumes "decodeQSHLTEReport h words = Some (r, True, True)"
  shows "plausible_lte r"
proof -
  obtain l where l: "lte_switch h words = Some l" using lte_switch_total by blast
  show ?thesis
  proof (cases l)
    case (LteLayout a p i f q v)
    with assms lte_signal_range [of l words] show ?thesis
      by (auto simp: decodeQSHLTEReport_def l plausible_lte_def zero_report_def Let_def not_less
          split: if_splits Option.bind_splits prod.splits)
  qed (use assms in \<open>simp_all add: decodeQSHLTEReport_def l\<close>)
qed

lemma take_cell_total:
  "0 \<le> i \<Longrightarrow> 0 \<le> j \<Longrightarrow> i < int m \<Longrightarrow> j < int m \<Longrightarrow> \<exists>c. take_cell words m i j = Some c"
  by (auto simp: take_cell_def idx_def)

lemma take_banded_total: "3 \<le> m \<Longrightarrow> \<exists>c. take_banded words m = Some c"
  by (auto simp: take_banded_def idx_def)

lemma candidate_switch_total: "\<exists>r. candidate_switch h words = Some r"
  using take_banded_total [of 4 words] take_cell_total [of 2 4 6 words] take_cell_total [of 2 4 7 words]
    take_cell_total [of 1 3 6 words] take_cell_total [of 1 0 5 words] take_cell_total [of 1 0 3 words]
    take_cell_total [of 0 1 5 words] take_cell_total [of 0 1 4 words]
  by (auto simp: candidate_switch_def Let_def)

lemma decodeQSHCandidate_total: "\<exists>r. decodeQSHCandidate h words = Some r"
  using candidate_switch_total [of h words]
  by (auto simp: decodeQSHCandidate_def split: option.splits)

definition plausible_candidate :: "qshCandidate \<Rightarrow> bool" where
  "plausible_candidate c \<longleftrightarrow>
     qc_pci c \<le> 1007 \<and> qc_arfcn c \<noteq> 0 \<and> qc_arfcn c \<le> 3279165 \<and> qc_band c \<le> 1024"

lemma decodeQSHCandidate_plausible:
  "decodeQSHCandidate h words = Some (c, True) \<Longrightarrow> plausible_candidate c"
  by (auto simp: decodeQSHCandidate_def plausible_candidate_def not_less
      split: Option.bind_splits option.splits if_splits)

text \<open>The three hash tables do not overlap.\<close>

lemma nr_hashes:
  "snd (snd (nrReportSpec h)) \<Longrightarrow>
   h \<in> {0xda01a364, 0xda016098, 0xf9486c3c, 0xda0539fc, 0xda054a0c, 0xda01af24, 0xda019f14,
        0xda06ba1c, 0xda06aa0c}"
  unfolding nrReportSpec_def insert_iff by (rule ccontr) simp

lemma nr_hash_not_lte: "snd (snd (nrReportSpec h)) \<Longrightarrow> lte_switch h words = Some LteUnknown"
  by (drule nr_hashes) (elim insertE emptyE; simp add: lte_switch_def)

lemma nr_hash_not_candidate: "snd (snd (nrReportSpec h)) \<Longrightarrow> candidate_switch h words = Some None"
  by (drule nr_hashes) (elim insertE emptyE; simp add: candidate_switch_def)

lemma nrReportSpec_minimum: "nrReportSpec h = (strict, minimum, True) \<Longrightarrow> 11 \<le> minimum"
  by (auto simp: nrReportSpec_def split: if_splits)

section \<open>Targets\<close>

lemma parseTarget_total_on_kinds:
  "parseTarget v = Inr t \<Longrightarrow> t \<in> {targetNR, targetLTE, targetCombined}"
  by (auto simp: parseTarget_def Let_def split: if_splits)

lemma parseTarget_normalises: "ToLower (TrimSpace v) = ToLower (TrimSpace u) \<Longrightarrow> parseTarget v = Inr t \<Longrightarrow> parseTarget u = Inr t"
  by (auto simp: parseTarget_def Let_def split: if_splits)

end
