(* ===== verification/Diag_Hdlc.thy ===== *)
theory Diag_Hdlc
  imports Prelude
begin

text \<open>
  The DIAG transport encoding shared by the qtrace tools (\<^verbatim>\<open>hdlcEscape\<close>, \<^verbatim>\<open>hdlcUnescape\<close>,
  \<^verbatim>\<open>diagCRC16\<close> of \<^verbatim>\<open>tools/u60-qtrace-reducer/config.go\<close> and the second copy in
  \<^verbatim>\<open>tools/u60-nr-crossband-probe/qtrace.go\<close>): a frame is a payload followed by its CRC-16/X-25 in
  little-endian order, byte-stuffed with \<^verbatim>\<open>0x7d\<close> and ended by \<^verbatim>\<open>0x7e\<close>.  Two interfaces are stated as
  locales: a byte stuffing whose output never holds the delimiter, and a running checksum whose
  step is injective; the framing and error-detection facts are proved from them once.
\<close>

section \<open>Interfaces\<close>

locale byte_stuffing =
  fixes enc :: "'a list \<Rightarrow> 'a list" and dec :: "'a list \<Rightarrow> 'e + 'a list" and sep :: 'a
  assumes dec_enc: "dec (enc xs) = Inr xs"
    and sep_free: "sep \<notin> set (enc xs)"
    and enc_Nil: "enc [] = []"
begin

lemma enc_inject: "enc xs = enc ys \<Longrightarrow> xs = ys"
  by (metis dec_enc sum.inject(2))

lemma enc_empty_iff: "enc xs = [] \<longleftrightarrow> xs = []"
  using enc_Nil enc_inject by force

lemma split_stream:
  "split_on sep (concat (map (\<lambda>f. enc f @ [sep]) fs)) = map enc fs @ [[]]"
  by (induction fs) (auto simp: split_on_append sep_free)

lemma nonempty_segments:
  "[] \<notin> set fs \<Longrightarrow>
   filter (\<lambda>s. s \<noteq> []) (split_on sep (concat (map (\<lambda>f. enc f @ [sep]) fs))) = map enc fs"
  by (induction fs) (auto simp: split_on_append sep_free enc_empty_iff)

end

locale running_checksum =
  fixes step :: "'s \<Rightarrow> 'b \<Rightarrow> 's" and fin :: "'s \<Rightarrow> 'c" and init :: 's
  assumes step_state_inj: "step s b = step t b \<Longrightarrow> s = t"
    and step_byte_inj: "step s a = step s b \<Longrightarrow> a = b"
    and fin_inj: "fin s = fin t \<Longrightarrow> s = t"
begin

lemma foldl_state_inj: "foldl step s ys = foldl step t ys \<Longrightarrow> s = t"
  by (induction ys arbitrary: s t) (auto dest: step_state_inj)

lemma one_byte_detected:
  "fin (foldl step init (xs @ a # ys)) = fin (foldl step init (xs @ b # ys)) \<Longrightarrow> a = b"
  by (auto dest!: fin_inj foldl_state_inj step_byte_inj)

end

section \<open>CRC-16/X-25\<close>

definition crc_bit :: "u16 \<Rightarrow> u16" where
  "crc_bit crc = (if crc AND 1 \<noteq> 0 then drop_bit 1 crc XOR 0x8408 else drop_bit 1 crc)"

fun crc_bits :: "nat \<Rightarrow> u16 \<Rightarrow> u16" where
  "crc_bits 0 crc = crc"
| "crc_bits (Suc n) crc = crc_bits n (crc_bit crc)"

definition crc_byte :: "u16 \<Rightarrow> byte \<Rightarrow> u16" where
  "crc_byte crc v = crc_bits 8 (crc XOR ucast v)"

definition diagCRC16 :: "byte list \<Rightarrow> u16" where
  "diagCRC16 data = foldl crc_byte 0xffff data XOR 0xffff"

section \<open>Byte stuffing\<close>

datatype hdlc_error = Truncated_escape

fun hdlcEscape :: "byte list \<Rightarrow> byte list" where
  "hdlcEscape [] = []"
| "hdlcEscape (v # vs) =
     (if v = 0x7d \<or> v = 0x7e then 0x7d # (v XOR 0x20) # hdlcEscape vs else v # hdlcEscape vs)"

text \<open>One round of the decoding loop on the pair of the decoded bytes and the \<^verbatim>\<open>escaped\<close> flag.\<close>

fun unescape_step :: "byte list \<times> bool \<Rightarrow> byte \<Rightarrow> byte list \<times> bool" where
  "unescape_step (decoded, escaped) v =
     (if escaped then (decoded @ [v XOR 0x20], False)
      else if v = 0x7d then (decoded, True)
      else (decoded @ [v], False))"

definition hdlcUnescape :: "byte list \<Rightarrow> hdlc_error + byte list" where
  "hdlcUnescape encoded =
     (case foldl unescape_step ([], False) encoded of
        (decoded, escaped) \<Rightarrow> if escaped then Inl Truncated_escape else Inr decoded)"

section \<open>Lemmas\<close>

lemma crc_bits_numeral [eval_simps]:
  "crc_bits (numeral k) c = crc_bits (pred_numeral k) (crc_bit c)"
  by (simp add: numeral_eq_Suc)

lemmas crc_eval = diagCRC16_def crc_byte_def crc_bits_numeral crc_bit_def

lemma crc_bit_top: "bit (crc_bit z) 15 \<longleftrightarrow> odd z"
  by (auto simp: crc_bit_def bit_simps odd_iff_mod_2_eq_one and_one_eq dest: bit_imp_le_length)

lemma crc_bit_inj: assumes "crc_bit x = crc_bit y" shows "x = y"
proof -
  from assms have o: "odd x = odd y" by (metis crc_bit_top)
  with assms have "drop_bit 1 x = drop_bit 1 y"
    by (auto simp: crc_bit_def odd_iff_mod_2_eq_one and_one_eq simp del: One_nat_def)
  then have "bit x (Suc n) = bit y (Suc n)" for n
    by (metis bit_drop_bit_eq plus_1_eq_Suc comp_apply)
  with o show ?thesis by (intro bit_word_eqI) (metis bit_0 not0_implies_Suc)
qed

lemma crc_bits_inj: "crc_bits n x = crc_bits n y \<Longrightarrow> x = y"
  by (induction n arbitrary: x y) (auto dest: crc_bit_inj)

interpretation crc: running_checksum crc_byte "\<lambda>c. c XOR 0xffff" "0xffff"
  by unfold_locales (auto simp: crc_byte_def dest!: crc_bits_inj ucast_byte_inj)

lemma unescape_fold_acc:
  "foldl unescape_step (ds, e) xs =
   (case foldl unescape_step ([], e) xs of (ds', e') \<Rightarrow> (ds @ ds', e'))"
proof (induction xs arbitrary: ds e)
  case (Cons x xs)
  obtain d' e' where step: "unescape_step ([], e) x = (d', e')" by fastforce
  then have "unescape_step (ds, e) x = (ds @ d', e')" by (auto split: if_splits)
  with step show ?case
    by (simp add: Cons.IH [of "ds @ d'"] Cons.IH [of d'] del: unescape_step.simps split: prod.splits)
qed simp

lemma unescape_fold_escape: "foldl unescape_step (ds, False) (hdlcEscape xs) = (ds @ xs, False)"
  by (induction xs arbitrary: ds) auto

lemma hdlcEscape_no_delimiter: "0x7e \<notin> set (hdlcEscape xs)"
  by (induction xs) auto

interpretation hdlc: byte_stuffing hdlcEscape hdlcUnescape "0x7e"
  by unfold_locales
    (auto simp: hdlcUnescape_def unescape_fold_escape hdlcEscape_no_delimiter)

lemma length_hdlcEscape:
  "length xs \<le> length (hdlcEscape xs)" "length (hdlcEscape xs) \<le> 2 * length xs"
  by (induction xs) auto

end
