(* ===== verification/Qsh_Parser.thy ===== *)
theory Qsh_Parser
  imports Qsh_Decode Diag_Hdlc "HOL-Library.Product_Lexorder"
begin

text \<open>
  The streaming QMDL analyser of the reducer (\<^verbatim>\<open>u60-qtrace-reducer/qmdl.go\<close>): frames are delimited,
  unescaped and CRC-checked byte by byte, QSH records are decoded and counted, NR reports are joined
  with the nearest candidate record, and the reports are aggregated into the cells a capture window saw.

  The environment is a parameter: \<^verbatim>\<open>ctx.Err()\<close> is a function of the point where it is asked, a file is
  what the calls on it return (its readable bytes, its \<^verbatim>\<open>Stat\<close> size, the results of \<^verbatim>\<open>ReadAt\<close>, \<^verbatim>\<open>Seek\<close>,
  \<^verbatim>\<open>Close\<close> and the error that ends reading).  The size and the bytes are independent, since the logger
  appends to the file while it is read.
\<close>

section \<open>Parser state\<close>

record qshParser =
  ps_metrics :: captureMetrics
  ps_candidates :: "qshCandidate list"
  ps_reports :: "qshReport list"
  ps_serving :: "servingIdentity list"

definition new_parser :: "servingIdentity list \<Rightarrow> qshParser" where
  "new_parser serving =
     \<lparr>ps_metrics = empty_metrics, ps_candidates = [], ps_reports = [], ps_serving = serving\<rparr>"

text \<open>\<open>bump FrameCount_update\<close> is \<^verbatim>\<open>parser.metrics.FrameCount++\<close>.\<close>

definition bump :: "((int \<Rightarrow> int) \<Rightarrow> captureMetrics \<Rightarrow> captureMetrics) \<Rightarrow> qshParser \<Rightarrow> qshParser" where
  "bump upd parser = parser\<lparr>ps_metrics := upd (\<lambda>n. n + 1) (ps_metrics parser)\<rparr>"

section \<open>One frame\<close>

definition addNRReport :: "qshParser \<Rightarrow> u32 \<Rightarrow> u32 \<Rightarrow> u32 list \<Rightarrow> bool \<Rightarrow> (qshParser \<times> bool) option" where
  "addNRReport parser seq fileIndex words requiresARFCN =
     (if length words < 7 then Some (parser, False)
      else do {
        w3 \<leftarrow> idx words 3; w5 \<leftarrow> idx words 5;
        if w3 > 1007 \<or> w5 > 1007 then Some (parser, False)
        else do {
          w4 \<leftarrow> idx words 4; w6 \<leftarrow> idx words 6;
          let rsrpRaw = sint w4;
          if \<not> validQ7Signal rsrpRaw \<or> \<not> validQ7Signal (sint w6) then Some (parser, False)
          else Some (parser\<lparr>ps_reports := ps_reports parser @ [zero_report\<lparr>
                 qr_seq := seq, qr_file := fileIndex, qr_pci := w3,
                 qr_rsrp := roundQSH (f64_div (of_int rsrpRaw) 128),
                 qr_direct := True, qr_requiresARFCN := requiresARFCN\<rparr>]\<rparr>, True) } })"

text \<open>The part of \<^verbatim>\<open>consumeFrame\<close> after the words of a QSH record have been read.\<close>

definition consume_candidate :: "qshParser \<Rightarrow> u32 \<Rightarrow> u32 \<Rightarrow> u32 \<Rightarrow> u32 list \<Rightarrow> qshParser option" where
  "consume_candidate parser seq fileIndex h words = do {
     (candidate, ok) \<leftarrow> decodeQSHCandidate h words;
     Some (if ok then parser\<lparr>ps_candidates :=
              ps_candidates parser @ [candidate\<lparr>qc_seq := seq, qc_file := fileIndex\<rparr>]\<rparr>
           else parser) }"

definition consume_record :: "targetKind \<Rightarrow> qshParser \<Rightarrow> u32 \<Rightarrow> u32 \<Rightarrow> u32 \<Rightarrow> u32 list \<Rightarrow> qshParser option" where
  "consume_record target parser seq fileIndex h words = do {
     parser \<leftarrow> consume_candidate parser seq fileIndex h words;
     let (strict, minimum, isNR) = nrReportSpec h;
     if isNR then do {
       let parser = bump NRHashCount_update parser;
       let parser = (if target = targetNR \<or> target = targetCombined then bump TargetHashCount_update parser
                     else parser);
       if length words < minimum then Some (bump ParseErrorCount_update parser)
       else do {
         (parser, ok) \<leftarrow> addNRReport parser seq fileIndex words strict;
         Some (if \<not> ok then bump ParseErrorCount_update parser else bump ParseSuccessCount_update parser) } }
     else do {
       (report, recognized, valid) \<leftarrow> decodeQSHLTEReport h words;
       if recognized then do {
         let parser = bump LTEHashCount_update parser;
         let parser = (if target = targetLTE \<or> target = targetCombined then bump TargetHashCount_update parser
                       else parser);
         if \<not> valid then Some (bump ParseErrorCount_update parser)
         else Some (bump ParseSuccessCount_update
                (parser\<lparr>ps_reports := ps_reports parser @ [report\<lparr>qr_seq := seq, qr_file := fileIndex\<rparr>]\<rparr>)) }
       else Some parser } }"

text \<open>The part of \<^verbatim>\<open>consumeFrame\<close> for a payload with a valid CRC.\<close>

definition consume_qsh :: "targetKind \<Rightarrow> qshParser \<Rightarrow> byte list \<Rightarrow> u32 \<Rightarrow> u32 \<Rightarrow> qshParser option" where
  "consume_qsh target parser payload seq fileIndex = do {
     let parser = bump QSHFrameCount_update parser;
     let parser = parser\<lparr>ps_metrics := QSHTotalBytes_update (\<lambda>n. n + int (length payload)) (ps_metrics parser)\<rparr>;
     b4 \<leftarrow> idx payload 4;
     let wordCount = int (unat b4) - 0x13;
     if wordCount < 0 \<or> wordCount > 236 \<or> int (length payload) < (wordCount + 4) * 4
     then Some (bump ParseErrorCount_update parser)
     else do {
       s \<leftarrow> slice payload 12 16;
       h \<leftarrow> uint32le s;
       words \<leftarrow> read_words payload 16 (nat wordCount);
       consume_record target parser seq fileIndex h words } }"

definition consumeFrame :: "targetKind \<Rightarrow> qshParser \<Rightarrow> byte list \<Rightarrow> bool \<Rightarrow> u32 \<Rightarrow> u32 \<Rightarrow> qshParser option" where
  "consumeFrame target parser frame escaped seq fileIndex = do {
     let parser = bump FrameCount_update parser;
     if escaped \<or> length frame \<le> 2
     then Some (bump ParseErrorCount_update (bump MalformedFrames_update parser))
     else do {
       payload \<leftarrow> slice frame 0 (int (length frame) - 2);
       trailer \<leftarrow> slice frame (int (length frame) - 2) (int (length frame));
       gotCRC \<leftarrow> uint16le trailer;
       if gotCRC \<noteq> diagCRC16 payload
       then Some (bump ParseErrorCount_update (bump MalformedFrames_update parser))
       else if length payload \<le> 15 then Some parser
       else do {
         b0 \<leftarrow> idx payload 0;
         if b0 \<noteq> 0x9d then Some parser
         else consume_qsh target parser payload seq fileIndex } } }"

section \<open>The byte loop\<close>

datatype ctx_point = AtFile nat | AtByte nat nat

record stream =
  st_frame :: "byte list"
  st_escaped :: bool
  st_seq :: u32
  st_discardFirst :: bool

definition parse_byte :: "targetKind \<Rightarrow> u32 \<Rightarrow> stream \<Rightarrow> qshParser \<Rightarrow> byte \<Rightarrow> (stream \<times> qshParser) option" where
  "parse_byte target fileIndex st parser b =
     (if b = 0x7e then
        (if st_discardFirst st then
           Some (st\<lparr>st_frame := [], st_escaped := False, st_discardFirst := False\<rparr>, parser)
         else if st_frame st \<noteq> [] then do {
           parser \<leftarrow> consumeFrame target parser (st_frame st) (st_escaped st) (st_seq st) fileIndex;
           Some (st\<lparr>st_frame := [], st_escaped := False, st_seq := st_seq st + 1\<rparr>, parser) }
         else Some (st\<lparr>st_frame := [], st_escaped := False\<rparr>, parser))
      else if st_escaped st then Some (st\<lparr>st_frame := st_frame st @ [b XOR 0x20], st_escaped := False\<rparr>, parser)
      else if b = 0x7d then Some (st\<lparr>st_escaped := True\<rparr>, parser)
      else Some (st\<lparr>st_frame := st_frame st @ [b]\<rparr>, parser))"

text \<open>The \<^verbatim>\<open>for bytesRead := 0; ; bytesRead++\<close> loop: the context is polled every 16384 bytes, the bytes are
  what \<^verbatim>\<open>ReadByte\<close> delivers, and \<open>tail\<close> is the error that ends reading (\<open>None\<close> is \<^verbatim>\<open>io.EOF\<close>).\<close>

fun parse_bytes :: "(nat \<Rightarrow> 'e option) \<Rightarrow> 'e option \<Rightarrow> targetKind \<Rightarrow> u32 \<Rightarrow> nat \<Rightarrow> byte list \<Rightarrow> stream \<Rightarrow>
    qshParser \<Rightarrow> ('e option \<times> qshParser) option" where
  "parse_bytes ctx tail target fileIndex n bs st parser =
     (case (if n mod 16384 = 0 then ctx n else None) of
        Some e \<Rightarrow> Some (Some e, parser)
      | None \<Rightarrow>
          (case bs of
             [] \<Rightarrow> Some (tail, parser)
           | b # bs' \<Rightarrow> do {
               (st', parser') \<leftarrow> parse_byte target fileIndex st parser b;
               parse_bytes ctx tail target fileIndex (n + 1) bs' st' parser' }))"

declare parse_bytes.simps [simp del]

definition parseReader :: "(nat \<Rightarrow> 'e option) \<Rightarrow> 'e option \<Rightarrow> byte list \<Rightarrow> qshParser \<Rightarrow> u32 \<Rightarrow> targetKind \<Rightarrow> bool \<Rightarrow>
    ('e option \<times> qshParser) option" where
  "parseReader ctx tail bs parser fileIndex target discardFirst =
     parse_bytes ctx tail target fileIndex 0 bs
       \<lparr>st_frame = [], st_escaped = False, st_seq = 0, st_discardFirst = discardFirst\<rparr> parser"

section \<open>Joining NR reports with candidates\<close>

definition better_candidate :: "qshReport \<Rightarrow> (qshCandidate \<times> u32) option \<Rightarrow> qshCandidate \<Rightarrow> (qshCandidate \<times> u32) option" where
  "better_candidate report best candidate =
     (if qc_file candidate \<noteq> qr_file report \<or> qc_pci candidate \<noteq> qr_pci report then best
      else let distance = unsignedDistance (qc_seq candidate) (qr_seq report) in
        case best of
          None \<Rightarrow> Some (candidate, distance)
        | Some (_, bestDistance) \<Rightarrow> if distance < bestDistance then Some (candidate, distance) else best)"

definition correlate_report :: "qshCandidate list \<Rightarrow> qshReport \<Rightarrow> qshReport" where
  "correlate_report candidates report =
     (if qr_rat report \<noteq> 0 then report
      else case foldl (better_candidate report) None candidates of
             None \<Rightarrow> report
           | Some (c, _) \<Rightarrow> report\<lparr>qr_arfcn := qc_arfcn c, qr_band := qc_band c\<rparr>)"

definition correlateNRReports :: "qshParser \<Rightarrow> qshParser" where
  "correlateNRReports parser =
     parser\<lparr>ps_reports := map (correlate_report (ps_candidates parser)) (ps_reports parser)\<rparr>"

section \<open>Aggregation\<close>

definition isServing :: "qshParser \<Rightarrow> u32 \<Rightarrow> u32 \<Rightarrow> u32 \<Rightarrow> bool" where
  "isServing parser rat pci arfcn =
     (let ratName = (if rat = 1 then ''LTE'' else ''NR'') in
      list_ex (\<lambda>cell. EqualFold (si_RAT cell) ratName \<and> si_PCI cell = pci \<and>
                 (si_ARFCN cell = 0 \<or> arfcn = 0 \<or> si_ARFCN cell = arfcn)) (ps_serving parser))"

record aggregateKey =
  k_rat :: u32
  k_pci :: u32
  k_arfcn :: u32

record aggregate =
  ag_band :: u32
  ag_rsrp :: "rat list"

text \<open>\<^verbatim>\<open>map[aggregateKey]*aggregate\<close> as an association list without duplicate keys; Go's iteration order over
  it is arbitrary, and \<open>finish\<close> sorts the keys by a total order, so that order does not show.\<close>

fun agg_add :: "aggregateKey \<Rightarrow> (aggregate \<Rightarrow> aggregate) \<Rightarrow> (aggregateKey \<times> aggregate) list \<Rightarrow> (aggregateKey \<times> aggregate) list" where
  "agg_add k f [] = [(k, f \<lparr>ag_band = 0, ag_rsrp = []\<rparr>)]"
| "agg_add k f ((k', a) # r) = (if k' = k then (k', f a) # r else (k', a) # agg_add k f r)"

definition report_key :: "qshReport \<Rightarrow> aggregateKey" where
  "report_key report = \<lparr>k_rat = qr_rat report, k_pci = qr_pci report, k_arfcn = qr_arfcn report\<rparr>"

definition report_counts :: "qshParser \<Rightarrow> qshReport \<Rightarrow> bool" where
  "report_counts parser report \<longleftrightarrow>
     \<not> (\<not> qr_direct report \<or> qr_arfcn report = 0 \<or> qr_rsrp report < -140 \<or> qr_rsrp report > -30) \<and>
     \<not> isServing parser (qr_rat report) (qr_pci report) (qr_arfcn report)"

definition aggregate_report :: "qshParser \<Rightarrow> (aggregateKey \<times> aggregate) list \<Rightarrow> qshReport \<Rightarrow> (aggregateKey \<times> aggregate) list" where
  "aggregate_report parser aggregates report =
     (if report_counts parser report
      then agg_add (report_key report)
             (\<lambda>item. item\<lparr>ag_band := (if qr_band report \<noteq> 0 then qr_band report else ag_band item),
                          ag_rsrp := ag_rsrp item @ [qr_rsrp report]\<rparr>) aggregates
      else aggregates)"

definition key_order :: "aggregateKey \<Rightarrow> u32 \<times> u32 \<times> u32" where
  "key_order k = (k_rat k, k_arfcn k, k_pci k)"

text \<open>The median of the sorted samples; an empty list would panic.\<close>

definition median_of :: "rat list \<Rightarrow> rat option" where
  "median_of xs = do {
     m \<leftarrow> idx xs (int (length xs div 2));
     if length xs mod 2 = 0 then do {
       l \<leftarrow> idx xs (int (length xs div 2) - 1);
       Some (roundQSH (f64_div (f64_add l m) 2)) }
     else Some m }"

definition emit_cell :: "captureMetrics \<Rightarrow> aggregateKey \<times> aggregate \<Rightarrow> captureMetrics option" where
  "emit_cell metrics ka = do {
     let (key, item) = ka;
     let samples = sort (ag_rsrp item);
     median \<leftarrow> median_of samples;
     let rat = (if k_rat key = 1 then ''LTE'' else ''NR'');
     let metrics = (if k_rat key = 1 then LTECellCount_update (\<lambda>n. n + 1) metrics
                    else NRCellCount_update (\<lambda>n. n + 1) metrics);
     Some (metrics\<lparr>Cells := Cells metrics @ [\<lparr>pc_RAT = rat, pc_PCI = k_pci key, pc_ARFCN = k_arfcn key,
             pc_Band = ag_band item, pc_RSRP = median, pc_Samples = length samples\<rparr>]\<rparr>) }"

definition finish :: "qshParser \<Rightarrow> qshParser option" where
  "finish parser = do {
     let parser = correlateNRReports parser;
     let aggregates = foldl (aggregate_report parser) [] (ps_reports parser);
     metrics \<leftarrow> ofold emit_cell (ps_metrics parser) (sort_key (\<lambda>ka. key_order (fst ka)) aggregates);
     Some (parser\<lparr>ps_metrics := metrics\<rparr>) }"

section \<open>The files of a capture window\<close>

record 'e qmdl_file =
  f_bytes :: "byte list"
  f_size :: "int option"
  f_readAt :: "int \<Rightarrow> byte option"
  f_seek :: "int \<Rightarrow> 'e option"
  f_tail :: "'e option"
  f_close :: "'e option"

datatype 'e qmdl_error = CtxErr 'e | OpenErr 'e | SeekErr 'e | ParseErr string 'e | CloseErr 'e

text \<open>The offset where a file is read from and the parser with the captured bytes counted.\<close>

definition window_start :: "(string \<rightharpoonup> int) option \<Rightarrow> string \<Rightarrow> 'e qmdl_file \<Rightarrow> qshParser \<Rightarrow> int \<times> qshParser" where
  "window_start offsets path file parser =
     (let offset = (case offsets of None \<Rightarrow> 0 | Some m \<Rightarrow> (case m path of None \<Rightarrow> 0 | Some v \<Rightarrow> v)) in
      case f_size file of
        None \<Rightarrow> (offset, parser)
      | Some sz \<Rightarrow>
          (let offset = (if offset > sz then sz else offset) in
           (offset, parser\<lparr>ps_metrics := CapturedBytes_update (\<lambda>n. n + (sz - offset)) (ps_metrics parser)\<rparr>)))"

definition analyze_file :: "(ctx_point \<Rightarrow> 'e option) \<Rightarrow> nat \<Rightarrow> string \<Rightarrow> 'e qmdl_file \<Rightarrow> (string \<rightharpoonup> int) option \<Rightarrow>
    targetKind \<Rightarrow> qshParser \<Rightarrow> ('e qmdl_error + qshParser) option" where
  "analyze_file ctx index path file offsets target parser = do {
     let (offset, parser) = window_start offsets path file parser;
     let discardFirst = (offset > 0 \<and> (case f_readAt file (offset - 1) of Some b \<Rightarrow> b \<noteq> 0x7e | None \<Rightarrow> False));
     case (if offset > 0 then f_seek file offset else None) of
       Some e \<Rightarrow> Some (Inl (SeekErr e))
     | None \<Rightarrow> do {
         (err, parser) \<leftarrow> parseReader (\<lambda>n. ctx (AtByte index n)) (f_tail file)
            (drop (nat offset) (f_bytes file)) parser (of_nat index) target discardFirst;
         Some (case err of
                 Some e \<Rightarrow> Inl (ParseErr path e)
               | None \<Rightarrow> (case f_close file of Some e \<Rightarrow> Inl (CloseErr e) | None \<Rightarrow> Inr parser)) } }"

fun analyze_files :: "(ctx_point \<Rightarrow> 'e option) \<Rightarrow> (string \<Rightarrow> 'e + 'e qmdl_file) \<Rightarrow> (string \<rightharpoonup> int) option \<Rightarrow>
    targetKind \<Rightarrow> nat \<Rightarrow> string list \<Rightarrow> qshParser \<Rightarrow> ('e qmdl_error + qshParser) option" where
  "analyze_files ctx openf offsets target index [] parser = Some (Inr parser)"
| "analyze_files ctx openf offsets target index (path # paths) parser =
     (case ctx (AtFile index) of
        Some e \<Rightarrow> Some (Inl (CtxErr e))
      | None \<Rightarrow>
          (case openf path of
             Inl e \<Rightarrow> Some (Inl (OpenErr e))
           | Inr file \<Rightarrow> do {
               r \<leftarrow> analyze_file ctx index path file offsets target parser;
               case r of
                 Inl e \<Rightarrow> Some (Inl e)
               | Inr parser \<Rightarrow> analyze_files ctx openf offsets target (index + 1) paths parser }))"

definition analyzeQMDLWindow :: "(ctx_point \<Rightarrow> 'e option) \<Rightarrow> (string \<Rightarrow> 'e + 'e qmdl_file) \<Rightarrow> string list \<Rightarrow>
    (string \<rightharpoonup> int) option \<Rightarrow> servingIdentity list \<Rightarrow> targetKind \<Rightarrow> ('e qmdl_error + captureMetrics) option" where
  "analyzeQMDLWindow ctx openf paths offsets serving target = do {
     r \<leftarrow> analyze_files ctx openf offsets target 0 paths (new_parser serving);
     case r of
       Inl e \<Rightarrow> Some (Inl e)
     | Inr parser \<Rightarrow> do { parser \<leftarrow> finish parser; Some (Inr (ps_metrics parser)) } }"

definition analyzeQMDLFiles :: "(ctx_point \<Rightarrow> 'e option) \<Rightarrow> (string \<Rightarrow> 'e + 'e qmdl_file) \<Rightarrow> string list \<Rightarrow>
    servingIdentity list \<Rightarrow> targetKind \<Rightarrow> ('e qmdl_error + captureMetrics) option" where
  "analyzeQMDLFiles ctx openf paths serving target = analyzeQMDLWindow ctx openf paths None serving target"

section \<open>Accounting\<close>

definition plausible_report :: "qshReport \<Rightarrow> bool" where
  "plausible_report r \<longleftrightarrow>
     (if qr_rat r = 0 then qr_pci r \<le> 1007 \<and> qr_direct r else plausible_lte r)"

text \<open>The counters of a parser that has not finished, where \<open>k\<close> is the number of QSH frames that are counted
  but whose record is still to be classified.\<close>

definition counters_ok :: "targetKind \<Rightarrow> int \<Rightarrow> qshParser \<Rightarrow> bool" where
  "counters_ok target k p \<longleftrightarrow>
     (let m = ps_metrics p in
      0 \<le> MalformedFrames m \<and> MalformedFrames m \<le> ParseErrorCount m \<and> 0 \<le> NRHashCount m \<and> 0 \<le> LTEHashCount m \<and>
      MalformedFrames m + QSHFrameCount m \<le> FrameCount m \<and>
      ParseSuccessCount m + (ParseErrorCount m - MalformedFrames m) + k \<le> QSHFrameCount m \<and>
      NRHashCount m + LTEHashCount m \<le> ParseSuccessCount m + (ParseErrorCount m - MalformedFrames m) \<and>
      ParseSuccessCount m = int (length (ps_reports p)) \<and>
      TargetHashCount m = (if target = targetNR \<or> target = targetCombined then NRHashCount m else 0) +
                          (if target = targetLTE \<or> target = targetCombined then LTEHashCount m else 0) \<and>
      16 * QSHFrameCount m \<le> QSHTotalBytes m \<and>
      NRCellCount m = 0 \<and> LTECellCount m = 0 \<and> Cells m = [])"

definition records_ok :: "qshParser \<Rightarrow> bool" where
  "records_ok p \<longleftrightarrow> list_all plausible_candidate (ps_candidates p) \<and> list_all plausible_report (ps_reports p)"

definition parser_ok :: "targetKind \<Rightarrow> servingIdentity list \<Rightarrow> qshParser \<Rightarrow> bool" where
  "parser_ok target serving p \<longleftrightarrow> counters_ok target 0 p \<and> records_ok p \<and> ps_serving p = serving"

lemmas parser_defs = counters_ok_def records_ok_def bump_def Let_def

lemma new_parser_ok: "parser_ok target serving (new_parser serving)"
  by (simp add: parser_ok_def parser_defs new_parser_def empty_metrics_def)

lemma addNRReport_spec:
  "\<exists>r ok. addNRReport p seq file words req = Some ((if ok then p\<lparr>ps_reports := ps_reports p @ [r]\<rparr> else p), ok) \<and>
     (ok \<longrightarrow> plausible_report r)"
proof (cases "length words < 7")
  case False
  then have i: "idx words 3 = Some (words ! 3)" "idx words 4 = Some (words ! 4)"
    "idx words 5 = Some (words ! 5)" "idx words 6 = Some (words ! 6)"
    by (simp_all add: idx_def)
  show ?thesis
  proof (cases "words ! 3 > 1007 \<or> words ! 5 > 1007 \<or> \<not> validQ7Signal (sint (words ! 4)) \<or> \<not> validQ7Signal (sint (words ! 6))")
    case True
    with False show ?thesis by (intro exI [of _ False] exI) (auto simp: addNRReport_def i Let_def)
  next
    case ok: False
    then have "plausible_report (zero_report\<lparr>qr_seq := seq, qr_file := file, qr_pci := words ! 3,
       qr_rsrp := roundQSH (f64_div (of_int (sint (words ! 4))) 128), qr_direct := True, qr_requiresARFCN := req\<rparr>)"
      by (simp add: plausible_report_def zero_report_def not_less)
    with ok False show ?thesis by (intro exI [of _ True] exI) (auto simp: addNRReport_def i Let_def)
  qed
qed (auto simp: addNRReport_def)

lemma consume_candidate_spec:
  "\<exists>p'. consume_candidate p seq file h words = Some p' \<and> ps_metrics p' = ps_metrics p \<and>
     ps_reports p' = ps_reports p \<and> ps_serving p' = ps_serving p \<and>
     (list_all plausible_candidate (ps_candidates p) \<longrightarrow> list_all plausible_candidate (ps_candidates p'))"
proof -
  obtain c ok where c: "decodeQSHCandidate h words = Some (c, ok)" using decodeQSHCandidate_total by fast
  then show ?thesis using decodeQSHCandidate_plausible [of h words c]
    by (cases ok) (auto simp: consume_candidate_def plausible_candidate_def)
qed

text \<open>The counting of one recognised record: \<open>hash_counted\<close> is the parser with its hash counters bumped.\<close>

definition hash_counted :: "((int \<Rightarrow> int) \<Rightarrow> captureMetrics \<Rightarrow> captureMetrics) \<Rightarrow> bool \<Rightarrow> qshParser \<Rightarrow> qshParser" where
  "hash_counted upd wanted p =
     (if wanted then bump TargetHashCount_update (bump upd p) else bump upd p)"

lemma counted_error:
  assumes "counters_ok target 1 p"
  shows "counters_ok target 0 (bump ParseErrorCount_update
           (hash_counted NRHashCount_update (target = targetNR \<or> target = targetCombined) p))"
    and "counters_ok target 0 (bump ParseErrorCount_update
           (hash_counted LTEHashCount_update (target = targetLTE \<or> target = targetCombined) p))"
  using assms by (auto simp: parser_defs hash_counted_def)

lemma counted_success:
  assumes "counters_ok target 1 p"
  shows "counters_ok target 0 (bump ParseSuccessCount_update
           (hash_counted NRHashCount_update (target = targetNR \<or> target = targetCombined) p
              \<lparr>ps_reports := ps_reports p @ [r]\<rparr>))"
    and "counters_ok target 0 (bump ParseSuccessCount_update
           (hash_counted LTEHashCount_update (target = targetLTE \<or> target = targetCombined) p
              \<lparr>ps_reports := ps_reports p @ [r]\<rparr>))"
  using assms by (auto simp: parser_defs hash_counted_def)

lemma hash_counted_fields [simp]:
  "ps_reports (hash_counted u w p) = ps_reports p" "ps_candidates (hash_counted u w p) = ps_candidates p"
  "ps_serving (hash_counted u w p) = ps_serving p"
  by (simp_all add: hash_counted_def bump_def)

lemma bump_fields [simp]:
  "ps_reports (bump u p) = ps_reports p" "ps_candidates (bump u p) = ps_candidates p"
  "ps_serving (bump u p) = ps_serving p"
  by (simp_all add: bump_def)

lemma consume_record_ok:
  assumes c: "counters_ok target 1 p" and r: "records_ok p"
  shows "\<exists>p'. consume_record target p seq file h words = Some p' \<and>
           parser_ok target (ps_serving p) p'"
proof -
  obtain q where q: "consume_candidate p seq file h words = Some q" "ps_metrics q = ps_metrics p"
      "ps_reports q = ps_reports p" "ps_serving q = ps_serving p"
    and qc: "list_all plausible_candidate (ps_candidates q)"
    using consume_candidate_spec [of p seq "file" h words] r by (auto simp: records_ok_def)
  have cq: "counters_ok target 1 q" using c q by (simp add: counters_ok_def)
  have rq: "list_all plausible_report (ps_reports q)" using r q by (simp add: records_ok_def)
  obtain strict minimum isNR where spec: "nrReportSpec h = (strict, minimum, isNR)" by (metis surj_pair)
  show ?thesis
  proof (cases isNR)
    case True
    let ?n = "hash_counted NRHashCount_update (target = targetNR \<or> target = targetCombined) q"
    obtain rep ok where add: "addNRReport ?n seq file words strict =
        Some ((if ok then ?n\<lparr>ps_reports := ps_reports ?n @ [rep]\<rparr> else ?n), ok)" "ok \<longrightarrow> plausible_report rep"
      using addNRReport_spec by blast
    have "consume_record target p seq file h words =
      Some (if \<not> length words < minimum \<and> ok
            then bump ParseSuccessCount_update (?n\<lparr>ps_reports := ps_reports ?n @ [rep]\<rparr>)
            else bump ParseErrorCount_update ?n)"
      using add(1) by (auto simp: consume_record_def q spec True Let_def hash_counted_def)
    then show ?thesis
      using counted_error(1) [OF cq] counted_success(1) [OF cq] add(2) qc rq
      by (auto simp: parser_ok_def records_ok_def q)
  next
    case False
    let ?n = "hash_counted LTEHashCount_update (target = targetLTE \<or> target = targetCombined) q"
    obtain rep rec valid where d: "decodeQSHLTEReport h words = Some (rep, rec, valid)"
      using decodeQSHLTEReport_total by (metis surj_pair)
    have pl: "rec \<and> valid \<longrightarrow> plausible_report (rep\<lparr>qr_seq := seq, qr_file := file\<rparr>)"
      using decodeQSHLTEReport_plausible [of h words rep] d by (auto simp: plausible_report_def plausible_lte_def)
    have "consume_record target p seq file h words =
      Some (if \<not> rec then q
            else if valid then bump ParseSuccessCount_update
                   (?n\<lparr>ps_reports := ps_reports ?n @ [rep\<lparr>qr_seq := seq, qr_file := file\<rparr>]\<rparr>)
            else bump ParseErrorCount_update ?n)"
      by (simp add: consume_record_def q spec False d Let_def hash_counted_def)
    moreover have "counters_ok target 0 q" using cq by (auto simp: counters_ok_def Let_def)
    ultimately show ?thesis
      using counted_error(2) [OF cq] counted_success(2) [OF cq] pl qc rq
      by (auto simp: parser_ok_def records_ok_def q)
  qed
qed

lemma consume_qsh_ok:
  assumes "parser_ok target serving p" and "counters_ok target 0 (bump FrameCount_update p)" and long: "15 < length pl"
  shows "\<exists>p'. consume_qsh target (bump FrameCount_update p) pl seq fi = Some p' \<and> parser_ok target serving p'"
proof -
  define q where "q = (bump QSHFrameCount_update (bump FrameCount_update p))
    \<lparr>ps_metrics := QSHTotalBytes_update (\<lambda>n. n + int (length pl))
       (ps_metrics (bump QSHFrameCount_update (bump FrameCount_update p)))\<rparr>"
  have q1: "counters_ok target 1 q" "records_ok q" "ps_serving q = serving"
    using assms(1) long by (auto simp: q_def parser_ok_def parser_defs)
  then have qe: "parser_ok target serving (bump ParseErrorCount_update q)"
    by (auto simp: parser_ok_def parser_defs)
  have i: "idx pl 4 = Some (pl ! 4)" using long by (simp add: idx_def)
  define wc where "wc = int (unat (pl ! 4)) - 0x13"
  obtain s h where h: "slice pl 12 16 = Some s" "uint32le s = Some h"
    using slice_uint32le [of 12 16 pl] long by (auto split: Option.bind_splits)
  have body: "consume_qsh target (bump FrameCount_update p) pl seq fi =
    (if wc < 0 \<or> wc > 236 \<or> int (length pl) < (wc + 4) * 4 then Some (bump ParseErrorCount_update q)
     else read_words pl 16 (nat wc) \<bind> consume_record target q seq fi h)"
    by (simp only: consume_qsh_def Let_def i h q_def wc_def Option.bind.bind_lunit)
  show ?thesis
  proof (cases "wc < 0 \<or> wc > 236 \<or> int (length pl) < (wc + 4) * 4")
    case True
    with qe show ?thesis by (simp only: body if_True) simp
  next
    case False
    then have "0 \<le> wc" "(wc + 4) * 4 \<le> int (length pl)" by auto
    then have "int (16 + 4 * nat wc) \<le> int (length pl)" by simp
    then have "16 + 4 * nat wc \<le> length pl" by (simp only: of_nat_le_iff)
    then obtain words where "read_words pl 16 (nat wc) = Some words"
      using read_words_total [of 16 "nat wc" pl] by blast
    with False consume_record_ok [OF q1(1,2)] q1(3) show ?thesis by (simp only: body if_False Option.bind.bind_lunit)
  qed
qed

lemma consumeFrame_ok:
  assumes "parser_ok target serving p"
  shows "\<exists>p'. consumeFrame target p frame escaped seq fi = Some p' \<and> parser_ok target serving p'"
proof -
  have mal: "parser_ok target serving (bump ParseErrorCount_update (bump MalformedFrames_update (bump FrameCount_update p)))"
    and other: "parser_ok target serving (bump FrameCount_update p)"
    using assms by (auto simp: parser_ok_def parser_defs)
  show ?thesis
  proof (cases "escaped \<or> length frame \<le> 2")
    case True
    with mal show ?thesis by (simp add: consumeFrame_def)
  next
    case False
    let ?pl = "take (length frame - 2) frame" and ?tr = "drop (length frame - 2) frame"
    have sl: "slice frame 0 (int (length frame) - 2) = Some ?pl"
      "slice frame (int (length frame) - 2) (int (length frame)) = Some ?tr"
      using slice_drop_last [of 2 frame] slice_last [of 2 frame] False by simp_all
    obtain crc where crc: "uint16le ?tr = Some crc" using uint16le_defined [of ?tr] False by auto
    have "15 < length ?pl \<Longrightarrow> idx ?pl 0 = Some (?pl ! 0)" by (simp add: idx_def)
    with False mal other consume_qsh_ok [OF assms, of ?pl seq fi] show ?thesis
      by (auto simp: consumeFrame_def sl crc Let_def not_le parser_ok_def)
  qed
qed

section \<open>The byte loop and the segments of the stream\<close>

text \<open>The reference: split the stream at the delimiter, drop what follows the last one, unescape each segment
  and consume the non-empty ones.\<close>

definition consume_segment :: "targetKind \<Rightarrow> u32 \<Rightarrow> u32 \<times> qshParser \<Rightarrow> byte list \<Rightarrow> (u32 \<times> qshParser) option" where
  "consume_segment target fileIndex sp seg =
     (let (frame, escaped) = foldl unescape_step ([], False) seg in
      if frame = [] then Some sp
      else do {
        p \<leftarrow> consumeFrame target (snd sp) frame escaped (fst sp) fileIndex;
        Some (fst sp + 1, p) })"

definition complete_segments :: "bool \<Rightarrow> byte list \<Rightarrow> byte list list" where
  "complete_segments discardFirst bs =
     (let segs = butlast (split_on 0x7e bs) in if discardFirst then tl segs else segs)"

lemma complete_segments_no_delim: "0x7e \<notin> set pre \<Longrightarrow> complete_segments d pre = []"
  by (simp add: complete_segments_def split_on_no_sep)

lemma complete_segments_delim:
  "0x7e \<notin> set pre \<Longrightarrow> complete_segments d (pre @ 0x7e # bs) =
     (if d then complete_segments False bs else pre # complete_segments False bs)"
  by (simp add: complete_segments_def split_on_append Let_def)

lemma parse_byte_cases:
  assumes "foldl unescape_step ([], False) pre = (st_frame st, st_escaped st)"
  shows "b \<noteq> 0x7e \<Longrightarrow> \<exists>st'. parse_byte target fi st p b = Some (st', p) \<and> st_seq st' = st_seq st \<and>
           st_discardFirst st' = st_discardFirst st \<and>
           foldl unescape_step ([], False) (pre @ [b]) = (st_frame st', st_escaped st')"
    and "parse_byte target fi st p 0x7e =
      (if st_discardFirst st then Some (\<lparr>st_frame = [], st_escaped = False, st_seq = st_seq st, st_discardFirst = False\<rparr>, p)
       else do { (s', p') \<leftarrow> consume_segment target fi (st_seq st, p) pre;
                 Some (\<lparr>st_frame = [], st_escaped = False, st_seq = s', st_discardFirst = False\<rparr>, p') })"
proof -
  show "b \<noteq> 0x7e \<Longrightarrow> \<exists>st'. parse_byte target fi st p b = Some (st', p) \<and> st_seq st' = st_seq st \<and>
           st_discardFirst st' = st_discardFirst st \<and>
           foldl unescape_step ([], False) (pre @ [b]) = (st_frame st', st_escaped st')"
    using assms by (simp add: parse_byte_def)
  show "parse_byte target fi st p 0x7e =
      (if st_discardFirst st then Some (\<lparr>st_frame = [], st_escaped = False, st_seq = st_seq st, st_discardFirst = False\<rparr>, p)
       else do { (s', p') \<leftarrow> consume_segment target fi (st_seq st, p) pre;
                 Some (\<lparr>st_frame = [], st_escaped = False, st_seq = s', st_discardFirst = False\<rparr>, p') })"
    using assms by (cases st) (auto simp: parse_byte_def consume_segment_def split: Option.bind_splits)
qed

lemma parse_bytes_segments:
  assumes "0x7e \<notin> set pre"
    and "foldl unescape_step ([], False) pre = (st_frame st, st_escaped st)"
  shows "parse_bytes (\<lambda>_. None) tail target fi n bs st p =
    map_option (\<lambda>sp. (tail, snd sp))
      (ofold (consume_segment target fi) (st_seq st, p) (complete_segments (st_discardFirst st) (pre @ bs)))"
  using assms
proof (induction bs arbitrary: n pre st p)
  case Nil
  then show ?case by (subst parse_bytes.simps) (simp add: complete_segments_no_delim)
next
  case (Cons b bs)
  show ?case
  proof (cases "b = 0x7e")
    case True
    let ?st = "\<lambda>s. \<lparr>st_frame = [], st_escaped = False, st_seq = s, st_discardFirst = False\<rparr>"
    have IH: "parse_bytes (\<lambda>_. None) tail target fi (Suc n) bs (?st s) q =
        map_option (\<lambda>sp. (tail, snd sp)) (ofold (consume_segment target fi) (s, q) (complete_segments False bs))" for s q
      using Cons.IH [of "[]" "?st s" "n + 1" q] by simp
    show ?thesis using parse_byte_cases(2) [OF Cons.prems(2), of target fi p] Cons.prems(1)
      by (subst parse_bytes.simps)
        (auto simp: True complete_segments_delim IH split: Option.bind_splits)
  next
    case False
    obtain st' where st': "parse_byte target fi st p b = Some (st', p)" "st_seq st' = st_seq st"
        "st_discardFirst st' = st_discardFirst st"
        "foldl unescape_step ([], False) (pre @ [b]) = (st_frame st', st_escaped st')"
      using parse_byte_cases(1) [OF Cons.prems(2) False] by blast
    have "0x7e \<notin> set (pre @ [b])" using Cons.prems(1) False by auto
    from Cons.IH [OF this st'(4), of "n + 1" p] show ?thesis
      by (subst parse_bytes.simps) (simp add: st')
  qed
qed

lemma parseReader_segments:
  assumes "\<And>n. ctx n = None"
  shows "parseReader ctx tail bs p fi target d =
    map_option (\<lambda>sp. (tail, snd sp)) (ofold (consume_segment target fi) (0, p) (complete_segments d bs))"
proof -
  have "ctx = (\<lambda>_. None)" using assms by blast
  then show ?thesis
    using parse_bytes_segments [of "[]" "\<lparr>st_frame = [], st_escaped = False, st_seq = 0, st_discardFirst = d\<rparr>" tail target fi 0 bs p]
    by (simp add: parseReader_def)
qed

section \<open>Totality and accounting of a window\<close>

lemma parse_byte_ok:
  assumes "parser_ok target serving p"
  shows "\<exists>st' p'. parse_byte target fi st p b = Some (st', p') \<and> parser_ok target serving p'"
  using assms consumeFrame_ok [OF assms, of "st_frame st" "st_escaped st" "st_seq st" fi]
  by (auto simp: parse_byte_def)

lemma parse_bytes_ok:
  "parser_ok target serving p \<Longrightarrow>
   \<exists>e p'. parse_bytes ctx tail target fi n bs st p = Some (e, p') \<and> parser_ok target serving p'"
proof (induction bs arbitrary: n st p)
  case Nil
  then show ?case by (subst parse_bytes.simps) (simp split: option.split)
next
  case (Cons b bs)
  obtain st' p' where "parse_byte target fi st p b = Some (st', p')" "parser_ok target serving p'"
    using parse_byte_ok [OF Cons.prems] by blast
  with Cons.IH [of p' "n + 1" st'] Cons.prems show ?case
    by (subst parse_bytes.simps) (simp split: option.split)
qed

lemma captured_ok:
  "parser_ok target serving p \<Longrightarrow> parser_ok target serving (p\<lparr>ps_metrics := CapturedBytes_update f (ps_metrics p)\<rparr>)"
  by (simp add: parser_ok_def counters_ok_def records_ok_def Let_def)

lemma window_start_ok: "parser_ok target serving p \<Longrightarrow> parser_ok target serving (snd (window_start offsets path file p))"
  by (auto simp: window_start_def Let_def captured_ok split: option.split)

lemma analyze_file_ok:
  assumes "parser_ok target serving p"
  shows "\<exists>r. analyze_file ctx i path file offsets target p = Some r \<and> (\<forall>p'. r = Inr p' \<longrightarrow> parser_ok target serving p')"
proof -
  obtain off q where w: "window_start offsets path file p = (off, q)" by fastforce
  have "parser_ok target serving q" using window_start_ok [OF assms, of offsets path "file"] w by simp
  then have "\<exists>e p'. parseReader c tl bs q fi target d = Some (e, p') \<and> parser_ok target serving p'" for c tl bs fi d
    unfolding parseReader_def by (rule parse_bytes_ok)
  then obtain e p' where "parseReader (\<lambda>n. ctx (AtByte i n)) (f_tail file) (drop (nat off) (f_bytes file)) q (of_nat i) target
      (off > 0 \<and> (case f_readAt file (off - 1) of Some b \<Rightarrow> b \<noteq> 0x7e | None \<Rightarrow> False)) = Some (e, p')" "parser_ok target serving p'"
    by blast
  then show ?thesis by (auto simp: analyze_file_def Let_def w split: option.splits)
qed

lemma analyze_files_ok:
  "parser_ok target serving p \<Longrightarrow>
   \<exists>r. analyze_files ctx openf offsets target i paths p = Some r \<and> (\<forall>p'. r = Inr p' \<longrightarrow> parser_ok target serving p')"
proof (induction paths arbitrary: i p)
  case (Cons path paths)
  show ?case
  proof (cases "ctx (AtFile i) = None \<and> (\<exists>f. openf path = Inr f)")
    case True
    then obtain f where f: "openf path = Inr f" by blast
    obtain r where r: "analyze_file ctx i path f offsets target p = Some r" "\<forall>p'. r = Inr p' \<longrightarrow> parser_ok target serving p'"
      using analyze_file_ok [OF Cons.prems] by blast
    with Cons.IH True f show ?thesis by (cases r) auto
  qed (auto split: option.splits sum.splits)
qed simp

section \<open>Medians\<close>

lemma median_range:
  assumes "xs \<noteq> []" and "\<forall>x\<in>set xs. - 140 \<le> x \<and> x \<le> - 30"
  shows "\<exists>v. median_of xs = Some v \<and> - 140 \<le> v \<and> v \<le> - 30"
proof -
  let ?n = "length xs"
  have pos: "0 < ?n" using assms(1) by simp
  then have m: "idx xs (int (?n div 2)) = Some (xs ! (?n div 2))" "?n div 2 < ?n" by (simp_all add: idx_def)
  then have mr: "- 140 \<le> xs ! (?n div 2)" "xs ! (?n div 2) \<le> - 30" using assms(2) by simp_all
  show ?thesis
  proof (cases "?n mod 2 = 0")
    case True
    then have half: "0 < ?n div 2" using pos by presburger
    then have l: "idx xs (int (?n div 2) - 1) = Some (xs ! (?n div 2 - 1))" "?n div 2 - 1 < ?n"
      using m(2) by (auto simp: idx_def nat_diff_distrib')
    then have lr: "- 140 \<le> xs ! (?n div 2 - 1)" "xs ! (?n div 2 - 1) \<le> - 30" using assms(2) by simp_all
    let ?s = "xs ! (?n div 2 - 1) + xs ! (?n div 2)"
    have s: "of_int (- 280) \<le> ?s" "?s \<le> of_int (- 60)" using mr lr by simp_all
    then have "\<bar>?s\<bar> < 2 ^ 53" by (simp add: abs_if)
    from fl_int_bounds(1) [OF this s(1)] fl_int_bounds(2) [OF this s(2)]
    have h: "of_int (- 140) \<le> fl ?s / 2" "fl ?s / 2 \<le> of_int (- 30)" by simp_all
    then have "\<bar>fl ?s / 2\<bar> < 2 ^ 53" by (simp add: abs_if)
    from fl_int_bounds(1) [OF this h(1)] fl_int_bounds(2) [OF this h(2)]
      roundQSH_range [of "- 140" "- 30" "f64_div (f64_add (xs ! (?n div 2 - 1)) (xs ! (?n div 2))) 2"]
    show ?thesis using True m(1) l(1) by (simp add: median_of_def f64_div_def f64_add_def)
  qed (use m mr in \<open>simp add: median_of_def\<close>)
qed

section \<open>Aggregation\<close>

lemma set_agg_add_keys: "fst ` set (agg_add k f as) = insert k (fst ` set as)"
  by (induction k f as rule: agg_add.induct) auto

lemma distinct_agg_add: "distinct (map fst as) \<Longrightarrow> distinct (map fst (agg_add k f as))"
proof (induction k f as rule: agg_add.induct)
  case (2 k f k' a r)
  then show ?case using set_agg_add_keys [of k f r] by (auto simp: set_map [symmetric] simp del: set_map)
qed simp

lemma agg_add_lookup:
  "distinct (map fst as) \<Longrightarrow> (k', a) \<in> set (agg_add k f as) \<longleftrightarrow>
   (if k' = k then a = f (case map_of as k of None \<Rightarrow> \<lparr>ag_band = 0, ag_rsrp = []\<rparr> | Some b \<Rightarrow> b)
    else (k', a) \<in> set as)"
proof (induction k f as rule: agg_add.induct)
  case (2 k f k'' b r)
  then have nk: "(k'', x) \<notin> set r" for x by (force simp: image_iff)
  from 2 nk show ?case by (auto split: if_splits)
qed auto

definition samples_of :: "qshParser \<Rightarrow> aggregateKey \<Rightarrow> qshReport list \<Rightarrow> rat list" where
  "samples_of p k rs = map qr_rsrp (filter (\<lambda>r. report_counts p r \<and> report_key r = k) rs)"

lemma samples_of_snoc:
  "samples_of p k (rs @ [r]) = samples_of p k rs @ (if report_counts p r \<and> report_key r = k then [qr_rsrp r] else [])"
  by (simp add: samples_of_def)

definition aggregates_ok :: "qshParser \<Rightarrow> qshReport list \<Rightarrow> (aggregateKey \<times> aggregate) list \<Rightarrow> bool" where
  "aggregates_ok p rs as \<longleftrightarrow>
     distinct (map fst as) \<and> fst ` set as = report_key ` {r \<in> set rs. report_counts p r} \<and>
     (\<forall>(k, a) \<in> set as. ag_rsrp a = samples_of p k rs)"

lemma samples_of_new:
  "aggregates_ok p rs as \<Longrightarrow> k \<notin> fst ` set as \<Longrightarrow> samples_of p k rs = []"
  by (auto simp: aggregates_ok_def samples_of_def filter_empty_conv)

lemma aggregate_step:
  assumes "aggregates_ok p rs as"
  shows "aggregates_ok p (rs @ [r]) (aggregate_report p as r)"
proof (cases "report_counts p r")
  case True
  let ?k = "report_key r"
  have d: "distinct (map fst as)" using assms by (simp add: aggregates_ok_def)
  have lookup: "ag_rsrp (case map_of as ?k of None \<Rightarrow> \<lparr>ag_band = 0, ag_rsrp = []\<rparr> | Some b \<Rightarrow> b) = samples_of p ?k rs"
  proof (cases "map_of as ?k")
    case None
    then have "?k \<notin> fst ` set as" by (simp add: map_of_eq_None_iff)
    from samples_of_new [OF assms this] None show ?thesis by simp
  next
    case (Some b)
    with assms show ?thesis by (auto simp: aggregates_ok_def dest!: map_of_SomeD)
  qed
  have "fst ` set (aggregate_report p as r) = report_key ` {x \<in> set (rs @ [r]). report_counts p x}"
    using assms True by (auto simp: aggregate_report_def set_agg_add_keys aggregates_ok_def)
  moreover have "ag_rsrp a = samples_of p k (rs @ [r])" if "(k, a) \<in> set (aggregate_report p as r)" for k a
    using that assms True lookup
    by (auto simp: aggregate_report_def agg_add_lookup [OF d] samples_of_snoc aggregates_ok_def split: if_splits)
  ultimately show ?thesis using d by (auto simp: aggregates_ok_def aggregate_report_def distinct_agg_add)
next
  case False
  then have "{x \<in> set (rs @ [r]). report_counts p x} = {x \<in> set rs. report_counts p x}" by auto
  with False assms show ?thesis by (simp add: aggregates_ok_def aggregate_report_def samples_of_snoc)
qed

lemma aggregates_fold: "aggregates_ok p rs (foldl (aggregate_report p) [] rs)"
proof (induction rs rule: rev_induct)
  case Nil
  then show ?case by (simp add: aggregates_ok_def)
next
  case (snoc r rs)
  then show ?case using aggregate_step by simp
qed

section \<open>Cells\<close>

definition rat_name :: "aggregateKey \<Rightarrow> string" where
  "rat_name k = (if k_rat k = 1 then ''LTE'' else ''NR'')"

definition cell_of :: "aggregateKey \<times> aggregate \<Rightarrow> parsedCell" where
  "cell_of ka =
     \<lparr>pc_RAT = rat_name (fst ka), pc_PCI = k_pci (fst ka), pc_ARFCN = k_arfcn (fst ka), pc_Band = ag_band (snd ka),
      pc_RSRP = the (median_of (sort (ag_rsrp (snd ka)))), pc_Samples = length (ag_rsrp (snd ka))\<rparr>"

definition count_rat :: "string \<Rightarrow> parsedCell list \<Rightarrow> int" where
  "count_rat rat cs = int (length (filter (\<lambda>c. pc_RAT c = rat) cs))"

lemma emit_cells:
  assumes "\<forall>ka\<in>set kas. median_of (sort (ag_rsrp (snd ka))) \<noteq> None"
  shows "ofold emit_cell m kas = Some (m\<lparr>
    NRCellCount := NRCellCount m + count_rat ''NR'' (map cell_of kas),
    LTECellCount := LTECellCount m + count_rat ''LTE'' (map cell_of kas),
    Cells := Cells m @ map cell_of kas\<rparr>)"
  using assms
proof (induction kas arbitrary: m)
  case Nil
  then show ?case by (simp add: count_rat_def)
next
  case (Cons ka kas)
  then obtain v where v: "median_of (sort (ag_rsrp (snd ka))) = Some v" by auto
  have step: "emit_cell m ka = Some (m\<lparr>
    NRCellCount := NRCellCount m + count_rat ''NR'' [cell_of ka],
    LTECellCount := LTECellCount m + count_rat ''LTE'' [cell_of ka], Cells := Cells m @ [cell_of ka]\<rparr>)"
    by (cases "k_rat (fst ka) = 1") (simp_all add: emit_cell_def split_beta Let_def v cell_of_def rat_name_def count_rat_def)
  have cr: "count_rat s (c # cs) = count_rat s [c] + count_rat s cs" for s c cs
    by (simp add: count_rat_def)
  have IH: "ofold emit_cell m' kas = Some (m'\<lparr>
    NRCellCount := NRCellCount m' + count_rat ''NR'' (map cell_of kas),
    LTECellCount := LTECellCount m' + count_rat ''LTE'' (map cell_of kas), Cells := Cells m' @ map cell_of kas\<rparr>)" for m'
    using Cons by simp
  show ?case
    by (simp add: step IH cr [of _ "cell_of ka" "map cell_of kas"])
qed

lemma key_order_inject: "key_order a = key_order b \<Longrightarrow> a = b"
  by (cases a; cases b) (simp add: key_order_def)

lemma sorted_keys_strict:
  assumes "distinct (map fst as)"
  shows "sorted_wrt (<) (map (\<lambda>ka. key_order (fst ka)) (sort_key (\<lambda>ka. key_order (fst ka)) as))"
proof -
  let ?s = "sort_key (\<lambda>ka. key_order (fst ka)) as"
  have "distinct (map fst ?s)"
    using assms by (simp add: distinct_map inj_on_def)
  then have "distinct (map key_order (map fst ?s))"
    by (subst distinct_map) (auto simp: inj_on_def dest: key_order_inject)
  then have "distinct (map (\<lambda>ka. key_order (fst ka)) ?s)" by (simp add: comp_def)
  then show ?thesis by (simp add: strict_sorted_iff)
qed

lemma sum_filter_keys:
  "distinct ks \<Longrightarrow> (\<Sum>k\<leftarrow>ks. length (filter (\<lambda>r. P r \<and> f r = k) rs)) \<le> length rs"
proof (induction rs)
  case (Cons r rs)
  have "(\<Sum>k\<leftarrow>ks. length (filter (\<lambda>r. P r \<and> f r = k) (r # rs))) =
      (\<Sum>k\<leftarrow>ks. (if P r \<and> f r = k then 1 else 0)) + (\<Sum>k\<leftarrow>ks. length (filter (\<lambda>r. P r \<and> f r = k) rs))"
    by (subst sum_list_addf [symmetric]) (rule arg_cong [where f = sum_list], rule map_cong, simp_all)
  moreover have "(\<Sum>k\<leftarrow>ks. (if P r \<and> f r = k then 1 else 0 :: nat)) \<le> 1"
    using Cons.prems by (induction ks) (auto simp: sum_list_0 intro!: sum_list_nonneg)
  ultimately show ?case using Cons by simp
qed simp

definition serves :: "servingIdentity list \<Rightarrow> parsedCell \<Rightarrow> bool" where
  "serves serving c \<longleftrightarrow>
     (\<exists>s\<in>set serving. EqualFold (si_RAT s) (pc_RAT c) \<and> si_PCI s = pc_PCI c \<and>
        (si_ARFCN s = 0 \<or> si_ARFCN s = pc_ARFCN c))"

definition cell_ok :: "servingIdentity list \<Rightarrow> parsedCell \<Rightarrow> bool" where
  "cell_ok serving c \<longleftrightarrow>
     (pc_RAT c = ''NR'' \<and> pc_PCI c \<le> 1007 \<or> pc_RAT c = ''LTE'' \<and> pc_PCI c \<le> 503) \<and>
     pc_ARFCN c \<noteq> 0 \<and> - 140 \<le> pc_RSRP c \<and> pc_RSRP c \<le> - 30 \<and> 0 < pc_Samples c \<and> \<not> serves serving c"

definition cell_order :: "parsedCell \<Rightarrow> bool \<times> u32 \<times> u32" where
  "cell_order c = (pc_RAT c = ''LTE'', pc_ARFCN c, pc_PCI c)"

definition cells_ok :: "servingIdentity list \<Rightarrow> captureMetrics \<Rightarrow> bool" where
  "cells_ok serving m \<longleftrightarrow>
     list_all (cell_ok serving) (Cells m) \<and> sorted_wrt (<) (map cell_order (Cells m)) \<and>
     NRCellCount m = count_rat ''NR'' (Cells m) \<and> LTECellCount m = count_rat ''LTE'' (Cells m) \<and>
     int (\<Sum>c\<leftarrow>Cells m. pc_Samples c) \<le> ParseSuccessCount m"

lemma correlate_plausible: "plausible_report r \<Longrightarrow> plausible_report (correlate_report cs r)"
  by (auto simp: correlate_report_def plausible_report_def split: option.splits)

lemma plausible_rat: "plausible_report r \<Longrightarrow> qr_rat r = 0 \<or> qr_rat r = 1"
  by (auto simp: plausible_report_def plausible_lte_def split: if_splits)

lemma counting_cell:
  assumes as: "aggregates_ok p rs as" and pl: "\<forall>r\<in>set rs. plausible_report r" and ka: "ka \<in> set as"
  shows "median_of (sort (ag_rsrp (snd ka))) \<noteq> None" and "cell_ok (ps_serving p) (cell_of ka)"
    and "k_rat (fst ka) = 0 \<or> k_rat (fst ka) = 1"
    and "pc_Samples (cell_of ka) = length (samples_of p (fst ka) rs)"
proof -
  obtain r where r: "r \<in> set rs" "report_counts p r" "fst ka = report_key r"
    using as ka by (force simp: aggregates_ok_def)
  have smp: "ag_rsrp (snd ka) = samples_of p (fst ka) rs" using as ka by (auto simp: aggregates_ok_def split_beta)
  have ne: "ag_rsrp (snd ka) \<noteq> []" using r by (auto simp: smp samples_of_def filter_empty_conv)
  have "\<forall>x\<in>set (ag_rsrp (snd ka)). - 140 \<le> x \<and> x \<le> - 30"
    by (auto simp: smp samples_of_def report_counts_def)
  moreover have "sort (ag_rsrp (snd ka)) \<noteq> []" using ne by (metis length_greater_0_conv length_sort)
  ultimately obtain v
    where v: "median_of (sort (ag_rsrp (snd ka))) = Some v" "- 140 \<le> v" "v \<le> - 30"
    using median_range [of "sort (ag_rsrp (snd ka))"] by auto
  show "median_of (sort (ag_rsrp (snd ka))) \<noteq> None" using v by simp
  have pr: "plausible_report r" using pl r by simp
  show rat: "k_rat (fst ka) = 0 \<or> k_rat (fst ka) = 1" using plausible_rat [OF pr] r by (simp add: report_key_def)
  have pci: "k_rat (fst ka) = 0 \<longrightarrow> k_pci (fst ka) \<le> 1007" "k_rat (fst ka) = 1 \<longrightarrow> k_pci (fst ka) \<le> 503"
    using pr r by (auto simp: plausible_report_def plausible_lte_def report_key_def)
  have ns: "\<not> serves (ps_serving p) (cell_of ka)"
    using r(2,3) by (auto simp: report_counts_def isServing_def Let_def list_ex_iff serves_def cell_of_def rat_name_def report_key_def split: if_splits)
  have "k_arfcn (fst ka) \<noteq> 0" using r by (simp add: report_counts_def report_key_def)
  with v ne rat pci ns show "cell_ok (ps_serving p) (cell_of ka)"
    by (auto simp: cell_ok_def cell_of_def rat_name_def)
  show "pc_Samples (cell_of ka) = length (samples_of p (fst ka) rs)" by (simp add: cell_of_def smp)
qed

lemma finish_cells:
  assumes "parser_ok target serving p"
  shows "\<exists>p'. finish p = Some p' \<and> cells_ok serving (ps_metrics p') \<and>
    ps_metrics p' = (ps_metrics p)\<lparr>NRCellCount := NRCellCount (ps_metrics p'),
       LTECellCount := LTECellCount (ps_metrics p'), Cells := Cells (ps_metrics p')\<rparr>"
proof -
  let ?q = "correlateNRReports p"
  let ?rs = "ps_reports ?q"
  let ?as = "foldl (aggregate_report ?q) [] ?rs"
  let ?kas = "sort_key (\<lambda>ka. key_order (fst ka)) ?as"
  have as: "aggregates_ok ?q ?rs ?as" by (rule aggregates_fold)
  have pl: "\<forall>r\<in>set ?rs. plausible_report r"
    using assms by (auto simp: parser_ok_def records_ok_def list_all_iff correlateNRReports_def intro: correlate_plausible)
  note cell = counting_cell [OF as pl]
  have sv: "ps_serving ?q = serving" and m: "ps_metrics ?q = ps_metrics p" and len: "length ?rs = length (ps_reports p)"
    using assms by (simp_all add: correlateNRReports_def parser_ok_def)
  have fin: "ofold emit_cell (ps_metrics p) ?kas = Some ((ps_metrics p)\<lparr>
    NRCellCount := NRCellCount (ps_metrics p) + count_rat ''NR'' (map cell_of ?kas),
    LTECellCount := LTECellCount (ps_metrics p) + count_rat ''LTE'' (map cell_of ?kas),
    Cells := Cells (ps_metrics p) @ map cell_of ?kas\<rparr>)"
    using cell(1) by (intro emit_cells) simp
  have zero: "NRCellCount (ps_metrics p) = 0" "LTECellCount (ps_metrics p) = 0" "Cells (ps_metrics p) = []"
    "ParseSuccessCount (ps_metrics p) = int (length ?rs)"
    using assms len by (simp_all add: parser_ok_def counters_ok_def Let_def)
  have srt: "sorted_wrt (<) (map cell_order (map cell_of ?kas))"
  proof -
    have "sorted_wrt (\<lambda>a b. key_order (fst a) < key_order (fst b)) ?kas"
      using sorted_keys_strict [of ?as] as by (simp add: aggregates_ok_def sorted_wrt_map)
    then have "sorted_wrt (\<lambda>a b. cell_order (cell_of a) < cell_order (cell_of b)) ?kas"
    proof (rule sorted_wrt_mono_rel [rotated])
      fix a b assume "a \<in> set ?kas" "b \<in> set ?kas" and lt: "key_order (fst a) < key_order (fst b)"
      then have "k_rat (fst a) = 0 \<or> k_rat (fst a) = 1" "k_rat (fst b) = 0 \<or> k_rat (fst b) = 1"
        using cell(3) by simp_all
      with lt show "cell_order (cell_of a) < cell_order (cell_of b)"
        by (auto simp: key_order_def cell_order_def cell_of_def rat_name_def less_prod_def' split: if_splits)
    qed
    then show ?thesis by (simp add: sorted_wrt_map)
  qed
  have "(\<Sum>c\<leftarrow>map cell_of ?kas. pc_Samples c) = (\<Sum>k\<leftarrow>map fst ?kas. length (samples_of ?q k ?rs))"
    using cell(4) by (auto intro!: arg_cong [where f = sum_list] simp: comp_def)
  also have "\<dots> \<le> length ?rs"
    using sum_filter_keys [of "map fst ?kas" "report_counts ?q" report_key ?rs] as
    by (simp add: samples_of_def aggregates_ok_def distinct_map inj_on_def)
  finally have smp: "(\<Sum>c\<leftarrow>map cell_of ?kas. pc_Samples c) \<le> length ?rs" .
  have "list_all (cell_ok serving) (map cell_of ?kas)" using cell(2) sv by (auto simp: list_all_iff)
  with smp srt show ?thesis
    by (simp add: finish_def Let_def m fin zero cells_ok_def)
qed

section \<open>Samples\<close>

text \<open>One LTE measurement record: EARFCN 1300, PCI 77, RSRP -95 dBm, RSRQ -11.0 dB.\<close>

definition sample_payload :: "byte list" where
  "sample_payload = [157, 0, 0, 0, 23, 0, 0, 0, 0, 0, 0, 0, 160, 84, 254, 216, 20, 5, 0, 0, 77, 0, 0, 0, 161, 255, 255, 255, 146, 255, 255, 255]"

definition sample_stream :: "byte list" where
  "sample_stream = [157, 0, 0, 0, 23, 0, 0, 0, 0, 0, 0, 0, 160, 84, 254, 216, 20, 5, 0, 0, 77, 0, 0, 0, 161, 255, 255, 255, 146, 255, 255, 255, 58, 223, 126]"

definition sample_file :: "'e qmdl_file" where
  "sample_file = \<lparr>f_bytes = sample_stream, f_size = Some (int (length sample_stream)), f_readAt = (\<lambda>_. None),
     f_seek = (\<lambda>_. None), f_tail = None, f_close = None\<rparr>"

definition sample_metrics :: captureMetrics where
  "sample_metrics = empty_metrics\<lparr>CapturedBytes := 35, FrameCount := 1, QSHFrameCount := 1, QSHTotalBytes := 32,
     TargetHashCount := 1, ParseSuccessCount := 1, LTECellCount := 1, LTEHashCount := 1,
     Cells := [\<lparr>pc_RAT = ''LTE'', pc_PCI = 77, pc_ARFCN = 1300, pc_Band = 0, pc_RSRP = - 95, pc_Samples = 1\<rparr>]\<rparr>"

lemmas read_eval = slice_def idx_def uint16le_def le16_def uint32le_def le32_def eval_simps Let_def

lemma sample_words: "read_words sample_payload 16 4 = Some [1300, 77, 0xffffffa1, 0xffffff92]"
  by (simp add: sample_payload_def read_eval)

lemma sample_crc: "diagCRC16 sample_payload = 0xdf3a"
  by (simp add: sample_payload_def crc_eval)

lemma sample_segments: "complete_segments False sample_stream = [sample_payload @ [58, 223]]"
  by (simp add: complete_segments_def sample_stream_def sample_payload_def)

lemma sample_unescaped: "foldl unescape_step ([], False) sample_payload = (sample_payload, False)"
  by (simp add: sample_payload_def)

lemma sample_decode:
  "decodeQSHLTEReport 0xd8fe54a0 [1300, 77, 0xffffffa1, 0xffffff92] =
   Some (zero_report\<lparr>qr_rat := 1, qr_pci := 77, qr_arfcn := 1300, qr_rsrp := - 95, qr_direct := True\<rparr>, True, True)"
  by (simp add: decodeQSHLTEReport_def lte_switch_def lte_signal_def idx_def decodeLTERSRP_def validLTERSRQRaw_def Let_def)

definition sample_report :: qshReport where
  "sample_report = zero_report\<lparr>qr_rat := 1, qr_pci := 77, qr_arfcn := 1300, qr_rsrp := - 95, qr_direct := True\<rparr>"

definition sample_parsed :: qshParser where
  "sample_parsed = \<lparr>ps_metrics = sample_metrics\<lparr>LTECellCount := 0, Cells := []\<rparr>, ps_candidates = [],
     ps_reports = [sample_report], ps_serving = []\<rparr>"

lemma sample_consume:
  "consumeFrame targetLTE (snd (window_start None ''a'' sample_file (new_parser []))) (sample_payload @ [58, 223]) False 0 0 =
   Some sample_parsed"
proof -
  have len: "length sample_payload = 32" by (simp add: sample_payload_def)
  have i: "idx sample_payload 0 = Some 0x9d" "idx sample_payload 4 = Some 23" "slice sample_payload 12 16 = Some [160, 84, 254, 216]"
    by (simp_all add: sample_payload_def idx_def slice_def)
  have s: "slice (sample_payload @ [58, 223]) 0 32 = Some sample_payload"
    "slice (sample_payload @ [58, 223]) 32 34 = Some [58, 223]"
    by (simp_all add: len slice_def)
  have w: "uint16le [58, 223] = Some 0xdf3a" "uint32le [160, 84, 254, 216] = Some 0xd8fe54a0"
    by (simp_all add: uint16le_def le16_def uint32le_def le32_def)
  have c: "decodeQSHCandidate 0xd8fe54a0 [1300, 77, 0xffffffa1, 0xffffff92] = Some (zero_candidate, False)"
    by (simp add: decodeQSHCandidate_def candidate_switch_def)
  show ?thesis
    by (simp add: consumeFrame_def consume_qsh_def consume_record_def consume_candidate_def len i s w c sample_crc sample_words
        sample_decode nrReportSpec_def window_start_def sample_file_def sample_stream_def new_parser_def bump_def
        sample_parsed_def sample_metrics_def sample_report_def empty_metrics_def zero_report_def targetLTE_def targetCombined_def)
qed

lemma sample_finish: "finish sample_parsed = Some (sample_parsed\<lparr>ps_metrics := sample_metrics\<rparr>)"
  by (simp add: finish_def sample_parsed_def correlateNRReports_def correlate_report_def sample_report_def zero_report_def
      aggregate_report_def report_counts_def isServing_def report_key_def emit_cell_def median_of_def idx_def
      sample_metrics_def empty_metrics_def)

lemma sample_file_fields:
  "f_bytes sample_file = sample_stream" "f_seek sample_file = (\<lambda>_. None)" "f_tail sample_file = None" "f_close sample_file = None"
  by (simp_all add: sample_file_def)

lemma sample_window_at:
  assumes "offsets \<in> {None, Some Map.empty}"
  shows "analyzeQMDLWindow (\<lambda>_. None :: 'e option) (\<lambda>_. Inr sample_file) [path] offsets [] targetLTE = Some (Inr sample_metrics)"
proof -
  define q where "q = snd (window_start None ''a'' (sample_file :: 'e qmdl_file) (new_parser []))"
  have "parseReader (\<lambda>_. None :: 'e option) None sample_stream q 0 targetLTE False = Some (None, sample_parsed)"
    by (subst parseReader_segments)
      (simp_all add: sample_segments consume_segment_def sample_unescaped sample_consume q_def)
  moreover have "window_start offsets path (sample_file :: 'e qmdl_file) (new_parser []) = (0, q)"
    using assms by (auto simp: q_def window_start_def sample_file_def sample_stream_def)
  ultimately have "analyze_file (\<lambda>_. None :: 'e option) 0 path sample_file offsets targetLTE (new_parser []) = Some (Inr sample_parsed)"
    by (simp add: analyze_file_def sample_file_fields)
  then show ?thesis
    by (simp add: analyzeQMDLWindow_def sample_finish)
qed

lemmas sample_window = sample_window_at [where offsets = None and path = "''a''", simplified]

section \<open>Nearest candidates\<close>

definition joins :: "qshReport \<Rightarrow> qshCandidate \<Rightarrow> bool" where
  "joins r c \<longleftrightarrow> qc_file c = qr_file r \<and> qc_pci c = qr_pci r"

definition seq_distance :: "qshReport \<Rightarrow> qshCandidate \<Rightarrow> u32" where
  "seq_distance r c = unsignedDistance (qc_seq c) (qr_seq r)"

lemma unsignedDistance_abs: "uint (unsignedDistance a b) = \<bar>uint a - uint b\<bar>"
proof (cases "b \<le> a")
  case True
  then show ?thesis using uint_minus_simple_alt [of b a] by (simp add: unsignedDistance_def word_le_def)
next
  case False
  then show ?thesis using uint_minus_simple_alt [of a b] by (simp add: unsignedDistance_def word_le_def)
qed

text \<open>The running best after the candidates \<open>cs\<close>: the first of the nearest ones that join the report.\<close>

definition first_nearest :: "qshReport \<Rightarrow> qshCandidate list \<Rightarrow> nat \<Rightarrow> bool" where
  "first_nearest r cs i \<longleftrightarrow> i < length cs \<and> joins r (cs ! i) \<and>
     (\<forall>j<length cs. joins r (cs ! j) \<longrightarrow> seq_distance r (cs ! i) \<le> seq_distance r (cs ! j)) \<and>
     (\<forall>j<i. joins r (cs ! j) \<longrightarrow> seq_distance r (cs ! i) < seq_distance r (cs ! j))"

lemma first_nearest_snoc:
  assumes "first_nearest r cs i"
  shows "\<not> joins r c \<or> seq_distance r (cs ! i) \<le> seq_distance r c \<Longrightarrow> first_nearest r (cs @ [c]) i"
    and "joins r c \<Longrightarrow> seq_distance r c < seq_distance r (cs ! i) \<Longrightarrow> first_nearest r (cs @ [c]) (length cs)"
  using assms unfolding first_nearest_def
  by (auto simp: nth_append less_Suc_eq)

lemma better_candidate_step:
  "better_candidate r best c =
     (if \<not> joins r c then best
      else case best of
             None \<Rightarrow> Some (c, seq_distance r c)
           | Some (b, d) \<Rightarrow> if seq_distance r c < d then Some (c, seq_distance r c) else best)"
  by (cases best) (auto simp: better_candidate_def joins_def seq_distance_def Let_def)

lemma foldl_better:
  "case foldl (better_candidate r) None cs of
     None \<Rightarrow> \<forall>c\<in>set cs. \<not> joins r c
   | Some (c, d) \<Rightarrow> \<exists>i. first_nearest r cs i \<and> c = cs ! i \<and> d = seq_distance r c"
proof (induction cs rule: rev_induct)
  case (snoc c cs)
  show ?case
  proof (cases "foldl (better_candidate r) None cs")
    case None
    then have none: "\<forall>c\<in>set cs. \<not> joins r c" using snoc by simp
    then have "joins r c \<Longrightarrow> first_nearest r (cs @ [c]) (length cs)"
      by (auto simp: first_nearest_def nth_append less_Suc_eq all_set_conv_all_nth)
    with None none show ?thesis by (auto simp: better_candidate_step [of r None c] intro!: exI [of _ "length cs"])
  next
    case (Some cd)
    then obtain i where i: "first_nearest r cs i" "cd = (cs ! i, seq_distance r (cs ! i))"
      using snoc by (auto split: prod.splits)
    have len: "i < length cs" using i(1) by (simp add: first_nearest_def)
    show ?thesis
    proof (cases "joins r c \<and> seq_distance r c < seq_distance r (cs ! i)")
      case True
      with first_nearest_snoc(2) [OF i(1)] i(2) Some show ?thesis
        by (auto simp: better_candidate_step [of r "Some (cs ! i, seq_distance r (cs ! i))" c] intro!: exI [of _ "length cs"])
    next
      case False
      with first_nearest_snoc(1) [OF i(1), of c] have "first_nearest r (cs @ [c]) i" by (auto simp: not_less)
      with False i(2) Some len show ?thesis
        by (auto simp: better_candidate_step [of r "Some (cs ! i, seq_distance r (cs ! i))" c] nth_append intro!: exI [of _ i])
    qed
  qed
qed simp

section \<open>Well-formed streams\<close>

definition framed :: "byte list \<Rightarrow> byte list" where
  "framed payload = hdlcEscape (payload @ put16 (diagCRC16 payload)) @ [0x7e]"

lemma complete_segments_framed:
  "complete_segments False (concat (map framed pls)) = map (\<lambda>p. hdlcEscape (p @ put16 (diagCRC16 p))) pls"
proof -
  have "concat (map framed pls) = concat (map (\<lambda>f. hdlcEscape f @ [0x7e]) (map (\<lambda>p. p @ put16 (diagCRC16 p)) pls))"
    by (simp add: framed_def [abs_def] comp_def)
  then show ?thesis
    using hdlc.split_stream [of "map (\<lambda>p. p @ put16 (diagCRC16 p)) pls"]
    by (simp add: complete_segments_def comp_def butlast_append)
qed

definition frame_counts :: "qshParser \<Rightarrow> int \<times> int" where
  "frame_counts p = (FrameCount (ps_metrics p), MalformedFrames (ps_metrics p))"

lemma frame_counts_bump [simp]:
  "frame_counts (bump NRHashCount_update p) = frame_counts p" "frame_counts (bump LTEHashCount_update p) = frame_counts p"
  "frame_counts (bump TargetHashCount_update p) = frame_counts p" "frame_counts (bump ParseErrorCount_update p) = frame_counts p"
  "frame_counts (bump ParseSuccessCount_update p) = frame_counts p" "frame_counts (p\<lparr>ps_reports := rs\<rparr>) = frame_counts p"
  by (simp_all add: frame_counts_def bump_def)

lemma consume_record_frame_counts:
  assumes "consume_record target p seq fi h words = Some p'"
  shows "frame_counts p' = frame_counts p"
proof -
  obtain q where q: "consume_candidate p seq fi h words = Some q" "ps_metrics q = ps_metrics p"
    using consume_candidate_spec [of p seq fi h words] by blast
  have fq: "frame_counts q = frame_counts p" using q by (simp add: frame_counts_def)
  obtain strict minimum isNR where spec: "nrReportSpec h = (strict, minimum, isNR)" by (metis surj_pair)
  obtain rep rec valid where d: "decodeQSHLTEReport h words = Some (rep, rec, valid)"
    using decodeQSHLTEReport_total by (metis surj_pair)
  have add: "frame_counts (fst x) = frame_counts n" if "addNRReport n seq fi words strict = Some x" for n x
    using addNRReport_spec [of n seq fi words strict] that by (auto split: if_splits)
  show ?thesis
    using assms fq add by (cases isNR) (auto simp: consume_record_def q spec d Let_def split: if_splits Option.bind_splits)
qed

lemma consumeFrame_framed:
  assumes "payload \<noteq> []"
    and "consumeFrame target p (payload @ put16 (diagCRC16 payload)) False seq fi = Some p'"
  shows "frame_counts p' = (FrameCount (ps_metrics p) + 1, MalformedFrames (ps_metrics p))"
proof -
  have "slice (payload @ put16 (diagCRC16 payload)) 0 (int (length payload)) = Some payload"
    "slice (payload @ put16 (diagCRC16 payload)) (int (length payload)) (2 + int (length payload)) = Some (put16 (diagCRC16 payload))"
    by (simp_all add: slice_def nat_add_distrib)
  moreover have "0 < length payload" using assms(1) by simp
  ultimately have "p' = bump FrameCount_update p \<or> consume_qsh target (bump FrameCount_update p) payload seq fi = Some p'"
    using assms(2) by (auto simp: consumeFrame_def Let_def split: if_splits Option.bind_splits)
  then show ?thesis
    by (auto simp: consume_qsh_def Let_def bump_def frame_counts_def split: Option.bind_splits if_splits
        dest!: consume_record_frame_counts)
qed

section \<open>Properties\<close>

definition metrics_accounted :: "targetKind \<Rightarrow> captureMetrics \<Rightarrow> bool" where
  "metrics_accounted target m \<longleftrightarrow>
     0 \<le> MalformedFrames m \<and> MalformedFrames m \<le> ParseErrorCount m \<and>
     MalformedFrames m + QSHFrameCount m \<le> FrameCount m \<and>
     ParseSuccessCount m + (ParseErrorCount m - MalformedFrames m) \<le> QSHFrameCount m \<and>
     NRHashCount m + LTEHashCount m \<le> ParseSuccessCount m + (ParseErrorCount m - MalformedFrames m) \<and>
     TargetHashCount m = (if target = targetNR \<or> target = targetCombined then NRHashCount m else 0) +
                         (if target = targetLTE \<or> target = targetCombined then LTEHashCount m else 0) \<and>
     16 * QSHFrameCount m \<le> QSHTotalBytes m"

lemma analyze_window_result:
  "\<exists>r. analyzeQMDLWindow ctx openf paths offsets serving target = Some r \<and>
     (\<forall>m. r = Inr m \<longrightarrow> metrics_accounted target m \<and> cells_ok serving m)"
proof -
  obtain r where r: "analyze_files ctx openf offsets target 0 paths (new_parser serving) = Some r"
      and ok: "\<forall>p'. r = Inr p' \<longrightarrow> parser_ok target serving p'"
    using analyze_files_ok [OF new_parser_ok] by blast
  show ?thesis
  proof (cases r)
    case (Inr p)
    with ok have p: "parser_ok target serving p" by simp
    then obtain p' where p': "finish p = Some p'" "cells_ok serving (ps_metrics p')"
      "ps_metrics p' = (ps_metrics p)\<lparr>NRCellCount := NRCellCount (ps_metrics p'),
       LTECellCount := LTECellCount (ps_metrics p'), Cells := Cells (ps_metrics p')\<rparr>"
      using finish_cells by blast
    have "metrics_accounted target (ps_metrics p')"
      using p by (subst p'(3)) (simp add: parser_ok_def counters_ok_def metrics_accounted_def Let_def)
    with p' show ?thesis by (simp add: analyzeQMDLWindow_def r Inr)
  qed (simp add: analyzeQMDLWindow_def r)
qed

text \<open>Analysing a capture window never panics, whatever the files hold and however the calls on them fail; and
  when it succeeds the counters account for every frame: malformed and QSH frames are disjoint parts of
  the frames, every record of a known hash is counted once as a success or as an error, and the target
  counter is the sum of the hash counters the target asks for.\<close>
theorem analyzeQMDLWindow_accounts:
  "\<exists>r. analyzeQMDLWindow ctx openf paths offsets serving target = Some r \<and>
     (\<forall>m. r = Inr m \<longrightarrow> metrics_accounted target m)"
  using analyze_window_result [of ctx openf paths offsets serving target] by blast

theorem analyzeQMDLWindow_accounts_witness:
  "analyzeQMDLWindow (\<lambda>_. None :: unit option) (\<lambda>_. Inr sample_file) [''a''] None [] targetLTE = Some (Inr sample_metrics) \<and>
   metrics_accounted targetLTE sample_metrics"
  using analyzeQMDLWindow_accounts [of "\<lambda>_. None :: unit option" "\<lambda>_. Inr sample_file" "[''a'']" None "[]" targetLTE]
  by (simp add: sample_window)

text \<open>C11: Every cell a successful analysis reports is a plausible neighbour (identity in range, ARFCN known, median
  RSRP within -140 and -30 dBm, at least one sample, not one of the serving cells), no two cells are the
  same, they come ordered by technology, ARFCN and PCI, the cell counters count them, and no sample is
  used twice.\<close>
theorem analyzeQMDLWindow_cells:
  assumes "analyzeQMDLWindow ctx openf paths offsets serving target = Some (Inr m)"
  shows "list_all (cell_ok serving) (Cells m) \<and> sorted_wrt (<) (map cell_order (Cells m)) \<and>
    NRCellCount m = count_rat ''NR'' (Cells m) \<and> LTECellCount m = count_rat ''LTE'' (Cells m) \<and>
    int (\<Sum>c\<leftarrow>Cells m. pc_Samples c) \<le> ParseSuccessCount m"
  using analyze_window_result [of ctx openf paths offsets serving target] assms
  by (simp add: cells_ok_def)

theorem analyzeQMDLWindow_cells_witness:
  "Cells sample_metrics \<noteq> [] \<and> list_all (cell_ok []) (Cells sample_metrics)"
  using analyzeQMDLWindow_cells [OF sample_window] by (simp add: sample_metrics_def)

text \<open>The predicate that drives the search is about cells: a successful window matches its target exactly
  when it holds a plausible, non-serving cell of each technology the target names.\<close>
theorem matches_iff_cells:
  assumes "analyzeQMDLWindow ctx openf paths offsets serving target = Some (Inr m)"
    and "parseTarget name = Inr target"
  shows "matches m target \<longleftrightarrow>
    (target = targetLTE \<or> (\<exists>c\<in>set (Cells m). pc_RAT c = ''NR'' \<and> cell_ok serving c)) \<and>
    (target = targetNR \<or> (\<exists>c\<in>set (Cells m). pc_RAT c = ''LTE'' \<and> cell_ok serving c))"
proof -
  have ok: "cells_ok serving m" using analyze_window_result [of ctx openf paths offsets serving target] assms by simp
  then have "0 < count_rat s (Cells m) \<longleftrightarrow> (\<exists>c\<in>set (Cells m). pc_RAT c = s \<and> cell_ok serving c)" for s
    by (auto simp: count_rat_def cells_ok_def list_all_iff filter_empty_conv)
  moreover have "target \<in> {targetNR, targetLTE, targetCombined}" using parseTarget_total_on_kinds [OF assms(2)] .
  ultimately show ?thesis using ok
    by (auto simp: matches_def cells_ok_def targetNR_def targetLTE_def targetCombined_def)
qed

lemma parseTarget_lte: "parseTarget ''lte'' = Inr targetLTE"
  by (simp add: parseTarget_def TrimSpace_def TrimFunc_def TrimLeft_def TrimRight_def ToLower_def
      lower_char_def is_space_def is_upper_def code_def targetNR_def targetLTE_def)

lemma sample_cells_ok: "list_all (cell_ok []) (Cells sample_metrics)"
  using analyze_window_result [of "\<lambda>_. None" "\<lambda>_. Inr sample_file" "[''a'']" None "[]" targetLTE]
  by (simp add: sample_window cells_ok_def)

theorem matches_iff_cells_witness: "matches sample_metrics targetLTE"
  using matches_iff_cells [OF sample_window parseTarget_lte] sample_cells_ok
  by (simp add: sample_metrics_def targetNR_def targetLTE_def)

text \<open>C12: The byte loop consumes exactly the complete segments of the stream: it is the split of the input at the
  delimiter, less what precedes the first delimiter when reading began inside a frame and less what
  follows the last one, each segment unescaped and the non-empty ones consumed in order; in particular
  bytes after the last delimiter never count.\<close>
theorem parseReader_complete_segments:
  assumes "\<And>n. ctx n = None"
  shows "parseReader ctx tail bs p fi target d =
      map_option (\<lambda>sp. (tail, snd sp)) (ofold (consume_segment target fi) (0, p) (complete_segments d bs)) \<and>
    (0x7e \<notin> set rest \<longrightarrow>
     parseReader ctx tail (bs @ 0x7e # rest) p fi target d = parseReader ctx tail (bs @ [0x7e]) p fi target d)"
proof (intro conjI impI)
  show "parseReader ctx tail bs p fi target d =
      map_option (\<lambda>sp. (tail, snd sp)) (ofold (consume_segment target fi) (0, p) (complete_segments d bs))"
    by (rule parseReader_segments [OF assms])
  assume "0x7e \<notin> set rest"
  from split_on_partial [OF this, of bs]
  have "complete_segments d (bs @ 0x7e # rest) = complete_segments d (bs @ [0x7e])"
    by (simp only: complete_segments_def Let_def)
  then show "parseReader ctx tail (bs @ 0x7e # rest) p fi target d = parseReader ctx tail (bs @ [0x7e]) p fi target d"
    by (simp add: parseReader_segments [OF assms])
qed

theorem parseReader_complete_segments_witness:
  "parseReader (\<lambda>_. None :: unit option) None (sample_payload @ 0x7e # [1, 2, 0x7d]) (new_parser []) 0 targetNR False =
   parseReader (\<lambda>_. None) None (sample_payload @ [0x7e]) (new_parser []) 0 targetNR False"
  using parseReader_complete_segments [of "\<lambda>_. None :: unit option" None sample_payload "new_parser []" 0 targetNR False "[1, 2, 0x7d]"]
  by simp

text \<open>A stream of DIAG frames as the logger writes them (payload and CRC, byte-stuffed, each ended by the
  delimiter) is read back frame for frame: none is malformed and every non-empty payload is counted.\<close>
theorem framed_stream_read_back:
  assumes "parser_ok target serving p" and "[] \<notin> set pls"
  shows "\<exists>p'. parseReader (\<lambda>_. None) tail (concat (map framed pls)) p fi target False = Some (tail, p') \<and>
    FrameCount (ps_metrics p') = FrameCount (ps_metrics p) + int (length pls) \<and>
    MalformedFrames (ps_metrics p') = MalformedFrames (ps_metrics p)"
proof -
  have "\<exists>s' q. ofold (consume_segment target fi) (s, p) (map (\<lambda>p. hdlcEscape (p @ put16 (diagCRC16 p))) pls) = Some (s', q) \<and>
      frame_counts q = (FrameCount (ps_metrics p) + int (length pls), MalformedFrames (ps_metrics p))" for s
    using assms
  proof (induction pls arbitrary: s p)
    case (Cons pl pls)
    obtain q where q: "consumeFrame target p (pl @ put16 (diagCRC16 pl)) False s fi = Some q" "parser_ok target serving q"
      using consumeFrame_ok [OF Cons.prems(1)] by blast
    have "consume_segment target fi (s, p) (hdlcEscape (pl @ put16 (diagCRC16 pl))) = Some (s + 1, q)"
      by (simp add: consume_segment_def unescape_fold_escape q)
    with Cons.IH [OF q(2), of "s + 1"] consumeFrame_framed [OF _ q(1)] Cons.prems(2) show ?case
      by (auto simp: frame_counts_def)
  qed (simp add: frame_counts_def)
  then show ?thesis
    by (subst parseReader_segments) (auto simp: complete_segments_framed frame_counts_def, force)
qed

theorem framed_stream_read_back_witness:
  "\<exists>p'. parseReader (\<lambda>_. None) (None :: unit option) (concat (map framed [sample_payload, [1]])) (new_parser []) 0 targetLTE False = Some (None, p') \<and>
    FrameCount (ps_metrics p') = 2 \<and> MalformedFrames (ps_metrics p') = 0"
  using framed_stream_read_back [OF new_parser_ok [of targetLTE "[]"], of "[sample_payload, [1]]" None 0]
  by (simp add: new_parser_def empty_metrics_def sample_payload_def)

text \<open>An NR report takes ARFCN and band from the first of the candidate records of its file and PCI that are
  nearest to it in frame order, and is left as it is when there is none.\<close>
theorem correlate_report_nearest:
  assumes "qr_rat r = 0"
  shows "(\<forall>c\<in>set cs. \<not> joins r c) \<and> correlate_report cs r = r \<or>
    (\<exists>i. first_nearest r cs i \<and>
       correlate_report cs r = r\<lparr>qr_arfcn := qc_arfcn (cs ! i), qr_band := qc_band (cs ! i)\<rparr>)"
  using foldl_better [where r = r and cs = cs] assms
  by (auto simp: correlate_report_def split: option.splits)

theorem correlate_report_nearest_witness:
  "correlate_report [zero_candidate\<lparr>qc_pci := 7, qc_arfcn := 627264, qc_seq := 1\<rparr>] (zero_report\<lparr>qr_pci := 7\<rparr>) =
   zero_report\<lparr>qr_pci := 7, qr_arfcn := 627264\<rparr>"
  using correlate_report_nearest [where r = "zero_report\<lparr>qr_pci := 7\<rparr>" and cs = "[zero_candidate\<lparr>qc_pci := 7, qc_arfcn := 627264, qc_seq := 1\<rparr>]"]
  by (simp add: first_nearest_def joins_def zero_report_def zero_candidate_def)

text \<open>The signal of an NR report: a record is accepted exactly when its two identities and its two Q7 values are
  in range (the checks in floating point are exact), and the RSRP it stores is the Q7 value rounded to
  hundredths of a dB, up to the rounding of a double.\<close>
theorem addNRReport_signal:
  assumes "7 \<le> length words"
  shows "\<exists>r ok. addNRReport p seq fi words req = Some ((if ok then p\<lparr>ps_reports := ps_reports p @ [r]\<rparr> else p), ok) \<and>
    (ok \<longleftrightarrow> words ! 3 \<le> 1007 \<and> words ! 5 \<le> 1007 \<and> sint (words ! 4) \<in> {-20480..-2560} \<and> sint (words ! 6) \<in> {-20480..-2560}) \<and>
    (ok \<longrightarrow> qr_pci r = words ! 3 \<and> \<bar>qr_rsrp r - of_int (sint (words ! 4)) / 128\<bar> \<le> 1 / 200 + 1 / 10 ^ 12)"
proof -
  have i: "idx words 3 = Some (words ! 3)" "idx words 4 = Some (words ! 4)"
    "idx words 5 = Some (words ! 5)" "idx words 6 = Some (words ! 6)" using assms by (simp_all add: idx_def)
  have small: "\<bar>sint w\<bar> < 2 ^ 46" for w :: u32 using sint_u32_bounds [of w] by simp
  have acc: "\<bar>roundQSH (f64_div (of_int (sint (words ! 4))) 128) - of_int (sint (words ! 4)) / 128\<bar> \<le> 1 / 200 + 1 / 10 ^ 12"
    if "sint (words ! 4) \<in> {-20480..-2560}"
  proof -
    have "(of_int (-20480) :: rat) \<le> of_int (sint (words ! 4))" "(of_int (sint (words ! 4)) :: rat) \<le> of_int (-2560)"
      using that by (simp_all only: of_int_le_iff atLeastAtMost_iff)
    then have "\<bar>of_int (sint (words ! 4)) / 128 :: rat\<bar> \<le> 1000" by (simp add: abs_if)
    from roundQSH_accurate [OF this] show ?thesis by (simp only: f64_div_128 [OF small])
  qed
  let ?ok = "words ! 3 \<le> 1007 \<and> words ! 5 \<le> 1007 \<and> sint (words ! 4) \<in> {-20480..-2560} \<and> sint (words ! 6) \<in> {-20480..-2560}"
  let ?r = "zero_report\<lparr>qr_seq := seq, qr_file := fi, qr_pci := words ! 3,
       qr_rsrp := roundQSH (f64_div (of_int (sint (words ! 4))) 128), qr_direct := True, qr_requiresARFCN := req\<rparr>"
  have "addNRReport p seq fi words req = Some ((if ?ok then p\<lparr>ps_reports := ps_reports p @ [?r]\<rparr> else p), ?ok)"
    using assms by (auto simp: addNRReport_def i Let_def validQ7Signal_iff [OF small] not_less)
  moreover have "?ok \<longrightarrow> qr_pci ?r = words ! 3 \<and> \<bar>qr_rsrp ?r - of_int (sint (words ! 4)) / 128\<bar> \<le> 1 / 200 + 1 / 10 ^ 12"
    using acc by simp
  ultimately show ?thesis by blast
qed

theorem addNRReport_signal_witness:
  "\<exists>r. addNRReport (new_parser []) 0 0 [0, 0, 0, 5, 0xffffd100, 5, 0xffffd100] False =
     Some ((new_parser [])\<lparr>ps_reports := [r]\<rparr>, True) \<and> qr_pci r = 5"
  using addNRReport_signal [of "[0, 0, 0, 5, 0xffffd100, 5, 0xffffd100]" "new_parser []" 0 0 False]
  by (auto simp: new_parser_def)

end
