(* ===== verification/Neighbor_Qmdl.thy ===== *)
theory Neighbor_Qmdl
  imports Qsh_Parser
begin

text \<open>
  The production QMDL parser of the web service (\<^verbatim>\<open>gossh/app/service/neighbor_qmdl.go\<close>).  It shares record
  layouts with the reducer's analyser but is a second copy of the code with other data types, no CRC
  check, a notion of serving cells and its own aggregation; names both copies use carry the suffix
  \<open>_svc\<close> here.

  The lemmas: no panic on any input, the table decoders agree with the reducer's (which the reducer's
  comments claim), the aggregation reports every identity once with consistent sample counts, medians
  and sequence bounds.
\<close>

section \<open>Data\<close>

record qmdlCandidate =
  mc_seq :: u32
  mc_file :: u32
  mc_pci :: u32
  mc_arfcn :: u32
  mc_band :: u32

record qmdlReport =
  mr_seq :: u32
  mr_file :: u32
  mr_rat :: u32
  mr_pci :: u32
  mr_arfcn :: u32
  mr_band :: u32
  mr_rsrp :: rat
  mr_direct :: bool
  mr_requiresARFCN :: bool

record qmdlAggregateKey =
  ak_rat :: u32
  ak_pci :: u32
  ak_arfcn :: u32

record qmdlAggregate =
  aq_key :: qmdlAggregateKey
  aq_band :: u32
  aq_bandClash :: bool
  aq_samples :: int
  aq_directHits :: int
  aq_firstSeq :: u32
  aq_lastSeq :: u32
  aq_hasSeq :: bool
  aq_rsrp :: "rat list"

record nativeServingCell =
  ns_Seq :: int
  ns_ARFCN :: "int option"
  ns_GCI :: int
  ns_PCI :: int
  ns_RSRPDBM :: "rat option"
  ns_RSRQDB :: "rat option"
  ns_SINRDB :: "rat option"

record nativeNeighborCell =
  nn_RAT :: string
  nn_PCI :: int
  nn_ARFCN :: "int option"
  nn_Band :: "int option"
  nn_Samples :: int
  nn_DirectHits :: int
  nn_FirstSeq :: int
  nn_LastSeq :: int
  nn_RSRPMedian :: "rat option"
  nn_PlausibleSamples :: int

record nativeNeighborResult =
  nr_Engine :: string
  nr_Version :: string
  nr_Frames :: int
  nr_Malformed :: int
  nr_Serving :: "nativeServingCell list"
  nr_Neighbors :: "nativeNeighborCell list"

record qmdlParser =
  qp_frames :: int
  qp_malformed :: int
  qp_candidates :: "qmdlCandidate list"
  qp_reports :: "qmdlReport list"
  qp_serving :: "nativeServingCell list"
  qp_hasCurrentARFCN :: bool
  qp_currentARFCN :: u32

definition neighborGoParserEngine :: string where "neighborGoParserEngine = ''go-native''"
definition neighborGoParserVersion :: string where "neighborGoParserVersion = ''1.2.1''"

definition zero_mcandidate :: qmdlCandidate where
  "zero_mcandidate = \<lparr>mc_seq = 0, mc_file = 0, mc_pci = 0, mc_arfcn = 0, mc_band = 0\<rparr>"

definition zero_mreport :: qmdlReport where
  "zero_mreport = \<lparr>mr_seq = 0, mr_file = 0, mr_rat = 0, mr_pci = 0, mr_arfcn = 0, mr_band = 0,
     mr_rsrp = 0, mr_direct = False, mr_requiresARFCN = False\<rparr>"

definition new_qmdl_parser :: qmdlParser where
  "new_qmdl_parser = \<lparr>qp_frames = 0, qp_malformed = 0, qp_candidates = [], qp_reports = [], qp_serving = [],
     qp_hasCurrentARFCN = False, qp_currentARFCN = 0\<rparr>"

section \<open>Signal values\<close>

definition roundQMDL :: "rat \<Rightarrow> rat" where
  "roundQMDL v = f64_div (of_int \<lfloor>f64_add (f64_mul v 100) (1 / 2)\<rfloor>) 100"

definition validQ7Signal_svc :: "int \<Rightarrow> bool" where
  "validQ7Signal_svc raw = (let v = f64_div (of_int raw) 128 in v \<ge> -160 \<and> v \<le> -20)"

definition decodeLTERSRP_svc :: "int \<Rightarrow> rat \<times> bool" where
  "decodeLTERSRP_svc raw =
     (if raw \<ge> -140 \<and> raw \<le> -30 then (of_int raw, True)
      else if raw \<ge> -1400 \<and> raw \<le> -300 then (roundQMDL (f64_div (of_int raw) 10), True)
      else (0, False))"

definition decodeLTEFractionalRSRP_svc :: "int \<Rightarrow> u32 \<Rightarrow> rat \<times> bool" where
  "decodeLTEFractionalRSRP_svc integer fraction =
     (if integer < -140 \<or> integer > -30 \<or> fraction > 9999 then (0, False)
      else (roundQMDL (f64_sub (of_int integer) (f64_div (of_nat (unat fraction)) 10000)), True))"

definition unsignedDistance_svc :: "u32 \<Rightarrow> u32 \<Rightarrow> u32" where
  "unsignedDistance_svc left right = (if left \<ge> right then left - right else right - left)"

definition qmdlRATName :: "u32 \<Rightarrow> string" where
  "qmdlRATName rat = (if rat = 0 then ''NR'' else ''LTE'')"

definition intPointer :: "u32 \<Rightarrow> int option" where
  "intPointer v = Some (uint v)"

definition floatPointer :: "rat \<Rightarrow> rat option" where
  "floatPointer v = Some v"

section \<open>Record tables\<close>

definition qmdlNRReportSpec :: "u32 \<Rightarrow> bool \<times> nat \<times> bool" where
  "qmdlNRReportSpec logID =
     (if logID = 0xda01a364 \<or> logID = 0xda016098 \<or> logID = 0xf9486c3c then (False, 12, True)
      else if logID = 0xda0539fc then (True, 12, True)
      else if logID = 0xda054a0c then (True, 11, True)
      else if logID = 0xda01af24 then (True, 11, True)
      else if logID = 0xda019f14 then (False, 12, True)
      else if logID = 0xda06ba1c then (True, 11, True)
      else if logID = 0xda06aa0c then (False, 12, True)
      else (False, 0, False))"

text \<open>The \<^verbatim>\<open>switch\<close> of \<^verbatim>\<open>decodeQMDLLTEReport\<close>: \<open>None\<close> (inside the panic option) is an early \<^verbatim>\<open>return qmdlReport{},
  false\<close>; otherwise the local variables \<^verbatim>\<open>arfcn\<close>, \<^verbatim>\<open>pci\<close>, \<^verbatim>\<open>rsrpIndex\<close>, \<^verbatim>\<open>rsrpFractionIndex\<close>,
  \<^verbatim>\<open>requireValid\<close>.\<close>

definition lte_switch_svc :: "u32 \<Rightarrow> u32 list \<Rightarrow> (u32 \<times> u32 \<times> int \<times> int \<times> bool) option option" where
  "lte_switch_svc logID words =
     (if logID = 0xd936846c then
        (if length words < 2 then Some None
         else do { a \<leftarrow> idx words 0; p \<leftarrow> idx words 1; Some (Some (a, p, -1, -1, False)) })
      else if logID = 0xd8fe54a0 then
        (if length words < 4 then Some None
         else do { a \<leftarrow> idx words 0; p \<leftarrow> idx words 1; Some (Some (a, p, 2, -1, False)) })
      else if logID = 0xd8fea29c then
        (if length words < 6 then Some None
         else do { a \<leftarrow> idx words 1; p \<leftarrow> idx words 2; Some (Some (a, p, 3, -1, False)) })
      else if logID = 0xd8f02d94 \<or> logID = 0xd8fea210 then
        (if length words < 6 then Some None
         else do { a \<leftarrow> idx words 2; p \<leftarrow> idx words 3; Some (Some (a, p, 4, -1, True)) })
      else if logID = 0xd939607c then
        (if length words < 2 then Some None
         else do { a \<leftarrow> idx words 0; p \<leftarrow> idx words 1; Some (Some (a, p, -1, -1, False)) })
      else if logID = 0xd93960a0 \<or> logID = 0xd8fea258 then
        (if length words < 5 then Some None
         else do { a \<leftarrow> idx words 0; p \<leftarrow> idx words 1; Some (Some (a, p, 2, -1, False)) })
      else if logID = 0xd94f5690 then
        (if length words < 6 then Some None
         else do { a \<leftarrow> idx words 0; p \<leftarrow> idx words 1; Some (Some (a, p, 2, 3, False)) })
      else Some None)"

definition decodeQMDLLTEReport :: "u32 \<Rightarrow> u32 list \<Rightarrow> (qmdlReport \<times> bool) option" where
  "decodeQMDLLTEReport logID words = do {
     l \<leftarrow> lte_switch_svc logID words;
     case l of
       None \<Rightarrow> Some (zero_mreport, False)
     | Some (arfcn, pci, rsrpIndex, rsrpFractionIndex, requireValid) \<Rightarrow> do {
         invalid \<leftarrow> (if requireValid then do { w \<leftarrow> idx words 1; Some (w = 0) } else Some False);
         if invalid then Some (zero_mreport, False)
         else if arfcn = 0 \<or> arfcn > 262143 \<or> pci > 503 then Some (zero_mreport, False)
         else do {
           let report = zero_mreport\<lparr>mr_rat := 1, mr_pci := pci, mr_arfcn := arfcn\<rparr>;
           if rsrpIndex \<ge> 0 then do {
             i \<leftarrow> idx words rsrpIndex;
             (rsrp, direct) \<leftarrow>
               (if rsrpFractionIndex \<ge> 0 then do {
                  f \<leftarrow> idx words rsrpFractionIndex;
                  Some (decodeLTEFractionalRSRP_svc (sint i) f) }
                else Some (decodeLTERSRP_svc (sint i)));
             Some (report\<lparr>mr_rsrp := rsrp, mr_direct := direct\<rparr>, True) }
           else Some (report, True) } } }"

definition take_cell_svc :: "u32 list \<Rightarrow> nat \<Rightarrow> int \<Rightarrow> int \<Rightarrow> qmdlCandidate option" where
  "take_cell_svc words minimum pciIndex arfcnIndex =
     (if length words \<ge> minimum then do {
        p \<leftarrow> idx words pciIndex; a \<leftarrow> idx words arfcnIndex;
        Some (zero_mcandidate\<lparr>mc_pci := p, mc_arfcn := a\<rparr>) }
      else Some zero_mcandidate)"

definition take_banded_svc :: "u32 list \<Rightarrow> nat \<Rightarrow> qmdlCandidate option" where
  "take_banded_svc words minimum =
     (if length words \<ge> minimum then do {
        b \<leftarrow> idx words 0; a \<leftarrow> idx words 1; p \<leftarrow> idx words 2;
        Some (zero_mcandidate\<lparr>mc_band := b, mc_arfcn := a, mc_pci := p\<rparr>) }
      else Some zero_mcandidate)"

definition candidate_switch_svc :: "u32 \<Rightarrow> u32 list \<Rightarrow> (qmdlCandidate \<times> nat) option option" where
  "candidate_switch_svc logID words =
     (if logID \<in> {0xd8fc0f04, 0xd8facf74, 0xd8f773e8, 0xd8fc5cc0, 0xd8fb8ad0, 0xd8f82d98, 0xd8f84514}
      then do { c \<leftarrow> take_banded_svc words 4; Some (Some (c, 4)) }
      else if logID = 0xda014184 then do { c \<leftarrow> take_cell_svc words 6 2 4; Some (Some (c, 6)) }
      else if logID = 0xd9fca428 \<or> logID = 0xf93fc16a then do { c \<leftarrow> take_cell_svc words 7 2 4; Some (Some (c, 7)) }
      else if logID = 0xd9fc7a44 \<or> logID = 0xf93fc624 then do { c \<leftarrow> take_cell_svc words 6 1 3; Some (Some (c, 6)) }
      else if logID = 0xf9ad1341 \<or> logID = 0xbcbafaec then do {
        let minimum = (if logID = 0xf9ad1341 then 5 else 3);
        c \<leftarrow> take_cell_svc words minimum 1 0; Some (Some (c, minimum)) }
      else if logID = 0xd8f72994 \<or> logID = 0xd9877e9c then do { c \<leftarrow> take_cell_svc words 5 0 1; Some (Some (c, 5)) }
      else if logID = 0xd8f7e394 then do { c \<leftarrow> take_cell_svc words 4 0 1; Some (Some (c, 4)) }
      else Some None)"

definition decodeQMDLCandidate :: "u32 \<Rightarrow> u32 list \<Rightarrow> (qmdlCandidate \<times> bool) option" where
  "decodeQMDLCandidate logID words = do {
     r \<leftarrow> candidate_switch_svc logID words;
     case r of
       None \<Rightarrow> Some (zero_mcandidate, False)
     | Some (c, minimum) \<Rightarrow>
         if length words < minimum \<or> mc_pci c > 1007 \<or> mc_arfcn c = 0 \<or> mc_arfcn c > 3279165 \<or>
            mc_band c > 1024
         then Some (zero_mcandidate, False)
         else Some (c, True) }"

section \<open>One frame\<close>

definition addNRReport_svc :: "qmdlParser \<Rightarrow> u32 \<Rightarrow> u32 \<Rightarrow> u32 list \<Rightarrow> bool \<Rightarrow> qmdlParser option" where
  "addNRReport_svc parser seq fileIndex words requiresARFCN = do {
     w3 \<leftarrow> idx words 3;
     w5 \<leftarrow> idx words 5;
     if w3 > 1007 \<or> w5 > 1007 then Some parser
     else do {
       w4 \<leftarrow> idx words 4; w6 \<leftarrow> idx words 6;
       let rsrpRaw = sint w4;
       if \<not> validQ7Signal_svc rsrpRaw \<or> \<not> validQ7Signal_svc (sint w6) then Some parser
       else Some (parser\<lparr>qp_reports := qp_reports parser @ [zero_mreport\<lparr>
              mr_seq := seq, mr_file := fileIndex, mr_pci := w3,
              mr_rsrp := roundQMDL (f64_div (of_int rsrpRaw) 128),
              mr_direct := True, mr_requiresARFCN := requiresARFCN\<rparr>]\<rparr>) } }"

definition addServing :: "qmdlParser \<Rightarrow> u32 \<Rightarrow> u32 list \<Rightarrow> qmdlParser option" where
  "addServing parser seq words = do {
     w0 \<leftarrow> idx words 0; w1 \<leftarrow> idx words 1; w2 \<leftarrow> idx words 2; w3 \<leftarrow> idx words 3; w4 \<leftarrow> idx words 4;
     Some (parser\<lparr>qp_serving := qp_serving parser @ [\<lparr>
        ns_Seq = uint seq,
        ns_ARFCN = (if qp_hasCurrentARFCN parser then intPointer (qp_currentARFCN parser) else None),
        ns_GCI = sint w0, ns_PCI = uint w1,
        ns_RSRPDBM = floatPointer (f64_div (of_int (sint w2)) 10),
        ns_RSRQDB = floatPointer (f64_div (of_int (sint w3)) 10),
        ns_SINRDB = floatPointer (f64_div (of_int (sint w4)) 10)\<rparr>]\<rparr>) }"

text \<open>The second \<^verbatim>\<open>switch\<close> of \<^verbatim>\<open>parseFrame\<close>: serving-cell context.\<close>

definition serving_record :: "qmdlParser \<Rightarrow> u32 \<Rightarrow> u32 \<Rightarrow> u32 list \<Rightarrow> qmdlParser option" where
  "serving_record parser seq logID words =
     (if logID = 0xdcdda754 then
        (if length words \<ge> 5 then do {
           w \<leftarrow> idx words 4;
           Some (parser\<lparr>qp_currentARFCN := w, qp_hasCurrentARFCN := True\<rparr>) }
         else Some parser)
      else if logID = 0xd9b9c660 then
        (if length words \<ge> 2 then do {
           w \<leftarrow> idx words 0;
           Some (if w > 100000 then parser\<lparr>qp_currentARFCN := w, qp_hasCurrentARFCN := True\<rparr> else parser) }
         else Some parser)
      else if logID = 0xdcdda85c then
        (if length words \<ge> 5 then addServing parser seq words else Some parser)
      else Some parser)"

definition report_record :: "qmdlParser \<Rightarrow> u32 \<Rightarrow> u32 \<Rightarrow> u32 \<Rightarrow> u32 list \<Rightarrow> qmdlParser option" where
  "report_record parser seq fileIndex logID words = do {
     let (strict, minimum, isNR) = qmdlNRReportSpec logID;
     if isNR then (if length words \<ge> minimum then addNRReport_svc parser seq fileIndex words strict else Some parser)
     else do {
       (report, ok) \<leftarrow> decodeQMDLLTEReport logID words;
       Some (if ok then parser\<lparr>qp_reports := qp_reports parser @ [report\<lparr>mr_seq := seq, mr_file := fileIndex\<rparr>]\<rparr>
             else parser) } }"

definition parseFrame :: "qmdlParser \<Rightarrow> byte list \<Rightarrow> u32 \<Rightarrow> u32 \<Rightarrow> qmdlParser option" where
  "parseFrame parser payload seq fileIndex =
     (if length payload \<le> 15 then Some parser
      else do {
        b0 \<leftarrow> idx payload 0;
        if b0 \<noteq> 0x9d then Some parser
        else do {
          b4 \<leftarrow> idx payload 4;
          let wordCount = int (unat b4) - 0x13;
          if wordCount < 0 \<or> wordCount > 236 \<or> int (length payload) < (wordCount + 4) * 4 then Some parser
          else do {
            s \<leftarrow> slice payload 12 16;
            logID \<leftarrow> uint32le s;
            words \<leftarrow> read_words payload 16 (nat wordCount);
            (candidate, ok) \<leftarrow> decodeQMDLCandidate logID words;
            let parser = (if ok then parser\<lparr>qp_candidates :=
                             qp_candidates parser @ [candidate\<lparr>mc_seq := seq, mc_file := fileIndex\<rparr>]\<rparr>
                          else parser);
            parser \<leftarrow> serving_record parser seq logID words;
            report_record parser seq fileIndex logID words } } })"

section \<open>The byte loop\<close>

record svc_stream =
  ss_frame :: "byte list"
  ss_escaped :: bool
  ss_seq :: u32

definition finishFrame :: "u32 \<Rightarrow> svc_stream \<Rightarrow> qmdlParser \<Rightarrow> (svc_stream \<times> qmdlParser) option" where
  "finishFrame fileIndex st parser =
     (if ss_frame st = [] then Some (st\<lparr>ss_escaped := False\<rparr>, parser)
      else if ss_escaped st \<or> length (ss_frame st) \<le> 2 then
        Some (st\<lparr>ss_frame := [], ss_escaped := False\<rparr>, parser\<lparr>qp_malformed := qp_malformed parser + 1\<rparr>)
      else do {
        payload \<leftarrow> slice (ss_frame st) 0 (int (length (ss_frame st)) - 2);
        parser \<leftarrow> parseFrame parser payload (ss_seq st) fileIndex;
        Some (st\<lparr>ss_frame := [], ss_escaped := False, ss_seq := ss_seq st + 1\<rparr>,
              parser\<lparr>qp_frames := qp_frames parser + 1\<rparr>) })"

definition svc_byte :: "u32 \<Rightarrow> svc_stream \<Rightarrow> qmdlParser \<Rightarrow> byte \<Rightarrow> (svc_stream \<times> qmdlParser) option" where
  "svc_byte fileIndex st parser b =
     (if b = 0x7e then finishFrame fileIndex st parser
      else if ss_escaped st then Some (st\<lparr>ss_frame := ss_frame st @ [b XOR 0x20], ss_escaped := False\<rparr>, parser)
      else if b = 0x7d then Some (st\<lparr>ss_escaped := True\<rparr>, parser)
      else Some (st\<lparr>ss_frame := ss_frame st @ [b]\<rparr>, parser))"

fun svc_bytes :: "(nat \<Rightarrow> 'e option) \<Rightarrow> 'e option \<Rightarrow> u32 \<Rightarrow> nat \<Rightarrow> byte list \<Rightarrow> svc_stream \<Rightarrow> qmdlParser \<Rightarrow>
    ('e option \<times> qmdlParser) option" where
  "svc_bytes ctx tail fileIndex n bs st parser =
     (case (if n mod 4096 = 0 then ctx n else None) of
        Some e \<Rightarrow> Some (Some e, parser)
      | None \<Rightarrow>
          (case bs of
             [] \<Rightarrow>
               (case tail of
                  Some e \<Rightarrow> Some (Some e, parser)
                | None \<Rightarrow> do { (st', parser') \<leftarrow> finishFrame fileIndex st parser; Some (None, parser') })
           | b # bs' \<Rightarrow> do {
               (st', parser') \<leftarrow> svc_byte fileIndex st parser b;
               svc_bytes ctx tail fileIndex (n + 1) bs' st' parser' }))"

declare svc_bytes.simps [simp del]

definition parseReader_svc :: "(nat \<Rightarrow> 'e option) \<Rightarrow> 'e option \<Rightarrow> byte list \<Rightarrow> qmdlParser \<Rightarrow> u32 \<Rightarrow>
    ('e option \<times> qmdlParser) option" where
  "parseReader_svc ctx tail bs parser fileIndex =
     svc_bytes ctx tail fileIndex 0 bs \<lparr>ss_frame = [], ss_escaped = False, ss_seq = 0\<rparr>
       (parser\<lparr>qp_hasCurrentARFCN := False, qp_currentARFCN := 0\<rparr>)"

section \<open>Joining and aggregating\<close>

definition better_candidate_svc :: "qmdlReport \<Rightarrow> (qmdlCandidate \<times> u32) option \<Rightarrow> qmdlCandidate \<Rightarrow> (qmdlCandidate \<times> u32) option" where
  "better_candidate_svc report best candidate =
     (if mc_file candidate \<noteq> mr_file report \<or> mc_pci candidate \<noteq> mr_pci report then best
      else let distance = unsignedDistance_svc (mc_seq candidate) (mr_seq report) in
        case best of
          None \<Rightarrow> Some (candidate, distance)
        | Some (_, bestDistance) \<Rightarrow> if distance < bestDistance then Some (candidate, distance) else best)"

definition correlate_report_svc :: "qmdlCandidate list \<Rightarrow> qmdlReport \<Rightarrow> qmdlReport" where
  "correlate_report_svc candidates report =
     (if mr_rat report \<noteq> 0 then report
      else case foldl (better_candidate_svc report) None candidates of
             None \<Rightarrow> report
           | Some (c, _) \<Rightarrow> report\<lparr>mr_arfcn := mc_arfcn c, mr_band := mc_band c\<rparr>)"

definition correlateNRReports_svc :: "qmdlParser \<Rightarrow> qmdlParser" where
  "correlateNRReports_svc parser =
     parser\<lparr>qp_reports := map (correlate_report_svc (qp_candidates parser)) (qp_reports parser)\<rparr>"

definition addSeq :: "u32 \<Rightarrow> qmdlAggregate \<Rightarrow> qmdlAggregate" where
  "addSeq seq aggregate =
     (if \<not> aq_hasSeq aggregate then aggregate\<lparr>aq_firstSeq := seq, aq_lastSeq := seq, aq_hasSeq := True\<rparr>
      else let aggregate = (if seq < aq_firstSeq aggregate then aggregate\<lparr>aq_firstSeq := seq\<rparr> else aggregate)
           in if seq > aq_lastSeq aggregate then aggregate\<lparr>aq_lastSeq := seq\<rparr> else aggregate)"

definition new_aggregate :: "qmdlAggregateKey \<Rightarrow> qmdlAggregate" where
  "new_aggregate key = \<lparr>aq_key = key, aq_band = 0, aq_bandClash = False, aq_samples = 0, aq_directHits = 0,
     aq_firstSeq = 0, aq_lastSeq = 0, aq_hasSeq = False, aq_rsrp = []\<rparr>"

text \<open>\<^verbatim>\<open>getAggregate\<close> and the update through the pointer it returns: the slice of aggregates in order of first use, the
  map \<^verbatim>\<open>positions\<close> being the position of each key in it.\<close>

fun at_aggregate :: "qmdlAggregateKey \<Rightarrow> (qmdlAggregate \<Rightarrow> qmdlAggregate) \<Rightarrow> qmdlAggregate list \<Rightarrow> qmdlAggregate list" where
  "at_aggregate key f [] = [f (new_aggregate key)]"
| "at_aggregate key f (a # as) = (if aq_key a = key then f a # as else a # at_aggregate key f as)"

definition mreport_key :: "qmdlReport \<Rightarrow> qmdlAggregateKey" where
  "mreport_key r = \<lparr>ak_rat = mr_rat r, ak_pci = mr_pci r, ak_arfcn = mr_arfcn r\<rparr>"

definition mcandidate_key :: "qmdlCandidate \<Rightarrow> qmdlAggregateKey" where
  "mcandidate_key c = \<lparr>ak_rat = 0, ak_pci = mc_pci c, ak_arfcn = mc_arfcn c\<rparr>"

definition agg_report :: "qmdlAggregate list \<Rightarrow> qmdlReport \<Rightarrow> qmdlAggregate list" where
  "agg_report as report =
     (if mr_rat report = 0 \<and> mr_requiresARFCN report \<and> mr_arfcn report = 0 then as
      else at_aggregate (mreport_key report)
        (\<lambda>a. let a = addSeq (mr_seq report) (a\<lparr>aq_samples := aq_samples a + 1\<rparr>) in
             if mr_direct report then a\<lparr>aq_rsrp := aq_rsrp a @ [mr_rsrp report]\<rparr> else a) as)"

definition agg_candidate :: "qmdlAggregate list \<Rightarrow> qmdlCandidate \<Rightarrow> qmdlAggregate list" where
  "agg_candidate as candidate =
     at_aggregate (mcandidate_key candidate)
       (\<lambda>a. let a = addSeq (mc_seq candidate) (a\<lparr>aq_directHits := aq_directHits a + 1\<rparr>) in
            if mc_band candidate = 0 then a
            else if aq_band a = 0 then a\<lparr>aq_band := mc_band candidate\<rparr>
            else if aq_band a \<noteq> mc_band candidate then a\<lparr>aq_bandClash := True\<rparr>
            else a) as"

definition median_svc :: "rat list \<Rightarrow> rat option" where
  "median_svc xs = do {
     m \<leftarrow> idx xs (int (length xs div 2));
     if length xs mod 2 = 0 then do {
       l \<leftarrow> idx xs (int (length xs div 2) - 1);
       Some (roundQMDL (f64_div (f64_add l m) 2)) }
     else Some m }"

definition neighbor_cell :: "qmdlAggregate \<Rightarrow> nativeNeighborCell option" where
  "neighbor_cell a = do {
     let samples = (if aq_samples a = 0 then aq_directHits a else aq_samples a);
     let validRSRP = filter (\<lambda>v. v \<ge> -140 \<and> v \<le> -30) (aq_rsrp a);
     median \<leftarrow> (if validRSRP \<noteq> [] then do { m \<leftarrow> median_svc (sort validRSRP); Some (floatPointer m) } else Some None);
     Some \<lparr>nn_RAT = qmdlRATName (ak_rat (aq_key a)), nn_PCI = uint (ak_pci (aq_key a)),
           nn_ARFCN = (if ak_arfcn (aq_key a) \<noteq> 0 then intPointer (ak_arfcn (aq_key a)) else None),
           nn_Band = (if aq_band a \<noteq> 0 \<and> \<not> aq_bandClash a then intPointer (aq_band a) else None),
           nn_Samples = samples, nn_DirectHits = aq_directHits a,
           nn_FirstSeq = uint (aq_firstSeq a), nn_LastSeq = uint (aq_lastSeq a),
           nn_RSRPMedian = median, nn_PlausibleSamples = int (length validRSRP)\<rparr> }"

fun neighbor_cells :: "qmdlAggregate list \<Rightarrow> nativeNeighborCell list option" where
  "neighbor_cells [] = Some []"
| "neighbor_cells (a # as) = do { c \<leftarrow> neighbor_cell a; cs \<leftarrow> neighbor_cells as; Some (c # cs) }"

definition aggregates_of :: "qmdlParser \<Rightarrow> qmdlAggregate list" where
  "aggregates_of parser =
     foldl agg_candidate (foldl agg_report [] (qp_reports parser)) (qp_candidates parser)"

definition result :: "qmdlParser \<Rightarrow> nativeNeighborResult option" where
  "result parser = do {
     let parser = correlateNRReports_svc parser;
     neighbors \<leftarrow> neighbor_cells (aggregates_of parser);
     Some \<lparr>nr_Engine = neighborGoParserEngine, nr_Version = neighborGoParserVersion,
           nr_Frames = qp_frames parser, nr_Malformed = qp_malformed parser,
           nr_Serving = qp_serving parser, nr_Neighbors = neighbors\<rparr> }"

section \<open>The files of the ring\<close>

datatype 'e svc_error = NoFiles | SvcCtx 'e | ReadFailed string 'e | CloseFailed string 'e | NothingOpened 'e

text \<open>The loop over the paths: files that cannot be opened are skipped; the result carries the number of files
  opened and the last open error.\<close>

fun svc_files :: "(ctx_point \<Rightarrow> 'e option) \<Rightarrow> (string \<Rightarrow> 'e + 'e qmdl_file) \<Rightarrow> nat \<Rightarrow> string list \<Rightarrow> nat \<Rightarrow>
    'e option \<Rightarrow> qmdlParser \<Rightarrow> ('e svc_error + nat \<times> 'e option \<times> qmdlParser) option" where
  "svc_files ctx openf fileIndex [] opened lastOpenErr parser = Some (Inr (opened, lastOpenErr, parser))"
| "svc_files ctx openf fileIndex (path # paths) opened lastOpenErr parser =
     (case ctx (AtFile fileIndex) of
        Some e \<Rightarrow> Some (Inl (SvcCtx e))
      | None \<Rightarrow>
          (case openf path of
             Inl e \<Rightarrow> svc_files ctx openf (fileIndex + 1) paths opened (Some e) parser
           | Inr stream \<Rightarrow> do {
               (err, parser) \<leftarrow> parseReader_svc (\<lambda>n. ctx (AtByte fileIndex n)) (f_tail stream) (f_bytes stream)
                                 parser (of_nat fileIndex);
               case err of
                 Some e \<Rightarrow> Some (Inl (ReadFailed path e))
               | None \<Rightarrow>
                   (case f_close stream of
                      Some e \<Rightarrow> Some (Inl (CloseFailed path e))
                    | None \<Rightarrow> svc_files ctx openf (fileIndex + 1) paths (opened + 1) lastOpenErr parser) }))"

text \<open>With no file opened the error wraps \<^verbatim>\<open>lastOpenErr\<close>, which is set then.\<close>

definition parseNeighborQMDLFiles :: "(ctx_point \<Rightarrow> 'e option) \<Rightarrow> (string \<Rightarrow> 'e + 'e qmdl_file) \<Rightarrow> string list \<Rightarrow>
    ('e svc_error + nativeNeighborResult) option" where
  "parseNeighborQMDLFiles ctx openf paths =
     (if length paths = 0 then Some (Inl NoFiles)
      else do {
        r \<leftarrow> svc_files ctx openf 0 paths 0 None new_qmdl_parser;
        case r of
          Inl e \<Rightarrow> Some (Inl e)
        | Inr (opened, lastOpenErr, parser) \<Rightarrow>
            if opened = 0
            then (case lastOpenErr of Some e \<Rightarrow> Some (Inl (NothingOpened e)) | None \<Rightarrow> Some (Inl NoFiles))
            else do { res \<leftarrow> result parser; Some (Inr res) } })"

section \<open>Agreement with the reducer's decoders\<close>

definition qsh_candidate :: "qmdlCandidate \<Rightarrow> qshCandidate" where
  "qsh_candidate c = \<lparr>qc_seq = mc_seq c, qc_file = mc_file c, qc_pci = mc_pci c, qc_arfcn = mc_arfcn c, qc_band = mc_band c\<rparr>"

definition qsh_report :: "qmdlReport \<Rightarrow> qshReport" where
  "qsh_report r = \<lparr>qr_seq = mr_seq r, qr_file = mr_file r, qr_rat = mr_rat r, qr_pci = mr_pci r, qr_arfcn = mr_arfcn r,
     qr_band = mr_band r, qr_rsrp = mr_rsrp r, qr_direct = mr_direct r, qr_requiresARFCN = mr_requiresARFCN r\<rparr>"

lemma roundQMDL_eq: "roundQMDL = roundQSH"
  by (simp add: fun_eq_iff roundQMDL_def roundQSH_def)

lemma shared_helpers:
  "validQ7Signal_svc = validQ7Signal" "decodeLTERSRP_svc = decodeLTERSRP"
  "decodeLTEFractionalRSRP_svc = decodeLTEFractionalRSRP" "unsignedDistance_svc = unsignedDistance"
  "qmdlNRReportSpec = nrReportSpec" "median_svc = median_of"
  unfolding fun_eq_iff validQ7Signal_svc_def validQ7Signal_def decodeLTERSRP_svc_def
    decodeLTERSRP_def decodeLTEFractionalRSRP_svc_def decodeLTEFractionalRSRP_def unsignedDistance_svc_def
    unsignedDistance_def qmdlNRReportSpec_def nrReportSpec_def median_svc_def median_of_def roundQMDL_eq
  by blast+

lemma qsh_candidate_sel [simp]:
  "qc_pci (qsh_candidate c) = mc_pci c" "qc_arfcn (qsh_candidate c) = mc_arfcn c" "qc_band (qsh_candidate c) = mc_band c"
  by (simp_all add: qsh_candidate_def)

lemma qsh_zero [simp]: "qsh_candidate zero_mcandidate = zero_candidate" "qsh_report zero_mreport = zero_report"
  by (simp_all add: qsh_candidate_def zero_mcandidate_def zero_candidate_def qsh_report_def zero_mreport_def zero_report_def)

lemma qsh_candidate_inject: "qsh_candidate a = qsh_candidate b \<longleftrightarrow> a = b"
  by (cases a; cases b) (auto simp: qsh_candidate_def)

lemma qsh_report_inject: "qsh_report a = qsh_report b \<longleftrightarrow> a = b"
  by (cases a; cases b) (auto simp: qsh_report_def)

lemma take_cell_agree: "take_cell words m i j = map_option qsh_candidate (take_cell_svc words m i j)"
  by (simp add: take_cell_def take_cell_svc_def qsh_candidate_def zero_candidate_def zero_mcandidate_def split: Option.bind_splits)

lemma take_banded_agree: "take_banded words m = map_option qsh_candidate (take_banded_svc words m)"
  by (simp add: take_banded_def take_banded_svc_def qsh_candidate_def zero_candidate_def zero_mcandidate_def split: Option.bind_splits)

lemma candidate_switch_agree:
  "candidate_switch h words = map_option (map_option (map_prod qsh_candidate id)) (candidate_switch_svc h words)"
proof -
  have "((map_option qsh_candidate x) \<bind> (\<lambda>c. Some (Some (c, n)))) =
    map_option (map_option (map_prod qsh_candidate id)) (x \<bind> (\<lambda>c. Some (Some (c, n :: nat))))" for x n
    by (cases x) simp_all
  then show ?thesis
    unfolding candidate_switch_def candidate_switch_svc_def take_cell_agree take_banded_agree Let_def
    by (simp only: if_distrib [where f = "map_option (map_option (map_prod qsh_candidate id))"] option.map cong: if_cong)
qed

lemma decode_candidate_agree:
  "decodeQSHCandidate h words = map_option (map_prod qsh_candidate id) (decodeQMDLCandidate h words)"
proof (cases "candidate_switch_svc h words")
  case (Some r)
  then show ?thesis
    by (cases r) (auto simp: decodeQSHCandidate_def decodeQMDLCandidate_def candidate_switch_agree)
qed (simp add: decodeQSHCandidate_def decodeQMDLCandidate_def candidate_switch_agree)

text \<open>The layout the reducer's \<^verbatim>\<open>switch\<close> selects, without the RSRQ word the service does not look at.\<close>

definition drop_rsrq :: "lte_layout \<Rightarrow> (u32 \<times> u32 \<times> int \<times> int \<times> bool) option" where
  "drop_rsrq l = (case l of LteLayout a p r f q v \<Rightarrow> Some (a, p, r, f, v) | _ \<Rightarrow> None)"

lemma lte_switch_agree: "lte_switch_svc h words = map_option drop_rsrq (lte_switch h words)"
proof -
  have bind: "map_option drop_rsrq (x \<bind> (\<lambda>a. y \<bind> (\<lambda>p. Some (LteLayout a p r f q v)))) =
    (x \<bind> (\<lambda>a. y \<bind> (\<lambda>p. Some (Some (a, p, r, f, v)))))" for x y r f q v
    by (simp add: drop_rsrq_def split: Option.bind_splits)
  show ?thesis
    unfolding lte_switch_def lte_switch_svc_def
    by (simp only: if_distrib [where f = "map_option drop_rsrq"] bind option.map drop_rsrq_def lte_layout.case cong: if_cong)
qed

lemma decode_lte_agree:
  assumes "decodeQSHLTEReport h words = Some (r, rec, valid)"
  obtains r' ok where "decodeQMDLLTEReport h words = Some (r', ok)" and "valid \<Longrightarrow> ok" and "ok \<Longrightarrow> rec \<and> qsh_report r' = r"
proof -
  obtain l where l: "lte_switch h words = Some l" and fits: "layout_fits words l" using lte_switch_total by blast
  have l': "lte_switch_svc h words = Some (drop_rsrq l)" by (simp add: lte_switch_agree l)
  have "\<exists>r' ok. decodeQMDLLTEReport h words = Some (r', ok) \<and> (valid \<longrightarrow> ok) \<and> (ok \<longrightarrow> rec \<and> qsh_report r' = r)"
  proof (cases l)
    case (LteLayout a p i f q v)
    have d: "drop_rsrq l = Some (a, p, i, f, v)" by (simp add: LteLayout drop_rsrq_def)
    show ?thesis
    proof (cases "i < 0")
      case True
      with assms show ?thesis unfolding decodeQSHLTEReport_def decodeQMDLLTEReport_def l l' d
        by (auto simp: LteLayout Let_def qsh_report_def zero_mreport_def zero_report_def split: if_splits Option.bind_splits)
    next
      case False
      then have wi: "idx words i = Some (words ! nat i)" using fits by (simp add: LteLayout layout_fits_def idx_def)
      have wf: "0 \<le> f \<Longrightarrow> idx words f = Some (words ! nat f)" using fits by (simp add: LteLayout layout_fits_def idx_def)
      from False assms show ?thesis unfolding decodeQSHLTEReport_def decodeQMDLLTEReport_def l l' d
        by (auto simp: LteLayout Let_def lte_signal_def wi wf shared_helpers qsh_report_def zero_mreport_def zero_report_def
            split: if_splits Option.bind_splits prod.splits)
    qed
  qed (use assms in \<open>auto simp: decodeQSHLTEReport_def decodeQMDLLTEReport_def l l' drop_rsrq_def\<close>)
  with that show thesis by blast
qed

lemma better_candidate_agree:
  "map_option (map_prod qsh_candidate id) (better_candidate_svc r best c) =
   better_candidate (qsh_report r) (map_option (map_prod qsh_candidate id) best) (qsh_candidate c)"
  by (cases best) (auto simp: better_candidate_svc_def better_candidate_def shared_helpers qsh_report_def qsh_candidate_def Let_def)

lemma foldl_better_agree:
  "foldl (better_candidate (qsh_report r)) (map_option (map_prod qsh_candidate id) best) (map qsh_candidate cs) =
   map_option (map_prod qsh_candidate id) (foldl (better_candidate_svc r) best cs)"
  by (induction cs arbitrary: best) (simp_all add: better_candidate_agree [symmetric])

lemma correlate_agree:
  "qsh_report (correlate_report_svc cs r) = correlate_report (map qsh_candidate cs) (qsh_report r)"
  using foldl_better_agree [of r None cs]
  by (auto simp: correlate_report_svc_def correlate_report_def qsh_report_def qsh_candidate_def split: option.splits)

section \<open>No panic\<close>

definition mreport_ok :: "qmdlReport \<Rightarrow> bool" where
  "mreport_ok r \<longleftrightarrow> plausible_lte (qsh_report r) \<or> (mr_rat r = 0 \<and> mr_pci r \<le> 1007 \<and> mr_direct r) \<or>
     (mr_rat r = 1 \<and> mr_pci r \<le> 503 \<and> mr_arfcn r \<noteq> 0)"

definition svc_ok :: "qmdlParser \<Rightarrow> bool" where
  "svc_ok p \<longleftrightarrow> list_all (\<lambda>c. plausible_candidate (qsh_candidate c)) (qp_candidates p) \<and> list_all mreport_ok (qp_reports p) \<and>
     0 \<le> qp_frames p \<and> 0 \<le> qp_malformed p"

lemma decode_candidate_total: "\<exists>c ok. decodeQMDLCandidate h words = Some (c, ok) \<and> (ok \<longrightarrow> plausible_candidate (qsh_candidate c))"
proof -
  obtain x where "decodeQSHCandidate h words = Some x" using decodeQSHCandidate_total by blast
  then obtain c ok where "decodeQMDLCandidate h words = Some (c, ok)"
    by (auto simp: decode_candidate_agree)
  moreover from this have "ok \<Longrightarrow> plausible_candidate (qsh_candidate c)"
    using decodeQSHCandidate_plausible [of h words "qsh_candidate c"] by (simp add: decode_candidate_agree)
  ultimately show ?thesis by blast
qed

lemma decode_lte_ok:
  assumes "decodeQMDLLTEReport h words = Some (r, True)"
  shows "mr_rat r = 1 \<and> mr_pci r \<le> 503 \<and> mr_arfcn r \<noteq> 0"
  using assms
  by (auto simp: decodeQMDLLTEReport_def zero_mreport_def Let_def not_less
      split: Option.bind_splits option.splits if_splits prod.splits)

lemma decode_lte_total: "\<exists>r ok. decodeQMDLLTEReport h words = Some (r, ok) \<and> (ok \<longrightarrow> mreport_ok (r\<lparr>mr_seq := s, mr_file := f\<rparr>))"
proof -
  obtain q rec valid where "decodeQSHLTEReport h words = Some (q, rec, valid)" using decodeQSHLTEReport_total by (metis surj_pair)
  from decode_lte_agree [OF this] obtain r ok where d: "decodeQMDLLTEReport h words = Some (r, ok)" by blast
  have "ok \<longrightarrow> mreport_ok (r\<lparr>mr_seq := s, mr_file := f\<rparr>)" using decode_lte_ok [of h words r] d by (auto simp: mreport_ok_def)
  with d show ?thesis by blast
qed

lemma serving_record_ok:
  assumes "svc_ok p" shows "\<exists>p'. serving_record p seq h words = Some p' \<and> svc_ok p'"
  using assms by (auto simp: serving_record_def addServing_def idx_def svc_ok_def)

lemma report_record_ok:
  assumes "svc_ok p" shows "\<exists>p'. report_record p seq fi h words = Some p' \<and> svc_ok p'"
proof -
  obtain strict minimum isNR where spec: "nrReportSpec h = (strict, minimum, isNR)" by (metis surj_pair)
  show ?thesis
  proof (cases isNR)
    case True
    then have "11 \<le> minimum" using nrReportSpec_minimum [of h strict minimum] spec by simp
    with assms spec True show ?thesis
      by (auto simp: report_record_def shared_helpers addNRReport_svc_def idx_def svc_ok_def mreport_ok_def zero_mreport_def
          Let_def not_less)
  next
    case False
    obtain r ok where "decodeQMDLLTEReport h words = Some (r, ok)" "ok \<longrightarrow> mreport_ok (r\<lparr>mr_seq := seq, mr_file := fi\<rparr>)"
      using decode_lte_total by blast
    with assms spec False show ?thesis by (auto simp: report_record_def shared_helpers svc_ok_def)
  qed
qed

lemma parseFrame_ok:
  assumes "svc_ok p" shows "\<exists>p'. parseFrame p payload seq fi = Some p' \<and> svc_ok p'"
proof (cases "length payload \<le> 15 \<or> payload ! 0 \<noteq> 0x9d")
  case True
  with assms show ?thesis by (auto simp: parseFrame_def idx_def)
next
  case False
  define wc where "wc = int (unat (payload ! 4)) - 0x13"
  obtain s h where h: "slice payload 12 16 = Some s" "uint32le s = Some h"
    using slice_uint32le [of 12 16 payload] False by (auto split: Option.bind_splits)
  have i: "idx payload 0 = Some (payload ! 0)" "idx payload 4 = Some (payload ! 4)" using False by (auto simp: idx_def)
  show ?thesis
  proof (cases "wc < 0 \<or> wc > 236 \<or> int (length payload) < (wc + 4) * 4")
    case True
    then have "parseFrame p payload seq fi = Some p"
      unfolding parseFrame_def i Option.bind.bind_lunit Let_def wc_def [symmetric] by simp
    with assms show ?thesis by blast
  next
    case fits: False
    then have "0 \<le> wc" "(wc + 4) * 4 \<le> int (length payload)" by auto
    then have "int (16 + 4 * nat wc) \<le> int (length payload)" by simp
    then have "16 + 4 * nat wc \<le> length payload" by (simp only: of_nat_le_iff)
    then obtain words where w: "read_words payload 16 (nat wc) = Some words"
      using read_words_total [of 16 "nat wc" payload] by blast
    obtain c ok where c: "decodeQMDLCandidate h words = Some (c, ok)" "ok \<longrightarrow> plausible_candidate (qsh_candidate c)"
      using decode_candidate_total by blast
    define q where "q = (if ok then p\<lparr>qp_candidates := qp_candidates p @ [c\<lparr>mc_seq := seq, mc_file := fi\<rparr>]\<rparr> else p)"
    have "svc_ok q" using assms c(2) by (simp add: q_def svc_ok_def plausible_candidate_def qsh_candidate_def)
    then obtain q' where q': "serving_record q seq h words = Some q'" "svc_ok q'" using serving_record_ok by blast
    have "parseFrame p payload seq fi = report_record q' seq fi h words"
      using False fits unfolding parseFrame_def i h w c(1) Option.bind.bind_lunit Let_def wc_def [symmetric] prod.case q_def [symmetric]
      by (simp add: q'(1))
    with report_record_ok [OF q'(2)] show ?thesis by simp
  qed
qed

lemma finishFrame_ok:
  assumes "svc_ok p" shows "\<exists>st' p'. finishFrame fi st p = Some (st', p') \<and> svc_ok p'"
proof (cases "ss_frame st = [] \<or> ss_escaped st \<or> length (ss_frame st) \<le> 2")
  case True
  with assms show ?thesis by (auto simp: finishFrame_def svc_ok_def)
next
  case False
  then have "slice (ss_frame st) 0 (int (length (ss_frame st)) - 2) = Some (take (length (ss_frame st) - 2) (ss_frame st))"
    using slice_drop_last [of 2 "ss_frame st"] by simp
  with False parseFrame_ok [OF assms, of "take (length (ss_frame st) - 2) (ss_frame st)" "ss_seq st" fi] show ?thesis
    by (auto simp: finishFrame_def svc_ok_def)
qed

lemma svc_bytes_ok:
  "svc_ok p \<Longrightarrow> \<exists>e p'. svc_bytes ctx tail fi n bs st p = Some (e, p') \<and> svc_ok p'"
proof (induction bs arbitrary: n st p)
  case Nil
  with finishFrame_ok [OF Nil.prems, of fi st] show ?case
    by (subst svc_bytes.simps) (auto split: option.split)
next
  case (Cons b bs)
  have "\<exists>st' p'. svc_byte fi st p b = Some (st', p') \<and> svc_ok p'"
    using finishFrame_ok [OF Cons.prems, of fi st] Cons.prems by (simp add: svc_byte_def)
  then obtain st' p' where "svc_byte fi st p b = Some (st', p')" "svc_ok p'" by blast
  with Cons.IH [of p' "n + 1" st'] Cons.prems show ?case
    by (subst svc_bytes.simps) (simp split: option.split)
qed

lemma parseReader_svc_ok: "svc_ok p \<Longrightarrow> \<exists>e p'. parseReader_svc ctx tail bs p fi = Some (e, p') \<and> svc_ok p'"
  unfolding parseReader_svc_def by (rule svc_bytes_ok) (simp add: svc_ok_def)

lemma svc_files_ok:
  "svc_ok p \<Longrightarrow> \<exists>r. svc_files ctx openf i paths n le p = Some r \<and> (\<forall>o' le' p'. r = Inr (o', le', p') \<longrightarrow> svc_ok p')"
proof (induction paths arbitrary: i n le p)
  case (Cons path paths)
  show ?case
  proof (cases "openf path")
    case (Inr f)
    obtain e p' where "parseReader_svc (\<lambda>n. ctx (AtByte i n)) (f_tail f) (f_bytes f) p (of_nat i) = Some (e, p')" "svc_ok p'"
      using parseReader_svc_ok [OF Cons.prems] by blast
    with Inr Cons.IH [of p' "i + 1"] show ?thesis by (auto split: option.splits)
  qed (use Cons in \<open>auto split: option.splits\<close>)
qed simp

section \<open>Grouping by identity\<close>

text \<open>Both loops of \<open>result\<close> update the aggregate of the identity of an item, a report or a candidate.\<close>

type_synonym item = "qmdlReport + qmdlCandidate"

definition item_key :: "item \<Rightarrow> qmdlAggregateKey" where
  "item_key x = (case x of Inl r \<Rightarrow> mreport_key r | Inr c \<Rightarrow> mcandidate_key c)"

definition item_seq :: "item \<Rightarrow> u32" where
  "item_seq x = (case x of Inl r \<Rightarrow> mr_seq r | Inr c \<Rightarrow> mc_seq c)"

definition item_step :: "qmdlAggregate \<Rightarrow> item \<Rightarrow> qmdlAggregate" where
  "item_step a x = (case x of
     Inl r \<Rightarrow> (let a = addSeq (mr_seq r) (a\<lparr>aq_samples := aq_samples a + 1\<rparr>) in
              if mr_direct r then a\<lparr>aq_rsrp := aq_rsrp a @ [mr_rsrp r]\<rparr> else a)
   | Inr c \<Rightarrow> (let a = addSeq (mc_seq c) (a\<lparr>aq_directHits := aq_directHits a + 1\<rparr>) in
              if mc_band c = 0 then a
              else if aq_band a = 0 then a\<lparr>aq_band := mc_band c\<rparr>
              else if aq_band a \<noteq> mc_band c then a\<lparr>aq_bandClash := True\<rparr> else a))"

definition kept_report :: "qmdlReport \<Rightarrow> bool" where
  "kept_report r \<longleftrightarrow> \<not> (mr_rat r = 0 \<and> mr_requiresARFCN r \<and> mr_arfcn r = 0)"

definition items_of :: "qmdlParser \<Rightarrow> item list" where
  "items_of p = map Inl (filter kept_report (qp_reports p)) @ map Inr (qp_candidates p)"

definition group_step :: "qmdlAggregate list \<Rightarrow> item \<Rightarrow> qmdlAggregate list" where
  "group_step as x = at_aggregate (item_key x) (\<lambda>a. item_step a x) as"

lemma agg_reports_items:
  "foldl agg_report as rs = foldl group_step as (map Inl (filter kept_report rs))"
  by (induction rs arbitrary: as) (auto simp: agg_report_def group_step_def item_key_def item_step_def kept_report_def)

lemma agg_candidates_items: "foldl agg_candidate as cs = foldl group_step as (map Inr cs)"
  by (induction cs arbitrary: as) (auto simp: agg_candidate_def group_step_def item_key_def item_step_def)

lemma aggregates_of_items: "aggregates_of p = foldl group_step [] (items_of p)"
  by (simp add: aggregates_of_def items_of_def agg_reports_items agg_candidates_items)

fun nub :: "'a list \<Rightarrow> 'a list \<Rightarrow> 'a list" where
  "nub seen [] = seen"
| "nub seen (x # xs) = nub (if x \<in> set seen then seen else seen @ [x]) xs"

lemma nub_snoc: "nub seen (xs @ [x]) = (if x \<in> set (nub seen xs) then nub seen xs else nub seen xs @ [x])"
  by (induction seen xs rule: nub.induct) auto

lemma distinct_nub: "distinct seen \<Longrightarrow> distinct (nub seen xs)"
  by (induction seen xs rule: nub.induct) auto

lemma set_nub: "set (nub seen xs) = set seen \<union> set xs"
  by (induction seen xs rule: nub.induct) auto

definition group_of :: "item list \<Rightarrow> qmdlAggregateKey \<Rightarrow> qmdlAggregate" where
  "group_of xs k = foldl item_step (new_aggregate k) (filter (\<lambda>x. item_key x = k) xs)"

lemma aq_key_addSeq [simp]: "aq_key (addSeq s a) = aq_key a"
  by (simp add: addSeq_def Let_def)

lemma aq_key_step [simp]: "aq_key (item_step a x) = aq_key a"
  by (auto simp: item_step_def Let_def split: sum.splits)

lemma aq_key_foldl: "aq_key (foldl item_step a xs) = aq_key a"
  by (induction xs arbitrary: a) auto

lemma aq_key_group [simp]: "aq_key (group_of xs k) = k"
  by (simp add: group_of_def aq_key_foldl new_aggregate_def)

lemma group_of_snoc:
  "group_of (xs @ [x]) k = (if item_key x = k then item_step (group_of xs k) x else group_of xs k)"
  by (simp add: group_of_def)

lemma group_of_new: "k \<notin> item_key ` set xs \<Longrightarrow> group_of xs k = new_aggregate k"
proof -
  assume "k \<notin> item_key ` set xs"
  then have "filter (\<lambda>x. item_key x = k) xs = []" by (auto simp: filter_empty_conv)
  then show ?thesis by (simp add: group_of_def)
qed

lemma at_aggregate_map:
  assumes "distinct ks" and "\<And>k. aq_key (g k) = k"
  shows "at_aggregate k f (map g ks) =
     (if k \<in> set ks then map (\<lambda>k'. if k' = k then f (g k') else g k') ks else map g ks @ [f (new_aggregate k)])"
  using assms(1)
proof (induction ks)
  case (Cons k' ks)
  then have "k' = k \<Longrightarrow> map g ks = map (\<lambda>k'. if k' = k then f (g k') else g k') ks" by auto
  with Cons show ?case by (auto simp: assms(2))
qed simp

lemma group_fold: "foldl group_step [] xs = map (group_of xs) (nub [] (map item_key xs))"
proof (induction xs rule: rev_induct)
  case (snoc x xs)
  have d: "distinct (nub [] (map item_key xs))" by (simp add: distinct_nub)
  have s: "set (nub [] (map item_key xs)) = item_key ` set xs" by (simp add: set_nub)
  show ?case
    using group_of_new [of "item_key x" xs]
    by (auto simp: snoc group_step_def [of "map (group_of xs) (nub [] (map item_key xs))" x] at_aggregate_map [OF d]
        nub_snoc s group_of_snoc)
qed simp

section \<open>What an aggregate holds\<close>

definition agg_inv :: "qmdlAggregate \<Rightarrow> item list \<Rightarrow> bool" where
  "agg_inv a xs \<longleftrightarrow>
     aq_samples a = int (length (filter isl xs)) \<and> aq_directHits a = int (length (filter (\<lambda>x. \<not> isl x) xs)) \<and>
     (aq_hasSeq a \<longleftrightarrow> xs \<noteq> []) \<and>
     (xs \<noteq> [] \<longrightarrow> aq_firstSeq a \<in> item_seq ` set xs \<and> aq_lastSeq a \<in> item_seq ` set xs) \<and>
     (\<forall>x\<in>set xs. aq_firstSeq a \<le> item_seq x \<and> item_seq x \<le> aq_lastSeq a) \<and>
     aq_rsrp a = map mr_rsrp (filter mr_direct (map projl (filter isl xs)))"

lemma addSeq_fields [simp]:
  "aq_samples (addSeq s a) = aq_samples a" "aq_directHits (addSeq s a) = aq_directHits a" "aq_rsrp (addSeq s a) = aq_rsrp a"
  "aq_band (addSeq s a) = aq_band a" "aq_bandClash (addSeq s a) = aq_bandClash a" "aq_hasSeq (addSeq s a)"
  by (simp_all add: addSeq_def Let_def)

lemma addSeq_seqs:
  "aq_firstSeq (addSeq s a) = (if aq_hasSeq a then min s (aq_firstSeq a) else s)"
  "aq_lastSeq (addSeq s a) = (if aq_hasSeq a then max s (aq_lastSeq a) else s)"
  by (auto simp: addSeq_def Let_def min_def max_def)

lemma agg_inv_step:
  assumes "agg_inv a xs" shows "agg_inv (item_step a x) (xs @ [x])"
proof -
  let ?b = "item_step a x"
  have seqs: "aq_firstSeq ?b = (if xs \<noteq> [] then min (item_seq x) (aq_firstSeq a) else item_seq x)"
    "aq_lastSeq ?b = (if xs \<noteq> [] then max (item_seq x) (aq_lastSeq a) else item_seq x)" "aq_hasSeq ?b"
    using assms by (auto simp: item_step_def item_seq_def addSeq_seqs agg_inv_def Let_def split: sum.splits)
  have "aq_firstSeq ?b \<in> item_seq ` set (xs @ [x])" "aq_lastSeq ?b \<in> item_seq ` set (xs @ [x])"
    using assms by (auto simp: seqs agg_inv_def min_def max_def)
  moreover have "\<forall>y\<in>set (xs @ [x]). aq_firstSeq ?b \<le> item_seq y \<and> item_seq y \<le> aq_lastSeq ?b"
    using assms by (auto simp: seqs agg_inv_def min_def max_def intro: order_trans)
  moreover have "aq_samples ?b = int (length (filter isl (xs @ [x])))"
    "aq_directHits ?b = int (length (filter (\<lambda>x. \<not> isl x) (xs @ [x])))"
    "aq_rsrp ?b = map mr_rsrp (filter mr_direct (map projl (filter isl (xs @ [x]))))"
    using assms by (cases x; auto simp: item_step_def agg_inv_def Let_def)+
  ultimately show ?thesis using seqs(3) by (simp add: agg_inv_def)
qed

lemma agg_inv_group: "agg_inv (group_of xs k) (filter (\<lambda>x. item_key x = k) xs)"
proof (induction xs rule: rev_induct)
  case Nil
  show ?case by (simp add: agg_inv_def group_of_def new_aggregate_def)
next
  case (snoc x xs)
  then show ?case by (simp add: group_of_snoc agg_inv_step)
qed

text \<open>The band of a group: the bands its candidates name, and whether they differ.\<close>

definition bands_of :: "item list \<Rightarrow> u32 set" where
  "bands_of xs = {mc_band c | c. Inr c \<in> set xs \<and> mc_band c \<noteq> 0}"

lemma bands_of_snoc:
  "bands_of (xs @ [x]) = (case x of Inr c \<Rightarrow> if mc_band c \<noteq> 0 then insert (mc_band c) (bands_of xs) else bands_of xs | Inl r \<Rightarrow> bands_of xs)"
  by (auto simp: bands_of_def split: sum.splits)

definition band_inv :: "qmdlAggregate \<Rightarrow> u32 set \<Rightarrow> bool" where
  "band_inv a B \<longleftrightarrow> (aq_band a = 0 \<longleftrightarrow> B = {}) \<and> (aq_band a \<noteq> 0 \<longrightarrow> aq_band a \<in> B) \<and> (aq_bandClash a \<longleftrightarrow> (\<exists>b\<in>B. b \<noteq> aq_band a)) \<and> 0 \<notin> B"

lemma band_inv_step: "band_inv a (bands_of xs) \<Longrightarrow> band_inv (item_step a x) (bands_of (xs @ [x]))"
  by (cases x) (auto simp: band_inv_def bands_of_snoc item_step_def Let_def)

lemma band_inv_group: "band_inv (group_of xs k) (bands_of (filter (\<lambda>x. item_key x = k) xs))"
proof (induction xs rule: rev_induct)
  case Nil
  show ?case by (simp add: band_inv_def group_of_def new_aggregate_def bands_of_def)
next
  case (snoc x xs)
  then show ?case by (simp add: group_of_snoc band_inv_step)
qed

section \<open>Cells\<close>

definition plausible_rsrp :: "item list \<Rightarrow> rat list" where
  "plausible_rsrp xs =
     filter (\<lambda>v. v \<ge> -140 \<and> v \<le> -30) (map mr_rsrp (filter mr_direct (map projl (filter isl xs))))"

text \<open>What a reported cell says of the items of its identity.\<close>

definition cell_describes :: "nativeNeighborCell \<Rightarrow> item list \<Rightarrow> bool" where
  "cell_describes c xs \<longleftrightarrow>
     nn_DirectHits c = int (length (filter (\<lambda>x. \<not> isl x) xs)) \<and>
     nn_Samples c = (if filter isl xs = [] then nn_DirectHits c else int (length (filter isl xs))) \<and>
     nn_FirstSeq c \<in> (\<lambda>x. uint (item_seq x)) ` set xs \<and> nn_LastSeq c \<in> (\<lambda>x. uint (item_seq x)) ` set xs \<and>
     (\<forall>x\<in>set xs. nn_FirstSeq c \<le> uint (item_seq x) \<and> uint (item_seq x) \<le> nn_LastSeq c) \<and>
     nn_Band c = (if \<exists>b. bands_of xs = {b} then Some (uint (the_elem (bands_of xs))) else None) \<and>
     nn_PlausibleSamples c = int (length (plausible_rsrp xs)) \<and>
     (nn_RSRPMedian c = None \<longleftrightarrow> plausible_rsrp xs = []) \<and>
     (\<forall>v. nn_RSRPMedian c = Some v \<longrightarrow> median_svc (sort (plausible_rsrp xs)) = Some v \<and> - 140 \<le> v \<and> v \<le> - 30)"

lemma band_of_group:
  assumes "band_inv a B"
  shows "(if aq_band a \<noteq> 0 \<and> \<not> aq_bandClash a then intPointer (aq_band a) else None) =
    (if \<exists>b. B = {b} then Some (uint (the_elem B)) else None)"
proof (cases "aq_band a \<noteq> 0 \<and> \<not> aq_bandClash a")
  case True
  with assms have "B = {aq_band a}" by (auto simp: band_inv_def)
  with True show ?thesis by (simp add: intPointer_def)
next
  case False
  with assms have "\<nexists>b. B = {b}" by (auto simp: band_inv_def)
  with False show ?thesis by auto
qed

lemma neighbor_cell_describes:
  assumes inv: "agg_inv a xs" and band: "band_inv a (bands_of xs)" and ne: "xs \<noteq> []"
  obtains c where "neighbor_cell a = Some c" and "cell_describes c xs" and "nn_RAT c = qmdlRATName (ak_rat (aq_key a))"
    and "nn_PCI c = uint (ak_pci (aq_key a))" and "nn_ARFCN c = (if ak_arfcn (aq_key a) \<noteq> 0 then intPointer (ak_arfcn (aq_key a)) else None)"
proof -
  have v: "filter (\<lambda>v. v \<ge> -140 \<and> v \<le> -30) (aq_rsrp a) = plausible_rsrp xs"
    using inv by (simp add: agg_inv_def plausible_rsrp_def)
  have med: "plausible_rsrp xs \<noteq> [] \<Longrightarrow> \<exists>m. median_svc (sort (plausible_rsrp xs)) = Some m \<and> - 140 \<le> m \<and> m \<le> - 30"
  proof -
    assume "plausible_rsrp xs \<noteq> []"
    then have "sort (plausible_rsrp xs) \<noteq> []" by (metis length_greater_0_conv length_sort)
    moreover have "\<forall>x\<in>set (sort (plausible_rsrp xs)). - 140 \<le> x \<and> x \<le> - 30" by (auto simp: plausible_rsrp_def)
    ultimately show ?thesis unfolding shared_helpers by (rule median_range)
  qed
  have smp: "aq_samples a = 0 \<longleftrightarrow> filter isl xs = []" using inv by (simp add: agg_inv_def)
  obtain m where m: "(if plausible_rsrp xs \<noteq> [] then do { m \<leftarrow> median_svc (sort (plausible_rsrp xs)); Some (floatPointer m) } else Some None) = Some m"
      "m = None \<longleftrightarrow> plausible_rsrp xs = []"
      "\<forall>v. m = Some v \<longrightarrow> median_svc (sort (plausible_rsrp xs)) = Some v \<and> - 140 \<le> v \<and> v \<le> - 30"
    using med by (cases "plausible_rsrp xs = []") (auto simp: floatPointer_def)
  let ?c = "\<lparr>nn_RAT = qmdlRATName (ak_rat (aq_key a)), nn_PCI = uint (ak_pci (aq_key a)),
           nn_ARFCN = (if ak_arfcn (aq_key a) \<noteq> 0 then intPointer (ak_arfcn (aq_key a)) else None),
           nn_Band = (if aq_band a \<noteq> 0 \<and> \<not> aq_bandClash a then intPointer (aq_band a) else None),
           nn_Samples = (if aq_samples a = 0 then aq_directHits a else aq_samples a), nn_DirectHits = aq_directHits a,
           nn_FirstSeq = uint (aq_firstSeq a), nn_LastSeq = uint (aq_lastSeq a),
           nn_RSRPMedian = m, nn_PlausibleSamples = int (length (plausible_rsrp xs))\<rparr>"
  have "neighbor_cell a = Some ?c" unfolding neighbor_cell_def Let_def v m(1) by simp
  moreover have "cell_describes ?c xs"
    using inv m(2,3) ne smp unfolding cell_describes_def nativeNeighborCell.simps band_of_group [OF band] agg_inv_def
    by (auto simp: word_le_def)
  ultimately show thesis using that by simp
qed

lemma neighbor_cells_map:
  assumes "\<And>k. k \<in> set ks \<Longrightarrow> \<exists>c. neighbor_cell (g k) = Some c \<and> P k c"
  shows "\<exists>cs. neighbor_cells (map g ks) = Some cs \<and> list_all2 P ks cs"
  using assms
proof (induction ks)
  case (Cons k ks)
  then obtain c cs where "neighbor_cell (g k) = Some c" "P k c" "neighbor_cells (map g ks) = Some cs" "list_all2 P ks cs"
    by (meson list.set_intros)
  then show ?case by simp
qed simp

definition cell_identity :: "nativeNeighborCell \<Rightarrow> string \<times> int \<times> int option" where
  "cell_identity c = (nn_RAT c, nn_PCI c, nn_ARFCN c)"

definition key_identity :: "qmdlAggregateKey \<Rightarrow> string \<times> int \<times> int option" where
  "key_identity k = (qmdlRATName (ak_rat k), uint (ak_pci k), if ak_arfcn k \<noteq> 0 then intPointer (ak_arfcn k) else None)"

lemma result_describes:
  "\<exists>res. result p = Some res \<and> nr_Frames res = qp_frames p \<and> nr_Malformed res = qp_malformed p \<and>
     list_all2 (\<lambda>k c. cell_identity c = key_identity k \<and>
         cell_describes c (filter (\<lambda>x. item_key x = k) (items_of (correlateNRReports_svc p))))
       (nub [] (map item_key (items_of (correlateNRReports_svc p)))) (nr_Neighbors res)"
proof -
  let ?xs = "items_of (correlateNRReports_svc p)"
  let ?ks = "nub [] (map item_key ?xs)"
  have "\<exists>c. neighbor_cell (group_of ?xs k) = Some c \<and>
      (cell_identity c = key_identity k \<and> cell_describes c (filter (\<lambda>x. item_key x = k) ?xs))" if "k \<in> set ?ks" for k
  proof -
    have ne: "filter (\<lambda>x. item_key x = k) ?xs \<noteq> []" using that by (auto simp: set_nub filter_empty_conv)
    obtain c where "neighbor_cell (group_of ?xs k) = Some c" "cell_describes c (filter (\<lambda>x. item_key x = k) ?xs)"
      "cell_identity c = key_identity k"
      by (rule neighbor_cell_describes [OF agg_inv_group band_inv_group ne]) (simp add: cell_identity_def key_identity_def)
    then show ?thesis by blast
  qed
  then have "\<exists>cs. neighbor_cells (map (group_of ?xs) ?ks) = Some cs \<and>
    list_all2 (\<lambda>k c. cell_identity c = key_identity k \<and> cell_describes c (filter (\<lambda>x. item_key x = k) ?xs)) ?ks cs"
    by (rule neighbor_cells_map)
  then obtain cs where "neighbor_cells (map (group_of ?xs) ?ks) = Some cs"
    "list_all2 (\<lambda>k c. cell_identity c = key_identity k \<and> cell_describes c (filter (\<lambda>x. item_key x = k) ?xs)) ?ks cs"
    by blast
  then show ?thesis
    by (simp add: result_def Let_def aggregates_of_items group_fold) (simp add: correlateNRReports_svc_def)
qed

lemma mreport_ok_cases: "mreport_ok r \<longleftrightarrow> (mr_rat r = 0 \<and> mr_pci r \<le> 1007 \<and> mr_direct r) \<or> (mr_rat r = 1 \<and> mr_pci r \<le> 503 \<and> mr_arfcn r \<noteq> 0)"
  by (auto simp: mreport_ok_def plausible_lte_def qsh_report_def)

lemma correlate_mreport_ok: "mreport_ok r \<Longrightarrow> mreport_ok (correlate_report_svc cs r)"
  by (auto simp: correlate_report_svc_def mreport_ok_cases split: option.split)

lemma correlate_svc_ok: "svc_ok p \<Longrightarrow> list_all mreport_ok (qp_reports (correlateNRReports_svc p))"
  by (simp add: svc_ok_def correlateNRReports_svc_def list_all_iff correlate_mreport_ok)

lemma item_rat: "svc_ok p \<Longrightarrow> x \<in> set (items_of (correlateNRReports_svc p)) \<Longrightarrow> ak_rat (item_key x) \<in> {0, 1}"
  using correlate_svc_ok [of p]
  by (auto simp: items_of_def item_key_def mreport_key_def mcandidate_key_def list_all_iff mreport_ok_cases)

lemma key_identity_inject:
  "ak_rat a \<in> {0, 1} \<Longrightarrow> ak_rat b \<in> {0, 1} \<Longrightarrow> key_identity a = key_identity b \<Longrightarrow> a = b"
  by (cases a; cases b) (auto simp: key_identity_def qmdlRATName_def intPointer_def word_uint_eq_iff split: if_splits)

lemma identities_distinct:
  assumes "svc_ok p" and "result p = Some res"
  shows "distinct (map cell_identity (nr_Neighbors res))"
proof -
  let ?ks = "nub [] (map item_key (items_of (correlateNRReports_svc p)))"
  have "list_all2 (\<lambda>k c. cell_identity c = key_identity k) ?ks (nr_Neighbors res)"
    using result_describes [of p] assms(2) by (auto elim!: list_all2_mono)
  then have "map cell_identity (nr_Neighbors res) = map key_identity ?ks"
    by (auto simp: list_all2_conv_all_nth intro!: nth_equalityI)
  moreover have "inj_on key_identity (set ?ks)"
    using item_rat [OF assms(1)] by (intro inj_onI key_identity_inject) (auto simp: set_nub)
  ultimately show ?thesis by (simp add: distinct_map distinct_nub)
qed

section \<open>Properties\<close>

lemma parse_files_result:
  "\<exists>r. parseNeighborQMDLFiles ctx openf paths = Some r \<and>
     (\<forall>res. r = Inr res \<longrightarrow> distinct (map cell_identity (nr_Neighbors res)) \<and> 0 \<le> nr_Frames res \<and> 0 \<le> nr_Malformed res)"
proof (cases "paths = []")
  case False
  have "svc_ok new_qmdl_parser" by (simp add: svc_ok_def new_qmdl_parser_def)
  then obtain r where r: "svc_files ctx openf 0 paths 0 None new_qmdl_parser = Some r"
      "\<forall>o' le' p'. r = Inr (o', le', p') \<longrightarrow> svc_ok p'"
    using svc_files_ok by blast
  show ?thesis
  proof (cases r)
    case (Inr x)
    obtain opened le p where x: "x = (opened, le, p)" by (cases x)
    with Inr r have p: "svc_ok p" by simp
    obtain res where res: "result p = Some res" "nr_Frames res = qp_frames p" "nr_Malformed res = qp_malformed p"
      using result_describes by blast
    from identities_distinct [OF p res(1)] res p show ?thesis
      using False by (auto simp: parseNeighborQMDLFiles_def r Inr x svc_ok_def split: option.split)
  qed (use False in \<open>simp add: parseNeighborQMDLFiles_def r\<close>)
qed (simp add: parseNeighborQMDLFiles_def)

lemma parse_files_total: "\<exists>r. parseNeighborQMDLFiles ctx openf paths = Some r"
  using parse_files_result by blast

text \<open>C24: Parsing the ring never panics, whatever the files hold and however opening, reading or closing them fails, and
  what it then returns is an error or a result whose neighbours are pairwise different identities.\<close>
theorem parseNeighborQMDLFiles_safe:
  "\<exists>r. parseNeighborQMDLFiles ctx openf paths = Some r \<and>
     (\<forall>res. r = Inr res \<longrightarrow> distinct (map cell_identity (nr_Neighbors res)) \<and> 0 \<le> nr_Frames res \<and> 0 \<le> nr_Malformed res)"
  by (rule parse_files_result)

definition svc_sample_file :: "unit qmdl_file" where
  "svc_sample_file = \<lparr>f_bytes = [1, 2, 0x7e], f_size = None, f_readAt = (\<lambda>_. None), f_seek = (\<lambda>_. None), f_tail = None, f_close = None\<rparr>"

definition svc_sample_result :: nativeNeighborResult where
  "svc_sample_result = \<lparr>nr_Engine = ''go-native'', nr_Version = ''1.2.1'', nr_Frames = 0, nr_Malformed = 1, nr_Serving = [], nr_Neighbors = []\<rparr>"

lemma svc_sample_parse:
  "parseNeighborQMDLFiles (\<lambda>_. None) (\<lambda>_. Inr svc_sample_file) [''a''] = Some (Inr svc_sample_result)"
  by (simp add: parseNeighborQMDLFiles_def svc_sample_file_def parseReader_svc_def svc_bytes.simps svc_byte_def finishFrame_def
      new_qmdl_parser_def result_def correlateNRReports_svc_def aggregates_of_def svc_sample_result_def
      neighborGoParserEngine_def neighborGoParserVersion_def)

theorem parseNeighborQMDLFiles_safe_witness:
  "parseNeighborQMDLFiles (\<lambda>_. None) (\<lambda>_. Inr svc_sample_file) [''a''] = Some (Inr svc_sample_result) \<and>
   distinct (map cell_identity (nr_Neighbors svc_sample_result))"
  using parseNeighborQMDLFiles_safe [of "\<lambda>_. None" "\<lambda>_. Inr svc_sample_file" "[''a'']"]
  by (simp add: svc_sample_parse)

text \<open>C25: The aggregation is exact: the reported cells are the identities of the reports and candidates in order of first
  appearance, and each cell counts the reports and candidates of its identity, names the first and the last
  frame that mentions it, gives a band exactly when the candidates that name one agree, and a median exactly
  when there is a plausible sample.\<close>
theorem result_exact:
  "\<exists>res. result p = Some res \<and>
     list_all2 (\<lambda>k c. cell_identity c = key_identity k \<and>
         cell_describes c (filter (\<lambda>x. item_key x = k) (items_of (correlateNRReports_svc p))))
       (nub [] (map item_key (items_of (correlateNRReports_svc p)))) (nr_Neighbors res)"
  using result_describes [of p] by blast

text \<open>C26: The reducer's record tables mirror the service's, as its comment claims: for every hash and every argument list
  the candidate decoders return the same record and verdict, the NR layouts are the same, an LTE record the
  reducer counts as valid is reported by the service with the same fields, and one the service reports is
  recognised by the reducer with the same fields.  The join of NR reports with candidates is the same
  function in both parsers.\<close>
theorem reducer_mirrors_service:
  "decodeQSHCandidate h words = map_option (map_prod qsh_candidate id) (decodeQMDLCandidate h words) \<and>
   nrReportSpec h = qmdlNRReportSpec h \<and>
   (\<exists>r rec valid r' ok. decodeQSHLTEReport h words = Some (r, rec, valid) \<and> decodeQMDLLTEReport h words = Some (r', ok) \<and>
      (valid \<longrightarrow> ok) \<and> (ok \<longrightarrow> rec \<and> qsh_report r' = r)) \<and>
   map qsh_report (qp_reports (correlateNRReports_svc p)) =
     map (correlate_report (map qsh_candidate (qp_candidates p))) (map qsh_report (qp_reports p))"
proof -
  obtain r rec valid where d: "decodeQSHLTEReport h words = Some (r, rec, valid)" using decodeQSHLTEReport_total by (metis surj_pair)
  from decode_lte_agree [OF d] obtain r' ok where "decodeQMDLLTEReport h words = Some (r', ok)" "valid \<longrightarrow> ok" "ok \<longrightarrow> rec \<and> qsh_report r' = r"
    by metis
  with d show ?thesis using decode_candidate_agree [of h words] by (simp add: shared_helpers correlateNRReports_svc_def correlate_agree)
qed

theorem reducer_mirrors_service_witness:
  "\<exists>r. decodeQMDLLTEReport 0xd8fe54a0 [1300, 77, 0xffffffa1, 0xffffff92] = Some (r, True) \<and>
     qsh_report r = zero_report\<lparr>qr_rat := 1, qr_pci := 77, qr_arfcn := 1300, qr_rsrp := - 95, qr_direct := True\<rparr>"
  using reducer_mirrors_service [of "0xd8fe54a0" "[1300, 77, 0xffffffa1, 0xffffff92]", THEN conjunct2, THEN conjunct2, THEN conjunct1]
  unfolding sample_decode by auto

end
