(* ===== verification/Go_Floats.thy ===== *)
theory Go_Floats
  imports Go_Strings Float64
begin

text \<open>
  \<^verbatim>\<open>strconv.ParseFloat(s, 64)\<close> and \<^verbatim>\<open>strconv.FormatFloat(f, 'f', -1, 64)\<close>.  The parser takes the decimal forms (sign,
  digits, fraction, exponent) and the names of infinity and NaN; hexadecimal mantissas and digit
  separators, which no interface of the program produces, are rejected here.  The printer emits the
  shortest decimal that reads back as the same double.
\<close>

datatype gofloat = Fin rat | Inf bool | NaN

definition strip_sign :: "string \<Rightarrow> bool \<times> string" where
  "strip_sign s = (case s of [] \<Rightarrow> (False, [])
     | c # r \<Rightarrow> if c = CHR ''-'' then (True, r) else if c = CHR ''+'' then (False, r) else (False, s))"

definition parse_exponent :: "string \<Rightarrow> int option" where
  "parse_exponent s = (case s of
     [] \<Rightarrow> Some 0
   | c # r \<Rightarrow>
       if c = CHR ''e'' \<or> c = CHR ''E'' then
         (let (neg, ds) = strip_sign r in
          if all_digits ds then Some (if neg then - int (digits_value ds) else int (digits_value ds)) else None)
       else None)"

definition pow10 :: "int \<Rightarrow> rat" where
  "pow10 e = (if 0 \<le> e then 10 ^ nat e else 1 / 10 ^ nat (- e))"

definition parse_decimal :: "string \<Rightarrow> rat option" where
  "parse_decimal s =
     (let ip = takeWhile is_digit s; r1 = dropWhile is_digit s;
          dot = (r1 \<noteq> [] \<and> hd r1 = CHR ''.'');
          fp = (if dot then takeWhile is_digit (tl r1) else []);
          r2 = (if dot then dropWhile is_digit (tl r1) else r1)
      in if ip = [] \<and> fp = [] then None
         else do {
           e \<leftarrow> parse_exponent r2;
           Some (of_nat (digits_value (ip @ fp)) * pow10 (e - int (length fp))) })"

definition ParseFloat :: "string \<Rightarrow> gofloat option" where
  "ParseFloat s =
     (let (neg, body) = strip_sign s; l = ToLower body in
      if l = ''inf'' \<or> l = ''infinity'' then Some (Inf neg)
      else if ToLower s = ''nan'' then Some NaN
      else do {
        v \<leftarrow> parse_decimal body;
        let x = fl (if neg then - v else v);
        if exp2 1024 \<le> \<bar>x\<bar> then None else Some (Fin x) })"

section \<open>Printing\<close>

text \<open>The decimal exponent of a positive rational, by search from the digits of its integer part.\<close>

fun scale_down :: "nat \<Rightarrow> rat \<Rightarrow> int \<Rightarrow> int" where
  "scale_down 0 x p = p"
| "scale_down (Suc k) x p = (if pow10 p \<le> x then p else scale_down k x (p - 1))"

definition ilog10 :: "rat \<Rightarrow> int" where
  "ilog10 x = (if 1 \<le> x then int (length (utoa (nat \<lfloor>x\<rfloor>))) - 1 else scale_down 400 x (- 1))"

text \<open>The first of 1 to 17 digits whose nearest decimal reads back: the digits and the exponent of the last one.\<close>

fun shortest :: "nat \<Rightarrow> nat \<Rightarrow> rat \<Rightarrow> nat \<times> int" where
  "shortest 0 n x = (nat (round_half_even (x / pow10 (ilog10 x - 16))), ilog10 x - 16)"
| "shortest (Suc k) n x =
     (let e = ilog10 x - int n + 1; m = round_half_even (x / pow10 e)
      in if fl (of_int m * pow10 e) = x then (nat m, e) else shortest k (n + 1) x)"

definition pad_left :: "nat \<Rightarrow> string \<Rightarrow> string" where
  "pad_left n s = replicate (n - length s) (CHR ''0'') @ s"

definition format_digits :: "nat \<Rightarrow> int \<Rightarrow> string" where
  "format_digits m e =
     (if 0 \<le> e then utoa (m * 10 ^ nat e)
      else let k = nat (- e) in utoa (m div 10 ^ k) @ ''.'' @ pad_left k (utoa (m mod 10 ^ k)))"

definition FormatFloat :: "gofloat \<Rightarrow> string" where
  "FormatFloat f = (case f of
     NaN \<Rightarrow> ''NaN''
   | Inf neg \<Rightarrow> (if neg then ''-Inf'' else ''+Inf'')
   | Fin x \<Rightarrow>
       if x = 0 then ''0''
       else let (m, e) = shortest 16 1 \<bar>x\<bar> in (if x < 0 then ''-'' else '''') @ format_digits m e)"

section \<open>Integers print and parse as expected\<close>

lemma takeWhile_digits: "all_digits s \<Longrightarrow> takeWhile is_digit s = s" "all_digits s \<Longrightarrow> dropWhile is_digit s = []"
  by (auto simp: all_digits_def list_all_iff)

lemma parse_decimal_digits: "all_digits s \<Longrightarrow> parse_decimal s = Some (of_nat (digits_value s))"
  by (simp add: parse_decimal_def takeWhile_digits parse_exponent_def pow10_def all_digits_def)

lemma digits_not_named: "all_digits s \<Longrightarrow> ToLower s \<noteq> ''inf'' \<and> ToLower s \<noteq> ''infinity'' \<and> ToLower s \<noteq> ''nan''"
  by (cases s) (auto simp: all_digits_def ToLower_def lower_char_def is_digit_def is_upper_def code_def)

lemma ParseFloat_Itoa:
  assumes "\<bar>i\<bar> < 2 ^ 53"
  shows "ParseFloat (Itoa i) = Some (Fin (of_int i))"
proof -
  have big: "\<not> exp2 1024 \<le> \<bar>of_int i :: rat\<bar>"
  proof -
    have "(of_int \<bar>i\<bar> :: rat) < of_int (2 ^ 53)" using assms by (simp only: of_int_less_iff)
    moreover have "exp2 53 \<le> exp2 1024" by (rule exp2_mono) simp
    ultimately show ?thesis by (simp add: exp2_def)
  qed
  have named: "ToLower (CHR ''-'' # s) \<noteq> ''nan''" for s
    by (simp add: ToLower_def lower_char_def is_upper_def code_def)
  obtain c r where cr: "utoa (nat i) = c # r" "is_digit c"
    using utoa_digits [of "nat i"] by (cases "utoa (nat i)") (auto simp: all_digits_def)
  have plain: "strip_sign (utoa (nat i)) = (False, utoa (nat i))"
    using digit_not_sign [OF cr(2)] by (simp add: cr(1) strip_sign_def)
  have neg: "strip_sign (CHR ''-'' # s) = (True, s)" for s by (simp add: strip_sign_def)
  show ?thesis
  proof (cases "i < 0")
    case True
    have "(- of_nat (nat (- i)) :: rat) = of_int i" using True by simp
    with True big named fl_of_int [OF assms] show ?thesis
      by (simp add: ParseFloat_def Itoa_def neg digits_not_named [OF utoa_digits] parse_decimal_digits [OF utoa_digits])
  next
    case False
    have "(of_nat (nat i) :: rat) = of_int i" using False by simp
    with False big fl_of_int [OF assms] show ?thesis
      by (simp add: ParseFloat_def Itoa_def plain digits_not_named [OF utoa_digits] parse_decimal_digits [OF utoa_digits])
  qed
qed

end
