(* ===== verification/Neighbor_Cell.thy ===== *)
theory Neighbor_Cell
  imports Neighbor_Qmdl Go_Floats
begin

text \<open>
  The neighbour-cell answer of the web service (\<^verbatim>\<open>gossh/app/service/neighbor_cell.go\<close>, the pure part): reading the
  network snapshot that \<^verbatim>\<open>ubus\<close> returns, deriving serving and carrier-aggregation cells from it, and merging it
  with what the QMDL parser found.

  A snapshot is a map from field names to JSON values.  A value \<^verbatim>\<open>fmt.Sprint\<close> would print (an array or an
  object) is represented by that text.
\<close>

section \<open>Data\<close>

record NeighborCell =
  nc_RAT :: string
  nc_PCI :: int
  nc_ARFCN :: "int option"
  nc_Band :: "int option"
  nc_Samples :: int
  nc_DirectHits :: int
  nc_FirstSeq :: int
  nc_LastSeq :: int
  nc_RSRPMedian :: "gofloat option"
  nc_PlausibleSamples :: int
  nc_RSRQ :: "gofloat option"
  nc_SINR :: "gofloat option"
  nc_Bandwidth :: string

record NeighborCellResult =
  rc_Engine :: string
  rc_Version :: string
  rc_Source :: string
  rc_Frames :: int
  rc_Malformed :: int
  rc_Serving :: "NeighborCell list"
  rc_Neighbors :: "NeighborCell list"
  rc_NetworkType :: string
  rc_NetworkProvider :: string
  rc_Warning :: string

definition zero_cell :: NeighborCell where
  "zero_cell = \<lparr>nc_RAT = [], nc_PCI = 0, nc_ARFCN = None, nc_Band = None, nc_Samples = 0, nc_DirectHits = 0,
     nc_FirstSeq = 0, nc_LastSeq = 0, nc_RSRPMedian = None, nc_PlausibleSamples = 0, nc_RSRQ = None, nc_SINR = None,
     nc_Bandwidth = []\<rparr>"

definition zero_result :: NeighborCellResult where
  "zero_result = \<lparr>rc_Engine = [], rc_Version = [], rc_Source = [], rc_Frames = 0, rc_Malformed = 0, rc_Serving = [],
     rc_Neighbors = [], rc_NetworkType = [], rc_NetworkProvider = [], rc_Warning = []\<rparr>"

datatype json_value = JString string | JNumber string | JFloat gofloat | JBool bool | JOther string | JNull

type_synonym neighborUbusSnapshot = "string \<rightharpoonup> json_value"

definition snapshot_text :: "neighborUbusSnapshot \<Rightarrow> string \<Rightarrow> string" where
  "snapshot_text snapshot key =
     (case snapshot key of
        None \<Rightarrow> []
      | Some JNull \<Rightarrow> []
      | Some (JString typed) \<Rightarrow> TrimSpace typed
      | Some (JNumber typed) \<Rightarrow> typed
      | Some (JFloat typed) \<Rightarrow> FormatFloat typed
      | Some (JBool typed) \<Rightarrow> (if typed then ''true'' else ''false'')
      | Some (JOther typed) \<Rightarrow> TrimSpace typed)"

section \<open>Scalars\<close>

definition isEmptyNeighborValue :: "string \<Rightarrow> bool" where
  "isEmptyNeighborValue v \<longleftrightarrow>
     ToUpper (TrimSpace v) \<in> {'''', ''-'', ''--'', ''N/A'', ''NA'', ''NULL'', ''UNKNOWN''}"

text \<open>The value \<^verbatim>\<open>strconv.Atoi\<close> returns beside an error is never used by the callers; \<open>0\<close> stands for it here.\<close>

definition optionalInt :: "string \<Rightarrow> int \<times> bool" where
  "optionalInt v =
     (let v = TrimSpace v in
      if isEmptyNeighborValue v then (0, False)
      else (case Atoi v of Some i \<Rightarrow> (i, True) | None \<Rightarrow> (0, False)))"

definition optionalFloatPtr :: "string \<Rightarrow> gofloat option" where
  "optionalFloatPtr v =
     (let v = TrimSpace v in
      if isEmptyNeighborValue v then None
      else let v = (case Fields v of f # _ \<Rightarrow> f | [] \<Rightarrow> v) in ParseFloat v)"

definition pointerIf :: "int \<Rightarrow> bool \<Rightarrow> int option" where
  "pointerIf v ok = (if \<not> ok then None else Some v)"

definition sameOptionalInt :: "int option \<Rightarrow> int option \<Rightarrow> bool" where
  "sameOptionalInt left right =
     (if left = None \<or> right = None then left = None \<and> right = None else the left = the right)"

definition replace_separators :: "string \<Rightarrow> string" where
  "replace_separators s = map (\<lambda>c. if c = CHR ''_'' \<or> c = CHR ''-'' then CHR '' '' else c) s"

definition parseNeighborBand :: "string \<Rightarrow> int \<times> bool" where
  "parseNeighborBand v =
     (let v = ToUpper (TrimSpace v);
          v = replace_separators v;
          v = Join (Fields v) '' '';
          v = foldl TrimPrefix v [''LTE BAND '', ''NR BAND '', ''BAND '', ''LTE '', ''NR ''];
          v = TrimSpace v;
          v = (case v of c # r \<Rightarrow> if r \<noteq> [] \<and> (c = CHR ''B'' \<or> c = CHR ''N'') then TrimSpace r else v | [] \<Rightarrow> v)
      in optionalInt v)"

definition splitNeighborFields :: "string \<Rightarrow> string list" where
  "splitNeighborFields v = map TrimSpace (split_on (CHR '','') v)"

section \<open>Cells of the snapshot\<close>

text \<open>The first field list with a non-empty fifth field.\<close>

fun first_bandwidth :: "string list \<Rightarrow> string" where
  "first_bandwidth [] = []"
| "first_bandwidth (item # items) =
     (let fields = splitNeighborFields item in
      if length fields \<ge> 5 \<and> fields ! 4 \<noteq> [] then fields ! 4 else first_bandwidth items)"

definition lteBandwidthFromCA :: "string \<Rightarrow> string" where
  "lteBandwidthFromCA v = first_bandwidth (split_on (CHR '';'') v)"

definition currentLTECell :: "neighborUbusSnapshot \<Rightarrow> NeighborCell \<times> bool" where
  "currentLTECell snapshot =
     (let (pci, ok) = optionalInt (snapshot_text snapshot ''lte_pci'') in
      if \<not> ok \<or> pci < 0 \<or> pci > 503 then (zero_cell, False)
      else let (band, bandOK) = parseNeighborBand (snapshot_text snapshot ''wan_active_band'');
               (arfcn, arfcnOK) = optionalInt (snapshot_text snapshot ''wan_active_channel'')
           in (zero_cell\<lparr>nc_RAT := ''LTE'', nc_PCI := pci, nc_ARFCN := pointerIf arfcn arfcnOK,
                nc_Band := pointerIf band bandOK, nc_Samples := 1,
                nc_RSRPMedian := optionalFloatPtr (snapshot_text snapshot ''lte_rsrp''),
                nc_RSRQ := optionalFloatPtr (snapshot_text snapshot ''lte_rsrq''),
                nc_SINR := optionalFloatPtr (snapshot_text snapshot ''lte_snr''),
                nc_Bandwidth := lteBandwidthFromCA (snapshot_text snapshot ''lteca'')\<rparr>, True))"

definition currentNRCell :: "neighborUbusSnapshot \<Rightarrow> NeighborCell \<times> bool" where
  "currentNRCell snapshot =
     (let (pci, ok) = optionalInt (snapshot_text snapshot ''nr5g_pci'') in
      if \<not> ok \<or> pci < 0 \<or> pci > 1007 then (zero_cell, False)
      else let bandText = snapshot_text snapshot ''nr5g_action_band'';
               bandText = (if bandText = [] then snapshot_text snapshot ''wan_active_band'' else bandText);
               (band, bandOK) = parseNeighborBand bandText;
               (arfcn, arfcnOK) = optionalInt (snapshot_text snapshot ''nr5g_action_channel'')
           in (zero_cell\<lparr>nc_RAT := ''NR'', nc_PCI := pci, nc_ARFCN := pointerIf arfcn arfcnOK,
                nc_Band := pointerIf band bandOK, nc_Samples := 1,
                nc_RSRPMedian := optionalFloatPtr (snapshot_text snapshot ''nr5g_rsrp''),
                nc_RSRQ := optionalFloatPtr (snapshot_text snapshot ''nr5g_rsrq''),
                nc_SINR := optionalFloatPtr (snapshot_text snapshot ''nr5g_snr''),
                nc_Bandwidth := snapshot_text snapshot ''nr5g_bandwidth''\<rparr>, True))"

definition lteca_item :: "NeighborCell \<Rightarrow> string \<Rightarrow> NeighborCell list" where
  "lteca_item serving item =
     (let fields = splitNeighborFields item in
      if length fields < 5 then []
      else let (pci, pciOK) = optionalInt (fields ! 0);
               (band, bandOK) = parseNeighborBand (fields ! 1);
               (arfcn, arfcnOK) = optionalInt (fields ! 3)
           in if \<not> pciOK \<or> pci < 0 \<or> pci > 503 then []
              else if pci = nc_PCI serving \<and> sameOptionalInt (pointerIf arfcn arfcnOK) (nc_ARFCN serving) then []
              else [zero_cell\<lparr>nc_RAT := ''LTE'', nc_PCI := pci, nc_Band := pointerIf band bandOK,
                      nc_ARFCN := pointerIf arfcn arfcnOK, nc_Bandwidth := fields ! 4, nc_Samples := 1\<rparr>])"

definition parseLTECA :: "string \<Rightarrow> NeighborCell \<Rightarrow> NeighborCell list" where
  "parseLTECA v serving = concat (map (lteca_item serving) (split_on (CHR '';'') v))"

definition nrca_item :: "string \<Rightarrow> NeighborCell list" where
  "nrca_item item =
     (let fields = splitNeighborFields item in
      if length fields < 11 then []
      else let (pci, pciOK) = optionalInt (fields ! 1);
               (band, bandOK) = parseNeighborBand (fields ! 3);
               (arfcn, arfcnOK) = optionalInt (fields ! 4)
           in if \<not> pciOK \<or> pci < 0 \<or> pci > 1007 then []
              else [zero_cell\<lparr>nc_RAT := ''NR'', nc_PCI := pci, nc_Band := pointerIf band bandOK,
                      nc_ARFCN := pointerIf arfcn arfcnOK, nc_Bandwidth := fields ! 5,
                      nc_RSRPMedian := optionalFloatPtr (fields ! 7), nc_SINR := optionalFloatPtr (fields ! 9),
                      nc_Samples := 1\<rparr>])"

definition parseNRCA :: "string \<Rightarrow> NeighborCell list" where
  "parseNRCA v = concat (map nrca_item (split_on (CHR '';'') v))"

text \<open>Which technologies the snapshot is about: \<^verbatim>\<open>(isLTE, isNR)\<close>.\<close>

definition snapshot_modes :: "neighborUbusSnapshot \<Rightarrow> bool \<times> bool" where
  "snapshot_modes snapshot =
     (let mode = ToUpper (snapshot_text snapshot ''network_type'');
          isNSA = (Contains mode ''NSA'' \<or> Contains mode ''ENDC'');
          isNR = (isNSA \<or> Contains mode ''5G'' \<or> Contains mode ''NR'' \<or> Contains mode ''SA'');
          isLTE = (isNSA \<or> Contains mode ''LTE'' \<or> Contains mode ''4G'')
      in if \<not> isLTE \<and> \<not> isNR
         then (snapshot_text snapshot ''lte_pci'' \<noteq> [], snapshot_text snapshot ''nr5g_pci'' \<noteq> [])
         else (isLTE, isNR))"

definition neighborResultFromUbus :: "neighborUbusSnapshot \<Rightarrow> NeighborCellResult" where
  "neighborResultFromUbus snapshot =
     (let result = zero_result\<lparr>rc_Engine := ''ubus'', rc_Version := ''native'', rc_Source := ''ubus'',
            rc_NetworkType := snapshot_text snapshot ''network_type'',
            rc_NetworkProvider := snapshot_text snapshot ''network_provider''\<rparr>;
          (isLTE, isNR) = snapshot_modes snapshot;
          result =
            (if isLTE then
               (let (cell, ok) = currentLTECell snapshot in
                if ok then result\<lparr>rc_Serving := rc_Serving result @ [cell],
                       rc_Neighbors := rc_Neighbors result @ parseLTECA (snapshot_text snapshot ''lteca'') cell\<rparr>
                else result)
             else result)
      in if isNR then
           (let (cell, ok) = currentNRCell snapshot;
                result = (if ok then result\<lparr>rc_Serving := rc_Serving result @ [cell]\<rparr> else result)
            in result\<lparr>rc_Neighbors := rc_Neighbors result @ parseNRCA (snapshot_text snapshot ''nrca'')\<rparr>)
         else result)"

section \<open>Merging with the parser's result\<close>

definition isCurrentServingCell :: "NeighborCell \<Rightarrow> NeighborCell list \<Rightarrow> bool" where
  "isCurrentServingCell candidate serving =
     list_ex (\<lambda>cell. EqualFold (nc_RAT cell) (nc_RAT candidate) \<and> nc_PCI cell = nc_PCI candidate \<and>
        sameOptionalInt (nc_ARFCN cell) (nc_ARFCN candidate)) serving"

fun matchServingCell :: "int \<Rightarrow> int option \<Rightarrow> NeighborCell list \<Rightarrow> NeighborCell \<times> bool" where
  "matchServingCell pci arfcn [] = (zero_cell, False)"
| "matchServingCell pci arfcn (cell # cells) =
     (if nc_PCI cell = pci \<and> (arfcn = None \<or> nc_ARFCN cell = None \<or> the arfcn = the (nc_ARFCN cell)) then (cell, True)
      else matchServingCell pci arfcn cells)"

definition appendUniqueNeighborCell :: "NeighborCell list \<Rightarrow> NeighborCell \<Rightarrow> NeighborCell list" where
  "appendUniqueNeighborCell cells candidate =
     (if list_ex (\<lambda>cell. nc_RAT cell = nc_RAT candidate \<and> nc_PCI cell = nc_PCI candidate \<and>
           sameOptionalInt (nc_ARFCN cell) (nc_ARFCN candidate)) cells
      then cells else cells @ [candidate])"

definition inferNativeRAT :: "int \<Rightarrow> int option \<Rightarrow> string \<Rightarrow> string" where
  "inferNativeRAT pci arfcn networkType =
     (if pci > 503 then ''NR''
      else if arfcn \<noteq> None \<and> the arfcn > 262143 then ''NR''
      else let mode = ToUpper networkType in
        if Contains mode ''NSA'' \<or> Contains mode ''ENDC'' \<or> Contains mode ''5G'' \<or> Contains mode ''NR'' \<or> Contains mode ''SA''
        then ''NR'' else ''LTE'')"

fun bandForRAT :: "string \<Rightarrow> NeighborCell list \<Rightarrow> int option" where
  "bandForRAT rat [] = None"
| "bandForRAT rat (cell # cells) =
     (if nc_RAT cell = rat \<and> nc_Band cell \<noteq> None then nc_Band cell else bandForRAT rat cells)"

definition adapt_serving :: "string \<Rightarrow> NeighborCell list \<Rightarrow> nativeServingCell \<Rightarrow> NeighborCell" where
  "adapt_serving networkType ubusServing raw =
     (let (cell, found) = matchServingCell (ns_PCI raw) (ns_ARFCN raw) ubusServing;
          cell = (if \<not> found
                  then let rat = inferNativeRAT (ns_PCI raw) (ns_ARFCN raw) networkType in
                       zero_cell\<lparr>nc_RAT := rat, nc_PCI := ns_PCI raw, nc_ARFCN := ns_ARFCN raw,
                         nc_Band := bandForRAT rat ubusServing\<rparr>
                  else cell)
      in cell\<lparr>nc_Samples := 1, nc_RSRPMedian := map_option Fin (ns_RSRPDBM raw),
              nc_RSRQ := map_option Fin (ns_RSRQDB raw), nc_SINR := map_option Fin (ns_SINRDB raw)\<rparr>)"

definition adapt_neighbor :: "string \<Rightarrow> nativeNeighborCell \<Rightarrow> NeighborCell" where
  "adapt_neighbor networkType raw =
     (let rat = ToUpper (TrimSpace (nn_RAT raw));
          rat = (if rat = [] then inferNativeRAT (nn_PCI raw) (nn_ARFCN raw) networkType else rat)
      in zero_cell\<lparr>nc_RAT := rat, nc_PCI := nn_PCI raw, nc_ARFCN := nn_ARFCN raw, nc_Band := nn_Band raw,
           nc_Samples := nn_Samples raw, nc_DirectHits := nn_DirectHits raw, nc_FirstSeq := nn_FirstSeq raw,
           nc_LastSeq := nn_LastSeq raw, nc_RSRPMedian := map_option Fin (nn_RSRPMedian raw),
           nc_PlausibleSamples := nn_PlausibleSamples raw\<rparr>)"

definition add_neighbor :: "string \<Rightarrow> NeighborCell list \<Rightarrow> NeighborCell list \<Rightarrow> nativeNeighborCell \<Rightarrow> NeighborCell list" where
  "add_neighbor networkType serving cells raw =
     (let cell = adapt_neighbor networkType raw in
      if isCurrentServingCell cell serving then cells else appendUniqueNeighborCell cells cell)"

definition adaptNativeNeighborResult :: "nativeNeighborResult \<Rightarrow> neighborUbusSnapshot \<Rightarrow> NeighborCellResult" where
  "adaptNativeNeighborResult native snapshot =
     (let ubus = neighborResultFromUbus snapshot;
          networkType = rc_NetworkType ubus;
          serving = foldl (\<lambda>cells raw. appendUniqueNeighborCell cells (adapt_serving networkType (rc_Serving ubus) raw))
                      [] (nr_Serving native);
          serving = foldl appendUniqueNeighborCell serving (rc_Serving ubus);
          neighbors = foldl (add_neighbor networkType serving) [] (nr_Neighbors native)
      in zero_result\<lparr>rc_Engine := nr_Engine native, rc_Version := nr_Version native, rc_Source := ''parser'',
           rc_Frames := nr_Frames native, rc_Malformed := nr_Malformed native, rc_Serving := serving,
           rc_Neighbors := neighbors, rc_NetworkType := networkType, rc_NetworkProvider := rc_NetworkProvider ubus\<rparr>)"

section \<open>Identities\<close>

definition cell_id :: "NeighborCell \<Rightarrow> string \<times> int \<times> int option" where
  "cell_id c = (nc_RAT c, nc_PCI c, nc_ARFCN c)"

lemma sameOptionalInt_iff [simp]: "sameOptionalInt a b \<longleftrightarrow> a = b"
  by (cases a; cases b) (simp_all add: sameOptionalInt_def)

lemma append_unique_id:
  "appendUniqueNeighborCell cells c = (if cell_id c \<in> cell_id ` set cells then cells else cells @ [c])"
  by (auto simp: appendUniqueNeighborCell_def cell_id_def list_ex_iff image_iff) metis

lemma append_unique_ids [simp]: "cell_id ` set (appendUniqueNeighborCell cells c) = insert (cell_id c) (cell_id ` set cells)"
  by (auto simp: append_unique_id)

lemma append_unique_distinct: "distinct (map cell_id cells) \<Longrightarrow> distinct (map cell_id (appendUniqueNeighborCell cells c))"
  by (auto simp: append_unique_id)

lemma append_unique_subset: "set (appendUniqueNeighborCell cells c) \<subseteq> insert c (set cells)"
  by (auto simp: append_unique_id)

lemma fold_unique:
  assumes "distinct (map cell_id cells)"
  shows "distinct (map cell_id (foldl (\<lambda>cs x. appendUniqueNeighborCell cs (f x)) cells xs)) \<and>
    cell_id ` set (foldl (\<lambda>cs x. appendUniqueNeighborCell cs (f x)) cells xs) = cell_id ` set cells \<union> (\<lambda>x. cell_id (f x)) ` set xs"
  using assms by (induction xs arbitrary: cells) (auto simp: append_unique_distinct)

lemma add_neighbor_fold:
  assumes "distinct (map cell_id cells)" and "\<forall>c\<in>set cells. \<not> isCurrentServingCell c serving"
  shows "distinct (map cell_id (foldl (add_neighbor nt serving) cells raws)) \<and>
    (\<forall>c\<in>set (foldl (add_neighbor nt serving) cells raws). \<not> isCurrentServingCell c serving) \<and>
    cell_id ` set (foldl (add_neighbor nt serving) cells raws) =
      cell_id ` set cells \<union> (\<lambda>r. cell_id (adapt_neighbor nt r)) ` {r \<in> set raws. \<not> isCurrentServingCell (adapt_neighbor nt r) serving}"
  using assms
proof (induction raws arbitrary: cells)
  case (Cons r raws)
  let ?c = "adapt_neighbor nt r"
  show ?case
  proof (cases "isCurrentServingCell ?c serving")
    case True
    then have "add_neighbor nt serving cells r = cells" by (simp add: add_neighbor_def)
    with True Cons show ?thesis by auto
  next
    case False
    then have eq: "add_neighbor nt serving cells r = appendUniqueNeighborCell cells ?c" by (simp add: add_neighbor_def)
    have "\<forall>c\<in>set (appendUniqueNeighborCell cells ?c). \<not> isCurrentServingCell c serving"
      using Cons.prems(2) False append_unique_subset [of cells ?c] by auto
    from Cons.IH [OF append_unique_distinct [OF Cons.prems(1)] this] False show ?thesis
      by (auto simp: eq)
  qed
qed simp

section \<open>Snapshot cells\<close>

lemma currentLTECell_ok:
  "currentLTECell s = (c, True) \<Longrightarrow> nc_RAT c = ''LTE'' \<and> 0 \<le> nc_PCI c \<and> nc_PCI c \<le> 503"
  by (auto simp: currentLTECell_def zero_cell_def Let_def split: prod.splits if_splits)

lemma currentNRCell_ok:
  "currentNRCell s = (c, True) \<Longrightarrow> nc_RAT c = ''NR'' \<and> 0 \<le> nc_PCI c \<and> nc_PCI c \<le> 1007"
  by (auto simp: currentNRCell_def zero_cell_def Let_def split: prod.splits if_splits)

lemma parseLTECA_ok:
  "c \<in> set (parseLTECA v serving) \<Longrightarrow>
   nc_RAT c = ''LTE'' \<and> 0 \<le> nc_PCI c \<and> nc_PCI c \<le> 503 \<and> (nc_PCI c, nc_ARFCN c) \<noteq> (nc_PCI serving, nc_ARFCN serving)"
  by (auto simp: parseLTECA_def lteca_item_def zero_cell_def Let_def split: prod.splits if_splits)

lemma parseNRCA_ok: "c \<in> set (parseNRCA v) \<Longrightarrow> nc_RAT c = ''NR'' \<and> 0 \<le> nc_PCI c \<and> nc_PCI c \<le> 1007"
  by (auto simp: parseNRCA_def nrca_item_def zero_cell_def Let_def split: prod.splits if_splits)

definition pci_ok :: "NeighborCell \<Rightarrow> bool" where
  "pci_ok c \<longleftrightarrow> nc_RAT c = ''LTE'' \<and> 0 \<le> nc_PCI c \<and> nc_PCI c \<le> 503 \<or> nc_RAT c = ''NR'' \<and> 0 \<le> nc_PCI c \<and> nc_PCI c \<le> 1007"

lemma ubus_serving:
  "rc_Serving (neighborResultFromUbus s) =
     (if fst (snapshot_modes s) \<and> snd (currentLTECell s) then [fst (currentLTECell s)] else []) @
     (if snd (snapshot_modes s) \<and> snd (currentNRCell s) then [fst (currentNRCell s)] else [])"
  by (simp add: neighborResultFromUbus_def Let_def split_beta zero_result_def)

lemma ubus_neighbors:
  "rc_Neighbors (neighborResultFromUbus s) =
     (if fst (snapshot_modes s) \<and> snd (currentLTECell s)
      then parseLTECA (snapshot_text s ''lteca'') (fst (currentLTECell s)) else []) @
     (if snd (snapshot_modes s) then parseNRCA (snapshot_text s ''nrca'') else [])"
  by (simp add: neighborResultFromUbus_def Let_def split_beta zero_result_def)

section \<open>Bands\<close>

lemma all_digits_chars: "all_digits s \<Longrightarrow> c \<in> set s \<Longrightarrow> is_digit c"
  by (auto simp: all_digits_def list_all_iff)

lemma digit_facts:
  assumes "is_digit c"
  shows "\<not> is_space c" "upper_char c = c" "c \<noteq> CHR ''_''" "c \<noteq> CHR ''-''" "c \<noteq> CHR '' ''" "c \<noteq> CHR ''B''" "c \<noteq> CHR ''N''" "c \<noteq> CHR ''L''"
  using assms by (auto simp: is_digit_def is_space_def upper_char_def is_lower_def code_def)

lemma TrimSpace_edges:
  assumes "s \<noteq> []" "\<not> is_space (hd s)" "\<not> is_space (last s)"
  shows "TrimSpace s = s"
proof -
  have "dropWhile is_space s = s" using assms(1,2) by (cases s) auto
  moreover have "dropWhile is_space (rev s) = rev s" using assms(1,3) by (cases s rule: rev_cases) auto
  ultimately show ?thesis by (simp add: TrimSpace_def TrimFunc_def TrimLeft_def TrimRight_def)
qed

lemma digits_no_space: "all_digits d \<Longrightarrow> CHR '' '' \<notin> set d"
  using all_digits_chars digit_facts(5) by blast

lemma digits_trim: "all_digits d \<Longrightarrow> TrimSpace d = d"
  by (rule TrimSpace_edges)
    (auto simp: all_digits_def list_all_iff dest: digit_facts(1) intro: hd_in_set last_in_set)

lemma digits_upper: "all_digits d \<Longrightarrow> ToUpper d = d"
  by (auto simp: ToUpper_def intro!: map_idI digit_facts(2) dest: all_digits_chars)

lemma digits_replace: "all_digits d \<Longrightarrow> replace_separators d = d"
  unfolding replace_separators_def by (rule map_idI) (metis all_digits_chars digit_facts(3,4))

lemma digits_not_empty_value: "all_digits d \<Longrightarrow> \<not> isEmptyNeighborValue d"
  using digits_trim [of d] digits_upper [of d]
  by (auto simp: isEmptyNeighborValue_def all_digits_def is_digit_def code_def)

lemma optionalInt_utoa: "n < 2 ^ 63 \<Longrightarrow> optionalInt (utoa n) = (int n, True)"
proof -
  assume n: "n < 2 ^ 63"
  then have "int n < 2 ^ 63" by simp
  then have "Atoi (utoa n) = Some (int n)" using Atoi_Itoa [of "int n"] by (simp add: Itoa_def)
  then show ?thesis
    by (simp add: optionalInt_def digits_trim [OF utoa_digits] digits_not_empty_value [OF utoa_digits])
qed

definition band_spellings :: "string list" where
  "band_spellings = ['''', ''B'', ''b'', ''N'', ''n'', ''BAND '', ''LTE '', ''NR '', ''LTE B'', ''NR N'', ''LTE BAND '', ''NR BAND '', ''lte_band_'', ''nr-band-'']"

lemma Fields_digits_tail:
  "all_digits d \<Longrightarrow> map (\<lambda>c. if is_space c then CHR '' '' else c) d = d"
  by (rule map_idI) (metis all_digits_chars digit_facts(1))

definition band_prefixes :: "string list" where
  "band_prefixes = ['''', ''B'', ''N'', ''BAND '', ''LTE '', ''NR '', ''LTE B'', ''NR N'', ''LTE BAND '', ''NR BAND '']"

lemma spelling_prefix: "p \<in> set band_spellings \<Longrightarrow> replace_separators (ToUpper p) \<in> set band_prefixes"
proof -
  have "list_all (\<lambda>p. List.member band_prefixes (replace_separators (ToUpper p))) band_spellings"
    by code_simp
  then show "p \<in> set band_spellings \<Longrightarrow> replace_separators (ToUpper p) \<in> set band_prefixes"
    by (auto simp: list_all_iff)
qed

lemma spelling_edges:
  assumes d: "all_digits d" and p: "p \<in> set band_spellings"
  shows "TrimSpace (p @ d) = p @ d"
proof (rule TrimSpace_edges)
  obtain x y where xy: "d = x # y" "is_digit x" using d by (cases d) (auto simp: all_digits_def)
  have "\<not> is_space (last d)" using d digit_facts(1) by (auto simp: all_digits_def list_all_iff)
  then show "\<not> is_space (last (p @ d))" using xy by simp
  show "\<not> is_space (hd (p @ d))"
    using p digit_facts(1) [OF xy(2)] by (auto simp: xy band_spellings_def is_space_def code_def)
  show "p @ d \<noteq> []" using xy by simp
qed

lemma prefix_joined:
  assumes d: "all_digits d" and u: "u \<in> set band_prefixes"
  shows "Join (Fields (u @ d)) '' '' = u @ d"
proof -
  have fs: "Fields (u @ d) = filter (\<lambda>f. f \<noteq> []) (split_on CHR '' '' (map (\<lambda>c. if is_space c then CHR '' '' else c) u @ d))"
    by (simp add: Fields_def Fields_digits_tail [OF d])
  have nos: "split_on CHR '' '' d = [d]" by (rule split_on_no_sep) (rule digits_no_space [OF d])
  have dne: "d \<noteq> []" using d by (simp add: all_digits_def)
  from u show ?thesis unfolding fs band_prefixes_def list.set
    by (elim insertE emptyE; simp add: is_space_def code_def nos dne)
qed

lemma prefix_stripped:
  assumes d: "all_digits d" and u: "u \<in> set band_prefixes"
  shows "foldl TrimPrefix (u @ d) [''LTE BAND '', ''NR BAND '', ''BAND '', ''LTE '', ''NR ''] \<in> {d, CHR ''B'' # d, CHR ''N'' # d}"
proof -
  obtain x y where xy: "d = x # y" "is_digit x" using d by (cases d) (auto simp: all_digits_def)
  have x: "x \<noteq> CHR ''L''" "x \<noteq> CHR ''N''" "x \<noteq> CHR ''B''" "x \<noteq> CHR ''A''" "x \<noteq> CHR ''R''"
    using xy(2) by (auto simp: is_digit_def code_def)
  from u show ?thesis unfolding xy band_prefixes_def list.set
    by (elim insertE emptyE; simp add: TrimPrefix_def HasPrefix_def x)
qed

lemma band_spelling_parsed:
  assumes d: "all_digits d" and p: "p \<in> set band_spellings"
  shows "parseNeighborBand (p @ d) = optionalInt d"
proof -
  let ?u = "replace_separators (ToUpper p)"
  let ?v = "foldl TrimPrefix (?u @ d) [''LTE BAND '', ''NR BAND '', ''BAND '', ''LTE '', ''NR '']"
  have up: "replace_separators (ToUpper (p @ d)) = ?u @ d"
    using digits_upper [OF d] digits_replace [OF d] by (simp add: ToUpper_def replace_separators_def)
  have v: "?v \<in> {d, CHR ''B'' # d, CHR ''N'' # d}" by (rule prefix_stripped [OF d spelling_prefix [OF p]])
  obtain x y where xy: "d = x # y" "is_digit x" using d by (cases d) (auto simp: all_digits_def)
  have "\<not> is_space CHR ''B''" "\<not> is_space CHR ''N''" "\<not> is_space (last d)"
    using d digit_facts(1) by (auto simp: is_space_def code_def all_digits_def list_all_iff)
  then have bn: "TrimSpace (CHR ''B'' # d) = CHR ''B'' # d" "TrimSpace (CHR ''N'' # d) = CHR ''N'' # d"
    using xy by (auto intro!: TrimSpace_edges)
  have "x \<noteq> CHR ''B''" "x \<noteq> CHR ''N''" using digit_facts(6,7) [OF xy(2)] by simp_all
  then have "(case TrimSpace ?v of c # r \<Rightarrow> if r \<noteq> [] \<and> (c = CHR ''B'' \<or> c = CHR ''N'') then TrimSpace r else TrimSpace ?v | [] \<Rightarrow> TrimSpace ?v) = d"
    using v bn digits_trim [OF d] xy by auto
  then show ?thesis
    unfolding parseNeighborBand_def spelling_edges [OF d p] up prefix_joined [OF d spelling_prefix [OF p]] Let_def by simp
qed

section \<open>Properties\<close>

text \<open>Merging the parser's result with the snapshot: no two serving cells and no two neighbours have the same
  technology, PCI and ARFCN; no neighbour is a serving cell; every serving cell of the snapshot and every
  neighbour the parser found that does not serve is in the answer.\<close>
theorem adaptNativeNeighborResult_cells:
  "distinct (map cell_id (rc_Serving (adaptNativeNeighborResult native snapshot))) \<and>
   distinct (map cell_id (rc_Neighbors (adaptNativeNeighborResult native snapshot))) \<and>
   list_all (\<lambda>c. \<not> isCurrentServingCell c (rc_Serving (adaptNativeNeighborResult native snapshot)))
     (rc_Neighbors (adaptNativeNeighborResult native snapshot)) \<and>
   cell_id ` set (rc_Serving (neighborResultFromUbus snapshot)) \<subseteq> cell_id ` set (rc_Serving (adaptNativeNeighborResult native snapshot)) \<and>
   cell_id ` set (rc_Neighbors (adaptNativeNeighborResult native snapshot)) =
     (\<lambda>r. cell_id (adapt_neighbor (snapshot_text snapshot ''network_type'') r)) `
       {r \<in> set (nr_Neighbors native).
         \<not> isCurrentServingCell (adapt_neighbor (snapshot_text snapshot ''network_type'') r) (rc_Serving (adaptNativeNeighborResult native snapshot))}"
proof -
  let ?u = "neighborResultFromUbus snapshot"
  let ?nt = "rc_NetworkType ?u"
  let ?s1 = "foldl (\<lambda>cells raw. appendUniqueNeighborCell cells (adapt_serving ?nt (rc_Serving ?u) raw)) [] (nr_Serving native)"
  let ?s2 = "foldl appendUniqueNeighborCell ?s1 (rc_Serving ?u)"
  let ?n = "foldl (add_neighbor ?nt ?s2) [] (nr_Neighbors native)"
  have nt: "?nt = snapshot_text snapshot ''network_type''"
    by (simp add: neighborResultFromUbus_def Let_def split_beta zero_result_def)
  have res: "rc_Serving (adaptNativeNeighborResult native snapshot) = ?s2" "rc_Neighbors (adaptNativeNeighborResult native snapshot) = ?n"
    by (simp_all add: adaptNativeNeighborResult_def Let_def)
  have "distinct (map cell_id ?s1)" by (rule fold_unique [THEN conjunct1]) simp
  from fold_unique [OF this, of "\<lambda>x. x" "rc_Serving ?u"]
  have "distinct (map cell_id ?s2)" "cell_id ` set (rc_Serving ?u) \<subseteq> cell_id ` set ?s2" by auto
  with add_neighbor_fold [of "[]" ?s2 ?nt "nr_Neighbors native"] show ?thesis
    unfolding res nt by (simp add: list_all_iff)
qed

text \<open>The snapshot's own cells: at most one LTE and one NR serving cell, every cell has a PCI of its technology, and no
  carrier-aggregation neighbour is the LTE serving cell.\<close>
theorem neighborResultFromUbus_cells:
  "length (rc_Serving (neighborResultFromUbus s)) \<le> 2 \<and> distinct (map nc_RAT (rc_Serving (neighborResultFromUbus s))) \<and>
   list_all pci_ok (rc_Serving (neighborResultFromUbus s) @ rc_Neighbors (neighborResultFromUbus s)) \<and>
   list_all (\<lambda>c. list_all (\<lambda>n. cell_id n \<noteq> cell_id c)
       (filter (\<lambda>n. nc_RAT n \<noteq> ''NR'') (rc_Neighbors (neighborResultFromUbus s))))
     (filter (\<lambda>c. nc_RAT c = ''LTE'') (rc_Serving (neighborResultFromUbus s)))"
proof -
  obtain l lok n nok where c: "currentLTECell s = (l, lok)" "currentNRCell s = (n, nok)" by fastforce
  have lte: "lok \<Longrightarrow> pci_ok l \<and> nc_RAT l = ''LTE''" and nr: "nok \<Longrightarrow> pci_ok n \<and> nc_RAT n = ''NR''"
    using currentLTECell_ok [of s l] currentNRCell_ok [of s n] c by (auto simp: pci_ok_def)
  have ca: "m \<in> set (parseLTECA v l) \<Longrightarrow> pci_ok m \<and> cell_id m \<noteq> cell_id l" for v m
    using parseLTECA_ok [of m v l] by (auto simp: pci_ok_def cell_id_def)
  have nca: "m \<in> set (parseNRCA v) \<Longrightarrow> pci_ok m \<and> nc_RAT m = ''NR''" for v m
    using parseNRCA_ok [of m v] by (auto simp: pci_ok_def)
  show ?thesis
    unfolding ubus_serving ubus_neighbors c fst_conv snd_conv using lte nr ca nca
    by (auto simp: list_all_iff)
qed

text \<open>Every spelling of a band the interfaces use (bare, with a B or an N, with LTE, NR or BAND, in any case and with
  underscores or hyphens for blanks) is read as its number.\<close>
theorem parseNeighborBand_spellings:
  assumes "p \<in> set band_spellings" and "n < 2 ^ 63"
  shows "parseNeighborBand (p @ utoa n) = (int n, True)"
  using band_spelling_parsed [OF utoa_digits assms(1)] optionalInt_utoa [OF assms(2)] by simp

theorem parseNeighborBand_spellings_witness:
  "parseNeighborBand (''lte_band_'' @ utoa 41) = (41, True)"
  using parseNeighborBand_spellings [of "''lte_band_''" 41] by (simp add: band_spellings_def)


end
