(* ===== verification/Go_Format.thy ===== *)
theory Go_Format
  imports Go_Strings
begin

text \<open>
  What the reducer uses of \<^verbatim>\<open>fmt\<close>, \<^verbatim>\<open>time\<close> and \<^verbatim>\<open>errors\<close>: padded decimal and hexadecimal numbers, quoted
  strings, durations in nanoseconds with the wrap-around of \<^verbatim>\<open>int64\<close>, and the two renderings of a UTC
  time.  An error is its text; \<open>None\<close> is \<^verbatim>\<open>nil\<close>.
\<close>

section \<open>Numbers\<close>

definition pad_zero :: "nat \<Rightarrow> string \<Rightarrow> string" where
  "pad_zero n s = replicate (n - length s) (CHR ''0'') @ s"

definition hex_digit :: "nat \<Rightarrow> char" where
  "hex_digit d = (if d < 10 then char_of (48 + d) else char_of (87 + d))"

fun hex :: "nat \<Rightarrow> string" where
  "hex n = (if n < 16 then [hex_digit n] else hex (n div 16) @ [hex_digit (n mod 16)])"

declare hex.simps [simp del]

definition FormatBool :: "bool \<Rightarrow> string" where
  "FormatBool b = (if b then ''true'' else ''false'')"

lemma utoa_inject [simp]: "utoa m = utoa n \<longleftrightarrow> m = n"
  by (metis digits_value_utoa)

lemma digits_value_pad: "digits_value (pad_zero k s) = digits_value s"
proof -
  have "foldl (\<lambda>acc c. 10 * acc + (code c - 48)) 0 (replicate n (CHR ''0'')) = (0::nat)" for n
    by (induction n) (simp_all add: code_def)
  then show ?thesis by (simp add: pad_zero_def digits_value_def)
qed

lemma pad_zero_utoa_inject: "pad_zero k (utoa m) = pad_zero k (utoa n) \<Longrightarrow> m = n"
  by (metis digits_value_pad digits_value_utoa)

section \<open>Durations\<close>

definition wrap64 :: "int \<Rightarrow> int" where
  "wrap64 x = (x + 2 ^ 63) mod 2 ^ 64 - 2 ^ 63"

text \<open>\<^verbatim>\<open>Duration.Milliseconds\<close> divides by a million, towards zero.\<close>

definition Millisecond :: int where "Millisecond = 1000000"
definition Second :: int where "Second = 1000000000"

definition Milliseconds :: "int \<Rightarrow> int" where
  "Milliseconds d = (if 0 \<le> d then d div Millisecond else - ((- d) div Millisecond))"

lemma wrap64_id: "- (2 ^ 63) \<le> x \<Longrightarrow> x < 2 ^ 63 \<Longrightarrow> wrap64 x = x"
  by (simp add: wrap64_def)

lemma Milliseconds_mono: "a \<le> b \<Longrightarrow> Milliseconds a \<le> Milliseconds b"
proof (cases "0 \<le> a")
  case False
  assume "a \<le> b"
  then have "0 \<le> b \<Longrightarrow> 0 \<le> (- a) div Millisecond + b div Millisecond"
    using False by (simp add: Millisecond_def pos_imp_zdiv_nonneg_iff)
  moreover have "\<not> 0 \<le> b \<Longrightarrow> (- b) div Millisecond \<le> (- a) div Millisecond"
    using \<open>a \<le> b\<close> by (simp add: Millisecond_def zdiv_mono1)
  ultimately show ?thesis using False by (auto simp: Milliseconds_def)
qed (simp add: Milliseconds_def Millisecond_def zdiv_mono1)

section \<open>Times\<close>

text \<open>A time is the number of nanoseconds since 1970-01-01 UTC.  The civil date of a day number, by eras of 400 years
  that begin on the first of March.\<close>

definition civil :: "int \<Rightarrow> int \<times> int \<times> int" where
  "civil days =
     (let z = days + 719468;
          era = z div 146097; doe = z mod 146097;
          yoe = (doe - doe div 1460 + doe div 36524 - doe div 146096) div 365;
          doy = doe - (365 * yoe + yoe div 4 - yoe div 100);
          mp = (5 * doy + 2) div 153;
          d = doy - (153 * mp + 2) div 5 + 1;
          m = (if mp < 10 then mp + 3 else mp - 9)
      in (yoe + era * 400 + (if m \<le> 2 then 1 else 0), m, d))"

definition two :: "int \<Rightarrow> string" where
  "two i = pad_zero 2 (Itoa i)"

definition clock :: "int \<Rightarrow> int \<times> int \<times> int" where
  "clock t = (let s = (t div Second) mod 86400 in (s div 3600, s div 60 mod 60, s mod 60))"

definition fraction :: "int \<Rightarrow> string" where
  "fraction t = pad_zero 9 (Itoa (t mod Second))"

text \<open>The layouts \<^verbatim>\<open>20060102T150405.000Z\<close> and \<^verbatim>\<open>RFC3339Nano\<close>; the second drops the trailing zeros of the fraction.\<close>

definition format_id :: "int \<Rightarrow> string" where
  "format_id t =
     (let (y, m, d) = civil (t div Second div 86400); (h, mi, s) = clock t
      in pad_zero 4 (Itoa y) @ two m @ two d @ ''T'' @ two h @ two mi @ two s @ ''.'' @ take 3 (fraction t) @ ''Z'')"

definition format_rfc3339nano :: "int \<Rightarrow> string" where
  "format_rfc3339nano t =
     (let (y, m, d) = civil (t div Second div 86400); (h, mi, s) = clock t;
          f = TrimRight (\<lambda>c. c = CHR ''0'') (fraction t)
      in pad_zero 4 (Itoa y) @ ''-'' @ two m @ ''-'' @ two d @ ''T'' @ two h @ '':'' @ two mi @ '':'' @ two s @
         (if f = [] then [] else ''.'' @ f) @ ''Z'')"

section \<open>Errors\<close>

type_synonym err = "string option"

text \<open>\<^verbatim>\<open>errors.Join\<close>: \<^verbatim>\<open>nil\<close> when both are, otherwise the texts of the others on lines of their own.\<close>

definition join_errors :: "err \<Rightarrow> err \<Rightarrow> err" where
  "join_errors a b =
     (case a of
        None \<Rightarrow> b
      | Some s \<Rightarrow> (case b of None \<Rightarrow> Some s | Some t \<Rightarrow> Some (s @ [CHR 0x0A] @ t)))"

definition wrap_error :: "string \<Rightarrow> err \<Rightarrow> err" where
  "wrap_error p e = map_option (\<lambda>s. p @ s) e"

lemma join_errors_None [simp]: "join_errors a b = None \<longleftrightarrow> a = None \<and> b = None"
  by (auto simp: join_errors_def split: option.splits)

lemma wrap_error_None [simp]: "wrap_error p e = None \<longleftrightarrow> e = None"
  by (simp add: wrap_error_def)

text \<open>\<^verbatim>\<open>%q\<close> on the printable ASCII strings a user types.\<close>

definition quote :: "string \<Rightarrow> string" where
  "quote s = [CHR 0x22] @ concat (map (\<lambda>c. if c = CHR 0x22 \<or> c = CHR 0x5C then [CHR 0x5C, c] else [c]) s) @ [CHR 0x22]"

end
