(* ===== verification/Go_Encoding.thy ===== *)
theory Go_Encoding
  imports Go_Format
begin

text \<open>
  What the probe uses of \<^verbatim>\<open>encoding/hex\<close>, \<^verbatim>\<open>encoding/base64\<close> and of \<^verbatim>\<open>strconv.ParseUint\<close> with base 0 (prefixes and
  underscores).  The two byte encodings are instances of the contract \<open>text_codec\<close>: decoding an encoded
  text gives the bytes back, so encoding loses nothing.
\<close>

section \<open>The contract of a text encoding\<close>

locale text_codec =
  fixes enc :: "byte list \<Rightarrow> string" and dec :: "string \<Rightarrow> 'e + byte list"
  assumes dec_enc: "dec (enc xs) = Inr xs"
begin

lemma enc_inject: "enc xs = enc ys \<longleftrightarrow> xs = ys"
  by (metis dec_enc sum.inject(2))

end

section \<open>Hexadecimal\<close>

definition hex_EncodeToString :: "byte list \<Rightarrow> string" where
  "hex_EncodeToString src = concat (map (\<lambda>b. [hex_digit (unat b div 16), hex_digit (unat b mod 16)]) src)"

definition from_hex_char :: "char \<Rightarrow> nat option" where
  "from_hex_char c =
     (if is_digit c then Some (code c - 48)
      else if 97 \<le> code c \<and> code c \<le> 102 then Some (code c - 87)
      else if 65 \<le> code c \<and> code c \<le> 70 then Some (code c - 55) else None)"

text \<open>\<^verbatim>\<open>%#U\<close> on a byte: the code point, and the character when it is printable.\<close>

definition sharp_U :: "char \<Rightarrow> string" where
  "sharp_U c =
     (let n = code c; digits = map (\<lambda>d. if is_lower d then upper_char d else d) (pad_zero 4 (hex n)) in
      ''U+'' @ digits @
      (if 32 \<le> n \<and> n \<le> 126 then '' '' @ [CHR 0x27, c, CHR 0x27]
       else if 161 \<le> n \<and> n \<noteq> 173 then '' '' @ [CHR 0x27, char_of (192 + n div 64), char_of (128 + n mod 64), CHR 0x27]
       else []))"

definition hex_invalid :: "char \<Rightarrow> string" where
  "hex_invalid c = ''encoding/hex: invalid byte: '' @ sharp_U c"

fun hex_DecodeString :: "string \<Rightarrow> string + byte list" where
  "hex_DecodeString [] = Inr []"
| "hex_DecodeString [p] = Inl (if from_hex_char p = None then hex_invalid p else ''encoding/hex: odd length hex string'')"
| "hex_DecodeString (p # q # rest) =
     (case from_hex_char p of None \<Rightarrow> Inl (hex_invalid p) | Some a \<Rightarrow>
     (case from_hex_char q of None \<Rightarrow> Inl (hex_invalid q) | Some b \<Rightarrow>
     (case hex_DecodeString rest of Inl e \<Rightarrow> Inl e | Inr bs \<Rightarrow> Inr (word_of_nat (16 * a + b) # bs))))"

lemma from_hex_digit [simp]: "d < 16 \<Longrightarrow> from_hex_char (hex_digit d) = Some d"
  by (auto simp: from_hex_char_def hex_digit_def is_digit_def)

lemma unat_byte: "unat (b :: byte) < 256"
  using unsigned_less [of b, where 'a = nat] by simp

lemma nibbles: "unat (b :: byte) div 16 < 16"
  using unat_byte [of b] by simp

lemma hex_decode_encode: "hex_DecodeString (hex_EncodeToString bs) = Inr bs"
proof (induction bs)
  case (Cons b bs)
  then show ?case by (simp add: hex_EncodeToString_def nibbles)
qed (simp add: hex_EncodeToString_def)

interpretation hex_codec: text_codec hex_EncodeToString hex_DecodeString
  by unfold_locales (rule hex_decode_encode)

lemma length_hex_decode: "hex_DecodeString s = Inr bs \<Longrightarrow> length s = 2 * length bs"
  by (induction s arbitrary: bs rule: hex_DecodeString.induct) (auto split: option.splits sum.splits)

section \<open>Base 64\<close>

definition b64_char :: "nat \<Rightarrow> char" where
  "b64_char n =
     (if n < 26 then char_of (65 + n) else if n < 52 then char_of (71 + n) else if n < 62 then char_of (n - 4)
      else if n = 62 then CHR ''+'' else CHR ''/'')"

definition b64_value :: "char \<Rightarrow> nat option" where
  "b64_value c =
     (if is_upper c then Some (code c - 65) else if is_lower c then Some (code c - 71)
      else if is_digit c then Some (code c + 4) else if c = CHR ''+'' then Some 62
      else if c = CHR ''/'' then Some 63 else None)"

fun b64_EncodeToString :: "byte list \<Rightarrow> string" where
  "b64_EncodeToString [] = []"
| "b64_EncodeToString [a] =
     (let x = unat a in [b64_char (x div 4), b64_char (x mod 4 * 16), CHR ''='', CHR ''=''])"
| "b64_EncodeToString [a, b] =
     (let x = unat a; y = unat b in
      [b64_char (x div 4), b64_char (x mod 4 * 16 + y div 16), b64_char (y mod 16 * 4), CHR ''=''])"
| "b64_EncodeToString (a # b # c # rest) =
     (let x = unat a; y = unat b; z = unat c in
      [b64_char (x div 4), b64_char (x mod 4 * 16 + y div 16), b64_char (y mod 16 * 4 + z div 64), b64_char (z mod 64)] @
      b64_EncodeToString rest)"

text \<open>The decoder skips line ends; padding only closes the last group.  \<open>Inl ()\<close> is the error of corrupt input.\<close>

fun b64_groups :: "string \<Rightarrow> unit + byte list" where
  "b64_groups [] = Inr []"
| "b64_groups (p # q # r # s # rest) =
     (case (b64_value p, b64_value q) of
        (Some a, Some b) \<Rightarrow>
          (case (b64_value r, b64_value s) of
             (Some c, Some d) \<Rightarrow>
               (case b64_groups rest of
                  Inl e \<Rightarrow> Inl e
                | Inr bs \<Rightarrow> Inr ([word_of_nat (a * 4 + b div 16), word_of_nat (b mod 16 * 16 + c div 4), word_of_nat (c mod 4 * 64 + d)] @ bs))
           | (Some c, None) \<Rightarrow>
               if s = CHR ''='' \<and> rest = [] then Inr [word_of_nat (a * 4 + b div 16), word_of_nat (b mod 16 * 16 + c div 4)] else Inl ()
           | _ \<Rightarrow> if r = CHR ''='' \<and> s = CHR ''='' \<and> rest = [] then Inr [word_of_nat (a * 4 + b div 16)] else Inl ())
      | _ \<Rightarrow> Inl ())"
| "b64_groups _ = Inl ()"

definition b64_DecodeString :: "string \<Rightarrow> unit + byte list" where
  "b64_DecodeString s = b64_groups (filter (\<lambda>c. code c \<noteq> 10 \<and> code c \<noteq> 13) s)"

lemma b64_value_char [simp]: "n < 64 \<Longrightarrow> b64_value (b64_char n) = Some n"
  by (auto simp: b64_value_def b64_char_def is_upper_def is_lower_def is_digit_def code_def)

lemma b64_char_code: "code (b64_char n) \<noteq> 10" "code (b64_char n) \<noteq> 13"
  by (auto simp: b64_char_def code_def)

lemma b64_filter:
  "filter (\<lambda>c. code c \<noteq> 10 \<and> code c \<noteq> 13) (b64_EncodeToString bs) = b64_EncodeToString bs"
proof -
  have "code c \<noteq> 10 \<and> code c \<noteq> 13" if "c \<in> set (b64_EncodeToString bs)" for c
    using that
    by (induction bs rule: b64_EncodeToString.induct) (auto simp: Let_def b64_char_code, auto simp: code_def)
  then show ?thesis by (simp add: filter_id_conv)
qed

lemma join_split:
  fixes r t k :: nat
  assumes "t < k"
  shows "(r * k + t) div k = r" "(r * k + t) mod k = t"
  using assms by simp_all

lemma byte_parts:
  fixes x y z :: nat
  assumes "x < 256" "y < 256" "z < 256"
  shows "x div 4 < 64" "x mod 4 * 16 + y div 16 < 64" "y mod 16 * 4 + z div 64 < 64" "z mod 64 < 64" "x mod 4 * 16 < 64" "y mod 16 * 4 < 64"
proof -
  have r: "x mod 4 < 4" "y mod 16 < 16" "y div 16 < 16" "z div 64 < 4" using assms by simp_all
  show "x div 4 < 64" "z mod 64 < 64" using assms by simp_all
  show "x mod 4 * 16 + y div 16 < 64" "y mod 16 * 4 + z div 64 < 64" "x mod 4 * 16 < 64" "y mod 16 * 4 < 64" using r by linarith+
qed

lemma b64_arith:
  fixes x y z :: nat
  assumes "x < 256" "y < 256" "z < 256"
  shows "x div 4 * 4 + (x mod 4 * 16 + y div 16) div 16 = x"
    "(x mod 4 * 16 + y div 16) mod 16 * 16 + (y mod 16 * 4 + z div 64) div 4 = y"
    "(y mod 16 * 4 + z div 64) mod 4 * 64 + z mod 64 = z"
    "x div 4 * 4 + (x mod 4 * 16) div 16 = x"
    "(x mod 4 * 16 + y div 16) mod 16 * 16 + (y mod 16 * 4) div 4 = y"
proof -
  have r: "y div 16 < 16" "z div 64 < 4" using assms by simp_all
  show "x div 4 * 4 + (x mod 4 * 16 + y div 16) div 16 = x" "x div 4 * 4 + (x mod 4 * 16) div 16 = x"
    using join_split(1) [OF r(1), of "x mod 4"] by simp_all
  show "(x mod 4 * 16 + y div 16) mod 16 * 16 + (y mod 16 * 4 + z div 64) div 4 = y"
    "(x mod 4 * 16 + y div 16) mod 16 * 16 + (y mod 16 * 4) div 4 = y"
    using join_split(2) [OF r(1), of "x mod 4"] join_split(1) [OF r(2), of "y mod 16"] by simp_all
  show "(y mod 16 * 4 + z div 64) mod 4 * 64 + z mod 64 = z"
    using join_split(2) [OF r(2), of "y mod 16"] by simp
qed

lemma b64_groups_encode: "b64_groups (b64_EncodeToString bs) = Inr bs"
proof (induction bs rule: b64_EncodeToString.induct)
  case (2 a)
  have "b64_value (CHR ''='') = None" by code_simp
  then show ?case using byte_parts [OF unat_byte [of a] unat_byte [of a] unat_byte [of a]]
      b64_arith [OF unat_byte [of a] unat_byte [of a] unat_byte [of a]]
    by (simp add: Let_def del: of_nat_add of_nat_mult)
next
  case (3 a b)
  have "b64_value (CHR ''='') = None" by code_simp
  then show ?case
    using byte_parts [OF unat_byte [of a] unat_byte [of b] unat_byte [of b]] b64_arith [OF unat_byte [of a] unat_byte [of b] unat_byte [of b]]
    by (simp add: Let_def del: of_nat_add of_nat_mult)
next
  case (4 a b c rest)
  then show ?case
    using byte_parts [OF unat_byte [of a] unat_byte [of b] unat_byte [of c]] b64_arith [OF unat_byte [of a] unat_byte [of b] unat_byte [of c]]
    by (simp add: Let_def del: of_nat_add of_nat_mult)
qed simp

interpretation b64_codec: text_codec b64_EncodeToString b64_DecodeString
  by unfold_locales (simp add: b64_DecodeString_def b64_filter b64_groups_encode)

lemma b64_Encode_Nil: "b64_EncodeToString bs = [] \<longleftrightarrow> bs = []"
  using b64_codec.enc_inject [of bs "[]"] by simp

section \<open>Unsigned numbers with a prefix\<close>

text \<open>\<^verbatim>\<open>strconv.ParseUint(s, 0, bits)\<close>; \<open>None\<close> is the error result.  First the value of a digit, the base that a prefix
  selects and the position of underscores.\<close>

definition digit_of :: "char \<Rightarrow> nat option" where
  "digit_of c =
     (if is_digit c then Some (code c - 48) else if is_lower (lower_char c) then Some (code (lower_char c) - 87) else None)"

definition base_prefix :: "string \<Rightarrow> nat \<times> string" where
  "base_prefix s =
     (case s of
        c # r \<Rightarrow>
          if c = CHR ''0'' then
            (case r of
               b # t \<Rightarrow>
                 if t \<noteq> [] \<and> lower_char b = CHR ''b'' then (2, t)
                 else if t \<noteq> [] \<and> lower_char b = CHR ''o'' then (8, t)
                 else if t \<noteq> [] \<and> lower_char b = CHR ''x'' then (16, t) else (8, r)
             | [] \<Rightarrow> (8, []))
          else (10, s)
      | [] \<Rightarrow> (10, []))"

text \<open>The loop over the digits: \<open>None\<close> at the first character that is none, or when the number exceeds its range.\<close>

fun digits_base :: "nat \<Rightarrow> nat \<Rightarrow> string \<Rightarrow> nat \<Rightarrow> nat option" where
  "digits_base base bits [] n = Some n"
| "digits_base base bits (c # s) n =
     (if c = CHR ''_'' then digits_base base bits s n
      else case digit_of c of
             None \<Rightarrow> None
           | Some d \<Rightarrow> if d \<ge> base \<or> n * base + d \<ge> 2 ^ bits then None else digits_base base bits s (n * base + d))"

datatype saw = SawStart | SawDigit | SawUnderscore | SawOther

fun underscore_step :: "bool \<Rightarrow> saw option \<Rightarrow> char \<Rightarrow> saw option" where
  "underscore_step hexa None c = None"
| "underscore_step hexa (Some saw) c =
     (if is_digit c \<or> hexa \<and> 97 \<le> code (lower_char c) \<and> code (lower_char c) \<le> 102 then Some SawDigit
      else if c = CHR ''_'' then (if saw = SawDigit then Some SawUnderscore else None)
      else if saw = SawUnderscore then None else Some SawOther)"

definition underscoreOK :: "string \<Rightarrow> bool" where
  "underscoreOK s =
     (let s = (case s of c # r \<Rightarrow> if c = CHR ''-'' \<or> c = CHR ''+'' then r else s | [] \<Rightarrow> s);
          prefix = (case s of c # b # r \<Rightarrow> c = CHR ''0'' \<and> lower_char b \<in> {CHR ''b'', CHR ''o'', CHR ''x''} | _ \<Rightarrow> False);
          hexa = (case s of c # b # r \<Rightarrow> prefix \<and> lower_char b = CHR ''x'' | _ \<Rightarrow> False)
      in case foldl (underscore_step hexa) (Some (if prefix then SawDigit else SawStart)) (if prefix then drop 2 s else s) of
           None \<Rightarrow> False
         | Some saw \<Rightarrow> saw \<noteq> SawUnderscore)"

definition ParseUint0 :: "string \<Rightarrow> nat \<Rightarrow> nat option" where
  "ParseUint0 s bits =
     (if s = [] then None
      else let (base, t) = base_prefix s in
        case digits_base base bits t 0 of
          None \<Rightarrow> None
        | Some n \<Rightarrow> if CHR ''_'' \<in> set t \<and> \<not> underscoreOK s then None else Some n)"

lemma digits_base_range: "digits_base base bits s n = Some m \<Longrightarrow> n < 2 ^ bits \<Longrightarrow> m < 2 ^ bits"
  by (induction base bits s n rule: digits_base.induct) (auto split: if_splits option.splits)

lemma ParseUint0_range: "ParseUint0 s bits = Some n \<Longrightarrow> n < 2 ^ bits"
  by (auto simp: ParseUint0_def Let_def dest: digits_base_range split: if_splits option.splits prod.splits)

end
