(* ===== verification/Go_Bytes.thy ===== *)
theory Go_Bytes
  imports Go_Encoding
begin

text \<open>
  The conversions between a Go string and its bytes, \<^verbatim>\<open>[]byte(s)\<close> and \<^verbatim>\<open>string(b)\<close>, and the string literals of the
  sources that are not ASCII, written as the bytes of their UTF-8 encoding, and the runes of a string.
\<close>

definition utf8 :: "nat list \<Rightarrow> string" where "utf8 bytes = map char_of bytes"

definition to_bytes :: "string \<Rightarrow> byte list" where
  "to_bytes s = map (\<lambda>c. of_nat (code c)) s"

definition to_text :: "byte list \<Rightarrow> string" where
  "to_text bs = map (\<lambda>b. char_of (unat b)) bs"

text \<open>The runes of a string, each as its UTF-8 text: the widths \<^verbatim>\<open>utf8.DecodeRune\<close> accepts, and one replacement character for
  every other byte.\<close>

definition rune_width :: "nat list \<Rightarrow> nat option" where
  "rune_width bs =
     (let at = (\<lambda>i. if i < length bs then bs ! i else 0); cont = (\<lambda>i. 0x80 \<le> at i \<and> at i \<le> 0xBF); a = at 0 in
      if a < 0x80 then Some 1
      else if 0xC2 \<le> a \<and> a \<le> 0xDF \<and> cont 1 then Some 2
      else if 0xE0 \<le> a \<and> a \<le> 0xEF \<and> cont 1 \<and> cont 2 \<and> (a = 0xE0 \<longrightarrow> 0xA0 \<le> at 1) \<and> (a = 0xED \<longrightarrow> at 1 \<le> 0x9F) then Some 3
      else if 0xF0 \<le> a \<and> a \<le> 0xF4 \<and> cont 1 \<and> cont 2 \<and> cont 3 \<and> (a = 0xF0 \<longrightarrow> 0x90 \<le> at 1) \<and> (a = 0xF4 \<longrightarrow> at 1 \<le> 0x8F)
      then Some 4
      else None)"

fun runes :: "string \<Rightarrow> string list" where
  "runes [] = []"
| "runes (c # cs) =
     (case rune_width (map code (c # cs)) of
        Some n \<Rightarrow> take n (c # cs) # runes (drop (n - 1) cs)
      | None \<Rightarrow> utf8 [0xEF, 0xBF, 0xBD] # runes cs)"

lemma to_text_bytes [simp]: "to_text (to_bytes s) = s"
  by (simp add: to_text_def to_bytes_def code_def comp_def unat_of_nat of_char_mod_256)

lemma to_bytes_text [simp]: "to_bytes (to_text bs) = bs"
  by (simp add: to_text_def to_bytes_def comp_def unat_byte map_idI)

lemma to_text_Nil [simp]: "to_text bs = [] \<longleftrightarrow> bs = []"
  by (simp add: to_text_def)

lemma to_text_append [simp]: "to_text (a @ b) = to_text a @ to_text b"
  by (simp add: to_text_def)

lemma length_to_bytes [simp]: "length (to_bytes s) = length s"
  by (simp add: to_bytes_def)

lemma TrimSpace_Nil [simp]: "TrimSpace [] = []"
  by (simp add: TrimSpace_def TrimFunc_def TrimLeft_def TrimRight_def)

lemma TrimSpace_none:
  assumes "\<And>c. c \<in> set s \<Longrightarrow> \<not> is_space c"
  shows "TrimSpace s = s"
proof -
  have keep: "dropWhile is_space t = t" if "set t \<subseteq> set s" for t
    using that assms by (cases t) auto
  show ?thesis using keep [of s] keep [of "rev s"] by (simp add: TrimSpace_def TrimFunc_def TrimLeft_def TrimRight_def)
qed

lemma TrimSpace_b64 [simp]: "TrimSpace (b64_EncodeToString bs) = b64_EncodeToString bs"
proof (rule TrimSpace_none)
  have "\<not> is_space (b64_char n)" if "n < 64" for n
    using that by (auto simp: b64_char_def is_space_def code_def)
  moreover have "\<not> is_space (CHR ''='')" by code_simp
  ultimately show "\<not> is_space c" if "c \<in> set (b64_EncodeToString bs)" for c
    using that
  proof (induction bs rule: b64_EncodeToString.induct)
    case (2 a)
    then show ?case using byte_parts [OF unat_byte [of a] unat_byte [of a] unat_byte [of a]] by (auto simp: Let_def)
  next
    case (3 a b)
    then show ?case using byte_parts [OF unat_byte [of a] unat_byte [of b] unat_byte [of b]] by (auto simp: Let_def)
  next
    case (4 a b c rest)
    then show ?case using byte_parts [OF unat_byte [of a] unat_byte [of b] unat_byte [of c]] by (auto simp: Let_def)
  qed simp
qed

end
