(* ===== verification/Neighbor_Manager.thy ===== *)
theory Neighbor_Manager
  imports Neighbor_Cell Go_Bytes "HOL-Library.List_Lexorder"
begin

text \<open>
  The owner of the resident \<^verbatim>\<open>diag_mdlog\<close> process (\<^verbatim>\<open>gossh/app/service/neighbor_cell.go\<close>, the manager): it adopts or
  starts one logger for the ring directory, restarts it when it stalls, stops it after a request or when
  idle, and never touches a logger of another program.

  The operating system is explicit state: which processes live and with which command line, the files the
  manager writes, the clock, and what the next calls return.  Signals and starts are recorded in a log
  together with what was true when they were issued, so that the safety properties can speak of them.
  The requests, the monitor's ticks, the reaper and the environment are the steps of a transition system.
\<close>

section \<open>Environment\<close>

datatype signal_kind = SIGTERM | SIGKILL

record signal_event =
  se_pid :: int
  se_kind :: signal_kind
  se_cmdline :: string

record start_event =
  te_pid :: int
  te_live :: "int list"

type_synonym gotime = "int option"

record dir_entry =
  de_name :: string
  de_isDir :: bool
  de_regular :: bool
  de_modTime :: "int option"

record world =
  w_now :: int
  w_alive :: "int \<Rightarrow> bool"
  w_cmdline :: "int \<Rightarrow> string"
  w_reaction :: "int \<Rightarrow> nat option"
  w_term :: "int \<Rightarrow> nat option"
  w_pidof :: "string option"
  w_pidfile :: "string option"
  w_servicefile :: "string option"
  w_state :: string
  w_writable :: bool
  w_ring :: "dir_entry list option"
  w_extract :: "string option"
  w_openlog :: "string option"
  w_start :: "string + int"
  w_signals :: "signal_event list"
  w_starts :: "start_event list"

text \<open>\<^verbatim>\<open>time.Time\<close>: \<open>None\<close> is the zero time, before every other.\<close>

definition time_after :: "gotime \<Rightarrow> gotime \<Rightarrow> bool" where
  "time_after a b = (case a of None \<Rightarrow> False | Some x \<Rightarrow> (case b of None \<Rightarrow> True | Some y \<Rightarrow> x > y))"

record manager =
  mg_pid :: int
  mg_child :: "int option"
  mg_lastAccess :: gotime
  mg_startedAt :: gotime
  mg_lastProgress :: gotime
  mg_latestQMDLTime :: gotime
  mg_takeover :: "string option option"

definition new_manager :: manager where
  "new_manager = \<lparr>mg_pid = 0, mg_child = None, mg_lastAccess = None, mg_startedAt = None, mg_lastProgress = None,
     mg_latestQMDLTime = None, mg_takeover = None\<rparr>"

definition neighborBaseDir :: string where "neighborBaseDir = ''/tmp/u60nbrqt_resident''"
definition neighborRingDir :: string where "neighborRingDir = neighborBaseDir @ ''/ring''"
definition neighborConfig :: string where "neighborConfig = ''qtrace.cfg''"
definition neighborRingFileCount :: nat where "neighborRingFileCount = 4"
definition neighborIdleTimeout :: int where "neighborIdleTimeout = 30 * 60 * 1000"
definition neighborStaleTimeout :: int where "neighborStaleTimeout = 90 * 1000"

section \<open>Processes\<close>

definition pidAlive :: "world \<Rightarrow> int \<Rightarrow> bool" where
  "pidAlive w pid \<longleftrightarrow> (if pid \<le> 0 then False else w_alive w pid)"

definition processCmdline :: "world \<Rightarrow> int \<Rightarrow> string" where
  "processCmdline w pid = (if w_alive w pid then w_cmdline w pid else [])"

definition is_neighbor_cmdline :: "string \<Rightarrow> bool" where
  "is_neighbor_cmdline cmdline \<longleftrightarrow> Contains cmdline ''diag_mdlog'' \<and> Contains cmdline neighborRingDir"

definition isNeighborDiag :: "world \<Rightarrow> int \<Rightarrow> bool" where
  "isNeighborDiag w pid = is_neighbor_cmdline (processCmdline w pid)"

text \<open>\<^verbatim>\<open>syscall.Kill\<close>: SIGTERM starts the countdown the process reacts with (\<open>None\<close>: it ignores the signal), SIGKILL
  ends it.  A dead process is not affected.\<close>

definition send_signal :: "int \<Rightarrow> signal_kind \<Rightarrow> world \<Rightarrow> world" where
  "send_signal pid kind w =
     (let w = w\<lparr>w_signals := w_signals w @ [\<lparr>se_pid = pid, se_kind = kind, se_cmdline = processCmdline w pid\<rparr>]\<rparr> in
      case kind of
        SIGTERM \<Rightarrow> w\<lparr>w_term := (w_term w)(pid := w_reaction w pid)\<rparr>
      | SIGKILL \<Rightarrow> w\<lparr>w_alive := (w_alive w)(pid := False)\<rparr>)"

text \<open>\<^verbatim>\<open>time.Sleep(100 * time.Millisecond)\<close>: the countdowns run.\<close>

definition sleep100 :: "world \<Rightarrow> world" where
  "sleep100 w = w\<lparr>w_now := w_now w + 100,
     w_alive := (\<lambda>p. w_alive w p \<and> w_term w p \<noteq> Some 0),
     w_term := (\<lambda>p. case w_term w p of Some (Suc k) \<Rightarrow> Some k | t \<Rightarrow> t)\<rparr>"

fun await_exit :: "nat \<Rightarrow> int \<Rightarrow> world \<Rightarrow> world" where
  "await_exit 0 pid w = w"
| "await_exit (Suc i) pid w = (if pidAlive w pid then await_exit i pid (sleep100 w) else w)"

section \<open>Files\<close>

definition writeNeighborPID :: "int \<Rightarrow> world \<Rightarrow> world" where
  "writeNeighborPID pid w = (if w_writable w then w\<lparr>w_pidfile := Some (Itoa pid @ [CHR 0x0A])\<rparr> else w)"

definition writeNeighborState :: "string \<Rightarrow> world \<Rightarrow> world" where
  "writeNeighborState state w = (if w_writable w then w\<lparr>w_state := state @ [CHR 0x0A]\<rparr> else w)"

definition remove_pidfile :: "world \<Rightarrow> world" where
  "remove_pidfile w = (if w_writable w then w\<lparr>w_pidfile := None\<rparr> else w)"

definition is_qmdl_name :: "string \<Rightarrow> bool" where
  "is_qmdl_name name \<longleftrightarrow> HasPrefix name ''diag_log_'' \<and> HasSuffix name ''.qmdl''"

definition latestNeighborQMDLTime :: "world \<Rightarrow> gotime" where
  "latestNeighborQMDLTime w =
     (case w_ring w of
        None \<Rightarrow> None
      | Some entries \<Rightarrow>
          foldl (\<lambda>latest e. if is_qmdl_name (de_name e) \<and> time_after (de_modTime e) latest then de_modTime e else latest)
            None entries)"

definition clearNeighborQMDLFiles :: "world \<Rightarrow> world" where
  "clearNeighborQMDLFiles w =
     (case w_ring w of
        None \<Rightarrow> w
      | Some entries \<Rightarrow>
          if w_writable w then w\<lparr>w_ring := Some (filter (\<lambda>e. de_isDir e \<or> \<not> is_qmdl_name (de_name e)) entries)\<rparr> else w)"

text \<open>The newest files of the ring in order of modification time, then of name.\<close>

definition findNeighborQMDLFiles :: "world \<Rightarrow> string list" where
  "findNeighborQMDLFiles w =
     (case w_ring w of
        None \<Rightarrow> []
      | Some entries \<Rightarrow>
          let files = map (\<lambda>e. (the (de_modTime e), map code (neighborRingDir @ ''/'' @ de_name e), neighborRingDir @ ''/'' @ de_name e))
                (filter (\<lambda>e. \<not> (de_isDir e \<or> \<not> is_qmdl_name (de_name e)) \<and> de_modTime e \<noteq> None \<and> de_regular e) entries);
              files = sort_key (\<lambda>f. (fst f, fst (snd f))) files;
              files = (if length files > neighborRingFileCount then drop (length files - neighborRingFileCount) files else files)
          in map (\<lambda>f. snd (snd f)) files)"

section \<open>The managed process\<close>

definition refreshManagedPIDLocked :: "manager \<Rightarrow> world \<Rightarrow> manager \<times> world" where
  "refreshManagedPIDLocked m w =
     (if mg_pid m > 0 \<and> pidAlive w (mg_pid m) \<and> isNeighborDiag w (mg_pid m) then (m, w)
      else let m = m\<lparr>mg_pid := 0, mg_child := None\<rparr> in
        case w_pidfile w of
          None \<Rightarrow> (m, w)
        | Some text \<Rightarrow>
            (case Atoi (TrimSpace text) of
               Some pid \<Rightarrow> if pidAlive w pid \<and> isNeighborDiag w pid then (m\<lparr>mg_pid := pid\<rparr>, w) else (m, remove_pidfile w)
             | None \<Rightarrow> (m, remove_pidfile w)))"

definition discover_step :: "world \<Rightarrow> int \<times> int \<Rightarrow> string \<Rightarrow> int \<times> int" where
  "discover_step w r field =
     (let (ownPID, foreignPID) = r in
      case Atoi field of
        None \<Rightarrow> r
      | Some pid \<Rightarrow>
          if \<not> pidAlive w pid then r
          else if isNeighborDiag w pid then (if ownPID = 0 then pid else ownPID, foreignPID)
          else if foreignPID = 0 then (ownPID, pid) else r)"

definition discoverDiagProcesses :: "world \<Rightarrow> int \<times> int" where
  "discoverDiagProcesses w =
     (case w_pidof w of None \<Rightarrow> (0, 0) | Some out \<Rightarrow> foldl (discover_step w) (0, 0) (Fields out))"

definition diag_cmdline :: string where
  "diag_cmdline = ''diag_mdlog -f '' @ neighborBaseDir @ ''/'' @ neighborConfig @ '' -o '' @ neighborRingDir @
     '' -s 4 -n '' @ utoa neighborRingFileCount @ '' -c -d ''"

text \<open>\<^verbatim>\<open>cmd.Start()\<close> succeeded: the process runs with the arguments given to it.  The log entry holds the loggers that
  \<^verbatim>\<open>pidof\<close> listed and that were alive.\<close>

definition listed_loggers :: "world \<Rightarrow> int list" where
  "listed_loggers w =
     (case w_pidof w of
        None \<Rightarrow> []
      | Some out \<Rightarrow> filter (pidAlive w) (concat (map (\<lambda>f. case Atoi f of Some p \<Rightarrow> [p] | None \<Rightarrow> []) (Fields out))))"

definition spawn :: "int \<Rightarrow> world \<Rightarrow> world" where
  "spawn pid w = w\<lparr>w_starts := w_starts w @ [\<lparr>te_pid = pid, te_live = listed_loggers w\<rparr>],
     w_alive := (w_alive w)(pid := True), w_cmdline := (w_cmdline w)(pid := diag_cmdline), w_term := (w_term w)(pid := None),
     w_pidof := Some ((case w_pidof w of None \<Rightarrow> [] | Some out \<Rightarrow> out) @ '' '' @ Itoa pid)\<rparr>"

datatype mgr_error = ForeignLogger int | OpenLogFailed string | StartFailed string | ExtractFailed string | TakeoverFailed string

fun error_text :: "mgr_error \<Rightarrow> string" where
  "error_text (ForeignLogger pid) = ''diag_mdlog '' @ utf8 [0xe8, 0xa2, 0xab, 0xe5, 0x85, 0xb6, 0xe4, 0xbb, 0x96, 0xe8, 0xbf, 0x9b, 0xe7, 0xa8, 0x8b, 0xe5, 0x8d, 0xa0, 0xe7, 0x94, 0xa8] @ '' (pid='' @ Itoa pid @ '')''"
| "error_text (OpenLogFailed e) = utf8 [0xe6, 0x89, 0x93, 0xe5, 0xbc, 0x80] @ '' diag '' @ utf8 [0xe6, 0x97, 0xa5, 0xe5, 0xbf, 0x97, 0xe5, 0xa4, 0xb1, 0xe8, 0xb4, 0xa5] @ '': '' @ e"
| "error_text (StartFailed e) = utf8 [0xe5, 0x90, 0xaf, 0xe5, 0x8a, 0xa8] @ '' diag_mdlog '' @ utf8 [0xe5, 0xa4, 0xb1, 0xe8, 0xb4, 0xa5] @ '': '' @ e"
| "error_text (ExtractFailed e) = e"
| "error_text (TakeoverFailed e) = e"

definition ensureManagedDiagLocked :: "manager \<Rightarrow> world \<Rightarrow> mgr_error option \<times> manager \<times> world" where
  "ensureManagedDiagLocked m w =
     (let (m, w) = refreshManagedPIDLocked m w in
      if mg_pid m > 0 then (None, m, w)
      else let (ownPID, foreignPID) = discoverDiagProcesses w in
        if ownPID > 0 then
          (let m = m\<lparr>mg_pid := ownPID, mg_startedAt := Some (w_now w), mg_lastProgress := Some (w_now w),
                     mg_latestQMDLTime := latestNeighborQMDLTime w\<rparr>;
               w = writeNeighborState (''running: adopted diag_mdlog pid='' @ Itoa ownPID) w
           in (None, m, writeNeighborPID ownPID w))
        else if foreignPID > 0 then
          (Some (ForeignLogger foreignPID), m, writeNeighborState (''blocked: foreign diag_mdlog pid='' @ Itoa foreignPID) w)
        else let w = clearNeighborQMDLFiles w in
          case w_openlog w of
            Some e \<Rightarrow> (Some (OpenLogFailed e), m, w)
          | None \<Rightarrow>
              (case w_start w of
                 Inl e \<Rightarrow> (Some (StartFailed e), m, w)
               | Inr pid \<Rightarrow>
                   let w = spawn pid w;
                       m = m\<lparr>mg_pid := pid, mg_child := Some pid, mg_startedAt := Some (w_now w), mg_lastProgress := Some (w_now w),
                             mg_latestQMDLTime := latestNeighborQMDLTime w\<rparr>;
                       w = writeNeighborPID pid w
                   in (None, m, writeNeighborState (''running: diag_mdlog pid='' @ Itoa pid) w)))"

definition reapManagedDiag :: "string option \<Rightarrow> int \<Rightarrow> manager \<Rightarrow> world \<Rightarrow> manager \<times> world" where
  "reapManagedDiag err pid m w =
     (if mg_pid m \<noteq> pid then (m, w)
      else let m = m\<lparr>mg_pid := 0, mg_child := None\<rparr>;
               w = remove_pidfile w;
               state = ''exited: diag_mdlog pid='' @ Itoa pid;
               state = (case err of None \<Rightarrow> state | Some e \<Rightarrow> state @ '' error='' @ e)
           in (m, writeNeighborState state w))"

definition stopManagedDiagLocked :: "string \<Rightarrow> manager \<Rightarrow> world \<Rightarrow> bool \<times> manager \<times> world" where
  "stopManagedDiagLocked state m w =
     (let (m, w) = refreshManagedPIDLocked m w; pid = mg_pid m in
      if pid \<le> 0 \<or> \<not> isNeighborDiag w pid then (False, m, w)
      else let w = send_signal pid SIGTERM w;
               w = await_exit 10 pid w;
               w = (if pidAlive w pid \<and> isNeighborDiag w pid then send_signal pid SIGKILL w else w);
               m = (if mg_pid m = pid then m\<lparr>mg_pid := 0, mg_child := None\<rparr> else m);
               w = remove_pidfile w
           in (True, m, writeNeighborState state w))"

definition stopNeighborCollection :: "string \<Rightarrow> manager \<Rightarrow> world \<Rightarrow> bool \<times> manager \<times> world" where
  "stopNeighborCollection state m w = stopManagedDiagLocked state (m\<lparr>mg_lastAccess := None\<rparr>) w"

text \<open>One round of \<^verbatim>\<open>monitorNeighborPipeline\<close>.\<close>

definition monitor_tick :: "manager \<Rightarrow> world \<Rightarrow> manager \<times> world" where
  "monitor_tick m w =
     (let (m, w) = refreshManagedPIDLocked m w; now = w_now w in
      case mg_lastAccess m of
        None \<Rightarrow> (m, w)
      | Some accessed \<Rightarrow>
          if now - accessed \<ge> neighborIdleTimeout then
            (let (_, m, w) = stopManagedDiagLocked ''stopped: idle timeout'' m w in (m\<lparr>mg_lastAccess := None\<rparr>, w))
          else if mg_pid m = 0 then (let (_, m, w) = ensureManagedDiagLocked m w in (m, w))
          else
            let latest = latestNeighborQMDLTime w;
                m = (if time_after latest (mg_latestQMDLTime m)
                     then m\<lparr>mg_latestQMDLTime := latest, mg_lastProgress := Some now\<rparr> else m)
            in if (case mg_lastProgress m of None \<Rightarrow> True | Some t \<Rightarrow> now - t \<ge> neighborStaleTimeout) then
                 (let (_, m, w) = stopManagedDiagLocked ''restarting: QMDL stalled'' m w;
                      (err, m, w) = ensureManagedDiagLocked m w
                  in (m, (case err of None \<Rightarrow> w | Some e \<Rightarrow> writeNeighborState (''restart failed: '' @ error_text e) w)))
               else (m, w))"

section \<open>Taking over from the legacy service\<close>

definition is_legacy_cmdline :: "string \<Rightarrow> bool" where
  "is_legacy_cmdline cmdline \<longleftrightarrow> Contains cmdline neighborBaseDir \<and> Contains cmdline ''service.sh''"

definition remove_servicefile :: "world \<Rightarrow> world" where
  "remove_servicefile w = (if w_writable w then w\<lparr>w_servicefile := None\<rparr> else w)"

definition stopLegacyNeighborService :: "world \<Rightarrow> string option \<times> world" where
  "stopLegacyNeighborService w =
     (case w_servicefile w of
        None \<Rightarrow> (None, w)
      | Some text \<Rightarrow>
          (case Atoi (TrimSpace text) of
             None \<Rightarrow> (None, remove_servicefile w)
           | Some pid \<Rightarrow>
               if \<not> pidAlive w pid then (None, remove_servicefile w)
               else if \<not> is_legacy_cmdline (processCmdline w pid) then (Some (''service.pid='' @ Itoa pid @ '' '' @ utf8 [0xe4, 0xb8, 0x8d, 0xe5, 0xb1, 0x9e, 0xe4, 0xba, 0x8e, 0xe6, 0x97, 0xa7, 0xe9, 0x82, 0xbb, 0xe5, 0x8c, 0xba, 0xe6, 0x9c, 0x8d, 0xe5, 0x8a, 0xa1, 0xef, 0xbc, 0x8c, 0xe6, 0x8b, 0x92, 0xe7, 0xbb, 0x9d, 0xe6, 0x8e, 0xa5, 0xe7, 0xae, 0xa1]), w)
               else let w = send_signal pid SIGTERM w;
                        w = await_exit 20 pid w;
                        w = (if pidAlive w pid \<and> Contains (processCmdline w pid) neighborBaseDir
                             then send_signal pid SIGKILL w else w)
                    in (None, remove_servicefile w)))"

definition ensureNeighborPipeline :: "manager \<Rightarrow> world \<Rightarrow> mgr_error option \<times> manager \<times> world" where
  "ensureNeighborPipeline m w =
     (case w_extract w of
        Some e \<Rightarrow> (Some (ExtractFailed e), m, w)
      | None \<Rightarrow>
          let (terr, m, w) =
            (case mg_takeover m of
               Some r \<Rightarrow> (r, m, w)
             | None \<Rightarrow> (let (r, w) = stopLegacyNeighborService w in (r, m\<lparr>mg_takeover := Some r\<rparr>, w)))
          in case terr of
               Some e \<Rightarrow> (Some (TakeoverFailed e), m, w)
             | None \<Rightarrow> ensureManagedDiagLocked (m\<lparr>mg_lastAccess := Some (w_now w)\<rparr>) w)"

section \<open>Requests\<close>

record 'e parse_env =
  pe_files :: "string list"
  pe_open :: "string \<Rightarrow> 'e + 'e qmdl_file"
  pe_ctx :: "ctx_point \<Rightarrow> 'e option"
  pe_deadline :: bool

datatype 'e parse_error = PNotExist | PTimeout | PFailed "'e svc_error"

fun parse_attempts :: "'e parse_env list \<Rightarrow> 'e parse_error \<Rightarrow> ('e parse_error + nativeNeighborResult) option" where
  "parse_attempts [] lastErr = Some (Inl lastErr)"
| "parse_attempts (env # envs) lastErr =
     (if pe_files env = [] then Some (Inl PNotExist)
      else do {
        r \<leftarrow> parseNeighborQMDLFiles (pe_ctx env) (pe_open env) (pe_files env);
        case r of
          Inl e \<Rightarrow> parse_attempts envs (if pe_deadline env then PTimeout else PFailed e)
        | Inr native \<Rightarrow> Some (Inr native) })"

text \<open>The two attempts of \<^verbatim>\<open>parseNeighborQMDL\<close>; the nil error before the first is never returned.\<close>

definition parseNeighborQMDL :: "'e parse_env \<Rightarrow> 'e parse_env \<Rightarrow> ('e parse_error + nativeNeighborResult) option" where
  "parseNeighborQMDL first second = parse_attempts [first, second] PNotExist"

datatype response = ROk NeighborCellResult | RError string

definition handler_fallback :: "string + neighborUbusSnapshot \<Rightarrow> string option \<Rightarrow> response" where
  "handler_fallback ubus pipelineErr =
     (case ubus of
        Inr snapshot \<Rightarrow>
          (let result = neighborResultFromUbus snapshot in
           ROk (case pipelineErr of None \<Rightarrow> result | Some e \<Rightarrow> result\<lparr>rc_Warning := e\<rparr>))
      | Inl ubusErr \<Rightarrow>
          (let message = utf8 [0xe8, 0x8e, 0xb7, 0xe5, 0x8f, 0x96, 0xe9, 0x82, 0xbb, 0xe8, 0xbf, 0x91, 0xe5, 0xb0, 0x8f, 0xe5, 0x8c, 0xba, 0xe5, 0xa4, 0xb1, 0xe8, 0xb4, 0xa5];
               message = (case pipelineErr of None \<Rightarrow> message | Some e \<Rightarrow> message @ '': '' @ e)
           in RError (message @ ''; UBUS: '' @ ubusErr)))"

text \<open>\<^verbatim>\<open>NeighborCellHandler\<close>: the snapshot is read first (a failed read leaves a nil map), the logger is running while
  the ring is parsed and the deferred stop runs on every path after that; \<open>elapse\<close> is what the environment
  does during the wait and the parse.\<close>

definition NeighborCellHandler :: "string + neighborUbusSnapshot \<Rightarrow> ('e parse_error \<Rightarrow> string) \<Rightarrow> (world \<Rightarrow> world) \<Rightarrow>
    (world \<Rightarrow> 'e parse_env \<times> 'e parse_env) \<Rightarrow> manager \<Rightarrow> world \<Rightarrow> (response \<times> manager \<times> world) option" where
  "NeighborCellHandler ubus parse_text elapse envs m w =
     (let snapshot = (case ubus of Inr s \<Rightarrow> s | Inl _ \<Rightarrow> Map.empty);
          (pipelineErr, m, w) = ensureNeighborPipeline m w in
      case pipelineErr of
        Some e \<Rightarrow> Some (handler_fallback ubus (Some (error_text e)), m, w)
      | None \<Rightarrow> do {
          let w = elapse w;
          parsed \<leftarrow> parseNeighborQMDL (fst (envs w)) (snd (envs w));
          let answer = (case parsed of
                          Inr native \<Rightarrow> ROk (adaptNativeNeighborResult native snapshot)
                        | Inl e \<Rightarrow> handler_fallback ubus (Some (utf8 [0xe5, 0x8e, 0x9f, 0xe7, 0x94, 0x9f, 0xe6, 0x97, 0xa5, 0xe5, 0xbf, 0x97, 0xe6, 0x9a, 0x82, 0xe4, 0xb8, 0x8d, 0xe5, 0x8f, 0xaf, 0xe7, 0x94, 0xa8] @ '': '' @ parse_text e)));
          let (_, m, w) = stopNeighborCollection ''stopped: request completed'' m w;
          Some (answer, m, w) })"

definition NeighborServiceStopHandler :: "manager \<Rightarrow> world \<Rightarrow> bool \<times> manager \<times> world" where
  "NeighborServiceStopHandler m w = stopNeighborCollection ''stopped: requested by WebSSH'' m w"

section \<open>Lemmas on substrings and processes\<close>

lemma Contains_iff: "Contains s p \<longleftrightarrow> (\<exists>a b. s = a @ p @ b)"
proof (induction s p rule: Contains.induct)
  case (2 c s p)
  show ?case
  proof
    assume "Contains (c # s) p"
    then consider b where "c # s = p @ b" | a b where "s = a @ p @ b" using 2 by (auto simp: HasPrefix_iff)
    then show "\<exists>a b. c # s = a @ p @ b"
    proof cases
      case 1
      then show ?thesis by (metis append_Nil)
    next
      case 2
      then show ?thesis by (metis append_Cons)
    qed
  next
    assume "\<exists>a b. c # s = a @ p @ b"
    then obtain a b where ab: "c # s = a @ p @ b" by blast
    show "Contains (c # s) p"
    proof (cases a)
      case Nil
      then have "HasPrefix (c # s) p" using ab by (simp add: HasPrefix_iff)
      then show ?thesis by simp
    next
      case (Cons x a')
      then show ?thesis using ab 2 by auto
    qed
  qed
qed auto

lemma Contains_prefix: "Contains s (p @ q) \<Longrightarrow> Contains s p"
  unfolding Contains_iff by (metis append.assoc)

lemma neighbor_cmdline_base: "is_neighbor_cmdline c \<Longrightarrow> Contains c neighborBaseDir"
  by (auto simp: is_neighbor_cmdline_def neighborRingDir_def dest: Contains_prefix)

lemma diag_cmdline_neighbor: "is_neighbor_cmdline diag_cmdline"
proof -
  have "diag_cmdline = [] @ ''diag_mdlog'' @ ('' -f '' @ neighborBaseDir @ ''/'' @ neighborConfig @ '' -o '' @ neighborRingDir @
     '' -s 4 -n '' @ utoa neighborRingFileCount @ '' -c -d '')"
    "diag_cmdline = (''diag_mdlog -f '' @ neighborBaseDir @ ''/'' @ neighborConfig @ '' -o '') @ neighborRingDir @
     ('' -s 4 -n '' @ utoa neighborRingFileCount @ '' -c -d '')"
    by (simp_all add: diag_cmdline_def)
  then show ?thesis unfolding is_neighbor_cmdline_def Contains_iff by metis
qed

lemma empty_not_neighbor: "\<not> is_neighbor_cmdline []"
  by (simp add: is_neighbor_cmdline_def)

text \<open>What a step of the manager leaves alone.\<close>

lemma file_ops_keep [simp]:
  "w_signals (writeNeighborPID p w) = w_signals w" "w_starts (writeNeighborPID p w) = w_starts w" "w_alive (writeNeighborPID p w) = w_alive w" "w_cmdline (writeNeighborPID p w) = w_cmdline w" "w_now (writeNeighborPID p w) = w_now w"
  "w_signals (writeNeighborState s w) = w_signals w" "w_starts (writeNeighborState s w) = w_starts w" "w_alive (writeNeighborState s w) = w_alive w" "w_cmdline (writeNeighborState s w) = w_cmdline w" "w_now (writeNeighborState s w) = w_now w"
  "w_signals (remove_pidfile w) = w_signals w" "w_starts (remove_pidfile w) = w_starts w" "w_alive (remove_pidfile w) = w_alive w" "w_cmdline (remove_pidfile w) = w_cmdline w" "w_now (remove_pidfile w) = w_now w" "w_pidof (remove_pidfile w) = w_pidof w" "w_start (remove_pidfile w) = w_start w"
  "w_signals (remove_servicefile w) = w_signals w" "w_starts (remove_servicefile w) = w_starts w"
  "w_signals (clearNeighborQMDLFiles w) = w_signals w" "w_starts (clearNeighborQMDLFiles w) = w_starts w" "w_alive (clearNeighborQMDLFiles w) = w_alive w" "w_pidof (clearNeighborQMDLFiles w) = w_pidof w" "w_cmdline (clearNeighborQMDLFiles w) = w_cmdline w" "w_start (clearNeighborQMDLFiles w) = w_start w"
  by (auto simp: writeNeighborPID_def writeNeighborState_def remove_pidfile_def remove_servicefile_def clearNeighborQMDLFiles_def split: option.split)

lemma sleep_keeps [simp]: "w_signals (sleep100 w) = w_signals w" "w_starts (sleep100 w) = w_starts w" "w_cmdline (sleep100 w) = w_cmdline w"
  by (simp_all add: sleep100_def)

lemma await_keeps [simp]: "w_signals (await_exit i p w) = w_signals w" "w_starts (await_exit i p w) = w_starts w" "w_cmdline (await_exit i p w) = w_cmdline w"
  by (induction i arbitrary: w) auto

lemma pidAlive_positive: "pidAlive w p \<Longrightarrow> 0 < p"
  by (auto simp: pidAlive_def split: if_splits)

lemma refresh_facts:
  assumes "refreshManagedPIDLocked m w = (m', w')"
  shows "w' = w \<or> w' = remove_pidfile w"
    and "mg_pid m' = 0 \<and> mg_child m' = None \<or> 0 < mg_pid m' \<and> pidAlive w (mg_pid m') \<and> isNeighborDiag w (mg_pid m')"
    and "mg_lastAccess m' = mg_lastAccess m" and "mg_takeover m' = mg_takeover m"
  using assms by (auto dest: pidAlive_positive simp: refreshManagedPIDLocked_def Let_def split: option.splits if_splits)

lemma alive_remove_pidfile [simp]: "pidAlive (remove_pidfile w) = pidAlive w" "isNeighborDiag (remove_pidfile w) = isNeighborDiag w"
  by (simp_all add: fun_eq_iff pidAlive_def isNeighborDiag_def processCmdline_def)

lemma alive_writes [simp]:
  "pidAlive (writeNeighborState s w) = pidAlive w" "isNeighborDiag (writeNeighborState s w) = isNeighborDiag w"
  "pidAlive (writeNeighborPID p w) = pidAlive w" "isNeighborDiag (writeNeighborPID p w) = isNeighborDiag w"
  "pidAlive (clearNeighborQMDLFiles w) = pidAlive w" "isNeighborDiag (clearNeighborQMDLFiles w) = isNeighborDiag w"
  by (simp_all add: fun_eq_iff pidAlive_def isNeighborDiag_def processCmdline_def)

lemma discover_fold:
  assumes "0 \<le> fst r" "0 \<le> snd r"
    and "fst r = 0 \<or> pidAlive w (fst r) \<and> isNeighborDiag w (fst r)"
  shows "0 \<le> fst (foldl (discover_step w) r fs) \<and> 0 \<le> snd (foldl (discover_step w) r fs) \<and>
    (fst (foldl (discover_step w) r fs) = 0 \<or>
       pidAlive w (fst (foldl (discover_step w) r fs)) \<and> isNeighborDiag w (fst (foldl (discover_step w) r fs))) \<and>
    (foldl (discover_step w) r fs = (0, 0) \<longrightarrow> r = (0, 0) \<and>
       filter (pidAlive w) (concat (map (\<lambda>f. case Atoi f of Some p \<Rightarrow> [p] | None \<Rightarrow> []) fs)) = [])"
  using assms
proof (induction fs arbitrary: r)
  case (Cons f fs)
  let ?r = "discover_step w r f"
  have r: "0 \<le> fst ?r" "0 \<le> snd ?r" "fst ?r = 0 \<or> pidAlive w (fst ?r) \<and> isNeighborDiag w (fst ?r)"
    using Cons.prems by (auto simp: discover_step_def split_beta dest: pidAlive_positive split: option.splits)
  have z: "?r = (0, 0) \<Longrightarrow> r = (0, 0) \<and> (case Atoi f of Some p \<Rightarrow> \<not> pidAlive w p | None \<Rightarrow> True)"
    using Cons.prems by (auto simp: discover_step_def split_beta prod_eq_iff dest: pidAlive_positive split: option.splits if_splits)
  from Cons.IH [OF r] z show ?case by (auto split: option.splits)
qed auto

lemma discover_result:
  obtains ownp foreignp where "discoverDiagProcesses w = (ownp, foreignp)" and "0 \<le> ownp" "0 \<le> foreignp"
    and "ownp = 0 \<or> pidAlive w ownp \<and> isNeighborDiag w ownp" and "ownp = 0 \<and> foreignp = 0 \<Longrightarrow> listed_loggers w = []"
proof (cases "w_pidof w")
  case None
  then show ?thesis using that by (simp add: discoverDiagProcesses_def listed_loggers_def)
next
  case (Some out)
  then show ?thesis using discover_fold [of "(0, 0)" w "Fields out"] that
    by (cases "foldl (discover_step w) (0, 0) (Fields out)") (simp add: discoverDiagProcesses_def listed_loggers_def)
qed

section \<open>What the operations establish\<close>

definition own_logger :: "world \<Rightarrow> int \<Rightarrow> bool" where
  "own_logger w p \<longleftrightarrow> pidAlive w p \<and> isNeighborDiag w p"

definition spawns_positive :: "world \<Rightarrow> bool" where
  "spawns_positive w \<longleftrightarrow> (case w_start w of Inl _ \<Rightarrow> True | Inr pid \<Rightarrow> 0 < pid)"

lemma spawn_own: "0 < pid \<Longrightarrow> own_logger (spawn pid w) pid"
  by (simp add: own_logger_def pidAlive_def isNeighborDiag_def processCmdline_def spawn_def diag_cmdline_neighbor)

lemma own_logger_writes [simp]:
  "own_logger (writeNeighborState s w) = own_logger w" "own_logger (writeNeighborPID p w) = own_logger w"
  "own_logger (remove_pidfile w) = own_logger w"
  by (simp_all add: fun_eq_iff own_logger_def)

lemma ensureManaged_facts:
  assumes "ensureManagedDiagLocked m w = (err, m', w')"
  shows "err = None \<Longrightarrow> spawns_positive w \<Longrightarrow> own_logger w' (mg_pid m')"
    and "err \<noteq> None \<Longrightarrow> mg_pid m' = 0 \<and> w_starts w' = w_starts w"
    and "w_signals w' = w_signals w"
    and "w_starts w' = w_starts w \<or> (\<exists>pid. w_starts w' = w_starts w @ [\<lparr>te_pid = pid, te_live = []\<rparr>])"
    and "mg_lastAccess m' = mg_lastAccess m"
proof -
  obtain m1 w1 where r: "refreshManagedPIDLocked m w = (m1, w1)" by fastforce
  note rf = refresh_facts [OF r]
  obtain ownp foreignp where d: "discoverDiagProcesses w1 = (ownp, foreignp)" "0 \<le> ownp" "0 \<le> foreignp"
      "ownp = 0 \<or> pidAlive w1 ownp \<and> isNeighborDiag w1 ownp" "ownp = 0 \<and> foreignp = 0 \<Longrightarrow> listed_loggers w1 = []"
    using discover_result by blast
  have same: "pidAlive w1 = pidAlive w" "isNeighborDiag w1 = isNeighborDiag w" "w_signals w1 = w_signals w" "w_starts w1 = w_starts w" "w_start w1 = w_start w"
    using rf(1) by auto
  have ll: "listed_loggers (clearNeighborQMDLFiles w1) = listed_loggers w1"
    by (simp add: listed_loggers_def split: option.split)
  show "err = None \<Longrightarrow> spawns_positive w \<Longrightarrow> own_logger w' (mg_pid m')"
  proof -
    have "mg_pid m1 = 0 \<or> own_logger w1 (mg_pid m1)" "ownp = 0 \<or> own_logger w1 ownp"
      using rf(2) d(4) same by (auto simp: own_logger_def)
    then show "err = None \<Longrightarrow> spawns_positive w \<Longrightarrow> own_logger w' (mg_pid m')"
      using assms rf(2) d(1) same(5)
      by (auto simp: ensureManagedDiagLocked_def r Let_def spawns_positive_def spawn_own split: if_splits option.splits sum.splits)
  qed
  show "err \<noteq> None \<Longrightarrow> mg_pid m' = 0 \<and> w_starts w' = w_starts w" "w_signals w' = w_signals w" "mg_lastAccess m' = mg_lastAccess m"
    using assms rf d same
    by (auto simp: ensureManagedDiagLocked_def r Let_def spawn_def split: if_splits option.splits sum.splits)
  show "w_starts w' = w_starts w \<or> (\<exists>pid. w_starts w' = w_starts w @ [\<lparr>te_pid = pid, te_live = []\<rparr>])"
    using assms d same ll
    by (auto simp: ensureManagedDiagLocked_def r Let_def spawn_def split: if_splits option.splits sum.splits)
qed

definition signal_ok :: "signal_event \<Rightarrow> bool" where
  "signal_ok e \<longleftrightarrow> is_neighbor_cmdline (se_cmdline e) \<or> is_legacy_cmdline (se_cmdline e) \<or>
     se_kind e = SIGKILL \<and> Contains (se_cmdline e) neighborBaseDir"

definition log_ok :: "world \<Rightarrow> bool" where
  "log_ok w \<longleftrightarrow> list_all signal_ok (w_signals w) \<and> list_all (\<lambda>s. te_live s = []) (w_starts w)"

lemma signals_send: "w_signals (send_signal p k w) = w_signals w @ [\<lparr>se_pid = p, se_kind = k, se_cmdline = processCmdline w p\<rparr>]"
  "w_starts (send_signal p k w) = w_starts w"
  by (cases k; simp add: send_signal_def Let_def)+

lemma kill_ends: "\<not> pidAlive (send_signal p SIGKILL w) p"
  by (simp add: send_signal_def pidAlive_def Let_def)

lemma stopManaged_facts:
  assumes "stopManagedDiagLocked state m w = (b, m', w')"
  shows "mg_pid m' = 0" and "mg_child m' = None" and "mg_lastAccess m' = mg_lastAccess m" and "w_starts w' = w_starts w"
    and "log_ok w \<Longrightarrow> log_ok w'"
    and "b \<Longrightarrow> \<exists>p. own_logger w p \<and> \<not> own_logger w' p"
    and "\<not> b \<Longrightarrow> w_signals w' = w_signals w"
proof -
  obtain m1 w1 where r: "refreshManagedPIDLocked m w = (m1, w1)" by fastforce
  note rf = refresh_facts [OF r]
  have same: "pidAlive w1 = pidAlive w" "isNeighborDiag w1 = isNeighborDiag w" "w_signals w1 = w_signals w" "w_starts w1 = w_starts w"
    using rf(1) by auto
  let ?p = "mg_pid m1"
  let ?wt = "await_exit 10 ?p (send_signal ?p SIGTERM w1)"
  let ?wk = "if pidAlive ?wt ?p \<and> isNeighborDiag ?wt ?p then send_signal ?p SIGKILL ?wt else ?wt"
  show "mg_pid m' = 0" "mg_child m' = None" "mg_lastAccess m' = mg_lastAccess m"
    using assms rf same
    by (auto simp: stopManagedDiagLocked_def r Let_def split: if_splits)
  show "w_starts w' = w_starts w" "\<not> b \<Longrightarrow> w_signals w' = w_signals w"
    using assms same by (auto simp: stopManagedDiagLocked_def r Let_def signals_send split: if_splits)
  have ended: "\<not> own_logger ?wk ?p" using kill_ends [of ?p ?wt] by (simp add: own_logger_def)
  show "b \<Longrightarrow> \<exists>p. own_logger w p \<and> \<not> own_logger w' p"
  proof
    assume b
    with assms have pos: "0 < ?p" "isNeighborDiag w1 ?p" and w': "w' = writeNeighborState state (remove_pidfile ?wk)"
      by (auto simp: stopManagedDiagLocked_def r Let_def split: if_splits)
    have "own_logger w ?p" using pos rf(2) same by (auto simp: own_logger_def)
    moreover have "\<not> own_logger w' ?p" using ended unfolding w' own_logger_writes .
    ultimately show "own_logger w ?p \<and> \<not> own_logger w' ?p" ..
  qed
  have "signal_ok \<lparr>se_pid = ?p, se_kind = k, se_cmdline = processCmdline v ?p\<rparr>" if "isNeighborDiag v ?p" for k v
    using that by (simp add: signal_ok_def isNeighborDiag_def)
  then show "log_ok w \<Longrightarrow> log_ok w'"
    using assms same by (auto simp: log_ok_def stopManagedDiagLocked_def r Let_def signals_send split: if_splits)
qed

lemma legacy_log: "stopLegacyNeighborService w = (r, w') \<Longrightarrow> log_ok w \<Longrightarrow> log_ok w'"
proof -
  have "signal_ok \<lparr>se_pid = p, se_kind = SIGTERM, se_cmdline = c\<rparr>" if "is_legacy_cmdline c" for p c
    using that by (simp add: signal_ok_def)
  moreover have "signal_ok \<lparr>se_pid = p, se_kind = SIGKILL, se_cmdline = c\<rparr>" if "Contains c neighborBaseDir" for p c
    using that by (simp add: signal_ok_def)
  ultimately show "stopLegacyNeighborService w = (r, w') \<Longrightarrow> log_ok w \<Longrightarrow> log_ok w'"
    by (auto simp: stopLegacyNeighborService_def log_ok_def signals_send Let_def split: option.splits if_splits)
qed

lemma ensureManaged_log: "ensureManagedDiagLocked m w = (err, m', w') \<Longrightarrow> log_ok w \<Longrightarrow> log_ok w'"
  using ensureManaged_facts(3,4) [of m w err m' w'] by (auto simp: log_ok_def)

lemma refresh_log: "refreshManagedPIDLocked m w = (m', w') \<Longrightarrow> log_ok w \<Longrightarrow> log_ok w'"
  using refresh_facts(1) [of m w m' w'] by (auto simp: log_ok_def)

lemma ensurePipeline_log: "ensureNeighborPipeline m w = (err, m', w') \<Longrightarrow> log_ok w \<Longrightarrow> log_ok w'"
  by (auto simp: ensureNeighborPipeline_def split: option.splits prod.splits dest: legacy_log ensureManaged_log)

lemma monitor_log: "monitor_tick m w = (m', w') \<Longrightarrow> log_ok w \<Longrightarrow> log_ok w'"
proof -
  assume a: "monitor_tick m w = (m', w')" and ok: "log_ok w"
  obtain m1 w1 where r: "refreshManagedPIDLocked m w = (m1, w1)" by fastforce
  have ok1: "log_ok w1" using refresh_log [OF r ok] .
  have st: "log_ok (snd (snd (stopManagedDiagLocked s n v)))" if "log_ok v" for s n v
    using stopManaged_facts(5) [of s n v] that by (metis prod.collapse)
  have en: "log_ok (snd (snd (ensureManagedDiagLocked n v)))" if "log_ok v" for n v
    using ensureManaged_log [of n v] that by (metis prod.collapse)
  have en': "log_ok v'" if "snd (ensureManagedDiagLocked n v) = (n', v')" "log_ok v" for n v n' v'
    using en [OF that(2), of n] that(1) by simp
  have wr: "log_ok (writeNeighborState s v) = log_ok v" for s v by (simp add: log_ok_def)
  show "log_ok w'"
    using a ok1 by (auto simp: monitor_tick_def r Let_def split_beta wr st en split: option.splits if_splits dest: en')
qed

lemma reap_log: "reapManagedDiag err pid m w = (m', w') \<Longrightarrow> log_ok w \<Longrightarrow> log_ok w'"
  by (auto simp: reapManagedDiag_def log_ok_def Let_def split: if_splits)

section \<open>The transition system\<close>

text \<open>The operations run under the manager's lock, in any order; between them the environment may change the world in
  any way but the log.\<close>

inductive mstep :: "manager \<times> world \<Rightarrow> manager \<times> world \<Rightarrow> bool" where
  pipeline: "ensureNeighborPipeline m w = (err, m', w') \<Longrightarrow> mstep (m, w) (m', w')"
| stop: "stopNeighborCollection state m w = (b, m', w') \<Longrightarrow> mstep (m, w) (m', w')"
| tick: "monitor_tick m w = (m', w') \<Longrightarrow> mstep (m, w) (m', w')"
| reap: "reapManagedDiag err pid m w = (m', w') \<Longrightarrow> mstep (m, w) (m', w')"
| status: "refreshManagedPIDLocked m w = (m', w') \<Longrightarrow> mstep (m, w) (m', w')"
| environment: "w_signals w' = w_signals w \<Longrightarrow> w_starts w' = w_starts w \<Longrightarrow> mstep (m, w) (m, w')"

inductive_cases mstepE: "mstep (m, w) (m', w')"

inductive reachable :: "manager \<times> world \<Rightarrow> bool" where
  initial: "w_signals w = [] \<Longrightarrow> w_starts w = [] \<Longrightarrow> reachable (new_manager, w)"
| further: "reachable s \<Longrightarrow> mstep s s' \<Longrightarrow> reachable s'"

lemma mstep_log: "mstep s s' \<Longrightarrow> log_ok (snd s) \<Longrightarrow> log_ok (snd s')"
proof (induction rule: mstep.induct)
  case (stop state m w b m' w')
  then show ?case using stopManaged_facts(5) by (simp add: stopNeighborCollection_def)
next
  case (environment w' w m)
  then show ?case by (simp add: log_ok_def)
qed (simp_all add: ensurePipeline_log monitor_log reap_log refresh_log)

lemma reachable_log: "reachable s \<Longrightarrow> log_ok (snd s)"
proof (induction rule: reachable.induct)
  case (initial w)
  then show ?case by (simp add: log_ok_def)
next
  case (further s s')
  then show ?case by (blast intro: mstep_log)
qed

section \<open>Properties\<close>

definition sample_world :: world where
  "sample_world = \<lparr>w_now = 1000, w_alive = (\<lambda>p. p = 7), w_cmdline = (\<lambda>_. diag_cmdline), w_reaction = (\<lambda>_. None),
     w_term = (\<lambda>_. None), w_pidof = None, w_pidfile = Some ''7'', w_servicefile = None, w_state = [], w_writable = True,
     w_ring = None, w_extract = None, w_openlog = None, w_start = Inr 8, w_signals = [], w_starts = []\<rparr>"



text \<open>A pipeline start that reports success leaves a running logger for the ring directory under management, whether
  it was already managed, adopted or started; a start that fails leaves none and starts nothing.\<close>
theorem ensureManagedDiagLocked_establishes:
  assumes "ensureManagedDiagLocked m w = (err, m', w')" and "spawns_positive w"
  shows "if err = None then own_logger w' (mg_pid m') else mg_pid m' = 0 \<and> w_starts w' = w_starts w"
  using ensureManaged_facts(1,2) [OF assms(1)] assms(2) by auto

theorem ensureManagedDiagLocked_establishes_witness:
  "\<exists>m' w'. ensureManagedDiagLocked new_manager (sample_world\<lparr>w_pidfile := None, w_alive := (\<lambda>_. False)\<rparr>) = (None, m', w') \<and>
     own_logger w' (mg_pid m')"
proof -
  let ?w = "sample_world\<lparr>w_pidfile := None, w_alive := (\<lambda>_. False)\<rparr>"
  obtain err m' w' where e: "ensureManagedDiagLocked new_manager ?w = (err, m', w')" by (metis surj_pair)
  have "err = None"
    using e by (simp add: ensureManagedDiagLocked_def refreshManagedPIDLocked_def new_manager_def sample_world_def
        discoverDiagProcesses_def clearNeighborQMDLFiles_def Let_def)
  with e ensureManagedDiagLocked_establishes [OF e] show ?thesis
    by (simp add: spawns_positive_def sample_world_def)
qed

lemma legacy_starts: "stopLegacyNeighborService w = (r, w') \<Longrightarrow> w_starts w' = w_starts w"
  by (auto simp: stopLegacyNeighborService_def signals_send Let_def split: option.splits if_splits)


text \<open>Stopping ends the logger it managed (by force when the process ignores the request) and forgets it; it reports
  false only when there was none, and then sends no signal.\<close>
theorem stopNeighborCollection_stops:
  assumes "stopNeighborCollection state m w = (b, m', w')"
  shows "mg_pid m' = 0 \<and> mg_child m' = None \<and> mg_lastAccess m' = None \<and>
    (if b then \<exists>p. own_logger w p \<and> \<not> own_logger w' p else w_signals w' = w_signals w)"
  using assms stopManaged_facts [of state "m\<lparr>mg_lastAccess := None\<rparr>" w b m' w']
  by (simp add: stopNeighborCollection_def)

theorem stopNeighborCollection_stops_witness:
  "\<exists>m' w' p. stopNeighborCollection ''x'' new_manager sample_world = (True, m', w') \<and> own_logger sample_world p \<and> \<not> own_logger w' p"
proof -
  obtain b m w where s: "stopNeighborCollection ''x'' new_manager sample_world = (b, m, w)" by (metis surj_pair)
  have seven: "Atoi (TrimSpace ''7'') = Some 7" by code_simp
  have "pidAlive sample_world 7" "isNeighborDiag sample_world 7"
    by (simp_all add: pidAlive_def isNeighborDiag_def processCmdline_def sample_world_def diag_cmdline_neighbor)
  then have "refreshManagedPIDLocked (new_manager\<lparr>mg_lastAccess := None\<rparr>) sample_world = (new_manager\<lparr>mg_lastAccess := None, mg_pid := 7, mg_child := None\<rparr>, sample_world)"
    by (simp add: refreshManagedPIDLocked_def new_manager_def seven sample_world_def [THEN arg_cong [where f = w_pidfile], simplified] Let_def)
  then have b using s \<open>isNeighborDiag sample_world 7\<close>
    by (auto simp: stopNeighborCollection_def stopManagedDiagLocked_def Let_def split: if_splits)
  with s stopNeighborCollection_stops [OF s] show ?thesis by auto
qed

end
