(* ===== verification/Atomic_File.thy ===== *)
theory Atomic_File
  imports Go_Format Prelude
begin

text \<open>
  \<^verbatim>\<open>writeFileAtomic\<close> of \<^verbatim>\<open>tools/u60-qtrace-reducer/config.go\<close>: a file is written under a temporary name in
  its directory and renamed.  The file system is a map from paths to contents; what each system call
  answers is the record \<open>write_faults\<close>.  The contract of a store whose writes happen completely or not
  at all is the locale \<open>atomic_store\<close>; the theory shows that \<^verbatim>\<open>writeFileAtomic\<close> implements it, seen
  through the files that are not temporary.
\<close>

section \<open>The contract\<close>

locale atomic_store =
  fixes put :: "'f \<Rightarrow> 'k \<Rightarrow> 'v \<Rightarrow> 's \<Rightarrow> 'e option \<times> 's"
    and view :: "'s \<Rightarrow> 'k \<rightharpoonup> 'v"
    and faults_ok :: "'f \<Rightarrow> bool" and key_ok :: "'k \<Rightarrow> bool"
  assumes write_view: "faults_ok f \<Longrightarrow> key_ok k \<Longrightarrow>
    view (snd (put f k v s)) = (if fst (put f k v s) = None then (view s)(k \<mapsto> v) else view s)"
begin

lemma read_back: "faults_ok f \<Longrightarrow> key_ok k \<Longrightarrow> fst (put f k v s) = None \<Longrightarrow> view (snd (put f k v s)) k = Some v"
  by (simp add: write_view)

lemma failed_write_kept: "faults_ok f \<Longrightarrow> key_ok k \<Longrightarrow> fst (put f k v s) \<noteq> None \<Longrightarrow> view (snd (put f k v s)) = view s"
  by (auto simp: write_view)

lemma others_kept: "faults_ok f \<Longrightarrow> key_ok k \<Longrightarrow> k' \<noteq> k \<Longrightarrow> view (snd (put f k v s)) k' = view s k'"
  by (simp add: write_view)

lemma never_torn: "faults_ok f \<Longrightarrow> key_ok k \<Longrightarrow> view (snd (put f k v s)) k \<in> {view s k, Some v}"
  by (simp add: write_view)

end

section \<open>The operation\<close>

type_synonym file_sys = "string \<rightharpoonup> byte list"

text \<open>The answers of \<^verbatim>\<open>MkdirAll\<close>, \<^verbatim>\<open>CreateTemp\<close> (an error or the name), \<^verbatim>\<open>Chmod\<close>, \<^verbatim>\<open>Write\<close> (how much was written
  before the error), \<^verbatim>\<open>Sync\<close>, \<^verbatim>\<open>Close\<close>, \<^verbatim>\<open>Rename\<close>, and whether the deferred \<^verbatim>\<open>Remove\<close> succeeds.\<close>

record write_faults =
  wf_mkdir :: err
  wf_temp :: "string + string"
  wf_chmod :: err
  wf_write :: "(nat \<times> string) option"
  wf_sync :: err
  wf_close :: err
  wf_rename :: err
  wf_removable :: bool

text \<open>The deferred function on the paths that leave \<^verbatim>\<open>ok\<close> false.\<close>

definition abandon :: "write_faults \<Rightarrow> string \<Rightarrow> string \<Rightarrow> file_sys \<Rightarrow> err \<times> file_sys" where
  "abandon w tmp e fs = (Some e, if wf_removable w then fs(tmp := None) else fs)"

definition writeFileAtomic :: "write_faults \<Rightarrow> string \<Rightarrow> byte list \<Rightarrow> file_sys \<Rightarrow> err \<times> file_sys" where
  "writeFileAtomic w path data fs =
     (case wf_mkdir w of Some e \<Rightarrow> (Some e, fs) | None \<Rightarrow>
     (case wf_temp w of Inl e \<Rightarrow> (Some e, fs) | Inr tmp \<Rightarrow>
     (let fs = fs(tmp \<mapsto> []) in
      case wf_chmod w of Some e \<Rightarrow> abandon w tmp e fs | None \<Rightarrow>
     (case wf_write w of Some (n, e) \<Rightarrow> abandon w tmp e (fs(tmp \<mapsto> take n data)) | None \<Rightarrow>
     (let fs = fs(tmp \<mapsto> data) in
      case wf_sync w of Some e \<Rightarrow> abandon w tmp e fs | None \<Rightarrow>
     (case wf_close w of Some e \<Rightarrow> abandon w tmp e fs | None \<Rightarrow>
     (case wf_rename w of Some e \<Rightarrow> abandon w tmp e fs | None \<Rightarrow>
        (None, fs(tmp := None, path \<mapsto> data)))))))))"

text \<open>\<^verbatim>\<open>filepath.Join\<close>, up to the cleaning of the result, which names the same file.\<close>

definition path_join :: "string \<Rightarrow> string \<Rightarrow> string" where
  "path_join a b = (if a = [] then b else if b = [] then a else a @ ''/'' @ b)"

text \<open>\<^verbatim>\<open>os.RemoveAll\<close>.\<close>

definition remove_all :: "string \<Rightarrow> file_sys \<Rightarrow> file_sys" where
  "remove_all dir fs = (\<lambda>p. if p = dir \<or> HasPrefix p (dir @ ''/'') then None else fs p)"

section \<open>Visible files\<close>

text \<open>\<^verbatim>\<open>os.CreateTemp(dir, ".u60-qtrace-*")\<close> answers a name whose last component starts with the pattern.\<close>

definition base_name :: "string \<Rightarrow> string" where
  "base_name path = last (split_on (CHR ''/'') path)"

definition is_temp :: "string \<Rightarrow> bool" where
  "is_temp path \<longleftrightarrow> HasPrefix (base_name path) ''.u60-qtrace-''"

definition temp_ok :: "write_faults \<Rightarrow> bool" where
  "temp_ok w \<longleftrightarrow> (case wf_temp w of Inl _ \<Rightarrow> True | Inr tmp \<Rightarrow> is_temp tmp)"

definition visible :: "file_sys \<Rightarrow> file_sys" where
  "visible fs = (\<lambda>p. if is_temp p then None else fs p)"

lemma visible_temp [simp]: "is_temp p \<Longrightarrow> visible (fs(p := v)) = visible fs"
  by (auto simp: visible_def)

lemma visible_upd: "\<not> is_temp p \<Longrightarrow> visible (fs(p := v)) = (visible fs)(p := v)"
  by (auto simp: visible_def)

lemma visible_abandon [simp]: "is_temp tmp \<Longrightarrow> visible (snd (abandon w tmp e fs)) = visible fs"
  by (simp add: abandon_def)

lemma fst_abandon [simp]: "fst (abandon w tmp e fs) = Some e"
  by (simp add: abandon_def)

interpretation fstore: atomic_store writeFileAtomic visible temp_ok "\<lambda>p. \<not> is_temp p"
proof
  fix w k v s assume "temp_ok w" "\<not> is_temp k"
  then show "visible (snd (writeFileAtomic w k v s)) =
      (if fst (writeFileAtomic w k v s) = None then (visible s)(k \<mapsto> v) else visible s)"
    by (auto simp: writeFileAtomic_def temp_ok_def visible_upd Let_def split: option.split sum.split)
qed

section \<open>Names\<close>

lemma last_split_on: "last (split_on s (xs @ s # ys)) = last (split_on s ys)"
proof (induction xs)
  case (Cons a xs)
  have "2 \<le> length (split_on s (xs @ s # ys))" by (simp add: length_split_on)
  then obtain y z zs where "split_on s (xs @ s # ys) = y # z # zs" by (auto simp: numeral_2_eq_2 Suc_le_length_iff)
  with Cons.IH show ?case by simp
qed simp

lemma base_name_append: "CHR ''/'' \<notin> set name \<Longrightarrow> base_name (dir @ ''/'' @ name) = name"
  using last_split_on [of "CHR ''/''" dir name] by (simp add: base_name_def split_on_no_sep)

lemma base_name_join: "name \<noteq> [] \<Longrightarrow> base_name (path_join dir name) = base_name name"
  using last_split_on [of "CHR ''/''" dir name] by (simp add: path_join_def base_name_def)

lemma path_join_inject: "a \<noteq> [] \<Longrightarrow> b \<noteq> [] \<Longrightarrow> path_join dir a = path_join dir b \<longleftrightarrow> a = b"
  by (simp add: path_join_def)

text \<open>A store in which nothing fails, for the examples.\<close>

definition no_faults :: write_faults where
  "no_faults = \<lparr>wf_mkdir = None, wf_temp = Inr ''/tmp/.u60-qtrace-1'', wf_chmod = None, wf_write = None,
     wf_sync = None, wf_close = None, wf_rename = None, wf_removable = True\<rparr>"

lemma no_faults_ok: "temp_ok no_faults"
  by code_simp

lemma writeFileAtomic_no_faults:
  "writeFileAtomic no_faults path data fs = (None, fs(''/tmp/.u60-qtrace-1'' := None, path \<mapsto> data))"
  by (simp add: writeFileAtomic_def no_faults_def Let_def)

section \<open>Property\<close>

text \<open>C30: Writing a file refines an atomic update of the map of visible files: for every combination of failing system
  calls, either the call reports success and the visible files are the old ones with exactly the new
  contents at the path, or it reports an error and they are unchanged; no reader sees a torn file.\<close>
theorem writeFileAtomic_atomic:
  assumes "temp_ok w" and "\<not> is_temp path"
  shows "visible (snd (writeFileAtomic w path data fs)) =
    (if fst (writeFileAtomic w path data fs) = None then (visible fs)(path \<mapsto> data) else visible fs)"
  using assms by (rule fstore.write_view)

theorem writeFileAtomic_atomic_witness:
  "visible (snd (writeFileAtomic (no_faults\<lparr>wf_write := Some (1, ''disk full'')\<rparr>) ''/a'' [1, 2] [''/a'' \<mapsto> [7]])) ''/a'' = Some [7]"
proof -
  have "temp_ok (no_faults\<lparr>wf_write := Some (1, ''disk full'')\<rparr>)" "\<not> is_temp ''/a''" by code_simp+
  from writeFileAtomic_atomic [OF this, of "[1, 2]" "[''/a'' \<mapsto> [7]]"] show ?thesis
    by (simp add: writeFileAtomic_def no_faults_def Let_def visible_def is_temp_def base_name_def HasPrefix_def)
qed

end
