(* ===== verification/Neighbor_Assets.thy ===== *)
theory Neighbor_Assets
  imports Neighbor_Manager Atomic_File
begin

text \<open>
  The files of the logger manager (\<^verbatim>\<open>gossh/app/service/neighbor_cell.go\<close>): the extraction of the embedded qtrace
  configuration before a logger is started, the small text files with the process number and the state,
  and the status page.  The directory is a map from paths to nodes, a regular file or something else (a
  directory, a link); the answers of the system calls are records, as in \<^verbatim>\<open>Atomic_File\<close>.  Installing the
  configuration and writing a text file are two more instances of \<open>atomic_store\<close>.  The digest and the
  embedded data are parameters.
\<close>

section \<open>Nodes\<close>

datatype node = Regular "byte list" | Special

type_synonym nodes = "string \<rightharpoonup> node"

definition neighborLegacyParser :: string where "neighborLegacyParser = ''u60nbrqt_parser''"

definition neighborConfigSHA256 :: string where
  "neighborConfigSHA256 = ''15b669eff11b53cf0fa461fe91b3c9b086912dee7a80a166c47d7d1b8c646c58''"

definition assetPath :: string where "assetPath = neighborBaseDir @ ''/'' @ neighborConfig"
definition legacyPath :: string where "legacyPath = neighborBaseDir @ ''/'' @ neighborLegacyParser"

section \<open>Writing a resource\<close>

text \<open>The deferred function on the paths that leave \<^verbatim>\<open>ok\<close> false.\<close>

definition abandon_node :: "write_faults \<Rightarrow> string \<Rightarrow> string \<Rightarrow> nodes \<Rightarrow> err \<times> nodes" where
  "abandon_node w tmp e ns = (Some e, if wf_removable w then ns(tmp := None) else ns)"

text \<open>The second half of \<^verbatim>\<open>writeAssetIfChanged\<close>.\<close>

definition install_asset :: "write_faults \<Rightarrow> string \<Rightarrow> byte list \<Rightarrow> nodes \<Rightarrow> err \<times> nodes" where
  "install_asset w path data ns =
     (case wf_temp w of
        Inl e \<Rightarrow> (Some (utf8 [0xe5, 0x88, 0x9b, 0xe5, 0xbb, 0xba, 0xe4, 0xb8, 0xb4, 0xe6, 0x97, 0xb6, 0xe8, 0xb5, 0x84, 0xe6, 0xba, 0x90, 0xe5, 0xa4, 0xb1, 0xe8, 0xb4, 0xa5] @ '': '' @ e), ns)
      | Inr tmp \<Rightarrow>
     (let ns = ns(tmp \<mapsto> Regular []) in
      case wf_chmod w of Some e \<Rightarrow> abandon_node w tmp e ns | None \<Rightarrow>
     (case wf_write w of Some (n, e) \<Rightarrow> abandon_node w tmp e (ns(tmp \<mapsto> Regular (take n data))) | None \<Rightarrow>
     (let ns = ns(tmp \<mapsto> Regular data) in
      case wf_sync w of Some e \<Rightarrow> abandon_node w tmp e ns | None \<Rightarrow>
     (case wf_close w of Some e \<Rightarrow> abandon_node w tmp e ns | None \<Rightarrow>
     (case wf_rename w of
        Some e \<Rightarrow> abandon_node w tmp
          (utf8 [0xe5, 0xae, 0x89, 0xe8, 0xa3, 0x85, 0xe8, 0xb5, 0x84, 0xe6, 0xba, 0x90] @ '' '' @ base_name path @ '' '' @ utf8 [0xe5, 0xa4, 0xb1, 0xe8, 0xb4, 0xa5] @ '': '' @ e) ns
      | None \<Rightarrow> (None, ns(tmp := None, path \<mapsto> Regular data))))))))"

text \<open>The answers of \<^verbatim>\<open>Lstat\<close> (an error other than a missing file), \<^verbatim>\<open>ReadFile\<close>, \<^verbatim>\<open>Chmod\<close> and \<^verbatim>\<open>RemoveAll\<close>.\<close>

record asset_faults =
  af_lstat :: err
  af_read :: err
  af_chmod :: err
  af_removeAll :: err
  af_write :: write_faults

definition writeAssetIfChanged :: "(byte list \<Rightarrow> string) \<Rightarrow> asset_faults \<Rightarrow> string \<Rightarrow> byte list \<Rightarrow> string \<Rightarrow> nodes \<Rightarrow> err \<times> nodes" where
  "writeAssetIfChanged sha256 a path data expectedHash ns =
     (case (if af_lstat a = None then ns path else None) of
        Some (Regular current) \<Rightarrow>
          if af_read a = None \<and> sha256 current = expectedHash then (af_chmod a, ns)
          else install_asset (af_write a) path data ns
      | Some Special \<Rightarrow>
          (case af_removeAll a of
             Some e \<Rightarrow> (Some (utf8 [0xe7, 0xa7, 0xbb, 0xe9, 0x99, 0xa4, 0xe6, 0x97, 0xa0, 0xe6, 0x95, 0x88, 0xe8, 0xb5, 0x84, 0xe6, 0xba, 0x90] @ '' '' @ base_name path @ '' '' @ utf8 [0xe5, 0xa4, 0xb1, 0xe8, 0xb4, 0xa5] @ '': '' @ e), ns)
           | None \<Rightarrow> install_asset (af_write a) path data (ns(path := None)))
      | None \<Rightarrow> install_asset (af_write a) path data ns)"

section \<open>Extraction\<close>

text \<open>The answers of the calls before the resource: \<open>ef_remove\<close> is an error of \<^verbatim>\<open>Remove\<close> other than a missing file;
  \<open>ef_embed\<close> is what the embedded file system holds.\<close>

record extract_faults =
  ef_mkdirBase :: err
  ef_chmodBase :: err
  ef_mkdirRing :: err
  ef_remove :: err
  ef_embed :: "string + byte list"
  ef_asset :: asset_faults

definition extractNeighborAssets :: "(byte list \<Rightarrow> string) \<Rightarrow> extract_faults \<Rightarrow> nodes \<Rightarrow> err \<times> nodes" where
  "extractNeighborAssets sha256 x ns =
     (case ef_mkdirBase x of Some e \<Rightarrow> (Some (utf8 [0xe5, 0x88, 0x9b, 0xe5, 0xbb, 0xba, 0xe9, 0x82, 0xbb, 0xe5, 0x8c, 0xba, 0xe7, 0x9b, 0xae, 0xe5, 0xbd, 0x95, 0xe5, 0xa4, 0xb1, 0xe8, 0xb4, 0xa5] @ '': '' @ e), ns) | None \<Rightarrow>
     (case ef_chmodBase x of Some e \<Rightarrow> (Some (utf8 [0xe8, 0xae, 0xbe, 0xe7, 0xbd, 0xae, 0xe9, 0x82, 0xbb, 0xe5, 0x8c, 0xba, 0xe7, 0x9b, 0xae, 0xe5, 0xbd, 0x95, 0xe6, 0x9d, 0x83, 0xe9, 0x99, 0x90, 0xe5, 0xa4, 0xb1, 0xe8, 0xb4, 0xa5] @ '': '' @ e), ns) | None \<Rightarrow>
     (case ef_mkdirRing x of
        Some e \<Rightarrow> (Some (utf8 [0xe5, 0x88, 0x9b, 0xe5, 0xbb, 0xba] @ '' QMDL '' @ utf8 [0xe7, 0x9b, 0xae, 0xe5, 0xbd, 0x95, 0xe5, 0xa4, 0xb1, 0xe8, 0xb4, 0xa5] @ '': '' @ e), ns)
      | None \<Rightarrow>
     (case ef_remove x of
        Some e \<Rightarrow> (Some (utf8 [0xe7, 0xa7, 0xbb, 0xe9, 0x99, 0xa4, 0xe6, 0x97, 0xa7, 0xe9, 0x82, 0xbb, 0xe5, 0x8c, 0xba, 0xe8, 0xa7, 0xa3, 0xe6, 0x9e, 0x90, 0xe5, 0x99, 0xa8, 0xe5, 0xa4, 0xb1, 0xe8, 0xb4, 0xa5] @ '': '' @ e), ns)
      | None \<Rightarrow>
     (let ns = ns(legacyPath := None) in
      case ef_embed x of
        Inl e \<Rightarrow> (Some (utf8 [0xe8, 0xaf, 0xbb, 0xe5, 0x8f, 0x96, 0xe5, 0x86, 0x85, 0xe5, 0xb5, 0x8c] @ '' '' @ neighborConfig @ '' '' @ utf8 [0xe5, 0xa4, 0xb1, 0xe8, 0xb4, 0xa5] @ '': '' @ e), ns)
      | Inr data \<Rightarrow>
          if sha256 data \<noteq> neighborConfigSHA256
          then (Some (utf8 [0xe5, 0x86, 0x85, 0xe5, 0xb5, 0x8c] @ '' '' @ neighborConfig @ '' '' @ utf8 [0xe6, 0xa0, 0xa1, 0xe9, 0xaa, 0x8c, 0xe5, 0xa4, 0xb1, 0xe8, 0xb4, 0xa5]), ns)
          else writeAssetIfChanged sha256 (ef_asset x) assetPath data neighborConfigSHA256 ns)))))"

text \<open>\<^verbatim>\<open>ensureNeighborPipeline\<close> with the extraction in place of its answer.\<close>

definition ensurePipelineWithAssets :: "(byte list \<Rightarrow> string) \<Rightarrow> extract_faults \<Rightarrow> manager \<Rightarrow> world \<times> nodes \<Rightarrow>
    mgr_error option \<times> manager \<times> world \<times> nodes" where
  "ensurePipelineWithAssets sha256 x m wn =
     (let (w, ns) = wn; (e, ns) = extractNeighborAssets sha256 x ns;
          (r, m, w) = ensureNeighborPipeline m (w\<lparr>w_extract := e\<rparr>)
      in (r, m, w, ns))"

section \<open>Text files\<close>

text \<open>The answers are those of \<^verbatim>\<open>Atomic_File\<close>; the file is not synced and the temporary name is removed on every path.\<close>

definition writeNeighborTextFile :: "write_faults \<Rightarrow> string \<Rightarrow> byte list \<Rightarrow> nodes \<Rightarrow> err \<times> nodes" where
  "writeNeighborTextFile w path v ns =
     (case wf_temp w of Inl e \<Rightarrow> (Some e, ns) | Inr tmp \<Rightarrow>
     (let ns = ns(tmp \<mapsto> Regular []) in
      case wf_chmod w of Some e \<Rightarrow> abandon_node w tmp e ns | None \<Rightarrow>
     (case wf_write w of Some (n, e) \<Rightarrow> abandon_node w tmp e (ns(tmp \<mapsto> Regular (take n v))) | None \<Rightarrow>
     (let ns = ns(tmp \<mapsto> Regular v) in
      case wf_close w of Some e \<Rightarrow> abandon_node w tmp e ns | None \<Rightarrow>
     (case wf_rename w of Some e \<Rightarrow> abandon_node w tmp e ns | None \<Rightarrow>
        (None, ns(tmp := None, path \<mapsto> Regular v)))))))"

section \<open>The status page\<close>

record NeighborServiceStatus =
  DirExists :: bool
  State :: string
  ParserExists :: bool
  Source :: string
  DiagRunning :: bool
  PID :: int
  IdleSeconds :: int

text \<open>\<open>dir\<close> says whether the directory exists, \<open>state\<close> is the contents of the state file if it can be read.  The clock
  counts milliseconds.\<close>

definition NeighborServiceStatusHandler :: "bool \<Rightarrow> string option \<Rightarrow> manager \<Rightarrow> world \<Rightarrow> NeighborServiceStatus \<times> manager \<times> world" where
  "NeighborServiceStatusHandler dir state m w =
     (let status = \<lparr>DirExists = dir, State = (case state of None \<Rightarrow> [] | Some t \<Rightarrow> TrimSpace t), ParserExists = True,
                    Source = ''ubus'', DiagRunning = False, PID = 0, IdleSeconds = 0\<rparr>;
          (m, w) = refreshManagedPIDLocked m w;
          status = status\<lparr>PID := mg_pid m, DiagRunning := (mg_pid m > 0)\<rparr>;
          status = (case mg_lastAccess m of None \<Rightarrow> status | Some t \<Rightarrow> status\<lparr>IdleSeconds := (w_now w - t) div 1000\<rparr>);
          status = (if ParserExists status \<and> DiagRunning status then status\<lparr>Source := ''parser''\<rparr> else status)
      in (status, m, w))"

section \<open>The stores\<close>

text \<open>\<^verbatim>\<open>os.CreateTemp\<close> answers a name whose last component starts with the pattern, so it is none of the manager's files.\<close>

definition pattern_of :: "string \<Rightarrow> string \<Rightarrow> bool" where
  "pattern_of pat path \<longleftrightarrow> HasPrefix (base_name path) pat"

definition names_ok :: "string \<Rightarrow> write_faults \<Rightarrow> bool" where
  "names_ok pat w \<longleftrightarrow> (case wf_temp w of Inl _ \<Rightarrow> True | Inr tmp \<Rightarrow> pattern_of pat tmp)"

definition shown :: "string \<Rightarrow> nodes \<Rightarrow> string \<rightharpoonup> byte list" where
  "shown pat ns = (\<lambda>p. if pattern_of pat p then None else (case ns p of Some (Regular d) \<Rightarrow> Some d | _ \<Rightarrow> None))"

lemma shown_hidden [simp]: "pattern_of pat p \<Longrightarrow> shown pat (ns(p := v)) = shown pat ns"
  by (auto simp: shown_def)

lemma shown_upd [simp]: "\<not> pattern_of pat p \<Longrightarrow> shown pat (ns(p \<mapsto> Regular d)) = (shown pat ns)(p \<mapsto> d)"
  by (auto simp: shown_def)

lemma abandon_node_facts [simp]:
  "fst (abandon_node w tmp e ns) = Some e" "pattern_of pat tmp \<Longrightarrow> shown pat (snd (abandon_node w tmp e ns)) = shown pat ns"
  by (simp_all add: abandon_node_def)

abbreviation asset_pattern :: string where "asset_pattern \<equiv> ''.neighbor-asset-''"
abbreviation state_pattern :: string where "state_pattern \<equiv> ''.neighbor-state-''"

interpretation asset_store: atomic_store install_asset "shown asset_pattern" "names_ok asset_pattern" "\<lambda>p. \<not> pattern_of asset_pattern p"
proof
  fix w k v s assume "names_ok asset_pattern w" "\<not> pattern_of asset_pattern k"
  then show "shown asset_pattern (snd (install_asset w k v s)) =
      (if fst (install_asset w k v s) = None then (shown asset_pattern s)(k \<mapsto> v) else shown asset_pattern s)"
    by (auto simp: install_asset_def names_ok_def Let_def split: option.split sum.split)
qed

interpretation text_store: atomic_store writeNeighborTextFile "shown state_pattern" "names_ok state_pattern" "\<lambda>p. \<not> pattern_of state_pattern p"
proof
  fix w k v s assume "names_ok state_pattern w" "\<not> pattern_of state_pattern k"
  then show "shown state_pattern (snd (writeNeighborTextFile w k v s)) =
      (if fst (writeNeighborTextFile w k v s) = None then (shown state_pattern s)(k \<mapsto> v) else shown state_pattern s)"
    by (auto simp: writeNeighborTextFile_def names_ok_def Let_def split: option.split sum.split)
qed

section \<open>What the extraction guarantees\<close>

lemma assetPath_ok: "\<not> pattern_of asset_pattern assetPath" "\<not> pattern_of asset_pattern legacyPath" "assetPath \<noteq> legacyPath"
  by code_simp+

text \<open>The shown files after a resource was written: the old ones, possibly without a node that was not a file, or with the
  new data at the path.\<close>

lemma writeAsset_view:
  assumes "names_ok asset_pattern (af_write a)" and "\<not> pattern_of asset_pattern path"
  shows "shown asset_pattern (snd (writeAssetIfChanged sha256 a path data h ns)) \<in>
      {shown asset_pattern ns, (shown asset_pattern ns)(path \<mapsto> data)}"
proof -
  have i: "shown asset_pattern (snd (install_asset (af_write a) path data ns')) \<in>
      {shown asset_pattern ns', (shown asset_pattern ns')(path \<mapsto> data)}" for ns'
    using asset_store.write_view [OF assms, of data ns'] by simp
  have "shown asset_pattern (ns(path := None)) = shown asset_pattern ns" if "ns path = Some Special"
    using that by (auto simp: shown_def)
  then show ?thesis using i [of ns] i [of "ns(path := None)"]
    by (auto simp: writeAssetIfChanged_def split: option.splits node.splits)
qed

lemma writeAsset_done:
  assumes "names_ok asset_pattern (af_write a)" and "\<not> pattern_of asset_pattern path" and "sha256 data = h"
    and "fst (writeAssetIfChanged sha256 a path data h ns) = None"
  shows "\<exists>d. shown asset_pattern (snd (writeAssetIfChanged sha256 a path data h ns)) path = Some d \<and> sha256 d = h"
proof -
  have i: "shown asset_pattern (snd (install_asset (af_write a) path data ns')) path = Some data"
    if "fst (install_asset (af_write a) path data ns') = None" for ns'
    using asset_store.read_back [OF assms(1,2) that] .
  have r: "shown asset_pattern ns path = Some d" if "ns path = Some (Regular d)" for d
    using that assms(2) by (simp add: shown_def)
  show ?thesis using assms(3,4) i r
    by (auto simp: writeAssetIfChanged_def split: option.splits node.splits if_splits)
qed

lemma extract_view:
  assumes "names_ok asset_pattern (af_write (ef_asset x))" and "p \<noteq> assetPath" and "p \<noteq> legacyPath"
  shows "shown asset_pattern (snd (extractNeighborAssets sha256 x ns)) p = shown asset_pattern ns p"
proof -
  have l: "shown asset_pattern (ns(legacyPath := None)) p = shown asset_pattern ns p" using assms(3) by (simp add: shown_def)
  have "shown asset_pattern (snd (writeAssetIfChanged sha256 (ef_asset x) assetPath data h (ns(legacyPath := None)))) p =
      shown asset_pattern (ns(legacyPath := None)) p" for data h
    using writeAsset_view [OF assms(1) assetPath_ok(1), of sha256 data h "ns(legacyPath := None)"] assms(2) by auto
  with l show ?thesis by (simp add: extractNeighborAssets_def Let_def split: option.split sum.split)
qed

lemma extract_done:
  assumes "names_ok asset_pattern (af_write (ef_asset x))" and "fst (extractNeighborAssets sha256 x ns) = None"
  shows "\<exists>d. shown asset_pattern (snd (extractNeighborAssets sha256 x ns)) assetPath = Some d \<and> sha256 d = neighborConfigSHA256"
  using assms(2) writeAsset_done [OF assms(1) assetPath_ok(1)]
  by (auto simp: extractNeighborAssets_def Let_def split: option.splits sum.splits if_splits)

lemma extract_config:
  assumes "names_ok asset_pattern (af_write (ef_asset x))"
  shows "shown asset_pattern (snd (extractNeighborAssets sha256 x ns)) assetPath = shown asset_pattern ns assetPath \<or>
    (\<exists>d. ef_embed x = Inr d \<and> sha256 d = neighborConfigSHA256 \<and>
       shown asset_pattern (snd (extractNeighborAssets sha256 x ns)) assetPath = Some d)"
proof -
  have l: "shown asset_pattern (ns(legacyPath := None)) assetPath = shown asset_pattern ns assetPath"
    using assetPath_ok(3) by (simp add: shown_def)
  have "shown asset_pattern (snd (writeAssetIfChanged sha256 (ef_asset x) assetPath data h (ns(legacyPath := None)))) assetPath
      \<in> {shown asset_pattern ns assetPath, Some data}" for data h
    using writeAsset_view [OF assms assetPath_ok(1), of sha256 data h "ns(legacyPath := None)"] l by auto
  with l show ?thesis by (auto simp: extractNeighborAssets_def Let_def split: option.split sum.split)
qed

lemma pipeline_extract_failed:
  assumes "ensureNeighborPipeline m (w\<lparr>w_extract := x\<rparr>) = (r, m', w')" and "x = Some e"
  shows "r = Some (ExtractFailed e) \<and> w_starts w' = w_starts w"
  using assms by (auto simp: ensureNeighborPipeline_def)

section \<open>Property\<close>


text \<open>A directory where the configuration was tampered with, and no call fails.\<close>

definition sample_extract :: extract_faults where
  "sample_extract = \<lparr>ef_mkdirBase = None, ef_chmodBase = None, ef_mkdirRing = None, ef_remove = None, ef_embed = Inr [1, 2, 3],
     ef_asset = \<lparr>af_lstat = None, af_read = None, af_chmod = None, af_removeAll = None,
       af_write = no_faults\<lparr>wf_temp := Inr ''/tmp/u60nbrqt_resident/.neighbor-asset-1''\<rparr>\<rparr>\<rparr>"

definition sample_digest :: "byte list \<Rightarrow> string" where
  "sample_digest d = (if d = [1, 2, 3] then neighborConfigSHA256 else [])"


end
