(* ===== verification/Ddmin.thy ===== *)
theory Ddmin
  imports Prelude
begin

text \<open>
  The delta-debugging search of \<^verbatim>\<open>tools/u60-qtrace-reducer/ddmin.go\<close>: \<^verbatim>\<open>ddmin\<close>, \<^verbatim>\<open>partitionStable\<close> and
  \<^verbatim>\<open>stableComplement\<close>.  The oracle \<^verbatim>\<open>test\<close> runs captures on a device, so it is a state transformer that
  may also fail; the search loop is a partial function whose result \<open>None\<close> would be divergence.  The
  theory proves that the search terminates for every oracle, that it returns a subsequence of its
  input that the oracle accepted (or the input itself), and that for an oracle that is a predicate
  the result is 1-minimal.
\<close>

section \<open>Definitions\<close>

fun partition_loop :: "'a list \<Rightarrow> nat \<Rightarrow> nat \<Rightarrow> nat \<Rightarrow> nat \<Rightarrow> nat \<Rightarrow> 'a list list" where
  "partition_loop items base extra index 0 offset = []"
| "partition_loop items base extra index (Suc k) offset =
     (let size = (if index < extra then base + 1 else base)
      in take size (drop offset items) # partition_loop items base extra (index + 1) k (offset + size))"

text \<open>The loop runs \<^verbatim>\<open>index\<close> from 0 to \<open>parts - 1\<close>; the fifth argument of \<open>partition_loop\<close> is the
  number of rounds left.\<close>

definition partitionStable :: "'a list \<Rightarrow> nat \<Rightarrow> 'a list list" where
  "partitionStable items parts =
     (let p = (if length items < parts then length items else parts);
          parts' = (if p < 1 then 1 else p);
          base = length items div parts'; extra = length items mod parts'
      in partition_loop items base extra 0 parts' 0)"

fun complement_loop :: "('a \<Rightarrow> nat) \<Rightarrow> 'a list \<Rightarrow> 'a list" where
  "complement_loop counts [] = []"
| "complement_loop counts (value # items) =
     (if 0 < counts value then complement_loop (counts(value := counts value - 1)) items
      else value # complement_loop counts items)"

definition stableComplement :: "'a list \<Rightarrow> 'a list \<Rightarrow> 'a list" where
  "stableComplement items remove =
     complement_loop (foldl (\<lambda>counts value. counts(value := counts value + 1)) (\<lambda>_. 0) remove) items"

type_synonym ('s, 'e, 'a) tester = "'s \<Rightarrow> 'a list \<Rightarrow> ('e + bool) \<times> 's"

text \<open>The two inner loops: the candidates in order, up to the first that passes or fails to run.\<close>

fun try_each :: "('s, 'e, 'a) tester \<Rightarrow> 's \<Rightarrow> 'a list list \<Rightarrow> ('e + 'a list option) \<times> 's" where
  "try_each test s [] = (Inr None, s)"
| "try_each test s (c # cs) =
     (case test s c of
        (Inl e, s') \<Rightarrow> (Inl e, s')
      | (Inr passed, s') \<Rightarrow> if passed then (Inr (Some c), s') else try_each test s' cs)"

definition complements :: "'a list \<Rightarrow> 'a list list \<Rightarrow> 'a list list" where
  "complements current partitions =
     filter (\<lambda>complement. complement \<noteq> []) (map (stableComplement current) partitions)"

partial_function (option) ddmin_loop ::
  "('s, 'e, 'a) tester \<Rightarrow> 's \<Rightarrow> 'a list \<Rightarrow> nat \<Rightarrow> (('e + 'a list) \<times> 's) option" where
  "ddmin_loop test s current n =
     (if length current < 2 then Some (Inr current, s)
      else case try_each test s (partitionStable current n) of
        (Inl e, s1) \<Rightarrow> Some (Inl e, s1)
      | (Inr (Some part), s1) \<Rightarrow> ddmin_loop test s1 part (if 2 < n then n - 1 else n)
      | (Inr None, s1) \<Rightarrow>
          (case try_each test s1 (complements current (partitionStable current n)) of
             (Inl e, s2) \<Rightarrow> Some (Inl e, s2)
           | (Inr (Some complement), s2) \<Rightarrow> ddmin_loop test s2 complement (if 2 < n then n - 1 else n)
           | (Inr None, s2) \<Rightarrow>
               if length current \<le> n then Some (Inr current, s2)
               else ddmin_loop test s2 current (if length current < n * 2 then length current else n * 2)))"

declare ddmin_loop.simps [code]

definition ddmin :: "('s, 'e, 'a) tester \<Rightarrow> 's \<Rightarrow> 'a list \<Rightarrow> (('e + 'a list) \<times> 's) option" where
  "ddmin test s items = (if length items = 0 then Some (Inr items, s) else ddmin_loop test s items 2)"

section \<open>Partitions and complements\<close>

lemma length_partition_loop [simp]: "length (partition_loop items base extra index k offset) = k"
  by (induction items base extra index k offset rule: partition_loop.induct) (simp_all add: Let_def)

lemma concat_partition_loop:
  "concat (partition_loop items base extra index k offset) =
   take (k * base + (min (index + k) extra - min index extra)) (drop offset items)"
proof (induction items base extra index k offset rule: partition_loop.induct)
  case (2 items base extra index k offset)
  let ?size = "if index < extra then base + 1 else base"
  let ?m = "k * base + (min (index + 1 + k) extra - min (index + 1) extra)"
  have eq: "Suc k * base + (min (index + Suc k) extra - min index extra) = ?size + ?m"
    by (auto simp: min_def)
  have "concat (partition_loop items base extra index (Suc k) offset) =
      take ?size (drop offset items) @ take ?m (drop (?size + offset) items)"
    using "2.IH" [OF refl] by (simp add: Let_def add.commute)
  also have "\<dots> = take (?size + ?m) (drop offset items)"
    by (simp only: take_add drop_drop)
  finally show ?case by (simp only: eq)
qed simp

lemma concat_partitionStable: "concat (partitionStable items parts) = items"
proof -
  let ?p = "if (if length items < parts then length items else parts) < 1 then 1
            else (if length items < parts then length items else parts)"
  have "0 < ?p" by simp
  then have "?p * (length items div ?p) + length items mod ?p = length items"
    and "length items mod ?p < ?p" by simp_all
  then show ?thesis
    unfolding partitionStable_def Let_def concat_partition_loop by simp
qed

lemma length_partitionStable:
  "2 \<le> parts \<Longrightarrow> 2 \<le> length items \<Longrightarrow> length (partitionStable items parts) = min parts (length items)"
  by (auto simp: partitionStable_def Let_def)

lemma partition_loop_sizes:
  "i < k \<Longrightarrow> offset + (k * base + (min (index + k) extra - min index extra)) \<le> length items \<Longrightarrow>
   length (partition_loop items base extra index k offset ! i) = base + (if index + i < extra then 1 else 0)"
proof (induction items base extra index k offset arbitrary: i rule: partition_loop.induct)
  case (2 items base extra index k offset)
  show ?case
  proof (cases i)
    case 0
    with "2.prems" show ?thesis by (auto simp: Let_def min_def split: if_splits)
  next
    case (Suc j)
    with "2.IH" [OF refl, of j] "2.prems" show ?thesis
      by (auto simp: Let_def min_def split: if_splits)
  qed
qed simp

text \<open>No slice of the partition is cut short: the parts have the sizes the code computes.\<close>

lemma partitionStable_nonempty:
  assumes "2 \<le> parts" and "2 \<le> length items" and "x \<in> set (partitionStable items parts)"
  shows "x \<noteq> []"
proof -
  let ?p = "min parts (length items)"
  have p: "0 < ?p" "?p \<le> length items" using assms(1,2) by (cases items; simp)+
  then have base: "0 < length items div ?p" by (simp add: div_greater_zero_iff)
  have ps: "partitionStable items parts =
      partition_loop items (length items div ?p) (length items mod ?p) 0 ?p 0"
    using assms by (auto simp: partitionStable_def Let_def min_def)
  have tot: "?p * (length items div ?p) + (min (0 + ?p) (length items mod ?p) - min 0 (length items mod ?p))
      = length items"
    using mod_less_divisor [OF p(1), of "length items"] by (simp only: min_absorb2 [OF less_imp_le] add_0 min_0L minus_nat.diff_0 mult_div_mod_eq)
  obtain i where i: "i < ?p" "x = partitionStable items parts ! i"
    using assms(3) by (auto simp: in_set_conv_nth ps)
  moreover have "length (partition_loop items (length items div ?p) (length items mod ?p) 0 ?p 0 ! i) =
      length items div ?p + (if 0 + i < length items mod ?p then 1 else 0)"
    by (rule partition_loop_sizes [OF i(1)]) (use tot in linarith)
  ultimately show ?thesis using base by (auto simp: ps)
qed

lemma shorter_than_concat:
  assumes "2 \<le> length xss" and "\<forall>y \<in> set xss. y \<noteq> []" and "x \<in> set xss"
  shows "length x < length (concat xss)"
proof -
  obtain as bs where xss: "xss = as @ x # bs" using assms(3) by (auto simp: in_set_conv_decomp)
  with assms(1) have "as \<noteq> [] \<or> bs \<noteq> []" by auto
  with assms(2) have "concat as \<noteq> [] \<or> concat bs \<noteq> []" by (auto simp: xss neq_Nil_conv)
  then show ?thesis by (auto simp: xss)
qed

lemma partitionStable_shorter:
  "2 \<le> parts \<Longrightarrow> 2 \<le> length items \<Longrightarrow> x \<in> set (partitionStable items parts) \<Longrightarrow> length x < length items"
  using shorter_than_concat [of "partitionStable items parts" x] partitionStable_nonempty [of parts items]
  by (auto simp: concat_partitionStable length_partitionStable)

lemma partitionStable_subseq:
  assumes "x \<in> set (partitionStable items parts)"
  shows "subseq x items" and "mset x \<subseteq># mset items"
proof -
  obtain as bs where "partitionStable items parts = as @ x # bs"
    using assms by (auto simp: in_set_conv_decomp)
  then have "items = concat as @ x @ concat bs"
    using concat_partitionStable [of items parts] by simp
  then show "subseq x items" and "mset x \<subseteq># mset items"
    by (auto intro: subseq_drop_many list_emb_append2 subseq_rev_drop_many)
qed

lemma partition_singletons:
  assumes "2 \<le> length items" and "length items \<le> parts"
  shows "partitionStable items parts = map (\<lambda>x. [x]) items"
proof -
  let ?ps = "partitionStable items parts"
  have len: "length ?ps = length items" using assms by (simp add: length_partitionStable)
  have ps: "?ps = partition_loop items 1 0 0 (length items) 0"
    using assms by (auto simp: partitionStable_def Let_def)
  have one: "length y = 1" if "y \<in> set ?ps" for y
    using that len by (auto simp: in_set_conv_nth ps partition_loop_sizes)
  moreover have "\<forall>y \<in> set yss. length y = 1 \<Longrightarrow> map (\<lambda>x. [x]) (concat yss) = yss" for yss :: "'a list list"
    by (induction yss) (auto simp: length_Suc_conv)
  ultimately show ?thesis by (metis concat_partitionStable)
qed

lemma count_complement_loop: "count (mset (complement_loop c xs)) v = count (mset xs) v - c v"
  by (induction xs arbitrary: c) auto

lemma subseq_complement_loop: "subseq (complement_loop c xs) xs"
  by (induction xs arbitrary: c) auto

lemma foldl_counts:
  "foldl (\<lambda>counts value. counts(value := Suc (counts value))) c0 xs v = c0 v + count (mset xs) v"
  by (induction xs arbitrary: c0) auto

lemma mset_stableComplement: "mset (stableComplement items remove) = mset items - mset remove"
  by (rule multiset_eqI) (simp add: stableComplement_def count_complement_loop foldl_counts)

lemma subseq_stableComplement: "subseq (stableComplement items remove) items"
  by (simp add: stableComplement_def subseq_complement_loop)

lemma complement_loop_none: "\<forall>x \<in> set xs. c x = 0 \<Longrightarrow> complement_loop c xs = xs"
  by (induction xs) auto

lemma stableComplement_singleton: "stableComplement items [x] = remove1 x items"
proof -
  have "complement_loop ((\<lambda>_. 0)(x := Suc 0)) xs = remove1 x xs" for xs
    by (induction xs) (auto simp: complement_loop_none)
  then show ?thesis by (simp add: stableComplement_def)
qed

lemma complements_shorter:
  assumes "2 \<le> n" and "2 \<le> length current" and "c \<in> set (complements current (partitionStable current n))"
  shows "length c < length current" and "subseq c current" and "c \<noteq> []"
proof -
  obtain p where p: "p \<in> set (partitionStable current n)" "c = stableComplement current p" "c \<noteq> []"
    using assms(3) by (auto simp: complements_def)
  then have "p \<noteq> []" and "mset p \<subseteq># mset current"
    using assms partitionStable_nonempty partitionStable_subseq by blast+
  then have "length p \<le> length current" "0 < length p" "0 < length current"
    using assms(2) by (auto dest: size_mset_mono)
  moreover have "size (mset c) = length current - length p"
    using \<open>mset p \<subseteq># mset current\<close> by (simp only: p mset_stableComplement size_Diff_submset size_mset)
  ultimately show "length c < length current" by (metis diff_less size_mset)
  show "subseq c current" "c \<noteq> []" using p subseq_stableComplement by auto
qed

section \<open>The search\<close>

lemma try_each_Some:
  "try_each test s cs = (Inr (Some c), s') \<Longrightarrow> c \<in> set cs \<and> (\<exists>s1. test s1 c = (Inr True, s'))"
  by (induction cs arbitrary: s) (auto split: prod.splits sum.splits if_splits)

lemma try_each_error:
  "try_each test s cs = (Inl e, s') \<Longrightarrow> \<exists>s1. \<exists>c \<in> set cs. test s1 c = (Inl e, s')"
  by (induction cs arbitrary: s) (fastforce split: prod.splits sum.splits if_splits)+

lemma try_each_predicate:
  "(\<And>s c. test s c = (Inr (p c), s)) \<Longrightarrow> try_each test s cs = (Inr (find p cs), s)"
  by (induction cs) auto

text \<open>The well-founded measure of the search: the current list shrinks, or stays and the granularity
  grows towards its length.\<close>

lemma ddmin_induct [consumes 1, case_names step]:
  assumes "2 \<le> n"
    and step: "\<And>s cur n. 2 \<le> n \<Longrightarrow>
      (\<And>s' c m. 2 \<le> m \<Longrightarrow> length c < length cur \<or> c = cur \<and> n < m \<and> m \<le> length cur \<Longrightarrow> P s' c m) \<Longrightarrow> P s cur n"
  shows "P s cur n"
  using assms(1)
proof (induction "(cur, n)" arbitrary: s cur n
    rule: wf_induct_rule [OF wf_measures [of "[\<lambda>(cur, n). length cur, \<lambda>(cur, n). length cur - n]"]])
  case (1 cur n)
  show ?case
    by (rule step [OF "1.prems"], rule "1.hyps") auto
qed

lemma granularity_ge_2: "2 \<le> n \<Longrightarrow> 2 \<le> (if 2 < n then n - 1 else n)" for n :: nat
  by auto

lemma granularity_grows:
  "2 \<le> n \<Longrightarrow> n < len \<Longrightarrow> n < (if len < n * 2 then len else n * 2) \<and> (if len < n * 2 then len else n * 2) \<le> len"
  for n len :: nat
  by auto

lemma ddmin_loop_terminates: "2 \<le> n \<Longrightarrow> \<exists>r. ddmin_loop test s cur n = Some r"
proof (induction s cur n rule: ddmin_induct)
  case (step s cur n)
  show ?case
  proof (cases "length cur < 2")
    case False
    then have "2 \<le> length cur" by simp
    note short = partitionStable_shorter [OF step.hyps this] complements_shorter(1) [OF step.hyps this]
    show ?thesis
      using False step.IH granularity_ge_2 [OF step.hyps] granularity_grows [OF step.hyps, of "length cur"] short
      by (subst ddmin_loop.simps)
         (auto split: prod.split sum.split option.split dest!: try_each_Some)
  qed (simp add: ddmin_loop.simps)
qed

text \<open>The state at the end of a round: after the parts, or after the parts and the complements.\<close>

definition round_end :: "('s, 'e, 'a) tester \<Rightarrow> 's \<Rightarrow> 'a list \<Rightarrow> nat \<Rightarrow> 's \<Rightarrow> bool" where
  "round_end test s cur n s' \<longleftrightarrow>
     (\<exists>r. try_each test s (partitionStable cur n) = (r, s')) \<or>
     (\<exists>s1 r. try_each test s (partitionStable cur n) = (Inr None, s1) \<and>
        try_each test s1 (complements cur (partitionStable cur n)) = (r, s'))"

text \<open>The outcomes of one round, for the proofs below.\<close>

lemma ddmin_loop_cases:
  assumes "ddmin_loop test s cur n = Some (r, s')" and "2 \<le> n"
  obtains (small) "length cur < 2" "r = Inr cur" "s' = s"
    | (error) c s1 e where "2 \<le> length cur" "round_end test s cur n s'" "subseq c cur"
        "test s1 c = (Inl e, s')" "r = Inl e"
    | (reduce) c s1 s2 m where "2 \<le> length cur" "round_end test s cur n s2" "length c < length cur"
        "subseq c cur" "c \<noteq> []" "2 \<le> m" "test s1 c = (Inr True, s2)" "ddmin_loop test s2 c m = Some (r, s')"
    | (refine) s2 m where "2 \<le> length cur" "round_end test s cur n s2" "n < m" "m \<le> length cur"
        "ddmin_loop test s2 cur m = Some (r, s')"
    | (stop) s1 where "2 \<le> length cur" "round_end test s cur n s'" "length cur \<le> n" "r = Inr cur"
        "try_each test s (partitionStable cur n) = (Inr None, s1)"
        "try_each test s1 (complements cur (partitionStable cur n)) = (Inr None, s')"
proof (cases "length cur < 2")
  case True
  with assms(1) small show ?thesis by (simp add: ddmin_loop.simps)
next
  case False
  then have l2: "2 \<le> length cur" by simp
  let ?ps = "partitionStable cur n" and ?m = "if 2 < n then n - 1 else n"
  note part = partitionStable_shorter [OF assms(2) l2] partitionStable_subseq(1) [of _ cur n]
    partitionStable_nonempty [OF assms(2) l2]
  note comp = complements_shorter [OF assms(2) l2]
  note m = granularity_ge_2 [OF assms(2)]
  note unf = assms(1) [unfolded ddmin_loop.simps [of test s cur n]] False
  obtain r1 s1 where t1: "try_each test s ?ps = (r1, s1)" by fastforce
  then have e1: "round_end test s cur n s1" by (auto simp: round_end_def)
  obtain r2 s2 where t2: "try_each test s1 (complements cur ?ps) = (r2, s2)" by fastforce
  consider (e) e where "r1 = Inl e" | (p) c where "r1 = Inr (Some c)" | (n) "r1 = Inr None"
    by (metis not_None_eq sumE)
  then show ?thesis
  proof cases
    case (e e)
    with t1 obtain c s0 where "c \<in> set ?ps" "test s0 c = (Inl e, s1)" by (auto dest: try_each_error)
    moreover from e t1 unf have "r = Inl e" "s' = s1" by auto
    ultimately show ?thesis using part(2) error l2 e1 by blast
  next
    case (p c)
    with t1 obtain s0 where c: "c \<in> set ?ps" "test s0 c = (Inr True, s1)" by (auto dest: try_each_Some)
    from p t1 unf have "ddmin_loop test s1 c ?m = Some (r, s')" by auto
    with c show ?thesis using part m reduce l2 e1 by blast
  next
    case n
    with t1 t2 have e2: "round_end test s cur n s2" by (auto simp: round_end_def)
    consider (e) e where "r2 = Inl e" | (p) c where "r2 = Inr (Some c)" | (n) "r2 = Inr None"
      by (metis not_None_eq sumE)
    then show ?thesis
    proof cases
      case (e e)
      with t2 obtain c s0 where "c \<in> set (complements cur ?ps)" "test s0 c = (Inl e, s2)"
        by (auto dest: try_each_error)
      moreover from e n t1 t2 unf have "r = Inl e" "s' = s2" by auto
      ultimately show ?thesis using comp(2) error l2 e2 by blast
    next
      case (p c)
      with t2 obtain s0 where c: "c \<in> set (complements cur ?ps)" "test s0 c = (Inr True, s2)"
        by (auto dest: try_each_Some)
      from p n t1 t2 unf have "ddmin_loop test s2 c ?m = Some (r, s')" by auto
      with c show ?thesis using comp m reduce l2 e2 by blast
    next
      case n2: n
      show ?thesis
      proof (cases "length cur \<le> n")
        case True
        with n n2 t1 t2 unf have "r = Inr cur" "s' = s2" by auto
        with True n n2 t1 t2 show ?thesis using stop l2 e2 by blast
      next
        case nf: False
        with n n2 t1 t2 unf have "ddmin_loop test s2 cur (if length cur < n * 2 then length cur else n * 2) = Some (r, s')"
          by auto
        with nf show ?thesis using granularity_grows [OF assms(2), of "length cur"] refine l2 e2 by auto
      qed
    qed
  qed
qed

lemma ddmin_loop_result:
  "2 \<le> n \<Longrightarrow> ddmin_loop test s cur n = Some (Inr out, s') \<Longrightarrow>
   subseq out cur \<and> (cur \<noteq> [] \<longrightarrow> out \<noteq> []) \<and> (out = cur \<or> (\<exists>s1 s2. test s1 out = (Inr True, s2)))"
proof (induction s cur n rule: ddmin_induct)
  case (step s cur n)
  from step.prems step.hyps show ?case
  proof (cases rule: ddmin_loop_cases)
    case (reduce c s1 s2 m)
    then have "subseq out c \<and> (c \<noteq> [] \<longrightarrow> out \<noteq> []) \<and> (out = c \<or> (\<exists>s1 s2. test s1 out = (Inr True, s2)))"
      using step.IH by blast
    with reduce show ?thesis by (metis subseq_order.order_trans)
  next
    case (refine s2 m)
    moreover from refine step.hyps have "2 \<le> m" by simp
    ultimately show ?thesis using step.IH [of m cur s2] by blast
  qed auto
qed

lemma ddmin_loop_error:
  "2 \<le> n \<Longrightarrow> ddmin_loop test s cur n = Some (Inl e, s') \<Longrightarrow>
   \<exists>c s1. subseq c cur \<and> test s1 c = (Inl e, s')"
proof (induction s cur n rule: ddmin_induct)
  case (step s cur n)
  from step.prems step.hyps show ?case
  proof (cases rule: ddmin_loop_cases)
    case (reduce c s1 s2 m)
    then show ?thesis using step.IH by (metis subseq_order.order_trans)
  next
    case (refine s2 m)
    moreover from refine step.hyps have "2 \<le> m" by simp
    ultimately show ?thesis using step.IH [of m cur s2] by blast
  qed auto
qed

lemma ddmin_loop_minimal:
  assumes pred: "\<And>s c. test s c = (Inr (p c), s)"
  shows "2 \<le> n \<Longrightarrow> ddmin_loop test s cur n = Some (Inr out, s') \<Longrightarrow> 2 \<le> length out \<Longrightarrow>
   \<forall>x \<in> set out. \<not> p [x] \<and> \<not> p (remove1 x out)"
proof (induction s cur n rule: ddmin_induct)
  case (step s cur n)
  from step.prems(1) step.hyps show ?case
  proof (cases rule: ddmin_loop_cases)
    case (reduce c s1 s2 m)
    then show ?thesis using step.IH step.prems(2) by blast
  next
    case (refine s2 m)
    moreover from refine step.hyps have "2 \<le> m" by simp
    ultimately show ?thesis using step.IH [of m cur s2] step.prems(2) by blast
  next
    case (stop s1)
    then have parts: "partitionStable cur n = map (\<lambda>x. [x]) cur" by (intro partition_singletons)
    have "remove1 x cur \<noteq> []" if "x \<in> set cur" for x
      using that stop(1) length_remove1 [of x cur] by auto
    then have "complements cur (partitionStable cur n) = map (\<lambda>x. remove1 x cur) cur"
      by (auto simp: complements_def parts stableComplement_singleton comp_def intro!: filter_True)
    with stop show ?thesis
      using try_each_predicate [where test = test and p = p, OF pred] parts
      by (auto simp: find_None_iff)
  qed (use step.prems(2) in auto)
qed

section \<open>Invariants of the oracle\<close>

text \<open>What the search relies on and what it hands on: if every test keeps a property of the device
  state, and every test that ran to a verdict establishes another, so does the whole search.\<close>

locale stateful_tester =
  fixes test :: "('s, 'e, 'a) tester" and inv :: "'s \<Rightarrow> bool" and usable :: "'a list \<Rightarrow> bool"
  assumes test_keeps: "inv s \<Longrightarrow> usable c \<Longrightarrow> inv (snd (test s c))"
    and usable_subseq: "usable c \<Longrightarrow> subseq c' c \<Longrightarrow> usable c'"
begin

lemma try_each_keeps:
  "inv s \<Longrightarrow> \<forall>c \<in> set cs. usable c \<Longrightarrow> inv (snd (try_each test s cs))"
proof (induction cs arbitrary: s)
  case (Cons c cs)
  then have "inv (snd (test s c))" by (simp add: test_keeps)
  with Cons show ?case by (auto split: prod.splits sum.splits)
qed simp

lemma round_keeps:
  assumes "inv s" and "usable cur" and "2 \<le> n" and "2 \<le> length cur" and "round_end test s cur n s'"
  shows "inv s'"
proof -
  have "\<forall>c \<in> set (partitionStable cur n). usable c"
    using assms(2) partitionStable_subseq(1) usable_subseq by blast
  moreover have "\<forall>c \<in> set (complements cur (partitionStable cur n)). usable c"
    using assms(2) complements_shorter(2) [OF assms(3,4)] usable_subseq by blast
  ultimately show ?thesis
    using assms(1,5) try_each_keeps unfolding round_end_def by (metis snd_conv)
qed

lemma loop_keeps:
  "2 \<le> n \<Longrightarrow> inv s \<Longrightarrow> usable cur \<Longrightarrow> ddmin_loop test s cur n = Some (r, s') \<Longrightarrow> inv s'"
proof (induction s cur n rule: ddmin_induct)
  case (step s cur n)
  from step.prems(3) step.hyps show ?case
  proof (cases rule: ddmin_loop_cases)
    case (reduce c s1 s2 m)
    with step.prems(1,2) step.hyps have "inv s2" "usable c" using round_keeps usable_subseq by blast+
    then show ?thesis using reduce step.IH by blast
  next
    case (refine s2 m)
    with step.prems(1,2) step.hyps have "inv s2" "2 \<le> m" using round_keeps by (blast, simp)
    then show ?thesis using refine step.IH [of m cur s2] step.prems(2) by blast
  qed (use step.prems(1,2) step.hyps round_keeps in blast)+
qed

lemma ddmin_keeps: "inv s \<Longrightarrow> usable items \<Longrightarrow> ddmin test s items = Some (r, s') \<Longrightarrow> inv s'"
  by (auto simp: ddmin_def split: if_splits intro: loop_keeps [of 2])

end

text \<open>An oracle for the examples: it accepts the candidates that hold both 3 and 6, cannot run a
  candidate that holds 9, and counts its calls in the state.\<close>

definition sample_tester :: "(nat, string, int) tester" where
  "sample_tester s c = (if 9 \<in> set c then Inl ''lost'' else Inr (3 \<in> set c \<and> 6 \<in> set c), Suc s)"

section \<open>Properties\<close>

text \<open>C5: the search terminates for every oracle, whatever it answers and however it changes the
  device state.\<close>

theorem ddmin_terminates: "\<exists>r. ddmin test s items = Some r"
  using ddmin_loop_terminates [of 2] by (auto simp: ddmin_def)

text \<open>C6: when the search returns a list, it is a subsequence of the items in their order, not empty
  unless the items are, and either all the items or a candidate the oracle accepted.\<close>

theorem ddmin_result_accepted:
  assumes "ddmin test s items = Some (Inr out, s')"
  shows "subseq out items \<and> (items \<noteq> [] \<longrightarrow> out \<noteq> []) \<and>
     (out = items \<or> (\<exists>s1 s2. test s1 out = (Inr True, s2)))"
  using assms ddmin_loop_result [of 2 test s items out s'] by (auto simp: ddmin_def split: if_splits)

theorem ddmin_result_accepted_witness:
  "subseq [3, 6] [1, 2, 3, 6 :: int] \<and> (\<exists>s1 s2. sample_tester s1 [3, 6] = (Inr True, s2))"
proof -
  have "ddmin sample_tester 0 [1, 2, 3, 6] = Some (Inr [3, 6], 6)" by code_simp
  from ddmin_result_accepted [OF this] show ?thesis by simp
qed

text \<open>an oracle error stops the search: it returns exactly the error, in the state, of the
  failing call, which was made on a subsequence of the items.\<close>

theorem ddmin_reports_error:
  assumes "ddmin test s items = Some (Inl e, s')"
  shows "\<exists>c s1. subseq c items \<and> test s1 c = (Inl e, s')"
  using assms ddmin_loop_error [of 2 test s items e s'] by (auto simp: ddmin_def split: if_splits)

theorem ddmin_reports_error_witness:
  "\<exists>c s1. subseq c [1, 2, 3, 9] \<and> sample_tester s1 c = (Inl ''lost'', 2)"
proof -
  have "ddmin sample_tester 0 [1, 2, 3, 9] = Some (Inl ''lost'', 2)" by code_simp
  then show ?thesis by (rule ddmin_reports_error)
qed

text \<open>C7: for an oracle that is a predicate on the candidate, the result is 1-minimal: if the items
  pass then so does the result, and when it has two or more elements neither a single one of them
  nor the result without any one of them passes.\<close>

theorem ddmin_one_minimal:
  assumes "ddmin (\<lambda>s c. (Inr (p c), s)) s items = Some (Inr out, s')" and "p items"
  shows "p out \<and> (2 \<le> length out \<longrightarrow> (\<forall>x \<in> set out. \<not> p [x] \<and> \<not> p (remove1 x out)))"
  using assms ddmin_loop_result [of 2 "\<lambda>s c. (Inr (p c), s)" s items out s']
    ddmin_loop_minimal [of "\<lambda>s c. (Inr (p c), s)" p 2 s items out s']
  by (auto simp: ddmin_def split: if_splits)

theorem ddmin_one_minimal_witness:
  "\<not> (3 \<in> set [3 :: int] \<and> 6 \<in> set [3 :: int]) \<and>
   \<not> (3 \<in> set (remove1 3 [3, 6 :: int]) \<and> 6 \<in> set (remove1 3 [3, 6 :: int]))"
proof -
  have "ddmin (\<lambda>s c. (Inr (3 \<in> set c \<and> 6 \<in> set c) :: string + bool, s)) () [1, 2, 3, 6 :: int] =
      Some (Inr [3, 6], ())" by code_simp
  from ddmin_one_minimal [OF this] show ?thesis by simp
qed

text \<open>the partition of a list into \<open>n \<ge> 2\<close> parts is stable and balanced: concatenated it gives
  the list back, there are as many parts as asked for (or as there are elements), none is empty, and
  each complement is the list without that part, as a multiset and in order.\<close>

theorem partition_complement_correct:
  assumes "2 \<le> n" and "2 \<le> length items"
  shows "concat (partitionStable items n) = items \<and>
     length (partitionStable items n) = min n (length items) \<and>
     (\<forall>p \<in> set (partitionStable items n). p \<noteq> [] \<and> subseq (stableComplement items p) items \<and>
        mset p + mset (stableComplement items p) = mset items)"
  using assms partitionStable_nonempty [OF assms] partitionStable_subseq(2) [of _ items n]
  by (auto simp: concat_partitionStable length_partitionStable subseq_stableComplement mset_stableComplement
      subset_mset.add_diff_inverse)

theorem partition_complement_correct_witness:
  "concat (partitionStable [4, 7, 7, 1, 2 :: int] 2) = [4, 7, 7, 1, 2] \<and>
   length (partitionStable [4, 7, 7, 1, 2 :: int] 2) = 2 \<and>
   mset [4, 7, 7] + mset (stableComplement [4, 7, 7, 1, 2] [4, 7, 7 :: int]) = mset [4, 7, 7, 1, 2]"
proof -
  have p: "[4, 7, 7] \<in> set (partitionStable [4, 7, 7, 1, 2 :: int] 2)" by code_simp
  from partition_complement_correct [of 2 "[4, 7, 7, 1, 2 :: int]"]
  have a: "concat (partitionStable [4, 7, 7, 1, 2 :: int] 2) = [4, 7, 7, 1, 2]"
    and b: "length (partitionStable [4, 7, 7, 1, 2 :: int] 2) = 2"
    and c: "\<forall>p \<in> set (partitionStable [4, 7, 7, 1, 2 :: int] 2). p \<noteq> [] \<and>
      subseq (stableComplement [4, 7, 7, 1, 2] p) [4, 7, 7, 1, 2] \<and>
      mset p + mset (stableComplement [4, 7, 7, 1, 2] p) = mset [4, 7, 7, 1, 2]"
    by simp_all
  from a b c [rule_format, OF p] show ?thesis by blast
qed

end
