(* ===== verification/Qtrace_Config.thy ===== *)
theory Qtrace_Config
  imports Diag_Hdlc
begin

text \<open>
  \<^verbatim>\<open>tools/u60-qtrace-reducer/config.go\<close>: a qtrace configuration is a sequence of HDLC frames, each a
  message-mask command (\<^verbatim>\<open>0x7d/0x04\<close>) or a private subsystem command (\<^verbatim>\<open>0x4b\<close>).  The theory holds
  the parser, the builder of mask frames, the selection of frames for a candidate run and the
  encoder, and proves that the parser never panics, that it accepts exactly the sequences of
  well-formed frames, and that encoding is its inverse.
\<close>

section \<open>Data\<close>

definition diagExtMessageConfig :: byte where "diagExtMessageConfig = 0x7d"
definition diagSubsysCommand :: byte where "diagSubsysCommand = 0x4b"
definition extMessageSetMask :: byte where "extMessageSetMask = 0x04"

record diagFrame =
  ID :: int
  Decoded :: "byte list"

record messageMaskFrame =
  Frame :: diagFrame
  First :: u16
  Last :: u16
  Reserved :: u16
  Masks :: "u32 list"

record qtraceConfig =
  Frames :: "diagFrame list"
  MessageFrames :: "messageMaskFrame list"
  PrivateFrames :: "diagFrame list"
  SourceSHA256 :: string
  SourceBytes :: nat

datatype privateMode = PrivateNone | PrivateBoth | Private9001 | Private0004

datatype cfg_error =
    Hdlc hdlc_error
  | Frame_too_short nat nat
  | CRC_mismatch nat u16 u16
  | Message_too_short int
  | Message_subcommand int byte
  | Reversed_range int u16 u16
  | Length_mismatch int nat nat u16 u16
  | Subsystem_too_short int
  | Unsupported_command byte int
  | No_frames
  | Invalid_range int

section \<open>Parsing\<close>

definition parseMessageMaskFrame :: "diagFrame \<Rightarrow> (cfg_error + messageMaskFrame) option" where
  "parseMessageMaskFrame frame = do {
     payload \<leftarrow> slice (Decoded frame) 0 (int (length (Decoded frame)) - 2);
     if length payload < 8 then Some (Inl (Message_too_short (ID frame)))
     else do {
       sub \<leftarrow> idx payload 1;
       if sub \<noteq> extMessageSetMask then Some (Inl (Message_subcommand (ID frame) sub))
       else do {
         first \<leftarrow> slice payload 2 4 \<bind> uint16le;
         last \<leftarrow> slice payload 4 6 \<bind> uint16le;
         if last < first then Some (Inl (Reversed_range (ID frame) first last))
         else let count = unat (last - first) + 1; wantLength = 8 + count * 4 in
           if length payload \<noteq> wantLength
           then Some (Inl (Length_mismatch (ID frame) (length payload) wantLength first last))
           else do {
             masks \<leftarrow> read_words payload 8 count;
             reserved \<leftarrow> slice payload 6 8 \<bind> uint16le;
             Some (Inr \<lparr>Frame = frame, First = first, Last = last, Reserved = reserved,
                        Masks = masks\<rparr>) } } } }"

text \<open>The body of the loop over the segments, and the loop.\<close>

definition parse_segment :: "qtraceConfig \<Rightarrow> byte list \<Rightarrow> (cfg_error + qtraceConfig) option" where
  "parse_segment config segment =
     (case hdlcUnescape segment of
        Inl e \<Rightarrow> Some (Inl (Hdlc e))
      | Inr decoded \<Rightarrow>
          if length decoded < 3
          then Some (Inl (Frame_too_short (length (Frames config)) (length decoded)))
          else do {
            gotCRC \<leftarrow> slice decoded (int (length decoded) - 2) (int (length decoded)) \<bind> uint16le;
            body \<leftarrow> slice decoded 0 (int (length decoded) - 2);
            let wantCRC = diagCRC16 body in
            if gotCRC \<noteq> wantCRC
            then Some (Inl (CRC_mismatch (length (Frames config)) gotCRC wantCRC))
            else let frame = \<lparr>ID = int (length (Frames config)), Decoded = decoded\<rparr>;
                     config' = config\<lparr>Frames := Frames config @ [frame]\<rparr> in do {
              cmd \<leftarrow> idx decoded 0;
              if cmd = diagExtMessageConfig then do {
                r \<leftarrow> parseMessageMaskFrame frame;
                case r of
                  Inl e \<Rightarrow> Some (Inl e)
                | Inr message \<Rightarrow>
                    Some (Inr (config'\<lparr>MessageFrames := MessageFrames config' @ [message]\<rparr>)) }
              else if cmd = diagSubsysCommand then
                if length decoded < 6 then Some (Inl (Subsystem_too_short (ID frame)))
                else Some (Inr (config'\<lparr>PrivateFrames := PrivateFrames config' @ [frame]\<rparr>))
              else Some (Inl (Unsupported_command cmd (ID frame))) } })"

fun parse_segments :: "qtraceConfig \<Rightarrow> byte list list \<Rightarrow> (cfg_error + qtraceConfig) option" where
  "parse_segments config [] = Some (Inr config)"
| "parse_segments config (segment # segments) =
     (if segment = [] then parse_segments config segments
      else do {
        r \<leftarrow> parse_segment config segment;
        case r of Inl e \<Rightarrow> Some (Inl e) | Inr config' \<Rightarrow> parse_segments config' segments })"

text \<open>The digest of the source, \<^verbatim>\<open>hex.EncodeToString(sha256.Sum256(data))\<close>, is the argument
  \<open>sha256\<close>; it is only recorded.\<close>

definition empty_config :: "(byte list \<Rightarrow> string) \<Rightarrow> byte list \<Rightarrow> qtraceConfig" where
  "empty_config sha256 data =
     \<lparr>Frames = [], MessageFrames = [], PrivateFrames = [], SourceSHA256 = sha256 data,
      SourceBytes = length data\<rparr>"

definition parseQTraceConfigBytes ::
  "(byte list \<Rightarrow> string) \<Rightarrow> byte list \<Rightarrow> (cfg_error + qtraceConfig) option" where
  "parseQTraceConfigBytes sha256 data = do {
     r \<leftarrow> parse_segments (empty_config sha256 data) (split_on 0x7e data);
     case r of
       Inl e \<Rightarrow> Some (Inl e)
     | Inr config \<Rightarrow>
         if length (Frames config) = 0 then Some (Inl No_frames) else Some (Inr config) }"

section \<open>Building, selecting and encoding frames\<close>

definition allMessageFrameIDs :: "qtraceConfig \<Rightarrow> int list" where
  "allMessageFrameIDs config = map (\<lambda>frame. ID (Frame frame)) (MessageFrames config)"

text \<open>The counter of the inner loop is a \<^verbatim>\<open>uint32\<close>, so it passes the last \<^verbatim>\<open>uint16\<close> without
  wrapping: the loop visits \<open>First, \<dots>, Last\<close>.\<close>

definition allSSIDs :: "qtraceConfig \<Rightarrow> int list \<Rightarrow> u16 list" where
  "allSSIDs config frameIDs =
     concat (map (\<lambda>frame. if ID (Frame frame) \<in> set frameIDs
                    then map of_nat [unat (First frame) ..< Suc (unat (Last frame))] else [])
               (MessageFrames config))"

definition buildMessageMaskFrame ::
  "int \<Rightarrow> u16 \<Rightarrow> u16 \<Rightarrow> u16 \<Rightarrow> u32 list \<Rightarrow> cfg_error + diagFrame" where
  "buildMessageMaskFrame frame_id firstID lastID reserved masks =
     (if lastID < firstID \<or> length masks \<noteq> unat (lastID - firstID) + 1 then Inl (Invalid_range frame_id)
      else let payload = [diagExtMessageConfig, extMessageSetMask] @ put16 firstID @ put16 lastID
                 @ put16 reserved @ concat (map put32 masks);
               crc = diagCRC16 payload
           in Inr \<lparr>ID = frame_id, Decoded = payload @ [ucast crc, ucast (drop_bit 8 crc)]\<rparr>)"

fun zero_frames_loop :: "messageMaskFrame list \<Rightarrow> cfg_error + diagFrame list" where
  "zero_frames_loop [] = Inr []"
| "zero_frames_loop (original # rest) =
     (case buildMessageMaskFrame (ID (Frame original)) (First original) (Last original)
             (Reserved original) (replicate (length (Masks original)) 0) of
        Inl e \<Rightarrow> Inl e
      | Inr frame \<Rightarrow>
          (case zero_frames_loop rest of Inl e \<Rightarrow> Inl e | Inr frames \<Rightarrow> Inr (frame # frames)))"

definition zeroMessageFrames :: "qtraceConfig \<Rightarrow> cfg_error + diagFrame list" where
  "zeroMessageFrames config = zero_frames_loop (MessageFrames config)"

definition privateFrameSelected :: "diagFrame \<Rightarrow> privateMode \<Rightarrow> bool option" where
  "privateFrameSelected frame mode =
     (if mode = PrivateNone \<or> length (Decoded frame) < 6 then Some False
      else do {
        cmd \<leftarrow> idx (Decoded frame) 0;
        if cmd \<noteq> diagSubsysCommand then Some False
        else if mode = PrivateBoth then Some True
        else do {
          subsystem \<leftarrow> idx (Decoded frame) 1;
          subcommand \<leftarrow> slice (Decoded frame) 2 4 \<bind> uint16le;
          Some (mode = Private9001 \<and> subsystem = 0x44 \<and> subcommand = 0x9001 \<or>
                mode = Private0004 \<and> subsystem = 0x55 \<and> subcommand = 0x0004) } })"

text \<open>The body of the selection loop; \<open>zeroByID\<close> is a Go map, so a missing key reads as the zero
  value of the struct.\<close>

definition select_step ::
  "(int \<Rightarrow> bool) \<Rightarrow> bool \<Rightarrow> (int \<rightharpoonup> diagFrame) \<Rightarrow> privateMode \<Rightarrow> diagFrame list \<Rightarrow> diagFrame
     \<Rightarrow> diagFrame list option" where
  "select_step selected zeroMasks zeroByID mode frames original =
     (if selected (ID original) then
        if zeroMasks
        then Some (frames @ [case zeroByID (ID original) of
                               None \<Rightarrow> \<lparr>ID = 0, Decoded = []\<rparr> | Some frame \<Rightarrow> frame])
        else Some (frames @ [original])
      else do {
        cmd \<leftarrow> idx (Decoded original) 0;
        if cmd = diagSubsysCommand then do {
          sel \<leftarrow> privateFrameSelected original mode;
          Some (if sel then frames @ [original] else frames) }
        else Some frames })"

definition selectFrames ::
  "qtraceConfig \<Rightarrow> int list \<Rightarrow> bool \<Rightarrow> privateMode \<Rightarrow> (cfg_error + diagFrame list) option" where
  "selectFrames config messageFrameIDs zeroMasks mode =
     (case (if zeroMasks then zeroMessageFrames config else Inr []) of
        Inl e \<Rightarrow> Some (Inl e)
      | Inr zeroFrames \<Rightarrow> do {
          frames \<leftarrow> ofold (select_step (\<lambda>i. i \<in> set messageFrameIDs) zeroMasks
                      (foldl (\<lambda>m frame. m(ID frame \<mapsto> frame)) Map.empty zeroFrames) mode)
                    [] (Frames config);
          Some (Inr frames) })"

definition encodeConfig :: "diagFrame list \<Rightarrow> byte list" where
  "encodeConfig frames = concat (map (\<lambda>frame. hdlcEscape (Decoded frame) @ [0x7e]) frames)"

section \<open>The mask frame codec\<close>

lemmas cfg_consts = diagExtMessageConfig_def diagSubsysCommand_def extMessageSetMask_def

text \<open>The layout of a mask payload, as a relation between the bytes and the fields.\<close>

definition mask_payload :: "byte \<Rightarrow> u16 \<Rightarrow> u16 \<Rightarrow> u16 \<Rightarrow> u32 list \<Rightarrow> byte list" where
  "mask_payload cmd f l r masks =
     [cmd, extMessageSetMask] @ put16 f @ put16 l @ put16 r @ concat (map put32 masks)"

lemma length_mask_payload [simp]: "length (mask_payload cmd f l r masks) = 8 + 4 * length masks"
  by (simp add: mask_payload_def concat_replicate_length [where k = 4])

lemma parse_mask_payload:
  assumes "Decoded frame = mask_payload cmd f l r masks @ [a, b]"
    and "f \<le> l" and "length masks = unat (l - f) + 1"
  shows "parseMessageMaskFrame frame =
     Some (Inr \<lparr>Frame = frame, First = f, Last = l, Reserved = r, Masks = masks\<rparr>)"
proof -
  let ?p = "mask_payload cmd f l r masks"
  have p: "slice (Decoded frame) 0 (int (length (Decoded frame)) - 2) = Some ?p"
    using assms(1) slice_drop_last [of 2 "Decoded frame"] by simp
  have s: "slice ?p 2 4 = Some (put16 f)" "slice ?p 4 6 = Some (put16 l)" "slice ?p 6 8 = Some (put16 r)"
    by (simp_all add: slice_def) (simp_all add: mask_payload_def put16_def numeral_eq_Suc)
  have i: "idx ?p 1 = Some extMessageSetMask"
    by (simp add: idx_def) (simp add: mask_payload_def)
  have w: "read_words ?p 8 (length masks) = Some masks"
    using read_words_put32 [of "[cmd, extMessageSetMask] @ put16 f @ put16 l @ put16 r" masks "[]"]
    by (simp add: mask_payload_def)
  have len: "length ?p = 8 + (unat (l - f) + 1) * 4" using assms(3) by simp
  show ?thesis
    using assms(2) w
    by (simp add: parseMessageMaskFrame_def p s i len assms(3) not_less Let_def)
qed

lemma parse_mask_inv:
  assumes "parseMessageMaskFrame frame = Some (Inr m)"
  obtains cmd a b where "Decoded frame = mask_payload cmd (First m) (Last m) (Reserved m) (Masks m) @ [a, b]"
    and "Frame m = frame" and "First m \<le> Last m" and "length (Masks m) = unat (Last m - First m) + 1"
proof -
  let ?d = "Decoded frame"
  from assms obtain p sf sl sr where
        p: "slice ?d 0 (int (length ?d) - 2) = Some p"
    and sub: "idx p 1 = Some extMessageSetMask"
    and sf: "slice p 2 4 = Some sf" "uint16le sf = Some (First m)"
    and sl: "slice p 4 6 = Some sl" "uint16le sl = Some (Last m)"
    and le: "First m \<le> Last m"
    and len: "length p = 8 + (unat (Last m - First m) + 1) * 4"
    and w: "read_words p 8 (unat (Last m - First m) + 1) = Some (Masks m)"
    and sr: "slice p 6 8 = Some sr" "uint16le sr = Some (Reserved m)"
    and fr: "Frame m = frame"
    by (auto simp: parseMessageMaskFrame_def Let_def split: Option.bind_splits if_splits)
  have lm: "length (Masks m) = unat (Last m - First m) + 1"
    using w by (rule length_read_words)
  from len have "8 \<le> length p" by simp
  then obtain cmd b1 b2 b3 b4 b5 b6 b7 tl where q: "p = [cmd, b1, b2, b3, b4, b5, b6, b7] @ tl"
    by (auto simp: Suc_le_length_iff numeral_eq_Suc)
  from sub have "b1 = extMessageSetMask" by (simp add: q idx_def)
  moreover have "sf = [b2, b3]" "sl = [b4, b5]" "sr = [b6, b7]"
    using sf(1) sl(1) sr(1) by (auto simp: q slice_def numeral_eq_Suc)
  moreover from this have "put16 (First m) = [b2, b3]" "put16 (Last m) = [b4, b5]" "put16 (Reserved m) = [b6, b7]"
    using uint16le_exact [OF _ sf(2)] uint16le_exact [OF _ sl(2)] uint16le_exact [OF _ sr(2)] by auto
  moreover have "tl = concat (map put32 (Masks m))"
    using read_words_inv [OF w] len by (simp add: q)
  ultimately have pm: "p = mask_payload cmd (First m) (Last m) (Reserved m) (Masks m)"
    by (simp add: q mask_payload_def)
  from p have "2 \<le> length ?d" "p = take (length ?d - 2) ?d"
    by (auto simp: slice_def split: if_splits)
  then have "?d = p @ drop (length ?d - 2) ?d" and "length (drop (length ?d - 2) ?d) = 2"
    by auto
  then obtain a b where "?d = p @ [a, b]" by (metis two_elements)
  with pm le lm fr show ?thesis by (intro that) auto
qed

section \<open>Well-formed frames and what the parser accepts\<close>

definition crc_trailer_ok :: "byte list \<Rightarrow> bool" where
  "crc_trailer_ok d \<longleftrightarrow> drop (length d - 2) d = put16 (diagCRC16 (take (length d - 2) d))"

definition is_mask_frame :: "byte list \<Rightarrow> bool" where
  "is_mask_frame d \<longleftrightarrow>
     (\<exists>f l r masks. take (length d - 2) d = mask_payload diagExtMessageConfig f l r masks \<and> f \<le> l
        \<and> length masks = unat (l - f) + 1)"

definition frame_body_ok :: "byte list \<Rightarrow> bool" where
  "frame_body_ok d \<longleftrightarrow> 3 \<le> length d \<and> crc_trailer_ok d \<and>
     (is_mask_frame d \<or> hd d = diagSubsysCommand \<and> 6 \<le> length d)"

definition add_frame :: "qtraceConfig \<Rightarrow> byte list \<Rightarrow> qtraceConfig" where
  "add_frame c d =
     (let frame = \<lparr>ID = int (length (Frames c)), Decoded = d\<rparr>;
          c' = c\<lparr>Frames := Frames c @ [frame]\<rparr> in
      if hd d = diagExtMessageConfig then
        c'\<lparr>MessageFrames := MessageFrames c @ [projr (the (parseMessageMaskFrame frame))]\<rparr>
      else c'\<lparr>PrivateFrames := PrivateFrames c @ [frame]\<rparr>)"

lemma is_mask_frame_parse:
  assumes "is_mask_frame (Decoded frame)" and "2 \<le> length (Decoded frame)"
  obtains m where "parseMessageMaskFrame frame = Some (Inr m)"
proof -
  let ?d = "Decoded frame"
  from assms(1) obtain f l r masks where
      t: "take (length ?d - 2) ?d = mask_payload diagExtMessageConfig f l r masks"
    and "f \<le> l" "length masks = unat (l - f) + 1"
    by (auto simp: is_mask_frame_def)
  moreover have "length (drop (length ?d - 2) ?d) = 2" using assms(2) by simp
  then obtain a b where "drop (length ?d - 2) ?d = [a, b]"
    using two_elements by blast
  with t have "?d = mask_payload diagExtMessageConfig f l r masks @ [a, b]"
    by (metis append_take_drop_id)
  ultimately show ?thesis using parse_mask_payload that by blast
qed

lemma is_mask_frame_hd:
  assumes "is_mask_frame d"
  shows "hd d = diagExtMessageConfig"
proof -
  from assms obtain f l r masks where
    t: "take (length d - 2) d = mask_payload diagExtMessageConfig f l r masks"
    by (auto simp: is_mask_frame_def)
  then have "take (length d - 2) d \<noteq> []" by (simp add: mask_payload_def)
  then have "hd d = hd (take (length d - 2) d)" by (cases "length d - 2") auto
  then show ?thesis by (simp add: t mask_payload_def)
qed

lemma parse_is_mask_frame:
  assumes "parseMessageMaskFrame frame = Some (Inr m)" and "hd (Decoded frame) = diagExtMessageConfig"
  shows "is_mask_frame (Decoded frame)"
proof -
  from assms(1) obtain cmd a b where
      d: "Decoded frame = mask_payload cmd (First m) (Last m) (Reserved m) (Masks m) @ [a, b]"
    and "First m \<le> Last m" "length (Masks m) = unat (Last m - First m) + 1"
    by (rule parse_mask_inv)
  moreover from assms(2) d have "cmd = diagExtMessageConfig" by (simp add: mask_payload_def)
  ultimately show ?thesis unfolding is_mask_frame_def d by (auto intro!: exI)
qed

lemma parseMessageMaskFrame_total:
  assumes "2 \<le> length (Decoded frame)"
  shows "parseMessageMaskFrame frame \<noteq> None"
proof -
  obtain p where p: "slice (Decoded frame) 0 (int (length (Decoded frame)) - 2) = Some p"
    using assms slice_drop_last [of 2 "Decoded frame"] by auto
  show ?thesis
  proof (cases "length p < 8")
    case False
    then obtain sub f l r where "idx p 1 = Some sub" "slice p 2 4 \<bind> uint16le = Some f"
        "slice p 4 6 \<bind> uint16le = Some l" "slice p 6 8 \<bind> uint16le = Some r"
      using slice_uint16le [of 2 4 p] slice_uint16le [of 4 6 p] slice_uint16le [of 6 8 p]
      by (auto simp: idx_def)
    moreover have "length p = 8 + n * 4 \<Longrightarrow> \<exists>ws. read_words p 8 n = Some ws" for n
      using read_words_total [of 8 n p] by auto
    ultimately show ?thesis
      using p False
      by (cases "length p = 8 + (unat (l - f) + 1) * 4")
         (fastforce simp: parseMessageMaskFrame_def Let_def split: Option.bind_splits)+
  qed (simp add: parseMessageMaskFrame_def p)
qed

lemma parse_segment_total: "parse_segment c seg \<noteq> None"
proof (cases "hdlcUnescape seg")
  case (Inr d)
  show ?thesis
  proof (cases "length d < 3")
    case False
    then obtain got body where "slice d (int (length d) - 2) (int (length d)) \<bind> uint16le = Some got"
        "slice d 0 (int (length d) - 2) = Some body" "idx d 0 = Some (hd d)"
      using slice_uint16le [of "int (length d) - 2" "int (length d)" d] slice_drop_last [of 2 d]
        idx_0 [of d] by force
    with Inr False show ?thesis
      using parseMessageMaskFrame_total [of "\<lparr>ID = int (length (Frames c)), Decoded = d\<rparr>"]
      by (auto simp: parse_segment_def Let_def split: sum.splits)
  qed (simp add: parse_segment_def Inr)
qed (simp add: parse_segment_def)

lemma parse_segments_total: "parse_segments c segs \<noteq> None"
  by (induction segs arbitrary: c) (auto simp: parse_segment_total split: Option.bind_splits sum.splits)

lemma trailer_crc:
  assumes "3 \<le> length d"
  shows "slice d (int (length d) - 2) (int (length d)) \<bind> uint16le = Some w \<longleftrightarrow>
         drop (length d - 2) d = put16 w"
proof -
  have "slice d (int (length d) - 2) (int (length d)) = Some (drop (length d - 2) d)"
    using slice_last [of 2 d] assms by simp
  moreover have "length (drop (length d - 2) d) = 2" using assms by simp
  ultimately show ?thesis
    by (metis bind.bind_lunit uint16le_exact uint16le_put16_alone)
qed

lemma parse_segment_ok:
  assumes "hdlcUnescape seg = Inr d" and "frame_body_ok d"
  shows "parse_segment c seg = Some (Inr (add_frame c d))"
proof -
  let ?fr = "\<lparr>ID = int (length (Frames c)), Decoded = d\<rparr>"
  from assms(2) have len: "3 \<le> length d" and t: "crc_trailer_ok d"
    by (auto simp: frame_body_ok_def)
  have body: "slice d 0 (int (length d) - 2) = Some (take (length d - 2) d)"
    using slice_drop_last [of 2 d] len by simp
  have got: "slice d (int (length d) - 2) (int (length d)) \<bind> uint16le =
      Some (diagCRC16 (take (length d - 2) d))"
    using t by (simp add: trailer_crc [OF len] crc_trailer_ok_def)
  have cmd: "idx d 0 = Some (hd d)"
    using len by (cases d) (auto simp: idx_def)
  show ?thesis
  proof (cases "is_mask_frame d")
    case True
    obtain m where "parseMessageMaskFrame ?fr = Some (Inr m)"
      using is_mask_frame_parse [of ?fr] True len by auto
    then show ?thesis
      using len True
      by (simp add: parse_segment_def assms(1) got body cmd is_mask_frame_hd add_frame_def Let_def)
  next
    case False
    with assms(2) have "hd d = diagSubsysCommand" "6 \<le> length d" by (auto simp: frame_body_ok_def)
    then show ?thesis
      using len
      by (simp add: parse_segment_def assms(1) got body cmd add_frame_def Let_def cfg_consts)
  qed
qed

lemma parse_segment_inv:
  assumes "parse_segment c seg = Some (Inr c')"
  obtains d where "hdlcUnescape seg = Inr d" and "frame_body_ok d" and "c' = add_frame c d"
proof -
  from assms obtain d where d: "hdlcUnescape seg = Inr d" "3 \<le> length d"
    by (auto simp: parse_segment_def not_less split: sum.splits if_splits)
  let ?fr = "\<lparr>ID = int (length (Frames c)), Decoded = d\<rparr>"
  have body: "slice d 0 (int (length d) - 2) = Some (take (length d - 2) d)"
    using slice_drop_last [of 2 d] d by simp
  have cmd: "idx d 0 = Some (hd d)" using d by (cases d) (auto simp: idx_def)
  obtain w where w: "slice d (int (length d) - 2) (int (length d)) \<bind> uint16le = Some w"
    using assms d by (auto simp: parse_segment_def split: Option.bind_splits)
  with assms d body cmd have "w = diagCRC16 (take (length d - 2) d)"
    by (auto simp: parse_segment_def Let_def split: if_splits)
  with w have t: "crc_trailer_ok d" by (simp add: trailer_crc [OF d(2)] crc_trailer_ok_def)
  have "is_mask_frame d \<or> hd d = diagSubsysCommand \<and> 6 \<le> length d"
  proof (cases "hd d = diagExtMessageConfig")
    case True
    with assms d body cmd w obtain m where "parseMessageMaskFrame ?fr = Some (Inr m)"
      by (auto simp: parse_segment_def Let_def split: if_splits sum.splits Option.bind_splits)
    with True parse_is_mask_frame [of ?fr m] show ?thesis by simp
  next
    case False
    with assms d body cmd w show ?thesis
      by (auto simp: parse_segment_def Let_def split: if_splits sum.splits)
  qed
  with t d have ok: "frame_body_ok d" by (simp add: frame_body_ok_def)
  with parse_segment_ok [OF d(1) this, of c] assms d(1) that show ?thesis by simp
qed

lemma parse_segments_iff:
  "parse_segments c segs = Some (Inr c') \<longleftrightarrow>
   (\<exists>ds. map hdlcUnescape (filter (\<lambda>s. s \<noteq> []) segs) = map Inr ds \<and> (\<forall>d \<in> set ds. frame_body_ok d)
      \<and> c' = foldl add_frame c ds)"
proof (induction segs arbitrary: c)
  case (Cons seg segs)
  show ?case
  proof (cases "seg = []")
    case False
    have "parse_segments c (seg # segs) = Some (Inr c') \<longleftrightarrow>
        (\<exists>c1. parse_segment c seg = Some (Inr c1) \<and> parse_segments c1 segs = Some (Inr c'))"
      using False by (auto split: Option.bind_splits sum.splits)
    also have "\<dots> \<longleftrightarrow> (\<exists>d. hdlcUnescape seg = Inr d \<and> frame_body_ok d
        \<and> parse_segments (add_frame c d) segs = Some (Inr c'))"
      by (blast intro: parse_segment_ok elim: parse_segment_inv)
    finally show ?thesis
      using False by (auto simp: Cons.IH ex_map_Inr_Cons simp del: list.map)
  qed (simp add: Cons.IH)
qed auto

lemma parse_bytes_iff:
  "parseQTraceConfigBytes sha256 data = Some (Inr c) \<longleftrightarrow>
   (\<exists>ds. map hdlcUnescape (filter (\<lambda>s. s \<noteq> []) (split_on 0x7e data)) = map Inr ds
      \<and> (\<forall>d \<in> set ds. frame_body_ok d) \<and> Frames c \<noteq> []
      \<and> c = foldl add_frame (empty_config sha256 data) ds)"
proof -
  have "parseQTraceConfigBytes sha256 data = Some (Inr c) \<longleftrightarrow>
      parse_segments (empty_config sha256 data) (split_on 0x7e data) = Some (Inr c) \<and> Frames c \<noteq> []"
    by (auto simp: parseQTraceConfigBytes_def split: Option.bind_splits sum.splits if_splits)
  then show ?thesis by (auto simp: parse_segments_iff)
qed

lemma Frames_add_frame [simp]:
  "Frames (add_frame c d) = Frames c @ [\<lparr>ID = int (length (Frames c)), Decoded = d\<rparr>]"
  by (simp add: add_frame_def Let_def)

lemma Decoded_add_frames:
  "map Decoded (Frames (foldl add_frame c ds)) = map Decoded (Frames c) @ ds"
  by (induction ds arbitrary: c) auto

lemma add_frame_source:
  "add_frame (c\<lparr>SourceSHA256 := h, SourceBytes := n\<rparr>) d = (add_frame c d)\<lparr>SourceSHA256 := h, SourceBytes := n\<rparr>"
  by (simp add: add_frame_def Let_def)

lemma add_frames_source:
  "foldl add_frame (c\<lparr>SourceSHA256 := h, SourceBytes := n\<rparr>) ds =
   (foldl add_frame c ds)\<lparr>SourceSHA256 := h, SourceBytes := n\<rparr>"
  by (induction ds arbitrary: c) (simp_all add: add_frame_source)

lemma encodeConfig_segments:
  assumes "\<forall>f \<in> set fs. frame_body_ok (Decoded f)"
  shows "map hdlcUnescape (filter (\<lambda>s. s \<noteq> []) (split_on 0x7e (encodeConfig fs))) = map Inr (map Decoded fs)"
proof -
  have "[] \<notin> set (map Decoded fs)" using assms by (force simp: frame_body_ok_def)
  from hdlc.nonempty_segments [OF this] show ?thesis
    by (simp add: encodeConfig_def comp_def hdlc.dec_enc)
qed

lemma parse_encodeConfig:
  assumes "\<forall>f \<in> set fs. frame_body_ok (Decoded f)" and "fs \<noteq> []"
  shows "parseQTraceConfigBytes sha256 (encodeConfig fs) =
     Some (Inr (foldl add_frame (empty_config sha256 (encodeConfig fs)) (map Decoded fs)))"
proof -
  let ?c = "foldl add_frame (empty_config sha256 (encodeConfig fs)) (map Decoded fs)"
  have "Frames ?c \<noteq> []"
    using Decoded_add_frames [of "empty_config sha256 (encodeConfig fs)" "map Decoded fs"] assms(2)
    by (metis append_is_Nil_conv list.map_disc_iff)
  then show ?thesis
    using assms encodeConfig_segments [OF assms(1)] by (auto simp: parse_bytes_iff simp del: map_map)
qed

section \<open>The invariant of a parsed configuration\<close>

definition config_inv :: "qtraceConfig \<Rightarrow> bool" where
  "config_inv c \<longleftrightarrow>
     map ID (Frames c) = map int [0..<length (Frames c)] \<and>
     (\<forall>f \<in> set (Frames c). frame_body_ok (Decoded f)) \<and>
     map Frame (MessageFrames c) = filter (\<lambda>f. hd (Decoded f) = diagExtMessageConfig) (Frames c) \<and>
     (\<forall>m \<in> set (MessageFrames c). parseMessageMaskFrame (Frame m) = Some (Inr m)) \<and>
     PrivateFrames c = filter (\<lambda>f. hd (Decoded f) = diagSubsysCommand) (Frames c)"

lemma config_inv_empty: "config_inv (empty_config sha256 data)"
  by (simp add: config_inv_def empty_config_def)

lemma config_inv_add_frame:
  assumes "config_inv c" and "frame_body_ok d"
  shows "config_inv (add_frame c d)"
proof (cases "is_mask_frame d")
  case True
  let ?fr = "\<lparr>ID = int (length (Frames c)), Decoded = d\<rparr>"
  obtain m where m: "parseMessageMaskFrame ?fr = Some (Inr m)"
    using is_mask_frame_parse [of ?fr] True assms(2) by (auto simp: frame_body_ok_def)
  then have "Frame m = ?fr" by (rule parse_mask_inv)
  with m True assms show ?thesis
    by (auto simp: config_inv_def add_frame_def Let_def is_mask_frame_hd cfg_consts)
next
  case False
  with assms(2) have "hd d = diagSubsysCommand" by (auto simp: frame_body_ok_def)
  with assms show ?thesis
    by (auto simp: config_inv_def add_frame_def Let_def cfg_consts)
qed

lemma config_inv_add_frames:
  "config_inv c \<Longrightarrow> \<forall>d \<in> set ds. frame_body_ok d \<Longrightarrow> config_inv (foldl add_frame c ds)"
  by (induction ds arbitrary: c) (auto simp: config_inv_add_frame)

lemma parsed_config_inv:
  "parseQTraceConfigBytes sha256 data = Some (Inr c) \<Longrightarrow> config_inv c"
  by (auto simp: parse_bytes_iff config_inv_empty config_inv_add_frames)

section \<open>Zeroed masks and frame selection\<close>

lemma buildMessageMaskFrame_ok:
  assumes "f \<le> l" and "length masks = unat (l - f) + 1"
  shows "\<exists>fr. buildMessageMaskFrame i f l r masks = Inr fr \<and> ID fr = i
     \<and> Decoded fr = mask_payload diagExtMessageConfig f l r masks
          @ put16 (diagCRC16 (mask_payload diagExtMessageConfig f l r masks))"
  using assms by (auto simp: buildMessageMaskFrame_def Let_def mask_payload_def put16_def)

lemma mask_frame_body_ok:
  assumes "Decoded fr = mask_payload diagExtMessageConfig f l r masks
      @ put16 (diagCRC16 (mask_payload diagExtMessageConfig f l r masks))"
    and "f \<le> l" and "length masks = unat (l - f) + 1"
  shows "frame_body_ok (Decoded fr)"
  using assms by (auto simp: frame_body_ok_def crc_trailer_ok_def is_mask_frame_def)

lemma zero_frames_loop_ok:
  assumes "\<forall>m \<in> set ms. parseMessageMaskFrame (Frame m) = Some (Inr m)"
  shows "\<exists>zs. zero_frames_loop ms = Inr zs \<and> list_all2 (\<lambda>m z. ID z = ID (Frame m) \<and> frame_body_ok (Decoded z)
     \<and> parseMessageMaskFrame z = Some (Inr (m\<lparr>Frame := z, Masks := replicate (length (Masks m)) 0\<rparr>))) ms zs"
  using assms
proof (induction ms)
  case (Cons m ms)
  then obtain zs where zs: "zero_frames_loop ms = Inr zs" "list_all2 (\<lambda>m z. ID z = ID (Frame m)
      \<and> frame_body_ok (Decoded z) \<and> parseMessageMaskFrame z =
        Some (Inr (m\<lparr>Frame := z, Masks := replicate (length (Masks m)) 0\<rparr>))) ms zs"
    by auto
  let ?ms = "replicate (length (Masks m)) (0 :: u32)"
  from Cons.prems have le: "First m \<le> Last m" and len: "length ?ms = unat (Last m - First m) + 1"
    by (auto elim: parse_mask_inv)
  from buildMessageMaskFrame_ok [OF le len] obtain fr where
      fr: "buildMessageMaskFrame (ID (Frame m)) (First m) (Last m) (Reserved m) ?ms = Inr fr"
        "ID fr = ID (Frame m)"
    and d: "Decoded fr = mask_payload diagExtMessageConfig (First m) (Last m) (Reserved m) ?ms
        @ put16 (diagCRC16 (mask_payload diagExtMessageConfig (First m) (Last m) (Reserved m) ?ms))"
    by metis
  have "parseMessageMaskFrame fr = Some (Inr (m\<lparr>Frame := fr, Masks := ?ms\<rparr>))"
    using parse_mask_payload [OF _ le len, of fr] d by (simp add: put16_def)
  with fr zs mask_frame_body_ok [OF d le len] show ?case by simp
qed simp

lemma mask_of_set:
  "config_inv c \<Longrightarrow> f \<in> set (Frames c) \<Longrightarrow> hd (Decoded f) = diagExtMessageConfig \<Longrightarrow>
   ID f \<in> set (allMessageFrameIDs c)"
proof -
  assume "config_inv c" "f \<in> set (Frames c)" "hd (Decoded f) = diagExtMessageConfig"
  then have "f \<in> set (map Frame (MessageFrames c))" by (simp add: config_inv_def)
  then show ?thesis by (auto simp: allMessageFrameIDs_def)
qed

lemma config_frame_kind:
  assumes "config_inv c" and "f \<in> set (Frames c)"
  shows "hd (Decoded f) = diagExtMessageConfig \<or> hd (Decoded f) = diagSubsysCommand \<and> 6 \<le> length (Decoded f)"
  using assms by (auto simp: config_inv_def frame_body_ok_def dest: is_mask_frame_hd)

lemma privateFrameSelected_total: "privateFrameSelected f mode \<noteq> None"
  using slice_uint16le [of 2 4 "Decoded f"]
  by (auto simp: privateFrameSelected_def idx_def split: Option.bind_splits)

lemma privateFrameSelected_both:
  "hd (Decoded f) = diagSubsysCommand \<Longrightarrow> 6 \<le> length (Decoded f) \<Longrightarrow>
   privateFrameSelected f PrivateBoth = Some True"
  using idx_0 [of "Decoded f"] by (cases "Decoded f = []") (auto simp: privateFrameSelected_def)

lemma select_plain:
  assumes "\<forall>f \<in> set fs. Decoded f \<noteq> []"
  shows "ofold (select_step sel False zm mode) acc fs =
     Some (acc @ filter (\<lambda>f. sel (ID f) \<or> hd (Decoded f) = diagSubsysCommand
                              \<and> privateFrameSelected f mode = Some True) fs)"
  using assms
proof (induction fs arbitrary: acc)
  case (Cons f fs)
  obtain b where "privateFrameSelected f mode = Some b"
    using privateFrameSelected_total [of f mode] by auto
  with Cons show ?case by (simp add: select_step_def idx_0)
qed simp

lemma select_zero_ok:
  assumes "\<forall>f \<in> set fs. frame_body_ok (Decoded f)" and "\<forall>f \<in> set acc. frame_body_ok (Decoded f)"
    and "\<forall>f \<in> set fs. sel (ID f) \<longrightarrow> (\<exists>z. zm (ID f) = Some z \<and> frame_body_ok (Decoded z))"
  shows "\<exists>out. ofold (select_step sel True zm mode) acc fs = Some out
     \<and> (\<forall>f \<in> set out. frame_body_ok (Decoded f))"
proof (rule ofold_total)
  fix acc :: "diagFrame list" and f
  assume acc: "\<forall>f \<in> set acc. frame_body_ok (Decoded f)" and f: "f \<in> set fs"
  obtain b where b: "privateFrameSelected f mode = Some b"
    using privateFrameSelected_total [of f mode] by auto
  have "idx (Decoded f) 0 = Some (hd (Decoded f))"
    using assms(1) f by (intro idx_0) (auto simp: frame_body_ok_def)
  with acc f assms(1,3) b
  show "\<exists>acc'. select_step sel True zm mode acc f = Some acc' \<and> (\<forall>f \<in> set acc'. frame_body_ok (Decoded f))"
    by (cases "sel (ID f)") (force simp: select_step_def)+
qed (fact assms(2))

lemma foldl_map_upd:
  "foldl (\<lambda>m z. m(k z \<mapsto> z)) m0 zs i =
   (case filter (\<lambda>z. k z = i) (rev zs) of [] \<Rightarrow> m0 i | z # _ \<Rightarrow> Some z)"
  by (induction zs arbitrary: m0) (auto split: list.splits)

lemma map_upd_ID_defined:
  assumes "list_all2 (\<lambda>m z. ID z = ID (Frame m) \<and> frame_body_ok (Decoded z) \<and> P m z) ms zs"
    and "i \<in> set (map (\<lambda>m. ID (Frame m)) ms)"
  shows "\<exists>z. foldl (\<lambda>m z. m(ID z \<mapsto> z)) Map.empty zs i = Some z \<and> frame_body_ok (Decoded z)"
proof -
  have "\<forall>z \<in> set zs. frame_body_ok (Decoded z)" and "map ID zs = map (\<lambda>m. ID (Frame m)) ms"
    using assms(1) by (induction rule: list_all2_induct) auto
  moreover from this assms(2) have "i \<in> set (map ID zs)" by simp
  then have "filter (\<lambda>z. ID z = i) (rev zs) \<noteq> []" by (auto simp: filter_empty_conv)
  then obtain z rest where z: "filter (\<lambda>z. ID z = i) (rev zs) = z # rest"
    by (auto simp: neq_Nil_conv)
  then have "z \<in> set zs" by (metis Cons_eq_filterD in_set_conv_decomp set_rev)
  ultimately show ?thesis by (auto simp: foldl_map_upd z)
qed

lemma selectFrames_ok:
  assumes "config_inv c" and "set ids \<subseteq> set (allMessageFrameIDs c)"
  obtains frames where "selectFrames c ids zeroMasks mode = Some (Inr frames)"
    and "\<forall>f \<in> set frames. frame_body_ok (Decoded f)"
proof (cases zeroMasks)
  case False
  have "\<forall>f \<in> set (Frames c). Decoded f \<noteq> []"
    using assms(1) by (auto simp: config_inv_def frame_body_ok_def)
  from select_plain [OF this] False assms(1) that show ?thesis
    by (auto simp: selectFrames_def config_inv_def)
next
  case True
  obtain zs where zs: "zeroMessageFrames c = Inr zs"
      "list_all2 (\<lambda>m z. ID z = ID (Frame m) \<and> frame_body_ok (Decoded z)
     \<and> parseMessageMaskFrame z = Some (Inr (m\<lparr>Frame := z, Masks := replicate (length (Masks m)) 0\<rparr>)))
       (MessageFrames c) zs"
    using zero_frames_loop_ok [of "MessageFrames c"] assms(1)
    by (auto simp: config_inv_def zeroMessageFrames_def)
  have "\<exists>out. ofold (select_step (\<lambda>i. i \<in> set ids) True
      (foldl (\<lambda>m frame. m(ID frame \<mapsto> frame)) Map.empty zs) mode) [] (Frames c) = Some out
      \<and> (\<forall>f \<in> set out. frame_body_ok (Decoded f))"
    using assms map_upd_ID_defined [OF zs(2)]
    by (intro select_zero_ok) (auto simp: config_inv_def allMessageFrameIDs_def)
  with True zs(1) that show ?thesis by (auto simp: selectFrames_def)
qed

lemma select_all_frames:
  assumes "config_inv c"
  shows "selectFrames c (allMessageFrameIDs c) False PrivateBoth = Some (Inr (Frames c))"
proof -
  have "\<forall>f \<in> set (Frames c). Decoded f \<noteq> []"
    using assms by (auto simp: config_inv_def frame_body_ok_def)
  moreover have "ID f \<in> set (allMessageFrameIDs c) \<or> hd (Decoded f) = diagSubsysCommand
      \<and> privateFrameSelected f PrivateBoth = Some True" if "f \<in> set (Frames c)" for f
    using config_frame_kind [OF assms that] mask_of_set [OF assms that] privateFrameSelected_both by blast
  ultimately show ?thesis by (simp add: selectFrames_def select_plain)
qed

section \<open>A sample configuration\<close>

text \<open>Two frames: a mask frame for the SSIDs 5 and 6 and the private command \<^verbatim>\<open>0x44/0x9001\<close>.\<close>

definition sample_mask_frame :: diagFrame where
  "sample_mask_frame = \<lparr>ID = 0, Decoded = [0x7d, 0x04, 0x05, 0x00, 0x06, 0x00, 0x00, 0x00,
     0xff, 0xff, 0xff, 0xff, 0x00, 0x00, 0x00, 0x01, 0xc6, 0xe2]\<rparr>"

definition sample_private_frame :: diagFrame where
  "sample_private_frame = \<lparr>ID = 1, Decoded = [0x4b, 0x44, 0x01, 0x90, 0x3a, 0xc2]\<rparr>"

definition sample_bytes :: "byte list" where
  "sample_bytes = [0x7d, 0x5d, 0x04, 0x05, 0x00, 0x06, 0x00, 0x00, 0x00, 0xff, 0xff, 0xff, 0xff,
     0x00, 0x00, 0x00, 0x01, 0xc6, 0xe2, 0x7e, 0x7e, 0x4b, 0x44, 0x01, 0x90, 0x3a, 0xc2, 0x7e]"

definition sample_config :: qtraceConfig where
  "sample_config = \<lparr>Frames = [sample_mask_frame, sample_private_frame],
     MessageFrames = [\<lparr>Frame = sample_mask_frame, First = 5, Last = 6, Reserved = 0,
                        Masks = [0xffffffff, 0x01000000]\<rparr>],
     PrivateFrames = [sample_private_frame], SourceSHA256 = '''', SourceBytes = 28\<rparr>"

lemmas sample_defs = sample_config_def sample_mask_frame_def sample_private_frame_def

lemma sample_mask_parses:
  "parseMessageMaskFrame sample_mask_frame = Some (Inr \<lparr>Frame = sample_mask_frame, First = 5,
     Last = 6, Reserved = 0, Masks = [0xffffffff, 0x01000000]\<rparr>)"
  by (rule parse_mask_payload [where cmd = "0x7d" and a = "0xc6" and b = "0xe2"])
     (simp_all add: sample_mask_frame_def mask_payload_def put16_def put32_def cfg_consts)

lemma sample_parses: "parseQTraceConfigBytes (\<lambda>_. '''') sample_bytes = Some (Inr sample_config)"
proof -
  have 1: "parse_segment (empty_config (\<lambda>_. '''') sample_bytes) (take 19 sample_bytes) =
      Some (Inr (sample_config\<lparr>Frames := [sample_mask_frame], PrivateFrames := []\<rparr>))"
    using sample_mask_parses
    by (simp add: parse_segment_def hdlcUnescape_def sample_bytes_def empty_config_def slice_def
        uint16le_def le16_def crc_eval idx_def cfg_consts sample_defs Let_def)
  have 2: "parse_segment (sample_config\<lparr>Frames := [sample_mask_frame], PrivateFrames := []\<rparr>)
      [0x4b, 0x44, 0x01, 0x90, 0x3a, 0xc2] = Some (Inr sample_config)"
    by (simp add: parse_segment_def hdlcUnescape_def slice_def
        uint16le_def le16_def crc_eval idx_def cfg_consts sample_defs Let_def)
  have "split_on 0x7e sample_bytes = [take 19 sample_bytes, [], [0x4b, 0x44, 0x01, 0x90, 0x3a, 0xc2], []]"
    by (simp add: sample_bytes_def)
  moreover have "take 19 sample_bytes \<noteq> []" by (simp add: sample_bytes_def)
  moreover have "Frames sample_config \<noteq> []" by (simp add: sample_config_def)
  ultimately show ?thesis using 1 2 by (simp add: parseQTraceConfigBytes_def)
qed

section \<open>Properties\<close>

lemma parseQTraceConfigBytes_never_panics: "parseQTraceConfigBytes sha256 data \<noteq> None"
  using parse_segments_total [of "empty_config sha256 data" "split_on 0x7e data"]
  by (auto simp: parseQTraceConfigBytes_def split: sum.splits)

text \<open>C1: the configuration parser never panics, whatever the bytes: every index and slice of the
  loop body and of the mask-frame parser is in range, so the result is a configuration or a
  reported error; and a parsed configuration is well formed: frame numbers are the positions, every frame has a
  right CRC and is a mask frame or a private frame of at least six bytes, the mask frames are
  exactly the frames of command \<^verbatim>\<open>0x7d\<close> with the fields their bytes hold, and the private frames are
  exactly those of command \<^verbatim>\<open>0x4b\<close>, all in file order.\<close>

theorem parseQTraceConfigBytes_inv:
  "parseQTraceConfigBytes sha256 data \<noteq> None \<and>
   (\<forall>c. parseQTraceConfigBytes sha256 data = Some (Inr c) \<longrightarrow> config_inv c \<and> Frames c \<noteq> [])"
  using parsed_config_inv parseQTraceConfigBytes_never_panics by (auto simp: parse_bytes_iff)

theorem parseQTraceConfigBytes_inv_witness: "config_inv sample_config \<and> Frames sample_config \<noteq> []"
  using parseQTraceConfigBytes_inv sample_parses by blast

text \<open>C2: encoding is the inverse of parsing: the frames of a parsed configuration, escaped and
  delimited again, parse to the same configuration (only the recorded digest and length of the
  source can differ).\<close>

theorem encode_parse_roundtrip:
  assumes "parseQTraceConfigBytes sha256 data = Some (Inr c)"
  shows "parseQTraceConfigBytes sha256 (encodeConfig (Frames c)) =
     Some (Inr (c\<lparr>SourceSHA256 := sha256 (encodeConfig (Frames c)),
                 SourceBytes := length (encodeConfig (Frames c))\<rparr>))"
proof -
  from assms obtain ds where ok: "\<forall>d \<in> set ds. frame_body_ok d" and ne: "Frames c \<noteq> []"
      and c: "c = foldl add_frame (empty_config sha256 data) ds"
    by (auto simp: parse_bytes_iff)
  have ds: "map Decoded (Frames c) = ds"
    by (simp add: c Decoded_add_frames) (simp add: empty_config_def)
  let ?e = "encodeConfig (Frames c)"
  have "empty_config sha256 ?e = (empty_config sha256 data)\<lparr>SourceSHA256 := sha256 ?e, SourceBytes := length ?e\<rparr>"
    by (simp add: empty_config_def)
  then have "foldl add_frame (empty_config sha256 ?e) ds = c\<lparr>SourceSHA256 := sha256 ?e, SourceBytes := length ?e\<rparr>"
    by (simp only: add_frames_source c)
  moreover have "\<forall>f \<in> set (Frames c). frame_body_ok (Decoded f)"
    using ok ds by (metis image_eqI list.set_map)
  ultimately show ?thesis using parse_encodeConfig [of "Frames c" sha256] ne ds by simp
qed

theorem encode_parse_roundtrip_witness:
  "parseQTraceConfigBytes (\<lambda>_. '''') (encodeConfig (Frames sample_config)) =
     Some (Inr (sample_config\<lparr>SourceSHA256 := '''', SourceBytes := 27\<rparr>))"
proof -
  have "length (encodeConfig (Frames sample_config)) = 27"
    by (simp add: encodeConfig_def sample_defs)
  then show ?thesis using encode_parse_roundtrip [OF sample_parses] by simp
qed

text \<open>C3: whatever candidate the reducer selects from a parsed configuration (any subset of the mask
  frames, zeroed or not, any private mode), selection succeeds without a panic, and the encoded
  candidate passes the validation the runner makes before it starts a capture and decodes to
  exactly the selected frames; only the empty selection is rejected.  The positive control (all mask
  frames, no zeroing, both private commands) selects every frame, in order.\<close>

theorem selected_candidate_validates:
  assumes "config_inv c" and "set ids \<subseteq> set (allMessageFrameIDs c)"
  shows "(\<exists>frames. selectFrames c ids zeroMasks mode = Some (Inr frames) \<and>
     (if frames = [] then parseQTraceConfigBytes sha256 (encodeConfig frames) = Some (Inl No_frames)
      else \<exists>c'. parseQTraceConfigBytes sha256 (encodeConfig frames) = Some (Inr c') \<and>
        map Decoded (Frames c') = map Decoded frames)) \<and>
    selectFrames c (allMessageFrameIDs c) False PrivateBoth = Some (Inr (Frames c))"
proof -
  obtain frames where sel: "selectFrames c ids zeroMasks mode = Some (Inr frames)"
      and ok: "\<forall>f \<in> set frames. frame_body_ok (Decoded f)"
    using assms by (rule selectFrames_ok)
  have "parseQTraceConfigBytes sha256 (encodeConfig []) = Some (Inl No_frames)"
    by (simp add: parseQTraceConfigBytes_def encodeConfig_def empty_config_def)
  moreover have "\<exists>c'. parseQTraceConfigBytes sha256 (encodeConfig frames) = Some (Inr c') \<and>
        map Decoded (Frames c') = map Decoded frames" if "frames \<noteq> []"
    using parse_encodeConfig [OF ok that] Decoded_add_frames
    by (fastforce simp: empty_config_def)
  ultimately show ?thesis using sel select_all_frames [OF assms(1)] by auto
qed

theorem selected_candidate_validates_witness:
  "\<exists>frames. selectFrames sample_config [0] True PrivateNone = Some (Inr frames) \<and>
     (if frames = [] then parseQTraceConfigBytes (\<lambda>_. '''') (encodeConfig frames) = Some (Inl No_frames)
      else \<exists>c'. parseQTraceConfigBytes (\<lambda>_. '''') (encodeConfig frames) = Some (Inr c') \<and>
        map Decoded (Frames c') = map Decoded frames)"
  by (rule selected_candidate_validates [OF parsed_config_inv [OF sample_parses], THEN conjunct1])
     (simp add: allMessageFrameIDs_def sample_defs)

text \<open>zeroing never fails on a parsed configuration, and each zeroed frame keeps the number, the
  SSID range and the reserved field of the original, with a zero mask for every SSID.\<close>

theorem zeroMessageFrames_zeroes:
  assumes "config_inv c"
  shows "\<exists>zs. zeroMessageFrames c = Inr zs \<and> map ID zs = allMessageFrameIDs c \<and>
     map parseMessageMaskFrame zs =
       map2 (\<lambda>m z. Some (Inr (m\<lparr>Frame := z, Masks := replicate (length (Masks m)) 0\<rparr>))) (MessageFrames c) zs"
proof -
  obtain zs where z: "zeroMessageFrames c = Inr zs" and
    all: "list_all2 (\<lambda>m z. ID z = ID (Frame m) \<and> frame_body_ok (Decoded z)
     \<and> parseMessageMaskFrame z = Some (Inr (m\<lparr>Frame := z, Masks := replicate (length (Masks m)) 0\<rparr>)))
       (MessageFrames c) zs"
    using zero_frames_loop_ok [of "MessageFrames c"] assms
    by (auto simp: config_inv_def zeroMessageFrames_def)
  from all have "map ID zs = allMessageFrameIDs c \<and> map parseMessageMaskFrame zs =
       map2 (\<lambda>m z. Some (Inr (m\<lparr>Frame := z, Masks := replicate (length (Masks m)) 0\<rparr>))) (MessageFrames c) zs"
    unfolding allMessageFrameIDs_def by (induction rule: list_all2_induct) auto
  with z show ?thesis by blast
qed

theorem zeroMessageFrames_zeroes_witness:
  "\<exists>z. zeroMessageFrames sample_config = Inr [z] \<and> ID z = 0 \<and>
     parseMessageMaskFrame z = Some (Inr \<lparr>Frame = z, First = 5, Last = 6, Reserved = 0, Masks = [0, 0]\<rparr>)"
proof -
  obtain zs where zs: "zeroMessageFrames sample_config = Inr zs" "map ID zs = [0]"
      "map parseMessageMaskFrame zs = map2 (\<lambda>m z. Some (Inr (m\<lparr>Frame := z,
         Masks := replicate (length (Masks m)) 0\<rparr>))) (MessageFrames sample_config) zs"
    using zeroMessageFrames_zeroes [OF parsed_config_inv [OF sample_parses]]
    by (auto simp: allMessageFrameIDs_def sample_defs)
  then obtain z where "zs = [z]" "ID z = 0" by auto
  with zs show ?thesis by (simp add: sample_config_def numeral_2_eq_2)
qed

text \<open>C4: the CRC detects every corruption of one byte: replace any byte of a well-formed frame (body
  or trailer) by a different one and the parser rejects the frame with a CRC error.\<close>

theorem corrupted_byte_rejected:
  assumes "frame_body_ok d" and "i < length d" and "b \<noteq> d ! i"
  shows "\<exists>got want. parse_segment c (hdlcEscape (d[i := b])) = Some (Inl (CRC_mismatch (length (Frames c)) got want))"
proof -
  let ?d = "d[i := b]"
  let ?body = "take (length d - 2)" and ?tr = "drop (length d - 2)"
  from assms(1) have len: "3 \<le> length d" and t: "?tr d = put16 (diagCRC16 (?body d))"
    by (auto simp: frame_body_ok_def crc_trailer_ok_def)
  have "?tr ?d \<noteq> put16 (diagCRC16 (?body ?d))"
  proof (cases "i < length d - 2")
    case True
    then have "?body ?d = take i d @ b # drop (Suc i) (?body d)" by (intro take_update_split) auto
    moreover from True have "?body d = take i d @ d ! i # drop (Suc i) (?body d)"
      by (intro take_split_at) auto
    ultimately have "diagCRC16 (?body ?d) \<noteq> diagCRC16 (?body d)"
      unfolding diagCRC16_def using crc.one_byte_detected assms(3) by metis
    moreover have "?tr ?d = ?tr d" using True by simp
    ultimately show ?thesis using t by (metis uint16le_put16_alone option.inject)
  next
    case False
    then have "?body ?d = ?body d" by simp
    moreover have "?tr ?d \<noteq> ?tr d"
      using False assms(2,3) by (metis append_take_drop_id calculation list_update_id nth_list_update_eq)
    ultimately show ?thesis using t by simp
  qed
  moreover obtain got where "slice ?d (int (length ?d) - 2) (int (length ?d)) \<bind> uint16le = Some got"
    using slice_uint16le [of "int (length d) - 2" "int (length d)" ?d] len by auto
  moreover have "slice ?d 0 (int (length ?d) - 2) = Some (take (length d - 2) ?d)"
    using slice_drop_last [of 2 ?d] len by simp
  ultimately show ?thesis
    using len trailer_crc [of ?d got] by (auto simp: parse_segment_def hdlc.dec_enc Let_def)
qed

theorem corrupted_byte_rejected_witness:
  "\<exists>got want. parse_segment (empty_config (\<lambda>_. '''') [])
     (hdlcEscape ([0x4b, 0x44, 0x01, 0x90, 0x3a, 0xc2][1 := 0x45])) = Some (Inl (CRC_mismatch 0 got want))"
proof -
  have "frame_body_ok (Decoded sample_private_frame)"
    using parsed_config_inv [OF sample_parses] by (simp add: config_inv_def sample_config_def)
  then have "frame_body_ok [0x4b, 0x44, 0x01, 0x90, 0x3a, 0xc2]" by (simp add: sample_private_frame_def)
  from corrupted_byte_rejected [OF this, of 1 "0x45" "empty_config (\<lambda>_. '''') []"]
  show ?thesis by (simp add: empty_config_def)
qed

end
