(* ===== verification/Reducer_Report.thy ===== *)
theory Reducer_Report
  imports Qsh_Decode Atomic_File
begin

text \<open>
  \<^verbatim>\<open>tools/u60-qtrace-reducer/report.go\<close>: the record of one capture run, its CSV row, and the report
  writer with its serial number, its JSON-lines file (a list of records: the JSON text of a record is
  its encoding) and its CSV file (a list of rows of fields).
\<close>

section \<open>Records\<close>

record runRecord =
  RunID :: string
  Timestamp :: int
  Stage :: string
  ControlGroup :: string
  rr_Target :: targetKind
  Attempt :: int
  CandidateFrameIDs :: "int list"
  CandidateSSIDs :: "u16 list"
  CandidateMaskBits :: "int list"
  PrivateCommandState :: string
  PositiveControlStatus :: bool
  CaptureDurationMS :: int
  FirstHitLatencyMS :: "int option"
  rr_FirstHitIsUpperBound :: bool
  rr_QSHFrameCount :: int
  rr_QSHTotalBytes :: int
  rr_TargetHashCount :: int
  rr_ParseSuccessCount :: int
  rr_ParseErrorCount :: int
  rr_NRCellCount :: int
  rr_LTECellCount :: int
  rr_CapturedBytes :: int
  rr_MalformedFrames :: int
  rr_Result :: bool
  FailureReason :: string
  rr_Cells :: "parsedCell list"
  rr_CaptureDirectory :: string
  rr_DiagExit :: string
  MaskApplyReference :: string
  Metadata :: "(string \<times> string) list"

text \<open>\<^verbatim>\<open>runRecord{}\<close>; the zero time is the instant 0001-01-01, \<open>-62135596800\<close> seconds from the epoch.\<close>

definition zero_record :: runRecord where
  "zero_record = \<lparr>RunID = [], Timestamp = - 62135596800 * Second, Stage = [], ControlGroup = [], rr_Target = [],
     Attempt = 0, CandidateFrameIDs = [], CandidateSSIDs = [], CandidateMaskBits = [], PrivateCommandState = [],
     PositiveControlStatus = False, CaptureDurationMS = 0, FirstHitLatencyMS = None,
     rr_FirstHitIsUpperBound = False, rr_QSHFrameCount = 0, rr_QSHTotalBytes = 0, rr_TargetHashCount = 0,
     rr_ParseSuccessCount = 0, rr_ParseErrorCount = 0, rr_NRCellCount = 0, rr_LTECellCount = 0,
     rr_CapturedBytes = 0, rr_MalformedFrames = 0, rr_Result = False, FailureReason = [], rr_Cells = [],
     rr_CaptureDirectory = [], rr_DiagExit = [], MaskApplyReference = [], Metadata = []\<rparr>"

definition joinInts :: "int list \<Rightarrow> string" where
  "joinInts values = Join (map Itoa values) '';''"

definition joinUint16s :: "u16 list \<Rightarrow> string" where
  "joinUint16s values = Join (map (\<lambda>value. utoa (unat value)) values) '';''"

definition runCSVHeader :: "string list" where
  "runCSVHeader = [
     ''run_id'', ''timestamp'', ''stage'', ''control_group'', ''target'', ''attempt'',
     ''candidate_frame_ids'', ''candidate_ssids'', ''candidate_mask_bits'', ''private_command_state'',
     ''positive_control_status'', ''capture_duration_ms'', ''first_hit_latency_ms'', ''first_hit_is_upper_bound'',
     ''qsh_frame_count'', ''qsh_total_bytes'', ''target_hash_count'', ''parse_success_count'', ''parse_error_count'',
     ''nr_cell_count'', ''lte_cell_count'', ''captured_bytes'', ''malformed_frames'', ''result'', ''failure_reason'']"

definition csvRow :: "runRecord \<Rightarrow> string list" where
  "csvRow r =
     (let latency = (case FirstHitLatencyMS r of None \<Rightarrow> [] | Some ms \<Rightarrow> Itoa ms) in
      [RunID r, format_rfc3339nano (Timestamp r), Stage r, ControlGroup r,
       rr_Target r, Itoa (Attempt r), joinInts (CandidateFrameIDs r),
       joinUint16s (CandidateSSIDs r), joinInts (CandidateMaskBits r), PrivateCommandState r,
       FormatBool (PositiveControlStatus r), Itoa (CaptureDurationMS r), latency,
       FormatBool (rr_FirstHitIsUpperBound r), Itoa (rr_QSHFrameCount r),
       Itoa (rr_QSHTotalBytes r), Itoa (rr_TargetHashCount r),
       Itoa (rr_ParseSuccessCount r), Itoa (rr_ParseErrorCount r), Itoa (rr_NRCellCount r),
       Itoa (rr_LTECellCount r), Itoa (rr_CapturedBytes r), Itoa (rr_MalformedFrames r),
       FormatBool (rr_Result r), FailureReason r])"

section \<open>The writer\<close>

record reportWriter =
  rw_dir :: string
  rw_jsonl :: "runRecord list"
  rw_csv :: "string list list"
  rw_serial :: nat
  rw_open :: bool

text \<open>What the calls of \<^verbatim>\<open>newReportWriter\<close> answer; \<open>nf_oldRows\<close> and \<open>nf_oldRecords\<close> are what the files hold from
  earlier runs, \<open>nf_csvEmpty\<close> says that \<^verbatim>\<open>runs.csv\<close> is missing or empty.\<close>

record new_faults =
  nf_mkdir :: err
  nf_jsonl :: err
  nf_csvEmpty :: bool
  nf_csv :: err
  nf_header :: err
  nf_oldRecords :: "runRecord list"
  nf_oldRows :: "string list list"

definition newReportWriter :: "new_faults \<Rightarrow> string \<Rightarrow> string + reportWriter" where
  "newReportWriter n dir =
     (case nf_mkdir n of Some e \<Rightarrow> Inl e | None \<Rightarrow>
     (case nf_jsonl n of Some e \<Rightarrow> Inl e | None \<Rightarrow>
     (case nf_csv n of Some e \<Rightarrow> Inl e | None \<Rightarrow>
     (let writer = \<lparr>rw_dir = dir, rw_jsonl = nf_oldRecords n, rw_csv = nf_oldRows n, rw_serial = 0, rw_open = True\<rparr> in
      if nf_csvEmpty n then
        (case nf_header n of
           Some e \<Rightarrow> Inl e
         | None \<Rightarrow> Inr (writer\<lparr>rw_csv := rw_csv writer @ [runCSVHeader]\<rparr>))
      else Inr writer))))"

definition nextID :: "int \<Rightarrow> string \<Rightarrow> reportWriter \<Rightarrow> string \<times> reportWriter" where
  "nextID now p writer =
     (let serial = rw_serial writer + 1 in
      (format_id now @ ''-'' @ p @ ''-'' @ pad_zero 3 (utoa serial), writer\<lparr>rw_serial := serial\<rparr>))"

text \<open>The answers of the calls of \<^verbatim>\<open>Write\<close>, in order; marshalling a record cannot fail, its floats are finite.\<close>

record report_faults =
  rf_jsonl :: err
  rf_sync :: err
  rf_row :: err
  rf_flush :: err
  rf_csvSync :: err

definition Write :: "report_faults \<Rightarrow> runRecord \<Rightarrow> reportWriter \<Rightarrow> err \<times> reportWriter" where
  "Write f r writer =
     (case rf_jsonl f of Some e \<Rightarrow> (Some e, writer) | None \<Rightarrow>
     (let writer = writer\<lparr>rw_jsonl := rw_jsonl writer @ [r]\<rparr> in
      case rf_sync f of Some e \<Rightarrow> (Some e, writer) | None \<Rightarrow>
     (case rf_row f of Some e \<Rightarrow> (Some e, writer) | None \<Rightarrow>
     (case rf_flush f of Some e \<Rightarrow> (Some e, writer) | None \<Rightarrow>
       (rf_csvSync f, writer\<lparr>rw_csv := rw_csv writer @ [csvRow r]\<rparr>)))))"

definition WriteSummary :: "write_faults \<Rightarrow> string \<Rightarrow> byte list \<Rightarrow> reportWriter \<Rightarrow> file_sys \<Rightarrow> err \<times> file_sys" where
  "WriteSummary w name json writer fs = writeFileAtomic w (path_join (rw_dir writer) name) (json @ [0x0a]) fs"

text \<open>Both files are closed; the first error is reported.\<close>

definition Close :: "err \<Rightarrow> err \<Rightarrow> reportWriter \<Rightarrow> err \<times> reportWriter" where
  "Close csvErr jsonlErr writer =
     (case csvErr of Some e \<Rightarrow> Some e | None \<Rightarrow> jsonlErr, writer\<lparr>rw_open := False\<rparr>)"

section \<open>Lemmas\<close>

lemma csvRow_columns [simp]: "length (csvRow r) = length runCSVHeader"
  by (simp add: csvRow_def runCSVHeader_def Let_def)

text \<open>The CSV file is a table: every row has as many fields as the header.\<close>

definition table_ok :: "reportWriter \<Rightarrow> bool" where
  "table_ok writer \<longleftrightarrow> (\<forall>row \<in> set (rw_csv writer). length row = length runCSVHeader)"

lemma table_ok_Write: "table_ok writer \<Longrightarrow> table_ok (snd (Write f r writer))"
  by (auto simp: table_ok_def Write_def Let_def split: option.splits)

lemma table_ok_nextID [simp]: "table_ok (snd (nextID now p writer)) = table_ok writer"
  by (simp add: table_ok_def nextID_def Let_def)

lemma Write_ok:
  "fst (Write f r writer) = None \<Longrightarrow>
   rw_jsonl (snd (Write f r writer)) = rw_jsonl writer @ [r] \<and> rw_csv (snd (Write f r writer)) = rw_csv writer @ [csvRow r]"
  by (auto simp: Write_def Let_def split: option.splits)

lemma Write_serial [simp]: "rw_serial (snd (Write f r writer)) = rw_serial writer" "rw_dir (snd (Write f r writer)) = rw_dir writer"
  by (auto simp: Write_def Let_def split: option.splits)

lemma nextID_fresh: "fst (nextID now p writer) = fst (nextID now p writer') \<Longrightarrow> rw_serial writer = rw_serial writer'"
  by (auto simp: nextID_def Let_def dest: pad_zero_utoa_inject)

end
