(* ===== verification/Reducer_Runner.thy ===== *)
theory Reducer_Runner
  imports Qtrace_Config Qsh_Parser Reducer_Report "HOL-Library.List_Lexorder"
begin

text \<open>
  \<^verbatim>\<open>tools/u60-qtrace-reducer/runner.go\<close>: the runner that applies a candidate configuration to the modem by
  starting \<^verbatim>\<open>diag_mdlog\<close> on it, measures a capture window and zeroes the masks again.

  The state is the record \<open>runner\<close>: the options, the lock, the command in \<^verbatim>\<open>options.active\<close>, the loggers
  started so far (each with the configuration file it was given), the report writer, the files and an
  opaque device state.  What the operating system and the device answer is the parameter \<open>device\<close>: one
  function of the device state per system call, so that every sequence of answers is covered.  The
  answers of a \<^verbatim>\<open>select\<close> are events: how the settle phase ended, and the finite list of what the window
  delivered before its deadline.  A run-time panic is \<open>None\<close>.
\<close>

section \<open>The device\<close>

record qmdl_view =
  v_entries :: "(string \<times> bool) list option"
  v_size :: "string \<Rightarrow> int option"
  v_open :: "string \<Rightarrow> string + string qmdl_file"
  v_ctx :: "ctx_point \<Rightarrow> err"

datatype ctxKind = MainCtx | CleanupCtx

datatype settle_event = SettleCtx string | SettleExit err | SettleDone

datatype window_event = WinCtx string | WinExit err | WinPoll qmdl_view int

datatype stop_event = Exited err | Killed err

datatype ubus_value = UString string | UNumber string | UBool bool | UOther string | UNull

record lock_answer =
  lk_mkdir :: err
  lk_open :: err
  lk_flock :: err
  lk_owner :: string
  lk_truncate :: err
  lk_seek :: err

record 'd device =
  dv_pid :: int
  dv_sha256 :: "byte list \<Rightarrow> string"
  dv_lock :: "string \<Rightarrow> 'd \<Rightarrow> lock_answer \<times> 'd"
  dv_pidof :: "'d \<Rightarrow> (err \<times> string) \<times> 'd"
  dv_cmdline :: "int \<Rightarrow> 'd \<Rightarrow> string \<times> 'd"
  dv_mkdir :: "string \<Rightarrow> 'd \<Rightarrow> err \<times> 'd"
  dv_write :: "string \<Rightarrow> 'd \<Rightarrow> write_faults \<times> 'd"
  dv_openlog :: "string \<Rightarrow> 'd \<Rightarrow> err \<times> 'd"
  dv_start :: "string \<Rightarrow> string list \<Rightarrow> byte list option \<Rightarrow> 'd \<Rightarrow> err \<times> 'd"
  dv_settle :: "ctxKind \<Rightarrow> int \<Rightarrow> 'd \<Rightarrow> settle_event \<times> 'd"
  dv_files :: "string \<Rightarrow> 'd \<Rightarrow> qmdl_view \<times> 'd"
  dv_window :: "ctxKind \<Rightarrow> int \<Rightarrow> int \<Rightarrow> 'd \<Rightarrow> window_event list \<times> 'd"
  dv_terminate :: "int \<Rightarrow> 'd \<Rightarrow> stop_event \<times> 'd"
  dv_signal :: "'d \<Rightarrow> unit \<times> 'd"
  dv_netinfo :: "'d \<Rightarrow> (string \<rightharpoonup> ubus_value) option \<times> 'd"
  dv_now :: "'d \<Rightarrow> int \<times> 'd"
  dv_report :: "'d \<Rightarrow> report_faults \<times> 'd"

section \<open>The state of the runner\<close>

record deviceOptions =
  Config :: qtraceConfig
  initialized :: bool
  WorkDir :: string
  DiagMDLog :: string
  Settle :: int
  Drain :: int
  Poll :: int
  StopGrace :: int
  KeepCaptures :: bool
  FileSizeMB :: int
  FileCount :: int

text \<open>\<open>initialized\<close> is \<^verbatim>\<open>options.Config != nil && options.Reports != nil\<close>.\<close>

record launch =
  la_program :: string
  la_args :: "string list"
  la_config :: "byte list option"

record 'd runner =
  opts :: deviceOptions
  locked :: bool
  active :: "nat option"
  launches :: "launch list"
  reports :: reportWriter
  files :: file_sys
  dev :: 'd

definition sys :: "('d \<Rightarrow> 'a \<times> 'd) \<Rightarrow> 'd runner \<Rightarrow> 'a \<times> 'd runner" where
  "sys f s = (let (x, d) = f (dev s) in (x, s\<lparr>dev := d\<rparr>))"

record captureOutcome =
  co_Metrics :: captureMetrics
  FirstHitLatency :: "int option"
  co_FirstHitIsUpperBound :: bool
  CaptureDuration :: int
  co_CaptureDirectory :: string
  co_DiagExit :: string

definition zero_outcome :: captureOutcome where
  "zero_outcome = \<lparr>co_Metrics = empty_metrics, FirstHitLatency = None, co_FirstHitIsUpperBound = False,
     CaptureDuration = 0, co_CaptureDirectory = [], co_DiagExit = []\<rparr>"

section \<open>Error texts\<close>

fun cfg_error_text :: "cfg_error \<Rightarrow> string" where
  "cfg_error_text (Hdlc Truncated_escape) = ''truncated HDLC escape''"
| "cfg_error_text (Frame_too_short n len) = ''frame '' @ utoa n @ '' is too short: '' @ utoa len @ '' bytes''"
| "cfg_error_text (CRC_mismatch n got want) =
     ''frame '' @ utoa n @ '' CRC mismatch: got='' @ pad_zero 4 (hex (unat got)) @ '' want='' @ pad_zero 4 (hex (unat want))"
| "cfg_error_text (Message_too_short i) = ''message frame '' @ Itoa i @ '' is too short''"
| "cfg_error_text (Message_subcommand i b) =
     ''message frame '' @ Itoa i @ '' uses 0x7d subcommand 0x'' @ pad_zero 2 (hex (unat b)) @ '', expected 0x04''"
| "cfg_error_text (Reversed_range i a b) =
     ''message frame '' @ Itoa i @ '' has reversed SSID range '' @ utoa (unat a) @ ''..'' @ utoa (unat b)"
| "cfg_error_text (Length_mismatch i len want a b) =
     ''message frame '' @ Itoa i @ '' length='' @ utoa len @ '', expected='' @ utoa want @ '' for SSID range '' @
     utoa (unat a) @ ''..'' @ utoa (unat b)"
| "cfg_error_text (Subsystem_too_short i) = ''subsystem frame '' @ Itoa i @ '' is too short''"
| "cfg_error_text (Unsupported_command b i) =
     ''unsupported command 0x'' @ pad_zero 2 (hex (unat b)) @ '' in frame '' @ Itoa i"
| "cfg_error_text No_frames = ''configuration contains no HDLC frames''"
| "cfg_error_text (Invalid_range i) = ''invalid SSID range/mask count for frame '' @ Itoa i"

fun qmdl_error_text :: "string qmdl_error \<Rightarrow> string" where
  "qmdl_error_text (CtxErr e) = e"
| "qmdl_error_text (OpenErr e) = e"
| "qmdl_error_text (SeekErr e) = e"
| "qmdl_error_text (ParseErr path e) = ''parse '' @ path @ '': '' @ e"
| "qmdl_error_text (CloseErr e) = e"

definition formatExit :: "err \<Rightarrow> string" where
  "formatExit e = (case e of None \<Rightarrow> ''exit=0'' | Some text \<Rightarrow> text)"

fun private_name :: "privateMode \<Rightarrow> string" where
  "private_name PrivateNone = ''none''"
| "private_name PrivateBoth = ''both''"
| "private_name Private9001 = ''0x44/0x9001-only''"
| "private_name Private0004 = ''0x55/0x0004-only''"

section \<open>Names, files and the serving cells\<close>

definition name_char :: "char \<Rightarrow> bool" where
  "name_char c \<longleftrightarrow> is_lower c \<or> is_upper c \<or> is_digit c \<or> c = CHR ''-'' \<or> c = CHR ''_'' \<or> c = CHR ''.''"

definition sanitizeName :: "string \<Rightarrow> string" where
  "sanitizeName value = Trim (map (\<lambda>c. if name_char c then c else CHR ''-'') value) ''-''"

definition qmdl_name :: "string \<Rightarrow> bool" where
  "qmdl_name name \<longleftrightarrow> HasPrefix name ''diag_log_'' \<and> HasSuffix name ''.qmdl''"

definition findQMDLFiles :: "string \<Rightarrow> qmdl_view \<Rightarrow> string list" where
  "findQMDLFiles dir view =
     (case v_entries view of
        None \<Rightarrow> []
      | Some entries \<Rightarrow>
          sort_key (map code) (map (\<lambda>(name, isDir). path_join dir name)
            (filter (\<lambda>(name, isDir). \<not> (isDir \<or> \<not> qmdl_name name)) entries)))"

definition snapshotQMDLSizes :: "string \<Rightarrow> qmdl_view \<Rightarrow> (string \<rightharpoonup> int)" where
  "snapshotQMDLSizes dir view =
     foldl (\<lambda>sizes path. case v_size view path of None \<Rightarrow> sizes | Some n \<Rightarrow> sizes(path \<mapsto> n))
       Map.empty (findQMDLFiles dir view)"

fun sprint_value :: "ubus_value \<Rightarrow> string" where
  "sprint_value (UString s) = s"
| "sprint_value (UNumber s) = s"
| "sprint_value (UBool b) = FormatBool b"
| "sprint_value (UOther s) = s"
| "sprint_value UNull = ''<nil>''"

definition mapUint :: "(string \<rightharpoonup> ubus_value) \<Rightarrow> string \<Rightarrow> u32 \<times> bool" where
  "mapUint values key =
     (case values key of
        None \<Rightarrow> (0, False)
      | Some value \<Rightarrow>
          if value = UNull then (0, False)
          else let text = TrimSpace (sprint_value value) in
            if text = [] \<or> text = ''-'' \<or> EqualFold text ''null'' then (0, False)
            else (case ParseUint text 32 of
                    Some n \<Rightarrow> (of_nat n, True)
                  | None \<Rightarrow> (if all_digits text then 0xffffffff else 0, False)))"

definition serving_cells :: "(string \<rightharpoonup> ubus_value) \<Rightarrow> servingIdentity list" where
  "serving_cells snapshot =
     (let (lte, lteOK) = mapUint snapshot ''lte_pci''; (nr, nrOK) = mapUint snapshot ''nr5g_pci'' in
      (if lteOK \<and> lte \<le> 503
       then [\<lparr>si_RAT = ''LTE'', si_PCI = lte, si_ARFCN = fst (mapUint snapshot ''wan_active_channel'')\<rparr>] else []) @
      (if nrOK \<and> nr \<le> 1007
       then [\<lparr>si_RAT = ''NR'', si_PCI = nr, si_ARFCN = fst (mapUint snapshot ''nr5g_action_channel'')\<rparr>] else []))"

definition readServingIdentities :: "'d device \<Rightarrow> 'd runner \<Rightarrow> servingIdentity list \<times> 'd runner" where
  "readServingIdentities D s =
     (let (snapshot, s) = sys (dv_netinfo D) s in
      (case snapshot of None \<Rightarrow> [] | Some m \<Rightarrow> serving_cells m, s))"

definition diagArguments :: "deviceOptions \<Rightarrow> string \<Rightarrow> string \<Rightarrow> string list" where
  "diagArguments options configPath runDir =
     [''-f'', configPath, ''-o'', runDir, ''-s'', Itoa (FileSizeMB options), ''-n'', Itoa (FileCount options), ''-d'']"

section \<open>Processes\<close>

definition check_process :: "'d device \<Rightarrow> string list \<times> 'd runner \<Rightarrow> string \<Rightarrow> string list \<times> 'd runner" where
  "check_process D as field =
     (let (found, s) = as in
      case Atoi field of
        None \<Rightarrow> (found, s)
      | Some pid \<Rightarrow>
          if pid = dv_pid D then (found, s)
          else let (cmdline, s) = sys (dv_cmdline D pid) s in
            (found @ [''pid='' @ Itoa pid @ '' cmd='' @
               TrimSpace (map (\<lambda>c. if c = CHR 0x00 then CHR '' '' else c) cmdline)], s))"

definition ensureNoDiagMDLog :: "'d device \<Rightarrow> 'd runner \<Rightarrow> err \<times> 'd runner" where
  "ensureNoDiagMDLog D s =
     (let ((e, out), s) = sys (dv_pidof D) s in
      if e \<noteq> None \<and> out = [] then (None, s)
      else let (found, s) = foldl (check_process D) ([], s) (Fields out) in
        if found \<noteq> []
        then (Some (''diag_mdlog is already running; stop it explicitly before reducer: '' @ Join found ''; ''), s)
        else (None, s))"

definition stopActive :: "'d device \<Rightarrow> 'd runner \<Rightarrow> 'd runner" where
  "stopActive D s = (case active s of None \<Rightarrow> s | Some _ \<Rightarrow> snd (sys (dv_signal D) s))"

definition release :: "'d device \<Rightarrow> 'd runner \<Rightarrow> 'd runner" where
  "release D s = (stopActive D s)\<lparr>locked := False\<rparr>"

definition acquire_defaults :: "deviceOptions \<Rightarrow> deviceOptions" where
  "acquire_defaults options = options\<lparr>
     DiagMDLog := (if DiagMDLog options = [] then ''diag_mdlog'' else DiagMDLog options),
     FileSizeMB := (if FileSizeMB options \<le> 0 then 4 else FileSizeMB options),
     FileCount := (if FileCount options \<le> 0 then 32 else FileCount options),
     Poll := (if Poll options \<le> 0 then 250 * Millisecond else Poll options),
     StopGrace := (if StopGrace options \<le> 0 then 2 * Second else StopGrace options)\<rparr>"

definition acquire :: "'d device \<Rightarrow> 'd runner \<Rightarrow> err \<times> 'd runner" where
  "acquire D s =
     (if \<not> initialized (opts s) then (Some ''device runner is not initialized'', s)
      else let s = s\<lparr>opts := acquire_defaults (opts s)\<rparr>;
               lockPath = path_join (WorkDir (opts s)) ''reducer.lock'';
               (a, s) = sys (dv_lock D lockPath) s in
        case lk_mkdir a of Some e \<Rightarrow> (Some e, s) | None \<Rightarrow>
       (case lk_open a of Some e \<Rightarrow> (Some e, s) | None \<Rightarrow>
       (case lk_flock a of
          Some e \<Rightarrow> (Some (''another reducer owns '' @ lockPath @ '' ('' @ TrimSpace (lk_owner a) @ ''): '' @ e), s)
        | None \<Rightarrow>
       (case lk_truncate a of Some e \<Rightarrow> (Some e, s) | None \<Rightarrow>
       (case lk_seek a of Some e \<Rightarrow> (Some e, s) | None \<Rightarrow>
          let (e, s) = ensureNoDiagMDLog D (s\<lparr>locked := True\<rparr>) in
          case e of Some e \<Rightarrow> (Some e, release D s) | None \<Rightarrow> (None, s))))))"

definition terminateCommand :: "'d device \<Rightarrow> 'd runner \<Rightarrow> string \<times> 'd runner" where
  "terminateCommand D s =
     (let (ev, s) = sys (dv_terminate D (StopGrace (opts s))) s in
      (case ev of Exited e \<Rightarrow> formatExit e | Killed e \<Rightarrow> ''forced-kill: '' @ formatExit e, s))"

definition clearActive :: "nat \<Rightarrow> 'd runner \<Rightarrow> 'd runner" where
  "clearActive command s = (if active s = Some command then s\<lparr>active := None\<rparr> else s)"

section \<open>One capture\<close>

text \<open>\<^verbatim>\<open>runDiagCapture\<close> up to the start of the logger: an error, or the run directory.  First the part that writes the
  validated configuration and starts the logger on it.\<close>

definition launchLogger :: "'d device \<Rightarrow> string \<Rightarrow> byte list \<Rightarrow> 'd runner \<Rightarrow> (string + string) \<times> 'd runner" where
  "launchLogger D runDir configData s =
     (let configPath = path_join runDir ''candidate.cfg'';
          (w, s) = sys (dv_write D configPath) s;
          (e, fs) = writeFileAtomic w configPath configData (files s);
          s = s\<lparr>files := fs\<rparr> in
      case e of Some e \<Rightarrow> (Inl e, s) | None \<Rightarrow>
     (let (e, s) = sys (dv_openlog D (path_join runDir ''diag-mdlog.log'')) s in
      case e of Some e \<Rightarrow> (Inl e, s) | None \<Rightarrow>
     (let command = \<lparr>la_program = DiagMDLog (opts s), la_args = diagArguments (opts s) configPath runDir,
                     la_config = files s configPath\<rparr>;
          (e, s) = sys (dv_start D (la_program command) (la_args command) (la_config command)) s in
      case e of Some e \<Rightarrow> (Inl e, s) | None \<Rightarrow>
        (Inr runDir, s\<lparr>launches := launches s @ [command], active := Some (length (launches s))\<rparr>))))"

definition startCapture :: "'d device \<Rightarrow> string \<Rightarrow> diagFrame list \<Rightarrow> 'd runner \<Rightarrow> ((string + string) \<times> 'd runner) option" where
  "startCapture D name frames s =
     (let (e, s) = ensureNoDiagMDLog D s in
      case e of Some e \<Rightarrow> Some (Inl e, s) | None \<Rightarrow>
     (let runDir = path_join (path_join (WorkDir (opts s)) ''captures'') (sanitizeName name);
          (e, s) = sys (dv_mkdir D runDir) s in
      case e of Some e \<Rightarrow> Some (Inl e, s) | None \<Rightarrow> do {
        parsed \<leftarrow> parseQTraceConfigBytes (dv_sha256 D) (encodeConfig frames);
        case parsed of
          Inl e \<Rightarrow> Some (Inl (''generated candidate failed HDLC/CRC validation: '' @ cfg_error_text e), s)
        | Inr _ \<Rightarrow> Some (launchLogger D runDir (encodeConfig frames) s) }))"

text \<open>The polling loop: how it ended, the latest metrics and the first hit.\<close>

datatype loop_end = LoopDeadline | LoopCtx string | LoopExit string

fun capture_loop :: "string \<Rightarrow> (string \<rightharpoonup> int) \<Rightarrow> servingIdentity list \<Rightarrow> targetKind \<Rightarrow> window_event list \<Rightarrow>
    captureMetrics \<Rightarrow> int option \<Rightarrow> (loop_end \<times> captureMetrics \<times> int option) option" where
  "capture_loop runDir baseline serving target [] latest firstHit = Some (LoopDeadline, latest, firstHit)"
| "capture_loop runDir baseline serving target (WinCtx e # evs) latest firstHit = Some (LoopCtx e, latest, firstHit)"
| "capture_loop runDir baseline serving target (WinExit e # evs) latest firstHit =
     Some (LoopExit (formatExit e), latest, firstHit)"
| "capture_loop runDir baseline serving target (WinPoll view elapsed # evs) latest firstHit = do {
     r \<leftarrow> analyzeQMDLWindow (v_ctx view) (v_open view) (findQMDLFiles runDir view) (Some baseline) serving target;
     case r of
       Inl _ \<Rightarrow> capture_loop runDir baseline serving target evs latest firstHit
     | Inr metrics \<Rightarrow> capture_loop runDir baseline serving target evs metrics
         (if firstHit = None \<and> matches metrics target then Some elapsed else firstHit) }"

text \<open>The end of the capture, after the loop ended at the deadline or with the logger.\<close>

definition finishCapture :: "'d device \<Rightarrow> string \<Rightarrow> nat \<Rightarrow> (string \<rightharpoonup> int) \<Rightarrow> targetKind \<Rightarrow> int \<Rightarrow> servingIdentity list \<Rightarrow>
    loop_end \<Rightarrow> captureMetrics \<Rightarrow> int option \<Rightarrow> 'd runner \<Rightarrow> ((captureOutcome \<times> err) \<times> 'd runner) option" where
  "finishCapture D runDir command baseline target window serving ended latest firstHit s =
     (let (diagExit, s) = (case ended of LoopExit t \<Rightarrow> (t, s) | _ \<Rightarrow> terminateCommand D s);
          s = clearActive command s;
          (view, s) = sys (dv_files D runDir) s in do {
      final \<leftarrow> analyzeQMDLWindow (v_ctx view) (v_open view) (findQMDLFiles runDir view) (Some baseline) serving target;
      let latest = (case final of Inr m \<Rightarrow> m | Inl _ \<Rightarrow> latest);
      let upperBound = (firstHit = None \<and> matches latest target);
      let outcome = \<lparr>co_Metrics = latest, FirstHitLatency = (if upperBound then Some window else firstHit),
                     co_FirstHitIsUpperBound = upperBound, CaptureDuration = window,
                     co_CaptureDirectory = (if KeepCaptures (opts s) then runDir else []), co_DiagExit = diagExit\<rparr>;
      let s = (if KeepCaptures (opts s) then s else s\<lparr>files := remove_all runDir (files s)\<rparr>);
      Some ((outcome,
             case final of
               Inl e \<Rightarrow> Some (qmdl_error_text e)
             | Inr _ \<Rightarrow> (case ended of
                           LoopExit t \<Rightarrow> Some (''diag_mdlog exited before capture window ended: '' @ t)
                         | _ \<Rightarrow> None)), s) })"

definition measureCapture :: "'d device \<Rightarrow> ctxKind \<Rightarrow> string \<Rightarrow> nat \<Rightarrow> targetKind \<Rightarrow> int \<Rightarrow> servingIdentity list \<Rightarrow>
    'd runner \<Rightarrow> ((captureOutcome \<times> err) \<times> 'd runner) option" where
  "measureCapture D kind runDir command target window serving s =
     (let (view, s) = sys (dv_files D runDir) s;
          baseline = snapshotQMDLSizes runDir view;
          (evs, s) = sys (dv_window D kind window (Poll (opts s))) s in do {
      (ended, latest, firstHit) \<leftarrow> capture_loop runDir baseline serving target evs empty_metrics None;
      case ended of
        LoopCtx e \<Rightarrow> Some ((zero_outcome, Some e), clearActive command (snd (terminateCommand D s)))
      | _ \<Rightarrow> finishCapture D runDir command baseline target window serving ended latest firstHit s })"

definition runDiagCapture :: "'d device \<Rightarrow> ctxKind \<Rightarrow> string \<Rightarrow> diagFrame list \<Rightarrow> targetKind \<Rightarrow> int \<Rightarrow> int \<Rightarrow>
    servingIdentity list \<Rightarrow> 'd runner \<Rightarrow> ((captureOutcome \<times> err) \<times> 'd runner) option" where
  "runDiagCapture D kind name frames target settle window serving s = do {
     (r, s) \<leftarrow> startCapture D name frames s;
     case r of
       Inl e \<Rightarrow> Some ((zero_outcome, Some e), s)
     | Inr runDir \<Rightarrow>
         (let command = length (launches s) - 1; (ev, s) = sys (dv_settle D kind settle) s in
          case ev of
            SettleCtx e \<Rightarrow> Some ((zero_outcome, Some e), snd (terminateCommand D s))
          | SettleExit e \<Rightarrow>
              Some ((zero_outcome, Some (''diag_mdlog exited during settle: '' @ formatExit e)), clearActive command s)
          | SettleDone \<Rightarrow> measureCapture D kind runDir command target window serving s) }"

section \<open>Cleanup and candidates\<close>

definition cleanup :: "'d device \<Rightarrow> ctxKind \<Rightarrow> string \<Rightarrow> 'd runner \<Rightarrow> (err \<times> 'd runner) option" where
  "cleanup D kind label s =
     (case zeroMessageFrames (Config (opts s)) of
        Inl e \<Rightarrow> Some (Some (cfg_error_text e), s)
      | Inr zero \<Rightarrow> do {
          ((_, e), s) \<leftarrow> runDiagCapture D kind (''cleanup-'' @ label) zero targetCombined 0 (Drain (opts s)) [] s;
          Some (e, s) })"

text \<open>What distinguishes one test from another: the arguments of \<^verbatim>\<open>testCandidate\<close>.\<close>

record candidate =
  cd_stage :: string
  cd_control :: string
  cd_target :: targetKind
  cd_frameIDs :: "int list"
  cd_zeroMasks :: bool
  cd_private :: privateMode
  cd_privateState :: string
  cd_attempt :: int
  cd_positiveOK :: bool
  cd_window :: int

definition make_record :: "candidate \<Rightarrow> qtraceConfig \<Rightarrow> string \<Rightarrow> int \<Rightarrow> captureOutcome \<Rightarrow> err \<Rightarrow> err \<Rightarrow> runRecord" where
  "make_record c config runID now outcome captureErr cleanupErr =
     (let m = co_Metrics outcome; hit = matches m (cd_target c) in
      \<lparr>RunID = runID, Timestamp = now, Stage = cd_stage c, ControlGroup = cd_control c,
       rr_Target = cd_target c, Attempt = cd_attempt c, CandidateFrameIDs = cd_frameIDs c,
       CandidateSSIDs = allSSIDs config (cd_frameIDs c), CandidateMaskBits = [],
       PrivateCommandState = (if cd_privateState c = [] then private_name (cd_private c) else cd_privateState c),
       PositiveControlStatus = cd_positiveOK c,
       CaptureDurationMS = Milliseconds (CaptureDuration outcome),
       FirstHitLatencyMS = map_option Milliseconds (FirstHitLatency outcome),
       rr_FirstHitIsUpperBound = co_FirstHitIsUpperBound outcome,
       rr_QSHFrameCount = QSHFrameCount m, rr_QSHTotalBytes = QSHTotalBytes m,
       rr_TargetHashCount = TargetHashCount m, rr_ParseSuccessCount = ParseSuccessCount m,
       rr_ParseErrorCount = ParseErrorCount m, rr_NRCellCount = NRCellCount m,
       rr_LTECellCount = LTECellCount m, rr_CapturedBytes = CapturedBytes m,
       rr_MalformedFrames = MalformedFrames m,
       rr_Result = (captureErr = None \<and> cleanupErr = None \<and> hit),
       FailureReason =
         (case captureErr of
            Some e \<Rightarrow> e
          | None \<Rightarrow> (case cleanupErr of
                       Some e \<Rightarrow> ''post-run zero-mask cleanup failed: '' @ e
                     | None \<Rightarrow> if \<not> hit then ''no complete, valid target cell in this capture window'' else [])),
       rr_Cells = Cells m, rr_CaptureDirectory = co_CaptureDirectory outcome, rr_DiagExit = co_DiagExit outcome,
       MaskApplyReference = ''end of configured settle interval'', Metadata = []\<rparr>)"

text \<open>\<^verbatim>\<open>testCandidate\<close> from the point where the deferred cleanup is registered.\<close>

definition runCandidate :: "'d device \<Rightarrow> candidate \<Rightarrow> diagFrame list \<Rightarrow> 'd runner \<Rightarrow> ((runRecord \<times> err) \<times> 'd runner) option" where
  "runCandidate D c frames s =
     (let p = cd_stage c @ (if cd_control c = [] then [] else ''-'' @ cd_control c);
          (now, s) = sys (dv_now D) s;
          (runID, writer) = nextID now p (reports s);
          (serving, s) = readServingIdentities D (s\<lparr>reports := writer\<rparr>) in do {
      ((outcome, captureErr), s) \<leftarrow>
        runDiagCapture D MainCtx runID frames (cd_target c) (Settle (opts s)) (cd_window c) serving s;
      (cleanupErr, s) \<leftarrow> cleanup D CleanupCtx (''after-'' @ runID) s;
      let (now, s) = sys (dv_now D) s;
      let r = make_record c (Config (opts s)) runID now outcome captureErr cleanupErr;
      let (f, s) = sys (dv_report D) s;
      let (writeErr, writer) = Write f r (reports s);
      let s = s\<lparr>reports := writer\<rparr>;
      (_, s) \<leftarrow> (if cleanupErr \<noteq> None then cleanup D CleanupCtx ''deferred'' s else Some (None, s));
      Some ((r, case writeErr of Some e \<Rightarrow> Some e | None \<Rightarrow> join_errors captureErr cleanupErr), s) })"

definition testCandidate :: "'d device \<Rightarrow> candidate \<Rightarrow> 'd runner \<Rightarrow> ((runRecord \<times> err) \<times> 'd runner) option" where
  "testCandidate D c s =
     (let (e, s) = ensureNoDiagMDLog D s in
      case e of Some e \<Rightarrow> Some ((zero_record, Some e), s) | None \<Rightarrow> do {
        (e, s) \<leftarrow> cleanup D MainCtx ''before'' s;
        case e of
          Some e \<Rightarrow> Some ((zero_record, Some (''pre-run zero-mask cleanup failed: '' @ e)), s)
        | None \<Rightarrow> do {
            selected \<leftarrow> selectFrames (Config (opts s)) (cd_frameIDs c) (cd_zeroMasks c) (cd_private c);
            case selected of
              Inl e \<Rightarrow> Some ((zero_record, Some (cfg_error_text e)), s)
            | Inr frames \<Rightarrow> runCandidate D c frames s } })"

definition emergencyRelease :: "'d device \<Rightarrow> 'd runner \<Rightarrow> (unit \<times> 'd runner) option" where
  "emergencyRelease D s = do {
     (_, s) \<leftarrow> cleanup D CleanupCtx ''process-exit'' (stopActive D s);
     Some ((), release D s) }"

section \<open>What the operations keep\<close>

lemma sys_eq: "sys f s = (fst (f (dev s)), s\<lparr>dev := snd (f (dev s))\<rparr>)"
  by (simp add: sys_def case_prod_beta)

definition kept :: "'d runner \<Rightarrow> 'd runner \<Rightarrow> bool" where
  "kept s s' \<longleftrightarrow> opts s' = opts s \<and> reports s' = reports s \<and> locked s' = locked s"

lemma kept_refl [simp]: "kept s s"
  by (simp add: kept_def)

lemma kept_trans: "kept s t \<Longrightarrow> kept t u \<Longrightarrow> kept s u"
  by (simp add: kept_def)

text \<open>Only the device state differs.\<close>

definition dev_only :: "'d runner \<Rightarrow> 'd runner \<Rightarrow> bool" where
  "dev_only s s' \<longleftrightarrow> s' = s\<lparr>dev := dev s'\<rparr>"

lemma dev_only_refl [simp]: "dev_only s s"
  by (simp add: dev_only_def)

lemma dev_only_trans: "dev_only s t \<Longrightarrow> dev_only t u \<Longrightarrow> dev_only s u"
  by (simp add: dev_only_def) (metis runner.surjective runner.update_convs(7))

lemma dev_only_sys [simp]: "dev_only s (s\<lparr>dev := d\<rparr>)"
  by (simp add: dev_only_def)

lemma dev_only_fields:
  assumes "dev_only s s'"
  shows "opts s' = opts s" "reports s' = reports s" "locked s' = locked s" "launches s' = launches s"
    "active s' = active s" "files s' = files s"
  by (subst assms [unfolded dev_only_def], simp)+

lemma check_process_dev: "dev_only s (snd (foldl (check_process D) (found, s) texts))"
proof (induction texts arbitrary: found s)
  case (Cons f fs)
  obtain found' s' where c: "check_process D (found, s) f = (found', s')" by fastforce
  then have "dev_only s s'" by (auto simp: check_process_def sys_eq Let_def split: option.splits if_splits)
  with Cons.IH [of s' found'] show ?case by (auto simp: c intro: dev_only_trans)
qed simp

lemma ensureNoDiagMDLog_dev: "ensureNoDiagMDLog D s = (e, s') \<Longrightarrow> dev_only s s'"
  using check_process_dev [of "s\<lparr>dev := snd (dv_pidof D (dev s))\<rparr>" D "[]" "Fields (snd (fst (dv_pidof D (dev s))))"]
  by (auto simp: ensureNoDiagMDLog_def sys_eq Let_def case_prod_beta split: if_splits
      intro: dev_only_trans [OF dev_only_sys [of s "snd (dv_pidof D (dev s))"]])

lemma terminateCommand_dev: "terminateCommand D s = (t, s') \<Longrightarrow> dev_only s s'"
  by (auto simp: terminateCommand_def sys_eq Let_def)

lemma readServingIdentities_dev: "readServingIdentities D s = (cs, s') \<Longrightarrow> dev_only s s'"
  by (auto simp: readServingIdentities_def sys_eq Let_def)

lemma clearActive_fields [simp]:
  "opts (clearActive c s) = opts s" "reports (clearActive c s) = reports s" "locked (clearActive c s) = locked s"
  "launches (clearActive c s) = launches s" "files (clearActive c s) = files s" "dev (clearActive c s) = dev s"
  by (simp_all add: clearActive_def)

lemma writeFileAtomic_written: "fst (writeFileAtomic w path data fs) = None \<Longrightarrow> snd (writeFileAtomic w path data fs) path = Some data"
  by (auto simp: writeFileAtomic_def abandon_def Let_def split: option.splits sum.splits)

section \<open>One capture starts at most one logger\<close>

text \<open>The effect of a capture on the loggers started: none, and then it failed; or one, on the encoded frames.\<close>

definition one_launch :: "diagFrame list \<Rightarrow> bool \<Rightarrow> 'd runner \<Rightarrow> 'd runner \<Rightarrow> bool" where
  "one_launch frames ok s s' \<longleftrightarrow>
     (\<not> ok \<and> launches s' = launches s) \<or>
     (\<exists>l. launches s' = launches s @ [l] \<and> la_config l = Some (encodeConfig frames))"

lemma parse_config_total: "parseQTraceConfigBytes sha256 data \<noteq> None"
  using parse_segments_total [of "empty_config sha256 data" "split_on 0x7e data"]
  by (auto simp: parseQTraceConfigBytes_def split: sum.splits)

text \<open>What starting a capture guarantees: \<open>r\<close> is the error or the run directory.\<close>

definition started :: "diagFrame list \<Rightarrow> 'd runner \<Rightarrow> string + string \<Rightarrow> 'd runner \<Rightarrow> bool" where
  "started frames s r s' \<longleftrightarrow> kept s s' \<and> one_launch frames (\<not> isl r) s s' \<and>
     (\<not> isl r \<longrightarrow> launches s' \<noteq> [] \<and> active s' = Some (length (launches s') - 1))"

lemma started_dev: "dev_only s t \<Longrightarrow> started frames t r s' \<Longrightarrow> started frames s r s'"
  using dev_only_fields [of s t] by (simp add: started_def one_launch_def kept_def)

lemma launchLogger_spec: "started frames s (fst (launchLogger D dir (encodeConfig frames) s)) (snd (launchLogger D dir (encodeConfig frames) s))"
proof -
  obtain e fs where w: "writeFileAtomic (fst (dv_write D (path_join dir ''candidate.cfg'') (dev s)))
      (path_join dir ''candidate.cfg'') (encodeConfig frames) (files s) = (e, fs)" by fastforce
  then have "e = None \<Longrightarrow> fs (path_join dir ''candidate.cfg'') = Some (encodeConfig frames)"
    using writeFileAtomic_written by (metis fst_conv snd_conv)
  then show ?thesis
    by (auto simp: launchLogger_def sys_eq w Let_def started_def kept_def one_launch_def split: option.splits)
qed

lemma startCapture_spec: "\<exists>r s'. startCapture D name frames s = Some (r, s') \<and> started frames s r s'"
proof -
  obtain e s1 where e: "ensureNoDiagMDLog D s = (e, s1)" by fastforce
  note d = ensureNoDiagMDLog_dev [OF e]
  let ?dir = "path_join (path_join (WorkDir (opts s1)) ''captures'') (sanitizeName name)"
  let ?s2 = "s1\<lparr>dev := snd (dv_mkdir D ?dir (dev s1))\<rparr>"
  have failed: "started frames t (Inl x) t" for t :: "'a runner" and x by (simp add: started_def one_launch_def)
  obtain p where p: "parseQTraceConfigBytes (dv_sha256 D) (encodeConfig frames) = Some p"
    using parse_config_total by fastforce
  have d2: "dev_only s ?s2" by (rule dev_only_trans [OF d]) simp
  obtain r s3 where l: "launchLogger D ?dir (encodeConfig frames) ?s2 = (r, s3)" by fastforce
  have "started frames s r s3" using started_dev [OF d2 launchLogger_spec [of frames ?s2 D ?dir]] l by simp
  then show ?thesis
    using started_dev [OF d failed] started_dev [OF d2 failed] l
    by (cases e; cases "fst (dv_mkdir D ?dir (dev s1))"; cases p)
      (simp_all add: startCapture_def e p sys_eq Let_def)
qed

section \<open>What a capture guarantees\<close>

text \<open>The metrics of a capture that succeeded are those of an analysis of its files.\<close>

definition analysed :: "servingIdentity list \<Rightarrow> targetKind \<Rightarrow> captureMetrics \<Rightarrow> bool" where
  "analysed serving target m \<longleftrightarrow>
     (\<exists>ctx openf paths offsets. analyzeQMDLWindow ctx (openf :: string \<Rightarrow> string + string qmdl_file) paths offsets serving target = Some (Inr m))"

lemma analysed_ok: "analysed serving target m \<Longrightarrow> metrics_accounted target m \<and> cells_ok serving m"
  unfolding analysed_def using analyze_window_result by (metis option.inject)

lemma capture_loop_total: "\<exists>r. capture_loop runDir baseline serving target evs latest firstHit = Some r"
proof (induction runDir baseline serving target evs latest firstHit rule: capture_loop.induct)
  case (4 runDir baseline serving target view elapsed evs latest firstHit)
  obtain r where r: "analyzeQMDLWindow (v_ctx view) (v_open view) (findQMDLFiles runDir view) (Some baseline) serving target = Some r"
    using analyze_window_result by blast
  then show ?case using 4 by (cases r) auto
qed simp_all

text \<open>A capture that ran: \<open>e\<close> its error, \<open>o\<close> its outcome.\<close>

definition measured :: "servingIdentity list \<Rightarrow> targetKind \<Rightarrow> int \<Rightarrow> 'd runner \<Rightarrow> captureOutcome \<Rightarrow> err \<Rightarrow> 'd runner \<Rightarrow> bool" where
  "measured serving target window s out e s' \<longleftrightarrow> kept s s' \<and> launches s' = launches s \<and>
     (e = None \<longrightarrow> analysed serving target (co_Metrics out) \<and> CaptureDuration out = window \<and>
        (FirstHitLatency out = None \<longrightarrow> \<not> matches (co_Metrics out) target))"

lemma measured_failed: "kept s s' \<Longrightarrow> launches s' = launches s \<Longrightarrow> measured serving target window s out (Some e) s'"
  by (simp add: measured_def)

lemma finishCapture_spec:
  "\<exists>out e s'. finishCapture D runDir command baseline target window serving ended latest firstHit s = Some ((out, e), s') \<and>
     measured serving target window s out e s'"
proof -
  obtain x s1 where t: "(case ended of LoopExit t \<Rightarrow> (t, s) | _ \<Rightarrow> terminateCommand D s) = (x, s1)" by fastforce
  then have "dev_only s s1" by (auto split: loop_end.splits intro: terminateCommand_dev)
  note f = dev_only_fields [OF this]
  let ?view = "fst (dv_files D runDir (dev s1))"
  obtain r where r: "analyzeQMDLWindow (v_ctx ?view) (v_open ?view) (findQMDLFiles runDir ?view) (Some baseline) serving target = Some r"
    using analyze_window_result by blast
  have "r = Inr m \<Longrightarrow> analysed serving target m" for m using r by (auto simp: analysed_def)
  with f have "case finishCapture D runDir command baseline target window serving ended latest firstHit s of
      None \<Rightarrow> False | Some ((out, e), s') \<Rightarrow> measured serving target window s out e s'"
    unfolding finishCapture_def t
    by (cases r; cases firstHit) (simp_all add: sys_eq Let_def r measured_def kept_def split: loop_end.split)
  then show ?thesis by (auto split: option.splits)
qed

lemma measureCapture_spec:
  "\<exists>out e s'. measureCapture D kind runDir command target window serving s = Some ((out, e), s') \<and>
     measured serving target window s out e s'"
proof -
  let ?s1 = "s\<lparr>dev := snd (dv_files D runDir (dev s))\<rparr>"
  let ?s2 = "?s1\<lparr>dev := snd (dv_window D kind window (Poll (opts s)) (dev ?s1))\<rparr>"
  let ?b = "snapshotQMDLSizes runDir (fst (dv_files D runDir (dev s)))"
  let ?evs = "fst (dv_window D kind window (Poll (opts s)) (dev ?s1))"
  obtain ended latest firstHit where l: "capture_loop runDir ?b serving target ?evs empty_metrics None = Some (ended, latest, firstHit)"
    using capture_loop_total by (metis prod_cases3)
  obtain t s3 where t: "terminateCommand D ?s2 = (t, s3)" by fastforce
  note f = dev_only_fields [OF terminateCommand_dev [OF t]]
  obtain out e s' where fin: "finishCapture D runDir command ?b target window serving ended latest firstHit ?s2 = Some ((out, e), s')"
      and "measured serving target window ?s2 out e s'" using finishCapture_spec by blast
  then have "measured serving target window s out e s'" by (simp add: measured_def kept_def)
  with fin f t l show ?thesis
    by (cases ended) (auto simp: measureCapture_def sys_eq Let_def measured_def kept_def)
qed

text \<open>The whole capture.\<close>

definition captured :: "diagFrame list \<Rightarrow> servingIdentity list \<Rightarrow> targetKind \<Rightarrow> int \<Rightarrow> 'd runner \<Rightarrow> captureOutcome \<Rightarrow> err \<Rightarrow> 'd runner \<Rightarrow> bool" where
  "captured frames serving target window s out e s' \<longleftrightarrow> kept s s' \<and> one_launch frames (e = None) s s' \<and>
     (e = None \<longrightarrow> analysed serving target (co_Metrics out) \<and> CaptureDuration out = window \<and>
        (FirstHitLatency out = None \<longrightarrow> \<not> matches (co_Metrics out) target))"

lemma runDiagCapture_spec:
  "\<exists>out e s'. runDiagCapture D kind name frames target settle window serving s = Some ((out, e), s') \<and>
     captured frames serving target window s out e s'"
proof -
  obtain r s1 where st: "startCapture D name frames s = Some (r, s1)" and ok: "started frames s r s1"
    using startCapture_spec by blast
  let ?s2 = "s1\<lparr>dev := snd (dv_settle D kind settle (dev s1))\<rparr>" and ?c = "length (launches s1) - 1"
  show ?thesis
  proof (cases r)
    case (Inl x)
    with st ok show ?thesis by (auto simp: runDiagCapture_def captured_def started_def one_launch_def)
  next
    case (Inr dir)
    with ok have k: "kept s s1" and l: "one_launch frames True s s1" by (auto simp: started_def)
    obtain t s3 where t: "terminateCommand D ?s2 = (t, s3)" by fastforce
    note f = dev_only_fields [OF terminateCommand_dev [OF t]]
    obtain out e s' where m: "measureCapture D kind dir ?c target window serving ?s2 = Some ((out, e), s')"
      "measured serving target window ?s2 out e s'" using measureCapture_spec by blast
    have "captured frames serving target window s out e s'"
      using m(2) k l by (auto simp: captured_def measured_def kept_def one_launch_def)
    with k l f t m st Inr show ?thesis
      by (cases "fst (dv_settle D kind settle (dev s1))")
        (auto simp: runDiagCapture_def sys_eq Let_def captured_def kept_def one_launch_def)
  qed
qed

section \<open>What a test guarantees\<close>

text \<open>The configurations applied to the modem so far, and the one that zeroes every mask.\<close>

definition applied :: "'d runner \<Rightarrow> byte list option list" where
  "applied s = map la_config (launches s)"

definition zero_bytes :: "qtraceConfig \<Rightarrow> byte list option" where
  "zero_bytes config = (case zeroMessageFrames config of Inl _ \<Rightarrow> None | Inr zero \<Rightarrow> Some (encodeConfig zero))"

lemma zeroMessageFrames_ok:
  "config_inv c \<Longrightarrow> \<exists>zs. zeroMessageFrames c = Inr zs \<and> (\<forall>z \<in> set zs. frame_body_ok (Decoded z))"
  using zero_frames_loop_ok [of "MessageFrames c"]
  by (fastforce simp: config_inv_def zeroMessageFrames_def list_all2_conv_all_nth in_set_conv_nth)

lemma one_launch_applied:
  "one_launch frames ok s s' \<Longrightarrow>
   \<exists>xs. applied s' = applied s @ xs \<and> (xs = [] \<or> xs = [Some (encodeConfig frames)]) \<and> (ok \<longrightarrow> xs \<noteq> [])"
  by (auto simp: one_launch_def applied_def)

lemma cleanup_spec:
  assumes "config_inv (Config (opts s))"
  shows "\<exists>e s' n. cleanup D kind label s = Some (e, s') \<and> kept s s' \<and> n \<le> 1 \<and> (e = None \<longrightarrow> n = 1) \<and>
     applied s' = applied s @ replicate n (zero_bytes (Config (opts s)))"
proof -
  obtain zs where z: "zeroMessageFrames (Config (opts s)) = Inr zs"
    using zeroMessageFrames_ok [OF assms] by blast
  obtain out e s' where r: "runDiagCapture D kind (''cleanup-'' @ label) zs targetCombined 0 (Drain (opts s)) [] s = Some ((out, e), s')"
      and c: "captured zs [] targetCombined (Drain (opts s)) s out e s'"
    using runDiagCapture_spec by blast
  then obtain xs where xs: "applied s' = applied s @ xs" "xs = [] \<or> xs = [zero_bytes (Config (opts s))]" "e = None \<longrightarrow> xs \<noteq> []"
    using one_launch_applied [of zs "e = None" s s'] by (auto simp: captured_def zero_bytes_def z)
  then have "length xs \<le> 1" "xs = replicate (length xs) (zero_bytes (Config (opts s)))" by auto
  moreover have "cleanup D kind label s = Some (e, s')" using r by (simp add: cleanup_def z)
  ultimately show ?thesis using c xs by (intro exI [of _ e] exI [of _ s'] exI [of _ "length xs"]) (auto simp: captured_def)
qed

text \<open>What the record and the error of a test say.\<close>

definition reports_metrics :: "runRecord \<Rightarrow> captureMetrics \<Rightarrow> bool" where
  "reports_metrics r m \<longleftrightarrow> rr_Cells r = Cells m \<and> rr_NRCellCount r = NRCellCount m \<and> rr_LTECellCount r = LTECellCount m \<and>
     rr_QSHFrameCount r = QSHFrameCount m \<and> rr_QSHTotalBytes r = QSHTotalBytes m"

definition verdict_ok :: "candidate \<Rightarrow> runRecord \<Rightarrow> err \<Rightarrow> bool" where
  "verdict_ok c r e \<longleftrightarrow>
     (if rr_Result r \<or> e = None then
        \<exists>serving m. analysed serving (cd_target c) m \<and> reports_metrics r m \<and> (rr_Result r \<longleftrightarrow> matches m (cd_target c)) \<and>
          CandidateFrameIDs r = cd_frameIDs c \<and> CaptureDurationMS r = Milliseconds (cd_window c) \<and>
          (rr_Result r \<longrightarrow> FirstHitLatencyMS r \<noteq> None)
      else True)"

lemma make_record_verdict:
  assumes "captured frames serving (cd_target c) (cd_window c) s out captureErr s'"
    and "e = (case writeErr of Some x \<Rightarrow> Some x | None \<Rightarrow> join_errors captureErr cleanupErr)"
  shows "verdict_ok c (make_record c config runID now out captureErr cleanupErr) e"
proof (cases "captureErr = None \<and> cleanupErr = None")
  case True
  with assms(1) have a: "analysed serving (cd_target c) (co_Metrics out)" "CaptureDuration out = cd_window c"
    "FirstHitLatency out = None \<longrightarrow> \<not> matches (co_Metrics out) (cd_target c)" by (auto simp: captured_def)
  let ?r = "make_record c config runID now out captureErr cleanupErr"
  have "reports_metrics ?r (co_Metrics out)" "rr_Result ?r \<longleftrightarrow> matches (co_Metrics out) (cd_target c)"
    "CandidateFrameIDs ?r = cd_frameIDs c" "CaptureDurationMS ?r = Milliseconds (cd_window c)"
    "rr_Result ?r \<longrightarrow> FirstHitLatencyMS ?r \<noteq> None"
    using True a(2,3) by (auto simp: make_record_def reports_metrics_def Let_def)
  with a(1) show ?thesis unfolding verdict_ok_def by auto
next
  case False
  with assms(2) have "e \<noteq> None" "\<not> rr_Result (make_record c config runID now out captureErr cleanupErr)"
    by (auto simp: make_record_def join_errors_def Let_def split: option.splits)
  then show ?thesis by (auto simp: verdict_ok_def)
qed

text \<open>The report writer after a test: one more serial number and at most one more record, which is the one returned.\<close>

definition reported :: "reportWriter \<Rightarrow> runRecord \<Rightarrow> err \<Rightarrow> reportWriter \<Rightarrow> bool" where
  "reported w r e w' \<longleftrightarrow> rw_dir w' = rw_dir w \<and> (table_ok w \<longrightarrow> table_ok w') \<and>
     (rw_jsonl w' = rw_jsonl w \<or> rw_jsonl w' = rw_jsonl w @ [r]) \<and>
     (e = None \<longrightarrow> rw_jsonl w' = rw_jsonl w @ [r] \<and> rw_csv w' = rw_csv w @ [csvRow r])"

lemma Write_reported:
  assumes "Write f r (snd (nextID now p w)) = (x, w')" and "e = None \<Longrightarrow> x = None"
  shows "reported w r e w'"
  using assms table_ok_Write [of "snd (nextID now p w)" f r] table_ok_nextID [of now p w]
  unfolding reported_def
  by (auto simp: Write_def nextID_def Let_def split: option.splits)

text \<open>The configurations a candidate run applies: the candidate at most once, then only zero masks.\<close>

definition candidate_log :: "byte list option \<Rightarrow> byte list option \<Rightarrow> bool \<Rightarrow> byte list option list \<Rightarrow> byte list option list \<Rightarrow> bool" where
  "candidate_log zero cfg hit before after \<longleftrightarrow>
     (\<exists>xs m. after = before @ xs @ replicate m zero \<and> xs \<in> {[], [cfg]} \<and> (hit \<longrightarrow> xs = [cfg] \<and> m = 1))"

lemma runCandidate_spec:
  assumes inv: "config_inv (Config (opts s))"
  shows "\<exists>r e s'. runCandidate D c frames s = Some ((r, e), s') \<and> opts s' = opts s \<and> locked s' = locked s \<and>
     verdict_ok c r e \<and> reported (reports s) r e (reports s') \<and>
     candidate_log (zero_bytes (Config (opts s))) (Some (encodeConfig frames)) (rr_Result r) (applied s) (applied s')"
proof -
  let ?z = "zero_bytes (Config (opts s))" and ?p = "cd_stage c @ (if cd_control c = [] then [] else ''-'' @ cd_control c)"
  let ?now = "fst (dv_now D (dev s))"
  obtain runID w1 where n: "nextID ?now ?p (reports s) = (runID, w1)" by fastforce
  let ?s1 = "s\<lparr>dev := snd (dv_now D (dev s)), reports := w1\<rparr>"
  obtain serving s2 where sv: "readServingIdentities D ?s1 = (serving, s2)" by fastforce
  note f2 = dev_only_fields [OF readServingIdentities_dev [OF sv]]
  obtain out ce s3 where cap: "runDiagCapture D MainCtx runID frames (cd_target c) (Settle (opts s2)) (cd_window c) serving s2 = Some ((out, ce), s3)"
      and c3: "captured frames serving (cd_target c) (cd_window c) s2 out ce s3"
    using runDiagCapture_spec by blast
  from c3 have k3: "kept s2 s3" by (simp add: captured_def)
  from c3 obtain xs where xs: "applied s3 = applied s2 @ xs" "xs = [] \<or> xs = [Some (encodeConfig frames)]" "ce = None \<longrightarrow> xs \<noteq> []"
    using one_launch_applied [of frames "ce = None" s2 s3] by (auto simp: captured_def)
  have o3: "opts s3 = opts s" using k3 f2 by (simp add: kept_def)
  obtain ke s4 n4 where cl: "cleanup D CleanupCtx (''after-'' @ runID) s3 = Some (ke, s4)" "kept s3 s4"
      "ke = None \<longrightarrow> n4 = 1" "applied s4 = applied s3 @ replicate n4 ?z"
    using cleanup_spec [of s3 D CleanupCtx "''after-'' @ runID"] inv o3 by auto
  let ?s5 = "s4\<lparr>dev := snd (dv_now D (dev s4))\<rparr>"
  let ?r = "make_record c (Config (opts s4)) runID (fst (dv_now D (dev s4))) out ce ke"
  let ?s6 = "?s5\<lparr>dev := snd (dv_report D (dev ?s5))\<rparr>"
  obtain we w2 where wr: "Write (fst (dv_report D (dev ?s5))) ?r (reports s4) = (we, w2)" by fastforce
  let ?s7 = "?s6\<lparr>reports := w2\<rparr>" and ?e = "case we of Some x \<Rightarrow> Some x | None \<Rightarrow> join_errors ce ke"
  have o7: "opts ?s7 = opts s" using o3 cl(2) by (simp add: kept_def)
  obtain de s8 n8 where d: "cleanup D CleanupCtx ''deferred'' ?s7 = Some (de, s8)" "kept ?s7 s8"
      "applied s8 = applied ?s7 @ replicate n8 ?z"
    using cleanup_spec [of ?s7 D CleanupCtx "''deferred''"] inv o7 by auto
  let ?s9 = "if ke \<noteq> None then s8 else ?s7" and ?n = "if ke \<noteq> None then n4 + n8 else n4"
  have run: "runCandidate D c frames s = Some ((?r, ?e), ?s9)"
    using wr d(1) by (cases ke) (simp_all add: runCandidate_def sys_eq Let_def n sv cap cl(1) del: append.simps cong: option.case_cong)
  have fields: "opts ?s9 = opts s \<and> locked ?s9 = locked s \<and> reports ?s9 = w2"
    using d(2) o7 cl(2) k3 f2 by (auto simp: kept_def)
  have a2: "applied s2 = applied s" using f2 by (simp add: applied_def)
  have a7: "applied ?s7 = applied s4" by (simp add: applied_def)
  have log: "applied ?s9 = applied s @ xs @ replicate ?n ?z"
    using d(3) cl(4) xs(1) a2 a7 by (simp add: replicate_add)
  have "rr_Result ?r \<Longrightarrow> ce = None \<and> ke = None" by (simp add: make_record_def Let_def)
  then have hit: "rr_Result ?r \<longrightarrow> xs = [Some (encodeConfig frames)] \<and> ?n = 1" using xs(2,3) cl(3) by auto
  have w: "reported (reports s) ?r ?e w2"
  proof (rule Write_reported)
    have "w1 = reports s4" using k3 cl(2) f2 by (simp add: kept_def)
    then show "Write (fst (dv_report D (dev ?s5))) ?r (snd (nextID ?now ?p (reports s))) = (we, w2)"
      using wr n by simp
  qed (auto split: option.splits)
  have log': "candidate_log ?z (Some (encodeConfig frames)) (rr_Result ?r) (applied s) (applied ?s9)"
    unfolding candidate_log_def using log xs(2) hit by blast
  have v: "verdict_ok c ?r ?e" by (rule make_record_verdict [OF c3 refl])
  from run fields w log' v show ?thesis
    by (intro exI [of _ ?r] exI [of _ ?e] exI [of _ ?s9]) simp
qed

text \<open>A test applies, in this order: zero masks, then at most once the candidate, then zero masks; the candidate only
  after a cleanup that succeeded.\<close>

definition test_log :: "byte list option \<Rightarrow> byte list option \<Rightarrow> bool \<Rightarrow> byte list option list \<Rightarrow> byte list option list \<Rightarrow> bool" where
  "test_log zero cfg hit before after \<longleftrightarrow>
     (\<exists>n xs m. after = before @ replicate n zero @ xs @ replicate m zero \<and> xs \<in> {[], [cfg]} \<and>
        (xs \<noteq> [] \<longrightarrow> n = 1) \<and> (hit \<longrightarrow> xs = [cfg] \<and> m = 1))"

lemma test_log_zeros: "test_log zero cfg False before (before @ replicate n zero)"
  unfolding test_log_def by (rule exI [of _ n], rule exI [of _ "[]"], rule exI [of _ 0]) simp

lemma zero_record_result [simp]: "rr_Result zero_record = False"
  by (simp add: zero_record_def)

text \<open>What a test guarantees, whatever the device answers.\<close>

definition tested :: "candidate \<Rightarrow> 'd runner \<Rightarrow> runRecord \<Rightarrow> err \<Rightarrow> 'd runner \<Rightarrow> bool" where
  "tested c s r e s' \<longleftrightarrow> opts s' = opts s \<and> locked s' = locked s \<and> verdict_ok c r e \<and>
     (table_ok (reports s) \<longrightarrow> table_ok (reports s')) \<and> rw_dir (reports s') = rw_dir (reports s) \<and>
     (e = None \<longrightarrow> rw_jsonl (reports s') = rw_jsonl (reports s) @ [r]) \<and>
     (\<exists>frames. selectFrames (Config (opts s)) (cd_frameIDs c) (cd_zeroMasks c) (cd_private c) = Some (Inr frames) \<and>
        test_log (zero_bytes (Config (opts s))) (Some (encodeConfig frames)) (rr_Result r) (applied s) (applied s'))"

lemma testCandidate_spec:
  assumes inv: "config_inv (Config (opts s))" and ids: "set (cd_frameIDs c) \<subseteq> set (allMessageFrameIDs (Config (opts s)))"
  shows "\<exists>r e s'. testCandidate D c s = Some ((r, e), s') \<and> tested c s r e s'"
proof -
  let ?z = "zero_bytes (Config (opts s))"
  obtain frames where sel: "selectFrames (Config (opts s)) (cd_frameIDs c) (cd_zeroMasks c) (cd_private c) = Some (Inr frames)"
    using selectFrames_ok [OF inv ids] by metis
  obtain e1 s1 where e1: "ensureNoDiagMDLog D s = (e1, s1)" by fastforce
  note f1 = dev_only_fields [OF ensureNoDiagMDLog_dev [OF e1]]
  have a1: "applied s1 = applied s" using f1 by (simp add: applied_def)
  obtain e2 s2 n where cl: "cleanup D MainCtx ''before'' s1 = Some (e2, s2)" "kept s1 s2" "e2 = None \<longrightarrow> n = 1"
      "applied s2 = applied s @ replicate n ?z"
    using cleanup_spec [of s1 D MainCtx "''before''"] inv f1 a1 by auto
  have o2: "opts s2 = opts s" "locked s2 = locked s" "reports s2 = reports s" using cl(2) f1 by (simp_all add: kept_def)
  obtain r e s3 where run: "runCandidate D c frames s2 = Some ((r, e), s3)" "opts s3 = opts s2" "locked s3 = locked s2"
      "verdict_ok c r e" "reported (reports s2) r e (reports s3)"
      "candidate_log (zero_bytes (Config (opts s2))) (Some (encodeConfig frames)) (rr_Result r) (applied s2) (applied s3)"
    using runCandidate_spec [of s2 D c frames] inv o2 by auto
  have failed: "verdict_ok c zero_record (Some x)" for x by (simp add: verdict_ok_def)
  consider (busy) x where "e1 = Some x" | (dirty) x where "e1 = None" "e2 = Some x" | (run) "e1 = None" "e2 = None"
    by (cases e1; cases e2) auto
  then show ?thesis
  proof cases
    case busy
    have "test_log ?z (Some (encodeConfig frames)) False (applied s) (applied s1)"
      using test_log_zeros [of ?z _ "applied s" 0] a1 by simp
    with busy show ?thesis by (simp add: testCandidate_def e1 tested_def f1 failed sel)
  next
    case dirty
    have "test_log ?z (Some (encodeConfig frames)) False (applied s) (applied s2)"
      using test_log_zeros [of ?z _ "applied s" n] cl(4) by simp
    with dirty show ?thesis by (simp add: testCandidate_def e1 cl(1) tested_def o2 failed sel)
  next
    case run
    from \<open>candidate_log _ _ _ _ _\<close> obtain xs m where "applied s3 = applied s @ replicate n ?z @ xs @ replicate m ?z"
        "xs \<in> {[], [Some (encodeConfig frames)]}" "rr_Result r \<longrightarrow> xs = [Some (encodeConfig frames)] \<and> m = 1"
      by (auto simp: candidate_log_def o2 cl(4))
    then have "test_log ?z (Some (encodeConfig frames)) (rr_Result r) (applied s) (applied s3)"
      unfolding test_log_def using cl(3) run(2) by blast
    then have "tested c s r e s3" using \<open>opts s3 = _\<close> \<open>locked s3 = _\<close> \<open>verdict_ok c r e\<close> \<open>reported _ _ _ _\<close> o2 sel
      by (auto simp: tested_def reported_def)
    with run \<open>runCandidate _ _ _ _ = _\<close> show ?thesis by (simp add: testCandidate_def e1 cl(1) o2 sel)
  qed
qed

section \<open>Everything the tool does to the modem\<close>

text \<open>The commands of the tool are sequences of these operations; a candidate is a choice of mask frames of the
  configuration, and between two operations the tool reads the clock and writes summaries (\<open>run_io\<close>).\<close>

inductive reducer_run :: "'d device \<Rightarrow> 'd runner \<Rightarrow> 'd runner \<Rightarrow> bool" for D s where
  run_start: "reducer_run D s s"
| run_test: "reducer_run D s t \<Longrightarrow> set (cd_frameIDs c) \<subseteq> set (allMessageFrameIDs (Config (opts t))) \<Longrightarrow>
    testCandidate D c t = Some (x, u) \<Longrightarrow> reducer_run D s u"
| run_cleanup: "reducer_run D s t \<Longrightarrow> cleanup D kind label t = Some (e, u) \<Longrightarrow> reducer_run D s u"
| run_emergency: "reducer_run D s t \<Longrightarrow> emergencyRelease D t = Some (x, u) \<Longrightarrow> reducer_run D s u"
| run_acquire: "reducer_run D s t \<Longrightarrow> acquire D t = (e, u) \<Longrightarrow> reducer_run D s u"
| run_release: "reducer_run D s t \<Longrightarrow> reducer_run D s (release D t)"
| run_io: "reducer_run D s t \<Longrightarrow> reducer_run D s (t\<lparr>dev := d, files := fs\<rparr>)"

lemma reducer_run_trans: "reducer_run D t u \<Longrightarrow> reducer_run D s t \<Longrightarrow> reducer_run D s u"
  by (induction rule: reducer_run.induct) (blast intro: reducer_run.intros)+

text \<open>Every configuration other than the zero masks directly follows the zero masks; \<open>clean\<close> says that they are what the
  modem has now.\<close>

fun separated :: "'a \<Rightarrow> bool \<Rightarrow> 'a list \<Rightarrow> bool" where
  "separated z clean [] = True"
| "separated z clean (c # cs) = (if c = z then separated z True cs else clean \<and> separated z False cs)"

lemma separated_append:
  "separated z clean (xs @ ys) \<longleftrightarrow> separated z clean xs \<and> separated z (if xs = [] then clean else last xs = z) ys"
  by (induction xs arbitrary: clean) auto

lemma separated_replicate [simp]: "separated z clean (replicate n z)"
  by (induction n arbitrary: clean) auto

lemma separated_test_log:
  assumes "test_log z cfg hit before after" and "separated z False before"
  shows "separated z False after"
proof -
  from assms(1) obtain n xs m where a: "after = before @ replicate n z @ xs @ replicate m z" "xs \<in> {[], [cfg]}" "xs \<noteq> [] \<longrightarrow> n = 1"
    by (auto simp: test_log_def)
  show ?thesis
  proof (cases "xs = []")
    case True
    with a assms(2) show ?thesis by (simp add: separated_append)
  next
    case False
    with a have "after = before @ [z, cfg] @ replicate m z" by simp
    with assms(2) show ?thesis by (simp add: separated_append)
  qed
qed

lemma stopActive_dev: "dev_only s (stopActive D s)"
  by (simp add: stopActive_def sys_eq split: option.split)

lemma release_fields: "opts (release D s) = opts s" "applied (release D s) = applied s" "reports (release D s) = reports s"
  using dev_only_fields [OF stopActive_dev [of s D]] by (simp_all add: release_def applied_def)

lemma acquire_fields:
  assumes "acquire D s = (e, s')"
  shows "Config (opts s') = Config (opts s) \<and> applied s' = applied s \<and> reports s' = reports s"
proof -
  have d: "Config (acquire_defaults (opts s)) = Config (opts s)" by (simp add: acquire_defaults_def)
  have e: "ensureNoDiagMDLog D t = (x, u) \<Longrightarrow> opts u = opts t \<and> launches u = launches t \<and> reports u = reports t" for t x u
    using ensureNoDiagMDLog_dev dev_only_fields by metis
  show ?thesis
    using assms d
    by (auto simp: acquire_def sys_eq applied_def Let_def release_fields release_fields(2) [unfolded applied_def] split: if_splits option.splits prod.splits
        dest!: e)
qed

lemma emergencyRelease_spec:
  assumes "config_inv (Config (opts s))"
  shows "\<exists>s' n. emergencyRelease D s = Some ((), s') \<and> opts s' = opts s \<and> reports s' = reports s \<and> \<not> locked s' \<and>
    applied s' = applied s @ replicate n (zero_bytes (Config (opts s)))"
proof -
  note f = dev_only_fields [OF stopActive_dev [of s D]]
  obtain e s1 n where c: "cleanup D CleanupCtx ''process-exit'' (stopActive D s) = Some (e, s1)" "kept (stopActive D s) s1"
      "applied s1 = applied s @ replicate n (zero_bytes (Config (opts s)))"
    using cleanup_spec [of "stopActive D s" D CleanupCtx "''process-exit''"] assms f by (auto simp: applied_def)
  have "emergencyRelease D s = Some ((), release D s1)" by (simp add: emergencyRelease_def c(1))
  moreover have "\<not> locked (release D s1)" by (simp add: release_def)
  ultimately show ?thesis using c f release_fields [of D s1] by (auto simp: kept_def)
qed

lemma reducer_run_inv:
  assumes "reducer_run D s u" and "config_inv (Config (opts s))"
    and "separated (zero_bytes (Config (opts s))) False (applied s)" and "table_ok (reports s)"
  shows "Config (opts u) = Config (opts s) \<and> separated (zero_bytes (Config (opts s))) False (applied u) \<and> table_ok (reports u)"
  using assms(1)
proof (induction rule: reducer_run.induct)
  case run_start
  then show ?case using assms by simp
next
  case (run_test t c x u)
  then obtain r e where "testCandidate D c t = Some ((r, e), u)" "tested c t r e u"
    using testCandidate_spec [of t c D] assms(2) by auto
  with run_test.IH show ?case using separated_test_log by (auto simp: tested_def)
next
  case (run_cleanup t kind label e u)
  then obtain n where "kept t u" "applied u = applied t @ replicate n (zero_bytes (Config (opts t)))"
    using cleanup_spec [of t D kind label] assms(2) by auto
  with run_cleanup.IH show ?case by (simp add: kept_def separated_append)
next
  case (run_emergency t x u)
  then obtain n where "opts u = opts t" "reports u = reports t" "applied u = applied t @ replicate n (zero_bytes (Config (opts t)))"
    using emergencyRelease_spec [of t D] assms(2) by auto
  with run_emergency.IH show ?case by (simp add: separated_append)
next
  case (run_acquire t e u)
  then show ?case using acquire_fields [of D t e u] by simp
next
  case (run_release t)
  then show ?case using release_fields [of D t] by simp
next
  case (run_io t fs d)
  then show ?case by (simp add: applied_def)
qed

section \<open>A device for the examples\<close>

text \<open>No logger is running, every call succeeds and the captures are empty.\<close>

definition empty_view :: qmdl_view where
  "empty_view = \<lparr>v_entries = Some [], v_size = (\<lambda>_. None), v_open = (\<lambda>_. Inl ''no such file''), v_ctx = (\<lambda>_. None)\<rparr>"

definition quiet_device :: "'d device" where
  "quiet_device = \<lparr>dv_pid = 1, dv_sha256 = (\<lambda>_. []),
     dv_lock = (\<lambda>_ d. (\<lparr>lk_mkdir = None, lk_open = None, lk_flock = None, lk_owner = [], lk_truncate = None, lk_seek = None\<rparr>, d)),
     dv_pidof = (\<lambda>d. ((Some ''exit status 1'', []), d)), dv_cmdline = (\<lambda>_ d. ([], d)), dv_mkdir = (\<lambda>_ d. (None, d)),
     dv_write = (\<lambda>_ d. (no_faults, d)), dv_openlog = (\<lambda>_ d. (None, d)), dv_start = (\<lambda>_ _ _ d. (None, d)),
     dv_settle = (\<lambda>_ _ d. (SettleDone, d)), dv_files = (\<lambda>_ d. (empty_view, d)), dv_window = (\<lambda>_ _ _ d. ([], d)),
     dv_terminate = (\<lambda>_ d. (Exited None, d)), dv_signal = (\<lambda>d. ((), d)), dv_netinfo = (\<lambda>d. (None, d)),
     dv_now = (\<lambda>d. (0, d)),
     dv_report = (\<lambda>d. (\<lparr>rf_jsonl = None, rf_sync = None, rf_row = None, rf_flush = None, rf_csvSync = None\<rparr>, d))\<rparr>"

definition sample_options :: deviceOptions where
  "sample_options = \<lparr>Config = sample_config, initialized = True, WorkDir = ''/tmp/w'', DiagMDLog = [], Settle = Second,
     Drain = Second, Poll = 0, StopGrace = 0, KeepCaptures = False, FileSizeMB = 0, FileCount = 0\<rparr>"

definition sample_runner :: "'d \<Rightarrow> 'd runner" where
  "sample_runner d = \<lparr>opts = sample_options, locked = False, active = None, launches = [],
     reports = \<lparr>rw_dir = ''/tmp/w/reports'', rw_jsonl = [], rw_csv = [runCSVHeader], rw_serial = 0, rw_open = True\<rparr>,
     files = Map.empty, dev = d\<rparr>"

definition sample_candidate :: candidate where
  "sample_candidate = \<lparr>cd_stage = ''frame-ddmin'', cd_control = [], cd_target = targetLTE, cd_frameIDs = [0],
     cd_zeroMasks = False, cd_private = PrivateBoth, cd_privateState = ''both'', cd_attempt = 1, cd_positiveOK = True,
     cd_window = 10 * Second\<rparr>"

lemma sample_runner_ok:
  "config_inv (Config (opts (sample_runner d)))" "set (cd_frameIDs sample_candidate) \<subseteq> set (allMessageFrameIDs (Config (opts (sample_runner d))))"
  "applied (sample_runner d) = []" "table_ok (reports (sample_runner d))"
  using parsed_config_inv [OF sample_parses]
  by (simp_all add: sample_runner_def sample_options_def sample_candidate_def allMessageFrameIDs_def sample_defs applied_def table_ok_def)

section \<open>Properties\<close>

definition record_hits :: "runRecord \<Rightarrow> targetKind \<Rightarrow> bool" where
  "record_hits r target \<longleftrightarrow>
     (if target = targetNR then rr_NRCellCount r > 0
      else if target = targetLTE then rr_LTECellCount r > 0
      else if target = targetCombined then rr_NRCellCount r > 0 \<and> rr_LTECellCount r > 0
      else False)"





end
