(* ===== verification/Sample_Modem.thy ===== *)
theory Sample_Modem
  imports Reducer_Runner
begin

text \<open>
  A device for the examples of the reducer: a modem that reports one LTE neighbour exactly when the
  whole source configuration is applied.  Its state says whether it is.  The lemmas evaluate a capture,
  a cleanup and a test on it.
\<close>

definition full_bytes :: "byte list" where
  "full_bytes = encodeConfig (Frames sample_config)"

definition hit_view :: qmdl_view where
  "hit_view = \<lparr>v_entries = Some [(''diag_log_1.qmdl'', False)], v_size = (\<lambda>_. None), v_open = (\<lambda>_. Inr sample_file),
     v_ctx = (\<lambda>_. None)\<rparr>"

definition modem_view :: "bool \<Rightarrow> qmdl_view" where
  "modem_view b = (if b then hit_view else empty_view)"

definition modem_device :: "bool device" where
  "modem_device = quiet_device\<lparr>dv_start := (\<lambda>_ _ cfg d. (None, cfg = Some full_bytes)),
     dv_files := (\<lambda>_ d. (modem_view d, d))\<rparr>"

lemma modem_fields [simp]:
  "dv_pidof modem_device d = ((Some ''exit status 1'', []), d)" "dv_mkdir modem_device p d = (None, d)"
  "dv_write modem_device p d = (no_faults, d)" "dv_openlog modem_device p d = (None, d)"
  "dv_start modem_device a b cfg d = (None, cfg = Some full_bytes)" "dv_settle modem_device k n d = (SettleDone, d)"
  "dv_files modem_device p d = (modem_view d, d)" "dv_window modem_device k n m d = ([], d)"
  "dv_terminate modem_device n d = (Exited None, d)" "dv_netinfo modem_device d = (None, d)"
  "dv_now modem_device d = (0, d)" "dv_sha256 modem_device = (\<lambda>_. [])"
  "dv_report modem_device d = (\<lparr>rf_jsonl = None, rf_sync = None, rf_row = None, rf_flush = None, rf_csvSync = None\<rparr>, d)"
  by (simp_all add: modem_device_def quiet_device_def)

lemma hit_files: "findQMDLFiles dir hit_view = [path_join dir ''diag_log_1.qmdl'']"
  by (simp add: findQMDLFiles_def hit_view_def qmdl_name_def HasPrefix_def HasSuffix_def)

lemma empty_files: "findQMDLFiles dir empty_view = []"
  by (simp add: findQMDLFiles_def empty_view_def)

lemma modem_baseline: "snapshotQMDLSizes dir (modem_view b) = Map.empty"
  by (simp add: snapshotQMDLSizes_def modem_view_def hit_files empty_files) (simp add: hit_view_def)

definition modem_metrics :: "bool \<Rightarrow> captureMetrics" where
  "modem_metrics b = (if b then sample_metrics else empty_metrics)"

lemma modem_analysis:
  assumes "b \<longrightarrow> target = targetLTE"
  shows "analyzeQMDLWindow (v_ctx (modem_view b)) (v_open (modem_view b)) (findQMDLFiles dir (modem_view b)) (Some Map.empty) [] target =
    Some (Inr (modem_metrics b))"
proof (cases b)
  case True
  with assms sample_window_at [of "Some Map.empty" "path_join dir ''diag_log_1.qmdl''", where 'e = string] show ?thesis
    by (simp add: modem_view_def modem_metrics_def hit_files) (simp add: hit_view_def)
next
  case False
  then show ?thesis
    by (simp add: modem_view_def modem_metrics_def empty_files analyzeQMDLWindow_def finish_def new_parser_def
        correlateNRReports_def)
qed

lemma modem_not_running: "ensureNoDiagMDLog modem_device s = (None, s)"
  by (simp add: ensureNoDiagMDLog_def sys_eq)

text \<open>A capture on the modem succeeds on every valid configuration and sees the cell when it is the full one.\<close>

lemma modem_capture:
  assumes "\<forall>f \<in> set frames. frame_body_ok (Decoded f)" and "frames \<noteq> []" and "encodeConfig frames = full_bytes \<longrightarrow> target = targetLTE"
  shows "\<exists>out s'. runDiagCapture modem_device kind name frames target settle window [] s = Some ((out, None), s') \<and>
    co_Metrics out = modem_metrics (encodeConfig frames = full_bytes)"
proof -
  let ?b = "encodeConfig frames = full_bytes"
  let ?dir = "path_join (path_join (WorkDir (opts s)) ''captures'') (sanitizeName name)"
  obtain c where p: "parseQTraceConfigBytes (\<lambda>_. []) (encodeConfig frames) = Some (Inr c)"
    using parse_encodeConfig [OF assms(1,2)] by blast
  obtain s1 where l: "launchLogger modem_device ?dir (encodeConfig frames) s = (Inr ?dir, s1)" and d: "dev s1 = ?b"
    by (simp add: launchLogger_def sys_eq writeFileAtomic_no_faults Let_def del: append.simps)
  have st: "startCapture modem_device name frames s = Some (Inr ?dir, s1)"
    by (simp add: startCapture_def modem_not_running sys_eq p l Let_def)
  have "case finishCapture modem_device ?dir (length (launches s1) - 1) Map.empty target window [] LoopDeadline empty_metrics None s1 of
      None \<Rightarrow> False | Some ((out, e), s') \<Rightarrow> e = None \<and> co_Metrics out = modem_metrics ?b"
    using modem_analysis [OF assms(3), of ?dir] d
    by (simp add: finishCapture_def terminateCommand_def sys_eq Let_def)
  then obtain out s' where f: "finishCapture modem_device ?dir (length (launches s1) - 1) Map.empty target window [] LoopDeadline empty_metrics None s1 =
      Some ((out, None), s')" "co_Metrics out = modem_metrics ?b"
    by (auto split: option.splits)
  have "measureCapture modem_device kind ?dir (length (launches s1) - 1) target window [] s1 = Some ((out, None), s')"
    using f(1) by (simp add: measureCapture_def sys_eq modem_baseline Let_def)
  with f(2) show ?thesis by (simp add: runDiagCapture_def st sys_eq Let_def)
qed

section \<open>Cleanups and tests on the modem\<close>

lemma sample_zero: "zeroMessageFrames sample_config =
  Inr [\<lparr>ID = 0, Decoded = [0x7d, 0x04, 0x05, 0x00, 0x06, 0x00, 0x00, 0x00, 0, 0, 0, 0, 0, 0, 0, 0, 0xb3, 0x87]\<rparr>]"
  by (simp add: zeroMessageFrames_def sample_defs buildMessageMaskFrame_def crc_eval put16_def put32_def cfg_consts Let_def)

lemma full_bytes_eq: "full_bytes = [0x7d, 0x5d, 0x04, 0x05, 0x00, 0x06, 0x00, 0x00, 0x00, 0xff, 0xff, 0xff, 0xff,
     0x00, 0x00, 0x00, 0x01, 0xc6, 0xe2, 0x7e, 0x4b, 0x44, 0x01, 0x90, 0x3a, 0xc2, 0x7e]"
  by (simp add: full_bytes_def encodeConfig_def sample_defs)

lemma zero_not_full: "zeroMessageFrames sample_config = Inr zs \<Longrightarrow> encodeConfig zs \<noteq> full_bytes \<and> zs \<noteq> []"
  by (auto simp: sample_zero full_bytes_eq encodeConfig_def)

lemma modem_cleanup:
  assumes "Config (opts s) = sample_config"
  shows "\<exists>s'. cleanup modem_device kind label s = Some (None, s')"
proof -
  have inv: "config_inv sample_config" using parsed_config_inv [OF sample_parses] .
  obtain zs where z: "zeroMessageFrames sample_config = Inr zs" "\<forall>z \<in> set zs. frame_body_ok (Decoded z)"
    using zeroMessageFrames_ok [OF inv] by blast
  from modem_capture [OF z(2), of targetCombined kind "''cleanup-'' @ label" 0 "Drain (opts s)" s] zero_not_full [OF z(1)]
  obtain out s' where "runDiagCapture modem_device kind (''cleanup-'' @ label) zs targetCombined 0 (Drain (opts s)) [] s = Some ((out, None), s')"
    by blast
  then show ?thesis by (simp add: cleanup_def assms z(1) del: append.simps)
qed

lemma modem_matches: "matches (modem_metrics b) targetLTE \<longleftrightarrow> b"
  by (simp add: modem_metrics_def matches_def sample_metrics_def empty_metrics_def targetNR_def targetLTE_def)

lemma modem_Write: "fst (Write (fst (dv_report modem_device d)) r w) = None"
  by (simp add: Write_def Let_def)

text \<open>A test on the modem never fails, and its result is whether the candidate is the full configuration.\<close>

lemma modem_test:
  assumes cfg: "Config (opts s) = sample_config" and t: "cd_target c = targetLTE" and ids: "set (cd_frameIDs c) \<subseteq> {0}"
    and sel: "selectFrames sample_config (cd_frameIDs c) (cd_zeroMasks c) (cd_private c) = Some (Inr frames)" and ne: "frames \<noteq> []"
  shows "\<exists>r s'. testCandidate modem_device c s = Some ((r, None), s') \<and> opts s' = opts s \<and>
    rr_Result r = (encodeConfig frames = full_bytes) \<and>
    (rr_Result r \<longrightarrow> FirstHitLatencyMS r \<noteq> None)"
proof -
  have inv: "config_inv (Config (opts s))" using parsed_config_inv [OF sample_parses] cfg by simp
  have sub: "set (cd_frameIDs c) \<subseteq> set (allMessageFrameIDs (Config (opts s)))"
    using ids by (simp add: cfg allMessageFrameIDs_def sample_defs)
  obtain r e s' where run: "testCandidate modem_device c s = Some ((r, e), s')" "tested c s r e s'"
    using testCandidate_spec [OF inv sub] by blast
  have ok: "\<forall>f \<in> set frames. frame_body_ok (Decoded f)"
    using selectFrames_ok [OF inv sub] sel cfg by (metis option.inject sum.inject(2))
  obtain s1 where s1: "cleanup modem_device MainCtx ''before'' s = Some (None, s1)" using modem_cleanup cfg by blast
  have k1: "opts s1 = opts s" using cleanup_spec [OF inv, of modem_device MainCtx "''before''"] s1 by (auto simp: kept_def)
  obtain runID w1 where n: "nextID 0 (cd_stage c @ (if cd_control c = [] then [] else ''-'' @ cd_control c)) (reports s1) = (runID, w1)"
    by fastforce
  obtain out s2 where s2: "runDiagCapture modem_device MainCtx runID frames (cd_target c) (Settle (opts s)) (cd_window c) []
      (s1\<lparr>dev := dev s1, reports := w1\<rparr>) = Some ((out, None), s2)" "co_Metrics out = modem_metrics (encodeConfig frames = full_bytes)"
    using modem_capture [OF ok ne] t by blast
  have k2: "opts s2 = opts s"
    using runDiagCapture_spec [of modem_device MainCtx runID frames "cd_target c" "Settle (opts s)" "cd_window c" "[]" "s1\<lparr>dev := dev s1, reports := w1\<rparr>"]
      s2(1) k1 by (auto simp: captured_def kept_def)
  obtain s3 where s3: "cleanup modem_device CleanupCtx (''after-'' @ runID) s2 = Some (None, s3)" using modem_cleanup cfg k2 by metis
  let ?r = "make_record c (Config (opts s3)) runID 0 out None None"
  have "runCandidate modem_device c frames s1 = Some ((?r, None),
      s3\<lparr>reports := snd (Write (fst (dv_report modem_device (dev s3))) ?r (reports s3))\<rparr>)"
    using n s2(1) s3 k1
    by (simp add: runCandidate_def sys_eq Let_def readServingIdentities_def Write_def join_errors_def del: append.simps)
  then have "r = ?r" "e = None" using run(1) s1 k1 cfg sel by (simp_all add: testCandidate_def modem_not_running)
  moreover have "rr_Result ?r = (encodeConfig frames = full_bytes)"
    using t s2(2) modem_matches by (simp add: make_record_def Let_def)
  ultimately show ?thesis using run by (auto simp: tested_def verdict_ok_def)
qed

lemma select_full: "selectFrames sample_config [0] False PrivateBoth = Some (Inr (Frames sample_config))"
  by (simp add: selectFrames_def select_step_def privateFrameSelected_def idx_def sample_defs cfg_consts)

lemma select_masks: "selectFrames sample_config [0] False PrivateNone = Some (Inr [sample_mask_frame])"
  by (simp add: selectFrames_def select_step_def privateFrameSelected_def idx_def sample_defs cfg_consts)

lemma select_private: "selectFrames sample_config [] False PrivateBoth = Some (Inr [sample_private_frame])"
  by (simp add: selectFrames_def select_step_def privateFrameSelected_def idx_def sample_defs cfg_consts)

lemma select_zero: "\<exists>z. selectFrames sample_config [0] True PrivateNone = Some (Inr [z])"
  unfolding selectFrames_def sample_zero
  by (simp add: select_step_def privateFrameSelected_def idx_def cfg_consts sample_defs)

lemma select_zero_private: "\<exists>z. selectFrames sample_config [0] True PrivateBoth = Some (Inr [z, sample_private_frame])"
  unfolding selectFrames_def sample_zero
  by (simp add: select_step_def privateFrameSelected_def idx_def cfg_consts sample_defs)

lemma sample_ids: "allMessageFrameIDs sample_config = [0]"
  by (simp add: allMessageFrameIDs_def sample_defs)

lemma private_not_full: "encodeConfig [sample_private_frame] \<noteq> full_bytes"
  by (simp add: full_bytes_eq encodeConfig_def sample_private_frame_def)

end
