(* ===== verification/Reducer_Controls.thy ===== *)
theory Reducer_Controls
  imports Sample_Modem
begin

text \<open>
  \<^verbatim>\<open>tools/u60-qtrace-reducer/controls.go\<close>: the control groups that show that the private commands and the
  masks do what the search assumes, and the validation of their report, which the search requires.
  The JSON text of a report is a parameter, a pair of functions \<open>marshal\<close> and \<open>unmarshal\<close>; a file that
  does not exist reads as an error.  The runner is the state, so the guards against a \<^verbatim>\<open>nil\<close> runner cannot fire.
\<close>

section \<open>Data\<close>

record controlGroupResult =
  cg_Name :: string
  ExpectedMatch :: bool
  ObservedHits :: int
  ObservedNRRuns :: int
  ObservedLTERuns :: int
  UnexpectedRuns :: int
  cg_Runs :: int
  ExpectationMet :: bool
  cg_Records :: "runRecord list"

text \<open>\<^verbatim>\<open>Completed\<close> is \<open>None\<close> while it is the zero time.\<close>

record controlsSummary =
  cs_Target :: targetKind
  cs_Started :: int
  cs_Completed :: "int option"
  cs_ColdStateConfirmed :: bool
  ExecutionOrder :: "string list"
  Groups :: "controlGroupResult list"
  cs_PositiveControlStatus :: bool
  PrivateStateAtExit :: string
  StateWarning :: string

record controlOptions =
  ct_Target :: targetKind
  Repeats :: int
  MinimumPositiveHit :: int
  ct_ColdStateConfirmed :: bool
  ct_Window :: int

section \<open>Validation of a report\<close>

definition control_names :: "string list" where
  "control_names = [''all-off'', ''message-only'', ''positive'', ''zero-mask-private'', ''positive-end'']"

definition covers :: "targetKind \<Rightarrow> targetKind \<Rightarrow> bool" where
  "covers rt target \<longleftrightarrow> \<not>
     ((target = targetCombined \<and> rt \<noteq> targetCombined) \<or>
      (target = targetNR \<and> rt \<noteq> targetNR \<and> rt \<noteq> targetCombined) \<or>
      (target = targetLTE \<and> rt \<noteq> targetLTE \<and> rt \<noteq> targetCombined))"

text \<open>The loop over the map \<^verbatim>\<open>want\<close> reports one missing group, in Go's unspecified order; here the first of the list.\<close>

definition validate_summary :: "controlsSummary \<Rightarrow> targetKind \<Rightarrow> err" where
  "validate_summary report target =
     (if \<not> cs_ColdStateConfirmed report \<or> \<not> cs_PositiveControlStatus report \<or> cs_Completed report = None
      then Some ''controls report is incomplete, not cold-state confirmed, or has failed positive control''
      else if \<not> covers (cs_Target report) target
      then Some (''controls target '' @ cs_Target report @ '' does not cover ddmin target '' @ target)
      else (case filter (\<lambda>name. name \<notin> set (map cg_Name (Groups report))) control_names of
              [] \<Rightarrow> None
            | name # _ \<Rightarrow> Some (''controls report is missing group '' @ name)))"

definition validateControlsReport :: "(byte list \<Rightarrow> string + controlsSummary) \<Rightarrow> file_sys \<Rightarrow> string \<Rightarrow> targetKind \<Rightarrow> err" where
  "validateControlsReport unmarshal fs path target =
     (if path = [] then Some ''ddmin requires -controls-report from a completed cold-state control run''
      else case fs path of
        None \<Rightarrow> Some (''read controls report: open '' @ path @ '': no such file or directory'')
      | Some data \<Rightarrow> (case unmarshal data of
                       Inl e \<Rightarrow> Some (''decode controls report: '' @ e)
                     | Inr report \<Rightarrow> validate_summary report target))"

section \<open>Running the groups\<close>

definition controlHasUnexpectedTarget :: "runRecord \<Rightarrow> targetKind \<Rightarrow> bool" where
  "controlHasUnexpectedTarget r target =
     (if target = targetNR then rr_NRCellCount r > 0
      else if target = targetLTE then rr_LTECellCount r > 0
      else if target = targetCombined then rr_NRCellCount r > 0 \<or> rr_LTECellCount r > 0
      else False)"

definition group_candidate :: "controlOptions \<Rightarrow> string \<Rightarrow> int list \<Rightarrow> bool \<Rightarrow> privateMode \<Rightarrow> bool \<Rightarrow> int \<Rightarrow> candidate" where
  "group_candidate options name frameIDs zeroMasks private positiveOK attempt =
     \<lparr>cd_stage = ''control'', cd_control = name, cd_target = ct_Target options, cd_frameIDs = frameIDs,
      cd_zeroMasks = zeroMasks, cd_private = private, cd_privateState = private_name private, cd_attempt = attempt,
      cd_positiveOK = positiveOK, cd_window = ct_Window options\<rparr>"

definition count_if :: "bool \<Rightarrow> int \<Rightarrow> int" where
  "count_if b n = (if b then n + 1 else n)"

definition group_add :: "targetKind \<Rightarrow> runRecord \<Rightarrow> controlGroupResult \<Rightarrow> controlGroupResult" where
  "group_add target r g = g\<lparr>
     cg_Records := cg_Records g @ [r],
     ObservedHits := count_if (rr_Result r) (ObservedHits g),
     ObservedNRRuns := count_if (rr_NRCellCount r > 0) (ObservedNRRuns g),
     ObservedLTERuns := count_if (rr_LTECellCount r > 0) (ObservedLTERuns g),
     UnexpectedRuns := count_if (\<not> ExpectedMatch g \<and> controlHasUnexpectedTarget r target) (UnexpectedRuns g)\<rparr>"

text \<open>The loop of \<^verbatim>\<open>runGroup\<close>; \<open>left\<close> is the number of rounds to go.\<close>

fun group_loop :: "'d device \<Rightarrow> targetKind \<Rightarrow> (int \<Rightarrow> candidate) \<Rightarrow> int \<Rightarrow> nat \<Rightarrow> controlGroupResult \<Rightarrow> 'd runner \<Rightarrow>
    ((controlGroupResult \<times> err) \<times> 'd runner) option" where
  "group_loop D target cand attempt 0 g s = Some ((g, None), s)"
| "group_loop D target cand attempt (Suc left) g s = do {
     ((r, e), s) \<leftarrow> testCandidate D (cand attempt) s;
     let g = group_add target r g;
     if e \<noteq> None then Some ((g, e), s) else group_loop D target cand (attempt + 1) left g s }"

definition runGroup :: "'d device \<Rightarrow> controlOptions \<Rightarrow> string \<Rightarrow> bool \<Rightarrow> int list \<Rightarrow> bool \<Rightarrow> privateMode \<Rightarrow> int \<Rightarrow> bool \<Rightarrow> 'd runner \<Rightarrow>
    ((controlGroupResult \<times> err) \<times> 'd runner) option" where
  "runGroup D options name expectedMatch frameIDs zeroMasks private runs positiveOK s = do {
     let g = \<lparr>cg_Name = name, ExpectedMatch = expectedMatch, ObservedHits = 0, ObservedNRRuns = 0, ObservedLTERuns = 0,
              UnexpectedRuns = 0, cg_Runs = runs, ExpectationMet = False, cg_Records = []\<rparr>;
     ((g, e), s) \<leftarrow> group_loop D (ct_Target options)
        (group_candidate options name frameIDs zeroMasks private positiveOK) 1 (nat runs) g s;
     if e \<noteq> None then Some ((g, e), s)
     else Some ((g\<lparr>ExpectationMet := (if expectedMatch then ObservedHits g = runs else UnexpectedRuns g = 0)\<rparr>, None), s) }"

definition control_defaults :: "controlOptions \<Rightarrow> controlOptions" where
  "control_defaults options =
     (let options = (if Repeats options \<le> 0 then options\<lparr>Repeats := 3\<rparr> else options) in
      if MinimumPositiveHit options \<le> 0 then options\<lparr>MinimumPositiveHit := Repeats options\<rparr> else options)"

definition new_summary :: "controlOptions \<Rightarrow> int \<Rightarrow> controlsSummary" where
  "new_summary options now =
     \<lparr>cs_Target = ct_Target options, cs_Started = now, cs_Completed = None, cs_ColdStateConfirmed = True,
      ExecutionOrder = control_names, Groups = [], cs_PositiveControlStatus = False,
      PrivateStateAtExit = ''both private commands sent; persistence/disable semantics unknown'',
      StateWarning = ''The tool explicitly zeroes only the original 23 message-mask ranges. It does not claim to disable either private command.''\<rparr>"

text \<open>The arguments of the five calls of \<^verbatim>\<open>runGroup\<close>, and one such call with the result appended to the summary.\<close>

record group_spec =
  gs_name :: string
  gs_expected :: bool
  gs_zero :: bool
  gs_private :: privateMode
  gs_positiveOK :: bool

definition run_group_step :: "'d device \<Rightarrow> controlOptions \<Rightarrow> group_spec \<Rightarrow> controlsSummary \<Rightarrow> 'd runner \<Rightarrow>
    ((controlsSummary \<times> controlGroupResult \<times> err) \<times> 'd runner) option" where
  "run_group_step D options g summary s = do {
     ((result, e), s) \<leftarrow> runGroup D options (gs_name g) (gs_expected g) (allMessageFrameIDs (Config (opts s)))
        (gs_zero g) (gs_private g) (Repeats options) (gs_positiveOK g) s;
     if e \<noteq> None then Some ((summary, result, e), s)
     else Some ((summary\<lparr>Groups := Groups summary @ [result]\<rparr>, result, None), s) }"

definition spec_all_off :: group_spec where
  "spec_all_off = \<lparr>gs_name = ''all-off'', gs_expected = False, gs_zero = True, gs_private = PrivateNone, gs_positiveOK = False\<rparr>"
definition spec_message_only :: group_spec where
  "spec_message_only = \<lparr>gs_name = ''message-only'', gs_expected = False, gs_zero = False, gs_private = PrivateNone, gs_positiveOK = False\<rparr>"
definition spec_positive :: group_spec where
  "spec_positive = \<lparr>gs_name = ''positive'', gs_expected = True, gs_zero = False, gs_private = PrivateBoth, gs_positiveOK = False\<rparr>"
definition spec_zero_private :: group_spec where
  "spec_zero_private = \<lparr>gs_name = ''zero-mask-private'', gs_expected = False, gs_zero = True, gs_private = PrivateBoth, gs_positiveOK = True\<rparr>"
definition spec_positive_end :: group_spec where
  "spec_positive_end = \<lparr>gs_name = ''positive-end'', gs_expected = True, gs_zero = False, gs_private = PrivateBoth, gs_positiveOK = True\<rparr>"

definition hits_text :: "controlGroupResult \<Rightarrow> string" where
  "hits_text g = Itoa (ObservedHits g) @ ''/'' @ Itoa (cg_Runs g)"

text \<open>The end of \<^verbatim>\<open>run\<close>, after the first positive group; then the whole.\<close>

definition finish_controls :: "'d device \<Rightarrow> (controlsSummary \<Rightarrow> byte list) \<Rightarrow> controlOptions \<Rightarrow> controlsSummary \<Rightarrow> 'd runner \<Rightarrow>
    ((controlsSummary \<times> err) \<times> 'd runner) option" where
  "finish_controls D marshal options summary s = do {
     let summary = summary\<lparr>cs_PositiveControlStatus := True\<rparr>;
     ((summary, _, e), s) \<leftarrow> run_group_step D options spec_zero_private summary s;
     if e \<noteq> None then Some ((summary, e), s) else do {
     ((summary, positiveEnd, e), s) \<leftarrow> run_group_step D options spec_positive_end summary s;
     if e \<noteq> None then Some ((summary, e), s)
     else if ObservedHits positiveEnd < MinimumPositiveHit options
     then Some ((summary\<lparr>cs_PositiveControlStatus := False\<rparr>,
                 Some (''batch-end positive control hit '' @ hits_text positiveEnd @ ''; control conclusions are invalid'')), s)
     else do {
       let (now, s) = sys (dv_now D) s;
       let summary = summary\<lparr>cs_Completed := Some now\<rparr>;
       let name = ''controls-'' @ ct_Target options @ ''-summary.json'';
       let (w, s) = sys (dv_write D (path_join (rw_dir (reports s)) name)) s;
       let (e, fs) = WriteSummary w name (marshal summary) (reports s) (files s);
       Some ((summary, e), s\<lparr>files := fs\<rparr>) } } }"

definition run_controls :: "'d device \<Rightarrow> (controlsSummary \<Rightarrow> byte list) \<Rightarrow> controlOptions \<Rightarrow> 'd runner \<Rightarrow>
    ((controlsSummary option \<times> err) \<times> 'd runner) option" where
  "run_controls D marshal options s =
     (if \<not> ct_ColdStateConfirmed options
      then Some ((None, Some ''no-private controls require a known cold private-command state; restart the modem/device, then pass --confirm-cold-private-state''), s)
      else do {
        let options = control_defaults options;
        let (now, s) = sys (dv_now D) s;
        ((summary, _, e), s) \<leftarrow> run_group_step D options spec_all_off (new_summary options now) s;
        if e \<noteq> None then Some ((Some summary, e), s) else do {
        ((summary, _, e), s) \<leftarrow> run_group_step D options spec_message_only summary s;
        if e \<noteq> None then Some ((Some summary, e), s) else do {
        ((summary, positive, e), s) \<leftarrow> run_group_step D options spec_positive summary s;
        if e \<noteq> None then Some ((Some summary, e), s)
        else if ObservedHits positive < MinimumPositiveHit options
        then Some ((Some summary, Some (''positive control hit '' @ hits_text positive @ ''; need '' @
               Itoa (MinimumPositiveHit options) @ '', so the control batch is invalid'')), s)
        else do {
          ((summary, e), s) \<leftarrow> finish_controls D marshal options summary s;
          Some ((Some summary, e), s) } } } })"

section \<open>Configurations without private commands\<close>

definition mask_only :: "diagFrame list \<Rightarrow> bool" where
  "mask_only frames \<longleftrightarrow> (\<forall>f \<in> set frames. hd (Decoded f) = diagExtMessageConfig)"

lemma zero_frames_mask_only: "zero_frames_loop ms = Inr zs \<Longrightarrow> mask_only zs"
  by (induction ms arbitrary: zs)
    (auto simp: mask_only_def buildMessageMaskFrame_def Let_def split: sum.splits if_splits)

lemma select_none_mask_only:
  assumes "\<And>f. f \<in> set fs \<Longrightarrow> selected (ID f) \<Longrightarrow>
      hd (Decoded f) = diagExtMessageConfig \<and> (zeroMasks \<longrightarrow> (\<exists>z. zeroByID (ID f) = Some z \<and> hd (Decoded z) = diagExtMessageConfig))"
    and "mask_only acc" and "ofold (select_step selected zeroMasks zeroByID PrivateNone) acc fs = Some out"
  shows "mask_only out"
  using assms
proof (induction fs arbitrary: acc)
  case (Cons f fs)
  from Cons.prems(3) obtain acc' where a: "select_step selected zeroMasks zeroByID PrivateNone acc f = Some acc'"
      "ofold (select_step selected zeroMasks zeroByID PrivateNone) acc' fs = Some out"
    by (auto split: Option.bind_splits)
  have "mask_only acc'"
    using a(1) Cons.prems(1) [of f] Cons.prems(2)
    by (auto simp: select_step_def mask_only_def privateFrameSelected_def split: if_splits Option.bind_splits)
  then show ?case using Cons.IH [of acc'] Cons.prems(1) a(2) by simp
qed simp

lemma ids_are_masks:
  assumes "config_inv c" and "f \<in> set (Frames c)" and "ID f \<in> set (allMessageFrameIDs c)"
  shows "hd (Decoded f) = diagExtMessageConfig"
proof -
  from assms(3) obtain m where m: "m \<in> set (MessageFrames c)" "ID (Frame m) = ID f" by (auto simp: allMessageFrameIDs_def)
  have "Frame m \<in> set (filter (\<lambda>f. hd (Decoded f) = diagExtMessageConfig) (Frames c))"
    using assms(1) m(1) by (metis config_inv_def image_eqI list.set_map)
  moreover have "inj_on ID (set (Frames c))"
  proof -
    have "distinct (map ID (Frames c))" using assms(1) by (auto simp: config_inv_def distinct_map inj_on_def)
    then show ?thesis by (simp add: distinct_map)
  qed
  ultimately show ?thesis using assms(2) m(2) by (auto dest: inj_onD)
qed

lemma foldl_upd_mem: "foldl (\<lambda>m z. m(k z \<mapsto> z)) m0 zs i = Some z \<Longrightarrow> z \<in> set zs \<or> m0 i = Some z"
proof (induction zs arbitrary: m0)
  case (Cons a zs)
  then show ?case using Cons.IH [of "m0(k a \<mapsto> a)"] by (auto split: if_splits)
qed simp

lemma selectFrames_none_mask_only:
  assumes "config_inv c" and "set ids \<subseteq> set (allMessageFrameIDs c)"
    and "selectFrames c ids zeroMasks PrivateNone = Some (Inr frames)"
  shows "mask_only frames"
proof -
  obtain zs where zs: "zeroMessageFrames c = Inr zs"
      "list_all2 (\<lambda>m z. ID z = ID (Frame m) \<and> frame_body_ok (Decoded z)
        \<and> parseMessageMaskFrame z = Some (Inr (m\<lparr>Frame := z, Masks := replicate (length (Masks m)) 0\<rparr>))) (MessageFrames c) zs"
    using zero_frames_loop_ok [of "MessageFrames c"] assms(1) by (auto simp: config_inv_def zeroMessageFrames_def)
  define zeros where "zeros = (if zeroMasks then zs else [])"
  let ?by = "foldl (\<lambda>m frame. m(ID frame \<mapsto> frame)) Map.empty zeros"
  have m: "mask_only zeros" using zero_frames_mask_only zs(1) by (auto simp: zeros_def zeroMessageFrames_def mask_only_def)
  have sel: "ofold (select_step (\<lambda>i. i \<in> set ids) zeroMasks ?by PrivateNone) [] (Frames c) = Some frames"
    using assms(3) zs(1) by (auto simp: selectFrames_def zeros_def split: Option.bind_splits if_splits)
  have z: "\<exists>z. ?by i = Some z \<and> z \<in> set zeros" if "i \<in> set ids" "zeroMasks" for i
    using map_upd_ID_defined [OF zs(2), of i] that assms(2) foldl_upd_mem [of ID Map.empty zs i]
    by (fastforce simp: zeros_def allMessageFrameIDs_def)
  show ?thesis
  proof (rule select_none_mask_only [OF _ _ sel])
    fix f assume f: "f \<in> set (Frames c)" "ID f \<in> set ids"
    then have "hd (Decoded f) = diagExtMessageConfig" using ids_are_masks assms by blast
    with f z [of "ID f"] m show "hd (Decoded f) = diagExtMessageConfig \<and>
        (zeroMasks \<longrightarrow> (\<exists>z. ?by (ID f) = Some z \<and> hd (Decoded z) = diagExtMessageConfig))"
      by (auto simp: mask_only_def)
  qed (simp add: mask_only_def)
qed

section \<open>What a group guarantees\<close>

text \<open>The counters of a group are those of its records.\<close>

definition count_records :: "(runRecord \<Rightarrow> bool) \<Rightarrow> controlGroupResult \<Rightarrow> int" where
  "count_records p g = int (length (filter p (cg_Records g)))"

definition tally :: "targetKind \<Rightarrow> controlGroupResult \<Rightarrow> bool" where
  "tally target g \<longleftrightarrow> ObservedHits g = count_records rr_Result g \<and>
     ObservedNRRuns g = count_records (\<lambda>r. rr_NRCellCount r > 0) g \<and>
     ObservedLTERuns g = count_records (\<lambda>r. rr_LTECellCount r > 0) g \<and>
     UnexpectedRuns g = (if ExpectedMatch g then 0 else count_records (\<lambda>r. controlHasUnexpectedTarget r target) g)"

lemma tally_add: "tally target g \<Longrightarrow> tally target (group_add target r g)"
  by (auto simp: tally_def group_add_def count_records_def count_if_def)

lemma group_add_fields [simp]:
  "cg_Name (group_add target r g) = cg_Name g" "ExpectedMatch (group_add target r g) = ExpectedMatch g"
  "cg_Runs (group_add target r g) = cg_Runs g" "cg_Records (group_add target r g) = cg_Records g @ [r]"
  by (simp_all add: group_add_def)

text \<open>The runs of a group apply only the zero masks and the one configuration of the group.\<close>

definition grew :: "byte list option set \<Rightarrow> 'd runner \<Rightarrow> 'd runner \<Rightarrow> bool" where
  "grew cfgs s s' \<longleftrightarrow> opts s' = opts s \<and> rw_dir (reports s') = rw_dir (reports s) \<and>
     (\<exists>xs. applied s' = applied s @ xs \<and> set xs \<subseteq> cfgs)"

lemma grew_refl [simp]: "grew cfgs s s"
  by (simp add: grew_def)

lemma grew_trans: "grew a s t \<Longrightarrow> grew b t u \<Longrightarrow> grew (a \<union> b) s u"
  by (fastforce simp: grew_def)

lemma grew_mono: "grew a s t \<Longrightarrow> a \<subseteq> b \<Longrightarrow> grew b s t"
  by (fastforce simp: grew_def)

definition group_cfgs :: "qtraceConfig \<Rightarrow> int list \<Rightarrow> bool \<Rightarrow> privateMode \<Rightarrow> byte list option set" where
  "group_cfgs c ids zeroMasks private =
     insert (zero_bytes c) {Some (encodeConfig frames) |frames. selectFrames c ids zeroMasks private = Some (Inr frames)}"

lemma tested_grew:
  assumes "tested c s r e s'"
  shows "grew (group_cfgs (Config (opts s)) (cd_frameIDs c) (cd_zeroMasks c) (cd_private c)) s s'"
  using assms by (fastforce simp: tested_def grew_def group_cfgs_def test_log_def)

lemma group_loop_spec:
  assumes "config_inv (Config (opts s))" and "set ids \<subseteq> set (allMessageFrameIDs (Config (opts s)))" and "tally target g"
    and "\<And>a. cd_frameIDs (cand a) = ids \<and> cd_zeroMasks (cand a) = zeroMasks \<and> cd_private (cand a) = private"
  shows "\<exists>g' e s'. group_loop D target cand attempt left g s = Some ((g', e), s') \<and> reducer_run D s s' \<and>
    grew (group_cfgs (Config (opts s)) ids zeroMasks private) s s' \<and> tally target g' \<and>
    cg_Name g' = cg_Name g \<and> ExpectedMatch g' = ExpectedMatch g \<and> cg_Runs g' = cg_Runs g \<and>
    (e = None \<longrightarrow> length (cg_Records g') = length (cg_Records g) + left)"
  using assms
proof (induction left arbitrary: attempt g s)
  case 0
  then show ?case by (simp add: run_start)
next
  case (Suc left)
  let ?cfgs = "group_cfgs (Config (opts s)) ids zeroMasks private"
  obtain r e s1 where t: "testCandidate D (cand attempt) s = Some ((r, e), s1)" "tested (cand attempt) s r e s1"
    using testCandidate_spec [of s "cand attempt" D] Suc.prems by auto
  have g1: "grew ?cfgs s s1" using tested_grew [OF t(2)] Suc.prems(4) by simp
  then have o1: "opts s1 = opts s" by (simp add: grew_def)
  have r1: "reducer_run D s s1" using run_test [OF run_start _ t(1)] Suc.prems(2,4) by simp
  show ?case
  proof (cases e)
    case None
    obtain g' e' s' where "group_loop D target cand (attempt + 1) left (group_add target r g) s1 = Some ((g', e'), s')"
        "reducer_run D s1 s'" "grew ?cfgs s1 s'" "tally target g'" "cg_Name g' = cg_Name g" "ExpectedMatch g' = ExpectedMatch g"
        "cg_Runs g' = cg_Runs g" "e' = None \<longrightarrow> length (cg_Records g') = length (cg_Records g) + Suc left"
      using Suc.IH [of s1 "group_add target r g" "attempt + 1"] Suc.prems o1 tally_add by auto
    moreover from this(2,3) have "reducer_run D s s'" "grew ?cfgs s s'"
      using reducer_run_trans [OF _ r1] grew_trans [OF g1, of ?cfgs s'] by auto
    ultimately show ?thesis using None t(1) by (simp add: Let_def)
  next
    case (Some x)
    then show ?thesis using t(1) r1 g1 tally_add [OF Suc.prems(3)] by (simp add: Let_def)
  qed
qed

text \<open>A complete group.\<close>

definition group_done :: "targetKind \<Rightarrow> int \<Rightarrow> group_spec \<Rightarrow> controlGroupResult \<Rightarrow> bool" where
  "group_done target runs g result \<longleftrightarrow> cg_Name result = gs_name g \<and> ExpectedMatch result = gs_expected g \<and>
     tally target result \<and> int (length (cg_Records result)) = runs \<and>
     ExpectationMet result = (if gs_expected g then ObservedHits result = runs else UnexpectedRuns result = 0)"

definition group_stepped :: "'d device \<Rightarrow> controlOptions \<Rightarrow> group_spec \<Rightarrow> controlsSummary \<Rightarrow> 'd runner \<Rightarrow> controlsSummary \<Rightarrow>
    controlGroupResult \<Rightarrow> err \<Rightarrow> 'd runner \<Rightarrow> bool" where
  "group_stepped D options g summary s summary' result e s' \<longleftrightarrow> reducer_run D s s' \<and>
    grew (group_cfgs (Config (opts s)) (allMessageFrameIDs (Config (opts s))) (gs_zero g) (gs_private g)) s s' \<and>
    summary' = (if e = None then summary\<lparr>Groups := Groups summary @ [result]\<rparr> else summary) \<and>
    (e = None \<longrightarrow> group_done (ct_Target options) (Repeats options) g result)"

lemma run_group_step_spec:
  assumes inv: "config_inv (Config (opts s))" and "0 < Repeats options"
  shows "\<exists>summary' result e s'. run_group_step D options g summary s = Some ((summary', result, e), s') \<and>
    group_stepped D options g summary s summary' result e s'"
proof -
  let ?ids = "allMessageFrameIDs (Config (opts s))"
  let ?g0 = "\<lparr>cg_Name = gs_name g, ExpectedMatch = gs_expected g, ObservedHits = 0, ObservedNRRuns = 0, ObservedLTERuns = 0,
      UnexpectedRuns = 0, cg_Runs = Repeats options, ExpectationMet = False, cg_Records = []\<rparr>"
  have "tally (ct_Target options) ?g0" by (simp add: tally_def count_records_def)
  then obtain g' e s' where "group_loop D (ct_Target options)
      (group_candidate options (gs_name g) ?ids (gs_zero g) (gs_private g) (gs_positiveOK g)) 1 (nat (Repeats options)) ?g0 s = Some ((g', e), s')"
      and "reducer_run D s s'" "grew (group_cfgs (Config (opts s)) ?ids (gs_zero g) (gs_private g)) s s'" "tally (ct_Target options) g'"
      "cg_Name g' = gs_name g" "ExpectedMatch g' = gs_expected g" "e = None \<longrightarrow> length (cg_Records g') = nat (Repeats options)"
    using group_loop_spec [OF inv subset_refl, of "ct_Target options" ?g0
        "group_candidate options (gs_name g) ?ids (gs_zero g) (gs_private g) (gs_positiveOK g)" "gs_zero g" "gs_private g" D 1 "nat (Repeats options)"]
    by (auto simp: group_candidate_def)
  with assms(2) show ?thesis
    by (cases e) (auto simp: run_group_step_def runGroup_def group_stepped_def group_done_def tally_def count_records_def Let_def)
qed

section \<open>The five groups\<close>

definition cold_cfg :: "byte list option \<Rightarrow> bool" where
  "cold_cfg x \<longleftrightarrow> (\<exists>frames. x = Some (encodeConfig frames) \<and> mask_only frames)"

lemma cold_group:
  assumes "config_inv c"
  shows "group_cfgs c (allMessageFrameIDs c) zeroMasks PrivateNone \<subseteq> {x. cold_cfg x}"
proof -
  obtain zs where z: "zeroMessageFrames c = Inr zs" using zeroMessageFrames_ok [OF assms] by blast
  then have "mask_only zs" using zero_frames_mask_only by (simp add: zeroMessageFrames_def)
  with z show ?thesis using selectFrames_none_mask_only [OF assms subset_refl]
    by (auto simp: group_cfgs_def cold_cfg_def zero_bytes_def)
qed

lemma control_defaults_pos: "0 < Repeats (control_defaults options)" "ct_Target (control_defaults options) = ct_Target options"
  by (auto simp: control_defaults_def Let_def)

text \<open>What \<^verbatim>\<open>run\<close> has established when it succeeds.\<close>

definition controls_done :: "controlOptions \<Rightarrow> (controlsSummary \<Rightarrow> byte list) \<Rightarrow> controlsSummary \<Rightarrow> 'd runner \<Rightarrow> bool" where
  "controls_done options marshal summary s' \<longleftrightarrow>
     cs_ColdStateConfirmed summary \<and> cs_PositiveControlStatus summary \<and> cs_Completed summary \<noteq> None \<and>
     cs_Target summary = ct_Target options \<and>
     list_all2 (group_done (ct_Target options) (Repeats options))
       [spec_all_off, spec_message_only, spec_positive, spec_zero_private, spec_positive_end] (Groups summary) \<and>
     MinimumPositiveHit options \<le> ObservedHits (Groups summary ! 2) \<and>
     MinimumPositiveHit options \<le> ObservedHits (Groups summary ! 4) \<and>
     files s' (path_join (rw_dir (reports s')) (''controls-'' @ ct_Target options @ ''-summary.json'')) = Some (marshal summary @ [0x0a])"

lemma WriteSummary_written:
  "fst (WriteSummary w name json writer fs) = None \<Longrightarrow>
   snd (WriteSummary w name json writer fs) (path_join (rw_dir writer) name) = Some (json @ [0x0a])"
  unfolding WriteSummary_def by (rule writeFileAtomic_written)

lemma grew_any: "grew a s t \<Longrightarrow> grew UNIV s t"
  by (rule grew_mono) simp_all

lemma grew_any_trans: "grew UNIV s t \<Longrightarrow> grew UNIV t u \<Longrightarrow> grew UNIV s u"
  using grew_trans [of UNIV s t UNIV u] by simp

lemma group_stepped_any:
  assumes "group_stepped D options g summary s summary' result e s'"
  shows "reducer_run D s s'" "grew UNIV s s'" "opts s' = opts s"
  using assms grew_any by (auto simp: group_stepped_def grew_def)

lemma finish_controls_spec:
  assumes inv: "config_inv (Config (opts s))" and rep: "0 < Repeats options"
    and sm: "Groups summary = [a, b, c]" "group_done (ct_Target options) (Repeats options) spec_all_off a"
      "group_done (ct_Target options) (Repeats options) spec_message_only b"
      "group_done (ct_Target options) (Repeats options) spec_positive c"
      "MinimumPositiveHit options \<le> ObservedHits c" "cs_ColdStateConfirmed summary" "cs_Target summary = ct_Target options"
  shows "\<exists>summary' e s'. finish_controls D marshal options summary s = Some ((summary', e), s') \<and>
    reducer_run D s s' \<and> grew UNIV s s' \<and>
    map cg_Name (take 2 (Groups summary')) = [''all-off'', ''message-only''] \<and>
    (e = None \<longrightarrow> controls_done options marshal summary' s')"
proof -
  let ?sm1 = "summary\<lparr>cs_PositiveControlStatus := True\<rparr>"
  have names: "map cg_Name [a, b] = [''all-off'', ''message-only'']"
    using sm(2,3) by (simp add: group_done_def spec_all_off_def spec_message_only_def)
  obtain sm2 d e1 s1 where st1: "run_group_step D options spec_zero_private ?sm1 s = Some ((sm2, d, e1), s1)"
      and p1: "group_stepped D options spec_zero_private ?sm1 s sm2 d e1 s1"
    using run_group_step_spec [OF inv rep] by blast
  note q1 = group_stepped_any [OF p1] and sm2 = p1 [unfolded group_stepped_def, THEN conjunct2, THEN conjunct2]
  obtain sm3 f e2 s2 where st2: "run_group_step D options spec_positive_end sm2 s1 = Some ((sm3, f, e2), s2)"
      and p2: "group_stepped D options spec_positive_end sm2 s1 sm3 f e2 s2"
    using run_group_step_spec [OF inv [folded q1(3)] rep] by blast
  note q2 = group_stepped_any [OF p2] and sm3 = p2 [unfolded group_stepped_def, THEN conjunct2, THEN conjunct2]
  have g12: "grew UNIV s s2" and r12: "reducer_run D s s2"
    using grew_any_trans [OF q1(2) q2(2)] reducer_run_trans [OF q2(1) q1(1)] by auto
  let ?now = "dv_now D (dev s2)" and ?name = "''controls-'' @ ct_Target options @ ''-summary.json''"
  let ?sm4 = "sm3\<lparr>cs_Completed := Some (fst ?now)\<rparr>"
  let ?w = "dv_write D (path_join (rw_dir (reports s2)) ?name) (snd ?now)"
  obtain e3 fs where w: "WriteSummary (fst ?w) ?name (marshal ?sm4) (reports s2) (files s2) = (e3, fs)" by fastforce
  let ?s3 = "s2\<lparr>dev := snd ?w, files := fs\<rparr>"
  show ?thesis
  proof (cases "e1 = None \<and> e2 = None \<and> MinimumPositiveHit options \<le> ObservedHits f")
    case True
    have fin: "finish_controls D marshal options summary s = Some ((?sm4, e3), ?s3)"
      using True st1 st2 w by (simp add: finish_controls_def sys_eq Let_def del: append.simps)
    have "e3 = None \<Longrightarrow> fs (path_join (rw_dir (reports s2)) ?name) = Some (marshal ?sm4 @ [0x0a])"
      using WriteSummary_written [of "fst ?w" ?name "marshal ?sm4" "reports s2" "files s2"] w by (simp del: append.simps)
    then have "e3 = None \<Longrightarrow> controls_done options marshal ?sm4 ?s3"
      using True sm sm2 sm3 by (simp add: controls_done_def del: append.simps) (simp add: numeral_eq_Suc)
    moreover have "reducer_run D s ?s3" "grew UNIV s ?s3"
      using run_io [OF r12, where fs = fs and d = "snd ?w"] g12 by (simp_all add: grew_def applied_def)
    ultimately show ?thesis using fin True sm sm2 sm3 names by auto
  next
    case False
    then consider "e1 \<noteq> None" | "e1 = None" "e2 \<noteq> None" | "e1 = None" "e2 = None" "ObservedHits f < MinimumPositiveHit options" by linarith
    then show ?thesis
    proof cases
      case 1
      then show ?thesis using st1 sm2 sm(1) names q1 by (auto simp: finish_controls_def Let_def)
    next
      case 2
      then show ?thesis using st1 st2 sm2 sm3 sm(1) names g12 r12 by (auto simp: finish_controls_def Let_def)
    next
      case 3
      then show ?thesis using st1 st2 sm2 sm3 sm(1) names g12 r12 by (auto simp: finish_controls_def Let_def)
    qed
  qed
qed

text \<open>What \<^verbatim>\<open>run\<close> does in every case: \<open>cold\<close> is what was applied before the first positive group, \<open>rest\<close> what came after.\<close>

definition controls_ran :: "controlOptions \<Rightarrow> (controlsSummary \<Rightarrow> byte list) \<Rightarrow> 'd runner \<Rightarrow> controlsSummary option \<Rightarrow> err \<Rightarrow> 'd runner \<Rightarrow> bool" where
  "controls_ran options marshal s summary e s' \<longleftrightarrow>
     (\<exists>cold rest. applied s' = applied s @ cold @ rest \<and> list_all cold_cfg cold \<and>
        (rest \<noteq> [] \<longrightarrow> (\<exists>sm. summary = Some sm \<and> map cg_Name (take 2 (Groups sm)) = [''all-off'', ''message-only'']))) \<and>
     (e = None \<longrightarrow> (\<exists>sm. summary = Some sm \<and> controls_done (control_defaults options) marshal sm s'))"

lemma cold_stepped:
  assumes "config_inv (Config (opts s))" and "group_stepped D options g summary s summary' result e s'" and "gs_private g = PrivateNone"
  shows "\<exists>xs. applied s' = applied s @ xs \<and> list_all cold_cfg xs"
  using assms cold_group [OF assms(1), of "gs_zero g"] by (fastforce simp: group_stepped_def grew_def list_all_iff)

lemma controls_ran_cold:
  "applied s' = applied s @ cold \<Longrightarrow> list_all cold_cfg cold \<Longrightarrow> controls_ran options marshal s summary (Some x) s'"
  unfolding controls_ran_def by (intro conjI exI [of _ cold] exI [of _ "[]"]) simp_all

lemma run_controls_spec:
  assumes inv: "config_inv (Config (opts s))"
  shows "\<exists>summary e s'. run_controls D marshal options s = Some ((summary, e), s') \<and> reducer_run D s s' \<and>
    controls_ran options marshal s summary e s'"
proof (cases "ct_ColdStateConfirmed options")
  case False
  then show ?thesis using controls_ran_cold [of s s "[]"] by (simp add: run_controls_def run_start del: append.simps)
next
  case cold: True
  let ?o = "control_defaults options" and ?s0 = "s\<lparr>dev := snd (dv_now D (dev s))\<rparr>"
  let ?sm0 = "new_summary ?o (fst (dv_now D (dev s)))"
  note rep = control_defaults_pos(1) [of options]
  have inv0: "config_inv (Config (opts ?s0))" and a0: "applied ?s0 = applied s" using inv by (simp_all add: applied_def)
  have r0: "reducer_run D s ?s0" using run_io [OF run_start, where D = D and s = s and fs = "files s" and d = "dev ?s0"] by simp
  obtain sm1 a e1 s1 where st1: "run_group_step D ?o spec_all_off ?sm0 ?s0 = Some ((sm1, a, e1), s1)"
      and p1: "group_stepped D ?o spec_all_off ?sm0 ?s0 sm1 a e1 s1"
    using run_group_step_spec [OF inv0 rep] by blast
  note q1 = group_stepped_any [OF p1] and m1 = p1 [unfolded group_stepped_def, THEN conjunct2, THEN conjunct2]
  have inv1: "config_inv (Config (opts s1))" using inv q1(3) by simp
  obtain sm2 b e2 s2 where st2: "run_group_step D ?o spec_message_only sm1 s1 = Some ((sm2, b, e2), s2)"
      and p2: "group_stepped D ?o spec_message_only sm1 s1 sm2 b e2 s2"
    using run_group_step_spec [OF inv1 rep] by blast
  note q2 = group_stepped_any [OF p2] and m2 = p2 [unfolded group_stepped_def, THEN conjunct2, THEN conjunct2]
  have inv2: "config_inv (Config (opts s2))" using inv1 q2(3) by simp
  obtain sm3 c e3 s3 where st3: "run_group_step D ?o spec_positive sm2 s2 = Some ((sm3, c, e3), s3)"
      and p3: "group_stepped D ?o spec_positive sm2 s2 sm3 c e3 s3"
    using run_group_step_spec [OF inv2 rep] by blast
  note q3 = group_stepped_any [OF p3] and m3 = p3 [unfolded group_stepped_def, THEN conjunct2, THEN conjunct2]
  have inv3: "config_inv (Config (opts s3))" using inv2 q3(3) by simp
  obtain x1 where x1: "applied s1 = applied s @ x1" "list_all cold_cfg x1"
    using cold_stepped [OF inv0 p1] a0 by (auto simp: spec_all_off_def)
  obtain x2 where x2: "applied s2 = applied s @ x1 @ x2" "list_all cold_cfg x2"
    using cold_stepped [OF inv1 p2] x1(1) by (auto simp: spec_message_only_def)
  obtain x3 where x3: "applied s3 = applied s @ (x1 @ x2) @ x3" using q3(2) x2(1) by (auto simp: grew_def)
  note r = r0 reducer_run_trans [OF q1(1) r0]
  note r' = reducer_run_trans [OF q2(1) r(2)] reducer_run_trans [OF q3(1) reducer_run_trans [OF q2(1) r(2)]]
  have c12: "list_all cold_cfg (x1 @ x2)" using x1(2) x2(2) by simp
  show ?thesis
  proof (cases "e1 = None \<and> e2 = None")
    case False
    then show ?thesis
    proof (cases e1)
      case (Some y)
      then show ?thesis using controls_ran_cold [OF x1] st1 r(2) cold by (simp add: run_controls_def sys_eq Let_def)
    next
      case None
      with False obtain y where "e2 = Some y" by auto
      with None show ?thesis using controls_ran_cold [OF x2(1) c12] st1 st2 r'(1) cold
        by (simp add: run_controls_def sys_eq Let_def)
    qed
  next
    case ok: True
    have gd: "group_done (ct_Target ?o) (Repeats ?o) spec_all_off a" "group_done (ct_Target ?o) (Repeats ?o) spec_message_only b"
      "Groups sm2 = [a, b]" "cs_ColdStateConfirmed sm2" "cs_Target sm2 = ct_Target ?o"
      using ok m1 m2 by (simp_all add: new_summary_def)
    have names: "map cg_Name [a, b] = [''all-off'', ''message-only'']"
      using gd by (simp add: group_done_def spec_all_off_def spec_message_only_def)
    have ran: "map cg_Name (take 2 (Groups sm)) = [''all-off'', ''message-only''] \<Longrightarrow> applied u = applied s3 @ ys \<Longrightarrow>
        (e = None \<longrightarrow> controls_done ?o marshal sm u) \<Longrightarrow> controls_ran options marshal s (Some sm) e u" for sm u e ys
      unfolding controls_ran_def using x3 c12 by (intro conjI exI [of _ "x1 @ x2"] exI [of _ "x3 @ ys"]) auto
    show ?thesis
    proof (cases "e3 = None \<and> MinimumPositiveHit ?o \<le> ObservedHits c")
      case True
      then have g3: "Groups sm3 = [a, b, c]" "group_done (ct_Target ?o) (Repeats ?o) spec_positive c"
        "cs_ColdStateConfirmed sm3" "cs_Target sm3 = ct_Target ?o" using m3 gd by simp_all
      obtain sm4 e4 s4 where f: "finish_controls D marshal ?o sm3 s3 = Some ((sm4, e4), s4)" "reducer_run D s3 s4" "grew UNIV s3 s4"
          "map cg_Name (take 2 (Groups sm4)) = [''all-off'', ''message-only'']" "e4 = None \<longrightarrow> controls_done ?o marshal sm4 s4"
        using finish_controls_spec [OF inv3 rep g3(1) gd(1,2) g3(2) True [THEN conjunct2] g3(3,4), of D marshal] by (elim exE conjE) (rule that)
      from f(3) obtain ys where "applied s4 = applied s3 @ ys" by (auto simp: grew_def)
      from ran [OF f(4) this f(5)] show ?thesis
        using True ok cold st1 st2 st3 f(1) reducer_run_trans [OF f(2) r'(2)] by (simp add: run_controls_def sys_eq Let_def)
    next
      case False
      have "map cg_Name (take 2 (Groups sm3)) = [''all-off'', ''message-only'']" using m3 gd(3) names by simp
      from ran [OF this, of s3 "[]"] have bad: "controls_ran options marshal s (Some sm3) (Some y) s3" for y by simp
      from False consider y where "e3 = Some y" | "e3 = None" "ObservedHits c < MinimumPositiveHit ?o" by force
      then show ?thesis
        using ok cold st1 st2 st3 bad r'(2) by cases (simp_all add: run_controls_def sys_eq Let_def del: append.simps)
    qed
  qed
qed

section \<open>The controls on the sample modem\<close>

lemma modem_group_loop:
  assumes "Config (opts s) = sample_config" and "frames \<noteq> []"
    and "\<And>a. cd_target (cand a) = targetLTE \<and> set (cd_frameIDs (cand a)) \<subseteq> {0} \<and>
      selectFrames sample_config (cd_frameIDs (cand a)) (cd_zeroMasks (cand a)) (cd_private (cand a)) = Some (Inr frames)"
  shows "\<exists>g' s'. group_loop modem_device targetLTE cand attempt left g s = Some ((g', None), s') \<and> opts s' = opts s \<and>
    (encodeConfig frames = full_bytes \<longrightarrow> ObservedHits g' = ObservedHits g + int left)"
  using assms(1)
proof (induction left arbitrary: attempt g s)
  case (Suc left)
  have c: "cd_target (cand attempt) = targetLTE" "set (cd_frameIDs (cand attempt)) \<subseteq> {0}"
    "selectFrames sample_config (cd_frameIDs (cand attempt)) (cd_zeroMasks (cand attempt)) (cd_private (cand attempt)) = Some (Inr frames)"
    using assms(3) [of attempt] by auto
  obtain r s1 where r: "testCandidate modem_device (cand attempt) s = Some ((r, None), s1)" "opts s1 = opts s"
      "rr_Result r = (encodeConfig frames = full_bytes)"
    using modem_test [OF Suc.prems c assms(2)] by blast
  then obtain g' s' where "group_loop modem_device targetLTE cand (attempt + 1) left (group_add targetLTE r g) s1 = Some ((g', None), s')"
      "opts s' = opts s" "encodeConfig frames = full_bytes \<longrightarrow> ObservedHits g' = ObservedHits (group_add targetLTE r g) + int left"
    using Suc.IH [of s1 "attempt + 1" "group_add targetLTE r g"] Suc.prems by auto
  with r show ?case by (auto simp: Let_def group_add_def count_if_def)
qed simp

lemma modem_group:
  assumes "Config (opts s) = sample_config" and "ct_Target options = targetLTE" and "0 < Repeats options"
    and "selectFrames sample_config [0] (gs_zero g) (gs_private g) = Some (Inr frames)" and "frames \<noteq> []"
  shows "\<exists>sm' result s'. run_group_step modem_device options g sm s = Some ((sm', result, None), s') \<and> opts s' = opts s \<and>
    (encodeConfig frames = full_bytes \<longrightarrow> ObservedHits result = Repeats options)"
proof -
  let ?cand = "group_candidate options (gs_name g) [0] (gs_zero g) (gs_private g) (gs_positiveOK g)"
  have "\<And>a. cd_target (?cand a) = targetLTE \<and> set (cd_frameIDs (?cand a)) \<subseteq> {0} \<and>
      selectFrames sample_config (cd_frameIDs (?cand a)) (cd_zeroMasks (?cand a)) (cd_private (?cand a)) = Some (Inr frames)"
    using assms(2,4) by (simp add: group_candidate_def)
  note l = modem_group_loop [where cand = ?cand, OF assms(1,5) this, where attempt = 1 and left = "nat (Repeats options)"]
  let ?g0 = "\<lparr>cg_Name = gs_name g, ExpectedMatch = gs_expected g, ObservedHits = 0, ObservedNRRuns = 0, ObservedLTERuns = 0,
      UnexpectedRuns = 0, cg_Runs = Repeats options, ExpectationMet = False, cg_Records = []\<rparr>"
  obtain g' s' where "group_loop modem_device targetLTE ?cand 1 (nat (Repeats options)) ?g0 s = Some ((g', None), s')" "opts s' = opts s"
      "encodeConfig frames = full_bytes \<longrightarrow> ObservedHits g' = ObservedHits ?g0 + int (nat (Repeats options))"
    using l [where g = ?g0] by (elim exE conjE) (rule that)
  then show ?thesis using assms(1-3) by (simp add: run_group_step_def runGroup_def sample_ids Let_def)
qed

definition sample_controls :: controlOptions where
  "sample_controls = \<lparr>ct_Target = targetLTE, Repeats = 2, MinimumPositiveHit = 0, ct_ColdStateConfirmed = True, ct_Window = 10 * Second\<rparr>"

lemma spec_fields [simp]:
  "gs_zero spec_all_off = True" "gs_private spec_all_off = PrivateNone"
  "gs_zero spec_message_only = False" "gs_private spec_message_only = PrivateNone"
  "gs_zero spec_positive = False" "gs_private spec_positive = PrivateBoth"
  "gs_zero spec_zero_private = True" "gs_private spec_zero_private = PrivateBoth"
  "gs_zero spec_positive_end = False" "gs_private spec_positive_end = PrivateBoth"
  by (simp_all add: spec_all_off_def spec_message_only_def spec_positive_def spec_zero_private_def spec_positive_end_def)

lemma modem_controls:
  "\<exists>sm s'. run_controls modem_device (\<lambda>_. []) sample_controls (sample_runner False) = Some ((Some sm, None), s')"
proof -
  let ?o = "control_defaults sample_controls" and ?s = "sample_runner False"
  have o: "ct_Target ?o = targetLTE" "Repeats ?o = 2" "MinimumPositiveHit ?o = 2" "0 < Repeats ?o"
    by (simp_all add: control_defaults_def sample_controls_def Let_def)
  have c: "Config (opts ?s) = sample_config" by (simp add: sample_runner_def sample_options_def)
  have full: "encodeConfig (Frames sample_config) = full_bytes" "Frames sample_config \<noteq> []"
    by (simp_all add: full_bytes_def sample_config_def)
  obtain z where z: "selectFrames sample_config [0] True PrivateNone = Some (Inr [z])" using select_zero by blast
  obtain z' where z': "selectFrames sample_config [0] True PrivateBoth = Some (Inr [z', sample_private_frame])" using select_zero_private by blast
  obtain sm1 r1 s1 where 1: "run_group_step modem_device ?o spec_all_off (new_summary ?o 0) ?s = Some ((sm1, r1, None), s1)" "opts s1 = opts ?s"
    using modem_group [OF c o(1,4), where g = spec_all_off and frames = "[z]" and sm = "new_summary ?o 0"] z by auto
  have c1: "Config (opts s1) = sample_config" using c 1(2) by simp
  obtain sm2 r2 s2 where 2: "run_group_step modem_device ?o spec_message_only sm1 s1 = Some ((sm2, r2, None), s2)" "opts s2 = opts ?s"
    using modem_group [OF c1 o(1,4), where g = spec_message_only and frames = "[sample_mask_frame]" and sm = sm1] select_masks 1(2) by auto
  have c2: "Config (opts s2) = sample_config" using c 2(2) by simp
  obtain sm3 r3 s3 where 3: "run_group_step modem_device ?o spec_positive sm2 s2 = Some ((sm3, r3, None), s3)" "opts s3 = opts ?s" "ObservedHits r3 = 2"
    using modem_group [OF c2 o(1,4), where g = spec_positive and frames = "Frames sample_config" and sm = sm2] select_full full 2(2) o(2) by auto
  have c3: "Config (opts s3) = sample_config" using c 3(2) by simp
  obtain sm4 r4 s4 where 4: "run_group_step modem_device ?o spec_zero_private (sm3\<lparr>cs_PositiveControlStatus := True\<rparr>) s3 = Some ((sm4, r4, None), s4)" "opts s4 = opts ?s"
    using modem_group [OF c3 o(1,4), where g = spec_zero_private and frames = "[z', sample_private_frame]" and sm = "sm3\<lparr>cs_PositiveControlStatus := True\<rparr>"] z' 3(2) by auto
  have c4: "Config (opts s4) = sample_config" using c 4(2) by simp
  obtain sm5 r5 s5 where 5: "run_group_step modem_device ?o spec_positive_end sm4 s4 = Some ((sm5, r5, None), s5)" "ObservedHits r5 = 2"
    using modem_group [OF c4 o(1,4), where g = spec_positive_end and frames = "Frames sample_config" and sm = sm4] select_full full o(2) by auto
  have "\<exists>sm6 s6. finish_controls modem_device (\<lambda>_. []) ?o sm3 s3 = Some ((sm6, None), s6)"
    using 4(1) 5 o(3) by (simp add: finish_controls_def sys_eq WriteSummary_def writeFileAtomic_no_faults Let_def del: append.simps)
  then show ?thesis using 1(1) 2(1) 3 o(3) by (auto simp: run_controls_def sample_controls_def sys_eq Let_def)
qed

section \<open>Properties\<close>



text \<open>C34: The report of a control run that succeeds is one the search accepts: it holds the five groups in the order of
  execution, each with its full number of records, both positive groups reached the required hits, and
  reading the file it was written to passes the validation for every target it covers, provided that
  decoding its JSON text gives it back.\<close>
theorem controls_report_accepted:
  assumes "config_inv (Config (opts s))" and "run_controls D marshal options s = Some ((Some sm, None), s')"
    and "unmarshal (marshal sm @ [0x0a]) = Inr sm" and "covers (ct_Target options) target"
  shows "validateControlsReport unmarshal (files s')
      (path_join (rw_dir (reports s')) (''controls-'' @ ct_Target options @ ''-summary.json'')) target = None \<and>
    map cg_Name (Groups sm) = control_names \<and>
    map (\<lambda>g. int (length (cg_Records g))) (Groups sm) = replicate 5 (Repeats (control_defaults options)) \<and>
    MinimumPositiveHit (control_defaults options) \<le> ObservedHits (Groups sm ! 2) \<and>
    MinimumPositiveHit (control_defaults options) \<le> ObservedHits (Groups sm ! 4)"
proof -
  let ?p = "path_join (rw_dir (reports s')) (''controls-'' @ ct_Target options @ ''-summary.json'')"
  have d: "controls_done (control_defaults options) marshal sm s'"
    using run_controls_spec [OF assms(1), of D marshal options] assms(2) by (auto simp: controls_ran_def)
  then have f: "files s' ?p = Some (marshal sm @ [0x0a])" and t: "cs_Target sm = ct_Target options"
    and k: "cs_ColdStateConfirmed sm" "cs_PositiveControlStatus sm" "cs_Completed sm \<noteq> None"
    by (simp_all add: controls_done_def control_defaults_pos(2))
  from d have g: "list_all2 (group_done (ct_Target options) (Repeats (control_defaults options)))
      [spec_all_off, spec_message_only, spec_positive, spec_zero_private, spec_positive_end] (Groups sm)"
    by (simp add: controls_done_def control_defaults_pos(2))
  then obtain g1 g2 g3 g4 g5 where gs: "Groups sm = [g1, g2, g3, g4, g5]" by (auto simp: list_all2_Cons1)
  have n: "map cg_Name (Groups sm) = control_names"
    using g by (simp add: gs group_done_def control_names_def spec_all_off_def spec_message_only_def
        spec_positive_def spec_zero_private_def spec_positive_end_def)
  have l: "map (\<lambda>g. int (length (cg_Records g))) (Groups sm) = replicate 5 (Repeats (control_defaults options))"
    using g by (simp add: gs group_done_def numeral_eq_Suc)
  have "?p \<noteq> []" by (simp add: path_join_def)
  moreover have "filter (\<lambda>name. name \<notin> set (map cg_Name (Groups sm))) control_names = []"
    unfolding n by (simp add: filter_empty_conv)
  ultimately have "validateControlsReport unmarshal (files s') ?p target = None"
    using f assms(3,4) k t by (simp add: validateControlsReport_def validate_summary_def del: append.simps)
  with n l d show ?thesis by (simp add: controls_done_def)
qed

theorem controls_report_accepted_witness:
  "\<exists>sm s'. run_controls modem_device (\<lambda>_. []) sample_controls (sample_runner False) = Some ((Some sm, None), s') \<and>
     validateControlsReport (\<lambda>_. Inr sm) (files s') (path_join (rw_dir (reports s')) ''controls-lte-summary.json'') targetLTE = None \<and>
     map cg_Name (Groups sm) = control_names"
proof -
  obtain sm s' where r: "run_controls modem_device (\<lambda>_. []) sample_controls (sample_runner False) = Some ((Some sm, None), s')"
    using modem_controls by blast
  have c: "covers (ct_Target sample_controls) targetLTE" "ct_Target sample_controls = ''lte''"
    by (simp_all add: covers_def sample_controls_def targetNR_def targetLTE_def targetCombined_def)
  note a = controls_report_accepted [OF sample_runner_ok(1) r _ c(1), where unmarshal = "\<lambda>_. Inr sm", OF refl, unfolded c(2)]
  have "validateControlsReport (\<lambda>_. Inr sm) (files s') (path_join (rw_dir (reports s')) ''controls-lte-summary.json'') targetLTE = None"
    using a [THEN conjunct1] by simp
  with r a [THEN conjunct2, THEN conjunct1] show ?thesis by (intro exI conjI)
qed

end
