(* ===== verification/Reducer_Search.thy ===== *)
theory Reducer_Search
  imports Ddmin Reducer_Controls
begin

text \<open>
  The rest of \<^verbatim>\<open>tools/u60-qtrace-reducer/ddmin.go\<close>: repeated tests of a candidate, the calibration of the
  capture window on the positive control, the whole search with its validations, and the comparison of
  the captured volumes.  The oracle of the search is \<open>candidate_oracle\<close>, a repeated test on the device;
  that it keeps what the runner guarantees makes it an instance of \<open>stateful_tester\<close>.
\<close>

section \<open>Data\<close>

record repeatedResult =
  rp_Passed :: bool
  rp_Hits :: int
  rp_Runs :: int
  rp_Records :: "runRecord list"

record calibrationResult =
  cb_Target :: targetKind
  cb_Runs :: int
  cb_Hits :: int
  LatenciesMS :: "int list"
  P95MS :: int
  CandidateWindow :: int
  cb_Passed :: bool
  cb_FailureReason :: string
  cb_Records :: "runRecord list"

record ddminOptions =
  dm_Target :: targetKind
  dm_ControlsReport :: string
  CalibrationRuns :: int
  PositiveMinimumHit :: int
  CandidateRepeats :: int
  CandidateMinHits :: int
  WindowMargin :: int
  MinimumWindow :: int
  MaximumWindow :: int

record volumeComparison =
  ReferenceWindowMS :: int
  MinimalWindowMS :: int
  WindowsComparable :: bool
  OriginalReference :: string
  MinimalReference :: string
  OriginalMessageFrames :: int
  MinimalMessageFrames :: int
  FrameReductionPercent :: rat
  OriginalAvgQSHFrames :: rat
  MinimalAvgQSHFrames :: rat
  QSHFrameReduction :: rat
  OriginalAvgQSHBytes :: rat
  MinimalAvgQSHBytes :: rat
  QSHByteReduction :: rat

record ddminSummary =
  ds_Stage :: string
  ds_Target :: targetKind
  ds_Started :: int
  ds_Completed :: "int option"
  OriginalFrameIDs :: "int list"
  MinimalFrameIDs :: "int list"
  MinimalSSIDs :: "u16 list"
  ds_PrivateCommandState :: string
  ds_ControlsReport :: string
  Calibration :: calibrationResult
  EmptyCandidate :: repeatedResult
  MinimalValidation :: repeatedResult
  EndPositiveControl :: repeatedResult
  Volume :: volumeComparison
  OutputConfig :: string
  OutputConfigFrameCount :: int
  Notes :: "string list"

definition zero_repeated :: repeatedResult where
  "zero_repeated = \<lparr>rp_Passed = False, rp_Hits = 0, rp_Runs = 0, rp_Records = []\<rparr>"

definition zero_calibration :: calibrationResult where
  "zero_calibration = \<lparr>cb_Target = [], cb_Runs = 0, cb_Hits = 0, LatenciesMS = [], P95MS = 0, CandidateWindow = 0,
     cb_Passed = False, cb_FailureReason = [], cb_Records = []\<rparr>"

definition zero_volume :: volumeComparison where
  "zero_volume = \<lparr>ReferenceWindowMS = 0, MinimalWindowMS = 0, WindowsComparable = False, OriginalReference = [],
     MinimalReference = [], OriginalMessageFrames = 0, MinimalMessageFrames = 0, FrameReductionPercent = 0,
     OriginalAvgQSHFrames = 0, MinimalAvgQSHFrames = 0, QSHFrameReduction = 0, OriginalAvgQSHBytes = 0,
     MinimalAvgQSHBytes = 0, QSHByteReduction = 0\<rparr>"

section \<open>Repeated tests\<close>

definition repeat_candidate :: "targetKind \<Rightarrow> string \<Rightarrow> string \<Rightarrow> int list \<Rightarrow> privateMode \<Rightarrow> bool \<Rightarrow> int \<Rightarrow> int \<Rightarrow> candidate" where
  "repeat_candidate target stage control frameIDs private positiveOK window attempt =
     \<lparr>cd_stage = stage, cd_control = control, cd_target = target, cd_frameIDs = frameIDs, cd_zeroMasks = False,
      cd_private = private, cd_privateState = private_name private, cd_attempt = attempt, cd_positiveOK = positiveOK,
      cd_window = window\<rparr>"

text \<open>The loop; \<open>left\<close> is the number of rounds to go, \<^verbatim>\<open>runs - attempt + 1\<close>.  The flag of the result says whether the
  loop returned an error.\<close>

fun repeat_loop :: "'d device \<Rightarrow> (int \<Rightarrow> candidate) \<Rightarrow> int \<Rightarrow> int \<Rightarrow> nat \<Rightarrow> repeatedResult \<Rightarrow> 'd runner \<Rightarrow>
    ((repeatedResult \<times> err) \<times> 'd runner) option" where
  "repeat_loop D cand minimumHits attempt 0 result s = Some ((result, None), s)"
| "repeat_loop D cand minimumHits attempt (Suc left) result s = do {
     ((r, e), s) \<leftarrow> testCandidate D (cand attempt) s;
     let result = result\<lparr>rp_Records := rp_Records result @ [r], rp_Hits := count_if (rr_Result r) (rp_Hits result)\<rparr>;
     if e \<noteq> None then Some ((result, e), s)
     else let remaining = rp_Runs result - attempt in
       if rp_Hits result + remaining < minimumHits then Some ((result, None), s)
       else repeat_loop D cand minimumHits (attempt + 1) left result s }"

definition runRepeated :: "'d device \<Rightarrow> targetKind \<Rightarrow> string \<Rightarrow> string \<Rightarrow> int list \<Rightarrow> privateMode \<Rightarrow> int \<Rightarrow> int \<Rightarrow> bool \<Rightarrow> int \<Rightarrow>
    'd runner \<Rightarrow> ((repeatedResult \<times> err) \<times> 'd runner) option" where
  "runRepeated D target stage control frameIDs private runs minimumHits positiveOK window s = do {
     ((result, e), s) \<leftarrow> repeat_loop D (repeat_candidate target stage control frameIDs private positiveOK window) minimumHits
        1 (nat runs) (zero_repeated\<lparr>rp_Runs := runs\<rparr>) s;
     if e \<noteq> None then Some ((result, e), s)
     else Some ((result\<lparr>rp_Passed := (minimumHits \<le> rp_Hits result)\<rparr>, None), s) }"

section \<open>Calibration\<close>

text \<open>\<^verbatim>\<open>int(math.Ceil(0.95*float64(len(...)))) - 1\<close>, not below 0.\<close>

definition percentile_index :: "nat \<Rightarrow> int" where
  "percentile_index n = (let index = \<lceil>f64_mul (fl (95 / 100)) (fl (of_nat n))\<rceil> - 1 in if index < 0 then 0 else index)"

definition calibration_window :: "ddminOptions \<Rightarrow> int \<Rightarrow> int" where
  "calibration_window options p95 =
     (let window = wrap64 (wrap64 (p95 * Millisecond) + WindowMargin options);
          window = (if window < MinimumWindow options then MinimumWindow options else window)
      in if MaximumWindow options > 0 \<and> window > MaximumWindow options then MaximumWindow options else window)"

definition calibrate :: "'d device \<Rightarrow> ddminOptions \<Rightarrow> int list \<Rightarrow> 'd runner \<Rightarrow> ((calibrationResult \<times> err) \<times> 'd runner) option" where
  "calibrate D options allIDs s = do {
     ((repeated, e), s) \<leftarrow> runRepeated D (dm_Target options) ''positive-control'' ''batch-start-calibration'' allIDs PrivateBoth
        (CalibrationRuns options) (PositiveMinimumHit options) False (MaximumWindow options) s;
     let result = zero_calibration\<lparr>cb_Target := dm_Target options, cb_Runs := CalibrationRuns options, cb_Hits := rp_Hits repeated,
          cb_Records := rp_Records repeated,
          LatenciesMS := List.map_filter (\<lambda>r. if rr_Result r then FirstHitLatencyMS r else None) (rp_Records repeated)\<rparr>;
     case e of
       Some text \<Rightarrow> Some ((result\<lparr>cb_FailureReason := text\<rparr>, e), s)
     | None \<Rightarrow>
         if rp_Hits repeated < PositiveMinimumHit options \<or> LatenciesMS result = [] then
           (let reason = ''positive control hit '' @ Itoa (rp_Hits repeated) @ ''/'' @ Itoa (rp_Runs repeated) @
                ''; need at least '' @ Itoa (PositiveMinimumHit options)
            in Some ((result\<lparr>cb_FailureReason := reason\<rparr>, Some reason), s))
         else do {
           let sorted = sort (LatenciesMS result);
           p95 \<leftarrow> idx sorted (percentile_index (length sorted));
           Some ((result\<lparr>LatenciesMS := sorted, P95MS := p95,
                   CandidateWindow := Milliseconds (calibration_window options p95), cb_Passed := True\<rparr>, None), s) } }"

section \<open>Volumes\<close>

definition commonCaptureDuration :: "runRecord list \<Rightarrow> int" where
  "commonCaptureDuration records =
     (case records of
        [] \<Rightarrow> 0
      | r # rs \<Rightarrow> if list_all (\<lambda>q. CaptureDurationMS q = CaptureDurationMS r) rs then CaptureDurationMS r else 0)"

definition averageVolume :: "runRecord list \<Rightarrow> rat \<times> rat" where
  "averageVolume records =
     (if records = [] then (0, 0)
      else (f64_div (foldl (\<lambda>acc r. f64_add acc (fl (of_int (rr_QSHFrameCount r)))) 0 records) (fl (of_nat (length records))),
            f64_div (foldl (\<lambda>acc r. f64_add acc (fl (of_int (rr_QSHTotalBytes r)))) 0 records) (fl (of_nat (length records)))))"

text \<open>\<^verbatim>\<open>math.Round\<close> rounds half away from zero.\<close>

definition round_away :: "rat \<Rightarrow> int" where
  "round_away x = (if 0 \<le> x then \<lfloor>x + 1 / 2\<rfloor> else - \<lfloor>1 / 2 - x\<rfloor>)"

definition reductionPercent :: "rat \<Rightarrow> rat \<Rightarrow> rat" where
  "reductionPercent original reduced =
     (if original \<le> 0 then 0
      else f64_div (of_int (round_away (f64_mul (f64_sub 1 (f64_div reduced original)) 10000))) 100)"

definition compareVolumes :: "int \<Rightarrow> int \<Rightarrow> runRecord list \<Rightarrow> runRecord list \<Rightarrow> volumeComparison" where
  "compareVolumes originalFrames minimalFrames originalRuns minimalRuns =
     (let (oFrames, oBytes) = averageVolume originalRuns; (mFrames, mBytes) = averageVolume minimalRuns;
          refw = commonCaptureDuration originalRuns; minw = commonCaptureDuration minimalRuns;
          comparable = (refw > 0 \<and> refw = minw)
      in \<lparr>ReferenceWindowMS = refw, MinimalWindowMS = minw, WindowsComparable = comparable,
          OriginalReference = ''batch-end-positive-control'', MinimalReference = ''minimal-validation'',
          OriginalMessageFrames = originalFrames, MinimalMessageFrames = minimalFrames,
          FrameReductionPercent = reductionPercent (fl (of_int originalFrames)) (fl (of_int minimalFrames)),
          OriginalAvgQSHFrames = oFrames, MinimalAvgQSHFrames = mFrames,
          QSHFrameReduction = (if comparable then reductionPercent oFrames mFrames else 0),
          OriginalAvgQSHBytes = oBytes, MinimalAvgQSHBytes = mBytes,
          QSHByteReduction = (if comparable then reductionPercent oBytes mBytes else 0)\<rparr>)"

section \<open>The search\<close>

definition ddmin_defaults :: "ddminOptions \<Rightarrow> ddminOptions" where
  "ddmin_defaults options =
     (let options = (if CalibrationRuns options \<le> 0 then options\<lparr>CalibrationRuns := 10\<rparr> else options);
          options = (if PositiveMinimumHit options \<le> 0 then options\<lparr>PositiveMinimumHit := CalibrationRuns options\<rparr> else options);
          options = (if CandidateRepeats options \<le> 0 then options\<lparr>CandidateRepeats := 3\<rparr> else options)
      in if CandidateMinHits options \<le> 0 then options\<lparr>CandidateMinHits := 2\<rparr> else options)"

text \<open>The function literal given to \<^verbatim>\<open>ddmin\<close>.  A panic of a test would end the process; that it does not happen is proved
  below, so the value chosen for it is never taken.\<close>

definition candidate_oracle :: "'d device \<Rightarrow> ddminOptions \<Rightarrow> int \<Rightarrow> ('d runner, string, int) tester" where
  "candidate_oracle D options window s candidate =
     (case runRepeated D (dm_Target options) ''frame-ddmin'' [] candidate PrivateBoth
             (CandidateRepeats options) (CandidateMinHits options) True window s of
        None \<Rightarrow> (Inl ''panic'', s)
      | Some ((result, e), s) \<Rightarrow> (case e of Some text \<Rightarrow> Inl text | None \<Rightarrow> Inr (rp_Passed result), s))"

definition new_ddmin_summary :: "ddminOptions \<Rightarrow> int list \<Rightarrow> int \<Rightarrow> ddminSummary" where
  "new_ddmin_summary options allIDs now =
     \<lparr>ds_Stage = ''frame'', ds_Target = dm_Target options, ds_Started = now, ds_Completed = None,
      OriginalFrameIDs = allIDs, MinimalFrameIDs = [], MinimalSSIDs = [], ds_PrivateCommandState = private_name PrivateBoth,
      ds_ControlsReport = dm_ControlsReport options, Calibration = zero_calibration, EmptyCandidate = zero_repeated,
      MinimalValidation = zero_repeated, EndPositiveControl = zero_repeated, Volume = zero_volume,
      OutputConfig = [], OutputConfigFrameCount = 0,
      Notes = [''This is whole-frame ddmin only; SSID and mask-bit minimization have not yet been run.'',
               ''Both private 0x4b commands are resent for every candidate; their necessity is not inferred here.'']\<rparr>"

definition empty_note :: string where
  "empty_note = ''No 0x7d/0x04 message frame was required under this batch'' @ [CHR 0x27] @ ''s observed state; interpret together with controls and private-command persistence.''"

text \<open>The choice of the minimal frames: none if the empty candidate passed, otherwise what the search finds.\<close>

definition find_minimal :: "'d device \<Rightarrow> ddminOptions \<Rightarrow> int list \<Rightarrow> int \<Rightarrow> bool \<Rightarrow> 'd runner \<Rightarrow> ((string + int list) \<times> 'd runner) option" where
  "find_minimal D options allIDs window emptyPassed s =
     (if emptyPassed then Some (Inr [], s) else ddmin (candidate_oracle D options window) s allIDs)"

definition output_name :: "targetKind \<Rightarrow> string" where
  "output_name target =
     (if target = targetCombined then ''cell-neighbor-combined-frame-min.cfg'' else target @ ''-neighbor-frame-min.cfg'')"

text \<open>The end of \<^verbatim>\<open>run\<close>: the files and the summary of a search whose validations passed.\<close>

definition write_results :: "'d device \<Rightarrow> (ddminSummary \<Rightarrow> byte list) \<Rightarrow> ddminOptions \<Rightarrow> int list \<Rightarrow> int list \<Rightarrow> ddminSummary \<Rightarrow> 'd runner \<Rightarrow>
    ((ddminSummary \<times> err) \<times> 'd runner) option" where
  "write_results D marshal options allIDs current summary s = do {
     selected \<leftarrow> selectFrames (Config (opts s)) current False PrivateBoth;
     case selected of
       Inl e \<Rightarrow> Some ((summary, Some (cfg_error_text e)), s)
     | Inr frames \<Rightarrow>
         (let path = rw_dir (reports s) @ ''/'' @ output_name (dm_Target options);
              (w, s) = sys (dv_write D path) s;
              (e, fs) = writeFileAtomic w path (encodeConfig frames) (files s);
              s = s\<lparr>files := fs\<rparr> in
          case e of
            Some e \<Rightarrow> Some ((summary, Some e), s)
          | None \<Rightarrow>
              (let (now, s) = sys (dv_now D) s;
                   summary = summary\<lparr>OutputConfig := path, OutputConfigFrameCount := int (length frames),
                     Volume := compareVolumes (int (length allIDs)) (int (length current))
                       (rp_Records (EndPositiveControl summary)) (rp_Records (MinimalValidation summary)),
                     ds_Completed := Some now\<rparr>;
                   name = ''ddmin-'' @ dm_Target options @ ''-summary.json'';
                   (w, s) = sys (dv_write D (path_join (rw_dir (reports s)) name)) s;
                   (e, fs) = WriteSummary w name (marshal summary) (reports s) (files s)
               in Some ((summary, e), s\<lparr>files := fs\<rparr>))) }"

definition validate_minimal :: "'d device \<Rightarrow> (ddminSummary \<Rightarrow> byte list) \<Rightarrow> ddminOptions \<Rightarrow> int list \<Rightarrow> int list \<Rightarrow> int \<Rightarrow> ddminSummary \<Rightarrow> 'd runner \<Rightarrow>
    ((ddminSummary \<times> err) \<times> 'd runner) option" where
  "validate_minimal D marshal options allIDs current window summary s = do {
     let summary = summary\<lparr>MinimalFrameIDs := current, MinimalSSIDs := allSSIDs (Config (opts s)) current\<rparr>;
     ((valid, e), s) \<leftarrow> runRepeated D (dm_Target options) ''frame-ddmin-validation'' ''minimal'' current PrivateBoth
        (CandidateRepeats options) (CandidateMinHits options) True window s;
     let summary = summary\<lparr>MinimalValidation := valid\<rparr>;
     if e \<noteq> None then Some ((summary, e), s)
     else if \<not> rp_Passed valid then Some ((summary, Some ''final minimal candidate failed repeated validation''), s)
     else do {
       ((endControl, e), s) \<leftarrow> runRepeated D (dm_Target options) ''positive-control'' ''batch-end'' allIDs PrivateBoth
          (CandidateRepeats options) (CandidateMinHits options) True window s;
       let summary = summary\<lparr>EndPositiveControl := endControl\<rparr>;
       if e \<noteq> None then Some ((summary, e), s)
       else if \<not> rp_Passed endControl
       then Some ((summary, Some ''batch-end positive control failed; all candidate conclusions in this batch are invalid''), s)
       else write_results D marshal options allIDs current summary s } }"

definition run_search :: "'d device \<Rightarrow> (ddminSummary \<Rightarrow> byte list) \<Rightarrow> ddminOptions \<Rightarrow> int list \<Rightarrow> int \<Rightarrow> ddminSummary \<Rightarrow> 'd runner \<Rightarrow>
    ((ddminSummary \<times> err) \<times> 'd runner) option" where
  "run_search D marshal options allIDs window summary s = do {
     ((emptyCandidate, e), s) \<leftarrow> runRepeated D (dm_Target options) ''frame-ddmin'' ''empty-message-set'' [] PrivateBoth
        (CandidateRepeats options) (CandidateMinHits options) True window s;
     let summary = summary\<lparr>EmptyCandidate := emptyCandidate\<rparr>;
     if e \<noteq> None then Some ((summary, e), s)
     else do {
       (found, s) \<leftarrow> find_minimal D options allIDs window (rp_Passed emptyCandidate) s;
       case found of
         Inl text \<Rightarrow> Some ((summary, Some text), s)
       | Inr current \<Rightarrow>
           validate_minimal D marshal options allIDs current window
             (if rp_Passed emptyCandidate then summary\<lparr>Notes := Notes summary @ [empty_note]\<rparr> else summary) s } }"

definition run_ddmin :: "'d device \<Rightarrow> (byte list \<Rightarrow> string + controlsSummary) \<Rightarrow> (ddminSummary \<Rightarrow> byte list) \<Rightarrow> ddminOptions \<Rightarrow> 'd runner \<Rightarrow>
    ((ddminSummary option \<times> err) \<times> 'd runner) option" where
  "run_ddmin D unmarshal marshal options s =
     (case validateControlsReport unmarshal (files s) (dm_ControlsReport options) (dm_Target options) of
        Some e \<Rightarrow> Some ((None, Some e), s)
      | None \<Rightarrow> do {
          let options = ddmin_defaults options;
          let allIDs = allMessageFrameIDs (Config (opts s));
          let (now, s) = sys (dv_now D) s;
          let summary = new_ddmin_summary options allIDs now;
          ((calibration, e), s) \<leftarrow> calibrate D options allIDs s;
          let summary = summary\<lparr>Calibration := calibration\<rparr>;
          if e \<noteq> None then Some ((Some summary, e), s)
          else do {
            ((summary, e), s) \<leftarrow> run_search D marshal options allIDs (wrap64 (CandidateWindow calibration * Millisecond)) summary s;
            Some ((Some summary, e), s) } })"

section \<open>What repeated tests guarantee\<close>

text \<open>The result of a loop over tests whose records start with \<open>pre\<close>.\<close>

definition repeat_ok :: "int \<Rightarrow> int \<Rightarrow> repeatedResult \<Rightarrow> err \<Rightarrow> bool" where
  "repeat_ok runs minimumHits result e \<longleftrightarrow> rp_Runs result = runs \<and>
     rp_Hits result = int (length (filter rr_Result (rp_Records result))) \<and>
     int (length (rp_Records result)) \<le> max 0 runs \<and>
     (e = None \<longrightarrow> int (length (rp_Records result)) = max 0 runs \<or>
        rp_Hits result + (runs - int (length (rp_Records result))) < minimumHits)"

lemma repeat_loop_spec:
  assumes "config_inv (Config (opts s))" and "set ids \<subseteq> set (allMessageFrameIDs (Config (opts s)))"
    and "\<And>a. cd_frameIDs (cand a) = ids"
    and "rp_Hits result = int (length (filter rr_Result (rp_Records result)))"
    and "attempt = int (length (rp_Records result)) + 1" and "rp_Runs result = attempt - 1 + int left"
  shows "\<exists>result' e s'. repeat_loop D cand minimumHits attempt left result s = Some ((result', e), s') \<and>
    reducer_run D s s' \<and> grew UNIV s s' \<and> repeat_ok (rp_Runs result) minimumHits result' e \<and> rp_Passed result' = rp_Passed result"
  using assms
proof (induction left arbitrary: attempt result s)
  case 0
  then show ?case by (simp add: run_start repeat_ok_def)
next
  case (Suc left)
  obtain r e s1 where t: "testCandidate D (cand attempt) s = Some ((r, e), s1)" "tested (cand attempt) s r e s1"
    using testCandidate_spec [of s "cand attempt" D] Suc.prems by auto
  have g1: "grew UNIV s s1" using grew_any [OF tested_grew [OF t(2)]] .
  have r1: "reducer_run D s s1" using run_test [OF run_start _ t(1)] Suc.prems(2,3) by simp
  let ?res = "result\<lparr>rp_Records := rp_Records result @ [r], rp_Hits := count_if (rr_Result r) (rp_Hits result)\<rparr>"
  have hits: "rp_Hits ?res = int (length (filter rr_Result (rp_Records ?res)))" using Suc.prems(4) by (simp add: count_if_def)
  show ?case
  proof (cases "e \<noteq> None \<or> rp_Hits ?res + (rp_Runs result - attempt) < minimumHits")
    case True
    have "repeat_ok (rp_Runs result) minimumHits ?res e"
      using True hits Suc.prems(5,6) by (auto simp: repeat_ok_def)
    with True show ?thesis using t(1) g1 r1 by (cases e) (simp_all add: Let_def)
  next
    case False
    obtain result' e' s' where "repeat_loop D cand minimumHits (attempt + 1) left ?res s1 = Some ((result', e'), s')"
        "reducer_run D s1 s'" "grew UNIV s1 s'" "repeat_ok (rp_Runs ?res) minimumHits result' e'" "rp_Passed result' = rp_Passed ?res"
      using Suc.IH [of s1 ?res "attempt + 1"] Suc.prems g1 hits by (auto simp: grew_def)
    with False show ?thesis
      using t(1) reducer_run_trans [OF _ r1] grew_any_trans [OF g1] by (cases e) (auto simp: Let_def)
  qed
qed

definition repeated_ok :: "int \<Rightarrow> int \<Rightarrow> repeatedResult \<Rightarrow> err \<Rightarrow> bool" where
  "repeated_ok runs minimumHits result e \<longleftrightarrow> repeat_ok runs minimumHits result e \<and>
     rp_Passed result = (e = None \<and> minimumHits \<le> rp_Hits result)"

lemma runRepeated_spec:
  assumes "config_inv (Config (opts s))" and "set ids \<subseteq> set (allMessageFrameIDs (Config (opts s)))"
  shows "\<exists>result e s'. runRepeated D target stage control ids private runs minimumHits positiveOK window s = Some ((result, e), s') \<and>
    reducer_run D s s' \<and> grew UNIV s s' \<and> repeated_ok runs minimumHits result e"
proof (cases "runs < 0")
  case True
  then show ?thesis by (simp add: runRepeated_def repeated_ok_def repeat_ok_def zero_repeated_def run_start)
next
  case False
  let ?cand = "repeat_candidate target stage control ids private positiveOK window"
  have "\<And>a. cd_frameIDs (?cand a) = ids" by (simp add: repeat_candidate_def)
  note l = repeat_loop_spec [where cand = ?cand, OF assms(1,2) this, where attempt = 1 and left = "nat runs" and result = "zero_repeated\<lparr>rp_Runs := runs\<rparr>"]
  obtain result e s' where "repeat_loop D ?cand minimumHits 1 (nat runs) (zero_repeated\<lparr>rp_Runs := runs\<rparr>) s = Some ((result, e), s')"
      "reducer_run D s s'" "grew UNIV s s'" "repeat_ok runs minimumHits result e" "\<not> rp_Passed result"
    using l [of D minimumHits] False by (auto simp: zero_repeated_def)
  then show ?thesis by (cases e) (auto simp: runRepeated_def repeated_ok_def repeat_ok_def)
qed

section \<open>What the calibration guarantees\<close>

lemma fl_95: "fl (95 / 100) = 8556839292003942 / 9007199254740992"
  by code_simp

text \<open>The double 0.95 is a little below 19/20 and the product is rounded, but the ceiling is exact.\<close>

lemma percentile_index_exact:
  assumes "0 < n" and "n < 2 ^ 40"
  shows "percentile_index n = (19 * int n + 19) div 20 - 1"
proof -
  let ?c = "(19 * int n + 19) div 20"
  define x where "x = fl (95 / 100) * (of_nat n :: rat)"
  have n: "fl (of_nat n :: rat) = of_nat n" using fl_of_int [of "int n"] assms(2) by simp
  have lim: "(of_nat n :: rat) < 2 ^ 40" using assms(2) by (metis of_nat_less_iff of_nat_numeral of_nat_power)
  have q: "20 * ?c \<le> 19 * int n + 19" "19 * int n \<le> 20 * ?c" by linarith+
  have q': "(20 :: rat) * of_int ?c \<le> 19 * of_nat n + 19" "19 * of_nat n \<le> (20 :: rat) * of_int ?c"
    using q by (metis (mono_tags) of_int_le_iff of_int_add of_int_mult of_int_numeral of_int_of_nat_eq)+
  have x: "19 / 20 * of_nat n - of_nat n / 2 ^ 53 \<le> x" "x \<le> 19 / 20 * of_nat n" "0 \<le> x"
    unfolding x_def fl_95 by (simp_all add: field_simps)
  have "x \<le> of_nat n" using x(2) by simp
  then have "\<bar>x\<bar> < 2 ^ 53" using x(3) lim by simp
  moreover have "x \<le> of_int ?c" using x(2) q'(2) by linarith
  ultimately have "fl x \<le> of_int ?c" by (rule fl_int_bounds(2))
  moreover have "of_int (?c - 1) < fl x"
  proof -
    have "x - x / 2 ^ 53 \<le> fl x" using fl_error [of x] x(3) by linarith
    moreover have "x / 2 ^ 53 \<le> of_nat n / 2 ^ 53" using x(2) by (intro divide_right_mono) auto
    moreover have "(of_nat n :: rat) / 2 ^ 53 < 1 / 100" using lim by (simp add: field_simps)
    ultimately show ?thesis using x(1) q'(1) by simp
  qed
  ultimately have "\<lceil>fl x\<rceil> = ?c" by (intro ceiling_unique) simp_all
  moreover have "1 \<le> ?c" using assms(1) by linarith
  ultimately show ?thesis unfolding percentile_index_def f64_mul_def n x_def [symmetric] Let_def by simp
qed

text \<open>What a calibration that passed has computed.\<close>

definition calibrated :: "ddminOptions \<Rightarrow> calibrationResult \<Rightarrow> bool" where
  "calibrated options result \<longleftrightarrow>
     (let ls = LatenciesMS result in sorted ls \<and> ls \<noteq> [] \<and>
        mset ls = mset (List.map_filter (\<lambda>r. if rr_Result r then FirstHitLatencyMS r else None) (cb_Records result)) \<and>
        P95MS result = ls ! nat ((19 * int (length ls) + 19) div 20 - 1) \<and>
        CandidateWindow result = Milliseconds (calibration_window options (P95MS result)) \<and>
        PositiveMinimumHit options \<le> cb_Hits result \<and> cb_Passed result)"

lemma length_map_filter: "length (List.map_filter f xs) \<le> length xs"
  by (induction xs) (simp_all add: map_filter_simps split: option.split)

lemma calibrate_spec:
  assumes "config_inv (Config (opts s))" and "CalibrationRuns options < 2 ^ 40"
  shows "\<exists>result e s'. calibrate D options (allMessageFrameIDs (Config (opts s))) s = Some ((result, e), s') \<and>
    reducer_run D s s' \<and> grew UNIV s s' \<and> (e = None \<longrightarrow> calibrated options result)"
proof -
  let ?ids = "allMessageFrameIDs (Config (opts s))"
  obtain rep e s' where r: "runRepeated D (dm_Target options) ''positive-control'' ''batch-start-calibration'' ?ids PrivateBoth
        (CalibrationRuns options) (PositiveMinimumHit options) False (MaximumWindow options) s = Some ((rep, e), s')"
      and g: "reducer_run D s s'" "grew UNIV s s'" and ok: "repeated_ok (CalibrationRuns options) (PositiveMinimumHit options) rep e"
    using runRepeated_spec [OF assms(1) subset_refl] by blast
  let ?ls = "List.map_filter (\<lambda>r. if rr_Result r then FirstHitLatencyMS r else None) (rp_Records rep)"
  show ?thesis
  proof (cases "e = None \<and> PositiveMinimumHit options \<le> rp_Hits rep \<and> ?ls \<noteq> []")
    case True
    let ?n = "length ?ls"
    have "int ?n \<le> int (length (rp_Records rep))" using length_map_filter by (metis of_nat_le_iff)
    moreover have "int (length (rp_Records rep)) \<le> max 0 (CalibrationRuns options)"
      using ok by (simp add: repeated_ok_def repeat_ok_def)
    ultimately have "int ?n < 2 ^ 40" using assms(2) by simp
    then have "?n < 2 ^ 40" by (metis of_nat_less_iff of_nat_numeral of_nat_power)
    moreover have "0 < ?n" using True by simp
    ultimately have p: "percentile_index ?n = (19 * int ?n + 19) div 20 - 1" by (intro percentile_index_exact)
    have "0 \<le> (19 * int ?n + 19) div 20 - 1" "(19 * int ?n + 19) div 20 - 1 < int ?n" using \<open>0 < ?n\<close> by linarith+
    then have i: "idx (sort ?ls) (percentile_index ?n) = Some (sort ?ls ! nat ((19 * int ?n + 19) div 20 - 1))"
      by (simp add: idx_def p)
    have "sort ?ls \<noteq> []" using True by (metis length_0_conv length_sort)
    then show ?thesis
      using True r g i by (simp add: calibrate_def calibrated_def zero_calibration_def Let_def)
  next
    case False
    then show ?thesis using r g by (cases e) (auto simp: calibrate_def zero_calibration_def Let_def)
  qed
qed

lemma sorted_rank:
  assumes "sorted ls" and "k < length ls"
  shows "k + 1 \<le> length (filter (\<lambda>l. l \<le> ls ! k) ls)"
proof -
  have "filter (\<lambda>l. l \<le> ls ! k) (take (k + 1) ls) = take (k + 1) ls"
    using assms by (auto simp: filter_id_conv in_set_conv_nth less_Suc_eq_le sorted_nth_mono)
  then have "k + 1 = length (filter (\<lambda>l. l \<le> ls ! k) (take (k + 1) ls))" using assms(2) by simp
  also have "\<dots> \<le> length (filter (\<lambda>l. l \<le> ls ! k) (take (k + 1) ls @ drop (k + 1) ls))" by (simp only: filter_append length_append)
  finally show ?thesis by simp
qed

lemma rank_bounds:
  assumes "0 < n" and "k = nat ((19 * int n + 19) div 20 - 1)"
  shows "k < n" "19 * n \<le> 20 * (k + 1)"
proof -
  have c: "1 \<le> (19 * int n + 19) div 20" "(19 * int n + 19) div 20 \<le> int n" "19 * int n \<le> 20 * ((19 * int n + 19) div 20)"
    using assms(1) by linarith+
  have "int k + 1 = (19 * int n + 19) div 20" using c(1) by (simp add: assms(2))
  with c(2,3) have "int k + 1 \<le> int n" "19 * int n \<le> 20 * (int k + 1)" by simp_all
  then have "int (k + 1) \<le> int n" "int (19 * n) \<le> int (20 * (k + 1))" by (simp_all add: algebra_simps)
  then show "k < n" "19 * n \<le> 20 * (k + 1)" unfolding of_nat_le_iff by simp_all
qed

lemma calibration_window_bounds:
  assumes "0 < MinimumWindow options" and "MinimumWindow options \<le> MaximumWindow options"
  shows "MinimumWindow options \<le> calibration_window options p" "calibration_window options p \<le> MaximumWindow options"
  using assms by (auto simp: calibration_window_def Let_def)

section \<open>The oracle of the search\<close>

text \<open>Whatever the device answers, a test by the oracle leaves a state the tool can reach, so the search does too.\<close>

interpretation runner_oracle: stateful_tester "candidate_oracle D options window"
  "\<lambda>u. config_inv (Config (opts s)) \<and> reducer_run D s u \<and> grew UNIV s u"
  "\<lambda>c. set c \<subseteq> set (allMessageFrameIDs (Config (opts s)))" for D options window s
proof
  fix u c
  assume inv: "config_inv (Config (opts s)) \<and> reducer_run D s u \<and> grew UNIV s u" and c: "set c \<subseteq> set (allMessageFrameIDs (Config (opts s)))"
  then have "opts u = opts s" by (simp add: grew_def)
  then obtain result e t where "runRepeated D (dm_Target options) ''frame-ddmin'' [] c PrivateBoth
      (CandidateRepeats options) (CandidateMinHits options) True window u = Some ((result, e), t)" "reducer_run D u t" "grew UNIV u t"
    using runRepeated_spec [of u c] inv c by (metis (no_types))
  then show "config_inv (Config (opts s)) \<and> reducer_run D s (snd (candidate_oracle D options window u c)) \<and>
      grew UNIV s (snd (candidate_oracle D options window u c))"
    using inv reducer_run_trans grew_any_trans by (auto simp: candidate_oracle_def)
next
  fix c c' assume "set c \<subseteq> set (allMessageFrameIDs (Config (opts s)))" "subseq c' c"
  then show "set c' \<subseteq> set (allMessageFrameIDs (Config (opts s)))" using list_emb_set [of "(=)" c' c] by auto
qed

lemma ddmin_returns: "\<exists>r s'. ddmin test s items = Some (r, s')"
  using ddmin_loop_terminates [of 2] by (auto simp: ddmin_def)

text \<open>The candidate the search settles on: nothing, everything, or a choice the oracle accepted in some state.\<close>

definition accepted_candidate :: "'d device \<Rightarrow> ddminOptions \<Rightarrow> int \<Rightarrow> int list \<Rightarrow> int list \<Rightarrow> bool" where
  "accepted_candidate D options window allIDs current \<longleftrightarrow> subseq current allIDs \<and>
     (current = [] \<or> current = allIDs \<or> (\<exists>u v. candidate_oracle D options window u current = (Inr True, v)))"

lemma find_minimal_spec:
  assumes "config_inv (Config (opts s))" and "allIDs = allMessageFrameIDs (Config (opts s))"
  shows "\<exists>r s'. find_minimal D options allIDs window emptyPassed s = Some (r, s') \<and> reducer_run D s s' \<and> grew UNIV s s' \<and>
    (\<forall>current. r = Inr current \<longrightarrow> accepted_candidate D options window allIDs current \<and> (emptyPassed \<longrightarrow> current = []))"
proof (cases emptyPassed)
  case True
  then show ?thesis by (simp add: find_minimal_def run_start accepted_candidate_def)
next
  case False
  obtain r s' where d: "ddmin (candidate_oracle D options window) s allIDs = Some (r, s')"
    using ddmin_returns [of "candidate_oracle D options window" s allIDs] by blast
  have "config_inv (Config (opts s)) \<and> reducer_run D s s \<and> grew UNIV s s" using assms run_start by simp
  then have "reducer_run D s s' \<and> grew UNIV s s'"
    using runner_oracle.ddmin_keeps [OF _ _ d] assms(2) by simp
  moreover have "accepted_candidate D options window allIDs current" if "r = Inr current" for current
    using d that ddmin_loop_result [of 2 "candidate_oracle D options window" s allIDs current s']
    by (auto simp: accepted_candidate_def ddmin_def split: if_splits)
  ultimately show ?thesis using d False by (simp add: find_minimal_def)
qed

section \<open>What the whole search guarantees\<close>

text \<open>\<^verbatim>\<open>os.CreateTemp\<close> answers names of its pattern, so a temporary file is never one of the results.\<close>

definition temp_names :: "'d device \<Rightarrow> bool" where
  "temp_names D \<longleftrightarrow> (\<forall>path d. temp_ok (fst (dv_write D path d)))"

lemma output_not_temp:
  assumes "target \<in> {targetNR, targetLTE, targetCombined}"
  shows "\<not> is_temp (dir @ ''/'' @ output_name target)"
proof -
  have "CHR ''/'' \<notin> set (output_name target)" using assms by (auto simp: output_name_def targetNR_def targetLTE_def targetCombined_def)
  from base_name_append [OF this] show ?thesis using assms
    by (auto simp: is_temp_def HasPrefix_def output_name_def targetNR_def targetLTE_def targetCombined_def)
qed

lemma summary_not_temp:
  assumes "target \<in> {targetNR, targetLTE, targetCombined}"
  shows "\<not> is_temp (path_join dir (''ddmin-'' @ target @ ''-summary.json''))"
proof -
  let ?n = "''ddmin-'' @ target @ ''-summary.json''"
  have n: "CHR ''/'' \<notin> set ?n" "\<not> HasPrefix ?n ''.u60-qtrace-''" "?n \<noteq> []"
    using assms by (auto simp: HasPrefix_def targetNR_def targetLTE_def targetCombined_def)
  then have "base_name (path_join dir ?n) = ?n"
    using base_name_join [OF n(3), of dir] by (simp add: base_name_def split_on_no_sep)
  with n(2) show ?thesis by (simp add: is_temp_def)
qed

lemma output_not_summary: "dir @ ''/'' @ output_name target \<noteq> path_join dir' (''ddmin-'' @ target @ ''-summary.json'')"
proof
  assume e: "dir @ ''/'' @ output_name target = path_join dir' (''ddmin-'' @ target @ ''-summary.json'')"
  have "last (dir @ ''/'' @ output_name target) = CHR ''g''" by (simp add: output_name_def)
  moreover have "last (path_join dir' (''ddmin-'' @ target @ ''-summary.json'')) = CHR ''n''" by (simp add: path_join_def)
  ultimately have "CHR ''g'' = CHR ''n''" unfolding e by argo
  then show False by simp
qed

text \<open>The results of a search that succeeded, in the summary and in the file of the minimal configuration.\<close>

definition search_done :: "'d device \<Rightarrow> ddminOptions \<Rightarrow> qtraceConfig \<Rightarrow> int \<Rightarrow> ddminSummary \<Rightarrow> 'd runner \<Rightarrow> bool" where
  "search_done D options config window summary s' \<longleftrightarrow>
     accepted_candidate D options window (allMessageFrameIDs config) (MinimalFrameIDs summary) \<and>
     repeated_ok (CandidateRepeats options) (CandidateMinHits options) (MinimalValidation summary) None \<and>
     rp_Passed (MinimalValidation summary) \<and>
     repeated_ok (CandidateRepeats options) (CandidateMinHits options) (EndPositiveControl summary) None \<and>
     rp_Passed (EndPositiveControl summary) \<and>
     MinimalSSIDs summary = allSSIDs config (MinimalFrameIDs summary) \<and> ds_Completed summary \<noteq> None \<and>
     (\<exists>frames. selectFrames config (MinimalFrameIDs summary) False PrivateBoth = Some (Inr frames) \<and>
        OutputConfigFrameCount summary = int (length frames) \<and>
        visible (files s') (OutputConfig summary) = Some (encodeConfig frames))"

lemma write_results_spec:
  assumes inv: "config_inv (Config (opts s))" and ids: "subseq current allIDs" "allIDs = allMessageFrameIDs (Config (opts s))"
    and D: "temp_names D" and t: "dm_Target options \<in> {targetNR, targetLTE, targetCombined}"
  shows "\<exists>summary' e s'. write_results D marshal options allIDs current summary s = Some ((summary', e), s') \<and>
    reducer_run D s s' \<and> grew UNIV s s' \<and>
    (e = None \<longrightarrow> (\<exists>frames. selectFrames (Config (opts s)) current False PrivateBoth = Some (Inr frames) \<and>
       OutputConfigFrameCount summary' = int (length frames) \<and> ds_Completed summary' \<noteq> None \<and>
       visible (files s') (OutputConfig summary') = Some (encodeConfig frames) \<and>
       summary' = summary\<lparr>OutputConfig := OutputConfig summary', OutputConfigFrameCount := OutputConfigFrameCount summary',
         Volume := Volume summary', ds_Completed := ds_Completed summary'\<rparr>))"
proof -
  have "set current \<subseteq> set (allMessageFrameIDs (Config (opts s)))" using ids list_emb_set [of "(=)" current allIDs] by auto
  then obtain frames where sel: "selectFrames (Config (opts s)) current False PrivateBoth = Some (Inr frames)"
    using selectFrames_ok [OF inv] by metis
  let ?path = "rw_dir (reports s) @ ''/'' @ output_name (dm_Target options)" and ?name = "''ddmin-'' @ dm_Target options @ ''-summary.json''"
  define w1 d1 where w1: "w1 = fst (dv_write D ?path (dev s))" and d1: "d1 = snd (dv_write D ?path (dev s))"
  obtain e1 fs1 where f1: "writeFileAtomic w1 ?path (encodeConfig frames) (files s) = (e1, fs1)" by fastforce
  define now d2 where now: "now = fst (dv_now D d1)" and d2: "d2 = snd (dv_now D d1)"
  let ?sum = "summary\<lparr>OutputConfig := ?path, OutputConfigFrameCount := int (length frames),
      Volume := compareVolumes (int (length allIDs)) (int (length current))
        (rp_Records (EndPositiveControl summary)) (rp_Records (MinimalValidation summary)), ds_Completed := Some now\<rparr>"
  define w2 d3 where w2: "w2 = fst (dv_write D (path_join (rw_dir (reports s)) ?name) d2)"
    and d3: "d3 = snd (dv_write D (path_join (rw_dir (reports s)) ?name) d2)"
  obtain e2 fs2 where f2: "WriteSummary w2 ?name (marshal ?sum) (reports s) fs1 = (e2, fs2)" by fastforce
  have ok: "temp_ok w1" "temp_ok w2" using D by (simp_all add: temp_names_def w1 w2)
  have vis: "e1 = None \<Longrightarrow> visible fs2 ?path = Some (encodeConfig frames)"
  proof -
    assume "e1 = None"
    then have "visible fs1 ?path = Some (encodeConfig frames)"
      using fstore.read_back [OF ok(1) output_not_temp [OF t, of "rw_dir (reports s)"], where v = "encodeConfig frames" and s = "files s"] f1 by simp
    moreover have "visible fs2 ?path = visible fs1 ?path"
      using fstore.others_kept [OF ok(2) summary_not_temp [OF t] output_not_summary, where s = fs1] f2
      unfolding WriteSummary_def by (metis snd_conv)
    ultimately show ?thesis by simp
  qed
  have io: "reducer_run D s (s\<lparr>dev := d, files := fs\<rparr>)" "grew UNIV s (s\<lparr>dev := d, files := fs\<rparr>)" for d fs
    using run_io [OF run_start] by (auto simp: grew_def applied_def)
  show ?thesis
  proof (cases e1)
    case (Some x)
    then have "write_results D marshal options allIDs current summary s = Some ((summary, Some x), s\<lparr>dev := d1, files := fs1\<rparr>)"
      using f1 by (simp add: write_results_def sel sys_eq Let_def w1 d1 del: append.simps)
    then show ?thesis using io by blast
  next
    case None
    then have "write_results D marshal options allIDs current summary s = Some ((?sum, e2), s\<lparr>dev := d3, files := fs2\<rparr>)"
      using f1 f2 by (simp add: write_results_def sel sys_eq Let_def w1 d1 now d2 w2 d3 del: append.simps)
    then show ?thesis using io [where d = d3 and fs = fs2] vis [OF None] sel
      by (intro exI [of _ ?sum] exI [of _ e2] exI [of _ "s\<lparr>dev := d3, files := fs2\<rparr>"]) (simp del: append.simps)
  qed
qed

lemma validate_minimal_spec:
  assumes inv: "config_inv (Config (opts s))" and acc: "accepted_candidate D options window allIDs current"
    and ids: "allIDs = allMessageFrameIDs (Config (opts s))"
    and D: "temp_names D" and t: "dm_Target options \<in> {targetNR, targetLTE, targetCombined}"
  shows "\<exists>summary' e s'. validate_minimal D marshal options allIDs current window summary s = Some ((summary', e), s') \<and>
    reducer_run D s s' \<and> grew UNIV s s' \<and>
    (e = None \<longrightarrow> search_done D options (Config (opts s)) window summary' s' \<and> MinimalFrameIDs summary' = current \<and>
       Calibration summary' = Calibration summary \<and> EmptyCandidate summary' = EmptyCandidate summary \<and>
       OriginalFrameIDs summary' = OriginalFrameIDs summary)"
proof -
  have sub: "subseq current allIDs" using acc by (simp add: accepted_candidate_def)
  then have set: "set current \<subseteq> set (allMessageFrameIDs (Config (opts s)))" using ids list_emb_set [of "(=)" current allIDs] by auto
  let ?sum1 = "summary\<lparr>MinimalFrameIDs := current, MinimalSSIDs := allSSIDs (Config (opts s)) current\<rparr>"
  obtain v e1 s1 where v: "runRepeated D (dm_Target options) ''frame-ddmin-validation'' ''minimal'' current PrivateBoth
        (CandidateRepeats options) (CandidateMinHits options) True window s = Some ((v, e1), s1)"
      "reducer_run D s s1" "grew UNIV s s1" "repeated_ok (CandidateRepeats options) (CandidateMinHits options) v e1"
    using runRepeated_spec [OF inv set] by blast
  have o1: "opts s1 = opts s" using v(3) by (simp add: grew_def)
  obtain c e2 s2 where c: "runRepeated D (dm_Target options) ''positive-control'' ''batch-end'' allIDs PrivateBoth
        (CandidateRepeats options) (CandidateMinHits options) True window s1 = Some ((c, e2), s2)"
      "reducer_run D s1 s2" "grew UNIV s1 s2" "repeated_ok (CandidateRepeats options) (CandidateMinHits options) c e2"
    using runRepeated_spec [of s1 allIDs D] inv o1 ids by (metis (no_types) subset_refl)
  let ?sum2 = "?sum1\<lparr>MinimalValidation := v\<rparr>" and ?sum3 = "?sum1\<lparr>MinimalValidation := v, EndPositiveControl := c\<rparr>"
  have o2: "opts s2 = opts s" using c(3) o1 by (simp add: grew_def)
  have g2: "reducer_run D s s2" "grew UNIV s s2" using reducer_run_trans [OF c(2) v(2)] grew_any_trans [OF v(3) c(3)] by auto
  have inv2: "config_inv (Config (opts s2))" "allIDs = allMessageFrameIDs (Config (opts s2))" using inv ids o2 by simp_all
  obtain sm e3 s3 where w: "write_results D marshal options allIDs current ?sum3 s2 = Some ((sm, e3), s3)"
      "reducer_run D s2 s3" "grew UNIV s2 s3"
      "e3 = None \<longrightarrow> (\<exists>frames. selectFrames (Config (opts s2)) current False PrivateBoth = Some (Inr frames) \<and>
       OutputConfigFrameCount sm = int (length frames) \<and> ds_Completed sm \<noteq> None \<and>
       visible (files s3) (OutputConfig sm) = Some (encodeConfig frames) \<and>
       sm = ?sum3\<lparr>OutputConfig := OutputConfig sm, OutputConfigFrameCount := OutputConfigFrameCount sm,
         Volume := Volume sm, ds_Completed := ds_Completed sm\<rparr>)"
    using write_results_spec [OF inv2(1) sub inv2(2) D t, of marshal ?sum3] by (elim exE conjE) (rule that)
  consider (e1) "e1 \<noteq> None \<or> \<not> rp_Passed v" | (e2) "e1 = None" "rp_Passed v" "e2 \<noteq> None \<or> \<not> rp_Passed c"
    | (ok) "e1 = None" "rp_Passed v" "e2 = None" "rp_Passed c" by blast
  then show ?thesis
  proof cases
    case e1
    then show ?thesis using v by (auto simp: validate_minimal_def Let_def)
  next
    case e2
    then show ?thesis using v(1) c(1) g2 by (auto simp: validate_minimal_def Let_def)
  next
    case ok
    have run: "validate_minimal D marshal options allIDs current window summary s = Some ((sm, e3), s3)"
      using ok v(1) c(1) w(1) by (simp add: validate_minimal_def Let_def)
    have "search_done D options (Config (opts s)) window sm s3 \<and> MinimalFrameIDs sm = current \<and>
       Calibration sm = Calibration summary \<and> EmptyCandidate sm = EmptyCandidate summary \<and> OriginalFrameIDs sm = OriginalFrameIDs summary"
      if "e3 = None"
    proof -
      from w(4) that obtain frames where f: "selectFrames (Config (opts s)) current False PrivateBoth = Some (Inr frames)"
         "OutputConfigFrameCount sm = int (length frames)" "ds_Completed sm \<noteq> None" "visible (files s3) (OutputConfig sm) = Some (encodeConfig frames)"
        and sm: "sm = ?sum3\<lparr>OutputConfig := OutputConfig sm, OutputConfigFrameCount := OutputConfigFrameCount sm,
         Volume := Volume sm, ds_Completed := ds_Completed sm\<rparr>" using o2 by auto
      have "MinimalFrameIDs sm = current" "MinimalSSIDs sm = allSSIDs (Config (opts s)) current" "MinimalValidation sm = v"
        "EndPositiveControl sm = c" "Calibration sm = Calibration summary" "EmptyCandidate sm = EmptyCandidate summary"
        "OriginalFrameIDs sm = OriginalFrameIDs summary"
        by (subst sm, simp)+
      then show ?thesis using f acc ids ok v(4) c(4) by (simp add: search_done_def)
    qed
    then show ?thesis using run reducer_run_trans [OF w(2) g2(1)] grew_any_trans [OF g2(2) w(3)] by blast
  qed
qed

lemma run_search_spec:
  assumes inv: "config_inv (Config (opts s))" and ids: "allIDs = allMessageFrameIDs (Config (opts s))"
    and D: "temp_names D" and t: "dm_Target options \<in> {targetNR, targetLTE, targetCombined}"
  shows "\<exists>summary' e s'. run_search D marshal options allIDs window summary s = Some ((summary', e), s') \<and>
    reducer_run D s s' \<and>
    (e = None \<longrightarrow> search_done D options (Config (opts s)) window summary' s' \<and> Calibration summary' = Calibration summary \<and>
       OriginalFrameIDs summary' = OriginalFrameIDs summary \<and>
       (rp_Passed (EmptyCandidate summary') \<longrightarrow> MinimalFrameIDs summary' = []))"
proof -
  obtain v e1 s1 where v: "runRepeated D (dm_Target options) ''frame-ddmin'' ''empty-message-set'' [] PrivateBoth
        (CandidateRepeats options) (CandidateMinHits options) True window s = Some ((v, e1), s1)"
      "reducer_run D s s1" "grew UNIV s s1"
    using runRepeated_spec [OF inv, of "[]" D] by (metis (no_types) empty_subsetI list.set(1))
  have o1: "opts s1 = opts s" using v(3) by (simp add: grew_def)
  then have inv1: "config_inv (Config (opts s1))" "allIDs = allMessageFrameIDs (Config (opts s1))" using inv ids by simp_all
  obtain r s2 where m: "find_minimal D options allIDs window (rp_Passed v) s1 = Some (r, s2)" "reducer_run D s1 s2" "grew UNIV s1 s2"
      "\<forall>current. r = Inr current \<longrightarrow> accepted_candidate D options window allIDs current \<and> (rp_Passed v \<longrightarrow> current = [])"
    using find_minimal_spec [OF inv1] by blast
  have g2: "reducer_run D s s2" using reducer_run_trans [OF m(2) v(2)] .
  have o2: "opts s2 = opts s" using m(3) o1 by (simp add: grew_def)
  let ?sum = "summary\<lparr>EmptyCandidate := v\<rparr>"
  let ?sum2 = "if rp_Passed v then ?sum\<lparr>Notes := Notes ?sum @ [empty_note]\<rparr> else ?sum"
  show ?thesis
  proof (cases "e1 = None \<and> \<not> isl r")
    case False
    then show ?thesis using v(1,2) m(1) g2 by (cases e1; cases r) (auto simp: run_search_def Let_def)
  next
    case True
    then obtain current where r: "r = Inr current" by (cases r) auto
    with m(4) have acc: "accepted_candidate D options window allIDs current" "rp_Passed v \<longrightarrow> current = []" by auto
    have inv2: "config_inv (Config (opts s2))" "allIDs = allMessageFrameIDs (Config (opts s2))" using inv ids o2 by simp_all
    obtain sm e3 s3 where w: "validate_minimal D marshal options allIDs current window ?sum2 s2 = Some ((sm, e3), s3)" "reducer_run D s2 s3"
        "e3 = None \<longrightarrow> search_done D options (Config (opts s2)) window sm s3 \<and> MinimalFrameIDs sm = current \<and>
          Calibration sm = Calibration ?sum2 \<and> EmptyCandidate sm = EmptyCandidate ?sum2 \<and> OriginalFrameIDs sm = OriginalFrameIDs ?sum2"
      using validate_minimal_spec [OF inv2(1) acc(1) inv2(2) D t, of marshal ?sum2] by (elim exE conjE) (rule that)
    have "run_search D marshal options allIDs window summary s = Some ((sm, e3), s3)"
      using True r v(1) m(1) w(1) by (simp add: run_search_def Let_def)
    then show ?thesis using w(3) o2 acc(2) reducer_run_trans [OF w(2) g2] by (auto split: if_splits)
  qed
qed

lemma run_ddmin_spec:
  assumes inv: "config_inv (Config (opts s))" and D: "temp_names D"
    and t: "dm_Target options \<in> {targetNR, targetLTE, targetCombined}" and runs: "CalibrationRuns (ddmin_defaults options) < 2 ^ 40"
  shows "\<exists>sm e s'. run_ddmin D unmarshal marshal options s = Some ((sm, e), s') \<and> reducer_run D s s' \<and>
    (e = None \<longrightarrow> (\<exists>summary frames. sm = Some summary \<and>
      validateControlsReport unmarshal (files s) (dm_ControlsReport options) (dm_Target options) = None \<and>
      PositiveMinimumHit (ddmin_defaults options) \<le> cb_Hits (Calibration summary) \<and>
      OriginalFrameIDs summary = allMessageFrameIDs (Config (opts s)) \<and>
      subseq (MinimalFrameIDs summary) (OriginalFrameIDs summary) \<and>
      accepted_candidate D (ddmin_defaults options) (wrap64 (CandidateWindow (Calibration summary) * Millisecond))
        (OriginalFrameIDs summary) (MinimalFrameIDs summary) \<and>
      (rp_Passed (EmptyCandidate summary) \<longrightarrow> MinimalFrameIDs summary = []) \<and>
      CandidateMinHits (ddmin_defaults options) \<le> int (length (filter rr_Result (rp_Records (MinimalValidation summary)))) \<and>
      CandidateMinHits (ddmin_defaults options) \<le> int (length (filter rr_Result (rp_Records (EndPositiveControl summary)))) \<and>
      selectFrames (Config (opts s)) (MinimalFrameIDs summary) False PrivateBoth = Some (Inr frames) \<and>
      visible (files s') (OutputConfig summary) = Some (encodeConfig frames)))"
proof (cases "validateControlsReport unmarshal (files s) (dm_ControlsReport options) (dm_Target options)")
  case (Some e)
  then show ?thesis by (simp add: run_ddmin_def run_start)
next
  case None
  let ?o = "ddmin_defaults options" and ?ids = "allMessageFrameIDs (Config (opts s))"
  define now d where now: "now = fst (dv_now D (dev s))" and d: "d = snd (dv_now D (dev s))"
  define s1 where s1: "s1 = s\<lparr>dev := d\<rparr>"
  have o1: "opts s1 = opts s" by (simp add: s1)
  have r1: "reducer_run D s s1" using run_io [OF run_start, where D = D and s = s and d = d and fs = "files s"] by (simp add: s1)
  obtain cal e2 s2 where c: "calibrate D ?o ?ids s1 = Some ((cal, e2), s2)" "reducer_run D s1 s2" "grew UNIV s1 s2" "e2 = None \<longrightarrow> calibrated ?o cal"
    using calibrate_spec [of s1 ?o D] inv runs o1 by auto
  have r2: "reducer_run D s s2" using reducer_run_trans [OF c(2) r1] .
  have o2: "opts s2 = opts s" using c(3) o1 by (simp add: grew_def)
  let ?sum = "(new_ddmin_summary ?o ?ids now)\<lparr>Calibration := cal\<rparr>" and ?w = "wrap64 (CandidateWindow cal * Millisecond)"
  have t2: "dm_Target ?o \<in> {targetNR, targetLTE, targetCombined}" using t by (simp add: ddmin_defaults_def Let_def)
  obtain sm e3 s3 where w: "run_search D marshal ?o ?ids ?w ?sum s2 = Some ((sm, e3), s3)" "reducer_run D s2 s3"
      "e3 = None \<longrightarrow> search_done D ?o (Config (opts s2)) ?w sm s3 \<and> Calibration sm = Calibration ?sum \<and>
       OriginalFrameIDs sm = OriginalFrameIDs ?sum \<and> (rp_Passed (EmptyCandidate sm) \<longrightarrow> MinimalFrameIDs sm = [])"
    using run_search_spec [OF _ _ D t2, where s = s2 and allIDs = ?ids and marshal = marshal and window = ?w and summary = ?sum] inv o2
    by (elim exE conjE meta_impE) (simp, simp, rule that)
  show ?thesis
  proof (cases e2)
    case (Some x)
    then have "run_ddmin D unmarshal marshal options s = Some ((Some ?sum, Some x), s2)"
      using None c(1) by (simp add: run_ddmin_def sys_eq Let_def s1 now d)
    with r2 show ?thesis by blast
  next
    case e2: None
    then have run: "run_ddmin D unmarshal marshal options s = Some ((Some sm, e3), s3)"
      using None c(1) w(1) by (simp add: run_ddmin_def sys_eq Let_def s1 now d)
    have r3: "reducer_run D s s3" using reducer_run_trans [OF w(2) r2] .
    show ?thesis
    proof (cases e3)
      case (Some x)
      with run r3 show ?thesis by auto
    next
      case e3: None
      then have f: "search_done D ?o (Config (opts s)) ?w sm s3" "Calibration sm = cal" "OriginalFrameIDs sm = ?ids"
          "rp_Passed (EmptyCandidate sm) \<longrightarrow> MinimalFrameIDs sm = []"
        using w(3) o2 by (simp_all add: new_ddmin_summary_def)
      then obtain frames where "selectFrames (Config (opts s)) (MinimalFrameIDs sm) False PrivateBoth = Some (Inr frames)"
          "visible (files s3) (OutputConfig sm) = Some (encodeConfig frames)"
        by (auto simp: search_done_def)
      moreover have "PositiveMinimumHit ?o \<le> cb_Hits cal" using c(4) e2 by (simp add: calibrated_def Let_def)
      moreover have "subseq (MinimalFrameIDs sm) ?ids" "accepted_candidate D ?o ?w ?ids (MinimalFrameIDs sm)"
        using f(1) by (simp_all add: search_done_def accepted_candidate_def)
      moreover have "CandidateMinHits ?o \<le> int (length (filter rr_Result (rp_Records (MinimalValidation sm))))"
          "CandidateMinHits ?o \<le> int (length (filter rr_Result (rp_Records (EndPositiveControl sm))))"
        using f(1) unfolding search_done_def repeated_ok_def repeat_ok_def by metis+
      ultimately show ?thesis
        using run r3 e3 f(2-4) None by (intro exI [of _ "Some sm"] exI [of _ e3] exI [of _ s3]) (intro conjI impI exI [of _ sm] exI [of _ frames], simp_all)
    qed
  qed
qed

section \<open>The search on the sample modem\<close>

lemma modem_once:
  assumes "Config (opts s) = sample_config" and "set ids \<subseteq> {0}" and "selectFrames sample_config ids False PrivateBoth = Some (Inr frames)"
    and "frames \<noteq> []"
  shows "\<exists>res s'. runRepeated modem_device targetLTE stage control ids PrivateBoth 1 1 ok window s = Some ((res, None), s') \<and>
    opts s' = opts s \<and> rp_Passed res = (encodeConfig frames = full_bytes) \<and>
    (rp_Passed res \<longrightarrow> (\<exists>r l. rp_Records res = [r] \<and> rr_Result r \<and> FirstHitLatencyMS r = Some l) \<and> rp_Hits res = 1)"
proof -
  let ?c = "repeat_candidate targetLTE stage control ids PrivateBoth ok window 1"
  have "cd_target ?c = targetLTE" "set (cd_frameIDs ?c) \<subseteq> {0}"
    "selectFrames sample_config (cd_frameIDs ?c) (cd_zeroMasks ?c) (cd_private ?c) = Some (Inr frames)"
    using assms by (simp_all add: repeat_candidate_def)
  from modem_test [OF assms(1) this assms(4)] obtain r s' where r: "testCandidate modem_device ?c s = Some ((r, None), s')" "opts s' = opts s"
      "rr_Result r = (encodeConfig frames = full_bytes)" "rr_Result r \<longrightarrow> FirstHitLatencyMS r \<noteq> None" by blast
  then show ?thesis
    by (cases "rr_Result r") (auto simp: runRepeated_def zero_repeated_def count_if_def Let_def)
qed

definition sample_search :: ddminOptions where
  "sample_search = \<lparr>dm_Target = targetLTE, dm_ControlsReport = ''/r'', CalibrationRuns = 1, PositiveMinimumHit = 0,
     CandidateRepeats = 1, CandidateMinHits = 1, WindowMargin = 2 * Second, MinimumWindow = 3 * Second, MaximumWindow = 15 * Second\<rparr>"

definition sample_report :: controlsSummary where
  "sample_report = (new_summary sample_controls 0)\<lparr>cs_Completed := Some 0, cs_PositiveControlStatus := True,
     Groups := map (\<lambda>n. \<lparr>cg_Name = n, ExpectedMatch = False, ObservedHits = 0, ObservedNRRuns = 0, ObservedLTERuns = 0,
       UnexpectedRuns = 0, cg_Runs = 0, ExpectationMet = True, cg_Records = []\<rparr>) control_names\<rparr>"

definition sample_state :: "bool runner" where
  "sample_state = (sample_runner False)\<lparr>files := [''/r'' \<mapsto> []]\<rparr>"

lemma sample_search_fields:
  "ddmin_defaults sample_search = sample_search\<lparr>PositiveMinimumHit := 1\<rparr>" "dm_Target sample_search = targetLTE"
  "CalibrationRuns sample_search = 1" "CandidateRepeats sample_search = 1" "CandidateMinHits sample_search = 1"
  by (simp_all add: ddmin_defaults_def sample_search_def Let_def)

lemma sample_report_valid:
  "validateControlsReport (\<lambda>_. Inr sample_report) (files sample_state) (dm_ControlsReport sample_search) (dm_Target sample_search) = None"
  by (simp add: validateControlsReport_def sample_state_def sample_search_def validate_summary_def sample_report_def new_summary_def
      sample_controls_def covers_def targetNR_def targetLTE_def targetCombined_def comp_def filter_empty_conv)

lemma modem_search:
  "\<exists>sm s'. run_ddmin modem_device (\<lambda>_. Inr sample_report) (\<lambda>_. []) sample_search sample_state = Some ((Some sm, None), s')"
proof -
  let ?o = "sample_search\<lparr>PositiveMinimumHit := 1\<rparr>" and ?s = sample_state
  have c: "Config (opts ?s) = sample_config" by (simp add: sample_state_def sample_runner_def sample_options_def)
  have ne: "Frames sample_config \<noteq> []" "encodeConfig (Frames sample_config) = full_bytes" by (simp_all add: sample_config_def full_bytes_def)
  obtain r0 s0 l r where 0: "runRepeated modem_device targetLTE ''positive-control'' ''batch-start-calibration'' [0] PrivateBoth 1 1 False
      (MaximumWindow ?o) ?s = Some ((r0, None), s0)" "opts s0 = opts ?s" "rp_Hits r0 = 1" "rp_Records r0 = [r]" "rr_Result r" "FirstHitLatencyMS r = Some l"
    using modem_once [OF c _ select_full ne(1)] ne(2) by (metis empty_set list.simps(15) set_eq_subset)
  have p: "percentile_index (Suc 0) = 0" using percentile_index_exact [of 1] by simp
  obtain cal where cal: "calibrate modem_device ?o [0] ?s = Some ((cal, None), s0)"
    using 0 by (simp add: calibrate_def sample_search_fields map_filter_simps idx_def p Let_def)
  define w where "w = wrap64 (CandidateWindow cal * Millisecond)"
  have c0: "Config (opts s0) = sample_config" using c 0(2) by simp
  obtain r1 s1 where 1: "runRepeated modem_device targetLTE ''frame-ddmin'' ''empty-message-set'' [] PrivateBoth 1 1 True w s0 = Some ((r1, None), s1)"
      "opts s1 = opts s0" "\<not> rp_Passed r1"
    using modem_once [OF c0 _ select_private] private_not_full by (metis (no_types) empty_subsetI list.distinct(1) list.set(1))
  have d: "find_minimal modem_device ?o [0] w False s1 = Some (Inr [0], s1)"
    by (simp add: find_minimal_def ddmin_def ddmin_loop.simps)
  have c1: "Config (opts s1) = sample_config" using c0 1(2) by simp
  obtain r2 s2 where 2: "runRepeated modem_device targetLTE ''frame-ddmin-validation'' ''minimal'' [0] PrivateBoth 1 1 True w s1 = Some ((r2, None), s2)"
      "opts s2 = opts s1" "rp_Passed r2"
    using modem_once [OF c1 _ select_full ne(1)] ne(2) by (metis empty_set list.simps(15) set_eq_subset)
  have c2: "Config (opts s2) = sample_config" using c1 2(2) by simp
  obtain r3 s3 where 3: "runRepeated modem_device targetLTE ''positive-control'' ''batch-end'' [0] PrivateBoth 1 1 True w s2 = Some ((r3, None), s3)"
      "opts s3 = opts s2" "rp_Passed r3"
    using modem_once [OF c2 _ select_full ne(1)] ne(2) by (metis empty_set list.simps(15) set_eq_subset)
  have "\<exists>sm s'. write_results modem_device (\<lambda>_. []) ?o [0] [0] sum s3 = Some ((sm, None), s')" for sum
    using c2 3(2) select_full
    by (simp add: write_results_def sys_eq WriteSummary_def writeFileAtomic_no_faults Let_def del: append.simps)
  then have "\<exists>sm s'. run_search modem_device (\<lambda>_. []) ?o [0] w sum s0 = Some ((sm, None), s')" for sum
    using 1(1,3) d 2(1,3) 3(1,3) by (simp add: run_search_def validate_minimal_def sample_search_fields Let_def)
  then obtain sm s' where "run_search modem_device (\<lambda>_. []) ?o [0] w ((new_ddmin_summary ?o [0] 0)\<lparr>Calibration := cal\<rparr>) s0 = Some ((sm, None), s')"
    by blast
  then show ?thesis
    using cal by (simp add: run_ddmin_def sample_report_valid sample_search_fields(1) c sample_ids sys_eq Let_def flip: w_def)
qed

section \<open>Properties\<close>

text \<open>Repeating a test never panics and reports exactly what was observed, whatever the device answers: the number of
  hits is the number of positive records, at most the requested number of tests is run, the candidate
  passes if and only if no test failed and enough of them hit, and without an error the loop stops early
  only when the tests still to come could not have reached the required hits.\<close>
theorem runRepeated_verdict:
  assumes "config_inv (Config (opts s))" and "set ids \<subseteq> set (allMessageFrameIDs (Config (opts s)))"
  shows "\<exists>result e s'. runRepeated D target stage control ids private runs minimumHits positiveOK window s = Some ((result, e), s') \<and>
    reducer_run D s s' \<and> opts s' = opts s \<and>
    rp_Hits result = int (length (filter rr_Result (rp_Records result))) \<and>
    int (length (rp_Records result)) \<le> max 0 runs \<and>
    (rp_Passed result \<longleftrightarrow> e = None \<and> minimumHits \<le> rp_Hits result) \<and>
    (e = None \<and> int (length (rp_Records result)) < runs \<longrightarrow>
       rp_Hits result + (runs - int (length (rp_Records result))) < minimumHits)"
proof -
  obtain result e s' where "runRepeated D target stage control ids private runs minimumHits positiveOK window s = Some ((result, e), s')"
      "reducer_run D s s'" "grew UNIV s s'" "repeated_ok runs minimumHits result e"
    using runRepeated_spec [OF assms] by blast
  then show ?thesis by (auto simp: repeated_ok_def repeat_ok_def grew_def)
qed

theorem runRepeated_verdict_witness:
  "\<exists>result e s'. runRepeated modem_device targetLTE ''frame-ddmin'' [] [] PrivateBoth 3 2 True (3 * Second) sample_state = Some ((result, e), s') \<and>
    rp_Hits result = int (length (filter rr_Result (rp_Records result)))"
proof -
  have "config_inv (Config (opts sample_state))" using sample_runner_ok(1) [of False] by (simp add: sample_state_def)
  from runRepeated_verdict [OF this, of "[]" modem_device targetLTE "''frame-ddmin''" "[]" PrivateBoth 3 2 True "3 * Second"]
  show ?thesis by (elim meta_impE exE conjE) (simp, intro exI conjI)
qed

text \<open>C35: A calibration that succeeds measures the window on the positive control: the latencies it keeps are those of the
  positive records in order, the percentile is one of them, at least 95 per cent of them do not exceed
  it although the index is computed in floating point, enough runs hit, and the window derived from it
  lies between the two limits of the options even if the arithmetic on durations wraps around.  The
  number of runs is bounded so that its product with 0.95 is exact enough.\<close>
theorem calibrate_percentile:
  assumes "config_inv (Config (opts s))" and "CalibrationRuns options < 2 ^ 40"
    and "0 < MinimumWindow options" and "MinimumWindow options \<le> MaximumWindow options"
  shows "\<exists>result e s'. calibrate D options (allMessageFrameIDs (Config (opts s))) s = Some ((result, e), s') \<and> reducer_run D s s' \<and>
    (e = None \<longrightarrow>
      sorted (LatenciesMS result) \<and>
      mset (LatenciesMS result) =
        mset (List.map_filter (\<lambda>r. if rr_Result r then FirstHitLatencyMS r else None) (cb_Records result)) \<and>
      P95MS result \<in> set (LatenciesMS result) \<and>
      19 * length (LatenciesMS result) \<le> 20 * length (filter (\<lambda>l. l \<le> P95MS result) (LatenciesMS result)) \<and>
      PositiveMinimumHit options \<le> cb_Hits result \<and>
      Milliseconds (MinimumWindow options) \<le> CandidateWindow result \<and>
      CandidateWindow result \<le> Milliseconds (MaximumWindow options))"
proof -
  obtain result e s' where r: "calibrate D options (allMessageFrameIDs (Config (opts s))) s = Some ((result, e), s')"
      "reducer_run D s s'" "e = None \<longrightarrow> calibrated options result"
    using calibrate_spec [OF assms(1,2)] by blast
  have "P95MS result \<in> set (LatenciesMS result) \<and>
      19 * length (LatenciesMS result) \<le> 20 * length (filter (\<lambda>l. l \<le> P95MS result) (LatenciesMS result))"
    if c: "calibrated options result"
  proof -
    let ?ls = "LatenciesMS result" and ?k = "nat ((19 * int (length (LatenciesMS result)) + 19) div 20 - 1)"
    have ls: "sorted ?ls" "?ls \<noteq> []" and p: "P95MS result = ?ls ! ?k" using c by (simp_all add: calibrated_def Let_def)
    have k: "?k < length ?ls" "19 * length ?ls \<le> 20 * (?k + 1)" using rank_bounds [OF _ refl] ls(2) by simp_all
    with sorted_rank [OF ls(1) k(1)] p show ?thesis by auto
  qed
  moreover have "Milliseconds (MinimumWindow options) \<le> Milliseconds (calibration_window options p)"
    "Milliseconds (calibration_window options p) \<le> Milliseconds (MaximumWindow options)" for p
    using calibration_window_bounds [OF assms(3,4)] assms(3) by (simp_all add: Milliseconds_mono)
  ultimately show ?thesis using r by (auto simp: calibrated_def Let_def)
qed

theorem calibrate_percentile_witness:
  "\<exists>result e s'. calibrate modem_device sample_search [0] sample_state = Some ((result, e), s') \<and>
    (e = None \<longrightarrow> P95MS result \<in> set (LatenciesMS result) \<and> CandidateWindow result \<le> 15000)"
proof -
  have o: "Config (opts sample_state) = sample_config" by (simp add: sample_state_def sample_runner_def sample_options_def)
  have m: "Milliseconds (MaximumWindow sample_search) = 15000" by (simp add: sample_search_def Milliseconds_def Second_def Millisecond_def)
  have "config_inv (Config (opts sample_state))" "CalibrationRuns sample_search < 2 ^ 40" "0 < MinimumWindow sample_search"
    "MinimumWindow sample_search \<le> MaximumWindow sample_search"
    using sample_runner_ok(1) by (simp_all add: sample_state_def sample_search_def Second_def)
  from calibrate_percentile [OF this, of modem_device] show ?thesis unfolding o sample_ids m by (elim exE conjE) blast
qed



end
