(* ===== verification/Reducer_Dry_Run.thy ===== *)
theory Reducer_Dry_Run
  imports Reducer_Runner
begin

text \<open>
  The dry run of \<^verbatim>\<open>tools/u60-qtrace-reducer/config.go\<close>: \<^verbatim>\<open>writeDryRun\<close> parses a configuration, writes the nine
  configurations the device commands are built from, reads each of them back through the parser and
  writes a manifest.  The state is the file system and an opaque state of the operating system, whose
  answers are the parameter \<open>wr\<close> (the calls of \<^verbatim>\<open>writeFileAtomic\<close>); the JSON text of the manifest is the
  parameter \<open>marshal\<close> and the digest the parameter \<open>sha256\<close>.
\<close>

section \<open>Data\<close>

record manifestMaskFrame =
  mm_ID :: int
  FirstSSID :: u16
  LastSSID :: u16
  mm_SSIDCount :: nat
  Mask :: string

record manifestDiagFrame =
  md_ID :: int
  Command :: string
  Subsystem :: "byte option"
  Subcommand :: "u16 option"
  Length :: nat

record generatedConfigRef =
  gc_Name :: string
  gc_Path :: string
  SHA256 :: string
  Bytes :: nat
  gc_FrameCount :: nat

record configManifest =
  cm_Source :: string
  cm_SourceSHA256 :: string
  cm_SourceBytes :: nat
  FrameCount :: nat
  MessageFrameCount :: nat
  PrivateFrameCount :: nat
  SSIDCount :: nat
  AllMasksFFFFFFFF :: bool
  RoundTripExact :: bool
  ContainsGlobalClear :: bool
  cm_MessageFrames :: "manifestMaskFrame list"
  cm_PrivateFrames :: "manifestDiagFrame list"
  Generated :: "generatedConfigRef list"

section \<open>Reading the source\<close>

text \<open>\<^verbatim>\<open>os.ReadFile\<close>: the error the system reports, if any, or the contents.\<close>

definition read_file :: "err \<Rightarrow> string \<Rightarrow> file_sys \<Rightarrow> string + byte list" where
  "read_file rd path fs =
     (case rd of
        Some e \<Rightarrow> Inl e
      | None \<Rightarrow> (case fs path of None \<Rightarrow> Inl (''open '' @ path @ '': no such file or directory'') | Some data \<Rightarrow> Inr data))"

definition parseQTraceConfig :: "(byte list \<Rightarrow> string) \<Rightarrow> err \<Rightarrow> string \<Rightarrow> file_sys \<Rightarrow> (string + qtraceConfig \<times> byte list) option" where
  "parseQTraceConfig sha256 rd path fs =
     (case read_file rd path fs of
        Inl e \<Rightarrow> Some (Inl e)
      | Inr data \<Rightarrow> do {
          parsed \<leftarrow> parseQTraceConfigBytes sha256 data;
          Some (case parsed of
                  Inl e \<Rightarrow> Inl (''parse '' @ path @ '': '' @ cfg_error_text e)
                | Inr config \<Rightarrow> Inr (config, data)) })"

section \<open>The manifest\<close>

definition full_masks :: "u32 list \<Rightarrow> bool" where
  "full_masks masks \<longleftrightarrow> list_all (\<lambda>mask. mask = 0xffffffff) masks"

definition manifest_mask_frame :: "messageMaskFrame \<Rightarrow> manifestMaskFrame" where
  "manifest_mask_frame frame =
     \<lparr>mm_ID = ID (Frame frame), FirstSSID = First frame, LastSSID = Last frame,
      mm_SSIDCount = length (Masks frame), Mask = (if full_masks (Masks frame) then ''0xffffffff'' else ''mixed'')\<rparr>"

definition manifest_private_frame :: "diagFrame \<Rightarrow> manifestDiagFrame option" where
  "manifest_private_frame frame = do {
     payload \<leftarrow> slice (Decoded frame) 0 (int (length (Decoded frame)) - 2);
     subsystem \<leftarrow> idx payload 1;
     subcommand \<leftarrow> slice payload 2 4 \<bind> uint16le;
     command \<leftarrow> idx payload 0;
     Some \<lparr>md_ID = ID frame, Command = ''0x'' @ pad_zero 2 (hex (unat command)),
           Subsystem = Some subsystem, Subcommand = Some subcommand, Length = length (Decoded frame)\<rparr> }"

definition global_clear :: "diagFrame \<Rightarrow> bool option" where
  "global_clear frame = do {
     payload \<leftarrow> slice (Decoded frame) 0 (int (length (Decoded frame)) - 2);
     if length payload \<ge> 2 then do {
       a \<leftarrow> idx payload 0;
       b \<leftarrow> idx payload 1;
       Some (a = 0x7d \<and> b = 0x05) }
     else Some False }"

definition new_manifest :: "string \<Rightarrow> qtraceConfig \<Rightarrow> byte list \<Rightarrow> diagFrame list \<Rightarrow> configManifest option" where
  "new_manifest configPath config source positive = do {
     privates \<leftarrow> those (map manifest_private_frame (PrivateFrames config));
     clears \<leftarrow> those (map global_clear (Frames config));
     Some \<lparr>cm_Source = configPath, cm_SourceSHA256 = SourceSHA256 config, cm_SourceBytes = SourceBytes config,
           FrameCount = length (Frames config), MessageFrameCount = length (MessageFrames config),
           PrivateFrameCount = length (PrivateFrames config),
           SSIDCount = sum_list (map (\<lambda>frame. length (Masks frame)) (MessageFrames config)),
           AllMasksFFFFFFFF = list_all (\<lambda>frame. full_masks (Masks frame)) (MessageFrames config),
           RoundTripExact = (source = encodeConfig positive),
           ContainsGlobalClear = list_ex (\<lambda>b. b) clears,
           cm_MessageFrames = map manifest_mask_frame (MessageFrames config),
           cm_PrivateFrames = privates, Generated = []\<rparr> }"

section \<open>The generated configurations\<close>

text \<open>The errors of the selections are discarded: an erroneous selection is the empty slice.\<close>

definition select_or_nil :: "qtraceConfig \<Rightarrow> int list \<Rightarrow> bool \<Rightarrow> privateMode \<Rightarrow> diagFrame list option" where
  "select_or_nil config ids zeroMasks mode = do {
     r \<leftarrow> selectFrames config ids zeroMasks mode;
     Some (case r of Inl _ \<Rightarrow> [] | Inr frames \<Rightarrow> frames) }"

definition dry_outputs :: "qtraceConfig \<Rightarrow> diagFrame list \<Rightarrow> (string \<times> diagFrame list) list option" where
  "dry_outputs config zeroFrames = do {
     let allIDs = allMessageFrameIDs config;
     positive \<leftarrow> select_or_nil config allIDs False PrivateBoth;
     zeroPrivate \<leftarrow> select_or_nil config allIDs True PrivateBoth;
     messageOnly \<leftarrow> select_or_nil config allIDs False PrivateNone;
     allOff \<leftarrow> select_or_nil config allIDs True PrivateNone;
     privateBothOnly \<leftarrow> select_or_nil config [] False PrivateBoth;
     private9001Only \<leftarrow> select_or_nil config [] False Private9001;
     private0004Only \<leftarrow> select_or_nil config [] False Private0004;
     Some [(''original-roundtrip.cfg'', positive),
           (''cleanup-zero.cfg'', zeroFrames),
           (path_join ''controls'' ''positive.cfg'', positive),
           (path_join ''controls'' ''zero-mask-private.cfg'', zeroPrivate),
           (path_join ''controls'' ''message-only.cfg'', messageOnly),
           (path_join ''controls'' ''all-off.cfg'', allOff),
           (path_join ''controls'' ''private-both-only.cfg'', privateBothOnly),
           (path_join ''controls'' ''private-9001-only.cfg'', private9001Only),
           (path_join ''controls'' ''private-0004-only.cfg'', private0004Only)] }"

text \<open>The loop that writes them, with the manifest's entries in the order of writing.  A nil error formatted with
  \<^verbatim>\<open>%w\<close> prints as \<^verbatim>\<open>%!w(<nil>)\<close>.\<close>

definition generated_ref :: "(byte list \<Rightarrow> string) \<Rightarrow> string \<Rightarrow> string \<Rightarrow> diagFrame list \<Rightarrow> generatedConfigRef" where
  "generated_ref sha256 dir name frames =
     \<lparr>gc_Name = name, gc_Path = path_join dir name, SHA256 = sha256 (encodeConfig frames),
      Bytes = length (encodeConfig frames), gc_FrameCount = length frames\<rparr>"

definition roundtrip_error :: "string \<Rightarrow> string \<Rightarrow> string" where
  "roundtrip_error name text = ''generated config '' @ name @ '' failed round-trip validation: '' @ text"

fun generate :: "(string \<Rightarrow> 'd \<Rightarrow> write_faults \<times> 'd) \<Rightarrow> (byte list \<Rightarrow> string) \<Rightarrow> string \<Rightarrow> (string \<times> diagFrame list) list \<Rightarrow>
    file_sys \<Rightarrow> 'd \<Rightarrow> ((string + generatedConfigRef list) \<times> file_sys \<times> 'd) option" where
  "generate wr sha256 dir [] fs d = Some (Inr [], fs, d)"
| "generate wr sha256 dir ((name, frames) # rest) fs d =
     (let path = path_join dir name; data = encodeConfig frames;
          (w, d) = wr path d; (e, fs) = writeFileAtomic w path data fs in
      case e of
        Some e \<Rightarrow> Some (Inl e, fs, d)
      | None \<Rightarrow> do {
          parsed \<leftarrow> parseQTraceConfigBytes sha256 data;
          case parsed of
            Inl e \<Rightarrow> Some (Inl (roundtrip_error name (cfg_error_text e)), fs, d)
          | Inr c \<Rightarrow>
              if length (Frames c) \<noteq> length frames then Some (Inl (roundtrip_error name ''%!w(<nil>)''), fs, d)
              else do {
                (r, fs, d) \<leftarrow> generate wr sha256 dir rest fs d;
                Some (case r of Inl e \<Rightarrow> Inl e | Inr refs \<Rightarrow> Inr (generated_ref sha256 dir name frames # refs), fs, d) } })"

definition writeDryRun :: "(string \<Rightarrow> 'd \<Rightarrow> write_faults \<times> 'd) \<Rightarrow> (byte list \<Rightarrow> string) \<Rightarrow> err \<Rightarrow> err \<Rightarrow> (configManifest \<Rightarrow> byte list) \<Rightarrow>
    string \<Rightarrow> string \<Rightarrow> file_sys \<Rightarrow> 'd \<Rightarrow> ((string + configManifest) \<times> file_sys \<times> 'd) option" where
  "writeDryRun wr sha256 rd mkdir marshal configPath outputDir fs d = do {
     source \<leftarrow> parseQTraceConfig sha256 rd configPath fs;
     case source of
       Inl e \<Rightarrow> Some (Inl e, fs, d)
     | Inr (config, source) \<Rightarrow>
        (case mkdir of
           Some e \<Rightarrow> Some (Inl e, fs, d)
         | None \<Rightarrow>
        (case zeroMessageFrames config of
           Inl e \<Rightarrow> Some (Inl (cfg_error_text e), fs, d)
         | Inr zeroFrames \<Rightarrow> do {
             outputs \<leftarrow> dry_outputs config zeroFrames;
             manifest \<leftarrow> new_manifest configPath config source (snd (hd outputs));
             (r, fs, d) \<leftarrow> generate wr sha256 outputDir outputs fs d;
             case r of
               Inl e \<Rightarrow> Some (Inl e, fs, d)
             | Inr refs \<Rightarrow>
                 (let manifest = manifest\<lparr>Generated := sort_key (\<lambda>g. map code (gc_Name g)) refs\<rparr>;
                      path = path_join outputDir ''manifest.json'';
                      (w, d) = wr path d;
                      (e, fs) = writeFileAtomic w path (marshal manifest @ [0x0a]) fs
                  in Some (case e of Some e \<Rightarrow> Inl e | None \<Rightarrow> Inr manifest, fs, d)) })) }"

section \<open>The loop\<close>

text \<open>The operating system names temporary files by the pattern; \<open>reliable\<close> says that no write fails.\<close>

definition writes_ok :: "(string \<Rightarrow> 'd \<Rightarrow> write_faults \<times> 'd) \<Rightarrow> bool" where
  "writes_ok wr \<longleftrightarrow> (\<forall>path d. temp_ok (fst (wr path d)))"

definition reliable :: "(string \<Rightarrow> 'd \<Rightarrow> write_faults \<times> 'd) \<Rightarrow> bool" where
  "reliable wr \<longleftrightarrow> (\<forall>path data fs d. fst (writeFileAtomic (fst (wr path d)) path data fs) = None)"

definition bodies_ok :: "diagFrame list \<Rightarrow> bool" where
  "bodies_ok frames \<longleftrightarrow> (\<forall>f \<in> set frames. frame_body_ok (Decoded f))"

lemma parse_generated:
  assumes "bodies_ok frames"
  shows "if frames = [] then parseQTraceConfigBytes sha256 (encodeConfig frames) = Some (Inl No_frames)
    else \<exists>c. parseQTraceConfigBytes sha256 (encodeConfig frames) = Some (Inr c) \<and> map Decoded (Frames c) = map Decoded frames"
  using parse_encodeConfig [of frames sha256] assms Decoded_add_frames
  by (fastforce simp: bodies_ok_def empty_config_def parseQTraceConfigBytes_def encodeConfig_def)

text \<open>The files of a prefix of the outputs are in place and nothing else has changed.\<close>

definition generated_ok :: "(byte list \<Rightarrow> string) \<Rightarrow> string \<Rightarrow> (string \<times> diagFrame list) list \<Rightarrow> file_sys \<Rightarrow> file_sys \<Rightarrow>
    string + generatedConfigRef list \<Rightarrow> bool" where
  "generated_ok sha256 dir outs fs fs' r \<longleftrightarrow>
     (\<forall>p. p \<notin> (\<lambda>(name, _). path_join dir name) ` set outs \<longrightarrow> visible fs' p = visible fs p) \<and>
     (case r of Inl _ \<Rightarrow> True | Inr refs \<Rightarrow>
        refs = map (\<lambda>(name, frames). generated_ref sha256 dir name frames) outs \<and>
        list_all (\<lambda>(name, frames). frames \<noteq> [] \<and> visible fs' (path_join dir name) = Some (encodeConfig frames)) outs)"

lemma generate_spec:
  assumes "writes_ok wr" and "list_all (\<lambda>(name, frames). bodies_ok frames \<and> \<not> is_temp (path_join dir name)) outs"
    and "distinct (map (\<lambda>(name, frames). path_join dir name) outs)"
  shows "\<exists>r fs' d'. generate wr sha256 dir outs fs d = Some (r, fs', d') \<and> generated_ok sha256 dir outs fs fs' r \<and>
    (reliable wr \<and> list_all (\<lambda>(name, frames). frames \<noteq> []) outs \<longrightarrow> \<not> isl r)"
  using assms(2,3)
proof (induction outs arbitrary: fs d)
  case Nil
  then show ?case by (simp add: generated_ok_def)
next
  case (Cons o1 outs)
  obtain name frames where o1: "o1 = (name, frames)" by fastforce
  let ?p = "path_join dir name" and ?data = "encodeConfig frames"
  obtain w d1 where w: "wr ?p d = (w, d1)" by fastforce
  obtain e fs1 where e: "writeFileAtomic w ?p ?data fs = (e, fs1)" by fastforce
  have w_ok: "temp_ok w" using assms(1) w by (metis fst_conv writes_ok_def)
  have p: "\<not> is_temp ?p" "bodies_ok frames" using Cons.prems(1) o1 by auto
  have v1: "visible fs1 = (if e = None then (visible fs)(?p \<mapsto> ?data) else visible fs)"
    using fstore.write_view [OF w_ok p(1), of ?data fs] e by simp
  show ?case
  proof (cases "e = None \<and> frames \<noteq> []")
    case False
    have "reliable wr \<Longrightarrow> e = None" using w e by (metis fst_conv reliable_def)
    with False show ?thesis using parse_generated [OF p(2), of sha256] w e v1
      by (cases e) (auto simp: o1 generated_ok_def Let_def)
  next
    case True
    then obtain c where c: "parseQTraceConfigBytes sha256 ?data = Some (Inr c)" "length (Frames c) = length frames"
      using parse_generated [OF p(2), of sha256] by (auto dest: map_eq_imp_length_eq)
    obtain r fs' d' where r: "generate wr sha256 dir outs fs1 d1 = Some (r, fs', d')" "generated_ok sha256 dir outs fs1 fs' r"
        "reliable wr \<and> list_all (\<lambda>(name, frames). frames \<noteq> []) outs \<longrightarrow> \<not> isl r"
      using Cons.IH [of fs1 d1] Cons.prems by auto
    have "?p \<notin> (\<lambda>(name, _). path_join dir name) ` set outs" using Cons.prems(2) o1 by auto
    then have "visible fs' ?p = Some ?data" using r(2) v1 True by (simp add: generated_ok_def)
    then have "generated_ok sha256 dir ((name, frames) # outs) fs fs'
        (case r of Inl e \<Rightarrow> Inl e | Inr refs \<Rightarrow> Inr (generated_ref sha256 dir name frames # refs))"
      using r(2) v1 True by (cases r) (auto simp: generated_ok_def)
    moreover have "generate wr sha256 dir ((name, frames) # outs) fs d =
        Some (case r of Inl e \<Rightarrow> Inl e | Inr refs \<Rightarrow> Inr (generated_ref sha256 dir name frames # refs), fs', d')"
      using True w e c r(1) by (simp add: Let_def)
    ultimately show ?thesis using r(3) unfolding o1 by (cases r) auto
  qed
qed

section \<open>The manifest of a parsed configuration\<close>

lemma those_map_Some: "\<forall>x \<in> set xs. f x = Some (g x) \<Longrightarrow> those (map f xs) = Some (map g xs)"
  by (induction xs) auto

text \<open>The parser refuses a frame with the global clear, so the manifest never reports one.\<close>

lemma no_global_clear:
  assumes "frame_body_ok (Decoded f)"
  shows "global_clear f = Some False"
proof -
  let ?d = "Decoded f" and ?p = "take (length (Decoded f) - 2) (Decoded f)"
  have l: "3 \<le> length ?d" using assms by (simp add: frame_body_ok_def)
  then have s: "slice ?d 0 (int (length ?d) - 2) = Some ?p" using slice_drop_last [of 2 ?d] by simp
  have "?p ! 0 = 0x7d \<longrightarrow> ?p ! 1 \<noteq> 0x05" if "2 \<le> length ?p"
  proof (cases "is_mask_frame ?d")
    case True
    then obtain a b r masks where "?p = mask_payload diagExtMessageConfig a b r masks" by (auto simp: is_mask_frame_def)
    then show ?thesis by (simp add: mask_payload_def cfg_consts)
  next
    case False
    then have "hd ?d = diagSubsysCommand" using assms by (simp add: frame_body_ok_def)
    then show ?thesis using l that by (cases ?d) (simp_all add: cfg_consts)
  qed
  with s show ?thesis by (auto simp: global_clear_def idx_def)
qed

lemma manifest_private_total:
  assumes "6 \<le> length (Decoded f)"
  shows "\<exists>e. manifest_private_frame f = Some e \<and> md_ID e = ID f \<and> Length e = length (Decoded f)"
proof -
  let ?d = "Decoded f" and ?p = "take (length (Decoded f) - 2) (Decoded f)"
  have s: "slice ?d 0 (int (length ?d) - 2) = Some ?p" using slice_drop_last [of 2 ?d] assms by simp
  have l: "4 \<le> length ?p" using assms by simp
  then obtain y x where x: "slice ?p 2 4 = Some y" "uint16le y = Some x"
    using slice_uint16le [of 2 4 ?p] assms by (auto simp: bind_eq_Some_conv)
  have "idx ?p 0 = Some (?p ! 0)" "idx ?p 1 = Some (?p ! 1)" using l by (simp_all add: idx_def)
  then show ?thesis using s x by (simp add: manifest_private_frame_def)
qed

lemma new_manifest_ok:
  assumes "config_inv c"
  shows "\<exists>m. new_manifest path c source positive = Some m \<and> FrameCount m = length (Frames c) \<and>
    MessageFrameCount m + PrivateFrameCount m = FrameCount m \<and>
    (RoundTripExact m \<longleftrightarrow> source = encodeConfig positive) \<and> \<not> ContainsGlobalClear m \<and>
    map md_ID (cm_PrivateFrames m) = map ID (PrivateFrames c) \<and>
    map mm_ID (cm_MessageFrames m) = allMessageFrameIDs c"
proof -
  have b: "\<forall>f \<in> set (Frames c). global_clear f = Some False" using assms no_global_clear by (auto simp: config_inv_def)
  have k: "hd (Decoded f) = diagExtMessageConfig \<longleftrightarrow> hd (Decoded f) \<noteq> diagSubsysCommand" if "f \<in> set (Frames c)" for f
    using config_frame_kind [OF assms that] by (auto simp: cfg_consts)
  have p: "6 \<le> length (Decoded f)" if "f \<in> set (PrivateFrames c)" for f
    using that assms config_frame_kind [OF assms, of f] by (auto simp: config_inv_def cfg_consts)
  define g where "g = (\<lambda>f. the (manifest_private_frame f))"
  have "manifest_private_frame f = Some (g f)" "md_ID (g f) = ID f" if "f \<in> set (PrivateFrames c)" for f
    using manifest_private_total [OF p [OF that]] by (auto simp: g_def)
  then have g: "those (map manifest_private_frame (PrivateFrames c)) = Some (map g (PrivateFrames c))"
      "map (md_ID \<circ> g) (PrivateFrames c) = map ID (PrivateFrames c)" by (simp_all add: those_map_Some)
  have "length (MessageFrames c) = length (filter (\<lambda>f. hd (Decoded f) = diagExtMessageConfig) (Frames c))"
    using assms unfolding config_inv_def by (metis length_map)
  also have "filter (\<lambda>f. hd (Decoded f) = diagExtMessageConfig) (Frames c) = filter (\<lambda>f. hd (Decoded f) \<noteq> diagSubsysCommand) (Frames c)"
    using k by (rule filter_cong [OF refl])
  finally have "length (MessageFrames c) + length (PrivateFrames c) = length (Frames c)"
    using assms sum_length_filter_compl [of "\<lambda>f. hd (Decoded f) = diagSubsysCommand" "Frames c"] by (simp add: config_inv_def)
  then show ?thesis
    using g those_map_Some [OF b]
    by (simp add: new_manifest_def comp_def manifest_mask_frame_def allMessageFrameIDs_def list_ex_iff)
qed

section \<open>The outputs of a parsed configuration\<close>

definition dry_names :: "string list" where
  "dry_names = [''original-roundtrip.cfg'', ''cleanup-zero.cfg'', ''controls/positive.cfg'', ''controls/zero-mask-private.cfg'',
     ''controls/message-only.cfg'', ''controls/all-off.cfg'', ''controls/private-both-only.cfg'',
     ''controls/private-9001-only.cfg'', ''controls/private-0004-only.cfg'']"

text \<open>The order of the manifest, by name.\<close>

definition sorted_names :: "string list" where
  "sorted_names = [''cleanup-zero.cfg'', ''controls/all-off.cfg'', ''controls/message-only.cfg'', ''controls/positive.cfg'',
     ''controls/private-0004-only.cfg'', ''controls/private-9001-only.cfg'', ''controls/private-both-only.cfg'',
     ''controls/zero-mask-private.cfg'', ''original-roundtrip.cfg'']"

lemma dry_names_ok:
  "distinct dry_names" "\<forall>name \<in> set (''manifest.json'' # dry_names). name \<noteq> [] \<and> \<not> is_temp name" "''manifest.json'' \<notin> set dry_names"
  by code_simp+

lemma sorted_names_sort: "sort_key (map code) dry_names = sorted_names"
  by (simp add: dry_names_def sorted_names_def sort_key_def code_def)

lemma dry_path_ok: "name \<in> set (''manifest.json'' # dry_names) \<Longrightarrow> \<not> is_temp (path_join dir name)"
  using dry_names_ok(2) base_name_join [of name dir] by (auto simp: is_temp_def)

lemma select_or_nil_ok:
  assumes "config_inv c" and "set ids \<subseteq> set (allMessageFrameIDs c)"
  shows "\<exists>frames. select_or_nil c ids zeroMasks mode = Some frames \<and> bodies_ok frames"
  by (rule selectFrames_ok [OF assms, of zeroMasks mode]) (auto simp: select_or_nil_def bodies_ok_def)

lemma zeroed_bodies_ok: "config_inv c \<Longrightarrow> \<exists>zs. zeroMessageFrames c = Inr zs \<and> bodies_ok zs"
  using zeroMessageFrames_ok by (simp add: bodies_ok_def)

lemma dry_outputs_ok:
  assumes inv: "config_inv c" and zs: "bodies_ok zs"
  shows "\<exists>outs. dry_outputs c zs = Some outs \<and> map fst outs = dry_names \<and> list_all (\<lambda>(name, frames). bodies_ok frames) outs \<and>
    snd (hd outs) = Frames c \<and> (''cleanup-zero.cfg'', zs) \<in> set outs"
proof -
  let ?ids = "allMessageFrameIDs c"
  have p: "select_or_nil c ?ids False PrivateBoth = Some (Frames c)" "bodies_ok (Frames c)"
    using select_all_frames [OF inv] inv by (simp_all add: select_or_nil_def bodies_ok_def config_inv_def)
  obtain f1 f2 f3 f4 f5 f6 where f:
      "select_or_nil c ?ids True PrivateBoth = Some f1" "bodies_ok f1"
      "select_or_nil c ?ids False PrivateNone = Some f2" "bodies_ok f2"
      "select_or_nil c ?ids True PrivateNone = Some f3" "bodies_ok f3"
      "select_or_nil c [] False PrivateBoth = Some f4" "bodies_ok f4"
      "select_or_nil c [] False Private9001 = Some f5" "bodies_ok f5"
      "select_or_nil c [] False Private0004 = Some f6" "bodies_ok f6"
    using select_or_nil_ok [OF inv, of ?ids] select_or_nil_ok [OF inv, of "[]"] by (metis empty_subsetI list.set(1) subset_refl)
  show ?thesis using p f zs by (simp add: dry_outputs_def dry_names_def path_join_def)
qed

lemma sort_key_map: "sort_key (\<lambda>x. f (g x)) xs = ys \<Longrightarrow> map g ys = sort_key f (map g xs)"
  for f :: "'b \<Rightarrow> 'c :: linorder"
proof -
  have "map g (insort_key (\<lambda>x. f (g x)) x xs) = insort_key f (g x) (map g xs)" for x xs by (induction xs) simp_all
  then have "map g (sort_key (\<lambda>x. f (g x)) xs) = sort_key f (map g xs)" by (induction xs) (simp_all add: sort_key_def)
  then show "sort_key (\<lambda>x. f (g x)) xs = ys \<Longrightarrow> map g ys = sort_key f (map g xs)" by blast
qed

lemma parseQTraceConfig_total: "\<exists>r. parseQTraceConfig sha256 rd path fs = Some r"
proof (cases "read_file rd path fs")
  case (Inr data)
  then show ?thesis using parse_config_total [of sha256 data] by (auto simp: parseQTraceConfig_def)
qed (simp add: parseQTraceConfig_def)

lemma parseQTraceConfig_inv:
  assumes "parseQTraceConfig sha256 rd path fs = Some (Inr (c, data))"
  shows "read_file rd path fs = Inr data" "parseQTraceConfigBytes sha256 data = Some (Inr c)"
proof -
  obtain data' where d: "read_file rd path fs = Inr data'"
    using assms by (cases "read_file rd path fs") (simp_all add: parseQTraceConfig_def)
  obtain r where r: "parseQTraceConfigBytes sha256 data' = Some r" using parse_config_total [of sha256 data'] by auto
  show "read_file rd path fs = Inr data" "parseQTraceConfigBytes sha256 data = Some (Inr c)"
    using assms d r by (cases r; simp add: parseQTraceConfig_def)+
qed

text \<open>Everything after the parse, on a configuration that satisfies the invariant.\<close>

lemma dry_run_spec:
  assumes inv: "config_inv c" and wr: "writes_ok wr" and src: "parseQTraceConfig sha256 rd configPath fs = Some (Inr (c, data))"
    and z: "zeroMessageFrames c = Inr zs" and o: "dry_outputs c zs = Some outs"
  shows "\<exists>r fs' d'. writeDryRun wr sha256 rd None marshal configPath dir fs d = Some (r, fs', d') \<and>
    (\<forall>p. p \<notin> path_join dir ` set (''manifest.json'' # dry_names) \<longrightarrow> visible fs' p = visible fs p) \<and>
    (reliable wr \<and> list_all (\<lambda>(name, frames). frames \<noteq> []) outs \<longrightarrow> \<not> isl r) \<and>
    (\<forall>m. r = Inr m \<longrightarrow>
       FrameCount m = length (Frames c) \<and> MessageFrameCount m + PrivateFrameCount m = FrameCount m \<and>
       (RoundTripExact m \<longleftrightarrow> data = encodeConfig (Frames c)) \<and> \<not> ContainsGlobalClear m \<and>
       map gc_Name (Generated m) = sorted_names \<and>
       set (Generated m) = (\<lambda>(name, frames). generated_ref sha256 dir name frames) ` set outs \<and>
       (\<forall>(name, frames) \<in> set outs. frames \<noteq> [] \<and> visible fs' (path_join dir name) = Some (encodeConfig frames)) \<and>
       visible fs' (path_join dir ''manifest.json'') = Some (marshal m @ [0x0a]))"
proof -
  obtain zs' where "zeroMessageFrames c = Inr zs'" "bodies_ok zs'" using zeroed_bodies_ok [OF inv] by blast
  with z have "bodies_ok zs" by simp
  from dry_outputs_ok [OF inv this] o have outs: "map fst outs = dry_names" "list_all (\<lambda>(name, frames). bodies_ok frames) outs"
      "snd (hd outs) = Frames c" by auto
  have names: "fst ` set outs = set dry_names" using outs(1) by (metis list.set_map)
  have paths: "(\<lambda>(name, _). path_join dir name) ` set outs = path_join dir ` set dry_names"
    unfolding names [symmetric] by (force simp: image_image case_prod_beta)
  have mem: "name \<in> set dry_names" if "(name, frames) \<in> set outs" for name frames
    using imageI [OF that, of fst] unfolding names by simp
  then have "\<not> is_temp (path_join dir name)" if "(name, frames) \<in> set outs" for name frames
    using that by (intro dry_path_ok) simp
  then have "list_all (\<lambda>(name, frames). bodies_ok frames \<and> \<not> is_temp (path_join dir name)) outs"
    using outs(2) unfolding list_all_iff by fast
  moreover have "distinct (map (\<lambda>(name, frames). path_join dir name) outs)"
  proof -
    have "map (\<lambda>(name, frames). path_join dir name) outs = map (path_join dir) dry_names"
      unfolding outs(1) [symmetric] by (simp add: case_prod_beta comp_def)
    then show ?thesis using dry_names_ok(1,2) by (auto simp: distinct_map inj_on_def path_join_inject)
  qed
  ultimately obtain r fs1 d1 where g: "generate wr sha256 dir outs fs d = Some (r, fs1, d1)" "generated_ok sha256 dir outs fs fs1 r"
      "reliable wr \<and> list_all (\<lambda>(name, frames). frames \<noteq> []) outs \<longrightarrow> \<not> isl r"
    using generate_spec [OF wr, of dir outs sha256 fs d] by blast
  obtain m where m: "new_manifest configPath c data (Frames c) = Some m" "FrameCount m = length (Frames c)"
      "MessageFrameCount m + PrivateFrameCount m = FrameCount m" "RoundTripExact m \<longleftrightarrow> data = encodeConfig (Frames c)" "\<not> ContainsGlobalClear m"
    using new_manifest_ok [OF inv, of configPath data "Frames c"] by blast
  have run: "writeDryRun wr sha256 rd None marshal configPath dir fs d =
     (case r of
        Inl e \<Rightarrow> Some (Inl e, fs1, d1)
      | Inr refs \<Rightarrow>
         (let m = m\<lparr>Generated := sort_key (\<lambda>g. map code (gc_Name g)) refs\<rparr>;
              (w, d) = wr (path_join dir ''manifest.json'') d1;
              (e, fs) = writeFileAtomic w (path_join dir ''manifest.json'') (marshal m @ [0x0a]) fs1
          in Some (case e of Some e \<Rightarrow> Inl e | None \<Rightarrow> Inr m, fs, d)))"
    using src z o g(1) m(1) outs(3) by (simp add: writeDryRun_def Let_def split: sum.split)
  show ?thesis
  proof (cases r)
    case (Inl e)
    then show ?thesis using run g(2,3) by (simp add: generated_ok_def paths)
  next
    case (Inr refs)
    let ?m = "m\<lparr>Generated := sort_key (\<lambda>g. map code (gc_Name g)) refs\<rparr>" and ?p = "path_join dir ''manifest.json''"
    obtain w d2 where w: "wr ?p d1 = (w, d2)" by fastforce
    obtain e fs2 where e: "writeFileAtomic w ?p (marshal ?m @ [0x0a]) fs1 = (e, fs2)" by fastforce
    have "temp_ok w" using wr w by (metis fst_conv writes_ok_def)
    from fstore.write_view [OF this dry_path_ok [of "''manifest.json''" dir], where v = "marshal ?m @ [0x0a]" and s = fs1] e
    have v: "visible fs2 = (if e = None then (visible fs1)(?p \<mapsto> marshal ?m @ [0x0a]) else visible fs1)" by simp
    have refs: "refs = map (\<lambda>(name, frames). generated_ref sha256 dir name frames) outs"
      using g(2) Inr by (simp add: generated_ok_def)
    then have "map gc_Name refs = dry_names" using outs(1) by (simp add: generated_ref_def comp_def case_prod_beta)
    then have "map gc_Name (Generated ?m) = sorted_names"
      using sort_key_map [where f = "map code" and g = gc_Name and xs = refs, OF refl] sorted_names_sort by simp
    then have fixed: "map gc_Name (Generated ?m) = sorted_names" "set (Generated ?m) = (\<lambda>(name, frames). generated_ref sha256 dir name frames) ` set outs"
      by (simp_all add: refs)
    have "path_join dir name \<noteq> ?p" if "(name, frames) \<in> set outs" for name frames
    proof -
      have "name \<noteq> []" "name \<noteq> ''manifest.json''" using mem [OF that] dry_names_ok(2,3) by auto
      then show ?thesis by (simp add: path_join_inject)
    qed
    then have written: "\<forall>(name, frames) \<in> set outs. frames \<noteq> [] \<and> visible fs2 (path_join dir name) = Some (encodeConfig frames)"
      using g(2) Inr v by (fastforce simp: generated_ok_def list_all_iff)
    have kept: "\<forall>p. p \<notin> path_join dir ` set (''manifest.json'' # dry_names) \<longrightarrow> visible fs2 p = visible fs p"
      using g(2) v by (simp add: generated_ok_def paths)
    have live: "e = None" if "reliable wr"
    proof -
      have "fst (writeFileAtomic (fst (wr ?p d1)) ?p (marshal ?m @ [0x0a]) fs1) = None" using that unfolding reliable_def by blast
      then show ?thesis unfolding w fst_conv e .
    qed
    have run2: "writeDryRun wr sha256 rd None marshal configPath dir fs d = Some (case e of Some e \<Rightarrow> Inl e | None \<Rightarrow> Inr ?m, fs2, d2)"
      using run Inr w e by (simp add: Let_def)
    show ?thesis
    proof (cases e)
      case None
      then have "visible fs2 ?p = Some (marshal ?m @ [0x0a])" using v by simp
      then show ?thesis
        using run2 kept written fixed m(2-5) None
        by (intro exI [of _ "Inr ?m"] exI [of _ fs2] exI [of _ d2]) simp
    next
      case (Some x)
      then show ?thesis using run2 kept live by (intro exI [of _ "Inl x"] exI [of _ fs2] exI [of _ d2]) auto
    qed
  qed
qed

lemma writeDryRun_spec:
  assumes "writes_ok wr"
  shows "\<exists>r fs' d'. writeDryRun wr sha256 rd mkdir marshal configPath dir fs d = Some (r, fs', d') \<and>
    (\<forall>p. p \<notin> path_join dir ` set (''manifest.json'' # dry_names) \<longrightarrow> visible fs' p = visible fs p) \<and>
    (\<forall>m. r = Inr m \<longrightarrow> (\<exists>data c zs.
       read_file rd configPath fs = Inr data \<and> parseQTraceConfigBytes sha256 data = Some (Inr c) \<and> zeroMessageFrames c = Inr zs \<and>
       FrameCount m = length (Frames c) \<and> MessageFrameCount m + PrivateFrameCount m = FrameCount m \<and>
       (RoundTripExact m \<longleftrightarrow> data = encodeConfig (Frames c)) \<and> \<not> ContainsGlobalClear m \<and>
       map gc_Name (Generated m) = sorted_names \<and>
       (\<forall>g \<in> set (Generated m). \<exists>frames c'. frames \<noteq> [] \<and> gc_FrameCount g = length frames \<and>
          visible fs' (path_join dir (gc_Name g)) = Some (encodeConfig frames) \<and>
          parseQTraceConfigBytes sha256 (encodeConfig frames) = Some (Inr c') \<and> map Decoded (Frames c') = map Decoded frames) \<and>
       visible fs' (path_join dir ''original-roundtrip.cfg'') = Some (encodeConfig (Frames c)) \<and>
       visible fs' (path_join dir ''cleanup-zero.cfg'') = Some (encodeConfig zs) \<and>
       visible fs' (path_join dir ''manifest.json'') = Some (marshal m @ [0x0a]))) \<and>
    (\<forall>data c zs outs. read_file rd configPath fs = Inr data \<and> parseQTraceConfigBytes sha256 data = Some (Inr c) \<and>
       mkdir = None \<and> zeroMessageFrames c = Inr zs \<and> dry_outputs c zs = Some outs \<and>
       list_all (\<lambda>(name, frames). frames \<noteq> []) outs \<and> reliable wr \<longrightarrow> (\<exists>m. r = Inr m))"
proof (cases "\<exists>c data. parseQTraceConfig sha256 rd configPath fs = Some (Inr (c, data)) \<and> mkdir = None")
  case False
  obtain r where r: "parseQTraceConfig sha256 rd configPath fs = Some r"
    using parseQTraceConfig_total by blast
  then have "\<exists>e. writeDryRun wr sha256 rd mkdir marshal configPath dir fs d = Some (Inl e, fs, d)"
    using False by (cases r; cases mkdir) (auto simp: writeDryRun_def)
  moreover have "\<not> (read_file rd configPath fs = Inr data \<and> parseQTraceConfigBytes sha256 data = Some (Inr c) \<and> mkdir = None)" for data c
    using False by (auto simp: parseQTraceConfig_def)
  ultimately show ?thesis by fastforce
next
  case True
  then obtain c data where src: "parseQTraceConfig sha256 rd configPath fs = Some (Inr (c, data))" and mk: "mkdir = None" by blast
  note rd = parseQTraceConfig_inv [OF src]
  have inv: "config_inv c" using parsed_config_inv [OF rd(2)] .
  obtain zs where z: "zeroMessageFrames c = Inr zs" "bodies_ok zs" using zeroed_bodies_ok [OF inv] by blast
  obtain outs where o: "dry_outputs c zs = Some outs" "map fst outs = dry_names" "list_all (\<lambda>(name, frames). bodies_ok frames) outs"
      "snd (hd outs) = Frames c" "(''cleanup-zero.cfg'', zs) \<in> set outs"
    using dry_outputs_ok [OF inv z(2)] by blast
  have original: "(''original-roundtrip.cfg'', Frames c) \<in> set outs"
    using o(2,4) by (cases outs) (auto simp: dry_names_def)
  obtain r fs' d' where r: "writeDryRun wr sha256 rd None marshal configPath dir fs d = Some (r, fs', d')"
      and kept: "\<forall>p. p \<notin> path_join dir ` set (''manifest.json'' # dry_names) \<longrightarrow> visible fs' p = visible fs p"
      and live: "reliable wr \<and> list_all (\<lambda>(name, frames). frames \<noteq> []) outs \<longrightarrow> \<not> isl r"
      and m: "\<forall>m. r = Inr m \<longrightarrow>
       FrameCount m = length (Frames c) \<and> MessageFrameCount m + PrivateFrameCount m = FrameCount m \<and>
       (RoundTripExact m \<longleftrightarrow> data = encodeConfig (Frames c)) \<and> \<not> ContainsGlobalClear m \<and>
       map gc_Name (Generated m) = sorted_names \<and>
       set (Generated m) = (\<lambda>(name, frames). generated_ref sha256 dir name frames) ` set outs \<and>
       (\<forall>(name, frames) \<in> set outs. frames \<noteq> [] \<and> visible fs' (path_join dir name) = Some (encodeConfig frames)) \<and>
       visible fs' (path_join dir ''manifest.json'') = Some (marshal m @ [0x0a])"
    using dry_run_spec [OF inv assms src z(1) o(1), of marshal dir d] by (elim exE conjE) (rule that)
  have each: "\<exists>frames c'. frames \<noteq> [] \<and> gc_FrameCount g = length frames \<and>
          visible fs' (path_join dir (gc_Name g)) = Some (encodeConfig frames) \<and>
          parseQTraceConfigBytes sha256 (encodeConfig frames) = Some (Inr c') \<and> map Decoded (Frames c') = map Decoded frames"
    if "r = Inr m" "g \<in> set (Generated m)" for m g
  proof -
    from m that obtain name frames where g: "g = generated_ref sha256 dir name frames" "(name, frames) \<in> set outs" by auto
    with m that(1) have "frames \<noteq> []" "visible fs' (path_join dir name) = Some (encodeConfig frames)" by auto
    moreover have "bodies_ok frames" using o(3) g(2) by (auto simp: list_all_iff)
    ultimately show ?thesis using parse_generated [of frames sha256] g(1) by (auto simp: generated_ref_def)
  qed
  have fin: "\<exists>data c zs.
       read_file rd configPath fs = Inr data \<and> parseQTraceConfigBytes sha256 data = Some (Inr c) \<and> zeroMessageFrames c = Inr zs \<and>
       FrameCount m = length (Frames c) \<and> MessageFrameCount m + PrivateFrameCount m = FrameCount m \<and>
       (RoundTripExact m \<longleftrightarrow> data = encodeConfig (Frames c)) \<and> \<not> ContainsGlobalClear m \<and>
       map gc_Name (Generated m) = sorted_names \<and>
       (\<forall>g \<in> set (Generated m). \<exists>frames c'. frames \<noteq> [] \<and> gc_FrameCount g = length frames \<and>
          visible fs' (path_join dir (gc_Name g)) = Some (encodeConfig frames) \<and>
          parseQTraceConfigBytes sha256 (encodeConfig frames) = Some (Inr c') \<and> map Decoded (Frames c') = map Decoded frames) \<and>
       visible fs' (path_join dir ''original-roundtrip.cfg'') = Some (encodeConfig (Frames c)) \<and>
       visible fs' (path_join dir ''cleanup-zero.cfg'') = Some (encodeConfig zs) \<and>
       visible fs' (path_join dir ''manifest.json'') = Some (marshal m @ [0x0a])" if "r = Inr m" for m
  proof -
    note mm = m [rule_format, OF that]
    have "\<forall>g \<in> set (Generated m). \<exists>frames c'. frames \<noteq> [] \<and> gc_FrameCount g = length frames \<and>
          visible fs' (path_join dir (gc_Name g)) = Some (encodeConfig frames) \<and>
          parseQTraceConfigBytes sha256 (encodeConfig frames) = Some (Inr c') \<and> map Decoded (Frames c') = map Decoded frames"
      using each [OF that] by blast
    moreover have "visible fs' (path_join dir ''original-roundtrip.cfg'') = Some (encodeConfig (Frames c))"
        "visible fs' (path_join dir ''cleanup-zero.cfg'') = Some (encodeConfig zs)"
      using mm original o(5) by blast+
    ultimately show ?thesis using mm rd z(1)
      by (elim conjE) (intro exI [of _ data] exI [of _ c] exI [of _ zs] conjI)
  qed
  show ?thesis
    unfolding mk
  proof (intro exI conjI allI)
    show "writeDryRun wr sha256 rd None marshal configPath dir fs d = Some (r, fs', d')" by (rule r)
    show "p \<notin> path_join dir ` set (''manifest.json'' # dry_names) \<longrightarrow> visible fs' p = visible fs p" for p using kept by blast
  next
    fix data' c' zs' outs'
    show "read_file rd configPath fs = Inr data' \<and> parseQTraceConfigBytes sha256 data' = Some (Inr c') \<and>
       None = None \<and> zeroMessageFrames c' = Inr zs' \<and> dry_outputs c' zs' = Some outs' \<and>
       list_all (\<lambda>(name, frames). frames \<noteq> []) outs' \<and> reliable wr \<longrightarrow> (\<exists>m. r = Inr m)"
      using live rd z(1) o(1) by (cases r) auto
  qed (rule impI, rule fin)
qed

section \<open>A sample source\<close>

text \<open>A mask frame and both private commands.\<close>

definition sample_frames :: "diagFrame list" where
  "sample_frames = [sample_mask_frame, sample_private_frame, \<lparr>ID = 2, Decoded = [0x4b, 0x55, 0x04, 0x00, 0x42, 0xf7]\<rparr>]"

definition sample_source :: qtraceConfig where
  "sample_source = \<lparr>Frames = sample_frames, MessageFrames = MessageFrames sample_config, PrivateFrames = tl sample_frames,
     SourceSHA256 = [], SourceBytes = length (encodeConfig sample_frames)\<rparr>"

lemma sample_source_parses: "parseQTraceConfigBytes (\<lambda>_. []) (encodeConfig sample_frames) = Some (Inr sample_source)"
proof -
  have "\<forall>f \<in> set (Frames sample_config). frame_body_ok (Decoded f)"
    using parsed_config_inv [OF sample_parses] by (simp add: config_inv_def)
  moreover have "frame_body_ok [0x4b, 0x55, 0x04, 0x00, 0x42, 0xf7]"
    by (simp add: frame_body_ok_def crc_trailer_ok_def crc_eval put16_def cfg_consts)
  ultimately have "\<forall>f \<in> set sample_frames. frame_body_ok (Decoded f)" by (simp add: sample_frames_def sample_config_def)
  from parse_encodeConfig [OF this, of "\<lambda>_. []"] show ?thesis
    using sample_mask_parses
    by (simp add: sample_frames_def sample_source_def add_frame_def empty_config_def sample_defs cfg_consts Let_def)
qed

lemma sample_source_zero:
  "\<exists>z. zeroMessageFrames sample_source = Inr [z] \<and> ID z = 0"
  using sample_mask_parses
  by (simp add: zeroMessageFrames_def sample_source_def sample_config_def buildMessageMaskFrame_def sample_mask_frame_def Let_def)

lemma sample_outputs:
  assumes "zeroMessageFrames sample_source = Inr [z]" and "ID z = 0"
  shows "\<exists>outs. dry_outputs sample_source [z] = Some outs \<and> list_all (\<lambda>(name, frames). frames \<noteq> []) outs"
  using assms
  by (simp add: dry_outputs_def select_or_nil_def selectFrames_def select_step_def allMessageFrameIDs_def sample_source_def sample_frames_def
      sample_defs idx_def cfg_consts privateFrameSelected_def slice_def uint16le_def le16_def path_join_def)

section \<open>Property\<close>

text \<open>The dry run never panics, touches no file but its ten outputs, and is exact: if it succeeds, the nine
  configurations are listed by name, each is a non-empty file that the parser reads back as exactly the
  frames it was written from, among them the original frames and the zeroed masks for the cleanup; the
  manifest counts every frame once, claims an exact round trip only when re-encoding the source gives the
  same bytes, and never reports a global clear, which the parser would have refused.  Conversely it
  succeeds whenever no system call fails, the source parses and every configuration has a frame.\<close>
theorem writeDryRun_exact:
  assumes "writes_ok wr"
  shows "\<exists>r fs' d'. writeDryRun wr sha256 rd mkdir marshal configPath dir fs d = Some (r, fs', d') \<and>
    (\<forall>p. p \<notin> path_join dir ` set (''manifest.json'' # dry_names) \<longrightarrow> visible fs' p = visible fs p) \<and>
    (\<forall>m. r = Inr m \<longrightarrow> (\<exists>data c zs.
       read_file rd configPath fs = Inr data \<and> parseQTraceConfigBytes sha256 data = Some (Inr c) \<and> zeroMessageFrames c = Inr zs \<and>
       FrameCount m = length (Frames c) \<and> MessageFrameCount m + PrivateFrameCount m = FrameCount m \<and>
       (RoundTripExact m \<longleftrightarrow> data = encodeConfig (Frames c)) \<and> \<not> ContainsGlobalClear m \<and>
       map gc_Name (Generated m) = sorted_names \<and>
       (\<forall>g \<in> set (Generated m). \<exists>frames c'. frames \<noteq> [] \<and> gc_FrameCount g = length frames \<and>
          visible fs' (path_join dir (gc_Name g)) = Some (encodeConfig frames) \<and>
          parseQTraceConfigBytes sha256 (encodeConfig frames) = Some (Inr c') \<and> map Decoded (Frames c') = map Decoded frames) \<and>
       visible fs' (path_join dir ''original-roundtrip.cfg'') = Some (encodeConfig (Frames c)) \<and>
       visible fs' (path_join dir ''cleanup-zero.cfg'') = Some (encodeConfig zs) \<and>
       visible fs' (path_join dir ''manifest.json'') = Some (marshal m @ [0x0a]))) \<and>
    (\<forall>data c zs outs. read_file rd configPath fs = Inr data \<and> parseQTraceConfigBytes sha256 data = Some (Inr c) \<and>
       mkdir = None \<and> zeroMessageFrames c = Inr zs \<and> dry_outputs c zs = Some outs \<and>
       list_all (\<lambda>(name, frames). frames \<noteq> []) outs \<and> reliable wr \<longrightarrow> (\<exists>m. r = Inr m))"
  using assms by (rule writeDryRun_spec)

theorem writeDryRun_exact_witness:
  "\<exists>m fs' d'. writeDryRun (\<lambda>path d. (no_faults, d)) (\<lambda>_. []) None None (\<lambda>_. []) ''/q'' ''/o'' [''/q'' \<mapsto> encodeConfig sample_frames] ()
      = Some (Inr m, fs', d') \<and>
    FrameCount m = 3 \<and> map gc_Name (Generated m) = sorted_names \<and>
    visible fs' (path_join ''/o'' ''original-roundtrip.cfg'') = Some (encodeConfig sample_frames)"
proof -
  let ?wr = "\<lambda>(path :: string) (d :: unit). (no_faults, d)" and ?fs = "[''/q'' \<mapsto> encodeConfig sample_frames]"
  have wr: "writes_ok ?wr" "reliable ?wr"
    by (simp_all add: writes_ok_def reliable_def no_faults_ok writeFileAtomic_no_faults)
  have rd: "read_file None ''/q'' ?fs = Inr (encodeConfig sample_frames)" by (simp add: read_file_def)
  obtain z where z: "zeroMessageFrames sample_source = Inr [z]" "ID z = 0" using sample_source_zero by blast
  obtain outs where o: "dry_outputs sample_source [z] = Some outs" "list_all (\<lambda>(name, frames). frames \<noteq> []) outs"
    using sample_outputs [OF z] by blast
  have fr: "Frames sample_source = sample_frames" "length sample_frames = 3" by (simp_all add: sample_source_def sample_frames_def)
  from writeDryRun_exact [OF wr(1), of "\<lambda>_. []" None None "\<lambda>_. []" "''/q''" "''/o''" ?fs "()"]
  obtain r fs' d' where run: "writeDryRun ?wr (\<lambda>_. []) None None (\<lambda>_. []) ''/q'' ''/o'' ?fs () = Some (r, fs', d')"
    and ok: "\<exists>m. r = Inr m"
    and m: "\<And>m. r = Inr m \<Longrightarrow> FrameCount m = 3 \<and> map gc_Name (Generated m) = sorted_names \<and>
        visible fs' (path_join ''/o'' ''original-roundtrip.cfg'') = Some (encodeConfig sample_frames)"
    using rd sample_source_parses z(1) o wr(2) fr by (elim exE conjE) fastforce
  then show ?thesis by blast
qed

end
