(* ===== verification/Reducer_Main.thy ===== *)
theory Reducer_Main
  imports Reducer_Search Reducer_Dry_Run
begin

text \<open>
  \<^verbatim>\<open>tools/u60-qtrace-reducer/main.go\<close> and \<^verbatim>\<open>private_probe.go\<close>: the commands of the tool.  A command takes the values
  of its flags (the result of \<^verbatim>\<open>flags.Parse\<close>, an error or a record), the files and the device state, and
  returns the error it ends with, the lines it prints and what became of the process: it ended before a
  runner was made (\<open>Early\<close>), or with a runner in its last state (\<open>Used\<close>).  What the operating system
  answers and the JSON texts are the parameter \<open>host\<close>; the usage text goes to the standard error stream and is
  not part of the model.
\<close>

section \<open>The host and the flags\<close>

record commonDeviceFlags =
  configPath :: string
  workDir :: string
  diagMDLog :: string
  confirm :: bool
  settle :: int
  drain :: int
  poll :: int
  stopGrace :: int
  keep :: bool
  fileSize :: int
  fileCount :: int

text \<open>The defaults \<^verbatim>\<open>addCommonDeviceFlags\<close> registers.\<close>

definition addCommonDeviceFlags :: commonDeviceFlags where
  "addCommonDeviceFlags = \<lparr>configPath = ''qtrace.cfg'', workDir = ''/tmp/u60-qtrace-reducer'', diagMDLog = ''diag_mdlog'',
     confirm = False, settle = Second, drain = 1500 * Millisecond, poll = 250 * Millisecond, stopGrace = 2 * Second,
     keep = False, fileSize = 4, fileCount = 32\<rparr>"

record privateProbeSummary =
  pp_Target :: targetKind
  pp_Mode :: privateMode
  pp_Label :: string
  pp_Started :: int
  pp_Completed :: "int option"
  pp_ColdStateConfirmed :: bool
  PriorPrivateState :: string
  pp_Record :: runRecord
  pp_PrivateStateAtExit :: string
  pp_StateWarning :: string

record controlsFlags =
  cl_common :: commonDeviceFlags
  cl_target :: string
  cl_window :: int
  cl_repeats :: int
  cl_minimumHits :: int
  cl_cold :: bool

record ddminFlags =
  df_common :: commonDeviceFlags
  df_target :: string
  df_controlsReport :: string
  df_calibrationRuns :: int
  df_positiveMin :: int
  df_candidateRepeats :: int
  df_candidateMin :: int
  df_minimumWindow :: int
  df_maximumWindow :: int
  df_windowMargin :: int

record probeFlags =
  pf_common :: commonDeviceFlags
  pf_target :: string
  pf_mode :: string
  pf_label :: string
  pf_window :: int
  pf_cold :: bool
  pf_prior :: string

record inspectFlags =
  if_target :: string
  if_paths :: "string list"

record dryFlags =
  dr_config :: string
  dr_out :: string

record 'd host =
  hs_device :: "'d device"
  hs_read :: "string \<Rightarrow> err"
  hs_mkdir :: "string \<Rightarrow> err"
  hs_report :: "string \<Rightarrow> 'd \<Rightarrow> new_faults \<times> 'd"
  hs_open :: "string \<Rightarrow> string + string qmdl_file"
  hs_ctx :: "ctx_point \<Rightarrow> err"
  hs_unmarshal :: "byte list \<Rightarrow> string + controlsSummary"
  hs_controls :: "controlsSummary \<Rightarrow> byte list"
  hs_ddmin :: "ddminSummary \<Rightarrow> byte list"
  hs_probe :: "privateProbeSummary \<Rightarrow> byte list"
  hs_manifest :: "configManifest \<Rightarrow> byte list"
  hs_metrics :: "captureMetrics \<Rightarrow> string"

datatype 'd process = Early file_sys 'd | Used "'d runner"

type_synonym 'd finish = "((err \<times> string list) \<times> 'd process) option"

definition text_of :: "byte list \<Rightarrow> string" where
  "text_of bs = map (\<lambda>b. char_of (unat b)) bs"

section \<open>Making a runner\<close>

definition target_error :: "string \<Rightarrow> string" where
  "target_error v = ''invalid target '' @ quote v @ '' (want nr, lte, or combined)''"

definition makeRunner :: "'d host \<Rightarrow> commonDeviceFlags \<Rightarrow> file_sys \<Rightarrow> 'd \<Rightarrow> ((string + 'd runner) \<times> 'd) option" where
  "makeRunner h common fs d =
     (if \<not> confirm common then Some (Inl ''refusing device execution without --confirm-device'', d)
      else if settle common < 0 \<or> drain common \<le> 0 \<or> poll common \<le> 0 \<or> stopGrace common \<le> 0
      then Some (Inl ''settle must be non-negative; drain, poll, and stop-grace must be positive'', d)
      else if fileSize common \<le> 0 \<or> fileCount common \<le> 0
      then Some (Inl ''file-size-mb and file-count must be positive'', d)
      else do {
        parsed \<leftarrow> parseQTraceConfig (dv_sha256 (hs_device h)) (hs_read h (configPath common)) (configPath common) fs;
        case parsed of
          Inl e \<Rightarrow> Some (Inl e, d)
        | Inr (config, _) \<Rightarrow>
            (let dir = path_join (workDir common) ''reports''; (n, d) = hs_report h dir d in
             case newReportWriter n dir of
               Inl e \<Rightarrow> Some (Inl e, d)
             | Inr writer \<Rightarrow>
                 Some (Inr \<lparr>opts = \<lparr>Config = config, initialized = True, WorkDir = workDir common, DiagMDLog = diagMDLog common,
                                   Settle = settle common, Drain = drain common, Poll = poll common,
                                   StopGrace = stopGrace common, KeepCaptures = keep common,
                                   FileSizeMB = fileSize common, FileCount = fileCount common\<rparr>,
                            locked = False, active = None, launches = [], reports = writer, files = fs, dev = d\<rparr>, d)) })"

text \<open>The deferred calls: \<^verbatim>\<open>Reports.Close\<close>, whose error is dropped.\<close>

definition close_reports :: "'d runner \<Rightarrow> 'd runner" where
  "close_reports s = s\<lparr>reports := snd (Close None None (reports s))\<rparr>"

text \<open>A summary written for its own sake: \<^verbatim>\<open>_ = runner.Reports.WriteSummary(name, summary)\<close>.\<close>

definition write_partial :: "'d device \<Rightarrow> string \<Rightarrow> byte list \<Rightarrow> 'd runner \<Rightarrow> err \<times> 'd runner" where
  "write_partial D name json s =
     (let (w, s) = sys (dv_write D (path_join (rw_dir (reports s)) name)) s;
          (e, fs) = WriteSummary w name json (reports s) (files s)
      in (e, s\<lparr>files := fs\<rparr>))"

text \<open>The frame of the commands that test candidates: the runner is made and locked, the body runs, and whatever it
  returns the deferred \<^verbatim>\<open>emergencyRelease\<close> and \<^verbatim>\<open>Close\<close> follow.\<close>

definition with_runner :: "'d host \<Rightarrow> commonDeviceFlags \<Rightarrow> ('d runner \<Rightarrow> ((err \<times> string list) \<times> 'd runner) option) \<Rightarrow>
    file_sys \<Rightarrow> 'd \<Rightarrow> 'd finish" where
  "with_runner h common body fs d = do {
     (made, d) \<leftarrow> makeRunner h common fs d;
     case made of
       Inl e \<Rightarrow> Some ((Some e, []), Early fs d)
     | Inr s \<Rightarrow>
         (let (e, s) = acquire (hs_device h) s in
          case e of
            Some e \<Rightarrow> Some ((Some e, []), Used (close_reports s))
          | None \<Rightarrow> do {
              (r, s) \<leftarrow> body s;
              (_, s) \<leftarrow> emergencyRelease (hs_device h) s;
              Some (r, Used (close_reports s)) }) }"

section \<open>The commands\<close>

definition runCleanupCommand :: "'d host \<Rightarrow> string + commonDeviceFlags \<Rightarrow> file_sys \<Rightarrow> 'd \<Rightarrow> 'd finish" where
  "runCleanupCommand h parsed fs d =
     (case parsed of
        Inl e \<Rightarrow> Some ((Some e, []), Early fs d)
      | Inr common \<Rightarrow> do {
          (made, d) \<leftarrow> makeRunner h common fs d;
          case made of
            Inl e \<Rightarrow> Some ((Some e, []), Early fs d)
          | Inr s \<Rightarrow>
              (let (e, s) = acquire (hs_device h) s in
               case e of
                 Some e \<Rightarrow> Some ((Some e, []), Used (close_reports s))
               | None \<Rightarrow> do {
                   (e, s) \<leftarrow> cleanup (hs_device h) MainCtx ''manual'' s;
                   let out = (if e = None then [''explicit zero-mask cleanup completed for all 23 original ranges''] else []);
                   Some ((e, out), Used (close_reports (release (hs_device h) s))) }) })"

definition runInspectQMDLCommand :: "'d host \<Rightarrow> string + inspectFlags \<Rightarrow> file_sys \<Rightarrow> 'd \<Rightarrow> 'd finish" where
  "runInspectQMDLCommand h parsed fs d =
     (case parsed of
        Inl e \<Rightarrow> Some ((Some e, []), Early fs d)
      | Inr flags \<Rightarrow>
          if if_paths flags = [] then Some ((Some ''inspect-qmdl requires at least one .qmdl path'', []), Early fs d)
          else case parseTarget (if_target flags) of
            Inl v \<Rightarrow> Some ((Some (target_error v), []), Early fs d)
          | Inr target \<Rightarrow> do {
              r \<leftarrow> analyzeQMDLFiles (hs_ctx h) (hs_open h) (if_paths flags) [] target;
              case r of
                Inl e \<Rightarrow> Some ((Some (qmdl_error_text e), []), Early fs d)
              | Inr metrics \<Rightarrow> Some ((None, [hs_metrics h metrics]), Early fs d) })"

definition runDryCommand :: "'d host \<Rightarrow> string + dryFlags \<Rightarrow> file_sys \<Rightarrow> 'd \<Rightarrow> 'd finish" where
  "runDryCommand h parsed fs d =
     (case parsed of
        Inl e \<Rightarrow> Some ((Some e, []), Early fs d)
      | Inr flags \<Rightarrow> do {
          (r, fs, d) \<leftarrow> writeDryRun (dv_write (hs_device h)) (dv_sha256 (hs_device h)) (hs_read h (dr_config flags))
             (hs_mkdir h (dr_out flags)) (hs_manifest h) (dr_config flags) (dr_out flags) fs d;
          case r of
            Inl e \<Rightarrow> Some ((Some e, []), Early fs d)
          | Inr manifest \<Rightarrow> Some ((None, [text_of (hs_manifest h manifest)]), Early fs d) })"

definition controls_body :: "'d host \<Rightarrow> controlsFlags \<Rightarrow> targetKind \<Rightarrow> 'd runner \<Rightarrow> ((err \<times> string list) \<times> 'd runner) option" where
  "controls_body h flags target s = do {
     ((summary, e), s) \<leftarrow> run_controls (hs_device h) (hs_controls h)
        \<lparr>ct_Target = target, Repeats = cl_repeats flags, MinimumPositiveHit = cl_minimumHits flags,
         ct_ColdStateConfirmed = cl_cold flags, ct_Window = cl_window flags\<rparr> s;
     let s = (case summary of
                None \<Rightarrow> s
              | Some sm \<Rightarrow> snd (write_partial (hs_device h) (''controls-'' @ target @ ''-partial.json'') (hs_controls h sm) s));
     Some ((e, []), s) }"

definition runControlsCommand :: "'d host \<Rightarrow> string + controlsFlags \<Rightarrow> file_sys \<Rightarrow> 'd \<Rightarrow> 'd finish" where
  "runControlsCommand h parsed fs d =
     (case parsed of
        Inl e \<Rightarrow> Some ((Some e, []), Early fs d)
      | Inr flags \<Rightarrow>
          if cl_repeats flags \<le> 0 \<or> cl_window flags \<le> 0 \<or> cl_minimumHits flags < 0 \<or> cl_minimumHits flags > cl_repeats flags
          then Some ((Some ''repeats/window must be positive and positive-min-hits must be within 0..repeats'', []), Early fs d)
          else if \<not> cl_cold flags
          then Some ((Some ''no-private controls require a modem/device restart and --confirm-cold-private-state'', []), Early fs d)
          else case parseTarget (cl_target flags) of
            Inl v \<Rightarrow> Some ((Some (target_error v), []), Early fs d)
          | Inr target \<Rightarrow> with_runner h (cl_common flags) (controls_body h flags target) fs d)"

definition parseTargetList :: "string \<Rightarrow> string + targetKind list" where
  "parseTargetList v =
     (if EqualFold (TrimSpace v) ''all'' then Inr [targetNR, targetLTE, targetCombined]
      else case parseTarget v of Inl w \<Rightarrow> Inl (target_error w) | Inr target \<Rightarrow> Inr [target])"

definition ddmin_options :: "ddminFlags \<Rightarrow> targetKind \<Rightarrow> ddminOptions" where
  "ddmin_options flags target =
     \<lparr>dm_Target = target, dm_ControlsReport = df_controlsReport flags, CalibrationRuns = df_calibrationRuns flags,
      PositiveMinimumHit = df_positiveMin flags, CandidateRepeats = df_candidateRepeats flags,
      CandidateMinHits = df_candidateMin flags, WindowMargin = df_windowMargin flags,
      MinimumWindow = df_minimumWindow flags, MaximumWindow = df_maximumWindow flags\<rparr>"

fun ddmin_body :: "'d host \<Rightarrow> ddminFlags \<Rightarrow> targetKind list \<Rightarrow> 'd runner \<Rightarrow> ((err \<times> string list) \<times> 'd runner) option" where
  "ddmin_body h flags [] s = Some ((None, []), s)"
| "ddmin_body h flags (target # targets) s = do {
     ((summary, runErr), s) \<leftarrow> run_ddmin (hs_device h) (hs_unmarshal h) (hs_ddmin h) (ddmin_options flags target) s;
     let s = (case summary of
                None \<Rightarrow> s
              | Some sm \<Rightarrow> snd (write_partial (hs_device h) (''ddmin-'' @ target @ ''-partial.json'') (hs_ddmin h sm) s));
     case runErr of
       Some e \<Rightarrow> Some ((Some (target @ '' ddmin: '' @ e), []), s)
     | None \<Rightarrow> ddmin_body h flags targets s }"

text \<open>The first error among the targets, in their order.\<close>

fun validate_targets :: "'d host \<Rightarrow> file_sys \<Rightarrow> string \<Rightarrow> targetKind list \<Rightarrow> err" where
  "validate_targets h fs report [] = None"
| "validate_targets h fs report (target # targets) =
     (case validateControlsReport (hs_unmarshal h) fs report target of
        Some e \<Rightarrow> Some e
      | None \<Rightarrow> validate_targets h fs report targets)"

definition runDDMinCommand :: "'d host \<Rightarrow> string + ddminFlags \<Rightarrow> file_sys \<Rightarrow> 'd \<Rightarrow> 'd finish" where
  "runDDMinCommand h parsed fs d =
     (case parsed of
        Inl e \<Rightarrow> Some ((Some e, []), Early fs d)
      | Inr flags \<Rightarrow>
          if df_calibrationRuns flags \<le> 0 \<or> df_candidateRepeats flags \<le> 0 \<or> df_candidateMin flags \<le> 0 \<or>
             df_candidateMin flags > df_candidateRepeats flags
          then Some ((Some (''calibration-runs/candidate-repeats must be positive and '' @
             ''candidate-min-hits must be within 1..candidate-repeats''), []), Early fs d)
          else if df_positiveMin flags < 0 \<or> df_positiveMin flags > df_calibrationRuns flags
          then Some ((Some ''positive-min-hits must be within 0..calibration-runs'', []), Early fs d)
          else if df_minimumWindow flags \<le> 0 \<or> df_maximumWindow flags \<le> 0 \<or> df_minimumWindow flags > df_maximumWindow flags \<or>
             df_windowMargin flags < 0
          then Some ((Some (''capture windows must be positive, minimum-window <= maximum-window, '' @
             ''and window-margin non-negative''), []), Early fs d)
          else case parseTargetList (df_target flags) of
            Inl e \<Rightarrow> Some ((Some e, []), Early fs d)
          | Inr targets \<Rightarrow>
             (case validate_targets h fs (df_controlsReport flags) targets of
                Some e \<Rightarrow> Some ((Some e, []), Early fs d)
              | None \<Rightarrow> with_runner h (df_common flags) (ddmin_body h flags targets) fs d))"

definition parsePrivateProbeMode :: "string \<Rightarrow> string + privateMode" where
  "parsePrivateProbeMode v =
     (let t = ToLower (TrimSpace v) in
      if t = ''both'' then Inr PrivateBoth
      else if t = ''9001'' \<or> t = ''0x9001'' \<or> t = ''0x44/0x9001'' then Inr Private9001
      else if t = ''0004'' \<or> t = ''0x0004'' \<or> t = ''0x55/0x0004'' then Inr Private0004
      else Inl (''invalid private mode '' @ quote v @ '' (want both, 9001, or 0004)''))"

definition probe_body :: "'d host \<Rightarrow> probeFlags \<Rightarrow> targetKind \<Rightarrow> privateMode \<Rightarrow> string \<Rightarrow> 'd runner \<Rightarrow>
    ((err \<times> string list) \<times> 'd runner) option" where
  "probe_body h flags target mode priorState s = do {
     let stage = (if priorState \<noteq> [] then ''sequential-private-control'' else ''cold-private-probe'');
     let effectiveState = (if priorState \<noteq> [] then ''prior '' @ priorState @ '' + sent '' @ private_name mode else private_name mode);
     let warning = (if priorState \<noteq> []
          then ''This is a same-boot sequential positive control, not an independent cold-state quadrant.''
          else ''Only the first candidate capture belongs to the confirmed cold private-command state. '' @
               ''Repeating another quadrant requires another modem/device restart.'');
     let (started, s) = sys (dv_now (hs_device h)) s;
     let summary = \<lparr>pp_Target = target, pp_Mode = mode, pp_Label = pf_label flags, pp_Started = started, pp_Completed = None,
          pp_ColdStateConfirmed = pf_cold flags, PriorPrivateState = priorState, pp_Record = zero_record,
          pp_PrivateStateAtExit = effectiveState @ ''; persistence/disable semantics unknown'', pp_StateWarning = warning\<rparr>;
     ((r, runErr), s) \<leftarrow> testCandidate (hs_device h)
        \<lparr>cd_stage = stage, cd_control = pf_label flags, cd_target = target, cd_frameIDs = [], cd_zeroMasks = False,
         cd_private = mode, cd_privateState = effectiveState, cd_attempt = 1, cd_positiveOK = False,
         cd_window = pf_window flags\<rparr> s;
     let (completed, s) = sys (dv_now (hs_device h)) s;
     let summary = summary\<lparr>pp_Record := r, pp_Completed := Some completed\<rparr>;
     let (e, s) = write_partial (hs_device h) (''private-probe-'' @ sanitizeName (pf_label flags) @ ''-summary.json'') (hs_probe h summary) s;
     Some (if e \<noteq> None then (e, []) else (runErr, [text_of (hs_probe h summary)]), s) }"

definition runPrivateProbeCommand :: "'d host \<Rightarrow> string + probeFlags \<Rightarrow> file_sys \<Rightarrow> 'd \<Rightarrow> 'd finish" where
  "runPrivateProbeCommand h parsed fs d =
     (case parsed of
        Inl e \<Rightarrow> Some ((Some e, []), Early fs d)
      | Inr flags \<Rightarrow>
          let priorState = TrimSpace (pf_prior flags) in
          if \<not> pf_cold flags \<and> priorState = []
          then Some ((Some ''private-probe requires either --confirm-cold-private-state or an explicit --prior-private-state'', []), Early fs d)
          else if pf_cold flags \<and> priorState \<noteq> []
          then Some ((Some ''--confirm-cold-private-state and --prior-private-state are mutually exclusive'', []), Early fs d)
          else if pf_window flags \<le> 0 \<or> TrimSpace (pf_label flags) = []
          then Some ((Some ''window must be positive and label must not be empty'', []), Early fs d)
          else case parseTarget (pf_target flags) of
            Inl v \<Rightarrow> Some ((Some (target_error v), []), Early fs d)
          | Inr target \<Rightarrow>
             (case parsePrivateProbeMode (pf_mode flags) of
                Inl e \<Rightarrow> Some ((Some e, []), Early fs d)
              | Inr mode \<Rightarrow> with_runner h (pf_common flags) (probe_body h flags target mode priorState) fs d))"

section \<open>Dispatch\<close>

text \<open>\<^verbatim>\<open>flags.Parse\<close> of each command.\<close>

record flag_parsers =
  fp_dry :: "string list \<Rightarrow> string + dryFlags"
  fp_inspect :: "string list \<Rightarrow> string + inspectFlags"
  fp_cleanup :: "string list \<Rightarrow> string + commonDeviceFlags"
  fp_controls :: "string list \<Rightarrow> string + controlsFlags"
  fp_probe :: "string list \<Rightarrow> string + probeFlags"
  fp_ddmin :: "string list \<Rightarrow> string + ddminFlags"

definition reducerVersion :: string where
  "reducerVersion = ''0.2.2''"

definition run :: "'d host \<Rightarrow> flag_parsers \<Rightarrow> string list \<Rightarrow> file_sys \<Rightarrow> 'd \<Rightarrow> 'd finish" where
  "run h parsers args fs d =
     (case args of
        [] \<Rightarrow> Some ((Some ''missing command'', []), Early fs d)
      | command # rest \<Rightarrow>
          if command = ''dry-run'' then runDryCommand h (fp_dry parsers rest) fs d
          else if command = ''inspect-qmdl'' then runInspectQMDLCommand h (fp_inspect parsers rest) fs d
          else if command = ''cleanup'' then runCleanupCommand h (fp_cleanup parsers rest) fs d
          else if command = ''controls'' then runControlsCommand h (fp_controls parsers rest) fs d
          else if command = ''private-probe'' then runPrivateProbeCommand h (fp_probe parsers rest) fs d
          else if command = ''ddmin'' then runDDMinCommand h (fp_ddmin parsers rest) fs d
          else if command = ''version'' \<or> command = ''--version'' \<or> command = ''-version''
          then Some ((None, [''u60-qtrace-reducer '' @ reducerVersion]), Early fs d)
          else if command = ''help'' \<or> command = ''--help'' \<or> command = ''-h'' then Some ((None, []), Early fs d)
          else Some ((Some (''unknown command '' @ quote command), []), Early fs d))"

section \<open>The state between two operations\<close>

definition clean_state :: "'d runner \<Rightarrow> bool" where
  "clean_state s \<longleftrightarrow> config_inv (Config (opts s)) \<and> separated (zero_bytes (Config (opts s))) False (applied s) \<and> table_ok (reports s)"

lemma clean_state_run: "reducer_run D s u \<Longrightarrow> clean_state s \<Longrightarrow> clean_state u"
  using reducer_run_inv [of D s u] by (simp add: clean_state_def)

lemma write_partial_run: "write_partial D name json s = (e, s') \<Longrightarrow> reducer_run D s s'"
  using run_io [OF run_start, where D = D and s = s and d = "snd (dv_write D (path_join (rw_dir (reports s)) name) (dev s))"]
  by (auto simp: write_partial_def sys_eq Let_def split: prod.splits)

lemma acquire_failed_unlocked:
  assumes "acquire D s = (Some e, s')" and "\<not> locked s"
  shows "\<not> locked s'"
  using assms
  by (auto simp: acquire_def sys_eq release_def Let_def split: if_splits option.splits prod.splits)

lemma close_reports_fields [simp]:
  "locked (close_reports s) = locked s" "opts (close_reports s) = opts s" "applied (close_reports s) = applied s"
  "\<not> rw_open (reports (close_reports s))" "table_ok (reports (close_reports s)) = table_ok (reports s)"
  by (simp_all add: close_reports_def Close_def applied_def table_ok_def)

text \<open>What the host promises: temporary files are named by the pattern and the reports of earlier runs are tables.\<close>

definition host_ok :: "'d host \<Rightarrow> bool" where
  "host_ok h \<longleftrightarrow> temp_names (hs_device h) \<and>
     (\<forall>dir d. \<forall>row \<in> set (nf_oldRows (fst (hs_report h dir d))). length row = length runCSVHeader)"

lemma makeRunner_spec:
  assumes "host_ok h"
  shows "\<exists>r d'. makeRunner h common fs d = Some (r, d') \<and> (\<forall>s. r = Inr s \<longrightarrow> confirm common \<and> clean_state s \<and> \<not> locked s)"
proof -
  let ?D = "hs_device h"
  obtain r where r: "parseQTraceConfig (dv_sha256 ?D) (hs_read h (configPath common)) (configPath common) fs = Some r"
    using parseQTraceConfig_total by blast
  show ?thesis
  proof (cases r)
    case (Inl e)
    then show ?thesis using r by (simp add: makeRunner_def)
  next
    case (Inr cd)
    obtain c data where cd: "cd = (c, data)" by fastforce
    have inv: "config_inv c" using parsed_config_inv parseQTraceConfig_inv(2) r Inr cd by blast
    let ?dir = "path_join (workDir common) ''reports''"
    obtain n d1 where n: "hs_report h ?dir d = (n, d1)" by fastforce
    then have old: "\<forall>row \<in> set (nf_oldRows n). length row = length runCSVHeader" using assms by (metis fst_conv host_ok_def)
    have "table_ok w" if "newReportWriter n ?dir = Inr w" for w
      using that old by (auto simp: newReportWriter_def table_ok_def Let_def split: option.splits if_splits)
    then show ?thesis using r Inr cd inv n
      by (cases "newReportWriter n ?dir") (auto simp: makeRunner_def clean_state_def applied_def Let_def)
  qed
qed

text \<open>How a command that may use the device ends.\<close>

definition ended :: "commonDeviceFlags \<Rightarrow> file_sys \<Rightarrow> 'd process \<Rightarrow> bool" where
  "ended common fs p \<longleftrightarrow>
     (case p of
        Early fs' d' \<Rightarrow> fs' = fs
      | Used s \<Rightarrow> confirm common \<and> clean_state s \<and> \<not> locked s \<and> \<not> rw_open (reports s))"

lemma clean_state_close [simp]: "clean_state (close_reports s) = clean_state s"
  by (simp add: clean_state_def)

lemma with_runner_spec:
  assumes h: "host_ok h"
    and body: "\<And>s. clean_state s \<Longrightarrow> \<exists>r s'. body s = Some (r, s') \<and> reducer_run (hs_device h) s s'"
  shows "\<exists>r p. with_runner h common body fs d = Some (r, p) \<and> ended common fs p"
proof -
  let ?D = "hs_device h"
  obtain made d1 where m: "makeRunner h common fs d = Some (made, d1)"
      "\<forall>s. made = Inr s \<longrightarrow> confirm common \<and> clean_state s \<and> \<not> locked s"
    using makeRunner_spec [OF h] by blast
  show ?thesis
  proof (cases made)
    case (Inl e)
    then show ?thesis using m(1) by (simp add: with_runner_def ended_def)
  next
    case (Inr s)
    with m(2) have s: "confirm common" "clean_state s" "\<not> locked s" by auto
    obtain e s1 where a: "acquire ?D s = (e, s1)" by fastforce
    have c1: "clean_state s1" using clean_state_run [OF run_acquire [OF run_start a] s(2)] .
    show ?thesis
    proof (cases e)
      case (Some x)
      then show ?thesis using m(1) Inr a c1 s acquire_failed_unlocked [of ?D s x s1] by (simp add: with_runner_def ended_def)
    next
      case None
      obtain r s2 where b: "body s1 = Some (r, s2)" "reducer_run ?D s1 s2" using body [OF c1] by blast
      have c2: "clean_state s2" using clean_state_run [OF b(2) c1] .
      then obtain s3 where e: "emergencyRelease ?D s2 = Some ((), s3)" "\<not> locked s3"
        using emergencyRelease_spec [of s2 ?D] by (auto simp: clean_state_def)
      have "clean_state s3" using clean_state_run [OF run_emergency [OF run_start e(1)] c2] .
      then show ?thesis using m(1) Inr a None b(1) e s(1) by (simp add: with_runner_def ended_def)
    qed
  qed
qed

section \<open>The bodies\<close>

lemma controls_body_spec:
  assumes "clean_state s"
  shows "\<exists>r s'. controls_body h flags target s = Some (r, s') \<and> reducer_run (hs_device h) s s'"
proof -
  let ?D = "hs_device h"
  let ?o = "\<lparr>ct_Target = target, Repeats = cl_repeats flags, MinimumPositiveHit = cl_minimumHits flags,
         ct_ColdStateConfirmed = cl_cold flags, ct_Window = cl_window flags\<rparr>"
  obtain sm e s1 where c: "run_controls ?D (hs_controls h) ?o s = Some ((sm, e), s1)" "reducer_run ?D s s1"
    using run_controls_spec [of s ?D "hs_controls h" ?o] assms by (auto simp: clean_state_def)
  have "reducer_run ?D s (snd (write_partial ?D name json s1))" for name json
    using reducer_run_trans [OF write_partial_run [of ?D name json s1] c(2)] by (metis prod.collapse)
  then show ?thesis using c by (cases sm) (simp_all add: controls_body_def del: append.simps)
qed

lemma ddmin_body_spec:
  assumes "host_ok h" and "df_calibrationRuns flags < 2 ^ 40" "0 < df_calibrationRuns flags"
    and "set targets \<subseteq> {targetNR, targetLTE, targetCombined}" and "clean_state s"
  shows "\<exists>r s'. ddmin_body h flags targets s = Some (r, s') \<and> reducer_run (hs_device h) s s'"
  using assms(4,5)
proof (induction targets arbitrary: s)
  case Nil
  then show ?case by (simp add: run_start)
next
  case (Cons target targets)
  let ?D = "hs_device h" and ?o = "ddmin_options flags target"
  have "config_inv (Config (opts s))" using Cons.prems(2) by (simp add: clean_state_def)
  moreover have "temp_names ?D" using assms(1) by (simp add: host_ok_def)
  moreover have "dm_Target ?o \<in> {targetNR, targetLTE, targetCombined}" using Cons.prems(1) by (simp add: ddmin_options_def)
  moreover have "CalibrationRuns (ddmin_defaults ?o) < 2 ^ 40"
    using assms(2,3) by (simp add: ddmin_defaults_def ddmin_options_def Let_def)
  ultimately obtain sm e s1 where c: "run_ddmin ?D (hs_unmarshal h) (hs_ddmin h) ?o s = Some ((sm, e), s1)" "reducer_run ?D s s1"
    using run_ddmin_spec [where D = ?D and s = s and options = ?o and unmarshal = "hs_unmarshal h" and marshal = "hs_ddmin h"] by blast
  define s2 where "s2 = (case sm of None \<Rightarrow> s1 | Some x \<Rightarrow> snd (write_partial ?D (''ddmin-'' @ target @ ''-partial.json'') (hs_ddmin h x) s1))"
  have "reducer_run ?D s (snd (write_partial ?D name json s1))" for name json
    using reducer_run_trans [OF write_partial_run [of ?D name json s1] c(2)] by (metis prod.collapse)
  then have r2: "reducer_run ?D s s2" using c(2) by (cases sm) (simp_all add: s2_def del: append.simps)
  obtain r s3 where b: "ddmin_body h flags targets s2 = Some (r, s3)" "reducer_run ?D s2 s3"
    using Cons.IH [of s2] Cons.prems clean_state_run [OF r2] by auto
  have "ddmin_body h flags (target # targets) s =
      (case e of Some e \<Rightarrow> Some ((Some (target @ '' ddmin: '' @ e), []), s2) | None \<Rightarrow> ddmin_body h flags targets s2)"
    using c(1) by (cases e) (simp_all add: s2_def Let_def del: append.simps)
  then show ?case using r2 b reducer_run_trans [OF b(2) r2] by (cases e) simp_all
qed

lemma probe_body_spec:
  assumes "clean_state s"
  shows "\<exists>r s'. probe_body h flags target mode prior s = Some (r, s') \<and> reducer_run (hs_device h) s s'"
proof -
  let ?D = "hs_device h"
  let ?stage = "if prior \<noteq> [] then ''sequential-private-control'' else ''cold-private-probe''"
  let ?eff = "if prior \<noteq> [] then ''prior '' @ prior @ '' + sent '' @ private_name mode else private_name mode"
  let ?c = "\<lparr>cd_stage = ?stage, cd_control = pf_label flags, cd_target = target, cd_frameIDs = [], cd_zeroMasks = False,
         cd_private = mode, cd_privateState = ?eff, cd_attempt = 1, cd_positiveOK = False, cd_window = pf_window flags\<rparr>"
  define d1 where "d1 = snd (dv_now ?D (dev s))"
  have io: "reducer_run ?D t (t\<lparr>dev := d\<rparr>)" for t d using run_io [OF run_start, where D = ?D and s = t and d = d and fs = "files t"] by simp
  have inv: "config_inv (Config (opts (s\<lparr>dev := d1\<rparr>)))" "set (cd_frameIDs ?c) \<subseteq> set (allMessageFrameIDs (Config (opts (s\<lparr>dev := d1\<rparr>))))"
    using assms by (simp_all add: clean_state_def)
  obtain r e s2 where t: "testCandidate ?D ?c (s\<lparr>dev := d1\<rparr>) = Some ((r, e), s2)" using testCandidate_spec [OF inv] by blast
  have r2: "reducer_run ?D s s2" using reducer_run_trans [OF run_test [OF run_start inv(2) t] io] .
  define s3 where "s3 = s2\<lparr>dev := snd (dv_now ?D (dev s2))\<rparr>"
  have r3: "reducer_run ?D s s3" unfolding s3_def using reducer_run_trans [OF io r2] .
  have r4: "reducer_run ?D s (snd (write_partial ?D name json s3))" for name json
    using reducer_run_trans [OF write_partial_run [of ?D name json s3] r3] by (metis prod.collapse)
  have "\<exists>name json out. probe_body h flags target mode prior s = Some (out, snd (write_partial ?D name json s3))"
    using t by (simp add: probe_body_def sys_eq Let_def d1_def s3_def case_prod_beta del: append.simps split del: if_split) blast
  then show ?thesis using r4 by blast
qed

section \<open>The commands one by one\<close>

lemma runCleanupCommand_spec:
  assumes "host_ok h"
  shows "\<exists>r p. runCleanupCommand h parsed fs d = Some (r, p) \<and>
    (case parsed of Inl _ \<Rightarrow> p = Early fs d | Inr common \<Rightarrow> ended common fs p)"
proof (cases parsed)
  case (Inl e)
  then show ?thesis by (simp add: runCleanupCommand_def)
next
  case common: (Inr common)
  let ?D = "hs_device h"
  obtain made d1 where m: "makeRunner h common fs d = Some (made, d1)"
      "\<forall>s. made = Inr s \<longrightarrow> confirm common \<and> clean_state s \<and> \<not> locked s"
    using makeRunner_spec [OF assms] by blast
  show ?thesis
  proof (cases made)
    case (Inl e)
    then show ?thesis using m(1) common by (simp add: runCleanupCommand_def ended_def)
  next
    case (Inr s)
    with m(2) have s: "confirm common" "clean_state s" "\<not> locked s" by auto
    obtain e s1 where a: "acquire ?D s = (e, s1)" by fastforce
    have c1: "clean_state s1" using clean_state_run [OF run_acquire [OF run_start a] s(2)] .
    obtain e2 s2 where c: "cleanup ?D MainCtx ''manual'' s1 = Some (e2, s2)"
      using cleanup_spec [of s1 ?D MainCtx "''manual''"] c1 by (auto simp: clean_state_def)
    have "clean_state (release ?D s2)"
      using clean_state_run [OF run_release [OF run_cleanup [OF run_start c]] c1] .
    moreover have "\<not> locked (release ?D s2)" by (simp add: release_def)
    ultimately show ?thesis using m(1) common Inr a c c1 s acquire_failed_unlocked [of ?D s _ s1]
      by (cases e) (simp_all add: runCleanupCommand_def ended_def)
  qed
qed

lemma early_ended [simp]: "ended common fs (Early fs d)"
  by (simp add: ended_def)

lemma runControlsCommand_spec:
  assumes "host_ok h"
  shows "\<exists>r p. runControlsCommand h parsed fs d = Some (r, p) \<and>
    (p = Early fs d \<or> (\<exists>flags. parsed = Inr flags \<and> cl_cold flags \<and> ended (cl_common flags) fs p))"
proof (cases parsed)
  case (Inr flags)
  have "\<exists>r p. with_runner h (cl_common flags) (controls_body h flags target) fs d = Some (r, p) \<and> ended (cl_common flags) fs p" for target
    using with_runner_spec [OF assms controls_body_spec] .
  then obtain r p where w: "with_runner h (cl_common flags) (controls_body h flags (projr (parseTarget (cl_target flags)))) fs d = Some (r, p)"
      "ended (cl_common flags) fs p" by blast
  show ?thesis using Inr w by (cases "parseTarget (cl_target flags)") (auto simp: runControlsCommand_def)
qed (simp add: runControlsCommand_def)

lemma parseTargetList_kinds: "parseTargetList v = Inr ts \<Longrightarrow> set ts \<subseteq> {targetNR, targetLTE, targetCombined}"
  by (auto simp: parseTargetList_def dest: parseTarget_total_on_kinds split: if_splits sum.splits)

lemma runDDMinCommand_spec:
  assumes h: "host_ok h" and n: "\<And>flags. parsed = Inr flags \<Longrightarrow> df_calibrationRuns flags < 2 ^ 40"
  shows "\<exists>r p. runDDMinCommand h parsed fs d = Some (r, p) \<and>
    (p = Early fs d \<or> (\<exists>flags ts. parsed = Inr flags \<and> parseTargetList (df_target flags) = Inr ts \<and>
       validate_targets h fs (df_controlsReport flags) ts = None \<and> ended (df_common flags) fs p))"
proof (cases parsed)
  case (Inr flags)
  show ?thesis
  proof (cases "0 < df_calibrationRuns flags \<and> \<not> isl (parseTargetList (df_target flags))")
    case True
    then obtain ts where ts: "parseTargetList (df_target flags) = Inr ts" by (cases "parseTargetList (df_target flags)") auto
    have "\<exists>r p. with_runner h (df_common flags) (ddmin_body h flags ts) fs d = Some (r, p) \<and> ended (df_common flags) fs p"
      using with_runner_spec [OF h ddmin_body_spec [OF h n [OF Inr] _ parseTargetList_kinds [OF ts]]] True by blast
    then show ?thesis using Inr ts
      by (cases "validate_targets h fs (df_controlsReport flags) ts") (auto simp: runDDMinCommand_def)
  next
    case False
    then show ?thesis using Inr by (cases "parseTargetList (df_target flags)") (auto simp: runDDMinCommand_def)
  qed
qed (simp add: runDDMinCommand_def)

lemma runPrivateProbeCommand_spec:
  assumes "host_ok h"
  shows "\<exists>r p. runPrivateProbeCommand h parsed fs d = Some (r, p) \<and>
    (p = Early fs d \<or> (\<exists>flags. parsed = Inr flags \<and> (pf_cold flags \<longleftrightarrow> TrimSpace (pf_prior flags) = []) \<and> ended (pf_common flags) fs p))"
proof (cases parsed)
  case (Inr flags)
  have "\<exists>r p. with_runner h (pf_common flags) (probe_body h flags target mode prior) fs d = Some (r, p) \<and> ended (pf_common flags) fs p"
    for target mode prior
    using with_runner_spec [OF assms probe_body_spec] .
  then obtain r p where w: "with_runner h (pf_common flags) (probe_body h flags (projr (parseTarget (pf_target flags)))
        (projr (parsePrivateProbeMode (pf_mode flags))) (TrimSpace (pf_prior flags))) fs d = Some (r, p)"
      "ended (pf_common flags) fs p" by blast
  show ?thesis using Inr w
    by (cases "parseTarget (pf_target flags)"; cases "parsePrivateProbeMode (pf_mode flags)") (auto simp: runPrivateProbeCommand_def Let_def)
qed (simp add: runPrivateProbeCommand_def)

lemma runInspectQMDLCommand_spec: "\<exists>r. runInspectQMDLCommand h parsed fs d = Some (r, Early fs d)"
proof (cases parsed)
  case (Inr flags)
  obtain r where "analyzeQMDLFiles (hs_ctx h) (hs_open h) (if_paths flags) [] (projr (parseTarget (if_target flags))) = Some r"
    using analyze_window_result by (metis analyzeQMDLFiles_def)
  then show ?thesis using Inr
    by (cases "parseTarget (if_target flags)"; cases r) (simp_all add: runInspectQMDLCommand_def)
qed (simp add: runInspectQMDLCommand_def)

lemma runDryCommand_spec:
  assumes "host_ok h"
  shows "\<exists>r fs' d'. runDryCommand h parsed fs d = Some (r, Early fs' d')"
proof (cases parsed)
  case (Inr flags)
  have "writes_ok (dv_write (hs_device h))" using assms by (simp add: host_ok_def temp_names_def writes_ok_def)
  from writeDryRun_spec [OF this, of "dv_sha256 (hs_device h)" "hs_read h (dr_config flags)" "hs_mkdir h (dr_out flags)" "hs_manifest h"
      "dr_config flags" "dr_out flags" fs d]
  obtain r fs' d' where "writeDryRun (dv_write (hs_device h)) (dv_sha256 (hs_device h)) (hs_read h (dr_config flags))
      (hs_mkdir h (dr_out flags)) (hs_manifest h) (dr_config flags) (dr_out flags) fs d = Some (r, fs', d')" by (elim exE conjE) (rule that)
  then show ?thesis using Inr by (cases r) (simp_all add: runDryCommand_def)
qed (simp add: runDryCommand_def)

lemma validate_targets_None:
  "validate_targets h fs report ts = None \<longleftrightarrow> (\<forall>t \<in> set ts. validateControlsReport (hs_unmarshal h) fs report t = None)"
  by (induction ts) (auto split: option.split)

section \<open>Property\<close>

text \<open>The confirmations without which no command touches the modem.\<close>

definition confirmed :: "'d host \<Rightarrow> flag_parsers \<Rightarrow> file_sys \<Rightarrow> string list \<Rightarrow> bool" where
  "confirmed h parsers fs args \<longleftrightarrow> (\<exists>rest.
     args = ''cleanup'' # rest \<and> (\<exists>common. fp_cleanup parsers rest = Inr common \<and> confirm common) \<or>
     args = ''controls'' # rest \<and> (\<exists>flags. fp_controls parsers rest = Inr flags \<and> confirm (cl_common flags) \<and> cl_cold flags) \<or>
     args = ''private-probe'' # rest \<and> (\<exists>flags. fp_probe parsers rest = Inr flags \<and> confirm (pf_common flags) \<and>
       (pf_cold flags \<longleftrightarrow> TrimSpace (pf_prior flags) = [])) \<or>
     args = ''ddmin'' # rest \<and> (\<exists>flags ts. fp_ddmin parsers rest = Inr flags \<and> confirm (df_common flags) \<and>
       parseTargetList (df_target flags) = Inr ts \<and>
       (\<forall>t \<in> set ts. validateControlsReport (hs_unmarshal h) fs (df_controlsReport flags) t = None)))"

definition tool_ended :: "'d host \<Rightarrow> flag_parsers \<Rightarrow> file_sys \<Rightarrow> string list \<Rightarrow> 'd process \<Rightarrow> bool" where
  "tool_ended h parsers fs args p \<longleftrightarrow>
     (case p of
        Early fs' d' \<Rightarrow> fs' = fs \<or> (\<exists>rest. args = ''dry-run'' # rest)
      | Used s \<Rightarrow> confirmed h parsers fs args \<and>
          separated (zero_bytes (Config (opts s))) False (applied s) \<and> table_ok (reports s) \<and> \<not> locked s \<and> \<not> rw_open (reports s))"

lemma ended_tool:
  assumes "ended common fs p" and "confirm common \<Longrightarrow> confirmed h parsers fs args"
  shows "tool_ended h parsers fs args p"
  using assms by (cases p) (auto simp: ended_def tool_ended_def clean_state_def)

lemma early_tool [simp]: "tool_ended h parsers fs args (Early fs d)"
  by (simp add: tool_ended_def)

lemma dry_tool:
  assumes "host_ok h"
  shows "\<exists>r p. runDryCommand h (fp_dry parsers rest) fs d = Some (r, p) \<and> tool_ended h parsers fs (''dry-run'' # rest) p"
  using runDryCommand_spec [OF assms, of "fp_dry parsers rest" fs d] by (auto simp: tool_ended_def)

lemma cleanup_tool:
  assumes "host_ok h"
  shows "\<exists>r p. runCleanupCommand h (fp_cleanup parsers rest) fs d = Some (r, p) \<and> tool_ended h parsers fs (''cleanup'' # rest) p"
proof -
  obtain r p where c: "runCleanupCommand h (fp_cleanup parsers rest) fs d = Some (r, p)"
      "case fp_cleanup parsers rest of Inl _ \<Rightarrow> p = Early fs d | Inr common \<Rightarrow> ended common fs p"
    using runCleanupCommand_spec [OF assms] by blast
  have "confirmed h parsers fs (''cleanup'' # rest)" if "fp_cleanup parsers rest = Inr common" "confirm common" for common
    using that by (auto simp: confirmed_def)
  with c(2) have "tool_ended h parsers fs (''cleanup'' # rest) p"
    by (cases "fp_cleanup parsers rest") (auto intro: ended_tool)
  with c(1) show ?thesis by blast
qed

lemma controls_tool:
  assumes "host_ok h"
  shows "\<exists>r p. runControlsCommand h (fp_controls parsers rest) fs d = Some (r, p) \<and> tool_ended h parsers fs (''controls'' # rest) p"
proof -
  obtain r p where c: "runControlsCommand h (fp_controls parsers rest) fs d = Some (r, p)"
      "p = Early fs d \<or> (\<exists>flags. fp_controls parsers rest = Inr flags \<and> cl_cold flags \<and> ended (cl_common flags) fs p)"
    using runControlsCommand_spec [OF assms] by blast
  have "confirmed h parsers fs (''controls'' # rest)"
    if "fp_controls parsers rest = Inr flags" "cl_cold flags" "confirm (cl_common flags)" for flags
    using that by (auto simp: confirmed_def)
  with c(2) have "tool_ended h parsers fs (''controls'' # rest) p" by (blast intro: ended_tool early_tool)
  with c(1) show ?thesis by blast
qed

lemma probe_tool:
  assumes "host_ok h"
  shows "\<exists>r p. runPrivateProbeCommand h (fp_probe parsers rest) fs d = Some (r, p) \<and> tool_ended h parsers fs (''private-probe'' # rest) p"
proof -
  obtain r p where c: "runPrivateProbeCommand h (fp_probe parsers rest) fs d = Some (r, p)"
      "p = Early fs d \<or> (\<exists>flags. fp_probe parsers rest = Inr flags \<and> (pf_cold flags \<longleftrightarrow> TrimSpace (pf_prior flags) = []) \<and> ended (pf_common flags) fs p)"
    using runPrivateProbeCommand_spec [OF assms] by blast
  have "confirmed h parsers fs (''private-probe'' # rest)" if "fp_probe parsers rest = Inr flags" "confirm (pf_common flags)"
      "pf_cold flags \<longleftrightarrow> TrimSpace (pf_prior flags) = []" for flags
    using that by (auto simp: confirmed_def)
  with c(2) have "tool_ended h parsers fs (''private-probe'' # rest) p" by (blast intro: ended_tool early_tool)
  with c(1) show ?thesis by blast
qed

lemma ddmin_tool:
  assumes "host_ok h" and "\<And>flags. fp_ddmin parsers rest = Inr flags \<Longrightarrow> df_calibrationRuns flags < 2 ^ 40"
  shows "\<exists>r p. runDDMinCommand h (fp_ddmin parsers rest) fs d = Some (r, p) \<and> tool_ended h parsers fs (''ddmin'' # rest) p"
proof -
  obtain r p where c: "runDDMinCommand h (fp_ddmin parsers rest) fs d = Some (r, p)"
      "p = Early fs d \<or> (\<exists>flags ts. fp_ddmin parsers rest = Inr flags \<and> parseTargetList (df_target flags) = Inr ts \<and>
         validate_targets h fs (df_controlsReport flags) ts = None \<and> ended (df_common flags) fs p)"
    using runDDMinCommand_spec [OF assms] by blast
  have "confirmed h parsers fs (''ddmin'' # rest)" if "fp_ddmin parsers rest = Inr flags" "confirm (df_common flags)"
      "parseTargetList (df_target flags) = Inr ts" "validate_targets h fs (df_controlsReport flags) ts = None" for flags ts
    using that by (auto simp: confirmed_def validate_targets_None)
  with c(2) have "tool_ended h parsers fs (''ddmin'' # rest) p" by (blast intro: ended_tool early_tool)
  with c(1) show ?thesis by blast
qed

text \<open>C37: Whatever the arguments, the files and the answers of the system, the tool ends without a panic, and it touches
  the modem only after the confirmations its command asks for: a cleanup, a control run and a probe need
  \<^verbatim>\<open>--confirm-device\<close>, the control run a confirmed cold state, the probe either a cold state or a named prior
  one but not both, and the search an accepted control report for each of its targets.  Whenever a runner
  was made, every candidate it applied directly followed the zero masks, the CSV report is a table, the
  lock is released and the report files are closed; no other command than the dry run changes the files
  outside a runner.\<close>
theorem run_confirmed:
  assumes h: "host_ok h" and n: "\<And>rest flags. fp_ddmin parsers rest = Inr flags \<Longrightarrow> df_calibrationRuns flags < 2 ^ 40"
  shows "\<exists>e out p. run h parsers args fs d = Some ((e, out), p) \<and>
    (case p of
       Early fs' d' \<Rightarrow> fs' = fs \<or> (\<exists>rest. args = ''dry-run'' # rest)
     | Used s \<Rightarrow> confirmed h parsers fs args \<and>
         separated (zero_bytes (Config (opts s))) False (applied s) \<and> table_ok (reports s) \<and> \<not> locked s \<and> \<not> rw_open (reports s))"
proof -
  have "\<exists>r p. run h parsers args fs d = Some (r, p) \<and> tool_ended h parsers fs args p"
  proof (cases args)
    case (Cons command rest)
    consider "command = ''dry-run''" | "command = ''inspect-qmdl''" | "command = ''cleanup''" | "command = ''controls''"
      | "command = ''private-probe''" | "command = ''ddmin''"
      | (other) "command \<noteq> ''dry-run''" "command \<noteq> ''inspect-qmdl''" "command \<noteq> ''cleanup''" "command \<noteq> ''controls''"
          "command \<noteq> ''private-probe''" "command \<noteq> ''ddmin''" by metis
    then show ?thesis
      using Cons dry_tool [OF h, of parsers rest fs d] runInspectQMDLCommand_spec [of h "fp_inspect parsers rest" fs d]
        cleanup_tool [OF h, of parsers rest fs d] controls_tool [OF h, of parsers rest fs d] probe_tool [OF h, of parsers rest fs d]
        ddmin_tool [OF h n [of rest], of parsers rest fs d]
      by cases (auto simp: run_def)
  qed (simp add: run_def)
  then show ?thesis unfolding tool_ended_def by auto
qed

text \<open>A host on which nothing fails, with a source of one mask frame and one private command, and the cleanup confirmed.\<close>

definition sample_host :: "unit host" where
  "sample_host = \<lparr>hs_device = quiet_device, hs_read = (\<lambda>_. None), hs_mkdir = (\<lambda>_. None),
     hs_report = (\<lambda>_ d. (\<lparr>nf_mkdir = None, nf_jsonl = None, nf_csvEmpty = True, nf_csv = None, nf_header = None,
        nf_oldRecords = [], nf_oldRows = []\<rparr>, d)),
     hs_open = (\<lambda>_. Inl ''no such file''), hs_ctx = (\<lambda>_. None), hs_unmarshal = (\<lambda>_. Inl ''unexpected end of JSON input''),
     hs_controls = (\<lambda>_. []), hs_ddmin = (\<lambda>_. []), hs_probe = (\<lambda>_. []), hs_manifest = (\<lambda>_. []), hs_metrics = (\<lambda>_. [])\<rparr>"

definition sample_parsers :: flag_parsers where
  "sample_parsers = \<lparr>fp_dry = (\<lambda>_. Inl ''flag''), fp_inspect = (\<lambda>_. Inl ''flag''),
     fp_cleanup = (\<lambda>args. Inr (addCommonDeviceFlags\<lparr>confirm := (args = [''--confirm-device''])\<rparr>)),
     fp_controls = (\<lambda>_. Inl ''flag''), fp_probe = (\<lambda>_. Inl ''flag''), fp_ddmin = (\<lambda>_. Inl ''flag'')\<rparr>"

text \<open>With the confirmation the masks are zeroed and the lock is released; without it the tool refuses.\<close>

theorem run_confirmed_witness:
  "(\<exists>e out s. run sample_host sample_parsers [''cleanup'', ''--confirm-device''] [''qtrace.cfg'' \<mapsto> sample_bytes] () = Some ((e, out), Used s) \<and>
      separated (zero_bytes (Config (opts s))) False (applied s) \<and> \<not> locked s) \<and>
   run sample_host sample_parsers [''cleanup''] [''qtrace.cfg'' \<mapsto> sample_bytes] () =
      Some ((Some ''refusing device execution without --confirm-device'', []), Early [''qtrace.cfg'' \<mapsto> sample_bytes] ())"
proof -
  let ?fs = "[''qtrace.cfg'' \<mapsto> sample_bytes]" and ?args = "[''cleanup'', ''--confirm-device'']"
  have h: "host_ok sample_host" by (simp add: host_ok_def sample_host_def temp_names_def quiet_device_def no_faults_ok)
  obtain e out p where r: "run sample_host sample_parsers ?args ?fs () = Some ((e, out), p)"
      "case p of Early fs' d' \<Rightarrow> fs' = ?fs \<or> (\<exists>rest. ?args = ''dry-run'' # rest)
       | Used s \<Rightarrow> confirmed sample_host sample_parsers ?fs ?args \<and>
         separated (zero_bytes (Config (opts s))) False (applied s) \<and> table_ok (reports s) \<and> \<not> locked s \<and> \<not> rw_open (reports s)"
    using run_confirmed [OF h, of sample_parsers ?args ?fs "()"] by (elim meta_impE exE conjE) (simp add: sample_parsers_def, rule that)
  have sha: "dv_sha256 quiet_device = (\<lambda>_. [])" by (simp add: quiet_device_def)
  have "\<exists>s. p = Used s"
    using r(1) sample_parses
    by (auto simp: run_def runCleanupCommand_def sample_parsers_def sample_host_def addCommonDeviceFlags_def makeRunner_def
        parseQTraceConfig_def read_file_def sha newReportWriter_def Second_def Millisecond_def Let_def
        split: prod.splits option.splits Option.bind_splits)
  moreover have "run sample_host sample_parsers [''cleanup''] ?fs () =
      Some ((Some ''refusing device execution without --confirm-device'', []), Early ?fs ())"
    by (simp add: run_def runCleanupCommand_def sample_parsers_def addCommonDeviceFlags_def makeRunner_def)
  ultimately show ?thesis using r by auto
qed

end
