(* ===== verification/Probe_Qtrace.thy ===== *)
theory Probe_Qtrace
  imports Diag_Hdlc Go_Format Atomic_File
begin

text \<open>
  \<^verbatim>\<open>tools/u60-nr-crossband-probe/qtrace.go\<close>: the probe's own copy of the DIAG frame codec and the patch that turns
  the production configuration into the active one, by setting bit 15 of the mask of QSH identifier 96
  in its single 0x44/0x9001 frame.  The codec is proved equal to the reducer's; the patch is proved to
  change exactly that bit and the checksum.  Errors are texts, \<open>None\<close> is a run-time panic; \<open>sha256\<close> is the
  hexadecimal digest.
\<close>

section \<open>The codec\<close>

definition encode_byte :: "byte \<Rightarrow> byte list" where
  "encode_byte v = (if v = 0x7d \<or> v = 0x7e then [0x7d, v XOR 0x20] else [v])"

definition encodeQTraceFrames :: "byte list list \<Rightarrow> byte list" where
  "encodeQTraceFrames frames = concat (map (\<lambda>frame. concat (map encode_byte frame) @ [0x7e]) frames)"

fun probe_unescape :: "byte list \<Rightarrow> byte list \<Rightarrow> bool \<Rightarrow> byte list \<times> bool" where
  "probe_unescape [] decoded escaped = (decoded, escaped)"
| "probe_unescape (v # vs) decoded escaped =
     (if escaped then probe_unescape vs (decoded @ [v XOR 0x20]) False
      else if v = 0x7d then probe_unescape vs decoded True
      else probe_unescape vs (decoded @ [v]) False)"

definition hdlcUnescape_probe :: "byte list \<Rightarrow> string + byte list" where
  "hdlcUnescape_probe encoded =
     (let (decoded, escaped) = probe_unescape encoded [] False in
      if escaped then Inl ''truncated HDLC escape'' else Inr decoded)"

fun probe_crc_bits :: "nat \<Rightarrow> u16 \<Rightarrow> u16" where
  "probe_crc_bits 0 crc = crc"
| "probe_crc_bits (Suc n) crc =
     probe_crc_bits n (if crc AND 1 \<noteq> 0 then drop_bit 1 crc XOR 0x8408 else drop_bit 1 crc)"

definition diagCRC16_probe :: "byte list \<Rightarrow> u16" where
  "diagCRC16_probe data = foldl (\<lambda>crc v. probe_crc_bits 8 (crc XOR ucast v)) 0xffff data XOR 0xffff"

definition hex4 :: "u16 \<Rightarrow> string" where "hex4 w = pad_zero 4 (hex (unat w))"

fun decode_segments :: "byte list list \<Rightarrow> byte list list \<Rightarrow> (string + byte list list) option" where
  "decode_segments [] frames = Some (Inr frames)"
| "decode_segments (encoded # rest) frames =
     (if encoded = [] then decode_segments rest frames
      else case hdlcUnescape_probe encoded of
             Inl e \<Rightarrow> Some (Inl e)
           | Inr decoded \<Rightarrow>
               if length decoded < 3 then Some (Inl (''frame '' @ utoa (length frames) @ '' is too short''))
               else do {
                 tail \<leftarrow> slice decoded (int (length decoded) - 2) (int (length decoded));
                 got \<leftarrow> uint16le tail;
                 payload \<leftarrow> slice decoded 0 (int (length decoded) - 2);
                 let want = diagCRC16_probe payload;
                 if got \<noteq> want
                 then Some (Inl (''frame '' @ utoa (length frames) @ '' CRC mismatch: got='' @ hex4 got @ '' want='' @ hex4 want))
                 else decode_segments rest (frames @ [decoded]) })"

definition decodeQTraceFrames :: "byte list \<Rightarrow> (string + byte list list) option" where
  "decodeQTraceFrames data = do {
     r \<leftarrow> decode_segments (split_on 0x7e data) [];
     Some (case r of
             Inl e \<Rightarrow> Inl e
           | Inr frames \<Rightarrow> if frames = [] then Inl ''qtrace contains no frames'' else Inr frames) }"

section \<open>The patch\<close>

definition diagSubsysCommand :: byte where "diagSubsysCommand = 0x4b"
definition qshSubsystem :: byte where "qshSubsystem = 0x44"
definition qshConfigCommand :: u16 where "qshConfigCommand = 0x9001"
definition activeQSHID :: u16 where "activeQSHID = 96"
definition activeQSHMaskBit :: u16 where "activeQSHMaskBit = 0x8000"

definition expectedBaseSHA256 :: string where
  "expectedBaseSHA256 = ''15b669eff11b53cf0fa461fe91b3c9b086912dee7a80a166c47d7d1b8c646c58''"

record qtracePatchResult =
  SourceSHA256 :: string
  SourceBytes :: nat
  ActiveSHA256 :: string
  ActiveBytes :: nat
  OriginalMask :: u16
  ActiveMask :: u16

text \<open>Writing through a slice of the frame.\<close>

definition write_at :: "byte list \<Rightarrow> nat \<Rightarrow> byte list \<Rightarrow> byte list" where
  "write_at xs i bs = take i xs @ bs @ drop (i + length bs) xs"

text \<open>One round of the loop over the table, on the payload, the number of hits and the two masks.\<close>

definition patch_entry :: "byte list \<times> nat \<times> u16 \<times> u16 \<Rightarrow> nat \<Rightarrow> (byte list \<times> nat \<times> u16 \<times> u16) option" where
  "patch_entry st index =
     (let (payload, found, orig, act) = st; offset = 20 + index * 4 in do {
        s \<leftarrow> slice payload (int offset) (int offset + 2);
        id \<leftarrow> uint16le s;
        if id \<noteq> activeQSHID then Some st
        else do {
          s \<leftarrow> slice payload (int offset + 2) (int offset + 4);
          orig \<leftarrow> uint16le s;
          let act = orig OR activeQSHMaskBit;
          Some (write_at payload (offset + 2) (put16 act), found + 1, orig, act) } })"

definition patch_frame :: "byte list \<Rightarrow> (string + byte list \<times> u16 \<times> u16) option" where
  "patch_frame frame = do {
     payload \<leftarrow> slice frame 0 (int (length frame) - 2);
     let wrong = Some (Inl ''production frame is not 0x44/0x9001'');
     if length payload < 20 then wrong
     else do {
       c \<leftarrow> idx payload 0;
       s \<leftarrow> idx payload 1;
       cmd \<leftarrow> slice payload 2 4 \<bind> uint16le;
       if c \<noteq> diagSubsysCommand \<or> s \<noteq> qshSubsystem \<or> cmd \<noteq> qshConfigCommand then wrong
       else do {
         w \<leftarrow> slice payload 16 20 \<bind> uint32le;
         let count = unat w;
         if count = 0 \<or> length payload \<noteq> 20 + count * 4
         then Some (Inl (''invalid 0x9001 ID/mask table: count='' @ utoa count @ '' payload='' @ utoa (length payload)))
         else do {
           (payload, found, orig, act) \<leftarrow> ofold patch_entry (payload, 0, 0, 0) [0..<count];
           if found \<noteq> 1 then Some (Inl (''expected exactly one QSH ID 96 entry, got '' @ utoa found))
           else if orig AND activeQSHMaskBit \<noteq> 0 then Some (Inl ''QSH ID 96 bit 15 is already enabled'')
           else Some (Inr (payload @ put16 (diagCRC16_probe payload), orig, act)) } } } }"

definition patchActiveQTrace :: "(byte list \<Rightarrow> string) \<Rightarrow> byte list \<Rightarrow> (string + byte list \<times> qtracePatchResult) option" where
  "patchActiveQTrace sha256 data =
     (let source = sha256 data in
      if source \<noteq> expectedBaseSHA256
      then Some (Inl (''unexpected production qtrace SHA-256 '' @ source @ '' (want '' @ expectedBaseSHA256 @ '')''))
      else do {
        r \<leftarrow> decodeQTraceFrames data;
        case r of
          Inl e \<Rightarrow> Some (Inl e)
        | Inr frames \<Rightarrow>
            if length frames \<noteq> 1
            then Some (Inl (''production minimum must contain exactly one frame, got '' @ utoa (length frames)))
            else do {
              p \<leftarrow> patch_frame (hd frames);
              case p of
                Inl e \<Rightarrow> Some (Inl e)
              | Inr (frame, orig, act) \<Rightarrow> do {
                  let active = encodeQTraceFrames [frame];
                  v \<leftarrow> decodeQTraceFrames active;
                  case v of
                    Inl e \<Rightarrow> Some (Inl (''generated active qtrace failed round-trip validation: '' @ e))
                  | Inr verified \<Rightarrow>
                      if verified \<noteq> [frame]
                      then Some (Inl ''generated active qtrace failed round-trip validation: %!w(<nil>)'')
                      else Some (Inr (active, \<lparr>SourceSHA256 = source, SourceBytes = length data, ActiveSHA256 = sha256 active,
                             ActiveBytes = length active, OriginalMask = orig, ActiveMask = act\<rparr>)) } } })"

definition abandon_probe :: "write_faults \<Rightarrow> string \<Rightarrow> string \<Rightarrow> file_sys \<Rightarrow> err \<times> file_sys" where
  "abandon_probe w tmp e fs = (Some e, if wf_removable w then fs(tmp := None) else fs)"

definition writeFileAtomic_probe :: "write_faults \<Rightarrow> string \<Rightarrow> byte list \<Rightarrow> file_sys \<Rightarrow> err \<times> file_sys" where
  "writeFileAtomic_probe w path data fs =
     (case wf_mkdir w of Some e \<Rightarrow> (Some e, fs) | None \<Rightarrow>
     (case wf_temp w of Inl e \<Rightarrow> (Some e, fs) | Inr tmp \<Rightarrow>
     (let fs = fs(tmp \<mapsto> []) in
      case wf_chmod w of Some e \<Rightarrow> abandon_probe w tmp e fs | None \<Rightarrow>
     (case wf_write w of Some (n, e) \<Rightarrow> abandon_probe w tmp e (fs(tmp \<mapsto> take n data)) | None \<Rightarrow>
     (let fs = fs(tmp \<mapsto> data) in
      case wf_sync w of Some e \<Rightarrow> abandon_probe w tmp e fs | None \<Rightarrow>
     (case wf_close w of Some e \<Rightarrow> abandon_probe w tmp e fs | None \<Rightarrow>
     (case wf_rename w of Some e \<Rightarrow> abandon_probe w tmp e fs | None \<Rightarrow>
        (None, fs(tmp := None, path \<mapsto> data)))))))))"

text \<open>\<^verbatim>\<open>buildActiveQTrace\<close>: the source is read, patched and written under the output path.\<close>

definition buildActiveQTrace :: "(byte list \<Rightarrow> string) \<Rightarrow> write_faults \<Rightarrow> string \<Rightarrow> string + byte list \<Rightarrow> string \<Rightarrow> file_sys \<Rightarrow>
    ((string + qtracePatchResult) \<times> file_sys) option" where
  "buildActiveQTrace sha256 w sourcePath source outputPath fs =
     (case source of
        Inl e \<Rightarrow> Some (Inl e, fs)
      | Inr data \<Rightarrow> do {
          r \<leftarrow> patchActiveQTrace sha256 data;
          case r of
            Inl e \<Rightarrow> Some (Inl (''patch '' @ sourcePath @ '': '' @ e), fs)
          | Inr (active, result) \<Rightarrow>
              (let (e, fs) = writeFileAtomic_probe w outputPath active fs in
               Some (case e of Some t \<Rightarrow> Inl t | None \<Rightarrow> Inr result, fs)) })"

section \<open>The codec is the reducer's\<close>

lemma encode_byte_escape: "concat (map encode_byte xs) = hdlcEscape xs"
  by (induction xs) (simp_all add: encode_byte_def)

lemma encodeQTraceFrames_escape: "encodeQTraceFrames fs = concat (map (\<lambda>f. hdlcEscape f @ [0x7e]) fs)"
  by (simp add: encodeQTraceFrames_def encode_byte_escape)

lemma probe_unescape_fold: "probe_unescape vs d e = foldl unescape_step (d, e) vs"
  by (induction vs d e rule: probe_unescape.induct) auto

lemma hdlcUnescape_agree: "hdlcUnescape_probe xs = map_sum (\<lambda>_. ''truncated HDLC escape'') id (hdlcUnescape xs)"
  by (simp add: hdlcUnescape_probe_def hdlcUnescape_def probe_unescape_fold split: prod.split)

lemma probe_crc_bits_agree: "probe_crc_bits n c = crc_bits n c"
  by (induction n arbitrary: c) (simp_all add: crc_bit_def)

lemma diagCRC16_agree: "diagCRC16_probe = diagCRC16"
  by (rule ext) (simp add: diagCRC16_probe_def diagCRC16_def crc_byte_def [abs_def] probe_crc_bits_agree)

section \<open>Decoding\<close>

definition with_crc :: "byte list \<Rightarrow> byte list" where
  "with_crc payload = payload @ put16 (diagCRC16 payload)"

lemma frame_crc:
  assumes "3 \<le> length d"
  obtains p w where "d = p @ put16 w" "p \<noteq> []"
    "slice d 0 (int (length d) - 2) = Some p" "slice d (int (length d) - 2) (int (length d)) = Some (put16 w)"
proof -
  let ?p = "take (length d - 2) d" and ?t = "drop (length d - 2) d"
  obtain a b where t: "?t = [a, b]" using assms two_elements [of ?t] by auto
  have "d = ?p @ put16 (le16 a b)" using t by (metis append_take_drop_id put16_le16)
  moreover have "?p \<noteq> []" using assms by (cases d) auto
  moreover have "slice d 0 (int (length d) - 2) = Some ?p" using slice_drop_last [of 2 d] assms by simp
  moreover have "slice d (int (length d) - 2) (int (length d)) = Some (put16 (le16 a b))"
    using slice_last [of 2 d] assms t by (simp add: put16_le16)
  ultimately show ?thesis by (rule that)
qed

lemma decode_segments_total: "\<exists>r. decode_segments segs fs = Some r"
proof (induction segs fs rule: decode_segments.induct)
  case (2 seg segs fs)
  show ?case
  proof (cases "seg = []")
    case False
    show ?thesis
    proof (cases "hdlcUnescape_probe seg")
      case (Inr d)
      show ?thesis
      proof (cases "length d < 3")
        case len: False
        then obtain p w where f: "d = p @ put16 w" "slice d 0 (int (length d) - 2) = Some p"
            "slice d (int (length d) - 2) (int (length d)) = Some (put16 w)" using frame_crc [of d] by (metis leI)
        show ?thesis
        proof (cases "w = diagCRC16_probe p")
          case True
          then show ?thesis using "2.IH"(2) [OF False Inr len f(3) _ f(2) refl, of w] False Inr len f(2,3) by simp
        qed (use False Inr len f(2,3) in \<open>simp add: Let_def\<close>)
      qed (use False Inr in simp)
    qed (use False in simp)
  qed (use "2.IH"(1) in simp)
qed simp

lemma decode_segments_Inr:
  "decode_segments segs fs = Some (Inr r) \<Longrightarrow>
   \<exists>ps. r = fs @ map with_crc ps \<and> [] \<notin> set ps \<and> map hdlcUnescape (filter (\<lambda>s. s \<noteq> []) segs) = map (Inr \<circ> with_crc) ps"
proof (induction segs fs arbitrary: r rule: decode_segments.induct)
  case (2 seg segs fs)
  show ?case
  proof (cases "seg = []")
    case False
    then obtain d where u: "hdlcUnescape_probe seg = Inr d" and len: "\<not> length d < 3"
      using "2.prems" by (auto split: sum.splits if_splits)
    then obtain p w where f: "d = p @ put16 w" "p \<noteq> []" "slice d 0 (int (length d) - 2) = Some p"
        "slice d (int (length d) - 2) (int (length d)) = Some (put16 w)" using frame_crc [of d] by (metis leI)
    then have w: "w = diagCRC16_probe p" and rest: "decode_segments segs (fs @ [d]) = Some (Inr r)"
      using "2.prems" False u len by (auto simp: Let_def split: if_splits)
    have d: "d = with_crc p" using f(1) w by (simp add: with_crc_def diagCRC16_agree)
    obtain ps where "r = (fs @ [d]) @ map with_crc ps" "[] \<notin> set ps"
        "map hdlcUnescape (filter (\<lambda>s. s \<noteq> []) segs) = map (Inr \<circ> with_crc) ps"
      using "2.IH"(2) [OF False u len f(4) _ f(3) refl _ rest, of w] w by auto
    moreover have "hdlcUnescape seg = Inr d" using u by (cases "hdlcUnescape seg") (auto simp: hdlcUnescape_agree)
    ultimately show ?thesis using False f(2) d by (intro exI [of _ "p # ps"]) simp
  qed (use "2.IH"(1) "2.prems" in simp)
qed auto

lemma decode_segments_encoded:
  "[] \<notin> set ps \<Longrightarrow> decode_segments (map (hdlcEscape \<circ> with_crc) ps @ [[]]) fs = Some (Inr (fs @ map with_crc ps))"
proof (induction ps arbitrary: fs)
  case (Cons p ps)
  let ?d = "with_crc p"
  have u: "hdlcUnescape_probe (hdlcEscape ?d) = Inr ?d" by (simp add: hdlcUnescape_agree hdlc.dec_enc)
  have ne: "hdlcEscape ?d \<noteq> []" by (simp add: hdlc.enc_empty_iff with_crc_def)
  have len: "\<not> length ?d < 3" using Cons.prems by (cases p) (auto simp: with_crc_def)
  have "slice ?d (int (length ?d) - 2) (int (length ?d)) = Some (put16 (diagCRC16_probe p))"
    "slice ?d 0 (int (length ?d) - 2) = Some p"
    using slice_last [of 2 ?d] slice_drop_last [of 2 ?d] by (simp_all add: with_crc_def diagCRC16_agree)
  then show ?case using Cons u ne len by (simp add: Let_def)
qed simp

lemma decode_encode:
  "ps \<noteq> [] \<Longrightarrow> [] \<notin> set ps \<Longrightarrow> decodeQTraceFrames (encodeQTraceFrames (map with_crc ps)) = Some (Inr (map with_crc ps))"
  using decode_segments_encoded [of ps "[]"] hdlc.split_stream [of "map with_crc ps"]
  by (simp add: decodeQTraceFrames_def encodeQTraceFrames_escape o_def)

lemma decode_total: "\<exists>r. decodeQTraceFrames data = Some r"
  using decode_segments_total [of "split_on 0x7e data" "[]"] by (auto simp: decodeQTraceFrames_def)

lemma decode_Inr:
  "decodeQTraceFrames data = Some (Inr fs) \<Longrightarrow> \<exists>ps. fs = map with_crc ps \<and> ps \<noteq> [] \<and> [] \<notin> set ps"
  using decode_segments_total [of "split_on 0x7e data" "[]"] decode_segments_Inr [of "split_on 0x7e data" "[]"]
  by (fastforce simp: decodeQTraceFrames_def split: sum.splits if_splits)

section \<open>The table\<close>

definition entry :: "u16 \<times> u16 \<Rightarrow> byte list" where
  "entry e = put16 (fst e) @ put16 (snd e)"

definition entries :: "(u16 \<times> u16) list \<Rightarrow> byte list" where
  "entries tbl = concat (map entry tbl)"

lemma length_entry [simp]: "length (entry e) = 4"
  by (simp add: entry_def)

lemma length_entries [simp]: "length (entries tbl) = 4 * length tbl"
  by (simp add: entries_def concat_replicate_length [of _ _ 4])

lemma entries_exist: "length p = 4 * n \<Longrightarrow> \<exists>tbl. p = entries tbl \<and> length tbl = n"
proof (induction n arbitrary: p)
  case (Suc n)
  then obtain a b c d r where p: "p = a # b # c # d # r" "length r = 4 * n"
    by (auto simp: eval_nat_numeral length_Suc_conv)
  from Suc.IH [OF p(2)] obtain tbl where "r = entries tbl" "length tbl = n" by blast
  then have "p = entries ((le16 a b, le16 c d) # tbl)" "length ((le16 a b, le16 c d) # tbl) = Suc n"
    using p(1) by (simp_all add: entries_def entry_def put16_le16)
  then show ?case by blast
qed (simp add: entries_def)

definition activate :: "u16 \<times> u16 \<Rightarrow> u16 \<times> u16" where
  "activate e = (if fst e = activeQSHID then (fst e, snd e OR activeQSHMaskBit) else e)"

text \<open>One round on a payload that is split at the entry.\<close>

lemma patch_entry_at:
  assumes "length hdr = 20"
  shows "patch_entry (hdr @ entries pre @ entry e @ rest, found, orig, act) (length pre) =
    Some (hdr @ entries (pre @ [activate e]) @ rest,
      if fst e = activeQSHID then (found + 1, snd e, snd e OR activeQSHMaskBit) else (found, orig, act))"
proof -
  let ?a = "hdr @ entries pre" and ?o = "20 + length pre * 4" and ?p = "hdr @ entries pre @ entry e @ rest"
  have la: "length ?a = ?o" using assms by simp
  have p: "?p = ?a @ put16 (fst e) @ put16 (snd e) @ rest" by (simp add: entry_def)
  have 1: "slice ?p (int ?o) (int ?o + 2) = Some (put16 (fst e))" "slice ?p (int ?o + 2) (int ?o + 4) = Some (put16 (snd e))"
    unfolding p using la by (simp_all add: slice_def nat_add_distrib)
  have 2: "write_at ?p (?o + 2) (put16 v) = hdr @ entries (pre @ [(fst e, v)]) @ rest" for v
    unfolding p using la by (simp add: write_at_def entries_def entry_def)
  show ?thesis
  proof (cases "fst e = activeQSHID")
    case True
    then show ?thesis unfolding patch_entry_def
      by (simp only: Let_def prod.case 1 2 bind.bind_lunit uint16le_put16_alone activate_def if_True if_False not_True_eq_False simp_thms cong: if_cong)
  next
    case False
    have "entries (pre @ [e]) = entries pre @ entry e" by (simp add: entries_def)
    with False show ?thesis unfolding patch_entry_def
      by (simp only: Let_def prod.case 1 bind.bind_lunit uint16le_put16_alone activate_def if_True if_False not_False_eq_True append_assoc cong: if_cong)
  qed
qed

lemma patch_loop:
  assumes "length hdr = 20"
  shows "\<exists>orig act. ofold patch_entry (hdr @ entries pre @ entries tbl, found, orig0, act0) [length pre..<length pre + length tbl] =
    Some (hdr @ entries pre @ entries (map activate tbl), found + length (filter (\<lambda>e. fst e = activeQSHID) tbl), orig, act) \<and>
    (if \<exists>e \<in> set tbl. fst e = activeQSHID
     then orig = snd (last (filter (\<lambda>e. fst e = activeQSHID) tbl)) \<and> act = orig OR activeQSHMaskBit else orig = orig0 \<and> act = act0)"
proof (induction tbl arbitrary: pre found orig0 act0)
  case (Cons e tbl)
  have r: "[length pre..<length pre + length (e # tbl)] = length pre # [length (pre @ [activate e])..<length (pre @ [activate e]) + length tbl]"
    by (simp add: upt_conv_Cons del: upt_Suc)
  have e: "entries (e # tbl) = entry e @ entries tbl" "entries (activate e # tbl') = entry (activate e) @ entries tbl'" for tbl'
    by (simp_all add: entries_def)
  have a: "entries (pre @ [activate e]) = entries pre @ entry (activate e)" by (simp add: entries_def)
  note step = patch_entry_at [OF assms, of pre e "entries tbl" found orig0 act0]
  let ?st = "if fst e = activeQSHID then (found + 1, snd e, snd e OR activeQSHMaskBit) else (found, orig0, act0)"
  obtain found' orig' act' where st: "?st = (found', orig', act')" by (metis prod_cases3)
  have "ofold patch_entry (hdr @ entries pre @ entries (e # tbl), found, orig0, act0) [length pre..<length pre + length (e # tbl)] =
      ofold patch_entry (hdr @ entries (pre @ [activate e]) @ entries tbl, found', orig', act')
        [length (pre @ [activate e])..<length (pre @ [activate e]) + length tbl]"
    unfolding r ofold.simps e step st bind.bind_lunit ..
  moreover obtain orig act where i: "ofold patch_entry (hdr @ entries (pre @ [activate e]) @ entries tbl, found', orig', act')
        [length (pre @ [activate e])..<length (pre @ [activate e]) + length tbl] =
      Some (hdr @ entries (pre @ [activate e]) @ entries (map activate tbl),
        found' + length (filter (\<lambda>e. fst e = activeQSHID) tbl), orig, act)"
      "if \<exists>e \<in> set tbl. fst e = activeQSHID
       then orig = snd (last (filter (\<lambda>e. fst e = activeQSHID) tbl)) \<and> act = orig OR activeQSHMaskBit else orig = orig' \<and> act = act'"
    using Cons.IH [of "pre @ [activate e]" found' orig' act'] by blast
  moreover have "entries (pre @ [activate e]) @ entries (map activate tbl) = entries pre @ entries (map activate (e # tbl))"
    by (simp add: entries_def)
  moreover have "filter (\<lambda>e. fst e = activeQSHID) tbl \<noteq> [] \<longleftrightarrow> (\<exists>e \<in> set tbl. fst e = activeQSHID)" by (auto simp: filter_empty_conv)
  ultimately show ?case using st
    by (intro exI [of _ orig] exI [of _ act]) (auto split: if_splits simp del: upt_Suc)
qed simp

section \<open>The patched frame\<close>

text \<open>The header of a 0x44/0x9001 command with a table of \<open>n\<close> entries.\<close>

definition qsh_header :: "byte list \<Rightarrow> nat \<Rightarrow> bool" where
  "qsh_header hdr n \<longleftrightarrow>
     length hdr = 20 \<and> hdr ! 0 = diagSubsysCommand \<and> hdr ! 1 = qshSubsystem \<and> uint16le (drop 2 hdr) = Some qshConfigCommand \<and>
     map_option unat (uint32le (drop 16 hdr)) = Some n \<and> n \<noteq> 0"

lemma uint16le_take: "2 \<le> n \<Longrightarrow> uint16le (take n xs) = uint16le xs"
  by (cases xs rule: list.exhaust; cases "tl xs"; cases n; cases "n - 1") (auto simp: uint16le_def split: list.splits)

lemma uint32le_take: "4 \<le> n \<Longrightarrow> uint32le (take n xs) = uint32le xs"
  by (auto simp: uint32le_def take_Cons' split: list.split)

lemma header_reads:
  assumes "length hdr = 20"
  shows "idx (hdr @ xs) 0 = Some (hdr ! 0)" "idx (hdr @ xs) 1 = Some (hdr ! 1)"
    "slice (hdr @ xs) 2 4 \<bind> uint16le = uint16le (drop 2 hdr)" "slice (hdr @ xs) 16 20 \<bind> uint32le = uint32le (drop 16 hdr)"
proof -
  show "idx (hdr @ xs) 0 = Some (hdr ! 0)" "idx (hdr @ xs) 1 = Some (hdr ! 1)" using assms by (simp_all add: idx_def nth_append)
  have "slice (hdr @ xs) 2 4 = Some (take 2 (drop 2 hdr))" "slice (hdr @ xs) 16 20 = Some (take 4 (drop 16 hdr))"
    using assms by (simp_all add: slice_def)
  then show "slice (hdr @ xs) 2 4 \<bind> uint16le = uint16le (drop 2 hdr)" "slice (hdr @ xs) 16 20 \<bind> uint32le = uint32le (drop 16 hdr)"
    by (simp_all add: uint16le_take uint32le_take)
qed

lemma payload_of_frame: "slice (with_crc p) 0 (int (length (with_crc p)) - 2) = Some p"
  using slice_drop_last [of 2 "with_crc p"] by (simp add: with_crc_def)

lemma patch_frame_table:
  assumes "qsh_header hdr (length tbl)"
  shows "\<exists>orig act. patch_frame (with_crc (hdr @ entries tbl)) =
      Some (if length (filter (\<lambda>e. fst e = activeQSHID) tbl) \<noteq> 1
        then Inl (''expected exactly one QSH ID 96 entry, got '' @ utoa (length (filter (\<lambda>e. fst e = activeQSHID) tbl)))
        else if orig AND activeQSHMaskBit \<noteq> 0 then Inl ''QSH ID 96 bit 15 is already enabled''
        else Inr (with_crc (hdr @ entries (map activate tbl)), orig, act)) \<and>
      ((\<exists>e \<in> set tbl. fst e = activeQSHID) \<longrightarrow> orig = snd (last (filter (\<lambda>e. fst e = activeQSHID) tbl)) \<and> act = orig OR activeQSHMaskBit)"
proof -
  have h: "length hdr = 20" using assms by (simp add: qsh_header_def)
  obtain w where w: "uint32le (drop 16 hdr) = Some w" "unat w = length tbl" using assms by (auto simp: qsh_header_def)
  obtain orig act where l: "ofold patch_entry (hdr @ entries tbl, 0, 0, 0) [0..<length tbl] =
      Some (hdr @ entries (map activate tbl), length (filter (\<lambda>e. fst e = activeQSHID) tbl), orig, act)"
      "(\<exists>e \<in> set tbl. fst e = activeQSHID) \<longrightarrow> orig = snd (last (filter (\<lambda>e. fst e = activeQSHID) tbl)) \<and> act = orig OR activeQSHMaskBit"
    using patch_loop [OF h, of "[]" tbl 0 0 0] by (auto simp: entries_def split: if_splits)
  have "patch_frame (with_crc (hdr @ entries tbl)) =
      Some (if length (filter (\<lambda>e. fst e = activeQSHID) tbl) \<noteq> 1
        then Inl (''expected exactly one QSH ID 96 entry, got '' @ utoa (length (filter (\<lambda>e. fst e = activeQSHID) tbl)))
        else if orig AND activeQSHMaskBit \<noteq> 0 then Inl ''QSH ID 96 bit 15 is already enabled''
        else Inr (with_crc (hdr @ entries (map activate tbl)), orig, act))"
    using assms h unfolding patch_frame_def payload_of_frame
    by (simp add: header_reads [OF h] w l(1) Let_def qsh_header_def with_crc_def diagCRC16_agree)
  with l(2) show ?thesis by blast
qed

lemma patch_frame_cases:
  obtains (refused) e where "patch_frame (with_crc p) = Some (Inl e)" "\<nexists>hdr tbl. p = hdr @ entries tbl \<and> qsh_header hdr (length tbl)"
  | (table) hdr tbl where "p = hdr @ entries tbl" "qsh_header hdr (length tbl)"
proof (cases "\<exists>hdr tbl. p = hdr @ entries tbl \<and> qsh_header hdr (length tbl)")
  case True
  then show ?thesis using table by blast
next
  case no: False
  have "\<exists>e. patch_frame (with_crc p) = Some (Inl e)"
  proof (cases "length p < 20")
    case True
    then show ?thesis unfolding patch_frame_def payload_of_frame by (simp add: Let_def)
  next
    case len: False
    let ?h = "take 20 p" and ?r = "drop 20 p"
    have h: "length ?h = 20" and p: "p = ?h @ ?r" using len by simp_all
    obtain c w where c: "uint16le (drop 2 ?h) = Some c" and w: "uint32le (drop 16 ?h) = Some w"
      using h uint16le_None_iff [of "drop 2 ?h"] uint32le_None_iff [of "drop 16 ?h"]
      by (cases "uint16le (drop 2 ?h)"; cases "uint32le (drop 16 ?h)") simp_all
    show ?thesis
    proof (cases "?h ! 0 = diagSubsysCommand \<and> ?h ! 1 = qshSubsystem \<and> c = qshConfigCommand \<and> unat w \<noteq> 0 \<and> length p = 20 + unat w * 4")
      case True
      then have "length ?r = 4 * unat w" by simp
      then obtain tbl where "?r = entries tbl" "length tbl = unat w" using entries_exist by blast
      with True c w h p have "p = ?h @ entries tbl \<and> qsh_header ?h (length tbl)" by (simp add: qsh_header_def)
      with no show ?thesis by blast
    next
      case False
      have r: "idx p 0 = Some (?h ! 0)" "idx p 1 = Some (?h ! 1)" "slice p 2 4 \<bind> uint16le = Some c" "slice p 16 20 \<bind> uint32le = Some w"
        using header_reads [OF h, of ?r] c w unfolding p [symmetric] by simp_all
      show ?thesis using False len unfolding patch_frame_def payload_of_frame bind.bind_lunit Let_def r
        by (simp only: if_False if_True split: if_split) auto
    qed
  qed
  with no show ?thesis using refused by blast
qed

lemma patch_frame_total: "\<exists>r. patch_frame (with_crc p) = Some r"
  by (rule patch_frame_cases [of p]) (auto dest!: patch_frame_table)

lemma one_hit:
  "length (filter P xs) = 1 \<longleftrightarrow> (\<exists>pre x post. xs = pre @ x # post \<and> P x \<and> (\<forall>y \<in> set (pre @ post). \<not> P y))"
proof
  assume "length (filter P xs) = 1"
  then obtain x where "filter P xs = [x]" by (auto simp: length_Suc_conv)
  then obtain pre post where "xs = pre @ x # post" "\<forall>y \<in> set pre. \<not> P y" "P x" "filter P post = []"
    by (metis filter_eq_Cons_iff)
  then show "\<exists>pre x post. xs = pre @ x # post \<and> P x \<and> (\<forall>y \<in> set (pre @ post). \<not> P y)"
    by (intro exI [of _ pre] exI [of _ x] exI [of _ post]) (auto simp: filter_empty_conv)
next
  assume "\<exists>pre x post. xs = pre @ x # post \<and> P x \<and> (\<forall>y \<in> set (pre @ post). \<not> P y)"
  then obtain pre x post where "xs = pre @ x # post" "P x" "\<forall>y \<in> set (pre @ post). \<not> P y" by blast
  moreover from this have "filter P pre = []" "filter P post = []" by (simp_all add: filter_empty_conv)
  ultimately show "length (filter P xs) = 1" by simp
qed

lemma activate_others: "activeQSHID \<notin> fst ` set xs \<Longrightarrow> map activate xs = xs"
  by (induction xs) (auto simp: activate_def)

lemma patch_frame_Inr:
  "patch_frame (with_crc p) = Some (Inr (frame, orig, act)) \<longleftrightarrow>
   (\<exists>hdr pre m post. qsh_header hdr (length (pre @ (activeQSHID, m) # post)) \<and> activeQSHID \<notin> fst ` set (pre @ post) \<and>
      m AND activeQSHMaskBit = 0 \<and> p = hdr @ entries (pre @ (activeQSHID, m) # post) \<and>
      frame = with_crc (hdr @ entries (pre @ (activeQSHID, m OR activeQSHMaskBit) # post)) \<and> orig = m \<and> act = m OR activeQSHMaskBit)"
  (is "?L \<longleftrightarrow> ?R")
proof
  assume ?R
  then obtain hdr pre m post where r: "qsh_header hdr (length (pre @ (activeQSHID, m) # post))" "activeQSHID \<notin> fst ` set (pre @ post)"
      "m AND activeQSHMaskBit = 0" "p = hdr @ entries (pre @ (activeQSHID, m) # post)"
      "frame = with_crc (hdr @ entries (pre @ (activeQSHID, m OR activeQSHMaskBit) # post))" "orig = m" "act = m OR activeQSHMaskBit"
    by auto
  have f: "filter (\<lambda>e. fst e = activeQSHID) pre = []" "filter (\<lambda>e. fst e = activeQSHID) post = []"
    using r(2) by (force simp: filter_empty_conv)+
  have "map activate (pre @ (activeQSHID, m) # post) = pre @ (activeQSHID, m OR activeQSHMaskBit) # post"
    using r(2) activate_others [of pre] activate_others [of post] by (auto simp: activate_def)
  with patch_frame_table [OF r(1)] f r(3-7) show ?L by auto
next
  assume L: ?L
  show ?R
  proof (rule patch_frame_cases [of p])
    fix hdr tbl assume t: "p = hdr @ entries tbl" "qsh_header hdr (length tbl)"
    from patch_frame_table [OF t(2)] L t(1) have one: "length (filter (\<lambda>e. fst e = activeQSHID) tbl) = 1"
      by (auto split: if_splits)
    then obtain pre x post where d: "tbl = pre @ x # post" "fst x = activeQSHID" "\<forall>y \<in> set (pre @ post). fst y \<noteq> activeQSHID"
      unfolding one_hit by blast
    then have "filter (\<lambda>e. fst e = activeQSHID) pre = []" "filter (\<lambda>e. fst e = activeQSHID) post = []"
      by (simp_all add: filter_empty_conv)
    then have f: "filter (\<lambda>e. fst e = activeQSHID) tbl = [x]" using d(1,2) by simp
    have m: "map activate tbl = pre @ (activeQSHID, snd x OR activeQSHMaskBit) # post"
      using d(1,2) activate_others [of pre] activate_others [of post] bspec [OF d(3)] by (force simp: activate_def)
    have x: "x = (activeQSHID, snd x)" using d(2) by (cases x) simp
    from patch_frame_table [OF t(2)] L t(1) f m have "snd x AND activeQSHMaskBit = 0 \<and>
        frame = with_crc (hdr @ entries (pre @ (activeQSHID, snd x OR activeQSHMaskBit) # post)) \<and> orig = snd x \<and> act = snd x OR activeQSHMaskBit"
      using d(1,2) by (auto split: if_splits)
    moreover have "activeQSHID \<notin> fst ` set (pre @ post)" using d(3) by (metis imageE)
    moreover have "tbl = pre @ (activeQSHID, snd x) # post" using d(1) x by simp
    ultimately show ?R using t by metis
  qed (use L in auto)
qed

lemma nonempty_payload: "qsh_header hdr n \<Longrightarrow> hdr @ xs \<noteq> []"
  by (auto simp: qsh_header_def)

lemma patch_active_frames:
  assumes "sha256 data = expectedBaseSHA256" and "decodeQTraceFrames data = Some (Inr [with_crc p])"
  shows "patchActiveQTrace sha256 data \<noteq> None"
    "patchActiveQTrace sha256 data = Some (Inr (active, r)) \<longleftrightarrow>
      (\<exists>frame m a. patch_frame (with_crc p) = Some (Inr (frame, m, a)) \<and> active = encodeQTraceFrames [frame] \<and>
        r = \<lparr>SourceSHA256 = sha256 data, SourceBytes = length data, ActiveSHA256 = sha256 active, ActiveBytes = length active,
             OriginalMask = m, ActiveMask = a\<rparr>)"
proof -
  obtain z where z: "patch_frame (with_crc p) = Some z" using patch_frame_total by blast
  have rt: "decodeQTraceFrames (encodeQTraceFrames [frame]) = Some (Inr [frame])" if pf: "patch_frame (with_crc p) = Some (Inr (frame, m, a))" for frame m a
  proof -
    obtain hdr n xs where "qsh_header hdr n" "frame = with_crc (hdr @ xs)" using pf unfolding patch_frame_Inr by blast
    then show ?thesis using decode_encode [of "[hdr @ xs]"] nonempty_payload [of hdr n xs] by simp
  qed
  show "patchActiveQTrace sha256 data \<noteq> None"
    "patchActiveQTrace sha256 data = Some (Inr (active, r)) \<longleftrightarrow>
      (\<exists>frame m a. patch_frame (with_crc p) = Some (Inr (frame, m, a)) \<and> active = encodeQTraceFrames [frame] \<and>
        r = \<lparr>SourceSHA256 = sha256 data, SourceBytes = length data, ActiveSHA256 = sha256 active, ActiveBytes = length active,
             OriginalMask = m, ActiveMask = a\<rparr>)"
    using z rt assms by (cases z; auto simp: patchActiveQTrace_def Let_def)+
qed

lemma patch_active_spec:
  "patchActiveQTrace sha256 data \<noteq> None \<and>
   (\<forall>active r. patchActiveQTrace sha256 data = Some (Inr (active, r)) \<longleftrightarrow>
     sha256 data = expectedBaseSHA256 \<and>
     (\<exists>hdr pre m post. qsh_header hdr (length (pre @ (activeQSHID, m) # post)) \<and> activeQSHID \<notin> fst ` set (pre @ post) \<and>
        m AND activeQSHMaskBit = 0 \<and>
        decodeQTraceFrames data = Some (Inr [with_crc (hdr @ entries (pre @ (activeQSHID, m) # post))]) \<and>
        decodeQTraceFrames active = Some (Inr [with_crc (hdr @ entries (pre @ (activeQSHID, m OR activeQSHMaskBit) # post))]) \<and>
        active = encodeQTraceFrames [with_crc (hdr @ entries (pre @ (activeQSHID, m OR activeQSHMaskBit) # post))] \<and>
        r = \<lparr>SourceSHA256 = sha256 data, SourceBytes = length data, ActiveSHA256 = sha256 active, ActiveBytes = length active,
             OriginalMask = m, ActiveMask = m OR activeQSHMaskBit\<rparr>))" (is "?T \<and> (\<forall>active r. ?L active r \<longleftrightarrow> ?S \<and> ?R active r)")
proof (cases "?S \<and> (\<exists>p. decodeQTraceFrames data = Some (Inr [with_crc p]))")
  case True
  then obtain p where p: "decodeQTraceFrames data = Some (Inr [with_crc p])" and s: ?S by blast
  have i: "with_crc a = with_crc b \<Longrightarrow> a = b" for a b by (auto simp: with_crc_def)
  have rt: "decodeQTraceFrames (encodeQTraceFrames [with_crc (hdr @ xs)]) = Some (Inr [with_crc (hdr @ xs)])" if "qsh_header hdr n" for hdr xs n
    using decode_encode [of "[hdr @ xs]"] nonempty_payload [OF that, of xs] by simp
  have "?L active r \<longleftrightarrow> ?R active r" for active r
  proof
    assume "?L active r"
    then obtain frame m a where f: "patch_frame (with_crc p) = Some (Inr (frame, m, a))" "active = encodeQTraceFrames [frame]"
        "r = \<lparr>SourceSHA256 = sha256 data, SourceBytes = length data, ActiveSHA256 = sha256 active, ActiveBytes = length active,
             OriginalMask = m, ActiveMask = a\<rparr>"
      unfolding patch_active_frames(2) [of sha256 data p, OF s p] by blast
    from f(1) obtain hdr pre post where "qsh_header hdr (length (pre @ (activeQSHID, m) # post))" "activeQSHID \<notin> fst ` set (pre @ post)"
        "m AND activeQSHMaskBit = 0" "p = hdr @ entries (pre @ (activeQSHID, m) # post)"
        "frame = with_crc (hdr @ entries (pre @ (activeQSHID, m OR activeQSHMaskBit) # post))" "a = m OR activeQSHMaskBit"
      unfolding patch_frame_Inr by blast
    with f(2,3) p rt show "?R active r" by blast
  next
    assume "?R active r"
    then obtain hdr pre m post where o: "qsh_header hdr (length (pre @ (activeQSHID, m) # post))" "activeQSHID \<notin> fst ` set (pre @ post)"
        "m AND activeQSHMaskBit = 0" "decodeQTraceFrames data = Some (Inr [with_crc (hdr @ entries (pre @ (activeQSHID, m) # post))])"
        "active = encodeQTraceFrames [with_crc (hdr @ entries (pre @ (activeQSHID, m OR activeQSHMaskBit) # post))]"
        "r = \<lparr>SourceSHA256 = sha256 data, SourceBytes = length data, ActiveSHA256 = sha256 active, ActiveBytes = length active,
             OriginalMask = m, ActiveMask = m OR activeQSHMaskBit\<rparr>"
      by blast
    have "p = hdr @ entries (pre @ (activeQSHID, m) # post)" using o(4) p i by simp
    with o(1,2,3) have "patch_frame (with_crc p) =
        Some (Inr (with_crc (hdr @ entries (pre @ (activeQSHID, m OR activeQSHMaskBit) # post)), m, m OR activeQSHMaskBit))"
      unfolding patch_frame_Inr by blast
    with o(5,6) show "?L active r" unfolding patch_active_frames(2) [of sha256 data p, OF s p] by blast
  qed
  with patch_active_frames(1) [of sha256 data p, OF s p] s show ?thesis by blast
next
  case False
  then have "\<not> (?S \<and> ?R active r)" for active r by blast
  moreover obtain z where z: "decodeQTraceFrames data = Some z" using decode_total by blast
  have "?S \<Longrightarrow> z = Inr fs \<Longrightarrow> length fs \<noteq> 1" for fs
    using False z decode_Inr [of data fs] by (auto simp: length_Suc_conv)
  then have "?T \<and> (\<forall>active r. \<not> ?L active r)" using z by (cases z) (auto simp: patchActiveQTrace_def Let_def)
  ultimately show ?thesis by blast
qed

section \<open>Properties\<close>

text \<open>Activating the production configuration changes one bit.  The patch never panics; it succeeds exactly for data
  with the pinned digest that decodes to a single 0x44/0x9001 frame with one entry of identifier 96
  whose bit 15 is clear, and then its output decodes to the same frame with bit 15 of that mask set and
  a fresh checksum: every other identifier and mask, and the header, are kept.\<close>
theorem patch_active_exact:
  "patchActiveQTrace sha256 data \<noteq> None \<and>
   (\<forall>active r. patchActiveQTrace sha256 data = Some (Inr (active, r)) \<longleftrightarrow>
     sha256 data = expectedBaseSHA256 \<and>
     (\<exists>hdr pre m post. qsh_header hdr (length (pre @ (activeQSHID, m) # post)) \<and> activeQSHID \<notin> fst ` set (pre @ post) \<and>
        m AND activeQSHMaskBit = 0 \<and>
        decodeQTraceFrames data = Some (Inr [with_crc (hdr @ entries (pre @ (activeQSHID, m) # post))]) \<and>
        decodeQTraceFrames active = Some (Inr [with_crc (hdr @ entries (pre @ (activeQSHID, m OR activeQSHMaskBit) # post))]) \<and>
        active = encodeQTraceFrames [with_crc (hdr @ entries (pre @ (activeQSHID, m OR activeQSHMaskBit) # post))] \<and>
        r = \<lparr>SourceSHA256 = sha256 data, SourceBytes = length data, ActiveSHA256 = sha256 active, ActiveBytes = length active,
             OriginalMask = m, ActiveMask = m OR activeQSHMaskBit\<rparr>))"
  by (rule patch_active_spec)

end
