(* ===== verification/Probe_Qmdl.thy ===== *)
theory Probe_Qmdl
  imports Probe_Qtrace Qsh_Decode "HOL-Library.List_Lexorder"
begin

text \<open>
  \<^verbatim>\<open>tools/u60-nr-crossband-probe/qmdl.go\<close> and the data types of \<^verbatim>\<open>model.go\<close> it fills: the analysis of a capture for
  measurement results of the target.  The byte loop is proved to consume exactly the complete segments
  of a stream; what it reports is a function of the frames, given separately (\<open>frame_result\<close>).  Files, and
  the errors of reading them, are answers of the environment.
\<close>

section \<open>Data\<close>

record targetSpec =
  tg_Band :: u32
  tg_ARFCN :: u32
  tg_PCI :: "u32 option"

text \<open>\<^verbatim>\<open>observed_at\<close> is filled in by the runner after the last analysis.\<close>

record ml1Result =
  ml_ObservedAt :: "int option"
  ml_Hash :: string
  ml_PCI :: u32
  ml_ARFCN :: u32
  ml_Band :: u32
  ml_Valid :: u32
  ml_RSRP :: rat
  ml_RSRPInteger :: int
  ml_SINR :: "rat option"
  ml_SINRInteger :: "int option"
  ml_RSRQ :: "rat option"
  ml_SearchEnergy :: "int option"
  ml_Words :: "u32 list"

record qshEvidence =
  ev_Hash :: string
  ev_Kind :: string
  ev_ARFCN :: "u32 option"
  ev_PCI :: "u32 option"
  ev_Words :: "u32 list"

record qmdlMetrics =
  mt_QSHFrameCount :: nat
  mt_ActiveHashCount :: nat
  mt_MalformedFrameCount :: nat
  mt_QMDLBytes :: int
  mt_Results :: "ml1Result list"
  mt_Evidence :: "qshEvidence list"

definition no_metrics :: qmdlMetrics where
  "no_metrics = \<lparr>mt_QSHFrameCount = 0, mt_ActiveHashCount = 0, mt_MalformedFrameCount = 0, mt_QMDLBytes = 0, mt_Results = [], mt_Evidence = []\<rparr>"

definition activeResultHash :: u32 where "activeResultHash = 0xd8f582a8"
definition foundCellHash :: u32 where "foundCellHash = 0xd8fa712c"
definition arfcnCountHash :: u32 where "arfcnCountHash = 0xf9f48cf1"
definition nrARFCNHash :: u32 where "nrARFCNHash = 0xf9f48e26"
definition nr2nrStartHash1 :: u32 where "nr2nrStartHash1 = 0xfa16e120"
definition nr2nrStartHash2 :: u32 where "nr2nrStartHash2 = 0xfa16e20f"
definition nr2nrStartHash3 :: u32 where "nr2nrStartHash3 = 0xfa16e581"

section \<open>Records\<close>

definition nrBandForARFCN :: "u32 \<Rightarrow> u32" where
  "nrBandForARFCN arfcn =
     (if arfcn \<ge> 151600 \<and> arfcn \<le> 160600 then 28 else if arfcn \<ge> 499200 \<and> arfcn \<le> 537999 then 41 else 0)"

definition qshEvidenceKind :: "u32 \<Rightarrow> string" where
  "qshEvidenceKind h =
     (if h = foundCellHash then ''ml1-found-cell'' else if h = arfcnCountHash then ''cm-arfcn-count''
      else if h = nrARFCNHash then ''cm-nr-arfcn''
      else if h = nr2nrStartHash1 \<or> h = nr2nrStartHash2 \<or> h = nr2nrStartHash3 then ''nr2nr-search-start'' else ''unknown'')"

definition matchesTargetResult :: "ml1Result \<Rightarrow> targetSpec \<Rightarrow> bool" where
  "matchesTargetResult result target =
     (if ml_ARFCN result \<noteq> tg_ARFCN target then False
      else (case tg_PCI target of None \<Rightarrow> True | Some pci \<Rightarrow> ml_PCI result = pci))"

definition q7 :: "u32 \<Rightarrow> rat" where "q7 w = f64_div (of_int (sint w)) 128"

definition decodeActiveResult :: "u32 list \<Rightarrow> targetSpec \<Rightarrow> ml1Result option option" where
  "decodeActiveResult words target =
     (if length words < 9 then Some None
      else do {
        pci \<leftarrow> idx words 0; arfcn \<leftarrow> idx words 1; valid \<leftarrow> idx words 2;
        if pci > 1007 \<or> arfcn = 0 \<or> arfcn > 3279165 \<or> valid \<noteq> 1 then Some None
        else do {
          w3 \<leftarrow> idx words 3;
          if q7 w3 < - 160 \<or> q7 w3 > - 20 then Some None
          else do {
            w4 \<leftarrow> idx words 4; w5 \<leftarrow> idx words 5; w6 \<leftarrow> idx words 6; w7 \<leftarrow> idx words 7; w8 \<leftarrow> idx words 8;
            Some (Some \<lparr>ml_ObservedAt = None, ml_Hash = ''0xd8f582a8'', ml_PCI = pci, ml_ARFCN = arfcn,
              ml_Band = (if arfcn = tg_ARFCN target then tg_Band target else nrBandForARFCN arfcn), ml_Valid = valid,
              ml_RSRP = q7 w3, ml_RSRPInteger = sint w4, ml_SINR = Some (q7 w5), ml_SINRInteger = Some (sint w6),
              ml_RSRQ = Some (q7 w7), ml_SearchEnergy = Some (sint w8), ml_Words = words\<rparr>) } } })"

definition known_hash :: "u32 \<Rightarrow> bool" where
  "known_hash h \<longleftrightarrow> h = activeResultHash \<or> h = foundCellHash \<or> h = arfcnCountHash \<or> h = nrARFCNHash \<or>
     h = nr2nrStartHash1 \<or> h = nr2nrStartHash2 \<or> h = nr2nrStartHash3"

definition decode_evidence :: "u32 \<Rightarrow> u32 list \<Rightarrow> qshEvidence option" where
  "decode_evidence h words =
     (let evidence = \<lparr>ev_Hash = ''0x'' @ pad_zero 8 (hex (unat h)), ev_Kind = qshEvidenceKind h, ev_ARFCN = None, ev_PCI = None, ev_Words = words\<rparr> in
      if h = foundCellHash \<and> length words \<ge> 2 then do {
        arfcn \<leftarrow> idx words 0; pci \<leftarrow> idx words 1;
        Some (evidence\<lparr>ev_ARFCN := Some arfcn, ev_PCI := Some pci\<rparr>) }
      else if h = nrARFCNHash \<and> length words \<ge> 2 then do {
        arfcn \<leftarrow> idx words 1;
        Some (evidence\<lparr>ev_ARFCN := Some arfcn\<rparr>) }
      else if (h = nr2nrStartHash1 \<or> h = nr2nrStartHash2 \<or> h = nr2nrStartHash3) \<and> length words > 0 then do {
        arfcn \<leftarrow> idx words (int (length words) - 1);
        Some (if arfcn > 0 \<and> arfcn \<le> 3279165 then evidence\<lparr>ev_ARFCN := Some arfcn\<rparr> else evidence) }
      else Some evidence)"

definition malformed :: "qmdlMetrics \<Rightarrow> qmdlMetrics" where
  "malformed metrics = metrics\<lparr>mt_MalformedFrameCount := mt_MalformedFrameCount metrics + 1\<rparr>"

definition consume_probe_record :: "u32 \<Rightarrow> u32 list \<Rightarrow> targetSpec \<Rightarrow> qmdlMetrics \<Rightarrow> qmdlMetrics option" where
  "consume_probe_record h words target metrics =
     (if h = activeResultHash then do {
        let metrics = metrics\<lparr>mt_ActiveHashCount := mt_ActiveHashCount metrics + 1\<rparr>;
        r \<leftarrow> decodeActiveResult words target;
        Some (case r of Some result \<Rightarrow> metrics\<lparr>mt_Results := mt_Results metrics @ [result]\<rparr> | None \<Rightarrow> metrics) }
      else do {
        evidence \<leftarrow> decode_evidence h words;
        Some (metrics\<lparr>mt_Evidence := mt_Evidence metrics @ [evidence]\<rparr>) })"

definition consumeQMDLFrame :: "byte list \<Rightarrow> bool \<Rightarrow> targetSpec \<Rightarrow> qmdlMetrics \<Rightarrow> qmdlMetrics option" where
  "consumeQMDLFrame frame escaped target metrics =
     (if escaped \<or> length frame < 18 then Some (malformed metrics)
      else do {
        payload \<leftarrow> slice frame 0 (int (length frame) - 2);
        trailer \<leftarrow> slice frame (int (length frame) - 2) (int (length frame));
        crc \<leftarrow> uint16le trailer;
        if crc \<noteq> diagCRC16_probe payload then Some (malformed metrics)
        else do {
          b0 \<leftarrow> idx payload 0;
          if b0 \<noteq> 0x9d \<or> length payload < 16 then Some metrics
          else do {
            let metrics = metrics\<lparr>mt_QSHFrameCount := mt_QSHFrameCount metrics + 1\<rparr>;
            b4 \<leftarrow> idx payload 4;
            let wordCount = int (unat b4) - 0x13;
            if wordCount < 0 \<or> wordCount > 236 \<or> int (length payload) < 16 + wordCount * 4 then Some (malformed metrics)
            else do {
              s \<leftarrow> slice payload 12 16;
              h \<leftarrow> uint32le s;
              if \<not> known_hash h then Some metrics
              else do {
                words \<leftarrow> read_words payload 16 (nat wordCount);
                consume_probe_record h words target metrics } } } } })"

text \<open>The loop of \<^verbatim>\<open>consumeQMDL\<close> over the delivered bytes, on the frame so far and the \<^verbatim>\<open>escaped\<close> flag.\<close>

fun consume_bytes :: "targetSpec \<Rightarrow> byte list \<Rightarrow> byte list \<Rightarrow> bool \<Rightarrow> qmdlMetrics \<Rightarrow> qmdlMetrics option" where
  "consume_bytes target [] frame escaped metrics = Some metrics"
| "consume_bytes target (v # vs) frame escaped metrics =
     (if v = 0x7e then do {
        metrics \<leftarrow> (if frame \<noteq> [] then consumeQMDLFrame frame escaped target metrics else Some metrics);
        consume_bytes target vs [] False metrics }
      else if escaped then consume_bytes target vs (frame @ [v XOR 0x20]) False metrics
      else if v = 0x7d then consume_bytes target vs frame True metrics
      else consume_bytes target vs (frame @ [v]) False metrics)"

text \<open>\<open>tail\<close> is the error that ends reading; \<open>None\<close> is \<^verbatim>\<open>io.EOF\<close>.\<close>

definition consumeQMDL :: "byte list \<Rightarrow> err \<Rightarrow> targetSpec \<Rightarrow> qmdlMetrics \<Rightarrow> (qmdlMetrics \<times> err) option" where
  "consumeQMDL source tail target metrics = do {
     metrics \<leftarrow> consume_bytes target source [] False metrics;
     Some (metrics, tail) }"

record capture_file =
  cf_stat :: "string + int"
  cf_open :: "string + byte list"
  cf_tail :: err
  cf_close :: err

fun analyze_paths :: "(string \<Rightarrow> capture_file) \<Rightarrow> targetSpec \<Rightarrow> string list \<Rightarrow> qmdlMetrics \<Rightarrow> (qmdlMetrics \<times> err) option" where
  "analyze_paths fs target [] metrics = Some (metrics, None)"
| "analyze_paths fs target (path # paths) metrics =
     (case cf_stat (fs path) of
        Inl e \<Rightarrow> Some (metrics, Some e)
      | Inr bytes \<Rightarrow>
          (let metrics = metrics\<lparr>mt_QMDLBytes := mt_QMDLBytes metrics + bytes\<rparr> in
           case cf_open (fs path) of
             Inl e \<Rightarrow> Some (metrics, Some e)
           | Inr source \<Rightarrow> do {
               (metrics, e) \<leftarrow> consumeQMDL source (cf_tail (fs path)) target metrics;
               case e of
                 Some e \<Rightarrow> Some (metrics, Some (''parse '' @ path @ '': '' @ e))
               | None \<Rightarrow>
                   (case cf_close (fs path) of
                      Some e \<Rightarrow> Some (metrics, Some e)
                    | None \<Rightarrow> analyze_paths fs target paths metrics) }))"

definition analyzeQMDLFiles :: "(string \<Rightarrow> capture_file) \<Rightarrow> string list \<Rightarrow> targetSpec \<Rightarrow> (qmdlMetrics \<times> err) option" where
  "analyzeQMDLFiles fs paths target = analyze_paths fs target (sort_key (map code) paths) no_metrics"

definition hasTargetResult :: "ml1Result list \<Rightarrow> targetSpec \<Rightarrow> bool" where
  "hasTargetResult results target \<longleftrightarrow> list_ex (\<lambda>result. matchesTargetResult result target) results"

definition countTargetResults :: "ml1Result list \<Rightarrow> targetSpec \<Rightarrow> nat" where
  "countTargetResults results target = foldl (\<lambda>count result. if matchesTargetResult result target then count + 1 else count) 0 results"

section \<open>What a frame holds\<close>

text \<open>The frames of a stream: its complete segments, unescaped, less the empty ones.\<close>

definition stream_frames :: "byte list \<Rightarrow> (byte list \<times> bool) list" where
  "stream_frames bs = filter (\<lambda>fe. fst fe \<noteq> []) (map (\<lambda>seg. probe_unescape seg [] False) (butlast (split_on 0x7e bs)))"

definition crc_frame :: "byte list \<times> bool \<Rightarrow> bool" where
  "crc_frame fe \<longleftrightarrow> \<not> snd fe \<and> 18 \<le> length (fst fe) \<and> fst fe = with_crc (take (length (fst fe) - 2) (fst fe))"

definition qsh_payload :: "byte list \<Rightarrow> bool" where
  "qsh_payload p \<longleftrightarrow> 0x13 \<le> unat (p ! 4) \<and> unat (p ! 4) \<le> 0xff \<and> 16 + 4 * (unat (p ! 4) - 0x13) \<le> length p"

text \<open>The words of a trace record in a frame with a right checksum, with its hash.\<close>

definition frame_record :: "byte list \<times> bool \<Rightarrow> (u32 \<times> u32 list) option" where
  "frame_record fe =
     (let p = take (length (fst fe) - 2) (fst fe) in
      if crc_frame fe \<and> p ! 0 = 0x9d \<and> qsh_payload p
      then do { h \<leftarrow> uint32le (drop 12 p); words \<leftarrow> read_words p 16 (unat (p ! 4) - 0x13); Some (h, words) }
      else None)"

definition active_words :: "byte list \<times> bool \<Rightarrow> u32 list option" where
  "active_words fe = (case frame_record fe of Some (h, words) \<Rightarrow> if h = activeResultHash then Some words else None | None \<Rightarrow> None)"

definition plausible :: "u32 list \<Rightarrow> bool" where
  "plausible words \<longleftrightarrow> 9 \<le> length words \<and> words ! 0 \<le> 1007 \<and> words ! 1 \<noteq> 0 \<and> words ! 1 \<le> 3279165 \<and> words ! 2 = 1 \<and>
     - 20480 \<le> sint (words ! 3) \<and> sint (words ! 3) \<le> - 2560"

definition result_of :: "targetSpec \<Rightarrow> u32 list \<Rightarrow> ml1Result" where
  "result_of target words =
     \<lparr>ml_ObservedAt = None, ml_Hash = ''0xd8f582a8'', ml_PCI = words ! 0, ml_ARFCN = words ! 1,
      ml_Band = (if words ! 1 = tg_ARFCN target then tg_Band target else nrBandForARFCN (words ! 1)), ml_Valid = 1,
      ml_RSRP = of_int (sint (words ! 3)) / 128, ml_RSRPInteger = sint (words ! 4), ml_SINR = Some (of_int (sint (words ! 5)) / 128),
      ml_SINRInteger = Some (sint (words ! 6)), ml_RSRQ = Some (of_int (sint (words ! 7)) / 128),
      ml_SearchEnergy = Some (sint (words ! 8)), ml_Words = words\<rparr>"

lemma q7_exact: "q7 w = of_int (sint w) / 128"
proof -
  have "\<bar>sint w\<bar> < 2 ^ 46" using sint_range_size [of w] by (simp add: word_size abs_if)
  then show ?thesis unfolding q7_def by (rule f64_div_128)
qed

lemma q7_range: "q7 w < - 160 \<or> q7 w > - 20 \<longleftrightarrow> \<not> (- 20480 \<le> sint w \<and> sint w \<le> - 2560)"
proof -
  have "(of_int (sint w) / 128 :: rat) < - 160 \<longleftrightarrow> (of_int (sint w) :: rat) < of_int (- 20480)"
    "(of_int (sint w) / 128 :: rat) > - 20 \<longleftrightarrow> (of_int (sint w) :: rat) > of_int (- 2560)"
    by (auto simp: field_simps)
  then show ?thesis unfolding q7_exact of_int_less_iff by linarith
qed

lemma decodeActiveResult_eq: "decodeActiveResult words target = Some (if plausible words then Some (result_of target words) else None)"
proof (cases "length words < 9")
  case False
  have i: "idx words n = Some (words ! nat n)" if "0 \<le> n" "n < 9" for n
    using that False by (simp add: idx_def)
  show ?thesis using False i [of 0] i [of 1] i [of 2] i [of 3] i [of 4] i [of 5] i [of 6] i [of 7] i [of 8]
    by (simp add: decodeActiveResult_def q7_range) (auto simp: plausible_def result_of_def q7_exact not_less)
qed (simp add: decodeActiveResult_def plausible_def)

lemma decode_evidence_total: "\<exists>e. decode_evidence h words = Some e"
  by (auto simp: decode_evidence_def Let_def idx_def)

lemma word_count_iff:
  fixes n l :: nat
  shows "0x13 \<le> n \<and> n \<le> 0xff \<and> 16 + 4 * (n - 0x13) \<le> l \<longleftrightarrow> \<not> (int n - 0x13 < 0 \<or> int n - 0x13 > 236 \<or> int l < 16 + (int n - 0x13) * 4)"
  by auto

lemma frame_crc_split:
  assumes "3 \<le> length f"
  shows "slice f 0 (int (length f) - 2) = Some (take (length f - 2) f)"
    "\<exists>w. slice f (int (length f) - 2) (int (length f)) \<bind> uint16le = Some w \<and>
      (w = diagCRC16_probe (take (length f - 2) f) \<longleftrightarrow> f = with_crc (take (length f - 2) f))"
proof -
  obtain p w where d: "f = p @ put16 w" "slice f 0 (int (length f) - 2) = Some p"
      "slice f (int (length f) - 2) (int (length f)) = Some (put16 w)" using frame_crc [OF assms] by blast
  have p: "take (length f - 2) f = p" using d(1) by simp
  show "slice f 0 (int (length f) - 2) = Some (take (length f - 2) f)" using d(2) p by simp
  have "w = diagCRC16_probe p \<longleftrightarrow> f = with_crc p"
    by (metis append_same_eq d(1) diagCRC16_agree option.inject same_append_eq uint16le_put16_alone with_crc_def)
  with d(3) p show "\<exists>w. slice f (int (length f) - 2) (int (length f)) \<bind> uint16le = Some w \<and>
      (w = diagCRC16_probe (take (length f - 2) f) \<longleftrightarrow> f = with_crc (take (length f - 2) f))"
    by auto
qed

text \<open>The effect of one frame on the four fields the byte loop changes.\<close>

definition frame_effect :: "targetSpec \<Rightarrow> byte list \<times> bool \<Rightarrow> qmdlMetrics \<Rightarrow> qmdlMetrics \<Rightarrow> bool" where
  "frame_effect target fe m m' \<longleftrightarrow>
     mt_QMDLBytes m' = mt_QMDLBytes m \<and>
     mt_MalformedFrameCount m' = mt_MalformedFrameCount m + (if crc_frame fe \<and> (fst fe ! 0 = 0x9d \<longrightarrow> frame_record fe \<noteq> None) then 0 else 1) \<and>
     mt_QSHFrameCount m' = mt_QSHFrameCount m + (if crc_frame fe \<and> fst fe ! 0 = 0x9d then 1 else 0) \<and>
     mt_ActiveHashCount m' = mt_ActiveHashCount m + (if active_words fe = None then 0 else 1) \<and>
     mt_Results m' = mt_Results m @
       (case active_words fe of None \<Rightarrow> [] | Some words \<Rightarrow> if plausible words then [result_of target words] else []) \<and>
     length (mt_Evidence m') = length (mt_Evidence m) +
       (case frame_record fe of None \<Rightarrow> 0 | Some (h, _) \<Rightarrow> if known_hash h \<and> h \<noteq> activeResultHash then 1 else 0)"

lemma consume_record_effect:
  assumes "frame_record fe = Some (h, words)" and "crc_frame fe" and "fst fe ! 0 = 0x9d"
  shows "\<exists>m'. (if \<not> known_hash h then Some (m\<lparr>mt_QSHFrameCount := mt_QSHFrameCount m + 1\<rparr>)
      else consume_probe_record h words target (m\<lparr>mt_QSHFrameCount := mt_QSHFrameCount m + 1\<rparr>)) = Some m' \<and> frame_effect target fe m m'"
proof -
  obtain e where "decode_evidence h words = Some e" using decode_evidence_total by blast
  moreover have "known_hash activeResultHash" by (simp add: known_hash_def)
  ultimately show ?thesis using assms
    by (cases "h = activeResultHash") (auto simp: frame_effect_def consume_probe_record_def decodeActiveResult_eq active_words_def)
qed

lemma consumeQMDLFrame_effect: "\<exists>m'. consumeQMDLFrame f e target m = Some m' \<and> frame_effect target (f, e) m m'"
proof (cases "e \<or> length f < 18")
  case True
  then have "\<not> crc_frame (f, e)" by (auto simp: crc_frame_def)
  then show ?thesis using True by (auto simp: consumeQMDLFrame_def malformed_def frame_effect_def frame_record_def active_words_def)
next
  case False
  let ?p = "take (length f - 2) f"
  have len: "3 \<le> length f" "16 \<le> length ?p" using False by auto
  obtain w where w: "slice f (int (length f) - 2) (int (length f)) \<bind> uint16le = Some w" "w = diagCRC16_probe ?p \<longleftrightarrow> f = with_crc ?p"
    using frame_crc_split(2) [OF len(1)] by blast
  have crc: "crc_frame (f, e) \<longleftrightarrow> w = diagCRC16_probe ?p" using False w(2) by (auto simp: crc_frame_def)
  have i: "idx ?p 0 = Some (?p ! 0)" "idx ?p 4 = Some (?p ! 4)" using len(2) by (simp_all add: idx_def)
  have p0: "?p ! 0 = f ! 0" using len(1) by simp
  have sl: "slice ?p 12 16 \<bind> uint32le = uint32le (drop 12 ?p)" using False uint32le_take [of 4 "drop 12 ?p"]
    by (simp add: slice_def)
  obtain h where h: "uint32le (drop 12 ?p) = Some h" using len(2) uint32le_None_iff [of "drop 12 ?p"]
    by (cases "uint32le (drop 12 ?p)") simp_all
  let ?wc = "int (unat (?p ! 4)) - 0x13"
  have q: "qsh_payload ?p \<longleftrightarrow> \<not> (?wc < 0 \<or> ?wc > 236 \<or> int (length ?p) < 16 + ?wc * 4)"
    unfolding qsh_payload_def by (rule word_count_iff)
  note unfold = consumeQMDLFrame_def frame_crc_split(1) [OF len(1)]
  show ?thesis
  proof (cases "crc_frame (f, e) \<and> f ! 0 = 0x9d")
    case True
    show ?thesis
    proof (cases "qsh_payload ?p")
      case qp: True
      have nw: "nat ?wc = unat (?p ! 4) - 0x13" by (rule nat_int_diff_numeral)
      have "16 + 4 * (unat (?p ! 4) - 0x13) \<le> length ?p" using qp unfolding qsh_payload_def by blast
      from read_words_total [OF this] obtain words where rw: "read_words ?p 16 (nat ?wc) = Some words" unfolding nw by blast
      from nw have fr: "frame_record (f, e) = Some (h, words)" using True qp h rw p0 by (simp add: frame_record_def)
      from consume_record_effect [OF fr, of m target] True obtain m' where
        "(if \<not> known_hash h then Some (m\<lparr>mt_QSHFrameCount := mt_QSHFrameCount m + 1\<rparr>)
          else consume_probe_record h words target (m\<lparr>mt_QSHFrameCount := mt_QSHFrameCount m + 1\<rparr>)) = Some m'" "frame_effect target (f, e) m m'"
        by auto
      then show ?thesis using False w(1) True crc i p0 len(2) q qp sl h rw unfolding unfold
        by (intro exI [of _ m'], cases "known_hash h") (simp_all add: Let_def flip: bind_assoc)
    next
      case qp: False
      then have fr: "frame_record (f, e) = None" by (simp add: frame_record_def Let_def)
      show ?thesis using False w(1) True crc i p0 len(2) q qp fr unfolding unfold
        by (auto simp: frame_effect_def active_words_def malformed_def Let_def simp flip: bind_assoc)
    qed
  next
    case no: False
    then have "frame_record (f, e) = None" using p0 by (auto simp: frame_record_def Let_def)
    then show ?thesis using False w(1) no crc i p0 len(2) unfolding unfold
      by (auto simp: frame_effect_def active_words_def malformed_def Let_def simp flip: bind_assoc)
  qed
qed

section \<open>The byte loop\<close>

definition consume_frame :: "targetSpec \<Rightarrow> qmdlMetrics \<Rightarrow> byte list \<times> bool \<Rightarrow> qmdlMetrics option" where
  "consume_frame target m fe = (if fst fe \<noteq> [] then consumeQMDLFrame (fst fe) (snd fe) target m else Some m)"

lemma consume_bytes_segments:
  "consume_bytes target bs f e m =
   ofold (consume_frame target) m
     (case split_on 0x7e bs of [] \<Rightarrow> [] | s # ss \<Rightarrow> butlast (probe_unescape s f e # map (\<lambda>s. probe_unescape s [] False) ss))"
proof (induction target bs f e m rule: consume_bytes.induct)
  case (2 target v vs f e m)
  obtain s ss where sp: "split_on 0x7e vs = s # ss" by (cases "split_on 0x7e vs") auto
  have butlast: "butlast (a # b # xs) = a # butlast (b # xs)" for a b :: "byte list \<times> bool" and xs by simp
  show ?case
  proof (cases "v = 0x7e")
    case True
    let ?h = "if f \<noteq> [] then consumeQMDLFrame f e target m else Some m"
    have "consume_bytes target (v # vs) f e m = ?h \<bind> consume_bytes target vs [] False" using True by simp
    also have "\<dots> = ?h \<bind> (\<lambda>m. ofold (consume_frame target) m (butlast (probe_unescape s [] False # map (\<lambda>s. probe_unescape s [] False) ss)))"
      using "2.IH"(1) [OF True] sp by (intro Option.bind_cong) auto
    also have "\<dots> = ofold (consume_frame target) m (butlast (probe_unescape [] f e # map (\<lambda>s. probe_unescape s [] False) (s # ss)))"
      unfolding list.map butlast ofold.simps by (simp add: consume_frame_def)
    finally show ?thesis using True sp by simp
  qed (use "2.IH"(2-4) sp in auto)
qed simp

lemma ofold_filter: "ofold (consume_frame target) m fs = ofold (consume_frame target) m (filter (\<lambda>fe. fst fe \<noteq> []) fs)"
  by (induction fs arbitrary: m) (auto simp: consume_frame_def)

lemma consumeQMDL_frames: "consume_bytes target bs [] False m = ofold (consume_frame target) m (stream_frames bs)"
proof -
  obtain s ss where "split_on 0x7e bs = s # ss" by (cases "split_on 0x7e bs") auto
  then have "consume_bytes target bs [] False m =
      ofold (consume_frame target) m (map (\<lambda>seg. probe_unescape seg [] False) (butlast (split_on 0x7e bs)))"
    by (simp add: consume_bytes_segments map_butlast)
  then show ?thesis unfolding stream_frames_def ofold_filter [symmetric] .
qed

lemma frames_effect:
  assumes "[] \<notin> fst ` set fs"
  shows "\<exists>m'. ofold (consume_frame target) m fs = Some m' \<and> mt_QMDLBytes m' = mt_QMDLBytes m \<and>
    mt_Results m' = mt_Results m @ map (result_of target) (filter plausible (List.map_filter active_words fs)) \<and>
    mt_ActiveHashCount m' = mt_ActiveHashCount m + length (List.map_filter active_words fs) \<and>
    mt_QSHFrameCount m' = mt_QSHFrameCount m + length (filter (\<lambda>fe. crc_frame fe \<and> fst fe ! 0 = 0x9d) fs) \<and>
    mt_MalformedFrameCount m' = mt_MalformedFrameCount m +
      length (filter (\<lambda>fe. \<not> (crc_frame fe \<and> (fst fe ! 0 = 0x9d \<longrightarrow> frame_record fe \<noteq> None))) fs)"
  using assms
proof (induction fs arbitrary: m)
  case Nil
  then show ?case by (simp add: List.map_filter_simps)
next
  case (Cons fe fs)
  obtain m1 where m1: "consume_frame target m fe = Some m1" "frame_effect target fe m m1"
    using consumeQMDLFrame_effect [of "fst fe" "snd fe" target m] Cons.prems by (auto simp: consume_frame_def)
  obtain m' where i: "ofold (consume_frame target) m1 fs = Some m'" "mt_QMDLBytes m' = mt_QMDLBytes m1"
    "mt_Results m' = mt_Results m1 @ map (result_of target) (filter plausible (List.map_filter active_words fs))"
    "mt_ActiveHashCount m' = mt_ActiveHashCount m1 + length (List.map_filter active_words fs)"
    "mt_QSHFrameCount m' = mt_QSHFrameCount m1 + length (filter (\<lambda>fe. crc_frame fe \<and> fst fe ! 0 = 0x9d) fs)"
    "mt_MalformedFrameCount m' = mt_MalformedFrameCount m1 +
      length (filter (\<lambda>fe. \<not> (crc_frame fe \<and> (fst fe ! 0 = 0x9d \<longrightarrow> frame_record fe \<noteq> None))) fs)"
    using Cons.IH [of m1] Cons.prems by auto
  show ?case using m1 i by (intro exI [of _ m']) (simp add: frame_effect_def List.map_filter_simps split: option.splits)
qed

text \<open>A record as the logger writes it.\<close>

definition active_payload :: "byte list \<Rightarrow> byte list \<Rightarrow> u32 list \<Rightarrow> byte list" where
  "active_payload hdr mid words =
     0x9d # hdr @ [word_of_nat (0x13 + length words)] @ mid @ put32 activeResultHash @ concat (map put32 words)"

lemma active_payload_words:
  assumes "length hdr = 3" "length mid = 7" "length words \<le> 236"
  shows "active_words (with_crc (active_payload hdr mid words), False) = Some words"
proof -
  let ?p = "active_payload hdr mid words"
  have len: "length ?p = 16 + 4 * length words"
    using assms by (simp add: active_payload_def concat_replicate_length [of _ _ 4])
  have t: "take (length (with_crc ?p) - 2) (with_crc ?p) = ?p" by (simp add: with_crc_def)
  have p4: "?p ! 4 = word_of_nat (0x13 + length words)" using assms(1) by (simp add: active_payload_def nth_append)
  have u: "unat (?p ! 4) = 0x13 + length words" unfolding p4 using assms(3) by (simp add: unat_of_nat take_bit_eq_mod del: of_nat_add)
  have "drop 12 ?p = put32 activeResultHash @ concat (map put32 words)" using assms(1,2) by (simp add: active_payload_def)
  then have h: "uint32le (drop 12 ?p) = Some activeResultHash" by simp
  have "read_words ((0x9d # hdr @ [word_of_nat (0x13 + length words)] @ mid @ put32 activeResultHash) @ concat (map put32 words) @ [])
      (length (0x9d # hdr @ [word_of_nat (0x13 + length words)] @ mid @ put32 activeResultHash)) (length words) = Some words"
    by (rule read_words_put32)
  then have "read_words ?p 16 (length words) = Some words" using assms(1,2) by (simp add: active_payload_def)
  moreover have "?p ! 0 = 0x9d" by (simp add: active_payload_def)
  moreover have "qsh_payload ?p" using u len assms(3) by (simp add: qsh_payload_def)
  moreover have "crc_frame (with_crc ?p, False)" using len by (simp add: crc_frame_def t) (simp add: with_crc_def)
  ultimately show ?thesis by (simp add: active_words_def frame_record_def t u h Let_def)
qed

lemma probe_unescape_escape: "probe_unescape (hdlcEscape xs) d False = (d @ xs, False)"
  by (simp add: probe_unescape_fold unescape_fold_escape)

lemma stream_frames_framed: "stream_frames (encodeQTraceFrames (map with_crc ps)) = map (\<lambda>p. (with_crc p, False)) ps"
proof -
  have "butlast (split_on 0x7e (encodeQTraceFrames (map with_crc ps))) = map hdlcEscape (map with_crc ps)"
    using hdlc.split_stream [of "map with_crc ps"] by (simp add: encodeQTraceFrames_escape)
  then show ?thesis by (simp add: stream_frames_def o_def probe_unescape_escape filter_map) (simp add: with_crc_def filter_id_conv)
qed

lemma stream_frames_nonempty: "[] \<notin> fst ` set (stream_frames bs)"
  by (auto simp: stream_frames_def)

lemma consume_total: "\<exists>m'. consume_bytes target bs [] False m = Some m'"
  using frames_effect [OF stream_frames_nonempty [of bs], of target m] by (auto simp: consumeQMDL_frames)

lemma analyze_paths_total: "\<exists>m' e. analyze_paths fs target paths m = Some (m', e)"
proof (induction fs target paths m rule: analyze_paths.induct)
  case (2 fs target path paths m)
  show ?case
  proof (cases "cf_stat (fs path)")
    case st: (Inr bytes)
    show ?thesis
    proof (cases "cf_open (fs path)")
      case op: (Inr source)
      obtain m1 where c: "consume_bytes target source [] False (m\<lparr>mt_QMDLBytes := mt_QMDLBytes m + bytes\<rparr>) = Some m1" using consume_total by blast
      then have q: "consumeQMDL source (cf_tail (fs path)) target (m\<lparr>mt_QMDLBytes := mt_QMDLBytes m + bytes\<rparr>) = Some (m1, cf_tail (fs path))"
        by (simp add: consumeQMDL_def)
      show ?thesis using "2.IH" [OF st refl op q refl] st op q
        by (cases "cf_tail (fs path)"; cases "cf_close (fs path)") simp_all
    qed (use st in simp)
  qed simp
qed simp

definition measures_target :: "targetSpec \<Rightarrow> u32 list \<Rightarrow> bool" where
  "measures_target target words \<longleftrightarrow>
     plausible words \<and> words ! 1 = tg_ARFCN target \<and> (case tg_PCI target of None \<Rightarrow> True | Some pci \<Rightarrow> words ! 0 = pci)"

lemma hasTarget_result_of: "plausible words \<Longrightarrow> matchesTargetResult (result_of target words) target \<longleftrightarrow> measures_target target words"
  by (cases "tg_PCI target") (auto simp: matchesTargetResult_def result_of_def measures_target_def)

lemma hasTarget_results:
  "hasTargetResult (rs @ map (result_of target) (filter plausible ws)) target \<longleftrightarrow> hasTargetResult rs target \<or> list_ex (measures_target target) ws"
proof -
  have "hasTargetResult (map (result_of target) (filter plausible ws)) target \<longleftrightarrow> list_ex (measures_target target) ws"
    by (induction ws) (auto simp: hasTargetResult_def hasTarget_result_of measures_target_def)
  then show ?thesis by (simp add: hasTargetResult_def)
qed

lemma countTargetResults_eq: "countTargetResults rs target = length (filter (\<lambda>r. matchesTargetResult r target) rs)"
proof -
  have "foldl (\<lambda>count result. if matchesTargetResult result target then count + 1 else count) n rs = n + length (filter (\<lambda>r. matchesTargetResult r target) rs)" for n
    by (induction rs arbitrary: n) auto
  then show ?thesis by (simp add: countTargetResults_def)
qed

section \<open>Properties\<close>


text \<open>What the logger writes is found: in a stream of measurement records, each in a frame with its checksum, escaped
  and delimited, every record is counted and exactly the plausible ones are reported, in order.\<close>
theorem probe_stream_read_back:
  assumes "list_all (\<lambda>(hdr, mid, words). length hdr = 3 \<and> length mid = 7 \<and> length words \<le> 236) records"
  shows "\<exists>m'. consumeQMDL (encodeQTraceFrames (map (\<lambda>(hdr, mid, words). with_crc (active_payload hdr mid words)) records)) None target no_metrics = Some (m', None) \<and>
    mt_ActiveHashCount m' = length records \<and> mt_MalformedFrameCount m' = 0 \<and>
    mt_Results m' = map (result_of target) (filter plausible (map (\<lambda>(hdr, mid, words). words) records))"
proof -
  let ?ps = "map (\<lambda>(hdr, mid, words). active_payload hdr mid words) records"
  let ?fs = "map (\<lambda>p. (with_crc p, False)) ?ps"
  have e: "map (\<lambda>(hdr, mid, words). with_crc (active_payload hdr mid words)) records = map with_crc ?ps"
    by (auto simp: case_prod_beta')
  have w: "List.map_filter active_words ?fs = map (\<lambda>(hdr, mid, words). words) records"
    using assms by (induction records) (auto simp: List.map_filter_simps active_payload_words)
  have ok: "crc_frame fe \<and> frame_record fe \<noteq> None" if "active_words fe \<noteq> None" for fe
    using that by (auto simp: active_words_def frame_record_def Let_def split: option.splits if_splits)
  have "active_words fe \<noteq> None" if "fe \<in> set ?fs" for fe
    using that assms by (auto simp: list_all_iff active_payload_words)
  then have "filter (\<lambda>fe. \<not> (crc_frame fe \<and> (fst fe ! 0 = 0x9d \<longrightarrow> frame_record fe \<noteq> None))) ?fs = []"
    using ok by (auto simp: filter_empty_conv)
  moreover have "[] \<notin> fst ` set ?fs" by (auto simp: with_crc_def)
  ultimately show ?thesis
    using frames_effect [of ?fs target no_metrics] w unfolding e consumeQMDL_def consumeQMDL_frames stream_frames_framed
    by (auto simp: no_metrics_def)
qed

definition sample_record :: "byte list \<times> byte list \<times> u32 list" where
  "sample_record = ([0, 0, 0], [0, 0, 0, 0, 0, 0, 0], [77, 504990, 1, - 12800, 0, 0, 0, 0, 0])"

theorem probe_stream_read_back_witness:
  "\<exists>m'. consumeQMDL (encodeQTraceFrames (map (\<lambda>(hdr, mid, words). with_crc (active_payload hdr mid words)) [sample_record])) None
      \<lparr>tg_Band = 41, tg_ARFCN = 504990, tg_PCI = Some 77\<rparr> no_metrics = Some (m', None) \<and>
    map (\<lambda>r. (ml_PCI r, ml_Band r, ml_RSRP r)) (mt_Results m') = [(77, 41, - 100)]"
proof -
  have "list_all (\<lambda>(hdr, mid, words). length hdr = 3 \<and> length mid = 7 \<and> length words \<le> 236) [sample_record]"
    by (simp add: sample_record_def)
  moreover have "plausible [77, 504990, 1, - 12800, 0, 0, 0, 0, 0]" by (simp add: plausible_def)
  ultimately show ?thesis
    using probe_stream_read_back [of "[sample_record]" "\<lparr>tg_Band = 41, tg_ARFCN = 504990, tg_PCI = Some 77\<rparr>"]
    by (auto simp: sample_record_def result_of_def)
qed

end
