(* ===== verification/Probe_Qmi.thy ===== *)
theory Probe_Qmi
  imports Go_Encoding
begin

text \<open>
  \<^verbatim>\<open>tools/u60-nr-crossband-probe/qmi_protocol.go\<close>: the QMI messages of the cross-band probe.  A message is a flag
  byte, a transaction and a message number, the length of the payload and a sequence of TLVs (type,
  16-bit length, value), all little-endian.  Encoder and parser are two sides of the contract
  \<open>message_codec\<close>: they are inverse to each other, so a packet is accepted exactly when it is the
  encoding of its parts.  Errors are their texts; \<open>None\<close> is a run-time panic.
\<close>

section \<open>The contract of a message encoding\<close>

locale message_codec =
  fixes enc :: "'m \<Rightarrow> 'e + 'w list" and dec :: "'w list \<Rightarrow> 'm option"
  assumes dec_enc: "enc m = Inr p \<Longrightarrow> dec p = Some m"
    and enc_dec: "dec p = Some m \<Longrightarrow> enc m = Inr p"
begin

lemma accepted_iff: "dec p = Some m \<longleftrightarrow> enc m = Inr p"
  using dec_enc enc_dec by blast

lemma enc_inject: "enc m = Inr p \<Longrightarrow> enc m' = Inr p \<Longrightarrow> m = m'"
  by (metis dec_enc option.inject)

end

section \<open>Messages\<close>

record qmiTLV =
  tlv_Type :: byte
  tlv_Value :: "byte list"

definition qmiFlagRequest :: byte where "qmiFlagRequest = 0x00"
definition qmiFlagResponse :: byte where "qmiFlagResponse = 0x02"
definition qmiFlagIndication :: byte where "qmiFlagIndication = 0x04"
definition qmiIncrementalScan :: u16 where "qmiIncrementalScan = 0x0085"
definition qmiAbortNetworkScan :: u16 where "qmiAbortNetworkScan = 0x00c2"

definition hex2 :: "byte \<Rightarrow> string" where "hex2 b = ''0x'' @ pad_zero 2 (hex (unat b))"

text \<open>The first loop of \<^verbatim>\<open>makeQMIRequest\<close>.\<close>

fun payload_length :: "qmiTLV list \<Rightarrow> nat \<Rightarrow> string + nat" where
  "payload_length [] n = Inr n"
| "payload_length (tlv # tlvs) n =
     (if length (tlv_Value tlv) > 0xffff then Inl (''TLV '' @ hex2 (tlv_Type tlv) @ '' is too large: '' @ utoa (length (tlv_Value tlv)))
      else payload_length tlvs (n + (3 + length (tlv_Value tlv))))"

definition encode_tlv :: "qmiTLV \<Rightarrow> byte list" where
  "encode_tlv tlv =
     [tlv_Type tlv, word_of_nat (length (tlv_Value tlv)), word_of_nat (drop_bit 8 (length (tlv_Value tlv)))] @ tlv_Value tlv"

definition makeQMIRequest :: "u16 \<Rightarrow> u16 \<Rightarrow> qmiTLV list \<Rightarrow> string + byte list" where
  "makeQMIRequest transactionID messageID tlvs =
     (case payload_length tlvs 0 of
        Inl e \<Rightarrow> Inl e
      | Inr n \<Rightarrow>
          if n > 0xffff then Inl (''QMI payload is too large: '' @ utoa n)
          else Inr (qmiFlagRequest # put16 transactionID @ put16 messageID @ put16 (word_of_nat n) @ concat (map encode_tlv tlvs)))"

fun bad_arfcn :: "u32 list \<Rightarrow> u32 option" where
  "bad_arfcn [] = None"
| "bad_arfcn (a # as) = (if a = 0 \<or> a > 3279165 then Some a else bad_arfcn as)"

definition scan_tlvs :: "u32 list \<Rightarrow> u32 \<Rightarrow> qmiTLV list" where
  "scan_tlvs arfcns scanType =
     [\<lparr>tlv_Type = 0x10, tlv_Value = [0x10]\<rparr>, \<lparr>tlv_Type = 0x11, tlv_Value = put32 scanType\<rparr>,
      \<lparr>tlv_Type = 0x18, tlv_Value = put16 60\<rparr>, \<lparr>tlv_Type = 0x19, tlv_Value = [1]\<rparr>, \<lparr>tlv_Type = 0x1a, tlv_Value = [1]\<rparr>,
      \<lparr>tlv_Type = 0x1d, tlv_Value = word_of_nat (length arfcns) # concat (map put32 arfcns)\<rparr>]"

definition makeNRIncrementalScanRequest :: "u16 \<Rightarrow> u32 list \<Rightarrow> u32 \<Rightarrow> string + byte list" where
  "makeNRIncrementalScanRequest transactionID arfcns scanType =
     (if length arfcns < 1 \<or> length arfcns > 10
      then Inl (''NR-ARFCN count must be between 1 and 10: '' @ utoa (length arfcns))
      else if scanType \<noteq> 0 \<and> scanType \<noteq> 2
      then Inl (''validated scan type must be 0 or 2, got '' @ utoa (unat scanType))
      else case bad_arfcn arfcns of
             Some a \<Rightarrow> Inl (''invalid NR-ARFCN '' @ utoa (unat a))
           | None \<Rightarrow> makeQMIRequest transactionID qmiIncrementalScan (scan_tlvs arfcns scanType))"

definition makeQCRILOneShotExpectedRequest :: "u16 \<Rightarrow> byte \<Rightarrow> string + byte list" where
  "makeQCRILOneShotExpectedRequest transactionID ratMask =
     (if ratMask = 0 then Inl ''current-mode RAT mask cannot be zero''
      else makeQMIRequest transactionID qmiIncrementalScan [\<lparr>tlv_Type = 0x10, tlv_Value = [ratMask]\<rparr>])"

definition makeAbortRequest :: "u16 \<Rightarrow> string + byte list" where
  "makeAbortRequest transactionID = makeQMIRequest transactionID qmiAbortNetworkScan []"

section \<open>Parsing\<close>

text \<open>The loop over the TLVs from an offset, shared by \<^verbatim>\<open>parseQMIPacket\<close> and \<^verbatim>\<open>parseTLVPayload\<close>.\<close>

function tlv_loop :: "byte list \<Rightarrow> nat \<Rightarrow> qmiTLV list \<Rightarrow> (qmiTLV list \<times> err) option" where
  "tlv_loop packet offset tlvs =
     (if offset < length packet then
        if length packet - offset < 3 then Some (tlvs, Some ''truncated TLV header'')
        else do {
          typeID \<leftarrow> idx packet (int offset);
          s \<leftarrow> slice packet (int offset + 1) (int offset + 3);
          l \<leftarrow> uint16le s;
          if unat l > length packet - (offset + 3) then Some (tlvs, Some (''truncated TLV '' @ hex2 typeID))
          else do {
            v \<leftarrow> slice packet (int (offset + 3)) (int (offset + 3 + unat l));
            tlv_loop packet (offset + 3 + unat l) (tlvs @ [\<lparr>tlv_Type = typeID, tlv_Value = v\<rparr>]) } }
      else Some (tlvs, None))"
  by pat_completeness auto
termination by (relation "measure (\<lambda>(packet, offset, tlvs). length packet - offset)") auto

declare tlv_loop.simps [simp del]

record qmi_packet =
  qp_flags :: byte
  qp_transaction :: u16
  qp_message :: u16
  qp_tlvs :: "qmiTLV list"

definition zero_packet :: qmi_packet where
  "zero_packet = \<lparr>qp_flags = 0, qp_transaction = 0, qp_message = 0, qp_tlvs = []\<rparr>"

definition parseQMIPacket :: "byte list \<Rightarrow> (qmi_packet \<times> err) option" where
  "parseQMIPacket packet =
     (if length packet < 7 then Some (zero_packet, Some (''QMI packet too short: '' @ utoa (length packet)))
      else do {
        flags \<leftarrow> idx packet 0;
        transaction \<leftarrow> slice packet 1 3 \<bind> uint16le;
        message \<leftarrow> slice packet 3 5 \<bind> uint16le;
        payloadLength \<leftarrow> slice packet 5 7 \<bind> uint16le;
        let p = \<lparr>qp_flags = flags, qp_transaction = transaction, qp_message = message, qp_tlvs = []\<rparr>;
        if unat payloadLength \<noteq> length packet - 7
        then Some (p, Some (''QMI payload length mismatch: declared='' @ utoa (unat payloadLength) @ '' actual='' @ utoa (length packet - 7)))
        else do {
          (tlvs, e) \<leftarrow> tlv_loop packet 7 [];
          Some (p\<lparr>qp_tlvs := tlvs\<rparr>, e) } })"

definition parseTLVPayload :: "byte list \<Rightarrow> (string + qmiTLV list) option" where
  "parseTLVPayload payload = do {
     (tlvs, e) \<leftarrow> tlv_loop payload 0 [];
     Some (case e of Some t \<Rightarrow> Inl t | None \<Rightarrow> Inr tlvs) }"

text \<open>The loops of \<^verbatim>\<open>qmiResult\<close> and \<^verbatim>\<open>indicationStatus\<close> stop at the first TLV of their type.\<close>

definition first_tlv :: "byte \<Rightarrow> qmiTLV list \<Rightarrow> byte list option" where
  "first_tlv t tlvs = map_option tlv_Value (find (\<lambda>tlv. tlv_Type tlv = t) tlvs)"

definition qmiResult :: "byte list \<Rightarrow> (string + u16 \<times> u16) option" where
  "qmiResult packet = do {
     (p, e) \<leftarrow> parseQMIPacket packet;
     case e of
       Some t \<Rightarrow> Some (Inl t)
     | None \<Rightarrow>
         (case first_tlv 0x02 (qp_tlvs p) of
            None \<Rightarrow> Some (Inl ''QMI result TLV not found'')
          | Some v \<Rightarrow>
              if length v \<noteq> 4 then Some (Inl (''invalid result TLV length '' @ utoa (length v)))
              else do { r \<leftarrow> uint16le v; s \<leftarrow> slice v 2 (int (length v)); q \<leftarrow> uint16le s; Some (Inr (r, q)) }) }"

definition indicationStatus :: "byte list \<Rightarrow> (string + u32 option) option" where
  "indicationStatus packet = do {
     (p, e) \<leftarrow> parseQMIPacket packet;
     case e of
       Some t \<Rightarrow> Some (Inl t)
     | None \<Rightarrow>
         (case first_tlv 0x01 (qp_tlvs p) of
            None \<Rightarrow> Some (Inr None)
          | Some v \<Rightarrow>
              if length v \<noteq> 4 then Some (Inl (''invalid status TLV length '' @ utoa (length v)))
              else do { r \<leftarrow> uint32le v; Some (Inr (Some r)) }) }"

definition parseHexPacket :: "string \<Rightarrow> string + byte list" where
  "parseHexPacket value =
     (let value = TrimSpace (TrimPrefix value ''0x'') in
      if value = [] then Inl ''empty hex packet'' else hex_DecodeString value)"

fun arfcn_loop :: "string list \<Rightarrow> u32 list \<Rightarrow> string + u32 list" where
  "arfcn_loop [] result = Inr result"
| "arfcn_loop (part # parts) result =
     (case ParseUint0 (TrimSpace part) 32 of
        None \<Rightarrow> Inl (''invalid NR-ARFCN '' @ quote part)
      | Some parsed \<Rightarrow>
          if parsed = 0 \<or> parsed > 3279165 then Inl (''invalid NR-ARFCN '' @ quote part)
          else let v = word_of_nat parsed in arfcn_loop parts (if v \<in> set result then result else result @ [v]))"

definition parseARFCNList :: "string \<Rightarrow> string + u32 list" where
  "parseARFCNList value =
     (let parts = split_on (CHR '','') value in
      if TrimSpace value = [] \<or> length parts > 10 then Inl ''provide 1 to 10 comma-separated NR-ARFCNs''
      else arfcn_loop parts [])"

section \<open>Encoding\<close>

lemma put16_nat: "[word_of_nat n, word_of_nat (drop_bit 8 n)] = put16 (word_of_nat n)"
  by (auto simp: put16_def bit_simps intro!: bit_word_eqI)

lemma encode_tlv_put: "encode_tlv tlv = tlv_Type tlv # put16 (word_of_nat (length (tlv_Value tlv))) @ tlv_Value tlv"
  using put16_nat [of "length (tlv_Value tlv)"] by (simp add: encode_tlv_def)

lemma length_encode_tlv [simp]: "length (encode_tlv tlv) = 3 + length (tlv_Value tlv)"
  by (simp add: encode_tlv_def)

definition tlvs_small :: "qmiTLV list \<Rightarrow> bool" where
  "tlvs_small tlvs \<longleftrightarrow> (\<forall>tlv \<in> set tlvs. length (tlv_Value tlv) \<le> 0xffff)"

lemma payload_length_iff:
  "payload_length tlvs n = Inr m \<longleftrightarrow> tlvs_small tlvs \<and> m = n + length (concat (map encode_tlv tlvs))"
  by (induction tlvs n rule: payload_length.induct) (auto simp: tlvs_small_def)

lemma makeQMIRequest_iff:
  "makeQMIRequest t m tlvs = Inr p \<longleftrightarrow>
     length (concat (map encode_tlv tlvs)) \<le> 0xffff \<and>
     p = qmiFlagRequest # put16 t @ put16 m @ put16 (word_of_nat (length (concat (map encode_tlv tlvs)))) @ concat (map encode_tlv tlvs)"
proof -
  let ?n = "length (concat (map encode_tlv tlvs))"
  have small: "tlvs_small tlvs" if "?n \<le> 0xffff"
  proof -
    have "length (tlv_Value tlv) \<le> ?n" if "tlv \<in> set tlvs" for tlv
      using that by (induction tlvs) auto
    then show ?thesis using that unfolding tlvs_small_def by fastforce
  qed
  show ?thesis
  proof (cases "payload_length tlvs 0")
    case (Inl e)
    then have "\<not> tlvs_small tlvs" using payload_length_iff [of tlvs 0] by (metis Inl_Inr_False)
    with Inl small show ?thesis by (auto simp: makeQMIRequest_def)
  next
    case (Inr n)
    then have "n = ?n" using payload_length_iff [of tlvs 0 n] by simp
    with Inr show ?thesis by (auto simp: makeQMIRequest_def)
  qed
qed

section \<open>Parsing\<close>

text \<open>The loop at an offset, in terms of the bytes that are left.\<close>

lemma tlv_loop_step:
  assumes "length (tlv_Value tlv) \<le> 0xffff"
  shows "tlv_loop (pre @ encode_tlv tlv @ rest) (length pre) acc =
    tlv_loop (pre @ encode_tlv tlv @ rest) (length (pre @ encode_tlv tlv)) (acc @ [tlv])"
proof -
  let ?v = "tlv_Value tlv"
  let ?p = "pre @ encode_tlv tlv @ rest" and ?w = "word_of_nat (length ?v) :: u16"
  have p: "?p = pre @ tlv_Type tlv # put16 ?w @ ?v @ rest" by (simp add: encode_tlv_put)
  have u: "unat ?w = length ?v" using assms by (simp add: unat_of_nat take_bit_eq_mod)
  have "idx ?p (int (length pre)) = Some (tlv_Type tlv)" unfolding p by (simp add: idx_def nth_append)
  moreover have "slice ?p (int (length pre) + 1) (int (length pre) + 3) = Some (put16 ?w)"
    unfolding p by (simp add: slice_def nat_add_distrib)
  moreover have "slice ?p (int (length pre + 3)) (int (length pre + 3 + length ?v)) = Some ?v"
    unfolding p by (simp add: slice_def del: of_nat_add)
  moreover have "uint16le (put16 ?w) = Some ?w" by simp
  moreover have "length pre < length ?p" "\<not> length ?p - length pre < 3" "\<not> length ?v > length ?p - (length pre + 3)" by simp_all
  moreover have "length (pre @ encode_tlv tlv) = length pre + 3 + length ?v" by simp
  moreover have tlv: "\<lparr>tlv_Type = tlv_Type tlv, tlv_Value = tlv_Value tlv\<rparr> = tlv" by simp
  ultimately show ?thesis
    by (subst tlv_loop.simps) (simp only: if_True if_False bind.bind_lunit u tlv cong: if_cong)
qed

lemma tlv_loop_encoded:
  "tlvs_small tlvs \<Longrightarrow> tlv_loop (pre @ concat (map encode_tlv tlvs)) (length pre) acc = Some (acc @ tlvs, None)"
proof (induction tlvs arbitrary: pre acc)
  case Nil
  then show ?case by (simp add: tlv_loop.simps)
next
  case (Cons tlv tlvs)
  let ?rest = "concat (map encode_tlv tlvs)"
  have "length (tlv_Value tlv) \<le> 0xffff" "tlvs_small tlvs" using Cons.prems by (auto simp: tlvs_small_def)
  moreover have "tlv_loop ((pre @ encode_tlv tlv) @ ?rest) (length (pre @ encode_tlv tlv)) (acc @ [tlv]) = Some ((acc @ [tlv]) @ tlvs, None)"
    by (rule Cons.IH [OF \<open>tlvs_small tlvs\<close>])
  ultimately show ?case using tlv_loop_step [of tlv pre ?rest acc] by simp
qed

text \<open>The loop never panics, and an accepted rest is an encoding.\<close>

lemma tlv_loop_cases:
  assumes "offset \<le> length packet"
  shows "\<exists>tlvs e. tlv_loop packet offset acc = Some (tlvs, e) \<and>
    (e = None \<longrightarrow> (\<exists>ts. tlvs = acc @ ts \<and> drop offset packet = concat (map encode_tlv ts) \<and> tlvs_small ts))"
  using assms
proof (induction packet offset acc rule: tlv_loop.induct)
  case (1 packet offset acc)
  consider "offset = length packet" | "offset < length packet" "length packet - offset < 3" | "3 \<le> length packet - offset"
    using "1.prems" by linarith
  then show ?case
  proof cases
    case 3
    let ?rest = "drop offset packet"
    obtain t a b r where d: "?rest = t # a # b # r"
      using 3 by (metis Suc_le_length_iff length_drop numeral_3_eq_3)
    define l where "l = le16 a b"
    have t: "idx packet (int offset) = Some t" using 3 d by (simp add: idx_def) (metis hd_drop_conv_nth list.sel(1) zero_less_diff not_numeral_le_zero diff_is_0_eq leI)
    have "drop (Suc offset) packet = a # b # r" using d by (metis drop_Suc tl_drop list.sel(3))
    then have s: "slice packet (int offset + 1) (int offset + 3) = Some [a, b]" using 3
      by (simp add: slice_def nat_add_distrib)
    have r: "drop (offset + 3) packet = r" using d by (metis add.commute drop_drop drop_Suc_Cons drop0 numeral_3_eq_3)
    have ul: "uint16le [a, b] = Some l" by (simp add: uint16le_def l_def)
    show ?thesis
    proof (cases "unat l > length packet - (offset + 3)")
      case True
      moreover have "offset < length packet" using 3 by linarith
      ultimately show ?thesis using 3 t s ul by (subst tlv_loop.simps) simp
    next
      case False
      let ?v = "take (unat l) r"
      let ?tlv = "\<lparr>tlv_Type = t, tlv_Value = ?v\<rparr>"
      have v: "slice packet (int (offset + 3)) (int (offset + 3 + unat l)) = Some ?v"
        using False 3 r by (simp add: slice_def del: of_nat_add)
      have len: "length ?v = unat l" using False r by (metis length_drop length_take min.absorb2 not_le_imp_less)
      have "encode_tlv ?tlv = t # put16 l @ ?v" unfolding encode_tlv_put qmiTLV.select_convs len by simp
      then have e: "encode_tlv ?tlv = t # a # b # ?v" by (simp add: l_def put16_le16)
      have rest: "drop (offset + 3 + unat l) packet = drop (unat l) r" using r by (metis add.commute drop_drop)
      have "offset + 3 + unat l \<le> length packet" using False 3 by linarith
      moreover have "offset < length packet" "\<not> length packet - offset < 3" using 3 by linarith+
      ultimately obtain tlvs e' where i:
        "tlv_loop packet (offset + 3 + unat l) (acc @ [?tlv]) = Some (tlvs, e')"
        "e' = None \<longrightarrow> (\<exists>ts. tlvs = (acc @ [?tlv]) @ ts \<and> drop (offset + 3 + unat l) packet = concat (map encode_tlv ts) \<and> tlvs_small ts)"
        using "1.IH" [OF _ _ t s ul False v] by metis
      have "\<exists>ts. tlvs = acc @ ts \<and> ?rest = concat (map encode_tlv ts) \<and> tlvs_small ts" if n: "e' = None"
      proof -
        obtain ts where ts: "tlvs = (acc @ [?tlv]) @ ts" "drop (unat l) r = concat (map encode_tlv ts)" "tlvs_small ts"
          using i(2) n rest by auto
        have "?rest = concat (map encode_tlv (?tlv # ts))" by (simp add: d e ts(2) [symmetric])
        moreover have "unat l \<le> 0xffff" using unsigned_less [of l, where 'a = nat] by simp
        then have "tlvs_small (?tlv # ts)" using ts(3) by (simp add: tlvs_small_def)
        ultimately show ?thesis using ts(1) by (metis append.assoc append_Cons append_Nil)
      qed
      moreover have "offset < length packet" using 3 by linarith
      ultimately show ?thesis using i(1) 3 t s ul False v by (subst tlv_loop.simps) simp
    qed
  qed (simp_all add: tlv_loop.simps tlvs_small_def)
qed

lemma parseTLVPayload_iff: "parseTLVPayload payload = Some (Inr tlvs) \<longleftrightarrow> payload = concat (map encode_tlv tlvs) \<and> tlvs_small tlvs"
proof
  assume "payload = concat (map encode_tlv tlvs) \<and> tlvs_small tlvs"
  then show "parseTLVPayload payload = Some (Inr tlvs)" using tlv_loop_encoded [of tlvs "[]" "[]"] by (simp add: parseTLVPayload_def)
next
  assume a: "parseTLVPayload payload = Some (Inr tlvs)"
  then show "payload = concat (map encode_tlv tlvs) \<and> tlvs_small tlvs"
    using tlv_loop_cases [of 0 payload "[]"] by (auto simp: parseTLVPayload_def split: Option.bind_splits option.splits)
qed

text \<open>A packet of at least seven bytes, cut into its fields.\<close>

lemma packet_fields:
  assumes "7 \<le> length packet"
  obtains f t m l rest where "packet = f # put16 t @ put16 m @ put16 l @ rest"
proof -
  obtain a b c d e f g rest where "packet = a # b # c # d # e # f # g # rest"
    using assms by (auto simp: eval_nat_numeral Suc_le_length_iff)
  then have "packet = a # put16 (le16 b c) @ put16 (le16 d e) @ put16 (le16 f g) @ rest" by (simp add: put16_le16)
  then show ?thesis by (rule that)
qed

lemma parse_fields:
  "parseQMIPacket (f # put16 t @ put16 m @ put16 l @ rest) =
     (let p = \<lparr>qp_flags = f, qp_transaction = t, qp_message = m, qp_tlvs = []\<rparr> in
      if unat l \<noteq> length rest
      then Some (p, Some (''QMI payload length mismatch: declared='' @ utoa (unat l) @ '' actual='' @ utoa (length rest)))
      else do { (tlvs, e) \<leftarrow> tlv_loop (f # put16 t @ put16 m @ put16 l @ rest) 7 []; Some (p\<lparr>qp_tlvs := tlvs\<rparr>, e) })"
proof -
  let ?p = "f # put16 t @ put16 m @ put16 l @ rest"
  have "slice ?p 1 3 = Some (put16 t)" "slice ?p 3 5 = Some (put16 m)" "slice ?p 5 7 = Some (put16 l)"
    by (simp_all add: slice_def put16_def)
  moreover have "idx ?p 0 = Some f" by (simp add: idx_def)
  moreover have "length ?p - 7 = length rest" "\<not> length ?p < 7" by simp_all
  ultimately show ?thesis unfolding parseQMIPacket_def by (simp only: if_False bind.bind_lunit uint16le_put16_alone)
qed

lemma parse_accepts:
  "parseQMIPacket packet = Some (p, None) \<longleftrightarrow>
     packet = qp_flags p # put16 (qp_transaction p) @ put16 (qp_message p) @
       put16 (word_of_nat (length (concat (map encode_tlv (qp_tlvs p))))) @ concat (map encode_tlv (qp_tlvs p)) \<and>
     length (concat (map encode_tlv (qp_tlvs p))) \<le> 0xffff" (is "?L \<longleftrightarrow> ?R")
proof
  assume R: ?R
  let ?w = "concat (map encode_tlv (qp_tlvs p))"
  let ?pre = "qp_flags p # put16 (qp_transaction p) @ put16 (qp_message p) @ put16 (word_of_nat (length ?w))"
  have "makeQMIRequest 0 0 (qp_tlvs p) = Inr (qmiFlagRequest # put16 0 @ put16 0 @ put16 (word_of_nat (length ?w)) @ ?w)"
    using R by (simp add: makeQMIRequest_iff)
  then have "tlvs_small (qp_tlvs p)" using payload_length_iff [of "qp_tlvs p" 0] by (auto simp: makeQMIRequest_def split: sum.splits)
  from tlv_loop_encoded [OF this, of ?pre "[]"] have "tlv_loop packet 7 [] = Some (qp_tlvs p, None)" using R by simp
  moreover have "unat (word_of_nat (length ?w) :: u16) = length ?w" using R by (simp add: unat_of_nat take_bit_eq_mod)
  ultimately show ?L using R by (subst conjunct1 [OF R], subst parse_fields) (simp add: Let_def)
next
  assume L: ?L
  then have "7 \<le> length packet" by (auto simp: parseQMIPacket_def split: if_splits)
  then obtain f t m l rest where pk: "packet = f # put16 t @ put16 m @ put16 l @ rest" by (rule packet_fields)
  then have "unat l = length rest" using L by (auto simp: parse_fields Let_def split: if_splits)
  then obtain tlvs where tl: "tlv_loop packet 7 [] = Some (tlvs, None)" and p: "p = \<lparr>qp_flags = f, qp_transaction = t, qp_message = m, qp_tlvs = tlvs\<rparr>"
    using L by (auto simp: pk parse_fields Let_def split: Option.bind_splits)
  have "7 \<le> length packet" "drop 7 packet = rest" by (simp_all add: pk put16_def)
  with tlv_loop_cases [of 7 packet "[]"] tl have "rest = concat (map encode_tlv tlvs)" by auto
  moreover have "word_of_nat (length rest) = l" by (simp flip: \<open>unat l = length rest\<close>)
  moreover have "length rest \<le> 0xffff" using unsigned_less [of l, where 'a = nat] \<open>unat l = length rest\<close> by simp
  ultimately show ?R by (simp add: pk p)
qed

lemma parseQMIPacket_total: "\<exists>p e. parseQMIPacket packet = Some (p, e)"
proof (cases "length packet < 7")
  case False
  then obtain f t m l rest where pk: "packet = f # put16 t @ put16 m @ put16 l @ rest" using packet_fields by (metis leI)
  obtain tlvs e where "tlv_loop packet 7 [] = Some (tlvs, e)" using tlv_loop_cases [of 7 packet "[]"] False by (auto simp: not_less)
  then show ?thesis by (simp add: pk parse_fields Let_def)
qed (simp add: parseQMIPacket_def)

definition request_of :: "byte list \<Rightarrow> (u16 \<times> u16 \<times> qmiTLV list) option" where
  "request_of packet =
     (case parseQMIPacket packet of
        Some (p, None) \<Rightarrow> if qp_flags p = qmiFlagRequest then Some (qp_transaction p, qp_message p, qp_tlvs p) else None
      | _ \<Rightarrow> None)"

interpretation qmi: message_codec "\<lambda>(t, m, tlvs). makeQMIRequest t m tlvs" request_of
proof unfold_locales
  fix m p assume "(case m of (t, m, tlvs) \<Rightarrow> makeQMIRequest t m tlvs) = Inr p"
  then obtain t k tlvs where m: "m = (t, k, tlvs)" "makeQMIRequest t k tlvs = Inr p" by (cases m) auto
  then have "parseQMIPacket p = Some (\<lparr>qp_flags = qmiFlagRequest, qp_transaction = t, qp_message = k, qp_tlvs = tlvs\<rparr>, None)"
    by (simp add: makeQMIRequest_iff parse_accepts)
  then show "request_of p = Some m" by (simp add: request_of_def m)
next
  fix p m assume "request_of p = Some m"
  then obtain q where "parseQMIPacket p = Some (q, None)" "qp_flags q = qmiFlagRequest" "m = (qp_transaction q, qp_message q, qp_tlvs q)"
    by (auto simp: request_of_def split: option.splits prod.splits if_splits)
  then show "(case m of (t, m, tlvs) \<Rightarrow> makeQMIRequest t m tlvs) = Inr p"
    using parse_accepts [of p q] by (auto simp: makeQMIRequest_iff)
qed

lemma first_tlv_total:
  "\<exists>r. qmiResult packet = Some r" "\<exists>r. indicationStatus packet = Some r"
proof -
  obtain p e where pe: "parseQMIPacket packet = Some (p, e)" using parseQMIPacket_total by blast
  have two: "\<exists>a b c d. v = [a, b, c, d]" if "length v = 4" for v :: "byte list"
    using that by (auto simp: eval_nat_numeral length_Suc_conv)
  have "\<exists>r. (if length v \<noteq> 4 then Some (Inl (''invalid result TLV length '' @ utoa (length v)))
      else do { r \<leftarrow> uint16le v; s \<leftarrow> slice v 2 (int (length v)); q \<leftarrow> uint16le s; Some (Inr (r, q)) }) = Some r" for v
    using two [of v] by (auto simp: uint16le_def slice_def)
  then show "\<exists>r. qmiResult packet = Some r"
    unfolding qmiResult_def pe by (cases e; cases "first_tlv 2 (qp_tlvs p)") simp_all
  have "\<exists>r. (if length v \<noteq> 4 then Some (Inl (''invalid status TLV length '' @ utoa (length v)))
      else do { r \<leftarrow> uint32le v; Some (Inr (Some r)) }) = Some r" for v
    using two [of v] by (auto simp: uint32le_def)
  then show "\<exists>r. indicationStatus packet = Some r" 
    unfolding indicationStatus_def pe by (cases e; cases "first_tlv 1 (qp_tlvs p)") simp_all
qed

section \<open>The scan request\<close>

lemma bad_arfcn_None: "bad_arfcn as = None \<longleftrightarrow> (\<forall>a \<in> set as. a \<noteq> 0 \<and> a \<le> 3279165)"
  by (induction as) auto

lemma scan_length: "length (concat (map encode_tlv (scan_tlvs arfcns k))) = 28 + 4 * length arfcns"
  by (simp add: scan_tlvs_def concat_replicate_length [of _ _ 4])

lemma scan_request_made:
  assumes "1 \<le> length arfcns" "length arfcns \<le> 10" "k \<in> {0, 2}" "\<forall>a \<in> set arfcns. a \<noteq> 0 \<and> a \<le> 3279165"
  shows "\<exists>p. makeNRIncrementalScanRequest t arfcns k = Inr p \<and> request_of p = Some (t, qmiIncrementalScan, scan_tlvs arfcns k)"
proof -
  have b: "bad_arfcn arfcns = None" using assms(4) by (simp add: bad_arfcn_None)
  have "\<exists>p. makeQMIRequest t qmiIncrementalScan (scan_tlvs arfcns k) = Inr p"
    using assms(2) by (simp only: makeQMIRequest_iff scan_length) auto
  then obtain p where p: "makeQMIRequest t qmiIncrementalScan (scan_tlvs arfcns k) = Inr p" ..
  then have "makeNRIncrementalScanRequest t arfcns k = Inr p" using assms b by (auto simp: makeNRIncrementalScanRequest_def)
  moreover have "request_of p = Some (t, qmiIncrementalScan, scan_tlvs arfcns k)" using qmi.dec_enc [of "(t, qmiIncrementalScan, scan_tlvs arfcns k)"] p by simp
  ultimately show ?thesis by blast
qed

lemma scan_request_only:
  assumes "makeNRIncrementalScanRequest t arfcns k = Inr p"
  shows "1 \<le> length arfcns \<and> length arfcns \<le> 10 \<and> k \<in> {0, 2} \<and> list_all (\<lambda>a. a \<noteq> 0 \<and> a \<le> 3279165) arfcns"
  using assms bad_arfcn_None [of arfcns]
  by (cases "bad_arfcn arfcns") (auto simp: makeNRIncrementalScanRequest_def list_all_iff Suc_le_eq split: if_splits)

lemma scan_channels:
  "first_tlv 0x1d (scan_tlvs arfcns k) = Some (word_of_nat (length arfcns) # concat (map put32 arfcns))"
  by (simp add: scan_tlvs_def first_tlv_def)

section \<open>ARFCN lists\<close>

lemma arfcn_loop_result:
  "arfcn_loop parts acc = Inr as \<Longrightarrow> distinct acc \<Longrightarrow> \<forall>a \<in> set acc. a \<noteq> 0 \<and> a \<le> 3279165 \<Longrightarrow>
   distinct as \<and> (\<forall>a \<in> set as. a \<noteq> 0 \<and> a \<le> 3279165) \<and> length as \<le> length acc + length parts \<and> (parts \<noteq> [] \<longrightarrow> as \<noteq> []) \<and> (acc \<noteq> [] \<longrightarrow> as \<noteq> [])"
proof (induction parts acc rule: arfcn_loop.induct)
  case (2 part parts result)
  obtain n where n: "ParseUint0 (TrimSpace part) 32 = Some n" "n \<noteq> 0" "n \<le> 3279165"
    using "2.prems"(1) by (auto split: option.splits if_splits)
  let ?v = "word_of_nat n :: u32"
  have u: "unat ?v = n" using n(3) by (simp add: unat_of_nat take_bit_eq_mod)
  then have v: "?v \<noteq> 0" "?v \<le> 3279165" using n by (auto simp: word_le_nat_alt)
  let ?r = "if ?v \<in> set result then result else result @ [?v]"
  have s: "arfcn_loop parts ?r = Inr as" using "2.prems"(1) n by (simp add: Let_def)
  have "distinct ?r" "\<forall>a \<in> set ?r. a \<noteq> 0 \<and> a \<le> 3279165" "?r \<noteq> []" "length ?r \<le> Suc (length result)" using "2.prems"(2,3) v by auto
  with "2.IH" [OF n(1) _ refl s] n show ?case by auto
qed auto

lemma parseARFCNList_ok:
  "parseARFCNList value = Inr as \<Longrightarrow>
   distinct as \<and> 1 \<le> length as \<and> length as \<le> 10 \<and> (\<forall>a \<in> set as. a \<noteq> 0 \<and> a \<le> 3279165)"
  using arfcn_loop_result [of "split_on (CHR '','') value" "[]" as]
  by (auto simp: parseARFCNList_def Let_def Suc_le_eq split: if_splits)

section \<open>Properties\<close>


text \<open>The scan request carries exactly the wanted channels.  It is made for 1 to 10 NR-ARFCNs in range and the scan
  types 0 and 2 and refused otherwise; it parses back as message 0x0085, and its TLV 0x1d holds the
  count and the ARFCNs in order.  Every list the command line accepts is one the request is made for.\<close>
theorem scan_request_exact:
  "((\<exists>p. makeNRIncrementalScanRequest t arfcns k = Inr p) \<longleftrightarrow>
     1 \<le> length arfcns \<and> length arfcns \<le> 10 \<and> k \<in> {0, 2} \<and> list_all (\<lambda>a. a \<noteq> 0 \<and> a \<le> 3279165) arfcns) \<and>
   (\<forall>p. makeNRIncrementalScanRequest t arfcns k = Inr p \<longrightarrow>
     (\<exists>q v. parseQMIPacket p = Some (q, None) \<and> qp_transaction q = t \<and> qp_message q = 0x0085 \<and>
       first_tlv 0x1d (qp_tlvs q) = Some v \<and> read_words v 1 (unat (hd v)) = Some arfcns)) \<and>
   (\<forall>value as. parseARFCNList value = Inr as \<longrightarrow> distinct as \<and> (\<exists>p. makeNRIncrementalScanRequest t as 2 = Inr p))"
proof (intro conjI allI impI)
  show "(\<exists>p. makeNRIncrementalScanRequest t arfcns k = Inr p) \<longleftrightarrow>
     1 \<le> length arfcns \<and> length arfcns \<le> 10 \<and> k \<in> {0, 2} \<and> list_all (\<lambda>a. a \<noteq> 0 \<and> a \<le> 3279165) arfcns"
    using scan_request_made [of arfcns k t] scan_request_only [of t arfcns k] unfolding list_all_iff by metis
next
  fix p assume a: "makeNRIncrementalScanRequest t arfcns k = Inr p"
  then have l: "length arfcns \<le> 10" and m: "makeQMIRequest t qmiIncrementalScan (scan_tlvs arfcns k) = Inr p"
    by (auto simp: makeNRIncrementalScanRequest_def split: if_splits option.splits)
  let ?v = "word_of_nat (length arfcns) # concat (map put32 arfcns) :: byte list"
  let ?q = "\<lparr>qp_flags = qmiFlagRequest, qp_transaction = t, qp_message = qmiIncrementalScan, qp_tlvs = scan_tlvs arfcns k\<rparr>"
  have "parseQMIPacket p = Some (?q, None)" using m by (auto simp: makeQMIRequest_iff parse_accepts)
  moreover have "unat (word_of_nat (length arfcns) :: byte) = length arfcns" using l by (simp add: unat_of_nat take_bit_eq_mod)
  then have "read_words ?v 1 (unat (hd ?v)) = Some arfcns"
    using read_words_put32 [of "[word_of_nat (length arfcns)]" arfcns "[]"] by simp
  moreover have "first_tlv 0x1d (qp_tlvs ?q) = Some ?v" by (simp only: qmi_packet.select_convs scan_channels)
  moreover have "qp_transaction ?q = t" "qp_message ?q = 0x0085" by (simp_all add: qmiIncrementalScan_def)
  ultimately show "\<exists>q v. parseQMIPacket p = Some (q, None) \<and> qp_transaction q = t \<and> qp_message q = 0x0085 \<and>
       first_tlv 0x1d (qp_tlvs q) = Some v \<and> read_words v 1 (unat (hd v)) = Some arfcns"
    by (intro exI [of _ ?q] exI [of _ ?v] conjI)
next
  fix s as assume a: "parseARFCNList s = Inr as"
  show "distinct as" using parseARFCNList_ok [OF a] by simp
  show "\<exists>p. makeNRIncrementalScanRequest t as 2 = Inr p" using parseARFCNList_ok [OF a] scan_request_made [of as 2 t] by blast
qed

theorem scan_request_exact_witness:
  "parseARFCNList ''95, 0x5_f'' = Inr [95] \<and>
   (\<exists>p q v. makeNRIncrementalScanRequest 1 [95] 2 = Inr p \<and> parseQMIPacket p = Some (q, None) \<and> qp_message q = 0x0085 \<and>
      first_tlv 0x1d (qp_tlvs q) = Some v \<and> read_words v 1 (unat (hd v)) = Some [95])"
proof -
  have s: "split_on (CHR '','') ''95, 0x5_f'' = [''95'', '' 0x5_f'']" "TrimSpace ''95, 0x5_f'' \<noteq> []"
    "TrimSpace ''95'' = ''95''" "TrimSpace '' 0x5_f'' = ''0x5_f''" "base_prefix ''95'' = (10, ''95'')" "base_prefix ''0x5_f'' = (16, ''5_f'')"
    "underscoreOK ''0x5_f''" "digit_of (CHR ''9'') = Some 9" "digit_of (CHR ''5'') = Some 5" "digit_of (CHR ''f'') = Some 15"
    by (simp_all add: TrimSpace_def TrimFunc_def TrimRight_def TrimLeft_def is_space_def base_prefix_def lower_char_def is_upper_def
        underscoreOK_def digit_of_def is_digit_def is_lower_def code_def)
  have "ParseUint0 ''95'' 32 = Some 95" "ParseUint0 ''0x5_f'' 32 = Some 95" by (simp_all add: ParseUint0_def s)
  then have a: "parseARFCNList ''95, 0x5_f'' = Inr [95]" by (simp add: parseARFCNList_def s)
  obtain p where p: "makeNRIncrementalScanRequest 1 [95] 2 = Inr p"
    using scan_request_exact [of 1 "[95]" 2, THEN conjunct2, THEN conjunct2, rule_format, OF a] by blast
  from scan_request_exact [of 1 "[95]" 2, THEN conjunct2, THEN conjunct1, rule_format, OF p] a p show ?thesis by blast
qed

end
