(* ===== verification/Probe_Trace.thy ===== *)
theory Probe_Trace
  imports Probe_Qmi Go_Floats Atomic_File "HOL-Library.List_Lexorder"
begin

text \<open>
  \<^verbatim>\<open>tools/u60-nr-crossband-probe/qmi_trace.go\<close> and \<^verbatim>\<open>diff.go\<close>: the events of a CCI hook log, and the comparison of the
  scan requests of two such logs.  A log is text; what opening and reading a file answers is the record
  \<open>text_file\<close>.  A Go map whose keys are listed is an association list without duplicate keys; the code
  sorts what it lists, and the comparison is proved not to depend on the order of the list.
\<close>

section \<open>Lines\<close>

text \<open>\<^verbatim>\<open>bufio.Scanner\<close> with a limit (4 MiB in the readers of hook logs): the lines without their ends, up to the first line that does not fit.\<close>

definition dropCR :: "string \<Rightarrow> string" where
  "dropCR line = (if line \<noteq> [] \<and> last line = CHR 0x0D then butlast line else line)"

definition raw_lines :: "string \<Rightarrow> string list" where
  "raw_lines data = (let segs = split_on (CHR 0x0A) data in if last segs = [] then butlast segs else segs)"

definition scan_limit :: nat where "scan_limit = 4 * 1024 * 1024"

definition scan_upto :: "nat \<Rightarrow> string \<Rightarrow> err \<Rightarrow> string list \<times> err" where
  "scan_upto limit data tail =
     (let fits = takeWhile (\<lambda>l. length l < limit) (raw_lines data) in
      (map dropCR fits, if fits = raw_lines data then tail else Some ''bufio.Scanner: token too long''))"

definition scan_lines :: "string \<Rightarrow> err \<Rightarrow> string list \<times> err" where
  "scan_lines = scan_upto scan_limit"

record text_file =
  tf_open :: err
  tf_stat :: "string + int"
  tf_seek :: err
  tf_data :: string
  tf_tail :: err

section \<open>Fields of a line\<close>

text \<open>\<^verbatim>\<open>\s\<close> of the regular expression has no vertical tab.  A match is a maximal token \<^verbatim>\<open>key=value\<close> with a word as key.\<close>

definition re_space :: "char \<Rightarrow> bool" where
  "re_space c \<longleftrightarrow> code c \<in> {9, 10, 12, 13, 32}"

definition word_char :: "char \<Rightarrow> bool" where
  "word_char c \<longleftrightarrow> is_lower c \<or> is_upper c \<or> is_digit c \<or> c = CHR ''_''"

definition re_tokens :: "string \<Rightarrow> string list" where
  "re_tokens line = split_on (CHR '' '') (map (\<lambda>c. if re_space c then CHR '' '' else c) line)"

definition field_match :: "string \<Rightarrow> (string \<times> string) option" where
  "field_match token =
     (let key = takeWhile word_char token; rest = dropWhile word_char token in
      case rest of
        c # val \<Rightarrow> if key \<noteq> [] \<and> c = CHR ''='' \<and> val \<noteq> [] then Some (key, val) else None
      | [] \<Rightarrow> None)"

type_synonym trace_fields = "string \<Rightarrow> string"

text \<open>A missing key of a Go map reads as the empty string.\<close>

definition line_fields :: "string \<Rightarrow> trace_fields" where
  "line_fields line =
     foldl (\<lambda>flds (k, v). flds(k := Trim v [CHR 0x22])) (\<lambda>_. []) (List.map_filter field_match (re_tokens line))"

definition normalizeMessage :: "string \<Rightarrow> string" where
  "normalizeMessage v = ''0x'' @ pad_zero 4 (TrimPrefix (ToLower (TrimSpace v)) ''0x'')"

fun firstUint16 :: "trace_fields \<Rightarrow> string list \<Rightarrow> u16 option" where
  "firstUint16 flds [] = None"
| "firstUint16 flds (key # keys) =
     (let v = TrimSpace (flds key) in
      if v = [] then firstUint16 flds keys
      else case ParseUint0 v 16 of None \<Rightarrow> firstUint16 flds keys | Some parsed \<Rightarrow> Some (word_of_nat parsed))"

section \<open>Events\<close>

record qmiEvent =
  qe_At :: int
  qe_Service :: string
  qe_Event :: string
  qe_Direction :: string
  qe_Kind :: string
  qe_MessageID :: string
  qe_Transaction :: u16
  qe_Caller :: string
  qe_Raw :: string
  qe_Result :: "u16 option"
  qe_Error :: "u16 option"
  qe_ScanStatus :: "u32 option"
  qe_Description :: string

definition zero_time :: int where "zero_time = - 62135596800 * Second"

text \<open>\<^verbatim>\<open>time.Unix\<close> of a number of seconds: conversions to \<^verbatim>\<open>int64\<close> cut towards zero; \<open>far\<close> is what the platform makes of a
  number outside their range.\<close>

definition trunc_rat :: "rat \<Rightarrow> int" where
  "trunc_rat x = (if 0 \<le> x then \<lfloor>x\<rfloor> else \<lceil>x\<rceil>)"

definition unix_time :: "(gofloat \<Rightarrow> int) \<Rightarrow> gofloat \<Rightarrow> int" where
  "unix_time far seconds =
     (case seconds of
        Fin x \<Rightarrow>
          if \<bar>x\<bar> < 2 ^ 63
          then let whole = trunc_rat x in whole * Second + trunc_rat (f64_mul (f64_sub x (of_int whole)) 1000000000)
          else far seconds
      | _ \<Rightarrow> far seconds)"

definition event_time :: "(gofloat \<Rightarrow> int) \<Rightarrow> int \<Rightarrow> string \<Rightarrow> int" where
  "event_time far now line =
     (let t = (case Fields line of
                  [] \<Rightarrow> zero_time
                | first # _ \<Rightarrow> (case ParseFloat first of Some seconds \<Rightarrow> unix_time far seconds | None \<Rightarrow> zero_time))
      in if t = zero_time then now else t)"

definition parseCCITraceEvent :: "(gofloat \<Rightarrow> int) \<Rightarrow> int \<Rightarrow> string \<Rightarrow> qmiEvent option" where
  "parseCCITraceEvent far now line =
     (let flds = line_fields line; kind = ToUpper (flds ''kind'') in
      if flds ''service'' = [] \<or> flds ''msg'' = [] \<or> (kind \<noteq> ''REQ'' \<and> kind \<noteq> ''RESP'' \<and> kind \<noteq> ''IND'') then None
      else Some \<lparr>qe_At = event_time far now line, qe_Service = flds ''service'', qe_Event = flds ''event'',
        qe_Direction = (if kind = ''REQ'' then ''tx'' else ''rx''),
        qe_Kind = (if kind = ''REQ'' then ''request'' else if kind = ''RESP'' then ''response'' else ''indication''),
        qe_MessageID = normalizeMessage (flds ''msg''),
        qe_Transaction = (case firstUint16 flds [''txn'', ''transaction''] of Some t \<Rightarrow> t | None \<Rightarrow> 0),
        qe_Caller = flds ''caller'',
        qe_Raw = (if flds ''raw'' \<noteq> [] then flds ''raw'' else if kind = ''REQ'' then flds ''req_c'' else flds ''resp_c''),
        qe_Result = firstUint16 flds [''qmi_result'', ''result''], qe_Error = firstUint16 flds [''qmi_error'', ''error''],
        qe_ScanStatus = None, qe_Description = (if flds ''rc'' \<noteq> [] then ''rc='' @ flds ''rc'' else [])\<rparr>)"

definition traceFileOffset :: "string \<Rightarrow> string + int \<Rightarrow> int" where
  "traceFileOffset path stat = (if TrimSpace path = [] then 0 else case stat of Inl _ \<Rightarrow> 0 | Inr n \<Rightarrow> n)"

definition readCCITraceEvents :: "(gofloat \<Rightarrow> int) \<Rightarrow> int \<Rightarrow> text_file \<Rightarrow> int \<Rightarrow> qmiEvent list \<times> err" where
  "readCCITraceEvents far now file offset =
     (case tf_open file of Some e \<Rightarrow> ([], Some e) | None \<Rightarrow>
     (case tf_stat file of Inl e \<Rightarrow> ([], Some e) | Inr bytes \<Rightarrow>
     (let offset = (if offset < 0 \<or> offset > bytes then 0 else offset) in
      case tf_seek file of Some e \<Rightarrow> ([], Some e) | None \<Rightarrow>
        (let (lines, e) = scan_lines (drop (nat offset) (tf_data file)) (tf_tail file) in
         (List.map_filter (parseCCITraceEvent far now) lines, e)))))"

definition hasQMIRequest :: "qmiEvent list \<Rightarrow> string \<Rightarrow> string \<Rightarrow> bool" where
  "hasQMIRequest events service msg =
     (let msg = normalizeMessage msg in
      list_ex (\<lambda>event. qe_Service event = service \<and> qe_Direction event = ''tx'' \<and> qe_Kind event = ''request'' \<and> qe_MessageID event = msg) events)"

definition validateCCITraceWindow :: "string \<Rightarrow> qmiEvent list \<Rightarrow> err" where
  "validateCCITraceWindow path events =
     (if TrimSpace path = [] then Some ''CCI trace path is empty''
      else if events = [] then Some (''CCI trace '' @ path @ '' contains no QMI request/response/indication in this run window'')
      else None)"

section \<open>Comparing requests\<close>

record traceRequest =
  tr_Line :: nat
  tr_Event :: string
  tr_Service :: string
  tr_Message :: string
  tr_Caller :: string
  tr_Raw :: string
  tr_TLVs :: "(string \<times> string) list"
  tr_HasChannel :: bool

fun assoc_put :: "'k \<Rightarrow> 'v \<Rightarrow> ('k \<times> 'v) list \<Rightarrow> ('k \<times> 'v) list" where
  "assoc_put k v [] = [(k, v)]"
| "assoc_put k v ((k', v') # r) = (if k' = k then (k, v) # r else (k', v') # assoc_put k v r)"

definition add_tlv :: "(string \<times> string) list \<times> bool \<Rightarrow> qmiTLV \<Rightarrow> (string \<times> string) list \<times> bool" where
  "add_tlv st tlv = (assoc_put (hex2 (tlv_Type tlv)) (hex_EncodeToString (tlv_Value tlv)) (fst st), snd st \<or> tlv_Type tlv = 0x1d)"

definition is_scan_request :: "trace_fields \<Rightarrow> bool" where
  "is_scan_request flds \<longleftrightarrow>
     \<not> (flds ''service'' \<noteq> ''3'' \<or> \<not> EqualFold (flds ''kind'') ''REQ'' \<or> normalizeMessage (flds ''msg'') \<noteq> ''0x0085'' \<or>
        flds ''event'' \<noteq> ''TX_IDL_ENCODE'')"

fun extract_lines :: "string \<Rightarrow> nat \<Rightarrow> string list \<Rightarrow> traceRequest list \<Rightarrow> (string + traceRequest list) option" where
  "extract_lines path n [] requests = Some (Inr requests)"
| "extract_lines path n (line # lines) requests =
     (let flds = line_fields line; n = n + 1; raw = flds ''raw'' in
      if \<not> is_scan_request flds then extract_lines path n lines requests
      else case hex_DecodeString raw of
             Inl e \<Rightarrow> Some (Inl (path @ '':'' @ utoa n @ '' invalid raw hex: '' @ e))
           | Inr payload \<Rightarrow> do {
               r \<leftarrow> parseTLVPayload payload;
               case r of
                 Inl e \<Rightarrow> Some (Inl (path @ '':'' @ utoa n @ '': '' @ e))
               | Inr tlvs \<Rightarrow>
                   (let (al, channel) = foldl add_tlv ([], False) tlvs in
                    extract_lines path n lines (requests @ [\<lparr>tr_Line = n, tr_Event = flds ''event'', tr_Service = flds ''service'',
                      tr_Message = ''0x0085'', tr_Caller = flds ''caller'', tr_Raw = raw, tr_TLVs = al, tr_HasChannel = channel\<rparr>])) })"

definition extract0085Requests :: "string \<Rightarrow> text_file \<Rightarrow> ((traceRequest list \<times> err)) option" where
  "extract0085Requests path file =
     (case tf_open file of
        Some e \<Rightarrow> Some ([], Some e)
      | None \<Rightarrow>
          (let (lines, e) = scan_lines (tf_data file) (tf_tail file) in do {
             r \<leftarrow> extract_lines path 0 lines [];
             Some (case r of Inl t \<Rightarrow> ([], Some t) | Inr requests \<Rightarrow> (requests, e)) }))"

definition sort_strings :: "string list \<Rightarrow> string list" where "sort_strings = sort_key (map code)"

definition diffTLVs :: "(string \<times> string) list \<Rightarrow> (string \<times> string) list \<Rightarrow> string list \<times> string list \<times> string list" where
  "diffTLVs left right =
     (let step = (\<lambda>(only, different) (key, v).
            case map_of right key of
              None \<Rightarrow> (only @ [key], different)
            | Some other \<Rightarrow> if v \<noteq> other then (only, different @ [key]) else (only, different));
          (leftOnly, different) = foldl step ([], []) left;
          rightOnly = filter (\<lambda>key. map_of left key = None) (map fst right)
      in (sort_strings leftOnly, sort_strings rightOnly, sort_strings different))"

record qmiDiffReport =
  dr_ManualPath :: string
  dr_QCRILPath :: string
  dr_ManualRequests :: "traceRequest list"
  dr_QCRILRequests :: "traceRequest list"
  dr_FirstRawEqual :: bool
  dr_ManualOnlyTLVs :: "string list"
  dr_QCRILOnlyTLVs :: "string list"
  dr_DifferentTLVs :: "string list"
  dr_Interpretation :: "string list"

definition interpretation_texts :: "string list" where
  "interpretation_texts =
     [''TLV 0x1d is the validated NR-ARFCN list; its presence proves only that the list reached NAS encoding.'',
      ''A COMPLETE indication does not prove ML1 measured every listed ARFCN; correlate with QSH hash 0xd8f582a8.'',
      ''If QCRIL ONE_SHOT lacks TLV 0x1d, that matches the U60 qcrilNr reverse-engineered path which drops RadioAccessSpecifier channels.'']"

definition compare_requests :: "string \<Rightarrow> string \<Rightarrow> traceRequest list \<Rightarrow> traceRequest list \<Rightarrow> string + qmiDiffReport" where
  "compare_requests manualPath qcrilPath manual qcril =
     (case (manual, qcril) of
        (m # _, q # _) \<Rightarrow>
          (let (mOnly, qOnly, different) = diffTLVs (tr_TLVs m) (tr_TLVs q) in
           Inr \<lparr>dr_ManualPath = manualPath, dr_QCRILPath = qcrilPath, dr_ManualRequests = manual, dr_QCRILRequests = qcril,
             dr_FirstRawEqual = (tr_Raw m = tr_Raw q), dr_ManualOnlyTLVs = mOnly, dr_QCRILOnlyTLVs = qOnly,
             dr_DifferentTLVs = different, dr_Interpretation = interpretation_texts\<rparr>)
      | _ \<Rightarrow> Inl (''0x0085 TX_IDL_ENCODE request missing: manual='' @ utoa (length manual) @ '' qcril='' @ utoa (length qcril)))"

text \<open>\<^verbatim>\<open>runDiffQMI\<close> after its flags were parsed; the result is what is printed.  \<open>json\<close> is the indented JSON text.\<close>

definition runDiffQMI :: "(qmiDiffReport \<Rightarrow> byte list) \<Rightarrow> (string \<Rightarrow> text_file) \<Rightarrow> write_faults \<Rightarrow> string \<Rightarrow> string \<Rightarrow> string \<Rightarrow> file_sys \<Rightarrow>
    ((string + qmiDiffReport) \<times> file_sys) option" where
  "runDiffQMI json files w manualPath qcrilPath outputPath fs =
     (if manualPath = [] \<or> qcrilPath = [] then Some (Inl ''diff-qmi requires -manual and -qcril'', fs)
      else do {
        (manual, e) \<leftarrow> extract0085Requests manualPath (files manualPath);
        case e of Some t \<Rightarrow> Some (Inl t, fs) | None \<Rightarrow> do {
        (qcril, e) \<leftarrow> extract0085Requests qcrilPath (files qcrilPath);
        case e of Some t \<Rightarrow> Some (Inl t, fs) | None \<Rightarrow>
       (case compare_requests manualPath qcrilPath manual qcril of
          Inl t \<Rightarrow> Some (Inl t, fs)
        | Inr report \<Rightarrow>
            if outputPath = [] then Some (Inr report, fs)
            else let (e, fs) = writeFileAtomic w outputPath (json report @ [10]) fs in
              Some (case e of Some t \<Rightarrow> Inl t | None \<Rightarrow> Inr report, fs)) } })"

section \<open>Keys\<close>

lemma hex_small: "n < 16 \<Longrightarrow> hex n = [hex_digit n]"
  by (simp add: hex.simps)

lemma hex_byte: "pad_zero 2 (hex (unat (b :: byte))) = [hex_digit (unat b div 16), hex_digit (unat b mod 16)]"
proof (cases "unat b < 16")
  case True
  moreover have "hex_digit 0 = CHR ''0''" by code_simp
  ultimately show ?thesis by (simp add: hex_small pad_zero_def)
next
  case False
  then show ?thesis using nibbles [of b] by (subst hex.simps) (simp add: hex_small pad_zero_def)
qed

lemma hex2_inject: "hex2 a = hex2 b \<longleftrightarrow> a = b"
proof
  assume "hex2 a = hex2 b"
  then have "hex_digit (unat a div 16) = hex_digit (unat b div 16)" "hex_digit (unat a mod 16) = hex_digit (unat b mod 16)"
    by (simp_all add: hex2_def hex_byte)
  then have "unat a div 16 = unat b div 16" "unat a mod 16 = unat b mod 16"
    by (metis from_hex_digit nibbles option.inject, metis from_hex_digit mod_less_divisor option.inject zero_less_numeral)
  then have "unat a = unat b" by (metis div_mult_mod_eq)
  then show "a = b" by (simp add: word_unat_eq_iff)
qed simp

lemma map_of_assoc_put: "map_of (assoc_put k v al) = (map_of al)(k \<mapsto> v)"
  by (induction al) auto

lemma keys_assoc_put: "map fst (assoc_put k v al) = (if k \<in> fst ` set al then map fst al else map fst al @ [k])"
  by (induction al) (force split: if_splits)+

text \<open>The value a TLV map holds for a type is that of the last TLV of the type.\<close>

definition last_value :: "byte \<Rightarrow> qmiTLV list \<Rightarrow> byte list option" where
  "last_value t tlvs = first_tlv t (rev tlvs)"

lemma add_tlvs:
  "map_of (fst (foldl add_tlv ([], False) tlvs)) (hex2 t) = map_option hex_EncodeToString (last_value t tlvs)"
  "fst ` set (fst (foldl add_tlv ([], False) tlvs)) = (hex2 \<circ> tlv_Type) ` set tlvs"
  "distinct (map fst (fst (foldl add_tlv ([], False) tlvs)))"
  "snd (foldl add_tlv ([], False) tlvs) \<longleftrightarrow> 0x1d \<in> tlv_Type ` set tlvs"
proof (induction tlvs rule: rev_induct)
  case (snoc x xs)
  have k: "fst ` set (assoc_put k v al) = insert k (fst ` set al)" for k :: string and v :: string and al
    using arg_cong [OF keys_assoc_put [of k v al], of set] by (auto split: if_splits)
  {
    case 1
    then show ?case using snoc.IH(1) by (auto simp: add_tlv_def map_of_assoc_put last_value_def first_tlv_def hex2_inject)
  next
    case 2
    then show ?case using snoc.IH(2) by (auto simp: add_tlv_def k)
  next
    case 3
    then show ?case using snoc.IH(3) by (auto simp: add_tlv_def keys_assoc_put)
  next
    case 4
    then show ?case using snoc.IH(4) by (auto simp: add_tlv_def)
  }
qed (simp_all add: last_value_def first_tlv_def)

section \<open>The comparison\<close>

lemma diff_fold:
  "foldl (\<lambda>(only, different) (key, v). case map_of right key of
        None \<Rightarrow> (only @ [key], different) | Some other \<Rightarrow> if v \<noteq> other then (only, different @ [key]) else (only, different)) (a, b) left =
   (a @ map fst (filter (\<lambda>(k, v). map_of right k = None) left),
    b @ map fst (filter (\<lambda>(k, v). map_of right k \<noteq> None \<and> map_of right k \<noteq> Some v) left))"
  by (induction left arbitrary: a b) (auto split: option.split)

lemma diffTLVs_eq:
  "diffTLVs left right =
     (sort_strings (map fst (filter (\<lambda>(k, v). map_of right k = None) left)),
      sort_strings (filter (\<lambda>k. map_of left k = None) (map fst right)),
      sort_strings (map fst (filter (\<lambda>(k, v). map_of right k \<noteq> None \<and> map_of right k \<noteq> Some v) left)))"
  by (simp only: diffTLVs_def Let_def diff_fold prod.case append_Nil)

definition exact_list :: "string list \<Rightarrow> (string \<Rightarrow> bool) \<Rightarrow> bool" where
  "exact_list ks P \<longleftrightarrow> sorted (map (map code) ks) \<and> distinct ks \<and> (\<forall>k. k \<in> set ks \<longleftrightarrow> P k)"

lemma exact_sorted: "distinct ks \<Longrightarrow> (\<And>k. k \<in> set ks \<longleftrightarrow> P k) \<Longrightarrow> exact_list (sort_strings ks) P"
  by (simp add: exact_list_def sort_strings_def)

lemma diffTLVs_exact:
  assumes "distinct (map fst left)" and "distinct (map fst right)"
  obtains l r d where "diffTLVs left right = (l, r, d)"
    "exact_list l (\<lambda>k. map_of left k \<noteq> None \<and> map_of right k = None)" "exact_list r (\<lambda>k. map_of right k \<noteq> None \<and> map_of left k = None)"
    "exact_list d (\<lambda>k. map_of left k \<noteq> None \<and> map_of right k \<noteq> None \<and> map_of left k \<noteq> map_of right k)"
proof -
  have m: "map_of left k = Some v \<longleftrightarrow> (k, v) \<in> set left" for k v using assms(1) by simp
  have dl: "distinct (map fst (filter P left))" for P using assms(1) by (simp add: distinct_map_filter)
  show ?thesis
  proof (rule that [OF diffTLVs_eq])
    show "exact_list (sort_strings (map fst (filter (\<lambda>(k, v). map_of right k = None) left))) (\<lambda>k. map_of left k \<noteq> None \<and> map_of right k = None)"
      by (rule exact_sorted [OF dl]) (force simp flip: m)
    show "exact_list (sort_strings (filter (\<lambda>k. map_of left k = None) (map fst right))) (\<lambda>k. map_of right k \<noteq> None \<and> map_of left k = None)"
      using assms(2) by (intro exact_sorted) (auto simp: map_of_eq_None_iff)
    show "exact_list (sort_strings (map fst (filter (\<lambda>(k, v). map_of right k \<noteq> None \<and> map_of right k \<noteq> Some v) left)))
       (\<lambda>k. map_of left k \<noteq> None \<and> map_of right k \<noteq> None \<and> map_of left k \<noteq> map_of right k)"
      by (rule exact_sorted [OF dl]) (force simp flip: m)
  qed
qed

text \<open>A request of a log stands for the TLVs its raw bytes encode.\<close>

definition decoded :: "traceRequest \<Rightarrow> qmiTLV list \<Rightarrow> bool" where
  "decoded req tlvs \<longleftrightarrow> hex_DecodeString (tr_Raw req) = Inr (concat (map encode_tlv tlvs)) \<and> tlvs_small tlvs \<and>
     tr_TLVs req = fst (foldl add_tlv ([], False) tlvs) \<and> tr_HasChannel req = (0x1d \<in> tlv_Type ` set tlvs)"

lemma parseTLVPayload_total: "\<exists>r. parseTLVPayload payload = Some r"
  using tlv_loop_cases [of 0 payload "[]"] by (auto simp: parseTLVPayload_def)

lemma extract_lines_ok:
  assumes "list_all (\<lambda>req. \<exists>tlvs. decoded req tlvs) reqs"
  shows "\<exists>r. extract_lines path n lines reqs = Some r \<and> (\<forall>rs. r = Inr rs \<longrightarrow> list_all (\<lambda>req. \<exists>tlvs. decoded req tlvs) rs)"
  using assms
proof (induction path n lines reqs rule: extract_lines.induct)
  case (2 path n line lines reqs)
  let ?f = "line_fields line"
  show ?case
  proof (cases "is_scan_request ?f")
    case True
    show ?thesis
    proof (cases "hex_DecodeString (?f ''raw'')")
      case hx: (Inr payload)
      obtain r where pr: "parseTLVPayload payload = Some r" using parseTLVPayload_total by blast
      show ?thesis
      proof (cases r)
        case r: (Inr tlvs)
        obtain al ch where al: "foldl add_tlv ([], False) tlvs = (al, ch)" by fastforce
        let ?q = "\<lparr>tr_Line = n + 1, tr_Event = ?f ''event'', tr_Service = ?f ''service'', tr_Message = ''0x0085'',
          tr_Caller = ?f ''caller'', tr_Raw = ?f ''raw'', tr_TLVs = al, tr_HasChannel = ch\<rparr>"
        have "payload = concat (map encode_tlv tlvs) \<and> tlvs_small tlvs" using pr r parseTLVPayload_iff by simp
        then have "decoded ?q tlvs" using hx al add_tlvs(4) [of tlvs] by (simp add: decoded_def)
        then have "list_all (\<lambda>req. \<exists>tlvs. decoded req tlvs) (reqs @ [?q])" using "2.prems" by auto
        from "2.IH"(2) [OF refl refl refl _ hx _ r al [symmetric] refl this] True pr show ?thesis
          by (simp add: hx pr r al Let_def)
      qed (use True hx pr in \<open>simp add: Let_def\<close>)
    qed (use True in \<open>simp add: Let_def\<close>)
  next
    case False
    with "2.IH"(1) [OF refl refl refl _ "2.prems"] show ?thesis by (simp add: Let_def)
  qed
qed simp

lemma extract_ok:
  "\<exists>rs e. extract0085Requests path file = Some (rs, e) \<and> list_all (\<lambda>req. \<exists>tlvs. decoded req tlvs) rs"
proof (cases "tf_open file")
  case None
  obtain ls e where "scan_lines (tf_data file) (tf_tail file) = (ls, e)" by fastforce
  moreover obtain r where "extract_lines path 0 ls [] = Some r" "\<forall>rs. r = Inr rs \<longrightarrow> list_all (\<lambda>req. \<exists>tlvs. decoded req tlvs) rs"
    using extract_lines_ok [of "[]" path 0 ls] by auto
  ultimately show ?thesis using None by (cases r) (simp_all add: extract0085Requests_def)
qed (simp add: extract0085Requests_def)

lemma decoded_keys:
  assumes "decoded req tlvs"
  shows "map_of (tr_TLVs req) k \<noteq> None \<longleftrightarrow> (\<exists>t. k = hex2 t \<and> last_value t tlvs \<noteq> None)"
    "map_of (tr_TLVs req) (hex2 t) = map_option hex_EncodeToString (last_value t tlvs)" "distinct (map fst (tr_TLVs req))"
proof -
  have a: "tr_TLVs req = fst (foldl add_tlv ([], False) tlvs)" using assms by (simp add: decoded_def)
  show "map_of (tr_TLVs req) (hex2 t) = map_option hex_EncodeToString (last_value t tlvs)" for t
    unfolding a by (rule add_tlvs(1))
  show "distinct (map fst (tr_TLVs req))" unfolding a by (rule add_tlvs(3))
  have "map_of (tr_TLVs req) k \<noteq> None \<longleftrightarrow> k \<in> fst ` set (tr_TLVs req)" by (simp add: map_of_eq_None_iff)
  also have "\<dots> \<longleftrightarrow> (\<exists>t. k = hex2 t \<and> t \<in> tlv_Type ` set tlvs)" unfolding a add_tlvs(2) by auto
  also have "\<dots> \<longleftrightarrow> (\<exists>t. k = hex2 t \<and> last_value t tlvs \<noteq> None)"
    by (auto simp: last_value_def first_tlv_def find_None_iff image_iff)
  finally show "map_of (tr_TLVs req) k \<noteq> None \<longleftrightarrow> (\<exists>t. k = hex2 t \<and> last_value t tlvs \<noteq> None)" .
qed

definition diff_exact :: "qmiDiffReport \<Rightarrow> qmiTLV list \<Rightarrow> qmiTLV list \<Rightarrow> bool" where
  "diff_exact report tm tq \<longleftrightarrow>
     exact_list (dr_ManualOnlyTLVs report) (\<lambda>k. \<exists>t. k = hex2 t \<and> last_value t tm \<noteq> None \<and> last_value t tq = None) \<and>
     exact_list (dr_QCRILOnlyTLVs report) (\<lambda>k. \<exists>t. k = hex2 t \<and> last_value t tq \<noteq> None \<and> last_value t tm = None) \<and>
     exact_list (dr_DifferentTLVs report)
       (\<lambda>k. \<exists>t. k = hex2 t \<and> last_value t tm \<noteq> None \<and> last_value t tq \<noteq> None \<and> last_value t tm \<noteq> last_value t tq)"

lemma compare_exact:
  assumes "compare_requests mp qp (m # ms) (q # qs) = Inr report" and "decoded m tm" and "decoded q tq"
  shows "diff_exact report tm tq" "dr_FirstRawEqual report = (tr_Raw m = tr_Raw q)" "dr_ManualRequests report = m # ms" "dr_QCRILRequests report = q # qs"
proof -
  obtain l r d where d: "diffTLVs (tr_TLVs m) (tr_TLVs q) = (l, r, d)"
    "exact_list l (\<lambda>k. map_of (tr_TLVs m) k \<noteq> None \<and> map_of (tr_TLVs q) k = None)"
    "exact_list r (\<lambda>k. map_of (tr_TLVs q) k \<noteq> None \<and> map_of (tr_TLVs m) k = None)"
    "exact_list d (\<lambda>k. map_of (tr_TLVs m) k \<noteq> None \<and> map_of (tr_TLVs q) k \<noteq> None \<and> map_of (tr_TLVs m) k \<noteq> map_of (tr_TLVs q) k)"
    using diffTLVs_exact [OF decoded_keys(3) [OF assms(2)] decoded_keys(3) [OF assms(3)]] by blast
  have P: "(\<lambda>k. map_of (tr_TLVs m) k \<noteq> None \<and> map_of (tr_TLVs q) k = None) = (\<lambda>k. \<exists>t. k = hex2 t \<and> last_value t tm \<noteq> None \<and> last_value t tq = None)"
    "(\<lambda>k. map_of (tr_TLVs q) k \<noteq> None \<and> map_of (tr_TLVs m) k = None) = (\<lambda>k. \<exists>t. k = hex2 t \<and> last_value t tq \<noteq> None \<and> last_value t tm = None)"
    "(\<lambda>k. map_of (tr_TLVs m) k \<noteq> None \<and> map_of (tr_TLVs q) k \<noteq> None \<and> map_of (tr_TLVs m) k \<noteq> map_of (tr_TLVs q) k) =
     (\<lambda>k. \<exists>t. k = hex2 t \<and> last_value t tm \<noteq> None \<and> last_value t tq \<noteq> None \<and> last_value t tm \<noteq> last_value t tq)"
    by (rule ext, use decoded_keys(1,2) [OF assms(2)] decoded_keys(1,2) [OF assms(3)] in \<open>auto simp: hex2_inject hex_codec.enc_inject\<close>)+
  show "diff_exact report tm tq" "dr_FirstRawEqual report = (tr_Raw m = tr_Raw q)" "dr_ManualRequests report = m # ms" "dr_QCRILRequests report = q # qs"
    using assms(1) d unfolding P by (auto simp: compare_requests_def diff_exact_def)
qed

lemma diff_exact_same: "diff_exact report tlvs tlvs \<Longrightarrow> dr_ManualOnlyTLVs report = [] \<and> dr_QCRILOnlyTLVs report = [] \<and> dr_DifferentTLVs report = []"
proof -
  have e: "xs = []" if "exact_list xs P" "\<And>k. \<not> P k" for xs P using that by (cases xs) (auto simp: exact_list_def)
  assume "diff_exact report tlvs tlvs"
  then show ?thesis unfolding diff_exact_def by (intro conjI) (erule conjE, erule e, blast | elim conjE, erule e, blast)+
qed

lemma concat_encode_inject:
  assumes "concat (map encode_tlv as) = concat (map encode_tlv bs)" and "tlvs_small as" and "tlvs_small bs"
  shows "as = bs"
proof -
  have "parseTLVPayload (concat (map encode_tlv as)) = Some (Inr as)" using assms(2) by (simp add: parseTLVPayload_iff)
  moreover have "parseTLVPayload (concat (map encode_tlv as)) = Some (Inr bs)" using assms(1,3) by (simp add: parseTLVPayload_iff)
  ultimately show ?thesis by simp
qed

lemma runDiffQMI_report:
  assumes "runDiffQMI json files w mp qp out fs = Some (Inr report, fs')"
  shows "\<exists>m ms q qs tm tq. dr_ManualRequests report = m # ms \<and> dr_QCRILRequests report = q # qs \<and> decoded m tm \<and> decoded q tq \<and>
    diff_exact report tm tq \<and> dr_FirstRawEqual report = (tr_Raw m = tr_Raw q)"
proof -
  obtain ma e1 qa e2 where x: "extract0085Requests mp (files mp) = Some (ma, e1)" "extract0085Requests qp (files qp) = Some (qa, e2)"
    and ok: "list_all (\<lambda>req. \<exists>tlvs. decoded req tlvs) ma" "list_all (\<lambda>req. \<exists>tlvs. decoded req tlvs) qa"
    using extract_ok [of mp "files mp"] extract_ok [of qp "files qp"] by blast
  have c: "compare_requests mp qp ma qa = Inr report"
    using assms x unfolding runDiffQMI_def
    by (cases e1; cases e2; cases "compare_requests mp qp ma qa") (auto split: if_splits prod.splits option.splits)
  then obtain m ms q qs where ne: "ma = m # ms" "qa = q # qs" by (cases ma; cases qa) (auto simp: compare_requests_def)
  then obtain tm tq where "decoded m tm" "decoded q tq" using ok by auto
  with compare_exact [OF c [unfolded ne] this] show ?thesis by blast
qed

section \<open>Property\<close>

text \<open>Comparing two traces is exact.  The command never panics; when it reports, both logs hold a scan request, the first
  ones decode to TLVs, and the three listed sets of TLV types are exactly those only in the first, only
  in the second, and in both with different last values, each list sorted and without repetition; equal
  raw bytes give three empty lists, and a request is marked as carrying a channel list exactly when it
  holds TLV 0x1d.\<close>
theorem diff_report_exact:
  "runDiffQMI json files w mp qp out fs \<noteq> None \<and>
   (\<forall>report fs'. runDiffQMI json files w mp qp out fs = Some (Inr report, fs') \<longrightarrow>
     (\<exists>m ms q qs tm tq. dr_ManualRequests report = m # ms \<and> dr_QCRILRequests report = q # qs \<and>
        hex_DecodeString (tr_Raw m) = Inr (concat (map encode_tlv tm)) \<and> hex_DecodeString (tr_Raw q) = Inr (concat (map encode_tlv tq)) \<and>
        diff_exact report tm tq \<and> tr_HasChannel m = (0x1d \<in> tlv_Type ` set tm) \<and> tr_HasChannel q = (0x1d \<in> tlv_Type ` set tq) \<and>
        (dr_FirstRawEqual report \<longrightarrow> dr_ManualOnlyTLVs report = [] \<and> dr_QCRILOnlyTLVs report = [] \<and> dr_DifferentTLVs report = [])))"
proof (intro conjI allI impI)
  obtain ma e1 qa e2 where "extract0085Requests mp (files mp) = Some (ma, e1)" "extract0085Requests qp (files qp) = Some (qa, e2)"
    using extract_ok [of mp "files mp"] extract_ok [of qp "files qp"] by blast
  then show "runDiffQMI json files w mp qp out fs \<noteq> None"
    unfolding runDiffQMI_def by (cases e1; cases e2; cases "compare_requests mp qp ma qa") (auto split: prod.splits)
next
  fix report fs' assume "runDiffQMI json files w mp qp out fs = Some (Inr report, fs')"
  from runDiffQMI_report [OF this] obtain m ms q qs tm tq where o: "dr_ManualRequests report = m # ms" "dr_QCRILRequests report = q # qs"
    "decoded m tm" "decoded q tq" "diff_exact report tm tq" "dr_FirstRawEqual report = (tr_Raw m = tr_Raw q)"
    by (elim exE conjE) (rule that)
  have "tr_Raw m = tr_Raw q \<Longrightarrow> tm = tq" using o(3,4) concat_encode_inject by (auto simp: decoded_def)
  with o diff_exact_same show "\<exists>m ms q qs tm tq. dr_ManualRequests report = m # ms \<and> dr_QCRILRequests report = q # qs \<and>
        hex_DecodeString (tr_Raw m) = Inr (concat (map encode_tlv tm)) \<and> hex_DecodeString (tr_Raw q) = Inr (concat (map encode_tlv tq)) \<and>
        diff_exact report tm tq \<and> tr_HasChannel m = (0x1d \<in> tlv_Type ` set tm) \<and> tr_HasChannel q = (0x1d \<in> tlv_Type ` set tq) \<and>
        (dr_FirstRawEqual report \<longrightarrow> dr_ManualOnlyTLVs report = [] \<and> dr_QCRILOnlyTLVs report = [] \<and> dr_DifferentTLVs report = [])"
    unfolding decoded_def by metis
qed

text \<open>Two logs whose requests agree in one TLV and differ in another.\<close>

definition sample_log :: "string \<Rightarrow> text_file" where
  "sample_log path = \<lparr>tf_open = None, tf_stat = Inr 0, tf_seek = None,
     tf_data = ''1.5 service=3 kind=req msg=85 event=TX_IDL_ENCODE raw='' @
       (if path = ''a'' then ''100100001d0000'' else ''10010010'') @ [CHR 0x0A], tf_tail = None\<rparr>"

lemma scan_short:
  assumes "list_all (\<lambda>l. length l < scan_limit) (raw_lines data)"
  shows "scan_lines data tail = (map dropCR (raw_lines data), tail)"
proof -
  have "takeWhile (\<lambda>l. length l < scan_limit) (raw_lines data) = raw_lines data"
    using assms by (simp only: takeWhile_eq_all_conv list_all_iff)
  then show ?thesis by (simp only: scan_lines_def scan_upto_def Let_def simp_thms if_True)
qed

lemma sample_requests:
  "extract0085Requests ''a'' (sample_log ''a'') =
     Some ([\<lparr>tr_Line = 1, tr_Event = ''TX_IDL_ENCODE'', tr_Service = ''3'', tr_Message = ''0x0085'', tr_Caller = [], tr_Raw = ''100100001d0000'',
       tr_TLVs = [(''0x10'', ''00''), (''0x1d'', [])], tr_HasChannel = True\<rparr>], None)"
  "extract0085Requests ''b'' (sample_log ''b'') =
     Some ([\<lparr>tr_Line = 1, tr_Event = ''TX_IDL_ENCODE'', tr_Service = ''3'', tr_Message = ''0x0085'', tr_Caller = [], tr_Raw = ''10010010'',
       tr_TLVs = [(''0x10'', ''10'')], tr_HasChannel = False\<rparr>], None)"
proof -
  have r: "raw_lines (tf_data (sample_log ''a'')) = [''1.5 service=3 kind=req msg=85 event=TX_IDL_ENCODE raw=100100001d0000'']"
    "raw_lines (tf_data (sample_log ''b'')) = [''1.5 service=3 kind=req msg=85 event=TX_IDL_ENCODE raw=10010010'']" by code_simp+
  have s: "scan_lines (tf_data (sample_log ''a'')) None = (map dropCR (raw_lines (tf_data (sample_log ''a''))), None)"
    "scan_lines (tf_data (sample_log ''b'')) None = (map dropCR (raw_lines (tf_data (sample_log ''b''))), None)"
    by (rule scan_short, simp add: r scan_limit_def)+
  have f: "tf_open (sample_log p) = None" "tf_tail (sample_log p) = None" for p by (simp_all add: sample_log_def)
  have e: "extract_lines ''a'' 0 (map dropCR [''1.5 service=3 kind=req msg=85 event=TX_IDL_ENCODE raw=100100001d0000'']) [] =
     Some (Inr [\<lparr>tr_Line = 1, tr_Event = ''TX_IDL_ENCODE'', tr_Service = ''3'', tr_Message = ''0x0085'', tr_Caller = [], tr_Raw = ''100100001d0000'',
       tr_TLVs = [(''0x10'', ''00''), (''0x1d'', [])], tr_HasChannel = True\<rparr>])"
    "extract_lines ''b'' 0 (map dropCR [''1.5 service=3 kind=req msg=85 event=TX_IDL_ENCODE raw=10010010'']) [] =
     Some (Inr [\<lparr>tr_Line = 1, tr_Event = ''TX_IDL_ENCODE'', tr_Service = ''3'', tr_Message = ''0x0085'', tr_Caller = [], tr_Raw = ''10010010'',
       tr_TLVs = [(''0x10'', ''10'')], tr_HasChannel = False\<rparr>])"
    by code_simp+
  show "extract0085Requests ''a'' (sample_log ''a'') =
     Some ([\<lparr>tr_Line = 1, tr_Event = ''TX_IDL_ENCODE'', tr_Service = ''3'', tr_Message = ''0x0085'', tr_Caller = [], tr_Raw = ''100100001d0000'',
       tr_TLVs = [(''0x10'', ''00''), (''0x1d'', [])], tr_HasChannel = True\<rparr>], None)"
    "extract0085Requests ''b'' (sample_log ''b'') =
     Some ([\<lparr>tr_Line = 1, tr_Event = ''TX_IDL_ENCODE'', tr_Service = ''3'', tr_Message = ''0x0085'', tr_Caller = [], tr_Raw = ''10010010'',
       tr_TLVs = [(''0x10'', ''10'')], tr_HasChannel = False\<rparr>], None)"
    by (simp_all only: extract0085Requests_def f s r e option.case prod.case Let_def bind.bind_lunit sum.case)
qed

theorem diff_report_exact_witness:
  "\<exists>report tm tq. runDiffQMI (\<lambda>_. []) sample_log no_faults ''a'' ''b'' [] Map.empty = Some (Inr report, Map.empty) \<and>
     dr_ManualOnlyTLVs report = [''0x1d''] \<and> dr_QCRILOnlyTLVs report = [] \<and> dr_DifferentTLVs report = [''0x10''] \<and> diff_exact report tm tq"
proof -
  have d: "diffTLVs [(''0x10'', ''00''), (''0x1d'', [])] [(''0x10'', ''10'')] = ([''0x1d''], [], [''0x10''])" by code_simp
  obtain report where rep: "runDiffQMI (\<lambda>_. []) sample_log no_faults ''a'' ''b'' [] Map.empty = Some (Inr report, Map.empty)"
    "dr_ManualOnlyTLVs report = [''0x1d'']" "dr_QCRILOnlyTLVs report = []" "dr_DifferentTLVs report = [''0x10'']"
    unfolding runDiffQMI_def sample_requests by (simp add: compare_requests_def d)
  with diff_report_exact [of "\<lambda>_. []" sample_log no_faults "''a''" "''b''" "[]" Map.empty] show ?thesis by metis
qed

end
