(* ===== verification/Probe_Device.thy ===== *)
theory Probe_Device
  imports Probe_Qmdl Probe_Trace
begin

text \<open>
  \<^verbatim>\<open>tools/u60-nr-crossband-probe/device.go\<close> and the journal of \<^verbatim>\<open>model.go\<close>: the controller that reads and changes the
  network settings over ubus, and the recovery journal from which they are restored.

  The state \<open>probe\<close> holds the controller, the files, an opaque device state and a log of what was done: the
  ubus calls with their outcome, the journal writes that reached the disk, its removal, and the loggers
  that were started, with the configuration they read, and ended.  The log changes nothing; it is what the safety properties are about.  What the
  operating system answers is the parameter \<open>host\<close>, one function of the device state per call.  JSON texts
  are parameters of \<open>host\<close>.
\<close>

section \<open>Data\<close>

datatype any_value = AString string | AJSONNumber string | AOther string | ANil

type_synonym any_map = "string \<rightharpoonup> any_value"

datatype experimentID = experimentA | experimentB | experimentC | experimentD | experimentE | experimentF

text \<open>\<^verbatim>\<open>experiment >= experimentC\<close> compares the letters.\<close>

definition changes_network :: "experimentID \<Rightarrow> bool" where
  "changes_network x \<longleftrightarrow> x \<noteq> experimentA \<and> x \<noteq> experimentB"

record networkSnapshot =
  sn_CapturedAt :: int
  sn_Raw :: "any_map option"
  sn_NetSelect :: string
  sn_NetworkType :: string
  sn_NRBandSA :: string
  sn_NRBandNSA :: string
  sn_NRCellLockRaw :: string
  sn_NRCellLockPCI :: string
  sn_NRCellLockARFCN :: string
  sn_NRCellLockBand :: string
  sn_ServingBand :: string
  sn_ServingARFCN :: string
  sn_ServingPCI :: string

record recoveryState =
  rs_Schema :: int
  rs_ToolVersion :: string
  rs_RunID :: string
  rs_Experiment :: experimentID
  rs_Target :: targetSpec
  rs_CreatedAt :: int
  rs_UpdatedAt :: int
  rs_Status :: string
  rs_Stage :: string
  rs_Snapshot :: networkSnapshot
  rs_CompletedActions :: "string list"
  rs_RestoreAttempts :: int
  rs_TraceRestoreRequired :: bool
  rs_NetworkRestoreRequired :: bool
  rs_ProductionQTraceBase64 :: string
  rs_DiagMDLog :: string
  rs_WorkDir :: string
  rs_StopGraceMS :: int
  rs_LastError :: string

type_synonym request = "(string \<times> string) list"

record actionEvent =
  ac_At :: int
  ac_Action :: string
  ac_Request :: request
  ac_Response :: "any_map option"
  ac_Error :: string

definition toolVersion :: string where "toolVersion = ''0.1.0''"
definition stateSchema :: int where "stateSchema = 1"
definition defaultStatePath :: string where "defaultStatePath = ''/tmp/u60-nr-crossband-probe/state.json''"

section \<open>The host\<close>

text \<open>An error: its text, and whether it is or wraps \<^verbatim>\<open>context.Canceled\<close>.\<close>

type_synonym fault = "string \<times> bool"

text \<open>\<open>h_object\<close> is \<^verbatim>\<open>json.Unmarshal\<close> into a map; a JSON \<^verbatim>\<open>null\<close> leaves the nil map, \<open>None\<close>.\<close>

record 'd probe_host =
  h_now :: "'d \<Rightarrow> int \<times> 'd"
  h_exec :: "string list \<Rightarrow> 'd \<Rightarrow> (fault option \<times> string) \<times> 'd"
  h_request :: "request \<Rightarrow> string"
  h_object :: "string \<Rightarrow> string + any_map option"
  h_journal :: "recoveryState \<Rightarrow> byte list"
  h_unjournal :: "byte list \<Rightarrow> string + recoveryState"
  h_write :: "string \<Rightarrow> 'd \<Rightarrow> write_faults \<times> 'd"
  h_read :: "string \<Rightarrow> 'd \<Rightarrow> err \<times> 'd"
  h_remove :: "string \<Rightarrow> 'd \<Rightarrow> err \<times> 'd"
  h_stat :: "string \<Rightarrow> 'd \<Rightarrow> bool \<times> 'd"
  h_mkdir :: "string \<Rightarrow> 'd \<Rightarrow> err \<times> 'd"
  h_wait :: "int \<Rightarrow> 'd \<Rightarrow> fault option \<times> 'd"

datatype probe_event = Call string request bool | Journal recoveryState | Erased | Launch "byte list option" | Halt

record 'd probe =
  pb_UBUS :: string
  pb_StatePath :: string
  pb_Actions :: "actionEvent list option"
  pb_QMIEvents :: "qmiEvent list option"
  pb_files :: file_sys
  pb_log :: "probe_event list"
  pb_dev :: 'd

definition ask :: "('d \<Rightarrow> 'a \<times> 'd) \<Rightarrow> 'd probe \<Rightarrow> 'a \<times> 'd probe" where
  "ask f s = (let (x, d) = f (pb_dev s) in (x, s\<lparr>pb_dev := d\<rparr>))"

definition note_event :: "probe_event \<Rightarrow> 'd probe \<Rightarrow> 'd probe" where
  "note_event e s = s\<lparr>pb_log := pb_log s @ [e]\<rparr>"

section \<open>Files\<close>

text \<open>\<^verbatim>\<open>writeJSONAtomic\<close> on a text; marshalling the tool's own types does not fail.\<close>

definition writeJSONAtomic :: "('d, 'x) probe_host_scheme \<Rightarrow> string \<Rightarrow> byte list \<Rightarrow> 'd probe \<Rightarrow> err \<times> 'd probe" where
  "writeJSONAtomic H path json s =
     (let (w, s) = ask (h_write H path) s;
          (e, fs) = writeFileAtomic_probe w path (json @ [10]) (pb_files s)
      in (e, s\<lparr>pb_files := fs\<rparr>))"

definition writeState :: "('d, 'x) probe_host_scheme \<Rightarrow> recoveryState \<Rightarrow> 'd probe \<Rightarrow> err \<times> recoveryState \<times> 'd probe" where
  "writeState H st s =
     (let s = (if pb_StatePath s = [] then s\<lparr>pb_StatePath := defaultStatePath\<rparr> else s);
          (now, s) = ask (h_now H) s;
          st = st\<lparr>rs_UpdatedAt := now\<rparr>;
          (e, s) = writeJSONAtomic H (pb_StatePath s) (h_journal H st) s
      in (e, st, if e = None then note_event (Journal st) s else s))"

section \<open>Ubus\<close>

definition callUBUS :: "('d, 'x) probe_host_scheme \<Rightarrow> string \<Rightarrow> request \<Rightarrow> 'd probe \<Rightarrow> (fault + any_map option) \<times> 'd probe" where
  "callUBUS H meth req s =
     (let ubus = (if pb_UBUS s = [] then ''ubus'' else pb_UBUS s);
          ((e, out), s) = ask (h_exec H [ubus, ''call'', ''zte_nwinfo_api'', meth, h_request H req]) s;
          s = note_event (Call meth req (e = None)) s
      in case e of
           Some (t, c) \<Rightarrow> (Inl (''ubus '' @ meth @ '' failed: '' @ t @ '': '' @ TrimSpace out, c), s)
         | None \<Rightarrow>
             if TrimSpace out = [] then (Inr (Some Map.empty), s)
             else (case h_object H out of
                     Inl t \<Rightarrow> (Inl (''decode ubus '' @ meth @ '' response: '' @ t @ '': '' @ TrimSpace out, False), s)
                   | Inr m \<Rightarrow> (Inr m, s)))"

definition append_action :: "actionEvent \<Rightarrow> 'd probe \<Rightarrow> 'd probe" where
  "append_action ev s = s\<lparr>pb_Actions := map_option (\<lambda>evs. evs @ [ev]) (pb_Actions s)\<rparr>"

definition appendQMI :: "qmiEvent \<Rightarrow> 'd probe \<Rightarrow> 'd probe" where
  "appendQMI ev s = s\<lparr>pb_QMIEvents := map_option (\<lambda>evs. evs @ [ev]) (pb_QMIEvents s)\<rparr>"

definition callAndRecord :: "('d, 'x) probe_host_scheme \<Rightarrow> string \<Rightarrow> string \<Rightarrow> request \<Rightarrow> 'd probe \<Rightarrow> fault option \<times> 'd probe" where
  "callAndRecord H act meth req s =
     (let (r, s) = callUBUS H meth req s; (now, s) = ask (h_now H) s;
          ev = \<lparr>ac_At = now, ac_Action = act, ac_Request = req,
                ac_Response = (case r of Inl _ \<Rightarrow> None | Inr m \<Rightarrow> m), ac_Error = (case r of Inl (t, _) \<Rightarrow> t | Inr _ \<Rightarrow> [])\<rparr>
      in (case r of Inl f \<Rightarrow> Some f | Inr _ \<Rightarrow> None, append_action ev s))"

definition setNRBand :: "('d, 'x) probe_host_scheme \<Rightarrow> string \<Rightarrow> string \<Rightarrow> 'd probe \<Rightarrow> fault option \<times> 'd probe" where
  "setNRBand H kind bands s =
     (let kind = (if kind = [] then ''SA'' else kind) in
      callAndRecord H (''set-nr-band-'' @ ToLower kind) ''nwinfo_set_nrbandlock'' [(''nr5g_type'', ToUpper kind), (''nr5g_band'', bands)] s)"

definition setNetSelect :: "('d, 'x) probe_host_scheme \<Rightarrow> string \<Rightarrow> 'd probe \<Rightarrow> fault option \<times> 'd probe" where
  "setNetSelect H mode s =
     (if mode = [] then (Some (''cannot set empty net_select'', False), s)
      else callAndRecord H ''set-net-select'' ''nwinfo_set_netselect'' [(''net_select'', mode)] s)"

definition setNRCellLock :: "('d, 'x) probe_host_scheme \<Rightarrow> string \<Rightarrow> string \<Rightarrow> string \<Rightarrow> 'd probe \<Rightarrow> fault option \<times> 'd probe" where
  "setNRCellLock H pci arfcn band s =
     callAndRecord H ''set-nr-cell-lock'' ''nwinfo_lock_nr_cell''
       [(''lock_nr_pci'', pci), (''lock_nr_earfcn'', arfcn), (''lock_nr_cell_band'', band)] s"

fun stringValue_of :: "any_value \<Rightarrow> string" where
  "stringValue_of (AString t) = TrimSpace t"
| "stringValue_of (AJSONNumber t) = t"
| "stringValue_of (AOther t) = TrimSpace t"
| "stringValue_of ANil = []"

definition stringValue :: "any_map option \<Rightarrow> string \<Rightarrow> string" where
  "stringValue vs key =
     (case vs of None \<Rightarrow> [] | Some values \<Rightarrow> (case values key of None \<Rightarrow> [] | Some v \<Rightarrow> stringValue_of v))"

definition lock_separator :: "char \<Rightarrow> bool" where
  "lock_separator c \<longleftrightarrow> c = CHR '','' \<or> c = CHR '';'' \<or> c = CHR ''|'' \<or> c = CHR ''/'' \<or> c = CHR '' ''"

definition splitCellLock :: "string \<Rightarrow> string list" where
  "splitCellLock v = filter (\<lambda>t. t \<noteq> []) (split_on (CHR '','') (map (\<lambda>c. if lock_separator c then CHR '','' else c) v))"

definition nth_or_empty :: "string list \<Rightarrow> nat \<Rightarrow> string" where
  "nth_or_empty xs n = (if n < length xs then xs ! n else [])"

definition snapshot :: "('d, 'x) probe_host_scheme \<Rightarrow> 'd probe \<Rightarrow> (fault + networkSnapshot) \<times> 'd probe" where
  "snapshot H s =
     (let (r, s) = callUBUS H ''nwinfo_get_netinfo'' [] s in
      case r of
        Inl e \<Rightarrow> (Inl e, s)
      | Inr raw \<Rightarrow>
          (let (now, s) = ask (h_now H) s; lock = splitCellLock (stringValue raw ''lock_nr_cell'') in
           (Inr \<lparr>sn_CapturedAt = now, sn_Raw = raw, sn_NetSelect = stringValue raw ''net_select'',
              sn_NetworkType = stringValue raw ''network_type'', sn_NRBandSA = stringValue raw ''nr5g_sa_band_lock'',
              sn_NRBandNSA = stringValue raw ''nr5g_nsa_band_lock'', sn_NRCellLockRaw = stringValue raw ''lock_nr_cell'',
              sn_NRCellLockPCI = nth_or_empty lock 0, sn_NRCellLockARFCN = nth_or_empty lock 1, sn_NRCellLockBand = nth_or_empty lock 2,
              sn_ServingBand = stringValue raw ''nr5g_action_band'', sn_ServingARFCN = stringValue raw ''nr5g_action_channel'',
              sn_ServingPCI = stringValue raw ''nr5g_pci''\<rparr>, s)))"

section \<open>Restoring\<close>

definition isActiveCellLock :: "networkSnapshot \<Rightarrow> bool" where
  "isActiveCellLock sn \<longleftrightarrow>
     list_ex (\<lambda>v. case ParseUint (TrimSpace v) 64 of Some n \<Rightarrow> n > 0 | None \<Rightarrow> False)
       [sn_NRCellLockPCI sn, sn_NRCellLockARFCN sn, sn_NRCellLockBand sn]"

text \<open>\<^verbatim>\<open>errors.Join\<close> of a list.\<close>

definition join_all :: "string list \<Rightarrow> string" where
  "join_all es = Join es [CHR 0x0A]"

type_synonym 'd restoring = "string list \<times> recoveryState \<times> 'd probe"

text \<open>One \<^verbatim>\<open>record(stage, call)\<close>: the call is made, its stage and error are journaled, a failure to write is ignored.\<close>

definition restore_step :: "('d, 'x) probe_host_scheme \<Rightarrow> string \<Rightarrow> ('d probe \<Rightarrow> fault option \<times> 'd probe) \<Rightarrow> 'd restoring \<Rightarrow> 'd restoring" where
  "restore_step H stage call r =
     (let (errs, st, s) = r;
          (e, s) = call s;
          st = st\<lparr>rs_Stage := stage\<rparr>;
          (errs, st) = (case e of None \<Rightarrow> (errs, st) | Some (t, _) \<Rightarrow> (errs @ [t], st\<lparr>rs_LastError := t\<rparr>));
          (_, st, s) = writeState H st s
      in (errs, st, s))"

definition restore_calls :: "('d, 'x) probe_host_scheme \<Rightarrow> networkSnapshot \<Rightarrow> 'd restoring \<Rightarrow> 'd restoring" where
  "restore_calls H sn r =
     (let r = restore_step H ''restore-unlock-cell'' (setNRCellLock H ''0'' ''0'' ''0'') r;
          r = restore_step H ''restore-sa-band'' (setNRBand H ''SA'' (sn_NRBandSA sn)) r;
          r = restore_step H ''restore-nsa-band'' (setNRBand H ''NSA'' (sn_NRBandNSA sn)) r;
          r = (if sn_NetSelect sn \<noteq> [] then restore_step H ''restore-net-select'' (setNetSelect H (sn_NetSelect sn)) r else r)
      in if isActiveCellLock sn
         then restore_step H ''restore-cell-lock'' (setNRCellLock H (sn_NRCellLockPCI sn) (sn_NRCellLockARFCN sn) (sn_NRCellLockBand sn)) r
         else r)"

definition restoreNetwork :: "('d, 'x) probe_host_scheme \<Rightarrow> recoveryState \<Rightarrow> 'd probe \<Rightarrow> err \<times> recoveryState \<times> 'd probe" where
  "restoreNetwork H st s =
     (let st = st\<lparr>rs_Status := ''restoring'', rs_Stage := ''restore-started'', rs_RestoreAttempts := rs_RestoreAttempts st + 1\<rparr>;
          (e, st, s) = writeState H st s
      in case e of
           Some t \<Rightarrow> (Some t, st, s)
         | None \<Rightarrow>
             (let (errs, st, s) = restore_calls H (rs_Snapshot st) ([], st, s) in
              if errs \<noteq> []
              then let st = st\<lparr>rs_Status := ''restore-failed'', rs_Stage := ''restore-incomplete'', rs_LastError := join_all errs\<rparr>;
                       (_, st, s) = writeState H st s
                   in (Some (join_all errs), st, s)
              else writeState H (st\<lparr>rs_Status := ''restoring'', rs_Stage := ''network-restored'', rs_LastError := []\<rparr>) s))"

definition loadRecoveryState :: "('d, 'x) probe_host_scheme \<Rightarrow> string \<Rightarrow> 'd probe \<Rightarrow> (string + recoveryState) option \<times> 'd probe" where
  "loadRecoveryState H path s =
     (case pb_files s path of
        None \<Rightarrow> (None, s)
      | Some data \<Rightarrow>
          (let (e, s) = ask (h_read H path) s in
           case e of
             Some t \<Rightarrow> (Some (Inl t), s)
           | None \<Rightarrow>
               (case h_unjournal H data of
                  Inl t \<Rightarrow> (Some (Inl t), s)
                | Inr st \<Rightarrow>
                    if rs_Schema st \<noteq> stateSchema \<or> sn_Raw (rs_Snapshot st) = None
                    then (Some (Inl ''unsupported or incomplete recovery state''), s)
                    else (Some (Inr st), s))))"

text \<open>\<open>None\<close> of the outer option is \<^verbatim>\<open>os.ErrNotExist\<close>.\<close>

definition pendingRecovery :: "('d, 'x) probe_host_scheme \<Rightarrow> string \<Rightarrow> 'd probe \<Rightarrow> (string + recoveryState option) \<times> 'd probe" where
  "pendingRecovery H path s =
     (let (r, s) = loadRecoveryState H path s in
      (case r of None \<Rightarrow> Inr None | Some (Inl t) \<Rightarrow> Inl t | Some (Inr st) \<Rightarrow> Inr (Some st), s))"

text \<open>\<^verbatim>\<open>os.Remove\<close> of a file that may not be there.\<close>

datatype remove_result = Removed | NotExist | RemoveFailed string

definition remove_file :: "('d, 'x) probe_host_scheme \<Rightarrow> string \<Rightarrow> 'd probe \<Rightarrow> remove_result \<times> 'd probe" where
  "remove_file H path s =
     (case pb_files s path of
        None \<Rightarrow> (NotExist, s)
      | Some _ \<Rightarrow>
          (let (e, s) = ask (h_remove H path) s in
           case e of
             Some t \<Rightarrow> (RemoveFailed t, s)
           | None \<Rightarrow> (Removed, note_event Erased (s\<lparr>pb_files := (pb_files s)(path := None)\<rparr>))))"

section \<open>Resources\<close>

text \<open>The text of the error of \<^verbatim>\<open>strconv.ParseUint(s, 10, 64)\<close>: the digits are read until the value does not fit or a
  character is no digit.\<close>

definition parse_error :: "string \<Rightarrow> string" where
  "parse_error t =
     ''strconv.ParseUint: parsing '' @ quote t @ '': '' @
     (if foldl (\<lambda>n c. n * 10 + (code c - 48)) 0 (takeWhile is_digit t) \<ge> (2 :: nat) ^ 64
      then ''value out of range'' else ''invalid syntax'')"

fun mem_available :: "string list \<Rightarrow> err \<Rightarrow> string + u64" where
  "mem_available [] tail = Inl (case tail of Some e \<Rightarrow> e | None \<Rightarrow> ''MemAvailable not found'')"
| "mem_available (line # lines) tail =
     (case Fields line of
        a # b # _ \<Rightarrow>
          if a = ''MemAvailable:'' then
            (case ParseUint b 64 of
               None \<Rightarrow> Inl (parse_error b)
             | Some kilobytes \<Rightarrow> Inr (word_of_nat kilobytes * 1024))
          else mem_available lines tail
      | _ \<Rightarrow> mem_available lines tail)"

text \<open>\<^verbatim>\<open>readMemAvailable\<close> on what \<^verbatim>\<open>/proc/meminfo\<close> answers.\<close>

definition readMemAvailable :: "text_file \<Rightarrow> string + u64" where
  "readMemAvailable file =
     (case tf_open file of
        Some e \<Rightarrow> Inl e
      | None \<Rightarrow> (let (lines, e) = scan_upto (64 * 1024) (tf_data file) (tf_tail file) in mem_available lines e))"

definition workFreeBytes :: "string + u64 \<times> u64 \<Rightarrow> string + u64" where
  "workFreeBytes statfs = (case statfs of Inl e \<Rightarrow> Inl e | Inr (bavail, bsize) \<Rightarrow> Inr (bavail * bsize))"

text \<open>\<^verbatim>\<open>filepath.Walk\<close>: the entries with their size when they are regular files that can be examined.\<close>

definition directoryBytes :: "(string \<times> int option) list \<Rightarrow> int" where
  "directoryBytes items = foldl (\<lambda>total (_, n). case n of Some k \<Rightarrow> total + k | None \<Rightarrow> total) 0 items"


section \<open>The store of the journal\<close>

text \<open>\<^verbatim>\<open>os.CreateTemp(dir, ".u60-nr-probe-*")\<close>.\<close>

definition probe_temp :: "string \<Rightarrow> bool" where
  "probe_temp path \<longleftrightarrow> HasPrefix (base_name path) ''.u60-nr-probe-''"

definition probe_temp_ok :: "write_faults \<Rightarrow> bool" where
  "probe_temp_ok w \<longleftrightarrow> (case wf_temp w of Inl _ \<Rightarrow> True | Inr tmp \<Rightarrow> probe_temp tmp)"

definition listed :: "file_sys \<Rightarrow> file_sys" where
  "listed fs = (\<lambda>p. if probe_temp p then None else fs p)"

lemma listed_temp [simp]: "probe_temp p \<Longrightarrow> listed (fs(p := v)) = listed fs"
  by (auto simp: listed_def)

lemma listed_upd: "\<not> probe_temp p \<Longrightarrow> listed (fs(p := v)) = (listed fs)(p := v)"
  by (auto simp: listed_def)

lemma listed_eq: "\<not> probe_temp p \<Longrightarrow> listed fs p = fs p"
  by (simp add: listed_def)

lemma abandon_probe_eqs [simp]:
  "fst (abandon_probe w tmp e fs) = Some e" "probe_temp tmp \<Longrightarrow> listed (snd (abandon_probe w tmp e fs)) = listed fs"
  by (simp_all add: abandon_probe_def)

interpretation pstore: atomic_store writeFileAtomic_probe listed probe_temp_ok "\<lambda>p. \<not> probe_temp p"
proof
  fix w k v s assume "probe_temp_ok w" "\<not> probe_temp k"
  then show "listed (snd (writeFileAtomic_probe w k v s)) =
      (if fst (writeFileAtomic_probe w k v s) = None then (listed s)(k \<mapsto> v) else listed s)"
    by (auto simp: writeFileAtomic_probe_def probe_temp_ok_def listed_upd Let_def split: option.split sum.split)
qed

text \<open>What is assumed of the host: the names of temporary files follow the pattern.\<close>

definition probe_host_ok :: "('d, 'x) probe_host_scheme \<Rightarrow> bool" where
  "probe_host_ok H \<longleftrightarrow> (\<forall>path d. probe_temp_ok (fst (h_write H path d)))"

section \<open>The log\<close>

text \<open>The journal that a log leaves on the disk.\<close>

definition journal_step :: "recoveryState option \<Rightarrow> probe_event \<Rightarrow> recoveryState option" where
  "journal_step j e = (case e of Journal st \<Rightarrow> Some st | Erased \<Rightarrow> None | _ \<Rightarrow> j)"

definition journal_after :: "probe_event list \<Rightarrow> recoveryState option" where
  "journal_after l = foldl journal_step None l"

text \<open>The settings that a log leaves on the device.  A call that succeeded sets its value; after a call that failed the
  value is not known.\<close>

record settings =
  se_sa :: "string option"
  se_nsa :: "string option"
  se_select :: "string option"
  se_lock :: "(string \<times> string \<times> string) option"

definition unknown :: settings where
  "unknown = \<lparr>se_sa = None, se_nsa = None, se_select = None, se_lock = None\<rparr>"

fun settings_step :: "settings \<Rightarrow> probe_event \<Rightarrow> settings" where
  "settings_step g (Call meth req ok) =
     (let known = (\<lambda>v. if ok then Some v else None) in
      if meth = ''nwinfo_set_nrbandlock'' then
        (case map snd req of
           [kind, bands] \<Rightarrow> if kind = ''SA'' then g\<lparr>se_sa := known bands\<rparr> else g\<lparr>se_nsa := known bands\<rparr>
         | _ \<Rightarrow> unknown)
      else if meth = ''nwinfo_set_netselect'' then
        (case map snd req of [mode] \<Rightarrow> g\<lparr>se_select := if ok then Some mode else None\<rparr> | _ \<Rightarrow> unknown)
      else if meth = ''nwinfo_lock_nr_cell'' then
        (case map snd req of
           [pci, arfcn, band] \<Rightarrow> g\<lparr>se_lock := if ok then Some (pci, arfcn, band) else None\<rparr>
         | _ \<Rightarrow> unknown)
      else g)"
| "settings_step g _ = g"

definition settings_after :: "probe_event list \<Rightarrow> settings" where
  "settings_after l = foldl settings_step unknown l"

text \<open>The configuration that the last logger of a log was started with.\<close>

definition trace_after :: "probe_event list \<Rightarrow> byte list option option" where
  "trace_after l = foldl (\<lambda>t e. case e of Launch c \<Rightarrow> Some c | _ \<Rightarrow> t) None l"

lemma journal_after_simps [simp]:
  "journal_after [] = None" "journal_after (l @ [e]) = journal_step (journal_after l) e"
  "journal_step j (Journal st) = Some st" "journal_step j Erased = None" "journal_step j (Call m r ok) = j" "journal_step j (Launch c) = j" "journal_step j Halt = j"
  by (simp_all add: journal_after_def journal_step_def)

lemma settings_after_snoc [simp]: "settings_after (l @ [e]) = settings_step (settings_after l) e"
  by (simp add: settings_after_def)

lemma trace_after_snoc [simp]: "trace_after (l @ [e]) = (case e of Launch c \<Rightarrow> Some c | _ \<Rightarrow> trace_after l)"
  by (cases e) (simp_all add: trace_after_def)

text \<open>The log and the disk agree on the journal.\<close>

definition synced :: "('d, 'x) probe_host_scheme \<Rightarrow> 'd probe \<Rightarrow> bool" where
  "synced H s \<longleftrightarrow> pb_StatePath s \<noteq> [] \<and> \<not> probe_temp (pb_StatePath s) \<and>
     pb_files s (pb_StatePath s) = map_option (\<lambda>st. h_journal H st @ [10]) (journal_after (pb_log s))"

section \<open>Effects of the operations\<close>

lemma ask_eqs [simp]:
  "pb_files (snd (ask f s)) = pb_files s" "pb_log (snd (ask f s)) = pb_log s" "pb_StatePath (snd (ask f s)) = pb_StatePath s"
  "pb_UBUS (snd (ask f s)) = pb_UBUS s"
  by (simp_all add: ask_def split: prod.split)

lemma askE:
  assumes "ask f s = (x, s')"
  shows "pb_files s' = pb_files s \<and> pb_log s' = pb_log s \<and> pb_StatePath s' = pb_StatePath s"
  using assms ask_eqs [of f s] by simp

text \<open>One call was made and nothing else.\<close>

definition made :: "string \<Rightarrow> request \<Rightarrow> bool \<Rightarrow> 'd probe \<Rightarrow> 'd probe \<Rightarrow> bool" where
  "made meth req good s s' \<longleftrightarrow> pb_files s' = pb_files s \<and> pb_StatePath s' = pb_StatePath s \<and>
     (\<exists>ok. pb_log s' = pb_log s @ [Call meth req ok] \<and> (good \<longrightarrow> ok))"

lemma callUBUS_made:
  assumes "callUBUS H meth req s = (r, s')"
  shows "made meth req (\<not> isl r) s s'"
proof -
  obtain e out s1 where x: "ask (h_exec H [if pb_UBUS s = [] then ''ubus'' else pb_UBUS s, ''call'', ''zte_nwinfo_api'', meth, h_request H req]) s = ((e, out), s1)"
    by (metis prod.exhaust)
  let ?s = "note_event (Call meth req (e = None)) s1"
  have s: "pb_files ?s = pb_files s" "pb_StatePath ?s = pb_StatePath s" "pb_log ?s = pb_log s @ [Call meth req (e = None)]"
    using askE [OF x] by (simp_all add: note_event_def)
  have "s' = ?s \<and> (\<not> isl r \<longrightarrow> e = None)"
    using assms by (auto simp: callUBUS_def x Let_def simp del: append.simps append_Cons split: option.splits if_splits sum.splits)
  with s show ?thesis by (auto simp: made_def)
qed

lemma callAndRecord_made:
  assumes "callAndRecord H act meth req s = (e, s')"
  shows "made meth req (e = None) s s'"
proof -
  obtain r s1 where r: "callUBUS H meth req s = (r, s1)" by fastforce
  obtain now s2 where n: "ask (h_now H) s1 = (now, s2)" by fastforce
  have "e = (case r of Inl f \<Rightarrow> Some f | Inr _ \<Rightarrow> None)" and s': "\<exists>ev. s' = append_action ev s2"
    using assms by (auto simp: callAndRecord_def r n Let_def)
  then have "e = None \<longleftrightarrow> \<not> isl r" by (cases r) auto
  with callUBUS_made [OF r] s' askE [OF n] show ?thesis by (auto simp: made_def append_action_def)
qed

lemma setNRBand_made:
  "setNRBand H kind bands s = (e, s') \<Longrightarrow>
     made ''nwinfo_set_nrbandlock'' [(''nr5g_type'', ToUpper (if kind = [] then ''SA'' else kind)), (''nr5g_band'', bands)] (e = None) s s'"
  unfolding setNRBand_def Let_def by (rule callAndRecord_made)

lemma setNRCellLock_made:
  "setNRCellLock H pci arfcn band s = (e, s') \<Longrightarrow>
     made ''nwinfo_lock_nr_cell'' [(''lock_nr_pci'', pci), (''lock_nr_earfcn'', arfcn), (''lock_nr_cell_band'', band)] (e = None) s s'"
  unfolding setNRCellLock_def by (rule callAndRecord_made)

lemma setNetSelect_made:
  "mode \<noteq> [] \<Longrightarrow> setNetSelect H mode s = (e, s') \<Longrightarrow> made ''nwinfo_set_netselect'' [(''net_select'', mode)] (e = None) s s'"
  by (simp add: setNetSelect_def callAndRecord_made)

text \<open>The fields of a journal that a run never changes.\<close>

definition run_key :: "recoveryState \<Rightarrow> int \<times> string \<times> experimentID \<times> targetSpec \<times> networkSnapshot \<times> bool \<times> string \<times> string \<times> string \<times> int" where
  "run_key st = (rs_Schema st, rs_RunID st, rs_Experiment st, rs_Target st, rs_Snapshot st, rs_NetworkRestoreRequired st,
     rs_ProductionQTraceBase64 st, rs_DiagMDLog st, rs_WorkDir st, rs_StopGraceMS st)"

definition run_event :: "recoveryState \<Rightarrow> probe_event \<Rightarrow> bool" where
  "run_event st e \<longleftrightarrow>
     (case e of
        Call _ _ _ \<Rightarrow> True
      | Journal j \<Rightarrow> run_key j = run_key st \<and> rs_TraceRestoreRequired j = rs_TraceRestoreRequired st
      | _ \<Rightarrow> False)"

text \<open>Calls were made and the journal was rewritten, with the same run and the same obligations.\<close>

definition advanced :: "('d, 'x) probe_host_scheme \<Rightarrow> recoveryState \<Rightarrow> 'd probe \<Rightarrow> recoveryState \<Rightarrow> 'd probe \<Rightarrow> bool" where
  "advanced H st s st' s' \<longleftrightarrow> synced H s' \<and> pb_StatePath s' = pb_StatePath s \<and>
     (\<forall>p. p \<noteq> pb_StatePath s \<longrightarrow> \<not> probe_temp p \<longrightarrow> pb_files s' p = pb_files s p) \<and>
     run_key st' = run_key st \<and> rs_TraceRestoreRequired st' = rs_TraceRestoreRequired st \<and>
     (\<exists>w. pb_log s' = pb_log s @ w \<and> list_all (run_event st) w)"

lemma advanced_refl: "synced H s \<Longrightarrow> run_key st' = run_key st \<Longrightarrow> rs_TraceRestoreRequired st' = rs_TraceRestoreRequired st \<Longrightarrow> advanced H st s st' s"
  by (simp add: advanced_def)

lemma run_event_cong: "run_key b = run_key a \<Longrightarrow> rs_TraceRestoreRequired b = rs_TraceRestoreRequired a \<Longrightarrow> run_event b = run_event a"
  by (rule ext) (simp add: run_event_def split: probe_event.split)

lemma advanced_log: "advanced H st s st' s' \<Longrightarrow> \<exists>w. pb_log s' = pb_log s @ w \<and> list_all (run_event st) w"
  by (simp add: advanced_def)

lemma advanced_trans:
  assumes a: "advanced H a s b t" and b: "advanced H b t c u"
  shows "advanced H a s c u"
proof -
  have "run_event b = run_event a" using a by (intro run_event_cong) (simp_all add: advanced_def)
  then have "\<exists>w. pb_log u = pb_log t @ w \<and> list_all (run_event a) w" using advanced_log [OF b] by simp
  then obtain w where "pb_log u = pb_log t @ w" "list_all (run_event a) w" by blast
  moreover obtain v where "pb_log t = pb_log s @ v" "list_all (run_event a) v" using advanced_log [OF a] by blast
  ultimately have "pb_log u = pb_log s @ (v @ w) \<and> list_all (run_event a) (v @ w)" by simp
  then have "\<exists>w. pb_log u = pb_log s @ w \<and> list_all (run_event a) w" by blast
  with a b show ?thesis by (simp add: advanced_def)
qed

lemma made_advanced:
  assumes "synced H s" and "made meth req good s s'"
  shows "advanced H st s st s'"
  using assms by (auto simp: advanced_def made_def synced_def run_event_def)

lemma writeState_effect:
  assumes ok: "probe_host_ok H" and sync: "synced H s" and w: "writeState H st s = (e, st', s')"
  shows "advanced H st s st' s' \<and> (\<exists>now. st' = st\<lparr>rs_UpdatedAt := now\<rparr>) \<and>
    pb_log s' = pb_log s @ (if e = None then [Journal st'] else [])"
proof -
  let ?p = "pb_StatePath s"
  have p: "?p \<noteq> []" "\<not> probe_temp ?p" using sync by (simp_all add: synced_def)
  obtain now s1 where n: "ask (h_now H) s = (now, s1)" by fastforce
  obtain wf s2 where a: "ask (h_write H ?p) s1 = (wf, s2)" by fastforce
  obtain e' fs where f: "writeFileAtomic_probe wf ?p (h_journal H (st\<lparr>rs_UpdatedAt := now\<rparr>) @ [10]) (pb_files s) = (e', fs)" by fastforce
  have keep: "pb_files s2 = pb_files s" "pb_log s2 = pb_log s" "pb_StatePath s2 = ?p" "pb_StatePath s1 = ?p"
    using askE [OF n] askE [OF a] by simp_all
  have res: "e = e'" "st' = st\<lparr>rs_UpdatedAt := now\<rparr>"
    "s' = (if e = None then note_event (Journal st') (s2\<lparr>pb_files := fs\<rparr>) else s2\<lparr>pb_files := fs\<rparr>)"
    using w p(1) keep by (auto simp: writeState_def writeJSONAtomic_def n a f Let_def)
  have "wf = fst (h_write H ?p (pb_dev s1))" using a by (simp add: ask_def split: prod.splits)
  then have "probe_temp_ok wf" using ok by (simp add: probe_host_ok_def)
  from pstore.write_view [OF this p(2), of "h_journal H st' @ [10]" "pb_files s"]
  have v: "listed fs = (if e = None then (listed (pb_files s))(?p \<mapsto> h_journal H st' @ [10]) else listed (pb_files s))"
    using f keep res by simp
  have fp: "fs q = (if e = None \<and> q = ?p then Some (h_journal H st' @ [10]) else pb_files s q)" if "\<not> probe_temp q" for q
    using fun_cong [OF v, of q] that by (auto simp: listed_def split: if_splits)
  show ?thesis
    using res fp p sync keep
    by (cases e) (auto simp: advanced_def synced_def note_event_def run_event_def run_key_def)
qed

lemma restore_step_effect:
  assumes ok: "probe_host_ok H" and sync: "synced H s"
    and call: "\<And>t e t'. call t = (e, t') \<Longrightarrow> made meth req (e = None) t t'"
    and r: "restore_step H stage call (errs, st, s) = (errs', st', s')"
  shows "advanced H st s st' s'" and "errs' = [] \<longrightarrow> errs = [] \<and> settings_after (pb_log s') = settings_step (settings_after (pb_log s)) (Call meth req True)"
proof -
  obtain e s1 where c: "call s = (e, s1)" by fastforce
  define st1 where "st1 = (case e of None \<Rightarrow> st\<lparr>rs_Stage := stage\<rparr> | Some (t, _) \<Rightarrow> st\<lparr>rs_Stage := stage, rs_LastError := t\<rparr>)"
  obtain e2 st2 s2 where w: "writeState H st1 s1 = (e2, st2, s2)" by (metis prod.exhaust)
  have res: "st' = st2" "s' = s2" "errs' = (case e of None \<Rightarrow> errs | Some (t, _) \<Rightarrow> errs @ [t])"
    using r w by (cases e; auto simp: restore_step_def c st1_def Let_def)+
  have m: "made meth req (e = None) s s1" using call [OF c] .
  from made_advanced [OF sync this, of st] have a: "advanced H st s st s1" .
  then have s1: "synced H s1" by (simp add: advanced_def)
  have k: "run_key st1 = run_key st" "rs_TraceRestoreRequired st1 = rs_TraceRestoreRequired st"
    by (cases e; simp add: st1_def run_key_def split: prod.split)+
  from writeState_effect [OF ok s1 w] have b: "advanced H st1 s1 st2 s2" and l: "pb_log s2 = pb_log s1 @ (if e2 = None then [Journal st2] else [])"
    by simp_all
  from advanced_trans [OF a advanced_trans [OF advanced_refl [OF s1 k] b]] show "advanced H st s st' s'" using res by simp
  show "errs' = [] \<longrightarrow> errs = [] \<and> settings_after (pb_log s') = settings_step (settings_after (pb_log s)) (Call meth req True)"
  proof
    assume "errs' = []"
    then have e: "e = None" "errs = []" using res(3) by (auto split: option.splits)
    with m have "pb_log s1 = pb_log s @ [Call meth req True]" by (auto simp: made_def)
    then have "settings_after (pb_log s1) = settings_step (settings_after (pb_log s)) (Call meth req True)" by (simp del: settings_step.simps)
    moreover have "settings_after (pb_log s2) = settings_after (pb_log s1)" using l by simp
    ultimately show "errs = [] \<and> settings_after (pb_log s') = settings_step (settings_after (pb_log s)) (Call meth req True)"
      using e res(2) by simp
  qed
qed

text \<open>Unlocking, both band locks, the selection when the snapshot has one, and the lock when it was active.\<close>

definition network_restored :: "networkSnapshot \<Rightarrow> settings \<Rightarrow> bool" where
  "network_restored sn g \<longleftrightarrow> se_sa g = Some (sn_NRBandSA sn) \<and> se_nsa g = Some (sn_NRBandNSA sn) \<and>
     (sn_NetSelect sn \<noteq> [] \<longrightarrow> se_select g = Some (sn_NetSelect sn)) \<and>
     se_lock g = Some (if isActiveCellLock sn then (sn_NRCellLockPCI sn, sn_NRCellLockARFCN sn, sn_NRCellLockBand sn) else (''0'', ''0'', ''0''))"

definition progress :: "('d, 'x) probe_host_scheme \<Rightarrow> (settings \<Rightarrow> settings) \<Rightarrow> 'd restoring \<Rightarrow> 'd restoring \<Rightarrow> bool" where
  "progress H f r r' \<longleftrightarrow>
     (case r of (errs, st, s) \<Rightarrow> case r' of (errs', st', s') \<Rightarrow>
        synced H s \<longrightarrow> advanced H st s st' s' \<and>
          (errs' = [] \<longrightarrow> errs = [] \<and> settings_after (pb_log s') = f (settings_after (pb_log s))))"

lemma progress_refl: "progress H id r r"
  by (cases r) (simp add: progress_def advanced_refl)

lemma progress_trans:
  assumes "progress H f a b" and "progress H g b c"
  shows "progress H (g \<circ> f) a c"
proof -
  obtain ea sta sa where a: "a = (ea, sta, sa)" by (metis prod.exhaust)
  obtain eb stb sb where b: "b = (eb, stb, sb)" by (metis prod.exhaust)
  obtain ec stc sc where c: "c = (ec, stc, sc)" by (metis prod.exhaust)
  have "synced H sb" if "synced H sa" using assms(1) that by (simp add: progress_def a b advanced_def)
  moreover have "advanced H sta sa stc sc" if "synced H sa" "synced H sb"
    using assms that by (auto simp: progress_def a b c intro: advanced_trans)
  ultimately show ?thesis using assms by (simp add: progress_def a b c)
qed

lemma restore_step_progress:
  assumes "probe_host_ok H" and "\<And>t e t'. call t = (e, t') \<Longrightarrow> made meth req (e = None) t t'"
  shows "progress H (\<lambda>g. settings_step g (Call meth req True)) r (restore_step H stage call r)"
proof -
  obtain errs st s where r: "r = (errs, st, s)" by (metis prod.exhaust)
  obtain errs' st' s' where r': "restore_step H stage call (errs, st, s) = (errs', st', s')" by (metis prod.exhaust)
  show ?thesis using restore_step_effect [OF assms(1) _ assms(2) r'] by (simp add: progress_def r r')
qed

lemma restore_calls_progress:
  assumes ok: "probe_host_ok H"
  shows "\<exists>f. progress H f r (restore_calls H sn r) \<and> (\<forall>g. network_restored sn (f g) \<and> (sn_NetSelect sn = [] \<longrightarrow> se_select (f g) = se_select g))"
proof -
  let ?lock = "\<lambda>a b c g. settings_step g (Call ''nwinfo_lock_nr_cell'' [(''lock_nr_pci'', a), (''lock_nr_earfcn'', b), (''lock_nr_cell_band'', c)] True)"
  let ?band = "\<lambda>k v g. settings_step g (Call ''nwinfo_set_nrbandlock'' [(''nr5g_type'', k), (''nr5g_band'', v)] True)"
  let ?sel = "\<lambda>g. settings_step g (Call ''nwinfo_set_netselect'' [(''net_select'', sn_NetSelect sn)] True)"
  have u: "ToUpper (if (''SA'' :: string) = [] then ''SA'' else ''SA'') = ''SA''" "ToUpper (if (''NSA'' :: string) = [] then ''SA'' else ''NSA'') = ''NSA''"
    by code_simp+
  define r1 where "r1 = restore_step H ''restore-unlock-cell'' (setNRCellLock H ''0'' ''0'' ''0'') r"
  define r2 where "r2 = restore_step H ''restore-sa-band'' (setNRBand H ''SA'' (sn_NRBandSA sn)) r1"
  define r3 where "r3 = restore_step H ''restore-nsa-band'' (setNRBand H ''NSA'' (sn_NRBandNSA sn)) r2"
  define r4 where "r4 = (if sn_NetSelect sn \<noteq> [] then restore_step H ''restore-net-select'' (setNetSelect H (sn_NetSelect sn)) r3 else r3)"
  define r5 where "r5 = (if isActiveCellLock sn
    then restore_step H ''restore-cell-lock'' (setNRCellLock H (sn_NRCellLockPCI sn) (sn_NRCellLockARFCN sn) (sn_NRCellLockBand sn)) r4 else r4)"
  have eq: "restore_calls H sn r = r5" by (simp only: restore_calls_def Let_def r1_def r2_def r3_def r4_def r5_def)
  have p1: "progress H (?lock ''0'' ''0'' ''0'') r r1"
    unfolding r1_def by (rule restore_step_progress [OF ok setNRCellLock_made])
  have p2: "progress H (?band ''SA'' (sn_NRBandSA sn)) r1 r2"
    unfolding r2_def by (rule restore_step_progress [OF ok setNRBand_made [where kind = "''SA''", unfolded u]])
  have p3: "progress H (?band ''NSA'' (sn_NRBandNSA sn)) r2 r3"
    unfolding r3_def by (rule restore_step_progress [OF ok setNRBand_made [where kind = "''NSA''", unfolded u]])
  have p4: "progress H (if sn_NetSelect sn \<noteq> [] then ?sel else id) r3 r4"
  proof (cases "sn_NetSelect sn = []")
    case False
    then have "progress H ?sel r3 (restore_step H ''restore-net-select'' (setNetSelect H (sn_NetSelect sn)) r3)"
      by (intro restore_step_progress [OF ok setNetSelect_made])
    with False show ?thesis by (simp add: r4_def)
  qed (simp add: r4_def progress_refl)
  have p5: "progress H (if isActiveCellLock sn then ?lock (sn_NRCellLockPCI sn) (sn_NRCellLockARFCN sn) (sn_NRCellLockBand sn) else id) r4 r5"
  proof (cases "isActiveCellLock sn")
    case True
    have "progress H (?lock (sn_NRCellLockPCI sn) (sn_NRCellLockARFCN sn) (sn_NRCellLockBand sn)) r4
      (restore_step H ''restore-cell-lock'' (setNRCellLock H (sn_NRCellLockPCI sn) (sn_NRCellLockARFCN sn) (sn_NRCellLockBand sn)) r4)"
      by (rule restore_step_progress [OF ok setNRCellLock_made])
    with True show ?thesis by (simp add: r5_def)
  qed (simp add: r5_def progress_refl)
  note all = progress_trans [OF p1 progress_trans [OF p2 progress_trans [OF p3 progress_trans [OF p4 p5]]]]
  show ?thesis unfolding eq
    by (rule exI, rule conjI [OF all]) (auto simp: network_restored_def Let_def)
qed

text \<open>Restoring keeps the journal of the run; when it reports no error the settings are those of the snapshot.\<close>

definition restore_outcome :: "('d, 'x) probe_host_scheme \<Rightarrow> recoveryState \<Rightarrow> 'd probe \<Rightarrow> err \<Rightarrow> recoveryState \<Rightarrow> 'd probe \<Rightarrow> bool" where
  "restore_outcome H st s e st' s' \<longleftrightarrow> advanced H st s st' s' \<and>
     (e = None \<longrightarrow> journal_after (pb_log s') = Some st' \<and> network_restored (rs_Snapshot st) (settings_after (pb_log s')) \<and>
       (sn_NetSelect (rs_Snapshot st) = [] \<longrightarrow> se_select (settings_after (pb_log s')) = se_select (settings_after (pb_log s))))"

lemma restoreNetwork_outcome:
  assumes ok: "probe_host_ok H" and sync: "synced H s" and r: "restoreNetwork H st s = (e, st', s')"
  shows "restore_outcome H st s e st' s'"
proof -
  define st1 where "st1 = st\<lparr>rs_Status := ''restoring'', rs_Stage := ''restore-started'', rs_RestoreAttempts := rs_RestoreAttempts st + 1\<rparr>"
  have k1: "advanced H st s st1 s" by (rule advanced_refl [OF sync]) (simp_all add: st1_def run_key_def)
  obtain e2 st2 s2 where w: "writeState H st1 s = (e2, st2, s2)" by (metis prod.exhaust)
  from writeState_effect [OF ok sync w] have a2: "advanced H st1 s st2 s2" and l2: "pb_log s2 = pb_log s @ (if e2 = None then [Journal st2] else [])"
    by simp_all
  have a12: "advanced H st s st2 s2" by (rule advanced_trans [OF k1 a2])
  then have sn: "rs_Snapshot st2 = rs_Snapshot st" and sync2: "synced H s2" by (simp_all add: advanced_def run_key_def)
  have g2: "settings_after (pb_log s2) = settings_after (pb_log s)" using l2 by simp
  show ?thesis
  proof (cases e2)
    case (Some t)
    with r w a12 show ?thesis by (auto simp: restoreNetwork_def restore_outcome_def st1_def)
  next
    case None
    obtain errs st3 s3 where c: "restore_calls H (rs_Snapshot st2) ([], st2, s2) = (errs, st3, s3)" by (metis prod.exhaust)
    obtain f where "progress H f ([], st2, s2) (errs, st3, s3)"
      and f: "\<And>g. network_restored (rs_Snapshot st) (f g)" "\<And>g. sn_NetSelect (rs_Snapshot st) = [] \<Longrightarrow> se_select (f g) = se_select g"
      using restore_calls_progress [OF ok, of "([], st2, s2)" "rs_Snapshot st2"] c sn by auto
    then have a3: "advanced H st2 s2 st3 s3" and g3: "errs = [] \<longrightarrow> settings_after (pb_log s3) = f (settings_after (pb_log s2))"
      using sync2 by (simp_all add: progress_def)
    then have sync3: "synced H s3" by (simp add: advanced_def)
    note a13 = advanced_trans [OF a12 a3]
    define st4 where "st4 = (if errs \<noteq> [] then st3\<lparr>rs_Status := ''restore-failed'', rs_Stage := ''restore-incomplete'', rs_LastError := join_all errs\<rparr>
      else st3\<lparr>rs_Status := ''restoring'', rs_Stage := ''network-restored'', rs_LastError := []\<rparr>)"
    have k4: "advanced H st3 s3 st4 s3" by (rule advanced_refl [OF sync3]) (simp_all add: st4_def run_key_def)
    obtain e5 st5 s5 where w5: "writeState H st4 s3 = (e5, st5, s5)" by (metis prod.exhaust)
    from writeState_effect [OF ok sync3 w5] have a5: "advanced H st4 s3 st5 s5" and l5: "pb_log s5 = pb_log s3 @ (if e5 = None then [Journal st5] else [])"
      by simp_all
    have "advanced H st s st5 s5" by (rule advanced_trans [OF a13 advanced_trans [OF k4 a5]])
    moreover have "st' = st5" "s' = s5" "e = (if errs \<noteq> [] then Some (join_all errs) else e5)"
      using r w c w5 None by (auto simp: restoreNetwork_def st1_def [symmetric] st4_def split: if_splits)
    ultimately show ?thesis using l5 g3 g2 f by (auto simp: restore_outcome_def split: if_splits)
  qed
qed

end
