(* ===== verification/Probe_Scan.thy ===== *)
theory Probe_Scan
  imports Probe_Device
begin

text \<open>
  \<^verbatim>\<open>tools/u60-nr-crossband-probe/qmi_linux.go\<close>: the network scan of experiment A over a QRTR socket, with the deferred
  abort.  The answers of the socket are the parameter \<open>qrtr\<close>; the state \<open>scan\<close> holds what was sent and
  emitted.  The receive loop runs until the context ends, so it is a recursion on the list of answers that
  the socket gives before that.
\<close>

section \<open>The socket\<close>

record sockaddrQRTR =
  sq_Family :: u16
  sq_Pad :: u16
  sq_Node :: u32
  sq_Port :: u32

record qrtrServer =
  qs_Version :: u32
  qs_Instance :: u32
  qs_Node :: u32
  qs_Port :: u32

definition afQIPCRTR :: u16 where "afQIPCRTR = 42"
definition qrtrPortCtrl :: u32 where "qrtrPortCtrl = 0xfffffffe"
definition qrtrTypeNewServ :: u32 where "qrtrTypeNewServ = 4"
definition qrtrTypeNewLook :: u32 where "qrtrTypeNewLook = 10"
definition nasService :: u32 where "nasService = 3"

text \<open>\<open>Interrupted\<close> stands for \<^verbatim>\<open>EINTR\<close>, \<^verbatim>\<open>EAGAIN\<close> and \<^verbatim>\<open>EWOULDBLOCK\<close>.\<close>

datatype qrtr_answer = Interrupted | RecvError string | Datagram "byte list" sockaddrQRTR

record 'd qrtr =
  q_socket :: "'d \<Rightarrow> err \<times> 'd"
  q_timeout :: "int \<Rightarrow> 'd \<Rightarrow> err \<times> 'd"
  q_sockname :: "'d \<Rightarrow> (string + sockaddrQRTR) \<times> 'd"
  q_sendto :: "byte list \<Rightarrow> sockaddrQRTR \<Rightarrow> 'd \<Rightarrow> err \<times> 'd"
  q_recv :: "'d \<Rightarrow> qrtr_answer \<times> 'd"
  q_until_done :: "'d \<Rightarrow> qrtr_answer list \<times> 'd"
  q_now :: "'d \<Rightarrow> int \<times> 'd"

record 'd scan =
  sc_sent :: "(byte list \<times> sockaddrQRTR) list"
  sc_emitted :: "qmiEvent list"
  sc_dev :: 'd

definition sock :: "('d \<Rightarrow> 'a \<times> 'd) \<Rightarrow> 'd scan \<Rightarrow> 'a \<times> 'd scan" where
  "sock f s = (let (x, d) = f (sc_dev s) in (x, s\<lparr>sc_dev := d\<rparr>))"

definition emit :: "qmiEvent \<Rightarrow> 'd scan \<Rightarrow> 'd scan" where
  "emit ev s = s\<lparr>sc_emitted := sc_emitted s @ [ev]\<rparr>"

definition sendQRTR :: "'d qrtr \<Rightarrow> byte list \<Rightarrow> sockaddrQRTR \<Rightarrow> 'd scan \<Rightarrow> err \<times> 'd scan" where
  "sendQRTR Q payload address s =
     (if payload = [] then (Some ''refusing empty QRTR payload'', s)
      else let (e, s) = sock (q_sendto Q payload address) s
           in (e, if e = None then s\<lparr>sc_sent := sc_sent s @ [(payload, address)]\<rparr> else s))"

definition setQRTRTimeout :: "'d qrtr \<Rightarrow> int \<Rightarrow> 'd scan \<Rightarrow> err \<times> 'd scan" where
  "setQRTRTimeout Q timeout s = sock (q_timeout Q timeout) s"

definition getQRTRSockName :: "'d qrtr \<Rightarrow> 'd scan \<Rightarrow> (string + sockaddrQRTR) \<times> 'd scan" where
  "getQRTRSockName Q s = sock (q_sockname Q) s"

text \<open>A datagram that does not fit the buffer is cut.\<close>

definition recvQRTR :: "nat \<Rightarrow> qrtr_answer \<Rightarrow> qrtr_answer" where
  "recvQRTR n a = (case a of Datagram data from \<Rightarrow> Datagram (take n data) from | _ \<Rightarrow> a)"

definition qrtr_address :: "u32 \<Rightarrow> u32 \<Rightarrow> sockaddrQRTR" where
  "qrtr_address node port = \<lparr>sq_Family = afQIPCRTR, sq_Pad = 0, sq_Node = node, sq_Port = port\<rparr>"

section \<open>Looking up the service\<close>

definition lookup_request :: "byte list" where
  "lookup_request = put32 qrtrTypeNewLook @ put32 nasService @ replicate 12 0"

definition lookup_reply :: "byte list \<Rightarrow> qrtrServer option option" where
  "lookup_reply packet =
     (if length packet < 20 then Some None
      else do {
        kind \<leftarrow> slice packet 0 4 \<bind> uint32le;
        if kind \<noteq> qrtrTypeNewServ then Some None
        else do {
          serviceID \<leftarrow> slice packet 4 8 \<bind> uint32le;
          instanceField \<leftarrow> slice packet 8 12 \<bind> uint32le;
          node \<leftarrow> slice packet 12 16 \<bind> uint32le;
          port \<leftarrow> slice packet 16 20 \<bind> uint32le;
          Some (if serviceID = nasService \<and> node \<noteq> 0 \<and> port \<noteq> 0
                then Some \<lparr>qs_Version = instanceField AND 0xff, qs_Instance = drop_bit 8 instanceField, qs_Node = node, qs_Port = port\<rparr>
                else None) } })"

fun lookup_loop :: "'d qrtr \<Rightarrow> nat \<Rightarrow> 'd scan \<Rightarrow> ((string + qrtrServer) \<times> 'd scan) option" where
  "lookup_loop Q 0 s = Some (Inl ''NAS QRTR service not found'', s)"
| "lookup_loop Q (Suc n) s =
     (let (a, s) = sock (q_recv Q) s in
      case recvQRTR 256 a of
        Interrupted \<Rightarrow> lookup_loop Q n s
      | RecvError t \<Rightarrow> Some (Inl (''receive QRTR lookup: '' @ t), s)
      | Datagram packet _ \<Rightarrow> do {
          r \<leftarrow> lookup_reply packet;
          case r of Some server \<Rightarrow> Some (Inr server, s) | None \<Rightarrow> lookup_loop Q n s })"

definition lookupNAS :: "'d qrtr \<Rightarrow> sockaddrQRTR \<Rightarrow> 'd scan \<Rightarrow> ((string + qrtrServer) \<times> 'd scan) option" where
  "lookupNAS Q local s =
     (let (e, s) = sendQRTR Q lookup_request (qrtr_address (sq_Node local) qrtrPortCtrl) s in
      case e of Some t \<Rightarrow> Some (Inl t, s) | None \<Rightarrow> lookup_loop Q 64 s)"

section \<open>Aborting\<close>

definition raw_event :: "int \<Rightarrow> string \<Rightarrow> string \<Rightarrow> string \<Rightarrow> u16 \<Rightarrow> byte list \<Rightarrow> qmiEvent" where
  "raw_event now direction kind message transaction packet =
     \<lparr>qe_At = now, qe_Service = ''3'', qe_Event = ''RAW_QRTR'', qe_Direction = direction, qe_Kind = kind, qe_MessageID = message,
       qe_Transaction = transaction, qe_Caller = [], qe_Raw = hex_EncodeToString packet, qe_Result = None, qe_Error = None,
       qe_ScanStatus = None, qe_Description = []\<rparr>"

definition from_server :: "qrtrServer \<Rightarrow> sockaddrQRTR \<Rightarrow> byte list \<Rightarrow> bool" where
  "from_server server from packet \<longleftrightarrow> \<not> (sq_Node from \<noteq> qs_Node server \<or> sq_Port from \<noteq> qs_Port server \<or> length packet < 7)"

fun abort_loop :: "'d qrtr \<Rightarrow> qrtrServer \<Rightarrow> u16 \<Rightarrow> nat \<Rightarrow> 'd scan \<Rightarrow> (err \<times> 'd scan) option" where
  "abort_loop Q server transaction 0 s = Some (Some ''NAS abort response not received'', s)"
| "abort_loop Q server transaction (Suc n) s =
     (let (a, s) = sock (q_recv Q) s in
      case recvQRTR 65535 a of
        Interrupted \<Rightarrow> abort_loop Q server transaction n s
      | RecvError t \<Rightarrow> Some (Some t, s)
      | Datagram packet from \<Rightarrow>
          if \<not> from_server server from packet then abort_loop Q server transaction n s
          else do {
            (p, e) \<leftarrow> parseQMIPacket packet;
            if e \<noteq> None \<or> qp_flags p \<noteq> qmiFlagResponse \<or> qp_transaction p \<noteq> transaction \<or> qp_message p \<noteq> qmiAbortNetworkScan
            then abort_loop Q server transaction n s
            else do {
              r \<leftarrow> qmiResult packet;
              case r of
                Inl t \<Rightarrow> Some (Some t, s)
              | Inr (result, qmiError) \<Rightarrow>
                  (let (now, s) = sock (q_now Q) s;
                       s = emit ((raw_event now ''rx'' ''response'' ''0x00c2'' transaction packet)\<lparr>qe_Result := Some result, qe_Error := Some qmiError\<rparr>) s
                   in Some (if result \<noteq> 0 then Some (''NAS abort rejected: QMI error '' @ utoa (unat qmiError)) else None, s)) } })"

definition abortNRScan :: "'d qrtr \<Rightarrow> qrtrServer \<Rightarrow> u16 \<Rightarrow> 'd scan \<Rightarrow> (err \<times> 'd scan) option" where
  "abortNRScan Q server transaction s =
     (let (e, s) = setQRTRTimeout Q (500 * Millisecond) s in
      case e of
        Some t \<Rightarrow> Some (Some t, s)
      | None \<Rightarrow>
          (case makeAbortRequest transaction of
             Inl t \<Rightarrow> Some (Some t, s)
           | Inr request \<Rightarrow>
               (let (now, s) = sock (q_now Q) s;
                    s = emit ((raw_event now ''tx'' ''request'' ''0x00c2'' transaction request)\<lparr>qe_Description := ''bounded scan cleanup''\<rparr>) s;
                    (e, s) = sendQRTR Q request (qrtr_address (qs_Node server) (qs_Port server)) s
                in case e of Some t \<Rightarrow> Some (Some t, s) | None \<Rightarrow> abort_loop Q server transaction 12 s)))"

section \<open>The scan\<close>

text \<open>The receive loop answers the error, with whether it is \<^verbatim>\<open>context.Canceled\<close>, and \<^verbatim>\<open>scanMayBeActive\<close>.\<close>

fun scan_loop :: "'d qrtr \<Rightarrow> qrtrServer \<Rightarrow> qrtr_answer list \<Rightarrow> bool \<Rightarrow> 'd scan \<Rightarrow> ((fault option \<times> bool) \<times> 'd scan) option" where
  "scan_loop Q server [] responseSeen s =
     Some ((if responseSeen then None else Some (''NAS 0x0085 response not received: context canceled'', True), True), s)"
| "scan_loop Q server (a # as) responseSeen s =
     (case recvQRTR 65535 a of
        Interrupted \<Rightarrow> scan_loop Q server as responseSeen s
      | RecvError t \<Rightarrow> Some ((Some (''receive NAS 0x0085: '' @ t, False), True), s)
      | Datagram packet from \<Rightarrow>
          if \<not> from_server server from packet then scan_loop Q server as responseSeen s
          else do {
            (p, e) \<leftarrow> parseQMIPacket packet;
            if e \<noteq> None \<or> qp_message p \<noteq> qmiIncrementalScan then scan_loop Q server as responseSeen s
            else let (now, s) = sock (q_now Q) s; event = raw_event now ''rx'' [] ''0x0085'' (qp_transaction p) packet in
              if qp_flags p = qmiFlagResponse then do {
                r \<leftarrow> qmiResult packet;
                case r of
                  Inl t \<Rightarrow> Some ((Some (t, False), True), s)
                | Inr (result, qmiError) \<Rightarrow>
                    let s = emit (event\<lparr>qe_Kind := ''response'', qe_Result := Some result, qe_Error := Some qmiError\<rparr>) s in
                    if result \<noteq> 0 then Some ((Some (''NAS 0x0085 rejected: QMI error '' @ utoa (unat qmiError), False), False), s)
                    else scan_loop Q server as True s }
              else if qp_flags p = qmiFlagIndication then do {
                r \<leftarrow> indicationStatus packet;
                case r of
                  Inl t \<Rightarrow> Some ((Some (t, False), True), s)
                | Inr status \<Rightarrow>
                    let s = emit (event\<lparr>qe_Kind := ''indication'', qe_ScanStatus := status\<rparr>) s in
                    if status = Some 0 \<or> status = Some 2 then Some ((None, False), s)
                    else scan_loop Q server as responseSeen s }
              else scan_loop Q server as responseSeen s })"

text \<open>The loop and the deferred abort.\<close>

definition scan_guarded :: "'d qrtr \<Rightarrow> qrtrServer \<Rightarrow> 'd scan \<Rightarrow> (fault option \<times> 'd scan) option" where
  "scan_guarded Q server s =
     (let (as, s) = sock (q_until_done Q) s in do {
        ((e, active), s) \<leftarrow> scan_loop Q server as False s;
        if \<not> active then Some (e, s)
        else do {
          (abortErr, s) \<leftarrow> abortNRScan Q server 2 s;
          Some (case (abortErr, e) of (Some t, None) \<Rightarrow> Some (t, False) | _ \<Rightarrow> e, s) } })"

definition plain :: "string \<Rightarrow> fault option" where "plain t = Some (t, False)"

definition runRawNRScan :: "'d qrtr \<Rightarrow> u32 list \<Rightarrow> u32 \<Rightarrow> 'd scan \<Rightarrow> (fault option \<times> 'd scan) option" where
  "runRawNRScan Q arfcns scanType s =
     (case makeNRIncrementalScanRequest 1 arfcns scanType of
        Inl t \<Rightarrow> Some (plain t, s)
      | Inr request \<Rightarrow>
     (let (e, s) = sock (q_socket Q) s in
      case e of Some t \<Rightarrow> Some (plain (''open AF_QIPCRTR socket: '' @ t), s) | None \<Rightarrow>
     (let (e, s) = setQRTRTimeout Q (250 * Millisecond) s in
      case e of Some t \<Rightarrow> Some (plain t, s) | None \<Rightarrow>
     (let (local, s) = getQRTRSockName Q s in
      case local of Inl t \<Rightarrow> Some (plain t, s) | Inr local \<Rightarrow> do {
        (r, s) \<leftarrow> lookupNAS Q local s;
        case r of
          Inl t \<Rightarrow> Some (plain t, s)
        | Inr server \<Rightarrow>
            (let (now, s) = sock (q_now Q) s;
                 s = emit ((raw_event now ''tx'' ''request'' ''0x0085'' 1 request)
                       \<lparr>qe_Description := ''NAS node='' @ utoa (unat (qs_Node server)) @ '' port='' @ utoa (unat (qs_Port server))\<rparr>) s;
                 (e, s) = sendQRTR Q request (qrtr_address (qs_Node server) (qs_Port server)) s
             in case e of
                  Some t \<Rightarrow> Some (plain (''send NAS 0x0085: '' @ t), s)
                | None \<Rightarrow> scan_guarded Q server s) }))))"

section \<open>What ends a scan\<close>

text \<open>The packet an event was emitted for.\<close>

definition event_packet :: "qmiEvent \<Rightarrow> byte list \<Rightarrow> qmi_packet \<Rightarrow> bool" where
  "event_packet ev packet p \<longleftrightarrow> qe_Raw ev = hex_EncodeToString packet \<and> parseQMIPacket packet = Some (p, None)"

definition completed :: "qmiEvent \<Rightarrow> bool" where
  "completed ev \<longleftrightarrow> (\<exists>packet p st. event_packet ev packet p \<and> qp_flags p = qmiFlagIndication \<and> qp_message p = qmiIncrementalScan \<and>
     indicationStatus packet = Some (Inr (Some st)) \<and> (st = 0 \<or> st = 2))"

definition refused :: "qmiEvent \<Rightarrow> bool" where
  "refused ev \<longleftrightarrow> (\<exists>packet p r q. event_packet ev packet p \<and> qp_flags p = qmiFlagResponse \<and> qp_message p = qmiIncrementalScan \<and>
     qmiResult packet = Some (Inr (r, q)) \<and> r \<noteq> 0)"

definition aborted :: "qmiEvent \<Rightarrow> bool" where
  "aborted ev \<longleftrightarrow> (\<exists>packet p q. event_packet ev packet p \<and> qp_flags p = qmiFlagResponse \<and> qp_message p = qmiAbortNetworkScan \<and>
     qp_transaction p = 2 \<and> qmiResult packet = Some (Inr (0, q)))"

text \<open>Messages and events were added.\<close>

definition scanned :: "'d scan \<Rightarrow> (byte list \<times> sockaddrQRTR) list \<Rightarrow> qmiEvent list \<Rightarrow> 'd scan \<Rightarrow> bool" where
  "scanned s sent evs s' \<longleftrightarrow> sc_sent s' = sc_sent s @ sent \<and> sc_emitted s' = sc_emitted s @ evs"

lemma scanned_refl [simp]: "scanned s [] [] s"
  by (simp add: scanned_def)

lemma scanned_trans: "scanned s sent evs t \<Longrightarrow> scanned t sent' evs' u \<Longrightarrow> scanned s (sent @ sent') (evs @ evs') u"
  by (simp add: scanned_def)

lemma scanned_sock: "sock f s = (x, s') \<Longrightarrow> scanned s [] [] s'"
  by (auto simp: sock_def scanned_def split: prod.splits)

lemma scanned_emit: "scanned s [] [ev] (emit ev s)"
  by (simp add: emit_def scanned_def)

lemma sendQRTR_scanned: "sendQRTR Q payload to s = (e, s') \<Longrightarrow> scanned s (if e = None then [(payload, to)] else []) [] s'"
  by (auto simp: sendQRTR_def scanned_def sock_def Let_def split: prod.splits if_splits)

lemma lookup_reply_total: "\<exists>r. lookup_reply packet = Some r"
proof (cases "length packet < 20")
  case False
  then have l: "20 \<le> int (length packet)" by simp
  obtain a b c d e where "slice packet 0 4 \<bind> uint32le = Some a" "slice packet 4 8 \<bind> uint32le = Some b"
    "slice packet 8 12 \<bind> uint32le = Some c" "slice packet 12 16 \<bind> uint32le = Some d" "slice packet 16 20 \<bind> uint32le = Some e"
    using slice_uint32le [of 0 4 packet] slice_uint32le [of 4 8 packet] slice_uint32le [of 8 12 packet]
      slice_uint32le [of 12 16 packet] slice_uint32le [of 16 20 packet] l by auto
  with False show ?thesis by (simp add: lookup_reply_def)
qed (simp add: lookup_reply_def)

lemma lookup_loop_scanned: "\<exists>r s'. lookup_loop Q n s = Some (r, s') \<and> scanned s [] [] s'"
proof (induction n arbitrary: s)
  case (Suc n)
  obtain a s1 where a: "sock (q_recv Q) s = (a, s1)" by fastforce
  have s1: "scanned s [] [] s1" using scanned_sock [OF a] .
  obtain r s' where "lookup_loop Q n s1 = Some (r, s')" "scanned s1 [] [] s'" using Suc by blast
  with scanned_trans [OF s1 this(2)] have rest: "\<exists>r s'. lookup_loop Q n s1 = Some (r, s') \<and> scanned s [] [] s'" by simp
  show ?case
  proof (cases "recvQRTR 256 a")
    case (Datagram packet fr)
    obtain r where r: "lookup_reply packet = Some r" using lookup_reply_total by blast
    show ?thesis using a s1 rest r Datagram by (cases r) simp_all
  qed (use a s1 rest in simp_all)
qed simp

lemma abort_loop_scanned:
  "\<exists>e s' evs. abort_loop Q server 2 n s = Some (e, s') \<and> scanned s [] evs s' \<and> (e = None \<longrightarrow> list_ex aborted evs)"
proof (induction n arbitrary: s)
  case (Suc n)
  obtain a s1 where a: "sock (q_recv Q) s = (a, s1)" by fastforce
  have s1: "scanned s [] [] s1" using scanned_sock [OF a] .
  obtain e s' evs where "abort_loop Q server 2 n s1 = Some (e, s')" "scanned s1 [] evs s'" "e = None \<longrightarrow> list_ex aborted evs" using Suc by blast
  with scanned_trans [OF s1 this(2)]
  have rest: "\<exists>e s' evs. abort_loop Q server 2 n s1 = Some (e, s') \<and> scanned s [] evs s' \<and> (e = None \<longrightarrow> list_ex aborted evs)" by auto
  show ?case
  proof (cases "recvQRTR 65535 a")
    case (Datagram packet fr)
    obtain p t where p: "parseQMIPacket packet = Some (p, t)" using parseQMIPacket_total by blast
    show ?thesis
    proof (cases "from_server server fr packet \<and> t = None \<and> qp_flags p = qmiFlagResponse \<and> qp_transaction p = 2 \<and> qp_message p = qmiAbortNetworkScan")
      case True
      obtain r where r: "qmiResult packet = Some r" using first_tlv_total by blast
      show ?thesis
      proof (cases r)
        case (Inl u)
        with True a s1 p r Datagram show ?thesis by auto
      next
        case (Inr rq)
        obtain res q where rq: "rq = (res, q)" by fastforce
        obtain now s2 where n: "sock (q_now Q) s1 = (now, s2)" by fastforce
        let ?ev = "(raw_event now ''rx'' ''response'' ''0x00c2'' 2 packet)\<lparr>qe_Result := Some res, qe_Error := Some q\<rparr>"
        have "scanned s [] [?ev] (emit ?ev s2)"
          using scanned_trans [OF s1 scanned_trans [OF scanned_sock [OF n] scanned_emit [of s2 ?ev]]] by simp
        moreover have "res = 0 \<Longrightarrow> aborted ?ev"
          using True p r Inr rq by (auto simp: aborted_def event_packet_def raw_event_def)
        ultimately show ?thesis using True a p r Inr rq n Datagram by auto
      qed
    qed (use a p rest Datagram in auto)
  qed (use a s1 rest in auto)
qed (auto intro: scanned_refl)

definition loop_end :: "'d scan \<Rightarrow> ((fault option \<times> bool) \<times> 'd scan) option \<Rightarrow> bool" where
  "loop_end s r \<longleftrightarrow> (\<exists>e act s' evs. r = Some ((e, act), s') \<and> scanned s [] evs s' \<and>
     (\<not> act \<longrightarrow> e = None \<and> list_ex completed evs \<or> e \<noteq> None \<and> list_ex refused evs))"

lemma loop_end_here: "scanned s [] evs s' \<Longrightarrow> act \<or> e = None \<and> list_ex completed evs \<or> e \<noteq> None \<and> list_ex refused evs \<Longrightarrow>
    loop_end s (Some ((e, act), s'))"
  unfolding loop_end_def by blast

lemma loop_end_active [simp]: "loop_end s (Some ((e, True), s))"
  by (rule loop_end_here [OF scanned_refl]) simp

lemma loop_end_later:
  assumes "scanned s [] evs t" and "loop_end t r"
  shows "loop_end s r"
proof -
  obtain e act s' evs' where r: "r = Some ((e, act), s')" "scanned t [] evs' s'"
    "\<not> act \<longrightarrow> e = None \<and> list_ex completed evs' \<or> e \<noteq> None \<and> list_ex refused evs'"
    using assms(2) by (auto simp: loop_end_def)
  have "scanned s [] (evs @ evs') s'" using scanned_trans [OF assms(1) r(2)] by simp
  then show ?thesis unfolding r(1) using r(3) by (intro loop_end_here) auto
qed

lemma scan_loop_scanned: "loop_end s (scan_loop Q server as seen s)"
proof (induction as arbitrary: seen s)
  case Nil
  show ?case by simp
next
  case (Cons a as)
  note rest = Cons.IH
  show ?case
  proof (cases "recvQRTR 65535 a")
    case (Datagram packet fr)
    obtain p t where p: "parseQMIPacket packet = Some (p, t)" using parseQMIPacket_total by blast
    show ?thesis
    proof (cases "from_server server fr packet \<and> t = None \<and> qp_message p = qmiIncrementalScan")
      case True
      obtain now s1 where n: "sock (q_now Q) s = (now, s1)" by fastforce
      note s1 = scanned_sock [OF n]
      let ?ev = "raw_event now ''rx'' [] ''0x0085'' (qp_transaction p) packet"
      have em: "scanned s [] [ev] (emit ev s1)" for ev using scanned_trans [OF s1 scanned_emit [of s1 ev]] by simp
      obtain r where r: "qmiResult packet = Some r" using first_tlv_total by blast
      obtain i where i: "indicationStatus packet = Some i" using first_tlv_total by blast
      consider "qp_flags p = qmiFlagResponse" | "qp_flags p = qmiFlagIndication" "qp_flags p \<noteq> qmiFlagResponse"
        | "qp_flags p \<noteq> qmiFlagResponse" "qp_flags p \<noteq> qmiFlagIndication" by blast
      then show ?thesis
      proof cases
        case 1
        show ?thesis
        proof (cases r)
          case (Inl u)
          then show ?thesis using 1 True Datagram p n r loop_end_here [OF s1, of True "Some (u, False)"] by simp
        next
          case (Inr rq)
          obtain res q where rq: "rq = (res, q)" by fastforce
          let ?e = "?ev\<lparr>qe_Kind := ''response'', qe_Result := Some res, qe_Error := Some q\<rparr>"
          have "refused ?e" if "res \<noteq> 0" using 1 True p r Inr rq that by (auto simp: refused_def event_packet_def raw_event_def)
          then have "loop_end s (Some ((Some (t, False), False), emit ?e s1))" if "res \<noteq> 0" for t
            using that by (intro loop_end_here [OF em]) simp
          with 1 True Datagram p n r Inr rq loop_end_later [OF em rest] show ?thesis by (simp add: Let_def)
        qed
      next
        case 2
        show ?thesis
        proof (cases i)
          case (Inl u)
          then show ?thesis using 2 True Datagram p n i loop_end_here [OF s1, of True "Some (u, False)"] by simp
        next
          case (Inr st)
          let ?e = "?ev\<lparr>qe_Kind := ''indication'', qe_ScanStatus := st\<rparr>"
          have "completed ?e" if "st = Some 0 \<or> st = Some 2" using 2 True p i Inr that by (auto simp: completed_def event_packet_def raw_event_def)
          then have "loop_end s (Some ((None, False), emit ?e s1))" if "st = Some 0 \<or> st = Some 2"
            using that by (intro loop_end_here [OF em]) simp
          with 2 True Datagram p n i Inr loop_end_later [OF em rest] show ?thesis by (simp add: Let_def)
        qed
      next
        case 3
        then show ?thesis using True Datagram p n loop_end_later [OF s1 rest] by simp
      qed
    qed (use Datagram p rest in auto)
  qed (use rest in simp_all)
qed

lemma makeAbortRequest_ok: "\<exists>p. makeAbortRequest t = Inr p"
  by (simp add: makeAbortRequest_def makeQMIRequest_iff)

text \<open>The socket may refuse the time limit of the abort or the abort itself.\<close>

definition abort_blocked :: "'d qrtr \<Rightarrow> byte list \<Rightarrow> sockaddrQRTR \<Rightarrow> bool" where
  "abort_blocked Q request to \<longleftrightarrow> (\<exists>d. fst (q_timeout Q (500 * Millisecond) d) \<noteq> None \<or> fst (q_sendto Q request to d) \<noteq> None)"

lemma abortNRScan_scanned:
  assumes m: "makeAbortRequest 2 = Inr request" and to: "to = qrtr_address (qs_Node server) (qs_Port server)"
  shows "\<exists>e s' sent evs. abortNRScan Q server 2 s = Some (e, s') \<and> scanned s sent evs s' \<and>
    (sent = [(request, to)] \<or> sent = [] \<and> e \<noteq> None \<and> abort_blocked Q request to) \<and> (e = None \<longrightarrow> list_ex aborted evs)"
proof -
  obtain e1 s1 where t: "setQRTRTimeout Q (500 * Millisecond) s = (e1, s1)" by fastforce
  have s1: "scanned s [] [] s1" using t by (auto simp: setQRTRTimeout_def dest: scanned_sock)
  show ?thesis
  proof (cases e1)
    case (Some u)
    then have "abort_blocked Q request to"
      using t by (auto simp: setQRTRTimeout_def sock_def abort_blocked_def split: prod.splits intro!: exI [of _ "sc_dev s"])
    with Some t s1 show ?thesis by (auto simp: abortNRScan_def)
  next
    case None
    obtain now s2 where n: "sock (q_now Q) s1 = (now, s2)" by fastforce
    let ?ev = "(raw_event now ''tx'' ''request'' ''0x00c2'' 2 request)\<lparr>qe_Description := ''bounded scan cleanup''\<rparr>"
    obtain e3 s3 where x: "sendQRTR Q request to (emit ?ev s2) = (e3, s3)" by fastforce
    have s3: "scanned s (if e3 = None then [(request, to)] else []) [?ev] s3"
      using scanned_trans [OF s1 scanned_trans [OF scanned_sock [OF n] scanned_trans [OF scanned_emit sendQRTR_scanned [OF x]]]] by simp
    show ?thesis
    proof (cases e3)
      case (Some u)
      have "request \<noteq> []" using m by (auto simp: makeAbortRequest_def makeQMIRequest_iff)
      then have "abort_blocked Q request to"
        using x Some by (auto simp: sendQRTR_def sock_def Let_def abort_blocked_def split: prod.splits intro!: exI [of _ "sc_dev (emit ?ev s2)"])
      moreover have "abortNRScan Q server 2 s = Some (Some u, s3)" using None Some t n x m to by (simp add: abortNRScan_def)
      ultimately show ?thesis using s3 Some by fastforce
    next
      case e3: None
      obtain e4 s4 evs where l: "abort_loop Q server 2 12 s3 = Some (e4, s4)" "scanned s3 [] evs s4" "e4 = None \<longrightarrow> list_ex aborted evs"
        using abort_loop_scanned by blast
      have "abortNRScan Q server 2 s = Some (e4, s4)" using None e3 t n x m to l(1) by (simp add: abortNRScan_def)
      moreover have "scanned s [(request, to)] (?ev # evs) s4" using scanned_trans [OF s3 l(2)] e3 by simp
      ultimately show ?thesis using l(3) by fastforce
    qed
  qed
qed

definition scan_outcome :: "'d qrtr \<Rightarrow> byte list \<Rightarrow> sockaddrQRTR \<Rightarrow> (byte list \<times> sockaddrQRTR) list \<Rightarrow> qmiEvent list \<Rightarrow> fault option \<Rightarrow> bool" where
  "scan_outcome Q request to sent evs e \<longleftrightarrow> (sent = [] \<or> sent = [(request, to)]) \<and>
     (list_ex completed evs \<or> list_ex refused evs \<or> sent = [(request, to)] \<or> abort_blocked Q request to) \<and>
     (e = None \<longrightarrow> list_ex completed evs \<or> list_ex aborted evs)"

lemma scan_outcome_more: "scan_outcome Q request to sent evs e \<Longrightarrow> scan_outcome Q request to sent (evs' @ evs) e"
  by (auto simp: scan_outcome_def)

lemma scan_guarded_scanned:
  assumes a: "makeAbortRequest 2 = Inr request" and to: "to = qrtr_address (qs_Node server) (qs_Port server)"
  shows "\<exists>e s' sent evs. scan_guarded Q server s = Some (e, s') \<and> scanned s sent evs s' \<and> scan_outcome Q request to sent evs e"
proof -
  obtain as s1 where d: "sock (q_until_done Q) s = (as, s1)" by fastforce
  obtain e act s2 evs where l: "scan_loop Q server as False s1 = Some ((e, act), s2)" "scanned s1 [] evs s2"
    "\<not> act \<longrightarrow> e = None \<and> list_ex completed evs \<or> e \<noteq> None \<and> list_ex refused evs"
    using scan_loop_scanned [of s1 Q server as False] by (auto simp: loop_end_def)
  have s2: "scanned s [] evs s2" using scanned_trans [OF scanned_sock [OF d] l(2)] by simp
  show ?thesis
  proof (cases act)
    case False
    with l(3) have "scan_outcome Q request to [] evs e" by (auto simp: scan_outcome_def)
    moreover have "scan_guarded Q server s = Some (e, s2)" using False d l(1) by (simp add: scan_guarded_def)
    ultimately show ?thesis using s2 by blast
  next
    case True
    obtain e3 s3 sent evs' where b: "abortNRScan Q server 2 s2 = Some (e3, s3)" "scanned s2 sent evs' s3"
      "sent = [(request, to)] \<or> sent = [] \<and> e3 \<noteq> None \<and> abort_blocked Q request to" "e3 = None \<longrightarrow> list_ex aborted evs'"
      using abortNRScan_scanned [OF a to] by blast
    have "scanned s sent (evs @ evs') s3" using scanned_trans [OF s2 b(2)] by simp
    moreover have "scan_guarded Q server s = Some (case (e3, e) of (Some t, None) \<Rightarrow> Some (t, False) | _ \<Rightarrow> e, s3)"
      using True d l(1) b(1) by (simp add: scan_guarded_def)
    moreover have "scan_outcome Q request to sent (evs @ evs') (case (e3, e) of (Some t, None) \<Rightarrow> Some (t, False) | _ \<Rightarrow> e)"
      using b(3,4) by (cases e3; cases e) (auto simp: scan_outcome_def)
    ultimately show ?thesis by blast
  qed
qed

lemma lookupNAS_scanned:
  "\<exists>r s' sent. lookupNAS Q local s = Some (r, s') \<and> scanned s sent [] s' \<and> length sent \<le> 1 \<and> (\<not> isl r \<longrightarrow> length sent = 1)"
proof -
  obtain e s1 where x: "sendQRTR Q lookup_request (qrtr_address (sq_Node local) qrtrPortCtrl) s = (e, s1)" by fastforce
  note s1 = sendQRTR_scanned [OF x]
  obtain r s2 where l: "lookup_loop Q 64 s1 = Some (r, s2)" "scanned s1 [] [] s2" using lookup_loop_scanned by blast
  show ?thesis
  proof (cases e)
    case (Some t)
    with x s1 show ?thesis by (auto simp: lookupNAS_def)
  next
    case None
    with scanned_trans [OF s1 l(2)] x l(1) show ?thesis by (auto simp: lookupNAS_def)
  qed
qed

lemma sock_steps_scanned:
  "setQRTRTimeout Q d s = (x, s') \<Longrightarrow> scanned s [] [] s'" "getQRTRSockName Q s = (y, s') \<Longrightarrow> scanned s [] [] s'"
  by (auto simp: setQRTRTimeout_def getQRTRSockName_def dest: scanned_sock)

text \<open>The messages of a scan: nothing, the lookup, or the lookup and the request with what \<open>scan_outcome\<close> says of the rest.\<close>

definition scan_ended :: "'d qrtr \<Rightarrow> u32 list \<Rightarrow> u32 \<Rightarrow> 'd scan \<Rightarrow> (fault option \<times> 'd scan) option \<Rightarrow> bool" where
  "scan_ended Q arfcns k s r \<longleftrightarrow> (\<exists>e s' sent evs. r = Some (e, s') \<and> scanned s sent evs s' \<and>
     (e \<noteq> None \<and> length sent \<le> 1 \<or>
      (\<exists>request abort lookup to rest. makeNRIncrementalScanRequest 1 arfcns k = Inr request \<and> makeAbortRequest 2 = Inr abort \<and>
        sent = lookup # (request, to) # rest \<and> scan_outcome Q abort to rest evs e)))"

lemma scan_ended_early: "scanned s sent evs s' \<Longrightarrow> length sent \<le> 1 \<Longrightarrow> scan_ended Q arfcns k s (Some (plain t, s'))"
  unfolding scan_ended_def plain_def by blast

lemma scan_sends:
  assumes req: "makeNRIncrementalScanRequest 1 arfcns k = Inr request" and b: "scanned s sent [] s1" "length sent = 1"
    and to: "to = qrtr_address (qs_Node server) (qs_Port server)" and x: "sendQRTR Q request to (emit ev s1) = (e, s2)"
  shows "scan_ended Q arfcns k s (case e of Some t \<Rightarrow> Some (plain (''send NAS 0x0085: '' @ t), s2) | None \<Rightarrow> scan_guarded Q server s2)"
proof -
  have s2: "scanned s (sent @ (if e = None then [(request, to)] else [])) [ev] s2"
    using scanned_trans [OF b(1) scanned_trans [OF scanned_emit sendQRTR_scanned [OF x]]] by simp
  show ?thesis
  proof (cases e)
    case (Some t)
    with scan_ended_early [OF s2] b(2) show ?thesis by simp
  next
    case None
    obtain abort where a: "makeAbortRequest 2 = Inr abort" using makeAbortRequest_ok by blast
    obtain f s3 rest evs where g: "scan_guarded Q server s2 = Some (f, s3)" "scanned s2 rest evs s3" "scan_outcome Q abort to rest evs f"
      using scan_guarded_scanned [OF a to] by blast
    obtain l where "sent = [l]" using b(2) by (auto simp: length_Suc_conv)
    then have "scanned s (l # (request, to) # rest) ([ev] @ evs) s3" using scanned_trans [OF s2 g(2)] None by simp
    moreover have "scan_outcome Q abort to rest ([ev] @ evs) f" by (rule scan_outcome_more [OF g(3)])
    ultimately have "scan_ended Q arfcns k s (Some (f, s3))" unfolding scan_ended_def using req a by blast
    with None g(1) show ?thesis by simp
  qed
qed

lemma runRawNRScan_ended: "scan_ended Q arfcns k s (runRawNRScan Q arfcns k s)"
proof (cases "makeNRIncrementalScanRequest 1 arfcns k")
  case (Inl t)
  then show ?thesis using scan_ended_early [OF scanned_refl] by (simp add: runRawNRScan_def)
next
  case (Inr request)
  obtain e1 s1 where s1: "sock (q_socket Q) s = (e1, s1)" by fastforce
  obtain e2 s2 where s2: "setQRTRTimeout Q (250 * Millisecond) s1 = (e2, s2)" by fastforce
  obtain lo s3 where s3: "getQRTRSockName Q s2 = (lo, s3)" by fastforce
  note k1 = scanned_sock [OF s1]
  note k2 = scanned_trans [OF k1 sock_steps_scanned(1) [OF s2], simplified]
  note k3 = scanned_trans [OF k2 sock_steps_scanned(2) [OF s3], simplified]
  consider t where "e1 = Some t" | t where "e1 = None" "e2 = Some t" | t where "e1 = None" "e2 = None" "lo = Inl t"
    | local where "e1 = None" "e2 = None" "lo = Inr local" by (cases e1; cases e2; cases lo) auto
  then show ?thesis
  proof cases
    case (4 local)
    obtain r s4 sent where l: "lookupNAS Q local s3 = Some (r, s4)" "scanned s3 sent [] s4" "length sent \<le> 1" "\<not> isl r \<longrightarrow> length sent = 1"
      using lookupNAS_scanned by blast
    have k4: "scanned s sent [] s4" using scanned_trans [OF k3 l(2)] by simp
    show ?thesis
    proof (cases r)
      case (Inl t)
      with 4 Inr s1 s2 s3 l scan_ended_early [OF k4 l(3)] show ?thesis by (simp add: runRawNRScan_def)
    next
      case r: (Inr server)
      obtain now s5 where n: "sock (q_now Q) s4 = (now, s5)" by fastforce
      have k5: "scanned s sent [] s5" using scanned_trans [OF k4 scanned_sock [OF n]] by simp
      let ?ev = "(raw_event now ''tx'' ''request'' ''0x0085'' 1 request)
        \<lparr>qe_Description := ''NAS node='' @ utoa (unat (qs_Node server)) @ '' port='' @ utoa (unat (qs_Port server))\<rparr>"
      obtain e6 s6 where x: "sendQRTR Q request (qrtr_address (qs_Node server) (qs_Port server)) (emit ?ev s5) = (e6, s6)" by fastforce
      have "length sent = 1" using l(4) r by simp
      from scan_sends [OF Inr k5 this refl x] show ?thesis
        using 4 Inr s1 s2 s3 l(1) r n x by (simp add: runRawNRScan_def Let_def del: append.simps append_Cons)
    qed
  qed (use Inr s1 s2 s3 scan_ended_early [OF k1] scan_ended_early [OF k2] scan_ended_early [OF k3] in \<open>simp_all add: runRawNRScan_def\<close>)
qed

section \<open>Property\<close>

text \<open>A network scan that was requested is ended.  Whatever the socket answers, the run ends without a panic and sends at
  most the lookup, the request and one abort.  Once the request was sent, either the modem refused it, or it
  reported the scan complete, or the abort was sent to the same service, unless the socket refused the
  abort itself.  A run that reports no error has seen the completion or a positive response to the abort.\<close>
theorem raw_scan_ends:
  "\<exists>e s' sent evs. runRawNRScan Q arfcns k s = Some (e, s') \<and> sc_sent s' = sc_sent s @ sent \<and> sc_emitted s' = sc_emitted s @ evs \<and>
     length sent \<le> 3 \<and>
     (e = None \<longrightarrow> list_ex completed evs \<or> list_ex aborted evs) \<and>
     (2 \<le> length sent \<longrightarrow> (\<exists>request to abort. makeNRIncrementalScanRequest 1 arfcns k = Inr request \<and> sent ! 1 = (request, to) \<and>
        makeAbortRequest 2 = Inr abort \<and>
        (list_ex completed evs \<or> list_ex refused evs \<or> drop 2 sent = [(abort, to)] \<or> abort_blocked Q abort to)))"
proof -
  obtain e s' sent evs where r: "runRawNRScan Q arfcns k s = Some (e, s')" "scanned s sent evs s'"
    "e \<noteq> None \<and> length sent \<le> 1 \<or>
      (\<exists>request abort lookup to rest. makeNRIncrementalScanRequest 1 arfcns k = Inr request \<and> makeAbortRequest 2 = Inr abort \<and>
        sent = lookup # (request, to) # rest \<and> scan_outcome Q abort to rest evs e)"
    using runRawNRScan_ended [of Q arfcns k s] unfolding scan_ended_def by blast
  from r(3) show ?thesis
  proof
    assume "e \<noteq> None \<and> length sent \<le> 1"
    with r(1,2) show ?thesis unfolding scanned_def by (intro exI conjI) auto
  next
    assume "\<exists>request abort lookup to rest. makeNRIncrementalScanRequest 1 arfcns k = Inr request \<and> makeAbortRequest 2 = Inr abort \<and>
        sent = lookup # (request, to) # rest \<and> scan_outcome Q abort to rest evs e"
    then obtain request abort lookup to rest where x: "makeNRIncrementalScanRequest 1 arfcns k = Inr request" "makeAbortRequest 2 = Inr abort"
      "sent = lookup # (request, to) # rest" "scan_outcome Q abort to rest evs e" by blast
    then have "length sent \<le> 3" "e = None \<longrightarrow> list_ex completed evs \<or> list_ex aborted evs"
      "list_ex completed evs \<or> list_ex refused evs \<or> drop 2 sent = [(abort, to)] \<or> abort_blocked Q abort to" "sent ! 1 = (request, to)"
      by (auto simp: scan_outcome_def)
    with r(1,2) x(1,2) show ?thesis unfolding scanned_def by blast
  qed
qed

text \<open>A modem that answers the lookup and reports the scan complete.\<close>

definition sample_qrtr :: "unit qrtr" where
  "sample_qrtr = \<lparr>q_socket = \<lambda>d. (None, d), q_timeout = \<lambda>_ d. (None, d), q_sockname = \<lambda>d. (Inr (qrtr_address 1 2), d),
     q_sendto = \<lambda>_ _ d. (None, d),
     q_recv = \<lambda>d. (Datagram (put32 4 @ put32 3 @ put32 1 @ put32 7 @ put32 9) (qrtr_address 7 1), d),
     q_until_done = \<lambda>d. ([Datagram [4, 0, 0, 0x85, 0, 7, 0, 1, 4, 0, 0, 0, 0, 0] (qrtr_address 7 9)], d), q_now = \<lambda>d. (0, d)\<rparr>"

lemma sample_scan_completes:
  "\<exists>s'. runRawNRScan sample_qrtr [504990] 2 \<lparr>sc_sent = [], sc_emitted = [], sc_dev = ()\<rparr> = Some (None, s')"
proof -
  let ?server = "\<lparr>qs_Version = 1, qs_Instance = 0, qs_Node = 7, qs_Port = 9\<rparr>"
  let ?packet = "[4, 0, 0, 0x85, 0, 7, 0, 1, 4, 0, 0, 0, 0, 0] :: byte list"
  have a: "sock f s = (fst (f ()), s)" for f and s :: "unit scan" by (cases s) (simp add: sock_def split: prod.split)
  have b: "lookup_reply (put32 4 @ put32 3 @ put32 1 @ put32 7 @ put32 9) = Some (Some ?server)" by code_simp
  have c: "makeNRIncrementalScanRequest 1 [504990] 2 \<noteq> Inl t" for t using scan_request_made [of "[504990]" 2 1] by auto
  have d: "map_option (\<lambda>(p, e). (qp_flags p, qp_message p, e)) (parseQMIPacket ?packet) = Some (qmiFlagIndication, qmiIncrementalScan, None)"
    "indicationStatus ?packet = Some (Inr (Some 0))" "qmiFlagIndication \<noteq> qmiFlagResponse" by code_simp+
  obtain p where p: "parseQMIPacket ?packet = Some (p, None)" "qp_flags p = qmiFlagIndication" "qp_message p = qmiIncrementalScan"
    using d(1) by auto
  have l: "lookup_loop sample_qrtr 64 s = Some (Inr ?server, s)" for s
    using b by (simp add: numeral_eq_Suc a sample_qrtr_def recvQRTR_def)
  have g: "\<exists>s'. scan_guarded sample_qrtr ?server s = Some (None, s')" for s
    using p d(2,3) by (simp add: scan_guarded_def a sample_qrtr_def recvQRTR_def from_server_def qrtr_address_def Let_def)
  obtain request where r: "makeNRIncrementalScanRequest 1 [504990] 2 = Inr request"
    using c by (cases "makeNRIncrementalScanRequest 1 [504990] 2") auto
  have n: "request \<noteq> []" using r by (auto simp: makeNRIncrementalScanRequest_def makeQMIRequest_iff split: if_splits option.splits)
  have x: "\<exists>s'. sendQRTR sample_qrtr v to s = (None, s')" if "v \<noteq> []" for v to s
    using that by (simp add: sendQRTR_def a sample_qrtr_def Let_def)
  have "lookup_request \<noteq> []" by (simp add: lookup_request_def put32_def)
  from x [OF this] obtain s1 where "sendQRTR sample_qrtr lookup_request (qrtr_address (sq_Node (qrtr_address 1 2)) qrtrPortCtrl)
    \<lparr>sc_sent = [], sc_emitted = [], sc_dev = ()\<rparr> = (None, s1)" by blast
  then have "lookupNAS sample_qrtr (qrtr_address 1 2) \<lparr>sc_sent = [], sc_emitted = [], sc_dev = ()\<rparr> = Some (Inr ?server, s1)"
    using l by (simp add: lookupNAS_def)
  moreover obtain s2 where "sendQRTR sample_qrtr request (qrtr_address 7 9) (emit ((raw_event 0 ''tx'' ''request'' ''0x0085'' 1 request)
      \<lparr>qe_Description := ''NAS node='' @ utoa (unat (qs_Node ?server)) @ '' port='' @ utoa (unat (qs_Port ?server))\<rparr>) s1) = (None, s2)"
    using x [OF n] by blast
  moreover have "fst (q_socket sample_qrtr ()) = None" "fst (q_timeout sample_qrtr t ()) = None" "fst (q_sockname sample_qrtr ()) = Inr (qrtr_address 1 2)"
    "fst (q_now sample_qrtr ()) = 0" for t by (simp_all add: sample_qrtr_def)
  ultimately show ?thesis
    using g [of s2] by (simp add: runRawNRScan_def r setQRTRTimeout_def getQRTRSockName_def a Let_def del: append.simps append_Cons)
qed

theorem raw_scan_ends_witness:
  "\<exists>s' evs. runRawNRScan sample_qrtr [504990] 2 \<lparr>sc_sent = [], sc_emitted = [], sc_dev = ()\<rparr> = Some (None, s') \<and>
     sc_emitted s' = evs \<and> (list_ex completed evs \<or> list_ex aborted evs)"
proof -
  obtain s' where "runRawNRScan sample_qrtr [504990] 2 \<lparr>sc_sent = [], sc_emitted = [], sc_dev = ()\<rparr> = Some (None, s')"
    using sample_scan_completes by blast
  with raw_scan_ends [of sample_qrtr "[504990]" 2 "\<lparr>sc_sent = [], sc_emitted = [], sc_dev = ()\<rparr>"] show ?thesis by auto
qed

end
