(* ===== verification/Probe_Runner.thy ===== *)
theory Probe_Runner
  imports Probe_Scan
begin

text \<open>
  \<^verbatim>\<open>tools/u60-nr-crossband-probe/runner.go\<close> and \<^verbatim>\<open>runRecoverCommand\<close> of \<^verbatim>\<open>device.go\<close>: one experiment as a transaction over the
  network settings and the trace masks of the modem, and the recovery from its journal.

  The goroutine of the experiment's action is a list of steps; \<^verbatim>\<open>select\<close> of the monitor is a list of
  events, chosen by the host, in which the steps of the goroutine are interleaved at any point
  (\<open>EvProgress\<close>).  The two share nothing but the record of events, so a step is atomic for the monitor.  The
  list ends with the deadline.  When the goroutine outlives the cleanup its call in flight is in the log
  with an unknown outcome, and it is taken not to return any more: its context is cancelled, so no later call
  of it starts a command.
\<close>

section \<open>Data\<close>

record runOptions =
  ro_Experiment :: experimentID
  ro_Target :: targetSpec
  ro_ConfigPath :: string
  ro_WorkDir :: string
  ro_StatePath :: string
  ro_DiagMDLog :: string
  ro_UBUS :: string
  ro_QCRILStart :: string
  ro_QCRILStop :: string
  ro_QMITracePath :: string
  ro_Window :: int
  ro_Settle :: int
  ro_AcquisitionPause :: int
  ro_Poll :: int
  ro_StopGrace :: int
  ro_FileSizeMB :: int
  ro_FileCount :: int
  ro_MinMemoryBytes :: u64
  ro_MinWorkFreeBytes :: u64
  ro_KeepCaptures :: bool

record resourceSample =
  sm_At :: int
  sm_MemAvailableBytes :: u64
  sm_WorkFreeBytes :: u64
  sm_CaptureBytes :: int

record experimentRecord =
  xr_Schema :: int
  xr_ToolVersion :: string
  xr_RunID :: string
  xr_Experiment :: "experimentID option"
  xr_Description :: string
  xr_StartedAt :: int
  xr_FinishedAt :: int
  xr_ServingBefore :: "networkSnapshot option"
  xr_ServingAfterRestore :: "networkSnapshot option"
  xr_Target :: "targetSpec option"
  xr_QMIEvents :: "qmiEvent list"
  xr_Actions :: "actionEvent list"
  xr_ML1Results :: "ml1Result list"
  xr_QSHEvidence :: "qshEvidence list"
  xr_FirstTargetHitMS :: "int option"
  xr_QSHFrameCount :: nat
  xr_ActiveHashCount :: nat
  xr_MalformedFrameCount :: nat
  xr_QMDLBytes :: int
  xr_CaptureDurationMS :: int
  xr_NetworkInterrupted :: bool
  xr_RestoreDurationMS :: int
  xr_RestoreSucceeded :: bool
  xr_Result :: string
  xr_FailureReason :: string
  xr_QCRILPathVerified :: bool
  xr_QCRILPathEvidence :: string
  xr_QMITracePath :: string
  xr_QMITraceComplete :: bool
  xr_QMITraceError :: string
  xr_ResourceSamples :: "resourceSample list"
  xr_CaptureDirectory :: string

definition zero_record :: experimentRecord where
  "zero_record = \<lparr>xr_Schema = 0, xr_ToolVersion = [], xr_RunID = [], xr_Experiment = None, xr_Description = [], xr_StartedAt = zero_time,
     xr_FinishedAt = zero_time, xr_ServingBefore = None, xr_ServingAfterRestore = None, xr_Target = None, xr_QMIEvents = [], xr_Actions = [],
     xr_ML1Results = [], xr_QSHEvidence = [], xr_FirstTargetHitMS = None, xr_QSHFrameCount = 0, xr_ActiveHashCount = 0, xr_MalformedFrameCount = 0,
     xr_QMDLBytes = 0, xr_CaptureDurationMS = 0, xr_NetworkInterrupted = False, xr_RestoreDurationMS = 0, xr_RestoreSucceeded = False, xr_Result = [],
     xr_FailureReason = [], xr_QCRILPathVerified = False, xr_QCRILPathEvidence = [], xr_QMITracePath = [], xr_QMITraceComplete = False,
     xr_QMITraceError = [], xr_ResourceSamples = [], xr_CaptureDirectory = []\<rparr>"

record experimentPlan =
  pl_ID :: experimentID
  pl_ControlPath :: string
  pl_NetworkDisruption :: bool
  pl_RequiresQCRILDriver :: bool
  pl_SuccessCondition :: string
  pl_Limitation :: string

definition defaultExperimentPlans :: "experimentPlan list" where
  "defaultExperimentPlans =
    [\<lparr>pl_ID = experimentA, pl_ControlPath = ''raw NAS 0x0085 advanced request with NGRAN + one ARFCN'', pl_NetworkDisruption = False,
       pl_RequiresQCRILDriver = False, pl_SuccessCondition = ''ML1 result hash 0xd8f582a8 reports the target ARFCN'', pl_Limitation = []\<rparr>,
     \<lparr>pl_ID = experimentB, pl_ControlPath = ''complete QCRIL startNetworkScan through an external socket/HAL driver'', pl_NetworkDisruption = False,
       pl_RequiresQCRILDriver = True, pl_SuccessCondition = ''captured QCRIL QMI differs materially from A and ML1 searches the target'',
       pl_Limitation = ''reverse engineering shows ONE_SHOT drops Band/channel before NAS 0x0085''\<rparr>,
     \<lparr>pl_ID = experimentC, pl_ControlPath = ''temporarily restrict NR to the target Band; do not explicitly force acquisition'', pl_NetworkDisruption = True,
       pl_RequiresQCRILDriver = False, pl_SuccessCondition = ''ML1 searches the target ARFCN without an explicit acquisition restart'',
       pl_Limitation = ''U60 QCRIL setSystemSelectionChannels maps Band only; channel is ignored; the vendor Band setter may itself trigger reselection''\<rparr>,
     \<lparr>pl_ID = experimentD, pl_ControlPath = ''target Band restriction followed by automatic reselection'', pl_NetworkDisruption = True,
       pl_RequiresQCRILDriver = False, pl_SuccessCondition = ''first valid target ML1 result after reselection'', pl_Limitation = []\<rparr>,
     \<lparr>pl_ID = experimentE, pl_ControlPath = ''target Band only, briefly remove NR service, then enable NR; stop at first hit'', pl_NetworkDisruption = True,
       pl_RequiresQCRILDriver = False, pl_SuccessCondition = ''first valid target PCI/RSRP before full registration'', pl_Limitation = []\<rparr>,
     \<lparr>pl_ID = experimentF, pl_ControlPath = ''known PCI+ARFCN+Band cell lock and NR registration positive control'', pl_NetworkDisruption = True,
       pl_RequiresQCRILDriver = False, pl_SuccessCondition = ''known target becomes serving or produces a valid ML1 result'', pl_Limitation = []\<rparr>]"

definition experimentDescription :: "experimentID \<Rightarrow> string" where
  "experimentDescription x = (case find (\<lambda>plan. pl_ID plan = x) defaultExperimentPlans of Some plan \<Rightarrow> pl_ControlPath plan | None \<Rightarrow> [])"

section \<open>The host\<close>

datatype exit_answer = Exited | ExitError | WaitError string

datatype monitor_event = EvContext string | EvAction | EvDeadline | EvTick | EvProgress

text \<open>\<open>h_cleanup\<close> answers, for the four seconds after the cancellation: how many steps the goroutine still takes, whether the
  timer is chosen, and whether the next call is in flight then.\<close>

record 'd run_host = "'d probe_host" +
  h_sha256 :: "byte list \<Rightarrow> string"
  h_pidof :: "'d \<Rightarrow> (err \<times> string) \<times> 'd"
  h_open :: "string \<Rightarrow> 'd \<Rightarrow> err \<times> 'd"
  h_flock :: "string \<Rightarrow> 'd \<Rightarrow> err \<times> 'd"
  h_unlock :: "string \<Rightarrow> 'd \<Rightarrow> unit \<times> 'd"
  h_start :: "string list \<Rightarrow> 'd \<Rightarrow> err \<times> 'd"
  h_terminate :: "int \<Rightarrow> 'd \<Rightarrow> bool \<times> 'd"
  h_exited :: "'d \<Rightarrow> exit_answer \<times> 'd"
  h_mkdtemp :: "string \<Rightarrow> 'd \<Rightarrow> (string + string) \<times> 'd"
  h_meminfo :: "'d \<Rightarrow> text_file \<times> 'd"
  h_statfs :: "string \<Rightarrow> 'd \<Rightarrow> (string + u64 \<times> u64) \<times> 'd"
  h_walk :: "string \<Rightarrow> 'd \<Rightarrow> (string \<times> int option) list \<times> 'd"
  h_readdir :: "string \<Rightarrow> 'd \<Rightarrow> (string \<times> bool) list \<times> 'd"
  h_captures :: "'d \<Rightarrow> (string \<Rightarrow> capture_file) \<times> 'd"
  h_text :: "string \<Rightarrow> 'd \<Rightarrow> text_file \<times> 'd"
  h_far :: "gofloat \<Rightarrow> int"
  h_shell :: "string \<Rightarrow> string list \<Rightarrow> 'd \<Rightarrow> (fault option \<times> string) \<times> 'd"
  h_ctx_done :: "'d \<Rightarrow> bool \<times> 'd"
  h_schedule :: "'d \<Rightarrow> monitor_event list \<times> 'd"
  h_cleanup :: "'d \<Rightarrow> (nat \<times> bool \<times> bool) \<times> 'd"
  h_qrtr :: "'d qrtr"

definition read_file :: "('d, 'x) probe_host_scheme \<Rightarrow> string \<Rightarrow> 'd probe \<Rightarrow> (string + byte list) \<times> 'd probe" where
  "read_file H path s =
     (case pb_files s path of
        None \<Rightarrow> (Inl (''open '' @ path @ '': no such file or directory''), s)
      | Some data \<Rightarrow> (let (e, s) = ask (h_read H path) s in (case e of Some t \<Rightarrow> Inl t | None \<Rightarrow> Inr data, s)))"

section \<open>The logger\<close>

definition ensureNoDiagMDLog :: "'d run_host \<Rightarrow> 'd probe \<Rightarrow> err \<times> 'd probe" where
  "ensureNoDiagMDLog H s =
     (let ((e, output), s) = ask (h_pidof H) s in
      if e \<noteq> None \<and> output = [] then (None, s)
      else if TrimSpace output \<noteq> []
      then (Some (''diag_mdlog is already running (pid '' @ Join (Fields output) '','' @ ''); stop it explicitly''), s)
      else (None, s))"

definition startDiagMDLog :: "'d run_host \<Rightarrow> runOptions \<Rightarrow> string \<Rightarrow> string \<Rightarrow> string \<Rightarrow> 'd probe \<Rightarrow> err \<times> 'd probe" where
  "startDiagMDLog H options configPath outputDir logPath s =
     (let (e, s) = ensureNoDiagMDLog H s in
      case e of Some t \<Rightarrow> (Some t, s) | None \<Rightarrow>
     (let (e, s) = ask (h_mkdir H outputDir) s in
      case e of Some t \<Rightarrow> (Some t, s) | None \<Rightarrow>
     (let (e, s) = ask (h_open H logPath) s in
      case e of Some t \<Rightarrow> (Some t, s) | None \<Rightarrow>
     (let (e, s) = ask (h_start H [ro_DiagMDLog options, ''-f'', configPath, ''-o'', outputDir, ''-s'', Itoa (ro_FileSizeMB options),
                          ''-n'', Itoa (ro_FileCount options), ''-d'']) s
      in case e of Some t \<Rightarrow> (Some t, s) | None \<Rightarrow> (None, note_event (Launch (pb_files s configPath)) s)))))"

text \<open>\<^verbatim>\<open>SIGTERM\<close>, and \<^verbatim>\<open>SIGKILL\<close> when the process is still there after the grace; then its end is awaited.  An exit error is
  expected.  Every process is stopped once, so \<^verbatim>\<open>process.command\<close> is set.\<close>

definition stop_process :: "'d run_host \<Rightarrow> int \<Rightarrow> 'd probe \<Rightarrow> err \<times> 'd probe" where
  "stop_process H grace s =
     (let (in_time, s) = ask (h_terminate H grace) s; (x, s) = ask (h_exited H) s in
      (case x of WaitError t \<Rightarrow> Some t | _ \<Rightarrow> None, note_event Halt s))"

definition waitContext :: "('d, 'x) probe_host_scheme \<Rightarrow> int \<Rightarrow> 'd probe \<Rightarrow> fault option \<times> 'd probe" where
  "waitContext H duration s = ask (h_wait H duration) s"

definition restoreProductionTrace :: "'d run_host \<Rightarrow> runOptions \<Rightarrow> string \<Rightarrow> 'd probe \<Rightarrow> err \<times> 'd probe" where
  "restoreProductionTrace H options runDir s =
     (let (e, s) = ensureNoDiagMDLog H s in
      case e of Some t \<Rightarrow> (Some t, s) | None \<Rightarrow>
     (let restoreDir = path_join runDir ''trace-restore'';
          (e, s) = startDiagMDLog H (options\<lparr>ro_FileSizeMB := 1, ro_FileCount := 1\<rparr>) (ro_ConfigPath options) restoreDir
                     (path_join runDir ''trace-restore.log'') s
      in case e of Some t \<Rightarrow> (Some t, s) | None \<Rightarrow>
     (let (waitErr, s) = waitContext H (350 * Millisecond) s;
          (stopErr, s) = stop_process H (ro_StopGrace options) s;
          s = s\<lparr>pb_files := remove_all restoreDir (pb_files s)\<rparr>;
          (now, s) = ask (h_now H) s;
          e = join_errors (map_option fst waitErr) stopErr;
          s = append_action \<lparr>ac_At = now, ac_Action = ''restore-production-qsh-mask'', ac_Request = [(''config'', ro_ConfigPath options)],
                ac_Response = None, ac_Error = (case e of Some t \<Rightarrow> t | None \<Rightarrow> [])\<rparr> s
      in (e, s))))"

section \<open>Resources\<close>

definition qmdl_suffix :: "string \<Rightarrow> bool" where
  "qmdl_suffix name \<longleftrightarrow> HasSuffix name ''.qmdl''"

definition findQMDLFiles :: "'d run_host \<Rightarrow> string \<Rightarrow> 'd probe \<Rightarrow> string list \<times> 'd probe" where
  "findQMDLFiles H dir s =
     (let (items, s) = ask (h_readdir H dir) s in
      (sort_key (map code) (map (\<lambda>(name, isDir). path_join dir name) (filter (\<lambda>(name, isDir). \<not> isDir \<and> qmdl_suffix name) items)), s))"

definition analyze_capture :: "'d run_host \<Rightarrow> string \<Rightarrow> targetSpec \<Rightarrow> 'd probe \<Rightarrow> ((qmdlMetrics \<times> err) \<times> 'd probe) option" where
  "analyze_capture H dir target s =
     (let (paths, s) = findQMDLFiles H dir s; (fs, s) = ask (h_captures H) s in do {
        r \<leftarrow> analyzeQMDLFiles fs paths target;
        Some (r, s) })"

definition mebi :: "u64 \<Rightarrow> string" where "mebi n = utoa (unat (n div 1024 div 1024))"

definition resourcePreflight :: "'d run_host \<Rightarrow> runOptions \<Rightarrow> 'd probe \<Rightarrow> err \<times> 'd probe" where
  "resourcePreflight H options s =
     (let (file, s) = ask (h_meminfo H) s in
      case readMemAvailable file of
        Inl t \<Rightarrow> (Some (''read MemAvailable: '' @ t), s)
      | Inr memory \<Rightarrow>
          (let (fs, s) = ask (h_statfs H (ro_WorkDir options)) s in
           case workFreeBytes fs of
             Inl t \<Rightarrow> (Some (''read work directory free space: '' @ t), s)
           | Inr free \<Rightarrow>
               if memory < ro_MinMemoryBytes options
               then (Some (''MemAvailable '' @ mebi memory @ '' MiB is below fuse '' @ mebi (ro_MinMemoryBytes options) @ '' MiB''), s)
               else if free < ro_MinWorkFreeBytes options
               then (Some (''work free space '' @ mebi free @ '' MiB is below fuse '' @ mebi (ro_MinWorkFreeBytes options) @ '' MiB''), s)
               else (None, s)))"

definition sampleResources :: "'d run_host \<Rightarrow> runOptions \<Rightarrow> string \<Rightarrow> 'd probe \<Rightarrow> (resourceSample \<times> err) \<times> 'd probe" where
  "sampleResources H options captureDir s =
     (let (file, s) = ask (h_meminfo H) s; memory = readMemAvailable file;
          (fs, s) = ask (h_statfs H (ro_WorkDir options)) s; free = workFreeBytes fs;
          (now, s) = ask (h_now H) s;
          (items, s) = ask (h_walk H captureDir) s;
          value_of = (\<lambda>r. case r of Inl _ \<Rightarrow> 0 | Inr n \<Rightarrow> n);
          error_of = (\<lambda>r. case r of Inl t \<Rightarrow> Some t | Inr _ \<Rightarrow> None)
      in ((\<lparr>sm_At = now, sm_MemAvailableBytes = value_of memory, sm_WorkFreeBytes = value_of free, sm_CaptureBytes = directoryBytes items\<rparr>,
           join_errors (error_of memory) (error_of free)), s))"

section \<open>The action\<close>

definition nrBandKind :: "networkSnapshot \<Rightarrow> string" where
  "nrBandKind sn = (if Contains (ToUpper (sn_NetworkType sn)) ''NSA'' then ''NSA'' else ''SA'')"

definition markRecoveryAction :: "('d, 'x) probe_host_scheme \<Rightarrow> string \<Rightarrow> fault option \<Rightarrow> recoveryState \<Rightarrow> 'd probe \<Rightarrow> recoveryState \<times> 'd probe" where
  "markRecoveryAction H act e st s =
     (let st = (case e of
                  Some (t, _) \<Rightarrow> st\<lparr>rs_LastError := t, rs_Stage := act @ ''-failed''\<rparr>
                | None \<Rightarrow> st\<lparr>rs_CompletedActions := rs_CompletedActions st @ [act], rs_Stage := act\<rparr>);
          (_, st, s) = writeState H st s
      in (st, s))"

definition join_faults :: "fault option \<Rightarrow> fault option \<Rightarrow> fault option" where
  "join_faults a b =
     (case (a, b) of
        (Some (t, c), Some (u, d)) \<Rightarrow> Some (t @ [CHR 0x0A] @ u, c \<or> d)
      | (None, x) \<Rightarrow> x
      | (x, None) \<Rightarrow> x)"

definition output_map :: "string \<Rightarrow> any_map option" where
  "output_map out = Some [''output'' \<mapsto> AString (TrimSpace out)]"

definition runExternalQCRIL :: "'d run_host \<Rightarrow> runOptions \<Rightarrow> 'd probe \<Rightarrow> fault option \<times> 'd probe" where
  "runExternalQCRIL H options s =
     (let band = utoa (unat (tg_Band (ro_Target options))); arfcn = utoa (unat (tg_ARFCN (ro_Target options)));
          ((e, out), s) = ask (h_shell H (ro_QCRILStart options)
             [''U60_TARGET_RAT=NGRAN'', ''U60_TARGET_BAND='' @ band, ''U60_TARGET_ARFCN='' @ arfcn, ''U60_SCAN_TYPE=ONE_SHOT'']) s;
          (now, s) = ask (h_now H) s;
          s = append_action \<lparr>ac_At = now, ac_Action = ''external-qcril-start'', ac_Request = [(''band'', band), (''arfcn'', arfcn), (''type'', ''ONE_SHOT'')],
                ac_Response = output_map out, ac_Error = (case e of Some (t, False) \<Rightarrow> t | _ \<Rightarrow> [])\<rparr> s;
          (err, s) = (case e of
                        None \<Rightarrow> (None, s)
                      | Some f \<Rightarrow> (let (cancelled, s) = ask (h_ctx_done H) s in (if cancelled then None else Some f, s)))
      in if TrimSpace (ro_QCRILStop options) = [] then (err, s)
         else let ((stopErr, stopOut), s) = ask (h_shell H (ro_QCRILStop options) []) s;
                  (now, s) = ask (h_now H) s;
                  s = append_action \<lparr>ac_At = now, ac_Action = ''external-qcril-stop'', ac_Request = [], ac_Response = output_map stopOut,
                        ac_Error = (case stopErr of Some (t, _) \<Rightarrow> t | None \<Rightarrow> [])\<rparr> s
              in (join_faults err stopErr, s))"

datatype action_step = StepScan | StepExternal | StepBand string string | StepSelect string string | StepLock u32 string | StepPause

text \<open>The cases of \<^verbatim>\<open>startExperimentAction\<close>: each step is taken when the one before it reported no error.  \<open>None\<close> is the nil
  dereference of the target PCI.\<close>

definition experiment_steps :: "runOptions \<Rightarrow> networkSnapshot \<Rightarrow> action_step list option" where
  "experiment_steps options sn =
     (case ro_Experiment options of
        experimentA \<Rightarrow> Some [StepScan]
      | experimentB \<Rightarrow> Some [StepExternal]
      | experimentC \<Rightarrow> Some [StepBand (nrBandKind sn) ''target-band-applied'']
      | experimentD \<Rightarrow> Some [StepBand (nrBandKind sn) ''target-band-applied'',
          StepSelect (if sn_NetSelect sn = [] then ''WL_AND_5G'' else sn_NetSelect sn) ''automatic-reselection-requested'']
      | experimentE \<Rightarrow> Some [StepSelect ''Only_LTE'' ''nr-temporarily-disabled'', StepPause, StepBand ''SA'' ''target-band-applied'',
          StepSelect ''Only_5G'' ''target-nr-acquisition-started'']
      | experimentF \<Rightarrow>
          (case tg_PCI (ro_Target options) of
             None \<Rightarrow> None
           | Some pci \<Rightarrow> Some [StepLock pci ''known-target-cell-lock-applied'', StepSelect ''Only_5G'' ''positive-control-acquisition-started'']))"

definition with_mark :: "('d, 'x) probe_host_scheme \<Rightarrow> string \<Rightarrow> recoveryState \<Rightarrow> fault option \<times> 'd probe \<Rightarrow> fault option \<times> recoveryState \<times> 'd probe" where
  "with_mark H act st r = (let (e, s) = r; (st, s) = markRecoveryAction H act e st s in (e, st, s))"

fun run_step :: "'d run_host \<Rightarrow> runOptions \<Rightarrow> action_step \<Rightarrow> recoveryState \<Rightarrow> 'd probe \<Rightarrow> (fault option \<times> recoveryState \<times> 'd probe) option" where
  "run_step H options StepScan st s = do {
     (e, sc) \<leftarrow> runRawNRScan (h_qrtr H) [tg_ARFCN (ro_Target options)] 2 \<lparr>sc_sent = [], sc_emitted = [], sc_dev = pb_dev s\<rparr>;
     Some (e, st, foldl (\<lambda>s ev. appendQMI ev s) (s\<lparr>pb_dev := sc_dev sc\<rparr>) (sc_emitted sc)) }"
| "run_step H options StepExternal st s = (let (e, s) = runExternalQCRIL H options s in Some (e, st, s))"
| "run_step H options (StepBand kind act) st s = Some (with_mark H act st (setNRBand H kind (utoa (unat (tg_Band (ro_Target options)))) s))"
| "run_step H options (StepSelect mode act) st s = Some (with_mark H act st (setNetSelect H mode s))"
| "run_step H options (StepLock pci act) st s =
     Some (with_mark H act st (setNRCellLock H (utoa (unat pci)) (utoa (unat (tg_ARFCN (ro_Target options)))) (utoa (unat (tg_Band (ro_Target options)))) s))"
| "run_step H options StepPause st s = (let (e, s) = waitContext H (ro_AcquisitionPause options) s in Some (e, st, s))"

text \<open>The call that a step may have in flight.\<close>

fun in_flight :: "runOptions \<Rightarrow> action_step \<Rightarrow> probe_event list" where
  "in_flight options (StepBand kind act) =
     [Call ''nwinfo_set_nrbandlock'' [(''nr5g_type'', ToUpper kind), (''nr5g_band'', utoa (unat (tg_Band (ro_Target options))))] False]"
| "in_flight options (StepSelect mode act) = [Call ''nwinfo_set_netselect'' [(''net_select'', mode)] False]"
| "in_flight options (StepLock pci act) =
     [Call ''nwinfo_lock_nr_cell'' [(''lock_nr_pci'', utoa (unat pci)), (''lock_nr_earfcn'', utoa (unat (tg_ARFCN (ro_Target options)))),
        (''lock_nr_cell_band'', utoa (unat (tg_Band (ro_Target options))))] False]"
| "in_flight options _ = []"

section \<open>The monitor\<close>

record 'd monitor =
  mo_steps :: "action_step list"
  mo_channel :: "fault option option"
  mo_open :: bool
  mo_st :: recoveryState
  mo_pb :: "'d probe"
  mo_metrics :: qmdlMetrics
  mo_samples :: "resourceSample list"
  mo_hit :: "int option"
  mo_actionErr :: "fault option"
  mo_failure :: string

definition action_progress :: "'d run_host \<Rightarrow> runOptions \<Rightarrow> 'd monitor \<Rightarrow> 'd monitor option" where
  "action_progress H options mo =
     (case mo_steps mo of
        [] \<Rightarrow> Some mo
      | step # rest \<Rightarrow> do {
          (e, st, s) \<leftarrow> run_step H options step (mo_st mo) (mo_pb mo);
          Some (mo\<lparr>mo_st := st, mo_pb := s, mo_steps := if e = None then rest else [],
            mo_channel := if e \<noteq> None \<or> rest = [] then Some e else mo_channel mo\<rparr>) })"

definition not_canceled :: "fault option \<Rightarrow> bool" where
  "not_canceled e \<longleftrightarrow> (case e of Some (_, c) \<Rightarrow> \<not> c | None \<Rightarrow> False)"

definition fault_text :: "fault option \<Rightarrow> string" where
  "fault_text e = (case e of Some (t, _) \<Rightarrow> t | None \<Rightarrow> [])"

definition expired :: "'d monitor \<Rightarrow> 'd monitor" where
  "expired mo = mo\<lparr>mo_failure := ''measurement window expired without a valid target result''\<rparr>"

text \<open>A tick answers whether the monitor goes on.\<close>

definition monitor_tick :: "'d run_host \<Rightarrow> runOptions \<Rightarrow> string \<Rightarrow> int \<Rightarrow> 'd monitor \<Rightarrow> (bool \<times> 'd monitor) option" where
  "monitor_tick H options qmdlDir startTime mo =
     (let ((sample, e), s) = sampleResources H options qmdlDir (mo_pb mo); mo = mo\<lparr>mo_pb := s\<rparr> in
      case e of
        Some t \<Rightarrow> Some (False, mo\<lparr>mo_failure := ''resource monitoring failed: '' @ t\<rparr>)
      | None \<Rightarrow>
          (let mo = mo\<lparr>mo_samples := mo_samples mo @ [sample]\<rparr> in
           if sm_MemAvailableBytes sample < ro_MinMemoryBytes options \<or> sm_WorkFreeBytes sample < ro_MinWorkFreeBytes options
           then Some (False, mo\<lparr>mo_failure := ''low-memory/free-space fuse triggered''\<rparr>)
           else do {
             ((current, parseErr), s) \<leftarrow> analyze_capture H qmdlDir (ro_Target options) (mo_pb mo);
             let mo = mo\<lparr>mo_pb := s\<rparr>;
             if parseErr \<noteq> None then Some (True, mo)
             else let mo = mo\<lparr>mo_metrics := current\<rparr> in
               if hasTargetResult (mt_Results current) (ro_Target options)
               then let (now, s) = ask (h_now H) (mo_pb mo) in
                 Some (False, mo\<lparr>mo_pb := s, mo_hit := Some (Milliseconds (now - startTime))\<rparr>)
               else Some (True, mo) }))"

fun monitor_loop :: "'d run_host \<Rightarrow> runOptions \<Rightarrow> string \<Rightarrow> int \<Rightarrow> monitor_event list \<Rightarrow> 'd monitor \<Rightarrow> 'd monitor option" where
  "monitor_loop H options qmdlDir startTime [] mo = Some (expired mo)"
| "monitor_loop H options qmdlDir startTime (EvDeadline # evs) mo = Some (expired mo)"
| "monitor_loop H options qmdlDir startTime (EvContext t # evs) mo = Some (mo\<lparr>mo_failure := t\<rparr>)"
| "monitor_loop H options qmdlDir startTime (EvAction # evs) mo =
     (case mo_channel mo of
        Some e \<Rightarrow>
          if \<not> mo_open mo then monitor_loop H options qmdlDir startTime evs mo
          else if not_canceled e
          then Some (mo\<lparr>mo_open := False, mo_actionErr := e, mo_failure := ''experiment action failed: '' @ fault_text e\<rparr>)
          else monitor_loop H options qmdlDir startTime evs (mo\<lparr>mo_open := False\<rparr>)
      | None \<Rightarrow> monitor_loop H options qmdlDir startTime evs mo)"
| "monitor_loop H options qmdlDir startTime (EvTick # evs) mo = do {
     (more, mo) \<leftarrow> monitor_tick H options qmdlDir startTime mo;
     if more then monitor_loop H options qmdlDir startTime evs mo else Some mo }"
| "monitor_loop H options qmdlDir startTime (EvProgress # evs) mo = do {
     mo \<leftarrow> action_progress H options mo;
     monitor_loop H options qmdlDir startTime evs mo }"

fun action_run :: "'d run_host \<Rightarrow> runOptions \<Rightarrow> nat \<Rightarrow> 'd monitor \<Rightarrow> 'd monitor option" where
  "action_run H options 0 mo = Some mo"
| "action_run H options (Suc n) mo = do { mo \<leftarrow> action_progress H options mo; action_run H options n mo }"

definition cleanup_timeout :: "runOptions \<Rightarrow> bool \<Rightarrow> 'd monitor \<Rightarrow> 'd monitor" where
  "cleanup_timeout options flying mo =
     (let s = mo_pb mo; events = (case mo_steps mo of step # _ \<Rightarrow> if flying then in_flight options step else [] | [] \<Rightarrow> []) in
      mo\<lparr>mo_pb := s\<lparr>pb_log := pb_log s @ events\<rparr>,
         mo_actionErr := join_faults (mo_actionErr mo) (Some (''action cleanup timed out'', False))\<rparr>)"

text \<open>After \<^verbatim>\<open>cancelAction\<close>: the result of the goroutine, or the timer.\<close>

definition await_action :: "'d run_host \<Rightarrow> runOptions \<Rightarrow> 'd monitor \<Rightarrow> 'd monitor option" where
  "await_action H options mo =
     (if \<not> mo_open mo then Some mo
      else let ((n, timer, flying), s) = ask (h_cleanup H) (mo_pb mo) in do {
        mo \<leftarrow> action_run H options n (mo\<lparr>mo_pb := s\<rparr>);
        case mo_channel mo of
          Some e \<Rightarrow>
            if timer then Some (cleanup_timeout options flying mo)
            else Some (if not_canceled e then mo\<lparr>mo_actionErr := e\<rparr> else mo)
        | None \<Rightarrow> Some (cleanup_timeout options flying mo) })"

section \<open>Concluding\<close>

definition joinReason :: "string \<Rightarrow> string \<Rightarrow> string" where
  "joinReason current nxt = (if current = [] then nxt else current @ ''; '' @ nxt)"

text \<open>The events of the hook log that belong to the run.\<close>

definition correlate_trace :: "'d run_host \<Rightarrow> runOptions \<Rightarrow> int \<Rightarrow> experimentRecord \<Rightarrow> 'd probe \<Rightarrow> experimentRecord \<times> 'd probe" where
  "correlate_trace H options offset rec s =
     (if ro_QMITracePath options = [] then (rec, s)
      else let (file, s) = ask (h_text H (ro_QMITracePath options)) s;
               (now, s) = ask (h_now H) s;
               (events, e) = readCCITraceEvents (h_far H) now file offset;
               e = (case e of None \<Rightarrow> validateCCITraceWindow (ro_QMITracePath options) events | Some t \<Rightarrow> Some t)
           in case e of
                Some t \<Rightarrow> (rec\<lparr>xr_QMITraceError := t\<rparr>, s)
              | None \<Rightarrow>
                  (rec\<lparr>xr_QMITraceComplete := True,
                     xr_QCRILPathVerified := if ro_Experiment options = experimentB \<and> hasQMIRequest events ''3'' ''0x0085'' then True
                       else xr_QCRILPathVerified rec\<rparr>,
                   s\<lparr>pb_QMIEvents := map_option (\<lambda>evs. evs @ events) (pb_QMIEvents s)\<rparr>))"

fun stamp_results :: "'d run_host \<Rightarrow> ml1Result list \<Rightarrow> 'd probe \<Rightarrow> ml1Result list \<times> 'd probe" where
  "stamp_results H [] s = ([], s)"
| "stamp_results H (r # rs) s =
     (let (now, s) = ask (h_now H) s; (rs, s) = stamp_results H rs s in (r\<lparr>ml_ObservedAt := Some now\<rparr> # rs, s))"

definition report_metrics :: "qmdlMetrics \<Rightarrow> ml1Result list \<Rightarrow> experimentRecord \<Rightarrow> experimentRecord" where
  "report_metrics metrics results rec = rec\<lparr>xr_ML1Results := results, xr_QSHEvidence := mt_Evidence metrics, xr_QSHFrameCount := mt_QSHFrameCount metrics,
     xr_ActiveHashCount := mt_ActiveHashCount metrics, xr_MalformedFrameCount := mt_MalformedFrameCount metrics, xr_QMDLBytes := mt_QMDLBytes metrics\<rparr>"

text \<open>The restore of the trace masks, then of the network, then the removal of the journal.\<close>

definition restore_trace :: "'d run_host \<Rightarrow> runOptions \<Rightarrow> string \<Rightarrow> recoveryState \<Rightarrow> 'd probe \<Rightarrow> err \<times> recoveryState \<times> 'd probe" where
  "restore_trace H options runDir st s =
     (let (traceErr, s) = restoreProductionTrace H options runDir s in
      case traceErr of
        Some t \<Rightarrow> (Some t, st, s)
      | None \<Rightarrow>
          (let st = st\<lparr>rs_TraceRestoreRequired := False, rs_CompletedActions := rs_CompletedActions st @ [''production-qsh-mask-restored''],
                      rs_Stage := ''trace-restored''\<rparr>;
               (_, st, s) = writeState H st s
           in (None, st, s)))"

definition restore_settings :: "('d, 'x) probe_host_scheme \<Rightarrow> bool \<Rightarrow> recoveryState \<Rightarrow> 'd probe \<Rightarrow> err \<times> recoveryState \<times> 'd probe" where
  "restore_settings H changed st s =
     (if changed then restoreNetwork H st s
      else let (_, st, s) = writeState H (st\<lparr>rs_Stage := ''network-unchanged''\<rparr>) s in (None, st, s))"

definition close_journal :: "('d, 'x) probe_host_scheme \<Rightarrow> string \<Rightarrow> recoveryState \<Rightarrow> 'd probe \<Rightarrow> err \<times> recoveryState \<times> 'd probe" where
  "close_journal H path st s =
     (let (e, st, s) = writeState H (st\<lparr>rs_Status := ''restored'', rs_Stage := ''complete'', rs_LastError := []\<rparr>) s in
      case e of
        Some t \<Rightarrow> (Some t, st, s)
      | None \<Rightarrow>
          (let (r, s) = remove_file H path s in
           (case r of Removed \<Rightarrow> None | NotExist \<Rightarrow> None | RemoveFailed t \<Rightarrow> Some t, st, s)))"

definition verdict :: "runOptions \<Rightarrow> string \<Rightarrow> err \<Rightarrow> err \<Rightarrow> err \<Rightarrow> err \<Rightarrow> experimentRecord \<Rightarrow> experimentRecord" where
  "verdict options failure actionErr parseErr restoreErr traceErr rec =
     (let rec = (if hasTargetResult (xr_ML1Results rec) (ro_Target options) \<and> actionErr = None \<and> parseErr = None \<and> restoreErr = None \<and> traceErr = None
                 then rec\<lparr>xr_Result := ''success''\<rparr>
                 else rec\<lparr>xr_Result := ''failed'',
                        xr_FailureReason := if failure \<noteq> [] then failure
                          else (case actionErr of Some t \<Rightarrow> t | None \<Rightarrow> (case parseErr of Some t \<Rightarrow> t | None \<Rightarrow> ''no valid target ML1 result''))\<rparr>);
          rec = (case actionErr of Some t \<Rightarrow> if xr_FailureReason rec = [] then rec\<lparr>xr_FailureReason := t\<rparr> else rec | None \<Rightarrow> rec);
          rec = (case restoreErr of Some t \<Rightarrow> rec\<lparr>xr_FailureReason := joinReason (xr_FailureReason rec) (''network restore failed: '' @ t)\<rparr> | None \<Rightarrow> rec)
      in case traceErr of Some t \<Rightarrow> rec\<lparr>xr_FailureReason := joinReason (xr_FailureReason rec) (''QSH mask restore failed: '' @ t)\<rparr> | None \<Rightarrow> rec)"

text \<open>What the deferred function finds: the results, whether a process runs, and \<^verbatim>\<open>traceApplied\<close>.\<close>

record 'd finish =
  fi_record :: experimentRecord
  fi_err :: err
  fi_process :: bool
  fi_trace :: bool
  fi_st :: recoveryState
  fi_pb :: "'d probe"

definition conclude :: "'d run_host \<Rightarrow> runOptions \<Rightarrow> string \<Rightarrow> string \<Rightarrow> int \<Rightarrow> int \<Rightarrow> experimentRecord \<Rightarrow> 'd monitor \<Rightarrow> 'd finish option" where
  "conclude H options runDir qmdlDir startTime offset rec mo =
     (let rec = rec\<lparr>xr_ResourceSamples := mo_samples mo, xr_FirstTargetHitMS := mo_hit mo\<rparr>;
          actionErr = map_option fst (mo_actionErr mo);
          (rec, s) = correlate_trace H options offset rec (mo_pb mo);
          (_, s) = stop_process H (ro_StopGrace options) s
      in do {
        ((final, parseErr), s) \<leftarrow> analyze_capture H qmdlDir (ro_Target options) s;
        let metrics = (if parseErr = None then final else mo_metrics mo);
        let (results, s) = stamp_results H (mt_Results metrics) s;
        let rec = report_metrics metrics results rec;
        let (now, s) = ask (h_now H) s;
        let rec = rec\<lparr>xr_CaptureDurationMS := Milliseconds (now - startTime)\<rparr>;
        let (traceErr, st, s) = restore_trace H options runDir (mo_st mo) s;
        let (restoreStart, s) = ask (h_now H) s;
        let (restoreErr, st, s) = restore_settings H (changes_network (ro_Experiment options)) st s;
        let (restoreErr, st, s) = (if restoreErr = None \<and> traceErr = None then close_journal H (ro_StatePath options) st s else (restoreErr, st, s));
        let (now, s) = ask (h_now H) s;
        let rec = rec\<lparr>xr_RestoreDurationMS := Milliseconds (now - restoreStart), xr_RestoreSucceeded := restoreErr = None \<and> traceErr = None\<rparr>;
        let (after, s) = snapshot H s;
        let rec = (case after of Inr sn \<Rightarrow> rec\<lparr>xr_ServingAfterRestore := Some sn\<rparr> | Inl _ \<Rightarrow> rec);
        let rec = verdict options (mo_failure mo) actionErr parseErr restoreErr traceErr rec;
        let (now, s) = ask (h_now H) s;
        let rec = rec\<lparr>xr_FinishedAt := now\<rparr>;
        let (rec, s) = (if ro_KeepCaptures options then (rec, s)
                        else (rec\<lparr>xr_CaptureDirectory := []\<rparr>, s\<lparr>pb_files := remove_all qmdlDir (pb_files s)\<rparr>));
        let measurementErr = (if xr_Result rec \<noteq> ''success'' then Some (xr_FailureReason rec) else None);
        Some \<lparr>fi_record = rec, fi_err = foldl join_errors None [measurementErr, actionErr, parseErr, restoreErr, traceErr],
          fi_process = False, fi_trace = (traceErr \<noteq> None), fi_st = st, fi_pb = s\<rparr> })"

section \<open>An experiment\<close>

text \<open>\<open>None\<close> is a panic: the nil dereference in the goroutine, or \<^verbatim>\<open>time.NewTicker\<close> with an interval that is not positive.\<close>

definition measured :: "'d run_host \<Rightarrow> runOptions \<Rightarrow> string \<Rightarrow> networkSnapshot \<Rightarrow> experimentRecord \<Rightarrow> recoveryState \<Rightarrow> 'd probe \<Rightarrow> 'd finish option" where
  "measured H options runDir sn rec st s =
     (let qmdlDir = path_join runDir ''qmdl'';
          (file, s) = ask (h_text H (ro_QMITracePath options)) s;
          offset = traceFileOffset (ro_QMITracePath options) (tf_stat file);
          (startTime, s) = ask (h_now H) s
      in do {
        steps \<leftarrow> experiment_steps options sn;
        _ \<leftarrow> (if ro_Poll options \<le> 0 then None else Some ());
        let (evs, s) = ask (h_schedule H) s;
        mo \<leftarrow> monitor_loop H options qmdlDir startTime evs
          \<lparr>mo_steps = steps, mo_channel = None, mo_open = True, mo_st = st, mo_pb = s, mo_metrics = no_metrics, mo_samples = [], mo_hit = None,
            mo_actionErr = None, mo_failure = []\<rparr>;
        mo \<leftarrow> await_action H options mo;
        conclude H options runDir qmdlDir startTime offset rec mo })"

text \<open>From the first journal to the return.\<close>

definition journaled_run :: "'d run_host \<Rightarrow> runOptions \<Rightarrow> string \<Rightarrow> string \<Rightarrow> networkSnapshot \<Rightarrow> experimentRecord \<Rightarrow> recoveryState \<Rightarrow> 'd probe \<Rightarrow>
    'd finish option" where
  "journaled_run H options runDir activeConfig sn rec st s =
     (let (e, st, s) = writeState H (st\<lparr>rs_TraceRestoreRequired := True, rs_Stage := ''active-trace-starting''\<rparr>) s in
      case e of
        Some t \<Rightarrow> Some \<lparr>fi_record = rec, fi_err = Some t, fi_process = False, fi_trace = False, fi_st = st, fi_pb = s\<rparr>
      | None \<Rightarrow>
          (let (e, s) = startDiagMDLog H options activeConfig (path_join runDir ''qmdl'') (path_join runDir ''diag-mdlog.log'') s in
           case e of
             Some t \<Rightarrow>
               (let (_, st, s) = writeState H (st\<lparr>rs_Status := ''failed'', rs_Stage := ''diag-start'', rs_LastError := t\<rparr>) s in
                Some \<lparr>fi_record = rec, fi_err = Some t, fi_process = False, fi_trace = True, fi_st = st, fi_pb = s\<rparr>)
           | None \<Rightarrow>
               (let (_, st, s) = writeState H (st\<lparr>rs_Stage := ''active-trace-running''\<rparr>) s;
                    (w, s) = waitContext H (ro_Settle options) s
                in case w of
                     Some (t, _) \<Rightarrow> Some \<lparr>fi_record = rec, fi_err = Some t, fi_process = True, fi_trace = True, fi_st = st, fi_pb = s\<rparr>
                   | None \<Rightarrow> measured H options runDir sn rec st s)))"

definition deferred_trace :: "'d run_host \<Rightarrow> runOptions \<Rightarrow> string \<Rightarrow> 'd finish \<Rightarrow> 'd finish" where
  "deferred_trace H options runDir fi =
     (if \<not> fi_trace fi then fi
      else let (e, s) = restoreProductionTrace H options runDir (fi_pb fi) in
        case e of
          Some t \<Rightarrow> fi\<lparr>fi_pb := s, fi_err := join_errors (fi_err fi) (Some (''restore production QSH mask: '' @ t))\<rparr>
        | None \<Rightarrow>
            (let (_, st, s) = writeState H ((fi_st fi)\<lparr>rs_TraceRestoreRequired := False\<rparr>) s in
             fi\<lparr>fi_trace := False, fi_st := st, fi_pb := s\<rparr>))"

definition deferred_network :: "('d, 'x) probe_host_scheme \<Rightarrow> runOptions \<Rightarrow> 'd finish \<Rightarrow> 'd finish" where
  "deferred_network H options fi =
     (let (found, s) = ask (h_stat H (ro_StatePath options)) (fi_pb fi); fi = fi\<lparr>fi_pb := s\<rparr> in
      if \<not> found \<or> pb_files s (ro_StatePath options) = None then fi
      else if changes_network (ro_Experiment options) then
        (let (e, st, s) = restoreNetwork H (fi_st fi) s; fi = fi\<lparr>fi_st := st, fi_pb := s\<rparr> in
         case e of
           Some t \<Rightarrow> fi\<lparr>fi_err := join_errors (fi_err fi) (Some (''deferred network restore: '' @ t))\<rparr>
         | None \<Rightarrow> if rs_TraceRestoreRequired st then fi else fi\<lparr>fi_pb := snd (remove_file H (ro_StatePath options) s)\<rparr>)
      else if rs_TraceRestoreRequired (fi_st fi) then fi
      else fi\<lparr>fi_pb := snd (remove_file H (ro_StatePath options) s)\<rparr>)"

definition deferred :: "'d run_host \<Rightarrow> runOptions \<Rightarrow> string \<Rightarrow> 'd finish \<Rightarrow> 'd finish" where
  "deferred H options runDir fi =
     (let fi = (if fi_process fi then fi\<lparr>fi_process := False, fi_pb := snd (stop_process H (ro_StopGrace options) (fi_pb fi))\<rparr> else fi)
      in deferred_network H options (deferred_trace H options runDir fi))"

definition experiment_name :: "experimentID \<Rightarrow> string" where
  "experiment_name x = (case x of experimentA \<Rightarrow> ''A'' | experimentB \<Rightarrow> ''B'' | experimentC \<Rightarrow> ''C'' | experimentD \<Rightarrow> ''D''
     | experimentE \<Rightarrow> ''E'' | experimentF \<Rightarrow> ''F'')"

text \<open>The layout \<^verbatim>\<open>20060102T150405.000000000Z\<close>.\<close>

definition nowRunID :: "experimentID \<Rightarrow> int \<Rightarrow> string" where
  "nowRunID x now =
     (let (y, m, d) = civil (now div Second div 86400); (h, mi, sec) = clock now
      in ToLower (experiment_name x) @ ''-'' @ pad_zero 4 (Itoa y) @ two m @ two d @ ''T'' @ two h @ two mi @ two sec @ ''.'' @ fraction now @ ''Z'')"

definition qcril_evidence :: string where
  "qcril_evidence = ''U60 libqcrilNr: ONE_SHOT keeps only the current RAT mask; advanced carries Band/channel in NAS 0x0085; setSystemSelectionChannels maps Band only to NAS 0x0033''"

definition first_record :: "runOptions \<Rightarrow> string \<Rightarrow> string \<Rightarrow> networkSnapshot \<Rightarrow> int \<Rightarrow> experimentRecord" where
  "first_record options runID runDir sn now = zero_record\<lparr>xr_Schema := stateSchema, xr_ToolVersion := toolVersion, xr_RunID := runID,
     xr_Experiment := Some (ro_Experiment options), xr_Description := experimentDescription (ro_Experiment options), xr_StartedAt := now,
     xr_ServingBefore := Some sn, xr_Target := Some (ro_Target options), xr_CaptureDirectory := runDir,
     xr_NetworkInterrupted := changes_network (ro_Experiment options), xr_QCRILPathEvidence := qcril_evidence,
     xr_QMITracePath := ro_QMITracePath options, xr_QMITraceComplete := (ro_Experiment options = experimentA)\<rparr>"

definition first_journal :: "runOptions \<Rightarrow> string \<Rightarrow> networkSnapshot \<Rightarrow> byte list \<Rightarrow> int \<Rightarrow> recoveryState" where
  "first_journal options runID sn production now = \<lparr>rs_Schema = stateSchema, rs_ToolVersion = toolVersion, rs_RunID = runID,
     rs_Experiment = ro_Experiment options, rs_Target = ro_Target options, rs_CreatedAt = now, rs_UpdatedAt = zero_time,
     rs_Status = ''running'', rs_Stage = ''snapshot-saved'', rs_Snapshot = sn, rs_CompletedActions = [], rs_RestoreAttempts = 0,
     rs_TraceRestoreRequired = False, rs_NetworkRestoreRequired = changes_network (ro_Experiment options),
     rs_ProductionQTraceBase64 = b64_EncodeToString production, rs_DiagMDLog = ro_DiagMDLog options, rs_WorkDir = ro_WorkDir options,
     rs_StopGraceMS = Milliseconds (ro_StopGrace options), rs_LastError = []\<rparr>"

type_synonym 'd ran = "((experimentRecord \<times> err) \<times> 'd probe) option"

text \<open>The named results after the deferred function; \<^verbatim>\<open>record.Actions\<close> and \<^verbatim>\<open>record.QMIEvents\<close> are the slices the controller appends to.\<close>

definition returned :: "'d finish \<Rightarrow> (experimentRecord \<times> err) \<times> 'd probe" where
  "returned fi =
     (let s = fi_pb fi in
      (((fi_record fi)\<lparr>xr_Actions := (case pb_Actions s of Some xs \<Rightarrow> xs | None \<Rightarrow> []), xr_QMIEvents := (case pb_QMIEvents s of Some xs \<Rightarrow> xs | None \<Rightarrow> [])\<rparr>,
        fi_err fi), s))"

definition snapshot_run :: "'d run_host \<Rightarrow> runOptions \<Rightarrow> string \<Rightarrow> string \<Rightarrow> string \<Rightarrow> byte list \<Rightarrow> 'd probe \<Rightarrow> 'd ran" where
  "snapshot_run H options runID runDir activeConfig production s =
     (let s = s\<lparr>pb_UBUS := ro_UBUS options, pb_StatePath := ro_StatePath options, pb_Actions := None, pb_QMIEvents := None\<rparr>;
          (r, s) = snapshot H s
      in case r of
           Inl (t, _) \<Rightarrow> Some ((zero_record, Some (''snapshot network state: '' @ t)), s)
         | Inr sn \<Rightarrow>
             (let (started, s) = ask (h_now H) s;
                  rec = first_record options runID runDir sn started;
                  s = s\<lparr>pb_Actions := Some [], pb_QMIEvents := Some []\<rparr>;
                  (created, s) = ask (h_now H) s;
                  (e, st, s) = writeState H (first_journal options runID sn production created) s
              in case e of
                   Some t \<Rightarrow> Some ((rec, Some t), s)
                 | None \<Rightarrow> do {
                     fi \<leftarrow> journaled_run H options runDir activeConfig sn rec st s;
                     Some (returned (deferred H options runDir fi)) }))"

text \<open>The steps under the lock before the snapshot.\<close>

definition locked_run :: "'d run_host \<Rightarrow> runOptions \<Rightarrow> 'd probe \<Rightarrow> 'd ran" where
  "locked_run H options s =
     (let (r, s) = pendingRecovery H (ro_StatePath options) s in
      case r of
        Inl t \<Rightarrow> Some ((zero_record, Some (''read recovery state: '' @ t)), s)
      | Inr (Some st) \<Rightarrow> Some ((zero_record, Some (''unfinished run '' @ rs_RunID st @ '' is in stage '' @ rs_Stage st @ ''; run recover first'')), s)
      | Inr None \<Rightarrow>
     (let (e, s) = ensureNoDiagMDLog H s in
      case e of Some t \<Rightarrow> Some ((zero_record, Some t), s) | None \<Rightarrow>
     (let (e, s) = resourcePreflight H options s in
      case e of Some t \<Rightarrow> Some ((zero_record, Some t), s) | None \<Rightarrow>
     (let (now, s) = ask (h_now H) s;
          runID = nowRunID (ro_Experiment options) now;
          runDir = path_join (path_join (ro_WorkDir options) ''captures'') runID;
          (e, s) = ask (h_mkdir H runDir) s
      in case e of Some t \<Rightarrow> Some ((zero_record, Some t), s) | None \<Rightarrow>
     (let activeConfig = path_join runDir ''qtrace-active.cfg'';
          (source, s) = read_file H (ro_ConfigPath options) s;
          (w, s) = ask (h_write H activeConfig) s
      in do {
        (r, fs) \<leftarrow> buildActiveQTrace (h_sha256 H) w (ro_ConfigPath options) source activeConfig (pb_files s);
        let s = s\<lparr>pb_files := fs\<rparr>;
        case r of
          Inl t \<Rightarrow> Some ((zero_record, Some t), s)
        | Inr _ \<Rightarrow>
            (let (production, s) = read_file H (ro_ConfigPath options) s in
             case production of
               Inl t \<Rightarrow> Some ((zero_record, Some (''read production qtrace for recovery journal: '' @ t)), s)
             | Inr production \<Rightarrow> snapshot_run H options runID runDir activeConfig production s) })))))"

text \<open>\<^verbatim>\<open>acquireProbeLock\<close>: the lock file is opened and locked; \<^verbatim>\<open>releaseProbeLock\<close> is deferred.\<close>

definition acquireProbeLock :: "'d run_host \<Rightarrow> string \<Rightarrow> 'd probe \<Rightarrow> err \<times> 'd probe" where
  "acquireProbeLock H path s =
     (let (e, s) = ask (h_open H path) s in
      case e of
        Some t \<Rightarrow> (Some t, s)
      | None \<Rightarrow> (let (e, s) = ask (h_flock H path) s in (wrap_error ''another cross-band probe is active: '' e, s)))"

definition releaseProbeLock :: "'d run_host \<Rightarrow> string \<Rightarrow> 'd probe \<Rightarrow> 'd probe" where
  "releaseProbeLock H path s = snd (ask (h_unlock H path) s)"

definition runExperiment :: "'d run_host \<Rightarrow> runOptions \<Rightarrow> 'd probe \<Rightarrow> 'd ran" where
  "runExperiment H options s =
     (let (e, s) = ask (h_mkdir H (ro_WorkDir options)) s in
      case e of
        Some t \<Rightarrow> Some ((zero_record, Some t), s)
      | None \<Rightarrow>
          (let path = path_join (ro_WorkDir options) ''probe.lock''; (e, s) = acquireProbeLock H path s in
           case e of
             Some t \<Rightarrow> Some ((zero_record, Some t), s)
           | None \<Rightarrow> do {
               (r, s) \<leftarrow> locked_run H options s;
               Some (r, releaseProbeLock H path s) }))"

section \<open>Recovering\<close>

text \<open>The position in the text of a base64 error is left out.\<close>

definition restoreProductionTraceFromState :: "'d run_host \<Rightarrow> string \<Rightarrow> recoveryState \<Rightarrow> 'd probe \<Rightarrow> ((err \<times> recoveryState) \<times> 'd probe) option" where
  "restoreProductionTraceFromState H diagOverride st s =
     (if \<not> rs_TraceRestoreRequired st then Some ((None, st), s)
      else if rs_ProductionQTraceBase64 st = []
      then Some ((Some ''recovery journal requires QSH restore but has no production qtrace'', st), s)
      else case b64_DecodeString (rs_ProductionQTraceBase64 st) of
        Inl _ \<Rightarrow> Some ((Some ''decode production qtrace from recovery journal: illegal base64 data'', st), s)
      | Inr data \<Rightarrow> do {
          r \<leftarrow> patchActiveQTrace (h_sha256 H) data;
          case r of
            Inl t \<Rightarrow> Some ((Some (''validate journaled production qtrace: '' @ t), st), s)
          | Inr _ \<Rightarrow>
              (let workDir = (if rs_WorkDir st = [] then ''/tmp/u60-nr-crossband-probe'' else rs_WorkDir st);
                   (dir, s) = ask (h_mkdtemp H workDir) s
               in case dir of
                    Inl t \<Rightarrow> Some ((Some t, st), s)
                  | Inr recoveryDir \<Rightarrow>
                      (let configPath = path_join recoveryDir ''qtrace-production.cfg'';
                           (w, s) = ask (h_write H configPath) s;
                           (e, fs) = writeFileAtomic_probe w configPath data (pb_files s);
                           s = s\<lparr>pb_files := fs\<rparr>;
                           diag = (if TrimSpace diagOverride \<noteq> [] then diagOverride else rs_DiagMDLog st);
                           diag = (if diag = [] then ''diag_mdlog'' else diag);
                           grace = wrap64 (rs_StopGraceMS st * Millisecond);
                           grace = (if grace \<le> 0 then 2 * Second else grace);
                           options = \<lparr>ro_Experiment = experimentA, ro_Target = \<lparr>tg_Band = 0, tg_ARFCN = 0, tg_PCI = None\<rparr>, ro_ConfigPath = configPath,
                             ro_WorkDir = [], ro_StatePath = [], ro_DiagMDLog = diag, ro_UBUS = [], ro_QCRILStart = [], ro_QCRILStop = [],
                             ro_QMITracePath = [], ro_Window = 0, ro_Settle = 0, ro_AcquisitionPause = 0, ro_Poll = 0, ro_StopGrace = grace,
                             ro_FileSizeMB = 1, ro_FileCount = 1, ro_MinMemoryBytes = 0, ro_MinWorkFreeBytes = 0, ro_KeepCaptures = False\<rparr>;
                           (e, s) = (case e of Some t \<Rightarrow> (Some t, s) | None \<Rightarrow> restoreProductionTrace H options recoveryDir s);
                           s = s\<lparr>pb_files := remove_all recoveryDir (pb_files s)\<rparr>
                       in Some ((e, if e = None then st\<lparr>rs_TraceRestoreRequired := False, rs_Stage := ''trace-restored'', rs_LastError := []\<rparr> else st), s))) })"

record recoverFlags =
  rf_state :: string
  rf_ubus :: string
  rf_diagMDLog :: string
  rf_confirm :: bool

text \<open>The result of \<^verbatim>\<open>flags.Parse\<close> is a parameter.\<close>

definition runRecoverCommand :: "'d run_host \<Rightarrow> string + recoverFlags \<Rightarrow> 'd probe \<Rightarrow> (err \<times> 'd probe) option" where
  "runRecoverCommand H args s =
     (case args of
        Inl t \<Rightarrow> Some (Some t, s)
      | Inr flags \<Rightarrow>
          (let (r, s) = loadRecoveryState H (rf_state flags) s in
           case r of
             None \<Rightarrow> Some (Some (''open '' @ rf_state flags @ '': no such file or directory''), s)
           | Some (Inl t) \<Rightarrow> Some (Some t, s)
           | Some (Inr st) \<Rightarrow>
               if rs_NetworkRestoreRequired st \<and> \<not> rf_confirm flags
               then Some (Some ''recover requires -confirm-network-change because this journal contains temporary network changes'', s)
               else do {
                 let s = s\<lparr>pb_UBUS := rf_ubus flags, pb_StatePath := rf_state flags, pb_Actions := None, pb_QMIEvents := None\<rparr>;
                 ((traceErr, st), s) \<leftarrow> restoreProductionTraceFromState H (rf_diagMDLog flags) st s;
                 let (networkErr, st, s) = (if rs_NetworkRestoreRequired st then restoreNetwork H st s
                                            else writeState H (st\<lparr>rs_Stage := ''network-unchanged''\<rparr>) s);
                 case join_errors traceErr networkErr of
                   Some t \<Rightarrow>
                     (let (_, st, s) = writeState H (st\<lparr>rs_Status := ''restore-failed'', rs_Stage := ''restore-incomplete'', rs_LastError := t\<rparr>) s in
                      Some (Some t, s))
                 | None \<Rightarrow>
                     (let (e, st, s) = writeState H (st\<lparr>rs_Status := ''restored'', rs_Stage := ''complete'', rs_LastError := []\<rparr>) s in
                      case e of
                        Some t \<Rightarrow> Some (Some t, s)
                      | None \<Rightarrow>
                          (let (r, s) = remove_file H (rf_state flags) s in
                           Some (case r of
                               Removed \<Rightarrow> None
                             | NotExist \<Rightarrow> Some (''remove '' @ rf_state flags @ '': no such file or directory'')
                             | RemoveFailed t \<Rightarrow> Some t, s))) }))"

end
