(* ===== verification/Probe_Transaction.thy ===== *)
theory Probe_Transaction
  imports Probe_Runner
begin

text \<open>
  The experiment of \<^verbatim>\<open>Probe_Runner\<close> as a transaction.  \<open>guarded\<close> says of a log that every event in it was allowed when it
  happened: a setting is changed only under a journal that asks for the network to be restored, a logger is
  started only when none runs and with another configuration than the production one only under a journal
  that asks for the trace to be restored, and the journal is given up only when both are restored.  Such a log
  is safe at every point: whatever its prefix, what was changed is restored or the journal says how.
\<close>

section \<open>Logs\<close>

definition setter :: "string \<Rightarrow> bool" where
  "setter meth \<longleftrightarrow> meth = ''nwinfo_set_nrbandlock'' \<or> meth = ''nwinfo_set_netselect'' \<or> meth = ''nwinfo_lock_nr_cell''"

definition changing :: "probe_event \<Rightarrow> bool" where
  "changing e \<longleftrightarrow> (case e of Call meth _ _ \<Rightarrow> setter meth | _ \<Rightarrow> False)"

definition running_after :: "probe_event list \<Rightarrow> bool" where
  "running_after l = foldl (\<lambda>r e. case e of Launch _ \<Rightarrow> True | Halt \<Rightarrow> False | _ \<Rightarrow> r) False l"

definition trace_clean :: "byte list \<Rightarrow> probe_event list \<Rightarrow> bool" where
  "trace_clean production l \<longleftrightarrow> trace_after l = None \<or> trace_after l = Some (Some production)"

definition journal_held :: "recoveryState \<Rightarrow> probe_event list \<Rightarrow> bool" where
  "journal_held st0 l \<longleftrightarrow> (case journal_after l of Some j \<Rightarrow> run_key j = run_key st0 | None \<Rightarrow> False)"

definition allowed :: "recoveryState \<Rightarrow> byte list \<Rightarrow> probe_event list \<Rightarrow> probe_event \<Rightarrow> bool" where
  "allowed st0 production l e \<longleftrightarrow>
     (case e of
        Call meth _ _ \<Rightarrow> setter meth \<longrightarrow> rs_NetworkRestoreRequired st0 \<and> journal_held st0 l
      | Journal st \<Rightarrow> run_key st = run_key st0 \<and> (rs_TraceRestoreRequired st \<or> trace_clean production l)
      | Erased \<Rightarrow> trace_clean production l \<and>
          (rs_NetworkRestoreRequired st0 \<longrightarrow> network_restored (rs_Snapshot st0) (settings_after l))
      | Launch c \<Rightarrow> \<not> running_after l \<and>
          (c = Some production \<or> journal_held st0 l \<and> rs_TraceRestoreRequired (the (journal_after l)))
      | Halt \<Rightarrow> True)"

definition guarded :: "recoveryState \<Rightarrow> byte list \<Rightarrow> probe_event list \<Rightarrow> bool" where
  "guarded st0 production l \<longleftrightarrow> (\<forall>i < length l. allowed st0 production (take i l) (l ! i))"

text \<open>What a crash at this point leaves.\<close>

definition safe_point :: "recoveryState \<Rightarrow> byte list \<Rightarrow> probe_event list \<Rightarrow> bool" where
  "safe_point st0 production l \<longleftrightarrow>
     (trace_clean production l \<or> journal_held st0 l \<and> rs_TraceRestoreRequired (the (journal_after l))) \<and>
     (\<not> list_ex changing l \<or> network_restored (rs_Snapshot st0) (settings_after l) \<or>
      journal_held st0 l \<and> rs_NetworkRestoreRequired (the (journal_after l)))"

lemma running_after_simps [simp]:
  "running_after [] = False"
  "running_after (l @ [e]) = (case e of Launch _ \<Rightarrow> True | Halt \<Rightarrow> False | _ \<Rightarrow> running_after l)"
  by (cases e; simp add: running_after_def)+

lemma trace_after_Nil [simp]: "trace_after [] = None"
  by (simp add: trace_after_def)

lemma trace_clean_snoc: "trace_clean p (l @ [e]) \<longleftrightarrow> (case e of Launch c \<Rightarrow> c = Some p | _ \<Rightarrow> trace_clean p l)"
  by (cases e) (auto simp: trace_clean_def)

lemma guarded_Nil [simp]: "guarded st0 p []"
  by (simp add: guarded_def)

lemma guarded_snoc: "guarded st0 p (l @ [e]) \<longleftrightarrow> guarded st0 p l \<and> allowed st0 p l e"
  by (auto simp: guarded_def less_Suc_eq nth_append)

lemma guarded_prefix: "guarded st0 p (l @ w) \<Longrightarrow> guarded st0 p l"
  by (induction w rule: rev_induct) (auto simp: guarded_snoc simp flip: append_assoc)

lemma run_key_fields:
  assumes "run_key a = run_key b"
  shows "rs_NetworkRestoreRequired a = rs_NetworkRestoreRequired b" "rs_Snapshot a = rs_Snapshot b"
    "rs_ProductionQTraceBase64 a = rs_ProductionQTraceBase64 b" "rs_Schema a = rs_Schema b"
  using assms by (simp_all add: run_key_def)

lemma journal_held_network: "journal_held st0 l \<Longrightarrow> rs_NetworkRestoreRequired (the (journal_after l)) = rs_NetworkRestoreRequired st0"
  by (auto simp: journal_held_def dest: run_key_fields split: option.splits)

lemma settings_step_getter: "\<not> changing e \<Longrightarrow> settings_step g e = g"
  by (cases e) (auto simp: changing_def setter_def)

lemma safe_step: "safe_point st0 p l \<Longrightarrow> allowed st0 p l e \<Longrightarrow> safe_point st0 p (l @ [e])"
proof (cases e)
  case (Call meth req ok)
  assume "safe_point st0 p l" "allowed st0 p l e"
  then show ?thesis
    using Call journal_held_network [of st0 l] settings_step_getter [of e "settings_after l"]
    by (cases "setter meth") (auto simp: safe_point_def allowed_def trace_clean_snoc journal_held_def changing_def simp del: settings_step.simps)
next
  case (Journal st)
  assume "safe_point st0 p l" "allowed st0 p l e"
  then show ?thesis
    using Journal run_key_fields [of st st0] journal_held_network [of st0 l]
    by (auto simp: safe_point_def allowed_def trace_clean_snoc journal_held_def changing_def)
next
  case Erased
  assume "safe_point st0 p l" "allowed st0 p l e"
  then show ?thesis
    using Erased journal_held_network [of st0 l]
    by (auto simp: safe_point_def allowed_def trace_clean_snoc changing_def)
next
  case (Launch c)
  assume "safe_point st0 p l" "allowed st0 p l e"
  then show ?thesis
    using Launch by (auto simp: safe_point_def allowed_def trace_clean_snoc journal_held_def changing_def)
next
  case Halt
  assume "safe_point st0 p l"
  then show ?thesis using Halt by (auto simp: safe_point_def trace_clean_snoc journal_held_def changing_def)
qed

lemma guarded_safe: "guarded st0 p l \<Longrightarrow> safe_point st0 p l"
proof (induction l rule: rev_induct)
  case Nil
  show ?case by (simp add: safe_point_def trace_clean_def)
next
  case (snoc e l)
  then show ?case using safe_step by (simp add: guarded_snoc)
qed

section \<open>The invariant of a journaled run\<close>

text \<open>\<open>cfg\<close> is a file that holds the production configuration, if one is needed.\<close>

definition run_inv :: "('d, 'x) probe_host_scheme \<Rightarrow> recoveryState \<Rightarrow> byte list \<Rightarrow> string option \<Rightarrow> 'd probe \<Rightarrow> bool" where
  "run_inv H st0 production cfg s \<longleftrightarrow> synced H s \<and>
     (\<forall>c. cfg = Some c \<longrightarrow> pb_files s c = Some production \<and> c \<noteq> pb_StatePath s \<and> \<not> probe_temp c) \<and>
     guarded st0 production (pb_log s) \<and> journal_held st0 (pb_log s)"

text \<open>The journal in memory belongs to the run, and asks for the trace to be restored unless it is.\<close>

definition fits :: "recoveryState \<Rightarrow> byte list \<Rightarrow> recoveryState \<Rightarrow> 'd probe \<Rightarrow> bool" where
  "fits st0 production st s \<longleftrightarrow> run_key st = run_key st0 \<and> (rs_TraceRestoreRequired st \<or> trace_clean production (pb_log s))"

text \<open>Files, log and path are the same.\<close>

definition alike :: "'d probe \<Rightarrow> 'd probe \<Rightarrow> bool" where
  "alike s s' \<longleftrightarrow> pb_files s' = pb_files s \<and> pb_log s' = pb_log s \<and> pb_StatePath s' = pb_StatePath s"

lemma alike_refl [simp]: "alike s s"
  by (simp add: alike_def)

lemma alike_trans: "alike s t \<Longrightarrow> alike t u \<Longrightarrow> alike s u"
  by (simp add: alike_def)

lemma alike_ask: "ask f s = (x, s') \<Longrightarrow> alike s s'"
  using askE [of f s] by (simp add: alike_def)

lemma alike_inv: "alike s s' \<Longrightarrow> run_inv H st0 p cfg s' = run_inv H st0 p cfg s"
  by (simp add: alike_def run_inv_def synced_def)

lemma alike_fits: "alike s s' \<Longrightarrow> fits st0 p st s' = fits st0 p st s"
  by (simp add: alike_def fits_def)

definition kept :: "('d, 'x) probe_host_scheme \<Rightarrow> recoveryState \<Rightarrow> byte list \<Rightarrow> string option \<Rightarrow> 'd probe \<Rightarrow> recoveryState \<Rightarrow> 'd probe \<Rightarrow> bool" where
  "kept H st0 production cfg s st' s' \<longleftrightarrow> run_inv H st0 production cfg s' \<and> fits st0 production st' s' \<and> pb_StatePath s' = pb_StatePath s \<and>
     running_after (pb_log s') = running_after (pb_log s) \<and> trace_after (pb_log s') = trace_after (pb_log s)"

lemma stage_trans: "kept H st0 p cfg s st t \<Longrightarrow> kept H st0 p cfg t st' u \<Longrightarrow> kept H st0 p cfg s st' u"
  by (simp add: kept_def)

lemma kept_alike: "run_inv H st0 p cfg s \<Longrightarrow> fits st0 p st s \<Longrightarrow> alike s s' \<Longrightarrow> kept H st0 p cfg s st s'"
  using alike_inv [of s s' H st0 p cfg] alike_fits [of s s' st0 p st] by (simp add: kept_def) (simp add: alike_def)

lemma kept_alike_after: "kept H st0 p cfg s st t \<Longrightarrow> alike t u \<Longrightarrow> kept H st0 p cfg s st u"
  using stage_trans [OF _ kept_alike, of H st0 p cfg s st t st u] by (simp add: kept_def)

lemma run_events:
  assumes "list_all (run_event st) w" and "run_key st = run_key st0" and "rs_TraceRestoreRequired st \<or> trace_clean p l"
    and "guarded st0 p l" and "journal_held st0 l" and "rs_NetworkRestoreRequired st0 \<or> \<not> list_ex changing w"
  shows "guarded st0 p (l @ w) \<and> journal_held st0 (l @ w) \<and> running_after (l @ w) = running_after l \<and> trace_after (l @ w) = trace_after l"
  using assms
proof (induction w rule: rev_induct)
  case (snoc e w)
  then have i: "guarded st0 p (l @ w)" "journal_held st0 (l @ w)" "running_after (l @ w) = running_after l" "trace_after (l @ w) = trace_after l"
    by auto
  then have t: "trace_clean p (l @ w) = trace_clean p l" by (simp add: trace_clean_def)
  have e: "run_event st e" "rs_NetworkRestoreRequired st0 \<or> \<not> changing e" using snoc.prems by auto
  have "allowed st0 p (l @ w) e"
    using e i t snoc.prems(2,3) by (cases e) (auto simp: allowed_def run_event_def changing_def)
  moreover have "journal_held st0 ((l @ w) @ [e])"
    using e(1) i(2) snoc.prems(2) by (cases e) (auto simp: journal_held_def run_event_def simp del: append_assoc)
  moreover have "running_after ((l @ w) @ [e]) = running_after l" "trace_after ((l @ w) @ [e]) = trace_after l"
    using e(1) i(3,4) by (cases e; simp add: run_event_def del: append_assoc)+
  ultimately show ?case using i(1) guarded_snoc [of st0 p "l @ w" e] by simp
qed simp

lemma advanced_kept:
  assumes a: "advanced H st s st' s'" and i: "run_inv H st0 p cfg s" and f: "fits st0 p st s"
    and n: "rs_NetworkRestoreRequired st0 \<or> \<not> list_ex changing (drop (length (pb_log s)) (pb_log s'))"
  shows "kept H st0 p cfg s st' s'"
proof -
  obtain w where w: "pb_log s' = pb_log s @ w" "list_all (run_event st) w" using advanced_log [OF a] by blast
  have "guarded st0 p (pb_log s @ w) \<and> journal_held st0 (pb_log s @ w) \<and> running_after (pb_log s @ w) = running_after (pb_log s) \<and>
    trace_after (pb_log s @ w) = trace_after (pb_log s)"
    using i f n w by (intro run_events [OF w(2)]) (auto simp: run_inv_def fits_def)
  moreover have "trace_clean p (pb_log s @ w) = trace_clean p (pb_log s)" using calculation by (simp add: trace_clean_def)
  ultimately show ?thesis using a i f w(1) by (auto simp: kept_def run_inv_def fits_def advanced_def)
qed

lemma writeState_kept:
  assumes "probe_host_ok H" and "run_inv H st0 p cfg s" and "fits st0 p st s" and "writeState H st s = (e, st', s')"
  shows "kept H st0 p cfg s st' s'" and "rs_TraceRestoreRequired st' = rs_TraceRestoreRequired st"
    and "e = None \<Longrightarrow> journal_after (pb_log s') = Some st'"
proof -
  have sync: "synced H s" using assms(2) by (simp add: run_inv_def)
  from writeState_effect [OF assms(1) sync assms(4)]
  have a: "advanced H st s st' s'" and l: "pb_log s' = pb_log s @ (if e = None then [Journal st'] else [])" by simp_all
  show "kept H st0 p cfg s st' s'" by (rule advanced_kept [OF a assms(2,3)]) (simp add: l changing_def)
  show "rs_TraceRestoreRequired st' = rs_TraceRestoreRequired st" using a by (simp add: advanced_def)
  show "e = None \<Longrightarrow> journal_after (pb_log s') = Some st'" using l by simp
qed

lemma restoreNetwork_kept:
  assumes "probe_host_ok H" and "run_inv H st0 p cfg s" and "fits st0 p st s" and "rs_NetworkRestoreRequired st0"
    and "restoreNetwork H st s = (e, st', s')"
  shows "kept H st0 p cfg s st' s'" and "rs_TraceRestoreRequired st' = rs_TraceRestoreRequired st"
    and "e = None \<Longrightarrow> network_restored (rs_Snapshot st0) (settings_after (pb_log s'))"
proof -
  have sync: "synced H s" using assms(2) by (simp add: run_inv_def)
  from restoreNetwork_outcome [OF assms(1) sync assms(5)] have o: "restore_outcome H st s e st' s'" .
  then have a: "advanced H st s st' s'" by (simp add: restore_outcome_def)
  show "kept H st0 p cfg s st' s'" using advanced_kept [OF a assms(2,3)] assms(4) by simp
  show "rs_TraceRestoreRequired st' = rs_TraceRestoreRequired st" using a by (simp add: advanced_def)
  have "rs_Snapshot st = rs_Snapshot st0" using assms(3) run_key_fields [of st st0] by (simp add: fits_def)
  with o show "e = None \<Longrightarrow> network_restored (rs_Snapshot st0) (settings_after (pb_log s'))" by (simp add: restore_outcome_def)
qed

lemma made_kept:
  assumes "run_inv H st0 p cfg s" and "fits st0 p st s" and "made meth req good s s'" and "rs_NetworkRestoreRequired st0 \<or> \<not> setter meth"
  shows "kept H st0 p cfg s st s'"
proof -
  have "synced H s" using assms(1) by (simp add: run_inv_def)
  from advanced_kept [OF made_advanced [OF this assms(3)] assms(1,2)] show ?thesis
    using assms(3,4) by (auto simp: made_def changing_def)
qed

section \<open>The logger\<close>

lemma ensureNoDiagMDLog_alike: "ensureNoDiagMDLog H s = (e, s') \<Longrightarrow> alike s s'"
  by (auto simp: ensureNoDiagMDLog_def Let_def dest!: alike_ask split: prod.splits if_splits)

lemma startDiagMDLog_effect:
  assumes "startDiagMDLog H options config out logp s = (e, s')"
  shows "pb_files s' = pb_files s \<and> pb_StatePath s' = pb_StatePath s \<and>
    pb_log s' = pb_log s @ (if e = None then [Launch (pb_files s config)] else [])"
  using assms
  by (auto simp: startDiagMDLog_def note_event_def alike_def Let_def dest!: alike_ask ensureNoDiagMDLog_alike split: prod.splits option.splits)

lemma stop_process_effect:
  assumes "stop_process H grace s = (e, s')"
  shows "pb_files s' = pb_files s \<and> pb_StatePath s' = pb_StatePath s \<and> pb_log s' = pb_log s @ [Halt]"
  using assms by (auto simp: stop_process_def note_event_def alike_def Let_def dest!: alike_ask split: prod.splits)

lemma stop_process_kept:
  assumes "run_inv H st0 p cfg s" and "fits st0 p st s" and "stop_process H grace s = (e, s')"
  shows "run_inv H st0 p cfg s' \<and> fits st0 p st s' \<and> pb_StatePath s' = pb_StatePath s \<and> \<not> running_after (pb_log s') \<and>
    trace_after (pb_log s') = trace_after (pb_log s)"
  using assms(1,2) stop_process_effect [OF assms(3)]
  by (auto simp: run_inv_def fits_def synced_def guarded_snoc allowed_def journal_held_def trace_clean_snoc)

lemma startDiagMDLog_kept:
  assumes "run_inv H st0 p cfg s" and "fits st0 p st s" and "startDiagMDLog H options config out logp s = (e, s')"
    and "\<not> running_after (pb_log s)"
    and "pb_files s config = Some p \<or> rs_TraceRestoreRequired st \<and> rs_TraceRestoreRequired (the (journal_after (pb_log s)))"
  shows "run_inv H st0 p cfg s' \<and> fits st0 p st s' \<and> pb_StatePath s' = pb_StatePath s \<and> (running_after (pb_log s') \<longleftrightarrow> e = None) \<and>
    trace_after (pb_log s') = (if e = None then Some (pb_files s config) else trace_after (pb_log s))"
  using assms(1,2,4,5) startDiagMDLog_effect [OF assms(3)]
  by (auto simp: run_inv_def fits_def synced_def guarded_snoc allowed_def journal_held_def trace_clean_snoc)

text \<open>Directories whose removal leaves the journal and the configuration.\<close>

definition outside :: "string \<Rightarrow> string \<Rightarrow> bool" where
  "outside dir path \<longleftrightarrow> path \<noteq> dir \<and> \<not> HasPrefix path (dir @ ''/'')"

definition clear_of :: "string \<Rightarrow> string option \<Rightarrow> bool" where
  "clear_of dir cfg \<longleftrightarrow> (\<forall>c. cfg = Some c \<longrightarrow> outside dir c)"

lemma remove_all_kept:
  assumes "run_inv H st0 p cfg s" and "fits st0 p st s" and "clear_of dir cfg" and "outside dir (pb_StatePath s)"
  shows "kept H st0 p cfg s st (s\<lparr>pb_files := remove_all dir (pb_files s)\<rparr>)"
  using assms by (simp add: kept_def run_inv_def fits_def synced_def remove_all_def outside_def clear_of_def)

lemma append_action_alike [simp]: "alike s (append_action ev s)"
  by (simp add: alike_def append_action_def)

lemma restoreProductionTrace_kept:
  assumes "run_inv H st0 p cfg s" and "fits st0 p st s" and "\<not> running_after (pb_log s)" and "cfg = Some (ro_ConfigPath options)"
    and "clear_of (path_join runDir ''trace-restore'') cfg" and "outside (path_join runDir ''trace-restore'') (pb_StatePath s)"
    and "restoreProductionTrace H options runDir s = (e, s')"
  shows "run_inv H st0 p cfg s' \<and> fits st0 p st s' \<and> pb_StatePath s' = pb_StatePath s \<and> \<not> running_after (pb_log s') \<and>
    (trace_after (pb_log s') = Some (Some p) \<or> e \<noteq> None \<and> trace_after (pb_log s') = trace_after (pb_log s))"
proof -
  obtain e1 s1 where n: "ensureNoDiagMDLog H s = (e1, s1)" by fastforce
  have k1: "kept H st0 p cfg s st s1" by (rule kept_alike [OF assms(1,2) ensureNoDiagMDLog_alike [OF n]])
  show ?thesis
  proof (cases e1)
    case (Some t)
    with assms(7) n k1 assms(3) show ?thesis by (auto simp: restoreProductionTrace_def kept_def)
  next
    case None
    let ?dir = "path_join runDir ''trace-restore''"
    obtain e2 s2 where st: "startDiagMDLog H (options\<lparr>ro_FileSizeMB := 1, ro_FileCount := 1\<rparr>) (ro_ConfigPath options) ?dir
        (path_join runDir ''trace-restore.log'') s1 = (e2, s2)" by fastforce
    have c: "pb_files s1 (ro_ConfigPath options) = Some p" using k1 assms(4) by (simp add: kept_def run_inv_def)
    have k2: "run_inv H st0 p cfg s2 \<and> fits st0 p st s2 \<and> pb_StatePath s2 = pb_StatePath s1 \<and> (running_after (pb_log s2) \<longleftrightarrow> e2 = None) \<and>
      trace_after (pb_log s2) = (if e2 = None then Some (Some p) else trace_after (pb_log s1))"
      using startDiagMDLog_kept [OF _ _ st, of st0 p cfg st] k1 c assms(3) by (simp add: kept_def)
    show ?thesis
    proof (cases e2)
      case (Some t)
      with assms(7) n None st k1 k2 show ?thesis by (auto simp: restoreProductionTrace_def kept_def Let_def)
    next
      case e2: None
      obtain we s3 where w: "waitContext H (350 * Millisecond) s2 = (we, s3)" by fastforce
      have a3: "alike s2 s3" using w by (auto simp: waitContext_def dest: alike_ask)
      obtain se s4 where h: "stop_process H (ro_StopGrace options) s3 = (se, s4)" by fastforce
      have k4: "run_inv H st0 p cfg s4 \<and> fits st0 p st s4 \<and> pb_StatePath s4 = pb_StatePath s3 \<and> \<not> running_after (pb_log s4) \<and>
          trace_after (pb_log s4) = trace_after (pb_log s3)"
        using stop_process_kept [OF _ _ h, of st0 p cfg st] k2 alike_inv [OF a3, of H st0 p cfg] alike_fits [OF a3, of st0 p st] by simp
      define s5 where "s5 = s4\<lparr>pb_files := remove_all ?dir (pb_files s4)\<rparr>"
      have p4: "pb_StatePath s4 = pb_StatePath s" using k1 k2 k4 a3 by (simp add: kept_def alike_def)
      have k5: "kept H st0 p cfg s4 st s5"
        unfolding s5_def using k4 p4 assms(5,6) by (intro remove_all_kept) simp_all
      obtain now s6 where a: "ask (h_now H) s5 = (now, s6)" by fastforce
      have "\<exists>ev. s' = append_action ev s6 \<and> e = join_errors (map_option fst we) se"
        using assms(7) n None st e2 w h a by (auto simp: restoreProductionTrace_def Let_def s5_def)
      then have "alike s5 s'" using alike_trans [OF alike_ask [OF a]] by auto
      then have "kept H st0 p cfg s4 st s'" by (rule kept_alike_after [OF k5])
      moreover have "trace_after (pb_log s4) = Some (Some p)" using k2 k4 e2 a3 by (simp add: alike_def)
      ultimately show ?thesis using k4 p4 by (auto simp: kept_def)
    qed
  qed
qed

section \<open>The action and the monitor\<close>

lemma appendQMI_fold_alike: "alike s (foldl (\<lambda>s ev. appendQMI ev s) s evs)"
  by (induction evs arbitrary: s) (auto simp: alike_def appendQMI_def)

lemma runExternalQCRIL_alike: "runExternalQCRIL H options s = (e, s') \<Longrightarrow> alike s s'"
  by (auto simp: runExternalQCRIL_def Let_def alike_def append_action_def dest!: alike_ask split: prod.splits option.splits if_splits)

lemma markRecoveryAction_kept:
  assumes "probe_host_ok H" and "run_inv H st0 p cfg s" and "fits st0 p st s" and "markRecoveryAction H act e st s = (st', s')"
  shows "kept H st0 p cfg s st' s'"
proof -
  define st1 where "st1 = (case e of Some (t, _) \<Rightarrow> st\<lparr>rs_LastError := t, rs_Stage := act @ ''-failed''\<rparr>
    | None \<Rightarrow> st\<lparr>rs_CompletedActions := rs_CompletedActions st @ [act], rs_Stage := act\<rparr>)"
  have "fits st0 p st1 s" using assms(3) by (cases e) (auto simp: fits_def st1_def run_key_def)
  moreover obtain w where "writeState H st1 s = (w, st', s')" using assms(4) by (auto simp: markRecoveryAction_def st1_def split: prod.splits)
  ultimately show ?thesis using writeState_kept(1) [OF assms(1,2)] by blast
qed

lemma with_mark_kept:
  assumes ok: "probe_host_ok H" and "run_inv H st0 p cfg s" and "fits st0 p st s" and m: "with_mark H act st (f, t) = (e, st', s')"
    and c: "alike s t \<or> (\<exists>meth req good. made meth req good s t)" and n: "rs_NetworkRestoreRequired st0"
  shows "kept H st0 p cfg s st' s'"
proof -
  have k: "kept H st0 p cfg s st t"
    using c kept_alike [OF assms(2,3)] made_kept [OF assms(2,3)] n by blast
  have "markRecoveryAction H act f st t = (st', s')" using m by (auto simp: with_mark_def split: prod.splits)
  then have "kept H st0 p cfg t st' s'" using k by (intro markRecoveryAction_kept [OF ok]) (auto simp: kept_def)
  then show ?thesis by (rule stage_trans [OF k])
qed

definition calm :: "action_step \<Rightarrow> bool" where
  "calm step \<longleftrightarrow> step = StepScan \<or> step = StepExternal \<or> step = StepPause"

lemma experiment_steps_calm: "experiment_steps options sn = Some steps \<Longrightarrow> changes_network (ro_Experiment options) \<or> list_all calm steps"
  by (auto simp: experiment_steps_def changes_network_def calm_def split: experimentID.splits)

lemma run_step_kept:
  assumes ok: "probe_host_ok H" and i: "run_inv H st0 p cfg s" and ft: "fits st0 p st s" and n: "rs_NetworkRestoreRequired st0 \<or> calm step"
  shows "\<exists>e st' s'. run_step H options step st s = Some (e, st', s') \<and> kept H st0 p cfg s st' s'"
proof (cases step)
  case StepScan
  obtain e sc where r: "runRawNRScan (h_qrtr H) [tg_ARFCN (ro_Target options)] 2 \<lparr>sc_sent = [], sc_emitted = [], sc_dev = pb_dev s\<rparr> = Some (e, sc)"
    using runRawNRScan_ended [of "h_qrtr H" "[tg_ARFCN (ro_Target options)]" 2 "\<lparr>sc_sent = [], sc_emitted = [], sc_dev = pb_dev s\<rparr>"]
    by (auto simp: scan_ended_def)
  have "alike s (foldl (\<lambda>s ev. appendQMI ev s) (s\<lparr>pb_dev := sc_dev sc\<rparr>) (sc_emitted sc))"
    using alike_trans [OF _ appendQMI_fold_alike, of s "s\<lparr>pb_dev := sc_dev sc\<rparr>" "sc_emitted sc"] by (simp add: alike_def)
  from kept_alike [OF i ft this] show ?thesis using r StepScan by simp
next
  case StepExternal
  obtain e s' where x: "runExternalQCRIL H options s = (e, s')" by fastforce
  show ?thesis using kept_alike [OF i ft runExternalQCRIL_alike [OF x]] x StepExternal by simp
next
  case StepPause
  obtain e s' where x: "waitContext H (ro_AcquisitionPause options) s = (e, s')" by fastforce
  then have "alike s s'" by (auto simp: waitContext_def dest: alike_ask)
  from kept_alike [OF i ft this] show ?thesis using x StepPause by simp
next
  case (StepBand kind act)
  obtain f t where c: "setNRBand H kind (utoa (unat (tg_Band (ro_Target options)))) s = (f, t)" by fastforce
  obtain e st' s' where w: "with_mark H act st (f, t) = (e, st', s')" by (metis prod.exhaust)
  from with_mark_kept [OF ok i ft w] show ?thesis using c w StepBand n setNRBand_made [OF c] by (auto simp: calm_def)
next
  case (StepSelect mode act)
  obtain f t where c: "setNetSelect H mode s = (f, t)" by fastforce
  obtain e st' s' where w: "with_mark H act st (f, t) = (e, st', s')" by (metis prod.exhaust)
  have "alike s t \<or> (\<exists>meth req good. made meth req good s t)"
    using c setNetSelect_made [of mode H s f t] by (cases "mode = []") (auto simp: setNetSelect_def)
  from with_mark_kept [OF ok i ft w this] show ?thesis using c w StepSelect n by (auto simp: calm_def)
next
  case (StepLock pci act)
  obtain f t where c: "setNRCellLock H (utoa (unat pci)) (utoa (unat (tg_ARFCN (ro_Target options)))) (utoa (unat (tg_Band (ro_Target options)))) s = (f, t)"
    by fastforce
  obtain e st' s' where w: "with_mark H act st (f, t) = (e, st', s')" by (metis prod.exhaust)
  from with_mark_kept [OF ok i ft w] show ?thesis using c w StepLock n setNRCellLock_made [OF c] by (auto simp: calm_def)
qed

definition mon_kept :: "'d run_host \<Rightarrow> recoveryState \<Rightarrow> byte list \<Rightarrow> string option \<Rightarrow> 'd probe \<Rightarrow> 'd monitor \<Rightarrow> bool" where
  "mon_kept H st0 p cfg s mo \<longleftrightarrow> kept H st0 p cfg s (mo_st mo) (mo_pb mo) \<and> (rs_NetworkRestoreRequired st0 \<or> list_all calm (mo_steps mo))"

lemma mon_kept_same:
  assumes "mon_kept H st0 p cfg s mo" and "mo_st mo' = mo_st mo" and "alike (mo_pb mo) (mo_pb mo')" and "mo_steps mo' = mo_steps mo"
  shows "mon_kept H st0 p cfg s mo'"
  using assms kept_alike_after by (fastforce simp: mon_kept_def)

lemma action_progress_kept:
  assumes "probe_host_ok H" and "mon_kept H st0 p cfg s mo"
  shows "\<exists>mo'. action_progress H options mo = Some mo' \<and> mon_kept H st0 p cfg s mo'"
proof (cases "mo_steps mo")
  case Nil
  with assms(2) show ?thesis by (simp add: action_progress_def)
next
  case (Cons step rest)
  have k: "kept H st0 p cfg s (mo_st mo) (mo_pb mo)" using assms(2) by (simp add: mon_kept_def)
  then obtain e st' s' where r: "run_step H options step (mo_st mo) (mo_pb mo) = Some (e, st', s')" "kept H st0 p cfg (mo_pb mo) st' s'"
    using run_step_kept [OF assms(1), of st0 p cfg "mo_pb mo" "mo_st mo" step options] assms(2) Cons by (auto simp: kept_def mon_kept_def)
  from stage_trans [OF k r(2)] show ?thesis using r(1) Cons assms(2) by (auto simp: action_progress_def mon_kept_def)
qed

lemma sampleResources_alike: "sampleResources H options dir s = (r, s') \<Longrightarrow> alike s s'"
  by (auto simp: sampleResources_def Let_def alike_def dest!: alike_ask split: prod.splits)

lemma findQMDLFiles_alike: "findQMDLFiles H dir s = (r, s') \<Longrightarrow> alike s s'"
  by (auto simp: findQMDLFiles_def Let_def dest!: alike_ask split: prod.splits)

lemma analyze_capture_alike: "\<exists>m e s'. analyze_capture H dir target s = Some ((m, e), s') \<and> alike s s'"
proof -
  obtain paths s1 where f: "findQMDLFiles H dir s = (paths, s1)" by fastforce
  obtain fs s2 where a: "ask (h_captures H) s1 = (fs, s2)" by fastforce
  obtain m e where "analyzeQMDLFiles fs paths target = Some (m, e)"
    using analyze_paths_total [of fs target "sort_key (map code) paths" no_metrics] by (auto simp: analyzeQMDLFiles_def)
  then show ?thesis
    using f a alike_trans [OF findQMDLFiles_alike [OF f] alike_ask [OF a]] by (simp add: analyze_capture_def)
qed

lemma monitor_tick_kept:
  assumes k: "mon_kept H st0 p cfg s mo"
  shows "\<exists>more mo'. monitor_tick H options dir start mo = Some (more, mo') \<and> mon_kept H st0 p cfg s mo'"
proof -
  obtain sample e s1 where a: "sampleResources H options dir (mo_pb mo) = ((sample, e), s1)" by (metis prod.exhaust)
  note a1 = sampleResources_alike [OF a]
  obtain cur pe s2 where c: "analyze_capture H dir (ro_Target options) s1 = Some ((cur, pe), s2)" "alike s1 s2"
    using analyze_capture_alike by blast
  obtain now s3 where n: "ask (h_now H) s2 = (now, s3)" by fastforce
  have "alike (mo_pb mo) s2" "alike (mo_pb mo) s3" using a1 c(2) alike_ask [OF n] by (auto intro: alike_trans)
  with a1 have "mon_kept H st0 p cfg s mo'" if "mo_st mo' = mo_st mo" "mo_steps mo' = mo_steps mo" "mo_pb mo' \<in> {s1, s2, s3}" for mo'
    using that by (intro mon_kept_same [OF k]) auto
  then show ?thesis using a c(1) n by (cases e) (auto simp: monitor_tick_def Let_def)
qed

lemma monitor_loop_kept:
  assumes "probe_host_ok H" and "mon_kept H st0 p cfg s mo"
  shows "\<exists>mo'. monitor_loop H options dir start evs mo = Some mo' \<and> mon_kept H st0 p cfg s mo'"
  using assms(2)
proof (induction evs arbitrary: mo)
  case Nil
  then show ?case by (auto simp: expired_def intro: mon_kept_same)
next
  case (Cons ev evs)
  show ?case
  proof (cases ev)
    case EvAction
    have "mon_kept H st0 p cfg s (mo\<lparr>mo_open := False\<rparr>)" using Cons.prems by (rule mon_kept_same) simp_all
    then show ?thesis using EvAction Cons by (auto intro: mon_kept_same split: option.splits)
  next
    case EvTick
    obtain more mo' where "monitor_tick H options dir start mo = Some (more, mo')" "mon_kept H st0 p cfg s mo'"
      using monitor_tick_kept [OF Cons.prems] by blast
    with Cons.IH [of mo'] EvTick show ?thesis by (cases more) auto
  next
    case EvProgress
    obtain mo' where "action_progress H options mo = Some mo'" "mon_kept H st0 p cfg s mo'"
      using action_progress_kept [OF assms(1) Cons.prems] by blast
    with Cons.IH [of mo'] EvProgress show ?thesis by auto
  qed (use Cons.prems in \<open>auto simp: expired_def intro: mon_kept_same\<close>)
qed

lemma action_run_kept:
  assumes "probe_host_ok H" and "mon_kept H st0 p cfg s mo"
  shows "\<exists>mo'. action_run H options n mo = Some mo' \<and> mon_kept H st0 p cfg s mo'"
  using assms(2)
proof (induction n arbitrary: mo)
  case (Suc n)
  obtain mo' where "action_progress H options mo = Some mo'" "mon_kept H st0 p cfg s mo'"
    using action_progress_kept [OF assms(1) Suc.prems] by blast
  with Suc.IH [of mo'] show ?case by auto
qed simp

lemma cleanup_timeout_kept:
  assumes k: "mon_kept H st0 p cfg s mo"
  shows "mon_kept H st0 p cfg s (cleanup_timeout options flying mo)"
proof (cases "\<exists>step rest. mo_steps mo = step # rest \<and> flying \<and> \<not> calm step")
  case True
  then obtain step rest where st: "mo_steps mo = step # rest" "flying" "\<not> calm step" by blast
  then have n: "rs_NetworkRestoreRequired st0" using k by (simp add: mon_kept_def)
  have kk: "kept H st0 p cfg s (mo_st mo) (mo_pb mo)" using k by (simp add: mon_kept_def)
  obtain meth req where f: "in_flight options step = [Call meth req False]" using st(3) by (cases step) (auto simp: calm_def)
  have "made meth req False (mo_pb mo) ((mo_pb mo)\<lparr>pb_log := pb_log (mo_pb mo) @ [Call meth req False]\<rparr>)" by (auto simp: made_def)
  from made_kept [OF _ _ this, of H st0 p cfg "mo_st mo"] kk n
  have "kept H st0 p cfg s (mo_st mo) ((mo_pb mo)\<lparr>pb_log := pb_log (mo_pb mo) @ [Call meth req False]\<rparr>)" by (simp add: kept_def)
  with k n st f show ?thesis by (simp add: mon_kept_def cleanup_timeout_def Let_def)
next
  case False
  then have "(case mo_steps mo of step # _ \<Rightarrow> if flying then in_flight options step else [] | [] \<Rightarrow> []) = []"
    by (auto simp: calm_def split: list.split)
  then show ?thesis by (intro mon_kept_same [OF k]) (simp_all add: cleanup_timeout_def Let_def)
qed

lemma await_action_kept:
  assumes "probe_host_ok H" and k: "mon_kept H st0 p cfg s mo"
  shows "\<exists>mo'. await_action H options mo = Some mo' \<and> mon_kept H st0 p cfg s mo'"
proof (cases "mo_open mo")
  case True
  obtain n timer flying s1 where a: "ask (h_cleanup H) (mo_pb mo) = ((n, timer, flying), s1)" by (metis prod.exhaust)
  have "mon_kept H st0 p cfg s (mo\<lparr>mo_pb := s1\<rparr>)" by (rule mon_kept_same [OF k]) (use alike_ask [OF a] in simp_all)
  from action_run_kept [OF assms(1) this] obtain mo' where r: "action_run H options n (mo\<lparr>mo_pb := s1\<rparr>) = Some mo'" "mon_kept H st0 p cfg s mo'" by blast
  show ?thesis using True a r cleanup_timeout_kept [OF r(2)]
    by (auto simp: await_action_def intro: mon_kept_same split: option.split)
qed (use k in \<open>simp add: await_action_def\<close>)

section \<open>The end of a run\<close>

text \<open>The journal was given up.\<close>

definition settled :: "('d, 'x) probe_host_scheme \<Rightarrow> recoveryState \<Rightarrow> byte list \<Rightarrow> string \<Rightarrow> 'd probe \<Rightarrow> bool" where
  "settled H st0 p path s \<longleftrightarrow> synced H s \<and> pb_StatePath s = path \<and> guarded st0 p (pb_log s) \<and> journal_after (pb_log s) = None \<and> \<not> running_after (pb_log s)"

definition held :: "('d, 'x) probe_host_scheme \<Rightarrow> recoveryState \<Rightarrow> byte list \<Rightarrow> string option \<Rightarrow> string \<Rightarrow> recoveryState \<Rightarrow> bool \<Rightarrow> 'd probe \<Rightarrow> bool" where
  "held H st0 p cfg path st r s \<longleftrightarrow> run_inv H st0 p cfg s \<and> fits st0 p st s \<and> pb_StatePath s = path \<and> running_after (pb_log s) = r"

lemma held_kept: "held H st0 p cfg path st r s \<Longrightarrow> kept H st0 p cfg s st' s' \<Longrightarrow> held H st0 p cfg path st' r s'"
  by (simp add: held_def kept_def)

lemma held_alike: "held H st0 p cfg path st r s \<Longrightarrow> alike s s' \<Longrightarrow> held H st0 p cfg path st r s'"
  using held_kept [OF _ kept_alike, of H st0 p cfg path st r s st s'] by (simp add: held_def)

lemma settled_alike: "settled H st0 p path s \<Longrightarrow> alike s s' \<Longrightarrow> settled H st0 p path s'"
  by (auto simp: settled_def alike_def synced_def)

lemma writeState_held:
  assumes "probe_host_ok H" and "held H st0 p cfg path st1 r s" and "fits st0 p st s" and "writeState H st s = (e, st', s')"
  shows "held H st0 p cfg path st' r s'" and "rs_TraceRestoreRequired st' = rs_TraceRestoreRequired st"
    and "e = None \<Longrightarrow> journal_after (pb_log s') = Some st'" and "trace_after (pb_log s') = trace_after (pb_log s)"
    and "settings_after (pb_log s') = settings_after (pb_log s)"
proof -
  have i: "run_inv H st0 p cfg s" using assms(2) by (simp add: held_def)
  note k = writeState_kept [OF assms(1) i assms(3,4)]
  show "held H st0 p cfg path st' r s'" using held_kept [OF assms(2) k(1)] .
  show "rs_TraceRestoreRequired st' = rs_TraceRestoreRequired st" "e = None \<Longrightarrow> journal_after (pb_log s') = Some st'" using k by simp_all
  show "trace_after (pb_log s') = trace_after (pb_log s)" using k(1) by (simp add: kept_def)
  have "synced H s" using i by (simp add: run_inv_def)
  from writeState_effect [OF assms(1) this assms(4)] have "pb_log s' = pb_log s @ (if e = None then [Journal st'] else [])" by simp
  then show "settings_after (pb_log s') = settings_after (pb_log s)" by simp
qed

lemma fits_same: "fits st0 p st s \<Longrightarrow> run_key st' = run_key st \<Longrightarrow> rs_TraceRestoreRequired st' = rs_TraceRestoreRequired st \<Longrightarrow> fits st0 p st' s"
  by (simp add: fits_def)

lemma remove_file_end:
  assumes h: "held H st0 p cfg path st False s" and t: "trace_clean p (pb_log s)"
    and n: "rs_NetworkRestoreRequired st0 \<longrightarrow> network_restored (rs_Snapshot st0) (settings_after (pb_log s))"
    and r: "remove_file H path s = (r, s')"
  shows "r = Removed \<and> settled H st0 p path s' \<or> (\<exists>t. r = RemoveFailed t) \<and> held H st0 p cfg path st False s'"
proof -
  obtain data where d: "pb_files s path = Some data"
    using h by (auto simp: held_def run_inv_def synced_def journal_held_def split: option.splits)
  obtain e s1 where a: "ask (h_remove H path) s = (e, s1)" by fastforce
  note al = alike_ask [OF a]
  show ?thesis
  proof (cases e)
    case (Some t)
    with r d a held_alike [OF h al] show ?thesis by (auto simp: remove_file_def)
  next
    case None
    have "allowed st0 p (pb_log s) Erased" using t n by (simp add: allowed_def)
    with None r d a al h show ?thesis
      by (auto simp: remove_file_def settled_def held_def run_inv_def synced_def note_event_def alike_def guarded_snoc)
  qed
qed

lemma close_journal_end:
  assumes ok: "probe_host_ok H" and h: "held H st0 p cfg path st False s" and t: "trace_clean p (pb_log s)"
    and n: "rs_NetworkRestoreRequired st0 \<longrightarrow> network_restored (rs_Snapshot st0) (settings_after (pb_log s))"
    and c: "close_journal H path st s = (e, st', s')"
  shows "e = None \<and> settled H st0 p path s' \<or> e \<noteq> None \<and> held H st0 p cfg path st' False s'"
proof -
  let ?st = "st\<lparr>rs_Status := ''restored'', rs_Stage := ''complete'', rs_LastError := []\<rparr>"
  obtain e1 st1 s1 where w: "writeState H ?st s = (e1, st1, s1)" by (metis prod.exhaust)
  have "fits st0 p ?st s" using h by (simp add: held_def fits_def run_key_def)
  note k = writeState_held [OF ok h this w]
  show ?thesis
  proof (cases e1)
    case (Some u)
    with c w k(1) show ?thesis by (auto simp: close_journal_def)
  next
    case None
    obtain r s2 where r: "remove_file H path s1 = (r, s2)" by fastforce
    have "trace_clean p (pb_log s1)" using t k(4) by (simp add: trace_clean_def)
    from remove_file_end [OF k(1) this _ r] have "r = Removed \<and> settled H st0 p path s2 \<or> (\<exists>t. r = RemoveFailed t) \<and> held H st0 p cfg path st1 False s2"
      using n k(5) by simp
    with None c w r show ?thesis by (auto simp: close_journal_def)
  qed
qed

lemma snapshot_made: "snapshot H s = (r, s') \<Longrightarrow> made ''nwinfo_get_netinfo'' [] (\<not> isl r) s s'"
proof -
  assume a: "snapshot H s = (r, s')"
  obtain x s1 where c: "callUBUS H ''nwinfo_get_netinfo'' [] s = (x, s1)" by fastforce
  obtain now s2 where n: "ask (h_now H) s1 = (now, s2)" by fastforce
  show ?thesis using a c n callUBUS_made [OF c] askE [OF n]
    by (cases x) (auto simp: snapshot_def made_def Let_def)
qed

lemma not_setter_netinfo: "\<not> setter ''nwinfo_get_netinfo''"
  by (simp add: setter_def)

lemma snapshot_held:
  assumes "held H st0 p cfg path st r s" and "snapshot H s = (x, s')"
  shows "held H st0 p cfg path st r s'"
  using assms(1) made_kept [OF _ _ snapshot_made [OF assms(2)], of H st0 p cfg st] not_setter_netinfo by (auto simp: held_def kept_def)

lemma snapshot_settled:
  assumes "settled H st0 p path s" and "snapshot H s = (x, s')"
  shows "settled H st0 p path s'"
  using assms(1) snapshot_made [OF assms(2)] not_setter_netinfo
  by (auto simp: settled_def made_def synced_def guarded_snoc allowed_def)

lemma remove_all_held:
  assumes "held H st0 p cfg path st r s" and "clear_of dir cfg" and "outside dir path"
  shows "held H st0 p cfg path st r (s\<lparr>pb_files := remove_all dir (pb_files s)\<rparr>)"
  using assms remove_all_kept [of H st0 p cfg s st dir] by (auto simp: held_def kept_def)

lemma remove_all_settled:
  assumes "settled H st0 p path s" and "outside dir path"
  shows "settled H st0 p path (s\<lparr>pb_files := remove_all dir (pb_files s)\<rparr>)"
  using assms by (auto simp: settled_def synced_def remove_all_def outside_def)

lemma stop_process_held:
  assumes "held H st0 p cfg path st r s" and "stop_process H grace s = (e, s')"
  shows "held H st0 p cfg path st False s'" and "trace_after (pb_log s') = trace_after (pb_log s)"
  using assms(1) stop_process_kept [OF _ _ assms(2), of st0 p cfg st] by (auto simp: held_def)

lemma restoreProductionTrace_held:
  assumes "held H st0 p cfg path st False s" and "cfg = Some (ro_ConfigPath options)"
    and "clear_of (path_join runDir ''trace-restore'') cfg" and "outside (path_join runDir ''trace-restore'') path"
    and "restoreProductionTrace H options runDir s = (e, s')"
  shows "held H st0 p cfg path st False s'" and "e = None \<Longrightarrow> trace_clean p (pb_log s')"
    and "trace_clean p (pb_log s) \<Longrightarrow> trace_clean p (pb_log s')"
  using assms(1) restoreProductionTrace_kept [OF _ _ _ assms(2,3) _ assms(5), of st0 p st] assms(4)
  by (auto simp: held_def trace_clean_def)

lemma restore_trace_held:
  assumes ok: "probe_host_ok H" and h: "held H st0 p cfg path st False s" and c: "cfg = Some (ro_ConfigPath options)"
    and o: "clear_of (path_join runDir ''trace-restore'') cfg" "outside (path_join runDir ''trace-restore'') path"
    and r: "restore_trace H options runDir st s = (e, st', s')"
  shows "held H st0 p cfg path st' False s' \<and> (e = None \<longrightarrow> trace_clean p (pb_log s'))"
proof -
  obtain e1 s1 where t: "restoreProductionTrace H options runDir s = (e1, s1)" by fastforce
  note k = restoreProductionTrace_held [OF h c o t]
  show ?thesis
  proof (cases e1)
    case (Some u)
    with r t k(1) show ?thesis by (auto simp: restore_trace_def)
  next
    case None
    let ?st = "st\<lparr>rs_TraceRestoreRequired := False, rs_CompletedActions := rs_CompletedActions st @ [''production-qsh-mask-restored''],
      rs_Stage := ''trace-restored''\<rparr>"
    obtain e2 st2 s2 where w: "writeState H ?st s1 = (e2, st2, s2)" by (metis prod.exhaust)
    have "fits st0 p ?st s1" using h k(2) [OF None] by (simp add: held_def fits_def run_key_def)
    note l = writeState_held [OF ok k(1) this w]
    have "trace_clean p (pb_log s2)" using l(4) k(2) [OF None] by (simp add: trace_clean_def)
    with None r t w l(1) show ?thesis by (auto simp: restore_trace_def)
  qed
qed

lemma restoreNetwork_held:
  assumes "probe_host_ok H" and "held H st0 p cfg path st r s" and "rs_NetworkRestoreRequired st0" and "restoreNetwork H st s = (e, st', s')"
  shows "held H st0 p cfg path st' r s'" and "trace_after (pb_log s') = trace_after (pb_log s)"
    and "rs_TraceRestoreRequired st' = rs_TraceRestoreRequired st"
    and "e = None \<Longrightarrow> network_restored (rs_Snapshot st0) (settings_after (pb_log s'))"
proof -
  have "run_inv H st0 p cfg s" "fits st0 p st s" using assms(2) by (simp_all add: held_def)
  note k = restoreNetwork_kept [OF assms(1) this assms(3,4)]
  show "held H st0 p cfg path st' r s'" using held_kept [OF assms(2) k(1)] .
  show "trace_after (pb_log s') = trace_after (pb_log s)" using k(1) by (simp add: kept_def)
  show "rs_TraceRestoreRequired st' = rs_TraceRestoreRequired st" "e = None \<Longrightarrow> network_restored (rs_Snapshot st0) (settings_after (pb_log s'))"
    using k(2,3) by simp_all
qed

lemma restore_settings_held:
  assumes ok: "probe_host_ok H" and h: "held H st0 p cfg path st False s" and r: "restore_settings H (rs_NetworkRestoreRequired st0) st s = (e, st', s')"
  shows "held H st0 p cfg path st' False s'" and "trace_after (pb_log s') = trace_after (pb_log s)"
    and "e = None \<Longrightarrow> rs_NetworkRestoreRequired st0 \<longrightarrow> network_restored (rs_Snapshot st0) (settings_after (pb_log s'))"
proof (atomize (full), cases "rs_NetworkRestoreRequired st0")
  case True
  with r have "restoreNetwork H st s = (e, st', s')" by (simp add: restore_settings_def)
  from restoreNetwork_held [OF ok h True this]
  show "held H st0 p cfg path st' False s' \<and> trace_after (pb_log s') = trace_after (pb_log s) \<and>
    (e = None \<longrightarrow> rs_NetworkRestoreRequired st0 \<longrightarrow> network_restored (rs_Snapshot st0) (settings_after (pb_log s')))" by simp
next
  case False
  then obtain w where w: "writeState H (st\<lparr>rs_Stage := ''network-unchanged''\<rparr>) s = (w, st', s')"
    using r by (auto simp: restore_settings_def split: prod.splits)
  have "fits st0 p (st\<lparr>rs_Stage := ''network-unchanged''\<rparr>) s" using h by (simp add: held_def fits_def run_key_def)
  from writeState_held [OF ok h this w] False
  show "held H st0 p cfg path st' False s' \<and> trace_after (pb_log s') = trace_after (pb_log s) \<and>
    (e = None \<longrightarrow> rs_NetworkRestoreRequired st0 \<longrightarrow> network_restored (rs_Snapshot st0) (settings_after (pb_log s')))" by simp
qed

lemma correlate_trace_alike: "correlate_trace H options offset rec s = (rec', s') \<Longrightarrow> alike s s'"
  by (auto simp: correlate_trace_def Let_def alike_def dest!: alike_ask split: prod.splits if_splits option.splits)

lemma stamp_results_alike: "stamp_results H rs s = (rs', s') \<Longrightarrow> alike s s' \<and> map (\<lambda>r. r\<lparr>ml_ObservedAt := None\<rparr>) rs' = map (\<lambda>r. r\<lparr>ml_ObservedAt := None\<rparr>) rs"
  by (induction rs arbitrary: s rs' s') (fastforce simp: Let_def alike_def dest!: alike_ask split: prod.splits)+

definition fin :: "('d, 'x) probe_host_scheme \<Rightarrow> recoveryState \<Rightarrow> byte list \<Rightarrow> string option \<Rightarrow> string \<Rightarrow> 'd finish \<Rightarrow> bool" where
  "fin H st0 p cfg path fi \<longleftrightarrow> held H st0 p cfg path (fi_st fi) (fi_process fi) (fi_pb fi) \<or>
     settled H st0 p path (fi_pb fi) \<and> \<not> fi_process fi \<and> \<not> fi_trace fi"

definition success_ok :: "('d, 'x) probe_host_scheme \<Rightarrow> recoveryState \<Rightarrow> byte list \<Rightarrow> string \<Rightarrow> targetSpec \<Rightarrow> 'd finish \<Rightarrow> bool" where
  "success_ok H st0 p path target fi \<longleftrightarrow>
     (xr_Result (fi_record fi) = ''success'' \<longrightarrow> settled H st0 p path (fi_pb fi) \<and> \<not> fi_trace fi \<and> hasTargetResult (xr_ML1Results (fi_record fi)) target)"

lemma verdict_success:
  "xr_Result (verdict options failure actionErr parseErr restoreErr traceErr rec) = ''success'' \<longleftrightarrow>
     hasTargetResult (xr_ML1Results rec) (ro_Target options) \<and> actionErr = None \<and> parseErr = None \<and> restoreErr = None \<and> traceErr = None"
  "xr_ML1Results (verdict options failure actionErr parseErr restoreErr traceErr rec) = xr_ML1Results rec"
  by (auto simp: verdict_def Let_def split: option.split)

lemma verdict_serving: "xr_ServingBefore (verdict options failure actionErr parseErr restoreErr traceErr rec) = xr_ServingBefore rec"
  by (auto simp: verdict_def Let_def split: option.split)

text \<open>The two restores and the end of the journal.\<close>

definition restored_end :: "('d, 'x) probe_host_scheme \<Rightarrow> recoveryState \<Rightarrow> byte list \<Rightarrow> string option \<Rightarrow> string \<Rightarrow> bool \<Rightarrow> recoveryState \<Rightarrow> 'd probe \<Rightarrow> bool" where
  "restored_end H st0 p cfg path good st s \<longleftrightarrow> (if good then settled H st0 p path s else held H st0 p cfg path st False s)"

lemma restored_end_alike: "restored_end H st0 p cfg path good st s \<Longrightarrow> alike s s' \<Longrightarrow> restored_end H st0 p cfg path good st s'"
  by (cases good) (simp_all add: restored_end_def held_alike [where s = s] settled_alike [where s = s])

lemma restored_end_snapshot: "restored_end H st0 p cfg path good st s \<Longrightarrow> snapshot H s = (x, s') \<Longrightarrow> restored_end H st0 p cfg path good st s'"
  by (auto simp: restored_end_def dest: snapshot_held snapshot_settled)

lemma restored_end_remove: "restored_end H st0 p cfg path good st s \<Longrightarrow> clear_of dir cfg \<Longrightarrow> outside dir path \<Longrightarrow>
    restored_end H st0 p cfg path good st (s\<lparr>pb_files := remove_all dir (pb_files s)\<rparr>)"
  by (simp add: restored_end_def remove_all_held remove_all_settled)

lemma restores_end:
  assumes ok: "probe_host_ok H" and h: "held H st0 p cfg path st False s" and c: "cfg = Some (ro_ConfigPath options)"
    and o: "clear_of (path_join runDir ''trace-restore'') cfg" "outside (path_join runDir ''trace-restore'') path"
    and r1: "restore_trace H options runDir st s = (traceErr, st1, s1)" and a: "alike s1 s2"
    and r2: "restore_settings H (rs_NetworkRestoreRequired st0) st1 s2 = (e, st2, s3)"
    and r3: "(if e = None \<and> traceErr = None then close_journal H path st2 s3 else (e, st2, s3)) = (restoreErr, st3, s4)"
  shows "restored_end H st0 p cfg path (restoreErr = None \<and> traceErr = None) st3 s4"
proof -
  from restore_trace_held [OF ok h c o r1] have h1: "held H st0 p cfg path st1 False s1" and t1: "traceErr = None \<longrightarrow> trace_clean p (pb_log s1)" by simp_all
  note k = restore_settings_held [OF ok held_alike [OF h1 a] r2]
  have t3: "traceErr = None \<Longrightarrow> trace_clean p (pb_log s3)" using t1 k(2) a by (simp add: trace_clean_def alike_def)
  show ?thesis
  proof (cases "e = None \<and> traceErr = None")
    case True
    with r3 have "close_journal H path st2 s3 = (restoreErr, st3, s4)" by simp
    from close_journal_end [OF ok k(1) t3 k(3) this] True show ?thesis by (auto simp: restored_end_def)
  next
    case False
    with r3 k(1) show ?thesis by (auto simp: restored_end_def split: if_splits)
  qed
qed

lemma conclude_end:
  assumes ok: "probe_host_ok H" and h: "held H st0 p cfg (ro_StatePath options) (mo_st mo) True (mo_pb mo)" and c: "cfg = Some (ro_ConfigPath options)"
    and n: "rs_NetworkRestoreRequired st0 = changes_network (ro_Experiment options)"
    and o: "clear_of (path_join runDir ''trace-restore'') cfg" "outside (path_join runDir ''trace-restore'') (ro_StatePath options)"
    and q: "clear_of qmdlDir cfg" "outside qmdlDir (ro_StatePath options)"
  shows "\<exists>fi. conclude H options runDir qmdlDir startTime offset rec mo = Some fi \<and> fin H st0 p cfg (ro_StatePath options) fi \<and>
    success_ok H st0 p (ro_StatePath options) (ro_Target options) fi \<and> xr_ServingBefore (fi_record fi) = xr_ServingBefore rec"
proof -
  let ?path = "ro_StatePath options"
  define rec0 where "rec0 = rec\<lparr>xr_ResourceSamples := mo_samples mo, xr_FirstTargetHitMS := mo_hit mo\<rparr>"
  obtain rec1 s1 where c1: "correlate_trace H options offset rec0 (mo_pb mo) = (rec1, s1)" by fastforce
  obtain se s2 where c2: "stop_process H (ro_StopGrace options) s1 = (se, s2)" by fastforce
  have h2: "held H st0 p cfg ?path (mo_st mo) False s2"
    using stop_process_held(1) [OF held_alike [OF h correlate_trace_alike [OF c1]] c2] .
  obtain final pe s3 where c3: "analyze_capture H qmdlDir (ro_Target options) s2 = Some ((final, pe), s3)" "alike s2 s3"
    using analyze_capture_alike by blast
  obtain results s4 where c4: "stamp_results H (mt_Results (if pe = None then final else mo_metrics mo)) s3 = (results, s4)" by fastforce
  obtain now5 s5 where c5: "ask (h_now H) s4 = (now5, s5)" by fastforce
  have h5: "held H st0 p cfg ?path (mo_st mo) False s5"
    using held_alike [OF held_alike [OF held_alike [OF h2 c3(2)]] alike_ask [OF c5]] stamp_results_alike [OF c4] by simp
  obtain traceErr st6 s6 where c6: "restore_trace H options runDir (mo_st mo) s5 = (traceErr, st6, s6)" by (metis prod.exhaust)
  obtain rstart s7 where c7: "ask (h_now H) s6 = (rstart, s7)" by fastforce
  obtain e8 st8 s8 where c8: "restore_settings H (changes_network (ro_Experiment options)) st6 s7 = (e8, st8, s8)" by (metis prod.exhaust)
  obtain restoreErr st9 s9 where c9: "(if e8 = None \<and> traceErr = None then close_journal H ?path st8 s8 else (e8, st8, s8)) = (restoreErr, st9, s9)"
    by (metis prod.exhaust)
  let ?good = "restoreErr = None \<and> traceErr = None"
  have h9: "restored_end H st0 p cfg ?path ?good st9 s9"
    by (rule restores_end [OF ok h5 c o c6 alike_ask [OF c7] _ c9]) (simp add: n c8)
  obtain now10 s10 where c10: "ask (h_now H) s9 = (now10, s10)" by fastforce
  obtain after s11 where c11: "snapshot H s10 = (after, s11)" by fastforce
  obtain now12 s12 where c12: "ask (h_now H) s11 = (now12, s12)" by fastforce
  have h12: "restored_end H st0 p cfg ?path ?good st9 s12"
    by (rule restored_end_alike [OF restored_end_snapshot [OF restored_end_alike [OF h9 alike_ask [OF c10]] c11] alike_ask [OF c12]])
  define s13 where "s13 = (if ro_KeepCaptures options then s12 else s12\<lparr>pb_files := remove_all qmdlDir (pb_files s12)\<rparr>)"
  have h13: "restored_end H st0 p cfg ?path ?good st9 s13" using h12 restored_end_remove [OF h12 q] by (simp add: s13_def)
  define rec11 where "rec11 = (let r = (report_metrics (if pe = None then final else mo_metrics mo) results rec1)
      \<lparr>xr_CaptureDurationMS := Milliseconds (now5 - startTime), xr_RestoreDurationMS := Milliseconds (now10 - rstart), xr_RestoreSucceeded := ?good\<rparr>
    in case after of Inr sn \<Rightarrow> r\<lparr>xr_ServingAfterRestore := Some sn\<rparr> | Inl _ \<Rightarrow> r)"
  define rec12 where "rec12 = (verdict options (mo_failure mo) (map_option fst (mo_actionErr mo)) pe restoreErr traceErr rec11)\<lparr>xr_FinishedAt := now12\<rparr>"
  define rec13 where "rec13 = (if ro_KeepCaptures options then rec12 else rec12\<lparr>xr_CaptureDirectory := []\<rparr>)"
  have "\<exists>err. conclude H options runDir qmdlDir startTime offset rec mo =
      Some \<lparr>fi_record = rec13, fi_err = err, fi_process = False, fi_trace = (traceErr \<noteq> None), fi_st = st9, fi_pb = s13\<rparr>"
    using c1 c2 c3(1) c4 c5 c6 c7 c8 c9 c10 c11 c12
    by (simp add: conclude_def rec0_def Let_def rec11_def rec12_def rec13_def s13_def)
  then obtain err where e: "conclude H options runDir qmdlDir startTime offset rec mo =
      Some \<lparr>fi_record = rec13, fi_err = err, fi_process = False, fi_trace = (traceErr \<noteq> None), fi_st = st9, fi_pb = s13\<rparr>" by blast
  have v: "xr_Result rec13 = ''success'' \<longrightarrow> ?good \<and> hasTargetResult (xr_ML1Results rec13) (ro_Target options)"
    by (simp add: rec13_def rec12_def verdict_success)
  have "xr_ServingBefore rec1 = xr_ServingBefore rec"
    using c1 by (auto simp: correlate_trace_def rec0_def Let_def split: if_splits prod.splits option.splits)
  then have "xr_ServingBefore rec13 = xr_ServingBefore rec"
    by (simp add: rec13_def rec12_def verdict_serving rec11_def report_metrics_def Let_def split: sum.split)
  then show ?thesis using e v h13 by (auto simp: fin_def success_ok_def restored_end_def split: if_splits)
qed

section \<open>The run\<close>

lemma outside_sub:
  assumes "outside base path" and "base \<noteq> []" and "x \<noteq> []"
  shows "outside (path_join base x) path"
  using assms by (auto simp: outside_def path_join_def HasPrefix_iff)

text \<open>The run's own directory lies below \<^verbatim>\<open>captures\<close> of the work directory; the journal and the configuration do not.\<close>

definition run_paths :: "runOptions \<Rightarrow> bool" where
  "run_paths options \<longleftrightarrow> ro_StatePath options \<noteq> [] \<and> \<not> probe_temp (ro_StatePath options) \<and> \<not> probe_temp (ro_ConfigPath options) \<and>
     ro_ConfigPath options \<noteq> ro_StatePath options \<and>
     outside (path_join (ro_WorkDir options) ''captures'') (ro_StatePath options) \<and>
     outside (path_join (ro_WorkDir options) ''captures'') (ro_ConfigPath options)"

definition clear_dir :: "runOptions \<Rightarrow> string \<Rightarrow> bool" where
  "clear_dir options dir \<longleftrightarrow> outside dir (ro_StatePath options) \<and> outside dir (ro_ConfigPath options) \<and> dir \<noteq> []"

lemma clear_dir_sub: "clear_dir options dir \<Longrightarrow> x \<noteq> [] \<Longrightarrow> clear_dir options (path_join dir x)"
  by (auto simp: clear_dir_def outside_sub) (simp add: path_join_def split: if_splits)

lemma run_paths_clear: "run_paths options \<Longrightarrow> clear_dir options (path_join (ro_WorkDir options) ''captures'')"
  by (simp add: run_paths_def clear_dir_def path_join_def)

text \<open>Options without which the tool panics.\<close>

definition accepted :: "runOptions \<Rightarrow> bool" where
  "accepted options \<longleftrightarrow> (ro_Experiment options = experimentF \<longrightarrow> tg_PCI (ro_Target options) \<noteq> None) \<and> 0 < ro_Poll options"

text \<open>What is fixed during a run.\<close>

definition run_frame :: "'d run_host \<Rightarrow> runOptions \<Rightarrow> string \<Rightarrow> recoveryState \<Rightarrow> bool" where
  "run_frame H options runDir st0 \<longleftrightarrow> probe_host_ok H \<and> clear_dir options runDir \<and>
     rs_NetworkRestoreRequired st0 = changes_network (ro_Experiment options) \<and>
     accepted options"

definition ends :: "'d run_host \<Rightarrow> runOptions \<Rightarrow> recoveryState \<Rightarrow> byte list \<Rightarrow> experimentRecord \<Rightarrow> 'd finish \<Rightarrow> bool" where
  "ends H options st0 p rec fi \<longleftrightarrow> fin H st0 p (Some (ro_ConfigPath options)) (ro_StatePath options) fi \<and>
     success_ok H st0 p (ro_StatePath options) (ro_Target options) fi \<and> xr_ServingBefore (fi_record fi) = xr_ServingBefore rec"

text \<open>The flag of the poll interval is not checked, so a run can panic with the logger running.\<close>

lemma poll_panics: "ro_Poll options \<le> 0 \<Longrightarrow> measured H options runDir sn rec st s = None"
  by (cases "experiment_steps options sn") (simp_all add: measured_def Let_def split: prod.split)

lemma measured_end:
  assumes f: "run_frame H options runDir st0" and h: "held H st0 p (Some (ro_ConfigPath options)) (ro_StatePath options) st True s"
  shows "\<exists>fi. measured H options runDir sn rec st s = Some fi \<and> ends H options st0 p rec fi"
proof -
  have ok: "probe_host_ok H" and n: "rs_NetworkRestoreRequired st0 = changes_network (ro_Experiment options)" using f by (simp_all add: run_frame_def)
  let ?cfg = "Some (ro_ConfigPath options)" and ?qmdl = "path_join runDir ''qmdl''"
  have d: "clear_dir options ?qmdl" "clear_dir options (path_join runDir ''trace-restore'')"
    using f by (simp_all add: run_frame_def clear_dir_sub)
  obtain tf s1 where a1: "ask (h_text H (ro_QMITracePath options)) s = (tf, s1)" by fastforce
  obtain start s2 where a2: "ask (h_now H) s1 = (start, s2)" by fastforce
  obtain evs s3 where a3: "ask (h_schedule H) s2 = (evs, s3)" by fastforce
  have h3: "held H st0 p ?cfg (ro_StatePath options) st True s3"
    using held_alike [OF held_alike [OF held_alike [OF h alike_ask [OF a1]] alike_ask [OF a2]] alike_ask [OF a3]] .
  obtain steps where st: "experiment_steps options sn = Some steps"
    using f by (cases "ro_Experiment options") (auto simp: experiment_steps_def run_frame_def accepted_def)
  have poll: "\<not> ro_Poll options \<le> 0" using f by (simp add: run_frame_def accepted_def)
  let ?mo = "\<lparr>mo_steps = steps, mo_channel = None, mo_open = True, mo_st = st, mo_pb = s3, mo_metrics = no_metrics, mo_samples = [], mo_hit = None,
            mo_actionErr = None, mo_failure = []\<rparr>"
  have "kept H st0 p ?cfg s3 st s3" using h3 by (intro kept_alike) (simp_all add: held_def)
  then have "mon_kept H st0 p ?cfg s3 ?mo" using experiment_steps_calm [OF st] n by (auto simp: mon_kept_def)
  from monitor_loop_kept [OF ok this] obtain mo1 where m1: "monitor_loop H options ?qmdl start evs ?mo = Some mo1" "mon_kept H st0 p ?cfg s3 mo1" by blast
  from await_action_kept [OF ok m1(2)] obtain mo2 where m2: "await_action H options mo1 = Some mo2" "mon_kept H st0 p ?cfg s3 mo2" by blast
  have "held H st0 p ?cfg (ro_StatePath options) (mo_st mo2) True (mo_pb mo2)" using held_kept [OF h3] m2(2) by (simp add: mon_kept_def)
  from conclude_end [OF ok this refl n, where runDir = runDir and qmdlDir = ?qmdl] d
  have "\<exists>fi. conclude H options runDir ?qmdl start (traceFileOffset (ro_QMITracePath options) (tf_stat tf)) rec mo2 = Some fi \<and> ends H options st0 p rec fi"
    by (auto simp: ends_def clear_dir_def clear_of_def)
  then show ?thesis using a1 a2 a3 st poll m1(1) m2(1) by (simp add: measured_def Let_def)
qed

lemma startDiagMDLog_held:
  assumes "held H st0 p cfg path st False s" and "startDiagMDLog H options config out logp s = (e, s')"
    and "rs_TraceRestoreRequired st" and "rs_TraceRestoreRequired (the (journal_after (pb_log s)))"
  shows "held H st0 p cfg path st (e = None) s'"
  using assms(1) startDiagMDLog_kept [OF _ _ assms(2), of st0 p cfg st] assms(3,4) by (auto simp: held_def)

lemma journaled_run_end:
  assumes f: "run_frame H options runDir st0" and h: "held H st0 p (Some (ro_ConfigPath options)) (ro_StatePath options) st False s"
    and r: "xr_Result rec = []"
  shows "\<exists>fi. journaled_run H options runDir activeConfig sn rec st s = Some fi \<and> ends H options st0 p rec fi"
proof -
  let ?cfg = "Some (ro_ConfigPath options)" and ?path = "ro_StatePath options"
  have ok: "probe_host_ok H" using f by (simp add: run_frame_def)
  let ?st = "st\<lparr>rs_TraceRestoreRequired := True, rs_Stage := ''active-trace-starting''\<rparr>"
  obtain e1 st1 s1 where w1: "writeState H ?st s = (e1, st1, s1)" by (metis prod.exhaust)
  have "fits st0 p ?st s" using h by (simp add: held_def fits_def run_key_def)
  note k1 = writeState_held [OF ok h this w1]
  have early: "ends H options st0 p rec \<lparr>fi_record = rec, fi_err = e, fi_process = b, fi_trace = t, fi_st = st', fi_pb = s'\<rparr>"
    if "held H st0 p ?cfg ?path st' b s'" for e b t st' s'
    using that r by (simp add: ends_def fin_def success_ok_def)
  show ?thesis
  proof (cases e1)
    case (Some t)
    with w1 early [OF k1(1)] show ?thesis by (simp add: journaled_run_def)
  next
    case None
    obtain e2 s2 where d: "startDiagMDLog H options activeConfig (path_join runDir ''qmdl'') (path_join runDir ''diag-mdlog.log'') s1 = (e2, s2)" by fastforce
    have t1: "rs_TraceRestoreRequired st1" "rs_TraceRestoreRequired (the (journal_after (pb_log s1)))" using k1(2) k1(3) [OF None] by simp_all
    note h2 = startDiagMDLog_held [OF k1(1) d t1]
    show ?thesis
    proof (cases e2)
      case (Some t)
      let ?st2 = "st1\<lparr>rs_Status := ''failed'', rs_Stage := ''diag-start'', rs_LastError := t\<rparr>"
      obtain e3 st3 s3 where w3: "writeState H ?st2 s2 = (e3, st3, s3)" by (metis prod.exhaust)
      have "fits st0 p ?st2 s2" using h2 t1 by (simp add: held_def fits_def run_key_def)
      note k3 = writeState_held [OF ok h2 this w3]
      show ?thesis using Some None w1 d w3 early k3(1) by (simp add: journaled_run_def)
    next
      case e2: None
      let ?st2 = "st1\<lparr>rs_Stage := ''active-trace-running''\<rparr>"
      obtain e3 st3 s3 where w3: "writeState H ?st2 s2 = (e3, st3, s3)" by (metis prod.exhaust)
      have "fits st0 p ?st2 s2" using h2 t1 by (simp add: held_def fits_def run_key_def)
      note k3 = writeState_held [OF ok h2 this w3]
      obtain w s4 where w4: "waitContext H (ro_Settle options) s3 = (w, s4)" by fastforce
      have h4: "held H st0 p ?cfg ?path st3 True s4" using held_alike [OF k3(1), of s4] w4 e2 by (auto simp: waitContext_def dest: alike_ask)
      show ?thesis
      proof (cases w)
        case None
        with \<open>e1 = None\<close> e2 w1 d w3 w4 measured_end [OF f h4] show ?thesis by (simp add: journaled_run_def)
      next
        case (Some x)
        with \<open>e1 = None\<close> e2 w1 d w3 w4 early [OF h4] show ?thesis by (cases x) (simp add: journaled_run_def)
      qed
    qed
  qed
qed

text \<open>The deferred function ends with the journal held and no logger running, or with the journal given up; a successful run was
  settled before it and stays so.\<close>

lemma deferred_stop_end:
  assumes "ends H options st0 p rec fi"
  shows "ends H options st0 p rec (if fi_process fi then fi\<lparr>fi_process := False, fi_pb := snd (stop_process H (ro_StopGrace options) (fi_pb fi))\<rparr> else fi)"
proof (cases "fi_process fi")
  case True
  obtain e s' where s: "stop_process H (ro_StopGrace options) (fi_pb fi) = (e, s')" by fastforce
  have h: "held H st0 p (Some (ro_ConfigPath options)) (ro_StatePath options) (fi_st fi) (fi_process fi) (fi_pb fi)"
    using assms True by (auto simp: ends_def fin_def)
  then have n: "\<not> settled H st0 p (ro_StatePath options) (fi_pb fi)" using True by (auto simp: held_def settled_def)
  from stop_process_held(1) [OF h s] show ?thesis using True assms s n by (auto simp: ends_def fin_def success_ok_def)
qed (use assms in simp)

lemma deferred_trace_end:
  assumes f: "run_frame H options runDir st0" and e: "ends H options st0 p rec fi" and np: "\<not> fi_process fi"
  shows "ends H options st0 p rec (deferred_trace H options runDir fi) \<and> \<not> fi_process (deferred_trace H options runDir fi)"
proof (cases "fi_trace fi")
  case True
  let ?cfg = "Some (ro_ConfigPath options)" and ?path = "ro_StatePath options"
  have ok: "probe_host_ok H" using f by (simp add: run_frame_def)
  have h: "held H st0 p ?cfg ?path (fi_st fi) False (fi_pb fi)" using e True np by (auto simp: ends_def fin_def)
  have ns: "xr_Result (fi_record fi) \<noteq> ''success''" using e True by (auto simp: ends_def success_ok_def)
  have d: "clear_dir options (path_join runDir ''trace-restore'')" using f by (simp add: run_frame_def clear_dir_sub)
  obtain e1 s1 where r: "restoreProductionTrace H options runDir (fi_pb fi) = (e1, s1)" by fastforce
  note k = restoreProductionTrace_held [OF h refl _ _ r]
  have c: "clear_of (path_join runDir ''trace-restore'') ?cfg" "outside (path_join runDir ''trace-restore'') ?path"
    using d by (auto simp: clear_dir_def clear_of_def)
  show ?thesis
  proof (cases e1)
    case (Some t)
    with True r k(1) [OF c] ns e np show ?thesis by (simp add: deferred_trace_def ends_def fin_def success_ok_def)
  next
    case None
    let ?st = "(fi_st fi)\<lparr>rs_TraceRestoreRequired := False\<rparr>"
    obtain e2 st2 s2 where w: "writeState H ?st s1 = (e2, st2, s2)" by (metis prod.exhaust)
    have "fits st0 p ?st s1" using h k(2) [OF c None] by (simp add: held_def fits_def run_key_def)
    from writeState_held(1) [OF ok k(1) [OF c] this w] show ?thesis
      using True None r w ns e np by (simp add: deferred_trace_def ends_def fin_def success_ok_def)
  qed
qed (use e np in \<open>simp add: deferred_trace_def\<close>)

definition over :: "('d, 'x) probe_host_scheme \<Rightarrow> runOptions \<Rightarrow> recoveryState \<Rightarrow> byte list \<Rightarrow> 'd probe \<Rightarrow> bool" where
  "over H options st0 p s \<longleftrightarrow> settled H st0 p (ro_StatePath options) s \<or> (\<exists>st. held H st0 p (Some (ro_ConfigPath options)) (ro_StatePath options) st False s)"

lemma remove_file_over:
  assumes "held H st0 p (Some (ro_ConfigPath options)) (ro_StatePath options) st False s" and "\<not> rs_TraceRestoreRequired st"
    and "rs_NetworkRestoreRequired st0 \<longrightarrow> network_restored (rs_Snapshot st0) (settings_after (pb_log s))"
  shows "over H options st0 p (snd (remove_file H (ro_StatePath options) s))"
proof -
  obtain r s' where r: "remove_file H (ro_StatePath options) s = (r, s')" by fastforce
  have "trace_clean p (pb_log s)" using assms(1,2) by (simp add: held_def fits_def)
  from remove_file_end [OF assms(1) this assms(3) r] show ?thesis using r by (auto simp: over_def)
qed

lemma deferred_network_end:
  assumes f: "run_frame H options runDir st0" and e: "ends H options st0 p rec fi" and np: "\<not> fi_process fi"
  shows "over H options st0 p (fi_pb (deferred_network H options fi)) \<and> fi_record (deferred_network H options fi) = fi_record fi \<and>
    (xr_Result (fi_record fi) = ''success'' \<longrightarrow> settled H st0 p (ro_StatePath options) (fi_pb (deferred_network H options fi)))"
proof -
  let ?cfg = "Some (ro_ConfigPath options)" and ?path = "ro_StatePath options"
  have ok: "probe_host_ok H" and n: "rs_NetworkRestoreRequired st0 = changes_network (ro_Experiment options)" using f by (simp_all add: run_frame_def)
  obtain found s1 where a: "ask (h_stat H ?path) (fi_pb fi) = (found, s1)" by fastforce
  note al = alike_ask [OF a]
  consider "settled H st0 p ?path (fi_pb fi)" | "held H st0 p ?cfg ?path (fi_st fi) False (fi_pb fi)"
    using e np by (auto simp: ends_def fin_def)
  then show ?thesis
  proof cases
    case 1
    from settled_alike [OF this al] have "settled H st0 p ?path s1" .
    moreover from this have "pb_files s1 ?path = None" by (auto simp: settled_def synced_def)
    ultimately show ?thesis using a by (simp add: deferred_network_def over_def Let_def)
  next
    case 2
    have ns: "xr_Result (fi_record fi) \<noteq> ''success''"
      using e 2 by (auto simp: ends_def success_ok_def settled_def held_def run_inv_def journal_held_def)
    note h = held_alike [OF 2 al]
    obtain e2 st2 s2 where r: "restoreNetwork H (fi_st fi) s1 = (e2, st2, s2)" by (metis prod.exhaust)
    have k: "held H st0 p ?cfg ?path st2 False s2" "e2 = None \<Longrightarrow> network_restored (rs_Snapshot st0) (settings_after (pb_log s2))"
      if "changes_network (ro_Experiment options)" using restoreNetwork_held [OF ok h _ r] that n by simp_all
    have x: "over H options st0 p s1" "\<And>st. changes_network (ro_Experiment options) \<Longrightarrow> over H options st0 p s2"
      using h k(1) by (auto simp: over_def)
    show ?thesis
      using a r ns x remove_file_over [OF h] remove_file_over [OF k(1)] k(2) n
      by (cases e2) (auto simp: deferred_network_def Let_def)
  qed
qed

lemma deferred_end:
  assumes f: "run_frame H options runDir st0" and e: "ends H options st0 p rec fi"
  shows "over H options st0 p (fi_pb (deferred H options runDir fi)) \<and> xr_ServingBefore (fi_record (deferred H options runDir fi)) = xr_ServingBefore rec \<and>
    (xr_Result (fi_record (deferred H options runDir fi)) = ''success'' \<longrightarrow> settled H st0 p (ro_StatePath options) (fi_pb (deferred H options runDir fi)) \<and>
      hasTargetResult (xr_ML1Results (fi_record (deferred H options runDir fi))) (ro_Target options))"
proof -
  define fi1 where "fi1 = (if fi_process fi then fi\<lparr>fi_process := False, fi_pb := snd (stop_process H (ro_StopGrace options) (fi_pb fi))\<rparr> else fi)"
  have e1: "ends H options st0 p rec fi1" "\<not> fi_process fi1" using deferred_stop_end [OF e] by (simp_all add: fi1_def)
  from deferred_trace_end [OF f e1] have e2: "ends H options st0 p rec (deferred_trace H options runDir fi1)" "\<not> fi_process (deferred_trace H options runDir fi1)"
    by simp_all
  from deferred_network_end [OF f e2] e2(1) show ?thesis by (simp add: deferred_def fi1_def ends_def success_ok_def)
qed

definition untouched :: "probe_event list \<Rightarrow> bool" where
  "untouched l \<longleftrightarrow> \<not> list_ex changing l \<and> trace_after l = None \<and> journal_after l = None"

text \<open>A run ended before it touched anything, or it is over as a transaction of a journal that holds the snapshot and the
  configuration.\<close>

definition ran_ok :: "'d run_host \<Rightarrow> runOptions \<Rightarrow> byte list \<Rightarrow> experimentRecord \<Rightarrow> 'd probe \<Rightarrow> bool" where
  "ran_ok H options p rec s \<longleftrightarrow> untouched (pb_log s) \<and> xr_Result rec = [] \<or>
     (\<exists>st0. over H options st0 p s \<and> rs_Schema st0 = stateSchema \<and> rs_NetworkRestoreRequired st0 = changes_network (ro_Experiment options) \<and>
       rs_ProductionQTraceBase64 st0 = b64_EncodeToString p \<and> xr_ServingBefore rec = Some (rs_Snapshot st0) \<and>
       (xr_Result rec = ''success'' \<longrightarrow> settled H st0 p (ro_StatePath options) s \<and> hasTargetResult (xr_ML1Results rec) (ro_Target options)))"

lemma returned_eqs:
  "snd (returned fi) = fi_pb fi" "xr_ServingBefore (fst (fst (returned fi))) = xr_ServingBefore (fi_record fi)"
  "xr_Result (fst (fst (returned fi))) = xr_Result (fi_record fi)" "xr_ML1Results (fst (fst (returned fi))) = xr_ML1Results (fi_record fi)"
  by (simp_all add: returned_def Let_def)

lemma first_write:
  assumes ok: "probe_host_ok H" and sync: "synced H s" and l: "pb_log s = [Call ''nwinfo_get_netinfo'' [] b]"
    and c: "pb_files s cfg = Some p" "cfg \<noteq> pb_StatePath s" "\<not> probe_temp cfg"
    and st: "st0 = first_journal options runID sn p now" and w: "writeState H st0 s = (None, st, s')"
  shows "held H st0 p (Some cfg) (pb_StatePath s) st False s'"
proof -
  from writeState_effect [OF ok sync w] have a: "advanced H st0 s st s'" and l': "pb_log s' = pb_log s @ [Journal st]" by simp_all
  have k: "run_key st = run_key st0" using a by (simp add: advanced_def)
  have g: "guarded st0 p (pb_log s')" unfolding l' l
    using k not_setter_netinfo guarded_snoc [of st0 p "[]" "Call ''nwinfo_get_netinfo'' [] b"] trace_clean_snoc [of p "[]" "Call ''nwinfo_get_netinfo'' [] b"]
    by (simp add: guarded_snoc [of st0 p "[x]" for x, simplified] allowed_def trace_clean_def)
  moreover have "trace_clean p (pb_log s')" "\<not> running_after (pb_log s')" unfolding l' l
    by (simp_all add: trace_clean_def trace_after_def running_after_def)
  moreover have "journal_held st0 (pb_log s')" unfolding l' using k by (simp add: journal_held_def)
  moreover have "pb_files s' cfg = Some p" "pb_StatePath s' = pb_StatePath s" "synced H s'" using a c by (auto simp: advanced_def)
  ultimately show ?thesis using k c by (simp add: held_def run_inv_def fits_def)
qed

lemma snapshot_run_ok:
  assumes ok: "probe_host_ok H" and paths: "run_paths options" and dir: "clear_dir options runDir"
    and pci: "accepted options"
    and files: "pb_files s (ro_ConfigPath options) = Some p" "pb_files s (ro_StatePath options) = None" and l: "pb_log s = []"
  shows "\<exists>rec e s'. snapshot_run H options runID runDir activeConfig p s = Some ((rec, e), s') \<and> ran_ok H options p rec s'"
proof -
  define s0 where "s0 = s\<lparr>pb_UBUS := ro_UBUS options, pb_StatePath := ro_StatePath options, pb_Actions := None, pb_QMIEvents := None\<rparr>"
  obtain r s1 where a1: "snapshot H s0 = (r, s1)" by fastforce
  from snapshot_made [OF a1] obtain b where s1: "pb_files s1 = pb_files s" "pb_StatePath s1 = ro_StatePath options" "pb_log s1 = [Call ''nwinfo_get_netinfo'' [] b]"
    using l by (auto simp: made_def s0_def)
  have un: "untouched [Call ''nwinfo_get_netinfo'' [] b]"
    using not_setter_netinfo by (simp add: untouched_def changing_def trace_after_def journal_after_def)
  show ?thesis
  proof (cases r)
    case (Inl f)
    obtain t c where "f = (t, c)" by fastforce
    with Inl a1 have "snapshot_run H options runID runDir activeConfig p s = Some ((zero_record, Some (''snapshot network state: '' @ t)), s1)"
      by (simp add: snapshot_run_def s0_def del: append.simps append_Cons)
    then show ?thesis using un s1(3) by (auto simp: ran_ok_def zero_record_def)
  next
    case (Inr sn)
    obtain started s2 where a2: "ask (h_now H) s1 = (started, s2)" by fastforce
    define s3 where "s3 = s2\<lparr>pb_Actions := Some [], pb_QMIEvents := Some []\<rparr>"
    obtain created s4 where a4: "ask (h_now H) s3 = (created, s4)" by fastforce
    define st0 where "st0 = first_journal options runID sn p created"
    define rc where "rc = first_record options runID runDir sn started"
    obtain e st s5 where w: "writeState H st0 s4 = (e, st, s5)" by (metis prod.exhaust)
    have s4: "pb_files s4 = pb_files s" "pb_StatePath s4 = ro_StatePath options" "pb_log s4 = [Call ''nwinfo_get_netinfo'' [] b]"
      using s1 askE [OF a2] askE [OF a4] by (simp_all add: s3_def)
    have sync: "synced H s4" using s4 paths files(2) by (simp add: synced_def run_paths_def journal_after_def journal_step_def)
    have rec: "xr_Result rc = []" "xr_ServingBefore rc = Some (rs_Snapshot st0)"
      by (simp_all add: rc_def first_record_def zero_record_def st0_def first_journal_def)
    have eq: "snapshot_run H options runID runDir activeConfig p s =
      (case e of Some t \<Rightarrow> Some ((rc, Some t), s5)
       | None \<Rightarrow> do { fi \<leftarrow> journaled_run H options runDir activeConfig sn rc st s5; Some (returned (deferred H options runDir fi)) })"
      using a1 Inr a2 a4 w by (cases e) (simp_all add: snapshot_run_def s0_def s3_def st0_def rc_def Let_def)
    show ?thesis
    proof (cases e)
      case (Some t)
      with writeState_effect [OF ok sync w] s4(3) un rec eq show ?thesis by (simp add: ran_ok_def)
    next
      case None
      have "pb_files s4 (ro_ConfigPath options) = Some p" "ro_ConfigPath options \<noteq> pb_StatePath s4" "\<not> probe_temp (ro_ConfigPath options)"
        using s4 files(1) paths by (simp_all add: run_paths_def)
      from first_write [OF ok sync s4(3) this st0_def w [unfolded None]]
      have h: "held H st0 p (Some (ro_ConfigPath options)) (ro_StatePath options) st False s5" using s4(2) by simp
      have n: "rs_NetworkRestoreRequired st0 = changes_network (ro_Experiment options)" "rs_Schema st0 = stateSchema"
        "rs_ProductionQTraceBase64 st0 = b64_EncodeToString p" by (simp_all add: st0_def first_journal_def)
      have f: "run_frame H options runDir st0" using ok dir pci n by (simp add: run_frame_def)
      obtain fi where j: "journaled_run H options runDir activeConfig sn rc st s5 = Some fi" "ends H options st0 p rc fi"
        using journaled_run_end [OF f h rec(1)] by blast
      obtain r2 e2 s6 where x: "returned (deferred H options runDir fi) = ((r2, e2), s6)" by (metis prod.exhaust)
      from deferred_end [OF f j(2)] returned_eqs [of "deferred H options runDir fi"] x rec(2)
      have "over H options st0 p s6" "xr_ServingBefore r2 = Some (rs_Snapshot st0)"
        "xr_Result r2 = ''success'' \<longrightarrow> settled H st0 p (ro_StatePath options) s6 \<and> hasTargetResult (xr_ML1Results r2) (ro_Target options)" by auto
      then have "ran_ok H options p r2 s6" unfolding ran_ok_def using n by blast
      with eq None j(1) x show ?thesis by simp
    qed
  qed
qed

end
