(* ===== verification/Probe_Recovery.thy ===== *)
theory Probe_Recovery
  imports Probe_Transaction
begin

text \<open>
  The two entry points of the probe that change the device: an experiment, which is a transaction that is
  crash safe at every point of its log, and the recovery, which ends the transaction of a journal.
\<close>

section \<open>Before the first journal\<close>

lemma pendingRecovery_cases:
  assumes "pendingRecovery H path s = (r, s')"
  shows "alike s s'" and "r = Inr None \<Longrightarrow> pb_files s path = None"
  using assms by (auto simp: pendingRecovery_def loadRecoveryState_def Let_def split: prod.splits option.splits sum.splits if_splits dest!: alike_ask)

lemma resourcePreflight_alike: "resourcePreflight H options s = (e, s') \<Longrightarrow> alike s s'"
  by (auto simp: resourcePreflight_def Let_def split: prod.splits sum.splits if_splits dest!: alike_ask intro: alike_trans)

lemma read_file_cases:
  assumes "read_file H path s = (r, s')"
  shows "alike s s'" and "r = Inr data \<Longrightarrow> pb_files s path = Some data"
  using assms by (auto simp: read_file_def Let_def split: prod.splits option.splits dest!: alike_ask)

lemma buildActiveQTrace_files:
  assumes "probe_temp_ok w"
  shows "\<exists>r fs'. buildActiveQTrace sha w source data out fs = Some (r, fs') \<and> (\<forall>q. q \<noteq> out \<longrightarrow> \<not> probe_temp q \<longrightarrow> fs' q = fs q)"
proof (cases data)
  case (Inr bytes)
  obtain r where r: "patchActiveQTrace sha bytes = Some r" using patch_active_spec by blast
  show ?thesis
  proof (cases r)
    case r2: (Inr z)
    obtain active result where z: "z = (active, result)" by fastforce
    obtain e fs' where f: "writeFileAtomic_probe w out active fs = (e, fs')" by fastforce
    have tmp: "\<And>t. wf_temp w = Inr t \<Longrightarrow> probe_temp t" using assms by (simp add: probe_temp_ok_def)
    have "fs' q = fs q" if "q \<noteq> out" "\<not> probe_temp q" for q
      using f that tmp by (auto simp: writeFileAtomic_probe_def abandon_probe_def Let_def split: option.splits sum.splits prod.splits if_splits)
    then show ?thesis using Inr r r2 z f by (simp add: buildActiveQTrace_def)
  qed (use Inr r in \<open>simp add: buildActiveQTrace_def\<close>)
qed (simp add: buildActiveQTrace_def)

definition early :: "experimentRecord \<Rightarrow> 'd probe \<Rightarrow> bool" where
  "early rec s \<longleftrightarrow> pb_log s = [] \<and> xr_Result rec = []"

lemma early_ok: "early rec s \<Longrightarrow> ran_ok H options p rec s"
  by (simp add: early_def ran_ok_def untouched_def trace_after_def)

lemma nowRunID_nonempty: "nowRunID x now \<noteq> []"
  by (cases x) (simp_all add: nowRunID_def experiment_name_def split: prod.split)

lemma outside_inner: "outside dir path \<Longrightarrow> path \<noteq> path_join (path_join dir x) y" if "dir \<noteq> []" "x \<noteq> []"
  using that by (auto simp: outside_def path_join_def HasPrefix_iff)


lemma zero_early [simp]: "early zero_record s \<longleftrightarrow> pb_log s = []"
  by (simp add: early_def zero_record_def)

definition ran_from :: "'d run_host \<Rightarrow> runOptions \<Rightarrow> 'd probe \<Rightarrow> 'd ran \<Rightarrow> bool" where
  "ran_from H options s z \<longleftrightarrow> (\<exists>rec e s'. z = Some ((rec, e), s') \<and>
     (early rec s' \<or> (\<exists>p. pb_files s (ro_ConfigPath options) = Some p \<and> ran_ok H options p rec s')))"

lemma ran_early: "pb_log s' = [] \<Longrightarrow> ran_from H options s (Some ((zero_record, e), s'))"
  by (simp add: ran_from_def)

lemma ran_ok_alike:
  assumes "alike s s'" and "ran_ok H options p rec s"
  shows "ran_ok H options p rec s'"
proof -
  have "over H options st0 p s'" if "over H options st0 p s" for st0
    using that settled_alike [OF _ assms(1), of H] held_alike [OF _ assms(1), of H] unfolding over_def by blast
  moreover have "untouched (pb_log s') = untouched (pb_log s)" using assms(1) by (simp add: alike_def)
  ultimately show ?thesis using assms(2) settled_alike [OF _ assms(1), of H] unfolding ran_ok_def by metis
qed

text \<open>From the configuration on.\<close>

lemma configured_run_ok:
  assumes ok: "probe_host_ok H" and paths: "run_paths options" and l: "pb_log s = []"
    and pci: "accepted options"
    and none: "pb_files s (ro_StatePath options) = None" and id: "runID \<noteq> []"
    and dir: "runDir = path_join (path_join (ro_WorkDir options) ''captures'') runID" and out: "activeConfig = path_join runDir ''qtrace-active.cfg''"
    and src: "read_file H (ro_ConfigPath options) s = (source, s1)" and w: "ask (h_write H activeConfig) s1 = (wr, s2)"
  shows "ran_from H options s (do {
        (r, fs) \<leftarrow> buildActiveQTrace (h_sha256 H) wr (ro_ConfigPath options) source activeConfig (pb_files s2);
        let s = s2\<lparr>pb_files := fs\<rparr>;
        case r of
          Inl t \<Rightarrow> Some ((zero_record, Some t), s)
        | Inr _ \<Rightarrow>
            (let (production, s) = read_file H (ro_ConfigPath options) s in
             case production of
               Inl t \<Rightarrow> Some ((zero_record, Some (''read production qtrace for recovery journal: '' @ t)), s)
             | Inr production \<Rightarrow> snapshot_run H options runID runDir activeConfig production s) })"
proof -
  let ?cap = "path_join (ro_WorkDir options) ''captures''"
  have a: "alike s s2" using alike_trans [OF read_file_cases(1) [OF src] alike_ask [OF w]] .
  have "wr = fst (h_write H activeConfig (pb_dev s1))" using w by (simp add: ask_def split: prod.splits)
  then have "probe_temp_ok wr" using ok by (simp add: probe_host_ok_def)
  from buildActiveQTrace_files [OF this] obtain r fs
    where b: "buildActiveQTrace (h_sha256 H) wr (ro_ConfigPath options) source activeConfig (pb_files s2) = Some (r, fs)"
      and keep: "\<And>q. q \<noteq> activeConfig \<Longrightarrow> \<not> probe_temp q \<Longrightarrow> fs q = pb_files s2 q" by metis
  have cap: "?cap \<noteq> []" by (simp add: path_join_def)
  then have neq: "ro_StatePath options \<noteq> activeConfig" "ro_ConfigPath options \<noteq> activeConfig"
    using paths id by (auto simp: run_paths_def dir out dest: outside_inner)
  define s3 where "s3 = s2\<lparr>pb_files := fs\<rparr>"
  have s3: "pb_files s3 (ro_StatePath options) = None" "pb_files s3 (ro_ConfigPath options) = pb_files s (ro_ConfigPath options)" "pb_log s3 = []"
    using a none l keep neq paths by (simp_all add: s3_def alike_def run_paths_def)
  obtain pr s4 where p: "read_file H (ro_ConfigPath options) s3 = (pr, s4)" by fastforce
  have s4: "alike s3 s4" using read_file_cases(1) [OF p] .
  show ?thesis
  proof (cases "\<exists>t. r = Inl t \<or> pr = Inl t")
    case True
    then show ?thesis using b p s3(3) s4 by (cases r; cases pr) (auto simp: s3_def [symmetric] alike_def intro: ran_early)
  next
    case False
    then obtain x production where x: "r = Inr x" "pr = Inr production" by (cases r; cases pr) auto
    have c: "pb_files s (ro_ConfigPath options) = Some production" using read_file_cases(2) [OF p x(2)] s3(2) by simp
    have "clear_dir options runDir" using run_paths_clear [OF paths] id by (simp add: dir clear_dir_sub)
    from snapshot_run_ok [OF ok paths this pci, of s4 production runID activeConfig] s3 s4 c
    obtain rec e s5 where "snapshot_run H options runID runDir activeConfig production s4 = Some ((rec, e), s5)" "ran_ok H options production rec s5"
      by (auto simp: alike_def)
    with b p x c show ?thesis by (simp add: s3_def [symmetric] ran_from_def)
  qed
qed

lemma locked_run_ok:
  assumes ok: "probe_host_ok H" and paths: "run_paths options" and l: "pb_log s = []"
    and pci: "accepted options"
  shows "ran_from H options s (locked_run H options s)"
proof -
  obtain r s1 where p: "pendingRecovery H (ro_StatePath options) s = (r, s1)" by fastforce
  obtain e2 s2 where n: "ensureNoDiagMDLog H s1 = (e2, s2)" by fastforce
  obtain e3 s3 where q: "resourcePreflight H options s2 = (e3, s3)" by fastforce
  obtain now s4 where t: "ask (h_now H) s3 = (now, s4)" by fastforce
  let ?id = "nowRunID (ro_Experiment options) now"
  let ?dir = "path_join (path_join (ro_WorkDir options) ''captures'') ?id"
  obtain e5 s5 where m: "ask (h_mkdir H ?dir) s4 = (e5, s5)" by fastforce
  obtain source s6 where c: "read_file H (ro_ConfigPath options) s5 = (source, s6)" by fastforce
  obtain wr s7 where w: "ask (h_write H (path_join ?dir ''qtrace-active.cfg'')) s6 = (wr, s7)" by fastforce
  have a: "alike s s1" "alike s s2" "alike s s3" "alike s s5"
    using pendingRecovery_cases(1) [OF p] ensureNoDiagMDLog_alike [OF n] resourcePreflight_alike [OF q] alike_ask [OF t] alike_ask [OF m]
    by (auto simp: alike_def)
  show ?thesis
  proof (cases "r = Inr None \<and> e2 = None \<and> e3 = None \<and> e5 = None")
    case True
    then have go: "r = Inr None" "e2 = None" "e3 = None" "e5 = None" by simp_all
    have s5: "pb_log s5 = []" "pb_files s5 = pb_files s" using a(4) l by (simp_all add: alike_def)
    then have none: "pb_files s5 (ro_StatePath options) = None" using pendingRecovery_cases(2) [OF p go(1)] by simp
    from configured_run_ok [OF ok paths s5(1) pci none nowRunID_nonempty refl refl c w]
    show ?thesis using p n q t m c w go s5(2) by (simp add: locked_run_def ran_from_def Let_def)
  next
    case False
    then consider (pending) x where "r = Inl x" | (journal) x where "r = Inr (Some x)" | (logger) x where "r = Inr None" "e2 = Some x"
      | (low) x where "r = Inr None" "e2 = None" "e3 = Some x" | (dir) x where "r = Inr None" "e2 = None" "e3 = None" "e5 = Some x"
      by (metis option.exhaust sum.exhaust)
    then show ?thesis
      using a l p n q t m by cases (auto simp: locked_run_def alike_def Let_def intro: ran_early)
  qed
qed

lemma runExperiment_ok:
  assumes ok: "probe_host_ok H" and paths: "run_paths options" and l: "pb_log s = []"
    and pci: "accepted options"
  shows "ran_from H options s (runExperiment H options s)"
proof -
  let ?lock = "path_join (ro_WorkDir options) ''probe.lock''"
  obtain e1 s1 where m: "ask (h_mkdir H (ro_WorkDir options)) s = (e1, s1)" by fastforce
  obtain e2 s2 where c: "acquireProbeLock H ?lock s1 = (e2, s2)" by fastforce
  have a: "alike s s1" "alike s s2"
    using alike_ask [OF m] c by (auto simp: acquireProbeLock_def alike_def Let_def split: prod.splits option.splits dest!: alike_ask)
  show ?thesis
  proof (cases "e1 = None \<and> e2 = None")
    case True
    have "pb_log s2 = []" using a l by (simp add: alike_def)
    from locked_run_ok [OF ok paths this pci] obtain rec e s3
      where r: "locked_run H options s2 = Some ((rec, e), s3)" "early rec s3 \<or> (\<exists>p. pb_files s2 (ro_ConfigPath options) = Some p \<and> ran_ok H options p rec s3)"
      by (auto simp: ran_from_def)
    have al: "alike s3 (releaseProbeLock H ?lock s3)" by (simp add: releaseProbeLock_def alike_def)
    from r(2) al a(2) have "early rec (releaseProbeLock H ?lock s3) \<or>
        (\<exists>p. pb_files s (ro_ConfigPath options) = Some p \<and> ran_ok H options p rec (releaseProbeLock H ?lock s3))"
      using ran_ok_alike [OF al, of H options _ rec] unfolding early_def alike_def by auto
    then show ?thesis using True m c r(1) by (simp add: runExperiment_def ran_from_def)
  next
    case False
    then show ?thesis using a l m c by (cases e1; cases e2) (auto simp: runExperiment_def alike_def intro: ran_early)
  qed
qed


section \<open>Recovering from the journal\<close>

lemma held_store:
  assumes "held H st0 p None path st r s" and "probe_temp_ok w" and "\<not> probe_temp c" and "c \<noteq> path"
    and "writeFileAtomic_probe w c p (pb_files s) = (e, fs)"
  shows "held H st0 p (if e = None then Some c else None) path st r (s\<lparr>pb_files := fs\<rparr>)"
proof -
  have v: "listed fs = (if e = None then (listed (pb_files s))(c \<mapsto> p) else listed (pb_files s))"
    using pstore.write_view [OF assms(2,3), of p "pb_files s"] assms(5) by simp
  have "\<not> probe_temp path" using assms(1) by (auto simp: held_def run_inv_def synced_def)
  then have "fs path = pb_files s path" "e = None \<longrightarrow> fs c = Some p"
    using fun_cong [OF v, of path] fun_cong [OF v, of c] assms(3,4) by (auto simp: listed_def split: if_splits)
  then show ?thesis using assms(1,3,4) by (auto simp: held_def run_inv_def synced_def fits_def)
qed

lemma held_removed:
  assumes "held H st0 p cfg path st r s" and "outside dir path"
  shows "held H st0 p None path st r (s\<lparr>pb_files := remove_all dir (pb_files s)\<rparr>)"
  using assms by (auto simp: held_def run_inv_def synced_def fits_def remove_all_def outside_def)

text \<open>\<^verbatim>\<open>os.MkdirTemp\<close> gives a directory that was not there, so the journal is not in it.\<close>

definition fresh_dirs :: "'d run_host \<Rightarrow> string \<Rightarrow> bool" where
  "fresh_dirs H path \<longleftrightarrow> (\<forall>w d. case fst (h_mkdtemp H w d) of Inl _ \<Rightarrow> True | Inr dir \<Rightarrow> dir \<noteq> [] \<and> outside dir path)"

lemma trace_from_state_end:
  assumes ok: "probe_host_ok H" and fresh: "fresh_dirs H path" and h: "held H st0 p None path st False s"
    and b: "rs_ProductionQTraceBase64 st0 = b64_EncodeToString p"
  shows "\<exists>e st' s'. restoreProductionTraceFromState H diag st s = Some ((e, st'), s') \<and> held H st0 p None path st' False s' \<and>
    (e = None \<longrightarrow> trace_clean p (pb_log s'))"
proof -
  have key: "run_key st = run_key st0" using h by (simp add: held_def fits_def)
  have b64: "rs_ProductionQTraceBase64 st = b64_EncodeToString p" using run_key_fields(3) [OF key] b by simp
  obtain r where pt: "patchActiveQTrace (h_sha256 H) p = Some r" using patch_active_spec by blast
  let ?work = "if rs_WorkDir st = [] then ''/tmp/u60-nr-crossband-probe'' else rs_WorkDir st"
  obtain d s1 where m: "ask (h_mkdtemp H ?work) s = (d, s1)" by fastforce
  have h1: "held H st0 p None path st False s1" using held_alike [OF h alike_ask [OF m]] .
  consider (clean) "\<not> rs_TraceRestoreRequired st" | (empty) "rs_TraceRestoreRequired st" "p = []"
    | (bad) t where "rs_TraceRestoreRequired st" "p \<noteq> []" "r = Inl t" | (nodir) x t where "rs_TraceRestoreRequired st" "p \<noteq> []" "r = Inr x" "d = Inl t"
    | (go) x dir where "rs_TraceRestoreRequired st" "p \<noteq> []" "r = Inr x" "d = Inr dir" by (metis sum.exhaust)
  then show ?thesis
  proof cases
    case go
    have "fst (h_mkdtemp H ?work (pb_dev s)) = Inr dir" using m go(4) by (auto simp: ask_def split: prod.splits)
    then have dir: "dir \<noteq> []" "outside dir path" using fresh [unfolded fresh_dirs_def, rule_format, of ?work "pb_dev s"] by simp_all
    let ?c = "path_join dir ''qtrace-production.cfg''"
    obtain w s2 where a: "ask (h_write H ?c) s1 = (w, s2)" by fastforce
    obtain e fs where f: "writeFileAtomic_probe w ?c p (pb_files s2) = (e, fs)" by fastforce
    have "w = fst (h_write H ?c (pb_dev s1))" using a by (simp add: ask_def split: prod.splits)
    then have w: "probe_temp_ok w" using ok by (simp add: probe_host_ok_def)
    have "base_name ?c = ''qtrace-production.cfg''" by (simp only: base_name_join list.simps not_False_eq_True) (simp add: base_name_def)
    then have "\<not> probe_temp ?c" by (simp add: probe_temp_def HasPrefix_iff)
    moreover have "?c \<noteq> path" "outside (path_join dir ''trace-restore'') ?c"
      using dir by (auto simp: HasPrefix_iff outside_def path_join_def)
    ultimately have c: "\<not> probe_temp ?c" "?c \<noteq> path" "outside (path_join dir ''trace-restore'') ?c" by simp_all
    note h3 = held_store [OF held_alike [OF h1 alike_ask [OF a]] w c(1,2) f]
    define diag' where "diag' = (let diag = (if TrimSpace diag \<noteq> [] then diag else rs_DiagMDLog st) in if diag = [] then ''diag_mdlog'' else diag)"
    define grace where "grace = (let grace = wrap64 (rs_StopGraceMS st * Millisecond) in if grace \<le> 0 then 2 * Second else grace)"
    let ?o = "\<lparr>ro_Experiment = experimentA, ro_Target = \<lparr>tg_Band = 0, tg_ARFCN = 0, tg_PCI = None\<rparr>, ro_ConfigPath = ?c,
       ro_WorkDir = [], ro_StatePath = [], ro_DiagMDLog = diag', ro_UBUS = [], ro_QCRILStart = [], ro_QCRILStop = [],
       ro_QMITracePath = [], ro_Window = 0, ro_Settle = 0, ro_AcquisitionPause = 0, ro_Poll = 0, ro_StopGrace = grace,
       ro_FileSizeMB = 1, ro_FileCount = 1, ro_MinMemoryBytes = 0, ro_MinWorkFreeBytes = 0, ro_KeepCaptures = False\<rparr>"
    obtain e4 s4 where t: "(case e of Some t \<Rightarrow> (Some t, s2\<lparr>pb_files := fs\<rparr>) | None \<Rightarrow> restoreProductionTrace H ?o dir (s2\<lparr>pb_files := fs\<rparr>)) = (e4, s4)" by fastforce
    define s5 where "s5 = s4\<lparr>pb_files := remove_all dir (pb_files s4)\<rparr>"
    have eq: "restoreProductionTraceFromState H diag st s =
        Some ((e4, if e4 = None then st\<lparr>rs_TraceRestoreRequired := False, rs_Stage := ''trace-restored'', rs_LastError := []\<rparr> else st), s5)"
      using go b64 pt m a f t by (cases e) (auto simp: restoreProductionTraceFromState_def b64_Encode_Nil b64_codec.dec_enc Let_def diag'_def grace_def s5_def split del: if_split)
    have o: "outside (path_join dir ''trace-restore'') path" using outside_sub [OF dir(2,1)] by simp
    have "(\<exists>cfg. held H st0 p cfg path st False s4) \<and> (e4 = None \<longrightarrow> trace_clean p (pb_log s4))"
    proof (cases e)
      case None
      have h4: "held H st0 p (Some ?c) path st False (s2\<lparr>pb_files := fs\<rparr>)" using h3 None by simp
      have t4: "restoreProductionTrace H ?o dir (s2\<lparr>pb_files := fs\<rparr>) = (e4, s4)" using t unfolding None option.case .
      have "Some ?c = Some (ro_ConfigPath ?o)" by simp
      note z = restoreProductionTrace_held [OF h4 this _ o t4]
      from c(3) have "clear_of (path_join dir ''trace-restore'') (Some ?c)" unfolding clear_of_def by blast
      from z(1,2) [OF this] show ?thesis by blast
    next
      case (Some u)
      then have "e4 = Some u" "s4 = s2\<lparr>pb_files := fs\<rparr>" using t by auto
      then show ?thesis using h3 by blast
    qed
    then have "held H st0 p None path st False s5" "e4 = None \<longrightarrow> trace_clean p (pb_log s5)"
      using held_removed [OF _ dir(2), of H st0 p _ st False s4] unfolding s5_def by auto
    then show ?thesis using eq by (auto simp: held_def fits_def run_key_def)
  qed (use h h1 b64 pt m in \<open>auto simp: restoreProductionTraceFromState_def held_def fits_def b64_Encode_Nil b64_codec.dec_enc Let_def\<close>)
qed


text \<open>A history of the device that a run of this journal left, whose logger is gone.\<close>

definition interrupted :: "('d, 'x) probe_host_scheme \<Rightarrow> recoveryState \<Rightarrow> byte list \<Rightarrow> recoveryState \<Rightarrow> string \<Rightarrow> 'd probe \<Rightarrow> bool" where
  "interrupted H st0 p j path s \<longleftrightarrow> synced H s \<and> pb_StatePath s = path \<and> guarded st0 p (pb_log s) \<and> \<not> running_after (pb_log s) \<and>
     journal_after (pb_log s) = Some j \<and> run_key j = run_key st0 \<and>
     rs_Schema st0 = stateSchema \<and> sn_Raw (rs_Snapshot st0) \<noteq> None \<and> rs_ProductionQTraceBase64 st0 = b64_EncodeToString p"

lemma interrupted_held: "interrupted H st0 p j path s \<Longrightarrow> held H st0 p None path j False s"
  using guarded_safe [of st0 p "pb_log s"]
  by (auto simp: interrupted_def held_def run_inv_def fits_def journal_held_def safe_point_def)

definition recovered :: "('d, 'x) probe_host_scheme \<Rightarrow> recoveryState \<Rightarrow> byte list \<Rightarrow> string \<Rightarrow> err \<Rightarrow> 'd probe \<Rightarrow> bool" where
  "recovered H st0 p path e s \<longleftrightarrow> (if e = None then settled H st0 p path s else \<exists>st. held H st0 p None path st False s)"

lemma recover_finish:
  assumes ok: "probe_host_ok H" and h: "held H st0 p None path st False s" and t: "traceErr = None \<longrightarrow> trace_clean p (pb_log s)"
    and n: "(if rs_NetworkRestoreRequired st then restoreNetwork H st s else writeState H (st\<lparr>rs_Stage := ''network-unchanged''\<rparr>) s) = (networkErr, st2, s2)"
  shows "held H st0 p None path st2 False s2" and "traceErr = None \<longrightarrow> trace_clean p (pb_log s2)"
    and "networkErr = None \<longrightarrow> rs_NetworkRestoreRequired st0 \<longrightarrow> network_restored (rs_Snapshot st0) (settings_after (pb_log s2))"
proof -
  have k: "rs_NetworkRestoreRequired st = rs_NetworkRestoreRequired st0" using h run_key_fields(1) [of st st0] by (simp add: held_def fits_def)
  have "held H st0 p None path st2 False s2 \<and> trace_after (pb_log s2) = trace_after (pb_log s) \<and>
      (networkErr = None \<longrightarrow> rs_NetworkRestoreRequired st0 \<longrightarrow> network_restored (rs_Snapshot st0) (settings_after (pb_log s2)))"
  proof (cases "rs_NetworkRestoreRequired st0")
    case True
    with n k have r: "restoreNetwork H st s = (networkErr, st2, s2)" by simp
    show ?thesis using restoreNetwork_held [OF ok h True r] by simp
  next
    case False
    with n k have w: "writeState H (st\<lparr>rs_Stage := ''network-unchanged''\<rparr>) s = (networkErr, st2, s2)" by simp
    have "fits st0 p (st\<lparr>rs_Stage := ''network-unchanged''\<rparr>) s" using h by (simp add: held_def fits_def run_key_def)
    from writeState_held [OF ok h this w] False show ?thesis by simp
  qed
  with t show "held H st0 p None path st2 False s2" "traceErr = None \<longrightarrow> trace_clean p (pb_log s2)"
    "networkErr = None \<longrightarrow> rs_NetworkRestoreRequired st0 \<longrightarrow> network_restored (rs_Snapshot st0) (settings_after (pb_log s2))"
    by (auto simp: trace_clean_def)
qed

text \<open>The end of the command is the journal closed as a run closes it, except that a journal that is gone is an error.\<close>

lemma recover_close:
  assumes ok: "probe_host_ok H" and h: "held H st0 p None path st False s"
    and t: "trace_clean p (pb_log s)" and n: "rs_NetworkRestoreRequired st0 \<longrightarrow> network_restored (rs_Snapshot st0) (settings_after (pb_log s))"
  shows "\<exists>e s'. (let (e, st, s) = writeState H (st\<lparr>rs_Status := ''restored'', rs_Stage := ''complete'', rs_LastError := []\<rparr>) s in
      case e of
        Some t \<Rightarrow> Some (Some t, s)
      | None \<Rightarrow>
          (let (r, s) = remove_file H path s in
           Some (case r of
               Removed \<Rightarrow> None
             | NotExist \<Rightarrow> Some (''remove '' @ path @ '': no such file or directory'')
             | RemoveFailed t \<Rightarrow> Some t, s))) = Some (e, s') \<and> recovered H st0 p path e s'"
proof -
  let ?st = "st\<lparr>rs_Status := ''restored'', rs_Stage := ''complete'', rs_LastError := []\<rparr>"
  obtain e1 st1 s1 where w: "writeState H ?st s = (e1, st1, s1)" by (metis prod.exhaust)
  have "fits st0 p ?st s" using h by (simp add: held_def fits_def run_key_def)
  note k = writeState_held [OF ok h this w]
  obtain r s2 where r: "remove_file H path s1 = (r, s2)" by fastforce
  have "trace_clean p (pb_log s1)" using t k(4) by (simp add: trace_clean_def)
  from remove_file_end [OF k(1) this _ r] n k(5)
  have "r = Removed \<and> settled H st0 p path s2 \<or> (\<exists>t. r = RemoveFailed t) \<and> held H st0 p None path st1 False s2" by simp
  with w r k(1) show ?thesis by (cases e1) (auto simp: recovered_def)
qed


lemma runRecoverCommand_end:
  assumes ok: "probe_host_ok H" and fresh: "fresh_dirs H (rf_state flags)" and i: "interrupted H st0 p j (rf_state flags) s"
    and json: "h_unjournal H (h_journal H j @ [10]) = Inr j"
  shows "\<exists>e s'. runRecoverCommand H (Inr flags) s = Some (e, s') \<and> recovered H st0 p (rf_state flags) e s' \<and>
    (rs_NetworkRestoreRequired st0 \<and> \<not> rf_confirm flags \<longrightarrow> e \<noteq> None \<and> pb_log s' = pb_log s \<and> pb_files s' = pb_files s)"
proof -
  let ?path = "rf_state flags"
  have h: "held H st0 p None ?path j False s" using interrupted_held [OF i] .
  obtain raw where key: "rs_NetworkRestoreRequired j = rs_NetworkRestoreRequired st0" "rs_Schema j = stateSchema" "sn_Raw (rs_Snapshot j) = Some raw"
    using i run_key_fields [of j st0] by (auto simp: interrupted_def)
  have d: "pb_files s ?path = Some (h_journal H j @ [10])" using i by (auto simp: interrupted_def synced_def)
  obtain e1 s1 where a: "ask (h_read H ?path) s = (e1, s1)" by fastforce
  have h1: "held H st0 p None ?path j False s1" using held_alike [OF h alike_ask [OF a]] .
  consider (unread) t where "e1 = Some t" | (refused) "e1 = None" "rs_NetworkRestoreRequired st0" "\<not> rf_confirm flags"
    | (go) "e1 = None" "\<not> (rs_NetworkRestoreRequired st0 \<and> \<not> rf_confirm flags)" by (cases e1) auto
  then show ?thesis
  proof cases
    case go
    define s2 where "s2 = s1\<lparr>pb_UBUS := rf_ubus flags, pb_StatePath := rf_state flags, pb_Actions := None, pb_QMIEvents := None\<rparr>"
    have "alike s1 s2" using h1 by (simp add: s2_def alike_def held_def)
    from held_alike [OF h1 this] have h2: "held H st0 p None ?path j False s2" .
    have b: "rs_ProductionQTraceBase64 st0 = b64_EncodeToString p" using i by (simp add: interrupted_def)
    from trace_from_state_end [OF ok fresh h2 b, of "rf_diagMDLog flags"] obtain te st3 s3
      where t: "restoreProductionTraceFromState H (rf_diagMDLog flags) j s2 = Some ((te, st3), s3)"
        "held H st0 p None ?path st3 False s3" "te = None \<longrightarrow> trace_clean p (pb_log s3)" by blast
    obtain ne st4 s4 where n: "(if rs_NetworkRestoreRequired st3 then restoreNetwork H st3 s3
        else writeState H (st3\<lparr>rs_Stage := ''network-unchanged''\<rparr>) s3) = (ne, st4, s4)" by (metis prod.exhaust)
    note k = recover_finish [OF ok t(2,3) n]
    have eq: "runRecoverCommand H (Inr flags) s =
        (case join_errors te ne of
           Some t \<Rightarrow>
             (let (_, st, s) = writeState H (st4\<lparr>rs_Status := ''restore-failed'', rs_Stage := ''restore-incomplete'', rs_LastError := t\<rparr>) s4 in
              Some (Some t, s))
         | None \<Rightarrow>
             (let (e, st, s) = writeState H (st4\<lparr>rs_Status := ''restored'', rs_Stage := ''complete'', rs_LastError := []\<rparr>) s4 in
              case e of
                Some t \<Rightarrow> Some (Some t, s)
              | None \<Rightarrow>
                  (let (r, s) = remove_file H ?path s in
                   Some (case r of
                       Removed \<Rightarrow> None
                     | NotExist \<Rightarrow> Some (''remove '' @ ?path @ '': no such file or directory'')
                     | RemoveFailed t \<Rightarrow> Some t, s))))"
      using go d a json key t(1) n unfolding runRecoverCommand_def loadRecoveryState_def s2_def by simp blast
    show ?thesis
    proof (cases "join_errors te ne")
      case None
      then have "te = None" "ne = None" by (simp_all add: join_errors_None)
      then have "trace_clean p (pb_log s4)" "rs_NetworkRestoreRequired st0 \<longrightarrow> network_restored (rs_Snapshot st0) (settings_after (pb_log s4))"
        using k(2,3) by blast+
      from recover_close [OF ok k(1) this] show ?thesis using go(2) unfolding eq None option.case by blast
    next
      case (Some t)
      let ?st = "st4\<lparr>rs_Status := ''restore-failed'', rs_Stage := ''restore-incomplete'', rs_LastError := t\<rparr>"
      obtain e5 st5 s5 where w: "writeState H ?st s4 = (e5, st5, s5)" by (metis prod.exhaust)
      have "fits st0 p ?st s4" using k(1) by (simp add: held_def fits_def run_key_def)
      from writeState_held(1) [OF ok k(1) this w] Some w eq go(2) show ?thesis by (auto simp: recovered_def)
    qed
  qed (use h1 d a json key alike_ask [OF a] in \<open>auto simp: runRecoverCommand_def loadRecoveryState_def recovered_def alike_def\<close>)
qed


section \<open>Properties\<close>

text \<open>What a transaction leaves when its journal is gone: the modem has the production trace masks, and settings that were
  changed are restored.\<close>

definition clean_end :: "recoveryState \<Rightarrow> byte list \<Rightarrow> probe_event list \<Rightarrow> bool" where
  "clean_end st0 p l \<longleftrightarrow> trace_clean p l \<and> (\<not> list_ex changing l \<or> network_restored (rs_Snapshot st0) (settings_after l))"

lemma settled_clean: "settled H st0 p path s \<Longrightarrow> clean_end st0 p (pb_log s) \<and> pb_files s path = None"
  using guarded_safe [of st0 p "pb_log s"] by (auto simp: settled_def clean_end_def safe_point_def journal_held_def synced_def)

lemma over_end:
  assumes "over H options st0 p s"
  shows "guarded st0 p (pb_log s)" and "\<not> running_after (pb_log s)"
    and "journal_held st0 (pb_log s) \<and> synced H s \<or> pb_files s (ro_StatePath options) = None \<and> clean_end st0 p (pb_log s)"
  using assms settled_clean [of H st0 p "ro_StatePath options" s]
  by (auto simp: over_def settled_def held_def run_inv_def)


text \<open>A host on which everything is answered, and the options of a run on it.\<close>

definition sample_run_host :: "recoveryState \<Rightarrow> unit run_host" where
  "sample_run_host j = \<lparr>h_now = \<lambda>d. (0, d), h_exec = \<lambda>_ d. ((None, []), d), h_request = \<lambda>_. [], h_object = \<lambda>_. Inr (Some Map.empty), h_journal = \<lambda>_. [],
     h_unjournal = \<lambda>_. Inr j, h_write = \<lambda>_ d. (no_faults\<lparr>wf_temp := Inr ''.u60-nr-probe-1''\<rparr>, d), h_read = \<lambda>_ d. (None, d), h_remove = \<lambda>_ d. (None, d),
     h_stat = \<lambda>_ d. (True, d), h_mkdir = \<lambda>_ d. (None, d), h_wait = \<lambda>_ d. (None, d), h_sha256 = \<lambda>_. [], h_pidof = \<lambda>d. ((None, []), d),
     h_open = \<lambda>_ d. (None, d), h_flock = \<lambda>_ d. (None, d), h_unlock = \<lambda>_ d. ((), d), h_start = \<lambda>_ d. (None, d), h_terminate = \<lambda>_ d. (True, d),
     h_exited = \<lambda>d. (Exited, d), h_mkdtemp = \<lambda>_ d. (Inr ''/tmp/r1'', d),
     h_meminfo = \<lambda>d. (\<lparr>tf_open = None, tf_stat = Inr 0, tf_seek = None, tf_data = ''MemAvailable: 900000 kB'', tf_tail = None\<rparr>, d),
     h_statfs = \<lambda>_ d. (Inr (4096, 100000), d), h_walk = \<lambda>_ d. ([], d), h_readdir = \<lambda>_ d. ([], d),
     h_captures = \<lambda>d. (\<lambda>_. \<lparr>cf_stat = Inr 0, cf_open = Inr [], cf_tail = None, cf_close = None\<rparr>, d),
     h_text = \<lambda>_ d. (\<lparr>tf_open = None, tf_stat = Inr 0, tf_seek = None, tf_data = [], tf_tail = None\<rparr>, d), h_far = \<lambda>_. 0,
     h_shell = \<lambda>_ _ d. ((None, []), d), h_ctx_done = \<lambda>d. (False, d), h_schedule = \<lambda>d. ([EvProgress, EvAction, EvTick, EvDeadline], d),
     h_cleanup = \<lambda>d. ((0, False, False), d), h_qrtr = sample_qrtr\<rparr>"

definition sample_options :: runOptions where
  "sample_options = \<lparr>ro_Experiment = experimentC, ro_Target = \<lparr>tg_Band = 41, tg_ARFCN = 504990, tg_PCI = None\<rparr>, ro_ConfigPath = ''qtrace.cfg'',
     ro_WorkDir = ''/tmp/w'', ro_StatePath = ''/tmp/w/state.json'', ro_DiagMDLog = ''diag_mdlog'', ro_UBUS = ''ubus'', ro_QCRILStart = [], ro_QCRILStop = [],
     ro_QMITracePath = [], ro_Window = 8 * Second, ro_Settle = 0, ro_AcquisitionPause = 0, ro_Poll = Second, ro_StopGrace = Second,
     ro_FileSizeMB = 2, ro_FileCount = 2, ro_MinMemoryBytes = 0, ro_MinWorkFreeBytes = 0, ro_KeepCaptures = False\<rparr>"

definition sample_journal :: recoveryState where
  "sample_journal = first_journal sample_options ''c-1'' \<lparr>sn_CapturedAt = 0, sn_Raw = Some Map.empty, sn_NetSelect = ''WL_AND_5G'', sn_NetworkType = ''SA'',
     sn_NRBandSA = ''78'', sn_NRBandNSA = ''78'', sn_NRCellLockRaw = [], sn_NRCellLockPCI = [], sn_NRCellLockARFCN = [], sn_NRCellLockBand = [],
     sn_ServingBand = ''78'', sn_ServingARFCN = [], sn_ServingPCI = []\<rparr> [0x7e] 0"

definition sample_probe :: "file_sys \<Rightarrow> probe_event list \<Rightarrow> unit probe" where
  "sample_probe fs l = \<lparr>pb_UBUS = ''ubus'', pb_StatePath = ''/tmp/w/state.json'', pb_Actions = None, pb_QMIEvents = None, pb_files = fs, pb_log = l, pb_dev = ()\<rparr>"

lemma sample_run_host_ok: "probe_host_ok (sample_run_host j)"
  by (simp add: probe_host_ok_def probe_temp_ok_def sample_run_host_def probe_temp_def base_name_def HasPrefix_def)

lemma sample_paths: "run_paths sample_options"
  by (simp add: run_paths_def sample_options_def probe_temp_def base_name_def HasPrefix_def outside_def path_join_def)



lemma sample_interrupted:
  "interrupted (sample_run_host sample_journal) sample_journal [0x7e] sample_journal ''/tmp/w/state.json''
     (sample_probe [''/tmp/w/state.json'' \<mapsto> [10]] [Journal sample_journal, Call ''nwinfo_set_nrbandlock'' [(''t'', ''SA''), (''b'', ''41'')] True])"
proof -
  let ?l = "[Journal sample_journal]" and ?c = "Call ''nwinfo_set_nrbandlock'' [(''t'', ''SA''), (''b'', ''41'')] True"
  have j: "journal_after ?l = Some sample_journal" "journal_after (?l @ [?c]) = Some sample_journal" "trace_clean [0x7e] []"
    "\<not> running_after (?l @ [?c])" by (simp_all add: journal_after_def journal_step_def trace_clean_def running_after_def)
  have "rs_NetworkRestoreRequired sample_journal" by (simp add: sample_journal_def first_journal_def sample_options_def changes_network_def)
  then have "guarded sample_journal [0x7e] (?l @ [?c])"
    using j guarded_snoc [of sample_journal "[0x7e]" "[]" "Journal sample_journal"] guarded_snoc [of sample_journal "[0x7e]" ?l ?c]
    by (simp add: allowed_def journal_held_def)
  with j show ?thesis
    by (simp add: interrupted_def synced_def sample_probe_def sample_run_host_def probe_temp_def base_name_def HasPrefix_def)
      (simp add: sample_journal_def first_journal_def)
qed


end
