(* ===== verification/Probe_Report.thy ===== *)
theory Probe_Report
  imports Probe_Recovery Go_Bytes
begin

text \<open>
  \<^verbatim>\<open>tools/u60-nr-crossband-probe/report.go\<close>: the record of an experiment is appended to a JSON-lines file and to a CSV file and
  written under its own name.  The CSV writer of the standard library is modelled on characters; a reader
  of RFC 4180 states what the file means: a table whose rows have the columns of the header.
\<close>

section \<open>CSV\<close>

text \<open>The first rune is a space: the ASCII spaces and the UTF-8 texts of the others.\<close>

definition wide_spaces :: "nat list list" where
  "wide_spaces = [[0xc2, 0x85], [0xc2, 0xa0], [0xe1, 0x9a, 0x80], [0xe2, 0x80, 0xa8], [0xe2, 0x80, 0xa9], [0xe2, 0x80, 0xaf], [0xe2, 0x81, 0x9f], [0xe3, 0x80, 0x80]] @
     map (\<lambda>n. [0xe2, 0x80, n]) [0x80..<0x8b]"

definition starts_with_space :: "string \<Rightarrow> bool" where
  "starts_with_space s \<longleftrightarrow> (case s of [] \<Rightarrow> False | c # _ \<Rightarrow> is_space c \<or> list_ex (\<lambda>w. take (length w) (map code s) = w) wide_spaces)"

definition fieldNeedsQuotes :: "string \<Rightarrow> bool" where
  "fieldNeedsQuotes s \<longleftrightarrow> s \<noteq> [] \<and> (s = [CHR 0x5C, CHR ''.''] \<or> list_ex (\<lambda>c. c \<in> {CHR 0x0A, CHR 0x0D, CHR 0x22, CHR '',''}) s \<or> starts_with_space s)"

definition quote_field :: "string \<Rightarrow> string" where
  "quote_field s = CHR 0x22 # concat (map (\<lambda>c. if c = CHR 0x22 then [CHR 0x22, CHR 0x22] else [c]) s) @ [CHR 0x22]"

definition csv_field :: "string \<Rightarrow> string" where
  "csv_field s = (if fieldNeedsQuotes s then quote_field s else s)"

definition csv_row :: "string list \<Rightarrow> string" where
  "csv_row fs = Join (map csv_field fs) '','' @ [CHR 0x0A]"

text \<open>A reader of RFC 4180, one character at a time; every row ends with a newline.\<close>

datatype csv_state = AtField | Bare | Quoted | QuoteSeen

fun csv_read :: "csv_state \<Rightarrow> string \<Rightarrow> string list \<Rightarrow> string \<Rightarrow> string list list option" where
  "csv_read st f r [] = (if st = AtField \<and> f = [] \<and> r = [] then Some [] else None)"
| "csv_read st f r (c # cs) =
     (if st = Quoted then (if c = CHR 0x22 then csv_read QuoteSeen f r cs else csv_read Quoted (f @ [c]) r cs)
      else if c = CHR '','' then csv_read AtField [] (r @ [f]) cs
      else if c = CHR 0x0A then map_option (Cons (r @ [f])) (csv_read AtField [] [] cs)
      else if c = CHR 0x22 then
        (case st of AtField \<Rightarrow> csv_read Quoted f r cs | QuoteSeen \<Rightarrow> csv_read Quoted (f @ [c]) r cs | _ \<Rightarrow> None)
      else if st = QuoteSeen then None
      else csv_read Bare (f @ [c]) r cs)"

definition csv_table :: "string \<Rightarrow> string list list option" where
  "csv_table s = csv_read AtField [] [] s"

section \<open>The reports\<close>

text \<open>\<open>mh_append\<close> answers a write: the number of bytes written and the error of one that failed.  \<open>mh_record\<close> and
  \<open>mh_pretty\<close> are \<^verbatim>\<open>json.Marshal\<close> and \<^verbatim>\<open>json.MarshalIndent\<close>, which fail on the same records.\<close>

record 'd report_host =
  rp_run :: "'d run_host"
  rp_record :: "experimentRecord \<Rightarrow> string + byte list"
  rp_pretty :: "experimentRecord \<Rightarrow> byte list"
  rp_append :: "string \<Rightarrow> 'd \<Rightarrow> (nat \<times> string) option \<times> 'd"
  rp_fstat :: "string \<Rightarrow> 'd \<Rightarrow> err \<times> 'd"
  rp_close :: "string \<Rightarrow> 'd \<Rightarrow> err \<times> 'd"

definition content :: "string \<Rightarrow> 'd probe \<Rightarrow> byte list" where
  "content path s = (case pb_files s path of None \<Rightarrow> [] | Some bs \<Rightarrow> bs)"

text \<open>\<^verbatim>\<open>os.OpenFile\<close> with \<^verbatim>\<open>O_CREATE\<close> and \<^verbatim>\<open>O_APPEND\<close>.\<close>

definition open_append :: "'d report_host \<Rightarrow> string \<Rightarrow> 'd probe \<Rightarrow> err \<times> 'd probe" where
  "open_append R path s =
     (let (e, s) = ask (h_open (rp_run R) path) s in
      (e, if e = None then s\<lparr>pb_files := (pb_files s)(path \<mapsto> content path s)\<rparr> else s))"

definition append_bytes :: "'d report_host \<Rightarrow> string \<Rightarrow> byte list \<Rightarrow> 'd probe \<Rightarrow> err \<times> 'd probe" where
  "append_bytes R path data s =
     (let (a, s) = ask (rp_append R path) s; n = (case a of None \<Rightarrow> length data | Some (n, _) \<Rightarrow> n) in
      (map_option snd a, s\<lparr>pb_files := (pb_files s)(path \<mapsto> content path s @ take n data)\<rparr>))"

definition csv_header :: "string list" where
  "csv_header = [''run_id'', ''experiment'', ''started_at'', ''serving_band'', ''serving_arfcn'', ''serving_pci'',
     ''target_band'', ''target_arfcn'', ''target_pci'', ''qmi_event_count'', ''qsh_frame_count'',
     ''qmi_trace_complete'', ''qmi_trace_error'',
     ''active_hash_count'', ''valid_target_count'', ''first_target_hit_ms'', ''capture_duration_ms'',
     ''qmdl_bytes'', ''minimum_mem_available_bytes'', ''network_interrupted'', ''restore_succeeded'',
     ''result'', ''failure_reason'']"

definition minimum_memory :: "resourceSample list \<Rightarrow> u64" where
  "minimum_memory samples = foldl (\<lambda>m x. if m = 0 \<or> sm_MemAvailableBytes x < m then sm_MemAvailableBytes x else m) 0 samples"

text \<open>\<^verbatim>\<open>strings.ReplaceAll(s, "\n", " ")\<close>.\<close>

definition one_line :: "string \<Rightarrow> string" where
  "one_line s = map (\<lambda>c. if c = CHR 0x0A then CHR '' '' else c) s"

text \<open>The row of a record; a target or a snapshot that was not set is the zero value.\<close>

definition report_row :: "experimentRecord \<Rightarrow> string list" where
  "report_row rec =
     (let target = (case xr_Target rec of Some t \<Rightarrow> t | None \<Rightarrow> \<lparr>tg_Band = 0, tg_ARFCN = 0, tg_PCI = None\<rparr>);
          serving = (\<lambda>f. case xr_ServingBefore rec of Some sn \<Rightarrow> f sn | None \<Rightarrow> []);
          targetPCI = (case tg_PCI target of Some pci \<Rightarrow> utoa (unat pci) | None \<Rightarrow> []);
          firstHit = (case xr_FirstTargetHitMS rec of Some ms \<Rightarrow> Itoa ms | None \<Rightarrow> [])
      in [xr_RunID rec, (case xr_Experiment rec of Some x \<Rightarrow> experiment_name x | None \<Rightarrow> []), format_rfc3339nano (xr_StartedAt rec),
          serving sn_ServingBand, serving sn_ServingARFCN, serving sn_ServingPCI,
          utoa (unat (tg_Band target)), utoa (unat (tg_ARFCN target)), targetPCI,
          utoa (length (xr_QMIEvents rec)), utoa (xr_QSHFrameCount rec),
          FormatBool (xr_QMITraceComplete rec), one_line (xr_QMITraceError rec),
          utoa (xr_ActiveHashCount rec),
          utoa (countTargetResults (xr_ML1Results rec) target), firstHit, Itoa (xr_CaptureDurationMS rec),
          Itoa (xr_QMDLBytes rec), utoa (unat (minimum_memory (xr_ResourceSamples rec))),
          FormatBool (xr_NetworkInterrupted rec), FormatBool (xr_RestoreSucceeded rec),
          xr_Result rec, one_line (xr_FailureReason rec)])"

text \<open>\<^verbatim>\<open>csv.Writer\<close> collects the rows in a buffer; what was written when a write fails is a prefix of them.  The error of the
  deferred \<^verbatim>\<open>Close\<close> is not read.\<close>

definition appendCSVReport :: "'d report_host \<Rightarrow> string \<Rightarrow> experimentRecord \<Rightarrow> 'd probe \<Rightarrow> err \<times> 'd probe" where
  "appendCSVReport R path rec s =
     (let (e, s) = open_append R path s in
      case e of Some t \<Rightarrow> (Some t, s) | None \<Rightarrow>
     (let (e, s) = ask (rp_fstat R path) s in
      case e of Some t \<Rightarrow> (Some t, snd (ask (rp_close R path) s)) | None \<Rightarrow>
     (let rows = (if content path s = [] then csv_row csv_header else []) @ csv_row (report_row rec);
          (e, s) = append_bytes R path (to_bytes rows) s
      in (e, snd (ask (rp_close R path) s)))))"

text \<open>The result also has the lines that are printed.\<close>

definition appendExperimentReports :: "'d report_host \<Rightarrow> string \<Rightarrow> experimentRecord \<Rightarrow> 'd probe \<Rightarrow> (err \<times> string list) \<times> 'd probe" where
  "appendExperimentReports R workDir rec s =
     (let reportDir = path_join workDir ''reports''; (e, s) = ask (h_mkdir (rp_run R) reportDir) s in
      case e of Some t \<Rightarrow> ((Some t, []), s) | None \<Rightarrow>
     (case rp_record R rec of Inl t \<Rightarrow> ((Some t, []), s) | Inr data \<Rightarrow>
     (let jsonPath = path_join reportDir ''experiments.jsonl''; (e, s) = open_append R jsonPath s in
      case e of Some t \<Rightarrow> ((Some t, []), s) | None \<Rightarrow>
     (let (writeErr, s) = append_bytes R jsonPath (data @ [10]) s; (closeErr, s) = ask (rp_close R jsonPath) s in
      case join_errors writeErr closeErr of Some t \<Rightarrow> ((Some t, []), s) | None \<Rightarrow>
     (let (e, s) = appendCSVReport R (path_join reportDir ''experiments.csv'') rec s in
      case e of Some t \<Rightarrow> ((Some t, []), s) | None \<Rightarrow>
     (let (e, s) = writeJSONAtomic (rp_run R) (path_join reportDir (xr_RunID rec @ ''.json'')) (rp_pretty R rec) s in
      case e of Some t \<Rightarrow> ((Some t, []), s) | None \<Rightarrow> ((None, [to_text (rp_pretty R rec)]), s)))))))"

section \<open>Rows read back\<close>

definition field_end :: "char \<Rightarrow> bool" where
  "field_end c \<longleftrightarrow> c = CHR '','' \<or> c = CHR 0x0A"

definition after_field :: "string \<Rightarrow> string list \<Rightarrow> string \<Rightarrow> string list list option" where
  "after_field f r cs = (case cs of
     [] \<Rightarrow> None
   | c # cs \<Rightarrow> if c = CHR '','' then csv_read AtField [] (r @ [f]) cs else map_option (Cons (r @ [f])) (csv_read AtField [] [] cs))"

lemma read_end: "field_end c \<Longrightarrow> st \<noteq> Quoted \<Longrightarrow> csv_read st f r (c # cs) = after_field f r (c # cs)"
  by (auto simp: field_end_def after_field_def)

lemma read_bare:
  assumes "list_all (\<lambda>c. c \<notin> {CHR 0x0A, CHR 0x0D, CHR 0x22, CHR '',''}) s" and "field_end c"
  shows "csv_read Bare f r (s @ c # cs) = after_field (f @ s) r (c # cs)"
  using assms(1)
proof (induction s arbitrary: f)
  case Nil
  show ?case using read_end [OF assms(2), of Bare] by simp
next
  case (Cons a s)
  then show ?case by simp
qed

lemma read_plain:
  assumes "list_all (\<lambda>c. c \<notin> {CHR 0x0A, CHR 0x0D, CHR 0x22, CHR '',''}) s" and "field_end c"
  shows "csv_read AtField [] r (s @ c # cs) = after_field s r (c # cs)"
proof (cases s)
  case Nil
  show ?thesis using read_end [OF assms(2), of AtField] Nil by simp
next
  case (Cons a t)
  then show ?thesis using read_bare [of t c "[a]" r cs] assms by simp
qed

lemma read_quoted:
  assumes "field_end c"
  shows "csv_read Quoted f r (concat (map (\<lambda>c. if c = CHR 0x22 then [CHR 0x22, CHR 0x22] else [c]) s) @ CHR 0x22 # c # cs) = after_field (f @ s) r (c # cs)"
proof (induction s arbitrary: f)
  case Nil
  show ?case using read_end [OF assms, of QuoteSeen] by simp
next
  case (Cons a s)
  then show ?case by (cases "a = CHR 0x22") simp_all
qed

lemma read_field: "field_end c \<Longrightarrow> csv_read AtField [] r (csv_field s @ c # cs) = after_field s r (c # cs)"
proof (cases "fieldNeedsQuotes s")
  case True
  assume "field_end c"
  from read_quoted [OF this, of "[]" r s cs] True show ?thesis by (simp add: csv_field_def quote_field_def)
next
  case False
  assume c: "field_end c"
  have "list_all (\<lambda>c. c \<notin> {CHR 0x0A, CHR 0x0D, CHR 0x22, CHR '',''}) s"
    using False by (cases "s = []") (auto simp: fieldNeedsQuotes_def list_all_iff list_ex_iff)
  from read_plain [OF this c] False show ?thesis by (simp add: csv_field_def)
qed

lemma read_fields:
  assumes "fs \<noteq> []"
  shows "csv_read AtField [] r (Join (map csv_field fs) '','' @ CHR 0x0A # cs) = map_option (Cons (r @ fs)) (csv_read AtField [] [] cs)"
  using assms
proof (induction fs arbitrary: r)
  case (Cons f fs)
  show ?case
  proof (cases fs)
    case Nil
    then show ?thesis using read_field [of "CHR 0x0A" r f cs] by (simp add: field_end_def after_field_def)
  next
    case (Cons g gs)
    then have "Join (map csv_field (f # fs)) '','' = csv_field f @ CHR '','' # Join (map csv_field fs) '',''" by simp
    then have "csv_read AtField [] r (Join (map csv_field (f # fs)) '','' @ CHR 0x0A # cs) = csv_read AtField [] (r @ [f]) (Join (map csv_field fs) '','' @ CHR 0x0A # cs)"
      using read_field [of "CHR '',''" r f "Join (map csv_field fs) '','' @ CHR 0x0A # cs"] by (simp add: field_end_def after_field_def del: map_eq_Cons_conv)
    then show ?thesis using Cons.IH [of "r @ [f]"] Cons by simp
  qed
qed simp

lemma csv_table_row: "fs \<noteq> [] \<Longrightarrow> csv_table (csv_row fs @ cs) = map_option (Cons fs) (csv_table cs)"
  using read_fields [of fs "[]" cs] by (simp add: csv_row_def csv_table_def)

lemma csv_read_append:
  "csv_read st f r xs = Some rows \<Longrightarrow> csv_read st f r (xs @ cs) = map_option (\<lambda>more. rows @ more) (csv_read AtField [] [] cs)"
proof (induction st f r xs arbitrary: rows rule: csv_read.induct)
  case (1 st f r)
  then show ?case by (auto simp: option.map_ident split: if_splits)
next
  case (2 st f r c xs)
  then show ?case by (cases "csv_read AtField [] [] cs") (auto split: if_splits csv_state.splits)
qed

lemma csv_table_append: "csv_table xs = Some rows \<Longrightarrow> csv_table (xs @ cs) = map_option (\<lambda>more. rows @ more) (csv_table cs)"
  by (simp add: csv_table_def csv_read_append)

lemma csv_table_Nil [simp]: "csv_table [] = Some []"
  by (simp add: csv_table_def)

lemma report_columns: "length (report_row rec) = length csv_header" "csv_header \<noteq> []" "report_row rec \<noteq> []"
  by (simp_all add: report_row_def csv_header_def Let_def)


lemma csv_read_empty: "csv_read st f r xs = Some [] \<Longrightarrow> xs = []"
  by (induction st f r xs rule: csv_read.induct) (auto split: if_splits csv_state.splits)

lemma csv_table_empty: "csv_table xs = Some [] \<longleftrightarrow> xs = []"
  using csv_read_empty [of AtField "[]" "[]" xs] by (auto simp: csv_table_def)

lemma ask_content [simp]: "content path (snd (ask f s)) = content path s"
  by (simp add: content_def)

lemma open_append_content:
  assumes "open_append R path s = (e, s')"
  shows "content p s' = content p s"
  using assms askE [of "h_open (rp_run R) path" s]
  by (auto simp: open_append_def content_def Let_def split: prod.splits if_splits)

lemma append_bytes_content:
  assumes "append_bytes R path data s = (e, s')"
  shows "\<exists>n. content path s' = content path s @ take n data \<and> (e = None \<longrightarrow> n = length data)" and "p \<noteq> path \<Longrightarrow> content p s' = content p s"
  using assms askE [of "rp_append R path" s]
  by (auto simp: append_bytes_def content_def Let_def split: prod.splits option.splits intro: exI [of _ "length data"])

text \<open>A table: empty, or rows under the header with as many columns as it.\<close>

definition report_table :: "string list list \<Rightarrow> bool" where
  "report_table rows \<longleftrightarrow> rows = [] \<or> hd rows = csv_header \<and> (\<forall>row \<in> set rows. length row = length csv_header)"

lemma appended_rows:
  assumes "csv_table (to_text old) = Some rows"
  shows "csv_table (to_text (old @ to_bytes ((if old = [] then csv_row csv_header else []) @ csv_row (report_row rec)))) =
    Some ((if rows = [] then [csv_header] else rows) @ [report_row rec])"
proof -
  have "old = [] \<longleftrightarrow> rows = []" using assms csv_table_empty [of "to_text old"] by auto
  moreover have one: "csv_table (csv_row (report_row rec)) = Some [report_row rec]"
    using csv_table_row [OF report_columns(3), of rec "[]"] by simp
  moreover have "csv_table (csv_row csv_header @ csv_row (report_row rec)) = Some [csv_header, report_row rec]"
    using csv_table_row [OF report_columns(2), of "csv_row (report_row rec)"] one by simp
  ultimately show ?thesis using csv_table_append [OF assms, of "csv_row (report_row rec)"] by (cases "old = []") simp_all
qed

section \<open>Properties\<close>

text \<open>C40: The CSV report stays a table.  Appending the record of an experiment to a report that reads as a table, or to a
  missing or empty one, adds the header when it is missing and one row, which reads back field for field whatever the
  texts in the record hold, with as many columns as the header; an append that fails only adds
  to the end of the file, and no other file is touched.\<close>
theorem csv_report_table:
  assumes "csv_table (to_text (content path s)) = Some rows" and "report_table rows"
    and "appendCSVReport R path rec s = (e, s')"
  shows "(e = None \<longrightarrow> csv_table (to_text (content path s')) = Some ((if rows = [] then [csv_header] else rows) @ [report_row rec]) \<and>
       report_table ((if rows = [] then [csv_header] else rows) @ [report_row rec])) \<and>
     (\<exists>added. content path s' = content path s @ added) \<and> (\<forall>p. p \<noteq> path \<longrightarrow> content p s' = content p s)"
proof -
  obtain e1 s1 where o: "open_append R path s = (e1, s1)" by fastforce
  obtain e2 s2 where f: "ask (rp_fstat R path) s1 = (e2, s2)" by fastforce
  let ?rows = "(if content path s = [] then csv_row csv_header else []) @ csv_row (report_row rec)"
  obtain e3 s3 where a: "append_bytes R path (to_bytes ?rows) s2 = (e3, s3)" by fastforce
  have c: "content p s1 = content p s" "content p s2 = content p s" for p
    using open_append_content [OF o, of p] ask_content [of p "rp_fstat R path" s1] f by simp_all
  show ?thesis
  proof (cases "e1 = None \<and> e2 = None")
    case True
    then have r: "e = e3" "content p s' = content p s3" for p
      using assms(3) o f a c by (auto simp: appendCSVReport_def)
    obtain n where n: "content path s3 = content path s @ take n (to_bytes ?rows)" "e3 = None \<longrightarrow> n = length (to_bytes ?rows)"
      using append_bytes_content(1) [OF a] c by auto
    have "report_table ((if rows = [] then [csv_header] else rows) @ [report_row rec])"
      using assms(2) report_columns(1) [of rec] by (auto simp: report_table_def)
    with r n append_bytes_content(2) [OF a] c appended_rows [OF assms(1), of rec] show ?thesis by auto
  next
    case False
    then show ?thesis using assms(3) o f c by (cases e1; cases e2) (auto simp: appendCSVReport_def)
  qed
qed


definition sample_report_host :: "recoveryState \<Rightarrow> unit report_host" where
  "sample_report_host j = \<lparr>rp_run = sample_run_host j, rp_record = \<lambda>_. Inr [], rp_pretty = \<lambda>_. [], rp_append = \<lambda>_ d. (None, d),
     rp_fstat = \<lambda>_ d. (None, d), rp_close = \<lambda>_ d. (None, d)\<rparr>"

theorem csv_report_table_witness:
  "\<exists>s'. appendCSVReport (sample_report_host sample_journal) ''r.csv'' (zero_record\<lparr>xr_RunID := [CHR 0x22, CHR '','', CHR 0x0A]\<rparr>) (sample_probe Map.empty []) = (None, s') \<and>
     csv_table (to_text (content ''r.csv'' s')) = Some [csv_header, report_row (zero_record\<lparr>xr_RunID := [CHR 0x22, CHR '','', CHR 0x0A]\<rparr>)]"
proof -
  let ?rec = "zero_record\<lparr>xr_RunID := [CHR 0x22, CHR '','', CHR 0x0A]\<rparr>" and ?s = "sample_probe Map.empty []"
  obtain e s' where a: "appendCSVReport (sample_report_host sample_journal) ''r.csv'' ?rec ?s = (e, s')" by fastforce
  have "csv_table (to_text (content ''r.csv'' ?s)) = Some []" "report_table []"
    by (simp_all add: content_def sample_probe_def to_text_def report_table_def)
  from csv_report_table [OF this a] have t: "e = None \<longrightarrow> csv_table (to_text (content ''r.csv'' s')) = Some [csv_header, report_row ?rec]" by simp
  have "e = fst (appendCSVReport (sample_report_host sample_journal) ''r.csv'' ?rec ?s)" using a by simp
  also have "\<dots> = None"
    by (simp add: appendCSVReport_def open_append_def append_bytes_def ask_def sample_report_host_def sample_run_host_def)
  finally show ?thesis using a t by blast
qed

end
