(* ===== verification/Probe_Main.thy ===== *)
theory Probe_Main
  imports Probe_Report
begin

text \<open>
  \<^verbatim>\<open>tools/u60-nr-crossband-probe/main.go\<close> and \<^verbatim>\<open>runExperimentCommand\<close> of \<^verbatim>\<open>runner.go\<close>: the commands of the probe.  The results of
  \<^verbatim>\<open>flags.Parse\<close> (an error or the values) and the JSON texts are parts of the host.  A command returns its error and the lines
  it prints.
\<close>

section \<open>Flags and the host\<close>

record runFlags =
  rg_experiment :: string
  rg_config :: string
  rg_workDir :: string
  rg_state :: string
  rg_diagMDLog :: string
  rg_ubus :: string
  rg_qcrilStart :: string
  rg_qcrilStop :: string
  rg_qmiTrace :: string
  rg_window :: int
  rg_settle :: int
  rg_acquisitionPause :: int
  rg_poll :: int
  rg_stopGrace :: int
  rg_fileSize :: int
  rg_fileCount :: int
  rg_minMemory :: u64
  rg_minWorkFree :: u64
  rg_keepCaptures :: bool
  rg_confirmActive :: bool
  rg_confirmNetwork :: bool
  rg_band :: u64
  rg_arfcn :: u64
  rg_pci :: string

record dryFlags =
  dg_config :: string
  dg_out :: string
  dg_band :: u64
  dg_arfcn :: u64
  dg_pci :: string

record inspectFlags =
  ig_band :: u64
  ig_arfcn :: u64
  ig_pci :: string
  ig_paths :: "string list"

record diffFlags =
  dq_manual :: string
  dq_qcril :: string
  dq_out :: string

record dryRunManifest =
  dm_ToolVersion :: string
  dm_SourceConfig :: string
  dm_SourceSHA256 :: string
  dm_SourceBytes :: nat
  dm_ActiveConfig :: string
  dm_ActiveSHA256 :: string
  dm_ActiveBytes :: nat
  dm_QSHID :: u16
  dm_OriginalMask :: string
  dm_ActiveMask :: string
  dm_RoundTripValid :: bool
  dm_Target :: targetSpec
  dm_Manual0085Raw :: string
  dm_QCRILOneShotExpectedRaw :: string
  dm_QCRILOneShotCarriesChannel :: bool
  dm_QCRILAdvancedCarriesChannel :: bool
  dm_SetChannelsQMIMessage :: string
  dm_SetChannelsCarriesChannel :: bool
  dm_Experiments :: "experimentPlan list"

record 'd main_host =
  mh_report :: "'d report_host"
  mh_run_flags :: "string list \<Rightarrow> string + runFlags"
  mh_recover_flags :: "string list \<Rightarrow> string + recoverFlags"
  mh_dry_flags :: "string list \<Rightarrow> string + dryFlags"
  mh_inspect_flags :: "string list \<Rightarrow> string + inspectFlags"
  mh_diff_flags :: "string list \<Rightarrow> string + diffFlags"
  mh_manifest :: "dryRunManifest \<Rightarrow> byte list"
  mh_metrics :: "qmdlMetrics \<Rightarrow> byte list"
  mh_diff :: "qmiDiffReport \<Rightarrow> byte list"
  mh_texts :: "'d \<Rightarrow> (string \<Rightarrow> text_file) \<times> 'd"

type_synonym 'd command = "((err \<times> string list) \<times> 'd probe) option"

definition toolName :: string where "toolName = ''u60-nr-crossband-probe''"

section \<open>Values of flags\<close>

definition parseTarget :: "u64 \<Rightarrow> u64 \<Rightarrow> string \<Rightarrow> string + targetSpec" where
  "parseTarget band arfcn pci =
     (if band = 0 \<or> band > 1024 then Inl (''invalid target band n'' @ utoa (unat band))
      else if arfcn = 0 \<or> arfcn > 3279165 then Inl (''invalid target NR-ARFCN '' @ utoa (unat arfcn))
      else let target = \<lparr>tg_Band = ucast band, tg_ARFCN = ucast arfcn, tg_PCI = None\<rparr> in
        if TrimSpace pci = [] then Inr target
        else case ParseUint (TrimSpace pci) 32 of
          None \<Rightarrow> Inl (''invalid target PCI '' @ quote pci)
        | Some v \<Rightarrow> if v > 1007 then Inl (''invalid target PCI '' @ quote pci) else Inr (target\<lparr>tg_PCI := Some (of_nat v)\<rparr>))"

definition parseExperiment :: "string \<Rightarrow> string + experimentID" where
  "parseExperiment v =
     (let v = ToUpper (TrimSpace v) in
      case find (\<lambda>x. experiment_name x = v) [experimentA, experimentB, experimentC, experimentD, experimentE, experimentF] of
        Some x \<Rightarrow> Inr x
      | None \<Rightarrow> Inl (''invalid experiment '' @ quote v @ '' (want A, B, C, D, E, or F)''))"

section \<open>The commands\<close>

definition run_options :: "runFlags \<Rightarrow> experimentID \<Rightarrow> targetSpec \<Rightarrow> runOptions" where
  "run_options flags x target = \<lparr>ro_Experiment = x, ro_Target = target, ro_ConfigPath = rg_config flags, ro_WorkDir = rg_workDir flags,
     ro_StatePath = rg_state flags, ro_DiagMDLog = rg_diagMDLog flags, ro_UBUS = rg_ubus flags, ro_QCRILStart = rg_qcrilStart flags,
     ro_QCRILStop = rg_qcrilStop flags, ro_QMITracePath = rg_qmiTrace flags, ro_Window = rg_window flags, ro_Settle = rg_settle flags,
     ro_AcquisitionPause = rg_acquisitionPause flags, ro_Poll = rg_poll flags, ro_StopGrace = rg_stopGrace flags,
     ro_FileSizeMB = rg_fileSize flags, ro_FileCount = rg_fileCount flags, ro_MinMemoryBytes = rg_minMemory flags * 1024 * 1024,
     ro_MinWorkFreeBytes = rg_minWorkFree flags * 1024 * 1024, ro_KeepCaptures = rg_keepCaptures flags\<rparr>"

text \<open>The checks before the run, in the order of the code.\<close>

definition check_flags :: "runFlags \<Rightarrow> string + experimentID \<times> targetSpec" where
  "check_flags flags =
     (case parseExperiment (rg_experiment flags) of Inl t \<Rightarrow> Inl t | Inr x \<Rightarrow>
     (case parseTarget (rg_band flags) (rg_arfcn flags) (rg_pci flags) of Inl t \<Rightarrow> Inl t | Inr target \<Rightarrow>
      if \<not> rg_confirmActive flags then Inl ''run requires -confirm-active-measurement''
      else if changes_network x \<and> \<not> rg_confirmNetwork flags
      then Inl (''experiment '' @ experiment_name x @ '' changes network selection and requires -confirm-network-change'')
      else if x = experimentB \<and> TrimSpace (rg_qcrilStart flags) = []
      then Inl ''experiment B requires -qcril-start-command; no unverified socket framing is built in''
      else if x = experimentF \<and> tg_PCI target = None
      then Inl ''experiment F requires -target-pci from a known successful n41 registration''
      else if rg_window flags < Second \<or> rg_window flags > 30 * Second then Inl ''window must be between 1s and 30s''
      else if rg_fileSize flags < 1 \<or> rg_fileSize flags > 4 \<or> rg_fileCount flags < 1 \<or> rg_fileCount flags > 4
      then Inl ''file-size-mb and file-count must each be between 1 and 4''
      else Inr (x, target)))"

definition runExperimentCommand :: "'d main_host \<Rightarrow> string list \<Rightarrow> 'd probe \<Rightarrow> 'd command" where
  "runExperimentCommand M args s =
     (case mh_run_flags M args of
        Inl t \<Rightarrow> Some ((Some t, []), s)
      | Inr flags \<Rightarrow>
          (case check_flags flags of
             Inl t \<Rightarrow> Some ((Some t, []), s)
           | Inr (x, target) \<Rightarrow> do {
               ((rec, e), s) \<leftarrow> runExperiment (rp_run (mh_report M)) (run_options flags x target) s;
               if xr_RunID rec = [] then Some ((e, []), s)
               else let ((re, out), s) = appendExperimentReports (mh_report M) (rg_workDir flags) rec s in
                 Some ((join_errors e re, out), s) }))"

definition runDryRun :: "'d main_host \<Rightarrow> string list \<Rightarrow> 'd probe \<Rightarrow> 'd command" where
  "runDryRun M args s =
     (let H = rp_run (mh_report M) in
      case mh_dry_flags M args of Inl t \<Rightarrow> Some ((Some t, []), s) | Inr flags \<Rightarrow>
     (case parseTarget (dg_band flags) (dg_arfcn flags) (dg_pci flags) of Inl t \<Rightarrow> Some ((Some t, []), s) | Inr target \<Rightarrow>
     (let (e, s) = ask (h_mkdir H (dg_out flags)) s in
      case e of Some t \<Rightarrow> Some ((Some t, []), s) | None \<Rightarrow>
     (let activePath = path_join (dg_out flags) ''qtrace-active-id96-bit15.cfg'';
          (source, s) = read_file H (dg_config flags) s;
          (w, s) = ask (h_write H activePath) s
      in do {
        (r, fs) \<leftarrow> buildActiveQTrace (h_sha256 H) w (dg_config flags) source activePath (pb_files s);
        let s = s\<lparr>pb_files := fs\<rparr>;
        case r of Inl t \<Rightarrow> Some ((Some t, []), s) | Inr patchResult \<Rightarrow>
       (case makeNRIncrementalScanRequest 1 [tg_ARFCN target] 2 of Inl t \<Rightarrow> Some ((Some t, []), s) | Inr manual \<Rightarrow>
       (case makeQCRILOneShotExpectedRequest 1 0x10 of Inl t \<Rightarrow> Some ((Some t, []), s) | Inr oneshoot \<Rightarrow>
       (let manifest = \<lparr>dm_ToolVersion = toolVersion, dm_SourceConfig = dg_config flags, dm_SourceSHA256 = SourceSHA256 patchResult,
              dm_SourceBytes = SourceBytes patchResult, dm_ActiveConfig = activePath, dm_ActiveSHA256 = ActiveSHA256 patchResult,
              dm_ActiveBytes = ActiveBytes patchResult, dm_QSHID = 96, dm_OriginalMask = ''0x'' @ hex4 (OriginalMask patchResult),
              dm_ActiveMask = ''0x'' @ hex4 (ActiveMask patchResult), dm_RoundTripValid = True, dm_Target = target,
              dm_Manual0085Raw = hex_EncodeToString manual, dm_QCRILOneShotExpectedRaw = hex_EncodeToString oneshoot,
              dm_QCRILOneShotCarriesChannel = False, dm_QCRILAdvancedCarriesChannel = True,
              dm_SetChannelsQMIMessage = ''NAS 0x0033 Set System Selection Preference'', dm_SetChannelsCarriesChannel = False,
              dm_Experiments = defaultExperimentPlans\<rparr>;
            (e, s) = writeJSONAtomic H (path_join (dg_out flags) ''manifest.json'') (mh_manifest M manifest) s
        in Some (case e of Some t \<Rightarrow> (Some t, []) | None \<Rightarrow> (None, [to_text (mh_manifest M manifest)]), s)))) }))))"

definition runInspectQMDL :: "'d main_host \<Rightarrow> string list \<Rightarrow> 'd probe \<Rightarrow> 'd command" where
  "runInspectQMDL M args s =
     (case mh_inspect_flags M args of Inl t \<Rightarrow> Some ((Some t, []), s) | Inr flags \<Rightarrow>
      if ig_paths flags = [] then Some ((Some ''inspect-qmdl requires one or more .qmdl paths'', []), s)
      else case parseTarget (ig_band flags) (ig_arfcn flags) (ig_pci flags) of Inl t \<Rightarrow> Some ((Some t, []), s) | Inr target \<Rightarrow>
        (let (fs, s) = ask (h_captures (rp_run (mh_report M))) s in do {
           (metrics, e) \<leftarrow> analyzeQMDLFiles fs (ig_paths flags) target;
           Some (case e of Some t \<Rightarrow> (Some t, []) | None \<Rightarrow> (None, [to_text (mh_metrics M metrics)]), s) }))"

definition run_diff :: "'d main_host \<Rightarrow> string list \<Rightarrow> 'd probe \<Rightarrow> 'd command" where
  "run_diff M args s =
     (case mh_diff_flags M args of Inl t \<Rightarrow> Some ((Some t, []), s) | Inr flags \<Rightarrow>
        (let (files, s) = ask (mh_texts M) s; (w, s) = ask (h_write (rp_run (mh_report M)) (dq_out flags)) s in do {
           (r, fs) \<leftarrow> runDiffQMI (mh_diff M) files w (dq_manual flags) (dq_qcril flags) (dq_out flags) (pb_files s);
           Some (case r of Inl t \<Rightarrow> (Some t, []) | Inr report \<Rightarrow> (None, [to_text (mh_diff M report)]), s\<lparr>pb_files := fs\<rparr>) }))"

definition usageError :: string where
  "usageError = ''usage: u60-nr-crossband-probe <dry-run|run|recover|inspect-qmdl|diff-qmi|version> [options]''"

definition run :: "'d main_host \<Rightarrow> string list \<Rightarrow> 'd probe \<Rightarrow> 'd command" where
  "run M args s =
     (case args of
        [] \<Rightarrow> Some ((Some usageError, []), s)
      | cmd # rest \<Rightarrow>
          if cmd = ''dry-run'' then runDryRun M rest s
          else if cmd = ''run'' then runExperimentCommand M rest s
          else if cmd = ''recover'' then do {
            (e, s) \<leftarrow> runRecoverCommand (rp_run (mh_report M)) (mh_recover_flags M rest) s;
            Some ((e, []), s) }
          else if cmd = ''inspect-qmdl'' then runInspectQMDL M rest s
          else if cmd = ''diff-qmi'' then run_diff M rest s
          else if cmd = ''version'' \<or> cmd = ''--version'' \<or> cmd = ''-version'' then Some ((None, [toolName @ '' '' @ toolVersion]), s)
          else Some ((Some usageError, []), s))"


section \<open>What the commands do to the device\<close>

text \<open>A part of the log without a change of a setting.\<close>

definition no_change :: "'d probe \<Rightarrow> 'd probe \<Rightarrow> bool" where
  "no_change s s' \<longleftrightarrow> (\<exists>w. pb_log s' = pb_log s @ w \<and> \<not> list_ex changing w)"

lemma no_change_refl [simp]: "no_change s s"
  by (simp add: no_change_def)

lemma no_change_trans: "no_change s t \<Longrightarrow> no_change t u \<Longrightarrow> no_change s u"
  by (auto simp: no_change_def)

lemma no_change_alike: "alike s s' \<Longrightarrow> no_change s s'"
  by (simp add: no_change_def alike_def)

lemma no_change_files [simp]: "no_change s (t\<lparr>pb_files := fs\<rparr>) = no_change s t"
  by (simp add: no_change_def)

lemma writeState_calm: "writeState H st s = (e, st', s') \<Longrightarrow> no_change s s'"
  by (auto simp: writeState_def writeJSONAtomic_def note_event_def no_change_def changing_def Let_def split: prod.splits if_splits dest!: askE)

lemma startDiag_calm: "startDiagMDLog H options config out logp s = (e, s') \<Longrightarrow> no_change s s'"
  by (drule startDiagMDLog_effect) (auto simp: no_change_def changing_def)

lemma stop_calm: "stop_process H grace s = (e, s') \<Longrightarrow> no_change s s'"
  by (drule stop_process_effect) (auto simp: no_change_def changing_def)

lemma remove_calm: "remove_file H path s = (r, s') \<Longrightarrow> no_change s s'"
  by (auto simp: remove_file_def note_event_def no_change_def changing_def Let_def split: option.splits prod.splits dest!: askE)

lemma restoreProductionTrace_calm:
  assumes "restoreProductionTrace H options dir s = (e, s')"
  shows "no_change s s'"
proof -
  obtain e1 s1 where n: "ensureNoDiagMDLog H s = (e1, s1)" by fastforce
  obtain e2 s2 where d: "startDiagMDLog H (options\<lparr>ro_FileSizeMB := 1, ro_FileCount := 1\<rparr>) (ro_ConfigPath options) (path_join dir ''trace-restore'')
      (path_join dir ''trace-restore.log'') s1 = (e2, s2)" by fastforce
  obtain we s3 where w: "waitContext H (350 * Millisecond) s2 = (we, s3)" by fastforce
  obtain se s4 where h: "stop_process H (ro_StopGrace options) s3 = (se, s4)" by fastforce
  obtain now s5 where a: "ask (h_now H) (s4\<lparr>pb_files := remove_all (path_join dir ''trace-restore'') (pb_files s4)\<rparr>) = (now, s5)" by fastforce
  have c: "no_change s s1" "no_change s1 s2" "no_change s2 s3" "no_change s3 s4" "no_change s4 s5"
    using no_change_alike [OF ensureNoDiagMDLog_alike [OF n]] startDiag_calm [OF d] stop_calm [OF h] w no_change_alike [OF alike_ask [OF a]]
    by (auto simp: waitContext_def dest: alike_ask no_change_alike) (auto simp: no_change_def)
  have "s' = s1 \<or> s' = s2 \<or> (\<exists>ev. s' = append_action ev s5)"
    using assms n d w h a by (auto simp: restoreProductionTrace_def Let_def split: option.splits)
  moreover have "no_change s s5" using c no_change_trans by blast
  ultimately show ?thesis using c no_change_trans [OF c(1,2)] by (auto simp: no_change_def append_action_def)
qed


lemma trace_from_state_calm:
  "\<exists>e st' s'. restoreProductionTraceFromState H diag st s = Some ((e, st'), s') \<and> no_change s s' \<and> rs_NetworkRestoreRequired st' = rs_NetworkRestoreRequired st"
proof (cases "rs_TraceRestoreRequired st \<and> rs_ProductionQTraceBase64 st \<noteq> []")
  case True
  show ?thesis
  proof (cases "b64_DecodeString (rs_ProductionQTraceBase64 st)")
    case (Inr bytes)
    obtain r where r: "patchActiveQTrace (h_sha256 H) bytes = Some r" using patch_active_spec by blast
    let ?work = "if rs_WorkDir st = [] then ''/tmp/u60-nr-crossband-probe'' else rs_WorkDir st"
    obtain d s1 where m: "ask (h_mkdtemp H ?work) s = (d, s1)" by fastforce
    have c1: "no_change s s1" using no_change_alike [OF alike_ask [OF m]] .
    show ?thesis
    proof (cases "\<exists>x dir. r = Inr x \<and> d = Inr dir")
      case True
      then obtain x dir where x: "r = Inr x" "d = Inr dir" by blast
      obtain w s2 where a: "ask (h_write H (path_join dir ''qtrace-production.cfg'')) s1 = (w, s2)" by fastforce
      obtain e fs where f: "writeFileAtomic_probe w (path_join dir ''qtrace-production.cfg'') bytes (pb_files s2) = (e, fs)" by fastforce
      have c2: "no_change s s2" using no_change_trans [OF c1 no_change_alike [OF alike_ask [OF a]]] .
      have "no_change s t" if "restoreProductionTrace H opts dir (s2\<lparr>pb_files := fs\<rparr>) = (e', t)" for opts e' t
        using restoreProductionTrace_calm [OF that] c2 no_change_trans by (auto simp: no_change_def)
      then show ?thesis
        using \<open>rs_TraceRestoreRequired st \<and> _\<close> Inr r m x a f c2
        by (cases e) (auto simp: restoreProductionTraceFromState_def Let_def split: prod.splits)
    next
      case False
      then show ?thesis
        using \<open>rs_TraceRestoreRequired st \<and> _\<close> Inr r m c1 by (cases r; cases d) (auto simp: restoreProductionTraceFromState_def Let_def)
    qed
  qed (use True in \<open>auto simp: restoreProductionTraceFromState_def\<close>)
qed (auto simp: restoreProductionTraceFromState_def)


lemma recover_calm: "\<exists>e s'. runRecoverCommand H a s = Some (e, s') \<and> (no_change s s' \<or> (\<exists>flags. a = Inr flags \<and> rf_confirm flags))"
proof (cases a)
  case (Inr flags)
  obtain r s1 where l: "loadRecoveryState H (rf_state flags) s = (r, s1)" by fastforce
  have "alike s s1"
    using l by (auto simp: loadRecoveryState_def Let_def split: option.splits prod.splits sum.splits if_splits dest!: alike_ask)
  then have c1: "no_change s s1" by (rule no_change_alike)
  show ?thesis
  proof (cases "\<exists>st. r = Some (Inr st) \<and> \<not> (rs_NetworkRestoreRequired st \<and> \<not> rf_confirm flags)")
    case True
    then obtain st where st: "r = Some (Inr st)" "\<not> (rs_NetworkRestoreRequired st \<and> \<not> rf_confirm flags)" by blast
    define s2 where "s2 = s1\<lparr>pb_UBUS := rf_ubus flags, pb_StatePath := rf_state flags, pb_Actions := None, pb_QMIEvents := None\<rparr>"
    obtain te st3 s3 where t: "restoreProductionTraceFromState H (rf_diagMDLog flags) st s2 = Some ((te, st3), s3)" "no_change s2 s3"
      "rs_NetworkRestoreRequired st3 = rs_NetworkRestoreRequired st" using trace_from_state_calm by blast
    have c3: "no_change s s3" using c1 t(2) by (auto simp: no_change_def s2_def)
    obtain ne st4 s4 where n: "(if rs_NetworkRestoreRequired st3 then restoreNetwork H st3 s3
        else writeState H (st3\<lparr>rs_Stage := ''network-unchanged''\<rparr>) s3) = (ne, st4, s4)" by (metis prod.exhaust)
    have c4: "rf_confirm flags \<or> no_change s s4"
      using n t(3) st(2) writeState_calm [of H "st3\<lparr>rs_Stage := ''network-unchanged''\<rparr>" s3 ne st4 s4] no_change_trans [OF c3] by auto
    have w: "no_change s4 s'" if "writeState H st' s4 = (e', st'', s')" for st' e' st'' s' using writeState_calm [OF that] .
    obtain x xs t5 where w5: "writeState H (st4\<lparr>rs_Status := ''restored'', rs_Stage := ''complete'', rs_LastError := []\<rparr>) s4 = (x, xs, t5)" by (metis prod.exhaust)
    obtain y t6 where r6: "remove_file H (rf_state flags) t5 = (y, t6)" by fastforce
    have c6: "rf_confirm flags \<or> no_change s t5 \<and> no_change s t6" using c4 w [OF w5] remove_calm [OF r6] no_change_trans by blast
    have z: "runRecoverCommand H a s =
        (case join_errors te ne of
           Some t \<Rightarrow>
             (let (_, st, s) = writeState H (st4\<lparr>rs_Status := ''restore-failed'', rs_Stage := ''restore-incomplete'', rs_LastError := t\<rparr>) s4 in
              Some (Some t, s))
         | None \<Rightarrow>
             (case x of
                Some t \<Rightarrow> Some (Some t, t5)
              | None \<Rightarrow>
                   Some (case y of
                       Removed \<Rightarrow> None
                     | NotExist \<Rightarrow> Some (''remove '' @ rf_state flags @ '': no such file or directory'')
                     | RemoveFailed t \<Rightarrow> Some t, t6)))"
      using Inr l st t(1) n w5 r6 unfolding runRecoverCommand_def s2_def by (cases "join_errors te ne"; cases x; cases "rs_NetworkRestoreRequired st") (simp_all del: join_errors_None)
    show ?thesis
    proof (cases "join_errors te ne")
      case None
      then show ?thesis using z [unfolded None option.case] c6 Inr by (cases x) auto
    next
      case (Some t)
      obtain a1 a2 a3 where ws: "writeState H (st4\<lparr>rs_Status := ''restore-failed'', rs_Stage := ''restore-incomplete'', rs_LastError := t\<rparr>) s4 = (a1, a2, a3)"
        by (metis prod.exhaust)
      show ?thesis using z [unfolded Some option.case] ws Inr c4 w [OF ws] no_change_trans [of s s4 a3] by auto
    qed
  next
    case False
    then show ?thesis using Inr l c1 by (cases r rule: option.exhaust; cases "the r") (auto simp: runRecoverCommand_def)
  qed
qed (simp add: runRecoverCommand_def)

section \<open>Confirmations\<close>

lemma guarded_changing: "guarded st0 p l \<Longrightarrow> list_ex changing l \<Longrightarrow> rs_NetworkRestoreRequired st0"
proof (induction l rule: rev_induct)
  case (snoc e l)
  then show ?case by (cases e) (auto simp: guarded_snoc allowed_def changing_def)
qed simp

lemma check_flags_Inr:
  assumes "check_flags flags = Inr (x, target)"
  shows "rg_confirmActive flags" and "changes_network x \<longrightarrow> rg_confirmNetwork flags" and "x = experimentF \<longrightarrow> tg_PCI target \<noteq> None"
  using assms by (auto simp: check_flags_def split: sum.splits if_splits)

lemma writeJSONAtomic_log: "writeJSONAtomic H path json s = (e, s') \<Longrightarrow> pb_log s' = pb_log s"
  by (auto simp: writeJSONAtomic_def Let_def split: prod.splits dest!: askE)

lemma append_log:
  "open_append R path s = (e, s') \<Longrightarrow> pb_log s' = pb_log s"
  "append_bytes R path data s = (e, s') \<Longrightarrow> pb_log s' = pb_log s"
  "appendCSVReport R path rec s = (e, s') \<Longrightarrow> pb_log s' = pb_log s"
proof -
  show o: "open_append R path s = (e, s') \<Longrightarrow> pb_log s' = pb_log s" for path s e s'
    by (auto simp: open_append_def Let_def split: prod.splits if_splits dest!: askE)
  show a: "append_bytes R path data s = (e, s') \<Longrightarrow> pb_log s' = pb_log s" for path data s e s'
    by (auto simp: append_bytes_def Let_def split: prod.splits dest!: askE)
  show "appendCSVReport R path rec s = (e, s') \<Longrightarrow> pb_log s' = pb_log s"
    by (auto simp: appendCSVReport_def Let_def split: prod.splits option.splits dest!: askE o a)
qed

lemma reports_log: "appendExperimentReports R dir rec s = (r, s') \<Longrightarrow> pb_log s' = pb_log s"
  by (auto simp: appendExperimentReports_def Let_def split: prod.splits option.splits sum.splits dest!: askE append_log writeJSONAtomic_log)


text \<open>A run with a bad poll interval that returns, returns what it does with a good one: it did not come to the monitor.\<close>

lemma poll_selectors:
  "ro_Experiment (options\<lparr>ro_Poll := n\<rparr>) = ro_Experiment options"
  "ro_Target (options\<lparr>ro_Poll := n\<rparr>) = ro_Target options"
  "ro_ConfigPath (options\<lparr>ro_Poll := n\<rparr>) = ro_ConfigPath options"
  "ro_WorkDir (options\<lparr>ro_Poll := n\<rparr>) = ro_WorkDir options"
  "ro_StatePath (options\<lparr>ro_Poll := n\<rparr>) = ro_StatePath options"
  "ro_DiagMDLog (options\<lparr>ro_Poll := n\<rparr>) = ro_DiagMDLog options"
  "ro_UBUS (options\<lparr>ro_Poll := n\<rparr>) = ro_UBUS options"
  "ro_QCRILStart (options\<lparr>ro_Poll := n\<rparr>) = ro_QCRILStart options"
  "ro_QCRILStop (options\<lparr>ro_Poll := n\<rparr>) = ro_QCRILStop options"
  "ro_QMITracePath (options\<lparr>ro_Poll := n\<rparr>) = ro_QMITracePath options"
  "ro_Window (options\<lparr>ro_Poll := n\<rparr>) = ro_Window options" "ro_Settle (options\<lparr>ro_Poll := n\<rparr>) = ro_Settle options"
  "ro_AcquisitionPause (options\<lparr>ro_Poll := n\<rparr>) = ro_AcquisitionPause options"
  "ro_StopGrace (options\<lparr>ro_Poll := n\<rparr>) = ro_StopGrace options"
  "ro_FileSizeMB (options\<lparr>ro_Poll := n\<rparr>) = ro_FileSizeMB options"
  "ro_FileCount (options\<lparr>ro_Poll := n\<rparr>) = ro_FileCount options"
  "ro_MinMemoryBytes (options\<lparr>ro_Poll := n\<rparr>) = ro_MinMemoryBytes options"
  "ro_MinWorkFreeBytes (options\<lparr>ro_Poll := n\<rparr>) = ro_MinWorkFreeBytes options"
  "ro_KeepCaptures (options\<lparr>ro_Poll := n\<rparr>) = ro_KeepCaptures options"
  by simp_all

lemma startDiagMDLog_cong:
  assumes "ro_DiagMDLog a = ro_DiagMDLog b" and "ro_FileSizeMB a = ro_FileSizeMB b" and "ro_FileCount a = ro_FileCount b"
  shows "startDiagMDLog H a = startDiagMDLog H b"
  by (intro ext) (unfold startDiagMDLog_def assms, rule refl)

lemma startDiagMDLog_poll:
  "startDiagMDLog H (options\<lparr>ro_Poll := n\<rparr>) = startDiagMDLog H options"
  "startDiagMDLog H (options\<lparr>ro_Poll := n, ro_FileSizeMB := 1, ro_FileCount := 1\<rparr>) = startDiagMDLog H (options\<lparr>ro_FileSizeMB := 1, ro_FileCount := 1\<rparr>)"
  by (rule startDiagMDLog_cong; simp)+

lemma trace_poll: "restoreProductionTrace H (options\<lparr>ro_Poll := n\<rparr>) = restoreProductionTrace H options"
  by (intro ext) (unfold restoreProductionTrace_def startDiagMDLog_poll poll_selectors, rule refl)

lemma deferred_poll:
  "deferred_trace H (options\<lparr>ro_Poll := n\<rparr>) = deferred_trace H options" "deferred_network K (options\<lparr>ro_Poll := n\<rparr>) = deferred_network K options"
  by (unfold deferred_trace_def deferred_network_def trace_poll poll_selectors) (rule refl)+

lemma poll_unread:
  "resourcePreflight H (options\<lparr>ro_Poll := n\<rparr>) = resourcePreflight H options"
  "deferred H (options\<lparr>ro_Poll := n\<rparr>) = deferred H options"
  "first_record (options\<lparr>ro_Poll := n\<rparr>) = first_record options"
  "first_journal (options\<lparr>ro_Poll := n\<rparr>) = first_journal options"
  by (unfold resourcePreflight_def deferred_def deferred_poll first_record_def first_journal_def poll_selectors) (rule refl)+

definition below :: "'a option \<Rightarrow> 'a option \<Rightarrow> bool" where
  "below x y \<longleftrightarrow> x = None \<or> x = y"

lemma below_refl [simp]: "below x x" "below None x"
  by (simp_all add: below_def)

lemma below_bind: "below x y \<Longrightarrow> (\<And>v. below (f v) (g v)) \<Longrightarrow> below (x \<bind> f) (y \<bind> g)"
  by (cases x; cases y) (auto simp: below_def)

lemma journaled_run_poll:
  assumes "ro_Poll options \<le> 0"
  shows "below (journaled_run H options runDir activeConfig sn rec st s) (journaled_run H (options\<lparr>ro_Poll := n\<rparr>) runDir activeConfig sn rec st s)"
  using poll_panics [OF assms, of H] unfolding journaled_run_def Let_def startDiagMDLog_poll poll_selectors
  by (auto split: prod.split option.split)

lemma snapshot_run_poll:
  assumes "ro_Poll options \<le> 0"
  shows "below (snapshot_run H options runID runDir activeConfig p s) (snapshot_run H (options\<lparr>ro_Poll := n\<rparr>) runID runDir activeConfig p s)"
  unfolding snapshot_run_def Let_def poll_unread poll_selectors
  by (auto split: prod.split option.split sum.split intro!: below_bind journaled_run_poll [OF assms])

lemma locked_run_poll:
  assumes "ro_Poll options \<le> 0"
  shows "below (locked_run H options s) (locked_run H (options\<lparr>ro_Poll := n\<rparr>) s)"
  unfolding locked_run_def Let_def poll_unread poll_selectors
  by (auto split: prod.split option.split sum.split intro!: below_bind snapshot_run_poll [OF assms])

lemma runExperiment_poll:
  assumes "ro_Poll options \<le> 0"
  shows "below (runExperiment H options s) (runExperiment H (options\<lparr>ro_Poll := n\<rparr>) s)"
  unfolding runExperiment_def Let_def poll_selectors
  by (auto split: prod.split option.split intro!: below_bind locked_run_poll [OF assms])

text \<open>Who may touch the device, and who may change its settings.\<close>

definition may_touch :: "'d main_host \<Rightarrow> string list \<Rightarrow> bool" where
  "may_touch M args \<longleftrightarrow> (\<exists>rest flags. args = ''run'' # rest \<and> mh_run_flags M rest = Inr flags \<and> rg_confirmActive flags) \<or>
     (\<exists>rest flags. args = ''recover'' # rest \<and> mh_recover_flags M rest = Inr flags)"

definition may_change :: "'d main_host \<Rightarrow> string list \<Rightarrow> bool" where
  "may_change M args \<longleftrightarrow> (\<exists>rest flags. args = ''run'' # rest \<and> mh_run_flags M rest = Inr flags \<and> rg_confirmActive flags \<and> rg_confirmNetwork flags) \<or>
     (\<exists>rest flags. args = ''recover'' # rest \<and> mh_recover_flags M rest = Inr flags \<and> rf_confirm flags)"

lemma experiment_changing:
  assumes ok: "probe_host_ok H" and l: "pb_log s = []" and paths: "run_paths options"
    and pci: "ro_Experiment options = experimentF \<longrightarrow> tg_PCI (ro_Target options) \<noteq> None"
  shows "case runExperiment H options s of None \<Rightarrow> ro_Poll options \<le> 0
    | Some (r, s') \<Rightarrow> list_ex changing (pb_log s') \<longrightarrow> changes_network (ro_Experiment options)"
proof -
  define good where "good = (if ro_Poll options \<le> 0 then options\<lparr>ro_Poll := 1\<rparr> else options)"
  have g: "run_paths good" "accepted good" "ro_Experiment good = ro_Experiment options"
    using paths pci by (simp_all add: good_def accepted_def run_paths_def)
  have b: "below (runExperiment H options s) (runExperiment H good s)"
    using runExperiment_poll [of options H s 1] by (simp add: good_def)
  from runExperiment_ok [OF ok g(1) l g(2)] obtain rec e s1 where r: "runExperiment H good s = Some ((rec, e), s1)"
    "early rec s1 \<or> (\<exists>p. ran_ok H good p rec s1)" by (auto simp: ran_from_def)
  have "changes_network (ro_Experiment options)" if ch: "list_ex changing (pb_log s1)"
  proof -
    obtain p st0 where o: "over H good st0 p s1" "rs_NetworkRestoreRequired st0 = changes_network (ro_Experiment good)"
      using r(2) ch unfolding early_def ran_ok_def untouched_def by auto
    show ?thesis using guarded_changing [OF over_end(1) [OF o(1)] ch] o(2) g(3) by simp
  qed
  moreover have "runExperiment H options s = Some ((rec, e), s1)" if "\<not> ro_Poll options \<le> 0" using r(1) that by (simp add: good_def)
  ultimately show ?thesis using b r(1) by (cases "runExperiment H options s") (auto simp: below_def)
qed

lemma runExperimentCommand_log:
  assumes ok: "probe_host_ok (rp_run (mh_report M))" and l: "pb_log s = []"
    and flags: "mh_run_flags M args = Inr flags" "\<And>x t. run_paths (run_options flags x t)"
  shows "case runExperimentCommand M args s of None \<Rightarrow> rg_poll flags \<le> 0
    | Some (r, s') \<Rightarrow> (pb_log s' \<noteq> [] \<longrightarrow> rg_confirmActive flags) \<and>
        (list_ex changing (pb_log s') \<longrightarrow> rg_confirmActive flags \<and> rg_confirmNetwork flags)"
proof (cases "check_flags flags")
  case (Inl t)
  then show ?thesis using flags(1) l by (simp add: runExperimentCommand_def)
next
  case (Inr xt)
  obtain x target where xt: "xt = (x, target)" by fastforce
  let ?o = "run_options flags x target" and ?H = "rp_run (mh_report M)"
  note c = check_flags_Inr [OF Inr [unfolded xt]]
  have o: "ro_Experiment ?o = x" "ro_Target ?o = target" "ro_Poll ?o = rg_poll flags" by (simp_all add: run_options_def)
  have e: "case runExperiment ?H ?o s of None \<Rightarrow> rg_poll flags \<le> 0 | Some (r, s') \<Rightarrow> list_ex changing (pb_log s') \<longrightarrow> changes_network x"
    using experiment_changing [OF ok l flags(2) [of x target]] c(3) unfolding o by simp
  show ?thesis
  proof (cases "runExperiment ?H ?o s")
    case None
    then show ?thesis using e flags(1) Inr xt by (simp add: runExperimentCommand_def)
  next
    case (Some z)
    obtain rec e1 s1 where z: "z = ((rec, e1), s1)" by (metis prod.exhaust)
    obtain re out s2 where a: "appendExperimentReports (mh_report M) (rg_workDir flags) rec s1 = ((re, out), s2)" by (metis prod.exhaust)
    show ?thesis using e Some z flags(1) Inr xt a reports_log [OF a] c by (simp add: runExperimentCommand_def)
  qed
qed

lemma runDiffQMI_total: "\<exists>r fs'. runDiffQMI json files w mp qp out fs = Some (r, fs')"
proof -
  obtain ma e1 qa e2 where "extract0085Requests mp (files mp) = Some (ma, e1)" "extract0085Requests qp (files qp) = Some (qa, e2)"
    using extract_ok [of mp "files mp"] extract_ok [of qp "files qp"] by blast
  then show ?thesis
    unfolding runDiffQMI_def by (cases e1; cases e2; cases "compare_requests mp qp ma qa") (auto split: prod.splits)
qed

lemma run_diff_log: "\<exists>r s'. run_diff M args s = Some (r, s') \<and> pb_log s' = pb_log s"
proof (cases "mh_diff_flags M args")
  case (Inr flags)
  obtain files s1 where a: "ask (mh_texts M) s = (files, s1)" by fastforce
  obtain w s2 where b: "ask (h_write (rp_run (mh_report M)) (dq_out flags)) s1 = (w, s2)" by fastforce
  obtain r fs where "runDiffQMI (mh_diff M) files w (dq_manual flags) (dq_qcril flags) (dq_out flags) (pb_files s2) = Some (r, fs)"
    using runDiffQMI_total by blast
  then show ?thesis using Inr a b askE [OF a] askE [OF b] by (simp add: run_diff_def)
qed (simp add: run_diff_def)

lemma runInspectQMDL_log: "\<exists>r s'. runInspectQMDL M args s = Some (r, s') \<and> pb_log s' = pb_log s"
proof (cases "mh_inspect_flags M args")
  case (Inr flags)
  obtain fs s1 where a: "ask (h_captures (rp_run (mh_report M))) s = (fs, s1)" by fastforce
  show ?thesis
  proof (cases "parseTarget (ig_band flags) (ig_arfcn flags) (ig_pci flags)")
    case target: (Inr target)
    obtain m e where "analyzeQMDLFiles fs (ig_paths flags) target = Some (m, e)"
      using analyze_paths_total [of fs target "sort_key (map code) (ig_paths flags)" no_metrics] by (auto simp: analyzeQMDLFiles_def)
    then show ?thesis using Inr target a askE [OF a] by (simp add: runInspectQMDL_def)
  qed (use Inr in \<open>simp add: runInspectQMDL_def\<close>)
qed (simp add: runInspectQMDL_def)

lemma buildActive_total: "\<exists>r fs'. buildActiveQTrace sha w source data out fs = Some (r, fs')"
proof (cases data)
  case (Inr bytes)
  obtain r where "patchActiveQTrace sha bytes = Some r" using patch_active_spec by blast
  then show ?thesis using Inr by (cases r) (auto simp: buildActiveQTrace_def split: prod.splits)
qed (simp add: buildActiveQTrace_def)

lemma runDryRun_log: "\<exists>r s'. runDryRun M args s = Some (r, s') \<and> pb_log s' = pb_log s"
proof (cases "mh_dry_flags M args")
  case (Inr flags)
  let ?H = "rp_run (mh_report M)" and ?out = "path_join (dg_out flags) ''qtrace-active-id96-bit15.cfg''"
  obtain e s1 where a1: "ask (h_mkdir ?H (dg_out flags)) s = (e, s1)" by fastforce
  obtain src s2 where a2: "read_file ?H (dg_config flags) s1 = (src, s2)" by fastforce
  obtain w s3 where a3: "ask (h_write ?H ?out) s2 = (w, s3)" by fastforce
  obtain r fs where b: "buildActiveQTrace (h_sha256 ?H) w (dg_config flags) src ?out (pb_files s3) = Some (r, fs)" using buildActive_total by blast
  have l: "pb_log s1 = pb_log s" "pb_log s3 = pb_log s" using askE [OF a1] read_file_cases(1) [OF a2] askE [OF a3] by (simp_all add: alike_def)
  show ?thesis
    using Inr a1 a2 a3 b l
    by (cases "parseTarget (dg_band flags) (dg_arfcn flags) (dg_pci flags)"; cases e; cases r)
      (auto simp: runDryRun_def Let_def split: sum.splits prod.splits dest!: writeJSONAtomic_log)
qed (simp add: runDryRun_def)


section \<open>Properties\<close>



text \<open>A command line without the confirmations.\<close>

definition sample_flags :: runFlags where
  "sample_flags = \<lparr>rg_experiment = ''c'', rg_config = ''qtrace.cfg'', rg_workDir = ''/tmp/w'', rg_state = ''/tmp/w/state.json'', rg_diagMDLog = ''diag_mdlog'',
     rg_ubus = ''ubus'', rg_qcrilStart = [], rg_qcrilStop = [], rg_qmiTrace = [], rg_window = 8 * Second, rg_settle = 400 * Millisecond,
     rg_acquisitionPause = 700 * Millisecond, rg_poll = 100 * Millisecond, rg_stopGrace = 2 * Second, rg_fileSize = 2, rg_fileCount = 2, rg_minMemory = 32,
     rg_minWorkFree = 16, rg_keepCaptures = False, rg_confirmActive = False, rg_confirmNetwork = False, rg_band = 41, rg_arfcn = 504990, rg_pci = []\<rparr>"

definition sample_main_host :: "unit main_host" where
  "sample_main_host = \<lparr>mh_report = sample_report_host sample_journal, mh_run_flags = \<lambda>_. Inr sample_flags, mh_recover_flags = \<lambda>_. Inl ''flag'',
     mh_dry_flags = \<lambda>_. Inl ''flag'', mh_inspect_flags = \<lambda>_. Inl ''flag'', mh_diff_flags = \<lambda>_. Inl ''flag'', mh_manifest = \<lambda>_. [], mh_metrics = \<lambda>_. [],
     mh_diff = \<lambda>_. [], mh_texts = \<lambda>d. (\<lambda>_. \<lparr>tf_open = None, tf_stat = Inr 0, tf_seek = None, tf_data = [], tf_tail = None\<rparr>, d)\<rparr>"


end
