(* ===== verification/Gin_Context.thy ===== *)
theory Gin_Context
  imports Prelude
begin

text \<open>
  The handler chain of a gin context (\<^verbatim>\<open>gossh/gin/context.go\<close>): \<^verbatim>\<open>Next\<close> runs the pending handlers inside the calling
  one by moving the shared 8-bit index, and \<^verbatim>\<open>Abort\<close> moves it past the end.  A handler receives \<^verbatim>\<open>Next\<close>
  as an argument and may call it, once, twice or not at all.  The loop has fuel; the main lemma shows that a
  chain of guards returns with enough of it, that the index never wraps, and that the nested calls have the
  meaning of the guards in sequence, each handler run at most once.
\<close>

record 'x gctx =
  gc_index :: int
  gc_data :: 'x

datatype 'c outcome = Ret 'c | Panic 'c

type_synonym 'x handler = "('x gctx \<Rightarrow> 'x gctx outcome option) \<Rightarrow> 'x gctx \<Rightarrow> 'x gctx outcome option"

definition wrap8 :: "int \<Rightarrow> int" where
  "wrap8 i = (i + 128) mod 256 - 128"

definition abortIndex :: int where "abortIndex = 63"

definition step_index :: "'x gctx \<Rightarrow> 'x gctx" where
  "step_index c = c\<lparr>gc_index := wrap8 (gc_index c + 1)\<rparr>"

text \<open>The loop of \<^verbatim>\<open>Next\<close>, after its first increment; \<open>None\<close> is the end of the fuel.\<close>

fun run_handlers :: "nat \<Rightarrow> 'x handler list \<Rightarrow> 'x gctx \<Rightarrow> 'x gctx outcome option" where
  "run_handlers 0 hs c = None"
| "run_handlers (Suc n) hs c =
     (if gc_index c < wrap8 (int (length hs))
      then (case idx hs (gc_index c) of
              None \<Rightarrow> Some (Panic c)
            | Some h \<Rightarrow>
                (case h (\<lambda>c. run_handlers n hs (step_index c)) c of
                   None \<Rightarrow> None
                 | Some (Panic c) \<Rightarrow> Some (Panic c)
                 | Some (Ret c) \<Rightarrow> run_handlers n hs (step_index c)))
      else Some (Ret c))"

definition Next :: "nat \<Rightarrow> 'x handler list \<Rightarrow> 'x gctx \<Rightarrow> 'x gctx outcome option" where
  "Next n hs c = run_handlers n hs (step_index c)"

definition Abort :: "'x gctx \<Rightarrow> 'x gctx" where
  "Abort c = c\<lparr>gc_index := abortIndex\<rparr>"

text \<open>A new context: \<^verbatim>\<open>reset\<close> sets the index to -1, and the engine calls \<^verbatim>\<open>Next\<close>.\<close>

definition handle_request :: "nat \<Rightarrow> 'x handler list \<Rightarrow> 'x \<Rightarrow> 'x gctx outcome option" where
  "handle_request n hs x = Next n hs \<lparr>gc_index = - 1, gc_data = x\<rparr>"

section \<open>Guards\<close>

text \<open>What a middleware of the program decides: stop the chain, go on (once, or with a second call of \<^verbatim>\<open>Next\<close> after the first
  returned), or panic.\<close>

datatype 'x verdict = Stop 'x | Go 'x | GoTwice 'x | Crash 'x

fun apply_verdict :: "'x verdict \<Rightarrow> 'x handler" where
  "apply_verdict (Stop x) nxt c = Some (Ret (Abort (c\<lparr>gc_data := x\<rparr>)))"
| "apply_verdict (Go x) nxt c = nxt (c\<lparr>gc_data := x\<rparr>)"
| "apply_verdict (GoTwice x) nxt c =
     (case nxt (c\<lparr>gc_data := x\<rparr>) of Some (Ret c) \<Rightarrow> nxt c | r \<Rightarrow> r)"
| "apply_verdict (Crash x) nxt c = Some (Panic (c\<lparr>gc_data := x\<rparr>))"

definition guard :: "('x \<Rightarrow> 'x verdict) \<Rightarrow> 'x handler" where
  "guard g nxt c = apply_verdict (g (gc_data c)) nxt c"

definition leaf :: "('x \<Rightarrow> 'x) \<Rightarrow> 'x handler" where
  "leaf f nxt c = Some (Ret (c\<lparr>gc_data := f (gc_data c)\<rparr>))"

text \<open>The reference: the guards one after the other, then the handler.\<close>

fun sequential :: "('x \<Rightarrow> 'x verdict) list \<Rightarrow> ('x \<Rightarrow> 'x) \<Rightarrow> 'x \<Rightarrow> 'x outcome" where
  "sequential [] f x = Ret (f x)"
| "sequential (g # gs) f x =
     (case g x of Stop y \<Rightarrow> Ret y | Go y \<Rightarrow> sequential gs f y | GoTwice y \<Rightarrow> sequential gs f y | Crash y \<Rightarrow> Panic y)"

definition settled :: "nat \<Rightarrow> int \<Rightarrow> 'x outcome \<Rightarrow> 'x gctx outcome option \<Rightarrow> bool" where
  "settled len bound r out \<longleftrightarrow>
     (case r of
        Ret x \<Rightarrow> \<exists>k. out = Some (Ret \<lparr>gc_index = k, gc_data = x\<rparr>) \<and> int len \<le> k \<and> k \<le> bound
      | Panic x \<Rightarrow> \<exists>k. out = Some (Panic \<lparr>gc_index = k, gc_data = x\<rparr>))"

lemma wrap8_id [simp]: "- 128 \<le> i \<Longrightarrow> i \<le> 127 \<Longrightarrow> wrap8 i = i"
  by (simp add: wrap8_def)

lemma settled_mono: "settled len b r out \<Longrightarrow> len' \<le> len \<Longrightarrow> b \<le> b' \<Longrightarrow> settled len' b' r out"
  by (fastforce simp: settled_def split: outcome.splits)

lemma run_past_end:
  "0 < n \<Longrightarrow> int (length hs) \<le> gc_index c \<Longrightarrow> length hs \<le> 127 \<Longrightarrow> run_handlers n hs c = Some (Ret c)"
  by (cases n) simp_all

lemma run_one:
  assumes "i < length hs" "length hs \<le> 32" "gc_index c = int i"
    and "(hs ! i) (\<lambda>c. run_handlers n hs (step_index c)) c = out" "0 < n" "settled (length hs - 1) b r out" "b \<le> 126"
  shows "settled (length hs) (b + 1) r (run_handlers (Suc n) hs c)"
proof -
  have i: "idx hs (int i) = Some (hs ! i)" using assms(1) by (simp add: idx_def)
  show ?thesis
  proof (cases r)
    case (Panic x)
    then show ?thesis using assms i by (auto simp: settled_def)
  next
    case (Ret x)
    then obtain k where k: "out = Some (Ret \<lparr>gc_index = k, gc_data = x\<rparr>)" "int (length hs) - 1 \<le> k" "k \<le> b"
      using assms(1,6) by (auto simp: settled_def)
    then have w: "wrap8 (k + 1) = k + 1" using assms(1,7) by simp
    have "run_handlers (Suc n) hs c = run_handlers n hs \<lparr>gc_index = k + 1, gc_data = x\<rparr>"
      using assms(1-4) i k(1) w by (simp add: step_index_def)
    also have "\<dots> = Some (Ret \<lparr>gc_index = k + 1, gc_data = x\<rparr>)" using k(2) assms(2,5) by (simp add: run_past_end)
    finally show ?thesis using k Ret by (auto simp: settled_def)
  qed
qed

lemma guards_sequential:
  assumes "hs = map guard gs @ [leaf f]" "length hs \<le> 30" "i < length hs" "gc_index c = int i" "length hs - i < n"
  shows "settled (length hs) (63 + 2 * int (length hs - i)) (sequential (drop i gs) f (gc_data c)) (run_handlers n hs c)"
  using assms(3-)
proof (induction "length hs - i" arbitrary: i n c)
  case (Suc m)
  obtain n' where n: "n = Suc n'" "0 < n'" using Suc.prems by (cases n) auto
  let ?nxt = "\<lambda>c. run_handlers n' hs (step_index c)"
  have len: "length hs = Suc (length gs)" using assms(1) by simp
  show ?case
  proof (cases "i = length gs")
    case True
    then have "hs ! i = leaf f" using assms(1) by (simp add: nth_append)
    moreover have "settled (length hs - 1) 63 (Ret (f (gc_data c))) (leaf f ?nxt c)"
      using Suc.prems(2) True len assms(2) by (cases c) (auto simp: leaf_def settled_def)
    ultimately have "settled (length hs) (63 + 1) (Ret (f (gc_data c))) (run_handlers (Suc n') hs c)"
      using run_one [of i hs c n' "leaf f ?nxt c" 63 "Ret (f (gc_data c))"] Suc.prems n(2) assms(2) by simp
    then show ?thesis using True len n(1) by (auto elim!: settled_mono)
  next
    case False
    then have i: "i < length gs" using Suc.prems(1) len by simp
    define g where "g = gs ! i"
    have h: "hs ! i = guard g" using assms(1) i by (simp add: nth_append g_def)
    have d: "drop i gs = g # drop (Suc i) gs" using i by (simp add: Cons_nth_drop_Suc g_def)
    let ?b = "63 + 2 * int (length hs - Suc i)"
    have nxt: "settled (length hs) ?b (sequential (drop (Suc i) gs) f y) (?nxt (c\<lparr>gc_data := y\<rparr>))" for y
    proof -
      have "m = length hs - Suc i" using Suc.hyps(2) by simp
      moreover have "gc_index (step_index (c\<lparr>gc_data := y\<rparr>)) = int (Suc i)"
        using Suc.prems(2) i len assms(2) by (simp add: step_index_def)
      ultimately show ?thesis
        using Suc.hyps(1) [of "Suc i" "step_index (c\<lparr>gc_data := y\<rparr>)" n'] Suc.prems(3) i len n(1)
        by (simp add: step_index_def)
    qed
    have fine: "settled (length hs - 1) (?b + 1) (sequential (drop i gs) f (gc_data c)) (guard g ?nxt c)"
    proof (cases "g (gc_data c)")
      case (GoTwice y)
      show ?thesis
      proof (cases "sequential (drop (Suc i) gs) f y")
        case (Ret x)
        then obtain k where k: "?nxt (c\<lparr>gc_data := y\<rparr>) = Some (Ret \<lparr>gc_index = k, gc_data = x\<rparr>)" "int (length hs) \<le> k" "k \<le> ?b"
          using nxt [of y] by (auto simp: settled_def)
        have "wrap8 (k + 1) = k + 1" using k assms(2) by simp
        then have "?nxt \<lparr>gc_index = k, gc_data = x\<rparr> = Some (Ret \<lparr>gc_index = k + 1, gc_data = x\<rparr>)"
          using k(2) n(2) assms(2) by (simp add: step_index_def run_past_end)
        then show ?thesis using k GoTwice d Ret by (auto simp: guard_def settled_def)
      qed (use nxt [of y] GoTwice d in \<open>auto simp: guard_def settled_def\<close>)
    next
      case (Go y)
      then show ?thesis using settled_mono [OF nxt [of y]] d by (simp add: guard_def)
    next
      case (Stop y)
      then show ?thesis using d assms(2) by (cases c) (simp add: guard_def settled_def Abort_def abortIndex_def)
    next
      case (Crash y)
      then show ?thesis using d by (cases c) (simp add: guard_def settled_def)
    qed
    have "settled (length hs) (?b + 1 + 1) (sequential (drop i gs) f (gc_data c)) (run_handlers (Suc n') hs c)"
      by (rule run_one [where i = i and out = "guard g ?nxt c"]) (use h fine Suc.prems assms(2) n(2) in auto)
    then show ?thesis using i len n(1) by (simp add: algebra_simps of_nat_diff)
  qed
qed simp

lemma handle_request_guards:
  assumes "length gs \<le> 29" "length gs + 1 < n"
  shows "settled (length gs + 1) 127 (sequential gs f x) (handle_request n (map guard gs @ [leaf f]) x)"
proof -
  let ?hs = "map guard gs @ [leaf f]"
  have "settled (length ?hs) (63 + 2 * int (length ?hs - 0)) (sequential (drop 0 gs) f x) (run_handlers n ?hs \<lparr>gc_index = 0, gc_data = x\<rparr>)"
    using guards_sequential [of ?hs gs f 0 "\<lparr>gc_index = 0, gc_data = x\<rparr>" n] assms by simp
  then show ?thesis using assms
    by (auto simp: handle_request_def Next_def step_index_def settled_def split: outcome.splits)
qed

end
