(* ===== verification/Web_Access.thy ===== *)
theory Web_Access
  imports Gin_Context Go_Bytes Go_Format
begin

text \<open>
  Access control of the web service: the middleware of \<^verbatim>\<open>gossh/app/middleware\<close> in the order \<^verbatim>\<open>main.go\<close> installs it
  (\<^verbatim>\<open>DbCheck\<close>, \<^verbatim>\<open>NetFilter\<close>, and for the authenticated routes \<^verbatim>\<open>SysInit\<close>, \<^verbatim>\<open>JWTAuth\<close>, \<^verbatim>\<open>PremCheck\<close>), on the handler chain
  of gin, with the token parser and validator of \<^verbatim>\<open>gossh/gin/jwt\<close>.  Base 64 and JSON decoding of a token, the signing
  methods, and the text forms of addresses are parameters.  The theorems say which requests reach a handler, with
  which user, and that a token whose claims do not decode can be one of them.
\<close>

section \<open>Tokens\<close>

record JwtClaims =
  jc_Id :: nat
  jc_ExpiresAt :: "int option"
  jc_NotBefore :: "int option"
  jc_Issuer :: string

definition zero_claims :: JwtClaims where
  "zero_claims = \<lparr>jc_Id = 0, jc_ExpiresAt = None, jc_NotBefore = None, jc_Issuer = []\<rparr>"

text \<open>The parts of the token library that are parameters: a segment's base 64, the header's \<^verbatim>\<open>alg\<close>, the claims (the error's text, if
  any, and the claims as filled in up to it), the known methods, their verification, and signing.\<close>

record jwt_lib =
  jl_segment :: "string \<Rightarrow> string + byte list"
  jl_header :: "byte list \<Rightarrow> string + string option"
  jl_claims :: "byte list \<Rightarrow> string option \<times> JwtClaims"
  jl_method :: "string \<Rightarrow> bool"
  jl_verify :: "string \<Rightarrow> string \<Rightarrow> byte list \<Rightarrow> byte list \<Rightarrow> string option"
  jl_sign :: "JwtClaims \<Rightarrow> byte list \<Rightarrow> string + string"

definition ErrTokenMalformed :: string where "ErrTokenMalformed = ''token is malformed''"
definition ErrTokenUnverifiable :: string where "ErrTokenUnverifiable = ''token is unverifiable''"
definition ErrTokenSignatureInvalid :: string where "ErrTokenSignatureInvalid = ''token signature is invalid''"
definition ErrTokenInvalidClaims :: string where "ErrTokenInvalidClaims = ''token has invalid claims''"
definition ErrTokenExpired :: string where "ErrTokenExpired = ''token is expired''"
definition ErrTokenNotValidYet :: string where "ErrTokenNotValidYet = ''token is not valid yet''"

fun more_errors :: "string list \<Rightarrow> string" where
  "more_errors [] = []"
| "more_errors (e # es) = '': '' @ e @ more_errors es"

definition newError :: "string \<Rightarrow> string \<Rightarrow> string list \<Rightarrow> string" where
  "newError message e details = (if message \<noteq> [] then e @ '': '' @ message else e) @ more_errors details"

definition ParseUnverified :: "jwt_lib \<Rightarrow> string \<Rightarrow> JwtClaims \<times> (string + string \<times> string list)" where
  "ParseUnverified L tokenString =
     (case split_on (CHR ''.'') tokenString of
        [p0, p1, p2] \<Rightarrow>
          (case jl_segment L p0 of
             Inl e \<Rightarrow> (zero_claims, Inl (newError ''could not base64 decode header'' ErrTokenMalformed [e]))
           | Inr headerBytes \<Rightarrow>
          (case jl_header L headerBytes of
             Inl e \<Rightarrow> (zero_claims, Inl (newError ''could not JSON decode header'' ErrTokenMalformed [e]))
           | Inr alg \<Rightarrow>
          (case jl_segment L p1 of
             Inl e \<Rightarrow> (zero_claims, Inl (newError ''could not base64 decode claim'' ErrTokenMalformed [e]))
           | Inr claimBytes \<Rightarrow>
          (case jl_claims L claimBytes of
             (Some e, claims) \<Rightarrow> (claims, Inl (newError ''could not JSON decode claim'' ErrTokenMalformed [e]))
           | (None, claims) \<Rightarrow>
          (case alg of
             Some method \<Rightarrow>
               if jl_method L method then (claims, Inr (method, [p0, p1, p2]))
               else (claims, Inl (newError ''signing method (alg) is unavailable'' ErrTokenUnverifiable []))
           | None \<Rightarrow> (claims, Inl (newError ''signing method (alg) is unspecified'' ErrTokenUnverifiable [])))))))
      | _ \<Rightarrow> (zero_claims, Inl (newError ''token contains an invalid number of segments'' ErrTokenMalformed [])))"

text \<open>The default validator: no claim is required, there is no leeway.  The clock is in nanoseconds, the claims in seconds.\<close>

definition verifyExpiresAt :: "JwtClaims \<Rightarrow> int \<Rightarrow> string option" where
  "verifyExpiresAt claims now =
     (case jc_ExpiresAt claims of None \<Rightarrow> None | Some t \<Rightarrow> if now < t * Second then None else Some ErrTokenExpired)"

definition verifyNotBefore :: "JwtClaims \<Rightarrow> int \<Rightarrow> string option" where
  "verifyNotBefore claims now =
     (case jc_NotBefore claims of None \<Rightarrow> None | Some t \<Rightarrow> if now < t * Second then Some ErrTokenNotValidYet else None)"

definition Validate :: "JwtClaims \<Rightarrow> int \<Rightarrow> string option" where
  "Validate claims now =
     (let errs = List.map_filter (\<lambda>e. e) [verifyExpiresAt claims now, verifyNotBefore claims now]
      in if errs = [] then None else Some (Join errs '', ''))"

definition ParseWithClaims :: "jwt_lib \<Rightarrow> byte list \<Rightarrow> int \<Rightarrow> string \<Rightarrow> JwtClaims \<times> string option" where
  "ParseWithClaims L key now tokenString =
     (case ParseUnverified L tokenString of
        (claims, Inl e) \<Rightarrow> (claims, Some e)
      | (claims, Inr (method, parts)) \<Rightarrow>
          (case jl_segment L (parts ! 2) of
             Inl e \<Rightarrow> (claims, Some (newError ''could not base64 decode signature'' ErrTokenMalformed [e]))
           | Inr signature \<Rightarrow>
               (case jl_verify L method (Join (take 2 parts) ''.'') signature key of
                  Some e \<Rightarrow> (claims, Some (newError [] ErrTokenSignatureInvalid [e]))
                | None \<Rightarrow>
                    (case Validate claims now of
                       Some e \<Rightarrow> (claims, Some (newError [] ErrTokenInvalidClaims [e]))
                     | None \<Rightarrow> (claims, None)))))"

section \<open>Addresses\<close>

record IPNet =
  in_IP :: "byte list"
  in_Mask :: "byte list"

definition To4 :: "byte list \<Rightarrow> byte list option" where
  "To4 ip =
     (if length ip = 4 then Some ip
      else if length ip = 16 \<and> take 10 ip = replicate 10 0 \<and> ip ! 10 = 0xff \<and> ip ! 11 = 0xff then Some (drop 12 ip)
      else None)"

definition networkNumberAndMask :: "IPNet \<Rightarrow> byte list \<times> byte list" where
  "networkNumberAndMask n =
     (let ip = (case To4 (in_IP n) of Some x \<Rightarrow> x | None \<Rightarrow> in_IP n); m = in_Mask n in
      if To4 (in_IP n) = None \<and> length ip \<noteq> 16 then ([], [])
      else if length m = 4 then (if length ip \<noteq> 4 then ([], []) else (ip, m))
      else if length m = 16 then (ip, if length ip = 4 then drop 12 m else m)
      else ([], []))"

text \<open>\<^verbatim>\<open>IPNet.Contains\<close>; a nil address is the empty list.\<close>

definition Contains_ip :: "IPNet \<Rightarrow> byte list \<Rightarrow> bool" where
  "Contains_ip n ip =
     (let (nn, m) = networkNumberAndMask n; ip = (case To4 ip of Some x \<Rightarrow> x | None \<Rightarrow> ip) in
      length ip = length nn \<and> map2 (AND) nn m = map2 (AND) ip m)"

section \<open>Requests and tables\<close>

record request =
  rq_method :: string
  rq_fullPath :: string
  rq_header :: string
  rq_query :: string
  rq_remoteIP :: string

record NetFilter_row =
  nf_Cidr :: string
  nf_NetPolicy :: string
  nf_PolicyNo :: nat
  nf_ExpiryAt :: int
  nf_UpdatedAt :: int

record WebUser =
  wu_ID :: nat
  wu_Name :: string
  wu_Pwd :: string
  wu_DescInfo :: string
  wu_IsAdmin :: string
  wu_IsEnable :: string
  wu_IsRoot :: string
  wu_ExpiryAt :: int

text \<open>What the middleware sees: the configuration, the secret, the libraries, the outcome of the queries and the clock
  at each of its readings.\<close>

record access_world =
  aw_IsInit :: bool
  aw_WebBaseDir :: string
  aw_JwtSecret :: "byte list"
  aw_JwtExpire :: int
  aw_jwt :: jwt_lib
  aw_ParseIP :: "string \<Rightarrow> byte list"
  aw_ipString :: "byte list \<Rightarrow> string"
  aw_ParseCIDR :: "string \<Rightarrow> IPNet option"
  aw_db_open :: bool
  aw_db_ping :: "string option"
  aw_db_migrate :: "string option"
  aw_policy :: "string option"
  aw_filters :: "NetFilter_row list"
  aw_filters_fail :: "nat option"
  aw_user :: "nat \<Rightarrow> WebUser option"
  aw_now_filter :: int
  aw_now_parse :: int
  aw_now_renew :: int
  aw_now_issue :: int

datatype reply = JsonReply nat int string | DenyReply nat string | StatusReply nat

record access_ctx =
  ac_uid :: "nat option"
  ac_newToken :: "string option"
  ac_replies :: "reply list"
  ac_served :: "nat list"

definition new_ctx :: access_ctx where
  "new_ctx = \<lparr>ac_uid = None, ac_newToken = None, ac_replies = [], ac_served = []\<rparr>"

definition JSON :: "reply \<Rightarrow> access_ctx \<Rightarrow> access_ctx" where
  "JSON r x = x\<lparr>ac_replies := ac_replies x @ [r]\<rparr>"

definition GetUint_uid :: "access_ctx \<Rightarrow> nat" where
  "GetUint_uid x = (case ac_uid x of None \<Rightarrow> 0 | Some u \<Rightarrow> u)"

section \<open>Middleware\<close>

definition DbCheck :: "access_world \<Rightarrow> access_ctx \<Rightarrow> access_ctx verdict" where
  "DbCheck W x =
     (if \<not> aw_IsInit W then Go x
      else if aw_db_open W
      then (case aw_db_ping W of
              None \<Rightarrow> GoTwice x
            | Some _ \<Rightarrow>
                (case aw_db_migrate W of
                   Some e \<Rightarrow> Stop (JSON (JsonReply 500 500 (utf8 [0xe6, 0x95, 0xb0, 0xe6, 0x8d, 0xae, 0xe5, 0xba, 0x93, 0xe8, 0xbf, 0x9e, 0xe6, 0x8e, 0xa5, 0xe9, 0x94, 0x99, 0xe8, 0xaf, 0xaf] @ '':'' @ e)) x)
                 | None \<Rightarrow> Go x))
      else Go x)"

text \<open>\<^verbatim>\<open>FindAllPolicy\<close>: the entries of a policy that have not expired, by number, expiry and last update; a query that fails
  leaves the rows it had read.\<close>

definition FindAllPolicy :: "access_world \<Rightarrow> string \<Rightarrow> NetFilter_row list" where
  "FindAllPolicy W policy =
     (let rows = sort_key nf_PolicyNo (sort_key nf_ExpiryAt (sort_key (\<lambda>r. - nf_UpdatedAt r)
           (filter (\<lambda>r. nf_NetPolicy r = policy \<and> nf_ExpiryAt r > aw_now_filter W) (aw_filters W))))
      in case aw_filters_fail W of None \<Rightarrow> rows | Some n \<Rightarrow> take n rows)"

text \<open>The loop over the entries: \<open>found\<close> is the answer when an entry holds the address, \<open>rest\<close> when none does.\<close>

fun match_rows :: "access_world \<Rightarrow> byte list \<Rightarrow> bool \<Rightarrow> bool \<Rightarrow> NetFilter_row list \<Rightarrow> bool" where
  "match_rows W ip found rest [] = rest"
| "match_rows W ip found rest (item # list) =
     (case aw_ParseCIDR W (nf_Cidr item) of
        None \<Rightarrow> False
      | Some ipNet \<Rightarrow> if Contains_ip ipNet ip then found else match_rows W ip found rest list)"

definition check :: "access_world \<Rightarrow> byte list \<Rightarrow> bool" where
  "check W ip =
     (case aw_policy W of
        None \<Rightarrow> False
      | Some p \<Rightarrow>
          if p = ''Y'' then match_rows W ip True False (FindAllPolicy W ''Y'')
          else if p = ''N'' then match_rows W ip False True (FindAllPolicy W ''N'')
          else False)"

definition NetFilter :: "access_world \<Rightarrow> request \<Rightarrow> access_ctx \<Rightarrow> access_ctx verdict" where
  "NetFilter W req x =
     (if \<not> aw_IsInit W then Go x
      else let ip = aw_ParseIP W (rq_remoteIP req) in
        if \<not> check W ip then Stop (JSON (DenyReply 403 (''Deny '' @ aw_ipString W ip)) x) else Go x)"

definition SysInit :: "access_world \<Rightarrow> access_ctx \<Rightarrow> access_ctx verdict" where
  "SysInit W x = (if \<not> aw_IsInit W then Stop (JSON (JsonReply 401 401 (utf8 [0xe8, 0xaf, 0xb7, 0xe5, 0xaf, 0xb9, 0xe7, 0xb3, 0xbb, 0xe7, 0xbb, 0x9f, 0xe8, 0xbf, 0x9b, 0xe8, 0xa1, 0x8c, 0xe5, 0x88, 0x9d, 0xe5, 0xa7, 0x8b, 0xe5, 0x8c, 0x96])) x) else Go x)"

definition GenerateToken :: "access_world \<Rightarrow> nat \<Rightarrow> string + string" where
  "GenerateToken W uid =
     jl_sign (aw_jwt W)
       \<lparr>jc_Id = uid, jc_ExpiresAt = Some ((aw_now_issue W + aw_JwtExpire W) div Second), jc_NotBefore = None, jc_Issuer = ''go_web_ssh''\<rparr>
       (aw_JwtSecret W)"

definition withinLimit :: "access_world \<Rightarrow> int \<Rightarrow> int \<Rightarrow> bool" where
  "withinLimit W s l \<longleftrightarrow> wrap64 (aw_now_renew W div Second - s) < l"

text \<open>\<^verbatim>\<open>RenewToken\<close> dereferences \<^verbatim>\<open>ExpiresAt\<close>: \<open>None\<close> is the panic on a nil pointer.\<close>

definition RenewToken :: "access_world \<Rightarrow> JwtClaims \<Rightarrow> (string + string) option" where
  "RenewToken W claims =
     (case jc_ExpiresAt claims of
        None \<Rightarrow> None
      | Some t \<Rightarrow> Some (if withinLimit W t 600 then GenerateToken W (jc_Id claims) else Inl (utf8 [0xe7, 0x99, 0xbb, 0xe5, 0xbd, 0x95, 0xe5, 0xb7, 0xb2, 0xe8, 0xbf, 0x87, 0xe6, 0x9c, 0x9f])))"

definition authorization :: "request \<Rightarrow> string" where
  "authorization req = (if length (rq_header req) = 0 then rq_query req else rq_header req)"

definition reject_login :: "access_ctx \<Rightarrow> access_ctx verdict" where
  "reject_login x = Stop (JSON (JsonReply 401 401 (utf8 [0xe6, 0x9c, 0xaa, 0xe7, 0x99, 0xbb, 0xe5, 0xbd, 0x95])) x)"

definition JWTAuth :: "access_world \<Rightarrow> request \<Rightarrow> access_ctx \<Rightarrow> access_ctx verdict" where
  "JWTAuth W req x =
     (let auth = authorization req in
      if length auth = 0 then Stop (JSON (JsonReply 401 401 (utf8 [0xe8, 0xaf, 0xb7, 0xe6, 0xb7, 0xbb, 0xe5, 0x8a, 0xa0] @ ''Authorization'' @ utf8 [0xe8, 0xaf, 0xb7, 0xe6, 0xb1, 0x82, 0xe5, 0xa4, 0xb4])) x)
      else case ParseWithClaims (aw_jwt W) (aw_JwtSecret W) (aw_now_parse W) auth of
        (claims, Some e) \<Rightarrow>
          if Contains e ''token is expired''
          then (case RenewToken W claims of
                  None \<Rightarrow> Crash x
                | Some (Inl _) \<Rightarrow> reject_login x
                | Some (Inr newToken) \<Rightarrow>
                    if newToken \<noteq> [] then Go (x\<lparr>ac_newToken := Some newToken, ac_uid := Some (jc_Id claims)\<rparr>)
                    else reject_login x)
          else reject_login x
      | (claims, None) \<Rightarrow> Go (x\<lparr>ac_uid := Some (jc_Id claims)\<rparr>))"

definition checkRoute :: "string list" where
  "checkRoute =
    [''GET:/api/sshd_cert'',
     ''GET:/api/sshd_cert_text'',
     ''GET:/api/sshd_cert/:id'',
     ''GET:/api/sshd_user'',
     ''GET:/api/sshd_user/:id'',
     ''GET:/api/sys/is_init'',
     ''GET:/api/sys/config'',
     ''GET:/api/conn_manage/online_client'',
     ''GET:/api/policy_conf'',
     ''GET:/api/policy_conf/:id'',
     ''GET:/api/net_filter'',
     ''GET:/api/net_filter/:id'',
     ''GET:/api/user'',
     ''GET:/api/user/:id'',
     ''POST:/api/sshd_user'',
     ''POST:/api/sshd_cert'',
     ''POST:/api/sys/db_conn_check'',
     ''POST:/api/sys/init'',
     ''POST:/api/sys/config'',
     ''POST:/api/login_audit'',
     ''POST:/api/policy_conf'',
     ''POST:/api/net_filter'',
     ''POST:/api/user'',
     ''PUT:/api/sshd_user'',
     ''PUT:/api/sshd_cert'',
     ''PUT:/api/policy_conf'',
     ''PUT:/api/net_filter'',
     ''PUT:/api/user'',
     ''DELETE:/api/sshd_user/:id'',
     ''DELETE:/api/sshd_cert/:id'',
     ''DELETE:/api/policy_conf/:id'',
     ''DELETE:/api/net_filter/:id'',
     ''DELETE:/api/user/:id'',
     ''PATCH:/api/sshd_user/check_name_exists'',
     ''PATCH:/api/sshd_cert/check_name_exists'',
     ''PATCH:/api/user/check_name_exists'']"

definition route_of :: "access_world \<Rightarrow> request \<Rightarrow> string" where
  "route_of W req =
     (let tmp = rq_fullPath req; baseDir = Trim (aw_WebBaseDir W) '' '';
          tmp = (if baseDir \<noteq> [] \<and> HasPrefix tmp baseDir then TrimPrefix tmp baseDir else tmp)
      in rq_method req @ '':'' @ tmp)"

definition PremCheck :: "access_world \<Rightarrow> request \<Rightarrow> access_ctx \<Rightarrow> access_ctx verdict" where
  "PremCheck W req x =
     (let deny = Stop (JSON (JsonReply 200 403 (utf8 [0xe6, 0x9d, 0x83, 0xe9, 0x99, 0x90, 0xe6, 0xa3, 0x80, 0xe6, 0x9f, 0xa5, 0xe5, 0xa4, 0xb1, 0xe8, 0xb4, 0xa5, 0x2c, 0xe9, 0x9d, 0x9e, 0xe7, 0xae, 0xa1, 0xe7, 0x90, 0x86, 0xe5, 0x91, 0x98, 0xe6, 0x8b, 0x92, 0xe7, 0xbb, 0x9d, 0xe6, 0x93, 0x8d, 0xe4, 0xbd, 0x9c])) x) in
      if route_of W req \<in> set checkRoute
      then (case aw_user W (GetUint_uid x) of
              None \<Rightarrow> deny
            | Some u \<Rightarrow> if wu_IsAdmin u = ''N'' then deny else Go x)
      else Go x)"

section \<open>The authenticated routes\<close>

text \<open>The chain \<^verbatim>\<open>main\<close> builds for a route of the \<^verbatim>\<open>auth\<close> group.  The handler proper is seen through the user it acts for; the
  recovery middleware of \<^verbatim>\<open>gin.Default\<close>, outside the chain, answers a panic with status 500.\<close>

definition serve_handler :: "access_ctx \<Rightarrow> access_ctx" where
  "serve_handler x = x\<lparr>ac_served := ac_served x @ [GetUint_uid x]\<rparr>"

definition auth_guards :: "access_world \<Rightarrow> request \<Rightarrow> (access_ctx \<Rightarrow> access_ctx verdict) list" where
  "auth_guards W req = [DbCheck W, NetFilter W req, SysInit W, JWTAuth W req, PremCheck W req]"

definition serve :: "access_world \<Rightarrow> request \<Rightarrow> access_ctx option" where
  "serve W req =
     (case handle_request 16 (map guard (auth_guards W req) @ [leaf serve_handler]) new_ctx of
        None \<Rightarrow> None
      | Some (Ret c) \<Rightarrow> Some (gc_data c)
      | Some (Panic c) \<Rightarrow> Some (JSON (StatusReply 500) (gc_data c)))"

section \<open>Texts of errors\<close>

lemma HasPrefix_sep: "sep \<notin> set p \<Longrightarrow> HasPrefix (a @ sep # b) p \<Longrightarrow> HasPrefix a p"
proof (induction a arbitrary: p)
  case Nil
  then show ?case by (cases p) (auto simp: HasPrefix_def)
next
  case (Cons c a)
  then show ?case by (cases p) (auto simp: HasPrefix_def)
qed

lemma Contains_sep: "sep \<notin> set p \<Longrightarrow> Contains (a @ sep # b) p \<Longrightarrow> Contains a p \<or> Contains b p"
proof (induction a)
  case Nil
  then show ?case by (cases p) (auto simp: HasPrefix_def)
next
  case (Cons c a)
  then show ?case using HasPrefix_sep [of sep p "c # a" b] by auto
qed

lemma HasPrefix_append: "HasPrefix s p \<Longrightarrow> HasPrefix (s @ y) p"
  unfolding HasPrefix_def by (metis append_take_drop_id append_assoc append_eq_conv_conj)

definition expired_text :: "string \<Rightarrow> bool" where
  "expired_text e \<longleftrightarrow> Contains e ''token is expired''"

lemma expired_text_join: "expired_text (a @ '': '' @ b) \<longleftrightarrow> expired_text a \<or> expired_text b"
proof
  assume "expired_text (a @ '': '' @ b)"
  then have "expired_text a \<or> expired_text (CHR '' '' # b)"
    using Contains_sep [of "CHR '':''" "''token is expired''" a "CHR '' '' # b"] by (simp add: expired_text_def)
  then show "expired_text a \<or> expired_text b" by (auto simp: expired_text_def HasPrefix_def)
next
  have keep: "Contains s p \<Longrightarrow> Contains (x @ s) p" for x s p by (induction x) auto
  have "Contains (s @ y) p" if "Contains s p" for s y p using that
  proof (induction s)
    case Nil
    then show ?case by (cases y) (auto simp: HasPrefix_def)
  next
    case (Cons c s)
    then show ?case using HasPrefix_append [of "c # s" p y] by auto
  qed
  then show "expired_text a \<or> expired_text b \<Longrightarrow> expired_text (a @ '': '' @ b)"
    using keep [of b _ "a @ '': ''"] by (auto simp: expired_text_def)
qed

lemma expired_text_newError:
  "expired_text (newError m e []) \<longleftrightarrow> expired_text e \<or> (m \<noteq> [] \<and> expired_text m)"
  "expired_text (newError m e [d]) \<longleftrightarrow> expired_text e \<or> (m \<noteq> [] \<and> expired_text m) \<or> expired_text d"
  using expired_text_join [of "if m = [] then e else e @ '': '' @ m" d] expired_text_join [of e m]
  by (auto simp: newError_def)

lemma fixed_texts:
  "\<not> expired_text ErrTokenMalformed" "\<not> expired_text ErrTokenUnverifiable" "\<not> expired_text ErrTokenSignatureInvalid"
  "\<not> expired_text ErrTokenInvalidClaims" "\<not> expired_text ErrTokenNotValidYet" "expired_text ErrTokenExpired"
  "\<not> expired_text ''could not base64 decode header''" "\<not> expired_text ''could not JSON decode header''"
  "\<not> expired_text ''could not base64 decode claim''" "\<not> expired_text ''could not JSON decode claim''"
  "\<not> expired_text ''could not base64 decode signature''" "\<not> expired_text ''signing method (alg) is unavailable''"
  "\<not> expired_text ''signing method (alg) is unspecified''" "\<not> expired_text ''token contains an invalid number of segments''"
  unfolding expired_text_def by code_simp+

section \<open>Who is served\<close>

text \<open>The library's other error texts do not mention expiry.\<close>

definition plain_errors :: "jwt_lib \<Rightarrow> bool" where
  "plain_errors L \<longleftrightarrow>
     (\<forall>s e. jl_segment L s = Inl e \<longrightarrow> \<not> expired_text e) \<and> (\<forall>b e. jl_header L b = Inl e \<longrightarrow> \<not> expired_text e) \<and>
     (\<forall>m t sig k e. jl_verify L m t sig k = Some e \<longrightarrow> \<not> expired_text e)"

text \<open>The token's claims under a signature that verifies with the secret.\<close>

definition signed_claims :: "access_world \<Rightarrow> request \<Rightarrow> JwtClaims \<Rightarrow> bool" where
  "signed_claims W req claims \<longleftrightarrow>
     (\<exists>p0 p1 p2 c sig m. split_on (CHR ''.'') (authorization req) = [p0, p1, p2] \<and>
        jl_segment (aw_jwt W) p1 = Inr c \<and> jl_claims (aw_jwt W) c = (None, claims) \<and>
        jl_segment (aw_jwt W) p2 = Inr sig \<and> jl_method (aw_jwt W) m \<and>
        jl_verify (aw_jwt W) m (p0 @ ''.'' @ p1) sig (aw_JwtSecret W) = None)"

definition renewable :: "access_world \<Rightarrow> JwtClaims \<Rightarrow> bool" where
  "renewable W claims \<longleftrightarrow> (\<exists>t. jc_ExpiresAt claims = Some t \<and> wrap64 (aw_now_renew W div Second - t) < 600)"

definition authenticated :: "access_world \<Rightarrow> request \<Rightarrow> nat \<Rightarrow> bool" where
  "authenticated W req uid \<longleftrightarrow>
     (\<exists>claims. signed_claims W req claims \<and> jc_Id claims = uid \<and>
        (Validate claims (aw_now_parse W) = None \<or>
         verifyExpiresAt claims (aw_now_parse W) = Some ErrTokenExpired \<and> renewable W claims))"

text \<open>The claims did not decode, the text of that error mentions expiry, and what was decoded before it is renewable.\<close>

definition undecoded :: "access_world \<Rightarrow> request \<Rightarrow> JwtClaims \<Rightarrow> bool" where
  "undecoded W req claims \<longleftrightarrow>
     (\<exists>p0 p1 p2 h alg c e. split_on (CHR ''.'') (authorization req) = [p0, p1, p2] \<and>
        jl_segment (aw_jwt W) p0 = Inr h \<and> jl_header (aw_jwt W) h = Inr alg \<and> jl_segment (aw_jwt W) p1 = Inr c \<and>
        jl_claims (aw_jwt W) c = (Some e, claims) \<and> expired_text e \<and> renewable W claims)"

lemma Validate_None: "Validate claims now = None \<longleftrightarrow> verifyExpiresAt claims now = None \<and> verifyNotBefore claims now = None"
  by (auto simp: Validate_def Let_def List.map_filter_def split: option.splits)

lemma not_yet_text: "\<not> expired_text (ErrTokenNotValidYet)" by (rule fixed_texts)

lemma Validate_expired:
  assumes "Validate claims now = Some e" "expired_text e"
  shows "verifyExpiresAt claims now = Some ErrTokenExpired"
proof (rule ccontr)
  assume "verifyExpiresAt claims now \<noteq> Some ErrTokenExpired"
  then have "verifyExpiresAt claims now = None" by (auto simp: verifyExpiresAt_def split: option.splits if_splits)
  then have "e = ErrTokenNotValidYet"
    using assms(1) by (auto simp: Validate_def Let_def List.map_filter_def verifyNotBefore_def split: option.splits if_splits)
  then show False using assms(2) not_yet_text by simp
qed

lemma ParseUnverified_ok:
  assumes "ParseUnverified L s = (claims, Inr (m, parts))"
  obtains p0 p1 p2 c where "split_on (CHR ''.'') s = [p0, p1, p2]" "parts = [p0, p1, p2]" "jl_segment L p1 = Inr c"
    "jl_claims L c = (None, claims)" "jl_method L m"
  using assms by (auto simp: ParseUnverified_def split: list.splits sum.splits prod.splits option.splits if_splits)

lemma ParseUnverified_expired:
  assumes "ParseUnverified L s = (claims, Inl e)" "expired_text e" "plain_errors L"
  obtains p0 p1 p2 h alg c e' where "split_on (CHR ''.'') s = [p0, p1, p2]" "jl_segment L p0 = Inr h" "jl_header L h = Inr alg"
    "jl_segment L p1 = Inr c" "jl_claims L c = (Some e', claims)" "expired_text e'"
  using assms by (auto simp: ParseUnverified_def plain_errors_def expired_text_newError fixed_texts split: list.splits sum.splits prod.splits option.splits if_splits)

lemma signed_claimsI:
  assumes "ParseUnverified (aw_jwt W) (authorization req) = (claims, Inr (m, parts))" "jl_segment (aw_jwt W) (parts ! 2) = Inr sig"
    and "jl_verify (aw_jwt W) m (Join (take 2 parts) ''.'') sig (aw_JwtSecret W) = None"
  shows "signed_claims W req claims"
  using assms by (elim ParseUnverified_ok) (auto simp: signed_claims_def numeral_2_eq_2)

lemma JWTAuth_Go:
  assumes "JWTAuth W req x = Go y" "plain_errors (aw_jwt W)"
  shows "\<exists>uid. ac_uid y = Some uid \<and> ac_served y = ac_served x \<and> ac_replies y = ac_replies x \<and>
    (authenticated W req uid \<or> (\<exists>claims. undecoded W req claims \<and> jc_Id claims = uid))"
proof -
  obtain claims err where p: "ParseWithClaims (aw_jwt W) (aw_JwtSecret W) (aw_now_parse W) (authorization req) = (claims, err)"
    by fastforce
  show ?thesis
  proof (cases err)
    case None
    then have "signed_claims W req claims" "Validate claims (aw_now_parse W) = None"
      using p by (auto simp: ParseWithClaims_def split: prod.splits sum.splits option.splits intro: signed_claimsI)
    then show ?thesis using assms(1) p None by (auto simp: JWTAuth_def Let_def authenticated_def split: if_splits)
  next
    case (Some e)
    then have e: "expired_text e" "renewable W claims" and y: "ac_uid y = Some (jc_Id claims)" "ac_served y = ac_served x" "ac_replies y = ac_replies x"
      using assms(1) p by (auto simp: JWTAuth_def Let_def expired_text_def RenewToken_def reject_login_def renewable_def withinLimit_def
          split: if_splits option.splits sum.splits)
    obtain r where u: "ParseUnverified (aw_jwt W) (authorization req) = (claims, r)"
      using p by (auto simp: ParseWithClaims_def split: prod.splits sum.splits option.splits)
    show ?thesis
    proof (cases r)
      case (Inl e')
      then have "e' = e" using p Some u by (simp add: ParseWithClaims_def)
      then have "undecoded W req claims"
        using u Inl by (auto elim!: ParseUnverified_expired [OF _ e(1) assms(2)] simp: undecoded_def e(2))
      then show ?thesis using y by auto
    next
      case (Inr mp)
      obtain m parts where mp: "mp = (m, parts)" by fastforce
      have "signed_claims W req claims \<and> (\<exists>v. Validate claims (aw_now_parse W) = Some v \<and> expired_text v)"
        using p Some u Inr mp e(1) assms(2)
        by (auto simp: ParseWithClaims_def expired_text_newError fixed_texts plain_errors_def split: sum.splits option.splits intro: signed_claimsI)
      then have "authenticated W req (jc_Id claims)" using Validate_expired e(2) by (auto simp: authenticated_def)
      then show ?thesis using y by auto
    qed
  qed
qed

lemma serve_sequential:
  "serve W req =
     Some (case sequential (auth_guards W req) serve_handler new_ctx of Ret x \<Rightarrow> x | Panic x \<Rightarrow> JSON (StatusReply 500) x)"
  using handle_request_guards [of "auth_guards W req" 16 serve_handler new_ctx]
  by (auto simp: serve_def auth_guards_def settled_def split: outcome.splits)

lemma JWTAuth_Stop:
  "JWTAuth W req x = Stop y \<Longrightarrow> ac_served y = ac_served x \<and> (\<exists>r. ac_replies y = ac_replies x @ [r])"
  "JWTAuth W req x = Crash y \<Longrightarrow> y = x" "JWTAuth W req x \<noteq> GoTwice y"
  by (auto simp: JWTAuth_def Let_def reject_login_def JSON_def split: if_splits prod.splits option.splits sum.splits)

lemma early_guards:
  "DbCheck W x = Go y \<Longrightarrow> y = x" "DbCheck W x = GoTwice y \<Longrightarrow> y = x" "DbCheck W x \<noteq> Crash y"
  "DbCheck W x = Stop y \<Longrightarrow> ac_served y = ac_served x \<and> (\<exists>r. ac_replies y = ac_replies x @ [r])"
  "NetFilter W req x = Go y \<Longrightarrow> y = x \<and> (aw_IsInit W \<longrightarrow> check W (aw_ParseIP W (rq_remoteIP req)))"
  "NetFilter W req x = Stop y \<Longrightarrow> ac_served y = ac_served x \<and> (\<exists>r. ac_replies y = ac_replies x @ [r])"
  "NetFilter W req x \<noteq> GoTwice y" "NetFilter W req x \<noteq> Crash y"
  "SysInit W x = Go y \<Longrightarrow> y = x \<and> aw_IsInit W" "SysInit W x \<noteq> GoTwice y" "SysInit W x \<noteq> Crash y"
  "SysInit W x = Stop y \<Longrightarrow> ac_served y = ac_served x \<and> (\<exists>r. ac_replies y = ac_replies x @ [r])"
  by (auto simp: DbCheck_def NetFilter_def SysInit_def JSON_def Let_def split: if_splits option.splits)

lemma PremCheck_cases:
  "PremCheck W req x = Go y \<Longrightarrow>
     y = x \<and> (route_of W req \<in> set checkRoute \<longrightarrow> (\<exists>u. aw_user W (GetUint_uid x) = Some u \<and> wu_IsAdmin u \<noteq> ''N''))"
  "PremCheck W req x = Stop y \<Longrightarrow> ac_served y = ac_served x \<and> (\<exists>r. ac_replies y = ac_replies x @ [r])"
  "PremCheck W req x \<noteq> GoTwice y" "PremCheck W req x \<noteq> Crash y"
  by (auto simp: PremCheck_def JSON_def Let_def split: if_splits option.splits)

definition answered :: "access_ctx outcome \<Rightarrow> access_ctx" where
  "answered r = (case r of Ret x \<Rightarrow> x | Panic x \<Rightarrow> JSON (StatusReply 500) x)"

definition refused :: "access_ctx \<Rightarrow> bool" where
  "refused c \<longleftrightarrow> ac_served c = [] \<and> (\<exists>r. ac_replies c = [r])"

lemma refused_Stop: "ac_served y = ac_served new_ctx \<and> (\<exists>r. ac_replies y = ac_replies new_ctx @ [r]) \<Longrightarrow> refused y"
  by (auto simp: refused_def new_ctx_def)

definition served_for :: "access_world \<Rightarrow> request \<Rightarrow> nat \<Rightarrow> access_ctx \<Rightarrow> bool" where
  "served_for W req uid c \<longleftrightarrow>
     ac_replies c = [] \<and> ac_served c = [uid] \<and> (authenticated W req uid \<or> (\<exists>claims. undecoded W req claims \<and> jc_Id claims = uid)) \<and>
     (route_of W req \<in> set checkRoute \<longrightarrow> (\<exists>u. aw_user W uid = Some u \<and> wu_IsAdmin u \<noteq> ''N''))"

lemma login_part:
  assumes "plain_errors (aw_jwt W)"
  shows "refused (answered (sequential [JWTAuth W req, PremCheck W req] serve_handler new_ctx)) \<or>
    (\<exists>uid. served_for W req uid (answered (sequential [JWTAuth W req, PremCheck W req] serve_handler new_ctx)))"
proof (cases "JWTAuth W req new_ctx")
  case (Go y)
  obtain uid where u: "ac_uid y = Some uid" "ac_served y = []" "ac_replies y = []"
    "authenticated W req uid \<or> (\<exists>claims. undecoded W req claims \<and> jc_Id claims = uid)"
    using JWTAuth_Go [OF Go assms] by (auto simp: new_ctx_def)
  show ?thesis
  proof (cases "PremCheck W req y")
    case (Go z)
    then show ?thesis using \<open>JWTAuth W req new_ctx = Go y\<close> PremCheck_cases(1) [OF Go] u
      by (auto simp: served_for_def answered_def serve_handler_def GetUint_uid_def)
  next
    case (Stop z)
    then show ?thesis using Go PremCheck_cases(2) [OF Stop] u by (auto simp: refused_def answered_def)
  qed (use PremCheck_cases(3,4) in auto)
next
  case (Stop y)
  then show ?thesis using refused_Stop [OF JWTAuth_Stop(1) [OF Stop]] by (simp add: answered_def)
next
  case (Crash y)
  then show ?thesis using JWTAuth_Stop(2) [OF Crash] by (simp add: answered_def refused_def JSON_def new_ctx_def)
qed (use JWTAuth_Stop(3) in auto)

lemma init_part:
  assumes "plain_errors (aw_jwt W)"
    and "c = answered (sequential [NetFilter W req, SysInit W, JWTAuth W req, PremCheck W req] serve_handler new_ctx)"
  shows "refused c \<or> (\<exists>uid. served_for W req uid c \<and> aw_IsInit W \<and> check W (aw_ParseIP W (rq_remoteIP req)))"
proof (cases "NetFilter W req new_ctx")
  case (Go x)
  note net = Go early_guards(5) [OF Go]
  show ?thesis
  proof (cases "SysInit W new_ctx")
    case (Go y)
    then show ?thesis using net early_guards(9) [OF Go] login_part [OF assms(1), of req] assms(2) by auto
  next
    case (Stop y)
    then show ?thesis using net refused_Stop [OF early_guards(12) [OF Stop]] assms(2) by (simp add: answered_def)
  qed (use early_guards in auto)
next
  case (Stop y)
  then show ?thesis using refused_Stop [OF early_guards(6) [OF Stop]] assms(2) by (simp add: answered_def)
qed (use early_guards in auto)

lemma served_or_refused:
  assumes "plain_errors (aw_jwt W)" "serve W req = Some c"
  shows "refused c \<or> (\<exists>uid. served_for W req uid c \<and> aw_IsInit W \<and> check W (aw_ParseIP W (rq_remoteIP req)))"
proof -
  have c: "c = answered (sequential (auth_guards W req) serve_handler new_ctx)"
    using assms(2) by (simp add: serve_sequential answered_def)
  show ?thesis
  proof (cases "DbCheck W new_ctx")
    case (Stop y)
    then show ?thesis using refused_Stop [OF early_guards(4) [OF Stop]] c by (simp add: answered_def auth_guards_def)
  next
    case (Go y)
    then show ?thesis using init_part [OF assms(1)] early_guards(1) [OF Go] c by (simp add: auth_guards_def)
  next
    case (GoTwice y)
    then show ?thesis using init_part [OF assms(1)] early_guards(2) [OF GoTwice] c by (simp add: auth_guards_def)
  qed (use early_guards(3) in auto)
qed

text \<open>C13: a request to an authenticated route always gets an answer, and exactly one of two things happens.  Either no
  handler runs and one reply is written, or exactly one handler runs, once, for one user: then the system is initialised, the
  network policy admits the client's address, the token is signed with the secret and valid or expired for less than ten minutes
  (or its claims did not decode with an error that mentions expiry), and on a route of the administrators the
  user exists and is not a plain user.\<close>

theorem access_control:
  assumes "plain_errors (aw_jwt W)"
  shows "\<exists>c. serve W req = Some c \<and>
    (ac_served c = [] \<and> (\<exists>r. ac_replies c = [r]) \<or>
     ac_replies c = [] \<and> (\<exists>uid. ac_served c = [uid] \<and> aw_IsInit W \<and> check W (aw_ParseIP W (rq_remoteIP req)) \<and>
       (authenticated W req uid \<or> (\<exists>claims. undecoded W req claims \<and> jc_Id claims = uid)) \<and>
       (route_of W req \<in> set checkRoute \<longrightarrow> (\<exists>u. aw_user W uid = Some u \<and> wu_IsAdmin u \<noteq> ''N''))))"
proof -
  obtain c where c: "serve W req = Some c" by (simp add: serve_sequential)
  show ?thesis using served_or_refused [OF assms c] c unfolding refused_def served_for_def by blast
qed

lemma JWTAuth_undecoded:
  assumes "undecoded W req claims" "GenerateToken W (jc_Id claims) = Inr tok" "tok \<noteq> []"
  shows "JWTAuth W req x = Go (x\<lparr>ac_newToken := Some tok, ac_uid := Some (jc_Id claims)\<rparr>)"
proof -
  obtain p0 p1 p2 h alg c e where p: "split_on (CHR ''.'') (authorization req) = [p0, p1, p2]" "jl_segment (aw_jwt W) p0 = Inr h"
      "jl_header (aw_jwt W) h = Inr alg" "jl_segment (aw_jwt W) p1 = Inr c" "jl_claims (aw_jwt W) c = (Some e, claims)"
      "expired_text e" and r: "renewable W claims"
    using assms(1) by (auto simp: undecoded_def)
  have "authorization req \<noteq> []" using p(1) by auto
  moreover have "ParseWithClaims (aw_jwt W) (aw_JwtSecret W) (aw_now_parse W) (authorization req) =
      (claims, Some (newError ''could not JSON decode claim'' ErrTokenMalformed [e]))"
    using p by (simp add: ParseWithClaims_def ParseUnverified_def)
  moreover have "expired_text (newError ''could not JSON decode claim'' ErrTokenMalformed [e])"
    using p(6) by (simp add: expired_text_newError)
  moreover have "RenewToken W claims = Some (Inr tok)"
    using r assms(2) by (auto simp: RenewToken_def renewable_def withinLimit_def)
  ultimately show ?thesis using assms(3) by (simp add: JWTAuth_def Let_def expired_text_def)
qed

text \<open>C14: the renewal of expired tokens does not check that the signature was verified.  It goes by the text of the parser's error,
  and the parser decodes the claims first: when they do not decode, the text of that error mentions expiry and the claims
  decoded before it name a time that is not more than ten minutes ago, the request is served for the user the claims name, whatever the
  signature check would say, and the answer carries a new token of that user, signed with the secret.\<close>

theorem forged_token_served:
  assumes "undecoded W req claims" "GenerateToken W (jc_Id claims) = Inr tok" "tok \<noteq> []"
    and "aw_IsInit W" "aw_db_open W" "aw_db_ping W = None" "check W (aw_ParseIP W (rq_remoteIP req))"
    and "route_of W req \<in> set checkRoute \<longrightarrow> (\<exists>u. aw_user W (jc_Id claims) = Some u \<and> wu_IsAdmin u \<noteq> ''N'')"
  shows "\<forall>v. \<exists>c. serve (W\<lparr>aw_jwt := (aw_jwt W)\<lparr>jl_verify := v\<rparr>\<rparr>) req = Some c \<and>
    ac_served c = [jc_Id claims] \<and> ac_newToken c = Some tok \<and> ac_replies c = []"
proof
  fix v
  let ?W = "W\<lparr>aw_jwt := (aw_jwt W)\<lparr>jl_verify := v\<rparr>\<rparr>"
  have rows: "match_rows ?W ip a b rs = match_rows W ip a b rs" for ip a b rs by (induction rs) (auto split: option.splits)
  have db: "DbCheck ?W new_ctx = GoTwice new_ctx" using assms(4-6) by (simp add: DbCheck_def)
  have "check ?W ip = check W ip" for ip by (cases "aw_policy W") (simp_all add: check_def rows FindAllPolicy_def)
  then have net: "NetFilter ?W req new_ctx = Go new_ctx" using assms(7) by (simp add: NetFilter_def Let_def)
  have init: "SysInit ?W new_ctx = Go new_ctx" using assms(4) by (simp add: SysInit_def)
  have jwt: "JWTAuth ?W req new_ctx = Go (new_ctx\<lparr>ac_newToken := Some tok, ac_uid := Some (jc_Id claims)\<rparr>)"
    by (rule JWTAuth_undecoded) (use assms(1-3) in \<open>simp_all add: undecoded_def renewable_def GenerateToken_def\<close>)
  have "route_of ?W req = route_of W req" by (simp add: route_of_def)
  then have prem: "PremCheck ?W req x = Go x" if "ac_uid x = Some (jc_Id claims)" for x
    using assms(8) that by (auto simp: PremCheck_def Let_def GetUint_uid_def)
  show "\<exists>c. serve ?W req = Some c \<and> ac_served c = [jc_Id claims] \<and> ac_newToken c = Some tok \<and> ac_replies c = []"
    by (simp add: serve_sequential auth_guards_def db net init jwt prem) (simp add: serve_handler_def GetUint_uid_def new_ctx_def)
qed

section \<open>Concrete requests\<close>

text \<open>A library whose signatures never verify and whose decoder stops at a \<^verbatim>\<open>nbf\<close> that is not a number, quoting it; the
  claims before it are the user's id and an expiry.\<close>

definition quoted_literal :: string where
  "quoted_literal = ''could not parse NumericData: json: invalid number literal, trying to unmarshal '' @
     [CHR 0x22, CHR 0x5C, CHR 0x22] @ ''token is expired'' @ [CHR 0x5C, CHR 0x22, CHR 0x22] @ '' into Number''"

definition sample_jwt :: jwt_lib where
  "sample_jwt = \<lparr>jl_segment = \<lambda>s. Inr (to_bytes s), jl_header = \<lambda>b. Inr (Some ''HS256''),
     jl_claims = \<lambda>b. (Some quoted_literal, zero_claims\<lparr>jc_Id := length b, jc_ExpiresAt := Some 2000\<rparr>),
     jl_method = \<lambda>m. m = ''HS256'', jl_verify = \<lambda>m t s k. Some ''signature is invalid'',
     jl_sign = \<lambda>c k. Inr (Itoa (int (jc_Id c)))\<rparr>"

definition sample_root :: WebUser where
  "sample_root = \<lparr>wu_ID = 1, wu_Name = ''root'', wu_Pwd = [], wu_DescInfo = [], wu_IsAdmin = ''Y'', wu_IsEnable = ''Y'', wu_IsRoot = ''Y'', wu_ExpiryAt = 9000\<rparr>"

definition sample_access :: access_world where
  "sample_access = \<lparr>aw_IsInit = True, aw_WebBaseDir = [], aw_JwtSecret = [7], aw_JwtExpire = 7200 * Second, aw_jwt = sample_jwt,
     aw_ParseIP = \<lambda>s. [10, 0, 0, 1], aw_ipString = \<lambda>ip. ''10.0.0.1'', aw_ParseCIDR = \<lambda>s. Some \<lparr>in_IP = [10, 0, 0, 0], in_Mask = [255, 0, 0, 0]\<rparr>,
     aw_db_open = True, aw_db_ping = None, aw_db_migrate = None, aw_policy = Some ''Y'',
     aw_filters = [\<lparr>nf_Cidr = ''10.0.0.0/8'', nf_NetPolicy = ''Y'', nf_PolicyNo = 1, nf_ExpiryAt = 5000, nf_UpdatedAt = 1\<rparr>], aw_filters_fail = None,
     aw_user = (\<lambda>u. if u = 1 then Some sample_root else None),
     aw_now_filter = 1000, aw_now_parse = 1000 * Second, aw_now_renew = 1000 * Second, aw_now_issue = 1000 * Second\<rparr>"

definition sample_request :: request where
  "sample_request = \<lparr>rq_method = ''POST'', rq_fullPath = ''/api/user'', rq_header = ''h.c.'', rq_query = [], rq_remoteIP = ''10.0.0.1''\<rparr>"

theorem access_control_witness:
  "plain_errors sample_jwt \<and> (\<exists>c. serve sample_access sample_request = Some c \<and> length (ac_served c) \<le> 1)"
proof -
  have p: "plain_errors sample_jwt"
    by (simp add: plain_errors_def sample_jwt_def expired_text_def HasPrefix_def)
  then show ?thesis using access_control [of sample_access sample_request] by (auto simp: sample_access_def)
qed

lemma sample_undecoded: "undecoded sample_access sample_request (zero_claims\<lparr>jc_Id := 1, jc_ExpiresAt := Some 2000\<rparr>)"
proof -
  have "expired_text quoted_literal" unfolding expired_text_def by code_simp
  moreover have "split_on (CHR ''.'') (authorization sample_request) = [''h'', ''c'', []]" by code_simp
  ultimately show ?thesis
    by (simp add: undecoded_def sample_access_def sample_jwt_def renewable_def zero_claims_def Second_def wrap64_def)
qed

theorem forged_token_served_witness:
  "\<exists>c. serve sample_access sample_request = Some c \<and> ac_served c = [1] \<and> ac_newToken c = Some ''1''"
proof -
  let ?c = "zero_claims\<lparr>jc_Id := 1, jc_ExpiresAt := Some 2000\<rparr>"
  have "Itoa 1 = ''1''" by code_simp
  then have t: "GenerateToken sample_access (jc_Id ?c) = Inr ''1''"
    by (simp add: GenerateToken_def sample_access_def sample_jwt_def)
  have k: "check sample_access (aw_ParseIP sample_access (rq_remoteIP sample_request))" by code_simp
  have "\<forall>v. \<exists>c. serve (sample_access\<lparr>aw_jwt := (aw_jwt sample_access)\<lparr>jl_verify := v\<rparr>\<rparr>) sample_request = Some c \<and>
      ac_served c = [jc_Id ?c] \<and> ac_newToken c = Some ''1'' \<and> ac_replies c = []"
    by (rule forged_token_served [OF sample_undecoded t]) (use k in \<open>simp_all add: sample_access_def sample_root_def zero_claims_def\<close>)
  moreover have "sample_access\<lparr>aw_jwt := (aw_jwt sample_access)\<lparr>jl_verify := jl_verify sample_jwt\<rparr>\<rparr> = sample_access"
    by (simp add: sample_access_def)
  ultimately have "\<exists>c. serve sample_access sample_request = Some c \<and> ac_served c = [jc_Id ?c] \<and> ac_newToken c = Some ''1'' \<and> ac_replies c = []"
    by metis
  then show ?thesis by auto
qed

end
