(* ===== verification/Web_Crypto.thy ===== *)
theory Web_Crypto
  imports Go_Bytes
begin

text \<open>
  The encryption of stored secrets (\<^verbatim>\<open>gossh/app/utils/crypto.go\<close>): AES-CBC with PKCS#7 padding and AES-GCM, both
  over trimmed text and in base 64.  The block cipher and the GCM primitives are parameters; the modes
  of operation, the padding and every error path are here.  A panic inside one of the four functions is recovered
  there, and the function then returns the zero values: an empty text and no error.
\<close>

section \<open>Primitives\<close>

record cipher_lib =
  cl_encrypt :: "byte list \<Rightarrow> byte list \<Rightarrow> byte list"
  cl_decrypt :: "byte list \<Rightarrow> byte list \<Rightarrow> byte list"
  cl_seal :: "byte list \<Rightarrow> byte list \<Rightarrow> byte list \<Rightarrow> byte list"
  cl_open :: "byte list \<Rightarrow> byte list \<Rightarrow> byte list \<Rightarrow> string + byte list"

datatype crypto_error = EncryptKeyLength | DecryptKeyLength | InvalidKeySize nat | CorruptInput | TooShort | RandFailed string | OpenFailed string

type_synonym crypto_result = "string \<times> crypto_error option"

definition blockSize :: nat where "blockSize = 16"
definition nonceSize :: nat where "nonceSize = 12"

definition recovered_panic :: crypto_result where
  "recovered_panic = ([], None)"

text \<open>\<^verbatim>\<open>aes.NewCipher\<close> accepts keys of 16, 24 and 32 bytes.\<close>

definition NewCipher :: "byte list \<Rightarrow> crypto_error option" where
  "NewCipher k = (if length k \<in> {16, 24, 32} then None else Some (InvalidKeySize (length k)))"

text \<open>\<^verbatim>\<open>cipher.NewCBCEncrypter\<close> and \<^verbatim>\<open>NewCBCDecrypter\<close>: \<^verbatim>\<open>CryptBlocks\<close> panics, here \<open>None\<close>, on a part of a block.\<close>

function cbc_encrypt :: "(byte list \<Rightarrow> byte list) \<Rightarrow> byte list \<Rightarrow> byte list \<Rightarrow> byte list" where
  "cbc_encrypt E iv bs =
     (if bs = [] then []
      else let c = E (map2 (XOR) (take blockSize bs) iv) in c @ cbc_encrypt E c (drop blockSize bs))"
  by pat_completeness auto
termination by (relation "measure (\<lambda>(E, iv, bs). length bs)") (auto simp: blockSize_def)

function cbc_decrypt :: "(byte list \<Rightarrow> byte list) \<Rightarrow> byte list \<Rightarrow> byte list \<Rightarrow> byte list" where
  "cbc_decrypt D iv bs =
     (if bs = [] then []
      else let c = take blockSize bs in map2 (XOR) (D c) iv @ cbc_decrypt D c (drop blockSize bs))"
  by pat_completeness auto
termination by (relation "measure (\<lambda>(D, iv, bs). length bs)") (auto simp: blockSize_def)

declare cbc_encrypt.simps [simp del] cbc_decrypt.simps [simp del]

definition CryptBlocks :: "(byte list \<Rightarrow> byte list) \<Rightarrow> byte list \<Rightarrow> byte list option" where
  "CryptBlocks mode bs = (if length bs mod blockSize = 0 then Some (mode bs) else None)"

text \<open>\<^verbatim>\<open>base64.StdEncoding.DecodeString\<close> with its error ignored: the bytes decoded before the corrupt place.\<close>

fun b64_partial :: "string \<Rightarrow> byte list" where
  "b64_partial (p # q # r # s # rest) =
     (case (b64_value p, b64_value q) of
        (Some a, Some b) \<Rightarrow>
          (case (b64_value r, b64_value s) of
             (Some c, Some d) \<Rightarrow>
               [word_of_nat (a * 4 + b div 16), word_of_nat (b mod 16 * 16 + c div 4), word_of_nat (c mod 4 * 64 + d)] @ b64_partial rest
           | (Some c, None) \<Rightarrow> if s = CHR ''='' then [word_of_nat (a * 4 + b div 16), word_of_nat (b mod 16 * 16 + c div 4)] else []
           | _ \<Rightarrow> if r = CHR ''='' \<and> s = CHR ''='' then [word_of_nat (a * 4 + b div 16)] else [])
      | _ \<Rightarrow> [])"
| "b64_partial _ = []"

definition b64_DecodeIgnoring :: "string \<Rightarrow> byte list" where
  "b64_DecodeIgnoring s = b64_partial (filter (\<lambda>c. code c \<noteq> 10 \<and> code c \<noteq> 13) s)"

section \<open>CBC\<close>

definition PKCS7Padding :: "byte list \<Rightarrow> nat \<Rightarrow> byte list" where
  "PKCS7Padding ciphertext block = (let padding = block - length ciphertext mod block in ciphertext @ replicate padding (of_nat padding))"

definition PKCS7UnPadding :: "byte list \<Rightarrow> byte list option" where
  "PKCS7UnPadding origData =
     (case idx origData (int (length origData) - 1) of
        None \<Rightarrow> None
      | Some b \<Rightarrow> slice origData 0 (int (length origData) - int (unat b)))"

definition AesEncrypt :: "cipher_lib \<Rightarrow> string \<Rightarrow> string \<Rightarrow> crypto_result" where
  "AesEncrypt L orig key =
     (let orig = TrimSpace orig in
      if length orig = 0 then ([], None)
      else if length key \<noteq> 32 then ([], Some EncryptKeyLength)
      else let k = to_bytes key in
        case NewCipher k of
          Some e \<Rightarrow> ([], Some e)
        | None \<Rightarrow>
            (let origData = PKCS7Padding (to_bytes orig) blockSize in
             case CryptBlocks (cbc_encrypt (cl_encrypt L k) (take blockSize k)) origData of
               None \<Rightarrow> recovered_panic
             | Some crypt \<Rightarrow> (b64_EncodeToString crypt, None)))"

definition AesDecrypt :: "cipher_lib \<Rightarrow> string \<Rightarrow> string \<Rightarrow> crypto_result" where
  "AesDecrypt L crypt key =
     (let crypt = TrimSpace crypt in
      if length crypt = 0 then ([], None)
      else if length crypt < 1 \<or> length key \<noteq> 32 then ([], Some DecryptKeyLength)
      else let cryptByte = b64_DecodeIgnoring crypt; k = to_bytes key in
        case NewCipher k of
          Some e \<Rightarrow> ([], Some e)
        | None \<Rightarrow>
            (case CryptBlocks (cbc_decrypt (cl_decrypt L k) (take blockSize k)) cryptByte of
               None \<Rightarrow> recovered_panic
             | Some orig \<Rightarrow>
                 (case PKCS7UnPadding orig of None \<Rightarrow> recovered_panic | Some orig \<Rightarrow> (to_text orig, None))))"

section \<open>GCM\<close>

text \<open>The nonce is what \<^verbatim>\<open>io.ReadFull(rand.Reader, nonce)\<close> delivers.\<close>

definition EncryptString :: "cipher_lib \<Rightarrow> string + byte list \<Rightarrow> string \<Rightarrow> string \<Rightarrow> crypto_result" where
  "EncryptString L rand plaintext key =
     (let plaintext = TrimSpace plaintext in
      if length plaintext = 0 then ([], None)
      else if length key \<noteq> 32 then ([], Some EncryptKeyLength)
      else let k = to_bytes key in
        case NewCipher k of
          Some e \<Rightarrow> ([], Some e)
        | None \<Rightarrow>
            (case rand of
               Inl e \<Rightarrow> ([], Some (RandFailed e))
             | Inr nonce \<Rightarrow> (b64_EncodeToString (nonce @ cl_seal L k nonce (to_bytes plaintext)), None)))"

definition DecryptString :: "cipher_lib \<Rightarrow> string \<Rightarrow> string \<Rightarrow> crypto_result" where
  "DecryptString L encrypted key =
     (let encrypted = TrimSpace encrypted in
      if length encrypted = 0 then ([], None)
      else if length encrypted < 1 \<or> length key \<noteq> 32 then ([], Some DecryptKeyLength)
      else case b64_DecodeString encrypted of
        Inl _ \<Rightarrow> ([], Some CorruptInput)
      | Inr ciphertext \<Rightarrow>
          (let k = to_bytes key in
           case NewCipher k of
             Some e \<Rightarrow> ([], Some e)
           | None \<Rightarrow>
               if length ciphertext < nonceSize then ([], Some TooShort)
               else case cl_open L k (take nonceSize ciphertext) (drop nonceSize ciphertext) of
                 Inl e \<Rightarrow> ([], Some (OpenFailed e))
               | Inr plaintext \<Rightarrow> (to_text plaintext, None)))"

section \<open>Round trips\<close>

text \<open>What the primitives promise for a key: the block cipher is a permutation of 16-byte blocks, and
  opening undoes sealing under the same nonce.\<close>

definition cipher_ok :: "cipher_lib \<Rightarrow> byte list \<Rightarrow> bool" where
  "cipher_ok L k \<longleftrightarrow>
     (\<forall>b. length b = blockSize \<longrightarrow> length (cl_encrypt L k b) = blockSize \<and> cl_decrypt L k (cl_encrypt L k b) = b) \<and>
     (\<forall>nonce p. length nonce = nonceSize \<longrightarrow> cl_open L k nonce (cl_seal L k nonce p) = Inr p)"

lemma map2_xor_cancel:
  "length xs = length ys \<Longrightarrow> map2 (XOR) (map2 (XOR) xs ys) ys = (xs :: byte list)"
  by (induction xs ys rule: list_induct2) (simp_all add: xor.assoc)

lemma cbc_decrypt_encrypt:
  assumes E: "\<And>b. length b = blockSize \<Longrightarrow> length (E b) = blockSize \<and> D (E b) = b"
    and "length iv = blockSize" "length bs mod blockSize = 0"
  shows "cbc_decrypt D iv (cbc_encrypt E iv bs) = bs \<and> length (cbc_encrypt E iv bs) = length bs"
  using assms(2,3)
proof (induction "length bs" arbitrary: iv bs rule: less_induct)
  case less
  show ?case
  proof (cases "bs = []")
    case True
    then show ?thesis by (simp add: cbc_encrypt.simps cbc_decrypt.simps)
  next
    case False
    let ?b = "take blockSize bs" and ?r = "drop blockSize bs"
    let ?x = "map2 (XOR) ?b iv"
    have n: "blockSize \<le> length bs" "0 < blockSize"
      using False less.prems(2) by (auto simp: blockSize_def dvd_imp_le mod_eq_0_iff_dvd)
    then have b: "length ?b = blockSize" "length ?x = blockSize" using less.prems by simp_all
    have e: "length (E ?x) = blockSize" "D (E ?x) = ?x" using E [OF b(2)] by simp_all
    have "length ?r mod blockSize = 0" using n less.prems(2) by (simp add: le_mod_geq)
    then have r: "cbc_decrypt D (E ?x) (cbc_encrypt E (E ?x) ?r) = ?r" "length (cbc_encrypt E (E ?x) ?r) = length ?r"
      using less.hyps [of ?r "E ?x"] n e(1) by auto
    have c: "cbc_encrypt E iv bs = E ?x @ cbc_encrypt E (E ?x) ?r" using False by (simp add: cbc_encrypt.simps [of E iv bs] Let_def)
    have "E ?x \<noteq> []" using e(1) n(2) by auto
    then have "cbc_decrypt D iv (cbc_encrypt E iv bs) = map2 (XOR) ?x iv @ ?r"
      using e r(1) by (subst cbc_decrypt.simps) (simp add: c Let_def)
    also have "\<dots> = bs" using map2_xor_cancel [of ?b iv] b(1) less.prems(1) by simp
    finally show ?thesis using c e(1) r(2) n by simp
  qed
qed

lemma PKCS7_padded: "length (PKCS7Padding bs blockSize) mod blockSize = 0"
proof -
  have "(length bs + (16 - length bs mod 16)) mod 16 = 0" by presburger
  then show ?thesis by (simp add: PKCS7Padding_def Let_def blockSize_def)
qed

lemma idx_last:
  assumes "xs \<noteq> []"
  shows "idx xs (int (length xs) - 1) = Some (last xs)"
proof -
  have "nat (int (length xs) - 1) = length xs - 1" "0 < length xs" using assms by auto
  then show ?thesis using assms by (simp add: idx_def last_conv_nth)
qed

lemma PKCS7_roundtrip: "PKCS7UnPadding (PKCS7Padding bs blockSize) = Some bs"
proof -
  define p where "p = 16 - length bs mod 16"
  let ?xs = "bs @ replicate p (of_nat p :: byte)"
  have p: "0 < p" "p \<le> 16" unfolding p_def by simp_all
  have u: "unat (of_nat p :: byte) = p" using p by (simp add: unat_of_nat)
  have "?xs \<noteq> []" using p(1) by simp
  then have "idx ?xs (int (length ?xs) - 1) = Some (last ?xs)" by (rule idx_last)
  moreover have "last ?xs = of_nat p" using p(1) by simp
  moreover have "slice ?xs 0 (int (length ?xs) - int p) = Some bs"
    using slice_drop_last [of p ?xs] by simp
  moreover have "PKCS7Padding bs blockSize = ?xs"
    by (simp add: PKCS7Padding_def Let_def blockSize_def p_def)
  ultimately show ?thesis by (simp only: PKCS7UnPadding_def option.case u)
qed

lemma b64_partial_groups: "b64_groups s = Inr bs \<Longrightarrow> b64_partial s = bs"
  by (induction s arbitrary: bs rule: b64_groups.induct) (auto split: option.splits sum.splits if_splits)

lemma b64_DecodeIgnoring_encode: "b64_DecodeIgnoring (b64_EncodeToString bs) = bs"
  by (simp add: b64_DecodeIgnoring_def b64_filter b64_partial_groups b64_groups_encode)

lemma NewCipher_32: "length key = 32 \<Longrightarrow> NewCipher (to_bytes key) = None"
  by (simp add: NewCipher_def)

lemma AesDecrypt_encrypted:
  assumes "length key = 32" "cipher_ok L (to_bytes key)"
  shows "AesDecrypt L (fst (AesEncrypt L s key)) key = (TrimSpace s, None) \<and> snd (AesEncrypt L s key) = None"
proof (cases "TrimSpace s = []")
  case True
  then show ?thesis by (simp add: AesEncrypt_def AesDecrypt_def Let_def)
next
  case False
  let ?k = "to_bytes key" and ?d = "PKCS7Padding (to_bytes (TrimSpace s)) blockSize"
  let ?c = "cbc_encrypt (cl_encrypt L ?k) (take blockSize ?k) ?d"
  have "length (take blockSize ?k) = blockSize" using assms(1) by (simp add: blockSize_def)
  then have c: "cbc_decrypt (cl_decrypt L ?k) (take blockSize ?k) ?c = ?d" "length ?c = length ?d"
    using cbc_decrypt_encrypt [where E = "cl_encrypt L ?k" and D = "cl_decrypt L ?k" and bs = ?d] PKCS7_padded assms(2)
    by (auto simp: cipher_ok_def)
  have "?d \<noteq> []" using False by (simp add: PKCS7Padding_def Let_def to_bytes_def)
  then have n: "b64_EncodeToString ?c \<noteq> []" using c(2) b64_Encode_Nil by fastforce
  have e: "AesEncrypt L s key = (b64_EncodeToString ?c, None)"
    using False assms(1) PKCS7_padded by (simp add: AesEncrypt_def Let_def NewCipher_32 CryptBlocks_def)
  show ?thesis using n assms(1) c PKCS7_padded
    by (simp add: e AesDecrypt_def Let_def NewCipher_32 b64_DecodeIgnoring_encode CryptBlocks_def PKCS7_roundtrip Suc_le_eq)
qed

lemma DecryptString_encrypted:
  assumes "length key = 32" "cipher_ok L (to_bytes key)" "length nonce = nonceSize"
  shows "DecryptString L (fst (EncryptString L (Inr nonce) s key)) key = (TrimSpace s, None) \<and>
    snd (EncryptString L (Inr nonce) s key) = None"
proof (cases "TrimSpace s = []")
  case True
  then show ?thesis by (simp add: EncryptString_def DecryptString_def Let_def)
next
  case False
  let ?c = "nonce @ cl_seal L (to_bytes key) nonce (to_bytes (TrimSpace s))"
  have "?c \<noteq> []" using assms(3) by (auto simp: nonceSize_def)
  then have n: "b64_EncodeToString ?c \<noteq> []" using b64_Encode_Nil by blast
  have e: "EncryptString L (Inr nonce) s key = (b64_EncodeToString ?c, None)"
    using False assms(1) by (simp add: EncryptString_def Let_def NewCipher_32)
  have "cl_open L (to_bytes key) nonce (cl_seal L (to_bytes key) nonce (to_bytes (TrimSpace s))) = Inr (to_bytes (TrimSpace s))"
    using assms(2,3) by (simp add: cipher_ok_def)
  then show ?thesis using n assms(1,3)
    by (simp add: e DecryptString_def Let_def NewCipher_32 b64_codec.dec_enc Suc_le_eq)
qed

text \<open>C18: a secret that \<^verbatim>\<open>AesEncrypt\<close> or \<^verbatim>\<open>EncryptString\<close> stores under a 32-byte key is read back by
  \<^verbatim>\<open>AesDecrypt\<close> or \<^verbatim>\<open>DecryptString\<close> without an error, up to the white space around it, whatever nonce was drawn;
  \<^verbatim>\<open>DecryptString\<close> gives a text only for input that is base 64 and whose sealed part the authenticated
  cipher opens.\<close>

theorem secrets_read_back:
  assumes "length key = 32" "cipher_ok L (to_bytes key)" "length nonce = nonceSize"
  shows "snd (AesEncrypt L s key) = None \<and> AesDecrypt L (fst (AesEncrypt L s key)) key = (TrimSpace s, None) \<and>
    snd (EncryptString L (Inr nonce) s key) = None \<and>
    DecryptString L (fst (EncryptString L (Inr nonce) s key)) key = (TrimSpace s, None) \<and>
    (\<forall>t p. DecryptString L t key = (p, None) \<and> p \<noteq> [] \<longrightarrow>
       (\<exists>c. b64_DecodeString (TrimSpace t) = Inr c \<and> nonceSize \<le> length c \<and>
          cl_open L (to_bytes key) (take nonceSize c) (drop nonceSize c) = Inr (to_bytes p)))"
proof (intro conjI allI impI)
  fix t p assume "DecryptString L t key = (p, None) \<and> p \<noteq> []"
  then obtain c q where "b64_DecodeString (TrimSpace t) = Inr c" "nonceSize \<le> length c"
      "cl_open L (to_bytes key) (take nonceSize c) (drop nonceSize c) = Inr q" "p = to_text q"
    by (auto simp: DecryptString_def Let_def split: if_splits sum.splits option.splits)
  then show "\<exists>c. b64_DecodeString (TrimSpace t) = Inr c \<and> nonceSize \<le> length c \<and>
      cl_open L (to_bytes key) (take nonceSize c) (drop nonceSize c) = Inr (to_bytes p)"
    by auto
qed (use AesDecrypt_encrypted [OF assms(1,2)] DecryptString_encrypted [OF assms] in auto)

definition sample_cipher :: cipher_lib where
  "sample_cipher = \<lparr>cl_encrypt = \<lambda>k b. rev b, cl_decrypt = \<lambda>k b. rev b, cl_seal = \<lambda>k n p. hd n # p,
     cl_open = \<lambda>k n c. if c \<noteq> [] \<and> hd c = hd n then Inr (tl c) else Inl ''cipher: message authentication failed''\<rparr>"

lemma sample_cipher_ok: "cipher_ok sample_cipher k"
  by (simp add: cipher_ok_def sample_cipher_def)

theorem secrets_read_back_witness:
  "AesDecrypt sample_cipher (fst (AesEncrypt sample_cipher '' root pw '' (replicate 32 CHR ''k''))) (replicate 32 CHR ''k'') =
     (TrimSpace '' root pw '', None)"
  using secrets_read_back [of "replicate 32 CHR ''k''" sample_cipher "replicate 12 7" "'' root pw ''"] sample_cipher_ok
  by (simp add: nonceSize_def)

end
