(* ===== verification/Web_User.thy ===== *)
theory Web_User
  imports Web_Access Web_Crypto
begin

text \<open>
  The accounts of the web service (\<^verbatim>\<open>gossh/app/model/web_user.go\<close>, \<^verbatim>\<open>gossh/app/service/web_user.go\<close>): the table of users with
  its hooks, which encrypt the password before a row is written and decrypt it after one is read, the management
  handlers, and the login with its audit record.  The database is the list of stored rows; whether its
  queries and writes succeed, the random nonce and the paging of a query are parameters.
\<close>

section \<open>The table\<close>

record LoginAudit =
  la_Name :: string
  la_Pwd :: string
  la_ClientIp :: string
  la_UserAgent :: string
  la_ErrMsg :: string
  la_IsSuccess :: string
  la_OccurAt :: int

record account_db =
  db_users :: "WebUser list"
  db_audits :: "LoginAudit list"

record account_env =
  ae_access :: access_world
  ae_cipher :: cipher_lib
  ae_AesSecret :: string
  ae_rand :: "string + byte list"
  ae_query :: bool
  ae_write :: bool
  ae_audit :: bool
  ae_nextID :: "account_db \<Rightarrow> nat"
  ae_page :: "int \<Rightarrow> int \<Rightarrow> WebUser list \<Rightarrow> WebUser list"
  ae_ClientIP :: string
  ae_UserAgent :: string
  ae_now :: int

definition zero_user :: WebUser where
  "zero_user = \<lparr>wu_ID = 0, wu_Name = [], wu_Pwd = [], wu_DescInfo = [], wu_IsAdmin = [], wu_IsEnable = [], wu_IsRoot = [], wu_ExpiryAt = 0\<rparr>"

text \<open>The hooks \<^verbatim>\<open>BeforeCreate\<close>, \<^verbatim>\<open>BeforeUpdate\<close> and \<^verbatim>\<open>AfterFind\<close>; \<open>None\<close> is their error, which ends the operation.\<close>

definition BeforeWrite :: "account_env \<Rightarrow> WebUser \<Rightarrow> WebUser option" where
  "BeforeWrite E u =
     (case EncryptString (ae_cipher E) (ae_rand E) (wu_Pwd u) (ae_AesSecret E) of
        (p, None) \<Rightarrow> Some (u\<lparr>wu_Pwd := p\<rparr>)
      | (_, Some _) \<Rightarrow> None)"

definition AfterFind :: "account_env \<Rightarrow> WebUser \<Rightarrow> WebUser option" where
  "AfterFind E u =
     (case DecryptString (ae_cipher E) (wu_Pwd u) (ae_AesSecret E) of
        (p, None) \<Rightarrow> Some (u\<lparr>wu_Pwd := p\<rparr>)
      | (_, Some _) \<Rightarrow> None)"

text \<open>\<^verbatim>\<open>Db.First\<close>: the matching row with the least key; \<open>None\<close> when there is none, the query fails or the hook does.\<close>

definition First :: "account_env \<Rightarrow> (WebUser \<Rightarrow> bool) \<Rightarrow> account_db \<Rightarrow> WebUser option" where
  "First E p db =
     (if ae_query E
      then (case sort_key wu_ID (filter p (db_users db)) of [] \<Rightarrow> None | u # _ \<Rightarrow> AfterFind E u)
      else None)"

definition FindByID :: "account_env \<Rightarrow> nat \<Rightarrow> account_db \<Rightarrow> WebUser option" where
  "FindByID E uid db = First E (\<lambda>u. wu_ID u = uid) db"

definition FindByNameAndPwd :: "account_env \<Rightarrow> string \<Rightarrow> string \<Rightarrow> account_db \<Rightarrow> WebUser option" where
  "FindByNameAndPwd E name pwd db =
     (case First E (\<lambda>u. wu_Name u = name) db of
        None \<Rightarrow> None
      | Some user \<Rightarrow> if wu_Pwd user \<noteq> pwd then None else Some user)"

text \<open>\<^verbatim>\<open>Db.Find\<close> into one record: no matching row is no error and leaves the zero user; of several the last is left,
  but names are unique.\<close>

definition FindByName :: "account_env \<Rightarrow> string \<Rightarrow> account_db \<Rightarrow> WebUser option" where
  "FindByName E name db =
     (if ae_query E
      then (case filter (\<lambda>u. wu_Name u = name) (db_users db) of [] \<Rightarrow> Some zero_user | us \<Rightarrow> AfterFind E (last us))
      else None)"

definition FindAll :: "account_env \<Rightarrow> int \<Rightarrow> int \<Rightarrow> account_db \<Rightarrow> WebUser list option" where
  "FindAll E limit offset db =
     (if ae_query E then those (map (AfterFind E) (ae_page E limit offset (filter (\<lambda>u. wu_IsRoot u = ''N'') (db_users db)))) else None)"

text \<open>\<^verbatim>\<open>Db.Create\<close>: the key is the one given or, when it is zero, the one the database chooses; key and name are unique.\<close>

definition Create :: "account_env \<Rightarrow> WebUser \<Rightarrow> account_db \<Rightarrow> bool \<times> account_db" where
  "Create E user db =
     (case BeforeWrite E user of
        None \<Rightarrow> (False, db)
      | Some u \<Rightarrow>
          (let u = u\<lparr>wu_ID := if wu_ID u = 0 then ae_nextID E db else wu_ID u\<rparr> in
           if ae_write E \<and> wu_ID u \<notin> wu_ID ` set (db_users db) \<and> wu_Name u \<notin> wu_Name ` set (db_users db)
           then (True, db\<lparr>db_users := db_users db @ [u]\<rparr>) else (False, db)))"

text \<open>An update sets every column but the omitted ones in the rows selected; a name another row has is an error and
  changes nothing.\<close>

definition update_rows :: "account_env \<Rightarrow> (WebUser \<Rightarrow> bool) \<Rightarrow> (WebUser \<Rightarrow> WebUser) \<Rightarrow> account_db \<Rightarrow> bool \<times> account_db" where
  "update_rows E p f db =
     (let rows = map (\<lambda>r. if p r then f r else r) (db_users db) in
      if ae_write E \<and> distinct (map wu_Name rows) then (True, db\<lparr>db_users := rows\<rparr>) else (False, db))"

definition UpdateById :: "account_env \<Rightarrow> nat \<Rightarrow> WebUser \<Rightarrow> account_db \<Rightarrow> bool \<times> account_db" where
  "UpdateById E uid user db =
     (case BeforeWrite E user of
        None \<Rightarrow> (False, db)
      | Some u \<Rightarrow> update_rows E (\<lambda>r. wu_ID r = uid \<and> wu_IsRoot r = ''N'') (\<lambda>r. u\<lparr>wu_ID := wu_ID r, wu_IsRoot := wu_IsRoot r\<rparr>) db)"

definition UpdatePassword :: "account_env \<Rightarrow> nat \<Rightarrow> WebUser \<Rightarrow> account_db \<Rightarrow> bool \<times> account_db" where
  "UpdatePassword E uid user db =
     (case BeforeWrite E user of
        None \<Rightarrow> (False, db)
      | Some u \<Rightarrow> update_rows E (\<lambda>r. wu_ID r = uid) (\<lambda>r. u\<lparr>wu_ID := wu_ID r\<rparr>) db)"

definition DeleteByID :: "account_env \<Rightarrow> nat \<Rightarrow> account_db \<Rightarrow> bool \<times> account_db" where
  "DeleteByID E uid db =
     (if ae_write E then (True, db\<lparr>db_users := filter (\<lambda>r. \<not> (wu_ID r = uid \<and> wu_IsRoot r = ''N'')) (db_users db)\<rparr>) else (False, db))"

section \<open>Handlers\<close>

datatype user_reply =
    UMsg nat int string
  | UUsers "WebUser list"
  | UUser WebUser
  | ULogin string WebUser

text \<open>A request's body is \<open>None\<close> when binding it failed; \<open>limit\<close> and \<open>offset\<close> are the texts of the query.\<close>

definition UserFindAll :: "account_env \<Rightarrow> string \<Rightarrow> string \<Rightarrow> account_db \<Rightarrow> user_reply" where
  "UserFindAll E limit offset db =
     (case Atoi limit of
        None \<Rightarrow> UMsg 200 1 (utf8 [0xe8, 0x8e, 0xb7, 0xe5, 0x8f, 0x96] @ ''limit'' @ utf8 [0xe9, 0x94, 0x99, 0xe8, 0xaf, 0xaf])
      | Some l \<Rightarrow>
          (case Atoi offset of
             None \<Rightarrow> UMsg 200 2 (utf8 [0xe8, 0x8e, 0xb7, 0xe5, 0x8f, 0x96] @ ''offset'' @ utf8 [0xe9, 0x94, 0x99, 0xe8, 0xaf, 0xaf])
           | Some k \<Rightarrow>
               (case FindAll E l k db of
                  None \<Rightarrow> UMsg 200 4 (utf8 [0xe8, 0x8e, 0xb7, 0xe5, 0x8f, 0x96, 0xe7, 0x94, 0xa8, 0xe6, 0x88, 0xb7, 0xe4, 0xbf, 0xa1, 0xe6, 0x81, 0xaf, 0xe9, 0x94, 0x99, 0xe8, 0xaf, 0xaf])
                | Some data \<Rightarrow> UUsers data)))"

definition UserCreate :: "account_env \<Rightarrow> string \<Rightarrow> string \<Rightarrow> WebUser option \<Rightarrow> account_db \<Rightarrow> user_reply \<times> account_db" where
  "UserCreate E limit offset body db =
     (case body of
        None \<Rightarrow> (UMsg 200 1 (utf8 [0xe8, 0xbe, 0x93, 0xe5, 0x85, 0xa5, 0xe6, 0x95, 0xb0, 0xe6, 0x8d, 0xae, 0xe4, 0xb8, 0x8d, 0xe5, 0x90, 0x88, 0xe6, 0xb3, 0x95]), db)
      | Some user \<Rightarrow>
          (case Create E (user\<lparr>wu_IsRoot := ''N''\<rparr>) db of
             (False, db) \<Rightarrow> (UMsg 200 3 (utf8 [0xe5, 0x88, 0x9b, 0xe5, 0xbb, 0xba, 0xe7, 0x94, 0xa8, 0xe6, 0x88, 0xb7, 0xe9, 0x94, 0x99, 0xe8, 0xaf, 0xaf]), db)
           | (True, db) \<Rightarrow> (UserFindAll E limit offset db, db)))"

definition ModifyPasswd :: "account_env \<Rightarrow> nat \<Rightarrow> string option \<Rightarrow> account_db \<Rightarrow> user_reply \<times> account_db" where
  "ModifyPasswd E uid body db =
     (case body of
        None \<Rightarrow> (UMsg 200 1 (utf8 [0xe8, 0xbe, 0x93, 0xe5, 0x85, 0xa5, 0xe6, 0x95, 0xb0, 0xe6, 0x8d, 0xae, 0xe4, 0xb8, 0x8d, 0xe5, 0x90, 0x88, 0xe6, 0xb3, 0x95]), db)
      | Some pwd \<Rightarrow>
          (case FindByID E uid db of
             None \<Rightarrow> (UMsg 200 2 (utf8 [0xe8, 0x8e, 0xb7, 0xe5, 0x8f, 0x96, 0xe7, 0x94, 0xa8, 0xe6, 0x88, 0xb7, 0xe4, 0xbf, 0xa1, 0xe6, 0x81, 0xaf, 0xe9, 0x94, 0x99, 0xe8, 0xaf, 0xaf]), db)
           | Some user \<Rightarrow>
               (case UpdatePassword E uid (user\<lparr>wu_Pwd := pwd\<rparr>) db of
                  (False, db) \<Rightarrow> (UMsg 200 3 (utf8 [0xe6, 0x9b, 0xb4, 0xe6, 0x96, 0xb0, 0xe7, 0x94, 0xa8, 0xe6, 0x88, 0xb7, 0xe5, 0xaf, 0x86, 0xe7, 0xa0, 0x81, 0xe9, 0x94, 0x99, 0xe8, 0xaf, 0xaf]), db)
                | (True, db) \<Rightarrow> (UMsg 200 0 (utf8 [0xe6, 0x9b, 0xb4, 0xe6, 0x96, 0xb0, 0xe5, 0xaf, 0x86, 0xe7, 0xa0, 0x81, 0xe6, 0x88, 0x90, 0xe5, 0x8a, 0x9f]), db))))"

definition CheckUserNameExists :: "account_env \<Rightarrow> string option \<Rightarrow> account_db \<Rightarrow> user_reply" where
  "CheckUserNameExists E body db =
     (case body of
        None \<Rightarrow> UMsg 200 1 (utf8 [0xe8, 0xbe, 0x93, 0xe5, 0x85, 0xa5, 0xe6, 0x95, 0xb0, 0xe6, 0x8d, 0xae, 0xe4, 0xb8, 0x8d, 0xe5, 0x90, 0x88, 0xe6, 0xb3, 0x95])
      | Some name \<Rightarrow>
          (case FindByName E name db of
             None \<Rightarrow> UMsg 200 3 (utf8 [0xe8, 0x8e, 0xb7, 0xe5, 0x8f, 0x96, 0xe7, 0x94, 0xa8, 0xe6, 0x88, 0xb7, 0xe4, 0xbf, 0xa1, 0xe6, 0x81, 0xaf, 0xe9, 0x94, 0x99, 0xe8, 0xaf, 0xaf])
           | Some tmp \<Rightarrow> if wu_ID tmp \<noteq> 0 then UMsg 200 4 (utf8 [0xe7, 0x94, 0xa8, 0xe6, 0x88, 0xb7, 0xe5, 0x90, 0x8d, 0xe5, 0xb7, 0xb2, 0xe7, 0xbb, 0x8f, 0xe5, 0xad, 0x98, 0xe5, 0xad, 0x98, 0xe5, 0x9c, 0xa8]) else UMsg 200 0 ''ok''))"

text \<open>\<^verbatim>\<open>uint(id)\<close> of a parsed \<^verbatim>\<open>int\<close> wraps at 64 bits.\<close>

definition uint_of :: "int \<Rightarrow> nat" where
  "uint_of i = nat (i mod 2 ^ 64)"

definition UserFindByID :: "account_env \<Rightarrow> string \<Rightarrow> account_db \<Rightarrow> user_reply" where
  "UserFindByID E param db =
     (case Atoi param of
        None \<Rightarrow> UMsg 200 1 (utf8 [0xe8, 0x8e, 0xb7, 0xe5, 0x8f, 0x96] @ ''ID'' @ utf8 [0xe9, 0x94, 0x99, 0xe8, 0xaf, 0xaf])
      | Some i \<Rightarrow>
          (case FindByID E (uint_of i) db of
             None \<Rightarrow> UMsg 200 3 (utf8 [0xe8, 0x8e, 0xb7, 0xe5, 0x8f, 0x96, 0xe7, 0x94, 0xa8, 0xe6, 0x88, 0xb7, 0xe4, 0xbf, 0xa1, 0xe6, 0x81, 0xaf, 0xe9, 0x94, 0x99, 0xe8, 0xaf, 0xaf])
           | Some data \<Rightarrow> UUser data))"

definition UserUpdateById :: "account_env \<Rightarrow> string \<Rightarrow> string \<Rightarrow> WebUser option \<Rightarrow> account_db \<Rightarrow> user_reply \<times> account_db" where
  "UserUpdateById E limit offset body db =
     (case body of
        None \<Rightarrow> (UMsg 200 1 (utf8 [0xe8, 0x8e, 0xb7, 0xe5, 0x8f, 0x96] @ ''ID'' @ utf8 [0xe9, 0x94, 0x99, 0xe8, 0xaf, 0xaf]), db)
      | Some user \<Rightarrow>
          (case FindByID E (wu_ID user) db of
             None \<Rightarrow> (UMsg 200 3 (utf8 [0xe8, 0x8e, 0xb7, 0xe5, 0x8f, 0x96, 0xe7, 0x94, 0xa8, 0xe6, 0x88, 0xb7, 0xe4, 0xbf, 0xa1, 0xe6, 0x81, 0xaf, 0xe9, 0x94, 0x99, 0xe8, 0xaf, 0xaf]), db)
           | Some tmpUser \<Rightarrow>
               (let user = (if wu_IsRoot tmpUser = ''N'' then user\<lparr>wu_IsRoot := ''N''\<rparr> else user) in
                if wu_IsRoot tmpUser = ''Y'' then (UMsg 200 4 (utf8 [0xe5, 0x86, 0x85, 0xe7, 0xbd, 0xae] @ ''Root'' @ utf8 [0xe7, 0x94, 0xa8, 0xe6, 0x88, 0xb7, 0xe4, 0xb8, 0x8d, 0xe8, 0x83, 0xbd, 0xe6, 0x9b, 0xb4, 0xe6, 0x96, 0xb0]), db)
                else case UpdateById E (wu_ID user) user db of
                  (False, db) \<Rightarrow> (UMsg 200 5 (utf8 [0xe6, 0x9b, 0xb4, 0xe6, 0x96, 0xb0, 0xe7, 0x94, 0xa8, 0xe6, 0x88, 0xb7, 0xe9, 0x94, 0x99, 0xe8, 0xaf, 0xaf]), db)
                | (True, db) \<Rightarrow> (UserFindAll E limit offset db, db))))"

definition UserDeleteById :: "account_env \<Rightarrow> string \<Rightarrow> string \<Rightarrow> string \<Rightarrow> account_db \<Rightarrow> user_reply \<times> account_db" where
  "UserDeleteById E limit offset param db =
     (case Atoi param of
        None \<Rightarrow> (UMsg 200 1 (utf8 [0xe8, 0x8e, 0xb7, 0xe5, 0x8f, 0x96] @ ''ID'' @ utf8 [0xe9, 0x94, 0x99, 0xe8, 0xaf, 0xaf]), db)
      | Some i \<Rightarrow>
          (case FindByID E (uint_of i) db of
             None \<Rightarrow> (UMsg 200 3 (utf8 [0xe8, 0x8e, 0xb7, 0xe5, 0x8f, 0x96, 0xe7, 0x94, 0xa8, 0xe6, 0x88, 0xb7, 0xe4, 0xbf, 0xa1, 0xe6, 0x81, 0xaf, 0xe9, 0x94, 0x99, 0xe8, 0xaf, 0xaf]), db)
           | Some tmpUser \<Rightarrow>
               if wu_IsRoot tmpUser = ''Y'' then (UMsg 200 4 (utf8 [0xe5, 0x86, 0x85, 0xe7, 0xbd, 0xae] @ ''Root'' @ utf8 [0xe7, 0x94, 0xa8, 0xe6, 0x88, 0xb7, 0xe4, 0xb8, 0x8d, 0xe8, 0x83, 0xbd, 0xe5, 0x88, 0xa0, 0xe9, 0x99, 0xa4]), db)
               else case DeleteByID E (uint_of i) db of
                 (False, db) \<Rightarrow> (UMsg 200 5 (utf8 [0xe5, 0x88, 0xa0, 0xe9, 0x99, 0xa4, 0xe7, 0x94, 0xa8, 0xe6, 0x88, 0xb7, 0xe9, 0x94, 0x99, 0xe8, 0xaf, 0xaf]), db)
               | (True, db) \<Rightarrow> (UserFindAll E limit offset db, db)))"

section \<open>Login\<close>

text \<open>The length is counted in runes, and cutting replaces the bytes that are not UTF-8.\<close>

definition TruncateString :: "string \<Rightarrow> nat \<Rightarrow> string" where
  "TruncateString s n = (if length (runes s) \<le> n then s else if n < 1 then [] else concat (take n (runes s)))"

definition audit_create :: "account_env \<Rightarrow> LoginAudit \<Rightarrow> account_db \<Rightarrow> account_db" where
  "audit_create E a db = (if ae_audit E then db\<lparr>db_audits := db_audits db @ [a]\<rparr> else db)"

text \<open>The name and password of the request; the flag tells whether binding it succeeded, and a failed binding leaves what it had
  filled in.\<close>

definition UserLogin :: "account_env \<Rightarrow> bool \<Rightarrow> string \<Rightarrow> string \<Rightarrow> account_db \<Rightarrow> user_reply \<times> account_db" where
  "UserLogin E bound name pwd db =
     (if \<not> aw_IsInit (ae_access E) then (UMsg 401 401 (utf8 [0xe8, 0xaf, 0xb7, 0xe5, 0xaf, 0xb9, 0xe7, 0xb3, 0xbb, 0xe7, 0xbb, 0x9f, 0xe8, 0xbf, 0x9b, 0xe8, 0xa1, 0x8c, 0xe5, 0x88, 0x9d, 0xe5, 0xa7, 0x8b, 0xe5, 0x8c, 0x96]), db)
      else let audit = \<lparr>la_Name = TruncateString name 60, la_Pwd = TruncateString pwd 60, la_ClientIp = ae_ClientIP E,
               la_UserAgent = TruncateString (ae_UserAgent E) 500, la_ErrMsg = utf8 [0xe8, 0xaf, 0xb7, 0xe6, 0xb1, 0x82, 0xe5, 0x8f, 0x82, 0xe6, 0x95, 0xb0, 0xe9, 0x94, 0x99, 0xe8, 0xaf, 0xaf], la_IsSuccess = ''N'', la_OccurAt = ae_now E\<rparr> in
        if \<not> bound then (UMsg 200 1 (utf8 [0xe8, 0xbe, 0x93, 0xe5, 0x85, 0xa5, 0xe6, 0x95, 0xb0, 0xe6, 0x8d, 0xae, 0xe4, 0xb8, 0x8d, 0xe5, 0x90, 0x88, 0xe6, 0xb3, 0x95]), audit_create E audit db)
        else case FindByNameAndPwd E name pwd db of
          None \<Rightarrow> (UMsg 401 2 (utf8 [0xe8, 0xb4, 0xa6, 0xe5, 0x8f, 0xb7, 0xe5, 0xaf, 0x86, 0xe7, 0xa0, 0x81, 0xe9, 0x94, 0x99, 0xe8, 0xaf, 0xaf]), audit_create E (audit\<lparr>la_ErrMsg := utf8 [0xe8, 0xb4, 0xa6, 0xe5, 0x8f, 0xb7, 0xe5, 0xaf, 0x86, 0xe7, 0xa0, 0x81, 0xe9, 0x94, 0x99, 0xe8, 0xaf, 0xaf]\<rparr>) db)
        | Some u \<Rightarrow>
            if wu_IsEnable u = ''N'' then (UMsg 401 3 (utf8 [0xe8, 0xb4, 0xa6, 0xe5, 0x8f, 0xb7, 0xe5, 0xb7, 0xb2, 0xe7, 0xa6, 0x81, 0xe7, 0x94, 0xa8]), audit_create E (audit\<lparr>la_ErrMsg := utf8 [0xe8, 0xb4, 0xa6, 0xe5, 0x8f, 0xb7, 0xe5, 0xb7, 0xb2, 0xe7, 0xa6, 0x81, 0xe7, 0x94, 0xa8]\<rparr>) db)
            else if wu_ExpiryAt u < ae_now E then (UMsg 401 4 (utf8 [0xe8, 0xb4, 0xa6, 0xe5, 0x8f, 0xb7, 0xe5, 0xb7, 0xb2, 0xe8, 0xbf, 0x87, 0xe6, 0x9c, 0x9f]), audit_create E (audit\<lparr>la_ErrMsg := utf8 [0xe8, 0xb4, 0xa6, 0xe5, 0x8f, 0xb7, 0xe5, 0xb7, 0xb2, 0xe8, 0xbf, 0x87, 0xe6, 0x9c, 0x9f]\<rparr>) db)
            else case GenerateToken (ae_access E) (wu_ID u) of
              Inl e \<Rightarrow> (UMsg 401 5 e, audit_create E (audit\<lparr>la_ErrMsg := utf8 [0xe7, 0x94, 0x9f, 0xe6, 0x88, 0x90] @ ''Token'' @ utf8 [0xe9, 0x94, 0x99, 0xe8, 0xaf, 0xaf]\<rparr>) db)
            | Inr tokenString \<Rightarrow>
                (ULogin tokenString u,
                 audit_create E (audit\<lparr>la_Name := name, la_Pwd := ''*'', la_ErrMsg := ''*'', la_IsSuccess := ''Y''\<rparr>) db))"

section \<open>Properties of the table\<close>

lemma First_Some:
  assumes "First E p db = Some u"
  obtains r where "r \<in> set (db_users db)" "p r" "AfterFind E r = Some u"
proof -
  obtain r rs where r: "sort_key wu_ID (filter p (db_users db)) = r # rs" "AfterFind E r = Some u"
    using assms by (auto simp: First_def split: if_splits list.splits)
  then have "r \<in> set (filter p (db_users db))" by (metis list.set_intros(1) set_sort)
  then show thesis using r(2) that by auto
qed

lemma First_unique:
  assumes "ae_query E" "filter p (db_users db) = [r]"
  shows "First E p db = AfterFind E r"
  using assms by (simp add: First_def)

lemma AfterFind_fields:
  assumes "AfterFind E r = Some u"
  shows "u = r\<lparr>wu_Pwd := wu_Pwd u\<rparr>"
  using assms by (auto simp: AfterFind_def split: prod.splits option.splits)

lemma BeforeWrite_fields:
  assumes "BeforeWrite E r = Some u"
  shows "u = r\<lparr>wu_Pwd := wu_Pwd u\<rparr>"
  using assms by (auto simp: BeforeWrite_def split: prod.splits option.splits)

definition accounts_ok :: "account_db \<Rightarrow> bool" where
  "accounts_ok db \<longleftrightarrow> distinct (map wu_ID (db_users db)) \<and> distinct (map wu_Name (db_users db))"

text \<open>The built-in users, but for their passwords.\<close>

definition roots :: "account_db \<Rightarrow> WebUser list" where
  "roots db = map (\<lambda>r. r\<lparr>wu_Pwd := []\<rparr>) (filter (\<lambda>r. wu_IsRoot r = ''Y'') (db_users db))"

lemma update_rows_kept:
  assumes "update_rows E p f db = (b, db')" "accounts_ok db"
    and "\<And>r. r \<in> set (db_users db) \<Longrightarrow> p r \<Longrightarrow>
      wu_ID (f r) = wu_ID r \<and> wu_IsRoot (f r) = wu_IsRoot r \<and> (wu_IsRoot r = ''Y'' \<longrightarrow> (f r)\<lparr>wu_Pwd := []\<rparr> = r\<lparr>wu_Pwd := []\<rparr>)"
  shows "accounts_ok db' \<and> roots db' = roots db"
proof -
  let ?g = "\<lambda>r. if p r then f r else r"
  have ids: "map wu_ID (map ?g (db_users db)) = map wu_ID (db_users db)" using assms(3) by simp
  have "map (\<lambda>r. r\<lparr>wu_Pwd := []\<rparr>) (filter (\<lambda>r. wu_IsRoot r = ''Y'') (map ?g us)) =
      map (\<lambda>r. r\<lparr>wu_Pwd := []\<rparr>) (filter (\<lambda>r. wu_IsRoot r = ''Y'') us)" if "set us \<subseteq> set (db_users db)" for us
    using that assms(3) by (induction us) auto
  note kept = this [OF order_refl]
  consider "db' = db" | "db_users db' = map ?g (db_users db)" "distinct (map wu_Name (map ?g (db_users db)))"
    using assms(1) by (auto simp: update_rows_def Let_def split: if_splits)
  then show ?thesis
  proof cases
    case 2
    then show ?thesis using assms(2) unfolding accounts_ok_def roots_def by (simp only: ids kept simp_thms)
  qed (use assms(2) in simp)
qed

lemma UserCreate_added:
  assumes "UserCreate E l k body db = (r, db')" "db' \<noteq> db"
  obtains user u i where "body = Some user" "BeforeWrite E (user\<lparr>wu_IsRoot := ''N''\<rparr>) = Some u"
    "db' = db\<lparr>db_users := db_users db @ [u\<lparr>wu_ID := i\<rparr>]\<rparr>" "i \<notin> wu_ID ` set (db_users db)" "wu_Name u \<notin> wu_Name ` set (db_users db)"
proof -
  obtain user where b: "body = Some user" using assms by (cases body) (auto simp: UserCreate_def)
  obtain u where u: "BeforeWrite E (user\<lparr>wu_IsRoot := ''N''\<rparr>) = Some u"
    using assms b by (cases "BeforeWrite E (user\<lparr>wu_IsRoot := ''N''\<rparr>)") (auto simp: UserCreate_def Create_def)
  show thesis
    by (rule that [OF b u, of "if wu_ID u = 0 then ae_nextID E db else wu_ID u"])
      (use assms b u in \<open>auto simp: UserCreate_def Create_def Let_def split: if_splits\<close>)
qed

lemma UserCreate_kept:
  assumes "UserCreate E l k body db = (r, db')" "accounts_ok db"
  shows "accounts_ok db' \<and> roots db' = roots db"
proof (cases "db' = db")
  case False
  then obtain user u i where u: "body = Some user" "BeforeWrite E (user\<lparr>wu_IsRoot := ''N''\<rparr>) = Some u"
      "db' = db\<lparr>db_users := db_users db @ [u\<lparr>wu_ID := i\<rparr>]\<rparr>" "i \<notin> wu_ID ` set (db_users db)" "wu_Name u \<notin> wu_Name ` set (db_users db)"
    using UserCreate_added [OF assms(1)] by metis
  have "wu_IsRoot u = ''N''" using BeforeWrite_fields [OF u(2)] by (cases u; cases user) auto
  then show ?thesis using assms(2) u(3-5) by (auto simp: accounts_ok_def roots_def)
qed (use assms in simp)

lemma UserUpdateById_kept:
  assumes "UserUpdateById E l k body db = (r, db')" "accounts_ok db"
  shows "accounts_ok db' \<and> roots db' = roots db"
proof (cases "db' = db")
  case False
  then obtain uid user b where u: "UpdateById E uid user db = (b, db')"
    using assms(1) by (auto simp: UserUpdateById_def Let_def split: option.splits prod.splits bool.splits if_splits)
  then obtain w where "update_rows E (\<lambda>r. wu_ID r = uid \<and> wu_IsRoot r = ''N'') (\<lambda>r. w\<lparr>wu_ID := wu_ID r, wu_IsRoot := wu_IsRoot r\<rparr>) db = (b, db')"
    using False by (auto simp: UpdateById_def split: option.splits)
  then show ?thesis using update_rows_kept [OF _ assms(2)] by auto
qed (use assms in simp)

lemma UserDeleteById_kept:
  assumes "UserDeleteById E l k param db = (r, db')" "accounts_ok db"
  shows "accounts_ok db' \<and> roots db' = roots db"
proof (cases "db' = db")
  case False
  then obtain i where i: "db_users db' = filter (\<lambda>r. \<not> (wu_ID r = i \<and> wu_IsRoot r = ''N'')) (db_users db)"
    using assms(1) by (auto simp: UserDeleteById_def DeleteByID_def split: option.splits prod.splits bool.splits if_splits)
  have "filter (\<lambda>r. wu_IsRoot r = ''Y'') (filter (\<lambda>r. \<not> (wu_ID r = i \<and> wu_IsRoot r = ''N'')) us) = filter (\<lambda>r. wu_IsRoot r = ''Y'') us" for us :: "WebUser list"
    by (induction us) auto
  then have "roots db' = roots db" unfolding roots_def i by (simp only:)
  then show ?thesis using i assms(2) by (simp add: accounts_ok_def distinct_map_filter)
qed (use assms in simp)

lemma ModifyPasswd_kept:
  assumes "ModifyPasswd E uid body db = (r, db')" "accounts_ok db"
  shows "accounts_ok db' \<and> roots db' = roots db"
proof (cases "db' = db")
  case False
  then obtain pwd user b where u: "FindByID E uid db = Some user" "UpdatePassword E uid (user\<lparr>wu_Pwd := pwd\<rparr>) db = (b, db')"
    using assms(1) by (auto simp: ModifyPasswd_def split: option.splits prod.splits bool.splits)
  obtain q where q: "q \<in> set (db_users db)" "wu_ID q = uid" "user = q\<lparr>wu_Pwd := wu_Pwd user\<rparr>"
    using u(1) AfterFind_fields by (auto simp: FindByID_def elim: First_Some)
  obtain w where w: "BeforeWrite E (user\<lparr>wu_Pwd := pwd\<rparr>) = Some w" "update_rows E (\<lambda>r. wu_ID r = uid) (\<lambda>r. w\<lparr>wu_ID := wu_ID r\<rparr>) db = (b, db')"
    using u(2) False by (auto simp: UpdatePassword_def split: option.splits)
  have "\<exists>p. w = q\<lparr>wu_Pwd := p\<rparr>" using BeforeWrite_fields [OF w(1)] q(3) by (cases user; cases q; cases w) auto
  then obtain p where p: "w = q\<lparr>wu_Pwd := p\<rparr>" by blast
  have one: "x = q" if "x \<in> set (db_users db)" "wu_ID x = uid" for x
    using that q(1,2) assms(2) by (auto simp: accounts_ok_def distinct_map dest: inj_onD)
  show ?thesis by (rule update_rows_kept [OF w(2) assms(2)]) (auto dest!: one simp: p)
qed (use assms in simp)

lemma UserLogin_kept: "UserLogin E bound name pwd db = (r, db') \<Longrightarrow> db_users db' = db_users db"
  by (auto simp: UserLogin_def Let_def audit_create_def split: if_splits option.splits sum.splits)

text \<open>The requests that change accounts, and the logins, in any order, by anyone, under any outcome of the database.\<close>

inductive account_step :: "account_db \<Rightarrow> account_db \<Rightarrow> bool" where
  Create_step: "UserCreate E l k body db = (r, db') \<Longrightarrow> account_step db db'"
| Update_step: "UserUpdateById E l k body db = (r, db') \<Longrightarrow> account_step db db'"
| Delete_step: "UserDeleteById E l k param db = (r, db') \<Longrightarrow> account_step db db'"
| Passwd_step: "ModifyPasswd E uid pwd db = (r, db') \<Longrightarrow> account_step db db'"
| Login_step: "UserLogin E bound name pw db = (r, db') \<Longrightarrow> account_step db db'"

lemma account_step_kept: "account_step db db' \<Longrightarrow> accounts_ok db \<Longrightarrow> accounts_ok db' \<and> roots db' = roots db"
proof (induction rule: account_step.induct)
  case (Login_step E bound name pw db r db')
  then show ?case using UserLogin_kept [OF Login_step(1)] by (simp add: accounts_ok_def roots_def)
qed (simp_all add: UserCreate_kept UserUpdateById_kept UserDeleteById_kept ModifyPasswd_kept)

text \<open>C15: whatever sequence of account requests and logins is made, and however the database's queries and writes turn out, the
  ids and the names of the users stay unique, no user is added to the built-in ones, and no built-in user is removed or
  changed in any field but its password.\<close>

theorem root_accounts_kept:
  assumes "account_step\<^sup>*\<^sup>* db db'" "accounts_ok db"
  shows "accounts_ok db' \<and> roots db' = roots db"
  using assms by (induction rule: rtranclp_induct) (auto dest: account_step_kept)

definition sample_env :: account_env where
  "sample_env = \<lparr>ae_access = sample_access, ae_cipher = sample_cipher, ae_AesSecret = replicate 32 CHR ''k'', ae_rand = Inr (replicate 12 7),
     ae_query = True, ae_write = True, ae_audit = True, ae_nextID = (\<lambda>db. Suc (length (db_users db))), ae_page = (\<lambda>l k us. us), ae_ClientIP = ''10.0.0.1'', ae_UserAgent = ''curl'', ae_now = 1000\<rparr>"

definition sample_user :: WebUser where
  "sample_user = \<lparr>wu_ID = 0, wu_Name = ''eve'', wu_Pwd = ''secret '', wu_DescInfo = ''d'', wu_IsAdmin = ''N'', wu_IsEnable = ''Y'', wu_IsRoot = ''Y'', wu_ExpiryAt = 9000\<rparr>"

definition sample_db :: account_db where
  "sample_db = \<lparr>db_users = [sample_root], db_audits = []\<rparr>"

theorem root_accounts_kept_witness:
  "roots (snd (UserCreate sample_env ''10'' ''0'' (Some sample_user) sample_db)) = [sample_root]"
proof -
  let ?db = "snd (UserCreate sample_env ''10'' ''0'' (Some sample_user) sample_db)"
  have "account_step sample_db ?db" by (rule Create_step [where E = sample_env]) (simp add: prod_eq_iff)
  then have "account_step\<^sup>*\<^sup>* sample_db ?db" by blast
  moreover have "accounts_ok sample_db" by (simp add: accounts_ok_def sample_db_def)
  ultimately have "roots ?db = roots sample_db" using root_accounts_kept by blast
  also have "\<dots> = [sample_root]" by (simp add: roots_def sample_db_def sample_root_def)
  finally show ?thesis .
qed

text \<open>C16: a login changes no account.  It answers with a token only when the system is initialised, the request was bound and
  the table has a user of that name whose decrypted password is the one given, who is not disabled and has not expired, and the
  token is the one issued for that user; when the audit table can be written, every login after initialisation appends
  one record, which says success exactly when a token was given, and then does not hold the password.\<close>

theorem login_decision:
  "UserLogin E bound name pwd db = (r, db') \<Longrightarrow>
   db_users db' = db_users db \<and>
   (\<forall>tok u. r = ULogin tok u \<longrightarrow>
      aw_IsInit (ae_access E) \<and> bound \<and> (\<exists>row \<in> set (db_users db). wu_Name row = name \<and> AfterFind E row = Some u) \<and> wu_Pwd u = pwd \<and>
      wu_IsEnable u \<noteq> ''N'' \<and> ae_now E \<le> wu_ExpiryAt u \<and> GenerateToken (ae_access E) (wu_ID u) = Inr tok) \<and>
   (aw_IsInit (ae_access E) \<and> ae_audit E \<longrightarrow>
      (\<exists>a. db_audits db' = db_audits db @ [a] \<and> (la_IsSuccess a = ''Y'' \<longleftrightarrow> (\<exists>tok u. r = ULogin tok u)) \<and>
           (la_IsSuccess a = ''Y'' \<longrightarrow> la_Pwd a = ''*'')))"
proof (intro conjI allI impI)
  assume l: "UserLogin E bound name pwd db = (r, db')"
  show "db_users db' = db_users db" by (rule UserLogin_kept [OF l])
  show "\<exists>a. db_audits db' = db_audits db @ [a] \<and> (la_IsSuccess a = ''Y'' \<longleftrightarrow> (\<exists>tok u. r = ULogin tok u)) \<and>
      (la_IsSuccess a = ''Y'' \<longrightarrow> la_Pwd a = ''*'')" if "aw_IsInit (ae_access E) \<and> ae_audit E"
    using l that by (auto simp: UserLogin_def Let_def audit_create_def split: if_splits option.splits sum.splits)
  fix tok u assume t: "r = ULogin tok u"
  then have f: "FindByNameAndPwd E name pwd db = Some u"
    and rest: "aw_IsInit (ae_access E)" "bound" "wu_IsEnable u \<noteq> ''N''" "ae_now E \<le> wu_ExpiryAt u" "GenerateToken (ae_access E) (wu_ID u) = Inr tok"
    using l by (auto simp: UserLogin_def Let_def split: if_splits option.splits sum.splits)
  show "aw_IsInit (ae_access E)" "bound" "wu_IsEnable u \<noteq> ''N''" "ae_now E \<le> wu_ExpiryAt u" "GenerateToken (ae_access E) (wu_ID u) = Inr tok"
    by (rule rest)+
  show "wu_Pwd u = pwd" using f by (auto simp: FindByNameAndPwd_def split: option.splits if_splits)
  have "First E (\<lambda>r. wu_Name r = name) db = Some u" using f by (auto simp: FindByNameAndPwd_def split: option.splits if_splits)
  then show "\<exists>row \<in> set (db_users db). wu_Name row = name \<and> AfterFind E row = Some u" by (rule First_Some) auto
qed

lemma read_back_row:
  assumes "BeforeWrite E u = Some w" "length (ae_AesSecret E) = 32" "cipher_ok (ae_cipher E) (to_bytes (ae_AesSecret E))"
    and "ae_rand E = Inr nonce" "length nonce = nonceSize" "ae_cipher E' = ae_cipher E" "ae_AesSecret E' = ae_AesSecret E"
    and "wu_Pwd w' = wu_Pwd w"
  shows "AfterFind E' w' = Some (w'\<lparr>wu_Pwd := TrimSpace (wu_Pwd u)\<rparr>)"
proof -
  have "wu_Pwd w = fst (EncryptString (ae_cipher E) (Inr nonce) (wu_Pwd u) (ae_AesSecret E))"
    using assms(1,4) by (auto simp: BeforeWrite_def split: prod.splits option.splits)
  then show ?thesis using DecryptString_encrypted [OF assms(2,3,5), of "wu_Pwd u"] assms(6-8) by (simp add: AfterFind_def)
qed

text \<open>C17: a user that \<^verbatim>\<open>UserCreate\<close> has added passes the check of name and password at the login with exactly one password, the one
  given without the white space around it: for any other, also for the one given when it begins or ends with white space, the
  login answers that name or password is wrong.\<close>

theorem login_after_create:
  assumes "UserCreate E l k (Some user) db = (r, db')" "db' \<noteq> db"
    and "length (ae_AesSecret E) = 32" "cipher_ok (ae_cipher E) (to_bytes (ae_AesSecret E))"
    and "ae_rand E = Inr nonce" "length nonce = nonceSize"
    and "ae_cipher E' = ae_cipher E" "ae_AesSecret E' = ae_AesSecret E" "ae_query E'" "aw_IsInit (ae_access E')"
  shows "fst (UserLogin E' True (wu_Name user) pwd db') = UMsg 401 2 (utf8 [0xe8, 0xb4, 0xa6, 0xe5, 0x8f, 0xb7, 0xe5, 0xaf, 0x86, 0xe7, 0xa0, 0x81, 0xe9, 0x94, 0x99, 0xe8, 0xaf, 0xaf]) \<longleftrightarrow> pwd \<noteq> TrimSpace (wu_Pwd user)"
proof -
  let ?u = "user\<lparr>wu_IsRoot := ''N''\<rparr>"
  obtain w i where w: "BeforeWrite E ?u = Some w" "db' = db\<lparr>db_users := db_users db @ [w\<lparr>wu_ID := i\<rparr>]\<rparr>" "wu_Name w \<notin> wu_Name ` set (db_users db)"
    using UserCreate_added [OF assms(1,2)] by (metis option.inject)
  have n: "wu_Name w = wu_Name user" using BeforeWrite_fields [OF w(1)] by (cases w; cases user) auto
  have "filter (\<lambda>r. wu_Name r = wu_Name user) (db_users db) = []" using w(3) n by (fastforce simp: filter_empty_conv image_iff)
  then have "filter (\<lambda>r. wu_Name r = wu_Name user) (db_users db') = [w\<lparr>wu_ID := i\<rparr>]" using w(2) n by simp
  then have "First E' (\<lambda>r. wu_Name r = wu_Name user) db' = Some (w\<lparr>wu_ID := i, wu_Pwd := TrimSpace (wu_Pwd user)\<rparr>)"
    using First_unique [OF assms(9)] read_back_row [OF w(1) assms(3-8), of "w\<lparr>wu_ID := i\<rparr>"] by simp
  then have f: "FindByNameAndPwd E' (wu_Name user) pwd db' =
      (if pwd = TrimSpace (wu_Pwd user) then Some (w\<lparr>wu_ID := i, wu_Pwd := TrimSpace (wu_Pwd user)\<rparr>) else None)"
    by (simp add: FindByNameAndPwd_def)
  show ?thesis using assms(10) f by (auto simp: UserLogin_def Let_def split: sum.splits)
qed

theorem login_decision_witness:
  "\<exists>a. db_audits (snd (UserLogin sample_env True ''root'' [] sample_db)) = [a] \<and> (la_IsSuccess a = ''Y'' \<longrightarrow> la_Pwd a = ''*'')"
proof -
  have "aw_IsInit (ae_access sample_env) \<and> ae_audit sample_env" "db_audits sample_db = []"
    by (simp_all add: sample_env_def sample_access_def sample_db_def)
  then show ?thesis using login_decision [of sample_env True "''root''" "[]" sample_db, OF surjective_pairing] by fastforce
qed

theorem login_after_create_witness:
  "fst (UserLogin sample_env True ''eve'' ''secret '' (snd (UserCreate sample_env ''10'' ''0'' (Some sample_user) sample_db))) =
     UMsg 401 2 (utf8 [0xe8, 0xb4, 0xa6, 0xe5, 0x8f, 0xb7, 0xe5, 0xaf, 0x86, 0xe7, 0xa0, 0x81, 0xe9, 0x94, 0x99, 0xe8, 0xaf, 0xaf])"
proof -
  let ?db = "snd (UserCreate sample_env ''10'' ''0'' (Some sample_user) sample_db)"
  have "length (db_users ?db) = 2" by code_simp
  then have d: "?db \<noteq> sample_db" by (auto simp: sample_db_def)
  have t: "TrimSpace ''secret '' \<noteq> ''secret ''" by code_simp
  have "fst (UserLogin sample_env True (wu_Name sample_user) ''secret '' ?db) = UMsg 401 2 (utf8 [0xe8, 0xb4, 0xa6, 0xe5, 0x8f, 0xb7, 0xe5, 0xaf, 0x86, 0xe7, 0xa0, 0x81, 0xe9, 0x94, 0x99, 0xe8, 0xaf, 0xaf]) \<longleftrightarrow>
      ''secret '' \<noteq> TrimSpace (wu_Pwd sample_user)"
    by (rule login_after_create [OF surjective_pairing d, where nonce = "replicate 12 7"])
      (simp_all add: sample_env_def sample_cipher_ok nonceSize_def sample_access_def)
  then show ?thesis using t by (simp add: sample_user_def)
qed

end
