(* ===== verification/Web_Ubus.thy ===== *)
theory Web_Ubus
  imports Go_Bytes Go_Format "HOL-Library.List_Lexorder" "HOL-Library.Char_ord"
begin

text \<open>
  Calls of the device's message bus: \<^verbatim>\<open>GetDataFromUbus\<close> (\<^verbatim>\<open>gossh/app/utils/ubus.go\<close>), which runs the \<^verbatim>\<open>ubus\<close> command with JSON
  parameters and decodes its output, and the batch endpoint (\<^verbatim>\<open>gossh/app/service/zwrt_ubus.go\<close>), which runs one goroutine per
  request under a semaphore of twelve.  The command itself and the decoding of its output are parameters; the
  encoding of the parameters is modelled on ASCII text.  The goroutines are the steps of a transition system.
\<close>

section \<open>JSON values\<close>

text \<open>A decoded value: a number is given by the text the encoder prints for it, an object by its members in any order.\<close>

datatype json = JsNull | JsBool bool | JsNum string | JsStr string | JsArr "json list" | JsObj "(string \<times> json) list"

definition json_char :: "char \<Rightarrow> string" where
  "json_char c =
     (if c = CHR 0x22 \<or> c = CHR 0x5C then [CHR 0x5C, c]
      else if code c = 8 then [CHR 0x5C, CHR ''b''] else if code c = 12 then [CHR 0x5C, CHR ''f'']
      else if code c = 10 then [CHR 0x5C, CHR ''n''] else if code c = 13 then [CHR 0x5C, CHR ''r'']
      else if code c = 9 then [CHR 0x5C, CHR ''t'']
      else if code c < 32 \<or> c = CHR ''<'' \<or> c = CHR ''>'' \<or> c = CHR ''&''
      then [CHR 0x5C, CHR ''u''] @ ''00'' @ [hex_digit (code c div 16), hex_digit (code c mod 16)]
      else [c])"

definition json_string :: "string \<Rightarrow> string" where
  "json_string s = [CHR 0x22] @ concat (map json_char s) @ [CHR 0x22]"

text \<open>\<^verbatim>\<open>json.Marshal\<close>, which does not fail on these values: the members of an object are sorted by key.\<close>

fun Marshal :: "json \<Rightarrow> string" where
  "Marshal JsNull = ''null''"
| "Marshal (JsBool b) = FormatBool b"
| "Marshal (JsNum t) = t"
| "Marshal (JsStr s) = json_string s"
| "Marshal (JsArr vs) = ''['' @ Join (map Marshal vs) '','' @ '']''"
| "Marshal (JsObj kvs) =
     ''{'' @ Join (map (\<lambda>(k, t). json_string k @ '':'' @ t) (sort_key fst (map (\<lambda>(k, v). (k, Marshal v)) kvs))) '','' @ ''}''"

section \<open>One call\<close>

text \<open>\<open>ub_exec\<close> is the run of the command with these arguments, ended after five seconds at the latest: its error and its output.\<close>

record 'd ubus =
  ub_exec :: "string list \<Rightarrow> 'd \<Rightarrow> (string option \<times> string) \<times> 'd"
  ub_unmarshal :: "string \<Rightarrow> json option"

record 'd ubus_state =
  us_dev :: 'd
  us_calls :: "string list list"

definition ubus_args :: "string \<Rightarrow> string \<Rightarrow> (string \<times> json) list option \<Rightarrow> string list" where
  "ubus_args service method params =
     (case params of
        Some kvs \<Rightarrow> [''call'', service, method, Marshal (JsObj kvs)]
      | None \<Rightarrow> [''call'', service, method])"

definition ubus_result :: "(string \<Rightarrow> json option) \<Rightarrow> string option \<times> string \<Rightarrow> string + json" where
  "ubus_result unmarshal res =
     (case res of
        (Some e, output) \<Rightarrow> Inl (''ubus call failed: '' @ e @ '', output: '' @ output)
      | (None, output) \<Rightarrow>
          (case unmarshal output of
             None \<Rightarrow> Inr (JsObj [(''raw'', JsStr (TrimSpace output))])
           | Some result \<Rightarrow> Inr result))"

definition GetDataFromUbus :: "'d ubus \<Rightarrow> string \<Rightarrow> string \<Rightarrow> (string \<times> json) list option \<Rightarrow> 'd ubus_state \<Rightarrow> (string + json) \<times> 'd ubus_state" where
  "GetDataFromUbus U service method params s =
     (let cmdArgs = ubus_args service method params; (res, d) = ub_exec U cmdArgs (us_dev s)
      in (ubus_result (ub_unmarshal U) res, s\<lparr>us_dev := d, us_calls := us_calls s @ [cmdArgs]\<rparr>))"

lemma GetDataFromUbus_calls:
  "us_calls (snd (GetDataFromUbus U service method params s)) = us_calls s @ [ubus_args service method params]"
  by (simp add: GetDataFromUbus_def Let_def split: prod.splits)

section \<open>A batch\<close>

record ZteRPCRequest =
  zq_Id :: int
  zq_Params :: "json list"

record ZteRPCResponse =
  zr_Id :: int
  zr_CostMs :: int
  zr_Result :: "int \<times> json"

definition maxConcurrent :: nat where "maxConcurrent = 12"

fun as_string :: "json \<Rightarrow> string" where
  "as_string (JsStr s) = s"
| "as_string _ = []"

fun as_map :: "json \<Rightarrow> (string \<times> json) list option" where
  "as_map (JsObj kvs) = Some kvs"
| "as_map _ = None"

definition invalid_params :: "ZteRPCRequest \<Rightarrow> bool" where
  "invalid_params r \<longleftrightarrow> length (zq_Params r) < 4"

definition invalid_response :: "ZteRPCRequest \<Rightarrow> ZteRPCResponse" where
  "invalid_response r = \<lparr>zr_Id = zq_Id r, zr_CostMs = 0, zr_Result = (1, JsStr ''invalid params'')\<rparr>"

definition rpc_args :: "ZteRPCRequest \<Rightarrow> string list" where
  "rpc_args r = ubus_args (as_string (zq_Params r ! 1)) (as_string (zq_Params r ! 2)) (as_map (zq_Params r ! 3))"

definition rpc_response :: "(string \<Rightarrow> json option) \<Rightarrow> ZteRPCRequest \<Rightarrow> int \<Rightarrow> string option \<times> string \<Rightarrow> ZteRPCResponse" where
  "rpc_response unmarshal r costMs res =
     \<lparr>zr_Id = zq_Id r, zr_CostMs = costMs,
      zr_Result = (case ubus_result unmarshal res of Inl e \<Rightarrow> (1, JsStr e) | Inr data \<Rightarrow> (0, data))\<rparr>"

text \<open>Where a goroutine is: before the semaphore, holding a slot, waiting for its command, after its send, returned.\<close>

datatype phase = Waiting | Holding | Calling | Sent | Finished

text \<open>The responses in the channel and the calls made carry the number of their goroutine, for the statements below.\<close>

record batch =
  bt_phase :: "phase list"
  bt_out :: "(nat \<times> ZteRPCResponse) list"
  bt_calls :: "(nat \<times> string list) list"

definition start_batch :: "ZteRPCRequest list \<Rightarrow> batch" where
  "start_batch reqs = \<lparr>bt_phase = map (\<lambda>_. Waiting) reqs, bt_out = [], bt_calls = []\<rparr>"

definition slots :: "batch \<Rightarrow> nat" where
  "slots b = length (filter (\<lambda>p. p \<in> {Holding, Calling, Sent}) (bt_phase b))"

text \<open>The channel's capacity is the number of requests: a send waits while it is full.\<close>

inductive batch_step :: "(string \<Rightarrow> json option) \<Rightarrow> ZteRPCRequest list \<Rightarrow> batch \<Rightarrow> batch \<Rightarrow> bool" for unmarshal reqs where
  acquire: "i < length reqs \<Longrightarrow> bt_phase b ! i = Waiting \<Longrightarrow> slots b < maxConcurrent \<Longrightarrow>
    batch_step unmarshal reqs b (b\<lparr>bt_phase := (bt_phase b)[i := Holding]\<rparr>)"
| invalid: "i < length reqs \<Longrightarrow> bt_phase b ! i = Holding \<Longrightarrow> invalid_params (reqs ! i) \<Longrightarrow> length (bt_out b) < length reqs \<Longrightarrow>
    batch_step unmarshal reqs b
      (b\<lparr>bt_phase := (bt_phase b)[i := Sent], bt_out := bt_out b @ [(i, invalid_response (reqs ! i))]\<rparr>)"
| call: "i < length reqs \<Longrightarrow> bt_phase b ! i = Holding \<Longrightarrow> \<not> invalid_params (reqs ! i) \<Longrightarrow>
    batch_step unmarshal reqs b
      (b\<lparr>bt_phase := (bt_phase b)[i := Calling], bt_calls := bt_calls b @ [(i, rpc_args (reqs ! i))]\<rparr>)"
| respond: "i < length reqs \<Longrightarrow> bt_phase b ! i = Calling \<Longrightarrow> length (bt_out b) < length reqs \<Longrightarrow>
    batch_step unmarshal reqs b
      (b\<lparr>bt_phase := (bt_phase b)[i := Sent], bt_out := bt_out b @ [(i, rpc_response unmarshal (reqs ! i) costMs res)]\<rparr>)"
| release: "i < length reqs \<Longrightarrow> bt_phase b ! i = Sent \<Longrightarrow>
    batch_step unmarshal reqs b (b\<lparr>bt_phase := (bt_phase b)[i := Finished]\<rparr>)"

inductive_cases batch_stepE: "batch_step unmarshal reqs b b'"

definition all_finished :: "batch \<Rightarrow> bool" where
  "all_finished b \<longleftrightarrow> list_all (\<lambda>p. p = Finished) (bt_phase b)"

text \<open>\<^verbatim>\<open>sort.Slice\<close> is not stable: it gives some arrangement in the order of the ids.\<close>

definition Slice_by_id :: "ZteRPCResponse list \<Rightarrow> ZteRPCResponse list \<Rightarrow> bool" where
  "Slice_by_id xs ys \<longleftrightarrow> mset ys = mset xs \<and> sorted (map zr_Id ys)"

definition CallUbusBatchAsync :: "(string \<Rightarrow> json option) \<Rightarrow> ZteRPCRequest list \<Rightarrow> ZteRPCResponse list \<Rightarrow> bool" where
  "CallUbusBatchAsync unmarshal reqs results \<longleftrightarrow>
     (\<exists>b. (batch_step unmarshal reqs)\<^sup>*\<^sup>* (start_batch reqs) b \<and> all_finished b \<and> Slice_by_id (map snd (bt_out b)) results)"

datatype batch_reply = BadRequest int string | Results "ZteRPCResponse list"

definition ZteUbusBatchHandler :: "(string \<Rightarrow> json option) \<Rightarrow> ZteRPCRequest list option \<Rightarrow> batch_reply \<Rightarrow> bool" where
  "ZteUbusBatchHandler unmarshal body reply \<longleftrightarrow>
     (case body of
        None \<Rightarrow> reply = BadRequest 1 ''invalid json-rpc request''
      | Some reqs \<Rightarrow> \<exists>results. CallUbusBatchAsync unmarshal reqs results \<and> reply = Results results)"

section \<open>Invariant, progress and termination\<close>

definition answers :: "(string \<Rightarrow> json option) \<Rightarrow> ZteRPCRequest \<Rightarrow> ZteRPCResponse \<Rightarrow> bool" where
  "answers unmarshal q r \<longleftrightarrow>
     (if invalid_params q then r = invalid_response q else \<exists>costMs res. r = rpc_response unmarshal q costMs res)"

definition at_phase :: "ZteRPCRequest list \<Rightarrow> batch \<Rightarrow> phase set \<Rightarrow> nat set" where
  "at_phase reqs b P = {i. i < length reqs \<and> bt_phase b ! i \<in> P}"

definition batch_ok :: "(string \<Rightarrow> json option) \<Rightarrow> ZteRPCRequest list \<Rightarrow> batch \<Rightarrow> bool" where
  "batch_ok unmarshal reqs b \<longleftrightarrow>
     length (bt_phase b) = length reqs \<and> slots b \<le> maxConcurrent \<and>
     distinct (map fst (bt_out b)) \<and> set (map fst (bt_out b)) = at_phase reqs b {Sent, Finished} \<and>
     (\<forall>(i, r) \<in> set (bt_out b). answers unmarshal (reqs ! i) r) \<and>
     distinct (map fst (bt_calls b)) \<and>
     set (map fst (bt_calls b)) = {i \<in> at_phase reqs b {Calling, Sent, Finished}. \<not> invalid_params (reqs ! i)} \<and>
     (\<forall>(i, a) \<in> set (bt_calls b). a = rpc_args (reqs ! i)) \<and>
     (\<forall>i \<in> at_phase reqs b {Calling}. \<not> invalid_params (reqs ! i))"

lemma length_filter_update:
  "i < length xs \<Longrightarrow>
   length (filter P (xs[i := v])) + (if P (xs ! i) then 1 else 0) = length (filter P xs) + (if P v then 1 else 0)"
proof (induction xs arbitrary: i)
  case (Cons x xs)
  then show ?case by (cases i) auto
qed simp

lemma slots_update:
  assumes "i < length (bt_phase b)"
  shows "slots (b\<lparr>bt_phase := (bt_phase b)[i := v]\<rparr>) + (if bt_phase b ! i \<in> {Holding, Calling, Sent} then 1 else 0) =
    slots b + (if v \<in> {Holding, Calling, Sent} then 1 else 0)"
  using length_filter_update [OF assms, of "\<lambda>p. p \<in> {Holding, Calling, Sent}" v] by (simp add: slots_def)

lemma slots_simps [simp]: "slots (b\<lparr>bt_out := x\<rparr>) = slots b" "slots (b\<lparr>bt_calls := y\<rparr>) = slots b"
  by (simp_all add: slots_def)

lemma at_phase_update:
  assumes "i < length reqs" "length (bt_phase b) = length reqs"
  shows "at_phase reqs (b\<lparr>bt_phase := (bt_phase b)[i := v]\<rparr>) P = (if v \<in> P then insert i (at_phase reqs b P) else at_phase reqs b P - {i})"
  using assms by (auto simp: at_phase_def nth_list_update)

lemma at_phase_simps [simp]: "at_phase reqs (b\<lparr>bt_out := x\<rparr>) P = at_phase reqs b P" "at_phase reqs (b\<lparr>bt_calls := y\<rparr>) P = at_phase reqs b P"
  by (simp_all add: at_phase_def)

lemma start_batch_ok: "batch_ok unmarshal reqs (start_batch reqs)"
  by (simp add: batch_ok_def start_batch_def at_phase_def slots_def cong: conj_cong)

lemma batch_step_ok:
  assumes "batch_step unmarshal reqs b b'" "batch_ok unmarshal reqs b"
  shows "batch_ok unmarshal reqs b'"
  using assms(1)
proof cases
  case (acquire i)
  then show ?thesis using assms(2) slots_update [of i b Holding]
    by (auto simp: batch_ok_def at_phase_update) (auto simp: at_phase_def)
next
  case (invalid i)
  then show ?thesis using assms(2) slots_update [of i b Sent]
    by (auto simp: batch_ok_def at_phase_update answers_def) (auto simp: at_phase_def)
next
  case (call i)
  then show ?thesis using assms(2) slots_update [of i b Calling]
    by (auto simp: batch_ok_def at_phase_update) (auto simp: at_phase_def)
next
  case (respond i costMs res)
  then have "\<not> invalid_params (reqs ! i)" using assms(2) by (auto simp: batch_ok_def at_phase_def)
  then have "answers unmarshal (reqs ! i) (rpc_response unmarshal (reqs ! i) costMs res)" by (cases res) (auto simp: answers_def)
  then show ?thesis using respond assms(2) slots_update [of i b Sent]
    by (auto simp: batch_ok_def at_phase_update) (auto simp: at_phase_def)
next
  case (release i)
  then show ?thesis using assms(2) slots_update [of i b Finished]
    by (auto simp: batch_ok_def at_phase_update) (auto simp: at_phase_def)
qed

fun rank :: "phase \<Rightarrow> nat" where
  "rank Waiting = 4"
| "rank Holding = 3"
| "rank Calling = 2"
| "rank Sent = 1"
| "rank Finished = 0"

definition work_left :: "batch \<Rightarrow> nat" where
  "work_left b = sum_list (map rank (bt_phase b))"

lemma sum_rank_update: "i < length xs \<Longrightarrow> sum_list (map rank (xs[i := v])) + rank (xs ! i) = sum_list (map rank xs) + rank v"
proof (induction xs arbitrary: i)
  case (Cons x xs)
  then show ?case by (cases i) auto
qed simp

lemma batch_step_work:
  assumes "batch_step unmarshal reqs b b'" "batch_ok unmarshal reqs b"
  shows "work_left b' < work_left b"
proof -
  have len: "length (bt_phase b) = length reqs" using assms(2) by (simp add: batch_ok_def)
  obtain i v where "i < length reqs" "bt_phase b' = (bt_phase b)[i := v]" "rank v < rank (bt_phase b ! i)"
    using assms(1) by (cases rule: batch_step.cases) auto
  then show ?thesis using sum_rank_update [of i "bt_phase b" v] len by (simp add: work_left_def)
qed

lemma work_left_start: "work_left (start_batch reqs) = 4 * length reqs"
  by (simp add: work_left_def start_batch_def sum_list_triv o_def)

text \<open>A goroutine that has not sent finds room in the channel.\<close>

lemma channel_room:
  assumes "batch_ok unmarshal reqs b" "i < length reqs" "bt_phase b ! i \<in> {Waiting, Holding, Calling}"
  shows "length (bt_out b) < length reqs"
proof -
  let ?S = "at_phase reqs b {Sent, Finished}"
  have "length (bt_out b) = card ?S"
    using assms(1) distinct_card [of "map fst (bt_out b)"] by (simp add: batch_ok_def)
  moreover have "?S \<subseteq> {..<length reqs} - {i}" using assms(3) by (auto simp: at_phase_def)
  then have "card ?S \<le> card ({..<length reqs} - {i})" by (rule card_mono [rotated]) simp
  ultimately show ?thesis using assms(2) by simp
qed

lemma batch_progress:
  assumes "batch_ok unmarshal reqs b" "\<not> all_finished b"
  shows "\<exists>b'. batch_step unmarshal reqs b b'"
proof -
  have len: "length (bt_phase b) = length reqs" using assms(1) by (simp add: batch_ok_def)
  obtain i where i: "i < length reqs" "bt_phase b ! i \<noteq> Finished"
    using assms(2) len by (auto simp: all_finished_def list_all_length)
  have run: "\<exists>b'. batch_step unmarshal reqs b b'" if j: "j < length reqs" "bt_phase b ! j \<in> {Holding, Calling, Sent}" for j
  proof (cases "bt_phase b ! j")
    case Holding
    then show ?thesis using batch_step.invalid [of j reqs b] batch_step.call [of j reqs b] channel_room [OF assms(1) j(1)] j by fastforce
  next
    case Calling
    then show ?thesis using batch_step.respond [of j reqs b] channel_room [OF assms(1) j(1)] j by fastforce
  next
    case Sent
    then show ?thesis using batch_step.release [of j reqs b] j by blast
  qed (use j in auto)
  show ?thesis
  proof (cases "slots b < maxConcurrent")
    case True
    then show ?thesis using run [OF i(1)] batch_step.acquire [of i reqs b] i by (cases "bt_phase b ! i") auto
  next
    case False
    then have "filter (\<lambda>p. p \<in> {Holding, Calling, Sent}) (bt_phase b) \<noteq> []" by (auto simp: slots_def maxConcurrent_def)
    then obtain p where "p \<in> set (bt_phase b)" "p \<in> {Holding, Calling, Sent}" by (auto simp: filter_empty_conv)
    then show ?thesis using run len by (metis in_set_conv_nth)
  qed
qed

lemma batch_reachable_ok: "(batch_step unmarshal reqs)\<^sup>*\<^sup>* (start_batch reqs) b \<Longrightarrow> batch_ok unmarshal reqs b"
  by (induction rule: rtranclp_induct) (auto intro: start_batch_ok batch_step_ok)

lemma batch_run_bound:
  "((batch_step unmarshal reqs) ^^ n) (start_batch reqs) b \<Longrightarrow> n + work_left b \<le> 4 * length reqs"
proof (induction n arbitrary: b)
  case (Suc n)
  then obtain c where c: "((batch_step unmarshal reqs) ^^ n) (start_batch reqs) c" "batch_step unmarshal reqs c b" by auto
  then have "batch_ok unmarshal reqs c" using batch_reachable_ok relpowp_imp_rtranclp by metis
  then show ?case using Suc.IH [OF c(1)] batch_step_work [OF c(2)] by simp
qed (simp add: work_left_start)

lemma mset_indices:
  assumes "distinct ks" "set ks = {i. i < n \<and> P i}"
  shows "mset ks = mset (filter P [0..<n])"
  by (rule iffD1 [OF set_eq_iff_mset_eq_distinct]) (use assms in auto)

lemma snd_by_key: "distinct (map fst xs) \<Longrightarrow> map snd xs = map (\<lambda>i. the (map_of xs i)) (map fst xs)"
  by (auto simp: map_of_eq_Some_iff [THEN iffD2])

lemma finished_answers:
  assumes "batch_ok unmarshal reqs b" "all_finished b"
  shows "\<exists>ans. list_all2 (answers unmarshal) reqs ans \<and> mset (map snd (bt_out b)) = mset ans"
proof -
  let ?ans = "\<lambda>i. the (map_of (bt_out b) i)"
  have fin: "at_phase reqs b {Sent, Finished} = {i. i < length reqs \<and> True}"
    using assms by (auto simp: at_phase_def all_finished_def batch_ok_def list_all_length)
  have d: "distinct (map fst (bt_out b))" using assms(1) by (simp add: batch_ok_def)
  have "mset (map fst (bt_out b)) = mset [0..<length reqs]"
    using mset_indices [of "map fst (bt_out b)" "length reqs" "\<lambda>_. True"] assms(1) fin by (simp add: batch_ok_def)
  then have "mset (map snd (bt_out b)) = mset (map ?ans [0..<length reqs])"
    unfolding snd_by_key [OF d] by (simp only: mset_map)
  moreover have "list_all2 (answers unmarshal) reqs (map ?ans [0..<length reqs])"
  proof (rule list_all2_all_nthI)
    fix i assume i: "i < length reqs"
    have "set (map fst (bt_out b)) = {i. i < length reqs \<and> True}" using assms(1) fin by (simp add: batch_ok_def)
    then have "i \<in> fst ` set (bt_out b)" using i by auto
    then obtain r where r: "(i, r) \<in> set (bt_out b)" by auto
    then have "?ans i = r" using map_of_is_SomeI [OF d r] by simp
    then show "answers unmarshal (reqs ! i) (map ?ans [0..<length reqs] ! i)"
      using assms(1) r i by (auto simp: batch_ok_def)
  qed simp
  ultimately show ?thesis by blast
qed

lemma finished_calls:
  assumes "batch_ok unmarshal reqs b" "all_finished b"
  shows "mset (map snd (bt_calls b)) = mset (map rpc_args (filter (\<lambda>q. \<not> invalid_params q) reqs))"
proof -
  let ?P = "\<lambda>i. \<not> invalid_params (reqs ! i)"
  have "{i \<in> at_phase reqs b {Calling, Sent, Finished}. ?P i} = {i. i < length reqs \<and> ?P i}"
    using assms by (auto simp: at_phase_def all_finished_def batch_ok_def list_all_length)
  then have "mset (map fst (bt_calls b)) = mset (filter ?P [0..<length reqs])"
    using mset_indices [of "map fst (bt_calls b)" "length reqs" ?P] assms(1) by (simp add: batch_ok_def)
  moreover have "map snd (bt_calls b) = map (\<lambda>i. rpc_args (reqs ! i)) (map fst (bt_calls b))"
    using assms(1) by (auto simp: batch_ok_def)
  ultimately have "mset (map snd (bt_calls b)) = mset (map (\<lambda>i. rpc_args (reqs ! i)) (filter ?P [0..<length reqs]))"
    by (simp only: mset_map)
  moreover have "filter (\<lambda>q. \<not> invalid_params q) reqs = map (\<lambda>i. reqs ! i) (filter ?P [0..<length reqs])"
    using filter_map [of "\<lambda>q. \<not> invalid_params q" "\<lambda>i. reqs ! i" "[0..<length reqs]"] by (simp add: map_nth o_def)
  ultimately show ?thesis by (simp add: o_def)
qed

text \<open>C19: a batch never has more than twelve commands under way, its sends never wait, and it ends: in every reachable state either
  all goroutines have returned or one can go on, and no run has more than four steps for each request.  When it has ended, whatever
  the order in which the goroutines ran, the commands run are exactly those of the requests with four parameters or more, each once, and the
  answer, however the unstable sort arranges equal ids, is in the order of the ids and holds exactly one response for every request, the
  error for a request with too few parameters and else the result of its own command.\<close>

theorem batch_answers:
  "(\<forall>b. (batch_step unmarshal reqs)\<^sup>*\<^sup>* (start_batch reqs) b \<longrightarrow>
      slots b \<le> 12 \<and> (all_finished b \<or> (\<exists>b'. batch_step unmarshal reqs b b')) \<and>
      (\<forall>i < length reqs. bt_phase b ! i \<in> {Holding, Calling} \<longrightarrow> length (bt_out b) < length reqs)) \<and>
   (\<forall>n b. ((batch_step unmarshal reqs) ^^ n) (start_batch reqs) b \<longrightarrow> n \<le> 4 * length reqs) \<and>
   (\<forall>b results. (batch_step unmarshal reqs)\<^sup>*\<^sup>* (start_batch reqs) b \<and> all_finished b \<and> Slice_by_id (map snd (bt_out b)) results \<longrightarrow>
      mset (map snd (bt_calls b)) = mset (map rpc_args (filter (\<lambda>q. \<not> invalid_params q) reqs)) \<and>
      sorted (map zr_Id results) \<and> (\<exists>ans. list_all2 (answers unmarshal) reqs ans \<and> mset results = mset ans))"
proof (intro conjI allI impI)
  fix b assume "(batch_step unmarshal reqs)\<^sup>*\<^sup>* (start_batch reqs) b"
  then have ok: "batch_ok unmarshal reqs b" by (rule batch_reachable_ok)
  show "slots b \<le> 12" using ok by (simp add: batch_ok_def maxConcurrent_def)
  show "all_finished b \<or> (\<exists>b'. batch_step unmarshal reqs b b')" using batch_progress [OF ok] by blast
  show "length (bt_out b) < length reqs" if "i < length reqs" "bt_phase b ! i \<in> {Holding, Calling}" for i
    using channel_room [OF ok that(1)] that(2) by auto
next
  fix n b assume "((batch_step unmarshal reqs) ^^ n) (start_batch reqs) b"
  then show "n \<le> 4 * length reqs" using batch_run_bound by fastforce
next
  fix b results
  assume "(batch_step unmarshal reqs)\<^sup>*\<^sup>* (start_batch reqs) b \<and> all_finished b \<and> Slice_by_id (map snd (bt_out b)) results"
  then have ok: "batch_ok unmarshal reqs b" "all_finished b" "Slice_by_id (map snd (bt_out b)) results"
    using batch_reachable_ok by blast+
  show "mset (map snd (bt_calls b)) = mset (map rpc_args (filter (\<lambda>q. \<not> invalid_params q) reqs))" by (rule finished_calls [OF ok(1,2)])
  show "sorted (map zr_Id results)" using ok(3) by (simp add: Slice_by_id_def)
  show "\<exists>ans. list_all2 (answers unmarshal) reqs ans \<and> mset results = mset ans"
    using finished_answers [OF ok(1,2)] ok(3) by (simp add: Slice_by_id_def)
qed

definition sample_rpc :: ZteRPCRequest where
  "sample_rpc = \<lparr>zq_Id = 4, zq_Params = [JsStr ''session'']\<rparr>"

theorem batch_answers_witness:
  "\<exists>ans. list_all2 (answers (\<lambda>_. None)) [sample_rpc] ans \<and> mset [invalid_response sample_rpc] = mset ans"
proof -
  let ?step = "batch_step (\<lambda>_. None) [sample_rpc]" and ?r = "[(0, invalid_response sample_rpc)]"
  have bad: "invalid_params sample_rpc" by (simp add: invalid_params_def sample_rpc_def)
  have "?step (start_batch [sample_rpc]) \<lparr>bt_phase = [Holding], bt_out = [], bt_calls = []\<rparr>"
    using batch_step.acquire [of 0 "[sample_rpc]" "start_batch [sample_rpc]" "\<lambda>_. None"]
    by (simp add: start_batch_def slots_def maxConcurrent_def)
  moreover have "?step \<lparr>bt_phase = [Holding], bt_out = [], bt_calls = []\<rparr> \<lparr>bt_phase = [Sent], bt_out = ?r, bt_calls = []\<rparr>"
    using batch_step.invalid [of 0 "[sample_rpc]" "\<lparr>bt_phase = [Holding], bt_out = [], bt_calls = []\<rparr>" "\<lambda>_. None"] bad by simp
  moreover have "?step \<lparr>bt_phase = [Sent], bt_out = ?r, bt_calls = []\<rparr> \<lparr>bt_phase = [Finished], bt_out = ?r, bt_calls = []\<rparr>"
    using batch_step.release [of 0 "[sample_rpc]" "\<lparr>bt_phase = [Sent], bt_out = ?r, bt_calls = []\<rparr>" "\<lambda>_. None"] by simp
  ultimately have "?step\<^sup>*\<^sup>* (start_batch [sample_rpc]) \<lparr>bt_phase = [Finished], bt_out = ?r, bt_calls = []\<rparr>"
    by (meson converse_rtranclp_into_rtranclp rtranclp.rtrancl_refl)
  moreover have "all_finished \<lparr>bt_phase = [Finished], bt_out = ?r, bt_calls = []\<rparr>"
    "Slice_by_id (map snd (bt_out \<lparr>bt_phase = [Finished], bt_out = ?r, bt_calls = []\<rparr>)) [invalid_response sample_rpc]"
    by (simp_all add: all_finished_def Slice_by_id_def)
  ultimately show ?thesis using batch_answers [of "\<lambda>_. None" "[sample_rpc]"] by blast
qed

end
