(* ===== verification/Web_Network.thy ===== *)
theory Web_Network
  imports Web_Ubus
begin

text \<open>
  The network settings of the web service (\<^verbatim>\<open>gossh/app/service/network_settings.go\<close>): network mode, band and cell locks, the WiFi
  attributes and the settings stored for each user.  A request's body is \<open>None\<close> when binding it failed.  The handlers act
  on the device through \<^verbatim>\<open>GetDataFromUbus\<close>, whose calls are recorded, and on the table of user settings
  (\<^verbatim>\<open>gossh/app/model/user_setting.go\<close>).
\<close>

section \<open>Tables and settings\<close>

definition validNetSelect :: "string list" where
  "validNetSelect = [''WL_AND_5G'', ''Only_5G'', ''LTE_AND_5G'', ''WCDMA_AND_LTE'', ''Only_LTE'', ''Only_WCDMA'']"

definition allowed4GBands :: "int list" where
  "allowed4GBands = [1, 2, 3, 4, 5, 7, 8, 18, 19, 20, 26, 28, 29, 32, 34, 38, 39, 40, 41, 42, 43, 48, 66, 71]"

definition allowed5GBands :: "int list" where
  "allowed5GBands = [1, 2, 3, 5, 7, 8, 18, 20, 26, 28, 29, 38, 40, 41, 48, 66, 71, 75, 77, 78, 79]"

record PersistedDeviceSettings =
  ps_Wifi24Enabled :: "bool option"
  ps_Wifi5Enabled :: "bool option"
  ps_WifiTxPower :: string
  ps_Wifi24TxPower :: string
  ps_Wifi5TxPower :: string
  ps_WifiCountry :: string
  ps_Wifi24Country :: string
  ps_Wifi5Country :: string
  ps_WifiPerformance :: string

definition zero_settings :: PersistedDeviceSettings where
  "zero_settings = \<lparr>ps_Wifi24Enabled = None, ps_Wifi5Enabled = None, ps_WifiTxPower = [], ps_Wifi24TxPower = [], ps_Wifi5TxPower = [],
     ps_WifiCountry = [], ps_Wifi24Country = [], ps_Wifi5Country = [], ps_WifiPerformance = []\<rparr>"

datatype net_reply = Reply int string | ReplyData int string json | ReplySettings int string PersistedDeviceSettings

section \<open>Checks\<close>

fun lte_loop :: "int list \<Rightarrow> int set \<Rightarrow> nat \<Rightarrow> string + nat" where
  "lte_loop [] seen acc = Inr acc"
| "lte_loop (band # bands) seen acc =
     (if band \<notin> set allowed4GBands then Inl (utf8 [0xe4, 0xb8, 0x8d, 0xe6, 0x94, 0xaf, 0xe6, 0x8c, 0x81, 0xe7, 0x9a, 0x84] @ '' 4G '' @ utf8 [0xe9, 0xa2, 0x91, 0xe6, 0xae, 0xb5] @ '': B'' @ Itoa band)
      else if band \<in> seen then lte_loop bands seen acc
      else lte_loop bands (insert band seen) (acc OR push_bit (nat (band - 1)) 1))"

definition lteBandMask :: "int list \<Rightarrow> string + string" where
  "lteBandMask bands = (case lte_loop bands {} 0 of Inl e \<Rightarrow> Inl e | Inr acc \<Rightarrow> Inr (utoa acc))"

fun nr_loop :: "int list \<Rightarrow> int set \<Rightarrow> string list \<Rightarrow> string + string list" where
  "nr_loop [] seen parts = Inr parts"
| "nr_loop (band # bands) seen parts =
     (if band \<notin> set allowed5GBands then Inl (utf8 [0xe4, 0xb8, 0x8d, 0xe6, 0x94, 0xaf, 0xe6, 0x8c, 0x81, 0xe7, 0x9a, 0x84] @ '' 5G '' @ utf8 [0xe9, 0xa2, 0x91, 0xe6, 0xae, 0xb5] @ '': N'' @ Itoa band)
      else if band \<in> seen then nr_loop bands seen parts
      else nr_loop bands (insert band seen) (parts @ [Itoa band]))"

definition nrBandString :: "int list \<Rightarrow> string + string" where
  "nrBandString bands = (case nr_loop bands {} [] of Inl e \<Rightarrow> Inl e | Inr parts \<Rightarrow> Inr (Join parts '',''))"

definition valid_power :: "string \<Rightarrow> bool" where
  "valid_power v \<longleftrightarrow> (case Atoi v of None \<Rightarrow> False | Some n \<Rightarrow> n = 40 \<or> n = 80 \<or> n = 100)"

text \<open>The pattern \<^verbatim>\<open>^[A-Za-z]{2}$\<close>.\<close>

definition valid_country :: "string \<Rightarrow> bool" where
  "valid_country v \<longleftrightarrow> length v = 2 \<and> list_all (\<lambda>c. is_upper c \<or> is_lower c) v"

definition power_message :: string where
  "power_message = ''WiFi '' @ utf8 [0xe5, 0x8f, 0x91, 0xe5, 0xb0, 0x84, 0xe5, 0x8a, 0x9f, 0xe7, 0x8e, 0x87, 0xe5, 0x8f, 0xaa, 0xe8, 0x83, 0xbd, 0xe6, 0x98, 0xaf] @ '' 40'' @ utf8 [0xe3, 0x80, 0x81] @ ''80'' @ utf8 [0xe3, 0x80, 0x81] @ ''100''"

definition country_message :: string where
  "country_message = ''WiFi '' @ utf8 [0xe5, 0x9b, 0xbd, 0xe5, 0xae, 0xb6, 0xe7, 0xa0, 0x81, 0xe5, 0xbf, 0x85, 0xe9, 0xa1, 0xbb, 0xe6, 0x98, 0xaf] @ '' 2 '' @ utf8 [0xe4, 0xbd, 0x8d, 0xe5, 0xad, 0x97, 0xe6, 0xaf, 0x8d]"

text \<open>The argument is the map in the order its iteration visits the keys.\<close>

fun sanitize_loop :: "(string \<times> string) list \<Rightarrow> (string \<times> json) list \<Rightarrow> string + (string \<times> json) list" where
  "sanitize_loop [] out = Inr out"
| "sanitize_loop ((key, value) # attrs) out =
     (let value = TrimSpace value in
      if value = [] then sanitize_loop attrs out
      else if key = ''txpowerpercent''
      then (if valid_power value then sanitize_loop attrs (out @ [(key, JsStr value)]) else Inl power_message)
      else if key = ''country''
      then (if valid_country value then sanitize_loop attrs (out @ [(key, JsStr (ToUpper value))]) else Inl country_message)
      else Inl (utf8 [0xe4, 0xb8, 0x8d, 0xe6, 0x94, 0xaf, 0xe6, 0x8c, 0x81, 0xe7, 0x9a, 0x84] @ '' WiFi '' @ utf8 [0xe8, 0xae, 0xbe, 0xe7, 0xbd, 0xae, 0xe9, 0xa1, 0xb9] @ '': '' @ key))"

definition sanitizeWifiAttrs :: "(string \<times> string) list \<Rightarrow> string + (string \<times> json) list" where
  "sanitizeWifiAttrs attrs = sanitize_loop attrs []"

definition validatePersistedSettings :: "PersistedDeviceSettings \<Rightarrow> string option" where
  "validatePersistedSettings s =
     (if list_ex (\<lambda>v. v \<noteq> [] \<and> \<not> valid_power v) [ps_WifiTxPower s, ps_Wifi24TxPower s, ps_Wifi5TxPower s] then Some power_message
      else if list_ex (\<lambda>v. v \<noteq> [] \<and> \<not> valid_country v) [ps_WifiCountry s, ps_Wifi24Country s, ps_Wifi5Country s] then Some country_message
      else if ps_WifiPerformance s \<noteq> [] \<and> ps_WifiPerformance s \<noteq> ''high'' \<and> ps_WifiPerformance s \<noteq> ''power_save''
      then Some (''WiFi '' @ utf8 [0xe6, 0x80, 0xa7, 0xe8, 0x83, 0xbd, 0xe6, 0xa8, 0xa1, 0xe5, 0xbc, 0x8f, 0xe4, 0xb8, 0x8d, 0xe5, 0x90, 0x88, 0xe6, 0xb3, 0x95])
      else None)"

definition isNumericOrZero :: "string \<Rightarrow> bool" where
  "isNumericOrZero v = (let v = TrimSpace v in v \<noteq> [] \<and> Atoi v \<noteq> None)"

section \<open>Handlers on the device\<close>

definition writeUbusResult :: "string + json \<Rightarrow> net_reply" where
  "writeUbusResult r = (case r of Inl e \<Rightarrow> Reply 1 e | Inr data \<Rightarrow> ReplyData 0 ''ok'' data)"

definition ubus_reply :: "'d ubus \<Rightarrow> string \<Rightarrow> string \<Rightarrow> (string \<times> json) list \<Rightarrow> 'd ubus_state \<Rightarrow> net_reply \<times> 'd ubus_state" where
  "ubus_reply U service method params s =
     (let (r, s) = GetDataFromUbus U service method (Some params) s in (writeUbusResult r, s))"

definition NetworkModeSetHandler :: "'d ubus \<Rightarrow> string option \<Rightarrow> 'd ubus_state \<Rightarrow> net_reply \<times> 'd ubus_state" where
  "NetworkModeSetHandler U body s =
     (case body of
        Some sel \<Rightarrow>
          if sel \<in> set validNetSelect
          then ubus_reply U ''zte_nwinfo_api'' ''nwinfo_set_netselect'' [(''net_select'', JsStr sel)] s
          else (Reply 1 (utf8 [0xe7, 0xbd, 0x91, 0xe7, 0xbb, 0x9c, 0xe6, 0xa8, 0xa1, 0xe5, 0xbc, 0x8f, 0xe4, 0xb8, 0x8d, 0xe5, 0x90, 0x88, 0xe6, 0xb3, 0x95]), s)
      | None \<Rightarrow> (Reply 1 (utf8 [0xe7, 0xbd, 0x91, 0xe7, 0xbb, 0x9c, 0xe6, 0xa8, 0xa1, 0xe5, 0xbc, 0x8f, 0xe4, 0xb8, 0x8d, 0xe5, 0x90, 0x88, 0xe6, 0xb3, 0x95]), s))"

definition NetworkLTEBandLockHandler :: "'d ubus \<Rightarrow> int list option \<Rightarrow> 'd ubus_state \<Rightarrow> net_reply \<times> 'd ubus_state" where
  "NetworkLTEBandLockHandler U body s =
     (case body of
        None \<Rightarrow> (Reply 1 (utf8 [0xe8, 0xbe, 0x93, 0xe5, 0x85, 0xa5, 0xe6, 0x95, 0xb0, 0xe6, 0x8d, 0xae, 0xe4, 0xb8, 0x8d, 0xe5, 0x90, 0x88, 0xe6, 0xb3, 0x95]), s)
      | Some bands \<Rightarrow>
          (case lteBandMask bands of
             Inl e \<Rightarrow> (Reply 2 e, s)
           | Inr text \<Rightarrow>
               ubus_reply U ''zte_nwinfo_api'' ''nwinfo_set_gwl_bandlock''
                 [(''is_gw_band'', JsStr ''0''), (''gw_band_mask'', JsStr ''0''), (''is_lte_band'', JsStr ''1''), (''lte_band_mask'', JsStr text)] s))"

definition NetworkNRBandLockHandler :: "'d ubus \<Rightarrow> int list option \<Rightarrow> 'd ubus_state \<Rightarrow> net_reply \<times> 'd ubus_state" where
  "NetworkNRBandLockHandler U body s =
     (case body of
        None \<Rightarrow> (Reply 1 (utf8 [0xe8, 0xbe, 0x93, 0xe5, 0x85, 0xa5, 0xe6, 0x95, 0xb0, 0xe6, 0x8d, 0xae, 0xe4, 0xb8, 0x8d, 0xe5, 0x90, 0x88, 0xe6, 0xb3, 0x95]), s)
      | Some bands \<Rightarrow>
          (case nrBandString bands of
             Inl e \<Rightarrow> (Reply 2 e, s)
           | Inr text \<Rightarrow> ubus_reply U ''zte_nwinfo_api'' ''nwinfo_set_nrbandlock'' [(''nr5g_type'', JsStr ''SA''), (''nr5g_band'', JsStr text)] s))"

definition NetworkLTECellLockHandler :: "'d ubus \<Rightarrow> (string \<times> string) option \<Rightarrow> 'd ubus_state \<Rightarrow> net_reply \<times> 'd ubus_state" where
  "NetworkLTECellLockHandler U body s =
     (let bad = (Reply 1 (''4G '' @ utf8 [0xe5, 0xb0, 0x8f, 0xe5, 0x8c, 0xba, 0xe5, 0x8f, 0x82, 0xe6, 0x95, 0xb0, 0xe4, 0xb8, 0x8d, 0xe5, 0x90, 0x88, 0xe6, 0xb3, 0x95]), s) in
      case body of
        None \<Rightarrow> bad
      | Some (pci, earfcn) \<Rightarrow>
          if \<not> isNumericOrZero pci \<or> \<not> isNumericOrZero earfcn then bad
          else ubus_reply U ''zte_nwinfo_api'' ''nwinfo_lock_lte_cell'' [(''lock_lte_pci'', JsStr pci), (''lock_lte_earfcn'', JsStr earfcn)] s)"

definition NetworkNRCellLockHandler :: "'d ubus \<Rightarrow> (string \<times> string \<times> string) option \<Rightarrow> 'd ubus_state \<Rightarrow> net_reply \<times> 'd ubus_state" where
  "NetworkNRCellLockHandler U body s =
     (let bad = (Reply 1 (''5G '' @ utf8 [0xe5, 0xb0, 0x8f, 0xe5, 0x8c, 0xba, 0xe5, 0x8f, 0x82, 0xe6, 0x95, 0xb0, 0xe4, 0xb8, 0x8d, 0xe5, 0x90, 0x88, 0xe6, 0xb3, 0x95]), s) in
      case body of
        None \<Rightarrow> bad
      | Some (pci, earfcn, band) \<Rightarrow>
          if \<not> isNumericOrZero pci \<or> \<not> isNumericOrZero earfcn \<or> \<not> isNumericOrZero band then bad
          else ubus_reply U ''zte_nwinfo_api'' ''nwinfo_lock_nr_cell''
            [(''lock_nr_pci'', JsStr pci), (''lock_nr_earfcn'', JsStr earfcn), (''lock_nr_cell_band'', JsStr band)] s)"

definition error_value :: "string + json \<Rightarrow> string" where
  "error_value r = (case r of Inl e \<Rightarrow> e | Inr _ \<Rightarrow> ''<nil>'')"

definition WifiUciGetHandler :: "'d ubus \<Rightarrow> 'd ubus_state \<Rightarrow> net_reply \<times> 'd ubus_state" where
  "WifiUciGetHandler U s =
     (let (r0, s) = GetDataFromUbus U ''uci'' ''get'' (Some [(''config'', JsStr ''wireless''), (''section'', JsStr ''wifi0'')]) s;
          (r1, s) = GetDataFromUbus U ''uci'' ''get'' (Some [(''config'', JsStr ''wireless''), (''section'', JsStr ''wifi1'')]) s
      in (case (r0, r1) of
            (Inr d0, Inr d1) \<Rightarrow> ReplyData 0 ''ok'' (JsObj [(''wifi0'', d0), (''wifi1'', d1)])
          | _ \<Rightarrow> Reply 1 (utf8 [0xe8, 0xaf, 0xbb, 0xe5, 0x8f, 0x96] @ '' WiFi '' @ utf8 [0xe9, 0x85, 0x8d, 0xe7, 0xbd, 0xae, 0xe5, 0xa4, 0xb1, 0xe8, 0xb4, 0xa5] @ '': '' @ error_value r0 @ '' '' @ error_value r1), s))"

definition wifi_params :: "string \<Rightarrow> (string \<times> string) list \<Rightarrow> string + (string \<times> json) list" where
  "wifi_params name attrs =
     (if attrs = [] then Inr []
      else case sanitizeWifiAttrs attrs of Inl e \<Rightarrow> Inl e | Inr v \<Rightarrow> Inr [(name, JsObj v)])"

definition WifiSettingsSetHandler :: "'d ubus \<Rightarrow> ((string \<times> string) list \<times> (string \<times> string) list) option \<Rightarrow> 'd ubus_state \<Rightarrow> net_reply \<times> 'd ubus_state" where
  "WifiSettingsSetHandler U body s =
     (case body of
        None \<Rightarrow> (Reply 1 (utf8 [0xe8, 0xbe, 0x93, 0xe5, 0x85, 0xa5, 0xe6, 0x95, 0xb0, 0xe6, 0x8d, 0xae, 0xe4, 0xb8, 0x8d, 0xe5, 0x90, 0x88, 0xe6, 0xb3, 0x95]), s)
      | Some (wifi0, wifi1) \<Rightarrow>
          (case wifi_params ''wifi0'' wifi0 of
             Inl e \<Rightarrow> (Reply 2 e, s)
           | Inr p0 \<Rightarrow>
               (case wifi_params ''wifi1'' wifi1 of
                  Inl e \<Rightarrow> (Reply 2 e, s)
                | Inr p1 \<Rightarrow>
                    if p0 @ p1 = [] then (Reply 1 (utf8 [0xe6, 0xb2, 0xa1, 0xe6, 0x9c, 0x89, 0xe5, 0x8f, 0xaf, 0xe5, 0xba, 0x94, 0xe7, 0x94, 0xa8, 0xe7, 0x9a, 0x84] @ '' WiFi '' @ utf8 [0xe8, 0xae, 0xbe, 0xe7, 0xbd, 0xae]), s)
                    else ubus_reply U ''zwrt_wlan'' ''set'' (p0 @ p1) s)))"

section \<open>Handlers on the stored settings\<close>

text \<open>The table of settings by user, whether its queries and writes work, and the codec of the settings.\<close>

record settings_env =
  se_query :: bool
  se_write :: bool
  se_marshal :: "PersistedDeviceSettings \<Rightarrow> string"
  se_unmarshal :: "string \<Rightarrow> PersistedDeviceSettings option"

definition FindByUid :: "settings_env \<Rightarrow> nat \<Rightarrow> (nat \<rightharpoonup> string) \<Rightarrow> string option" where
  "FindByUid E uid db = (if se_query E then db uid else None)"

text \<open>A row that was not found, also because the query failed, is created, and the index on the user's id is unique.\<close>

definition SaveForUid :: "settings_env \<Rightarrow> nat \<Rightarrow> string \<Rightarrow> (nat \<rightharpoonup> string) \<Rightarrow> bool \<times> (nat \<rightharpoonup> string)" where
  "SaveForUid E uid v db =
     (if FindByUid E uid db \<noteq> None
      then (if se_write E then (True, db(uid \<mapsto> v)) else (False, db))
      else if se_write E \<and> db uid = None then (True, db(uid \<mapsto> v)) else (False, db))"

definition DeviceSettingsGetHandler :: "settings_env \<Rightarrow> nat \<Rightarrow> (nat \<rightharpoonup> string) \<Rightarrow> net_reply" where
  "DeviceSettingsGetHandler E uid db =
     (case FindByUid E uid db of
        None \<Rightarrow> ReplySettings 0 ''ok'' zero_settings
      | Some v \<Rightarrow>
          if TrimSpace v = [] then ReplySettings 0 ''ok'' zero_settings
          else case se_unmarshal E v of
            None \<Rightarrow> Reply 1 (utf8 [0xe8, 0xaf, 0xbb, 0xe5, 0x8f, 0x96, 0xe7, 0x94, 0xa8, 0xe6, 0x88, 0xb7, 0xe8, 0xae, 0xbe, 0xe7, 0xbd, 0xae, 0xe5, 0xa4, 0xb1, 0xe8, 0xb4, 0xa5])
          | Some data \<Rightarrow> ReplySettings 0 ''ok'' data)"

definition DeviceSettingsSaveHandler :: "settings_env \<Rightarrow> nat \<Rightarrow> PersistedDeviceSettings option \<Rightarrow> (nat \<rightharpoonup> string) \<Rightarrow> net_reply \<times> (nat \<rightharpoonup> string)" where
  "DeviceSettingsSaveHandler E uid body db =
     (case body of
        None \<Rightarrow> (Reply 1 (utf8 [0xe8, 0xbe, 0x93, 0xe5, 0x85, 0xa5, 0xe6, 0x95, 0xb0, 0xe6, 0x8d, 0xae, 0xe4, 0xb8, 0x8d, 0xe5, 0x90, 0x88, 0xe6, 0xb3, 0x95]), db)
      | Some req \<Rightarrow>
          (case validatePersistedSettings req of
             Some e \<Rightarrow> (Reply 2 e, db)
           | None \<Rightarrow>
               (case SaveForUid E uid (se_marshal E req) db of
                  (False, db) \<Rightarrow> (Reply 4 (utf8 [0xe4, 0xbf, 0x9d, 0xe5, 0xad, 0x98, 0xe7, 0x94, 0xa8, 0xe6, 0x88, 0xb7, 0xe8, 0xae, 0xbe, 0xe7, 0xbd, 0xae, 0xe5, 0xa4, 0xb1, 0xe8, 0xb4, 0xa5]), db)
                | (True, db) \<Rightarrow> (ReplySettings 0 (utf8 [0xe5, 0xb7, 0xb2, 0xe4, 0xbf, 0x9d, 0xe5, 0xad, 0x98]) req, db))))"

lemma ubus_reply_calls: "us_calls (snd (ubus_reply U service method params s)) = us_calls s @ [ubus_args service method (Some params)]"
  using GetDataFromUbus_calls [of U service "method" "Some params" s] by (auto simp: ubus_reply_def split: prod.splits)

section \<open>The contract of the device handlers\<close>

text \<open>The handlers that act on the device share a contract: a body that does not bind is refused, and a request makes at most one
  call.  So what was called before stays on record, and a sequence of requests makes no more calls than it has requests.\<close>

locale device_handler =
  fixes handle :: "'req option \<Rightarrow> 'd ubus_state \<Rightarrow> net_reply \<times> 'd ubus_state"
  assumes refuses_unbound: "\<exists>m. handle None s = (Reply 1 m, s)"
    and one_call: "us_calls (snd (handle body s)) = us_calls s \<or> (\<exists>c. us_calls (snd (handle body s)) = us_calls s @ [c])"
begin

lemma calls_kept: "prefix (us_calls s) (us_calls (snd (handle body s)))"
  using one_call [of body s] by auto

lemma calls_bounded: "length (us_calls (fold (\<lambda>body s. snd (handle body s)) bodies s)) \<le> length (us_calls s) + length bodies"
proof (induction bodies arbitrary: s)
  case (Cons body bodies)
  have "length (us_calls (snd (handle body s))) \<le> Suc (length (us_calls s))" using one_call [of body s] by auto
  then show ?case using Cons [of "snd (handle body s)"] by simp
qed simp

lemma unbound_silent: "us_calls (snd (handle None s)) = us_calls s"
  using refuses_unbound [of s] by auto

end

interpretation mode_handler: device_handler "NetworkModeSetHandler U" for U :: "'d ubus"
  by unfold_locales (auto simp: NetworkModeSetHandler_def ubus_reply_calls split: option.splits)

interpretation lte_lock_handler: device_handler "NetworkLTEBandLockHandler U" for U :: "'d ubus"
  by unfold_locales (auto simp: NetworkLTEBandLockHandler_def ubus_reply_calls split: option.splits sum.splits)

interpretation nr_lock_handler: device_handler "NetworkNRBandLockHandler U" for U :: "'d ubus"
  by unfold_locales (auto simp: NetworkNRBandLockHandler_def ubus_reply_calls split: option.splits sum.splits)

interpretation lte_cell_handler: device_handler "NetworkLTECellLockHandler U" for U :: "'d ubus"
  by unfold_locales (auto simp: NetworkLTECellLockHandler_def ubus_reply_calls Let_def split: option.splits)

interpretation nr_cell_handler: device_handler "NetworkNRCellLockHandler U" for U :: "'d ubus"
  by unfold_locales (auto simp: NetworkNRCellLockHandler_def ubus_reply_calls Let_def split: option.splits)

interpretation wifi_handler: device_handler "WifiSettingsSetHandler U" for U :: "'d ubus"
  by unfold_locales (auto simp: WifiSettingsSetHandler_def ubus_reply_calls split: option.splits sum.splits)

section \<open>Band locks\<close>

lemma allowed4G_positive: "b \<in> set allowed4GBands \<Longrightarrow> 1 \<le> b"
  by (auto simp: allowed4GBands_def)

lemma lte_loop_ok: "set bands \<subseteq> set allowed4GBands \<Longrightarrow> \<exists>m. lte_loop bands seen acc = Inr m"
  by (induction bands seen acc rule: lte_loop.induct) auto

lemma lte_loop_bad:
  "\<not> set bands \<subseteq> set allowed4GBands \<Longrightarrow> \<exists>e. lte_loop bands seen acc = Inl e"
  by (induction bands seen acc rule: lte_loop.induct) auto

lemma lte_loop_bits:
  assumes "lte_loop bands seen acc = Inr m" "\<forall>b \<in> seen. bit acc (nat (b - 1))"
  shows "bit m i \<longleftrightarrow> bit acc i \<or> (\<exists>b \<in> set bands. nat (b - 1) = i)"
  using assms
proof (induction bands seen acc rule: lte_loop.induct)
  case (2 band bands seen acc)
  then show ?case
  proof (cases "band \<in> seen")
    case False
    have "bit (acc OR push_bit (nat (band - 1)) 1) j \<longleftrightarrow> bit acc j \<or> j = nat (band - 1)" for j
      by (auto simp: bit_or_iff bit_push_bit_iff bit_1_iff bit_exp_iff)
    then show ?thesis using 2 False by (auto split: if_splits)
  qed (auto split: if_splits)
qed simp

lemma lteBandMask_exact:
  assumes "set bands \<subseteq> set allowed4GBands"
  shows "\<exists>m. lteBandMask bands = Inr (utoa m) \<and> (\<forall>i. bit m i \<longleftrightarrow> int i + 1 \<in> set bands)"
proof -
  obtain m where m: "lte_loop bands {} 0 = Inr m" using lte_loop_ok [OF assms] by blast
  have "bit m i \<longleftrightarrow> int i + 1 \<in> set bands" for i
  proof -
    have "(\<exists>b \<in> set bands. nat (b - 1) = i) \<longleftrightarrow> int i + 1 \<in> set bands"
    proof
      assume "\<exists>b \<in> set bands. nat (b - 1) = i"
      then obtain b where b: "b \<in> set bands" "nat (b - 1) = i" by blast
      then have "1 \<le> b" using assms allowed4G_positive by auto
      then have "b = int i + 1" using b(2) by linarith
      then show "int i + 1 \<in> set bands" using b(1) by simp
    qed force
    then show ?thesis using lte_loop_bits [OF m] by simp
  qed
  then show ?thesis using m by (auto simp: lteBandMask_def)
qed

lemma nr_loop_bad: "\<not> set bands \<subseteq> set allowed5GBands \<Longrightarrow> \<exists>e. nr_loop bands seen parts = Inl e"
  by (induction bands seen parts rule: nr_loop.induct) auto

lemma remdups_snoc: "remdups (xs @ [b]) = remdups (filter (\<lambda>x. x \<noteq> b) xs) @ [b]"
  by (induction xs) auto

lemma nr_loop_ok:
  "set bands \<subseteq> set allowed5GBands \<Longrightarrow>
   nr_loop bands seen parts = Inr (parts @ map Itoa (rev (remdups (rev (filter (\<lambda>b. b \<notin> seen) bands)))))"
proof (induction bands seen parts rule: nr_loop.induct)
  case (2 band bands seen parts)
  have "filter (\<lambda>x. x \<noteq> band) (filter (\<lambda>b. b \<notin> seen) bands) = filter (\<lambda>b. b \<notin> insert band seen) bands"
    by (auto simp: intro: filter_cong)
  then show ?case using 2 by (auto simp: remdups_snoc rev_filter [symmetric])
qed simp

lemma key_order:
  "''gw_band_mask'' \<le> ''is_gw_band''" "''gw_band_mask'' \<le> ''is_lte_band''" "''gw_band_mask'' \<le> ''lte_band_mask''"
  "''is_gw_band'' \<le> ''is_lte_band''" "''is_gw_band'' \<le> ''lte_band_mask''" "''is_lte_band'' \<le> ''lte_band_mask''"
  "\<not> ''is_gw_band'' \<le> ''gw_band_mask''" "''nr5g_band'' \<le> ''nr5g_type''" "\<not> ''nr5g_type'' \<le> ''nr5g_band''"
  by code_simp+

lemma plain_keys:
  "json_string ''gw_band_mask'' = [CHR 0x22] @ ''gw_band_mask'' @ [CHR 0x22]" "json_string ''is_gw_band'' = [CHR 0x22] @ ''is_gw_band'' @ [CHR 0x22]"
  "json_string ''is_lte_band'' = [CHR 0x22] @ ''is_lte_band'' @ [CHR 0x22]" "json_string ''lte_band_mask'' = [CHR 0x22] @ ''lte_band_mask'' @ [CHR 0x22]"
  "json_string ''nr5g_band'' = [CHR 0x22] @ ''nr5g_band'' @ [CHR 0x22]" "json_string ''nr5g_type'' = [CHR 0x22] @ ''nr5g_type'' @ [CHR 0x22]"
  "json_string ''0'' = [CHR 0x22] @ ''0'' @ [CHR 0x22]" "json_string ''1'' = [CHR 0x22] @ ''1'' @ [CHR 0x22]" "json_string ''SA'' = [CHR 0x22] @ ''SA'' @ [CHR 0x22]"
  by code_simp+

lemma lte_params_text:
  \<open>Marshal (JsObj [(''is_gw_band'', JsStr ''0''), (''gw_band_mask'', JsStr ''0''), (''is_lte_band'', JsStr ''1''), (''lte_band_mask'', JsStr t)]) =
   ''{"gw_band_mask":"0","is_gw_band":"0","is_lte_band":"1","lte_band_mask":'' @ json_string t @ ''}''\<close>
  by (simp add: key_order plain_keys)

lemma nr_params_text:
  \<open>Marshal (JsObj [(''nr5g_type'', JsStr ''SA''), (''nr5g_band'', JsStr t)]) = ''{"nr5g_band":'' @ json_string t @ '',"nr5g_type":"SA"}''\<close>
  by (simp add: key_order plain_keys)

lemma json_plain:
  assumes "list_all (\<lambda>c. is_digit c \<or> c = CHR '','') s"
  shows "json_string s = [CHR 0x22] @ s @ [CHR 0x22]"
proof -
  have "json_char c = [c]" if "is_digit c \<or> c = CHR '',''" for c
    using that by (auto simp: json_char_def is_digit_def code_def)
  then have "concat (map json_char s) = s" using assms by (induction s) auto
  then show ?thesis by (simp add: json_string_def)
qed

lemma utoa_plain: "list_all (\<lambda>c. is_digit c \<or> c = CHR '','') (utoa m)"
  using utoa_digits [of m] by (auto simp: all_digits_def list_all_def)

lemma bands_plain: "\<forall>b \<in> set bs. 0 \<le> b \<Longrightarrow> list_all (\<lambda>c. is_digit c \<or> c = CHR '','') (Join (map Itoa bs) '','')"
proof (induction bs)
  case (Cons b bs)
  then show ?case using utoa_plain [of "nat b"] by (cases bs) (auto simp: Itoa_def)
qed simp

text \<open>C21: a band lock is sent exactly when every band asked for is one the program allows, and otherwise nothing is sent and the reply has code 2.
  The \<^verbatim>\<open>ubus\<close> command of an LTE lock carries the decimal text of the mask whose bit \<open>i\<close> is set exactly when band \<open>i + 1\<close> was asked
  for; that of an NR lock carries the bands asked for, each once, in the order they were first given, separated by commas.\<close>

theorem band_locks_exact:
  \<open>(set bands \<subseteq> set allowed4GBands \<longrightarrow>
      (\<exists>m. (\<forall>i. bit m i \<longleftrightarrow> int i + 1 \<in> set bands) \<and>
        us_calls (snd (NetworkLTEBandLockHandler U (Some bands) s)) = us_calls s @
          [[''call'', ''zte_nwinfo_api'', ''nwinfo_set_gwl_bandlock'',
            ''{"gw_band_mask":"0","is_gw_band":"0","is_lte_band":"1","lte_band_mask":"'' @ utoa m @ ''"}'']])) \<and>
   (\<not> set bands \<subseteq> set allowed4GBands \<longrightarrow> (\<exists>e. NetworkLTEBandLockHandler U (Some bands) s = (Reply 2 e, s))) \<and>
   (set bands \<subseteq> set allowed5GBands \<longrightarrow>
      us_calls (snd (NetworkNRBandLockHandler U (Some bands) s)) = us_calls s @
        [[''call'', ''zte_nwinfo_api'', ''nwinfo_set_nrbandlock'',
          ''{"nr5g_band":"'' @ Join (map Itoa (rev (remdups (rev bands)))) '','' @ ''","nr5g_type":"SA"}'']]) \<and>
   (\<not> set bands \<subseteq> set allowed5GBands \<longrightarrow> (\<exists>e. NetworkNRBandLockHandler U (Some bands) s = (Reply 2 e, s)))\<close>
proof (intro conjI impI)
  assume "set bands \<subseteq> set allowed4GBands"
  from lteBandMask_exact [OF this] obtain m where m: "lteBandMask bands = Inr (utoa m)" "\<forall>i. bit m i \<longleftrightarrow> int i + 1 \<in> set bands" by blast
  have "us_calls (snd (NetworkLTEBandLockHandler U (Some bands) s)) = us_calls s @
      [[''call'', ''zte_nwinfo_api'', ''nwinfo_set_gwl_bandlock'', Marshal (JsObj [(''is_gw_band'', JsStr ''0''), (''gw_band_mask'', JsStr ''0''),
         (''is_lte_band'', JsStr ''1''), (''lte_band_mask'', JsStr (utoa m))])]]"
    by (simp add: NetworkLTEBandLockHandler_def m(1) ubus_reply_calls ubus_args_def del: Marshal.simps)
  then show \<open>\<exists>m. (\<forall>i. bit m i \<longleftrightarrow> int i + 1 \<in> set bands) \<and> us_calls (snd (NetworkLTEBandLockHandler U (Some bands) s)) = us_calls s @
      [[''call'', ''zte_nwinfo_api'', ''nwinfo_set_gwl_bandlock'',
        ''{"gw_band_mask":"0","is_gw_band":"0","is_lte_band":"1","lte_band_mask":"'' @ utoa m @ ''"}'']]\<close>
    using m(2) by (intro exI [of _ m]) (simp only: lte_params_text json_plain [OF utoa_plain], simp)
next
  assume "\<not> set bands \<subseteq> set allowed4GBands"
  then show "\<exists>e. NetworkLTEBandLockHandler U (Some bands) s = (Reply 2 e, s)"
    using lte_loop_bad [of bands "{}" 0] by (auto simp: NetworkLTEBandLockHandler_def lteBandMask_def)
next
  assume a: "set bands \<subseteq> set allowed5GBands"
  define bs where "bs = rev (remdups (rev bands))"
  have b: "nrBandString bands = Inr (Join (map Itoa bs) '','')" "set bs = set bands"
    using nr_loop_ok [OF a, of "{}" "[]"] by (simp_all add: nrBandString_def bs_def)
  have "\<forall>b \<in> set bs. 0 \<le> b" using a b(2) by (auto simp: allowed5GBands_def)
  note plain = json_plain [OF bands_plain [OF this]]
  have "us_calls (snd (NetworkNRBandLockHandler U (Some bands) s)) = us_calls s @
      [[''call'', ''zte_nwinfo_api'', ''nwinfo_set_nrbandlock'', Marshal (JsObj [(''nr5g_type'', JsStr ''SA''), (''nr5g_band'', JsStr (Join (map Itoa bs) '',''))])]]"
    by (simp add: NetworkNRBandLockHandler_def b(1) ubus_reply_calls ubus_args_def del: Marshal.simps)
  then show \<open>us_calls (snd (NetworkNRBandLockHandler U (Some bands) s)) = us_calls s @
      [[''call'', ''zte_nwinfo_api'', ''nwinfo_set_nrbandlock'',
        ''{"nr5g_band":"'' @ Join (map Itoa (rev (remdups (rev bands)))) '','' @ ''","nr5g_type":"SA"}'']]\<close>
    unfolding bs_def [symmetric] by (simp only: nr_params_text plain, simp)
next
  assume "\<not> set bands \<subseteq> set allowed5GBands"
  then show "\<exists>e. NetworkNRBandLockHandler U (Some bands) s = (Reply 2 e, s)"
    using nr_loop_bad [of bands "{}" "[]"] by (auto simp: NetworkNRBandLockHandler_def nrBandString_def)
qed

definition sample_ubus :: "unit ubus" where
  "sample_ubus = \<lparr>ub_exec = \<lambda>args d. ((None, ''{}''), d), ub_unmarshal = \<lambda>t. Some (JsObj [])\<rparr>"

theorem band_locks_exact_witness:
  "\<exists>m :: nat. (\<forall>i. bit m i \<longleftrightarrow> int i + 1 \<in> {3, 66 :: int}) \<and>
     length (us_calls (snd (NetworkLTEBandLockHandler sample_ubus (Some [66, 3, 66]) \<lparr>us_dev = (), us_calls = []\<rparr>))) = 1"
proof -
  let ?s = "\<lparr>us_dev = (), us_calls = []\<rparr>"
  have s: "set [66, 3, 66] \<subseteq> set allowed4GBands" "{3, 66 :: int} = set [66, 3, 66]" by (auto simp: allowed4GBands_def)
  obtain m :: nat and t where m: "\<forall>i. bit m i \<longleftrightarrow> int i + 1 \<in> set [66, 3, 66]"
      "us_calls (snd (NetworkLTEBandLockHandler sample_ubus (Some [66, 3, 66]) ?s)) = us_calls ?s @ [t]"
    using conjunct1 [OF band_locks_exact [of "[66, 3, 66]" sample_ubus ?s]] s(1) by blast
  then show ?thesis unfolding s(2) by (intro exI [of _ m]) simp
qed

section \<open>Modes, cells and WiFi\<close>

definition attr_fine :: "string \<times> string \<Rightarrow> bool" where
  "attr_fine kv = (case kv of (k, v) \<Rightarrow>
     TrimSpace v = [] \<or> k = ''txpowerpercent'' \<and> valid_power (TrimSpace v) \<or> k = ''country'' \<and> valid_country (TrimSpace v))"

definition attr_out :: "string \<times> string \<Rightarrow> (string \<times> json) option" where
  "attr_out kv = (case kv of (k, v) \<Rightarrow>
     if TrimSpace v = [] then None else Some (k, JsStr (if k = ''country'' then ToUpper (TrimSpace v) else TrimSpace v)))"

lemma sanitize_loop_iff:
  "sanitize_loop attrs out = Inr r \<longleftrightarrow> list_all attr_fine attrs \<and> r = out @ List.map_filter attr_out attrs"
  by (induction attrs out rule: sanitize_loop.induct) (auto simp: attr_fine_def attr_out_def Let_def List.map_filter_simps)

lemma sanitizeWifiAttrs_iff: "sanitizeWifiAttrs attrs = Inr r \<longleftrightarrow> list_all attr_fine attrs \<and> r = List.map_filter attr_out attrs"
  by (simp add: sanitizeWifiAttrs_def sanitize_loop_iff)

text \<open>What may be sent as a WiFi attribute.\<close>

definition wifi_attr_ok :: "string \<times> json \<Rightarrow> bool" where
  "wifi_attr_ok kx \<longleftrightarrow>
     (\<exists>t. snd kx = JsStr t \<and> (fst kx = ''txpowerpercent'' \<and> valid_power t \<or> fst kx = ''country'' \<and> length t = 2 \<and> list_all is_upper t))"

lemma upper_letter: "is_upper c \<or> is_lower c \<Longrightarrow> is_upper (upper_char c)"
  by (auto simp: upper_char_def is_upper_def is_lower_def)

lemma ToUpper_country: "valid_country v \<Longrightarrow> length (ToUpper v) = 2 \<and> list_all is_upper (ToUpper v)"
  by (auto simp: valid_country_def ToUpper_def list_all_iff upper_letter)

lemma sanitized_ok:
  assumes "sanitizeWifiAttrs attrs = Inr v"
  shows "list_all wifi_attr_ok v"
proof -
  have "wifi_attr_ok kx" if kv: "attr_fine kv" "attr_out kv = Some kx" for kv kx
    using kv ToUpper_country [of "TrimSpace (snd kv)"] by (auto simp: attr_fine_def attr_out_def wifi_attr_ok_def split: prod.splits if_splits)
  moreover have "set (List.map_filter attr_out attrs) = {kx. \<exists>kv \<in> set attrs. attr_out kv = Some kx}"
    by (induction attrs) (auto simp: List.map_filter_simps split: option.splits)
  ultimately show ?thesis using assms by (auto simp: sanitizeWifiAttrs_iff list_all_iff)
qed

lemma map_filter_mset: "mset xs = mset ys \<Longrightarrow> mset (List.map_filter f xs) = mset (List.map_filter f ys)"
  by (simp add: List.map_filter_def mset_filter)

lemma Marshal_permuted:
  assumes "mset v = mset v'" "distinct (map fst v)"
  shows "Marshal (JsObj v) = Marshal (JsObj v')"
proof -
  let ?m = "map (\<lambda>(k, x). (k, Marshal x))"
  have k: "map fst (?m v) = map fst v" by auto
  have "inj_on fst (set (?m v))" using assms(2) k by (metis distinct_map)
  moreover have "mset (?m v) = mset (sort_key fst (?m v'))" using assms(1) by simp
  ultimately have "sort_key fst (?m v) = sort_key fst (?m v')"
    by (intro sort_key_inj_key_eq) (auto simp: sorted_sort_key)
  then show ?thesis by simp
qed

lemma wifi_params_ok:
  "wifi_params name attrs = Inr p \<Longrightarrow> p = [] \<or> (\<exists>v. p = [(name, JsObj v)] \<and> list_all wifi_attr_ok v)"
  by (auto simp: wifi_params_def sanitized_ok split: if_splits sum.splits)

lemma attr_out_key: "attr_out kv = Some kx \<Longrightarrow> fst kx = fst kv"
  by (auto simp: attr_out_def split: prod.splits if_splits)

lemma map_filter_keys: "set (map fst (List.map_filter attr_out attrs)) \<subseteq> set (map fst attrs)"
  by (induction attrs) (auto simp: List.map_filter_simps attr_out_def split: option.splits if_splits)

lemma map_filter_distinct: "distinct (map fst attrs) \<Longrightarrow> distinct (map fst (List.map_filter attr_out attrs))"
proof (induction attrs)
  case (Cons kv attrs)
  then show ?case using map_filter_keys [of attrs] attr_out_key [of kv]
    by (cases "attr_out kv") (auto simp: List.map_filter_simps)
qed (simp add: List.map_filter_simps)

text \<open>The iteration order decides at most which error is reported.\<close>

lemma wifi_params_permuted:
  assumes "mset attrs = mset attrs'" "distinct (map fst attrs)"
  shows "(\<exists>e e'. wifi_params name attrs = Inl e \<and> wifi_params name attrs' = Inl e') \<or>
    (\<exists>p p'. wifi_params name attrs = Inr p \<and> wifi_params name attrs' = Inr p' \<and> (p = [] \<longleftrightarrow> p' = []) \<and>
       map (\<lambda>(k, x). (k, Marshal x)) p = map (\<lambda>(k, x). (k, Marshal x)) p')"
proof (cases "attrs = []")
  case False
  then have f: "attrs' \<noteq> []" using assms(1) by auto
  have a: "list_all attr_fine attrs = list_all attr_fine attrs'" using assms(1) by (metis list_all_iff mset_eq_setD)
  show ?thesis
  proof (cases "list_all attr_fine attrs")
    case True
    have "Marshal (JsObj (List.map_filter attr_out attrs)) = Marshal (JsObj (List.map_filter attr_out attrs'))"
      by (rule Marshal_permuted [OF map_filter_mset [OF assms(1)] map_filter_distinct [OF assms(2)]])
    moreover have "sanitizeWifiAttrs attrs = Inr (List.map_filter attr_out attrs)" "sanitizeWifiAttrs attrs' = Inr (List.map_filter attr_out attrs')"
      using True a by (simp_all add: sanitizeWifiAttrs_iff)
    ultimately show ?thesis using False f by (simp add: wifi_params_def del: Marshal.simps)
  next
    case no: False
    then obtain e e' where "sanitizeWifiAttrs attrs = Inl e" "sanitizeWifiAttrs attrs' = Inl e'"
      using a by (cases "sanitizeWifiAttrs attrs"; cases "sanitizeWifiAttrs attrs'") (auto simp: sanitizeWifiAttrs_iff)
    then show ?thesis using False f by (simp add: wifi_params_def)
  qed
qed (use assms in \<open>simp add: wifi_params_def\<close>)

lemma isNumericOrZero_Atoi: "isNumericOrZero t \<Longrightarrow> \<exists>n. Atoi (TrimSpace t) = Some n"
  by (simp add: isNumericOrZero_def Let_def)

lemma wifi_calls:
  "us_calls (snd (WifiSettingsSetHandler U (Some (wifi0, wifi1)) s)) =
     us_calls s @ (case (wifi_params ''wifi0'' wifi0, wifi_params ''wifi1'' wifi1) of
        (Inr p0, Inr p1) \<Rightarrow> if p0 = [] \<and> p1 = [] then [] else [ubus_args ''zwrt_wlan'' ''set'' (Some (p0 @ p1))]
      | _ \<Rightarrow> [])"
  by (auto simp: WifiSettingsSetHandler_def ubus_reply_calls split: sum.splits)

text \<open>C20: the other settings reach the device only as checked.  The network mode is sent only when it is one of the six names; a cell
  lock only when every field of it, trimmed, is a decimal number; WiFi attributes only in one call with at most the two radios, where a power is a
  number among 40, 80 and 100 and a country is two upper-case letters.  That call does not depend on the order in which the
  maps of the request are iterated, and no sequence of such requests makes more calls than it has requests.\<close>

theorem device_calls_checked:
  "(us_calls (snd (NetworkModeSetHandler U mode s)) = us_calls s \<or>
    (\<exists>sel \<in> set validNetSelect. mode = Some sel \<and> us_calls (snd (NetworkModeSetHandler U mode s)) =
       us_calls s @ [ubus_args ''zte_nwinfo_api'' ''nwinfo_set_netselect'' (Some [(''net_select'', JsStr sel)])])) \<and>
   (us_calls (snd (NetworkNRCellLockHandler U cell s)) = us_calls s \<or>
    (\<exists>p e b. cell = Some (p, e, b) \<and> list_all (\<lambda>t. Atoi (TrimSpace t) \<noteq> None) [p, e, b] \<and> us_calls (snd (NetworkNRCellLockHandler U cell s)) =
       us_calls s @ [ubus_args ''zte_nwinfo_api'' ''nwinfo_lock_nr_cell''
         (Some [(''lock_nr_pci'', JsStr p), (''lock_nr_earfcn'', JsStr e), (''lock_nr_cell_band'', JsStr b)])])) \<and>
   (us_calls (snd (NetworkLTECellLockHandler U lte s)) = us_calls s \<or>
    (\<exists>p e. lte = Some (p, e) \<and> list_all (\<lambda>t. Atoi (TrimSpace t) \<noteq> None) [p, e] \<and> us_calls (snd (NetworkLTECellLockHandler U lte s)) =
       us_calls s @ [ubus_args ''zte_nwinfo_api'' ''nwinfo_lock_lte_cell'' (Some [(''lock_lte_pci'', JsStr p), (''lock_lte_earfcn'', JsStr e)])])) \<and>
   (us_calls (snd (WifiSettingsSetHandler U (Some (wifi0, wifi1)) s)) = us_calls s \<or>
    (\<exists>ps. us_calls (snd (WifiSettingsSetHandler U (Some (wifi0, wifi1)) s)) = us_calls s @ [ubus_args ''zwrt_wlan'' ''set'' (Some ps)] \<and>
       (\<forall>(n, x) \<in> set ps. (n = ''wifi0'' \<or> n = ''wifi1'') \<and> (\<exists>v. x = JsObj v \<and> list_all wifi_attr_ok v)))) \<and>
   (mset wifi0 = mset wifi0' \<and> mset wifi1 = mset wifi1' \<and> distinct (map fst wifi0) \<and> distinct (map fst wifi1) \<longrightarrow>
    us_calls (snd (WifiSettingsSetHandler U (Some (wifi0, wifi1)) s)) = us_calls (snd (WifiSettingsSetHandler U (Some (wifi0', wifi1')) s))) \<and>
   (\<forall>bodies. length (us_calls (fold (\<lambda>body s. snd (WifiSettingsSetHandler U body s)) bodies s)) \<le> length (us_calls s) + length bodies)"
proof (intro conjI impI allI)
  show "length (us_calls (fold (\<lambda>body s. snd (WifiSettingsSetHandler U body s)) bodies s)) \<le> length (us_calls s) + length bodies" for bodies
    by (rule wifi_handler.calls_bounded)
next
  show "us_calls (snd (NetworkModeSetHandler U mode s)) = us_calls s \<or>
    (\<exists>sel \<in> set validNetSelect. mode = Some sel \<and> us_calls (snd (NetworkModeSetHandler U mode s)) =
       us_calls s @ [ubus_args ''zte_nwinfo_api'' ''nwinfo_set_netselect'' (Some [(''net_select'', JsStr sel)])])"
    by (cases mode) (simp_all add: NetworkModeSetHandler_def ubus_reply_calls)
  show "us_calls (snd (NetworkNRCellLockHandler U cell s)) = us_calls s \<or>
    (\<exists>p e b. cell = Some (p, e, b) \<and> list_all (\<lambda>t. Atoi (TrimSpace t) \<noteq> None) [p, e, b] \<and> us_calls (snd (NetworkNRCellLockHandler U cell s)) =
       us_calls s @ [ubus_args ''zte_nwinfo_api'' ''nwinfo_lock_nr_cell''
         (Some [(''lock_nr_pci'', JsStr p), (''lock_nr_earfcn'', JsStr e), (''lock_nr_cell_band'', JsStr b)])])"
    using isNumericOrZero_Atoi by (cases cell) (auto simp: NetworkNRCellLockHandler_def ubus_reply_calls Let_def split: prod.splits)
  show "us_calls (snd (NetworkLTECellLockHandler U lte s)) = us_calls s \<or>
    (\<exists>p e. lte = Some (p, e) \<and> list_all (\<lambda>t. Atoi (TrimSpace t) \<noteq> None) [p, e] \<and> us_calls (snd (NetworkLTECellLockHandler U lte s)) =
       us_calls s @ [ubus_args ''zte_nwinfo_api'' ''nwinfo_lock_lte_cell'' (Some [(''lock_lte_pci'', JsStr p), (''lock_lte_earfcn'', JsStr e)])])"
    using isNumericOrZero_Atoi by (cases lte) (auto simp: NetworkLTECellLockHandler_def ubus_reply_calls Let_def split: prod.splits)
  show "us_calls (snd (WifiSettingsSetHandler U (Some (wifi0, wifi1)) s)) = us_calls s \<or>
    (\<exists>ps. us_calls (snd (WifiSettingsSetHandler U (Some (wifi0, wifi1)) s)) = us_calls s @ [ubus_args ''zwrt_wlan'' ''set'' (Some ps)] \<and>
       (\<forall>(n, x) \<in> set ps. (n = ''wifi0'' \<or> n = ''wifi1'') \<and> (\<exists>v. x = JsObj v \<and> list_all wifi_attr_ok v)))"
  proof (cases "\<exists>p0 p1. wifi_params ''wifi0'' wifi0 = Inr p0 \<and> wifi_params ''wifi1'' wifi1 = Inr p1 \<and> \<not> (p0 = [] \<and> p1 = [])")
    case True
    then obtain p0 p1 where p: "wifi_params ''wifi0'' wifi0 = Inr p0" "wifi_params ''wifi1'' wifi1 = Inr p1" "\<not> (p0 = [] \<and> p1 = [])" by blast
    show ?thesis
      by (rule disjI2, rule exI [of _ "p0 @ p1"]) (use p wifi_params_ok [OF p(1)] wifi_params_ok [OF p(2)] in \<open>auto simp: wifi_calls\<close>)
  next
    case False
    then show ?thesis by (auto simp: wifi_calls split: sum.splits)
  qed
  assume "mset wifi0 = mset wifi0' \<and> mset wifi1 = mset wifi1' \<and> distinct (map fst wifi0) \<and> distinct (map fst wifi1)"
  then show "us_calls (snd (WifiSettingsSetHandler U (Some (wifi0, wifi1)) s)) = us_calls (snd (WifiSettingsSetHandler U (Some (wifi0', wifi1')) s))"
    using wifi_params_permuted [of wifi0 wifi0' "''wifi0''"] wifi_params_permuted [of wifi1 wifi1' "''wifi1''"]
    by (auto simp: wifi_calls ubus_args_def)
qed

section \<open>Stored settings\<close>

text \<open>settings that were saved are read back.  Settings are stored only when they pass the validation, only for the user that sent them, and
  then that user reads exactly them, once the codec decodes its own text to a value that is not blank; every other user
  reads what they read before, and a refused or failed save changes nothing.\<close>

theorem settings_read_back:
  assumes "DeviceSettingsSaveHandler E uid (Some req) db = (r, db')"
    and "se_unmarshal E (se_marshal E req) = Some req" "TrimSpace (se_marshal E req) \<noteq> []" "se_query E'" "se_unmarshal E' = se_unmarshal E"
  shows "(r = ReplySettings 0 (utf8 [0xe5, 0xb7, 0xb2, 0xe4, 0xbf, 0x9d, 0xe5, 0xad, 0x98]) req \<and> validatePersistedSettings req = None \<and>
      DeviceSettingsGetHandler E' uid db' = ReplySettings 0 ''ok'' req \<or> db' = db \<and> (\<exists>c m. r = Reply c m)) \<and>
    (\<forall>other. other \<noteq> uid \<longrightarrow> DeviceSettingsGetHandler E' other db' = DeviceSettingsGetHandler E' other db)"
  using assms
  by (auto simp: DeviceSettingsSaveHandler_def DeviceSettingsGetHandler_def SaveForUid_def FindByUid_def split: option.splits if_splits)

definition sample_settings_env :: settings_env where
  "sample_settings_env = \<lparr>se_query = True, se_write = True, se_marshal = \<lambda>r. ''{}'', se_unmarshal = \<lambda>t. Some zero_settings\<rparr>"

theorem settings_read_back_witness:
  "DeviceSettingsGetHandler sample_settings_env 7 (snd (DeviceSettingsSaveHandler sample_settings_env 7 (Some zero_settings) Map.empty)) =
     ReplySettings 0 ''ok'' zero_settings"
proof -
  let ?E = sample_settings_env
  have t: "TrimSpace ''{}'' \<noteq> []" by code_simp
  have v: "validatePersistedSettings zero_settings = None" by (simp add: validatePersistedSettings_def zero_settings_def)
  have "fst (DeviceSettingsSaveHandler ?E 7 (Some zero_settings) Map.empty) = ReplySettings 0 (utf8 [0xe5, 0xb7, 0xb2, 0xe4, 0xbf, 0x9d, 0xe5, 0xad, 0x98]) zero_settings"
    by (simp add: DeviceSettingsSaveHandler_def v SaveForUid_def FindByUid_def sample_settings_env_def)
  then show ?thesis
    using settings_read_back [of ?E 7 zero_settings Map.empty _ _ ?E, OF surjective_pairing] t by (simp add: sample_settings_env_def)
qed

theorem device_calls_checked_witness:
  "us_calls (snd (WifiSettingsSetHandler sample_ubus (Some ([(''country'', ''de''), (''txpowerpercent'', ''40'')], [])) \<lparr>us_dev = (), us_calls = []\<rparr>)) =
   us_calls (snd (WifiSettingsSetHandler sample_ubus (Some ([(''txpowerpercent'', ''40''), (''country'', ''de'')], [])) \<lparr>us_dev = (), us_calls = []\<rparr>))"
  using device_calls_checked [of sample_ubus None "\<lparr>us_dev = (), us_calls = []\<rparr>" None None
      "[(''country'', ''de''), (''txpowerpercent'', ''40'')]" "[]" "[(''txpowerpercent'', ''40''), (''country'', ''de'')]" "[]"]
  by (simp add: add_mset_commute)

end
