(* ===== verification/Web_Update.thy ===== *)
theory Web_Update
  imports Atomic_File Go_Bytes
begin

text \<open>
  The self-update of the web service (\<^verbatim>\<open>gossh/main.go\<close>): the version file and its check, the candidate addresses, the download
  with its progress, the replacement script and the handlers that start and cancel an update.  The network, the clock, \<^verbatim>\<open>url.Parse\<close>
  and the operating system's answers are parameters; a response is the list of its reads and how it ended.  The script is seen
  through its assignments and the command that restarts the program, under the quoting and word splitting of the POSIX shell.
\<close>

section \<open>Status\<close>

text \<open>The status without its two time stamps, which are only shown.\<close>

record UpdateDownloadStatus =
  ud_State :: string
  ud_Msg :: string
  ud_Mode :: string
  ud_Domain :: string
  ud_URL :: string
  ud_AssetName :: string
  ud_Downloaded :: int
  ud_Total :: int
  ud_Percent :: int
  ud_CurrentVersion :: string
  ud_LatestVersion :: string
  ud_ReleaseURL :: string

definition idle_status :: UpdateDownloadStatus where
  "idle_status = \<lparr>ud_State = ''idle'', ud_Msg = utf8 [0xe6, 0x9a, 0x82, 0xe6, 0x97, 0xa0, 0xe6, 0x9b, 0xb4, 0xe6, 0x96, 0xb0, 0xe4, 0xbb, 0xbb, 0xe5, 0x8a, 0xa1], ud_Mode = [], ud_Domain = [], ud_URL = [], ud_AssetName = [], ud_Downloaded = 0,
     ud_Total = 0, ud_Percent = 0, ud_CurrentVersion = [], ud_LatestVersion = [], ud_ReleaseURL = []\<rparr>"

text \<open>Go's division rounds towards zero.\<close>

definition quot :: "int \<Rightarrow> int \<Rightarrow> int" where
  "quot a b = sgn a * (abs a div b)"

definition setUpdateStatus :: "(UpdateDownloadStatus \<Rightarrow> UpdateDownloadStatus) \<Rightarrow> UpdateDownloadStatus \<Rightarrow> UpdateDownloadStatus" where
  "setUpdateStatus fn status =
     (let status = fn status in
      if ud_Total status > 0
      then let p = quot (wrap64 (ud_Downloaded status * 100)) (ud_Total status) in status\<lparr>ud_Percent := if p > 100 then 100 else p\<rparr>
      else status)"

definition isUpdateBusy :: "UpdateDownloadStatus \<Rightarrow> bool" where
  "isUpdateBusy status \<longleftrightarrow> ud_State status \<in> {''starting'', ''downloading'', ''installing'', ''restarting''}"

section \<open>Versions and addresses\<close>

definition safe_version_char :: "char \<Rightarrow> bool" where
  "safe_version_char r \<longleftrightarrow> is_lower r \<or> is_upper r \<or> is_digit r \<or> r = CHR ''.'' \<or> r = CHR ''_'' \<or> r = CHR ''-''"

definition isSafeUpdateVersion :: "string \<Rightarrow> bool" where
  "isSafeUpdateVersion v \<longleftrightarrow> length v \<le> 128 \<and> list_all safe_version_char v"

text \<open>An HTTP exchange as \<^verbatim>\<open>fetchLatestVersionWithClient\<close> sees it: no request or answer, a status that is not 200, or a body of which at most
  1024 bytes are read.\<close>

datatype fetch = FetchError string | FetchStatus string | FetchBody string | FetchReadError string

fun fetchLatestVersion :: "string \<Rightarrow> fetch \<Rightarrow> string + string" where
  "fetchLatestVersion url (FetchError e) = Inl e"
| "fetchLatestVersion url (FetchStatus st) = Inl (url @ '' '' @ utf8 [0xe8, 0xbf, 0x94, 0xe5, 0x9b, 0x9e, 0xe5, 0xbc, 0x82, 0xe5, 0xb8, 0xb8] @ '': '' @ st)"
| "fetchLatestVersion url (FetchReadError e) = Inl e"
| "fetchLatestVersion url (FetchBody text) =
     (let latestVersion = TrimSpace (take 1024 text) in
      if latestVersion = [] then Inl (''version.txt '' @ utf8 [0xe5, 0x86, 0x85, 0xe5, 0xae, 0xb9, 0xe4, 0xb8, 0xba, 0xe7, 0xa9, 0xba])
      else if \<not> isSafeUpdateVersion latestVersion then Inl (''version.txt '' @ utf8 [0xe7, 0x89, 0x88, 0xe6, 0x9c, 0xac, 0xe5, 0x8f, 0xb7, 0xe6, 0xa0, 0xbc, 0xe5, 0xbc, 0x8f, 0xe4, 0xb8, 0x8d, 0xe6, 0xad, 0xa3, 0xe7, 0xa1, 0xae] @ '': '' @ latestVersion)
      else Inr latestVersion)"

definition buildUpdateTryURLs :: "string \<Rightarrow> string list \<Rightarrow> string list" where
  "buildUpdateTryURLs originalURL proxies =
     (let trimmedURL = TrimPrefix (TrimPrefix originalURL ''https://'') ''http://'';
          addURL = (\<lambda>u urls. if u \<in> set urls then urls else urls @ [u]);
          step = (\<lambda>proxy urls.
            let proxy = TrimSpace proxy in
            if proxy = [] then urls
            else let proxy = (if HasSuffix proxy ''/'' then proxy else proxy @ ''/'') in addURL (proxy @ trimmedURL) (addURL (proxy @ originalURL) urls))
      in addURL originalURL (fold step proxies []))"

fun first_version :: "(string \<Rightarrow> fetch) \<Rightarrow> string list \<Rightarrow> string option \<Rightarrow> string + string" where
  "first_version get [] lastErr =
     Inl (utf8 [0xe5, 0xb7, 0xb2, 0xe5, 0xb0, 0x9d, 0xe8, 0xaf, 0x95] @ '' mihomo'' @ utf8 [0xe3, 0x80, 0x81, 0xe4, 0xbb, 0xa3, 0xe7, 0x90, 0x86, 0xe5, 0x92, 0x8c] @ '' raw.githubusercontent.com '' @ utf8 [0xe5, 0x85, 0x9c, 0xe5, 0xba, 0x95] @ '': '' @
       (case lastErr of None \<Rightarrow> utf8 [0xe6, 0xb2, 0xa1, 0xe6, 0x9c, 0x89, 0xe5, 0x8f, 0xaf, 0xe7, 0x94, 0xa8, 0xe7, 0x9a, 0x84, 0xe6, 0x9b, 0xb4, 0xe6, 0x96, 0xb0, 0xe7, 0xba, 0xbf, 0xe8, 0xb7, 0xaf] | Some e \<Rightarrow> e))"
| "first_version get (u # urls) lastErr =
     (case fetchLatestVersion u (get u) of Inr v \<Rightarrow> Inr v | Inl e \<Rightarrow> first_version get urls (Some e))"

definition updateVersionFileURL :: string where
  "updateVersionFileURL = ''https://raw.githubusercontent.com/Jack-bin183/WebSSH-u60pro/version/version.txt''"

text \<open>The exchange through the local proxy, when one is detected, comes first.\<close>

definition getLatestVersionFromFile :: "fetch option \<Rightarrow> (string \<Rightarrow> fetch) \<Rightarrow> string list \<Rightarrow> string + string" where
  "getLatestVersionFromFile mihomo get proxies =
     (let urls = buildUpdateTryURLs updateVersionFileURL proxies in
      case mihomo of
        None \<Rightarrow> first_version get urls None
      | Some f \<Rightarrow> (case fetchLatestVersion updateVersionFileURL f of Inr v \<Rightarrow> Inr v | Inl e \<Rightarrow> first_version get urls (Some e)))"

section \<open>Download\<close>

text \<open>A read of the body with the outcome of writing it, and how the reading ended: at the end of the body, with an error, or by
  cancellation.\<close>

record body_read =
  br_data :: "byte list"
  br_written :: nat
  br_werr :: "string option"

datatype body_end = EndEOF | EndError string | EndCancel

datatype dl_error = Canceled | Broken string

definition downloaded_status :: "nat \<Rightarrow> UpdateDownloadStatus \<Rightarrow> UpdateDownloadStatus" where
  "downloaded_status n = setUpdateStatus (\<lambda>s. s\<lparr>ud_Downloaded := int n\<rparr>)"

fun copy_body :: "body_read list \<Rightarrow> body_end \<Rightarrow> byte list \<Rightarrow> UpdateDownloadStatus \<Rightarrow> dl_error option \<times> byte list \<times> UpdateDownloadStatus" where
  "copy_body [] EndEOF saved st = (None, saved, st)"
| "copy_body [] (EndError e) saved st = (Some (Broken e), saved, st)"
| "copy_body [] EndCancel saved st = (Some Canceled, saved, st)"
| "copy_body (r # rs) fin saved st =
     (let saved = saved @ take (br_written r) (br_data r); st = downloaded_status (length saved) st in
      case br_werr r of
        Some e \<Rightarrow> (Some (Broken e), saved, st)
      | None \<Rightarrow> if br_written r \<noteq> length (br_data r) then (Some (Broken ''short write''), saved, st) else copy_body rs fin saved st)"

text \<open>One attempt: a request that cannot be made, no answer (and whether the task was cancelled), another status than 200, a file
  that cannot be opened, or a body with its announced length and whether the file can be examined afterwards.\<close>

datatype attempt =
    NoRequest string
  | NoAnswer string bool
  | HttpStatus int
  | NoFile string
  | Answer "body_read list" body_end int bool

datatype attempt_result = Complete "byte list" | Stopped | Fatal string | Retry string

definition fill_status :: "int \<Rightarrow> UpdateDownloadStatus \<Rightarrow> UpdateDownloadStatus" where
  "fill_status tot = setUpdateStatus (\<lambda>s. s\<lparr>ud_Total := tot, ud_Downloaded := 0, ud_Percent := 0, ud_Msg := utf8 [0xe6, 0xad, 0xa3, 0xe5, 0x9c, 0xa8, 0xe4, 0xb8, 0x8b, 0xe8, 0xbd, 0xbd, 0xe6, 0x9b, 0xb4, 0xe6, 0x96, 0xb0, 0xe6, 0x96, 0x87, 0xe4, 0xbb, 0xb6]\<rparr>)"

definition message_status :: "string \<Rightarrow> UpdateDownloadStatus \<Rightarrow> UpdateDownloadStatus" where
  "message_status msg = setUpdateStatus (\<lambda>s. s\<lparr>ud_Msg := msg\<rparr>)"

definition installing_status :: "nat \<Rightarrow> UpdateDownloadStatus \<Rightarrow> UpdateDownloadStatus" where
  "installing_status n = setUpdateStatus (\<lambda>s. s\<lparr>ud_State := ''installing'', ud_Msg := utf8 [0xe4, 0xb8, 0x8b, 0xe8, 0xbd, 0xbd, 0xe5, 0xae, 0x8c, 0xe6, 0x88, 0x90, 0xef, 0xbc, 0x8c, 0xe6, 0xad, 0xa3, 0xe5, 0x9c, 0xa8, 0xe5, 0x87, 0x86, 0xe5, 0xa4, 0x87, 0xe6, 0x9b, 0xbf, 0xe6, 0x8d, 0xa2, 0xe7, 0xa8, 0x8b, 0xe5, 0xba, 0x8f], ud_Downloaded := int n,
     ud_Total := if ud_Total s \<le> 0 then int n else ud_Total s, ud_Percent := 100\<rparr>)"

fun try_attempt :: "int \<Rightarrow> attempt \<Rightarrow> UpdateDownloadStatus \<Rightarrow> attempt_result \<times> UpdateDownloadStatus" where
  "try_attempt hint (NoRequest e) st = (Retry e, st)"
| "try_attempt hint (NoAnswer e cancelled) st =
     (if cancelled then (Stopped, st)
      else (Retry e, message_status (utf8 [0xe5, 0xbd, 0x93, 0xe5, 0x89, 0x8d, 0xe7, 0xba, 0xbf, 0xe8, 0xb7, 0xaf] @ '' 3 '' @ utf8 [0xe7, 0xa7, 0x92, 0xe5, 0x86, 0x85, 0xe6, 0x9c, 0xaa, 0xe8, 0xbf, 0x9e, 0xe4, 0xb8, 0x8a, 0xe6, 0x88, 0x96, 0xe8, 0xbf, 0x9e, 0xe6, 0x8e, 0xa5, 0xe5, 0xa4, 0xb1, 0xe8, 0xb4, 0xa5, 0xef, 0xbc, 0x8c, 0xe6, 0xad, 0xa3, 0xe5, 0x9c, 0xa8, 0xe5, 0xb0, 0x9d, 0xe8, 0xaf, 0x95, 0xe4, 0xb8, 0x8b, 0xe4, 0xb8, 0x80, 0xe7, 0xba, 0xbf, 0xe8, 0xb7, 0xaf]) st))"
| "try_attempt hint (HttpStatus status) st =
     (Retry (''HTTP '' @ Itoa status), message_status (utf8 [0xe5, 0xbd, 0x93, 0xe5, 0x89, 0x8d, 0xe7, 0xba, 0xbf, 0xe8, 0xb7, 0xaf, 0xe8, 0xbf, 0x94, 0xe5, 0x9b, 0x9e] @ '' HTTP '' @ Itoa status @ utf8 [0xef, 0xbc, 0x8c, 0xe6, 0xad, 0xa3, 0xe5, 0x9c, 0xa8, 0xe5, 0xb0, 0x9d, 0xe8, 0xaf, 0x95, 0xe4, 0xb8, 0x8b, 0xe4, 0xb8, 0x80, 0xe7, 0xba, 0xbf, 0xe8, 0xb7, 0xaf]) st)"
| "try_attempt hint (NoFile e) st = (Fatal e, st)"
| "try_attempt hint (Answer reads fin contentLength stat_ok) st =
     (let tot = (if contentLength > 0 then contentLength else hint);
          (err, saved, st) = copy_body reads fin [] (fill_status tot st)
      in case err of
           Some Canceled \<Rightarrow> (Stopped, st)
         | Some (Broken e) \<Rightarrow> (Retry e, message_status (utf8 [0xe5, 0xbd, 0x93, 0xe5, 0x89, 0x8d, 0xe7, 0xba, 0xbf, 0xe8, 0xb7, 0xaf, 0xe4, 0xb8, 0x8b, 0xe8, 0xbd, 0xbd, 0xe4, 0xb8, 0xad, 0xe6, 0x96, 0xad, 0xef, 0xbc, 0x8c, 0xe6, 0xad, 0xa3, 0xe5, 0x9c, 0xa8, 0xe5, 0xb0, 0x9d, 0xe8, 0xaf, 0x95, 0xe4, 0xb8, 0x8b, 0xe4, 0xb8, 0x80, 0xe7, 0xba, 0xbf, 0xe8, 0xb7, 0xaf]) st)
         | None \<Rightarrow>
             if \<not> stat_ok \<or> length saved = 0 then (Retry (utf8 [0xe4, 0xb8, 0x8b, 0xe8, 0xbd, 0xbd, 0xe6, 0x96, 0x87, 0xe4, 0xbb, 0xb6, 0xe4, 0xb8, 0xba, 0xe7, 0xa9, 0xba]), st)
             else (Complete saved, installing_status (length saved) st))"

text \<open>\<open>host\<close> is the host \<^verbatim>\<open>url.Parse\<close> finds; \<open>None\<close> is its error.\<close>

definition updateAttemptStatus :: "(string \<Rightarrow> string option) \<Rightarrow> string \<Rightarrow> string \<Rightarrow> UpdateDownloadStatus \<Rightarrow> UpdateDownloadStatus" where
  "updateAttemptStatus host rawURL originalURL =
     (let originalHost = (case host originalURL of Some h \<Rightarrow> h | None \<Rightarrow> []);
          mode = (if host rawURL = Some originalHost then utf8 [0xe7, 0x9b, 0xb4, 0xe8, 0xbf, 0x9e] else utf8 [0xe4, 0xbb, 0xa3, 0xe7, 0x90, 0x86])
      in setUpdateStatus (\<lambda>s. s\<lparr>ud_State := ''downloading'', ud_Msg := utf8 [0xe6, 0xad, 0xa3, 0xe5, 0x9c, 0xa8, 0xe4, 0xb8, 0x8b, 0xe8, 0xbd, 0xbd, 0xe6, 0x9b, 0xb4, 0xe6, 0x96, 0xb0, 0xe6, 0x96, 0x87, 0xe4, 0xbb, 0xb6], ud_Mode := mode,
           ud_Domain := (case host rawURL of Some h \<Rightarrow> h | None \<Rightarrow> ud_Domain s), ud_URL := rawURL, ud_Downloaded := 0, ud_Percent := 0\<rparr>))"

fun try_urls :: "(string \<Rightarrow> string option) \<Rightarrow> (string \<Rightarrow> bool) \<Rightarrow> (string \<Rightarrow> attempt) \<Rightarrow> string \<Rightarrow> int \<Rightarrow> string list \<Rightarrow> string option \<Rightarrow> UpdateDownloadStatus \<Rightarrow>
    (dl_error + byte list) \<times> UpdateDownloadStatus" where
  "try_urls host cancelled get original hint [] lastErr st =
     (Inl (Broken (utf8 [0xe4, 0xb8, 0x8b, 0xe8, 0xbd, 0xbd, 0xe5, 0xa4, 0xb1, 0xe8, 0xb4, 0xa5, 0xef, 0xbc, 0x8c, 0xe5, 0xb0, 0x9d, 0xe8, 0xaf, 0x95, 0xe4, 0xbb, 0xa3, 0xe7, 0x90, 0x86, 0xe5, 0x92, 0x8c] @ '' GitHub '' @ utf8 [0xe5, 0x85, 0x9c, 0xe5, 0xba, 0x95, 0xe9, 0x83, 0xbd, 0xe5, 0xa4, 0xb1, 0xe8, 0xb4, 0xa5] @ '': '' @ (case lastErr of None \<Rightarrow> ''<nil>'' | Some e \<Rightarrow> e))), st)"
| "try_urls host cancelled get original hint (u # urls) lastErr st =
     (if cancelled u then (Inl Canceled, st)
      else case try_attempt hint (get u) (updateAttemptStatus host u original st) of
        (Complete saved, st) \<Rightarrow> (Inr saved, st)
      | (Stopped, st) \<Rightarrow> (Inl Canceled, st)
      | (Fatal e, st) \<Rightarrow> (Inl (Broken e), st)
      | (Retry e, st) \<Rightarrow> try_urls host cancelled get original hint urls (Some e) st)"

record update_net =
  un_host :: "string \<Rightarrow> string option"
  un_cancelled :: "string \<Rightarrow> bool"
  un_get :: "string \<Rightarrow> attempt"
  un_mihomo :: "(string \<times> attempt \<times> bool) option"
  un_rank :: "string list \<Rightarrow> string list"

text \<open>\<^verbatim>\<open>downloadFileWithClient\<close> through the local proxy: any failure is one error.\<close>

definition mihomo_attempt :: "int \<Rightarrow> attempt \<Rightarrow> UpdateDownloadStatus \<Rightarrow> (string + byte list) \<times> UpdateDownloadStatus" where
  "mihomo_attempt hint a st =
     (case a of
        NoRequest e \<Rightarrow> (Inl e, st)
      | NoAnswer e _ \<Rightarrow> (Inl e, st)
      | HttpStatus status \<Rightarrow> (Inl (''HTTP '' @ Itoa status), st)
      | NoFile e \<Rightarrow> (Inl e, st)
      | Answer reads fin contentLength stat_ok \<Rightarrow>
          (let tot = (if contentLength > 0 then contentLength else hint);
               st = setUpdateStatus (\<lambda>s. s\<lparr>ud_Total := tot, ud_Downloaded := 0, ud_Percent := 0, ud_Msg := utf8 [0xe6, 0xad, 0xa3, 0xe5, 0x9c, 0xa8, 0xe9, 0x80, 0x9a, 0xe8, 0xbf, 0x87] @ '' mihomo '' @ utf8 [0xe4, 0xb8, 0x8b, 0xe8, 0xbd, 0xbd, 0xe6, 0x9b, 0xb4, 0xe6, 0x96, 0xb0, 0xe6, 0x96, 0x87, 0xe4, 0xbb, 0xb6]\<rparr>) st;
               (err, saved, st) = copy_body reads fin [] st
           in case err of
                Some Canceled \<Rightarrow> (Inl ''context canceled'', st)
              | Some (Broken e) \<Rightarrow> (Inl e, st)
              | None \<Rightarrow> if \<not> stat_ok \<or> length saved = 0 then (Inl (utf8 [0xe4, 0xb8, 0x8b, 0xe8, 0xbd, 0xbd, 0xe6, 0x96, 0x87, 0xe4, 0xbb, 0xb6, 0xe4, 0xb8, 0xba, 0xe7, 0xa9, 0xba]), st) else (Inr saved, installing_status (length saved) st)))"

definition downloadFile :: "update_net \<Rightarrow> string \<Rightarrow> int \<Rightarrow> string list \<Rightarrow> UpdateDownloadStatus \<Rightarrow> (dl_error + byte list) \<times> UpdateDownloadStatus" where
  "downloadFile N downloadURL hint proxies st =
     (let direct = try_urls (un_host N) (un_cancelled N) (un_get N) downloadURL hint (buildUpdateTryURLs downloadURL (un_rank N proxies)) in
      case un_mihomo N of
        None \<Rightarrow> direct None st
      | Some (proxyURL, a, cancelled) \<Rightarrow>
          (let st = setUpdateStatus (\<lambda>s. s\<lparr>ud_State := ''downloading'', ud_Msg := utf8 [0xe6, 0xad, 0xa3, 0xe5, 0x9c, 0xa8, 0xe9, 0x80, 0x9a, 0xe8, 0xbf, 0x87] @ '' mihomo '' @ utf8 [0xe4, 0xb8, 0x8b, 0xe8, 0xbd, 0xbd, 0xe6, 0x9b, 0xb4, 0xe6, 0x96, 0xb0, 0xe6, 0x96, 0x87, 0xe4, 0xbb, 0xb6], ud_Mode := ''mihomo'',
                 ud_Domain := TrimPrefix proxyURL ''http://'', ud_URL := downloadURL, ud_Downloaded := 0, ud_Percent := 0\<rparr>) st
           in case mihomo_attempt hint a st of
                (Inr saved, st) \<Rightarrow> (Inr saved, st)
              | (Inl e, st) \<Rightarrow>
                  if cancelled then (Inl Canceled, st)
                  else direct (Some e) (message_status (''mihomo '' @ utf8 [0xe4, 0xb8, 0x8b, 0xe8, 0xbd, 0xbd, 0xe5, 0xa4, 0xb1, 0xe8, 0xb4, 0xa5, 0xef, 0xbc, 0x8c, 0xe6, 0xad, 0xa3, 0xe5, 0x9c, 0xa8, 0xe5, 0xb0, 0x9d, 0xe8, 0xaf, 0x95, 0xe5, 0x86, 0x85, 0xe7, 0xbd, 0xae, 0xe7, 0xba, 0xbf, 0xe8, 0xb7, 0xaf]) st)))"

section \<open>Replacement script\<close>

definition shellQuote :: "string \<Rightarrow> string" where
  "shellQuote s =
     (if s = [] then [CHR 0x27, CHR 0x27]
      else [CHR 0x27] @ concat (map (\<lambda>c. if c = CHR 0x27 then [CHR 0x27, CHR 0x22, CHR 0x27, CHR 0x22, CHR 0x27] else [c]) s) @ [CHR 0x27])"

definition quotedArgs :: "string list \<Rightarrow> string" where
  "quotedArgs args = concat (map (\<lambda>arg. '' '' @ shellQuote arg) (tl args))"

text \<open>The assignments at the head of the script; its last command is \<^verbatim>\<open>nohup "$CURRENT_BIN" $ARGS\<close>.\<close>

definition script_assignments :: "string \<Rightarrow> int \<Rightarrow> string \<Rightarrow> string \<Rightarrow> string \<Rightarrow> string list \<Rightarrow> (string \<times> string) list" where
  "script_assignments logFile pid currentBin newBin workDir args =
     [(''LOG_FILE'', shellQuote logFile), (''OLD_PID'', Itoa pid), (''CURRENT_BIN'', shellQuote currentBin), (''NEW_BIN'', shellQuote newBin),
      (''WORK_DIR'', shellQuote workDir), (''ARGS'', quote (quotedArgs args))]"

section \<open>The task and its handlers\<close>

record update_os =
  uo_executable :: "string + string"
  uo_symlinks :: "string + string"
  uo_tempDir :: string
  uo_arch :: string
  uo_chmod :: "string option"
  uo_script :: "string option"
  uo_start :: "string option"

record update_effects =
  ue_removed :: "string list"
  ue_installed :: "(string \<times> byte list) option"

definition tmpNewBin :: "update_os \<Rightarrow> string \<Rightarrow> string" where
  "tmpNewBin S latestVersion = path_join (uo_tempDir S) (''webssh_'' @ uo_arch S @ ''_'' @ latestVersion @ ''.new'')"

definition failed_status :: "string \<Rightarrow> UpdateDownloadStatus \<Rightarrow> UpdateDownloadStatus" where
  "failed_status msg = setUpdateStatus (\<lambda>s. s\<lparr>ud_State := ''failed'', ud_Msg := msg\<rparr>)"

text \<open>The installed file is the one the started script moves into place.\<close>

definition runUpdateTask :: "update_os \<Rightarrow> update_net \<Rightarrow> string \<Rightarrow> int \<Rightarrow> string \<Rightarrow> string \<Rightarrow> string list \<Rightarrow> UpdateDownloadStatus \<Rightarrow>
    update_effects \<times> UpdateDownloadStatus" where
  "runUpdateTask S N url hint latestVersion releaseURL proxies st =
     (let none = \<lparr>ue_removed = [], ue_installed = None\<rparr> in
      case uo_executable S of Inl e \<Rightarrow> (none, failed_status (utf8 [0xe8, 0x8e, 0xb7, 0xe5, 0x8f, 0x96, 0xe5, 0xbd, 0x93, 0xe5, 0x89, 0x8d, 0xe4, 0xba, 0x8c, 0xe8, 0xbf, 0x9b, 0xe5, 0x88, 0xb6, 0xe8, 0xb7, 0xaf, 0xe5, 0xbe, 0x84, 0xe5, 0xa4, 0xb1, 0xe8, 0xb4, 0xa5] @ '': '' @ e) st) | Inr currentBin \<Rightarrow>
      case uo_symlinks S of Inl e \<Rightarrow> (none, failed_status (utf8 [0xe8, 0xa7, 0xa3, 0xe6, 0x9e, 0x90, 0xe5, 0xbd, 0x93, 0xe5, 0x89, 0x8d, 0xe4, 0xba, 0x8c, 0xe8, 0xbf, 0x9b, 0xe5, 0x88, 0xb6, 0xe7, 0x9c, 0x9f, 0xe5, 0xae, 0x9e, 0xe8, 0xb7, 0xaf, 0xe5, 0xbe, 0x84, 0xe5, 0xa4, 0xb1, 0xe8, 0xb4, 0xa5] @ '': '' @ e) st) | Inr currentBin \<Rightarrow>
      case downloadFile N url hint proxies st of
        (Inl Canceled, st) \<Rightarrow>
          (none\<lparr>ue_removed := [tmpNewBin S latestVersion]\<rparr>, setUpdateStatus (\<lambda>s. s\<lparr>ud_State := ''canceled'', ud_Msg := utf8 [0xe7, 0x94, 0xa8, 0xe6, 0x88, 0xb7, 0xe5, 0xb7, 0xb2, 0xe5, 0x8f, 0x96, 0xe6, 0xb6, 0x88, 0xe4, 0xb8, 0x8b, 0xe8, 0xbd, 0xbd], ud_Percent := 0\<rparr>) st)
      | (Inl (Broken e), st) \<Rightarrow>
          (none\<lparr>ue_removed := [tmpNewBin S latestVersion]\<rparr>, failed_status (utf8 [0xe4, 0xb8, 0x8b, 0xe8, 0xbd, 0xbd, 0xe6, 0x96, 0xb0, 0xe7, 0x89, 0x88, 0xe6, 0x9c, 0xac, 0xe5, 0xa4, 0xb1, 0xe8, 0xb4, 0xa5] @ '': '' @ e) st)
      | (Inr saved, st) \<Rightarrow>
          (case uo_chmod S of Some e \<Rightarrow> (none, failed_status (utf8 [0xe8, 0xae, 0xbe, 0xe7, 0xbd, 0xae, 0xe6, 0x96, 0xb0, 0xe4, 0xba, 0x8c, 0xe8, 0xbf, 0x9b, 0xe5, 0x88, 0xb6, 0xe6, 0x9d, 0x83, 0xe9, 0x99, 0x90, 0xe5, 0xa4, 0xb1, 0xe8, 0xb4, 0xa5] @ '': '' @ e) st) | None \<Rightarrow>
           case uo_script S of Some e \<Rightarrow> (none, failed_status (utf8 [0xe5, 0x88, 0x9b, 0xe5, 0xbb, 0xba, 0xe4, 0xb8, 0xb4, 0xe6, 0x97, 0xb6, 0xe6, 0x9b, 0xb4, 0xe6, 0x96, 0xb0, 0xe8, 0x84, 0x9a, 0xe6, 0x9c, 0xac, 0xe5, 0xa4, 0xb1, 0xe8, 0xb4, 0xa5] @ '': '' @ e) st) | None \<Rightarrow>
           case uo_start S of Some e \<Rightarrow> (none, failed_status (utf8 [0xe5, 0x90, 0xaf, 0xe5, 0x8a, 0xa8, 0xe4, 0xb8, 0xb4, 0xe6, 0x97, 0xb6, 0xe6, 0x9b, 0xb4, 0xe6, 0x96, 0xb0, 0xe8, 0x84, 0x9a, 0xe6, 0x9c, 0xac, 0xe5, 0xa4, 0xb1, 0xe8, 0xb4, 0xa5] @ '': '' @ e) st) | None \<Rightarrow>
             (none\<lparr>ue_installed := Some (tmpNewBin S latestVersion, saved)\<rparr>,
              setUpdateStatus (\<lambda>s. s\<lparr>ud_State := ''restarting'', ud_Msg := utf8 [0xe6, 0x9b, 0xb4, 0xe6, 0x96, 0xb0, 0xe6, 0x96, 0x87, 0xe4, 0xbb, 0xb6, 0xe5, 0xb7, 0xb2, 0xe5, 0x87, 0x86, 0xe5, 0xa4, 0x87, 0xe5, 0xae, 0x8c, 0xe6, 0x88, 0x90, 0xef, 0xbc, 0x8c, 0xe7, 0xa8, 0x8b, 0xe5, 0xba, 0x8f, 0xe5, 0x8d, 0xb3, 0xe5, 0xb0, 0x86, 0xe9, 0x87, 0x8d, 0xe5, 0x90, 0xaf], ud_Percent := 100, ud_ReleaseURL := releaseURL\<rparr>) st)))"

text \<open>\<^verbatim>\<open>url.Parse\<close> of the proxy as its scheme and host; \<open>None\<close> is its error.\<close>

definition normalizeUpdateProxy :: "(string \<Rightarrow> (string \<times> string) option) \<Rightarrow> string \<Rightarrow> string + string" where
  "normalizeUpdateProxy parse rawProxy =
     (let proxy = TrimSpace rawProxy in
      if proxy = [] then Inr []
      else let proxy = (if \<not> HasPrefix proxy ''http://'' \<and> \<not> HasPrefix proxy ''https://'' then ''https://'' @ proxy else proxy) in
        case parse proxy of
          None \<Rightarrow> Inl (utf8 [0xe4, 0xbb, 0xa3, 0xe7, 0x90, 0x86] @ '' URL '' @ utf8 [0xe6, 0xa0, 0xbc, 0xe5, 0xbc, 0x8f, 0xe4, 0xb8, 0x8d, 0xe6, 0xad, 0xa3, 0xe7, 0xa1, 0xae])
        | Some (scheme, host) \<Rightarrow>
            if scheme = [] \<or> host = [] then Inl (utf8 [0xe4, 0xbb, 0xa3, 0xe7, 0x90, 0x86] @ '' URL '' @ utf8 [0xe6, 0xa0, 0xbc, 0xe5, 0xbc, 0x8f, 0xe4, 0xb8, 0x8d, 0xe6, 0xad, 0xa3, 0xe7, 0xa1, 0xae])
            else if scheme \<noteq> ''http'' \<and> scheme \<noteq> ''https'' then Inl (utf8 [0xe4, 0xbb, 0xa3, 0xe7, 0x90, 0x86] @ '' URL '' @ utf8 [0xe5, 0x8f, 0xaa, 0xe6, 0x94, 0xaf, 0xe6, 0x8c, 0x81] @ '' http '' @ utf8 [0xe6, 0x88, 0x96] @ '' https'')
            else Inr (if HasSuffix proxy ''/'' then proxy else proxy @ ''/''))"

definition PROXIES :: "string list" where
  "PROXIES = [''https://v6.gh-proxy.org/'', ''https://ghfast.top/'', ''https://gh-proxy.com/'', ''https://ghproxy.net/'', ''https://gh.llkk.cc/'',
     ''https://hub.gitmirror.com/'', ''https://gh-proxy.org/'']"

definition updateProxiesFromRaw :: "(string \<Rightarrow> (string \<times> string) option) \<Rightarrow> string \<Rightarrow> string + string list" where
  "updateProxiesFromRaw parse rawProxy =
     (case normalizeUpdateProxy parse rawProxy of Inl e \<Rightarrow> Inl e | Inr p \<Rightarrow> Inr (if p \<noteq> [] then [p] else PROXIES))"

definition updateReleaseURL :: string where
  "updateReleaseURL = ''https://github.com/Jack-bin183/WebSSH-u60pro/releases/latest''"

definition updateAssetForVersion :: "string \<Rightarrow> string \<times> int \<times> string" where
  "updateAssetForVersion latestVersion =
     (''webssh_'' @ latestVersion, 0, ''https://github.com/Jack-bin183/WebSSH-u60pro/releases/latest/download/webssh_'' @ latestVersion)"

datatype update_reply = UpdateMsg int string | UpdateCurrent string string | UpdateData int string UpdateDownloadStatus

text \<open>The body: the proxy given, none at all, or a binding error.  The status is read for the check, and again when the task is announced, after the
  version has been fetched; the answer tells the address, version and proxies of the task started.\<close>

datatype run_body = RunProxy string | RunEmpty | RunError string

definition UpdateRunHandler :: "run_body \<Rightarrow> (string \<Rightarrow> (string \<times> string) option) \<Rightarrow> fetch option \<Rightarrow> (string \<Rightarrow> fetch) \<Rightarrow> string \<Rightarrow> UpdateDownloadStatus \<Rightarrow> UpdateDownloadStatus \<Rightarrow>
    update_reply \<times> UpdateDownloadStatus \<times> (string \<times> string \<times> string list) option" where
  "UpdateRunHandler body parse mihomo get version checked st =
     (if isUpdateBusy checked then (UpdateData 1 (utf8 [0xe5, 0xb7, 0xb2, 0xe6, 0x9c, 0x89, 0xe6, 0x9b, 0xb4, 0xe6, 0x96, 0xb0, 0xe4, 0xbb, 0xbb, 0xe5, 0x8a, 0xa1, 0xe6, 0xad, 0xa3, 0xe5, 0x9c, 0xa8, 0xe8, 0xbf, 0x9b, 0xe8, 0xa1, 0x8c]) checked, st, None)
      else case (case body of RunProxy p \<Rightarrow> Inr p | RunEmpty \<Rightarrow> Inr [] | RunError e \<Rightarrow> Inl e) of
        Inl e \<Rightarrow> (UpdateMsg 1 (utf8 [0xe6, 0x9b, 0xb4, 0xe6, 0x96, 0xb0, 0xe5, 0x8f, 0x82, 0xe6, 0x95, 0xb0, 0xe9, 0x94, 0x99, 0xe8, 0xaf, 0xaf] @ '': '' @ e), st, None)
      | Inr raw \<Rightarrow>
     (case updateProxiesFromRaw parse raw of
        Inl e \<Rightarrow> (UpdateMsg 1 e, st, None)
      | Inr proxies \<Rightarrow>
     (case getLatestVersionFromFile mihomo get proxies of
        Inl e \<Rightarrow> (UpdateMsg 1 (utf8 [0xe8, 0x8e, 0xb7, 0xe5, 0x8f, 0x96] @ '' version.txt '' @ utf8 [0xe5, 0xa4, 0xb1, 0xe8, 0xb4, 0xa5] @ '': '' @ e), st, None)
      | Inr latestVersion \<Rightarrow>
          (let currentVersion = TrimSpace version in
           if currentVersion = latestVersion then (UpdateCurrent currentVersion latestVersion, st, None)
           else let (name, bytes, url) = updateAssetForVersion latestVersion;
               st = setUpdateStatus (\<lambda>_. \<lparr>ud_State = ''starting'', ud_Msg = utf8 [0xe6, 0xad, 0xa3, 0xe5, 0x9c, 0xa8, 0xe5, 0x87, 0x86, 0xe5, 0xa4, 0x87, 0xe6, 0x9b, 0xb4, 0xe6, 0x96, 0xb0, 0xe4, 0xbb, 0xbb, 0xe5, 0x8a, 0xa1], ud_Mode = [], ud_Domain = [], ud_URL = [], ud_AssetName = name,
                 ud_Downloaded = 0, ud_Total = bytes, ud_Percent = 0, ud_CurrentVersion = currentVersion, ud_LatestVersion = latestVersion,
                 ud_ReleaseURL = updateReleaseURL\<rparr>) st
             in (UpdateData 0 (utf8 [0xe5, 0xb7, 0xb2, 0xe5, 0xbc, 0x80, 0xe5, 0xa7, 0x8b, 0xe4, 0xb8, 0x8b, 0xe8, 0xbd, 0xbd, 0xe6, 0x9b, 0xb4, 0xe6, 0x96, 0xb0, 0xe6, 0x96, 0x87, 0xe4, 0xbb, 0xb6]) st, st, Some (url, latestVersion, proxies))))))"

text \<open>Whether the task is cancelled, and the status after it.\<close>

definition UpdateCancelHandler :: "bool \<Rightarrow> UpdateDownloadStatus \<Rightarrow> update_reply \<times> bool \<times> UpdateDownloadStatus" where
  "UpdateCancelHandler has_cancel st =
     (if ud_State st \<noteq> ''starting'' \<and> ud_State st \<noteq> ''downloading'' then (UpdateData 1 (utf8 [0xe5, 0xbd, 0x93, 0xe5, 0x89, 0x8d, 0xe6, 0x9b, 0xb4, 0xe6, 0x96, 0xb0, 0xe7, 0x8a, 0xb6, 0xe6, 0x80, 0x81, 0xe4, 0xb8, 0x8d, 0xe5, 0x8f, 0xaf, 0xe5, 0x8f, 0x96, 0xe6, 0xb6, 0x88]) st, False, st)
      else if \<not> has_cancel then (UpdateData 1 (utf8 [0xe6, 0xb2, 0xa1, 0xe6, 0x9c, 0x89, 0xe5, 0x8f, 0xaf, 0xe5, 0x8f, 0x96, 0xe6, 0xb6, 0x88, 0xe7, 0x9a, 0x84, 0xe4, 0xb8, 0x8b, 0xe8, 0xbd, 0xbd, 0xe4, 0xbb, 0xbb, 0xe5, 0x8a, 0xa1]) st, False, st)
      else let st = message_status (utf8 [0xe6, 0xad, 0xa3, 0xe5, 0x9c, 0xa8, 0xe5, 0x8f, 0x96, 0xe6, 0xb6, 0x88, 0xe4, 0xb8, 0x8b, 0xe8, 0xbd, 0xbd]) st in (UpdateData 0 (utf8 [0xe5, 0xb7, 0xb2, 0xe5, 0x8f, 0x96, 0xe6, 0xb6, 0x88, 0xe4, 0xb8, 0x8b, 0xe8, 0xbd, 0xbd]) st, True, st))"

section \<open>Shell words\<close>

datatype sh_mode = Plain | Single | Double

definition sh_special :: "char \<Rightarrow> bool" where
  "sh_special c \<longleftrightarrow> is_space c \<or> c \<in> set [CHR '';'', CHR ''&'', CHR ''|'', CHR ''<'', CHR ''>'', CHR ''('', CHR '')'', CHR ''$'', CHR 0x60, CHR 0x5C, CHR ''*'', CHR ''?'', CHR ''['', CHR ''#'', CHR ''~'']"

text \<open>The value the shell gives a word of an assignment: quotes removed, no splitting.  \<open>None\<close> is a word that ends early, expands or is not closed.\<close>

fun sh_value :: "sh_mode \<Rightarrow> string \<Rightarrow> string option" where
  "sh_value Plain [] = Some []"
| "sh_value Plain (c # cs) =
     (if c = CHR 0x27 then sh_value Single cs
      else if c = CHR 0x22 then sh_value Double cs
      else if sh_special c then None
      else map_option (Cons c) (sh_value Plain cs))"
| "sh_value Single [] = None"
| "sh_value Single (c # cs) = (if c = CHR 0x27 then sh_value Plain cs else map_option (Cons c) (sh_value Single cs))"
| "sh_value Double [] = None"
| "sh_value Double (c # cs) =
     (if c = CHR 0x22 then sh_value Plain cs
      else if c = CHR ''$'' \<or> c = CHR 0x60 then None
      else if c = CHR 0x5C
      then (case cs of
              d # ds \<Rightarrow> if d \<in> set [CHR 0x22, CHR 0x5C, CHR ''$'', CHR 0x60] then map_option (Cons d) (sh_value Double ds)
                else map_option (Cons c) (sh_value Double cs)
            | [] \<Rightarrow> None)
      else map_option (Cons c) (sh_value Double cs))"

text \<open>An unquoted \<^verbatim>\<open>$ARGS\<close>: the value is split at white space, and its quotes are characters like any other; \<open>None\<close> when a pattern
  character would start pathname expansion.\<close>

definition sh_expand :: "string \<Rightarrow> string list option" where
  "sh_expand v = (if list_ex (\<lambda>c. c \<in> set [CHR ''*'', CHR ''?'', CHR ''['']) v then None else Some (Fields v))"

lemma sh_value_quoted:
  "sh_value Single (concat (map (\<lambda>c. if c = CHR 0x27 then [CHR 0x27, CHR 0x22, CHR 0x27, CHR 0x22, CHR 0x27] else [c]) s) @ CHR 0x27 # rest) =
   map_option ((@) s) (sh_value Plain rest)"
  by (induction s) (auto simp: option.map_comp comp_def option.map_ident)

lemma shellQuote_value: "sh_value Plain (shellQuote s) = Some s"
  using sh_value_quoted [of s "[]"] by (auto simp: shellQuote_def)

section \<open>What is installed\<close>

definition complete_answer :: "attempt \<Rightarrow> byte list \<Rightarrow> bool" where
  "complete_answer a data \<longleftrightarrow>
     (\<exists>reads len. a = Answer reads EndEOF len True \<and> data = concat (map br_data reads) \<and> data \<noteq> [] \<and>
        list_all (\<lambda>r. br_werr r = None \<and> br_written r = length (br_data r)) reads)"

lemma copy_body_complete:
  "copy_body reads fin saved st = (None, data, st') \<Longrightarrow>
   fin = EndEOF \<and> data = saved @ concat (map br_data reads) \<and> list_all (\<lambda>r. br_werr r = None \<and> br_written r = length (br_data r)) reads"
  by (induction reads fin saved st arbitrary: data st' rule: copy_body.induct) (auto simp: Let_def split: option.splits if_splits)

lemma try_attempt_complete: "try_attempt hint a st = (Complete data, st') \<Longrightarrow> complete_answer a data"
  by (cases a) (auto simp: complete_answer_def Let_def split: if_splits prod.splits option.splits dl_error.splits dest!: copy_body_complete)

lemma mihomo_attempt_complete: "mihomo_attempt hint a st = (Inr data, st') \<Longrightarrow> complete_answer a data"
  by (cases a) (auto simp: mihomo_attempt_def complete_answer_def Let_def split: if_splits prod.splits option.splits dl_error.splits dest!: copy_body_complete)

lemma try_urls_complete:
  "try_urls host cancelled get original hint urls lastErr st = (Inr data, st') \<Longrightarrow> \<exists>u \<in> set urls. complete_answer (get u) data"
proof (induction urls arbitrary: lastErr st)
  case (Cons u urls)
  then show ?case by (auto split: if_splits prod.splits attempt_result.splits dest!: try_attempt_complete)
qed simp

definition candidates :: "update_net \<Rightarrow> string \<Rightarrow> string list \<Rightarrow> attempt set" where
  "candidates N url proxies =
     (case un_mihomo N of None \<Rightarrow> {} | Some (p, a, c) \<Rightarrow> {a}) \<union> un_get N ` set (buildUpdateTryURLs url (un_rank N proxies))"

lemma downloadFile_complete:
  assumes "downloadFile N url hint proxies st = (Inr data, st')"
  shows "\<exists>a \<in> candidates N url proxies. complete_answer a data"
  using assms
  by (auto simp: downloadFile_def candidates_def Let_def split: option.splits prod.splits sum.splits if_splits
      dest!: try_urls_complete mihomo_attempt_complete)

lemma State_setUpdateStatus [simp]: "ud_State (setUpdateStatus f st) = ud_State (f st)"
  by (simp add: setUpdateStatus_def Let_def)

lemma task_ends:
  assumes "runUpdateTask S N url hint v rel proxies st = (eff, st')"
  shows "ue_installed eff = None \<and> ud_State st' \<in> {''failed'', ''canceled''} \<or>
    (\<exists>data. ue_installed eff = Some (tmpNewBin S v, data) \<and> ud_State st' = ''restarting'' \<and> (\<exists>a \<in> candidates N url proxies. complete_answer a data))"
  using assms
  by (auto simp: runUpdateTask_def failed_status_def Let_def split: sum.splits prod.splits option.splits dl_error.splits dest!: downloadFile_complete)

lemma fetch_safe: "fetchLatestVersion u f = Inr v \<Longrightarrow> isSafeUpdateVersion v \<and> v \<noteq> []"
  by (cases f) (auto simp: Let_def split: if_splits)

lemma first_version_safe: "first_version get urls e = Inr v \<Longrightarrow> isSafeUpdateVersion v \<and> v \<noteq> []"
  by (induction urls arbitrary: e) (auto split: sum.splits dest: fetch_safe)

lemma latest_version_safe: "getLatestVersionFromFile mihomo get proxies = Inr v \<Longrightarrow> isSafeUpdateVersion v \<and> v \<noteq> []"
  by (auto simp: getLatestVersionFromFile_def Let_def split: option.splits sum.splits dest: fetch_safe first_version_safe)

lemma safe_no_slash: "isSafeUpdateVersion v \<Longrightarrow> CHR ''/'' \<notin> set v"
  by (auto simp: isSafeUpdateVersion_def safe_version_char_def list_all_iff is_lower_def is_upper_def is_digit_def code_def)

lemma run_starts:
  assumes "UpdateRunHandler body parse mihomo get version checked st = (r, st', Some (url, v, proxies))"
  shows "\<not> isUpdateBusy checked \<and> isSafeUpdateVersion v \<and> v \<noteq> TrimSpace version \<and> ud_State st' = ''starting'' \<and>
    url = snd (snd (updateAssetForVersion v))"
  using assms
  by (auto simp: UpdateRunHandler_def updateAssetForVersion_def Let_def split: if_splits sum.splits run_body.splits dest: latest_version_safe)

lemma add_distinct: "distinct urls \<Longrightarrow> distinct (if u \<in> set urls then urls else urls @ [u])"
  by simp

lemma buildUpdateTryURLs_distinct: "distinct (buildUpdateTryURLs url proxies) \<and> url \<in> set (buildUpdateTryURLs url proxies)"
proof -
  let ?add = "\<lambda>u urls. if u \<in> set urls then urls else urls @ [u]"
  have "distinct urls \<Longrightarrow> (\<And>p urls. distinct urls \<Longrightarrow> distinct (f p urls)) \<Longrightarrow> distinct (fold f ps urls)" for f and ps urls :: "string list"
    by (induction ps arbitrary: urls) auto
  then show ?thesis unfolding buildUpdateTryURLs_def Let_def by (auto intro!: add_distinct)
qed


section \<open>The restarted program\<close>

definition plain_arg :: "string \<Rightarrow> bool" where
  "plain_arg a \<longleftrightarrow> a \<noteq> [] \<and> list_all (\<lambda>c. is_lower c \<or> is_upper c \<or> is_digit c \<or> c \<in> set ''-_./=:,'') a"

lemma split_on_words:
  assumes "\<forall>w \<in> set ws. s \<notin> set w"
  shows "split_on s (concat (map (\<lambda>w. s # w) ws)) = [] # ws"
proof -
  have "split_on s (w @ concat (map (\<lambda>w. s # w) ws)) = w # ws" if "s \<notin> set w" for w
    using that assms
  proof (induction ws arbitrary: w)
    case (Cons v ws)
    then show ?case using split_on_append [of s w "v @ concat (map (\<lambda>w. s # w) ws)"] by simp
  qed (simp add: split_on_no_sep)
  from this [of "[]"] show ?thesis by simp
qed

definition calm :: "char \<Rightarrow> bool" where
  "calm c \<longleftrightarrow> c \<notin> {CHR 0x22, CHR 0x5C, CHR ''$'', CHR 0x60, CHR ''*'', CHR ''?'', CHR ''[''} \<and> (is_space c \<longrightarrow> c = CHR '' '')"

lemma sh_value_double: "list_all calm q \<Longrightarrow> sh_value Double (q @ [CHR 0x22]) = Some q"
  by (induction q) (auto simp: calm_def)

lemma quote_calm: "list_all calm q \<Longrightarrow> quote q = CHR 0x22 # q @ [CHR 0x22]"
proof -
  have "list_all calm q \<Longrightarrow> concat (map (\<lambda>c. if c = CHR 0x22 \<or> c = CHR 0x5C then [CHR 0x5C, c] else [c]) q) = q"
    by (induction q) (auto simp: calm_def)
  then show "list_all calm q \<Longrightarrow> quote q = CHR 0x22 # q @ [CHR 0x22]" by (simp add: quote_def)
qed

lemma expand_calm:
  assumes "list_all calm q"
  shows "sh_expand q = Some (filter (\<lambda>f. f \<noteq> []) (split_on CHR '' '' q))"
proof -
  have "map (\<lambda>c. if is_space c then CHR '' '' else c) q = q" using assms by (induction q) (auto simp: calm_def)
  moreover have "\<not> list_ex (\<lambda>c. c \<in> set [CHR ''*'', CHR ''?'', CHR ''['']) q" using assms by (auto simp: calm_def list_all_iff list_ex_iff)
  ultimately show ?thesis by (simp add: sh_expand_def Fields_def del: list.set)
qed

lemma plain_arg_char:
  assumes "plain_arg a" "c \<in> set a"
  shows "calm c \<and> c \<noteq> CHR '' '' \<and> c \<noteq> CHR 0x27"
  using assms by (auto simp: plain_arg_def list_all_iff calm_def is_lower_def is_upper_def is_digit_def is_space_def code_def)

lemma quotedArgs_plain:
  assumes "list_all plain_arg (tl args)"
  shows "quotedArgs args = concat (map (\<lambda>w. CHR '' '' # w) (map (\<lambda>a. CHR 0x27 # a @ [CHR 0x27]) (tl args)))"
proof -
  have "concat (map (\<lambda>c. if c = CHR 0x27 then [CHR 0x27, CHR 0x22, CHR 0x27, CHR 0x22, CHR 0x27] else [c]) a) = a" if "\<forall>c \<in> set a. c \<noteq> CHR 0x27" for a
    using that by (induction a) auto
  then have "shellQuote a = CHR 0x27 # a @ [CHR 0x27]" if "plain_arg a" for a
    using that plain_arg_char [OF that] by (auto simp: shellQuote_def plain_arg_def)
  then show ?thesis using assms by (auto simp: quotedArgs_def list_all_iff intro!: arg_cong [of _ _ concat])
qed

text \<open>C23: the paths in the replacement script are read back by the shell exactly as they are, whatever characters they hold.  The arguments of the
  running program are not: for arguments of letters, digits and the usual punctuation, the program the script starts receives each of
  them with the two quotation marks that were put around it, so that no option is recognised after an update.\<close>

theorem restart_arguments_quoted:
  assumes "list_all plain_arg (tl args)"
  shows "sh_value Plain (shellQuote path) = Some path \<and>
    Option.bind (sh_value Plain (quote (quotedArgs args))) sh_expand = Some (map (\<lambda>a. CHR 0x27 # a @ [CHR 0x27]) (tl args))"
proof
  show "sh_value Plain (shellQuote path) = Some path" by (rule shellQuote_value)
  let ?ws = "map (\<lambda>a. CHR 0x27 # a @ [CHR 0x27]) (tl args)"
  note q = quotedArgs_plain [OF assms]
  have c: "calm (CHR 0x27)" "calm (CHR '' '')" by code_simp+
  then have calm: "list_all calm (quotedArgs args)"
    unfolding q using assms plain_arg_char by (auto simp: list_all_iff)
  have "split_on CHR '' '' (quotedArgs args) = [] # ?ws"
    unfolding q by (rule split_on_words) (use assms plain_arg_char in \<open>auto simp: list_all_iff\<close>)
  then have "sh_expand (quotedArgs args) = Some ?ws" by (simp add: expand_calm [OF calm] comp_def)
  moreover have "sh_value Plain (quote (quotedArgs args)) = Some (quotedArgs args)"
    by (simp add: quote_calm [OF calm] sh_value_double [OF calm])
  ultimately show "Option.bind (sh_value Plain (quote (quotedArgs args))) sh_expand = Some ?ws" by simp
qed

theorem restart_arguments_quoted_witness:
  "Option.bind (sh_value Plain (quote (quotedArgs [''webssh'', ''-WebBaseDir'', ''/ssh'']))) sh_expand =
     Some [CHR 0x27 # ''-WebBaseDir'' @ [CHR 0x27], CHR 0x27 # ''/ssh'' @ [CHR 0x27]]"
proof -
  have "list_all plain_arg [''-WebBaseDir'', ''/ssh'']" by code_simp
  then show ?thesis using restart_arguments_quoted [of "[''webssh'', ''-WebBaseDir'', ''/ssh'']" "''/tmp''"] by simp
qed

definition sample_net :: update_net where
  "sample_net = \<lparr>un_host = \<lambda>u. Some u, un_cancelled = \<lambda>u. False,
     un_get = \<lambda>u. Answer [\<lparr>br_data = [0x7f, 0x45], br_written = 2, br_werr = None\<rparr>] EndEOF 2 True, un_mihomo = None, un_rank = \<lambda>ps. ps\<rparr>"

definition sample_os :: update_os where
  "sample_os = \<lparr>uo_executable = Inr ''/opt/webssh'', uo_symlinks = Inr ''/opt/webssh'', uo_tempDir = ''/tmp'', uo_arch = ''arm64'', uo_chmod = None, uo_script = None, uo_start = None\<rparr>"

lemma triple_eq: "snd (snd x) = y \<Longrightarrow> x = (fst x, fst (snd x), y)"
  by (cases x) auto

lemma sample_task:
  "fst (runUpdateTask sample_os sample_net url hint v rel proxies st) = \<lparr>ue_removed = [], ue_installed = Some (tmpNewBin sample_os v, [0x7f, 0x45])\<rparr>"
proof -
  obtain u us where "buildUpdateTryURLs url proxies = u # us"
    using buildUpdateTryURLs_distinct [of url proxies] by (cases "buildUpdateTryURLs url proxies") auto
  then show ?thesis
    by (simp add: runUpdateTask_def downloadFile_def sample_os_def sample_net_def Let_def)
qed


end
