(* ===== verification/Spec2Isabelle.thy ===== *)
theory Spec2Isabelle
  imports Neighbor_Assets Reducer_Main Probe_Main Web_User Web_Network Web_Update
begin

text \<open>
  Verification of WebSSH-u60pro.

  The repository holds a web console for a U60 router (\<^verbatim>\<open>gossh\<close>, \<^verbatim>\<open>webssh\<close>) and two experiment tools for its
  modem (\<^verbatim>\<open>tools\<close>).  The program's own logic that is hard to get right is the neighbour-cell pipeline: a
  Qualcomm logger (\<^verbatim>\<open>diag_mdlog\<close>) is started with a qtrace configuration, a sequence of HDLC frames that
  enable log masks; it writes QMDL streams; the streams are parsed into serving and neighbour cells.  The
  service \<^verbatim>\<open>gossh/app/service\<close> does this for the web page, the tool \<^verbatim>\<open>tools/u60-qtrace-reducer\<close> searches for the
  smallest configuration that still shows the cells.  The tool \<^verbatim>\<open>tools/u60-nr-crossband-probe\<close> tries six ways of
  making the modem measure a cell of another band, as a transaction over its settings and its log masks.
  Around it the console decides who may use the router at all (\<^verbatim>\<open>gossh/app/middleware\<close>, \<^verbatim>\<open>web_user.go\<close>), changes the
  settings of the modem (\<^verbatim>\<open>network_settings.go\<close>) and replaces its own program by a newer release (\<^verbatim>\<open>main.go\<close>).
  This development models these four parts, function by function.

  \<^bold>\<open>Conventions.\<close>  A returned Go error is a value (\<open>Inl\<close> of a sum, or the \<open>err\<close> of a pair); a run-time panic is
  \<open>None\<close>, so a theorem that a function is never \<open>None\<close> says that it never panics.  Machine words keep their
  width, \<^verbatim>\<open>time.Duration\<close> wraps (\<open>wrap64\<close>), \<^verbatim>\<open>float64\<close> is the rational it denotes with every operation rounded
  (\<open>fl\<close>).  What the operating system, the modem and libraries answer is a parameter or part of an
  explicit state, so every theorem covers every sequence of answers, failures included.

  \<^bold>\<open>Library.\<close>
  \<^item> \<^verbatim>\<open>Prelude\<close>: words, indexing and slicing with their bounds checks, little-endian accessors, \<^verbatim>\<open>bytes.Split\<close>.
  \<^item> \<^verbatim>\<open>Go_Strings\<close>, \<^verbatim>\<open>Go_Format\<close>, \<^verbatim>\<open>Go_Floats\<close>, \<^verbatim>\<open>Float64\<close>: what the sources use of \<^verbatim>\<open>strings\<close>, \<^verbatim>\<open>strconv\<close>, \<^verbatim>\<open>fmt\<close>,
    \<^verbatim>\<open>time\<close>, \<^verbatim>\<open>errors\<close> and of IEEE doubles, with the rounding lemmas.
  \<^item> \<^verbatim>\<open>Go_Bytes\<close>: the conversions between Go strings and byte slices.
  \<^item> \<^verbatim>\<open>Go_Encoding\<close>: hexadecimal and base64 texts, instances of the contract \<open>text_codec\<close>.
  \<^item> \<^verbatim>\<open>Atomic_File\<close> (\<^verbatim>\<open>config.go\<close>, \<^verbatim>\<open>writeFileAtomic\<close>): the contract \<open>atomic_store\<close> of a store whose writes happen
    completely or not at all, and the proof that writing to a temporary file and renaming implements it.

  \<^bold>\<open>The reducer\<close>, \<^verbatim>\<open>tools/u60-qtrace-reducer\<close>.
  \<^item> \<^verbatim>\<open>Diag_Hdlc\<close> (\<^verbatim>\<open>config.go\<close>): byte stuffing as an instance of a framing contract, CRC-16/X-25 and its error detection.
  \<^item> \<^verbatim>\<open>Qtrace_Config\<close> (\<^verbatim>\<open>config.go\<close>): parser, mask builder, selection, encoder; the invariant of a parsed
    configuration, round trips, detection of every corrupted byte.
  \<^item> \<^verbatim>\<open>Reducer_Dry_Run\<close> (\<^verbatim>\<open>config.go\<close>, \<^verbatim>\<open>writeDryRun\<close>): the generated configurations and their manifest.
  \<^item> \<^verbatim>\<open>Qsh_Decode\<close>, \<^verbatim>\<open>Qsh_Parser\<close> (\<^verbatim>\<open>qmdl.go\<close>): record decoders, the byte loop against the list of complete segments,
    correlation of reports with candidates, aggregation, the verdict of a window.
  \<^item> \<^verbatim>\<open>Ddmin\<close> (\<^verbatim>\<open>ddmin.go\<close>): the search over an oracle with state and errors; termination, what the result is, and
    1-minimality for a deterministic oracle.  Its loop is a \<open>partial_function\<close>; that it always returns is
    proved, so no fuel is involved.  The contract of an oracle is the locale \<open>stateful_tester\<close>.
  \<^item> \<^verbatim>\<open>Reducer_Report\<close> (\<^verbatim>\<open>report.go\<close>), \<^verbatim>\<open>Reducer_Runner\<close> (\<^verbatim>\<open>runner.go\<close>): one capture, cleanup and candidate test over the
    state \<open>runner\<close> and the answers \<open>device\<close>; the step relation \<open>reducer_run\<close> collects everything the tool does
    to the modem, and its invariant is that no candidate is applied except directly after the zero masks.
  \<^item> \<^verbatim>\<open>Reducer_Controls\<close> (\<^verbatim>\<open>controls.go\<close>), \<^verbatim>\<open>Reducer_Search\<close> (\<^verbatim>\<open>ddmin.go\<close>): the control groups, repeated tests, calibration
    and the search, whose oracle on the device is an instance of \<open>stateful_tester\<close>.
  \<^item> \<^verbatim>\<open>Reducer_Main\<close> (\<^verbatim>\<open>main.go\<close>, \<^verbatim>\<open>private_probe.go\<close>): the commands, with the confirmations they ask for.
  \<^item> \<^verbatim>\<open>Sample_Modem\<close>: a modem that shows cells exactly under the full configuration, for the examples.

  \<^bold>\<open>The service\<close>, \<^verbatim>\<open>gossh/app/service\<close>.
  \<^item> \<^verbatim>\<open>Neighbor_Qmdl\<close> (\<^verbatim>\<open>neighbor_qmdl.go\<close>): the production parser, its exact aggregation, and that its decoders and its
    correlation are the same functions as the reducer's.  The two byte loops differ: the service does not
    compare the CRC of a frame and takes what is left at the end of a file as a frame, the reducer does neither.
  \<^item> \<^verbatim>\<open>Neighbor_Cell\<close> (\<^verbatim>\<open>neighbor_cell.go\<close>): reading the ubus snapshot and merging it with the parser's result.
  \<^item> \<^verbatim>\<open>Neighbor_Manager\<close> (\<^verbatim>\<open>neighbor_cell.go\<close>): the owner of the logger process as a transition system of requests,
    monitor ticks, exits and environment steps; signals only go to own processes, a logger is started only
    when none runs, every request leaves none behind.
  \<^item> \<^verbatim>\<open>Neighbor_Assets\<close> (\<^verbatim>\<open>neighbor_cell.go\<close>): the extraction of the embedded configuration, the text files and the
    status page; no logger is started on a configuration whose digest was not compared.

  \<^bold>\<open>The probe\<close>, \<^verbatim>\<open>tools/u60-nr-crossband-probe\<close>.
  \<^item> \<^verbatim>\<open>Probe_Qmi\<close> (\<^verbatim>\<open>qmi_protocol.go\<close>): QMI messages as an instance of the contract \<open>message_codec\<close>, scan requests.
  \<^item> \<^verbatim>\<open>Probe_Qtrace\<close> (\<^verbatim>\<open>qtrace.go\<close>): the frame codec, equal to the reducer's, and the patch that changes one bit.
  \<^item> \<^verbatim>\<open>Probe_Qmdl\<close> (\<^verbatim>\<open>qmdl.go\<close>): the measurement records of a capture and whether the target is among them.
  \<^item> \<^verbatim>\<open>Probe_Trace\<close> (\<^verbatim>\<open>qmi_trace.go\<close>, \<^verbatim>\<open>diff.go\<close>): events of the hook log and the comparison of two logs.
  \<^item> \<^verbatim>\<open>Probe_Scan\<close> (\<^verbatim>\<open>qmi_linux.go\<close>): the raw scan over a QRTR socket; a scan that may be active is always aborted.
  \<^item> \<^verbatim>\<open>Probe_Device\<close> (\<^verbatim>\<open>device.go\<close>, \<^verbatim>\<open>model.go\<close>): the controller of the settings, the recovery journal and the restore.
    Every operation appends to a log what it did to the device: ubus calls, journals written and
    removed, loggers started and stopped.  The settings, the masks and the journal are functions of that log.
  \<^item> \<^verbatim>\<open>Probe_Runner\<close> (\<^verbatim>\<open>runner.go\<close>, \<^verbatim>\<open>runRecoverCommand\<close>): an experiment, with the steps of its goroutine interleaved
    with the events of the monitor as the host chooses, and the recovery.
  \<^item> \<^verbatim>\<open>Probe_Transaction\<close>: the invariant \<open>guarded\<close> of a log, that it makes every point of it safe against a crash, and
    that each part of an experiment keeps it.
  \<^item> \<^verbatim>\<open>Probe_Recovery\<close>: the properties of the two entry points, \<^verbatim>\<open>runExperiment\<close> and \<^verbatim>\<open>runRecoverCommand\<close>.
  \<^item> \<^verbatim>\<open>Probe_Report\<close> (\<^verbatim>\<open>report.go\<close>): the CSV report, against a reader of RFC 4180.
  \<^item> \<^verbatim>\<open>Probe_Main\<close> (\<^verbatim>\<open>main.go\<close>, \<^verbatim>\<open>runExperimentCommand\<close>): the commands and their confirmations.

  \<^bold>\<open>The console\<close>, \<^verbatim>\<open>gossh\<close>.
  \<^item> \<^verbatim>\<open>Gin_Context\<close> (\<^verbatim>\<open>gin/context.go\<close>): the handler chain with its 8-bit index, \<^verbatim>\<open>Next\<close> and \<^verbatim>\<open>Abort\<close>; a chain of guards
    is their sequential composition, and a handler after one that aborts never runs.  The fuel of the chain
    bounds the nesting of \<^verbatim>\<open>Next\<close>; the lemmas show that one more than the number of handlers is enough.
  \<^item> \<^verbatim>\<open>Web_Crypto\<close> (\<^verbatim>\<open>utils/crypto.go\<close>): the encryption of stored secrets, which are read back as their trimmed texts.
  \<^item> \<^verbatim>\<open>Web_Access\<close> (\<^verbatim>\<open>middleware\<close>, \<^verbatim>\<open>gin/jwt\<close>): the address filter, the token check with its renewal and the administrator
    check, composed as the router composes them; what a served request implies, and the forged token that is
    served nevertheless.
  \<^item> \<^verbatim>\<open>Web_User\<close> (\<^verbatim>\<open>service/web_user.go\<close>, \<^verbatim>\<open>model/web_user.go\<close>): accounts and login over an explicit table; no sequence of
    operations touches the built-in administrator, and a login succeeds exactly with the stored password.
  \<^item> \<^verbatim>\<open>Web_Ubus\<close> (\<^verbatim>\<open>utils/ubus.go\<close>, \<^verbatim>\<open>service/zwrt_ubus.go\<close>): one ubus call, and the batch of concurrent calls as a step
    relation over its goroutines, which always finishes with one answer per request.
  \<^item> \<^verbatim>\<open>Web_Network\<close> (\<^verbatim>\<open>service/network_settings.go\<close>, \<^verbatim>\<open>model/user_setting.go\<close>): the setting handlers as instances of the
    contract \<open>device_handler\<close>, band locks as masks, and the stored settings.
  \<^item> \<^verbatim>\<open>Web_Update\<close> (\<^verbatim>\<open>main.go\<close>): the self-update; only a complete download is installed, and how the arguments of the
    program reach it after the restart.

  \<^bold>\<open>Bounds.\<close>  Two theorems bound a user-supplied count: the calibration runs are fewer than \<open>2 ^ 40\<close>, so that 0.95
  times their number is computed exactly enough.  The polling loop of a capture, the receive loop of a scan
  and the monitor of an experiment are driven by the finite list of events delivered before their deadline.
  The lookup and the abort of a scan have the 64 and 12 attempts of the source.  An action that outlives the
  four seconds the probe waits for it is taken not to write the journal any more; its call in flight is in the
  log with an unknown outcome.

  \<^bold>\<open>Not modelled.\<close>  The JSON texts of requests and files, SHA-256, AES, HMAC, the parsing of URLs and the syntax of
  command-line flags enter as parameters.  Device information, system tools, the speed test, the wireless
  autostart, the rate limits and the proxy client of the console forward to ubus, to shell commands and to
  files; the handlers of notes, certificates and connection settings forward to the database; the SSH and
  SFTP handlers, cgo access to the modem's file system, the vendored libraries except the parts of gin named
  above, and the front end are glue or third-party code.
\<close>

end
